(* ===== verification/Dns_Prelude.thy ===== *)
theory Dns_Prelude
  imports Main "HOL-Library.Word"
begin

unbundle bit_operations_syntax

section \<open>Prelude: Go values, outcomes and buffers\<close>

text \<open>
  The types and operations every component shares.
  \<^item> A Go byte is an \<^typ>\<open>8 word\<close>; a Go string and a byte slice are both byte lists.
    Offsets and lengths (Go's \<^verbatim>\<open>int\<close>) are natural numbers: a buffer never has
    \<open>2\<^sup>6\<^sup>3\<close> bytes, and the package never computes a negative offset.
  \<^item> A call that can fail has an \<open>outcome\<close>: a result, an error value, or a run-time
    panic (an index or a slice out of range). Every read or write of a slice that the source
    does not guard by itself goes through \<open>index_at\<close>, \<open>go_slice\<close>,
    \<open>go_slice_from\<close>, \<open>set_at\<close> or \<open>write_at\<close>, which panic out of
    range, so that the absence of panics is a theorem and not an assumption.
  \<^item> \<open>safe m Q\<close> says that a call does not panic and that its result, if it has one,
    satisfies \<open>Q\<close>; the collection \<open>safe_intros\<close> holds its rules.
\<close>

type_synonym byte = "8 word"
type_synonym bytes = "byte list"
type_synonym gostring = "byte list"
type_synonym u16 = "16 word"
type_synonym u32 = "32 word"
type_synonym u64 = "64 word"

text \<open>Go string literals, written as HOL strings.\<close>

definition str :: "string \<Rightarrow> gostring" where
  "str = map of_char"

abbreviation DOT :: byte where "DOT \<equiv> 0x2E"
abbreviation BSL :: byte where "BSL \<equiv> 0x5C"
abbreviation DQUOTE :: byte where "DQUOTE \<equiv> 0x22"

subsection \<open>Errors and outcomes\<close>

text \<open>
  The package's error values: the named variables of \<^verbatim>\<open>msg.go\<close>, an anonymous
  \<^verbatim>\<open>&Error{err: ...}\<close>, an error of a standard library decoder, and an error wrapped
  by \<^verbatim>\<open>fmt.Errorf\<close> with a context.
\<close>

datatype error =
    ErrBuf | ErrFqdn | ErrLongDomain | ErrRdata | ErrRcode | ErrExtendedRcode
  | ErrMsg string
  | ErrCorrupt
  | ErrWrap string error

datatype ('e, 'a) outcome = Ok 'a | Err 'e | Panic

text \<open>A call that returns an offset as well returns it with its error, too.\<close>

type_synonym 'a off_res = "(nat \<times> error, 'a) outcome"
type_synonym 'a res = "(error, 'a) outcome"

primrec bindR :: "('e, 'a) outcome \<Rightarrow> ('a \<Rightarrow> ('e, 'b) outcome) \<Rightarrow> ('e, 'b) outcome" where
  "bindR (Ok a) f = f a"
| "bindR (Err e) f = Err e"
| "bindR Panic f = Panic"

primrec mapErr :: "('e \<Rightarrow> 'f) \<Rightarrow> ('e, 'a) outcome \<Rightarrow> ('f, 'a) outcome" where
  "mapErr g (Ok a) = Ok a"
| "mapErr g (Err e) = Err (g e)"
| "mapErr g Panic = Panic"

text \<open>\<^verbatim>\<open>return len(msg), err\<close> and \<^verbatim>\<open>return off, fmt.Errorf("...: %w", err)\<close>.\<close>

definition fail_at :: "nat \<Rightarrow> nat \<times> error \<Rightarrow> nat \<times> error" where
  "fail_at n oe = (n, snd oe)"

definition wrap :: "string \<Rightarrow> nat \<times> error \<Rightarrow> nat \<times> error" where
  "wrap w oe = (fst oe, ErrWrap w (snd oe))"

definition safe :: "('e, 'a) outcome \<Rightarrow> ('a \<Rightarrow> bool) \<Rightarrow> bool" where
  "safe m Q = (case m of Ok a \<Rightarrow> Q a | Err e \<Rightarrow> True | Panic \<Rightarrow> False)"

subsection \<open>Slices\<close>

definition index_at :: "'a list \<Rightarrow> nat \<Rightarrow> ('e, 'a) outcome" where
  "index_at xs i = (if i < length xs then Ok (xs ! i) else Panic)"

definition go_slice :: "'a list \<Rightarrow> nat \<Rightarrow> nat \<Rightarrow> ('e, 'a list) outcome" where
  "go_slice xs lo hi =
     (if lo \<le> hi \<and> hi \<le> length xs then Ok (take (hi - lo) (drop lo xs)) else Panic)"

definition go_slice_from :: "'a list \<Rightarrow> nat \<Rightarrow> ('e, 'a list) outcome" where
  "go_slice_from xs lo = (if lo \<le> length xs then Ok (drop lo xs) else Panic)"

definition set_at :: "'a list \<Rightarrow> nat \<Rightarrow> 'a \<Rightarrow> ('e, 'a list) outcome" where
  "set_at xs i v = (if i < length xs then Ok (xs[i := v]) else Panic)"

text \<open>
  \<open>put msg off bs\<close> overwrites the bytes of \<open>msg\<close> from \<open>off\<close> on with
  \<open>bs\<close>; \<open>write_at\<close> is the Go statement, which panics if they do not fit.
\<close>

definition put :: "'a list \<Rightarrow> nat \<Rightarrow> 'a list \<Rightarrow> 'a list" where
  "put msg off bs = take off msg @ bs @ drop (off + length bs) msg"

definition write_at :: "'a list \<Rightarrow> nat \<Rightarrow> 'a list \<Rightarrow> ('e, 'a list) outcome" where
  "write_at msg off bs =
     (if off + length bs \<le> length msg then Ok (put msg off bs) else Panic)"

text \<open>\<^verbatim>\<open>copy(bs[dlo:dhi], bs[slo:])\<close> within one array; the ranges may overlap.\<close>

definition copy_within :: "'a list \<Rightarrow> nat \<Rightarrow> nat \<Rightarrow> nat \<Rightarrow> ('e, 'a list) outcome" where
  "copy_within bs dlo dhi slo =
     (if dlo \<le> dhi \<and> dhi \<le> length bs \<and> slo \<le> length bs
      then Ok (put bs dlo (take (dhi - dlo) (drop slo bs))) else Panic)"

subsection \<open>Big-endian integers\<close>

definition be16 :: "u16 \<Rightarrow> bytes" where
  "be16 v = [ucast (drop_bit 8 v), ucast v]"

definition be32 :: "u32 \<Rightarrow> bytes" where
  "be32 v = [ucast (drop_bit 24 v), ucast (drop_bit 16 v), ucast (drop_bit 8 v), ucast v]"

definition be48 :: "u64 \<Rightarrow> bytes" where
  "be48 v = [ucast (drop_bit 40 v), ucast (drop_bit 32 v), ucast (drop_bit 24 v),
             ucast (drop_bit 16 v), ucast (drop_bit 8 v), ucast v]"

definition be64 :: "u64 \<Rightarrow> bytes" where
  "be64 v = [ucast (drop_bit 56 v), ucast (drop_bit 48 v), ucast (drop_bit 40 v),
             ucast (drop_bit 32 v), ucast (drop_bit 24 v), ucast (drop_bit 16 v),
             ucast (drop_bit 8 v), ucast v]"

text \<open>The big-endian value of a byte list, shifting in one byte after the other.\<close>

definition be_word :: "bytes \<Rightarrow> 'w::len word" where
  "be_word bs = foldl (\<lambda>acc b. push_bit 8 acc OR ucast b) 0 bs"

named_theorems safe_intros "rules for safe"
named_theorems unpack_safe "no field unpacker panics"

subsection \<open>Lemmas on outcomes\<close>

lemma bindR_assoc [simp]: "bindR (bindR m f) g = bindR m (\<lambda>a. bindR (f a) g)"
  by (cases m) auto

lemma bindR_eq_Ok: "bindR m f = Ok b \<longleftrightarrow> (\<exists>a. m = Ok a \<and> f a = Ok b)"
  by (cases m) auto

lemma bindR_eq_Err: "bindR m f = Err e \<longleftrightarrow> m = Err e \<or> (\<exists>a. m = Ok a \<and> f a = Err e)"
  by (cases m) auto

lemma bindR_eq_Panic: "bindR m f = Panic \<longleftrightarrow> m = Panic \<or> (\<exists>a. m = Ok a \<and> f a = Panic)"
  by (cases m) auto

lemma case_sum_eq_Ok:
  "case_sum f g r = Ok b \<longleftrightarrow> (\<exists>x. r = Inl x \<and> f x = Ok b) \<or> (\<exists>y. r = Inr y \<and> g y = Ok b)"
  by (cases r) auto

lemma mapErr_eq_Ok [simp]: "mapErr g m = Ok a \<longleftrightarrow> m = Ok a"
  by (cases m) auto

lemma mapErr_eq_Panic [simp]: "mapErr g m = Panic \<longleftrightarrow> m = Panic"
  by (cases m) auto

lemma fail_at_simp [simp]: "fail_at n (off, e) = (n, e)"
  by (simp add: fail_at_def)

lemma wrap_simp [simp]: "wrap w (off, e) = (off, ErrWrap w e)"
  by (simp add: wrap_def)

lemma safe_simps [simp]: "safe (Ok a) Q = Q a" "safe (Err e) Q" "\<not> safe Panic Q"
  by (simp_all add: safe_def)

lemma safe_mapErr [simp]: "safe (mapErr g m) Q = safe m Q"
  by (cases m) auto

lemma safe_bind [safe_intros]:
  assumes "safe m Q" and "\<And>a. Q a \<Longrightarrow> safe (f a) R"
  shows "safe (bindR m f) R"
  using assms by (cases m) auto

lemma safe_if [safe_intros]:
  assumes "b \<Longrightarrow> safe m Q" and "\<not> b \<Longrightarrow> safe m' Q"
  shows "safe (if b then m else m') Q"
  using assms by simp

lemma safe_mono: "safe m Q \<Longrightarrow> (\<And>a. Q a \<Longrightarrow> R a) \<Longrightarrow> safe m R"
  by (cases m) auto

lemma safe_bind_eq:
  assumes "safe m Q" and "\<And>a. m = Ok a \<Longrightarrow> Q a \<Longrightarrow> safe (f a) R"
  shows "safe (bindR m f) R"
  using assms by (cases m) auto


lemma safe_later:
  "safe m (\<lambda>(v, off'). (b :: nat) \<le> off' \<and> off' \<le> n) \<Longrightarrow> a \<le> b \<Longrightarrow> safe m (\<lambda>(v, off'). a \<le> off' \<and> off' \<le> n)"
  by (erule safe_mono) auto

lemma safe_not_Panic: "safe m Q \<Longrightarrow> m \<noteq> Panic"
  by auto

lemma safe_Ok: "safe m Q \<Longrightarrow> m = Ok a \<Longrightarrow> Q a"
  by simp

lemma not_Panic_safe: "m \<noteq> Panic \<Longrightarrow> safe m (\<lambda>_. True)"
  by (cases m) auto

subsection \<open>Lemmas on slices and buffers\<close>

lemma index_at_Ok [simp]: "i < length xs \<Longrightarrow> index_at xs i = Ok (xs ! i)"
  by (simp add: index_at_def)

lemma go_slice_Ok [simp]:
  "lo \<le> hi \<Longrightarrow> hi \<le> length xs \<Longrightarrow> go_slice xs lo hi = Ok (take (hi - lo) (drop lo xs))"
  by (simp add: go_slice_def)

lemma go_slice_from_Ok [simp]: "lo \<le> length xs \<Longrightarrow> go_slice_from xs lo = Ok (drop lo xs)"
  by (simp add: go_slice_from_def)

lemma write_at_Ok [simp]:
  "off + length bs \<le> length msg \<Longrightarrow> write_at msg off bs = Ok (put msg off bs)"
  by (simp add: write_at_def)

lemma length_put [simp]: "off + length bs \<le> length msg \<Longrightarrow> length (put msg off bs) = length msg"
  by (simp add: put_def)

lemma put_Nil [simp]: "put msg off [] = msg"
  by (simp add: put_def)

lemma take_put [simp]: "off \<le> length msg \<Longrightarrow> take off (put msg off bs) = take off msg"
  by (simp add: put_def)

lemma take_put_end:
  "off + length bs \<le> length msg \<Longrightarrow> take (off + length bs) (put msg off bs) = take off msg @ bs"
  by (simp add: put_def)

lemma drop_put_end:
  "off + length bs \<le> length msg \<Longrightarrow>
   drop (off + length bs) (put msg off bs) = drop (off + length bs) msg"
  by (simp add: put_def)

text \<open>Two writes, one after the other, are one write: the packers compose.\<close>

lemma put_put:
  assumes "off + length a \<le> length msg"
  shows "put (put msg off a) (off + length a) b = put msg off (a @ b)"
  using assms by (simp add: put_def add.assoc) (simp add: ac_simps)

lemma put_put_at:
  "o' = off + length a \<Longrightarrow> off + length a + length b \<le> length msg \<Longrightarrow> put (put msg off a) o' b = put msg off (a @ b)"
  by (simp add: put_put)

lemma put_Cons_update:
  assumes "off < length msg"
  shows "put msg off [b] = msg[off := b]"
  using assms by (simp add: put_def upd_conv_take_nth_drop)

lemma drop_eq_Cons_conv:
  "off < length msg \<Longrightarrow> drop off msg = msg ! off # drop (Suc off) msg"
  by (simp add: Cons_nth_drop_Suc)

subsection \<open>Lemmas on big-endian integers\<close>

lemma length_be [simp]:
  "length (be16 v) = 2" "length (be32 w) = 4" "length (be48 x) = 6" "length (be64 x) = 8"
  by (simp_all add: be16_def be32_def be48_def be64_def)

lemma be_neq_Nil [simp]: "be16 v \<noteq> []" "be32 w \<noteq> []" "be48 x \<noteq> []" "be64 x \<noteq> []"
  by (simp_all add: be16_def be32_def be48_def be64_def)

text \<open>Shifting in the next byte of a word rebuilds the word one byte further down.\<close>

lemma be_step:
  fixes v :: "'w::len word"
  shows "push_bit 8 (drop_bit (n + 8) v) OR ucast (ucast (drop_bit n v) :: byte) = drop_bit n v"
proof (rule bit_word_eqI)
  fix k
  assume "k < LENGTH('w)"
  then show "bit (push_bit 8 (drop_bit (n + 8) v) OR ucast (ucast (drop_bit n v) :: byte)) k =
      bit (drop_bit n v) k"
    by (cases "k < 8") (auto simp: bit_simps not_less le_iff_add ac_simps)
qed

lemma drop_bit_beyond: "LENGTH('w::len) \<le> n \<Longrightarrow> drop_bit n (v :: 'w word) = 0"
  by (rule bit_word_eqI) (auto simp: bit_simps dest: bit_imp_le_length)

lemma be_word_be16 [simp]: "be_word (be16 v) = v"
  using be_step [of 8 v] be_step [of 0 v] by (simp add: be_word_def be16_def drop_bit_beyond)

lemma be_word_be32 [simp]: "be_word (be32 v) = v"
  using be_step [of 24 v] be_step [of 16 v] be_step [of 8 v] be_step [of 0 v]
  by (simp add: be_word_def be32_def drop_bit_beyond)

lemma be_word_be64 [simp]: "be_word (be64 v) = v"
  using be_step [of 56 v] be_step [of 48 v] be_step [of 40 v] be_step [of 32 v]
    be_step [of 24 v] be_step [of 16 v] be_step [of 8 v] be_step [of 0 v]
  by (simp add: be_word_def be64_def drop_bit_beyond)

lemma ucast_byte_take_bit:
  fixes v :: "'w::len word"
  assumes "n + 8 \<le> 48"
  shows "(ucast (drop_bit n (take_bit 48 v)) :: byte) = ucast (drop_bit n v)"
  using assms by (intro bit_word_eqI) (auto simp: bit_simps)

lemma be_word_be48 [simp]: "be_word (be48 v) = take_bit 48 v"
proof -
  let ?w = "take_bit 48 v"
  have "be48 v = be48 ?w"
    using ucast_byte_take_bit [of 40 v] ucast_byte_take_bit [of 32 v] ucast_byte_take_bit [of 24 v]
      ucast_byte_take_bit [of 16 v] ucast_byte_take_bit [of 8 v] ucast_byte_take_bit [of 0 v]
    by (simp add: be48_def)
  moreover have "drop_bit 48 ?w = 0"
    by (rule bit_word_eqI) (simp add: bit_simps)
  ultimately show ?thesis
    using be_step [of 40 ?w] be_step [of 32 ?w]
      be_step [of 24 ?w] be_step [of 16 ?w] be_step [of 8 ?w] be_step [of 0 ?w]
    by (simp add: be_word_def be48_def)
qed

subsection \<open>Bytes by enumeration\<close>

lemma take_drop_word:
  assumes "drop off M = be16 a @ r"
  shows "be_word (take 2 (drop off M)) = a" and "drop (off + 2) M = r"
proof -
  show "be_word (take 2 (drop off M)) = a" using assms by simp
  have "drop (off + 2) M = drop 2 (drop off M)" by (simp add: add.commute)
  then show "drop (off + 2) M = r" using assms by simp
qed

lemma byte_range_all:
  fixes b :: byte
  assumes "list_all (\<lambda>n. P (of_nat n :: byte)) [lo..<hi]" and "lo \<le> unat b" and "unat b < hi"
  shows "P b"
proof -
  have "unat b \<in> set [lo..<hi]" using assms(2,3) by simp
  then have "P (of_nat (unat b))" using assms(1) unfolding list_all_iff by blast
  then show ?thesis by simp
qed

lemma unat_byte_less: "unat (b :: byte) < 256"
  using unsigned_less [of b] by simp

end
