(* ===== verification/Names.thy ===== *)
theory Names
  imports Dns_Prelude
begin

section \<open>Domain names in presentation format\<close>

text \<open>
  The functions on presentation-format names of \<^verbatim>\<open>labels.go\<close>, of \<^verbatim>\<open>defaults.go\<close>
  (\<^verbatim>\<open>IsFqdn\<close>, \<^verbatim>\<open>Fqdn\<close>, \<^verbatim>\<open>CanonicalName\<close>, \<^verbatim>\<open>IsDomainName\<close>,
  \<^verbatim>\<open>IsSubDomain\<close>) and the escape helpers of \<^verbatim>\<open>msg.go\<close> and \<^verbatim>\<open>types.go\<close>.
  The functions walk over indexes of the string, forwards and backwards; the reference is the
  list of labels a name stands for. \<open>raw_label\<close> is the grammar of one label,
  \<open>join_labels\<close> writes a list of labels as a fully qualified name, and
  \<open>split_labels\<close> is the left-to-right parser that also removes the escapes.
  What the source uses of Go's \<^verbatim>\<open>unicode/utf8\<close> and \<^verbatim>\<open>strings\<close> (decoding a rune,
  \<^verbatim>\<open>strings.LastIndexFunc\<close>, \<^verbatim>\<open>strings.Map\<close>) is modelled with it.
\<close>

subsection \<open>Escapes\<close>

definition isDigit :: "byte \<Rightarrow> bool" where
  "isDigit b \<longleftrightarrow> 0x30 \<le> b \<and> b \<le> 0x39"

fun isDDD :: "bytes \<Rightarrow> bool" where
  "isDDD (a # b # c # _) \<longleftrightarrow> isDigit a \<and> isDigit b \<and> isDigit c"
| "isDDD _ \<longleftrightarrow> False"

text \<open>Byte arithmetic: \<^verbatim>\<open>\999\<close> wraps around. Only called where \<^const>\<open>isDDD\<close> holds.\<close>

fun dddToByte :: "bytes \<Rightarrow> byte" where
  "dddToByte (a # b # c # _) = (a - 0x30) * 100 + (b - 0x30) * 10 + (c - 0x30)"
| "dddToByte _ = 0"

text \<open>The two tables of \<^verbatim>\<open>types.go\<close>: the entries \<^verbatim>\<open>\000\<close> to \<^verbatim>\<open>\031\<close> and
  \<^verbatim>\<open>\127\<close> to \<^verbatim>\<open>\255\<close>, one after the other.\<close>

definition ddd_entry :: "nat \<Rightarrow> gostring" where
  "ddd_entry n = [BSL, 0x30 + of_nat (n div 100), 0x30 + of_nat (n div 10 mod 10),
                  0x30 + of_nat (n mod 10)]"

definition escapedByteSmall :: gostring where
  "escapedByteSmall = concat (map ddd_entry [0..<32])"

definition escapedByteLarge :: gostring where
  "escapedByteLarge = concat (map ddd_entry [127..<256])"

definition escapeByte :: "byte \<Rightarrow> gostring" where
  "escapeByte b =
     (if b < 0x20 then take 4 (drop (unat (b * 4)) escapedByteSmall)
      else take 4 (drop (unat (b - 0x7F) * 4) escapedByteLarge))"

definition isDomainNameLabelSpecial :: "byte \<Rightarrow> bool" where
  "isDomainNameLabelSpecial b \<longleftrightarrow>
     b \<in> {0x2E, 0x20, 0x27, 0x40, 0x3B, 0x28, 0x29, 0x22, 0x5C}"

definition nextByte :: "gostring \<Rightarrow> nat \<Rightarrow> byte \<times> nat" where
  "nextByte s offset =
     (if length s \<le> offset then (0, 0)
      else if s ! offset \<noteq> BSL then (s ! offset, 1)
      else if length s - offset = 1 then (0, 0)
      else if length s - offset \<noteq> 2 \<and> length s - offset \<noteq> 3 \<and> isDDD (drop (offset + 1) s)
      then (dddToByte (drop (offset + 1) s), 4)
      else (s ! (offset + 1), 2))"

subsection \<open>Runes\<close>

definition cont :: "byte \<Rightarrow> bool" where
  "cont b \<longleftrightarrow> 0x80 \<le> b \<and> b \<le> 0xBF"

text \<open>
  \<^verbatim>\<open>utf8.DecodeRuneInString\<close>: the width of the first rune, and whether it is well formed.
  An ill-formed or truncated sequence has width 1.
\<close>

definition decodeRune :: "bytes \<Rightarrow> nat \<times> bool" where
  "decodeRune s =
     (case s of
        [] \<Rightarrow> (0, False)
      | b0 # r \<Rightarrow>
          if b0 < 0x80 then (1, True)
          else if 0xC2 \<le> b0 \<and> b0 \<le> 0xDF then
            (case r of b1 # _ \<Rightarrow> if cont b1 then (2, True) else (1, False) | _ \<Rightarrow> (1, False))
          else if 0xE0 \<le> b0 \<and> b0 \<le> 0xEF then
            (case r of b1 # b2 # _ \<Rightarrow>
               if cont b1 \<and> (b0 = 0xE0 \<longrightarrow> 0xA0 \<le> b1) \<and> (b0 = 0xED \<longrightarrow> b1 \<le> 0x9F) \<and> cont b2
               then (3, True) else (1, False)
             | _ \<Rightarrow> (1, False))
          else if 0xF0 \<le> b0 \<and> b0 \<le> 0xF4 then
            (case r of b1 # b2 # b3 # _ \<Rightarrow>
               if cont b1 \<and> (b0 = 0xF0 \<longrightarrow> 0x90 \<le> b1) \<and> (b0 = 0xF4 \<longrightarrow> b1 \<le> 0x8F) \<and> cont b2 \<and> cont b3
               then (4, True) else (1, False)
             | _ \<Rightarrow> (1, False))
          else (1, False))"

text \<open>
  \<^verbatim>\<open>utf8.DecodeLastRuneInString\<close>: the width of the last rune. The search for its first
  byte goes back over continuation bytes, at most to the fourth byte from the end.
\<close>

fun rune_start_back :: "bytes \<Rightarrow> nat \<Rightarrow> nat \<Rightarrow> nat" where
  "rune_start_back s 0 start = start"
| "rune_start_back s (Suc k) start =
     (if start = 0 then 0
      else if cont (s ! (start - 1)) then rune_start_back s k (start - 1)
      else start - 1)"

definition lastRuneSize :: "bytes \<Rightarrow> nat" where
  "lastRuneSize s =
     (let end = length s in
      if end = 0 then 0
      else if s ! (end - 1) < 0x80 then 1
      else let start = rune_start_back s 3 (end - 1);
               size = fst (decodeRune (drop start s))
           in if start + size \<noteq> end then 1 else size)"

text \<open>
  \<^verbatim>\<open>strings.LastIndexFunc(s, r != '\\')\<close>: the index of the first byte of the last rune
  that is not a backslash, or \<open>-1\<close>. The argument \<open>n\<close> is the length of the prefix
  still to be searched.
\<close>

fun lastNonBSL :: "gostring \<Rightarrow> nat \<Rightarrow> int" where
  "lastNonBSL s 0 = -1"
| "lastNonBSL s (Suc n) =
     (if s ! n = BSL then lastNonBSL s n
      else int (Suc n) - int (lastRuneSize (take (Suc n) s)))"

subsection \<open>defaults.go: fully qualified and canonical names\<close>

definition IsFqdn :: "gostring \<Rightarrow> bool" where
  "IsFqdn s =
     (if s = [] \<or> last s \<noteq> DOT then False
      else let s = butlast s in
        if s = [] \<or> last s \<noteq> BSL then True
        else (int (length s) - lastNonBSL s (length s)) mod 2 \<noteq> 0)"

definition Fqdn :: "gostring \<Rightarrow> gostring" where
  "Fqdn s = (if IsFqdn s then s else s @ [DOT])"

definition to_lower :: "byte \<Rightarrow> byte" where
  "to_lower b = (if 0x41 \<le> b \<and> b \<le> 0x5A then b + 0x20 else b)"

text \<open>
  \<^verbatim>\<open>strings.Map\<close> with a mapping that only changes ASCII runes: a well-formed rune is
  copied (an ASCII one mapped), an ill-formed byte becomes the encoding of U+FFFD.
\<close>

function map_runes :: "(byte \<Rightarrow> byte) \<Rightarrow> gostring \<Rightarrow> gostring" where
  "map_runes f s =
     (if s = [] then []
      else let (size, wf) = decodeRune s in
        if \<not> wf then [0xEF, 0xBF, 0xBD] @ map_runes f (drop 1 s)
        else if size = 1 then f (hd s) # map_runes f (drop 1 s)
        else take size s @ map_runes f (drop size s))"
  by pat_completeness auto
termination
  by (relation "measure (\<lambda>(f, s). length s)")
    (auto simp: decodeRune_def split: list.splits if_splits)

definition CanonicalName :: "gostring \<Rightarrow> gostring" where
  "CanonicalName s = map_runes to_lower (Fqdn s)"

record idn_state =
  idn_off :: nat
  idn_begin :: nat
  idn_wasDot :: bool
  idn_escape :: bool
  idn_labels :: nat

text \<open>The loop of \<^verbatim>\<open>IsDomainName\<close>; \<^verbatim>\<open>lenmsg\<close> is 256.\<close>

function IsDomainName_loop :: "gostring \<Rightarrow> nat \<Rightarrow> idn_state \<Rightarrow> nat \<times> bool" where
  "IsDomainName_loop s i st =
     (if i < length s then
        if s ! i = BSL then
          let st = st\<lparr>idn_escape := \<not> idn_escape st\<rparr> in
          if idn_off st + 1 > 256 then (idn_labels st, False)
          else if isDDD (drop (i + 1) s)
          then IsDomainName_loop s (i + 3 + 1)
                 (st\<lparr>idn_begin := idn_begin st + 3, idn_wasDot := False\<rparr>)
          else IsDomainName_loop s (i + 1 + 1)
                 (st\<lparr>idn_begin := idn_begin st + 1, idn_wasDot := False\<rparr>)
        else if s ! i = DOT then
          let st = st\<lparr>idn_escape := False\<rparr> in
          if i = 0 \<and> length s > 1 then (idn_labels st, False)
          else if idn_wasDot st then (idn_labels st, False)
          else
            let labelLen = i - idn_begin st in
            if labelLen \<ge> 64 then (idn_labels st, False)
            else
              let off = idn_off st + (1 + labelLen) in
              if off > 256 then (idn_labels st, False)
              else IsDomainName_loop s (i + 1)
                     (st\<lparr>idn_off := off, idn_begin := i + 1, idn_wasDot := True,
                         idn_labels := idn_labels st + 1\<rparr>)
        else IsDomainName_loop s (i + 1) (st\<lparr>idn_escape := False, idn_wasDot := False\<rparr>)
      else if idn_escape st then (idn_labels st, False)
      else (idn_labels st, True))"
  by pat_completeness auto
termination
  by (relation "measure (\<lambda>(s, i, st). length s - i)") auto

declare IsDomainName_loop.simps [simp del] map_runes.simps [simp del]

definition IsDomainName :: "gostring \<Rightarrow> nat \<times> bool" where
  "IsDomainName s =
     (if length s = 0 then (0, False)
      else IsDomainName_loop (Fqdn s) 0
             \<lparr>idn_off = 0, idn_begin = 0, idn_wasDot = False, idn_escape = False,
              idn_labels = 0\<rparr>)"

subsection \<open>labels.go: walking over the labels\<close>

text \<open>The backslashes directly before index \<open>i\<close>: the inner loop of \<^verbatim>\<open>NextLabel\<close> and
  \<^verbatim>\<open>PrevLabel\<close> leaves \<^verbatim>\<open>j = i - 1 - bsl_run s i\<close>.\<close>

fun bsl_run :: "gostring \<Rightarrow> nat \<Rightarrow> nat" where
  "bsl_run s 0 = 0"
| "bsl_run s (Suc j) = (if s ! j = BSL then Suc (bsl_run s j) else 0)"

function NextLabel_loop :: "gostring \<Rightarrow> nat \<Rightarrow> nat \<times> bool" where
  "NextLabel_loop s i =
     (if i + 1 < length s then
        if s ! i \<noteq> DOT then NextLabel_loop s (i + 1)
        else if even (1 + bsl_run s i) then NextLabel_loop s (i + 1)
        else (i + 1, False)
      else (i + 1, True))"
  by pat_completeness auto
termination
  by (relation "measure (\<lambda>(s, i). length s - i)") auto

declare NextLabel_loop.simps [simp del]

definition NextLabel :: "gostring \<Rightarrow> nat \<Rightarrow> nat \<times> bool" where
  "NextLabel s offset = (if s = [] then (0, True) else NextLabel_loop s offset)"

lemma NextLabel_loop_gt: "i < fst (NextLabel_loop s i)"
proof (induction s i rule: NextLabel_loop.induct)
  case (1 s i)
  then show ?case
    by (subst NextLabel_loop.simps) (auto intro: Suc_lessD)
qed

lemma NextLabel_loop_less:
  "\<not> snd (NextLabel_loop s i) \<Longrightarrow> fst (NextLabel_loop s i) < length s"
proof (induction s i rule: NextLabel_loop.induct)
  case (1 s i)
  then show ?case
    by (subst NextLabel_loop.simps, subst (asm) (5) NextLabel_loop.simps) (auto split: if_splits)
qed

lemma NextLabel_progress:
  assumes "NextLabel s off = (off', False)"
  shows "off < off' \<and> off' < length s"
  using assms NextLabel_loop_gt [of off s] NextLabel_loop_less [of s off]
  by (auto simp: NextLabel_def split: if_splits)

function CountLabel_loop :: "gostring \<Rightarrow> nat \<Rightarrow> nat \<Rightarrow> nat" where
  "CountLabel_loop s off labels =
     (let (off, end) = NextLabel s off; labels = labels + 1 in
      if end then labels else CountLabel_loop s off labels)"
  by pat_completeness auto
termination
  by (relation "measure (\<lambda>(s, off, labels). length s - off)")
    (auto dest!: NextLabel_progress [OF sym])

definition CountLabel :: "gostring \<Rightarrow> nat" where
  "CountLabel s = (if s = [DOT] then 0 else CountLabel_loop s 0 0)"

function Split_loop :: "gostring \<Rightarrow> nat list \<Rightarrow> nat \<Rightarrow> nat list" where
  "Split_loop s idx off =
     (let (off, end) = NextLabel s off in
      if end then idx else Split_loop s (idx @ [off]) off)"
  by pat_completeness auto
termination
  by (relation "measure (\<lambda>(s, idx, off). length s - off)")
    (auto dest!: NextLabel_progress [OF sym])

declare CountLabel_loop.simps [simp del] Split_loop.simps [simp del]

definition Split :: "gostring \<Rightarrow> nat list" where
  "Split s = (if s = [DOT] then [] else Split_loop s [0] 0)"

fun SplitDomainName_loop :: "gostring \<Rightarrow> nat list \<Rightarrow> nat \<Rightarrow> gostring list \<Rightarrow> nat \<times> gostring list" where
  "SplitDomainName_loop s [] begin labels = (begin, labels)"
| "SplitDomainName_loop s (end # idx) begin labels =
     SplitDomainName_loop s idx end (labels @ [take (end - 1 - begin) (drop begin s)])"

definition SplitDomainName :: "gostring \<Rightarrow> gostring list" where
  "SplitDomainName s =
     (if s = [] then []
      else
        let idx = Split s;
            fqdnEnd = (if IsFqdn s then length s - 1 else length s)
        in if idx = [] then []
           else let (begin, labels) = SplitDomainName_loop s (tl idx) 0 []
                in labels @ [take (fqdnEnd - begin) (drop begin s)])"

text \<open>\<^verbatim>\<open>PrevLabel\<close>; the loop counter \<open>m\<close> is \<^verbatim>\<open>l + 1\<close>.\<close>

fun PrevLabel_loop :: "gostring \<Rightarrow> nat \<Rightarrow> int \<Rightarrow> nat \<times> bool" where
  "PrevLabel_loop s 0 n = (0, n > 1)"
| "PrevLabel_loop s (Suc l) n =
     (if n > 0 then
        if s ! l \<noteq> DOT then PrevLabel_loop s l n
        else if even (1 + bsl_run s l) then PrevLabel_loop s l n
        else if n - 1 = 0 then (l + 1, False)
        else PrevLabel_loop s l (n - 1)
      else (0, n > 1))"

definition PrevLabel :: "gostring \<Rightarrow> int \<Rightarrow> nat \<times> bool" where
  "PrevLabel s n =
     (if s = [] then (0, True)
      else if n = 0 then (length s, False)
      else if last s = DOT then PrevLabel_loop s (length s - 1) n
      else PrevLabel_loop s (length s) n)"

text \<open>\<^verbatim>\<open>equal\<close> compares from the last byte to the first, without regard to case.\<close>

definition fold_case :: "byte \<Rightarrow> byte" where
  "fold_case b = (if 0x41 \<le> b \<and> b \<le> 0x5A then b OR 0x20 else b)"

fun equal_loop :: "gostring \<Rightarrow> gostring \<Rightarrow> nat \<Rightarrow> bool" where
  "equal_loop a b 0 = True"
| "equal_loop a b (Suc i) =
     (if fold_case (a ! i) \<noteq> fold_case (b ! i) then False else equal_loop a b i)"

definition equal_names :: "gostring \<Rightarrow> gostring \<Rightarrow> bool" where
  "equal_names a b = (if length a \<noteq> length b then False else equal_loop a b (length a))"

text \<open>
  \<^verbatim>\<open>CompareDomainName\<close>: \<open>j1\<close> and \<open>j2\<close> count the label starts still to the
  right of the loop's pair (\<^verbatim>\<open>i1 = j1 - 1\<close>); the loop ends when one of the names has no
  label left.
\<close>

fun CompareDomainName_loop ::
  "gostring \<Rightarrow> gostring \<Rightarrow> nat list \<Rightarrow> nat list \<Rightarrow> nat \<Rightarrow> nat \<Rightarrow> nat \<Rightarrow> nat" where
  "CompareDomainName_loop s1 s2 l1 l2 (Suc i1) (Suc i2) n =
     (if equal_names (take (l1 ! Suc i1 - l1 ! i1) (drop (l1 ! i1) s1))
                     (take (l2 ! Suc i2 - l2 ! i2) (drop (l2 ! i2) s2))
      then CompareDomainName_loop s1 s2 l1 l2 i1 i2 (n + 1) else n)"
| "CompareDomainName_loop s1 s2 l1 l2 j1 j2 n = n"

definition CompareDomainName :: "gostring \<Rightarrow> gostring \<Rightarrow> nat" where
  "CompareDomainName s1 s2 =
     (if s1 = [DOT] \<or> s2 = [DOT] then 0
      else
        let l1 = Split s1; l2 = Split s2;
            j1 = length l1 - 1; j2 = length l2 - 1
        in if equal_names (drop (l1 ! j1) s1) (drop (l2 ! j2) s2)
           then CompareDomainName_loop s1 s2 l1 l2 j1 j2 1
           else 0)"

definition IsSubDomain :: "gostring \<Rightarrow> gostring \<Rightarrow> bool" where
  "IsSubDomain parent child \<longleftrightarrow> CompareDomainName parent child = CountLabel parent"

subsection \<open>The reference: lists of labels\<close>

text \<open>The grammar of one label: any byte after a backslash, no bare dot, no dangling backslash.\<close>

fun raw_label :: "gostring \<Rightarrow> bool" where
  "raw_label [] = True"
| "raw_label (c # r) =
     (if c = BSL then (case r of [] \<Rightarrow> False | x # r' \<Rightarrow> raw_label r')
      else c \<noteq> DOT \<and> raw_label r)"

definition join_labels :: "gostring list \<Rightarrow> gostring" where
  "join_labels us = concat (map (\<lambda>u. u @ [DOT]) us)"

fun starts :: "nat \<Rightarrow> gostring list \<Rightarrow> nat list" where
  "starts k [] = []"
| "starts k (u # us) = k # starts (k + length u + 1) us"

definition common_suffix :: "gostring list \<Rightarrow> gostring list \<Rightarrow> nat" where
  "common_suffix us vs =
     length (takeWhile (\<lambda>(u, v). equal_names u v) (zip (rev us) (rev vs)))"

definition ascii :: "gostring \<Rightarrow> bool" where
  "ascii s \<longleftrightarrow> (\<forall>b \<in> set s. b < 0x80)"

text \<open>
  The left-to-right parser: \<open>cur\<close> is the label read so far, with its escapes removed.
  The result is \<open>None\<close> if the string does not end in an unescaped dot.
\<close>

function split_labels :: "bytes \<Rightarrow> gostring \<Rightarrow> bytes list option" where
  "split_labels cur s =
     (case s of
        [] \<Rightarrow> (if cur = [] then Some [] else None)
      | c # r \<Rightarrow>
          if c = BSL then
            if isDDD r then split_labels (cur @ [dddToByte r]) (drop 3 r)
            else (case r of [] \<Rightarrow> None | x # r' \<Rightarrow> split_labels (cur @ [x]) r')
          else if c = DOT then map_option ((#) cur) (split_labels [] r)
          else split_labels (cur @ [c]) r)"
  by pat_completeness auto
termination
  by (relation "measure (\<lambda>(cur, s). length s)") auto

declare split_labels.simps [simp del]

subsection \<open>Lemmas on backslash runs and raw labels\<close>

lemma bsl_run_le: "bsl_run s i \<le> i"
  by (induction i) auto

lemma bsl_run_cong: "(\<And>j. j < i \<Longrightarrow> s ! j = t ! j) \<Longrightarrow> bsl_run s i = bsl_run t i"
  by (induction i) auto

lemma bsl_run_append_left: "i \<le> length p \<Longrightarrow> bsl_run (p @ r) i = bsl_run p i"
  by (rule bsl_run_cong) (simp add: nth_append)

lemma bsl_run_append:
  "bsl_run (p @ r) (length p + k) =
     (if bsl_run r k = k then k + bsl_run p (length p) else bsl_run r k)"
proof (induction k)
  case 0
  then show ?case by (simp add: bsl_run_append_left)
next
  case (Suc k)
  then show ?case using bsl_run_le [of r k] by (auto simp: nth_append)
qed

lemma bsl_run_after:
  assumes "pre = [] \<or> last pre \<noteq> BSL"
  shows "bsl_run (pre @ r) (length pre + k) = bsl_run r k"
proof -
  have "bsl_run pre (length pre) = 0"
    using assms by (cases pre rule: rev_cases) (auto simp: nth_append)
  then show ?thesis by (simp add: bsl_run_append)
qed

lemma bsl_run_escape_pair: "even (bsl_run (BSL # x # r) (Suc (Suc k))) = even (bsl_run r k)"
  using bsl_run_append [of "[BSL, x]" r k] by auto

lemma bsl_run_plain: "c \<noteq> BSL \<Longrightarrow> bsl_run (c # r) (Suc k) = bsl_run r k"
  using bsl_run_append [of "[c]" r k] by auto

text \<open>In a label every dot is escaped, and a dot that follows the label is not.\<close>

lemma raw_label_parity:
  assumes "raw_label u"
  shows "even (bsl_run u (length u))"
    and "k < length u \<Longrightarrow> u ! k = DOT \<Longrightarrow> odd (bsl_run u k)"
proof -
  have "even (bsl_run u (length u)) \<and> (\<forall>k < length u. u ! k = DOT \<longrightarrow> odd (bsl_run u k))"
    using assms
  proof (induction u rule: raw_label.induct)
    case 1
    then show ?case by simp
  next
    case (2 c r)
    show ?case
    proof (cases "c = BSL")
      case True
      with "2.prems" obtain x r' where r: "r = x # r'" and raw: "raw_label r'"
        by (auto split: list.splits)
      have IH: "even (bsl_run r' (length r'))" "\<And>k. k < length r' \<Longrightarrow> r' ! k = DOT \<Longrightarrow> odd (bsl_run r' k)"
        using "2.IH"(1) [OF True r raw] by auto
      have "odd (bsl_run (BSL # x # r') k)"
        if k: "k < length (BSL # x # r')" "(BSL # x # r') ! k = DOT" for k
      proof -
        consider "k = 0" | "k = 1" | m where "k = Suc (Suc m)"
          by (metis One_nat_def not0_implies_Suc)
        then show ?thesis
          using k IH(2) by cases (auto simp: bsl_run_escape_pair simp del: bsl_run.simps(2), simp)
      qed
      with IH(1) show ?thesis
        unfolding r True by (simp add: bsl_run_escape_pair del: bsl_run.simps(2))
    next
      case False
      with "2.prems" have c: "c \<noteq> DOT" and raw: "raw_label r" by auto
      have IH: "even (bsl_run r (length r))" "\<And>k. k < length r \<Longrightarrow> r ! k = DOT \<Longrightarrow> odd (bsl_run r k)"
        using "2.IH"(2) [OF False raw] by auto
      have "odd (bsl_run (c # r) k)" if k: "k < length (c # r)" "(c # r) ! k = DOT" for k
        using k c IH(2) False
        by (cases k) (auto simp: bsl_run_plain simp del: bsl_run.simps(2))
      with IH(1) False show ?thesis
        by (simp add: bsl_run_plain del: bsl_run.simps(2))
    qed
  qed
  then show "even (bsl_run u (length u))"
    and "k < length u \<Longrightarrow> u ! k = DOT \<Longrightarrow> odd (bsl_run u k)"
    by auto
qed

subsection \<open>NextLabel, CountLabel and Split\<close>

text \<open>From anywhere in a label, \<^const>\<open>NextLabel\<close> goes to the byte after the label's dot.\<close>

lemma NextLabel_loop_label:
  assumes raw: "raw_label u" and pre: "pre = [] \<or> last pre \<noteq> BSL" and k: "k \<le> length u"
  shows "NextLabel_loop (pre @ u @ DOT # post) (length pre + k) =
           (length pre + length u + 1, post = [])"
  using k
proof (induction "length u - k" arbitrary: k)
  case 0
  then have k: "k = length u" by simp
  let ?s = "pre @ u @ DOT # post"
  have "bsl_run ?s (length pre + length u) = bsl_run u (length u)"
    by (simp add: bsl_run_after [OF pre] bsl_run_append_left)
  then have "odd (1 + bsl_run ?s (length pre + length u))"
    using raw_label_parity(1) [OF raw] by simp
  then show ?case
    unfolding k by (subst NextLabel_loop.simps) (auto simp: nth_append)
next
  case (Suc d)
  then have lt: "k < length u" by simp
  let ?s = "pre @ u @ DOT # post"
  have at: "?s ! (length pre + k) = u ! k"
    using lt by (simp add: nth_append)
  have "bsl_run ?s (length pre + k) = bsl_run u k"
    using lt by (simp add: bsl_run_after [OF pre] bsl_run_append_left)
  then have "u ! k = DOT \<Longrightarrow> even (1 + bsl_run ?s (length pre + k))"
    using raw_label_parity(2) [OF raw lt] by simp
  moreover have "NextLabel_loop ?s (length pre + Suc k) = (length pre + length u + 1, post = [])"
    using Suc.hyps(1) [of "Suc k"] Suc.hyps(2) lt by simp
  ultimately show ?case
    using lt at by (subst NextLabel_loop.simps) auto
qed

lemma join_labels_simps [simp]:
  "join_labels [] = []"
  "join_labels (u # us) = u @ DOT # join_labels us"
  "join_labels (us @ vs) = join_labels us @ join_labels vs"
  by (simp_all add: join_labels_def)

lemma join_labels_Nil [simp]: "join_labels us = [] \<longleftrightarrow> us = []"
  by (cases us) auto

lemma last_join_labels: "us \<noteq> [] \<Longrightarrow> last (join_labels us) = DOT"
  by (cases us rule: rev_cases) auto

lemma NextLabel_join:
  assumes "raw_label u" and "pre = [] \<or> last pre \<noteq> BSL"
  shows "NextLabel (pre @ join_labels (u # us)) (length pre) =
           (length pre + length u + 1, us = [])"
  using NextLabel_loop_label [OF assms, of 0 "join_labels us"] by (simp add: NextLabel_def)

lemma CountLabel_loop_join:
  assumes "\<forall>u \<in> set us. raw_label u" and "us \<noteq> []" and "pre = [] \<or> last pre \<noteq> BSL"
  shows "CountLabel_loop (pre @ join_labels us) (length pre) n = n + length us"
  using assms
proof (induction us arbitrary: pre n)
  case Nil
  then show ?case by simp
next
  case (Cons u us)
  have next_label: "NextLabel (pre @ join_labels (u # us)) (length pre) =
      (length pre + length u + 1, us = [])"
    using Cons.prems by (intro NextLabel_join) auto
  show ?case
  proof (cases "us = []")
    case True
    with next_label show ?thesis by (subst CountLabel_loop.simps) simp
  next
    case False
    then have "CountLabel_loop ((pre @ u @ [DOT]) @ join_labels us) (length (pre @ u @ [DOT])) (n + 1)
        = n + 1 + length us"
      using Cons.prems by (intro Cons.IH) auto
    with next_label False show ?thesis by (subst CountLabel_loop.simps) simp
  qed
qed

lemma Split_loop_join:
  assumes "\<forall>u \<in> set (u # us). raw_label u" and "pre = [] \<or> last pre \<noteq> BSL"
  shows "Split_loop (pre @ join_labels (u # us)) idx (length pre) =
           idx @ starts (length pre + length u + 1) us"
  using assms
proof (induction us arbitrary: pre u idx)
  case Nil
  then show ?case
    using NextLabel_join [of u pre "[]"] by (subst Split_loop.simps) simp
next
  case (Cons v vs)
  have next_label: "NextLabel (pre @ join_labels (u # v # vs)) (length pre) =
      (length pre + length u + 1, False)"
    using Cons.prems NextLabel_join [of u pre "v # vs"] by simp
  have "Split_loop ((pre @ u @ [DOT]) @ join_labels (v # vs)) (idx @ [length pre + length u + 1])
          (length (pre @ u @ [DOT])) =
        (idx @ [length pre + length u + 1]) @ starts (length (pre @ u @ [DOT]) + length v + 1) vs"
    using Cons.prems by (intro Cons.IH) auto
  with next_label show ?case by (subst Split_loop.simps) simp
qed

lemma join_labels_root: "join_labels us = [DOT] \<longleftrightarrow> us = [[]]"
  by (cases us) (auto simp: append_eq_Cons_conv Cons_eq_append_conv)

lemma CountLabel_join:
  assumes "\<forall>u \<in> set us. raw_label u" and "us \<noteq> []" and "us \<noteq> [[]]"
  shows "CountLabel (join_labels us) = length us"
  using assms CountLabel_loop_join [of us "[]" 0] by (simp add: CountLabel_def join_labels_root)

lemma Split_join:
  assumes "\<forall>u \<in> set us. raw_label u" and "us \<noteq> []" and "us \<noteq> [[]]"
  shows "Split (join_labels us) = starts 0 us"
proof -
  obtain u vs where us: "us = u # vs" using assms(2) by (cases us) auto
  show ?thesis
    using assms Split_loop_join [of u vs "[]" "[0]"]
    unfolding Split_def join_labels_root us by (simp del: join_labels_simps)
qed

subsection \<open>IsFqdn, equal and CanonicalName\<close>

lemma lastRuneSize_ascii: "s \<noteq> [] \<Longrightarrow> last s < 0x80 \<Longrightarrow> lastRuneSize s = 1"
  by (simp add: lastRuneSize_def last_conv_nth Let_def)

lemma lastNonBSL_ascii:
  assumes "ascii s" and "n \<le> length s"
  shows "lastNonBSL s n = int n - 1 - int (bsl_run s n)"
  using assms(2)
proof (induction n)
  case 0
  then show ?case by simp
next
  case (Suc n)
  then have lt: "n < length s" by simp
  then have "s ! n < 0x80" using assms(1) by (simp add: ascii_def)
  then have "lastRuneSize (take (Suc n) s) = 1"
    using lt by (intro lastRuneSize_ascii) (auto simp: take_Suc_conv_app_nth)
  with Suc show ?case by simp
qed

lemma bsl_run_pos: "bsl_run s n = 0 \<longleftrightarrow> n = 0 \<or> s ! (n - 1) \<noteq> BSL"
  by (cases n) auto

text \<open>For ASCII names \<^const>\<open>IsFqdn\<close> decides whether the name ends in an unescaped dot.\<close>

lemma IsFqdn_parity:
  assumes "ascii s"
  shows "IsFqdn s \<longleftrightarrow> s \<noteq> [] \<and> last s = DOT \<and> even (bsl_run s (length s - 1))"
proof (cases "s = [] \<or> last s \<noteq> DOT")
  case True
  then show ?thesis by (auto simp: IsFqdn_def)
next
  case False
  define t where "t = butlast s"
  have s: "s = t @ [DOT]" using False append_butlast_last_id [of s] by (simp add: t_def)
  have at: "ascii t" using assms by (simp add: s ascii_def)
  have run: "bsl_run s (length s - 1) = bsl_run t (length t)"
    by (simp add: s bsl_run_append_left)
  have zero: "t = [] \<or> last t \<noteq> BSL \<longleftrightarrow> bsl_run t (length t) = 0"
    by (auto simp: bsl_run_pos last_conv_nth)
  have "even (bsl_run t (length t)) \<longleftrightarrow> (int (length t) - lastNonBSL t (length t)) mod 2 \<noteq> 0"
    using lastNonBSL_ascii [OF at order_refl] by presburger
  with False zero run show ?thesis
    by (auto simp: IsFqdn_def t_def [symmetric] Let_def)
qed

lemma IsFqdn_join:
  assumes "\<forall>u \<in> set us. raw_label u" and "us \<noteq> []" and "ascii (join_labels us)"
  shows "IsFqdn (join_labels us)"
proof -
  obtain vs u where us: "us = vs @ [u]" using assms(2) by (cases us rule: rev_cases) auto
  have pre: "join_labels vs = [] \<or> last (join_labels vs) \<noteq> BSL"
    using last_join_labels [of vs] by auto
  have "bsl_run (join_labels us) (length (join_labels vs) + length u) = bsl_run u (length u)"
    by (simp add: us bsl_run_after [OF pre] bsl_run_append_left)
  then show ?thesis
    using raw_label_parity(1) [of u] assms by (simp add: IsFqdn_parity us)
qed

lemma Fqdn_IsFqdn: "IsFqdn s \<Longrightarrow> Fqdn s = s"
  by (simp add: Fqdn_def)

lemma fold_case_to_lower: "fold_case b = to_lower b"
proof -
  have "b OR 0x20 = b + 0x20" if "0x41 \<le> b" "b \<le> 0x5A"
  proof -
    have "list_all (\<lambda>n. (of_nat n :: byte) AND 0x20 = 0) [65..<91]" by code_simp
    from byte_range_all [OF this] that have "b AND 0x20 = 0" by (simp add: word_le_nat_alt)
    then show ?thesis using word_plus_and_or [of b "0x20"] by simp
  qed
  then show ?thesis by (simp add: fold_case_def to_lower_def)
qed

lemma equal_loop_iff:
  "equal_loop a b n \<longleftrightarrow> (\<forall>i < n. to_lower (a ! i) = to_lower (b ! i))"
  by (induction n) (auto simp: less_Suc_eq fold_case_to_lower)

lemma equal_names_iff: "equal_names a b \<longleftrightarrow> map to_lower a = map to_lower b"
  by (auto simp: equal_names_def equal_loop_iff list_eq_iff_nth_eq)

lemma equal_names_append_DOT [simp]: "equal_names (u @ [DOT]) (v @ [DOT]) = equal_names u v"
  by (simp add: equal_names_iff)

lemma map_runes_ascii: "ascii s \<Longrightarrow> map_runes f s = map f s"
proof (induction s)
  case Nil
  then show ?case by (simp add: map_runes.simps)
next
  case (Cons b s)
  then have "decodeRune (b # s) = (1, True)" and "ascii s"
    by (simp_all add: decodeRune_def ascii_def)
  with Cons.IH show ?case by (subst map_runes.simps) simp
qed

lemma to_lower_idem [simp]: "to_lower (to_lower b) = to_lower b"
proof -
  have "\<not> (0x41 \<le> b + 0x20 \<and> b + 0x20 \<le> 0x5A)" if "0x41 \<le> b" "b \<le> 0x5A"
    using that by unat_arith
  then show ?thesis by (auto simp: to_lower_def)
qed

lemma to_lower_ascii: "b < 0x80 \<Longrightarrow> to_lower b < 0x80"
  by (simp add: to_lower_def) unat_arith

lemma to_lower_eq_special:
  "to_lower b = DOT \<longleftrightarrow> b = DOT" "to_lower b = BSL \<longleftrightarrow> b = BSL"
  by (auto simp: to_lower_def word_le_nat_alt word_unat_eq_iff unat_word_ariths)

lemma bsl_run_map_lower: "n \<le> length s \<Longrightarrow> bsl_run (map to_lower s) n = bsl_run s n"
  by (induction n) (auto simp: to_lower_eq_special)

lemma ascii_Fqdn: "ascii s \<Longrightarrow> ascii (Fqdn s)"
  by (auto simp: Fqdn_def ascii_def)

subsection \<open>CompareDomainName and IsSubDomain\<close>

lemma length_starts [simp]: "length (starts k us) = length us"
  by (induction us arbitrary: k) auto

lemma starts_append: "starts k (us @ vs) = starts k us @ starts (k + length (join_labels us)) vs"
  by (induction us arbitrary: k) (auto simp: ac_simps)

lemma starts_nth:
  assumes "i < length us"
  shows "starts 0 us ! i = length (join_labels (take i us))"
proof -
  have "starts 0 us = starts 0 (take i us) @ starts (length (join_labels (take i us))) (us ! i # drop (Suc i) us)"
    using assms starts_append [of 0 "take i us" "drop i us"] by (simp add: Cons_nth_drop_Suc)
  then show ?thesis using assms by (simp add: nth_append)
qed

lemma drop_join_labels: "drop (length (join_labels (take i us))) (join_labels us) = join_labels (drop i us)"
  by (metis append_eq_conv_conj append_take_drop_id join_labels_simps(3))

lemma label_slice:
  assumes "Suc i < length us"
  shows "take (starts 0 us ! Suc i - starts 0 us ! i) (drop (starts 0 us ! i) (join_labels us)) =
           us ! i @ [DOT]"
proof -
  have "drop i us = us ! i # drop (Suc i) us" using assms by (simp add: Cons_nth_drop_Suc)
  then show ?thesis
    using assms by (simp add: starts_nth drop_join_labels take_Suc_conv_app_nth)
qed

lemma CompareDomainName_loop_join:
  assumes "j1 < length us" and "j2 < length vs"
  shows "CompareDomainName_loop (join_labels us) (join_labels vs) (starts 0 us) (starts 0 vs) j1 j2 n =
           n + common_suffix (take j1 us) (take j2 vs)"
  using assms
proof (induction j1 arbitrary: j2 n)
  case 0
  then show ?case by (simp add: common_suffix_def)
next
  case (Suc i1)
  show ?case
  proof (cases j2)
    case 0
    then show ?thesis by (simp add: common_suffix_def)
  next
    case (Suc i2)
    have "CompareDomainName_loop (join_labels us) (join_labels vs) (starts 0 us) (starts 0 vs) i1 i2 (n + 1)
        = n + 1 + common_suffix (take i1 us) (take i2 vs)"
      using Suc.IH [of i2 "n + 1"] Suc.prems \<open>j2 = Suc i2\<close> by simp
    with Suc.prems Suc show ?thesis
      by (auto simp: label_slice common_suffix_def take_Suc_conv_app_nth)
  qed
qed

text \<open>Names over raw labels, neither empty nor the root: what \<^verbatim>\<open>labels.go\<close> calls a
  syntactically valid domain name.\<close>

definition valid_labels :: "gostring list \<Rightarrow> bool" where
  "valid_labels us \<longleftrightarrow> us \<noteq> [] \<and> (\<forall>u \<in> set us. u \<noteq> [] \<and> raw_label u)"

lemma valid_labels_D:
  "valid_labels us \<Longrightarrow> us \<noteq> []" "valid_labels us \<Longrightarrow> us \<noteq> [[]]"
  "valid_labels us \<Longrightarrow> \<forall>u \<in> set us. raw_label u"
  by (auto simp: valid_labels_def)

lemma CompareDomainName_join:
  assumes "valid_labels us" and "valid_labels vs"
  shows "CompareDomainName (join_labels us) (join_labels vs) = common_suffix us vs"
proof -
  note us = valid_labels_D [OF assms(1)] and vs = valid_labels_D [OF assms(2)]
  obtain us' u where u: "us = us' @ [u]" using us(1) by (cases us rule: rev_cases) auto
  obtain vs' v where v: "vs = vs' @ [v]" using vs(1) by (cases vs rule: rev_cases) auto
  have "CompareDomainName_loop (join_labels us) (join_labels vs) (starts 0 us) (starts 0 vs)
      (length us') (length vs') 1 = 1 + common_suffix us' vs'"
    using CompareDomainName_loop_join [of "length us'" us "length vs'" vs 1] by (simp add: u v)
  moreover have "drop (starts 0 us ! length us') (join_labels us) = u @ [DOT]"
    and "drop (starts 0 vs ! length vs') (join_labels vs) = v @ [DOT]"
    by (simp_all add: u v starts_append nth_append)
  ultimately show ?thesis
    using us vs by (auto simp: CompareDomainName_def join_labels_root Split_join Let_def
        common_suffix_def u v simp del: join_labels_simps)
qed

lemma takeWhile_zip_full:
  "length (takeWhile (\<lambda>(x, y). f x = f y) (zip xs ys)) = length xs \<longleftrightarrow>
     (\<exists>zs. map f ys = map f xs @ zs)"
proof (induction xs arbitrary: ys)
  case Nil
  then show ?case by simp
next
  case (Cons x xs)
  then show ?case by (cases ys) auto
qed

lemma common_suffix_full:
  "common_suffix us vs = length us \<longleftrightarrow>
     (\<exists>ws. map (map to_lower) vs = ws @ map (map to_lower) us)"
proof -
  let ?f = "map (map to_lower) :: gostring list \<Rightarrow> gostring list"
  have "common_suffix us vs = length us \<longleftrightarrow> (\<exists>zs. ?f (rev vs) = ?f (rev us) @ zs)"
    using takeWhile_zip_full [of "map to_lower" "rev us" "rev vs"]
    by (simp add: common_suffix_def equal_names_iff)
  also have "\<dots> \<longleftrightarrow> (\<exists>zs. ?f vs = rev zs @ ?f us)"
    by (metis (no_types) rev_append rev_map rev_rev_ident)
  also have "\<dots> \<longleftrightarrow> (\<exists>ws. ?f vs = ws @ ?f us)"
    by (metis rev_rev_ident)
  finally show ?thesis .
qed

lemma IsSubDomain_join:
  assumes "valid_labels us" and "valid_labels vs"
  shows "IsSubDomain (join_labels us) (join_labels vs) \<longleftrightarrow>
           (\<exists>ws. map (map to_lower) vs = ws @ map (map to_lower) us)"
  using assms valid_labels_D [OF assms(1)] CountLabel_join [of us]
  by (simp add: IsSubDomain_def CompareDomainName_join common_suffix_full)

subsection \<open>SplitDomainName and PrevLabel\<close>

lemma SplitDomainName_loop_join:
  assumes "s = pre @ join_labels (us @ [v])"
  shows "SplitDomainName_loop s (tl (starts (length pre) (us @ [v]))) (length pre) acc =
           (length pre + length (join_labels us), acc @ us)"
  using assms
proof (induction us arbitrary: pre acc)
  case Nil
  then show ?case by simp
next
  case (Cons u us)
  have s: "s = (pre @ u @ [DOT]) @ join_labels (us @ [v])" using Cons.prems by simp
  obtain rest where rest: "starts (length pre + length u + 1) (us @ [v]) =
      (length pre + length u + 1) # rest"
    by (cases "us @ [v]") auto
  have "SplitDomainName_loop s rest (length pre + length u + 1) (acc @ [u]) =
      (length pre + length u + 1 + length (join_labels us), (acc @ [u]) @ us)"
    using Cons.IH [OF s, of "acc @ [u]"] rest by simp
  moreover have "take (length u) (drop (length pre) s) = u" using Cons.prems by simp
  ultimately show ?case using rest by (simp del: starts.simps(2) add: starts.simps(2) [of "length pre" u])
qed

lemma SplitDomainName_join:
  assumes "valid_labels us" and "ascii (join_labels us)"
  shows "SplitDomainName (join_labels us) = us"
proof -
  note us = valid_labels_D [OF assms(1)]
  obtain vs v where v: "us = vs @ [v]" using us(1) by (cases us rule: rev_cases) auto
  have "SplitDomainName_loop (join_labels us) (tl (starts 0 us)) 0 [] = (length (join_labels vs), vs)"
    using SplitDomainName_loop_join [of "join_labels us" "[]" vs v "[]"] by (simp add: v)
  moreover have "IsFqdn (join_labels us)"
    using us assms(2) by (intro IsFqdn_join)
  moreover have "starts 0 us \<noteq> []" using us(1) by (cases us) auto
  moreover have "take (length (join_labels us) - 1 - length (join_labels vs))
      (drop (length (join_labels vs)) (join_labels us)) = v"
    by (simp add: v)
  ultimately show ?thesis
    using us Split_join [of us] by (simp add: SplitDomainName_def Let_def)  (simp add: v)
qed

text \<open>
  \<^const>\<open>PrevLabel\<close> walks the other way: \<open>n\<close> labels to the left of the end is the start
  of the \<open>n\<close>-th label from the right.
\<close>

lemma PrevLabel_loop_label:
  assumes raw: "raw_label u" and pre: "pre = [] \<or> last pre \<noteq> BSL" and k: "k \<le> length u" and n: "n > 0"
  shows "PrevLabel_loop (pre @ u @ rest) (length pre + k) n = PrevLabel_loop (pre @ u @ rest) (length pre) n"
  using k
proof (induction k)
  case 0
  then show ?case by simp
next
  case (Suc k)
  let ?s = "pre @ u @ rest"
  have "bsl_run ?s (length pre + k) = bsl_run u k"
    using Suc.prems by (simp add: bsl_run_after [OF pre] bsl_run_append_left)
  then have "u ! k = DOT \<Longrightarrow> even (1 + bsl_run ?s (length pre + k))"
    using raw_label_parity(2) [OF raw, of k] Suc.prems by simp
  then show ?case using Suc n by (auto simp: nth_append)
qed

lemma unescaped_dot_after_label:
  assumes "raw_label w" and "pre = [] \<or> last pre \<noteq> BSL"
  shows "even (bsl_run (pre @ w @ DOT # rest) (length pre + length w))"
  using raw_label_parity(1) [OF assms(1)]
  by (simp add: bsl_run_after [OF assms(2)] bsl_run_append_left)

lemma PrevLabel_loop_join:
  assumes "\<forall>w \<in> set (us @ [u]). raw_label w" and "n > 0"
  shows "PrevLabel_loop (join_labels us @ u @ rest) (length (join_labels us) + length u) n =
           (if nat n \<le> Suc (length us)
            then (length (join_labels (take (Suc (length us) - nat n) us)), False) else (0, True))"
  using assms
proof (induction us arbitrary: u n rest rule: rev_induct)
  case Nil
  then have "PrevLabel_loop (u @ rest) (length u) n = (0, n > 1)"
    using PrevLabel_loop_label [of u "[]" "length u" n rest] by simp
  with Nil show ?case by auto
next
  case (snoc w us)
  let ?s = "join_labels (us @ [w]) @ u @ rest"
  have s: "?s = join_labels us @ w @ (DOT # u @ rest)" by simp
  have last: "join_labels (us @ [w]) = [] \<or> last (join_labels (us @ [w])) \<noteq> BSL"
    and last': "join_labels us = [] \<or> last (join_labels us) \<noteq> BSL"
    using last_join_labels by auto
  have skip: "PrevLabel_loop ?s (length (join_labels (us @ [w])) + length u) n =
      PrevLabel_loop ?s (length (join_labels (us @ [w]))) n"
    using snoc.prems last by (intro PrevLabel_loop_label) auto
  have dot: "even (bsl_run ?s (length (join_labels us) + length w))"
    unfolding s using snoc.prems last' by (intro unescaped_dot_after_label) auto
  have at: "?s ! (length (join_labels us) + length w) = DOT" by (simp add: nth_append)
  have "PrevLabel_loop ?s (Suc (length (join_labels us) + length w)) n =
      (if n = 1 then (Suc (length (join_labels us) + length w), False)
       else PrevLabel_loop ?s (length (join_labels us) + length w) (n - 1))"
    using dot at snoc.prems(2) by simp
  then have one: "PrevLabel_loop ?s (length (join_labels (us @ [w]))) n =
      (if n = 1 then (length (join_labels (us @ [w])), False)
       else PrevLabel_loop ?s (length (join_labels us) + length w) (n - 1))"
    by simp
  show ?case
  proof (cases "n = 1")
    case True
    with one skip show ?thesis by simp
  next
    case False
    then have "PrevLabel_loop ?s (length (join_labels us) + length w) (n - 1) =
      (if nat (n - 1) \<le> Suc (length us)
       then (length (join_labels (take (Suc (length us) - nat (n - 1)) us)), False) else (0, True))"
      unfolding s using snoc.prems by (intro snoc.IH) auto
    moreover have "nat n = Suc (nat (n - 1))" and "nat (n - 1) > 0"
      using False snoc.prems(2) by auto
    ultimately show ?thesis using one skip False by (simp del: PrevLabel_loop.simps)
  qed
qed

lemma PrevLabel_join:
  assumes "valid_labels us" and "n > 0"
  shows "PrevLabel (join_labels us) n =
           (if nat n \<le> length us
            then (length (join_labels (take (length us - nat n) us)), False) else (0, True))"
proof -
  obtain vs v where v: "us = vs @ [v]"
    using valid_labels_D(1) [OF assms(1)] by (cases us rule: rev_cases) auto
  then have "\<forall>w \<in> set (vs @ [v]). raw_label w" using valid_labels_D(3) [OF assms(1)] by simp
  from PrevLabel_loop_join [OF this assms(2), of "[DOT]"] assms(2)
  show ?thesis
    by (auto simp: PrevLabel_def v Suc_diff_le le_Suc_eq simp del: PrevLabel_loop.simps)
qed

subsection \<open>Escape sequences\<close>

lemma isDigit_digit: "k < 10 \<Longrightarrow> isDigit (0x30 + of_nat k)"
  by (simp add: isDigit_def word_le_nat_alt unat_word_ariths unat_of_nat)

lemma decimal_digits: "n div 100 * 100 + n div 10 mod 10 * 10 + n mod 10 = (n :: nat)"
proof -
  have "n div 100 = n div 10 div 10" by (simp add: div_mult2_eq)
  then show ?thesis
    using div_mult_mod_eq [of n 10] div_mult_mod_eq [of "n div 10" 10] by linarith
qed

lemma ddd_digits:
  assumes "n < 256"
  shows "isDDD (tl (ddd_entry n) @ r)" and "dddToByte (tl (ddd_entry n) @ r) = of_nat n"
proof -
  have "n div 100 < 10" using assms by simp
  then show "isDDD (tl (ddd_entry n) @ r)" by (simp add: ddd_entry_def isDigit_digit)
  have "dddToByte (tl (ddd_entry n) @ r) =
      of_nat (n div 100) * 100 + of_nat (n div 10 mod 10) * 10 + of_nat (n mod 10)"
    by (simp add: ddd_entry_def)
  also have "\<dots> = of_nat (n div 100 * 100 + n div 10 mod 10 * 10 + n mod 10)"
    by (simp only: of_nat_add of_nat_mult of_nat_numeral)
  finally show "dddToByte (tl (ddd_entry n) @ r) = of_nat n" by (simp only: decimal_digits)
qed

lemma take_drop_concat:
  assumes "\<And>x. length (f x) = k" and "i < length xs"
  shows "take k (drop (i * k) (concat (map f xs))) = f (xs ! i)"
  using assms(2)
proof (induction xs arbitrary: i)
  case Nil
  then show ?case by simp
next
  case (Cons x xs)
  then show ?case by (cases i) (simp_all add: assms(1))
qed

lemma table_entry:
  assumes "m + i < n"
  shows "take 4 (drop (i * 4) (concat (map ddd_entry [m..<n]))) = ddd_entry (m + i)"
proof -
  have "length (ddd_entry x) = 4" for x by (simp add: ddd_entry_def)
  then show ?thesis using assms by (simp add: take_drop_concat)
qed

lemma escapeByte_eq:
  assumes "b < 0x20 \<or> 0x7E < b"
  shows "escapeByte b = ddd_entry (unat b)"
proof (cases "b < 0x20")
  case True
  then have lt: "0 + unat b < 32" by (simp add: word_less_nat_alt)
  then have "unat (b * 4) = unat b * 4" by (simp add: unat_word_ariths)
  with True table_entry [OF lt] show ?thesis
    unfolding escapeByte_def escapedByteSmall_def by simp
next
  case False
  with assms have b: "127 \<le> unat b" by (simp add: word_less_nat_alt)
  then have sub: "unat (b - 0x7F) = unat b - 127" by (simp add: unat_sub word_le_nat_alt)
  have lt: "127 + (unat b - 127) < 256" using unat_byte_less [of b] b by simp
  from False b sub table_entry [OF lt] show ?thesis
    unfolding escapeByte_def escapedByteLarge_def by (simp del: upt_rec_numeral)
qed

subsection \<open>Presenting and parsing labels\<close>

text \<open>
  How a label from the wire is written: the escaping of the label bytes in
  \<^verbatim>\<open>UnpackDomainName\<close>. \<open>present\<close> writes a whole name.
\<close>

definition esc_label_byte :: "byte \<Rightarrow> gostring" where
  "esc_label_byte b =
     (if isDomainNameLabelSpecial b then [BSL, b]
      else if b < 0x20 \<or> b > 0x7E then escapeByte b
      else [b])"

definition present_label :: "bytes \<Rightarrow> gostring" where
  "present_label l = concat (map esc_label_byte l)"

definition present :: "bytes list \<Rightarrow> gostring" where
  "present ls = (if ls = [] then [DOT] else join_labels (map present_label ls))"

text \<open>The labels of a name in presentation format, if it is one.\<close>

definition wf_label :: "bytes \<Rightarrow> bool" where
  "wf_label l \<longleftrightarrow> l \<noteq> [] \<and> length l < 64"

definition name_labels :: "gostring \<Rightarrow> bytes list option" where
  "name_labels s =
     (if s = [DOT] then Some []
      else case split_labels [] s of
        None \<Rightarrow> None
      | Some ls \<Rightarrow> if ls \<noteq> [] \<and> list_all wf_label ls then Some ls else None)"

lemma present_label_simps [simp]:
  "present_label [] = []"
  "present_label (b # l) = esc_label_byte b @ present_label l"
  by (simp_all add: present_label_def)

lemma special_cases:
  assumes "isDomainNameLabelSpecial b"
  shows "\<not> isDigit b" and "b < 0x80"
  using assms by (auto simp: isDomainNameLabelSpecial_def isDigit_def)

lemma not_DDD: "\<not> isDigit x \<Longrightarrow> \<not> isDDD (x # r)"
  by (cases r rule: isDDD.cases) (auto elim: isDDD.elims)

lemma split_labels_simps:
  "split_labels cur [] = (if cur = [] then Some [] else None)"
  "isDDD r \<Longrightarrow> split_labels cur (BSL # r) = split_labels (cur @ [dddToByte r]) (drop 3 r)"
  "\<not> isDDD (x # r) \<Longrightarrow> split_labels cur (BSL # x # r) = split_labels (cur @ [x]) r"
  "split_labels cur (DOT # r) = map_option ((#) cur) (split_labels [] r)"
  "c \<noteq> BSL \<Longrightarrow> c \<noteq> DOT \<Longrightarrow> split_labels cur (c # r) = split_labels (cur @ [c]) r"
  by (simp_all add: split_labels.simps [of cur])

lemma ddd_entry_Cons: "ddd_entry n = BSL # tl (ddd_entry n)"
  by (simp add: ddd_entry_def)

lemma split_labels_esc:
  "split_labels cur (esc_label_byte b @ rest) = split_labels (cur @ [b]) rest"
proof -
  consider (special) "isDomainNameLabelSpecial b"
    | (ddd) "\<not> isDomainNameLabelSpecial b" "b < 0x20 \<or> b > 0x7E"
    | (plain) "\<not> isDomainNameLabelSpecial b" "\<not> (b < 0x20 \<or> b > 0x7E)" by blast
  then show ?thesis
  proof cases
    case special
    then show ?thesis
      using special_cases(1) not_DDD by (simp add: esc_label_byte_def split_labels_simps)
  next
    case ddd
    have "split_labels cur (BSL # tl (ddd_entry (unat b)) @ rest) = split_labels (cur @ [b]) rest"
      using ddd_digits [OF unat_byte_less, of b rest]
      by (simp add: split_labels_simps(2) ddd_entry_def del: isDDD.simps dddToByte.simps)
    then have "split_labels cur (ddd_entry (unat b) @ rest) = split_labels (cur @ [b]) rest"
      by (subst ddd_entry_Cons) simp
    then show ?thesis
      using ddd escapeByte_eq [OF ddd(2)] by (simp add: esc_label_byte_def)
  next
    case plain
    then show ?thesis
      by (auto simp: esc_label_byte_def isDomainNameLabelSpecial_def split_labels_simps)
  qed
qed

lemma split_labels_present_label:
  "split_labels cur (present_label l @ rest) = split_labels (cur @ l) rest"
  by (induction l arbitrary: cur) (simp_all add: split_labels_esc)

lemma split_labels_present: "split_labels [] (join_labels (map present_label ls)) = Some ls"
  by (induction ls) (simp_all add: split_labels_simps split_labels_present_label)

lemma raw_label_esc: "raw_label (esc_label_byte b @ r) = raw_label r"
proof -
  consider (special) "isDomainNameLabelSpecial b"
    | (ddd) "\<not> isDomainNameLabelSpecial b" "b < 0x20 \<or> b > 0x7E"
    | (plain) "\<not> isDomainNameLabelSpecial b" "\<not> (b < 0x20 \<or> b > 0x7E)" by blast
  then show ?thesis
  proof cases
    case ddd
    have digit: "0x30 + of_nat k \<noteq> DOT \<and> 0x30 + of_nat k \<noteq> BSL" if "k < 10" for k
      using that by (simp add: word_unat_eq_iff unat_word_ariths unat_of_nat)
    have "unat b div 100 < 10" using unat_byte_less [of b] by simp
    with digit ddd escapeByte_eq [OF ddd(2)] show ?thesis
      by (simp add: esc_label_byte_def ddd_entry_def)
  qed (auto simp: esc_label_byte_def isDomainNameLabelSpecial_def)
qed

lemma raw_label_present: "raw_label (present_label l)"
  by (induction l) (simp_all add: raw_label_esc)

lemma ascii_esc: "ascii (esc_label_byte b)"
proof -
  have digit: "0x30 + of_nat k < (0x80 :: byte)" if "k < 10" for k
    using isDigit_digit [OF that] by (auto simp: isDigit_def intro: le_less_trans)
  have "unat b div 100 < 10" using unat_byte_less [of b] by simp
  then have "ascii (ddd_entry (unat b))"
    by (simp add: ascii_def ddd_entry_def digit)
  moreover have "b < 0x80" if "b \<le> 0x7E" using that by unat_arith
  ultimately show ?thesis
    using escapeByte_eq [of b] special_cases(2) [of b]
    by (auto simp: esc_label_byte_def ascii_def not_less)
qed

lemma ascii_append [simp]: "ascii (s @ t) \<longleftrightarrow> ascii s \<and> ascii t"
  by (auto simp: ascii_def)

lemma ascii_Cons_Nil [simp]: "ascii []" "ascii (b # s) \<longleftrightarrow> b < 0x80 \<and> ascii s"
  by (auto simp: ascii_def)

lemma ascii_present_label: "ascii (present_label l)"
  by (induction l) (simp_all add: ascii_esc)

lemma ascii_present: "ascii (present ls)"
proof -
  have "ascii (join_labels (map present_label ls))"
    by (induction ls) (simp_all add: ascii_present_label)
  then show ?thesis by (simp add: present_def)
qed

lemma esc_label_byte_neq_Nil: "esc_label_byte b \<noteq> []"
  using escapeByte_eq [of b] by (auto simp: esc_label_byte_def ddd_entry_def)

lemma present_label_Nil [simp]: "present_label l = [] \<longleftrightarrow> l = []"
  by (cases l) (auto simp: esc_label_byte_neq_Nil)

lemma valid_labels_present:
  assumes "ls \<noteq> []" and "\<forall>l \<in> set ls. l \<noteq> []"
  shows "valid_labels (map present_label ls)"
  using assms by (auto simp: valid_labels_def raw_label_present)

lemma name_labels_present:
  assumes "list_all wf_label ls"
  shows "name_labels (present ls) = Some ls"
proof (cases ls)
  case Nil
  then show ?thesis by (simp add: name_labels_def present_def)
next
  case (Cons l ls')
  then have "join_labels (map present_label ls) \<noteq> [DOT]"
    using assms by (auto simp: join_labels_root wf_label_def simp del: join_labels_simps)
  with Cons assms show ?thesis
    by (simp add: name_labels_def present_def split_labels_present del: list.map(2) join_labels_simps)
qed

subsection \<open>IsFqdn and the parser\<close>

lemma isDDD_split: "isDDD r \<Longrightarrow> \<exists>a b c r'. r = a # b # c # r' \<and> c \<noteq> BSL \<and> b \<noteq> BSL \<and> a \<noteq> BSL \<and> c \<noteq> DOT"
  by (cases r rule: isDDD.cases) (auto simp: isDigit_def)

lemma bsl_run_ddd:
  assumes "c \<noteq> BSL"
  shows "bsl_run (x # a # b # c # r) (Suc (Suc (Suc (Suc k)))) = bsl_run r k"
  using bsl_run_after [of "[x, a, b, c]" r k] assms by simp

lemma split_labels_parity:
  "(split_labels cur s \<noteq> None) \<longleftrightarrow>
     (if s = [] then cur = [] else last s = DOT \<and> even (bsl_run s (length s - 1)))"
proof (induction cur s rule: split_labels.induct)
  case (1 cur s)
  show ?case
  proof (cases s)
    case Nil
    then show ?thesis by (simp add: split_labels_simps)
  next
    case (Cons c r)
    consider (ddd) "c = BSL" "isDDD r" | (char) x r' where "c = BSL" "\<not> isDDD r" "r = x # r'"
      | (bad) "c = BSL" "r = []" | (dot) "c = DOT" | (plain) "c \<noteq> BSL" "c \<noteq> DOT"
      by (cases r) auto
    then show ?thesis
    proof cases
      case ddd
      from isDDD_split [OF ddd(2)] obtain a b d r' where r: "r = a # b # d # r'" "d \<noteq> BSL" "d \<noteq> DOT" by blast
      have "bsl_run s (length s - 1) = bsl_run r' (length r' - 1)" if "r' \<noteq> []"
        using bsl_run_ddd [OF r(2), of c a b r' "length r' - 1"] that Cons r by (simp add: neq_Nil_conv)
      with "1.IH"(1) [OF Cons ddd] Cons ddd r show ?thesis
        by (cases r') (auto simp: split_labels_simps)
    next
      case char
      have "even (bsl_run s (length s - 1)) = even (bsl_run r' (length r' - 1))" if "r' \<noteq> []"
        using bsl_run_escape_pair [of x r' "length r' - 1"] that Cons char by (simp add: neq_Nil_conv)
      with "1.IH"(2) [OF Cons char] Cons char show ?thesis
        by (cases r') (auto simp: split_labels_simps)
    next
      case bad
      with Cons show ?thesis by (simp add: split_labels.simps [of cur])
    next
      case dot
      have "bsl_run s (length s - 1) = bsl_run r (length r - 1)" if "r \<noteq> []"
        using bsl_run_plain [of c r "length r - 1"] that Cons dot by (simp add: neq_Nil_conv)
      with "1.IH"(3) [OF Cons _ dot] Cons dot show ?thesis
        by (cases "r = []") (auto simp: split_labels_simps)
    next
      case plain
      have "bsl_run s (length s - 1) = bsl_run r (length r - 1)" if "r \<noteq> []"
        using bsl_run_plain [of c r "length r - 1"] that Cons plain by (simp add: neq_Nil_conv)
      with "1.IH"(4) [OF Cons _ _] Cons plain show ?thesis
        by (cases "r = []") (auto simp: split_labels_simps)
    qed
  qed
qed

lemma IsFqdn_iff_split: "ascii s \<Longrightarrow> IsFqdn s \<longleftrightarrow> s \<noteq> [] \<and> split_labels [] s \<noteq> None"
  unfolding IsFqdn_parity split_labels_parity by simp

subsection \<open>IsDomainName on names\<close>

definition labels_octets :: "bytes list \<Rightarrow> nat" where
  "labels_octets ls = sum_list (map (\<lambda>l. length l + 1) ls)"

lemma labels_octets_simps [simp]:
  "labels_octets [] = 0" "labels_octets (l # ls) = length l + 1 + labels_octets ls"
  by (simp_all add: labels_octets_def)

lemma split_labels_rest:
  "split_labels cur s = Some ls \<Longrightarrow> s \<noteq> [] \<or> cur \<noteq> [] \<Longrightarrow> 0 < labels_octets ls"
proof (induction cur s arbitrary: ls rule: split_labels.induct)
  case (1 cur s)
  then show ?case
    by (cases s) (auto simp: split_labels.simps [of cur] split: if_splits list.splits)
qed

lemma IsDomainName_loop_names:
  assumes "split_labels cur rest = Some ls" and "list_all wf_label ls"
    and "s = pre @ rest" and "i = length pre" and "idn_begin st + length cur = i"
    and "(i = 0 \<and> length s > 1) \<or> idn_wasDot st \<longrightarrow> cur = []" and "rest = [] \<longrightarrow> \<not> idn_escape st"
    and "idn_off st \<le> 256"
  shows "if idn_off st + labels_octets ls \<le> 256
         then IsDomainName_loop s i st = (idn_labels st + length ls, True)
         else \<not> snd (IsDomainName_loop s i st)"
  using assms
proof (induction cur rest arbitrary: ls i st pre rule: split_labels.induct)
  case (1 cur rest)
  show ?case
  proof (cases rest)
    case Nil
    with "1.prems" show ?thesis
      by (auto simp: split_labels_simps IsDomainName_loop.simps split: if_splits)
  next
    case (Cons c r)
    have at: "i < length s" "s ! i = c" "drop (Suc i) s = r" using "1.prems"(3,4) Cons by (auto simp: nth_append)
    consider (ddd) "c = BSL" "isDDD r" | (char) x r' where "c = BSL" "\<not> isDDD r" "r = x # r'"
      | (bad) "c = BSL" "\<not> isDDD r" "r = []" | (dot) "c = DOT" | (plain) "c \<noteq> BSL" "c \<noteq> DOT"
      by (cases r) auto
    then show ?thesis
    proof cases
      case ddd
      let ?st = "st\<lparr>idn_escape := \<not> idn_escape st, idn_begin := idn_begin st + 3, idn_wasDot := False\<rparr>"
      from isDDD_split [OF ddd(2)] obtain a b d r' where r: "r = a # b # d # r'" by blast
      have sp: "split_labels (cur @ [dddToByte r]) (drop 3 r) = Some ls"
        using "1.prems"(1) Cons ddd by (simp add: split_labels_simps)
      have "r' \<noteq> []" using sp r by (auto simp: split_labels_simps)
      then have "if idn_off st + labels_octets ls \<le> 256
         then IsDomainName_loop s (i + 3 + 1) ?st = (idn_labels st + length ls, True)
         else \<not> snd (IsDomainName_loop s (i + 3 + 1) ?st)"
        using "1.IH"(1) [OF Cons ddd sp "1.prems"(2), of "pre @ [c, a, b, d]" "i + 3 + 1" ?st] "1.prems" Cons r
        by (simp split: if_splits)
      moreover have "IsDomainName_loop s i st = (if idn_off st + 1 > 256 then (idn_labels st, False)
          else IsDomainName_loop s (i + 3 + 1) ?st)"
        using at ddd by (subst IsDomainName_loop.simps) (simp add: Let_def)
      ultimately show ?thesis using split_labels_rest [OF sp] by (auto split: if_splits)
    next
      case char
      let ?st = "st\<lparr>idn_escape := \<not> idn_escape st, idn_begin := idn_begin st + 1, idn_wasDot := False\<rparr>"
      have sp: "split_labels (cur @ [x]) r' = Some ls"
        using "1.prems"(1) Cons char by (simp add: split_labels_simps)
      have "r' \<noteq> []" using sp by (auto simp: split_labels_simps)
      then have "if idn_off st + labels_octets ls \<le> 256
         then IsDomainName_loop s (i + 1 + 1) ?st = (idn_labels st + length ls, True)
         else \<not> snd (IsDomainName_loop s (i + 1 + 1) ?st)"
        using "1.IH"(2) [OF Cons char sp "1.prems"(2), of "pre @ [c, x]" "i + 1 + 1" ?st] "1.prems" Cons char(3)
        by (simp split: if_splits)
      moreover have "IsDomainName_loop s i st = (if idn_off st + 1 > 256 then (idn_labels st, False)
          else IsDomainName_loop s (i + 1 + 1) ?st)"
        using at char by (subst IsDomainName_loop.simps) (simp add: Let_def)
      ultimately show ?thesis using split_labels_rest [OF sp] by (auto split: if_splits)
    next
      case bad
      with "1.prems" Cons show ?thesis by (simp add: split_labels.simps [of cur])
    next
      case dot
      with "1.prems"(1) Cons obtain ls' where ls: "ls = cur # ls'" "split_labels [] r = Some ls'"
        by (auto simp: split_labels_simps)
      then have wf: "list_all wf_label ls'" and "wf_label cur" using "1.prems"(2) by auto
      then have cur: "cur \<noteq> []" "length cur < 64" by (auto simp: wf_label_def)
      let ?st = "st\<lparr>idn_escape := False, idn_off := idn_off st + (1 + length cur), idn_begin := i + 1,
        idn_wasDot := True, idn_labels := idn_labels st + 1\<rparr>"
      have len: "i - idn_begin st = length cur" using "1.prems"(5) by simp
      have ih: "idn_off st + (1 + length cur) \<le> 256 \<Longrightarrow> if idn_off st + (1 + length cur) + labels_octets ls' \<le> 256
         then IsDomainName_loop s (i + 1) ?st = (idn_labels st + 1 + length ls', True)
         else \<not> snd (IsDomainName_loop s (i + 1) ?st)"
        using "1.IH"(3) [OF Cons _ dot ls(2) wf, of "pre @ [c]" "i + 1" ?st] "1.prems" Cons dot by (simp split: if_splits)
      have ok: "\<not> (i = 0 \<and> length s > 1)" "\<not> idn_wasDot st" using "1.prems"(6) cur by auto
      have "IsDomainName_loop s i st = (if idn_off st + (1 + length cur) > 256 then (idn_labels st, False)
          else IsDomainName_loop s (i + 1) ?st)"
        using at dot cur ok len by (subst IsDomainName_loop.simps) (auto simp: Let_def)
      then show ?thesis using ih ls by (auto split: if_splits)
    next
      case plain
      let ?st = "st\<lparr>idn_escape := False, idn_wasDot := False\<rparr>"
      have sp: "split_labels (cur @ [c]) r = Some ls"
        using "1.prems"(1) Cons plain by (simp add: split_labels_simps)
      with "1.IH"(4) [OF Cons _ _ sp "1.prems"(2), of "pre @ [c]" "i + 1" ?st] "1.prems" Cons plain
      show ?thesis using at
        by (subst (1 2) IsDomainName_loop.simps) (simp split: if_splits)
    qed
  qed
qed

lemma IsDomainName_names:
  assumes "ascii s" and "name_labels s = Some ls" and "ls \<noteq> []"
  shows "if labels_octets ls \<le> 256 then IsDomainName s = (length ls, True) else \<not> snd (IsDomainName s)"
proof -
  have sp: "split_labels [] s = Some ls" "list_all wf_label ls"
    using assms by (auto simp: name_labels_def split: option.splits if_splits)
  have ne: "s \<noteq> []" using sp assms(3) by (auto simp: split_labels_simps)
  then have "IsFqdn s" using sp IsFqdn_iff_split [OF assms(1)] by simp
  with IsDomainName_loop_names [OF sp, of s "[]" 0 "\<lparr>idn_off = 0, idn_begin = 0, idn_wasDot = False, idn_escape = False,
              idn_labels = 0\<rparr>"] ne
  show ?thesis by (simp add: IsDomainName_def Fqdn_IsFqdn)
qed

section \<open>Properties\<close>

text \<open>
  C23: on a name written as labels that each end with a dot, CountLabel counts the labels, Split
  gives the offsets where they start, SplitDomainName gives the labels themselves, and NextLabel
  moves from the start of any label to the start of the next, reporting the end after the last.
\<close>

theorem label_functions_walk_labels:
  assumes "valid_labels us" and "ascii (join_labels us)"
  shows "CountLabel (join_labels us) = length us \<and> Split (join_labels us) = starts 0 us \<and>
         SplitDomainName (join_labels us) = us \<and>
         (\<forall>pre u post. us = pre @ u # post \<longrightarrow>
            NextLabel (join_labels us) (length (join_labels pre)) =
              (length (join_labels pre) + length u + 1, post = []))"
proof -
  note D = valid_labels_D [OF assms(1)]
  have "NextLabel (join_labels us) (length (join_labels pre)) =
      (length (join_labels pre) + length u + 1, post = [])" if us: "us = pre @ u # post" for pre u post
  proof -
    have "raw_label u" using D(3) us by simp
    moreover have "join_labels pre = [] \<or> last (join_labels pre) \<noteq> BSL"
      using last_join_labels [of pre] by (cases pre) auto
    ultimately show ?thesis using NextLabel_join [of u "join_labels pre" post] by (simp add: us)
  qed
  then show ?thesis
    using CountLabel_join [OF D(3,1,2)] Split_join [OF D(3,1,2)] SplitDomainName_join [OF assms] by blast
qed

theorem label_functions_walk_labels_witness:
  "SplitDomainName ([0x61, BSL, DOT, 0x62, DOT, 0x63, DOT]) = [[0x61, BSL, DOT, 0x62], [0x63]]"
  using label_functions_walk_labels [of "[[0x61, BSL, DOT, 0x62], [0x63]]"]
  by (simp add: valid_labels_def str_def)

text \<open>
  Walking back \<open>n\<close> labels from the end of a name with PrevLabel gives the offset of the
  \<open>n\<close>-th label from the right, and overshoots exactly when the name has fewer labels.
\<close>

lemma PrevLabel_walks_back:
  assumes "valid_labels us" and "0 < n"
  shows "PrevLabel (join_labels us) n =
           (if nat n \<le> length us
            then (length (join_labels (take (length us - nat n) us)), False) else (0, True))"
  using PrevLabel_join [OF assms] .

text \<open>
  C24: CompareDomainName gives the number of labels two names share from the right, ignoring the
  case of ASCII letters, and IsSubDomain holds exactly when the labels of the parent are the last
  labels of the child.
\<close>

theorem CompareDomainName_shared_labels:
  assumes "valid_labels us" and "valid_labels vs"
  shows "CompareDomainName (join_labels us) (join_labels vs) =
           length (takeWhile (\<lambda>(u, v). map to_lower u = map to_lower v) (zip (rev us) (rev vs))) \<and>
         (IsSubDomain (join_labels us) (join_labels vs) \<longleftrightarrow>
           (\<exists>ws. map (map to_lower) vs = ws @ map (map to_lower) us))"
  using CompareDomainName_join [OF assms] IsSubDomain_join [OF assms]
  by (simp add: common_suffix_def equal_names_iff)

theorem CompareDomainName_shared_labels_witness:
  "CompareDomainName (str ''www.miek.nl.'') (str ''NL.'') = 1"
  using CompareDomainName_shared_labels [of "[str ''www'', str ''miek'', str ''nl'']" "[str ''NL'']"]
  by (simp add: valid_labels_def str_def to_lower_def)

text \<open>
  C25: an ASCII string is fully qualified for IsFqdn exactly when it is not empty and the
  left-to-right reading of its escapes ends right after an unescaped dot.
\<close>

theorem IsFqdn_ends_in_unescaped_dot:
  assumes "ascii s"
  shows "IsFqdn s \<longleftrightarrow> s \<noteq> [] \<and> (\<exists>ls. split_labels [] s = Some ls)"
  using IsFqdn_iff_split [OF assms] by auto

theorem IsFqdn_ends_in_unescaped_dot_witness:
  "\<not> (\<exists>ls. split_labels [] [0x61, BSL, DOT] = Some ls)"
proof -
  have "\<not> IsFqdn [0x61, BSL, DOT]" by code_simp
  then show ?thesis using IsFqdn_ends_in_unescaped_dot [of "[0x61, BSL, DOT]"] by (simp add: ascii_def)
qed

text \<open>
  C26: for an ASCII name with one or more labels, none of them empty or longer than 63 octets, IsDomainName counts
  the labels and accepts exactly when the labels with their length octets take at most 256 octets, which with
  the root label makes 257 octets. So it does not check the limit of 255 octets for the entire name that its
  comment promises.
\<close>

theorem IsDomainName_counts:
  assumes "ascii s" and "name_labels s = Some ls" and "ls \<noteq> []"
  shows "if labels_octets ls \<le> 256 then IsDomainName s = (length ls, True)
         else snd (IsDomainName s) = False"
  using IsDomainName_names [OF assms] by simp

theorem IsDomainName_counts_witness:
  "IsDomainName (str ''www.miek.nl.'') = (3, True)"
proof -
  have "name_labels (str ''www.miek.nl.'') = Some [str ''www'', str ''miek'', str ''nl'']"
    using name_labels_present [of "[str ''www'', str ''miek'', str ''nl'']"]
    by (simp add: str_def present_def esc_label_byte_def isDomainNameLabelSpecial_def wf_label_def)
  with IsDomainName_counts [of "str ''www.miek.nl.''"] show ?thesis
    by (simp add: str_def ascii_def)
qed

text \<open>
  C27: the text UnpackDomainName writes for a list of labels reads back as the same labels, is
  ASCII and fully qualified; so every octet survives the escaping.
\<close>

theorem present_reads_back:
  assumes "list_all wf_label ls"
  shows "name_labels (present ls) = Some ls \<and> ascii (present ls) \<and> IsFqdn (present ls)"
proof -
  have "IsFqdn (present ls)"
  proof (cases "ls = []")
    case True
    then show ?thesis by (simp add: present_def IsFqdn_def)
  next
    case False
    then show ?thesis using IsFqdn_iff_split [OF ascii_present, of ls] split_labels_present [of ls]
      by (auto simp: present_def)
  qed
  then show ?thesis using name_labels_present [OF assms] ascii_present by simp
qed

theorem present_reads_back_witness:
  "name_labels (present [[0x2E, 0x00, 0xFF], str ''nl'']) = Some [[0x2E, 0x00, 0xFF], str ''nl'']"
  using present_reads_back [of "[[0x2E, 0x00, 0xFF], str ''nl'']"] by (simp add: wf_label_def str_def)

text \<open>
  C28: two ASCII names have the same canonical form exactly when they are equal, once fully
  qualified, for the case-insensitive comparison CompareDomainName uses; and the canonical form of
  a fully qualified name is its own canonical form.
\<close>

theorem CanonicalName_decides_equality:
  assumes "ascii s" and "ascii t"
  shows "(CanonicalName s = CanonicalName t \<longleftrightarrow> equal_names (Fqdn s) (Fqdn t)) \<and>
         (IsFqdn s \<longrightarrow> CanonicalName (CanonicalName s) = CanonicalName s)"
proof -
  have c: "CanonicalName x = map to_lower (Fqdn x)" if "ascii x" for x
    using map_runes_ascii [OF ascii_Fqdn [OF that]] by (simp add: CanonicalName_def)
  have a: "ascii (map to_lower s)"
    using assms(1) to_lower_ascii by (auto simp: ascii_def)
  have "IsFqdn (map to_lower s)" if "IsFqdn s"
    using that bsl_run_map_lower [of "length s - 1" s]
    by (auto simp: IsFqdn_parity [OF a] IsFqdn_parity [OF assms(1)] last_map to_lower_eq_special)
  then show ?thesis using c [OF a] c [OF assms(1)] c [OF assms(2)]
    by (auto simp: equal_names_iff Fqdn_IsFqdn)
qed

theorem CanonicalName_decides_equality_witness:
  "CanonicalName (str ''Miek.NL'') = CanonicalName (str ''mIEK.nl.'')"
  using CanonicalName_decides_equality [of "str ''Miek.NL''" "str ''mIEK.nl.''"]
  by (simp add: str_def ascii_def equal_names_iff Fqdn_def IsFqdn_def to_lower_def)

text \<open>
  A backslash toggles the escape flag that only a dot or a plain byte clears, so after an even
  number of escapes a dangling backslash is not noticed.
\<close>

lemma IsDomainName_dangling_backslash: "IsDomainName [BSL, 0x61, BSL] = (0, True)"
  by code_simp

text \<open>The last rune before the backslashes is taken for a single byte.\<close>

lemma IsFqdn_wide_rune: "IsFqdn [0xC3, 0xA9, BSL, DOT] \<and> \<not> IsFqdn [0xC3, 0xA9, BSL, BSL, DOT]"
  by code_simp

text \<open>Bytes that are not UTF-8 are replaced, although only letters should change.\<close>

lemma CanonicalName_invalid_utf8: "CanonicalName [0xFF, DOT] = [0xEF, 0xBF, 0xBD, DOT]"
  by code_simp

end
