(* ===== verification/Domain_Wire.thy ===== *)
theory Domain_Wire
  imports Names
begin

section \<open>Domain names on the wire\<close>

text \<open>
  \<^verbatim>\<open>packDomainName\<close>, \<^verbatim>\<open>UnpackDomainName\<close> and the compression map of
  \<^verbatim>\<open>msg.go\<close>. The packing loop works in place: it removes the escapes by shifting the tail of
  a copy of the name to the left, keeps five indexes into it and writes each label when it meets
  the label's dot. It is modelled with all of its state; the reference \<open>pack_ref\<close> is a
  plain recursion over what is left of the name, and \<open>enc_name\<close> is the encoding of a list
  of labels under a compression map.
  The unpacking loop follows compression pointers; \<open>name_at\<close> is what RFC 1035 says a
  message holds at an offset.
\<close>

subsection \<open>The compression map\<close>

record compressionMap =
  cm_ext :: "(gostring \<rightharpoonup> int) option"
  cm_int :: "(gostring \<rightharpoonup> u16) option"

definition cm_valid :: "compressionMap \<Rightarrow> bool" where
  "cm_valid m \<longleftrightarrow> cm_int m \<noteq> None \<or> cm_ext m \<noteq> None"

text \<open>Only called on a valid map.\<close>

definition cm_insert :: "compressionMap \<Rightarrow> gostring \<Rightarrow> nat \<Rightarrow> compressionMap" where
  "cm_insert m s pos =
     (case cm_ext m of
        Some e \<Rightarrow> m\<lparr>cm_ext := Some (e(s \<mapsto> int pos))\<rparr>
      | None \<Rightarrow> m\<lparr>cm_int := map_option (\<lambda>i. i(s \<mapsto> of_nat pos)) (cm_int m)\<rparr>)"

definition cm_find :: "compressionMap \<Rightarrow> gostring \<Rightarrow> int option" where
  "cm_find m s =
     (case cm_ext m of
        Some e \<Rightarrow> e s
      | None \<Rightarrow> (case cm_int m of Some i \<Rightarrow> map_option uint (i s) | None \<Rightarrow> None))"

definition no_compression :: compressionMap where
  "no_compression = \<lparr>cm_ext = None, cm_int = None\<rparr>"

definition new_compression :: compressionMap where
  "new_compression = \<lparr>cm_ext = None, cm_int = Some Map.empty\<rparr>"

abbreviation maxCompressionOffset :: nat where "maxCompressionOffset \<equiv> 16384"
abbreviation maxDomainNameWireOctets :: int where "maxDomainNameWireOctets \<equiv> 255"
abbreviation maxCompressionPointers :: nat where "maxCompressionPointers \<equiv> 126"

subsection \<open>packDomainName\<close>

definition isRootLabel :: "gostring \<Rightarrow> bytes option \<Rightarrow> nat \<Rightarrow> nat \<Rightarrow> bool off_res" where
  "isRootLabel s bs off end =
     (case bs of
        None \<Rightarrow> bindR (go_slice s off end) (\<lambda>t. Ok (t = [DOT]))
      | Some b \<Rightarrow>
          if int end - int off = 1 then bindR (index_at b off) (\<lambda>c. Ok (c = DOT)) else Ok False)"

record pdn_state =
  pd_msg :: bytes
  pd_off :: nat
  pd_cm :: compressionMap
  pd_i :: nat
  pd_ls :: nat
  pd_bs :: "bytes option"
  pd_begin :: nat
  pd_compBegin :: nat
  pd_compOff :: nat
  pd_wasDot :: bool

text \<open>The bytes the loop reads: the name, or its unescaped copy once there is one.\<close>

definition pd_buf :: "gostring \<Rightarrow> pdn_state \<Rightarrow> bytes" where
  "pd_buf s st = (case pd_bs st of None \<Rightarrow> s | Some b \<Rightarrow> b)"

text \<open>The case \<^verbatim>\<open>'\\'\<close> of the switch.\<close>

definition pdn_escape :: "gostring \<Rightarrow> pdn_state \<Rightarrow> pdn_state off_res" where
  "pdn_escape s st =
     (if pd_off st + 1 > length (pd_msg st) then Err (length (pd_msg st), ErrBuf)
      else
        let bs = pd_buf s st; i = pd_i st; ls = pd_ls st in
        bindR (go_slice_from bs (i + 1)) (\<lambda>t.
          if isDDD t then
            bindR (set_at bs i (dddToByte t)) (\<lambda>bs.
            bindR (copy_within bs (i + 1) (ls - 3) (i + 4)) (\<lambda>bs.
              Ok (st\<lparr>pd_bs := Some bs, pd_ls := ls - 3, pd_compOff := pd_compOff st + 3,
                     pd_wasDot := False\<rparr>)))
          else
            bindR (copy_within bs i (ls - 1) (i + 1)) (\<lambda>bs.
              Ok (st\<lparr>pd_bs := Some bs, pd_ls := ls - 1, pd_compOff := pd_compOff st + 1,
                     pd_wasDot := False\<rparr>))))"

text \<open>The compression step of the case \<^verbatim>\<open>'.'\<close>: a pointer to stop with, or the new map.\<close>

definition pdn_compress :: "gostring \<Rightarrow> bool \<Rightarrow> pdn_state \<Rightarrow> (compressionMap + int) off_res" where
  "pdn_compress s compress st =
     (if cm_valid (pd_cm st) then
        bindR (isRootLabel s (pd_bs st) (pd_begin st) (pd_ls st)) (\<lambda>root.
          if root then Ok (Inl (pd_cm st))
          else
            bindR (go_slice_from s (pd_compBegin st)) (\<lambda>suffix.
              case cm_find (pd_cm st) suffix of
                Some p \<Rightarrow> if compress then Ok (Inr p) else Ok (Inl (pd_cm st))
              | None \<Rightarrow>
                  if pd_off st < maxCompressionOffset
                  then Ok (Inl (cm_insert (pd_cm st) suffix (pd_off st)))
                  else Ok (Inl (pd_cm st))))
      else Ok (Inl (pd_cm st)))"

text \<open>The case \<^verbatim>\<open>'.'\<close>: \<open>Inr\<close> is \<^verbatim>\<open>break loop\<close> with a pointer.\<close>

definition pdn_dot :: "gostring \<Rightarrow> bool \<Rightarrow> pdn_state \<Rightarrow> (pdn_state + (pdn_state \<times> int)) off_res" where
  "pdn_dot s compress st =
     (let msg = pd_msg st; off = pd_off st; i = pd_i st in
      if i = 0 \<and> length s > 1 then Err (length msg, ErrRdata)
      else if pd_wasDot st then Err (length msg, ErrRdata)
      else
        let st = st\<lparr>pd_wasDot := True\<rparr>; labelLen = i - pd_begin st in
        if labelLen \<ge> 64 then Err (length msg, ErrRdata)
        else if off + 1 + labelLen > length msg then Err (length msg, ErrBuf)
        else
          bindR (pdn_compress s compress st) (\<lambda>r.
            case r of
              Inr p \<Rightarrow> Ok (Inr (st, p))
            | Inl cm \<Rightarrow>
                bindR (write_at msg off [of_nat labelLen]) (\<lambda>msg.
                bindR (go_slice (pd_buf s st) (pd_begin st) i) (\<lambda>label.
                bindR (write_at msg (off + 1) label) (\<lambda>msg.
                  Ok (Inl (st\<lparr>pd_msg := msg, pd_off := off + (1 + labelLen), pd_cm := cm,
                              pd_begin := i + 1,
                              pd_compBegin := i + 1 + pd_compOff st\<rparr>)))))))"

definition pdn_step :: "gostring \<Rightarrow> bool \<Rightarrow> pdn_state \<Rightarrow> (pdn_state + (pdn_state \<times> int)) off_res" where
  "pdn_step s compress st =
     bindR (index_at (pd_buf s st) (pd_i st)) (\<lambda>c.
       if c = BSL then bindR (pdn_escape s st) (\<lambda>st. Ok (Inl st))
       else if c = DOT then pdn_dot s compress st
       else Ok (Inl (st\<lparr>pd_wasDot := False\<rparr>)))"

lemma bindR_cong [fundef_cong]:
  "m = m' \<Longrightarrow> (\<And>a. m' = Ok a \<Longrightarrow> f a = g a) \<Longrightarrow> bindR m f = bindR m' g"
  by (cases m') auto

lemma pdn_step_index:
  "pdn_step s compress st = Ok (Inl st') \<Longrightarrow> pd_i st' = pd_i st \<and> pd_ls st' \<le> pd_ls st"
  by (auto simp: pdn_step_def pdn_escape_def pdn_dot_def bindR_eq_Ok case_sum_eq_Ok Let_def
      split: if_splits)

function pdn_loop :: "gostring \<Rightarrow> bool \<Rightarrow> pdn_state \<Rightarrow> (pdn_state \<times> int) off_res" where
  "pdn_loop s compress st =
     (if pd_i st < pd_ls st then
        bindR (pdn_step s compress st) (\<lambda>r.
          case r of
            Inl st' \<Rightarrow> pdn_loop s compress (st'\<lparr>pd_i := pd_i st' + 1\<rparr>)
          | Inr stp \<Rightarrow> Ok stp)
      else Ok (st, -1))"
  by pat_completeness auto
termination
  by (relation "measure (\<lambda>(s, compress, st). pd_ls st - pd_i st)") (auto dest!: pdn_step_index)

declare pdn_loop.simps [simp del]

definition packDomainName ::
  "gostring \<Rightarrow> bytes \<Rightarrow> nat \<Rightarrow> compressionMap \<Rightarrow> bool \<Rightarrow> (bytes \<times> compressionMap \<times> nat) off_res" where
  "packDomainName s msg off compression compress =
     (if length s = 0 then Ok (msg, compression, off)
      else if \<not> IsFqdn s then Err (length msg, ErrFqdn)
      else
        bindR (pdn_loop s compress
                 \<lparr>pd_msg = msg, pd_off = off, pd_cm = compression, pd_i = 0, pd_ls = length s,
                  pd_bs = None, pd_begin = 0, pd_compBegin = 0, pd_compOff = 0,
                  pd_wasDot = False\<rparr>) (\<lambda>(st, pointer).
          let msg = pd_msg st; off = pd_off st; compression = pd_cm st in
          bindR (isRootLabel s (pd_bs st) 0 (pd_ls st)) (\<lambda>root.
            if root then Ok (msg, compression, off)
            else if pointer \<noteq> -1 then
              bindR (write_at msg off (be16 (word_of_int (pointer XOR 0xC000)))) (\<lambda>msg.
                Ok (msg, compression, off + 2))
            else if off < length msg then
              bindR (write_at msg off [0]) (\<lambda>msg. Ok (msg, compression, off + 1))
            else Err (off, ErrBuf))))"

definition PackDomainName ::
  "gostring \<Rightarrow> bytes \<Rightarrow> nat \<Rightarrow> (gostring \<rightharpoonup> int) option \<Rightarrow> bool \<Rightarrow> (bytes \<times> compressionMap \<times> nat) off_res" where
  "PackDomainName s msg off compression compress =
     packDomainName s msg off \<lparr>cm_ext = compression, cm_int = None\<rparr> compress"

subsection \<open>UnpackDomainName\<close>

text \<open>
  The loop state is the offset, the text so far, the offset to return (set at the first pointer),
  the budget of wire octets and the number of pointers followed.
  The two bytes of a pointer make a 14-bit offset.
\<close>

lemma less_uint_plus_one:
  fixes b :: byte
  shows "uint b + 1 < n \<Longrightarrow> 0 < n" and "- 1 < uint b"
proof -
  have "0 \<le> uint b" by simp
  then show "uint b + 1 < n \<Longrightarrow> 0 < n" and "- 1 < uint b" by linarith+
qed

function udn_loop :: "bytes \<Rightarrow> nat \<Rightarrow> gostring \<Rightarrow> nat \<Rightarrow> int \<Rightarrow> nat \<Rightarrow> (gostring \<times> nat) off_res" where
  "udn_loop msg off s off1 budget ptr =
     (if off \<ge> length msg then Err (length msg, ErrBuf)
      else
        let c = msg ! off; off = off + 1 in
        if c AND 0xC0 = 0x00 then
          if c = 0x00 then
            Ok (if s = [] then [DOT] else s, if ptr = 0 then off else off1)
          else if off + unat c > length msg then Err (length msg, ErrBuf)
          else
            let budget = budget - (int (unat c) + 1) in
            if budget \<le> 0 then Err (length msg, ErrLongDomain)
            else udn_loop msg (off + unat c)
                   (s @ concat (map esc_label_byte (take (unat c) (drop off msg))) @ [DOT])
                   off1 budget ptr
        else if c AND 0xC0 = 0xC0 then
          if off \<ge> length msg then Err (length msg, ErrBuf)
          else
            let c1 = msg ! off; off = off + 1;
                off1 = (if ptr = 0 then off else off1);
                ptr = ptr + 1 in
            if ptr > maxCompressionPointers
            then Err (length msg, ErrMsg ''too many compression pointers'')
            else udn_loop msg (unat (push_bit 8 (ucast (c XOR 0xC0)) OR ucast c1 :: u16))
                   s off1 budget ptr
        else Err (length msg, ErrRdata))"
  by pat_completeness auto
termination
  by (relation "measures [\<lambda>(msg, off, s, off1, budget, ptr). maxCompressionPointers - ptr,
                          \<lambda>(msg, off, s, off1, budget, ptr). nat budget]")
    (auto simp: nat_less_iff not_le intro: less_uint_plus_one)

declare udn_loop.simps [simp del]

definition UnpackDomainName :: "bytes \<Rightarrow> nat \<Rightarrow> (gostring \<times> nat) off_res" where
  "UnpackDomainName msg off = udn_loop msg off [] 0 maxDomainNameWireOctets 0"

subsection \<open>The reference for the packing loop\<close>

definition ref_compress :: "bool \<Rightarrow> bytes \<Rightarrow> gostring \<Rightarrow> gostring \<Rightarrow> nat \<Rightarrow> compressionMap \<Rightarrow> compressionMap + int" where
  "ref_compress compress cur sfx r off cm =
     (if cm_valid cm \<and> \<not> (cur = [] \<and> r = []) then
        (case cm_find cm sfx of
           Some p \<Rightarrow> if compress then Inr p else Inl cm
         | None \<Rightarrow> if off < maxCompressionOffset then Inl (cm_insert cm sfx off) else Inl cm)
      else Inl cm)"

function ref_loop ::
  "bool \<Rightarrow> bool \<Rightarrow> bool \<Rightarrow> bytes \<Rightarrow> gostring \<Rightarrow> gostring \<Rightarrow> bytes \<Rightarrow> nat \<Rightarrow> compressionMap
    \<Rightarrow> (bytes \<times> compressionMap \<times> nat \<times> int) off_res" where
  "ref_loop compress bad_dot wasDot cur sfx rest msg off cm =
     (case rest of
        [] \<Rightarrow> Ok (msg, cm, off, -1)
      | c # r \<Rightarrow>
          if c = BSL then
            if off + 1 > length msg then Err (length msg, ErrBuf)
            else if isDDD r
            then ref_loop compress False False (cur @ [dddToByte r]) sfx (drop 3 r) msg off cm
            else ref_loop compress False False (cur @ [hd r]) sfx (tl r) msg off cm
          else if c = DOT then
            if bad_dot \<or> wasDot \<or> length cur \<ge> 64 then Err (length msg, ErrRdata)
            else if off + 1 + length cur > length msg then Err (length msg, ErrBuf)
            else (case ref_compress compress cur sfx r off cm of
                Inr p \<Rightarrow> Ok (msg, cm, off, p)
              | Inl cm \<Rightarrow>
                  ref_loop compress False True [] r r (put msg off (of_nat (length cur) # cur))
                    (off + (1 + length cur)) cm)
          else ref_loop compress False False (cur @ [c]) sfx r msg off cm)"
  by pat_completeness auto
termination
  by (relation "measure (\<lambda>(compress, bad_dot, wasDot, cur, sfx, rest, msg, off, cm). length rest)") auto

declare ref_loop.simps [simp del]

text \<open>What the loop state says: the unread part, the current label and its suffix.\<close>

definition pdn_inv :: "gostring \<Rightarrow> pdn_state \<Rightarrow> bytes \<Rightarrow> gostring \<Rightarrow> gostring \<Rightarrow> bool" where
  "pdn_inv s st cur sfx rest \<longleftrightarrow>
     (let B = pd_buf s st in
      length B = length s \<and> pd_begin st \<le> pd_i st \<and> pd_i st \<le> pd_ls st \<and> pd_ls st \<le> length B \<and>
      drop (pd_i st) (take (pd_ls st) B) = rest \<and>
      take (pd_i st - pd_begin st) (drop (pd_begin st) B) = cur \<and>
      pd_i st + pd_compOff st \<le> length s \<and>
      drop (pd_i st + pd_compOff st) s = rest \<and>
      pd_compBegin st \<le> length s \<and> drop (pd_compBegin st) s = sfx \<and>
      (rest = [] \<or> last rest = DOT))"

lemma pdn_inv_D:
  assumes "pdn_inv s st cur sfx rest"
  shows "length (pd_buf s st) = length s" "pd_begin st \<le> pd_i st" "pd_i st \<le> pd_ls st"
    "pd_ls st \<le> length s" "drop (pd_i st) (take (pd_ls st) (pd_buf s st)) = rest"
    "take (pd_i st - pd_begin st) (drop (pd_begin st) (pd_buf s st)) = cur"
    "drop (pd_i st + pd_compOff st) s = rest" "drop (pd_compBegin st) s = sfx"
    "pd_compBegin st \<le> length s" "rest = [] \<or> last rest = DOT" "pd_i st + pd_compOff st \<le> length s"
  using assms by (auto simp: pdn_inv_def Let_def)

lemma pdn_inv_lengths:
  assumes "pdn_inv s st cur sfx rest"
  shows "length rest = pd_ls st - pd_i st" "length cur = pd_i st - pd_begin st"
  using pdn_inv_D [OF assms] by auto

lemma pdn_inv_at:
  assumes "pdn_inv s st cur sfx (c # r)"
  shows "pd_i st < pd_ls st" "pd_buf s st ! pd_i st = c"
    "drop (Suc (pd_i st)) (take (pd_ls st) (pd_buf s st)) = r"
    "drop (Suc (pd_i st + pd_compOff st)) s = r"
proof -
  note D = pdn_inv_D [OF assms]
  show lt: "pd_i st < pd_ls st" using pdn_inv_lengths(1) [OF assms] by simp
  have "drop (pd_i st) (take (pd_ls st) (pd_buf s st)) =
      pd_buf s st ! pd_i st # drop (Suc (pd_i st)) (take (pd_ls st) (pd_buf s st))"
    using lt D by (subst Cons_nth_drop_Suc [symmetric]) auto
  with D(5) show "pd_buf s st ! pd_i st = c" "drop (Suc (pd_i st)) (take (pd_ls st) (pd_buf s st)) = r"
    by auto
  show "drop (Suc (pd_i st + pd_compOff st)) s = r"
    using D(7) by (metis drop_Suc drop_drop list.sel(3) plus_1_eq_Suc tl_drop drop_0)
qed

lemma isDDD_append:
  assumes "r = [] \<or> last r = DOT" and "r \<noteq> []"
  shows "isDDD (r @ stale) = isDDD r"
proof -
  have nd: "\<not> isDigit DOT" by (simp add: isDigit_def)
  show ?thesis using assms nd
    by (cases r rule: isDDD.cases) (auto elim!: isDDD.elims split: if_splits)
qed

lemma pdn_inv_shift:
  assumes inv: "pdn_inv s st cur sfx (c # r)"
    and buf: "take (pd_i st) (pd_buf s st) @ x # rest' @ Z = b" and len: "length b = length s"
    and st': "pd_bs st' = Some b" "pd_i st' = Suc (pd_i st)" "pd_begin st' = pd_begin st"
      "pd_ls st' = Suc (pd_i st + length rest')" "pd_compBegin st' = pd_compBegin st"
    and sfx: "Suc (pd_i st) + pd_compOff st' \<le> length s" "drop (Suc (pd_i st) + pd_compOff st') s = rest'"
    and last: "rest' = [] \<or> last rest' = DOT"
  shows "pdn_inv s st' (cur @ [x]) sfx rest'"
proof -
  note D = pdn_inv_D [OF inv]
  have li: "length (take (pd_i st) (pd_buf s st)) = pd_i st"
    using D pdn_inv_at(1) [OF inv] by simp
  have b': "pd_buf s st' = b" by (simp add: pd_buf_def st')
  have ls: "pd_ls st' \<le> length b" using st' li by (simp flip: buf)
  have r1: "drop (Suc (pd_i st)) (take (Suc (pd_i st + length rest')) b) = rest'"
    using li by (simp flip: buf)
  have cut: "drop (pd_begin st) (take (pd_i st) (pd_buf s st)) = cur"
    using D(2,6) by (simp add: drop_take)
  have dr: "drop (pd_begin st) b = cur @ x # rest' @ Z"
    unfolding buf [symmetric] using D(2) li cut by simp
  have "take (Suc (pd_i st) - pd_begin st) (drop (pd_begin st) b) = cur @ [x]"
    unfolding dr using D(2) pdn_inv_lengths(2) [OF inv] by (simp add: Suc_diff_le)
  with ls r1 D last sfx st' len show ?thesis
    by (simp add: pdn_inv_def Let_def b')
qed

lemma DDD_long:
  assumes "isDDD r" and "last r = DOT"
  shows "\<exists>a b c r'. r = a # b # c # r' \<and> r' \<noteq> [] \<and> last r' = DOT"
proof -
  have nd: "\<not> isDigit DOT" by (simp add: isDigit_def)
  show ?thesis using assms nd by (auto elim!: isDDD.elims split: if_splits)
qed

lemma pdn_inv_tail:
  assumes inv: "pdn_inv s st cur sfx (c # r)"
  shows "drop (Suc (pd_i st)) (pd_buf s st) = r @ drop (pd_ls st) (pd_buf s st)"
    and "length r = pd_ls st - Suc (pd_i st)"
    and "length r = length s - Suc (pd_i st + pd_compOff st)"
proof -
  note D = pdn_inv_D [OF inv] and A = pdn_inv_at [OF inv]
  show "drop (Suc (pd_i st)) (pd_buf s st) = r @ drop (pd_ls st) (pd_buf s st)"
    using A(1,3) D(4) append_take_drop_id [of "pd_ls st - Suc (pd_i st)" "drop (Suc (pd_i st)) (pd_buf s st)"]
    by (simp add: drop_take add.commute)
  show "length r = pd_ls st - Suc (pd_i st)" using pdn_inv_lengths(1) [OF inv] by simp
  show "length r = length s - Suc (pd_i st + pd_compOff st)" using A(4) by (metis length_drop)
qed

lemma pdn_escape_ddd:
  assumes inv: "pdn_inv s st cur sfx (BSL # r)" and fits: "pd_off st + 1 \<le> length (pd_msg st)"
    and ddd: "isDDD (drop (Suc (pd_i st)) (pd_buf s st))" and r: "r = a # b # c # r'" "r' \<noteq> []" "last r' = DOT"
  shows "\<exists>bs. pdn_escape s st = Ok (st\<lparr>pd_bs := Some bs, pd_ls := pd_ls st - 3, pd_compOff := pd_compOff st + 3,
                     pd_wasDot := False\<rparr>) \<and>
    pdn_inv s (st\<lparr>pd_bs := Some bs, pd_ls := pd_ls st - 3, pd_compOff := pd_compOff st + 3,
                     pd_wasDot := False, pd_i := pd_i st + 1\<rparr>) (cur @ [dddToByte r]) sfx r'"
proof -
  note D = pdn_inv_D [OF inv] and A = pdn_inv_at [OF inv] and T = pdn_inv_tail [OF inv]
  let ?B = "pd_buf s st" and ?i = "pd_i st" and ?ls = "pd_ls st" and ?d = "dddToByte r"
  have lB: "length ?B = length s" "?ls \<le> length ?B" using D by auto
  have d: "dddToByte (drop (Suc ?i) ?B) = ?d" unfolding T by (simp add: r)
  let ?b1 = "?B[?i := ?d]"
  let ?b2 = "put ?b1 (Suc ?i) (take (?ls - 3 - Suc ?i) (drop (?i + 4) ?b1))"
  have i4: "?i + 4 < ?ls" using T(2) r by (cases r') auto
  have src: "take (?ls - 3 - Suc ?i) (drop (?i + 4) ?b1) = r'"
  proof -
    have "drop (?i + 4) ?b1 = drop 3 (drop (Suc ?i) ?B)" by (simp add: add.commute)
    also have "\<dots> = r' @ drop ?ls ?B" by (simp add: T r)
    finally show ?thesis using T(2) r by simp
  qed
  have b2: "take ?i ?B @ ?d # r' @ drop (Suc ?i + length r') ?b1 = ?b2"
    unfolding src using A(1) lB by (simp add: put_def take_Suc_conv_app_nth)
  have "Suc ?i \<le> ?ls - 3" "?ls - 3 \<le> length s" "?i + 4 \<le> length s" using i4 lB by arith+
  then have "pdn_escape s st = Ok (st\<lparr>pd_bs := Some ?b2, pd_ls := ?ls - 3,
      pd_compOff := pd_compOff st + 3, pd_wasDot := False\<rparr>)"
    using fits A(1) lB ddd d by (simp add: pdn_escape_def Let_def set_at_def copy_within_def)
  moreover have "pdn_inv s (st\<lparr>pd_bs := Some ?b2, pd_ls := ?ls - 3, pd_compOff := pd_compOff st + 3,
                     pd_wasDot := False, pd_i := ?i + 1\<rparr>) (cur @ [?d]) sfx r'"
  proof (rule pdn_inv_shift [OF inv b2])
    show "length ?b2 = length s" unfolding src using lB i4 T(2) r(1) by simp
    have "drop (Suc (Suc (Suc (Suc (?i + pd_compOff st))))) s = drop 3 (drop (Suc (?i + pd_compOff st)) s)"
      by (simp add: numeral_3_eq_3)
    also have "\<dots> = r'" by (simp add: A(4) r)
    finally show "drop (Suc ?i + pd_compOff (st\<lparr>pd_bs := Some ?b2, pd_ls := ?ls - 3, pd_compOff := pd_compOff st + 3,
                     pd_wasDot := False, pd_i := ?i + 1\<rparr>)) s = r'" by (simp add: numeral_3_eq_3)
  qed (use T(2,3) r i4 in \<open>simp_all\<close>)
  ultimately show ?thesis by blast
qed

lemma pdn_escape_char:
  assumes inv: "pdn_inv s st cur sfx (BSL # r)" and fits: "pd_off st + 1 \<le> length (pd_msg st)"
    and ddd: "\<not> isDDD (drop (Suc (pd_i st)) (pd_buf s st))" and r: "r = x # r'" "last r = DOT"
  shows "\<exists>bs. pdn_escape s st = Ok (st\<lparr>pd_bs := Some bs, pd_ls := pd_ls st - 1, pd_compOff := pd_compOff st + 1,
                     pd_wasDot := False\<rparr>) \<and>
    pdn_inv s (st\<lparr>pd_bs := Some bs, pd_ls := pd_ls st - 1, pd_compOff := pd_compOff st + 1,
                     pd_wasDot := False, pd_i := pd_i st + 1\<rparr>) (cur @ [x]) sfx r'"
proof -
  note D = pdn_inv_D [OF inv] and A = pdn_inv_at [OF inv] and T = pdn_inv_tail [OF inv]
  let ?B = "pd_buf s st" and ?i = "pd_i st" and ?ls = "pd_ls st"
  have lB: "length ?B = length s" "?ls \<le> length ?B" using D by auto
  let ?b2 = "put ?B ?i (take (?ls - 1 - ?i) (drop (Suc ?i) ?B))"
  have src: "take (?ls - 1 - ?i) (drop (Suc ?i) ?B) = r" unfolding T(1) using T(2) by simp
  have b2: "take ?i ?B @ x # r' @ drop (?i + length r) ?B = ?b2"
    unfolding src by (simp add: put_def r)
  have "?i \<le> ?ls - 1" "?ls - 1 \<le> length s" "Suc ?i \<le> length s" using A(1) lB by arith+
  then have "pdn_escape s st = Ok (st\<lparr>pd_bs := Some ?b2, pd_ls := ?ls - 1,
      pd_compOff := pd_compOff st + 1, pd_wasDot := False\<rparr>)"
    using fits lB ddd by (simp add: pdn_escape_def Let_def copy_within_def)
  moreover have "pdn_inv s (st\<lparr>pd_bs := Some ?b2, pd_ls := ?ls - 1, pd_compOff := pd_compOff st + 1,
                     pd_wasDot := False, pd_i := ?i + 1\<rparr>) (cur @ [x]) sfx r'"
  proof (rule pdn_inv_shift [OF inv b2])
    show "length ?b2 = length s" unfolding src using lB T(2) A(1) by simp
    have "drop (Suc (Suc (?i + pd_compOff st))) s = drop 1 (drop (Suc (?i + pd_compOff st)) s)"
      by simp
    also have "\<dots> = r'" by (simp add: A(4) r)
    finally show "drop (Suc ?i + pd_compOff (st\<lparr>pd_bs := Some ?b2, pd_ls := ?ls - 1, pd_compOff := pd_compOff st + 1,
                     pd_wasDot := False, pd_i := ?i + 1\<rparr>)) s = r'" by simp
    show "r' = [] \<or> last r' = DOT" using r by (auto split: if_splits)
  qed (use T(2,3) r in \<open>simp_all\<close>)
  ultimately show ?thesis by blast
qed

text \<open>Whether the name is the root is decided on the unescaped copy, if there is one.\<close>

definition pdn_root :: "gostring \<Rightarrow> pdn_state \<Rightarrow> bool" where
  "pdn_root s st \<longleftrightarrow>
     (if pd_bs st = None then pd_ls st = length s \<and> pd_compOff st = 0 else 1 \<le> pd_i st \<and> 2 \<le> pd_ls st)"

lemma pdn_escape_sim:
  assumes inv: "pdn_inv s st cur sfx (BSL # r)" and root: "pdn_root s st" and s: "s \<noteq> [BSL, DOT]"
    and fits: "pd_off st + 1 \<le> length (pd_msg st)"
  obtains st' where "pdn_escape s st = Ok st'"
    "pd_i st' = pd_i st" "pd_msg st' = pd_msg st" "pd_off st' = pd_off st" "pd_cm st' = pd_cm st"
    "pd_wasDot st' = False" "pdn_root s (st'\<lparr>pd_i := Suc (pd_i st)\<rparr>)"
    "pdn_inv s (st'\<lparr>pd_i := Suc (pd_i st)\<rparr>)
       (cur @ [if isDDD r then dddToByte r else hd r]) sfx (if isDDD r then drop 3 r else tl r)"
proof -
  note D = pdn_inv_D [OF inv] and T = pdn_inv_tail [OF inv]
  have r: "r \<noteq> []" "last r = DOT" using D(10) by (auto split: if_splits)
  have ddd: "isDDD (drop (Suc (pd_i st)) (pd_buf s st)) = isDDD r"
    unfolding T using r by (intro isDDD_append) auto
  have ls: "Suc (Suc (pd_i st)) \<le> pd_ls st" using T(2) r(1) by (cases r) auto
  have start: "s = BSL # r" if "pd_i st = 0"
  proof -
    have "pd_bs st = None" using that root by (auto simp: pdn_root_def split: if_splits)
    then show ?thesis using that root D(7) by (simp add: pdn_root_def)
  qed
  show thesis
  proof (cases "isDDD r")
    case True
    from DDD_long [OF True r(2)] obtain a b c r' where r': "r = a # b # c # r'" "r' \<noteq> []" "last r' = DOT"
      by blast
    have "2 \<le> pd_ls st - 3" using T(2) r' by (cases r') auto
    with pdn_escape_ddd [OF inv fits _ r'] True ddd r' show thesis
      by (fastforce simp: pdn_root_def intro: that)
  next
    case False
    obtain x r' where r': "r = x # r'" using r(1) by (cases r) auto
    have "2 \<le> pd_ls st - 1"
    proof (rule ccontr)
      assume "\<not> ?thesis"
      with ls have "pd_i st = 0" "pd_ls st = 2" by auto
      then show False using start T(2) r s by (cases r) auto
    qed
    with pdn_escape_char [OF inv fits _ r' r(2)] False ddd r' show thesis
      by (fastforce simp: pdn_root_def intro: that)
  qed
qed

lemma pdn_inv_label_rest:
  assumes inv: "pdn_inv s st cur sfx rest"
  shows "take (pd_ls st - pd_begin st) (drop (pd_begin st) (pd_buf s st)) = cur @ rest"
proof -
  note D = pdn_inv_D [OF inv]
  have n: "pd_ls st - pd_begin st = (pd_i st - pd_begin st) + (pd_ls st - pd_i st)"
    using D(2,3) by simp
  have "take (pd_ls st - pd_i st) (drop (pd_i st) (pd_buf s st)) = rest"
    using D(5) by (simp add: drop_take)
  then show ?thesis unfolding n take_add using D(2,6) by simp
qed

lemma pdn_root_at_dot:
  assumes inv: "pdn_inv s st cur sfx (DOT # r)" and root: "pdn_root s st"
  shows "isRootLabel s (pd_bs st) (pd_begin st) (pd_ls st) = Ok (cur = [] \<and> r = [])"
proof -
  note D = pdn_inv_D [OF inv] and A = pdn_inv_at [OF inv] and L = pdn_inv_lengths [OF inv]
  have one: "pd_ls st - pd_begin st = 1 \<longleftrightarrow> cur = [] \<and> r = []"
    using L A(1) D(2) by (cases cur; cases r) auto
  have len: "pd_begin st \<le> pd_ls st" "pd_ls st \<le> length s" using A(1) D(2,4) by auto
  show ?thesis
  proof (cases "pd_bs st")
    case None
    then have "take (pd_ls st - pd_begin st) (drop (pd_begin st) s) = cur @ DOT # r"
      using pdn_inv_label_rest [OF inv] by (simp add: pd_buf_def)
    with None len show ?thesis by (cases cur) (auto simp: isRootLabel_def)
  next
    case (Some b)
    have "b ! pd_begin st = DOT" "pd_begin st < length b" if "cur = []" "r = []"
      using that A L D Some by (auto simp: pd_buf_def)
    with Some one len show ?thesis by (auto simp: isRootLabel_def)
  qed
qed

lemma pdn_compress_ref:
  assumes inv: "pdn_inv s st cur sfx (DOT # r)" and root: "pdn_root s st"
  shows "pdn_compress s compress st = Ok (ref_compress compress cur sfx r (pd_off st) (pd_cm st))"
  using pdn_root_at_dot [OF inv root] pdn_inv_D(8,9) [OF inv]
  by (auto simp: pdn_compress_def ref_compress_def split: option.splits)

lemma pdn_dot_sim:
  assumes inv: "pdn_inv s st cur sfx (DOT # r)" and root: "pdn_root s st"
    and ok: "\<not> (pd_i st = 0 \<and> length s > 1)" "\<not> pd_wasDot st" "length cur < 64"
    and fits: "pd_off st + 1 + length cur \<le> length (pd_msg st)"
  shows "pdn_dot s compress st =
    (case ref_compress compress cur sfx r (pd_off st) (pd_cm st) of
       Inr p \<Rightarrow> Ok (Inr (st\<lparr>pd_wasDot := True\<rparr>, p))
     | Inl cm \<Rightarrow> Ok (Inl (st\<lparr>pd_wasDot := True,
          pd_msg := put (pd_msg st) (pd_off st) (of_nat (length cur) # cur),
          pd_off := pd_off st + (1 + length cur), pd_cm := cm,
          pd_begin := pd_i st + 1, pd_compBegin := pd_i st + 1 + pd_compOff st\<rparr>)))"
proof -
  note D = pdn_inv_D [OF inv] and L = pdn_inv_lengths [OF inv]
  let ?st = "st\<lparr>pd_wasDot := True\<rparr>"
  have inv': "pdn_inv s ?st cur sfx (DOT # r)" and root': "pdn_root s ?st"
    using inv root by (simp add: pdn_inv_def pd_buf_def, simp add: pdn_root_def split: if_splits)
  have C: "pdn_compress s compress ?st = Ok (ref_compress compress cur sfx r (pd_off st) (pd_cm st))"
    using pdn_compress_ref [OF inv' root', of compress] by simp
  have label: "go_slice (pd_buf s ?st) (pd_begin st) (pd_i st) = (Ok cur :: bytes off_res)"
    using D by (simp add: pd_buf_def)
  have "put (put (pd_msg st) (pd_off st) [of_nat (length cur)]) (Suc (pd_off st)) cur =
      put (pd_msg st) (pd_off st) (of_nat (length cur) # cur)"
    using put_put [of "pd_off st" "[of_nat (length cur)]" "pd_msg st" cur] fits by simp
  with C label fits ok show ?thesis
    by (simp add: pdn_dot_def Let_def L(2) [symmetric] split: sum.split)
qed

lemma pdn_inv_next_label:
  assumes inv: "pdn_inv s st cur sfx (DOT # r)"
  shows "pdn_inv s (st\<lparr>pd_wasDot := True, pd_msg := m, pd_off := off, pd_cm := cm,
      pd_begin := pd_i st + 1, pd_compBegin := pd_i st + 1 + pd_compOff st, pd_i := Suc (pd_i st)\<rparr>) [] r r"
proof -
  note D = pdn_inv_D [OF inv] and A = pdn_inv_at [OF inv]
  have "Suc (pd_i st + pd_compOff st) \<le> length s"
    using D(7,11) by (cases "pd_i st + pd_compOff st = length s") auto
  moreover have "r = [] \<or> last r = DOT" using D(10) by (auto split: if_splits)
  ultimately show ?thesis
    using D A by (simp add: pdn_inv_def pd_buf_def Let_def)
qed

lemma pdn_inv_plain:
  assumes inv: "pdn_inv s st cur sfx (c # r)"
  shows "pdn_inv s (st\<lparr>pd_wasDot := False, pd_i := Suc (pd_i st)\<rparr>) (cur @ [c]) sfx r"
proof -
  note D = pdn_inv_D [OF inv] and A = pdn_inv_at [OF inv]
  have "Suc (pd_i st + pd_compOff st) \<le> length s"
    using D(7,11) by (cases "pd_i st + pd_compOff st = length s") auto
  moreover have "r = [] \<or> last r = DOT" using D(10) by (auto split: if_splits)
  moreover have "take (Suc (pd_i st) - pd_begin st) (drop (pd_begin st) (pd_buf s st)) = cur @ [c]"
    using D(1,2,4,6) A(1,2) by (simp add: Suc_diff_le take_Suc_conv_app_nth)
  ultimately show ?thesis
    using D A by (simp add: pdn_inv_def pd_buf_def Let_def)
qed

lemma pdn_root_moved:
  assumes "pdn_root s st"
  shows "pdn_root s (st\<lparr>pd_wasDot := False, pd_i := Suc (pd_i st)\<rparr>)"
    and "pdn_root s (st\<lparr>pd_wasDot := True, pd_msg := m, pd_off := off, pd_cm := cm,
      pd_begin := pd_i st + 1, pd_compBegin := pd_i st + 1 + pd_compOff st, pd_i := Suc (pd_i st)\<rparr>)"
  using assms by (auto simp: pdn_root_def split: if_splits)

lemma ref_loop_simps:
  "ref_loop compress bad wasDot cur sfx [] msg off cm = Ok (msg, cm, off, -1)"
  "ref_loop compress bad wasDot cur sfx (BSL # r) msg off cm =
     (if off + 1 > length msg then Err (length msg, ErrBuf)
      else ref_loop compress False False (cur @ [if isDDD r then dddToByte r else hd r]) sfx
             (if isDDD r then drop 3 r else tl r) msg off cm)"
  "ref_loop compress bad wasDot cur sfx (DOT # r) msg off cm =
     (if bad \<or> wasDot \<or> length cur \<ge> 64 then Err (length msg, ErrRdata)
      else if off + 1 + length cur > length msg then Err (length msg, ErrBuf)
      else (case ref_compress compress cur sfx r off cm of
          Inr p \<Rightarrow> Ok (msg, cm, off, p)
        | Inl cm \<Rightarrow>
            ref_loop compress False True [] r r (put msg off (of_nat (length cur) # cur))
              (off + (1 + length cur)) cm))"
  "c \<noteq> BSL \<Longrightarrow> c \<noteq> DOT \<Longrightarrow>
   ref_loop compress bad wasDot cur sfx (c # r) msg off cm =
     ref_loop compress False False (cur @ [c]) sfx r msg off cm"
  by (simp_all add: ref_loop.simps [of compress bad wasDot cur sfx])

lemma pdn_root_stop:
  assumes "pdn_root s st" "pd_bs st = None \<longrightarrow> P = (s = [DOT])" "pd_bs st \<noteq> None \<longrightarrow> \<not> P"
  shows "isRootLabel s (pd_bs st) 0 (pd_ls st) = Ok P"
  using assms by (auto simp: pdn_root_def isRootLabel_def split: if_splits option.splits)

lemma pdn_loop_ref:
  assumes s: "s \<noteq> [BSL, DOT]"
    and "pdn_inv s st cur sfx rest" and "pdn_root s st" and "pd_bs st \<noteq> None \<longrightarrow> s \<noteq> [DOT]"
  shows "bindR (pdn_loop s compress st) (\<lambda>(st', p).
           bindR (isRootLabel s (pd_bs st') 0 (pd_ls st')) (F (pd_msg st') (pd_cm st') (pd_off st') p)) =
         bindR (ref_loop compress (pd_i st = 0 \<and> length s > 1) (pd_wasDot st) cur sfx rest
                 (pd_msg st) (pd_off st) (pd_cm st))
           (\<lambda>(msg, cm, off, p). F msg cm off p (s = [DOT]))"
  using assms(2-)
proof (induction "length rest" arbitrary: st cur sfx rest rule: less_induct)
  case less
  note inv = less.prems(1) and root = less.prems(2) and esc = less.prems(3)
  show ?case
  proof (cases rest)
    case Nil
    then have "\<not> pd_i st < pd_ls st" using pdn_inv_lengths(1) [OF inv] by simp
    then have "pdn_loop s compress st = Ok (st, -1)" by (simp add: pdn_loop.simps)
    moreover have "isRootLabel s (pd_bs st) 0 (pd_ls st) = Ok (s = [DOT])"
      using root esc by (intro pdn_root_stop) auto
    ultimately show ?thesis by (simp add: Nil ref_loop_simps)
  next
    case (Cons c r)
    note inv = inv [unfolded Cons]
    note A = pdn_inv_at [OF inv] and D = pdn_inv_D [OF inv]
    have loop: "pdn_loop s compress st = bindR (if c = BSL then bindR (pdn_escape s st) (\<lambda>st. Ok (Inl st))
       else if c = DOT then pdn_dot s compress st
       else Ok (Inl (st\<lparr>pd_wasDot := False\<rparr>))) (\<lambda>r.
          case r of
            Inl st' \<Rightarrow> pdn_loop s compress (st'\<lparr>pd_i := pd_i st' + 1\<rparr>)
          | Inr stp \<Rightarrow> Ok stp)"
      using A D by (subst pdn_loop.simps) (simp add: pdn_step_def)
    consider (esc) "c = BSL" | (dot) "c = DOT" | (plain) "c \<noteq> BSL" "c \<noteq> DOT" by blast
    then show ?thesis
    proof cases
      case esc
      show ?thesis
      proof (cases "pd_off st + 1 > length (pd_msg st)")
        case True
        then show ?thesis by (simp add: loop esc Cons ref_loop_simps pdn_escape_def)
      next
        case False
        then have fits: "pd_off st + 1 \<le> length (pd_msg st)" by simp
        from pdn_escape_sim [OF inv [unfolded esc] root s fits] obtain st' where
          st': "pdn_escape s st = Ok st'"
            "pd_i st' = pd_i st" "pd_msg st' = pd_msg st" "pd_off st' = pd_off st" "pd_cm st' = pd_cm st"
            "pd_wasDot st' = False" "pdn_root s (st'\<lparr>pd_i := Suc (pd_i st)\<rparr>)"
            "pdn_inv s (st'\<lparr>pd_i := Suc (pd_i st)\<rparr>)
               (cur @ [if isDDD r then dddToByte r else hd r]) sfx (if isDDD r then drop 3 r else tl r)"
          by blast
        have "r \<noteq> []" using D(10) esc by auto
        then have "s \<noteq> [DOT]" using pdn_inv_tail(3) [OF inv] by (cases r) auto
        then show ?thesis using less.hyps [OF _ st'(8,7)] st' False
          by (simp add: loop esc Cons ref_loop_simps)
      qed
    next
      case dot
      let ?bad = "(pd_i st = 0 \<and> length s > 1) \<or> pd_wasDot st \<or> length cur \<ge> 64"
      show ?thesis
      proof (cases "?bad \<or> pd_off st + 1 + length cur > length (pd_msg st)")
        case True
        then show ?thesis using pdn_inv_lengths(2) [OF inv]
          by (auto simp: loop dot Cons ref_loop_simps pdn_dot_def Let_def)
      next
        case False
        then have ok: "\<not> (pd_i st = 0 \<and> length s > 1)" "\<not> pd_wasDot st" "length cur < 64"
          "pd_off st + 1 + length cur \<le> length (pd_msg st)" by auto
        note inv = inv [unfolded dot]
        show ?thesis
        proof (cases "ref_compress compress cur sfx r (pd_off st) (pd_cm st)")
          case (Inr p)
          have "isRootLabel s (pd_bs st) 0 (pd_ls st) = Ok (s = [DOT])"
            using root esc by (intro pdn_root_stop) auto
          with Inr ok pdn_dot_sim [OF inv root ok, of compress] show ?thesis
            by (auto simp: loop dot Cons ref_loop_simps)
        next
          case (Inl cm)
          let ?st = "st\<lparr>pd_wasDot := True, pd_msg := put (pd_msg st) (pd_off st) (of_nat (length cur) # cur),
             pd_off := pd_off st + (1 + length cur), pd_cm := cm,
             pd_begin := pd_i st + 1, pd_compBegin := pd_i st + 1 + pd_compOff st, pd_i := Suc (pd_i st)\<rparr>"
          show ?thesis using Inl ok False pdn_dot_sim [OF inv root ok, of compress] esc
            less.hyps [OF _ pdn_inv_next_label [OF inv] pdn_root_moved(2) [OF root]]
            by (auto simp: loop dot Cons ref_loop_simps)
        qed
      qed
    next
      case plain
      then show ?thesis
        using less.hyps [OF _ pdn_inv_plain [OF inv] pdn_root_moved(1) [OF root]] esc
        by (simp add: loop Cons ref_loop_simps)
    qed
  qed
qed

definition pack_ref ::
  "gostring \<Rightarrow> bytes \<Rightarrow> nat \<Rightarrow> compressionMap \<Rightarrow> bool \<Rightarrow> (bytes \<times> compressionMap \<times> nat) off_res" where
  "pack_ref s msg off cm compress =
     bindR (ref_loop compress (length s > 1) False [] s s msg off cm) (\<lambda>(msg, cm, off, p).
       if s = [DOT] then Ok (msg, cm, off)
       else if p \<noteq> -1 then
         bindR (write_at msg off (be16 (word_of_int (p XOR 0xC000)))) (\<lambda>msg. Ok (msg, cm, off + 2))
       else if off < length msg then
         bindR (write_at msg off [0]) (\<lambda>msg. Ok (msg, cm, off + 1))
       else Err (off, ErrBuf))"

lemma IsFqdn_last: "IsFqdn s \<Longrightarrow> s \<noteq> [] \<and> last s = DOT"
  by (simp add: IsFqdn_def split: if_splits)

lemma not_IsFqdn_escaped_dot: "\<not> IsFqdn [BSL, DOT]"
  by (simp add: IsFqdn_def Let_def numeral_eq_Suc)

lemma packDomainName_ref:
  assumes "IsFqdn s"
  shows "packDomainName s msg off cm compress = pack_ref s msg off cm compress"
proof -
  let ?st = "\<lparr>pd_msg = msg, pd_off = off, pd_cm = cm, pd_i = 0, pd_ls = length s,
                  pd_bs = None, pd_begin = 0, pd_compBegin = 0, pd_compOff = 0,
                  pd_wasDot = False\<rparr>"
  note s = IsFqdn_last [OF assms]
  have "s \<noteq> [BSL, DOT]" using assms not_IsFqdn_escaped_dot by blast
  moreover have "pdn_inv s ?st [] s s" "pdn_root s ?st"
    using s by (simp_all add: pdn_inv_def pd_buf_def pdn_root_def)
  ultimately show ?thesis
    using s assms pdn_loop_ref [of s ?st "[]" s s compress "\<lambda>msg cm off p root. if root then Ok (msg, cm, off)
            else if p \<noteq> -1 then
              bindR (write_at msg off (be16 (word_of_int (p XOR 0xC000)))) (\<lambda>msg.
                Ok (msg, cm, off + 2))
            else if off < length msg then
              bindR (write_at msg off [0]) (\<lambda>msg. Ok (msg, cm, off + 1))
            else Err (off, ErrBuf)"]
    by (simp add: packDomainName_def pack_ref_def Let_def)
qed

subsection \<open>The encoding of a name\<close>

text \<open>The labels of a name, each with the text of the name from that label on.\<close>

function label_suffixes :: "bytes \<Rightarrow> gostring \<Rightarrow> gostring \<Rightarrow> (bytes \<times> gostring) list" where
  "label_suffixes cur sfx s =
     (case s of
        [] \<Rightarrow> []
      | c # r \<Rightarrow>
          if c = BSL then
            if isDDD r then label_suffixes (cur @ [dddToByte r]) sfx (drop 3 r)
            else (case r of [] \<Rightarrow> [] | x # r' \<Rightarrow> label_suffixes (cur @ [x]) sfx r')
          else if c = DOT then (cur, sfx) # label_suffixes [] r r
          else label_suffixes (cur @ [c]) sfx r)"
  by pat_completeness auto
termination
  by (relation "measure (\<lambda>(cur, sfx, s). length s)") auto

declare label_suffixes.simps [simp del]

lemma label_suffixes_simps:
  "label_suffixes cur sfx [] = []"
  "isDDD r \<Longrightarrow> label_suffixes cur sfx (BSL # r) = label_suffixes (cur @ [dddToByte r]) sfx (drop 3 r)"
  "\<not> isDDD (x # r) \<Longrightarrow> label_suffixes cur sfx (BSL # x # r) = label_suffixes (cur @ [x]) sfx r"
  "label_suffixes cur sfx (DOT # r) = (cur, sfx) # label_suffixes [] r r"
  "c \<noteq> BSL \<Longrightarrow> c \<noteq> DOT \<Longrightarrow> label_suffixes cur sfx (c # r) = label_suffixes (cur @ [c]) sfx r"
  by (simp_all add: label_suffixes.simps [of cur])

text \<open>The encoding, and the compression map afterwards.\<close>

fun enc_labels :: "bool \<Rightarrow> compressionMap \<Rightarrow> nat \<Rightarrow> (bytes \<times> gostring) list \<Rightarrow> bytes \<times> compressionMap" where
  "enc_labels compress cm off [] = ([0], cm)"
| "enc_labels compress cm off ((l, sfx) # ps) =
     (case ref_compress compress l sfx [] off cm of
        Inr p \<Rightarrow> (be16 (word_of_int (p XOR 0xC000)), cm)
      | Inl cm' \<Rightarrow>
          let (e, cm'') = enc_labels compress cm' (off + 1 + length l) ps
          in (of_nat (length l) # l @ e, cm''))"

definition enc_name :: "bool \<Rightarrow> compressionMap \<Rightarrow> nat \<Rightarrow> gostring \<Rightarrow> bytes \<times> compressionMap" where
  "enc_name compress cm off s =
     (if s = [DOT] then ([0], cm) else enc_labels compress cm off (label_suffixes [] s s))"

text \<open>The number of octets of a name on the wire, without compression.\<close>

definition wire_len :: "bytes list \<Rightarrow> nat" where
  "wire_len ls = labels_octets ls + 1"

lemma wire_len_simps [simp]:
  "wire_len [] = 1" "wire_len (l # ls) = length l + 1 + wire_len ls"
  by (simp_all add: wire_len_def)

lemma split_labels_suffixes:
  "split_labels cur s = Some ls \<Longrightarrow> map fst (label_suffixes cur sfx s) = ls"
proof (induction cur s arbitrary: ls sfx rule: split_labels.induct)
  case (1 cur s)
  then show ?case
    by (cases s) (auto simp: split_labels.simps [of cur] label_suffixes.simps [of cur] split: if_splits list.splits)
qed

definition pack_end ::
  "bytes \<times> compressionMap \<times> nat \<times> int \<Rightarrow> (bytes \<times> compressionMap \<times> nat) off_res" where
  "pack_end = (\<lambda>(msg, cm, off, p).
       if p \<noteq> -1 then
         bindR (write_at msg off (be16 (word_of_int (p XOR 0xC000)))) (\<lambda>msg. Ok (msg, cm, off + 2))
       else if off < length msg then
         bindR (write_at msg off [0]) (\<lambda>msg. Ok (msg, cm, off + 1))
       else Err (off, ErrBuf))"

text \<open>A map holds offsets, which are not negative: a caller's own map could break this.\<close>

definition cm_nonneg :: "compressionMap \<Rightarrow> bool" where
  "cm_nonneg cm \<longleftrightarrow> (\<forall>s p. cm_find cm s = Some p \<longrightarrow> 0 \<le> p)"

text \<open>
  What packing a name of \<open>n\<close> octets gives: exactly its encoding, or \<^const>\<open>ErrBuf\<close> when
  the name without compression does not fit.
\<close>

definition packs :: "bytes \<Rightarrow> nat \<Rightarrow> bytes \<times> compressionMap \<Rightarrow> nat \<Rightarrow> (bytes \<times> compressionMap \<times> nat) off_res \<Rightarrow> bool" where
  "packs msg off ecm n r \<longleftrightarrow>
     (case r of
        Ok x \<Rightarrow> x = (put msg off (fst ecm), snd ecm, off + length (fst ecm)) \<and> off + length (fst ecm) \<le> length msg
      | Err (_, e) \<Rightarrow> e = ErrBuf \<and> length msg < off + n
      | Panic \<Rightarrow> False)"

lemma cm_find_insert:
  assumes "cm_valid cm"
  shows "cm_find (cm_insert cm s pos) s' =
    (if s' = s then Some (if cm_ext cm \<noteq> None then int pos else int (pos mod 65536)) else cm_find cm s')"
  using assms
  by (auto simp: cm_find_def cm_insert_def cm_valid_def uint_word_of_int uint_nat unat_of_nat split: option.splits)

lemma cm_nonneg_insert: "cm_valid cm \<Longrightarrow> cm_nonneg cm \<Longrightarrow> cm_nonneg (cm_insert cm s pos)"
  by (auto simp: cm_nonneg_def cm_find_insert split: if_splits)

lemma ref_compress_nonneg:
  assumes "cm_nonneg cm"
  shows "ref_compress compress l sfx r off cm = Inl cm' \<Longrightarrow> cm_nonneg cm'"
    and "ref_compress compress l sfx r off cm = Inr p \<Longrightarrow> 0 \<le> p"
  using assms cm_nonneg_insert [of cm]
  by (auto simp: ref_compress_def cm_nonneg_def split: if_splits option.splits)

lemma ref_compress_label: "l \<noteq> [] \<Longrightarrow> ref_compress compress l sfx r off cm = ref_compress compress l sfx [] off cm"
  by (simp add: ref_compress_def)

lemma wire_len_pos: "0 < wire_len ls"
  by (simp add: wire_len_def)

lemma packs_Cons:
  assumes "packs (put msg off (b # l)) (off + 1 + length l) (e, cm) n r"
    and "off + 1 + length l \<le> length msg"
  shows "packs msg off (b # l @ e, cm) (length l + 1 + n) r"
  using assms put_put [of off "b # l" msg e]
  by (auto simp: packs_def split: outcome.splits)

lemma ref_loop_enc:
  assumes "split_labels cur rest = Some ls" and "list_all wf_label ls" and "cm_nonneg cm"
    and "bad \<or> wasDot \<longrightarrow> cur = []"
  shows "packs msg off (enc_labels compress cm off (label_suffixes cur sfx rest)) (wire_len ls)
           (bindR (ref_loop compress bad wasDot cur sfx rest msg off cm) pack_end)"
  using assms
proof (induction cur rest arbitrary: ls sfx bad wasDot msg off cm rule: split_labels.induct)
  case (1 cur s)
  show ?case
  proof (cases s)
    case Nil
    with "1.prems" show ?thesis
      by (auto simp: split_labels_simps label_suffixes_simps ref_loop_simps pack_end_def packs_def split: if_splits)
  next
    case (Cons c r)
    have pos: "length msg < off + wire_len ls" if "\<not> off + 1 \<le> length msg"
      using that wire_len_pos [of ls] by linarith
    consider (ddd) "c = BSL" "isDDD r" | (char) x r' where "c = BSL" "\<not> isDDD r" "r = x # r'"
      | (bad) "c = BSL" "\<not> isDDD r" "r = []" | (dot) "c = DOT" | (plain) "c \<noteq> BSL" "c \<noteq> DOT"
      by (cases r) auto
    then show ?thesis
    proof cases
      case ddd
      with "1.IH"(1) [OF Cons ddd, of ls cm False False msg off sfx] "1.prems" Cons pos show ?thesis
        by (cases "off + 1 \<le> length msg") (auto simp: split_labels_simps label_suffixes_simps ref_loop_simps packs_def)
    next
      case char
      with "1.IH"(2) [OF Cons char, of ls cm False False msg off sfx] "1.prems" Cons pos show ?thesis
        by (cases "off + 1 \<le> length msg") (auto simp: split_labels_simps label_suffixes_simps ref_loop_simps packs_def)
    next
      case bad
      with "1.prems" Cons show ?thesis by (simp add: split_labels.simps [of cur])
    next
      case dot
      with "1.prems"(1) Cons obtain ls' where ls: "ls = cur # ls'" "split_labels [] r = Some ls'"
        by (auto simp: split_labels_simps)
      then have wf: "list_all wf_label ls'" and "wf_label cur" using "1.prems"(2) by auto
      then have cur: "cur \<noteq> []" "length cur < 64" by (auto simp: wf_label_def)
      with "1.prems"(4) have ok: "\<not> bad" "\<not> wasDot" by auto
      show ?thesis
      proof (cases "off + 1 + length cur \<le> length msg")
        case False
        then show ?thesis using Cons dot ok cur ls wire_len_pos [of ls']
          by (auto simp: ref_loop_simps packs_def)
      next
        case fits: True
        show ?thesis
        proof (cases "ref_compress compress cur sfx [] off cm")
          case (Inr p)
          have "off + 2 \<le> length msg" using cur fits by (cases cur) auto
          with Inr Cons dot ok cur ls fits ref_compress_nonneg(2) [OF "1.prems"(3) Inr] show ?thesis
            by (auto simp: ref_loop_simps packs_def label_suffixes_simps ref_compress_label [of cur _ _ r] pack_end_def)
        next
          case (Inl cm')
          obtain e cm'' where e: "enc_labels compress cm' (off + 1 + length cur) (label_suffixes [] r r) = (e, cm'')"
            by fastforce
          have "packs (put msg off (of_nat (length cur) # cur)) (off + 1 + length cur) (e, cm'') (wire_len ls')
            (bindR (ref_loop compress False True [] r r (put msg off (of_nat (length cur) # cur)) (off + 1 + length cur) cm') pack_end)"
            using "1.IH"(3) [OF Cons _ dot ls(2) wf ref_compress_nonneg(1) [OF "1.prems"(3) Inl], of False True
                "put msg off (of_nat (length cur) # cur)" "off + 1 + length cur" r] dot e by simp
          from packs_Cons [OF this fits] show ?thesis
            using Inl Cons dot ok cur ls fits e
            by (auto simp: ref_loop_simps label_suffixes_simps ref_compress_label [of cur _ _ r])
        qed
      qed
    next
      case plain
      with "1.IH"(4) [OF Cons _ _, of ls cm False False msg off sfx] "1.prems" Cons show ?thesis
        by (auto simp: split_labels_simps label_suffixes_simps ref_loop_simps)
    qed
  qed
qed

lemma IsFqdn_root: "IsFqdn [DOT]"
  by (simp add: IsFqdn_def)

lemma packDomainName_root:
  "packDomainName [DOT] msg off cm compress =
     (if off < length msg then Ok (put msg off [0], cm, off + 1) else Err (length msg, ErrBuf))"
  unfolding packDomainName_ref [OF IsFqdn_root]
  by (simp add: pack_ref_def ref_loop_simps ref_compress_def not_less)

lemma packDomainName_packs:
  assumes fq: "IsFqdn s" and ls: "name_labels s = Some ls" and cm: "cm_nonneg cm"
  shows "packs msg off (enc_name compress cm off s) (wire_len ls)
           (packDomainName s msg off cm compress)"
proof (cases "s = [DOT]")
  case True
  then have "ls = []" using ls by (simp add: name_labels_def)
  with True show ?thesis
    by (auto simp: packDomainName_root enc_name_def packs_def)
next
  case False
  then have "split_labels [] s = Some ls" "list_all wf_label ls"
    using ls by (auto simp: name_labels_def split: option.splits if_splits)
  from ref_loop_enc [OF this cm, of "length s > 1" False msg off compress s] False
  show ?thesis by (simp add: packDomainName_ref [OF fq] pack_ref_def enc_name_def pack_end_def)
qed

lemma ref_loop_safe:
  "cur = [] \<longrightarrow> bad \<or> wasDot \<Longrightarrow>
   safe (ref_loop compress bad wasDot cur sfx rest msg off cm)
     (\<lambda>(msg', cm', off', p). length msg' = length msg \<and> (p \<noteq> -1 \<longrightarrow> off' + 2 \<le> length msg) \<and>
        off \<le> off' \<and> off' \<le> max off (length msg))"
proof (induction compress bad wasDot cur sfx rest msg off cm rule: ref_loop.induct)
  case (1 compress bad wasDot cur sfx rest msg off cm)
  show ?case
  proof (cases rest)
    case Nil
    then show ?thesis by (simp add: ref_loop_simps)
  next
    case (Cons c r)
    consider (esc) "c = BSL" "off + 1 \<le> length msg" | (short) "c = BSL" "off + 1 > length msg" 
      | (dot) "c = DOT" | (plain) "c \<noteq> BSL" "c \<noteq> DOT"
      by linarith
    then show ?thesis
    proof cases
      case esc
      then show ?thesis using 1(1,2) [OF Cons] Cons by (cases "isDDD r") (auto simp: ref_loop_simps)
    next
      case short
      then show ?thesis by (simp add: Cons ref_loop_simps)
    next
      case dot
      show ?thesis
      proof (cases "bad \<or> wasDot \<or> length cur \<ge> 64 \<or> off + 1 + length cur > length msg")
        case True
        then show ?thesis by (auto simp: Cons dot ref_loop_simps)
      next
        case False
        with "1.prems" have "2 \<le> Suc (length cur)" by (cases cur) auto
        with False 1(3) [OF Cons] dot Cons show ?thesis
          by (cases "ref_compress compress cur sfx r off cm") (auto simp: ref_loop_simps elim!: safe_mono)
      qed
    next
      case plain
      then show ?thesis using 1(4) [OF Cons] Cons by (auto simp: ref_loop_simps)
    qed
  qed
qed

lemma packDomainName_safe:
  "safe (packDomainName s msg off cm compress)
     (\<lambda>(msg', cm', off'). length msg' = length msg \<and> off \<le> off' \<and> off' \<le> max off (length msg))"
proof (cases "s = [] \<or> \<not> IsFqdn s")
  case True
  then show ?thesis by (auto simp: packDomainName_def)
next
  case False
  then have fq: "IsFqdn s" by simp
  show ?thesis
  proof (cases "s = [DOT]")
    case True
    then show ?thesis by (simp add: packDomainName_root)
  next
    case nroot: False
    then have "length s > 1" using IsFqdn_last [OF fq] by (cases s; cases "tl s") auto
    then show ?thesis unfolding packDomainName_ref [OF fq] pack_ref_def
      by (intro safe_bind [OF ref_loop_safe]) (auto simp: nroot intro!: safe_if)
  qed
qed

text \<open>Without pointers, a string that is not a name is refused.\<close>

lemma ref_loop_bad_label:
  assumes "split_labels cur rest = Some ls" and "\<not> list_all wf_label ls"
    and "bad \<or> wasDot \<longrightarrow> cur = []" and "cur = [] \<longrightarrow> bad \<or> wasDot"
  shows "\<exists>o' e. ref_loop False bad wasDot cur sfx rest msg off cm = Err (o', e) \<and> e \<in> {ErrRdata, ErrBuf}"
  using assms
proof (induction cur rest arbitrary: ls sfx bad wasDot msg off cm rule: split_labels.induct)
  case (1 cur s)
  show ?case
  proof (cases s)
    case Nil
    with "1.prems" show ?thesis by (auto simp: split_labels_simps split: if_splits)
  next
    case (Cons c r)
    consider (ddd) "c = BSL" "isDDD r" | (char) x r' where "c = BSL" "\<not> isDDD r" "r = x # r'"
      | (bad) "c = BSL" "\<not> isDDD r" "r = []" | (dot) "c = DOT" | (plain) "c \<noteq> BSL" "c \<noteq> DOT"
      by (cases r) auto
    then show ?thesis
    proof cases
      case ddd
      with "1.IH"(1) [OF Cons ddd, of ls False False] "1.prems" Cons show ?thesis
        by (cases "off + 1 \<le> length msg") (auto simp: split_labels_simps ref_loop_simps)
    next
      case char
      with "1.IH"(2) [OF Cons char, of ls False False] "1.prems" Cons show ?thesis
        by (cases "off + 1 \<le> length msg") (auto simp: split_labels_simps ref_loop_simps)
    next
      case bad
      with "1.prems" Cons show ?thesis by (simp add: split_labels.simps [of cur])
    next
      case dot
      with "1.prems"(1) Cons obtain ls' where ls: "ls = cur # ls'" "split_labels [] r = Some ls'"
        by (auto simp: split_labels_simps)
      show ?thesis
      proof (cases "wf_label cur \<and> off + 1 + length cur \<le> length msg")
        case True
        then have "\<not> list_all wf_label ls'" using "1.prems"(2) ls by auto
        moreover have "cur \<noteq> []" "length cur < 64" using True by (auto simp: wf_label_def)
        ultimately show ?thesis
          using "1.IH"(3) [OF Cons _ dot ls(2), of False True] dot True "1.prems" Cons
          by (cases "ref_compress False cur sfx r off cm") (auto simp: ref_loop_simps ref_compress_def split: if_splits option.splits)
      next
        case False
        then show ?thesis using "1.prems"(3,4) Cons dot by (auto simp: wf_label_def ref_loop_simps)
      qed
    next
      case plain
      with "1.IH"(4) [OF Cons _ _, of ls False False] "1.prems" Cons show ?thesis
        by (auto simp: split_labels_simps ref_loop_simps)
    qed
  qed
qed

subsection \<open>What a message holds at an offset\<close>

text \<open>
  RFC 1035, 4.1.4: a name is a sequence of labels that ends with the root label, or with a
  pointer to where the rest of it is. \<open>name_at msg off ls k off'\<close>: at \<open>off\<close> there is a
  name with the labels \<open>ls\<close>, read through \<open>k\<close> pointers, and what follows it is at
  \<open>off'\<close>.
\<close>

definition pointer_at :: "bytes \<Rightarrow> nat \<Rightarrow> nat" where
  "pointer_at msg off = (unat (msg ! off) mod 64) * 256 + unat (msg ! Suc off)"

inductive name_at :: "bytes \<Rightarrow> nat \<Rightarrow> bytes list \<Rightarrow> nat \<Rightarrow> nat \<Rightarrow> bool" where
  name_root: "off < length msg \<Longrightarrow> msg ! off = 0 \<Longrightarrow> name_at msg off [] 0 (off + 1)"
| name_label: "off < length msg \<Longrightarrow> msg ! off \<noteq> 0 \<Longrightarrow> n = unat (msg ! off) \<Longrightarrow> n < 64 \<Longrightarrow>
    off + 1 + n \<le> length msg \<Longrightarrow> name_at msg (off + 1 + n) ls k off' \<Longrightarrow>
    name_at msg off (take n (drop (off + 1) msg) # ls) k off'"
| name_pointer: "off + 1 < length msg \<Longrightarrow> 192 \<le> unat (msg ! off) \<Longrightarrow>
    name_at msg (pointer_at msg off) ls k off' \<Longrightarrow> name_at msg off ls (Suc k) (off + 2)"

inductive_cases name_atE: "name_at msg off ls k off'"

lemma top_bits:
  fixes c :: byte
  shows "c AND 0xC0 = 0 \<longleftrightarrow> unat c < 64" and "c AND 0xC0 = 0xC0 \<longleftrightarrow> 192 \<le> unat c"
proof -
  have "list_all (\<lambda>n. ((of_nat n :: byte) AND 0xC0 = 0) = (n < 64) \<and>
      ((of_nat n :: byte) AND 0xC0 = 0xC0) = (192 \<le> n)) [0..<256]" by code_simp
  then have "\<forall>n \<in> set [0..<256]. ((of_nat n :: byte) AND 0xC0 = 0) = (n < 64) \<and>
      ((of_nat n :: byte) AND 0xC0 = 0xC0) = (192 \<le> n)" unfolding list_all_iff .
  moreover have "unat c \<in> set [0..<256]" using unat_byte_less [of c] by (simp del: upt_rec_numeral)
  ultimately have "((of_nat (unat c) :: byte) AND 0xC0 = 0) = (unat c < 64) \<and>
      ((of_nat (unat c) :: byte) AND 0xC0 = 0xC0) = (192 \<le> unat c)" by blast
  then show "c AND 0xC0 = 0 \<longleftrightarrow> unat c < 64" and "c AND 0xC0 = 0xC0 \<longleftrightarrow> 192 \<le> unat c" by simp_all
qed

lemma pointer_value:
  assumes "192 \<le> unat c"
  shows "unat (push_bit 8 (ucast (c XOR 0xC0)) OR ucast d :: u16) = (unat (c :: byte) mod 64) * 256 + unat (d :: byte)"
proof -
  have "list_all (\<lambda>n. unat ((of_nat n :: byte) XOR 0xC0) = n mod 64) [192..<256]" by code_simp
  then have "\<forall>n \<in> set [192..<256]. unat ((of_nat n :: byte) XOR 0xC0) = n mod 64" unfolding list_all_iff .
  moreover have "unat c \<in> set [192..<256]" using unat_byte_less [of c] assms by (simp del: upt_rec_numeral)
  ultimately have x: "unat (c XOR 0xC0) = unat c mod 64" by fastforce
  have "push_bit 8 (ucast (c XOR 0xC0)) OR ucast d = (push_bit 8 (ucast (c XOR 0xC0)) + ucast d :: u16)"
    by (rule disjunctive_add [symmetric]) (auto simp: bit_simps dest: bit_imp_le_length)
  also have "unat \<dots> = (unat c mod 64) * 256 + unat d"
    using unat_byte_less [of d]
    by (simp add: push_bit_eq_mult unat_word_ariths x unsigned_ucast_eq take_bit_eq_mod)
  finally show ?thesis .
qed

definition udn_text :: "gostring \<Rightarrow> bytes list \<Rightarrow> gostring" where
  "udn_text s ls = (let t = s @ join_labels (map present_label ls) in if t = [] then [DOT] else t)"

lemma udn_loop_steps:
  assumes "off < length msg"
  shows "msg ! off = 0 \<Longrightarrow> udn_loop msg off s off1 budget ptr =
      Ok (if s = [] then [DOT] else s, if ptr = 0 then off + 1 else off1)"
    and "msg ! off \<noteq> 0 \<Longrightarrow> n = unat (msg ! off) \<Longrightarrow> n < 64 \<Longrightarrow> udn_loop msg off s off1 budget ptr =
      (if off + 1 + n > length msg then Err (length msg, ErrBuf)
       else if budget - (int n + 1) \<le> 0 then Err (length msg, ErrLongDomain)
       else udn_loop msg (off + 1 + n) (s @ concat (map esc_label_byte (take n (drop (off + 1) msg))) @ [DOT])
         off1 (budget - (int n + 1)) ptr)"
    and "192 \<le> unat (msg ! off) \<Longrightarrow> udn_loop msg off s off1 budget ptr =
      (if off + 1 \<ge> length msg then Err (length msg, ErrBuf)
       else if ptr + 1 > maxCompressionPointers then Err (length msg, ErrMsg ''too many compression pointers'')
       else udn_loop msg (pointer_at msg off) s (if ptr = 0 then off + 2 else off1) budget (ptr + 1))"
    and "64 \<le> unat (msg ! off) \<Longrightarrow> unat (msg ! off) < 192 \<Longrightarrow>
      udn_loop msg off s off1 budget ptr = Err (length msg, ErrRdata)"
proof -
  show "msg ! off = 0 \<Longrightarrow> udn_loop msg off s off1 budget ptr =
      Ok (if s = [] then [DOT] else s, if ptr = 0 then off + 1 else off1)"
    using assms by (subst udn_loop.simps) simp
  show "msg ! off \<noteq> 0 \<Longrightarrow> n = unat (msg ! off) \<Longrightarrow> n < 64 \<Longrightarrow> udn_loop msg off s off1 budget ptr =
      (if off + 1 + n > length msg then Err (length msg, ErrBuf)
       else if budget - (int n + 1) \<le> 0 then Err (length msg, ErrLongDomain)
       else udn_loop msg (off + 1 + n) (s @ concat (map esc_label_byte (take n (drop (off + 1) msg))) @ [DOT])
         off1 (budget - (int n + 1)) ptr)"
    using assms by (subst udn_loop.simps) (simp add: top_bits Let_def)
  show "192 \<le> unat (msg ! off) \<Longrightarrow> udn_loop msg off s off1 budget ptr =
      (if off + 1 \<ge> length msg then Err (length msg, ErrBuf)
       else if ptr + 1 > maxCompressionPointers then Err (length msg, ErrMsg ''too many compression pointers'')
       else udn_loop msg (pointer_at msg off) s (if ptr = 0 then off + 2 else off1) budget (ptr + 1))"
    using assms by (subst udn_loop.simps) (simp add: top_bits pointer_value pointer_at_def Let_def)
  show "64 \<le> unat (msg ! off) \<Longrightarrow> unat (msg ! off) < 192 \<Longrightarrow>
      udn_loop msg off s off1 budget ptr = Err (length msg, ErrRdata)"
    using assms by (subst udn_loop.simps) (auto simp: top_bits)
qed

lemma udn_loop_off: "length msg \<le> off \<Longrightarrow> udn_loop msg off s off1 budget ptr = Err (length msg, ErrBuf)"
  by (subst udn_loop.simps) simp

lemma udn_loop_complete:
  assumes "name_at msg off ls k off'" and "ptr + k \<le> maxCompressionPointers" and "int (wire_len ls) \<le> budget"
  shows "udn_loop msg off s off1 budget ptr = Ok (udn_text s ls, if ptr = 0 then off' else off1)"
  using assms
proof (induction arbitrary: s off1 budget ptr rule: name_at.induct)
  case (name_root off msg)
  then show ?case by (simp add: udn_loop_steps(1) udn_text_def)
next
  case (name_label off msg n ls k off')
  then have "0 < budget - (int n + 1)" using wire_len_pos [of ls] by simp
  with name_label show ?case
    by (simp add: udn_loop_steps(2) udn_text_def present_label_def)
next
  case (name_pointer off msg ls k off')
  then show ?case by (simp add: udn_loop_steps(3))
qed

lemma udn_loop_sound:
  assumes "udn_loop msg off s off1 budget ptr = Ok r" and "0 < budget" and "ptr \<le> maxCompressionPointers"
  shows "\<exists>ls k off'. name_at msg off ls k off' \<and> ptr + k \<le> maxCompressionPointers \<and> int (wire_len ls) \<le> budget"
  using assms
proof (induction "(maxCompressionPointers - ptr, nat budget)" arbitrary: off s off1 budget ptr
    rule: wf_induct_rule [OF wf_lex_prod [OF wf_less wf_less]])
  case 1
  note ih = "1.hyps" and ok = "1.prems"(1) and b = "1.prems"(2,3)
  have off: "off < length msg" using ok udn_loop_off [of msg off] by (cases "off < length msg") auto
  let ?n = "unat (msg ! off)"
  consider (root) "msg ! off = 0" | (label) "msg ! off \<noteq> 0" "?n < 64" | (ptr) "192 \<le> ?n" | (bad) "64 \<le> ?n" "?n < 192"
    by linarith
  then show ?case
  proof cases
    case root
    show ?thesis using name_root [OF off root] b
      by (intro exI [of _ "[]"] exI [of _ "0 :: nat"] exI [of _ "off + 1"]) simp
  next
    case label
    from ok udn_loop_steps(2) [OF off label(1) refl label(2), of s off1 budget ptr]
    have s: "off + 1 + ?n \<le> length msg" "0 < budget - (int ?n + 1)"
      "udn_loop msg (off + 1 + ?n) (s @ concat (map esc_label_byte (take ?n (drop (off + 1) msg))) @ [DOT])
         off1 (budget - (int ?n + 1)) ptr = Ok r"
      by (auto split: if_splits)
    from ih [OF _ s(3,2) b(2)] s(2)
    obtain ls k off' where *: "name_at msg (off + 1 + ?n) ls k off'" "ptr + k \<le> maxCompressionPointers"
       "int (wire_len ls) \<le> budget - (int ?n + 1)" by (auto intro: less_uint_plus_one)
    from name_label [OF off label(1) refl label(2) s(1) *(1)] *(2,3) s(1)
    show ?thesis by (intro exI conjI) (assumption, assumption, simp)
  next
    case ptr
    from ok udn_loop_steps(3) [OF off ptr, of s off1 budget] 
    have s: "off + 1 < length msg" "ptr + 1 \<le> maxCompressionPointers"
      "udn_loop msg (pointer_at msg off) s (if ptr = 0 then off + 2 else off1) budget (ptr + 1) = Ok r"
      by (auto split: if_splits)
    have lt: "maxCompressionPointers - (ptr + 1) < maxCompressionPointers - ptr" using s(2) by arith
    from ih [OF _ s(3) b(1) s(2)] lt
    obtain ls k off' where *: "name_at msg (pointer_at msg off) ls k off'" "ptr + 1 + k \<le> maxCompressionPointers"
       "int (wire_len ls) \<le> budget" by auto
    from name_pointer [OF s(1) ptr *(1)] *(2,3) show ?thesis by (intro exI conjI) (assumption, simp_all)
  next
    case bad
    then show ?thesis using ok udn_loop_steps(4) [OF off bad] by simp
  qed
qed

lemma name_at_wf: "name_at msg off ls k off' \<Longrightarrow> list_all wf_label ls"
proof (induction rule: name_at.induct)
  case (name_label off msg n ls k off')
  then have "0 < n" by (simp add: unat_gt_0)
  with name_label show ?case by (auto simp: wf_label_def)
qed auto

lemma name_at_bounds: "name_at msg off ls k off' \<Longrightarrow> off < off' \<and> off' \<le> length msg"
  by (induction rule: name_at.induct) auto

lemma name_at_det:
  "name_at msg off ls k off' \<Longrightarrow> name_at msg off ls' k' off'' \<Longrightarrow> ls' = ls \<and> k' = k \<and> off'' = off'"
proof (induction arbitrary: ls' k' off'' rule: name_at.induct)
  case (name_root off msg)
  from name_root(3,1,2) show ?case by (cases rule: name_at.cases) auto
next
  case (name_label off msg n ls k off')
  note H = name_label.hyps and ih = name_label.IH
  from name_label.prems show ?case
  proof (cases rule: name_at.cases)
    case (name_label n' ls'')
    with H ih [of ls'' k' off''] show ?thesis by simp
  qed (use H in auto)
next
  case (name_pointer off msg ls k off')
  note H = name_pointer.hyps and ih = name_pointer.IH
  from name_pointer.prems show ?case
  proof (cases rule: name_at.cases)
    case (name_pointer k'' off3)
    with ih [of ls' k'' off3] show ?thesis by simp
  qed (use H in auto)
qed

text \<open>Writing beyond what a name reads does not change it.\<close>

lemma name_at_append: "name_at msg off ls k off' \<Longrightarrow> name_at (msg @ z) off ls k off'"
proof (induction rule: name_at.induct)
  case (name_root off msg)
  then show ?case by (intro name_at.name_root) (simp_all add: nth_append)
next
  case (name_label off msg n ls k off')
  then have "name_at (msg @ z) off (take n (drop (off + 1) (msg @ z)) # ls) k off'"
    by (intro name_at.name_label) (simp_all add: nth_append)
  with name_label show ?case by simp
next
  case (name_pointer off msg ls k off')
  then have "pointer_at (msg @ z) off = pointer_at msg off" by (simp add: pointer_at_def nth_append)
  with name_pointer show ?case by (intro name_at.name_pointer) (simp_all add: nth_append)
qed

lemma udn_text_present: "udn_text [] ls = present ls"
  by (auto simp: udn_text_def present_def Let_def simp del: join_labels_simps)

lemma UnpackDomainName_iff:
  "UnpackDomainName msg off = Ok (s, off') \<longleftrightarrow>
     (\<exists>ls k. name_at msg off ls k off' \<and> k \<le> maxCompressionPointers \<and> wire_len ls \<le> 255 \<and> s = present ls)"
    (is "?L \<longleftrightarrow> ?R")
proof
  assume ?R
  then obtain ls k where "name_at msg off ls k off'" "k \<le> maxCompressionPointers" "wire_len ls \<le> 255" "s = present ls"
    by blast
  then show ?L using udn_loop_complete [of msg off ls k off' 0 "255" "[]" 0]
    by (simp add: UnpackDomainName_def udn_text_present)
next
  assume ?L
  from udn_loop_sound [OF this [unfolded UnpackDomainName_def]] obtain ls k off'' where
    n: "name_at msg off ls k off''" "k \<le> maxCompressionPointers" "wire_len ls \<le> 255" by auto
  then have "UnpackDomainName msg off = Ok (present ls, off'')"
    using udn_loop_complete [of msg off ls k off'' 0 "255" "[]" 0]
    by (simp add: UnpackDomainName_def udn_text_present)
  with \<open>?L\<close> n show ?R by auto
qed

lemma udn_loop_no_panic: "udn_loop msg off s off1 budget ptr \<noteq> Panic"
  by (induction msg off s off1 budget ptr rule: udn_loop.induct)
    (subst udn_loop.simps, simp add: Let_def)

lemma UnpackDomainName_safe [unpack_safe]:
  "safe (UnpackDomainName msg off) (\<lambda>(s, off'). off \<le> off' \<and> off' \<le> length msg)"
proof (cases "UnpackDomainName msg off")
  case (Ok r)
  then obtain s off' where "r = (s, off')" by (cases r)
  with Ok have "\<exists>ls k. name_at msg off ls k off'" using UnpackDomainName_iff by blast
  with Ok \<open>r = _\<close> name_at_bounds show ?thesis by fastforce
qed (use udn_loop_no_panic in \<open>auto simp: UnpackDomainName_def\<close>)

subsection \<open>Packed names read back\<close>

lemma pointer_xor:
  assumes "0 \<le> p" "p < 16384"
  shows "p XOR 0xC000 = p + (0xC000 :: int)"
proof -
  have "take_bit 14 p = p" using assms by (simp add: take_bit_eq_mod)
  moreover have "take_bit 14 p AND push_bit 14 x = 0" for x :: int
    by (rule bit_eqI) (auto simp: bit_simps)
  from this [of 3] have "take_bit 14 p AND 0xC000 = 0" by simp
  ultimately have "p AND 0xC000 = 0" by simp
  then show ?thesis by (rule disjunctive_add_eq_xor [symmetric])
qed

lemma pointer_bytes:
  assumes "0 \<le> p" "p < 16384"
  shows "\<exists>a b. be16 (word_of_int (p XOR 0xC000)) = [a, b] \<and> 192 \<le> unat a \<and> (unat a mod 64) * 256 + unat b = nat p"
proof -
  define n where "n = nat p"
  have n: "n < 16384" "p = int n" using assms by (auto simp: n_def)
  have w: "(word_of_int (p XOR 0xC000) :: u16) = of_nat (n + 49152)"
    using pointer_xor [OF assms] n(2) by simp
  let ?w = "of_nat (n + 49152) :: u16"
  have u: "unat ?w = n + 49152" using n(1) by (simp add: unat_of_nat del: of_nat_add)
  have a: "unat (ucast (drop_bit 8 ?w) :: byte) = n div 256 + 192"
    unfolding unsigned_ucast_eq unsigned_drop_bit_eq u
    using n(1) by (simp add: take_bit_eq_mod drop_bit_eq_div)
  have b: "unat (ucast ?w :: byte) = n mod 256"
    unfolding unsigned_ucast_eq u using mod_mult_self1 [of n 192 256] by (simp add: take_bit_eq_mod)
  have "(n div 256 + 192) mod 64 = n div 256" using n(1) mod_mult_self1 [of "n div 256" 3 64] by simp
  then show ?thesis unfolding w be16_def using a b n(2) by auto
qed

fun suffix_ok :: "(bytes \<times> gostring) list \<Rightarrow> bool" where
  "suffix_ok [] = True"
| "suffix_ok ((l, sfx) # ps) =
     (wf_label l \<and> name_labels sfx = Some (l # map fst ps) \<and>
      list_all (\<lambda>p. length (snd p) < length sfx) ps \<and> suffix_ok ps)"

lemma label_suffixes_length:
  "p \<in> set (label_suffixes cur sfx s) \<Longrightarrow> snd p = sfx \<or> length (snd p) < length s"
proof (induction cur sfx s rule: label_suffixes.induct)
  case (1 cur sfx s)
  show ?case
  proof (cases s)
    case Nil
    then show ?thesis using "1.prems" by (simp add: label_suffixes_simps)
  next
    case (Cons c r)
    show ?thesis using "1.IH" [OF Cons] Cons "1.prems"
      by (subst (asm) (5) label_suffixes.simps) (fastforce split: list.splits if_splits)
  qed
qed

lemma suffix_ok_label_suffixes:
  assumes "split_labels cur s = Some ls" and "list_all wf_label ls" and "split_labels [] sfx = Some ls"
    and "length s \<le> length sfx"
  shows "suffix_ok (label_suffixes cur sfx s)"
  using assms
proof (induction cur s arbitrary: ls sfx rule: split_labels.induct)
  case (1 cur s)
  show ?case
  proof (cases s)
    case Nil
    then show ?thesis by (simp add: label_suffixes_simps)
  next
    case (Cons c r)
    consider (ddd) "c = BSL" "isDDD r" | (char) x r' where "c = BSL" "\<not> isDDD r" "r = x # r'"
      | (bad) "c = BSL" "\<not> isDDD r" "r = []" | (dot) "c = DOT" | (plain) "c \<noteq> BSL" "c \<noteq> DOT"
      by (cases r) auto
    then show ?thesis
    proof cases
      case ddd
      with "1.IH"(1) [OF Cons ddd, of ls sfx] "1.prems" Cons show ?thesis
        by (simp add: split_labels_simps label_suffixes_simps)
    next
      case char
      with "1.IH"(2) [OF Cons char, of ls sfx] "1.prems" Cons show ?thesis
        by (simp add: split_labels_simps label_suffixes_simps)
    next
      case bad
      with "1.prems" Cons show ?thesis by (simp add: split_labels.simps [of cur])
    next
      case dot
      with "1.prems"(1) Cons obtain ls' where ls: "ls = cur # ls'" "split_labels [] r = Some ls'"
        by (auto simp: split_labels_simps)
      have "sfx \<noteq> [DOT]" using "1.prems"(2,3) by (auto simp: split_labels_simps wf_label_def)
      then have "name_labels sfx = Some ls" using "1.prems"(2,3) ls by (simp add: name_labels_def)
      moreover have "list_all (\<lambda>p. length (snd p) < length sfx) (label_suffixes [] r r)"
        using label_suffixes_length [of _ "[]" r r] "1.prems"(4) Cons by (fastforce simp: list_all_iff)
      ultimately show ?thesis
        using "1.IH"(3) [OF Cons _ dot ls(2) _ ls(2)] "1.prems" ls Cons dot split_labels_suffixes [OF ls(2)]
        by (simp add: label_suffixes_simps)
    next
      case plain
      with "1.IH"(4) [OF Cons _ _, of ls sfx] "1.prems" Cons show ?thesis
        by (simp add: split_labels_simps label_suffixes_simps)
    qed
  qed
qed

text \<open>A good entry of the map: it points to a copy of the name that starts with a label.\<close>

definition good_entry :: "bytes \<Rightarrow> gostring \<Rightarrow> int \<Rightarrow> bool" where
  "good_entry M t p \<longleftrightarrow> 0 \<le> p \<and> p < int maxCompressionOffset \<and>
     (\<exists>ls k e. name_labels t = Some ls \<and> k < length ls \<and> name_at M (nat p) ls k e)"

definition cm_sound :: "compressionMap \<Rightarrow> bytes \<Rightarrow> bool" where
  "cm_sound cm M \<longleftrightarrow> (\<forall>t p. cm_find cm t = Some p \<longrightarrow> good_entry M t p)"

lemma good_entry_append: "good_entry M t p \<Longrightarrow> good_entry (M @ z) t p"
  unfolding good_entry_def using name_at_append by blast

lemma cm_sound_append: "cm_sound cm M \<Longrightarrow> cm_sound cm (M @ z)"
  unfolding cm_sound_def using good_entry_append by blast

lemma cm_sound_nonneg: "cm_sound cm M \<Longrightarrow> cm_nonneg cm"
  by (auto simp: cm_sound_def cm_nonneg_def good_entry_def)

lemma name_at_label_append:
  assumes "wf_label l" and "name_at ((P @ of_nat (length l) # l) @ e) (length P + 1 + length l) ls k off'"
  shows "name_at (P @ of_nat (length l) # l @ e) (length P) (l # ls) k off'"
proof -
  let ?M = "P @ of_nat (length l) # l @ e"
  have l: "0 < length l" "length l < 64" using assms(1) by (auto simp: wf_label_def)
  have n: "unat (?M ! length P) = length l" using l by (simp add: nth_append unat_of_nat)
  have nz: "?M ! length P \<noteq> 0" using n l by (metis unat_0 less_irrefl)
  have "take (length l) (drop (length P + 1) ?M) = l" by simp
  with name_label [where msg = ?M and off = "length P" and n = "length l", of ls k off'] n nz l assms(2)
  show ?thesis by simp
qed

lemma name_at_pointer_append:
  assumes p: "0 \<le> p" "p < int maxCompressionOffset" and n: "name_at P (nat p) ls k e"
  shows "name_at (P @ be16 (word_of_int (p XOR 0xC000))) (length P) ls (Suc k) (length P + 2)"
proof -
  obtain a b where ab: "be16 (word_of_int (p XOR 0xC000)) = [a, b]" "192 \<le> unat a"
    "(unat a mod 64) * 256 + unat b = nat p" using pointer_bytes p by fastforce
  have "pointer_at (P @ [a, b]) (length P) = nat p" using ab(3) by (simp add: pointer_at_def nth_append)
  then show ?thesis unfolding ab(1)
    using name_at_append [OF n] ab(2) by (intro name_pointer) (simp_all add: nth_append)
qed

text \<open>The entries for names no longer than \<open>n\<close> octets are good.\<close>

definition cm_sound_upto :: "nat \<Rightarrow> compressionMap \<Rightarrow> bytes \<Rightarrow> bool" where
  "cm_sound_upto n cm M \<longleftrightarrow> (\<forall>t p. length t \<le> n \<longrightarrow> cm_find cm t = Some p \<longrightarrow> good_entry M t p)"

lemma ref_compress_find:
  assumes "ref_compress compress l sfx r off cm = Inl cm'" and "cm_find cm' t = Some p"
  shows "cm_find cm t = Some p \<or> t = sfx \<and> p = int off \<and> off < maxCompressionOffset"
  using assms
  by (auto simp: ref_compress_def cm_find_insert split: if_splits option.splits)

lemma enc_labels_name_at:
  assumes "suffix_ok ps" and "ps \<noteq> [] \<longrightarrow> cm_sound_upto (length (snd (hd ps))) cm P"
    and "enc_labels compress cm (length P) ps = (e, cm')"
  shows "(\<exists>k \<le> length ps. name_at (P @ e) (length P) (map fst ps) k (length P + length e)) \<and>
         (\<forall>t p. cm_find cm' t = Some p \<longrightarrow> cm_find cm t = Some p \<or> good_entry (P @ e) t p)"
  using assms
proof (induction ps arbitrary: cm P e)
  case Nil
  then show ?case using name_root [of "length P" "P @ [0]"] by (auto simp: nth_append)
next
  case (Cons lp ps)
  obtain l sfx where lp: "lp = (l, sfx)" by fastforce
  note ok = Cons.prems(1) [unfolded lp suffix_ok.simps] and cm = Cons.prems(2) [unfolded lp, simplified]
  show ?case
  proof (cases "ref_compress compress l sfx [] (length P) cm")
    case (Inr p)
    then have e: "e = be16 (word_of_int (p XOR 0xC000))" "cm' = cm" using Cons.prems(3) lp by auto
    have "cm_find cm sfx = Some p" using Inr by (auto simp: ref_compress_def split: if_splits option.splits)
    then have "good_entry P sfx p" using cm by (auto simp: cm_sound_upto_def)
    then obtain k o' where "0 \<le> p" "p < int maxCompressionOffset" "k < length (l # map fst ps)"
      "name_at P (nat p) (l # map fst ps) k o'" using ok by (auto simp: good_entry_def)
    with name_at_pointer_append [of p P "l # map fst ps" k o'] show ?thesis
      by (auto simp: e lp intro!: exI [of _ "Suc k"])
  next
    case (Inl cm1)
    let ?P = "P @ of_nat (length l) # l"
    obtain e1 where e1: "enc_labels compress cm1 (length ?P) ps = (e1, cm')" and e: "e = of_nat (length l) # l @ e1"
      using Cons.prems(3) lp Inl by (auto split: prod.splits)
    have "cm_sound_upto (length (snd (hd ps))) cm1 ?P" if "ps \<noteq> []"
      unfolding cm_sound_upto_def
    proof (intro allI impI)
      fix t p
      assume t: "length t \<le> length (snd (hd ps))" "cm_find cm1 t = Some p"
      have "length t < length sfx" using that ok t(1) by (cases ps) auto
      with ref_compress_find [OF Inl t(2)] have "cm_find cm t = Some p" by auto
      with cm \<open>length t < length sfx\<close> have "good_entry P t p" by (auto simp: cm_sound_upto_def)
      then show "good_entry ?P t p" by (rule good_entry_append)
    qed
    from Cons.IH [OF _ _ e1] this ok
    obtain k where k: "k \<le> length ps" "name_at (?P @ e1) (length ?P) (map fst ps) k (length ?P + length e1)"
      and find: "\<And>t p. cm_find cm' t = Some p \<Longrightarrow> cm_find cm1 t = Some p \<or> good_entry (?P @ e1) t p"
      by blast
    have n: "name_at (P @ e) (length P) (l # map fst ps) k (length P + length e)"
      using name_at_label_append [of l P e1 "map fst ps" k] ok k(2) by (simp add: e add.assoc)
    have "good_entry (P @ e) sfx (int (length P))" if "length P < maxCompressionOffset"
      using n k(1) ok that unfolding good_entry_def by (intro conjI exI [of _ "l # map fst ps"] exI [of _ k] exI [of _ "length P + length e"]) auto
    with find ref_compress_find [OF Inl] have
      "\<forall>t p. cm_find cm' t = Some p \<longrightarrow> cm_find cm t = Some p \<or> good_entry (P @ e) t p"
      by (fastforce simp: e)
    with n k(1) show ?thesis by (auto simp: lp intro!: exI [of _ k])
  qed
qed

lemma enc_name_name_at:
  assumes ls: "name_labels s = Some ls" and cm: "cm_sound cm P" and e: "enc_name compress cm (length P) s = (e, cm')"
  shows "(\<exists>k \<le> length ls. name_at (P @ e) (length P) ls k (length P + length e)) \<and> cm_sound cm' (P @ e)"
proof (cases "s = [DOT]")
  case True
  then have "ls = []" "e = [0]" "cm' = cm" using ls e by (auto simp: name_labels_def enc_name_def)
  then show ?thesis using cm_sound_append [OF cm] name_root [of "length P" "P @ [0]"] by (auto simp: nth_append)
next
  case False
  then have sp: "split_labels [] s = Some ls" "list_all wf_label ls"
    using ls by (auto simp: name_labels_def split: option.splits if_splits)
  let ?ps = "label_suffixes [] s s"
  have ps: "suffix_ok ?ps" "map fst ?ps = ls"
    using suffix_ok_label_suffixes [OF sp sp(1)] split_labels_suffixes [OF sp(1)] by auto
  have "cm_sound_upto n cm P" for n using cm by (auto simp: cm_sound_def cm_sound_upto_def)
  from enc_labels_name_at [OF ps(1), of cm P compress e cm'] this False e
  have *: "\<exists>k \<le> length ?ps. name_at (P @ e) (length P) (map fst ?ps) k (length P + length e)"
    "\<forall>t p. cm_find cm' t = Some p \<longrightarrow> cm_find cm t = Some p \<or> good_entry (P @ e) t p"
    by (auto simp: enc_name_def)
  from *(2) cm have "cm_sound cm' (P @ e)" unfolding cm_sound_def using good_entry_append by blast
  with *(1) ps(2) show ?thesis by (metis length_map)
qed

lemma pack_unpack_name:
  assumes "IsFqdn s" and "name_labels s = Some ls" and "cm_sound cm (take off msg)" and "off \<le> length msg"
    and "packDomainName s msg off cm compress = Ok (msg', cm', off')"
  shows "cm_sound cm' (take off' msg')"
    and "\<exists>k \<le> length ls. name_at (take off' msg') off ls k off'"
proof -
  obtain e cm1 where e: "enc_name compress cm off s = (e, cm1)" by fastforce
  from packDomainName_packs [OF assms(1,2) cm_sound_nonneg [OF assms(3)], of msg off compress] assms(5) e
  have r: "msg' = put msg off e" "cm' = cm1" "off' = off + length e" "off + length e \<le> length msg"
    by (auto simp: packs_def)
  have l: "length (take off msg) = off" using assms(4) by simp
  from enc_name_name_at [OF assms(2,3), of compress e cm1] e l
  have "\<exists>k \<le> length ls. name_at (take off msg @ e) off ls k (off + length e)" "cm_sound cm1 (take off msg @ e)"
    by auto
  then show "cm_sound cm' (take off' msg')" "\<exists>k \<le> length ls. name_at (take off' msg') off ls k off'"
    using r by (simp_all add: take_put_end)
qed

lemma name_at_take: "name_at (take n msg) off ls k off' \<Longrightarrow> name_at msg off ls k off'"
  using name_at_append [of "take n msg" off ls k off' "drop n msg"] by simp

section \<open>Properties\<close>

text \<open>The name \<^verbatim>\<open>a.nl.\<close>, for examples.\<close>

lemma a_nl:
  "IsFqdn (str ''a.nl.'')" "name_labels (str ''a.nl.'') = Some [str ''a'', str ''nl'']"
  "present [str ''a'', str ''nl''] = str ''a.nl.''" "wire_len [str ''a'', str ''nl''] = 6"
  by code_simp+

lemma cm_find_none [simp]: "cm_find no_compression s = None"
  by (simp add: cm_find_def no_compression_def)

lemma cm_nonneg_none: "cm_nonneg no_compression"
  by (simp add: cm_nonneg_def)

lemma cm_sound_none: "cm_sound no_compression M"
  by (simp add: cm_sound_def)

text \<open>
  C22: packing a fully qualified name writes exactly its encoding, with the labels in order,
  replaced from the first known suffix on by a pointer when compression is on, and returns the
  offset after it and the map with the new suffixes; the only other outcome is ErrBuf, when the
  uncompressed name would not fit. It never panics.
\<close>

theorem packDomainName_exact:
  assumes "IsFqdn s" and "name_labels s = Some ls" and "cm_nonneg cm"
  shows "case packDomainName s msg off cm compress of
           Ok (msg', cm', off') \<Rightarrow>
             (let (enc, new) = enc_name compress cm off s in
              msg' = put msg off enc \<and> cm' = new \<and> off' = off + length enc \<and> off' \<le> length msg)
         | Err (_, e) \<Rightarrow> e = ErrBuf \<and> length msg < off + wire_len ls
         | Panic \<Rightarrow> False"
  using packDomainName_packs [OF assms, of msg off compress]
  by (auto simp: packs_def split: outcome.splits)

theorem packDomainName_exact_witness:
  "\<exists>cm'. packDomainName (str ''a.nl.'') (replicate 8 0) 1 no_compression False =
     Ok ([0, 1, 0x61, 2, 0x6E, 0x6C, 0, 0], cm', 7)"
proof -
  have e: "fst (enc_name False no_compression 1 (str ''a.nl.'')) = [1, 0x61, 2, 0x6E, 0x6C, 0]"
    by code_simp
  have "put (replicate 8 0) 1 [1, 0x61, 2, 0x6E, 0x6C, 0] = [0, 1, 0x61, 2, 0x6E, 0x6C, 0, 0 :: byte]"
    by code_simp
  with packDomainName_exact [OF a_nl(1,2) cm_nonneg_none, where msg = "replicate 8 0" and off = 1 and compress = False] e show ?thesis
    by (auto simp: str_def split: outcome.splits prod.splits)
qed

text \<open>
  C13: UnpackDomainName returns a text and an offset exactly when RFC 1035 reads a name at the
  given offset, through at most 126 pointers and with at most 255 octets; the text is the escaped
  form of its labels and the offset is the one after the name (after the first pointer, if there
  is one).
\<close>

theorem UnpackDomainName_exact:
  "UnpackDomainName msg off = Ok (s, off') \<longleftrightarrow>
     (\<exists>ls k. name_at msg off ls k off' \<and> k \<le> maxCompressionPointers \<and>
             wire_len ls \<le> 255 \<and> s = present ls)"
  using UnpackDomainName_iff .

text \<open>
  C10: a fully qualified name of at most 255 octets and at most 126 labels, each of 1 to 63 octets, that was packed after a
  prefix of the message, with a compression map whose entries point to names in that prefix, reads back as the same labels,
  from the first octet to the last one written; and the entries of the map afterwards point to names in the longer prefix.
  Longer names can be packed, but not unpacked.
\<close>

theorem packed_name_reads_back:
  assumes "IsFqdn s" and "name_labels s = Some ls" and "cm_sound cm (take off msg)"
    and "off \<le> length msg" and "wire_len ls \<le> 255" and "length ls \<le> maxCompressionPointers"
    and "packDomainName s msg off cm compress = Ok (msg', cm', off')"
  shows "UnpackDomainName msg' off = Ok (present ls, off') \<and> cm_sound cm' (take off' msg')"
proof -
  note R = pack_unpack_name [OF assms(1,2,3,4,7)]
  from R(2) assms(6) obtain k where "name_at msg' off ls k off'" "k \<le> maxCompressionPointers"
    using le_trans name_at_take by blast
  with R(1) assms(5) show ?thesis by (auto simp: UnpackDomainName_iff)
qed

theorem packed_name_reads_back_witness:
  "\<exists>msg' off'. UnpackDomainName msg' 1 = Ok (str ''a.nl.'', off')"
proof -
  from packDomainName_packs [OF a_nl(1,2) cm_nonneg_none, of "replicate 8 0" 1 False] a_nl(4)
  obtain msg' cm' off' where
    p: "packDomainName (str ''a.nl.'') (replicate 8 0) 1 no_compression False = Ok (msg', cm', off')"
    by (auto simp: packs_def split: outcome.splits)
  have "UnpackDomainName msg' 1 = Ok (str ''a.nl.'', off')"
    using packed_name_reads_back [OF a_nl(1,2) cm_sound_none _ _ _ p] a_nl(3,4) by simp
  then show ?thesis by blast
qed

text \<open>
  C29: neither packing nor unpacking a domain name panics, whatever the text, the buffer, the
  offset and the map; a packed message keeps its length, the offset after it does not go back, nor
  beyond the buffer, and the offset an unpacked name returns is after the name and inside the
  message.
\<close>

theorem domain_names_never_panic:
  "safe (packDomainName s msg off cm compress)
     (\<lambda>(msg', cm', off'). length msg' = length msg \<and> off \<le> off' \<and> off' \<le> max off (length msg)) \<and>
   safe (UnpackDomainName msg off) (\<lambda>(s', off'). off \<le> off' \<and> off' \<le> length msg)"
  using packDomainName_safe UnpackDomainName_safe by blast

text \<open>
  C30: without compression an ASCII string that is no name, for a missing final dot, an empty
  label or a label of more than 63 octets, is refused with ErrFqdn, ErrRdata or ErrBuf.
\<close>

theorem packDomainName_refuses:
  assumes "ascii s" and "s \<noteq> []" and "name_labels s = None"
  shows "\<exists>off' e. packDomainName s msg off cm False = Err (off', e) \<and>
           (e = ErrFqdn \<and> \<not> IsFqdn s \<or> e \<in> {ErrRdata, ErrBuf} \<and> IsFqdn s)"
proof (cases "IsFqdn s")
  case False
  then show ?thesis using assms(2) by (simp add: packDomainName_def)
next
  case True
  then obtain ls where ls: "split_labels [] s = Some ls" using IsFqdn_iff_split [OF assms(1)] by auto
  have nr: "s \<noteq> [DOT]" using assms(3) by (auto simp: name_labels_def)
  have "ls \<noteq> []" using split_labels_rest [OF ls] assms(2) by auto
  with ls assms(3) nr have bad: "\<not> list_all wf_label ls" by (auto simp: name_labels_def split: if_splits)
  have "length s > 1" using IsFqdn_last [OF True] nr by (cases s; cases "tl s") auto
  with ref_loop_bad_label [OF ls bad, of True False s msg off cm] show ?thesis
    using True by (auto simp: packDomainName_ref [OF True] pack_ref_def)
qed

theorem packDomainName_refuses_witness:
  "\<exists>oe. packDomainName (str ''a..nl.'') (replicate 9 0) 0 new_compression False = Err oe"
proof -
  have "name_labels (str ''a..nl.'') = None" by code_simp
  with packDomainName_refuses [of "str ''a..nl.''" "replicate 9 0" 0 new_compression] show ?thesis
    by (auto simp: str_def ascii_def)
qed

text \<open>A name with a wide rune before an escaped dot is packed as the root.\<close>

lemma packDomainName_wide_rune:
  "case packDomainName [0xC3, 0xA9, BSL, DOT] (replicate 4 0xFF) 0 no_compression False of
     Ok (msg', _, off') \<Rightarrow> msg' = [0, 0xFF, 0xFF, 0xFF] \<and> off' = 1 | _ \<Rightarrow> False"
  by code_simp

end
