(* ===== verification/Wire_Fields.thy ===== *)
theory Wire_Fields
  imports Domain_Wire
begin

section \<open>Fields of fixed form and character strings\<close>

text \<open>
  The packers and unpackers of \<^verbatim>\<open>msg_helpers.go\<close> for integers, addresses and strings,
  and the text helpers of \<^verbatim>\<open>msg.go\<close>. A packer gets the buffer and returns it changed,
  with the offset after what it wrote; the contents of the buffer after an error are not modelled,
  since every caller drops them.

  The locales state what the records rely on: \<open>field_writer\<close> is a packer that writes exactly
  an encoding, or fails when it does not fit; \<open>wire_field\<close> has an unpacker that reads the
  encoding back wherever it stands; \<open>rest_field\<close> has one that reads back what is at the end
  of the record.
\<close>

subsection \<open>Integers\<close>

definition unpackUint8 :: "bytes \<Rightarrow> nat \<Rightarrow> (byte \<times> nat) off_res" where
  "unpackUint8 msg off =
     (if off + 1 > length msg then Err (length msg, ErrMsg ''overflow unpacking uint8'')
      else bindR (index_at msg off) (\<lambda>b. Ok (b, off + 1)))"

definition packUint8 :: "byte \<Rightarrow> bytes \<Rightarrow> nat \<Rightarrow> (bytes \<times> nat) off_res" where
  "packUint8 i msg off =
     (if off + 1 > length msg then Err (length msg, ErrMsg ''overflow packing uint8'')
      else bindR (write_at msg off [i]) (\<lambda>msg. Ok (msg, off + 1)))"

definition unpackUint16 :: "bytes \<Rightarrow> nat \<Rightarrow> (u16 \<times> nat) off_res" where
  "unpackUint16 msg off =
     (if off + 2 > length msg then Err (length msg, ErrMsg ''overflow unpacking uint16'')
      else bindR (go_slice msg off (off + 2)) (\<lambda>b. Ok (be_word b, off + 2)))"

definition packUint16 :: "u16 \<Rightarrow> bytes \<Rightarrow> nat \<Rightarrow> (bytes \<times> nat) off_res" where
  "packUint16 i msg off =
     (if off + 2 > length msg then Err (length msg, ErrMsg ''overflow packing uint16'')
      else bindR (write_at msg off (be16 i)) (\<lambda>msg. Ok (msg, off + 2)))"

definition unpackUint32 :: "bytes \<Rightarrow> nat \<Rightarrow> (u32 \<times> nat) off_res" where
  "unpackUint32 msg off =
     (if off + 4 > length msg then Err (length msg, ErrMsg ''overflow unpacking uint32'')
      else bindR (go_slice msg off (off + 4)) (\<lambda>b. Ok (be_word b, off + 4)))"

definition packUint32 :: "u32 \<Rightarrow> bytes \<Rightarrow> nat \<Rightarrow> (bytes \<times> nat) off_res" where
  "packUint32 i msg off =
     (if off + 4 > length msg then Err (length msg, ErrMsg ''overflow packing uint32'')
      else bindR (write_at msg off (be32 i)) (\<lambda>msg. Ok (msg, off + 4)))"

definition unpackUint48 :: "bytes \<Rightarrow> nat \<Rightarrow> (u64 \<times> nat) off_res" where
  "unpackUint48 msg off =
     (if off + 6 > length msg
      then Err (length msg, ErrMsg ''overflow unpacking uint64 as uint48'')
      else bindR (go_slice msg off (off + 6)) (\<lambda>b. Ok (be_word b, off + 6)))"

definition packUint48 :: "u64 \<Rightarrow> bytes \<Rightarrow> nat \<Rightarrow> (bytes \<times> nat) off_res" where
  "packUint48 i msg off =
     (if off + 6 > length msg
      then Err (length msg, ErrMsg ''overflow packing uint64 as uint48'')
      else bindR (write_at msg off (be48 i)) (\<lambda>msg. Ok (msg, off + 6)))"

definition unpackUint64 :: "bytes \<Rightarrow> nat \<Rightarrow> (u64 \<times> nat) off_res" where
  "unpackUint64 msg off =
     (if off + 8 > length msg then Err (length msg, ErrMsg ''overflow unpacking uint64'')
      else bindR (go_slice msg off (off + 8)) (\<lambda>b. Ok (be_word b, off + 8)))"

definition packUint64 :: "u64 \<Rightarrow> bytes \<Rightarrow> nat \<Rightarrow> (bytes \<times> nat) off_res" where
  "packUint64 i msg off =
     (if off + 8 > length msg then Err (length msg, ErrMsg ''overflow packing uint64'')
      else bindR (write_at msg off (be64 i)) (\<lambda>msg. Ok (msg, off + 8)))"

subsection \<open>Addresses\<close>

text \<open>A \<^verbatim>\<open>net.IP\<close> is a byte slice; \<^verbatim>\<open>nil\<close> and the empty slice behave alike here.\<close>

definition To4 :: "bytes \<Rightarrow> bytes" where
  "To4 ip =
     (if length ip = 4 then ip
      else if length ip = 16 \<and> take 10 ip = replicate 10 0 \<and> ip ! 10 = 0xFF \<and> ip ! 11 = 0xFF
      then drop 12 ip
      else [])"

definition unpackDataA :: "bytes \<Rightarrow> nat \<Rightarrow> (bytes \<times> nat) off_res" where
  "unpackDataA msg off =
     (if off + 4 > length msg then Err (length msg, ErrMsg ''overflow unpacking a'')
      else bindR (go_slice msg off (off + 4)) (\<lambda>ip. Ok (ip, off + 4)))"

definition packDataA :: "bytes \<Rightarrow> bytes \<Rightarrow> nat \<Rightarrow> (bytes \<times> nat) off_res" where
  "packDataA a msg off =
     (if length a = 4 \<or> length a = 16 then
        if off + 4 > length msg then Err (length msg, ErrMsg ''overflow packing a'')
        else bindR (write_at msg off (To4 a)) (\<lambda>msg. Ok (msg, off + 4))
      else if length a = 0 then Ok (msg, off)
      else Err (length msg, ErrMsg ''overflow packing a''))"

definition unpackDataAAAA :: "bytes \<Rightarrow> nat \<Rightarrow> (bytes \<times> nat) off_res" where
  "unpackDataAAAA msg off =
     (if off + 16 > length msg then Err (length msg, ErrMsg ''overflow unpacking aaaa'')
      else bindR (go_slice msg off (off + 16)) (\<lambda>ip. Ok (ip, off + 16)))"

definition packDataAAAA :: "bytes \<Rightarrow> bytes \<Rightarrow> nat \<Rightarrow> (bytes \<times> nat) off_res" where
  "packDataAAAA aaaa msg off =
     (if length aaaa = 16 then
        if off + 16 > length msg then Err (length msg, ErrMsg ''overflow packing aaaa'')
        else bindR (write_at msg off aaaa) (\<lambda>msg. Ok (msg, off + 16))
      else if length aaaa = 0 then Ok (msg, off)
      else Err (length msg, ErrMsg ''overflow packing aaaa''))"

subsection \<open>Character strings\<close>

text \<open>
  The loop of \<^verbatim>\<open>unpackString\<close>: \<open>i\<close> is the index in the string, \<open>consumed\<close> how
  much of it has been copied to the builder \<open>s\<close>.
\<close>

fun unpackString_loop :: "bytes \<Rightarrow> bytes \<Rightarrow> nat \<Rightarrow> nat \<Rightarrow> gostring \<Rightarrow> gostring \<times> nat" where
  "unpackString_loop m [] i consumed s = (s, consumed)"
| "unpackString_loop m (b # r) i consumed s =
     (if b = DQUOTE \<or> b = BSL
      then unpackString_loop m r (i + 1) (i + 1) (s @ take (i - consumed) (drop consumed m) @ [BSL] @ [b])
      else if b < 0x20 \<or> b > 0x7E
      then unpackString_loop m r (i + 1) (i + 1) (s @ take (i - consumed) (drop consumed m) @ escapeByte b)
      else unpackString_loop m r (i + 1) consumed s)"

definition unpackString :: "bytes \<Rightarrow> nat \<Rightarrow> (gostring \<times> nat) off_res" where
  "unpackString msg off =
     (if off + 1 > length msg then Err (off, ErrMsg ''overflow unpacking txt'')
      else
        bindR (index_at msg off) (\<lambda>b.
          let l = unat b; off = off + 1 in
          if off + l > length msg then Err (off, ErrMsg ''overflow unpacking txt'')
          else
            bindR (go_slice msg off (off + l)) (\<lambda>m.
              let (s, consumed) = unpackString_loop m m 0 0 [] in
              if consumed = 0 then Ok (m, off + l)
              else Ok (s @ drop consumed m, off + l))))"

text \<open>
  The loop that \<^verbatim>\<open>packTxtString\<close> and \<^verbatim>\<open>packOctetString\<close> share: \<open>s\<close> is what
  is left of the string.
\<close>

function packEscaped_loop :: "gostring \<Rightarrow> bytes \<Rightarrow> nat \<Rightarrow> (bytes \<times> nat) off_res" where
  "packEscaped_loop s msg offset =
     (case s of
        [] \<Rightarrow> Ok (msg, offset)
      | c # r \<Rightarrow>
          if length msg \<le> offset then Err (offset, ErrBuf)
          else if c = BSL then
            (case r of
               [] \<Rightarrow> Ok (msg, offset)
             | x # r' \<Rightarrow>
                 if isDDD r
                 then packEscaped_loop (drop 3 r) (msg[offset := dddToByte r]) (offset + 1)
                 else packEscaped_loop r' (msg[offset := x]) (offset + 1))
          else packEscaped_loop r (msg[offset := c]) (offset + 1))"
  by pat_completeness auto
termination
  by (relation "measure (\<lambda>(s, msg, offset). length s)") auto

declare packEscaped_loop.simps [simp del]

definition packTxtString :: "gostring \<Rightarrow> bytes \<Rightarrow> nat \<Rightarrow> (bytes \<times> nat) off_res" where
  "packTxtString s msg offset =
     (if offset \<ge> length msg \<or> length s > 256 * 4 + 1 then Err (offset, ErrBuf)
      else
        bindR (packEscaped_loop s msg (offset + 1)) (\<lambda>(msg, offset').
          let l = offset' - offset - 1 in
          if l > 255 then Err (offset', ErrMsg ''string exceeded 255 bytes in txt'')
          else bindR (set_at msg offset (of_nat l)) (\<lambda>msg. Ok (msg, offset'))))"

definition packOctetString :: "gostring \<Rightarrow> bytes \<Rightarrow> nat \<Rightarrow> (bytes \<times> nat) off_res" where
  "packOctetString s msg offset =
     (if offset \<ge> length msg \<or> length s > 256 * 4 + 1 then Err (offset, ErrBuf)
      else packEscaped_loop s msg offset)"

fun packTxt_loop :: "gostring list \<Rightarrow> bytes \<Rightarrow> nat \<Rightarrow> (bytes \<times> nat) off_res" where
  "packTxt_loop [] msg offset = Ok (msg, offset)"
| "packTxt_loop (s # ss) msg offset =
     bindR (packTxtString s msg offset) (\<lambda>(msg, offset). packTxt_loop ss msg offset)"

definition packTxt :: "gostring list \<Rightarrow> bytes \<Rightarrow> nat \<Rightarrow> (bytes \<times> nat) off_res" where
  "packTxt txt msg offset =
     (if length txt = 0 then
        if offset \<ge> length msg then Err (offset, ErrBuf)
        else bindR (set_at msg offset 0) (\<lambda>msg. Ok (msg, offset))
      else packTxt_loop txt msg offset)"

lemma unpackString_progress: "unpackString msg off = Ok (s, off') \<Longrightarrow> off < off' \<and> off' \<le> length msg"
  by (auto simp: unpackString_def Let_def bindR_eq_Ok split: if_splits prod.splits)

function unpackTxt_loop :: "bytes \<Rightarrow> nat \<Rightarrow> gostring list \<Rightarrow> (gostring list \<times> nat) off_res" where
  "unpackTxt_loop msg off ss =
     (if off < length msg
      then bindR (unpackString msg off) (\<lambda>(s, off). unpackTxt_loop msg off (ss @ [s]))
      else Ok (ss, off))"
  by pat_completeness auto
termination
  by (relation "measure (\<lambda>(msg, off, ss). length msg - off)")
    (auto dest!: unpackString_progress)

declare unpackTxt_loop.simps [simp del]

definition unpackTxt :: "bytes \<Rightarrow> nat \<Rightarrow> (gostring list \<times> nat) off_res" where
  "unpackTxt msg off = unpackTxt_loop msg off []"

definition packString :: "gostring \<Rightarrow> bytes \<Rightarrow> nat \<Rightarrow> (bytes \<times> nat) off_res" where
  "packString s msg off = mapErr (fail_at (length msg)) (packTxtString s msg off)"

definition unpackStringTxt :: "bytes \<Rightarrow> nat \<Rightarrow> (gostring list \<times> nat) off_res" where
  "unpackStringTxt msg off = mapErr (fail_at (length msg)) (unpackTxt msg off)"

definition packStringTxt :: "gostring list \<Rightarrow> bytes \<Rightarrow> nat \<Rightarrow> (bytes \<times> nat) off_res" where
  "packStringTxt s msg off = mapErr (fail_at (length msg)) (packTxt s msg off)"

definition unpackStringOctet :: "bytes \<Rightarrow> nat \<Rightarrow> (gostring \<times> nat) off_res" where
  "unpackStringOctet msg off = bindR (go_slice_from msg off) (\<lambda>s. Ok (s, length msg))"

definition packStringOctet :: "gostring \<Rightarrow> bytes \<Rightarrow> nat \<Rightarrow> (bytes \<times> nat) off_res" where
  "packStringOctet s msg off = mapErr (fail_at (length msg)) (packOctetString s msg off)"

definition unpackStringAny :: "bytes \<Rightarrow> nat \<Rightarrow> nat \<Rightarrow> (gostring \<times> nat) off_res" where
  "unpackStringAny msg off end =
     (if end > length msg then Err (length msg, ErrMsg ''overflow unpacking anything'')
      else bindR (go_slice msg off end) (\<lambda>s. Ok (s, end)))"

definition packStringAny :: "gostring \<Rightarrow> bytes \<Rightarrow> nat \<Rightarrow> (bytes \<times> nat) off_res" where
  "packStringAny s msg off =
     (if off + length s > length msg then Err (length msg, ErrMsg ''overflow packing anything'')
      else bindR (write_at msg off s) (\<lambda>msg. Ok (msg, off + length s)))"

subsection \<open>The interfaces\<close>

text \<open>
  \<open>agree M msg n\<close>: two messages are the same up to \<open>n\<close>. What is packed later, and
  the truncation of the message to the end of the record, keep this.
\<close>

definition agree :: "bytes \<Rightarrow> bytes \<Rightarrow> nat \<Rightarrow> bool" where
  "agree M msg n \<longleftrightarrow> n \<le> length M \<and> n \<le> length msg \<and> take n M = take n msg"

definition extends :: "bytes \<Rightarrow> nat \<Rightarrow> bytes \<Rightarrow> nat \<Rightarrow> bool" where
  "extends msg off msg' off' \<longleftrightarrow>
     length msg' = length msg \<and> off \<le> off' \<and> off' \<le> length msg' \<and> take off msg' = take off msg"

lemma extends_refl: "off \<le> length msg \<Longrightarrow> extends msg off msg off"
  by (simp add: extends_def)

lemma extends_trans:
  assumes "extends m0 o0 m1 o1" and "extends m1 o1 m2 o2"
  shows "extends m0 o0 m2 o2"
proof -
  have "take o0 m2 = take o0 (take o1 m2)" using assms(1) by (simp add: extends_def min_def)
  also have "\<dots> = take o0 m1" using assms by (simp add: extends_def min_def)
  finally show ?thesis using assms by (simp add: extends_def)
qed

lemma agree_extends:
  assumes "agree M msg' off'" and "extends msg off msg' off'"
  shows "agree M msg off"
proof -
  have "take off M = take off (take off' M)" using assms(2) by (simp add: extends_def min_def)
  also have "\<dots> = take off msg" using assms by (simp add: agree_def extends_def min_def)
  finally show ?thesis using assms by (simp add: agree_def extends_def)
qed

locale field_writer =
  fixes pack :: "'a \<Rightarrow> bytes \<Rightarrow> nat \<Rightarrow> (bytes \<times> nat) off_res"
    and enc :: "'a \<Rightarrow> bytes"
    and ok :: "'a \<Rightarrow> bool"
  assumes pack_Ok: "ok v \<Longrightarrow> pack v msg off = Ok r \<Longrightarrow>
                      r = (put msg off (enc v), off + length (enc v)) \<and>
                      (enc v \<noteq> [] \<longrightarrow> off + length (enc v) \<le> length msg)"
    and pack_fits: "ok v \<Longrightarrow> off + length (enc v) < length msg \<Longrightarrow> \<exists>r. pack v msg off = Ok r"
    and pack_safe: "pack v msg off \<noteq> Panic"
begin

lemma pack_result:
  assumes "ok v" and "pack v msg off = Ok (msg', off')"
  shows "msg' = put msg off (enc v)" and "off' = off + length (enc v)" and "off \<le> length msg \<Longrightarrow> off' \<le> length msg"
    and "length msg' = length msg"
  using pack_Ok [OF assms] by (cases "enc v = []"; auto)+

lemma pack_outcome:
  assumes "ok v"
  shows "case pack v msg off of
           Ok r \<Rightarrow> r = (put msg off (enc v), off + length (enc v))
         | Err _ \<Rightarrow> length msg \<le> off + length (enc v)
         | Panic \<Rightarrow> False"
  using pack_Ok [OF assms, of msg off] pack_fits [OF assms, of off msg] pack_safe [of v msg off]
  by (cases "pack v msg off") (auto simp: not_less [symmetric])

lemma pack_extends:
  assumes "ok v" and "pack v msg off = Ok (msg', off')" and "off \<le> length msg"
  shows "extends msg off msg' off'"
  using pack_result [OF assms(1,2)] assms(3) by (simp add: extends_def)

lemma agree_enc:
  assumes "ok v" and "pack v msg off = Ok (msg', off')" and "agree M msg' off'"
  shows "take (length (enc v)) (drop off M) = enc v" and "off' \<le> length M"
proof -
  note R = pack_result [OF assms(1,2)]
  have le: "off' \<le> length msg" using assms(3) R(4) by (simp add: agree_def)
  have "take off' M = take off msg @ enc v"
    using assms(3) R le take_put_end [of off "enc v" msg] by (simp add: agree_def)
  then have "drop off (take off' M) = enc v" using R le by simp
  then show "take (length (enc v)) (drop off M) = enc v" using R by (simp add: drop_take)
  show "off' \<le> length M" using assms(3) by (simp add: agree_def)
qed

end

locale rest_field = field_writer pack enc ok
  for pack :: "'a \<Rightarrow> bytes \<Rightarrow> nat \<Rightarrow> (bytes \<times> nat) off_res" and enc ok +
  fixes unpack :: "bytes \<Rightarrow> nat \<Rightarrow> nat \<Rightarrow> ('a \<times> nat) off_res"
  assumes unpack_rest: "ok v \<Longrightarrow> length M = off + length (enc v) \<Longrightarrow> drop off M = enc v \<Longrightarrow>
                          unpack M off (length M) = Ok (v, length M)"
begin

lemma reads_rest:
  assumes "ok v" and "pack v msg off = Ok (msg', off')" and "agree M msg' off'" and "length M = off'"
  shows "unpack M off off' = Ok (v, off')"
  using unpack_rest [OF assms(1), of M off] agree_enc [OF assms(1-3)] pack_result [OF assms(1,2)] assms(4)
  by simp

lemma reads_prefix:
  assumes "ok v" and "off \<le> length msg" and "off + length (enc v) < length msg"
  shows "\<exists>msg' off'. pack v msg off = Ok (msg', off') \<and> extends msg off msg' off' \<and> off' = off + length (enc v) \<and>
    unpack (take off' msg') off off' = Ok (v, off')"
proof -
  from pack_fits [OF assms(1,3)] obtain msg' off' where p: "pack v msg off = Ok (msg', off')" by (metis surj_pair)
  have ext: "extends msg off msg' off'" using pack_extends [OF assms(1) p assms(2)] .
  then have "agree (take off' msg') msg' off'" "length (take off' msg') = off'" by (simp_all add: agree_def extends_def)
  from reads_rest [OF assms(1) p this] ext p pack_result(2) [OF assms(1) p] show ?thesis by blast
qed

end

locale wire_field = field_writer pack enc ok
  for pack :: "'a \<Rightarrow> bytes \<Rightarrow> nat \<Rightarrow> (bytes \<times> nat) off_res" and enc ok +
  fixes unpack :: "bytes \<Rightarrow> nat \<Rightarrow> nat \<Rightarrow> ('a \<times> nat) off_res"
  assumes unpack_any: "ok v \<Longrightarrow> off + length (enc v) \<le> length M \<Longrightarrow>
                         take (length (enc v)) (drop off M) = enc v \<Longrightarrow>
                         unpack M off (off + length (enc v)) = Ok (v, off + length (enc v))"
begin

lemma reads_back:
  assumes "ok v" and "pack v msg off = Ok (msg', off')" and "agree M msg' off'"
  shows "unpack M off off' = Ok (v, off')"
  using unpack_any [OF assms(1), of off M] agree_enc [OF assms] pack_result [OF assms(1,2)] by simp

end

sublocale wire_field \<subseteq> rest_field
proof
  fix v M off
  assume "ok v" "length M = off + length (enc v)" "drop off M = enc v"
  then show "unpack M off (length M) = Ok (v, length M)" using unpack_any [of v off M] by simp
qed

subsection \<open>Integers and addresses are fields\<close>

interpretation u8: wire_field packUint8 "\<lambda>v. [v]" "\<lambda>_. True" "\<lambda>M off e. unpackUint8 M off"
proof
  fix v :: byte and off :: nat and M :: bytes
  assume "off + length [v] \<le> length M" "take (length [v]) (drop off M) = [v]"
  then show "unpackUint8 M off = Ok (v, off + length [v])"
    by (simp add: unpackUint8_def take_Suc_conv_app_nth)
qed (auto simp: packUint8_def not_less split: if_splits)

interpretation u16: wire_field packUint16 be16 "\<lambda>_. True" "\<lambda>M off e. unpackUint16 M off"
  by standard (auto simp: packUint16_def unpackUint16_def not_less split: if_splits)

interpretation u32: wire_field packUint32 be32 "\<lambda>_. True" "\<lambda>M off e. unpackUint32 M off"
  by standard (auto simp: packUint32_def unpackUint32_def not_less split: if_splits)

interpretation u64: wire_field packUint64 be64 "\<lambda>_. True" "\<lambda>M off e. unpackUint64 M off"
  by standard (auto simp: packUint64_def unpackUint64_def not_less split: if_splits)

text \<open>Only 48 bits of a time are kept.\<close>

interpretation u48: wire_field packUint48 be48 "\<lambda>v. take_bit 48 v = v" "\<lambda>M off e. unpackUint48 M off"
  by standard (auto simp: packUint48_def unpackUint48_def not_less split: if_splits)

lemma length_To4: "To4 a = [] \<or> length (To4 a) = 4"
  by (auto simp: To4_def)

interpretation ip4: wire_field packDataA "\<lambda>v. v" "\<lambda>v. length v = 4" "\<lambda>M off e. unpackDataA M off"
proof
  fix v msg :: bytes and off :: nat
  show "packDataA v msg off \<noteq> Panic" using length_To4 [of v] by (auto simp: packDataA_def)
qed (auto simp: packDataA_def unpackDataA_def To4_def not_less split: if_splits)

interpretation ip6: wire_field packDataAAAA "\<lambda>v. v" "\<lambda>v. length v = 16" "\<lambda>M off e. unpackDataAAAA M off"
  by standard (auto simp: packDataAAAA_def unpackDataAAAA_def not_less split: if_splits)

interpretation any: wire_field packStringAny "\<lambda>v. v" "\<lambda>_. True" unpackStringAny
  by standard (auto simp: packStringAny_def unpackStringAny_def not_less split: if_splits)

text \<open>An IPv4-mapped address is packed as its last four bytes.\<close>

lemma packDataA_mapped:
  assumes "length a = 4"
  shows "packDataA (replicate 10 0 @ [0xFF, 0xFF] @ a) msg off = packDataA a msg off"
  using assms by (simp add: packDataA_def To4_def nth_append)

subsection \<open>Strings as octets\<close>

text \<open>How a character string from the wire is written, and the octets a text stands for.\<close>

definition esc_txt_byte :: "byte \<Rightarrow> gostring" where
  "esc_txt_byte b =
     (if b = DQUOTE \<or> b = BSL then [BSL, b]
      else if b < 0x20 \<or> b > 0x7E then escapeByte b
      else [b])"

definition present_txt :: "bytes \<Rightarrow> gostring" where
  "present_txt bs = concat (map esc_txt_byte bs)"

lemma present_txt_simps [simp]:
  "present_txt [] = []" "present_txt (b # bs) = esc_txt_byte b @ present_txt bs"
  "present_txt (bs @ cs) = present_txt bs @ present_txt cs"
  by (simp_all add: present_txt_def)

function txt_octets :: "gostring \<Rightarrow> bytes" where
  "txt_octets s =
     (case s of
        [] \<Rightarrow> []
      | c # r \<Rightarrow>
          if c = BSL then
            (case r of
               [] \<Rightarrow> []
             | x # r' \<Rightarrow> if isDDD r then dddToByte r # txt_octets (drop 3 r) else x # txt_octets r')
          else c # txt_octets r)"
  by pat_completeness auto
termination
  by (relation "measure length") auto

declare txt_octets.simps [simp del]

lemma txt_octets_simps:
  "txt_octets [] = []" "txt_octets [BSL] = []"
  "isDDD r \<Longrightarrow> txt_octets (BSL # r) = dddToByte r # txt_octets (drop 3 r)"
  "\<not> isDDD (x # r) \<Longrightarrow> txt_octets (BSL # x # r) = x # txt_octets r"
  "c \<noteq> BSL \<Longrightarrow> txt_octets (c # r) = c # txt_octets r"
  by (subst txt_octets.simps; auto split: list.split)+

lemma txt_octets_esc: "txt_octets (esc_txt_byte b @ r) = b # txt_octets r"
proof -
  consider (quote) "b = DQUOTE \<or> b = BSL" | (ddd) "\<not> (b = DQUOTE \<or> b = BSL)" "b < 0x20 \<or> b > 0x7E"
    | (plain) "\<not> (b = DQUOTE \<or> b = BSL)" "\<not> (b < 0x20 \<or> b > 0x7E)" by blast
  then show ?thesis
  proof cases
    case quote
    then have "\<not> isDDD (b # r)" by (intro not_DDD) (auto simp: isDigit_def)
    with quote show ?thesis by (auto simp: esc_txt_byte_def txt_octets_simps)
  next
    case ddd
    have "txt_octets (BSL # tl (ddd_entry (unat b)) @ r) = b # txt_octets r"
      using ddd_digits [OF unat_byte_less, of b r]
      by (simp add: txt_octets_simps(3) ddd_entry_def del: isDDD.simps dddToByte.simps)
    then have "txt_octets (ddd_entry (unat b) @ r) = b # txt_octets r"
      by (subst ddd_entry_Cons) simp
    then show ?thesis
      using ddd escapeByte_eq [OF ddd(2)] by (simp add: esc_txt_byte_def)
  next
    case plain
    then show ?thesis by (simp add: esc_txt_byte_def txt_octets_simps)
  qed
qed

lemma txt_octets_present [simp]: "txt_octets (present_txt bs) = bs"
  by (induction bs) (simp_all add: txt_octets_simps txt_octets_esc)

lemma length_esc_txt_byte: "length (esc_txt_byte b) \<le> 4"
  using escapeByte_eq [of b] by (auto simp: esc_txt_byte_def ddd_entry_def)

lemma length_present_txt: "length (present_txt bs) \<le> 4 * length bs"
proof (induction bs)
  case (Cons b bs)
  then show ?case using length_esc_txt_byte [of b] by simp
qed simp

lemma unpackString_loop_present:
  assumes "unpackString_loop (pre @ suf) suf (length pre) consumed s = (s', c')" and "consumed \<le> length pre"
  shows "s' @ drop c' (pre @ suf) = s @ drop consumed pre @ present_txt suf"
    and "c' = 0 \<Longrightarrow> s' = s"
proof -
  have "s' @ drop c' (pre @ suf) = s @ drop consumed pre @ present_txt suf \<and> consumed \<le> c' \<and> (c' = consumed \<longrightarrow> s' = s)"
    using assms
  proof (induction suf arbitrary: pre consumed s)
    case Nil
    then show ?case by simp
  next
    case (Cons b suf)
    show ?case
    proof (cases "b = DQUOTE \<or> b = BSL \<or> b < 0x20 \<or> b > 0x7E")
      case True
      then have "unpackString_loop ((pre @ [b]) @ suf) suf (length (pre @ [b])) (length (pre @ [b]))
          (s @ drop consumed pre @ esc_txt_byte b) = (s', c')"
        using Cons.prems by (auto simp: esc_txt_byte_def)
      from Cons.IH [OF this] show ?thesis using Cons.prems(2) by auto
    next
      case False
      then have "unpackString_loop ((pre @ [b]) @ suf) suf (length (pre @ [b])) consumed s = (s', c')"
        "esc_txt_byte b = [b]"
        using Cons.prems by (auto simp: esc_txt_byte_def)
      from Cons.IH [OF this(1)] this(2) show ?thesis using Cons.prems(2) by auto
    qed
  qed
  then show "s' @ drop c' (pre @ suf) = s @ drop consumed pre @ present_txt suf"
    and "c' = 0 \<Longrightarrow> s' = s" by auto
qed

lemma unpackString_eq:
  "unpackString msg off =
     (if off < length msg \<and> off + 1 + unat (msg ! off) \<le> length msg
      then Ok (present_txt (take (unat (msg ! off)) (drop (off + 1) msg)), off + 1 + unat (msg ! off))
      else Err (if off < length msg then off + 1 else off, ErrMsg ''overflow unpacking txt''))"
proof -
  have "(let (s, consumed) = unpackString_loop m m 0 0 [] in
              if consumed = 0 then Ok (m, n)
              else Ok (s @ drop consumed m, n)) = (Ok (present_txt m, n) :: (gostring \<times> nat) off_res)" for m n
  proof -
    obtain s c where l: "unpackString_loop m m 0 0 [] = (s, c)" by fastforce
    from unpackString_loop_present [of "[]" m 0 "[]" s c] l have "s @ drop c m = present_txt m" "c = 0 \<Longrightarrow> s = []"
      by auto
    then show ?thesis by (auto simp: l)
  qed
  then show ?thesis by (auto simp: unpackString_def Let_def)
qed

text \<open>The packing loop writes the octets; a dangling backslash needs room but writes nothing.\<close>

lemma packEscaped_loop_simps:
  "packEscaped_loop [] msg offset = Ok (msg, offset)"
  "length msg \<le> offset \<Longrightarrow> packEscaped_loop (c # r) msg offset = Err (offset, ErrBuf)"
  "offset < length msg \<Longrightarrow> packEscaped_loop [BSL] msg offset = Ok (msg, offset)"
  "offset < length msg \<Longrightarrow> isDDD r \<Longrightarrow>
     packEscaped_loop (BSL # r) msg offset = packEscaped_loop (drop 3 r) (msg[offset := dddToByte r]) (offset + 1)"
  "offset < length msg \<Longrightarrow> \<not> isDDD (x # r) \<Longrightarrow>
     packEscaped_loop (BSL # x # r) msg offset = packEscaped_loop r (msg[offset := x]) (offset + 1)"
  "offset < length msg \<Longrightarrow> c \<noteq> BSL \<Longrightarrow>
     packEscaped_loop (c # r) msg offset = packEscaped_loop r (msg[offset := c]) (offset + 1)"
  by (subst packEscaped_loop.simps; auto split: list.split)+

lemma put_Cons: "offset < length msg \<Longrightarrow> put (msg[offset := b]) (Suc offset) bs = put msg offset (b # bs)"
  using put_put [of offset "[b]" msg bs] by (simp add: put_Cons_update)

lemma packEscaped_loop_octets:
  shows "packEscaped_loop s msg offset = Ok r \<Longrightarrow> r = (put msg offset (txt_octets s), offset + length (txt_octets s)) \<and>
           (offset \<le> length msg \<longrightarrow> offset + length (txt_octets s) \<le> length msg)"
    and "offset + length (txt_octets s) < length msg \<Longrightarrow> \<exists>r. packEscaped_loop s msg offset = Ok r"
    and "packEscaped_loop s msg offset \<noteq> Panic"
proof -
  have "(packEscaped_loop s msg offset = Ok r \<longrightarrow> r = (put msg offset (txt_octets s), offset + length (txt_octets s)) \<and>
           (offset \<le> length msg \<longrightarrow> offset + length (txt_octets s) \<le> length msg)) \<and>
        (offset + length (txt_octets s) < length msg \<longrightarrow> (\<exists>r. packEscaped_loop s msg offset = Ok r)) \<and>
        packEscaped_loop s msg offset \<noteq> Panic"
  proof (induction s msg offset rule: packEscaped_loop.induct)
    case (1 s msg offset)
    consider (nil) "s = []" | (full) c t where "s = c # t" "length msg \<le> offset"
      | (dangling) "s = [BSL]" "offset < length msg" | (ddd) t where "s = BSL # t" "isDDD t" "offset < length msg"
      | (char) x t where "s = BSL # x # t" "\<not> isDDD (x # t)" "offset < length msg"
      | (plain) c t where "s = c # t" "c \<noteq> BSL" "offset < length msg"
      by (metis list.exhaust not_less)
    then show ?case
    proof cases
      case ddd
      obtain x t' where t: "t = x # t'" using ddd(2) by (cases t) auto
      show ?thesis
        using 1(1) [OF ddd(1) _ refl t] ddd t
        by (auto simp: packEscaped_loop_simps txt_octets_simps put_Cons)
    next
      case char
      then show ?thesis using 1(2) [OF char(1)]
        by (auto simp: packEscaped_loop_simps txt_octets_simps put_Cons)
    next
      case plain
      then show ?thesis using 1(3) [OF plain(1)]
        by (auto simp: packEscaped_loop_simps txt_octets_simps put_Cons)
    qed (auto simp: packEscaped_loop_simps txt_octets_simps)
  qed
  then show "packEscaped_loop s msg offset = Ok r \<Longrightarrow> r = (put msg offset (txt_octets s), offset + length (txt_octets s)) \<and>
           (offset \<le> length msg \<longrightarrow> offset + length (txt_octets s) \<le> length msg)"
    and "offset + length (txt_octets s) < length msg \<Longrightarrow> \<exists>r. packEscaped_loop s msg offset = Ok r"
    and "packEscaped_loop s msg offset \<noteq> Panic" by blast+
qed


definition enc_string :: "gostring \<Rightarrow> bytes" where
  "enc_string s = of_nat (length (txt_octets s)) # txt_octets s"

text \<open>The strings the unpacker writes: at most 255 octets, escaped.\<close>

definition ok_string :: "gostring \<Rightarrow> bool" where
  "ok_string s \<longleftrightarrow> length (txt_octets s) \<le> 255 \<and> s = present_txt (txt_octets s)"

lemma ok_string_present: "length bs \<le> 255 \<Longrightarrow> ok_string (present_txt bs)"
  by (simp add: ok_string_def)

lemma ok_string_length: "ok_string s \<Longrightarrow> length s \<le> 1025"
  using length_present_txt [of "txt_octets s"] by (simp add: ok_string_def)

text \<open>What packing any string does, canonical or not.\<close>

lemma packTxtString_result:
  assumes "packTxtString s msg off = Ok r"
  shows "r = (put msg off (enc_string s), off + length (enc_string s)) \<and> off + length (enc_string s) \<le> length msg \<and>
         length (txt_octets s) \<le> 255"
proof -
  let ?bs = "txt_octets s"
  from assms obtain m o' where l: "packEscaped_loop s msg (off + 1) = Ok (m, o')" "off < length msg"
    and r: "r = (m[off := of_nat (o' - off - 1)], o')" "o' - off - 1 \<le> 255" "off < length m"
    by (auto simp: packTxtString_def Let_def bindR_eq_Ok set_at_def split: if_splits)
  from packEscaped_loop_octets(1) [OF l(1)] l(2)
  have m: "m = put msg (off + 1) ?bs" "o' = off + 1 + length ?bs" "off + 1 + length ?bs \<le> length msg" by auto
  have "m[off := of_nat (length ?bs)] = put msg off (of_nat (length ?bs) # ?bs)"
    using l(2) m(3) unfolding m(1) put_def by (simp add: list_update_append take_Suc_conv_app_nth)
  with r m show ?thesis by (simp add: enc_string_def)
qed

lemma packTxtString_fits:
  assumes "length s \<le> 1025" and "length (txt_octets s) \<le> 255" and "off + length (enc_string s) < length msg"
  shows "\<exists>r. packTxtString s msg off = Ok r"
proof -
  from packEscaped_loop_octets(2) [of "off + 1" s msg] assms(3)
  obtain m o' where l: "packEscaped_loop s msg (off + 1) = Ok (m, o')" by (auto simp: enc_string_def)
  from packEscaped_loop_octets(1) [OF l] assms(3)
  have "o' = off + 1 + length (txt_octets s)" "length m = length msg" by (auto simp: enc_string_def)
  with l assms show ?thesis by (auto simp: packTxtString_def set_at_def enc_string_def Let_def)
qed

lemma packTxtString_safe: "packTxtString s msg off \<noteq> Panic"
proof -
  have "length m = length msg" if "packEscaped_loop s msg (off + 1) = Ok (m, o')" "off < length msg" for m o'
    using packEscaped_loop_octets(1) [OF that(1)] that(2) by auto
  then show ?thesis using packEscaped_loop_octets(3) [of s msg "off + 1"]
    by (auto simp: packTxtString_def Let_def bindR_eq_Panic set_at_def split: if_splits)
qed

interpretation string: wire_field packString enc_string ok_string "\<lambda>M off e. unpackString M off"
proof
  fix v msg :: bytes and off :: nat and r
  assume v: "ok_string v"
  show "packString v msg off = Ok r \<Longrightarrow>
      r = (put msg off (enc_string v), off + length (enc_string v)) \<and>
      (enc_string v \<noteq> [] \<longrightarrow> off + length (enc_string v) \<le> length msg)"
    using packTxtString_result by (auto simp: packString_def)
  show "off + length (enc_string v) < length msg \<Longrightarrow> \<exists>r. packString v msg off = Ok r"
    using packTxtString_fits [of v off msg] v ok_string_length [OF v] by (auto simp: packString_def ok_string_def)
next
  fix v msg :: bytes and off :: nat
  show "packString v msg off \<noteq> Panic" using packTxtString_safe by (simp add: packString_def)
next
  fix v M :: bytes and off :: nat
  assume v: "ok_string v" and fit: "off + length (enc_string v) \<le> length M"
    and enc: "take (length (enc_string v)) (drop off M) = enc_string v"
  have "drop off M = M ! off # drop (Suc off) M" using fit by (simp add: enc_string_def Cons_nth_drop_Suc)
  with enc have *: "M ! off = of_nat (length (txt_octets v))" "take (length (txt_octets v)) (drop (Suc off) M) = txt_octets v"
    by (auto simp: enc_string_def)
  with v have "unat (M ! off) = length (txt_octets v)" by (simp add: ok_string_def unat_of_nat)
  with * v fit show "unpackString M off = Ok (v, off + length (enc_string v))"
    by (simp add: unpackString_eq enc_string_def ok_string_def)
qed

lemma unpackString_safe [unpack_safe]:
  "safe (unpackString msg off) (\<lambda>(s, off'). off \<le> off' \<and> off' \<le> length msg)"
  by (simp add: unpackString_eq)


subsection \<open>Lists of strings and octets at the end of a record\<close>

definition enc_txt :: "gostring list \<Rightarrow> bytes" where
  "enc_txt ss = concat (map enc_string ss)"

lemma enc_txt_simps [simp]: "enc_txt [] = []" "enc_txt (s # ss) = enc_string s @ enc_txt ss"
  by (simp_all add: enc_txt_def)

lemma packTxt_loop_result:
  assumes "packTxt_loop ss msg off = Ok r" and "off \<le> length msg"
  shows "r = (put msg off (enc_txt ss), off + length (enc_txt ss)) \<and> off + length (enc_txt ss) \<le> length msg"
  using assms
proof (induction ss arbitrary: msg off)
  case (Cons s ss)
  from Cons.prems(1) obtain m o' where p: "packTxtString s msg off = Ok (m, o')" "packTxt_loop ss m o' = Ok r"
    by (auto simp: bindR_eq_Ok)
  note R = packTxtString_result [OF p(1)]
  with Cons.IH [OF p(2)] have "r = (put m o' (enc_txt ss), o' + length (enc_txt ss))" "o' + length (enc_txt ss) \<le> length msg"
    by auto
  with R put_put [of off "enc_string s" msg "enc_txt ss"] show ?case by auto
qed simp

lemma packTxt_loop_fits:
  assumes "list_all ok_string ss" and "off + length (enc_txt ss) < length msg"
  shows "\<exists>r. packTxt_loop ss msg off = Ok r"
  using assms
proof (induction ss arbitrary: msg off)
  case (Cons s ss)
  have s: "ok_string s" using Cons.prems by simp
  have "\<exists>r. packTxtString s msg off = Ok r"
    using Cons.prems s ok_string_length [OF s] by (intro packTxtString_fits) (auto simp: ok_string_def)
  then obtain r where r: "packTxtString s msg off = Ok r" by blast
  from packTxtString_result [OF r] Cons show ?case by (auto simp: r)
qed simp

lemma packTxt_loop_safe: "packTxt_loop ss msg off \<noteq> Panic"
  by (induction ss arbitrary: msg off) (auto simp: bindR_eq_Panic packTxtString_safe)

lemma unpackTxt_loop_enc:
  assumes "list_all ok_string ss" and "length M = off + length (enc_txt ss)" and "drop off M = enc_txt ss"
  shows "unpackTxt_loop M off acc = Ok (acc @ ss, length M)"
  using assms
proof (induction ss arbitrary: off acc)
  case Nil
  then show ?case by (simp add: unpackTxt_loop.simps)
next
  case (Cons s ss)
  have "unpackString M off = Ok (s, off + length (enc_string s))"
    using Cons.prems by (intro string.unpack_any) auto
  moreover have "drop (off + length (enc_string s)) M = enc_txt ss"
    using Cons.prems(3) by (metis append_eq_conv_conj drop_drop enc_txt_simps(2) add.commute)
  ultimately show ?case using Cons.IH [of "off + length (enc_string s)" "acc @ [s]"] Cons.prems
    by (subst unpackTxt_loop.simps) (simp add: enc_string_def)
qed

definition ok_txt :: "gostring list \<Rightarrow> bool" where
  "ok_txt ss \<longleftrightarrow> ss \<noteq> [] \<and> list_all ok_string ss"

lemma packTxtString_off: "packTxtString s msg off = Ok r \<Longrightarrow> off < length msg"
  by (simp add: packTxtString_def split: if_splits)

interpretation txts: rest_field packStringTxt enc_txt ok_txt "\<lambda>M off e. unpackStringTxt M off"
proof
  fix v :: "gostring list" and msg :: bytes and off :: nat and r
  assume v: "ok_txt v"
  show "packStringTxt v msg off = Ok r \<Longrightarrow>
      r = (put msg off (enc_txt v), off + length (enc_txt v)) \<and> (enc_txt v \<noteq> [] \<longrightarrow> off + length (enc_txt v) \<le> length msg)"
  proof -
    assume "packStringTxt v msg off = Ok r"
    with v have p: "packTxt_loop v msg off = Ok r" by (simp add: packStringTxt_def packTxt_def ok_txt_def)
    then have "off \<le> length msg" using v by (cases v) (auto simp: bindR_eq_Ok ok_txt_def dest!: packTxtString_off)
    with packTxt_loop_result [OF p] show ?thesis by simp
  qed
  show "off + length (enc_txt v) < length msg \<Longrightarrow> \<exists>r. packStringTxt v msg off = Ok r"
    using packTxt_loop_fits [of v off msg] v by (auto simp: packStringTxt_def packTxt_def ok_txt_def)
next
  fix v :: "gostring list" and msg :: bytes and off :: nat
  show "packStringTxt v msg off \<noteq> Panic"
    using packTxt_loop_safe by (auto simp: packStringTxt_def packTxt_def set_at_def)
next
  fix v :: "gostring list" and M :: bytes and off :: nat
  assume "ok_txt v" "length M = off + length (enc_txt v)" "drop off M = enc_txt v"
  then show "unpackStringTxt M off = Ok (v, length M)"
    using unpackTxt_loop_enc [of v M off "[]"] by (simp add: unpackStringTxt_def unpackTxt_def ok_txt_def)
qed

lemma unpackTxt_loop_safe: "off \<le> length msg \<Longrightarrow> safe (unpackTxt_loop msg off ss) (\<lambda>(s, off'). off \<le> off' \<and> off' \<le> length msg)"
proof (induction msg off ss rule: unpackTxt_loop.induct)
  case (1 msg off ss)
  show ?case
  proof (cases "off < length msg")
    case True
    then show ?thesis
    proof (cases "unpackString msg off")
      case (Ok r)
      obtain s o' where r: "r = (s, o')" by fastforce
      with Ok have "off < o'" "o' \<le> length msg" using unpackString_progress by auto
      then show ?thesis using 1(1) [OF True Ok r [symmetric]] True Ok r
        by (subst unpackTxt_loop.simps) (auto intro: safe_mono)
    qed (use unpackString_safe [of msg off] in \<open>auto simp: unpackTxt_loop.simps\<close>)
  next
    case False
    then show ?thesis using 1 by (simp add: unpackTxt_loop.simps)
  qed
qed

lemma unpackStringTxt_safe [unpack_safe]:
  "off \<le> length msg \<Longrightarrow> safe (unpackStringTxt msg off) (\<lambda>(s, off'). off \<le> off' \<and> off' \<le> length msg)"
  using unpackTxt_loop_safe by (simp add: unpackStringTxt_def unpackTxt_def)

definition ok_octet :: "gostring \<Rightarrow> bool" where
  "ok_octet s \<longleftrightarrow> BSL \<notin> set s \<and> length s \<le> 1025"

lemma txt_octets_plain: "BSL \<notin> set s \<Longrightarrow> txt_octets s = s"
  by (induction s) (auto simp: txt_octets_simps)

interpretation octet: rest_field packStringOctet "\<lambda>v. v" ok_octet "\<lambda>M off e. unpackStringOctet M off"
proof
  fix v msg :: bytes and off :: nat and r
  assume v: "ok_octet v"
  then have t: "txt_octets v = v" by (simp add: ok_octet_def txt_octets_plain)
  show "packStringOctet v msg off = Ok r \<Longrightarrow> r = (put msg off v, off + length v) \<and> (v \<noteq> [] \<longrightarrow> off + length v \<le> length msg)"
    using packEscaped_loop_octets(1) [of v msg off r]
    by (auto simp: packStringOctet_def packOctetString_def t split: if_splits)
  show "off + length v < length msg \<Longrightarrow> \<exists>r. packStringOctet v msg off = Ok r"
    using packEscaped_loop_octets(2) [of off v msg] v
    by (auto simp: packStringOctet_def packOctetString_def t ok_octet_def)
next
  fix v msg :: bytes and off :: nat
  show "packStringOctet v msg off \<noteq> Panic"
    using packEscaped_loop_octets(3) by (auto simp: packStringOctet_def packOctetString_def)
next
  fix v M :: bytes and off :: nat
  assume "ok_octet v" "length M = off + length v" "drop off M = v"
  then show "unpackStringOctet M off = Ok (v, length M)" by (simp add: unpackStringOctet_def)
qed

lemma fixed_unpack_safe [unpack_safe]:
  "safe (unpackUint8 msg off) (\<lambda>(v, off'). off \<le> off' \<and> off' \<le> length msg)"
  "safe (unpackUint16 msg off) (\<lambda>(v, off'). off \<le> off' \<and> off' \<le> length msg)"
  "safe (unpackUint32 msg off) (\<lambda>(v, off'). off \<le> off' \<and> off' \<le> length msg)"
  "safe (unpackUint48 msg off) (\<lambda>(v, off'). off \<le> off' \<and> off' \<le> length msg)"
  "safe (unpackUint64 msg off) (\<lambda>(v, off'). off \<le> off' \<and> off' \<le> length msg)"
  "safe (unpackDataA msg off) (\<lambda>(v, off'). off \<le> off' \<and> off' \<le> length msg)"
  "safe (unpackDataAAAA msg off) (\<lambda>(v, off'). off \<le> off' \<and> off' \<le> length msg)"
  by (auto simp: unpackUint8_def unpackUint16_def unpackUint32_def unpackUint48_def unpackUint64_def
      unpackDataA_def unpackDataAAAA_def not_less intro!: safe_if)

lemma rest_unpack_safe [unpack_safe]:
  "off \<le> length msg \<Longrightarrow> safe (unpackStringOctet msg off) (\<lambda>(v, off'). off \<le> off' \<and> off' \<le> length msg)"
  "off \<le> end \<Longrightarrow> safe (unpackStringAny msg off end) (\<lambda>(v, off'). off \<le> off' \<and> off' \<le> length msg)"
  by (auto simp: unpackStringOctet_def unpackStringAny_def not_less intro!: safe_if)

text \<open>
  Character strings of up to 255 octets of any value, in the form the unpacker writes them, pack
  and read back; packing them takes exactly their octets and one for the length of each.
\<close>

lemma strings_read_back:
  assumes "list_all (\<lambda>b. length b \<le> 255) bss" and "bss \<noteq> []" and "off \<le> length msg"
    and "off + sum_list (map (\<lambda>b. length b + 1) bss) < length msg"
  shows "\<exists>msg' off'. packStringTxt (map present_txt bss) msg off = Ok (msg', off') \<and> extends msg off msg' off' \<and>
    off' = off + sum_list (map (\<lambda>b. length b + 1) bss) \<and> unpackStringTxt (take off' msg') off = Ok (map present_txt bss, off')"
proof -
  have "ok_txt (map present_txt bss)"
    using assms(1,2) by (simp add: ok_txt_def list.pred_map comp_def list_all_iff ok_string_present)
  moreover have "length (enc_txt (map present_txt bss)) = sum_list (map (\<lambda>b. length b + 1) bss)"
    by (induction bss) (auto simp: enc_string_def)
  ultimately show ?thesis using txts.reads_prefix [of "map present_txt bss", OF _ assms(3)] assms(4) by simp
qed

end
