(* ===== verification/Type_Bitmap.thy ===== *)
theory Type_Bitmap
  imports Wire_Fields
begin

section \<open>The type bitmaps of NSEC records\<close>

text \<open>
  \<^verbatim>\<open>packDataNsec\<close>, \<^verbatim>\<open>unpackDataNsec\<close> and \<^verbatim>\<open>typeBitMapLen\<close> of
  \<^verbatim>\<open>msg_helpers.go\<close>. Windows and lengths are at most 255 and 32 and are modelled as natural
  numbers; none of the \<^verbatim>\<open>uint16\<close> operations on them wraps.
\<close>

definition bitmap_window :: "u16 \<Rightarrow> nat" where
  "bitmap_window t = unat t div 256"

definition bitmap_length :: "u16 \<Rightarrow> nat" where
  "bitmap_length t = (unat t - bitmap_window t * 256) div 8 + 1"

fun typeBitMapLen_loop :: "u16 list \<Rightarrow> nat \<Rightarrow> nat \<Rightarrow> nat \<Rightarrow> nat" where
  "typeBitMapLen_loop [] l lastwindow lastlength = l + (lastlength + 2)"
| "typeBitMapLen_loop (t # ts) l lastwindow lastlength =
     (let window = bitmap_window t; len = bitmap_length t;
          (l, lastlength) = (if window > lastwindow \<and> lastlength \<noteq> 0
                             then (l + (lastlength + 2), 0) else (l, lastlength)) in
      if window < lastwindow \<or> len < lastlength then typeBitMapLen_loop ts l lastwindow lastlength
      else typeBitMapLen_loop ts l window len)"

definition typeBitMapLen :: "u16 list \<Rightarrow> nat" where
  "typeBitMapLen bitmap = typeBitMapLen_loop bitmap 0 0 0"

fun packDataNsec_loop :: "u16 list \<Rightarrow> bytes \<Rightarrow> nat \<Rightarrow> nat \<Rightarrow> nat \<Rightarrow> (bytes \<times> nat) off_res" where
  "packDataNsec_loop [] msg off lastwindow lastlength = Ok (msg, off + (lastlength + 2))"
| "packDataNsec_loop (t # ts) msg off lastwindow lastlength =
     (let window = bitmap_window t; len = bitmap_length t;
          (off, lastlength) = (if window > lastwindow \<and> lastlength \<noteq> 0
                               then (off + (lastlength + 2), 0) else (off, lastlength)) in
      if window < lastwindow \<or> len < lastlength
      then Err (length msg, ErrMsg ''nsec bits out of order'')
      else if off + 2 + len > length msg then Err (length msg, ErrMsg ''overflow packing nsec'')
      else
        bindR (set_at msg off (of_nat window)) (\<lambda>msg.
        bindR (set_at msg (off + 1) (of_nat len)) (\<lambda>msg.
        bindR (index_at msg (off + 1 + len)) (\<lambda>b.
        bindR (set_at msg (off + 1 + len) (b OR push_bit (7 - unat t mod 8) 1)) (\<lambda>msg.
          packDataNsec_loop ts msg off window len)))))"

definition packDataNsec :: "u16 list \<Rightarrow> bytes \<Rightarrow> nat \<Rightarrow> (bytes \<times> nat) off_res" where
  "packDataNsec bitmap msg off =
     (if length bitmap = 0 then Ok (msg, off)
      else if off > length msg then Err (off, ErrMsg ''overflow packing nsec'')
      else
        let toZero = min (typeBitMapLen bitmap) (length msg - off);
            msg = put msg off (replicate toZero 0) in
        packDataNsec_loop bitmap msg off 0 0)"

text \<open>The eight tests on one byte of a window, in order.\<close>

definition nsec_byte_types :: "nat \<Rightarrow> nat \<Rightarrow> byte \<Rightarrow> u16 list" where
  "nsec_byte_types window j b =
     (if b AND 0x80 = 0x80 then [of_nat (window * 256 + j * 8 + 0)] else []) @
     (if b AND 0x40 = 0x40 then [of_nat (window * 256 + j * 8 + 1)] else []) @
     (if b AND 0x20 = 0x20 then [of_nat (window * 256 + j * 8 + 2)] else []) @
     (if b AND 0x10 = 0x10 then [of_nat (window * 256 + j * 8 + 3)] else []) @
     (if b AND 0x8 = 0x8 then [of_nat (window * 256 + j * 8 + 4)] else []) @
     (if b AND 0x4 = 0x4 then [of_nat (window * 256 + j * 8 + 5)] else []) @
     (if b AND 0x2 = 0x2 then [of_nat (window * 256 + j * 8 + 6)] else []) @
     (if b AND 0x1 = 0x1 then [of_nat (window * 256 + j * 8 + 7)] else [])"

fun nsec_window_types :: "nat \<Rightarrow> nat \<Rightarrow> bytes \<Rightarrow> u16 list" where
  "nsec_window_types window j [] = []"
| "nsec_window_types window j (b # bs) =
     nsec_byte_types window j b @ nsec_window_types window (j + 1) bs"

text \<open>\<open>lastwindow\<close> starts at \<open>-1\<close>.\<close>

function unpackDataNsec_loop :: "bytes \<Rightarrow> nat \<Rightarrow> u16 list \<Rightarrow> int \<Rightarrow> (u16 list \<times> nat) off_res" where
  "unpackDataNsec_loop msg off nsec lastwindow =
     (if off < length msg then
        if off + 2 > length msg then Err (length msg, ErrMsg ''overflow unpacking NSEC(3)'')
        else
          let window = unat (msg ! off); len = unat (msg ! (off + 1)); off = off + 2 in
          if int window \<le> lastwindow
          then Err (length msg, ErrMsg ''out of order NSEC(3) block in type bitmap'')
          else if len = 0 then Err (length msg, ErrMsg ''empty NSEC(3) block in type bitmap'')
          else if len > 32 then Err (length msg, ErrMsg ''NSEC(3) block too long in type bitmap'')
          else if off + len > length msg
          then Err (length msg, ErrMsg ''overflowing NSEC(3) block in type bitmap'')
          else
            unpackDataNsec_loop msg (off + len)
              (nsec @ nsec_window_types window 0 (take len (drop off msg))) (int window)
      else Ok (nsec, off))"
  by pat_completeness auto
termination
  by (relation "measure (\<lambda>(msg, off, nsec, lastwindow). length msg - off)") auto

declare unpackDataNsec_loop.simps [simp del]

definition unpackDataNsec :: "bytes \<Rightarrow> nat \<Rightarrow> (u16 list \<times> nat) off_res" where
  "unpackDataNsec msg off = unpackDataNsec_loop msg off [] (-1)"

lemma unpackDataNsec_loop_safe:
  "off \<le> length msg \<Longrightarrow>
   safe (unpackDataNsec_loop msg off nsec lw) (\<lambda>(v, off'). off \<le> off' \<and> off' \<le> length msg)"
proof (induction msg off nsec lw rule: unpackDataNsec_loop.induct)
  case (1 msg off nsec lw)
  show ?case
    apply (subst unpackDataNsec_loop.simps)
    using 1 by (fastforce simp: Let_def elim: safe_mono)
qed

lemma unpackDataNsec_safe [unpack_safe]:
  "off \<le> length msg \<Longrightarrow> safe (unpackDataNsec msg off) (\<lambda>(v, off'). off \<le> off' \<and> off' \<le> length msg)"
  using unpackDataNsec_loop_safe by (simp add: unpackDataNsec_def)

subsection \<open>What is packed, block by block\<close>

definition bm_block :: "nat \<Rightarrow> bytes \<Rightarrow> bytes" where
  "bm_block w blk = (if blk = [] then [] else of_nat w # of_nat (length blk) # blk)"

definition bm_add :: "u16 \<Rightarrow> bytes \<Rightarrow> bytes" where
  "bm_add t blk =
     (let k = bitmap_length t - 1; b = blk @ replicate (bitmap_length t - length blk) 0 in
      b[k := b ! k OR push_bit (7 - unat t mod 8) 1])"

fun enc_bitmap_loop :: "u16 list \<Rightarrow> nat \<Rightarrow> bytes \<Rightarrow> bytes" where
  "enc_bitmap_loop [] w blk = bm_block w blk"
| "enc_bitmap_loop (t # ts) w blk =
     (if bitmap_window t > w then bm_block w blk @ enc_bitmap_loop ts (bitmap_window t) (bm_add t [])
      else enc_bitmap_loop ts (bitmap_window t) (bm_add t blk))"

definition enc_bitmap :: "u16 list \<Rightarrow> bytes" where
  "enc_bitmap ts = enc_bitmap_loop ts 0 []"

definition ok_bitmap :: "u16 list \<Rightarrow> bool" where
  "ok_bitmap ts \<longleftrightarrow> sorted_wrt (<) ts"

definition bitpos :: "bytes \<Rightarrow> nat \<Rightarrow> bool" where
  "bitpos blk i \<longleftrightarrow> bit (blk ! (i div 8)) (7 - i mod 8)"

definition bm_inv :: "u16 list \<Rightarrow> nat \<Rightarrow> bytes \<Rightarrow> bool" where
  "bm_inv ts w blk \<longleftrightarrow>
     sorted_wrt (<) ts \<and> w < 256 \<and> length blk \<le> 32 \<and> (blk = [] \<longrightarrow> w = 0) \<and>
     (blk \<noteq> [] \<longrightarrow>
        (\<forall>t \<in> set ts. w * 256 + 8 * (length blk - 1) \<le> unat t \<and>
           (\<forall>i < 8 * length blk. bitpos blk i \<longrightarrow> w * 256 + i < unat t)))"

lemma unat_u16_less: "unat (t :: u16) < 65536"
  using unsigned_less [of t] by simp

lemma bitmap_window_less: "bitmap_window t < 256"
  using unat_u16_less [of t] by (simp add: bitmap_window_def)

lemma bitmap_length_eq: "bitmap_length t = unat t mod 256 div 8 + 1"
  by (simp add: bitmap_length_def bitmap_window_def minus_div_mult_eq_mod)

lemma bitmap_length_le: "bitmap_length t \<le> 32" "0 < bitmap_length t"
proof -
  have "unat t mod 256 < 256" by simp
  then have "unat t mod 256 div 8 < 32" by linarith
  then show "bitmap_length t \<le> 32" by (simp add: bitmap_length_eq)
  show "0 < bitmap_length t" by (simp add: bitmap_length_eq)
qed

lemma length_bm_add: "length blk \<le> bitmap_length t \<Longrightarrow> length (bm_add t blk) = bitmap_length t"
  by (simp add: bm_add_def Let_def)

lemma bit_byte_exp: "n < 8 \<Longrightarrow> bit (2 ^ n :: byte) m \<longleftrightarrow> m = n"
  by (auto simp: bit_exp_iff)

lemma bitpos_bm_add:
  assumes "length blk \<le> bitmap_length t" and "i < 8 * bitmap_length t"
  shows "bitpos (bm_add t blk) i \<longleftrightarrow> i = unat t mod 256 \<or> (i < 8 * length blk \<and> bitpos blk i)"
proof -
  define p where "p = unat t mod 256"
  have pm: "unat t mod 8 = p mod 8" by (simp add: p_def mod_mod_cancel)
  have len: "bitmap_length t = p div 8 + 1" by (simp add: p_def bitmap_length_eq)
  define b where "b = blk @ replicate (bitmap_length t - length blk) (0::byte)"
  have b: "bit (b ! (i div 8)) (7 - i mod 8) \<longleftrightarrow> i < 8 * length blk \<and> bitpos blk i"
  proof (cases "i div 8 < length blk")
    case True
    then have "i < 8 * length blk" by linarith
    with True show ?thesis by (simp add: b_def nth_append bitpos_def)
  next
    case False
    moreover have "i div 8 < bitmap_length t" using assms(2) by linarith
    ultimately have "b ! (i div 8) = 0" by (simp add: b_def nth_append)
    with False show ?thesis by auto
  qed
  have *: "bm_add t blk = b[p div 8 := b ! (p div 8) OR push_bit (7 - p mod 8) 1]"
    by (simp add: bm_add_def b_def Let_def len pm)
  have lb: "p div 8 < length b" using assms(1) len by (simp add: b_def)
  show ?thesis
  proof (cases "i div 8 = p div 8")
    case True
    have "7 - i mod 8 = 7 - p mod 8 \<longleftrightarrow> i mod 8 = p mod 8"
      using pos_mod_bound [of 8 "int i"] pos_mod_bound [of 8 "int p"] by (auto simp: zmod_int [symmetric])
    moreover have "i mod 8 = p mod 8 \<longleftrightarrow> i = p" using True by (metis div_mult_mod_eq)
    ultimately show ?thesis using True lb b
      by (auto simp add: * bitpos_def bit_or_iff bit_byte_exp p_def [symmetric])
  next
    case False
    then have "i \<noteq> p" by auto
    with False b show ?thesis by (simp add: * bitpos_def p_def [symmetric])
  qed
qed


lemma bm_inv_step:
  assumes "bm_inv (t # ts) w blk"
  shows "w \<le> bitmap_window t" and "bitmap_window t = w \<Longrightarrow> length blk \<le> bitmap_length t"
    and "bm_inv ts (bitmap_window t) (bm_add t (if bitmap_window t > w then [] else blk))"
proof -
  have t: "unat t = bitmap_window t * 256 + unat t mod 256" by (simp add: bitmap_window_def)
  have p: "unat t mod 256 < 256" by simp
  show w: "w \<le> bitmap_window t"
  proof (cases "blk = []")
    case False
    then have "w * 256 \<le> unat t" using assms by (auto simp: bm_inv_def)
    then show ?thesis by (simp add: bitmap_window_def less_eq_div_iff_mult_less_eq)
  qed (use assms in \<open>simp add: bm_inv_def\<close>)
  show le: "length blk \<le> bitmap_length t" if "bitmap_window t = w"
  proof (cases "blk = []")
    case False
    then have "w * 256 + 8 * (length blk - 1) \<le> unat t" using assms by (auto simp: bm_inv_def)
    then have "8 * (length blk - 1) \<le> unat t mod 256" using t that by simp
    then show ?thesis by (simp add: bitmap_length_eq)
  qed simp
  define b where "b = (if bitmap_window t > w then [] else blk)"
  have b: "length b \<le> bitmap_length t" using le w by (auto simp: b_def)
  have len: "length (bm_add t b) = bitmap_length t" using length_bm_add [OF b] .
  have "w * 256 + i < unat t" if "i < 8 * length b" "bitpos b i" for i
    using that assms by (auto simp: b_def bm_inv_def split: if_splits)
  then have "bitmap_window t * 256 + i \<le> unat t" if "i < 8 * bitmap_length t" "bitpos (bm_add t b) i" for i
    using that bitpos_bm_add [OF b that(1)] t w by (auto simp: b_def split: if_splits) (metis le_antisym linorder_not_less order_less_imp_le)
  moreover have "bitmap_window t * 256 + 8 * (bitmap_length t - 1) \<le> unat t"
  proof -
    have "8 * (unat t mod 256 div 8) \<le> unat t mod 256" by simp
    then show ?thesis using t by (simp add: bitmap_length_eq)
  qed
  moreover have "unat t < unat t'" if "t' \<in> set ts" for t'
    using assms that by (auto simp: bm_inv_def word_less_nat_alt)
  ultimately have "\<forall>t' \<in> set ts. bitmap_window t * 256 + 8 * (bitmap_length t - 1) \<le> unat t' \<and>
      (\<forall>i < 8 * bitmap_length t. bitpos (bm_add t b) i \<longrightarrow> bitmap_window t * 256 + i < unat t')"
    by (meson le_less_trans less_imp_le order.trans)
  moreover have "bm_add t b \<noteq> []" using len bitmap_length_le(2) [of t] by auto
  ultimately show "bm_inv ts (bitmap_window t) (bm_add t (if bitmap_window t > w then [] else blk))"
    using assms bitmap_window_less [of t] bitmap_length_le(1) [of t]
    unfolding bm_inv_def b_def [symmetric] len by simp
qed

lemma bm_add_neq_Nil: "length blk \<le> bitmap_length t \<Longrightarrow> bm_add t blk \<noteq> []"
  using length_bm_add [of blk t] bitmap_length_le(2) [of t] by auto

lemma typeBitMapLen_loop_add: "typeBitMapLen_loop ts l w n = l + typeBitMapLen_loop ts 0 w n"
proof (induction ts arbitrary: l w n)
  case (Cons t ts)
  show ?case
    by (simp add: Let_def Cons [of "Suc _"] Cons [of l] split: prod.splits)
qed simp

lemma length_enc_bitmap_loop:
  "bm_inv ts w blk \<Longrightarrow> ts \<noteq> [] \<or> blk \<noteq> [] \<Longrightarrow> typeBitMapLen_loop ts 0 w (length blk) = length (enc_bitmap_loop ts w blk)"
proof (induction ts arbitrary: w blk)
  case Nil
  then show ?case by (simp add: bm_block_def)
next
  case (Cons t ts)
  note S = bm_inv_step [OF Cons.prems(1)]
  show ?case
  proof (cases "bitmap_window t > w")
    case True
    then show ?thesis using Cons.IH [of "bitmap_window t" "bm_add t []"] S(3) bm_add_neq_Nil [of "[]" t] length_bm_add [of "[]" t]
      by (simp add: bm_block_def typeBitMapLen_loop_add [of ts "Suc _"])
  next
    case False
    then have w: "bitmap_window t = w" using S(1) by simp
    then show ?thesis using Cons.IH [of "bitmap_window t" "bm_add t blk"] S(2,3) bm_add_neq_Nil [of blk t] length_bm_add [of blk t]
      by simp
  qed
qed


subsection \<open>The packer writes it\<close>

lemma set_at_put: "i < length X \<Longrightarrow> off + length X \<le> length base \<Longrightarrow> set_at (put base off X) (off + i) v = Ok (put base off (X[i := v]))"
  by (simp add: set_at_def put_def list_update_append)

lemma index_at_put: "i < length X \<Longrightarrow> off + length X \<le> length base \<Longrightarrow> index_at (put base off X) (off + i) = Ok (X ! i)"
  by (simp add: index_at_def put_def nth_append)

lemma bm_block_add:
  assumes "length blk \<le> bitmap_length t" and "blk = [] \<or> w = bitmap_window t" and "bitmap_length t + 2 \<le> L"
    and X: "X = bm_block w blk @ replicate (L - length (bm_block w blk)) 0"
  defines "n \<equiv> bitmap_length t"
  shows "X[0 := of_nat (bitmap_window t), 1 := of_nat n, 1 + n := X ! (1 + n) OR push_bit (7 - unat t mod 8) 1] =
         bm_block (bitmap_window t) (bm_add t blk) @ replicate (L - (n + 2)) 0"
    and "length X = L"
proof -
  obtain m where n: "n = Suc m" using bitmap_length_le(2) [of t] by (auto simp: n_def gr0_conv_Suc)
  have L: "L = (n - length blk) + (L - (n + 2)) + length blk + 2" using assms(1,3) by (simp add: n_def)
  define b where "b = blk @ replicate (n - length blk) (0::byte)"
  have lb: "length b = n" using assms(1) by (simp add: b_def n_def)
  have R: "replicate (L - 2 - length blk) (0::byte) = replicate (n - length blk) 0 @ replicate (L - (n + 2)) 0"
    using assms(1,3) by (simp add: replicate_add [symmetric] n_def)
  have X01: "\<exists>x y. X = x # y # b @ replicate (L - (n + 2)) 0"
  proof (cases "blk = []")
    case True
    have "L = Suc (Suc (L - 2))" using assms(3) by simp
    then have "replicate L (0::byte) = 0 # 0 # replicate (L - 2) 0" by (metis replicate_Suc)
    with True R show ?thesis by (simp add: X bm_block_def b_def)
  next
    case False
    with R show ?thesis by (simp add: X bm_block_def b_def)
  qed
  then obtain x y where X': "X = x # y # b @ replicate (L - (n + 2)) 0" by blast
  then show "length X = L" using lb assms(3) by (simp add: n_def)
  have "bm_add t blk = b[m := b ! m OR push_bit (7 - unat t mod 8) 1]"
    by (simp add: bm_add_def b_def n_def [symmetric] n Let_def)
  moreover have "m < length b" using lb n by simp
  ultimately show "X[0 := of_nat (bitmap_window t), 1 := of_nat n, 1 + n := X ! (1 + n) OR push_bit (7 - unat t mod 8) 1] =
         bm_block (bitmap_window t) (bm_add t blk) @ replicate (L - (n + 2)) 0"
    using lb by (auto simp: X' n bm_block_def nth_append list_update_append)
qed

lemma enc_bitmap_loop_ge:
  "bm_inv ts w blk \<Longrightarrow> length (bm_block w blk) \<le> length (enc_bitmap_loop ts w blk)"
proof (induction ts arbitrary: w blk)
  case (Cons t ts)
  note S = bm_inv_step [OF Cons.prems]
  show ?case
  proof (cases "bitmap_window t > w")
    case False
    then have w: "bitmap_window t = w" using S(1) by simp
    then have "length (bm_block w blk) \<le> length (bm_block w (bm_add t blk))"
      using S(2) bm_add_neq_Nil [of blk t] length_bm_add [of blk t] by (simp add: bm_block_def)
    also have "\<dots> \<le> length (enc_bitmap_loop ts w (bm_add t blk))" using Cons.IH S(3) False w by simp
    finally show ?thesis using w by simp
  qed simp
qed simp

lemma nsec_sets:
  fixes f :: "bytes \<Rightarrow> (bytes \<times> nat) off_res"
  assumes "off + length X \<le> length base" and "n + 2 \<le> length X" and "0 < n"
  shows "bindR (set_at (put base off X) off a) (\<lambda>msg.
         bindR (set_at msg (off + 1) c) (\<lambda>msg.
         bindR (index_at msg (off + 1 + n)) (\<lambda>b.
         bindR (set_at msg (off + 1 + n) (b OR v)) f))) =
         f (put base off (X[0 := a, 1 := c, 1 + n := X ! (1 + n) OR v]))"
proof -
  have "(set_at (put base off X) off a :: bytes off_res) = Ok (put base off (X[0 := a]))" using set_at_put [of 0 X off base a] assms by (cases X) auto
  moreover have "(set_at (put base off (X[0 := a])) (off + 1) c :: bytes off_res) = Ok (put base off (X[0 := a, 1 := c]))"
    using assms by (intro set_at_put) auto
  moreover have "(index_at (put base off (X[0 := a, 1 := c])) (off + 1 + n) :: byte off_res) = Ok (X ! (1 + n))"
    using index_at_put [of "1 + n" "X[0 := a, 1 := c]" off base] assms by (simp add: add.assoc)
  moreover have "(set_at (put base off (X[0 := a, 1 := c])) (off + 1 + n) (X ! (1 + n) OR v) :: bytes off_res) =
      Ok (put base off (X[0 := a, 1 := c, 1 + n := X ! (1 + n) OR v]))"
    using set_at_put [of "1 + n" "X[0 := a, 1 := c]" off base] assms by (simp add: add.assoc)
  ultimately show ?thesis by simp
qed

text \<open>One type is added to the block \<open>blk\<close> at \<open>off\<close>, the start of a buffer area of zeros.\<close>

lemma nsec_add:
  fixes f :: "bytes \<Rightarrow> (bytes \<times> nat) off_res"
  assumes "length blk \<le> bitmap_length t" and "blk = [] \<or> w = bitmap_window t" and "bitmap_length t + 2 \<le> L" and "off + L \<le> length base"
  shows "bindR (set_at (put base off (bm_block w blk @ replicate (L - length (bm_block w blk)) 0)) off (of_nat (bitmap_window t))) (\<lambda>msg.
         bindR (set_at msg (off + 1) (of_nat (bitmap_length t))) (\<lambda>msg.
         bindR (index_at msg (off + 1 + bitmap_length t)) (\<lambda>b.
         bindR (set_at msg (off + 1 + bitmap_length t) (b OR push_bit (7 - unat t mod 8) 1)) f))) =
         f (put base off (bm_block (bitmap_window t) (bm_add t blk) @ replicate (L - length (bm_block (bitmap_window t) (bm_add t blk))) 0))"
proof -
  note B = bm_block_add [OF assms(1-3) refl]
  have "length (bm_block (bitmap_window t) (bm_add t blk)) = bitmap_length t + 2"
    using bm_add_neq_Nil [OF assms(1)] length_bm_add [OF assms(1)] by (simp add: bm_block_def)
  then show ?thesis by (subst nsec_sets) (use assms(3,4) B bitmap_length_le(2) [of t] in auto)
qed

lemma packDataNsec_loop_enc:
  assumes "bm_inv ts w blk" and "ts \<noteq> [] \<or> blk \<noteq> []" and "L = length (enc_bitmap_loop ts w blk)" and "off + L \<le> length base"
  shows "packDataNsec_loop ts (put base off (bm_block w blk @ replicate (L - length (bm_block w blk)) 0)) off w (length blk) =
         Ok (put base off (enc_bitmap_loop ts w blk), off + L)"
  using assms
proof (induction ts arbitrary: w blk L off base)
  case Nil
  then show ?case by (simp add: bm_block_def)
next
  case (Cons t ts)
  note S = bm_inv_step [OF Cons.prems(1)]
  let ?n = "bitmap_length t" and ?w = "bitmap_window t"
  show ?case
  proof (cases "?w > w \<and> blk \<noteq> []")
    case True
    define K where "K = length (enc_bitmap_loop ts ?w (bm_add t []))"
    define pre where "pre = bm_block w blk"
    have pre: "length pre = length blk + 2" using True by (simp add: pre_def bm_block_def)
    have inv: "bm_inv ts ?w (bm_add t [])" using S(3) True by simp
    have len: "length (bm_add t []) = ?n" "bm_add t [] \<noteq> []" using length_bm_add bm_add_neq_Nil by auto
    have K: "?n + 2 \<le> K" using enc_bitmap_loop_ge [OF inv] len by (simp add: K_def bm_block_def)
    have L: "L = length pre + K" using Cons.prems(3) True by (simp add: pre_def K_def)
    have eq: "put base off (bm_block w blk @ replicate (L - length (bm_block w blk)) 0) =
        put (put base off pre) (off + length pre) (bm_block w [] @ replicate (K - length (bm_block w [])) 0)"
      using Cons.prems(4) L by (simp add: put_put pre_def [symmetric]) (simp add: bm_block_def)
    have fit: "off + length pre + K \<le> length (put base off pre)" using Cons.prems(4) L by simp
    have lx: "length (put (put base off pre) (off + length pre) (bm_block w [] @ replicate (K - length (bm_block w [])) 0)) = length base"
      using Cons.prems(4) L by (simp add: bm_block_def)
    have "packDataNsec_loop (t # ts) (put (put base off pre) (off + length pre) (bm_block w [] @ replicate (K - length (bm_block w [])) 0)) off w (length blk) =
        packDataNsec_loop ts (put (put base off pre) (off + length pre) (bm_block ?w (bm_add t []) @ replicate (K - length (bm_block ?w (bm_add t []))) 0))
          (off + length pre) ?w ?n"
      using True K Cons.prems(4) L lx fit pre nsec_add [of "[]" t w K "off + length pre" "put base off pre"] by (simp add: Let_def)
    also have "\<dots> = Ok (put (put base off pre) (off + length pre) (enc_bitmap_loop ts ?w (bm_add t [])), off + length pre + K)"
      using Cons.IH [OF inv _ K_def fit] len by simp
    finally show ?thesis using eq True Cons.prems(4) L by (simp add: put_put pre_def [symmetric] K_def)
  next
    case False
    then have b: "blk = [] \<or> w = ?w" using S(1) by auto
    have le: "length blk \<le> ?n" using b S(2) by auto
    have inv: "bm_inv ts ?w (bm_add t blk)" using S(3) False by (auto split: if_splits)
    have len: "length (bm_add t blk) = ?n" "bm_add t blk \<noteq> []" using length_bm_add [OF le] bm_add_neq_Nil [OF le] by auto
    have L: "L = length (enc_bitmap_loop ts ?w (bm_add t blk))" using Cons.prems(3) False by (auto simp: bm_block_def)
    have K: "?n + 2 \<le> L" using enc_bitmap_loop_ge [OF inv] len L by (simp add: bm_block_def)
    have lx: "length (put base off (bm_block w blk @ replicate (L - length (bm_block w blk)) 0)) = length base"
      using bm_block_add(2) [OF le b K refl] Cons.prems(4) by simp
    have "packDataNsec_loop (t # ts) (put base off (bm_block w blk @ replicate (L - length (bm_block w blk)) 0)) off w (length blk) =
        packDataNsec_loop ts (put base off (bm_block ?w (bm_add t blk) @ replicate (L - length (bm_block ?w (bm_add t blk))) 0)) off ?w ?n"
      using False K le S(1) Cons.prems(4) lx nsec_add [OF le b K Cons.prems(4)] by (auto simp: Let_def)
    also have "\<dots> = Ok (put base off (enc_bitmap_loop ts ?w (bm_add t blk)), off + L)"
      using Cons.IH [OF inv _ L Cons.prems(4)] len by simp
    also have "enc_bitmap_loop ts ?w (bm_add t blk) = enc_bitmap_loop (t # ts) w blk" using False by (auto simp: bm_block_def)
    finally show ?thesis .
  qed
qed


lemma packDataNsec_loop_fits:
  assumes "packDataNsec_loop ts msg off w n = Ok r" and "ts = [] \<Longrightarrow> off + (n + 2) \<le> length msg"
  shows "off + typeBitMapLen_loop ts 0 w n \<le> length msg"
  using assms
proof (induction ts arbitrary: msg off w n)
  case (Cons t ts)
  define off' n' where "off' = (if w < bitmap_window t \<and> n \<noteq> 0 then off + (n + 2) else off)"
    and "n' = (if w < bitmap_window t \<and> n \<noteq> 0 then 0 else n)"
  from Cons.prems(1) have ok: "\<not> (bitmap_window t < w \<or> bitmap_length t < n')" and fit: "off' + 2 + bitmap_length t \<le> length msg"
    by (auto simp: Let_def off'_def n'_def split: if_splits)
  from Cons.prems(1) ok fit obtain m1 where m1: "packDataNsec_loop ts m1 off' (bitmap_window t) (bitmap_length t) = Ok r" and "length m1 = length msg"
    by (auto simp: Let_def off'_def n'_def bindR_eq_Ok set_at_def split: if_splits)
  with Cons.IH [OF m1] fit have "off' + typeBitMapLen_loop ts 0 (bitmap_window t) (bitmap_length t) \<le> length msg" by simp
  then show ?case using ok typeBitMapLen_loop_add [of ts "n + 2"] by (auto simp: Let_def off'_def n'_def split: if_splits)
qed simp

lemma packDataNsec_loop_safe: "packDataNsec_loop ts msg off w n \<noteq> Panic"
proof (induction ts arbitrary: msg off w n)
  case (Cons t ts)
  then show ?case by (auto simp: Let_def bindR_eq_Panic set_at_def index_at_def)
qed simp

lemma ok_bitmap_inv: "ok_bitmap ts \<Longrightarrow> bm_inv ts 0 []"
  by (simp add: ok_bitmap_def bm_inv_def)

lemma packDataNsec_enc:
  assumes "ok_bitmap ts" and "off + length (enc_bitmap ts) \<le> length msg"
  shows "packDataNsec ts msg off = Ok (put msg off (enc_bitmap ts), off + length (enc_bitmap ts))"
proof (cases "ts = []")
  case True
  then show ?thesis by (simp add: packDataNsec_def enc_bitmap_def bm_block_def)
next
  case False
  have L: "typeBitMapLen ts = length (enc_bitmap ts)"
    using length_enc_bitmap_loop [OF ok_bitmap_inv [OF assms(1)]] False by (simp add: typeBitMapLen_def enc_bitmap_def)
  have "packDataNsec ts msg off = packDataNsec_loop ts (put msg off (replicate (length (enc_bitmap ts)) 0)) off 0 0"
    using False assms(2) by (simp add: packDataNsec_def L Let_def min_absorb1)
  also have "\<dots> = Ok (put msg off (enc_bitmap ts), off + length (enc_bitmap ts))"
    using packDataNsec_loop_enc [OF ok_bitmap_inv [OF assms(1)] _ refl, of off msg] False assms(2)
    by (simp add: enc_bitmap_def bm_block_def)
  finally show ?thesis .
qed

lemma packDataNsec_fits:
  assumes "ok_bitmap ts" and "packDataNsec ts msg off = Ok r"
  shows "ts = [] \<or> off + length (enc_bitmap ts) \<le> length msg"
proof (cases "ts = []")
  case False
  have L: "typeBitMapLen ts = length (enc_bitmap ts)"
    using length_enc_bitmap_loop [OF ok_bitmap_inv [OF assms(1)]] False by (simp add: typeBitMapLen_def enc_bitmap_def)
  let ?z = "min (typeBitMapLen ts) (length msg - off)"
  have "off \<le> length msg" and "packDataNsec_loop ts (put msg off (replicate ?z 0)) off 0 0 = Ok r"
    using assms(2) False by (auto simp: packDataNsec_def Let_def split: if_splits)
  with packDataNsec_loop_fits [OF this(2)] False L show ?thesis by (simp add: typeBitMapLen_def)
qed simp


lemma enc_bitmap_Nil:
  assumes "ok_bitmap ts" and "enc_bitmap ts = []"
  shows "ts = []"
proof (cases ts)
  case (Cons t r)
  have "bm_inv (t # r) 0 []" using ok_bitmap_inv [OF assms(1)] Cons by simp
  from bm_inv_step(3) [OF this] have "bm_inv r (bitmap_window t) (bm_add t [])" by simp
  from enc_bitmap_loop_ge [OF this] bm_add_neq_Nil [of "[]" t] assms(2) Cons
  show ?thesis by (auto simp: enc_bitmap_def bm_block_def split: if_splits)
qed simp

lemma enc_bitmap_empty: "ok_bitmap ts \<Longrightarrow> enc_bitmap ts = [] \<longleftrightarrow> ts = []"
  using enc_bitmap_Nil [of ts] by (auto simp: enc_bitmap_def bm_block_def)

subsection \<open>The unpacker reads it back\<close>

lemma byte_bits:
  "(b :: byte) AND 0x80 = 0x80 \<longleftrightarrow> bit b 7" "b AND 0x40 = 0x40 \<longleftrightarrow> bit b 6" "b AND 0x20 = 0x20 \<longleftrightarrow> bit b 5"
  "b AND 0x10 = 0x10 \<longleftrightarrow> bit b 4" "b AND 0x8 = 0x8 \<longleftrightarrow> bit b 3" "b AND 0x4 = 0x4 \<longleftrightarrow> bit b 2"
  "b AND 0x2 = 0x2 \<longleftrightarrow> bit b 1" "b AND 0x1 = 0x1 \<longleftrightarrow> bit b 0"
proof -
  have "b AND 2 ^ n = 2 ^ n \<longleftrightarrow> bit b n" if "n < 8" for n
  proof
    assume "b AND 2 ^ n = 2 ^ n"
    then have "bit (b AND 2 ^ n) n" using that by (simp add: bit_byte_exp)
    then show "bit b n" by (simp add: bit_and_iff)
  next
    assume "bit b n"
    then show "b AND 2 ^ n = 2 ^ n" using that by (intro bit_word_eqI) (auto simp: bit_and_iff bit_exp_iff)
  qed
  from this [of 7] this [of 6] this [of 5] this [of 4] this [of 3] this [of 2] this [of 1] this [of 0]
  show "(b :: byte) AND 0x80 = 0x80 \<longleftrightarrow> bit b 7" "b AND 0x40 = 0x40 \<longleftrightarrow> bit b 6" "b AND 0x20 = 0x20 \<longleftrightarrow> bit b 5"
  "b AND 0x10 = 0x10 \<longleftrightarrow> bit b 4" "b AND 0x8 = 0x8 \<longleftrightarrow> bit b 3" "b AND 0x4 = 0x4 \<longleftrightarrow> bit b 2"
  "b AND 0x2 = 0x2 \<longleftrightarrow> bit b 1" "b AND 0x1 = 0x1 \<longleftrightarrow> bit b 0" by simp_all
qed

lemma nsec_byte_types_bits:
  "nsec_byte_types w j b = map (\<lambda>k. of_nat (w * 256 + j * 8 + k)) (filter (\<lambda>k. bit b (7 - k)) [0..<8])"
  unfolding nsec_byte_types_def byte_bits by (simp add: upt_rec)

lemma nsec_window_types_bits:
  "nsec_window_types w j bs = map (\<lambda>i. of_nat (w * 256 + j * 8 + i)) (filter (bitpos bs) [0..<8 * length bs])"
proof (induction bs arbitrary: j)
  case (Cons b bs)
  have split: "[0..<8 * length (b # bs)] = [0..<8] @ map (\<lambda>i. i + 8) [0..<8 * length bs]"
    by (simp add: map_add_upt upt_add_eq_append [of 0 8, symmetric] add.commute)
  have 1: "filter (bitpos (b # bs)) [0..<8] = filter (\<lambda>k. bit b (7 - k)) [0..<8]"
    by (rule filter_cong) (auto simp: bitpos_def)
  have 2: "filter (bitpos (b # bs)) (map (\<lambda>i. i + 8) [0..<8 * length bs]) = map (\<lambda>i. i + 8) (filter (bitpos bs) [0..<8 * length bs])"
  proof -
    have "(i + 8) div 8 = Suc (i div 8)" for i :: nat by simp
    then have "bitpos (b # bs) (i + 8) = bitpos bs i" for i unfolding bitpos_def by (simp only: nth_Cons_Suc mod_add_self2)
    then show ?thesis by (simp only: filter_map comp_def)
  qed
  show ?case
    by (simp only: nsec_window_types.simps split filter_append map_append 1 2 Cons.IH nsec_byte_types_bits map_map)
      (simp add: comp_def algebra_simps)
qed simp

lemma filter_upt_split: "k \<le> n \<Longrightarrow> filter P [0..<n] = filter P [0..<k] @ filter P [k..<n]"
  using upt_add_eq_append [of 0 k "n - k"] by simp

lemma filter_upt_last:
  assumes "\<And>i. i < m \<Longrightarrow> P i \<longleftrightarrow> i = p \<or> (i < n \<and> Q i)" and "\<And>i. i < n \<Longrightarrow> Q i \<Longrightarrow> i < p" and "n \<le> m" and "p < m"
  shows "filter P [0..<m] = filter Q [0..<n] @ [p]"
proof -
  have "filter P [0..<m] = filter P [0..<p] @ filter P [p..<m]"
    using assms(4) by (intro filter_upt_split) simp
  also have "filter P [p..<m] = [p]"
  proof -
    have "filter P [Suc p..<m] = []" by (auto simp: filter_empty_conv assms(1) dest: assms(2))
    then show ?thesis using assms(1,4) by (simp add: upt_conv_Cons)
  qed
  also have "filter P [0..<p] = filter (\<lambda>i. i < n \<and> Q i) [0..<p]"
    by (rule filter_cong) (use assms(1,4) in auto)
  also have "\<dots> = filter Q [0..<n]"
  proof (cases "p \<le> n")
    case True
    have "filter Q [0..<n] = filter Q [0..<p] @ filter Q [p..<n]"
      using True by (rule filter_upt_split)
    moreover have "filter Q [p..<n] = []" using assms(2) by (auto simp: filter_empty_conv not_less [symmetric])
    moreover have "filter (\<lambda>i. i < n \<and> Q i) [0..<p] = filter Q [0..<p]" by (rule filter_cong) (use True in auto)
    ultimately show ?thesis by simp
  next
    case False
    have "filter (\<lambda>i. i < n \<and> Q i) [0..<p] = filter (\<lambda>i. i < n \<and> Q i) [0..<n] @ filter (\<lambda>i. i < n \<and> Q i) [n..<p]"
      using False by (intro filter_upt_split) simp
    moreover have "filter (\<lambda>i. i < n \<and> Q i) [n..<p] = []" by (auto simp: filter_empty_conv)
    moreover have "filter (\<lambda>i. i < n \<and> Q i) [0..<n] = filter Q [0..<n]" by (rule filter_cong) auto
    ultimately show ?thesis by simp
  qed
  finally show ?thesis .
qed

lemma nsec_window_types_add:
  assumes "length blk \<le> bitmap_length t" and "\<And>i. i < 8 * length blk \<Longrightarrow> bitpos blk i \<Longrightarrow> i < unat t mod 256"
  shows "nsec_window_types (bitmap_window t) 0 (bm_add t blk) = nsec_window_types (bitmap_window t) 0 blk @ [t]"
proof -
  have p: "unat t mod 256 < 8 * bitmap_length t" by (simp add: bitmap_length_eq)
  have "filter (bitpos (bm_add t blk)) [0..<8 * bitmap_length t] = filter (bitpos blk) [0..<8 * length blk] @ [unat t mod 256]"
    using bitpos_bm_add [OF assms(1)] assms p by (intro filter_upt_last) auto
  moreover have "(of_nat (bitmap_window t * 256 + unat t mod 256) :: u16) = t"
    by (simp only: bitmap_window_def div_mult_mod_eq) simp
  ultimately show ?thesis by (simp add: nsec_window_types_bits length_bm_add [OF assms(1)])
qed


lemma unpackDataNsec_block:
  assumes "drop off M = bm_block w blk @ r" and "blk \<noteq> []" and "length blk \<le> 32" and "w < 256" and "lw < int w" and "off \<le> length M"
  shows "unpackDataNsec_loop M off acc lw =
         unpackDataNsec_loop M (off + length blk + 2) (acc @ nsec_window_types w 0 blk) (int w)"
    and "drop (off + length blk + 2) M = r" and "off + length blk + 2 \<le> length M"
proof -
  have d: "drop off M = of_nat w # of_nat (length blk) # blk @ r" using assms(1,2) by (simp add: bm_block_def)
  have len: "length M = off + 2 + length blk + length r" using arg_cong [OF d, of length] assms(6) by simp
  have nth: "M ! off = of_nat w" "M ! (off + 1) = of_nat (length blk)"
    using nth_drop [of off M 0] nth_drop [of off M 1] d len by simp_all
  have d2: "drop (off + 2) M = blk @ r" using arg_cong [OF d, of "drop 2"] by (simp add: add.commute)
  have u: "unat (of_nat w :: byte) = w" "unat (of_nat (length blk) :: byte) = length blk"
    using assms(3,4) by (auto simp: unat_of_nat)
  show "unpackDataNsec_loop M off acc lw =
         unpackDataNsec_loop M (off + length blk + 2) (acc @ nsec_window_types w 0 blk) (int w)"
    apply (subst unpackDataNsec_loop.simps)
    using assms(2,3,5) len by (simp add: Let_def nth [simplified] u d2 [simplified] add.assoc)
  show "drop (off + length blk + 2) M = r" using arg_cong [OF d2, of "drop (length blk)"] by (simp add: ac_simps)
  show "off + length blk + 2 \<le> length M" using len by simp
qed

lemma unpackDataNsec_loop_enc:
  assumes "bm_inv ts w blk" and "drop off M = enc_bitmap_loop ts w blk" and "off \<le> length M"
    and "blk \<noteq> [] \<Longrightarrow> lw < int w" and "blk = [] \<Longrightarrow> lw < 0"
  shows "unpackDataNsec_loop M off acc lw = Ok (acc @ nsec_window_types w 0 blk @ ts, length M)"
  using assms
proof (induction ts arbitrary: w blk off acc lw)
  case Nil
  have w: "w < 256" "length blk \<le> 32" using Nil.prems(1) by (auto simp: bm_inv_def)
  show ?case
  proof (cases "blk = []")
    case True
    with Nil.prems(2,3) have "off = length M" by (simp add: bm_block_def)
    with True show ?thesis by (subst unpackDataNsec_loop.simps) simp
  next
    case False
    have d: "drop off M = bm_block w blk @ []" using Nil.prems(2) by simp
    note B = unpackDataNsec_block [OF d False w(2,1) Nil.prems(4) [OF False] Nil.prems(3)]
    have "off + length blk + 2 = length M" using B(2,3) by simp
    with B(1) show ?thesis by (simp add: unpackDataNsec_loop.simps [of M "length M"])
  qed
next
  case (Cons t ts)
  note S = bm_inv_step [OF Cons.prems(1)]
  have w: "w < 256" "length blk \<le> 32" using Cons.prems(1) by (auto simp: bm_inv_def)
  have t: "unat t = bitmap_window t * 256 + unat t mod 256" by (simp add: bitmap_window_def)
  show ?case
  proof (cases "bitmap_window t > w")
    case True
    have inv: "bm_inv ts (bitmap_window t) (bm_add t [])" using S(3) True by simp
    have tys: "nsec_window_types (bitmap_window t) 0 (bm_add t []) = [t]" using nsec_window_types_add [of "[]" t] by simp
    show ?thesis
    proof (cases "blk = []")
      case True
      have "drop off M = enc_bitmap_loop ts (bitmap_window t) (bm_add t [])"
        using Cons.prems(2) \<open>bitmap_window t > w\<close> True by (simp add: bm_block_def)
      then show ?thesis using Cons.IH [OF inv _ Cons.prems(3), of lw acc] bm_add_neq_Nil [of "[]" t] Cons.prems(5) True tys by simp
    next
      case False
      have d: "drop off M = bm_block w blk @ enc_bitmap_loop ts (bitmap_window t) (bm_add t [])"
        using Cons.prems(2) True by simp
      note B = unpackDataNsec_block [OF d False w(2,1) Cons.prems(4) [OF False] Cons.prems(3)]
      show ?thesis using Cons.IH [OF inv B(2,3), of "int w" "acc @ nsec_window_types w 0 blk"] True bm_add_neq_Nil [of "[]" t] B(1) tys by simp
    qed
  next
    case False
    then have eq: "bitmap_window t = w" using S(1) by simp
    have le: "length blk \<le> bitmap_length t" using S(2) eq by simp
    have "i < unat t mod 256" if "i < 8 * length blk" "bitpos blk i" for i
      using that Cons.prems(1) t eq by (cases "blk = []") (auto simp: bm_inv_def)
    note tys = nsec_window_types_add [OF le this]
    have inv: "bm_inv ts (bitmap_window t) (bm_add t blk)" using S(3) False by simp
    have lw: "lw < int w" using Cons.prems(1,4,5) by (cases "blk = []") (auto simp: bm_inv_def)
    have "drop off M = enc_bitmap_loop ts (bitmap_window t) (bm_add t blk)" using Cons.prems(2) False by simp
    from Cons.IH [OF inv this Cons.prems(3), of lw acc] lw eq bm_add_neq_Nil [OF le] tys show ?thesis by simp
  qed
qed

interpretation nsec: rest_field packDataNsec enc_bitmap ok_bitmap "\<lambda>M off e. unpackDataNsec M off"
proof
  fix v and msg :: bytes and off and r :: "bytes \<times> nat"
  assume ok: "ok_bitmap v" and p: "packDataNsec v msg off = Ok r"
  show "r = (put msg off (enc_bitmap v), off + length (enc_bitmap v)) \<and> (enc_bitmap v \<noteq> [] \<longrightarrow> off + length (enc_bitmap v) \<le> length msg)"
    using packDataNsec_fits [OF ok p] packDataNsec_enc [OF ok, of off msg] p
    by (cases "v = []") (auto simp: packDataNsec_def enc_bitmap_def bm_block_def)
next
  fix v and msg :: bytes and off
  assume "ok_bitmap v" "off + length (enc_bitmap v) < length msg"
  then show "\<exists>r. packDataNsec v msg off = Ok r" using packDataNsec_enc [of v off msg] by simp
next
  show "packDataNsec v msg off \<noteq> Panic" for v msg off
    by (auto simp: packDataNsec_def Let_def packDataNsec_loop_safe)
next
  fix v M off
  assume "ok_bitmap v" "length M = off + length (enc_bitmap v)" "drop off M = enc_bitmap v"
  then show "unpackDataNsec M off = Ok (v, length M)"
    using unpackDataNsec_loop_enc [OF ok_bitmap_inv, of v off M "-1" "[]"] by (simp add: unpackDataNsec_def enc_bitmap_def)
qed

text \<open>
  C39: A type bitmap in ascending order without repetitions packs into every buffer with more room than
  \<^verbatim>\<open>typeBitMapLen\<close> says, and reads back as the same list of types.
\<close>

theorem bitmap_reads_back:
  assumes "sorted_wrt (<) ts" and "off \<le> length msg" and "off + typeBitMapLen ts < length msg"
  shows "\<exists>msg' off'. packDataNsec ts msg off = Ok (msg', off') \<and> extends msg off msg' off' \<and>
    unpackDataNsec (take off' msg') off = Ok (ts, off')"
proof -
  have ok: "ok_bitmap ts" using assms(1) by (simp add: ok_bitmap_def)
  have "length (enc_bitmap ts) \<le> typeBitMapLen ts"
    using length_enc_bitmap_loop [OF ok_bitmap_inv [OF ok]]
    by (cases "ts = []") (auto simp: typeBitMapLen_def enc_bitmap_def bm_block_def)
  then show ?thesis using nsec.reads_prefix [OF ok assms(2)] assms(3) by auto
qed

theorem bitmap_reads_back_witness:
  "\<exists>msg' off'. packDataNsec [1, 2, 257] (replicate 20 0) 3 = Ok (msg', off') \<and> extends (replicate 20 0) 3 msg' off' \<and>
    unpackDataNsec (take off' msg') 3 = Ok ([1, 2, 257], off')"
proof (rule bitmap_reads_back)
  show "sorted_wrt (<) [1, 2, 257 :: u16]" by simp
  show "3 \<le> length (replicate 20 (0 :: byte))" by simp
  have "typeBitMapLen [1, 2, 257] = 6" by code_simp
  then show "3 + typeBitMapLen [1, 2, 257] < length (replicate 20 (0 :: byte))" by simp
qed

end
