(* ===== verification/Encodings.thy ===== *)
theory Encodings
  imports Wire_Fields
begin

section \<open>Hexadecimal, base64 and base32 fields\<close>

text \<open>
  The fields whose text is an encoding of octets, and what they use of Go's
  \<^verbatim>\<open>encoding/hex\<close>, \<^verbatim>\<open>encoding/base64\<close> (\<^verbatim>\<open>StdEncoding\<close>) and
  \<^verbatim>\<open>encoding/base32\<close> (\<^verbatim>\<open>HexEncoding\<close> without padding). All three are a
  change of radix on blocks of octets, which the first part shows to be invertible.
\<close>

subsection \<open>Digits in a radix\<close>

primrec digits :: "nat \<Rightarrow> nat \<Rightarrow> nat \<Rightarrow> nat list" where
  "digits B 0 v = []"
| "digits B (Suc k) v = digits B k (v div B) @ [v mod B]"

definition undigits :: "nat \<Rightarrow> nat list \<Rightarrow> nat" where
  "undigits B ds = foldl (\<lambda>acc d. acc * B + d) 0 ds"

lemma undigits_simps [simp]: "undigits B [] = 0" "undigits B (ds @ [d]) = undigits B ds * B + d"
  by (simp_all add: undigits_def)

lemma length_digits [simp]: "length (digits B k v) = k"
  by (induction k arbitrary: v) auto

lemma digits_less: "0 < B \<Longrightarrow> d \<in> set (digits B k v) \<Longrightarrow> d < B"
  by (induction k arbitrary: v) auto

lemma undigits_digits: "v < B ^ k \<Longrightarrow> undigits B (digits B k v) = v"
proof (induction k arbitrary: v)
  case (Suc k)
  then have "v div B < B ^ k" by (simp add: less_mult_imp_div_less mult.commute)
  with Suc.IH show ?case by simp
qed simp

lemma undigits_less: "\<forall>d \<in> set ds. d < B \<Longrightarrow> undigits B ds < B ^ length ds"
proof (induction ds rule: rev_induct)
  case (snoc d ds)
  then have "undigits B ds + 1 \<le> B ^ length ds" and "d < B" by auto
  then have "(undigits B ds + 1) * B \<le> B ^ length ds * B" by (intro mult_le_mono1)
  with \<open>d < B\<close> show ?case by (simp add: mult.commute)
qed simp

lemma digits_undigits: "\<forall>d \<in> set ds. d < B \<Longrightarrow> digits B (length ds) (undigits B ds) = ds"
  by (induction ds rule: rev_induct) auto

text \<open>
  A block: \<open>n\<close> octets are written as \<open>m\<close> digits of \<open>w\<close> bits, with
  \<open>m * w - 8 * n\<close> zero bits at the end, which the decoder drops.
\<close>

definition enc_block :: "nat \<Rightarrow> nat \<Rightarrow> bytes \<Rightarrow> nat list" where
  "enc_block w m bs = digits (2 ^ w) m (undigits 256 (map unat bs) * 2 ^ (m * w - 8 * length bs))"

definition dec_block :: "nat \<Rightarrow> nat \<Rightarrow> nat list \<Rightarrow> bytes" where
  "dec_block w n ds = map of_nat (digits 256 n (undigits (2 ^ w) ds div 2 ^ (length ds * w - 8 * n)))"

lemma length_enc_block [simp]: "length (enc_block w m bs) = m"
  by (simp add: enc_block_def)

lemma enc_block_less: "d \<in> set (enc_block w m bs) \<Longrightarrow> d < 2 ^ w"
  unfolding enc_block_def by (rule digits_less) auto

lemma dec_enc_block:
  assumes "8 * length bs \<le> m * w"
  shows "dec_block w (length bs) (enc_block w m bs) = bs"
proof -
  let ?v = "undigits 256 (map unat bs)" and ?p = "m * w - 8 * length bs"
  have lt: "\<forall>d \<in> set (map unat bs). d < 256" using unat_byte_less by auto
  have v: "?v < 256 ^ length bs" using undigits_less [OF lt] by simp
  have "?v * 2 ^ ?p < 256 ^ length bs * 2 ^ ?p" using v by simp
  also have "256 ^ length bs = (2 :: nat) ^ (8 * length bs)" by (simp add: power_mult)
  also have "(2 :: nat) ^ (8 * length bs) * 2 ^ ?p = (2 ^ w) ^ m"
    using assms by (simp add: power_add [symmetric] power_mult [symmetric] mult.commute)
  finally have "undigits (2 ^ w) (enc_block w m bs) = ?v * 2 ^ ?p"
    unfolding enc_block_def by (rule undigits_digits)
  then have "dec_block w (length bs) (enc_block w m bs) = map of_nat (digits 256 (length bs) ?v)"
    by (simp add: dec_block_def)
  also have "\<dots> = bs" using digits_undigits [OF lt] by (simp add: map_idI)
  finally show ?thesis .
qed

subsection \<open>encoding/hex\<close>

definition hex_char :: "nat \<Rightarrow> byte" where
  "hex_char d = (if d < 10 then 0x30 + of_nat d else 0x57 + of_nat d)"

definition hex_val :: "byte \<Rightarrow> nat option" where
  "hex_val c =
     (if 0x30 \<le> c \<and> c \<le> 0x39 then Some (unat (c - 0x30))
      else if 0x61 \<le> c \<and> c \<le> 0x66 then Some (unat (c - 0x57))
      else if 0x41 \<le> c \<and> c \<le> 0x46 then Some (unat (c - 0x37))
      else None)"

definition hexEncode :: "bytes \<Rightarrow> gostring" where
  "hexEncode bs = concat (map (\<lambda>b. map hex_char (enc_block 4 2 [b])) bs)"

text \<open>\<^verbatim>\<open>hex.DecodeString\<close>; \<open>None\<close> is an odd length or an invalid byte.\<close>

fun hexDecode :: "gostring \<Rightarrow> bytes option" where
  "hexDecode [] = Some []"
| "hexDecode [c] = None"
| "hexDecode (a # b # r) =
     (case (hex_val a, hex_val b, hexDecode r) of
        (Some x, Some y, Some bs) \<Rightarrow> Some (dec_block 4 1 [x, y] @ bs)
      | _ \<Rightarrow> None)"

subsection \<open>encoding/base64\<close>

definition b64_char :: "nat \<Rightarrow> byte" where
  "b64_char d =
     (if d < 26 then 0x41 + of_nat d
      else if d < 52 then 0x61 + of_nat (d - 26)
      else if d < 62 then 0x30 + of_nat (d - 52)
      else if d = 62 then 0x2B else 0x2F)"

definition b64_val :: "byte \<Rightarrow> nat option" where
  "b64_val c =
     (if 0x41 \<le> c \<and> c \<le> 0x5A then Some (unat (c - 0x41))
      else if 0x61 \<le> c \<and> c \<le> 0x7A then Some (unat (c - 0x61) + 26)
      else if 0x30 \<le> c \<and> c \<le> 0x39 then Some (unat (c - 0x30) + 52)
      else if c = 0x2B then Some 62
      else if c = 0x2F then Some 63
      else None)"

abbreviation PAD :: byte where "PAD \<equiv> 0x3D"

fun toBase64 :: "bytes \<Rightarrow> gostring" where
  "toBase64 (a # b # c # r) = map b64_char (enc_block 6 4 [a, b, c]) @ toBase64 r"
| "toBase64 [a, b] = map b64_char (enc_block 6 3 [a, b]) @ [PAD]"
| "toBase64 [a] = map b64_char (enc_block 6 2 [a]) @ [PAD, PAD]"
| "toBase64 [] = []"

text \<open>One quantum after the other; padding only in the last one, with nothing after it.\<close>

fun b64_quanta :: "gostring \<Rightarrow> bytes option" where
  "b64_quanta [] = Some []"
| "b64_quanta (a # b # c # d # r) =
     (case (b64_val a, b64_val b) of
        (Some x, Some y) \<Rightarrow>
          if c = PAD then (if d = PAD \<and> r = [] then Some (dec_block 6 1 [x, y]) else None)
          else (case b64_val c of
              None \<Rightarrow> None
            | Some z \<Rightarrow>
                if d = PAD then (if r = [] then Some (dec_block 6 2 [x, y, z]) else None)
                else (case (b64_val d, b64_quanta r) of
                    (Some u, Some bs) \<Rightarrow> Some (dec_block 6 3 [x, y, z, u] @ bs)
                  | _ \<Rightarrow> None))
      | _ \<Rightarrow> None)"
| "b64_quanta _ = None"

definition is_newline :: "byte \<Rightarrow> bool" where
  "is_newline c \<longleftrightarrow> c = 0x0D \<or> c = 0x0A"

definition fromBase64 :: "gostring \<Rightarrow> bytes option" where
  "fromBase64 s = b64_quanta (filter (\<lambda>c. \<not> is_newline c) s)"

subsection \<open>encoding/base32\<close>

definition b32_char :: "nat \<Rightarrow> byte" where
  "b32_char d = (if d < 10 then 0x30 + of_nat d else 0x37 + of_nat d)"

definition b32_val :: "byte \<Rightarrow> nat option" where
  "b32_val c =
     (if 0x30 \<le> c \<and> c \<le> 0x39 then Some (unat (c - 0x30))
      else if 0x41 \<le> c \<and> c \<le> 0x56 then Some (unat (c - 0x37))
      else None)"

fun toBase32 :: "bytes \<Rightarrow> gostring" where
  "toBase32 (a # b # c # d # e # r) = map b32_char (enc_block 5 8 [a, b, c, d, e]) @ toBase32 r"
| "toBase32 [a, b, c, d] = map b32_char (enc_block 5 7 [a, b, c, d])"
| "toBase32 [a, b, c] = map b32_char (enc_block 5 5 [a, b, c])"
| "toBase32 [a, b] = map b32_char (enc_block 5 4 [a, b])"
| "toBase32 [a] = map b32_char (enc_block 5 2 [a])"
| "toBase32 [] = []"

text \<open>
  The octets of a block of up to eight digits; other lengths give none. The padding character of
  an encoding without padding is \<open>-1\<close>, so the decoder takes the byte \<open>0xFF\<close> for
  padding; \<open>b32_digits\<close> reads the digits of one quantum: the digits read, what is left and
  whether the input ended.
\<close>

definition b32_octets :: "nat list \<Rightarrow> bytes" where
  "b32_octets ds =
     (let n = length ds in
      if n = 8 then dec_block 5 5 ds
      else if n = 7 then dec_block 5 4 ds
      else if n = 5 then dec_block 5 3 ds
      else if n = 4 then dec_block 5 2 ds
      else if n = 2 then dec_block 5 1 ds
      else [])"

fun b32_digits :: "nat \<Rightarrow> nat list \<Rightarrow> gostring \<Rightarrow> (nat list \<times> gostring \<times> bool) option" where
  "b32_digits 0 ds s = Some (ds, s, False)"
| "b32_digits (Suc k) ds [] = Some (ds, [], True)"
| "b32_digits (Suc k) ds (c # s) =
     (let j = length ds in
      if c = 0xFF \<and> j \<ge> 2 \<and> length s < 8 then
        if length s + j < 7 then None
        else if \<not> list_all (\<lambda>x. x = 0xFF) (take (7 - j) s) then None
        else if j = 1 \<or> j = 3 \<or> j = 6 then None
        else Some (ds, s, True)
      else (case b32_val c of
          None \<Rightarrow> None
        | Some d \<Rightarrow> b32_digits k (ds @ [d]) s))"

lemma b32_digits_shorter:
  "b32_digits k ds s = Some (ds', s', False) \<Longrightarrow> length s' + k = length s"
  by (induction k ds s rule: b32_digits.induct) (auto simp: Let_def split: if_splits option.splits)

function b32_quanta :: "gostring \<Rightarrow> bytes option" where
  "b32_quanta s =
     (if s = [] then Some []
      else (case b32_digits 8 [] s of
          None \<Rightarrow> None
        | Some (ds, s', end) \<Rightarrow>
            if end then Some (b32_octets ds)
            else map_option (\<lambda>bs. b32_octets ds @ bs) (b32_quanta s')))"
  by pat_completeness auto
termination
  by (relation "measure length") (auto dest: b32_digits_shorter)

declare b32_quanta.simps [simp del]

definition to_upper :: "byte \<Rightarrow> byte" where
  "to_upper b = (if 0x61 \<le> b \<and> b \<le> 0x7A then b - 32 else b)"

definition fromBase32 :: "gostring \<Rightarrow> bytes option" where
  "fromBase32 s = b32_quanta (filter (\<lambda>c. \<not> is_newline c) (map to_upper s))"

subsection \<open>The fields\<close>

definition unpackStringHex :: "bytes \<Rightarrow> nat \<Rightarrow> nat \<Rightarrow> (gostring \<times> nat) off_res" where
  "unpackStringHex msg off end =
     (if end > length msg then Err (length msg, ErrMsg ''overflow unpacking hex'')
      else bindR (go_slice msg off end) (\<lambda>b. Ok (hexEncode b, end)))"

definition packStringHex :: "gostring \<Rightarrow> bytes \<Rightarrow> nat \<Rightarrow> (bytes \<times> nat) off_res" where
  "packStringHex s msg off =
     (case hexDecode s of
        None \<Rightarrow> Err (length msg, ErrCorrupt)
      | Some h \<Rightarrow>
          if off + length h > length msg then Err (length msg, ErrMsg ''overflow packing hex'')
          else bindR (write_at msg off h) (\<lambda>msg. Ok (msg, off + length h)))"

definition unpackStringBase64 :: "bytes \<Rightarrow> nat \<Rightarrow> nat \<Rightarrow> (gostring \<times> nat) off_res" where
  "unpackStringBase64 msg off end =
     (if end > length msg then Err (length msg, ErrMsg ''overflow unpacking base64'')
      else bindR (go_slice msg off end) (\<lambda>b. Ok (toBase64 b, end)))"

definition packStringBase64 :: "gostring \<Rightarrow> bytes \<Rightarrow> nat \<Rightarrow> (bytes \<times> nat) off_res" where
  "packStringBase64 s msg off =
     (case fromBase64 s of
        None \<Rightarrow> Err (length msg, ErrCorrupt)
      | Some b64 \<Rightarrow>
          if off + length b64 > length msg then Err (length msg, ErrMsg ''overflow packing base64'')
          else bindR (write_at msg off b64) (\<lambda>msg. Ok (msg, off + length b64)))"

definition unpackStringBase32 :: "bytes \<Rightarrow> nat \<Rightarrow> nat \<Rightarrow> (gostring \<times> nat) off_res" where
  "unpackStringBase32 msg off end =
     (if end > length msg then Err (length msg, ErrMsg ''overflow unpacking base32'')
      else bindR (go_slice msg off end) (\<lambda>b. Ok (toBase32 b, end)))"

definition packStringBase32 :: "gostring \<Rightarrow> bytes \<Rightarrow> nat \<Rightarrow> (bytes \<times> nat) off_res" where
  "packStringBase32 s msg off =
     (case fromBase32 s of
        None \<Rightarrow> Err (length msg, ErrCorrupt)
      | Some b32 \<Rightarrow>
          if off + length b32 > length msg then Err (length msg, ErrMsg ''overflow packing base32'')
          else bindR (write_at msg off b32) (\<lambda>msg. Ok (msg, off + length b32)))"

subsection \<open>Decoding an encoding\<close>

lemma length_few:
  "length xs = 2 \<Longrightarrow> \<exists>x y. xs = [x, y]" "length xs = 3 \<Longrightarrow> \<exists>x y z. xs = [x, y, z]"
  "length xs = 4 \<Longrightarrow> \<exists>x y z u. xs = [x, y, z, u]"
  by (auto simp: length_Suc_conv eval_nat_numeral)

lemma hex_val_char: "d < 16 \<Longrightarrow> hex_val (hex_char d) = Some d"
proof -
  have "list_all (\<lambda>d. hex_val (hex_char d) = Some d) [0..<16]" by code_simp
  then show "d < 16 \<Longrightarrow> ?thesis" unfolding list_all_iff by (simp del: upt_rec_numeral)
qed

lemma hexDecode_Encode [simp]: "hexDecode (hexEncode bs) = Some bs"
proof (induction bs)
  case (Cons b bs)
  obtain x y where xy: "enc_block 4 2 [b] = [x, y]"
    using length_few(1) [OF length_enc_block] by blast
  have "x < 16" "y < 16" using enc_block_less [of x 4 2 "[b]"] enc_block_less [of y 4 2 "[b]"] xy by auto
  moreover have "dec_block 4 1 [x, y] = [b]" using dec_enc_block [of "[b]" 2 4] xy by simp
  ultimately show ?case using Cons by (simp add: hexEncode_def xy hex_val_char)
qed (simp add: hexEncode_def)

lemma b64_val_char:
  assumes "d < 64"
  shows "b64_val (b64_char d) = Some d" and "b64_char d \<noteq> PAD" and "\<not> is_newline (b64_char d)"
proof -
  have "list_all (\<lambda>d. b64_val (b64_char d) = Some d \<and> b64_char d \<noteq> PAD \<and> \<not> is_newline (b64_char d)) [0..<64]"
    by code_simp
  then have "\<forall>d \<in> set [0..<64]. b64_val (b64_char d) = Some d \<and> b64_char d \<noteq> PAD \<and> \<not> is_newline (b64_char d)"
    unfolding list_all_iff .
  moreover have "d \<in> set [0..<64]" using assms by (simp del: upt_rec_numeral)
  ultimately show "b64_val (b64_char d) = Some d" and "b64_char d \<noteq> PAD" and "\<not> is_newline (b64_char d)"
    by blast+
qed

lemma toBase64_no_newline: "filter (\<lambda>c. \<not> is_newline c) (toBase64 bs) = toBase64 bs"
proof -
  have "\<not> is_newline c" if "c \<in> set (map b64_char (enc_block 6 m bs))" for c m bs
    using that enc_block_less [of _ 6 m bs] b64_val_char(3) by auto
  moreover have "\<not> is_newline PAD" by (simp add: is_newline_def)
  ultimately show ?thesis by (induction bs rule: toBase64.induct) auto
qed

lemma b64_quanta_toBase64: "b64_quanta (toBase64 bs) = Some bs"
proof (induction bs rule: toBase64.induct)
  case (1 a b c r)
  obtain x y z u where e: "enc_block 6 4 [a, b, c] = [x, y, z, u]"
    using length_few(3) [OF length_enc_block] by blast
  have "x < 64" "y < 64" "z < 64" "u < 64"
    using enc_block_less [of _ 6 4 "[a, b, c]"] by (auto simp: e)
  with 1 dec_enc_block [of "[a, b, c]" 4 6] e show ?case by (simp add: b64_val_char eval_nat_numeral)
next
  case (2 a b)
  obtain x y z where e: "enc_block 6 3 [a, b] = [x, y, z]"
    using length_few(2) [OF length_enc_block] by blast
  have "x < 64" "y < 64" "z < 64"
    using enc_block_less [of _ 6 3 "[a, b]"] by (auto simp: e)
  with dec_enc_block [of "[a, b]" 3 6] e show ?case by (simp add: b64_val_char eval_nat_numeral)
next
  case (3 a)
  obtain x y where e: "enc_block 6 2 [a] = [x, y]"
    using length_few(1) [OF length_enc_block] by blast
  have "x < 64" "y < 64" using enc_block_less [of _ 6 2 "[a]"] by (auto simp: e)
  with dec_enc_block [of "[a]" 2 6] e show ?case by (simp add: b64_val_char)
qed simp

lemma fromBase64_toBase64 [simp]: "fromBase64 (toBase64 bs) = Some bs"
  by (simp add: fromBase64_def toBase64_no_newline b64_quanta_toBase64)

lemma b32_val_char:
  assumes "d < 32"
  shows "b32_val (b32_char d) = Some d" and "to_upper (b32_char d) = b32_char d" and "b32_char d \<noteq> 0xFF"
    and "\<not> is_newline (b32_char d)"
proof -
  have "list_all (\<lambda>d. b32_val (b32_char d) = Some d \<and> to_upper (b32_char d) = b32_char d \<and> b32_char d \<noteq> 0xFF \<and>
      \<not> is_newline (b32_char d)) [0..<32]" by code_simp
  then have "\<forall>d \<in> set [0..<32]. b32_val (b32_char d) = Some d \<and> to_upper (b32_char d) = b32_char d \<and>
      b32_char d \<noteq> 0xFF \<and> \<not> is_newline (b32_char d)" unfolding list_all_iff .
  moreover have "d \<in> set [0..<32]" using assms by (simp del: upt_rec_numeral)
  ultimately show "b32_val (b32_char d) = Some d" and "to_upper (b32_char d) = b32_char d" and "b32_char d \<noteq> 0xFF"
    and "\<not> is_newline (b32_char d)" by blast+
qed

lemma toBase32_plain: "filter (\<lambda>c. \<not> is_newline c) (map to_upper (toBase32 bs)) = toBase32 bs"
proof -
  have *: "\<not> is_newline (b32_char x) \<and> to_upper (b32_char x) = b32_char x" if "x \<in> set (enc_block 5 m bs)" for x m bs
    using that enc_block_less [of x 5 m bs] b32_val_char [of x] by simp
  have "\<forall>c \<in> set (toBase32 bs). \<not> is_newline c \<and> to_upper c = c"
    using * by (induction bs rule: toBase32.induct) auto
  then show ?thesis by (simp add: map_idI)
qed

lemma b32_digits_chars:
  assumes "\<forall>d \<in> set es. d < 32" and "length es \<le> k"
  shows "b32_digits k ds (map b32_char es @ s) = b32_digits (k - length es) (ds @ es) s"
  using assms
proof (induction es arbitrary: k ds)
  case (Cons e es)
  obtain k' where k: "k = Suc k'" using Cons.prems(2) by (cases k) auto
  show ?case using Cons.IH [of k' "ds @ [e]"] Cons.prems b32_val_char [of e] by (simp add: k Let_def)
qed simp

lemma b32_quanta_full:
  assumes "\<forall>d \<in> set es. d < 32" and "length es = 8"
  shows "b32_quanta (map b32_char es @ s) = map_option (\<lambda>bs. dec_block 5 5 es @ bs) (b32_quanta s)"
proof -
  have "es \<noteq> []" using assms(2) by auto
  then show ?thesis using b32_digits_chars [OF assms(1), of 8 "[]" s] assms(2)
    by (subst b32_quanta.simps) (simp add: b32_octets_def)
qed

lemma b32_quanta_last:
  assumes "\<forall>d \<in> set es. d < 32" and "length es < 8" and "es \<noteq> []"
  shows "b32_quanta (map b32_char es) = Some (b32_octets es)"
proof -
  obtain k where "8 - length es = Suc k" using assms(2) by (cases "8 - length es") auto
  then show ?thesis using b32_digits_chars [OF assms(1), of 8 "[]" "[]"] assms(2,3)
    by (subst b32_quanta.simps) simp
qed

lemma b32_block:
  assumes "8 * length bs \<le> m * 5" and "bs \<noteq> []"
  shows "\<forall>d \<in> set (enc_block 5 m bs). d < 32" and "dec_block 5 (length bs) (enc_block 5 m bs) = bs"
    and "enc_block 5 m bs \<noteq> []"
proof -
  have "m \<noteq> 0" using assms by (cases bs) auto
  then have "length (enc_block 5 m bs) \<noteq> 0" by (simp only: length_enc_block simp_thms)
  then show "enc_block 5 m bs \<noteq> []" by blast
qed (use enc_block_less [of _ 5 m bs] dec_enc_block [OF assms(1)] in auto)

lemma b32_quanta_toBase32: "b32_quanta (toBase32 bs) = Some bs"
proof (induction bs rule: toBase32.induct)
  case (1 a b c d e r)
  then show ?case using b32_block [of "[a, b, c, d, e]" 8] by (simp add: b32_quanta_full eval_nat_numeral)
next
  case (2 a b c d)
  then show ?case using b32_block [of "[a, b, c, d]" 7]
    by (simp add: b32_quanta_last b32_octets_def eval_nat_numeral)
next
  case (3 a b c)
  then show ?case using b32_block [of "[a, b, c]" 5]
    by (simp add: b32_quanta_last b32_octets_def eval_nat_numeral)
next
  case (4 a b)
  then show ?case using b32_block [of "[a, b]" 4]
    by (simp add: b32_quanta_last b32_octets_def eval_nat_numeral)
next
  case (5 a)
  then show ?case using b32_block [of "[a]" 2]
    by (simp add: b32_quanta_last b32_octets_def eval_nat_numeral)
qed (simp add: b32_quanta.simps)

lemma fromBase32_toBase32 [simp]: "fromBase32 (toBase32 bs) = Some bs"
  by (simp add: fromBase32_def toBase32_plain b32_quanta_toBase32)

subsection \<open>The fields read back\<close>

text \<open>A field whose text is an encoding of the octets on the wire.\<close>

locale text_field =
  fixes dec :: "gostring \<Rightarrow> bytes option" and txt_of :: "bytes \<Rightarrow> gostring"
    and pack :: "gostring \<Rightarrow> bytes \<Rightarrow> nat \<Rightarrow> (bytes \<times> nat) off_res"
    and unpack :: "bytes \<Rightarrow> nat \<Rightarrow> nat \<Rightarrow> (gostring \<times> nat) off_res"
    and perr uerr :: string
  assumes dec_txt_of: "dec (txt_of b) = Some b"
    and pack_law: "pack s msg off =
     (case dec s of
        None \<Rightarrow> Err (length msg, ErrCorrupt)
      | Some h \<Rightarrow>
          if off + length h > length msg then Err (length msg, ErrMsg perr)
          else bindR (write_at msg off h) (\<lambda>msg. Ok (msg, off + length h)))"
    and unpack_law: "unpack msg off e =
     (if e > length msg then Err (length msg, ErrMsg uerr)
      else bindR (go_slice msg off e) (\<lambda>b. Ok (txt_of b, e)))"
begin

lemma unpack_safe_upto:
  "off \<le> e \<Longrightarrow> safe (unpack msg off e) (\<lambda>(v, off'). off \<le> off' \<and> off' \<le> length msg)"
  by (simp add: unpack_law not_less)

lemma pack_any_text:
  assumes "pack s msg off = Ok (msg', off')"
  shows "\<exists>h. dec s = Some h \<and> msg' = put msg off h \<and> off' = off + length h \<and> off' \<le> length msg"
  using assms by (auto simp: pack_law split: option.splits if_splits)

end

sublocale text_field \<subseteq> wire_field pack "\<lambda>s. case dec s of Some h \<Rightarrow> h | None \<Rightarrow> []" "\<lambda>s. \<exists>h. s = txt_of h" unpack
  by standard (auto simp: pack_law unpack_law dec_txt_of not_less split: option.splits if_splits)

interpretation hex: text_field hexDecode hexEncode packStringHex unpackStringHex
  "''overflow packing hex''" "''overflow unpacking hex''"
  by standard (auto simp: packStringHex_def unpackStringHex_def)

interpretation b64: text_field fromBase64 toBase64 packStringBase64 unpackStringBase64
  "''overflow packing base64''" "''overflow unpacking base64''"
  by standard (auto simp: packStringBase64_def unpackStringBase64_def)

interpretation b32: text_field fromBase32 toBase32 packStringBase32 unpackStringBase32
  "''overflow packing base32''" "''overflow unpacking base32''"
  by standard (auto simp: packStringBase32_def unpackStringBase32_def)

lemmas text_unpack_safe [unpack_safe] = hex.unpack_safe_upto b64.unpack_safe_upto b32.unpack_safe_upto

text \<open>The texts that the unpacker writes, in a form that computes, and the octets they stand for.\<close>

definition text_octets :: "(gostring \<Rightarrow> bytes option) \<Rightarrow> gostring \<Rightarrow> bytes" where
  "text_octets dec s = (case dec s of Some h \<Rightarrow> h | None \<Rightarrow> [])"

definition ok_text :: "(gostring \<Rightarrow> bytes option) \<Rightarrow> (bytes \<Rightarrow> gostring) \<Rightarrow> gostring \<Rightarrow> bool" where
  "ok_text dec txt_of s \<longleftrightarrow> dec s \<noteq> None \<and> s = txt_of (text_octets dec s)"

abbreviation ok_hex :: "gostring \<Rightarrow> bool" where "ok_hex \<equiv> ok_text hexDecode hexEncode"
abbreviation ok_base64 :: "gostring \<Rightarrow> bool" where "ok_base64 \<equiv> ok_text fromBase64 toBase64"
abbreviation ok_base32 :: "gostring \<Rightarrow> bool" where "ok_base32 \<equiv> ok_text fromBase32 toBase32"

lemma encode_Nil [simp]: "hexEncode [] = []" "toBase64 [] = []" "toBase32 [] = []"
  by (simp_all add: hexEncode_def)

context text_field
begin

lemma ok_text_ex: "ok_text dec txt_of s \<Longrightarrow> \<exists>h. s = txt_of h"
  by (auto simp: ok_text_def)

lemma text_empty: "ok_text dec txt_of v \<Longrightarrow> text_octets dec v = [] \<Longrightarrow> v = txt_of []"
  by (simp add: ok_text_def)

lemma text_grows:
  assumes "pack v msg off = Ok (m, o1)"
  shows "o1 = off + length (text_octets dec v)"
  using pack_any_text [OF assms] by (auto simp: text_octets_def)

end

text \<open>
  Decoding hexadecimal, base64 and base32hex texts undoes the encoding of any octets.
\<close>

lemma encodings_read_back:
  "hexDecode (hexEncode b) = Some b \<and> fromBase64 (toBase64 b) = Some b \<and> fromBase32 (toBase32 b) = Some b"
  using hex.dec_txt_of b64.dec_txt_of b32.dec_txt_of by simp

end
