(* ===== verification/Apl_Gateway.thy ===== *)
theory Apl_Gateway
  imports Wire_Fields
begin

section \<open>Address prefixes, gateways and lists of names\<close>

text \<open>
  The APL prefixes, the gateway of IPSECKEY and AMTRELAY and the rendezvous servers of HIP in
  \<^verbatim>\<open>msg_helpers.go\<close>, and what they use of Go's \<^verbatim>\<open>net\<close>: masks as byte slices.
\<close>

subsection \<open>net.IPMask\<close>

text \<open>\<^verbatim>\<open>simpleMaskLength\<close>; \<^verbatim>\<open>IPMask.Size\<close> gives 0 for a mask that is not a prefix.\<close>

fun leading_ones :: "nat \<Rightarrow> byte \<Rightarrow> nat" where
  "leading_ones 0 v = 0"
| "leading_ones (Suc k) v = (if v AND 0x80 \<noteq> 0 then Suc (leading_ones k (push_bit 1 v)) else 0)"

fun simpleMaskLength :: "bytes \<Rightarrow> nat option" where
  "simpleMaskLength [] = Some 0"
| "simpleMaskLength (v # r) =
     (if v = 0xFF then map_option (\<lambda>n. 8 + n) (simpleMaskLength r)
      else
        let n = leading_ones 8 v in
        if push_bit n v \<noteq> 0 then None
        else if list_all (\<lambda>x. x = 0) r then Some n else None)"

definition mask_size :: "bytes \<Rightarrow> nat" where
  "mask_size mk = (case simpleMaskLength mk of None \<Rightarrow> 0 | Some n \<Rightarrow> n)"

text \<open>\<^verbatim>\<open>net.CIDRMask\<close> for a number of ones that fits.\<close>

definition prefix_byte :: "nat \<Rightarrow> byte" where
  "prefix_byte n = (if n \<ge> 8 then 0xFF else NOT (drop_bit n 0xFF))"

definition CIDRMask :: "nat \<Rightarrow> nat \<Rightarrow> bytes" where
  "CIDRMask ones len = map (\<lambda>i. prefix_byte (ones - 8 * i)) [0..<len]"

text \<open>\<^verbatim>\<open>IP.Mask\<close> for an address and a mask of the same length.\<close>

definition ip_mask :: "bytes \<Rightarrow> bytes \<Rightarrow> bytes" where
  "ip_mask ip mk = map2 (\<lambda>a b. a AND b) ip mk"

subsection \<open>APL\<close>

record APLPrefix =
  APL_Negation :: bool
  APL_IP :: bytes
  APL_Mask :: bytes

text \<open>The loop that trims trailing zero bytes.\<close>

definition trim_zeros :: "bytes \<Rightarrow> bytes" where
  "trim_zeros addr = rev (dropWhile (\<lambda>b. b = 0) (rev addr))"

definition packDataAplPrefix :: "APLPrefix \<Rightarrow> bytes \<Rightarrow> nat \<Rightarrow> (bytes \<times> nat) off_res" where
  "packDataAplPrefix p msg off =
     (if length (APL_IP p) \<noteq> length (APL_Mask p)
      then Err (length msg, ErrMsg ''address and mask lengths don't match'')
      else
        let prefix = mask_size (APL_Mask p) in
        bindR (go_slice (ip_mask (APL_IP p) (APL_Mask p)) 0 ((prefix + 7) div 8)) (\<lambda>addr.
        bindR (mapErr (fail_at (length msg))
                (if length (APL_IP p) = 4 then packUint16 1 msg off
                 else if length (APL_IP p) = 16 then packUint16 2 msg off
                 else Err (off, ErrMsg ''unrecognized address family''))) (\<lambda>(msg, off).
        bindR (mapErr (fail_at (length msg)) (packUint8 (of_nat prefix) msg off)) (\<lambda>(msg, off).
          let n = (if APL_Negation p then 0x80 else 0);
              addr = trim_zeros addr;
              adflen = of_nat (length addr) AND 0x7F in
          bindR (mapErr (fail_at (length msg)) (packUint8 (n OR adflen) msg off)) (\<lambda>(msg, off).
            if off + length addr > length msg
            then Err (length msg, ErrMsg ''overflow packing APL prefix'')
            else bindR (write_at msg off addr) (\<lambda>msg. Ok (msg, off + length addr)))))))"

fun packDataApl_loop :: "nat \<Rightarrow> APLPrefix list \<Rightarrow> bytes \<Rightarrow> nat \<Rightarrow> (bytes \<times> nat) off_res" where
  "packDataApl_loop n [] msg off = Ok (msg, off)"
| "packDataApl_loop n (p # ps) msg off =
     bindR (mapErr (fail_at n) (packDataAplPrefix p msg off)) (\<lambda>(msg, off).
       packDataApl_loop n ps msg off)"

definition packDataApl :: "APLPrefix list \<Rightarrow> bytes \<Rightarrow> nat \<Rightarrow> (bytes \<times> nat) off_res" where
  "packDataApl ps msg off = packDataApl_loop (length msg) ps msg off"

definition unpackDataAplPrefix :: "bytes \<Rightarrow> nat \<Rightarrow> (APLPrefix \<times> nat) off_res" where
  "unpackDataAplPrefix msg off =
     (let overflow = (\<lambda>_. (length msg, ErrMsg ''overflow unpacking APL prefix'')) in
      bindR (mapErr overflow (unpackUint16 msg off)) (\<lambda>(family, off).
      bindR (mapErr overflow (unpackUint8 msg off)) (\<lambda>(prefix, off).
      bindR (mapErr overflow (unpackUint8 msg off)) (\<lambda>(nlen, off).
      bindR (if family = 1 then Ok 4 else if family = 2 then Ok 16
             else Err (length msg, ErrMsg ''unrecognized APL address family'')) (\<lambda>iplen.
        if unat prefix > 8 * iplen then Err (length msg, ErrMsg ''APL prefix too long'')
        else
          let afdlen = unat (nlen AND 0x7F) in
          if afdlen > iplen then Err (length msg, ErrMsg ''APL length too long'')
          else if off + afdlen > length msg
          then Err (length msg, ErrMsg ''overflow unpacking APL address'')
          else
            bindR (go_slice msg off (off + afdlen)) (\<lambda>a.
              let ip = a @ replicate (iplen - afdlen) 0; off = off + afdlen in
              if afdlen > 0 \<and> ip ! (afdlen - 1) = 0
              then Err (length msg, ErrMsg ''extra APL address bits'')
              else Ok (\<lparr>APL_Negation = (nlen AND 0x80 \<noteq> 0), APL_IP = ip,
                        APL_Mask = CIDRMask (unat prefix) iplen\<rparr>, off)))))))"

lemma unpackDataAplPrefix_safe:
  "safe (unpackDataAplPrefix msg off) (\<lambda>(v, off'). off < off' \<and> off' \<le> length msg)"
proof -
  have "safe (unpackUint8 msg off) (\<lambda>(v, off'). off < off' \<and> off' \<le> length msg)"
    "safe (unpackUint16 msg off) (\<lambda>(v, off'). off < off' \<and> off' \<le> length msg)" for off
    by (simp_all add: unpackUint8_def unpackUint16_def not_less)
  then show ?thesis
    unfolding unpackDataAplPrefix_def Let_def
    by (intro safe_bind [where Q = "\<lambda>(v, off'). off < off' \<and> off' \<le> length msg"])
      (fastforce simp: Let_def intro!: safe_intros)+
qed

lemma unpackDataAplPrefix_progress:
  "unpackDataAplPrefix msg off = Ok (p, off') \<Longrightarrow> off < off' \<and> off' \<le> length msg"
  using unpackDataAplPrefix_safe [of msg off] by simp

function unpackDataApl_loop :: "bytes \<Rightarrow> nat \<Rightarrow> APLPrefix list \<Rightarrow> (APLPrefix list \<times> nat) off_res" where
  "unpackDataApl_loop msg off result =
     (if off < length msg
      then bindR (mapErr (fail_at (length msg)) (unpackDataAplPrefix msg off)) (\<lambda>(p, off).
             unpackDataApl_loop msg off (result @ [p]))
      else Ok (result, off))"
  by pat_completeness auto
termination
  by (relation "measure (\<lambda>(msg, off, result). length msg - off)")
    (auto dest!: unpackDataAplPrefix_progress)

declare unpackDataApl_loop.simps [simp del]

definition unpackDataApl :: "bytes \<Rightarrow> nat \<Rightarrow> (APLPrefix list \<times> nat) off_res" where
  "unpackDataApl msg off = unpackDataApl_loop msg off []"

subsection \<open>Gateways\<close>

definition unpackIPSECGateway :: "bytes \<Rightarrow> nat \<Rightarrow> byte \<Rightarrow> ((bytes \<times> gostring) \<times> nat) off_res" where
  "unpackIPSECGateway msg off gatewayType =
     (if gatewayType = 0 then Ok (([], []), off)
      else if gatewayType = 1 then bindR (unpackDataA msg off) (\<lambda>(a, off). Ok ((a, []), off))
      else if gatewayType = 2 then bindR (unpackDataAAAA msg off) (\<lambda>(a, off). Ok ((a, []), off))
      else if gatewayType = 3 then bindR (UnpackDomainName msg off) (\<lambda>(s, off). Ok (([], s), off))
      else Ok (([], []), off))"

definition packIPSECGateway ::
  "bytes \<Rightarrow> gostring \<Rightarrow> bytes \<Rightarrow> nat \<Rightarrow> byte \<Rightarrow> compressionMap \<Rightarrow> bool \<Rightarrow> (bytes \<times> compressionMap \<times> nat) off_res" where
  "packIPSECGateway gatewayAddr gatewayString msg off gatewayType compression compress =
     (if gatewayType = 0 then Ok (msg, compression, off)
      else if gatewayType = 1 then
        bindR (packDataA gatewayAddr msg off) (\<lambda>(msg, off). Ok (msg, compression, off))
      else if gatewayType = 2 then
        bindR (packDataAAAA gatewayAddr msg off) (\<lambda>(msg, off). Ok (msg, compression, off))
      else if gatewayType = 3 then packDomainName gatewayString msg off compression compress
      else Ok (msg, compression, off))"

subsection \<open>Lists of names\<close>

fun packDataDomainNames_loop ::
  "nat \<Rightarrow> gostring list \<Rightarrow> bytes \<Rightarrow> nat \<Rightarrow> compressionMap \<Rightarrow> bool \<Rightarrow> (bytes \<times> compressionMap \<times> nat) off_res" where
  "packDataDomainNames_loop n [] msg off compression compress = Ok (msg, compression, off)"
| "packDataDomainNames_loop n (s # ss) msg off compression compress =
     bindR (mapErr (fail_at n) (packDomainName s msg off compression compress))
       (\<lambda>(msg, compression, off). packDataDomainNames_loop n ss msg off compression compress)"

definition packDataDomainNames ::
  "gostring list \<Rightarrow> bytes \<Rightarrow> nat \<Rightarrow> compressionMap \<Rightarrow> bool \<Rightarrow> (bytes \<times> compressionMap \<times> nat) off_res" where
  "packDataDomainNames names msg off compression compress =
     packDataDomainNames_loop (length msg) names msg off compression compress"

lemma UnpackDomainName_progress:
  "UnpackDomainName msg off = Ok (s, off') \<Longrightarrow> off < off' \<and> off' \<le> length msg"
  using UnpackDomainName_iff name_at_bounds by blast

function unpackDataDomainNames_loop ::
  "bytes \<Rightarrow> nat \<Rightarrow> nat \<Rightarrow> gostring list \<Rightarrow> (gostring list \<times> nat) off_res" where
  "unpackDataDomainNames_loop msg off end servers =
     (if off < end
      then bindR (mapErr (fail_at (length msg)) (UnpackDomainName msg off)) (\<lambda>(s, off).
             unpackDataDomainNames_loop msg off end (servers @ [s]))
      else Ok (servers, off))"
  by pat_completeness auto
termination
  by (relation "measure (\<lambda>(msg, off, end, servers). end - off)")
    (auto dest!: UnpackDomainName_progress)

declare unpackDataDomainNames_loop.simps [simp del]

definition unpackDataDomainNames :: "bytes \<Rightarrow> nat \<Rightarrow> nat \<Rightarrow> (gostring list \<times> nat) off_res" where
  "unpackDataDomainNames msg off end =
     (if end > length msg then Err (length msg, ErrMsg ''overflow unpacking domain names'')
      else unpackDataDomainNames_loop msg off end [])"

subsection \<open>Names read back\<close>

lemma cm_sound_extends:
  assumes "cm_sound cm (take off msg)" and "extends msg off msg' off'"
  shows "cm_sound cm (take off' msg')"
proof -
  have "take off' msg' = take off msg @ drop off (take off' msg')"
    using assms(2) append_take_drop_id [of off "take off' msg'"] by (simp add: extends_def min_def)
  then show ?thesis using cm_sound_append [OF assms(1)] by metis
qed

text \<open>The names a record may carry: text as the unpacker writes it, and within the limits.\<close>

definition ok_name :: "gostring \<Rightarrow> bool" where
  "ok_name s \<longleftrightarrow>
     IsFqdn s \<and>
     (case name_labels s of
        None \<Rightarrow> False
      | Some ls \<Rightarrow> s = present ls \<and> wire_len ls \<le> 255 \<and> length ls \<le> maxCompressionPointers)"

lemma packed_name:
  assumes "ok_name s" and "off \<le> length msg" and "cm_sound cm (take off msg)"
    and "packDomainName s msg off cm compress = Ok (m1, c1, o1)"
  shows "extends msg off m1 o1 \<and> cm_sound c1 (take o1 m1) \<and> off < o1 \<and> (agree M m1 o1 \<longrightarrow> UnpackDomainName M off = Ok (s, o1))"
proof -
  obtain ls where s: "IsFqdn s" "name_labels s = Some ls" "s = present ls" "wire_len ls \<le> 255" "length ls \<le> maxCompressionPointers"
    using assms(1) by (auto simp: ok_name_def split: option.splits)
  note R = pack_unpack_name [OF s(1,2) assms(3,2,4)]
  from packDomainName_packs [OF s(1,2) cm_sound_nonneg [OF assms(3)], of msg off compress] assms(4)
  have e: "m1 = put msg off (fst (enc_name compress cm off s))" "o1 = off + length (fst (enc_name compress cm off s))"
    "o1 \<le> length msg" by (auto simp: packs_def)
  have ext: "extends msg off m1 o1" using e assms(2) by (auto simp: extends_def)
  from R(2) obtain k where k: "k \<le> length ls" "name_at (take o1 m1) off ls k o1" by blast
  then have lt: "off < o1" using name_at_bounds by blast
  have "UnpackDomainName M off = Ok (s, o1)" if "agree M m1 o1"
  proof -
    have "name_at M off ls k o1" using k(2) that name_at_take [of o1 M] by (simp add: agree_def)
    moreover have "k \<le> maxCompressionPointers" using k(1) s(5) by simp
    ultimately show ?thesis unfolding UnpackDomainName_iff using s(3,4) by blast
  qed
  with ext lt R(1) show ?thesis by blast
qed

lemma packed_names:
  assumes "list_all ok_name ss" and "off \<le> length msg" and "cm_sound cm (take off msg)"
    and "packDataDomainNames_loop n ss msg off cm compress = Ok (m1, c1, o1)"
  shows "extends msg off m1 o1 \<and> cm_sound c1 (take o1 m1) \<and>
    (\<forall>acc. agree M m1 o1 \<longrightarrow> unpackDataDomainNames_loop M off o1 acc = Ok (acc @ ss, o1)) \<and> (ss = [] \<longleftrightarrow> off = o1)"
  using assms
proof (induction ss arbitrary: msg off cm)
  case Nil
  then show ?case by (simp add: extends_refl unpackDataDomainNames_loop.simps)
next
  case (Cons s ss)
  from Cons.prems(4) obtain m c o' where p: "packDomainName s msg off cm compress = Ok (m, c, o')"
    "packDataDomainNames_loop n ss m o' c compress = Ok (m1, c1, o1)" by (auto simp: bindR_eq_Ok)
  have s: "ok_name s" "list_all ok_name ss" using Cons.prems(1) by auto
  note S = packed_name [OF s(1) Cons.prems(2,3) p(1), of M]
  have "o' \<le> length m" using S by (simp add: extends_def)
  from Cons.IH [OF s(2) this _ p(2)] S have R: "extends m o' m1 o1" "cm_sound c1 (take o1 m1)"
    "\<And>acc. agree M m1 o1 \<Longrightarrow> unpackDataDomainNames_loop M o' o1 acc = Ok (acc @ ss, o1)" by auto
  have "unpackDataDomainNames_loop M off o1 acc = Ok (acc @ s # ss, o1)" if "agree M m1 o1" for acc
  proof -
    have "UnpackDomainName M off = Ok (s, o')" using S agree_extends [OF that R(1)] by simp
    moreover have "off < o1" using S R(1) by (simp add: extends_def)
    ultimately show ?thesis using R(3) [OF that, of "acc @ [s]"]
      by (subst unpackDataDomainNames_loop.simps) simp
  qed
  moreover have "off < o1" using S R(1) by (simp add: extends_def)
  ultimately show ?case using extends_trans [OF _ R(1)] S R(2) by auto
qed

subsection \<open>Gateways read back\<close>

definition ok_gateway :: "byte \<Rightarrow> bytes \<Rightarrow> gostring \<Rightarrow> bool" where
  "ok_gateway t addr host \<longleftrightarrow>
     (if t = 1 then length addr = 4 \<and> host = []
      else if t = 2 then length addr = 16 \<and> host = []
      else if t = 3 then addr = [] \<and> ok_name host
      else addr = [] \<and> host = [])"

lemma packed_gateway:
  assumes "ok_gateway t a h" and "off \<le> length msg" and "cm_sound cm (take off msg)"
    and "packIPSECGateway a h msg off t cm compress = Ok (m1, c1, o1)"
  shows "extends msg off m1 o1 \<and> cm_sound c1 (take o1 m1) \<and> (agree M m1 o1 \<longrightarrow> unpackIPSECGateway M off t = Ok ((a, h), o1)) \<and>
    (off = o1 \<longrightarrow> a = [] \<and> h = [])"
proof -
  consider (v4) "t = 1" | (v6) "t = 2" | (host) "t = 3" | (none) "t \<noteq> 1" "t \<noteq> 2" "t \<noteq> 3" by blast
  then show ?thesis
  proof cases
    case v4
    then have p: "packDataA a msg off = Ok (m1, o1)" "c1 = cm" "length a = 4" "h = []"
      using assms by (auto simp: packIPSECGateway_def ok_gateway_def bindR_eq_Ok)
    from ip4.pack_extends [OF p(3,1) assms(2)] ip4.pack_result [OF p(3,1)] ip4.reads_back [OF p(3,1)] cm_sound_extends [OF assms(3)] p v4
    show ?thesis by (auto simp: unpackIPSECGateway_def)
  next
    case v6
    then have p: "packDataAAAA a msg off = Ok (m1, o1)" "c1 = cm" "length a = 16" "h = []"
      using assms by (auto simp: packIPSECGateway_def ok_gateway_def bindR_eq_Ok)
    from ip6.pack_extends [OF p(3,1) assms(2)] ip6.pack_result [OF p(3,1)] ip6.reads_back [OF p(3,1)] cm_sound_extends [OF assms(3)] p v6
    show ?thesis by (auto simp: unpackIPSECGateway_def)
  next
    case host
    then have p: "packDomainName h msg off cm compress = Ok (m1, c1, o1)" "a = []" "ok_name h"
      using assms by (auto simp: packIPSECGateway_def ok_gateway_def)
    from packed_name [OF p(3) assms(2,3) p(1), of M] p host show ?thesis by (auto simp: unpackIPSECGateway_def)
  next
    case none
    then show ?thesis using assms by (auto simp: packIPSECGateway_def unpackIPSECGateway_def ok_gateway_def extends_refl split: if_splits)
  qed
qed

subsection \<open>Prefixes read back\<close>

lemma CIDRMask_Suc: "CIDRMask n (Suc len) = prefix_byte n # CIDRMask (n - 8) len"
  by (simp add: CIDRMask_def upt_conv_Cons map_Suc_upt [symmetric] comp_def del: upt_Suc)

lemma CIDRMask_0 [simp]: "CIDRMask n 0 = []"
  by (simp add: CIDRMask_def)

lemma length_CIDRMask [simp]: "length (CIDRMask n len) = len"
  by (simp add: CIDRMask_def)

lemma prefix_bytes:
  "\<forall>n \<in> set [0..<8]. prefix_byte n \<noteq> 0xFF \<and> leading_ones 8 (prefix_byte n) = n \<and> push_bit n (prefix_byte n) = 0"
  by code_simp

lemma simpleMaskLength_prefix_byte:
  assumes "n < 8" and "list_all (\<lambda>x. x = 0) r"
  shows "simpleMaskLength (prefix_byte n # r) = Some n"
  using bspec [OF prefix_bytes, of n] assms by (simp del: leading_ones.simps)

lemma prefix_byte_0: "prefix_byte 0 = 0"
  by (simp add: prefix_byte_def)

lemma CIDRMask_zeros: "list_all (\<lambda>x. x = 0) (CIDRMask 0 len)"
  by (simp add: CIDRMask_def prefix_byte_0 list_all_iff)

lemma simpleMaskLength_CIDRMask: "n \<le> 8 * len \<Longrightarrow> simpleMaskLength (CIDRMask n len) = Some n"
proof (induction len arbitrary: n)
  case (Suc len)
  show ?case
  proof (cases "n < 8")
    case True
    then show ?thesis by (simp only: CIDRMask_Suc) (use CIDRMask_zeros in \<open>simp add: simpleMaskLength_prefix_byte del: simpleMaskLength.simps\<close>)
  next
    case False
    then have "prefix_byte n = 0xFF" by (simp add: prefix_byte_def)
    then show ?thesis using Suc.IH [of "n - 8"] Suc.prems False by (simp add: CIDRMask_Suc)
  qed
qed simp

lemma leading_ones_le: "leading_ones k v \<le> k"
  by (induction k arbitrary: v) auto

lemma simpleMaskLength_le: "simpleMaskLength mk = Some n \<Longrightarrow> n \<le> 8 * length mk"
proof (induction mk arbitrary: n)
  case (Cons v r)
  show ?case
  proof (cases "v = 0xFF")
    case True
    with Cons show ?thesis by auto
  next
    case False
    with Cons.prems leading_ones_le [of 8 v] show ?thesis by (auto simp: Let_def split: if_splits simp del: leading_ones.simps)
  qed
qed simp

lemma mask_size_le: "mask_size mk \<le> 8 * length mk"
  using simpleMaskLength_le [of mk] by (auto simp: mask_size_def split: option.splits)

text \<open>An address under its mask is zero after the prefix.\<close>

lemma masked_zeros:
  assumes "ip_mask ip (CIDRMask n (length ip)) = ip" and "(n + 7) div 8 \<le> k"
  shows "take k ip @ replicate (length ip - k) 0 = ip"
proof (rule nth_equalityI)
  fix i
  assume "i < length (take k ip @ replicate (length ip - k) 0)"
  then have i: "i < length ip" by auto
  show "(take k ip @ replicate (length ip - k) 0) ! i = ip ! i"
  proof (cases "i < k")
    case False
    then have "n - 8 * i = 0" using assms(2) by linarith
    moreover have "ip ! i = ip_mask ip (CIDRMask n (length ip)) ! i" using assms(1) by simp
    ultimately have "ip ! i = 0" using i by (simp add: ip_mask_def CIDRMask_def prefix_byte_0)
    then show ?thesis using False i by (simp add: nth_append)
  qed (use i in \<open>simp add: nth_append\<close>)
qed auto

lemma trim_zeros_append: "trim_zeros a @ replicate (length a - length (trim_zeros a)) 0 = a"
proof -
  let ?z = "takeWhile (\<lambda>b. b = 0) (rev a)"
  have "?z = replicate (length ?z) 0" by (rule replicate_length_same [symmetric]) (auto dest: set_takeWhileD)
  moreover have "rev a = ?z @ dropWhile (\<lambda>b. b = 0) (rev a)" by simp
  ultimately have "a = trim_zeros a @ replicate (length ?z) 0"
    by (metis rev_append rev_replicate rev_rev_ident trim_zeros_def)
  then show ?thesis by (metis add_diff_cancel_left' length_append length_replicate)
qed

lemma trim_zeros_last: "trim_zeros a \<noteq> [] \<Longrightarrow> last (trim_zeros a) \<noteq> 0"
  using hd_dropWhile [of "\<lambda>b. b = 0" "rev a"] by (simp add: trim_zeros_def last_rev)

lemma length_trim_zeros: "length (trim_zeros a) \<le> length a"
  using length_dropWhile_le [of "\<lambda>b. b = 0" "rev a"] by (simp add: trim_zeros_def)


text \<open>The prefixes that read back: a real prefix mask, and no bits beyond it.\<close>

definition ok_prefix :: "APLPrefix \<Rightarrow> bool" where
  "ok_prefix p \<longleftrightarrow>
     (length (APL_IP p) = 4 \<or> length (APL_IP p) = 16) \<and>
     APL_Mask p = CIDRMask (mask_size (APL_Mask p)) (length (APL_IP p)) \<and>
     ip_mask (APL_IP p) (APL_Mask p) = APL_IP p"

definition apl_addr :: "APLPrefix \<Rightarrow> bytes" where
  "apl_addr p = trim_zeros (take ((mask_size (APL_Mask p) + 7) div 8) (APL_IP p))"

definition enc_prefix :: "APLPrefix \<Rightarrow> bytes" where
  "enc_prefix p =
     be16 (if length (APL_IP p) = 4 then 1 else 2) @ [of_nat (mask_size (APL_Mask p))] @
     [(if APL_Negation p then 0x80 else 0) OR of_nat (length (apl_addr p))] @ apl_addr p"

lemma afdlen_bits:
  "\<forall>k \<in> set [0..<17]. (of_nat k :: byte) AND 0x7F = of_nat k \<and> (0x80 OR (of_nat k :: byte)) AND 0x7F = of_nat k \<and>
     (0x80 OR (of_nat k :: byte)) AND 0x80 \<noteq> 0 \<and> (of_nat k :: byte) AND 0x80 = 0 \<and> unat (of_nat k :: byte) = k"
  by code_simp

lemma ok_prefix_facts:
  assumes "ok_prefix p"
  defines "n \<equiv> mask_size (APL_Mask p)"
  shows "length (APL_Mask p) = length (APL_IP p)" and "(n + 7) div 8 \<le> length (APL_IP p)" and "n \<le> 8 * length (APL_IP p)"
    and "length (apl_addr p) \<le> length (APL_IP p)" and "length (apl_addr p) < 17" and "n < 256"
    and "apl_addr p @ replicate (length (APL_IP p) - length (apl_addr p)) 0 = APL_IP p"
proof -
  have m: "APL_Mask p = CIDRMask n (length (APL_IP p))" and len: "length (APL_IP p) = 4 \<or> length (APL_IP p) = 16"
    and ip: "ip_mask (APL_IP p) (APL_Mask p) = APL_IP p" using assms by (auto simp: ok_prefix_def)
  show l: "length (APL_Mask p) = length (APL_IP p)" by (subst m) simp
  show n: "n \<le> 8 * length (APL_IP p)" using mask_size_le [of "APL_Mask p"] l by (simp add: n_def)
  then show k: "(n + 7) div 8 \<le> length (APL_IP p)" by linarith
  let ?a = "take ((n + 7) div 8) (APL_IP p)"
  have a: "apl_addr p = trim_zeros ?a" by (simp add: apl_addr_def n_def)
  have le: "length (apl_addr p) \<le> (n + 7) div 8" using length_trim_zeros [of ?a] k by (simp add: a)
  then show "length (apl_addr p) \<le> length (APL_IP p)" using k by simp
  then show "length (apl_addr p) < 17" using len by auto
  show "n < 256" using n len by auto
  have "?a @ replicate (length (APL_IP p) - (n + 7) div 8) 0 = APL_IP p"
    using ip m by (intro masked_zeros [where n = n]) auto
  moreover have "apl_addr p @ replicate ((n + 7) div 8 - length (apl_addr p)) 0 = ?a"
    using trim_zeros_append [of ?a] k by (simp add: a min_absorb2)
  ultimately have "apl_addr p @ replicate ((n + 7) div 8 - length (apl_addr p)) 0 @ replicate (length (APL_IP p) - (n + 7) div 8) 0 = APL_IP p"
    by (simp flip: append_assoc)
  then show "apl_addr p @ replicate (length (APL_IP p) - length (apl_addr p)) 0 = APL_IP p"
    using le k by (simp add: replicate_add [symmetric])
qed

lemma packDataAplPrefix_enc:
  assumes "ok_prefix p"
  shows "off + length (enc_prefix p) \<le> length msg \<Longrightarrow>
           packDataAplPrefix p msg off = Ok (put msg off (enc_prefix p), off + length (enc_prefix p))"
    and "packDataAplPrefix p msg off = Ok r \<Longrightarrow> off + length (enc_prefix p) \<le> length msg"
proof -
  note F = ok_prefix_facts [OF assms]
  have len: "length (APL_IP p) = 4 \<or> length (APL_IP p) = 16" and ip: "ip_mask (APL_IP p) (APL_Mask p) = APL_IP p"
    using assms by (auto simp: ok_prefix_def)
  have and7F: "of_nat (length (apl_addr p)) AND (0x7F :: byte) = of_nat (length (apl_addr p))"
    using bspec [OF afdlen_bits, of "length (apl_addr p)"] F(5) by simp
  have eq: "packDataAplPrefix p msg off =
      bindR (mapErr (fail_at (length msg)) (packUint16 (if length (APL_IP p) = 4 then 1 else 2) msg off)) (\<lambda>(msg, off).
      bindR (mapErr (fail_at (length msg)) (packUint8 (of_nat (mask_size (APL_Mask p))) msg off)) (\<lambda>(msg, off).
      bindR (mapErr (fail_at (length msg)) (packUint8 ((if APL_Negation p then 0x80 else 0) OR of_nat (length (apl_addr p))) msg off)) (\<lambda>(msg, off).
        if off + length (apl_addr p) > length msg then Err (length msg, ErrMsg ''overflow packing APL prefix'')
        else bindR (write_at msg off (apl_addr p)) (\<lambda>msg. Ok (msg, off + length (apl_addr p))))))"
    using len F(1,2) and7F by (auto simp: packDataAplPrefix_def Let_def ip apl_addr_def [symmetric] cong: if_cong)
  show "packDataAplPrefix p msg off = Ok (put msg off (enc_prefix p), off + length (enc_prefix p))"
    if "off + length (enc_prefix p) \<le> length msg"
    unfolding eq using that by (simp add: packUint16_def packUint8_def put_put_at enc_prefix_def)
  show "off + length (enc_prefix p) \<le> length msg" if "packDataAplPrefix p msg off = Ok r"
    using that unfolding eq by (auto simp: packUint16_def packUint8_def bindR_eq_Ok enc_prefix_def split: if_splits)
qed


lemma unpackDataAplPrefix_enc:
  assumes "ok_prefix p" and "off + length (enc_prefix p) \<le> length M" and "take (length (enc_prefix p)) (drop off M) = enc_prefix p"
  shows "unpackDataAplPrefix M off = Ok (p, off + length (enc_prefix p))"
proof -
  note F = ok_prefix_facts [OF assms(1)]
  define fam :: u16 where "fam = (if length (APL_IP p) = 4 then 1 else 2)"
  define pre :: byte where "pre = of_nat (mask_size (APL_Mask p))"
  define nlen :: byte where "nlen = (if APL_Negation p then 0x80 else 0) OR of_nat (length (apl_addr p))"
  obtain r where d: "drop off M = be16 fam @ pre # nlen # apl_addr p @ r"
    using append_take_drop_id [of "length (enc_prefix p)" "drop off M"] assms(3)
    by (simp add: enc_prefix_def fam_def pre_def nlen_def) (metis append_assoc append_Cons)
  have len: "length M = off + 4 + length (apl_addr p) + length r"
    using arg_cong [OF d, of length] assms(2) by (simp add: enc_prefix_def)
  have d2: "drop (off + 2) M = pre # nlen # apl_addr p @ r" using arg_cong [OF d, of "drop 2"] by (simp add: add.commute)
  have d4: "drop (off + 4) M = apl_addr p @ r" using arg_cong [OF d2, of "drop 2"] by (simp add: eval_nat_numeral)
  have d3: "drop (off + 3) M = nlen # apl_addr p @ r" using arg_cong [OF d2, of "drop 1"] by (simp add: eval_nat_numeral)
  note n2 = nth_via_drop [OF d2] nth_via_drop [OF d3]
  have fam: "unpackUint16 M off = Ok (fam, off + 2)" using d len by (simp add: unpackUint16_def)
  have pre: "unpackUint8 M (off + 2) = Ok (pre, off + 3)" using n2 len by (simp add: unpackUint8_def)
  have nlen: "unpackUint8 M (off + 3) = Ok (nlen, off + 4)" using n2 len by (simp add: unpackUint8_def)
  have upre: "unat pre = mask_size (APL_Mask p)" using F(6) by (simp add: pre_def unat_of_nat)
  have unl: "unat (nlen AND 0x7F) = length (apl_addr p)" "nlen AND 0x80 \<noteq> 0 \<longleftrightarrow> APL_Negation p"
    using bspec [OF afdlen_bits, of "length (apl_addr p)"] F(5) by (auto simp: nlen_def)
  have "apl_addr p \<noteq> [] \<Longrightarrow> (apl_addr p @ replicate (length (APL_IP p) - length (apl_addr p)) 0) ! (length (apl_addr p) - 1) \<noteq> 0"
    using trim_zeros_last [of "take ((mask_size (APL_Mask p) + 7) div 8) (APL_IP p)"]
    by (auto simp: apl_addr_def [symmetric] last_conv_nth nth_append)
  then have zero: "\<not> (0 < length (apl_addr p) \<and> APL_IP p ! (length (apl_addr p) - 1) = 0)" unfolding F(7) by auto
  have len_ip: "length (APL_IP p) = 4 \<or> length (APL_IP p) = 16" and m: "CIDRMask (mask_size (APL_Mask p)) (length (APL_IP p)) = APL_Mask p"
    using assms(1) by (auto simp: ok_prefix_def)
  have slice: "go_slice M (off + 4) (off + 4 + length (apl_addr p)) = (Ok (apl_addr p) :: bytes off_res)"
    using d4 len by simp
  have iplen: "(if fam = 1 then Ok 4 else if fam = 2 then Ok 16 else Err (length M, ErrMsg ''unrecognized APL address family'')) =
      (Ok (length (APL_IP p)) :: nat off_res)" using len_ip by (auto simp: fam_def)
  have "unpackDataAplPrefix M off =
      Ok (\<lparr>APL_Negation = APL_Negation p, APL_IP = APL_IP p, APL_Mask = APL_Mask p\<rparr>, off + 4 + length (apl_addr p))"
    unfolding unpackDataAplPrefix_def Let_def fam
    using F(3,4) len zero by (simp add: pre [simplified] nlen [simplified] iplen upre unl slice [simplified] F(7) m)
  then show ?thesis by (simp add: enc_prefix_def)
qed


definition ok_apl :: "APLPrefix list \<Rightarrow> bool" where
  "ok_apl ps \<longleftrightarrow> list_all ok_prefix ps"

definition enc_apl :: "APLPrefix list \<Rightarrow> bytes" where
  "enc_apl ps = concat (map enc_prefix ps)"

lemma enc_apl_simps [simp]: "enc_apl [] = []" "enc_apl (p # ps) = enc_prefix p @ enc_apl ps"
  by (simp_all add: enc_apl_def)

lemma enc_prefix_neq_Nil [simp]: "enc_prefix p \<noteq> []"
  by (simp add: enc_prefix_def)

lemma enc_apl_Nil [simp]: "enc_apl ps = [] \<longleftrightarrow> ps = []"
  by (cases ps) auto

lemma packDataApl_loop_enc:
  assumes "ok_apl ps"
  shows "off + length (enc_apl ps) \<le> length msg \<Longrightarrow>
           packDataApl_loop n ps msg off = Ok (put msg off (enc_apl ps), off + length (enc_apl ps))"
    and "packDataApl_loop n ps msg off = Ok r \<Longrightarrow> enc_apl ps \<noteq> [] \<longrightarrow> off + length (enc_apl ps) \<le> length msg"
  using assms
proof (induction ps arbitrary: msg off)
  case (Cons p ps)
  {
    case 1
    then show ?case using Cons.IH(1) [of "off + length (enc_prefix p)" "put msg off (enc_prefix p)"] packDataAplPrefix_enc(1) [of p off msg]
      by (simp add: ok_apl_def put_put_at add.assoc)
  next
    case 2
    then have p: "ok_prefix p" and ps: "ok_apl ps" by (auto simp: ok_apl_def)
    from 2 obtain r1 where r1: "packDataAplPrefix p msg off = Ok r1" by (auto simp: bindR_eq_Ok)
    note fit = packDataAplPrefix_enc(2) [OF p r1]
    note ok = packDataAplPrefix_enc(1) [OF p fit]
    from 2 ok have "packDataApl_loop n ps (put msg off (enc_prefix p)) (off + length (enc_prefix p)) = Ok r" by simp
    from Cons.IH(2) [OF this ps] fit show ?case by (cases "enc_apl ps = []") auto
  }
qed auto

lemma packDataAplPrefix_safe: "packDataAplPrefix p msg off \<noteq> Panic"
proof -
  have "(mask_size (APL_Mask p) + 7) div 8 \<le> length (APL_Mask p)" using mask_size_le [of "APL_Mask p"] by linarith
  then show ?thesis
    using u16.pack_safe u8.pack_safe
    by (auto simp: packDataAplPrefix_def Let_def bindR_eq_Panic go_slice_def ip_mask_def split: if_splits)
qed

lemma packDataApl_loop_safe: "packDataApl_loop n ps msg off \<noteq> Panic"
  by (induction ps arbitrary: msg off) (auto simp: bindR_eq_Panic packDataAplPrefix_safe)

lemma unpackDataApl_loop_enc:
  assumes "ok_apl ps" and "off \<le> length M" and "drop off M = enc_apl ps"
  shows "unpackDataApl_loop M off acc = Ok (acc @ ps, length M)"
  using assms
proof (induction ps arbitrary: off acc)
  case Nil
  then show ?case by (simp add: unpackDataApl_loop.simps)
next
  case (Cons p ps)
  have len: "length M = off + length (enc_prefix p) + length (enc_apl ps)"
    using arg_cong [OF Cons.prems(3), of length] Cons.prems(2) by simp
  have "unpackDataAplPrefix M off = Ok (p, off + length (enc_prefix p))"
    using Cons.prems len by (intro unpackDataAplPrefix_enc) (auto simp: ok_apl_def)
  moreover have "drop (off + length (enc_prefix p)) M = enc_apl ps"
    using arg_cong [OF Cons.prems(3), of "drop (length (enc_prefix p))"] by (simp add: add.commute)
  moreover have "off < length M" using len enc_prefix_neq_Nil [of p] by (cases "enc_prefix p") auto
  ultimately show ?case using Cons.IH [of "off + length (enc_prefix p)" "acc @ [p]"] Cons.prems(1) len
    by (subst unpackDataApl_loop.simps) (simp add: ok_apl_def)
qed

interpretation apl: rest_field packDataApl enc_apl ok_apl "\<lambda>M off e. unpackDataApl M off"
proof
  fix v and msg :: bytes and off and r :: "bytes \<times> nat"
  assume ok: "ok_apl v"
  show "r = (put msg off (enc_apl v), off + length (enc_apl v)) \<and> (enc_apl v \<noteq> [] \<longrightarrow> off + length (enc_apl v) \<le> length msg)"
    if "packDataApl v msg off = Ok r"
  proof -
    have p: "packDataApl_loop (length msg) v msg off = Ok r" using that by (simp add: packDataApl_def)
    show ?thesis using packDataApl_loop_enc(2) [OF ok p] packDataApl_loop_enc(1) [OF ok, of off msg "length msg"] p by (cases v) auto
  qed
  show "\<exists>r. packDataApl v msg off = Ok r" if "off + length (enc_apl v) < length msg"
    using packDataApl_loop_enc(1) [OF ok, of off msg] that by (simp add: packDataApl_def)
next
  show "packDataApl v msg off \<noteq> Panic" for v msg off by (simp add: packDataApl_def packDataApl_loop_safe)
next
  fix v and M :: bytes and off
  assume "ok_apl v" "length M = off + length (enc_apl v)" "drop off M = enc_apl v"
  then show "unpackDataApl M off = Ok (v, length M)"
    using unpackDataApl_loop_enc [of v off M "[]"] by (simp add: unpackDataApl_def)
qed

subsection \<open>No unpacker panics\<close>
lemma unpackDataApl_loop_safe:
  "off \<le> length msg \<Longrightarrow> safe (unpackDataApl_loop msg off ps) (\<lambda>(v, off'). off \<le> off' \<and> off' \<le> length msg)"
proof (induction msg off ps rule: unpackDataApl_loop.induct)
  case (1 msg off ps)
  show ?case
  proof (subst unpackDataApl_loop.simps, rule safe_if)
    assume off: "off < length msg"
    show "safe (bindR (mapErr (fail_at (length msg)) (unpackDataAplPrefix msg off)) (\<lambda>(p, off). unpackDataApl_loop msg off (ps @ [p])))
        (\<lambda>(v, off'). off \<le> off' \<and> off' \<le> length msg)"
    proof (rule safe_bind_eq [where Q = "\<lambda>(v, off'). off < off' \<and> off' \<le> length msg"])
      show "safe (mapErr (fail_at (length msg)) (unpackDataAplPrefix msg off)) (\<lambda>(v, off'). off < off' \<and> off' \<le> length msg)"
        using unpackDataAplPrefix_safe by simp
    next
      fix r
      assume r: "mapErr (fail_at (length msg)) (unpackDataAplPrefix msg off) = Ok r" "case r of (v, off') \<Rightarrow> off < off' \<and> off' \<le> length msg"
      show "safe (case r of (p, off) \<Rightarrow> unpackDataApl_loop msg off (ps @ [p])) (\<lambda>(v, off'). off \<le> off' \<and> off' \<le> length msg)"
        using r 1 off by (cases r) (auto intro: safe_later [of _ "snd r"])
    qed
  qed (use 1 in simp)
qed

lemma unpackDataApl_safe [unpack_safe]:
  "off \<le> length msg \<Longrightarrow> safe (unpackDataApl msg off) (\<lambda>(v, off'). off \<le> off' \<and> off' \<le> length msg)"
  using unpackDataApl_loop_safe by (simp add: unpackDataApl_def)


lemma UnpackDomainName_safe_progress: "safe (UnpackDomainName msg off) (\<lambda>(v, off'). off < off' \<and> off' \<le> length msg)"
  using UnpackDomainName_safe [of msg off] UnpackDomainName_progress [of msg off] by (cases "UnpackDomainName msg off") auto

lemma unpackDataDomainNames_loop_safe:
  "off \<le> length msg \<Longrightarrow> safe (unpackDataDomainNames_loop msg off e ss) (\<lambda>(v, off'). off \<le> off' \<and> off' \<le> length msg)"
proof (induction msg off e ss rule: unpackDataDomainNames_loop.induct)
  case (1 msg off e ss)
  show ?case
  proof (subst unpackDataDomainNames_loop.simps, rule safe_if)
    assume off: "off < e"
    show "safe (bindR (mapErr (fail_at (length msg)) (UnpackDomainName msg off)) (\<lambda>(s, off). unpackDataDomainNames_loop msg off e (ss @ [s])))
        (\<lambda>(v, off'). off \<le> off' \<and> off' \<le> length msg)"
    proof (rule safe_bind_eq [where Q = "\<lambda>(v, off'). off < off' \<and> off' \<le> length msg"])
      show "safe (mapErr (fail_at (length msg)) (UnpackDomainName msg off)) (\<lambda>(v, off'). off < off' \<and> off' \<le> length msg)"
        using UnpackDomainName_safe_progress by simp
    next
      fix r
      assume r: "mapErr (fail_at (length msg)) (UnpackDomainName msg off) = Ok r" "case r of (v, off') \<Rightarrow> off < off' \<and> off' \<le> length msg"
      show "safe (case r of (s, off) \<Rightarrow> unpackDataDomainNames_loop msg off e (ss @ [s])) (\<lambda>(v, off'). off \<le> off' \<and> off' \<le> length msg)"
        using r 1 off by (cases r) (auto intro: safe_later [of _ "snd r"])
    qed
  qed (use 1 in simp)
qed

lemma name_unpack_safe [unpack_safe]:
  "safe (UnpackDomainName msg off) (\<lambda>(v, off'). off \<le> off' \<and> off' \<le> length msg)"
  "off \<le> length msg \<Longrightarrow> safe (unpackDataDomainNames msg off e) (\<lambda>(v, off'). off \<le> off' \<and> off' \<le> length msg)"
  "off \<le> length msg \<Longrightarrow> safe (unpackIPSECGateway msg off t) (\<lambda>(v, off'). off \<le> off' \<and> off' \<le> length msg)"
proof -
  show n: "safe (UnpackDomainName msg off) (\<lambda>(v, off'). off \<le> off' \<and> off' \<le> length msg)"
    using UnpackDomainName_safe_progress by (rule safe_mono) auto
  show "safe (unpackDataDomainNames msg off e) (\<lambda>(v, off'). off \<le> off' \<and> off' \<le> length msg)" if "off \<le> length msg"
    using unpackDataDomainNames_loop_safe [OF that] by (simp add: unpackDataDomainNames_def)
  show "safe (unpackIPSECGateway msg off t) (\<lambda>(v, off'). off \<le> off' \<and> off' \<le> length msg)" if "off \<le> length msg"
    unfolding unpackIPSECGateway_def using that n fixed_unpack_safe(6,7) [of msg off]
    by (intro safe_if safe_bind [where Q = "\<lambda>(v, off'). off \<le> off' \<and> off' \<le> length msg"]) auto
qed

text \<open>
  C40: Address prefixes whose mask is a prefix mask and whose address has no bits beyond it pack and
  read back, negation and family included.
\<close>

theorem apl_reads_back:
  assumes "list_all ok_prefix ps" and "off \<le> length msg" and "off + length (enc_apl ps) < length msg"
  shows "\<exists>msg' off'. packDataApl ps msg off = Ok (msg', off') \<and> extends msg off msg' off' \<and>
    unpackDataApl (take off' msg') off = Ok (ps, off')"
  using apl.reads_prefix [OF _ assms(2,3)] assms(1) by (auto simp: ok_apl_def)

theorem apl_reads_back_witness:
  "\<exists>msg' off'. packDataApl [\<lparr>APL_Negation = True, APL_IP = [192, 0, 2, 0], APL_Mask = [255, 255, 255, 0]\<rparr>] (replicate 20 0) 0 = Ok (msg', off') \<and>
     extends (replicate 20 0) 0 msg' off' \<and>
     unpackDataApl (take off' msg') 0 = Ok ([\<lparr>APL_Negation = True, APL_IP = [192, 0, 2, 0], APL_Mask = [255, 255, 255, 0]\<rparr>], off')"
proof (rule apl_reads_back)
  let ?p = "\<lparr>APL_Negation = True, APL_IP = [192, 0, 2, 0], APL_Mask = [255, 255, 255, 0]\<rparr>"
  show "list_all ok_prefix [?p]" by code_simp
  have "length (enc_apl [?p]) = 7" by code_simp
  then show "0 + length (enc_apl [?p]) < length (replicate 20 (0 :: byte))" by simp
qed simp

end
