(* ===== verification/Edns.thy ===== *)
theory Edns
  imports Encodings Apl_Gateway
begin

section \<open>EDNS0 options\<close>

text \<open>
  The options of \<^verbatim>\<open>edns.go\<close> as one datatype, with a constructor per option struct (its
  fields in the order of the struct), and the list of options of an OPT record in
  \<^verbatim>\<open>msg_helpers.go\<close>. The methods \<^verbatim>\<open>pack\<close>, \<^verbatim>\<open>unpack\<close> and
  \<^verbatim>\<open>Option\<close> of the interface are functions that dispatch on the constructor. A nil value of the interface,
  on which the calls of these methods panic, is not a value of the datatype.
\<close>

datatype EDNS0 =
    EDNS0_LLQ u16 u16 u16 u16 u64 u32
  | EDNS0_UL u16 u32 u32
  | EDNS0_NSID u16 gostring
  | EDNS0_ESU u16 gostring
  | EDNS0_DAU u16 bytes
  | EDNS0_DHU u16 bytes
  | EDNS0_N3U u16 bytes
  | EDNS0_SUBNET u16 u16 byte byte bytes
  | EDNS0_EXPIRE u16 u32 bool
  | EDNS0_COOKIE u16 gostring
  | EDNS0_TCP_KEEPALIVE u16 u16 u16
  | EDNS0_PADDING bytes
  | EDNS0_EDE u16 gostring
  | EDNS0_REPORTING u16 gostring
  | EDNS0_ZONEVERSION u16 byte byte gostring
  | EDNS0_LOCAL u16 bytes

fun edns_Option :: "EDNS0 \<Rightarrow> u16" where
  "edns_Option (EDNS0_LLQ _ _ _ _ _ _) = 0x1"
| "edns_Option (EDNS0_UL _ _ _) = 0x2"
| "edns_Option (EDNS0_NSID _ _) = 0x3"
| "edns_Option (EDNS0_ESU _ _) = 0x4"
| "edns_Option (EDNS0_DAU _ _) = 0x5"
| "edns_Option (EDNS0_DHU _ _) = 0x6"
| "edns_Option (EDNS0_N3U _ _) = 0x7"
| "edns_Option (EDNS0_SUBNET _ _ _ _ _) = 0x8"
| "edns_Option (EDNS0_EXPIRE _ _ _) = 0x9"
| "edns_Option (EDNS0_COOKIE _ _) = 0xA"
| "edns_Option (EDNS0_TCP_KEEPALIVE _ _ _) = 0xB"
| "edns_Option (EDNS0_PADDING _) = 0xC"
| "edns_Option (EDNS0_EDE _ _) = 0xF"
| "edns_Option (EDNS0_REPORTING _ _) = 0x12"
| "edns_Option (EDNS0_ZONEVERSION _ _ _ _) = 0x13"
| "edns_Option (EDNS0_LOCAL code _) = code"

definition makeDataOpt :: "u16 \<Rightarrow> EDNS0" where
  "makeDataOpt code =
     (if code = 0x1 then EDNS0_LLQ 0 0 0 0 0 0
      else if code = 0x2 then EDNS0_UL 0 0 0
      else if code = 0x3 then EDNS0_NSID 0 []
      else if code = 0x5 then EDNS0_DAU 0 []
      else if code = 0x6 then EDNS0_DHU 0 []
      else if code = 0x7 then EDNS0_N3U 0 []
      else if code = 0x8 then EDNS0_SUBNET 0 0 0 0 []
      else if code = 0x9 then EDNS0_EXPIRE 0 0 False
      else if code = 0xA then EDNS0_COOKIE 0 []
      else if code = 0xB then EDNS0_TCP_KEEPALIVE 0 0 0
      else if code = 0xC then EDNS0_PADDING []
      else if code = 0xF then EDNS0_EDE 0 []
      else if code = 0x4 then EDNS0_ESU 0 []
      else if code = 0x12 then EDNS0_REPORTING 0 []
      else if code = 0x13 then EDNS0_ZONEVERSION 0 0 0 []
      else EDNS0_LOCAL code [])"

subsection \<open>Packing one option\<close>

definition hex_option_pack :: "gostring \<Rightarrow> bytes res" where
  "hex_option_pack s = (case hexDecode s of None \<Rightarrow> Err ErrCorrupt | Some h \<Rightarrow> Ok h)"

definition SUBNET_pack :: "u16 \<Rightarrow> byte \<Rightarrow> byte \<Rightarrow> bytes \<Rightarrow> bytes res" where
  "SUBNET_pack family netmask scope address =
     (let needLength = (unat netmask + 8 - 1) div 8 in
      if family = 0 then
        if netmask \<noteq> 0 then Err (ErrMsg ''bad address family'')
        else Ok [0, 0, 0, scope]
      else if family = 1 then
        if unat netmask > 4 * 8 then Err (ErrMsg ''bad netmask'')
        else
          let ip4 = To4 address in
          if length ip4 \<noteq> 4 then Err (ErrMsg ''bad address'')
          else Ok (be16 family @ [netmask, scope] @
                   take needLength (ip_mask ip4 (CIDRMask (unat netmask) 4)))
      else if family = 2 then
        if unat netmask > 16 * 8 then Err (ErrMsg ''bad netmask'')
        else if length address \<noteq> 16 then Err (ErrMsg ''bad address'')
        else Ok (be16 family @ [netmask, scope] @
                 take needLength (ip_mask address (CIDRMask (unat netmask) 16)))
      else Err (ErrMsg ''bad address family''))"

definition UL_pack :: "u32 \<Rightarrow> u32 \<Rightarrow> bytes" where
  "UL_pack lease keyLease = be32 lease @ (if keyLease = 0 then [] else be32 keyLease)"

definition LLQ_pack :: "u16 \<Rightarrow> u16 \<Rightarrow> u16 \<Rightarrow> u64 \<Rightarrow> u32 \<Rightarrow> bytes" where
  "LLQ_pack version opcode err ident leaseLife =
     be16 version @ be16 opcode @ be16 err @ be64 ident @ be32 leaseLife"

definition REPORTING_pack :: "gostring \<Rightarrow> bytes res" where
  "REPORTING_pack agentDomain =
     bindR (mapErr (\<lambda>(_, e). ErrWrap ''bad agent domain'' e)
             (PackDomainName (Fqdn agentDomain) (replicate 255 0) 0 None False))
       (\<lambda>(b, _, off1). go_slice b 0 off1)"

definition EXPIRE_pack :: "u32 \<Rightarrow> bool \<Rightarrow> bytes" where
  "EXPIRE_pack expire emp = (if emp then [] else be32 expire)"

definition TCP_KEEPALIVE_pack :: "u16 \<Rightarrow> bytes" where
  "TCP_KEEPALIVE_pack timeout = (if timeout > 0 then be16 timeout else [])"

definition EDE_pack :: "u16 \<Rightarrow> gostring \<Rightarrow> bytes" where
  "EDE_pack infoCode extraText = be16 infoCode @ extraText"

definition ZONEVERSION_pack :: "byte \<Rightarrow> byte \<Rightarrow> gostring \<Rightarrow> bytes" where
  "ZONEVERSION_pack labelCount typ version = [labelCount, typ] @ (if length version > 0 then version else [])"

fun edns_pack :: "EDNS0 \<Rightarrow> bytes res" where
  "edns_pack (EDNS0_LLQ _ version opcode err ident leaseLife) =
     Ok (LLQ_pack version opcode err ident leaseLife)"
| "edns_pack (EDNS0_UL _ lease keyLease) = Ok (UL_pack lease keyLease)"
| "edns_pack (EDNS0_NSID _ nsid) = hex_option_pack nsid"
| "edns_pack (EDNS0_ESU _ uri) = Ok uri"
| "edns_pack (EDNS0_DAU _ algCode) = Ok algCode"
| "edns_pack (EDNS0_DHU _ algCode) = Ok algCode"
| "edns_pack (EDNS0_N3U _ algCode) = Ok algCode"
| "edns_pack (EDNS0_SUBNET _ family netmask scope address) = SUBNET_pack family netmask scope address"
| "edns_pack (EDNS0_EXPIRE _ expire emp) = Ok (EXPIRE_pack expire emp)"
| "edns_pack (EDNS0_COOKIE _ cookie) = hex_option_pack cookie"
| "edns_pack (EDNS0_TCP_KEEPALIVE _ timeout _) = Ok (TCP_KEEPALIVE_pack timeout)"
| "edns_pack (EDNS0_PADDING padding) = Ok padding"
| "edns_pack (EDNS0_EDE infoCode extraText) = Ok (EDE_pack infoCode extraText)"
| "edns_pack (EDNS0_REPORTING _ agentDomain) = REPORTING_pack agentDomain"
| "edns_pack (EDNS0_ZONEVERSION _ labelCount typ version) = Ok (ZONEVERSION_pack labelCount typ version)"
| "edns_pack (EDNS0_LOCAL _ data) = Ok data"

subsection \<open>Unpacking one option\<close>

definition LLQ_unpack :: "u16 \<Rightarrow> bytes \<Rightarrow> EDNS0 res" where
  "LLQ_unpack code b =
     (if length b < 18 then Err ErrBuf
      else Ok (EDNS0_LLQ code (be_word (take 2 b)) (be_word (take 2 (drop 2 b)))
                (be_word (take 2 (drop 4 b))) (be_word (take 8 (drop 6 b)))
                (be_word (take 4 (drop 14 b)))))"

definition UL_unpack :: "u16 \<Rightarrow> bytes \<Rightarrow> EDNS0 res" where
  "UL_unpack code b =
     (if length b = 4 then Ok (EDNS0_UL code (be_word b) 0)
      else if length b = 8 then Ok (EDNS0_UL code (be_word (take 4 b)) (be_word (drop 4 b)))
      else Err ErrBuf)"

definition v4InV6Prefix :: bytes where
  "v4InV6Prefix = replicate 10 0 @ [0xFF, 0xFF]"

text \<open>\<^verbatim>\<open>copy(addr, b[4:])\<close> into a zeroed slice of length \<open>n\<close>.\<close>

definition copy_into :: "nat \<Rightarrow> bytes \<Rightarrow> bytes" where
  "copy_into n src = take n src @ replicate (n - length src) 0"

definition SUBNET_unpack :: "u16 \<Rightarrow> bytes \<Rightarrow> EDNS0 res" where
  "SUBNET_unpack code b =
     (if length b < 4 then Err ErrBuf
      else
        let family = be_word (take 2 b); netmask = b ! 2; scope = b ! 3 in
        if family = 0 then
          if netmask \<noteq> 0 then Err (ErrMsg ''bad address family'')
          else Ok (EDNS0_SUBNET code family netmask scope (v4InV6Prefix @ [0, 0, 0, 0]))
        else if family = 1 then
          if unat netmask > 4 * 8 \<or> unat scope > 4 * 8 then Err (ErrMsg ''bad netmask'')
          else Ok (EDNS0_SUBNET code family netmask scope (v4InV6Prefix @ copy_into 4 (drop 4 b)))
        else if family = 2 then
          if unat netmask > 16 * 8 \<or> unat scope > 16 * 8 then Err (ErrMsg ''bad netmask'')
          else Ok (EDNS0_SUBNET code family netmask scope (copy_into 16 (drop 4 b)))
        else Err (ErrMsg ''bad address family''))"

definition EXPIRE_unpack :: "u16 \<Rightarrow> u32 \<Rightarrow> bytes \<Rightarrow> EDNS0 res" where
  "EXPIRE_unpack code expire b =
     (if length b = 0 then Ok (EDNS0_EXPIRE code expire True)
      else if length b < 4 then Err ErrBuf
      else Ok (EDNS0_EXPIRE code (be_word (take 4 b)) False))"

definition TCP_KEEPALIVE_unpack :: "u16 \<Rightarrow> u16 \<Rightarrow> u16 \<Rightarrow> bytes \<Rightarrow> EDNS0 res" where
  "TCP_KEEPALIVE_unpack code timeout len b =
     (if length b = 0 then Ok (EDNS0_TCP_KEEPALIVE code timeout len)
      else if length b = 2 then Ok (EDNS0_TCP_KEEPALIVE code (be_word b) len)
      else Err (ErrMsg ''length mismatch, want 0/2''))"

definition EDE_unpack :: "bytes \<Rightarrow> EDNS0 res" where
  "EDE_unpack b = (if length b < 2 then Err ErrBuf else Ok (EDNS0_EDE (be_word (take 2 b)) (drop 2 b)))"

definition REPORTING_unpack :: "u16 \<Rightarrow> bytes \<Rightarrow> EDNS0 res" where
  "REPORTING_unpack code b =
     bindR (mapErr (\<lambda>(_, e). ErrWrap ''bad agent domain'' e) (UnpackDomainName b 0))
       (\<lambda>(domain, _). Ok (EDNS0_REPORTING code domain))"

definition ZONEVERSION_unpack :: "u16 \<Rightarrow> bytes \<Rightarrow> EDNS0 res" where
  "ZONEVERSION_unpack code b =
     (if length b < 2 then Err ErrBuf
      else Ok (EDNS0_ZONEVERSION code (b ! 0) (b ! 1) (if length b > 2 then drop 2 b else [])))"

fun edns_unpack :: "EDNS0 \<Rightarrow> bytes \<Rightarrow> EDNS0 res" where
  "edns_unpack (EDNS0_LLQ code _ _ _ _ _) b = LLQ_unpack code b"
| "edns_unpack (EDNS0_UL code _ _) b = UL_unpack code b"
| "edns_unpack (EDNS0_NSID code _) b = Ok (EDNS0_NSID code (hexEncode b))"
| "edns_unpack (EDNS0_ESU code _) b = Ok (EDNS0_ESU code b)"
| "edns_unpack (EDNS0_DAU code _) b = Ok (EDNS0_DAU code b)"
| "edns_unpack (EDNS0_DHU code _) b = Ok (EDNS0_DHU code b)"
| "edns_unpack (EDNS0_N3U code _) b = Ok (EDNS0_N3U code b)"
| "edns_unpack (EDNS0_SUBNET code _ _ _ _) b = SUBNET_unpack code b"
| "edns_unpack (EDNS0_EXPIRE code expire _) b = EXPIRE_unpack code expire b"
| "edns_unpack (EDNS0_COOKIE code _) b = Ok (EDNS0_COOKIE code (hexEncode b))"
| "edns_unpack (EDNS0_TCP_KEEPALIVE code timeout len) b = TCP_KEEPALIVE_unpack code timeout len b"
| "edns_unpack (EDNS0_PADDING _) b = Ok (EDNS0_PADDING b)"
| "edns_unpack (EDNS0_EDE _ _) b = EDE_unpack b"
| "edns_unpack (EDNS0_REPORTING code _) b = REPORTING_unpack code b"
| "edns_unpack (EDNS0_ZONEVERSION code _ _ _) b = ZONEVERSION_unpack code b"
| "edns_unpack (EDNS0_LOCAL code _) b = Ok (EDNS0_LOCAL code b)"

subsection \<open>The options of an OPT record\<close>

function unpackDataOpt_loop :: "bytes \<Rightarrow> nat \<Rightarrow> EDNS0 list \<Rightarrow> (EDNS0 list \<times> nat) off_res" where
  "unpackDataOpt_loop msg off edns =
     (if off < length msg then
        if off + 4 > length msg then Err (length msg, ErrMsg ''overflow unpacking opt'')
        else
          let code = be_word (take 2 (drop off msg)); off = off + 2;
              optlen = unat (be_word (take 2 (drop off msg)) :: u16); off = off + 2 in
          if off + optlen > length msg then Err (length msg, ErrMsg ''overflow unpacking opt'')
          else
            bindR (mapErr (\<lambda>e. (length msg, e))
                    (edns_unpack (makeDataOpt code) (take optlen (drop off msg)))) (\<lambda>opt.
              unpackDataOpt_loop msg (off + optlen) (edns @ [opt]))
      else Ok (edns, off))"
  by pat_completeness auto
termination
  by (relation "measure (\<lambda>(msg, off, edns). length msg - off)") auto

declare unpackDataOpt_loop.simps [simp del]

definition unpackDataOpt :: "bytes \<Rightarrow> nat \<Rightarrow> (EDNS0 list \<times> nat) off_res" where
  "unpackDataOpt msg off = unpackDataOpt_loop msg off []"

fun packDataOpt :: "EDNS0 list \<Rightarrow> bytes \<Rightarrow> nat \<Rightarrow> (bytes \<times> nat) off_res" where
  "packDataOpt [] msg off = Ok (msg, off)"
| "packDataOpt (el # options) msg off =
     (case edns_pack el of
        Panic \<Rightarrow> Panic
      | Err _ \<Rightarrow> Err (length msg, ErrMsg ''overflow packing opt'')
      | Ok b \<Rightarrow>
          if off + 4 > length msg then Err (length msg, ErrMsg ''overflow packing opt'')
          else
            bindR (write_at msg off (be16 (edns_Option el))) (\<lambda>msg.
            bindR (write_at msg (off + 2) (be16 (of_nat (length b)))) (\<lambda>msg.
              let off = off + 4 in
              if off + length b > length msg then Err (length msg, ErrMsg ''overflow packing opt'')
              else bindR (write_at msg off b) (\<lambda>msg. packDataOpt options msg (off + length b)))))"

subsection \<open>An option reads back\<close>

text \<open>
  The options whose value survives: the code field is not on the wire, a cleared flag or an unused
  field is zero, a subnet has no bits beyond its mask, and the text fields are as they are printed.
\<close>

definition ok_subnet :: "u16 \<Rightarrow> byte \<Rightarrow> byte \<Rightarrow> bytes \<Rightarrow> bool" where
  "ok_subnet family netmask scope address \<longleftrightarrow>
     (if family = 0 then netmask = 0 \<and> address = v4InV6Prefix @ [0, 0, 0, 0]
      else if family = 1 then
        unat netmask \<le> 32 \<and> unat scope \<le> 32 \<and> length address = 16 \<and> take 12 address = v4InV6Prefix \<and>
        ip_mask (drop 12 address) (CIDRMask (unat netmask) 4) = drop 12 address
      else
        family = 2 \<and> unat netmask \<le> 128 \<and> unat scope \<le> 128 \<and> length address = 16 \<and>
        ip_mask address (CIDRMask (unat netmask) 16) = address)"

fun ok_edns :: "EDNS0 \<Rightarrow> bool" where
  "ok_edns (EDNS0_LLQ code _ _ _ _ _) = (code = 0)"
| "ok_edns (EDNS0_UL code _ _) = (code = 0)"
| "ok_edns (EDNS0_NSID code nsid) = (code = 0 \<and> ok_hex nsid)"
| "ok_edns (EDNS0_ESU code _) = (code = 0)"
| "ok_edns (EDNS0_DAU code _) = (code = 0)"
| "ok_edns (EDNS0_DHU code _) = (code = 0)"
| "ok_edns (EDNS0_N3U code _) = (code = 0)"
| "ok_edns (EDNS0_SUBNET code family netmask scope address) = (code = 0 \<and> ok_subnet family netmask scope address)"
| "ok_edns (EDNS0_EXPIRE code expire emp) = (code = 0 \<and> (emp \<longrightarrow> expire = 0))"
| "ok_edns (EDNS0_COOKIE code cookie) = (code = 0 \<and> ok_hex cookie)"
| "ok_edns (EDNS0_TCP_KEEPALIVE code _ len) = (code = 0 \<and> len = 0)"
| "ok_edns (EDNS0_PADDING _) = True"
| "ok_edns (EDNS0_EDE _ _) = True"
| "ok_edns (EDNS0_REPORTING code agentDomain) = (code = 0 \<and> ok_name agentDomain)"
| "ok_edns (EDNS0_ZONEVERSION code _ _ _) = (code = 0)"
| "ok_edns (EDNS0_LOCAL code _) = (makeDataOpt code = EDNS0_LOCAL code [])"

lemma hex_option_pack_ok: "ok_hex s \<Longrightarrow> \<exists>b. hex_option_pack s = Ok b \<and> hexEncode b = s"
  by (auto simp: hex_option_pack_def ok_text_def text_octets_def)

lemma be_word_append [simp]:
  "be_word (take 2 (be16 a @ r)) = a" "be_word (take 4 (be32 b @ r)) = b" "be_word (take 8 (be64 c @ r)) = c"
  by simp_all

lemma LLQ_roundtrip: "LLQ_unpack code (LLQ_pack v op err ident leaseLife) = Ok (EDNS0_LLQ code v op err ident leaseLife)"
  by (simp add: LLQ_unpack_def LLQ_pack_def)

lemma UL_roundtrip: "UL_unpack code (UL_pack l k) = Ok (EDNS0_UL code l k)"
  by (simp add: UL_unpack_def UL_pack_def)

lemma masked_copy:
  assumes "ip_mask a (CIDRMask n (length a)) = a"
  shows "copy_into (length a) (take ((n + 7) div 8) a) = a"
proof -
  have "length a - length (take ((n + 7) div 8) a) = length a - (n + 7) div 8" by (simp add: min_def)
  moreover have "take (length a) (take ((n + 7) div 8) a) = take ((n + 7) div 8) a" by (simp add: min_def)
  ultimately show ?thesis using masked_zeros [OF assms le_refl] by (simp only: copy_into_def)
qed

lemma To4_mapped:
  assumes "length a = 16" and "take 12 a = v4InV6Prefix"
  shows "To4 a = drop 12 a"
proof -
  have "a ! 10 = take 12 a ! 10" "a ! 11 = take 12 a ! 11" "take 10 a = take 10 (take 12 a)" by simp_all
  then have "a ! 10 = 255 \<and> a ! 11 = 255 \<and> take 10 a = replicate 10 0"
    unfolding assms(2) by (simp add: v4InV6Prefix_def nth_append)
  then show ?thesis using assms(1) by (simp add: To4_def)
qed

lemma SUBNET_head:
  "length (be16 f @ [m, s] @ a) = length a + 4" "be_word (take 2 (be16 f @ [m, s] @ a)) = f"
  "(be16 f @ [m, s] @ a) ! 2 = m" "(be16 f @ [m, s] @ a) ! 3 = s" "drop 4 (be16 f @ [m, s] @ a) = a"
  by (simp_all add: nth_append)

lemma SUBNET_none:
  "SUBNET_pack 0 0 scope a = Ok [0, 0, 0, scope]"
  "SUBNET_unpack code [0, 0, 0, scope] = Ok (EDNS0_SUBNET code 0 0 scope (v4InV6Prefix @ [0, 0, 0, 0]))"
  by (simp_all add: SUBNET_pack_def SUBNET_unpack_def be_word_def)

lemma SUBNET_v4:
  assumes "unat netmask \<le> 32" "unat scope \<le> 32" "length address = 16" "take 12 address = v4InV6Prefix"
    and m: "ip_mask (drop 12 address) (CIDRMask (unat netmask) 4) = drop 12 address"
  defines "b \<equiv> take ((unat netmask + 7) div 8) (drop 12 address)"
  shows "SUBNET_pack 1 netmask scope address = Ok (be16 1 @ [netmask, scope] @ b)"
    and "SUBNET_unpack code (be16 1 @ [netmask, scope] @ b) = Ok (EDNS0_SUBNET code 1 netmask scope address)"
proof -
  have "copy_into 4 b = drop 12 address"
    using masked_copy [of "drop 12 address" "unat netmask"] m assms(3) by (simp add: b_def)
  then have c: "v4InV6Prefix @ copy_into 4 b = address" by (simp add: assms(4) [symmetric])
  show "SUBNET_pack 1 netmask scope address = Ok (be16 1 @ [netmask, scope] @ b)"
    using assms(1,3) by (simp add: SUBNET_pack_def To4_mapped assms(4) m b_def add.commute)
  show "SUBNET_unpack code (be16 1 @ [netmask, scope] @ b) = Ok (EDNS0_SUBNET code 1 netmask scope address)"
    unfolding SUBNET_unpack_def SUBNET_head Let_def c using assms(1,2) by simp
qed

lemma SUBNET_v6:
  assumes "unat netmask \<le> 128" "unat scope \<le> 128" "length address = 16"
    and m: "ip_mask address (CIDRMask (unat netmask) 16) = address"
  defines "b \<equiv> take ((unat netmask + 7) div 8) address"
  shows "SUBNET_pack 2 netmask scope address = Ok (be16 2 @ [netmask, scope] @ b)"
    and "SUBNET_unpack code (be16 2 @ [netmask, scope] @ b) = Ok (EDNS0_SUBNET code 2 netmask scope address)"
proof -
  have c: "copy_into 16 b = address" using masked_copy [of address "unat netmask"] m assms(3) by (simp add: b_def)
  show "SUBNET_pack 2 netmask scope address = Ok (be16 2 @ [netmask, scope] @ b)"
    using assms(1,3) by (simp add: SUBNET_pack_def m b_def add.commute)
  show "SUBNET_unpack code (be16 2 @ [netmask, scope] @ b) = Ok (EDNS0_SUBNET code 2 netmask scope address)"
    unfolding SUBNET_unpack_def SUBNET_head Let_def c using assms(1,2) by simp
qed

lemma SUBNET_roundtrip:
  assumes "ok_subnet family netmask scope address"
  shows "\<exists>b. SUBNET_pack family netmask scope address = Ok b \<and>
    SUBNET_unpack code b = Ok (EDNS0_SUBNET code family netmask scope address)"
proof -
  have "family = 0 \<or> family = 1 \<or> family = 2" using assms by (simp add: ok_subnet_def split: if_splits)
  then consider (none) "family = 0" | (v4) "family = 1" | (v6) "family = 2" by blast
  then show ?thesis
  proof cases
    case none
    then show ?thesis using assms SUBNET_none(1) [of scope address] SUBNET_none(2) [of code scope] by (simp add: ok_subnet_def)
  next
    case v4
    then show ?thesis using assms SUBNET_v4(1) [of netmask scope address] SUBNET_v4(2) [of netmask scope address code] by (simp add: ok_subnet_def)
  next
    case v6
    then show ?thesis using assms SUBNET_v6(1) [of netmask scope address] SUBNET_v6(2) [of netmask scope address code] by (simp add: ok_subnet_def)
  qed
qed

lemma REPORTING_roundtrip:
  assumes "ok_name s"
  shows "\<exists>b. REPORTING_pack s = Ok b \<and> REPORTING_unpack code b = Ok (EDNS0_REPORTING code s)"
proof -
  let ?buf = "replicate 255 (0::byte)"
  obtain ls where s: "IsFqdn s" "name_labels s = Some ls" "wire_len ls \<le> 255"
    using assms by (auto simp: ok_name_def split: option.splits)
  have cm: "cm_sound \<lparr>cm_ext = None, cm_int = None\<rparr> M" for M by (simp add: cm_sound_def cm_find_def)
  from packDomainName_packs [OF s(1,2) cm_sound_nonneg [OF cm], of ?buf 0 False] s(3)
  obtain m c o1 where p: "packDomainName s ?buf 0 \<lparr>cm_ext = None, cm_int = None\<rparr> False = Ok (m, c, o1)"
    by (auto simp: packs_def split: outcome.splits)
  from packed_name [OF assms _ cm p, of "take o1 m"]
  have "UnpackDomainName (take o1 m) 0 = Ok (s, o1)" "o1 \<le> length m" by (auto simp: agree_def extends_def)
  then show ?thesis using s(1) p by (simp add: REPORTING_pack_def REPORTING_unpack_def PackDomainName_def Fqdn_def)
qed


lemma edns_roundtrip:
  assumes "ok_edns e"
  shows "\<exists>b. edns_pack e = Ok b \<and> edns_unpack (makeDataOpt (edns_Option e)) b = Ok e"
proof (cases e)
  case (EDNS0_NSID code s)
  then show ?thesis using assms hex_option_pack_ok [of s] by (auto simp: makeDataOpt_def)
next
  case (EDNS0_COOKIE code s)
  then show ?thesis using assms hex_option_pack_ok [of s] by (auto simp: makeDataOpt_def)
next
  case (EDNS0_SUBNET code f n s a)
  then show ?thesis using assms SUBNET_roundtrip [of f n s a 0] by (simp add: makeDataOpt_def)
next
  case (EDNS0_REPORTING code s)
  then show ?thesis using assms REPORTING_roundtrip [of s 0] by (simp add: makeDataOpt_def)
next
  case (EDNS0_TCP_KEEPALIVE code t l)
  then show ?thesis using assms by (simp add: makeDataOpt_def TCP_KEEPALIVE_pack_def TCP_KEEPALIVE_unpack_def word_gt_0)
qed (use assms in \<open>auto simp: makeDataOpt_def LLQ_roundtrip UL_roundtrip EXPIRE_unpack_def EDE_unpack_def ZONEVERSION_unpack_def
    EXPIRE_pack_def EDE_pack_def ZONEVERSION_pack_def\<close>)


subsection \<open>The list of options reads back\<close>

definition edns_payload :: "EDNS0 \<Rightarrow> bytes" where
  "edns_payload e = (case edns_pack e of Ok b \<Rightarrow> b | _ \<Rightarrow> [])"

definition enc_option :: "EDNS0 \<Rightarrow> bytes" where
  "enc_option e = be16 (edns_Option e) @ be16 (of_nat (length (edns_payload e))) @ edns_payload e"

definition enc_opt :: "EDNS0 list \<Rightarrow> bytes" where
  "enc_opt es = concat (map enc_option es)"

definition ok_opt :: "EDNS0 list \<Rightarrow> bool" where
  "ok_opt es \<longleftrightarrow> list_all (\<lambda>e. ok_edns e \<and> length (edns_payload e) < 65536) es"

lemma enc_opt_simps [simp]: "enc_opt [] = []" "enc_opt (e # es) = enc_option e @ enc_opt es"
  by (simp_all add: enc_opt_def)

lemma ok_opt_simps [simp]:
  "ok_opt []" "ok_opt (e # es) \<longleftrightarrow> ok_edns e \<and> length (edns_payload e) < 65536 \<and> ok_opt es"
  by (auto simp: ok_opt_def)

lemma edns_payload_eq: "ok_edns e \<Longrightarrow> edns_pack e = Ok (edns_payload e)"
  using edns_roundtrip [of e] by (auto simp: edns_payload_def)

lemma edns_payload_unpack: "ok_edns e \<Longrightarrow> edns_unpack (makeDataOpt (edns_Option e)) (edns_payload e) = Ok e"
  using edns_roundtrip [of e] by (auto simp: edns_payload_def)

lemma length_enc_option [simp]: "length (enc_option e) = length (edns_payload e) + 4"
  by (simp add: enc_option_def)

lemma enc_opt_Nil [simp]: "enc_opt es = [] \<longleftrightarrow> es = []"
  by (cases es) (auto simp: enc_option_def)

lemma packDataOpt_Cons:
  assumes "off + length (enc_option e) \<le> length msg" and "ok_edns e"
  shows "packDataOpt (e # es) msg off = packDataOpt es (put msg off (enc_option e)) (off + length (enc_option e))"
  using assms edns_payload_eq [of e]
  by (simp add: put_put_at enc_option_def add.assoc del: add_2_eq_Suc add_2_eq_Suc')

lemma packDataOpt_Cons_fits:
  assumes "packDataOpt (e # es) msg off = Ok r" and "ok_edns e"
  shows "off + length (enc_option e) \<le> length msg"
  using assms edns_payload_eq [of e] by (auto simp: bindR_eq_Ok Let_def split: if_splits)

lemma packDataOpt_enc:
  assumes "ok_opt es"
  shows "off + length (enc_opt es) \<le> length msg \<Longrightarrow> packDataOpt es msg off = Ok (put msg off (enc_opt es), off + length (enc_opt es))"
    and "packDataOpt es msg off = Ok r \<Longrightarrow> es \<noteq> [] \<longrightarrow> off + length (enc_opt es) \<le> length msg"
  using assms
proof (induction es arbitrary: msg off)
  case (Cons e es)
  {
    case 1
    then show ?case
      using packDataOpt_Cons [of off e msg es] Cons.IH(1) [of "off + length (enc_option e)" "put msg off (enc_option e)"]
      by (simp add: put_put_at add.assoc del: packDataOpt.simps)
  next
    case 2
    then have e: "ok_edns e" "ok_opt es" by auto
    note fit = packDataOpt_Cons_fits [OF 2(1) e(1)]
    from 2(1) have "packDataOpt es (put msg off (enc_option e)) (off + length (enc_option e)) = Ok r"
      unfolding packDataOpt_Cons [OF fit e(1)] .
    from Cons.IH(2) [OF this e(2)] fit show ?case by (cases es) auto
  }
qed auto

lemma edns_pack_safe: "edns_pack e \<noteq> Panic"
proof (cases e)
  case (EDNS0_REPORTING code s)
  have "REPORTING_pack s \<noteq> Panic"
    using packDomainName_safe [of "Fqdn s" "replicate 255 0" 0 "\<lparr>cm_ext = None, cm_int = None\<rparr>" False]
    by (auto simp: REPORTING_pack_def PackDomainName_def bindR_eq_Panic go_slice_def)
  then show ?thesis using EDNS0_REPORTING by simp
qed (auto simp: hex_option_pack_def SUBNET_pack_def Let_def split: option.splits)

lemma packDataOpt_safe: "packDataOpt es msg off \<noteq> Panic"
  by (induction es arbitrary: msg off) (auto simp: edns_pack_safe bindR_eq_Panic not_less Let_def split: outcome.splits)

lemma unpackDataOpt_loop_enc:
  assumes "ok_opt es" and "off \<le> length M" and "drop off M = enc_opt es"
  shows "unpackDataOpt_loop M off acc = Ok (acc @ es, length M)"
  using assms
proof (induction es arbitrary: off acc)
  case Nil
  then show ?case by (simp add: unpackDataOpt_loop.simps)
next
  case (Cons e es)
  let ?b = "edns_payload e"
  have len: "length M = off + 4 + length ?b + length (enc_opt es)"
    using arg_cong [OF Cons.prems(3), of length] Cons.prems(2) by simp
  have d: "drop off M = be16 (edns_Option e) @ be16 (of_nat (length ?b)) @ ?b @ enc_opt es"
    using Cons.prems(3) by (simp add: enc_option_def)
  note d2 = take_drop_word [OF d]
  have d4: "be_word (take 2 (drop (off + 2) M)) = (of_nat (length ?b) :: u16)" "drop (off + 4) M = ?b @ enc_opt es"
    using take_drop_word [OF d2(2)] len by (simp_all add: add.assoc del: add_2_eq_Suc add_2_eq_Suc')
  have n: "unat (of_nat (length ?b) :: u16) = length ?b" using Cons.prems(1) by (simp add: unat_of_nat)
  have "drop (off + 4 + length ?b) M = enc_opt es" using arg_cong [OF d4(2), of "drop (length ?b)"] by (simp add: ac_simps)
  with Cons.IH [of "off + 4 + length ?b" "acc @ [e]"] Cons.prems(1) len
  have IH: "unpackDataOpt_loop M (off + 4 + length ?b) (acc @ [e]) = Ok (acc @ e # es, length M)" by simp
  have "unpackDataOpt_loop M off acc = unpackDataOpt_loop M (off + 4 + length ?b) (acc @ [e])"
    using len d2(1) d4 n edns_payload_unpack [of e] Cons.prems(1)
    by (subst unpackDataOpt_loop.simps) (simp add: Let_def add.assoc del: add_2_eq_Suc add_2_eq_Suc')
  with IH show ?case by simp
qed

interpretation opt: rest_field packDataOpt enc_opt ok_opt "\<lambda>M off e. unpackDataOpt M off"
proof
  fix v and msg :: bytes and off and r :: "bytes \<times> nat"
  assume ok: "ok_opt v"
  show "r = (put msg off (enc_opt v), off + length (enc_opt v)) \<and> (enc_opt v \<noteq> [] \<longrightarrow> off + length (enc_opt v) \<le> length msg)"
    if "packDataOpt v msg off = Ok r"
    using packDataOpt_enc(2) [OF ok that] packDataOpt_enc(1) [OF ok, of off msg] that by (cases v) auto
  show "\<exists>r. packDataOpt v msg off = Ok r" if "off + length (enc_opt v) < length msg"
    using packDataOpt_enc(1) [OF ok, of off msg] that by simp
next
  show "packDataOpt v msg off \<noteq> Panic" for v msg off by (rule packDataOpt_safe)
next
  fix v and M :: bytes and off
  assume "ok_opt v" "length M = off + length (enc_opt v)" "drop off M = enc_opt v"
  then show "unpackDataOpt M off = Ok (v, length M)"
    using unpackDataOpt_loop_enc [of v off M "[]"] by (simp add: unpackDataOpt_def)
qed

lemma edns_unpack_safe: "edns_unpack e b \<noteq> Panic"
proof (cases e)
  case (EDNS0_REPORTING code s)
  have "REPORTING_unpack code b \<noteq> Panic"
    using UnpackDomainName_safe [of b 0] by (auto simp: REPORTING_unpack_def bindR_eq_Panic)
  then show ?thesis using EDNS0_REPORTING by simp
qed (auto simp: LLQ_unpack_def UL_unpack_def SUBNET_unpack_def EXPIRE_unpack_def TCP_KEEPALIVE_unpack_def
    EDE_unpack_def ZONEVERSION_unpack_def Let_def)

lemma unpackDataOpt_step:
  assumes "off + 4 \<le> length msg"
  shows "unpackDataOpt_loop msg off es =
    (let code = be_word (take 2 (drop off msg)); l = unat (be_word (take 2 (drop (off + 2) msg)) :: u16) in
     if off + 4 + l > length msg then Err (length msg, ErrMsg ''overflow unpacking opt'')
     else bindR (mapErr (\<lambda>e. (length msg, e)) (edns_unpack (makeDataOpt code) (take l (drop (off + 4) msg))))
            (\<lambda>opt. unpackDataOpt_loop msg (off + 4 + l) (es @ [opt])))"
proof -
  have "off + 2 + 2 = off + 4" "off < length msg" "\<not> off + 4 > length msg" using assms by auto
  then show ?thesis by (subst unpackDataOpt_loop.simps) (simp only: Let_def if_True if_False)
qed

lemma unpackDataOpt_loop_safe:
  "off \<le> length msg \<Longrightarrow> safe (unpackDataOpt_loop msg off es) (\<lambda>(v, off'). off \<le> off' \<and> off' \<le> length msg)"
proof (induction "length msg - off" arbitrary: off es rule: less_induct)
  case less
  show ?case
  proof (cases "off + 4 \<le> length msg")
    case True
    define l where "l = unat (be_word (take 2 (drop (off + 2) msg)) :: u16)"
    have IH: "safe (unpackDataOpt_loop msg (off + 4 + l) es') (\<lambda>(v, off'). off \<le> off' \<and> off' \<le> length msg)"
      if "off + 4 + l \<le> length msg" for es'
    proof (rule safe_later)
      show "safe (unpackDataOpt_loop msg (off + 4 + l) es') (\<lambda>(v, off'). off + 4 + l \<le> off' \<and> off' \<le> length msg)"
        using that by (intro less(1)) linarith+
    qed linarith
    show ?thesis unfolding unpackDataOpt_step [OF True] Let_def l_def [symmetric]
      by (intro safe_if safe_bind [OF not_Panic_safe] IH) (simp_all add: edns_unpack_safe)
  next
    case False
    then show ?thesis using less(2) by (subst unpackDataOpt_loop.simps) simp
  qed
qed

lemma unpackDataOpt_safe [unpack_safe]:
  "off \<le> length msg \<Longrightarrow> safe (unpackDataOpt msg off) (\<lambda>(v, off'). off \<le> off' \<and> off' \<le> length msg)"
  using unpackDataOpt_loop_safe by (simp add: unpackDataOpt_def)

text \<open>
  An option as it is read: the packer takes the code from the kind of the option, and the unpackers leave the field
  \<^verbatim>\<open>Code\<close> at 0, except in \<^verbatim>\<open>EDNS0_LOCAL\<close>, although the comments of the structs say that it is always
  the code of the option, and the one of \<^verbatim>\<open>EDNS0_SUBNET\<close> that unpacking fills it in. The expiration of an empty
  option and the deprecated length are not on the wire either.
\<close>

fun as_read :: "EDNS0 \<Rightarrow> EDNS0" where
  "as_read (EDNS0_LLQ _ version opcode err ident leaseLife) = EDNS0_LLQ 0 version opcode err ident leaseLife"
| "as_read (EDNS0_UL _ lease keyLease) = EDNS0_UL 0 lease keyLease"
| "as_read (EDNS0_NSID _ nsid) = EDNS0_NSID 0 nsid"
| "as_read (EDNS0_ESU _ uri) = EDNS0_ESU 0 uri"
| "as_read (EDNS0_DAU _ algCode) = EDNS0_DAU 0 algCode"
| "as_read (EDNS0_DHU _ algCode) = EDNS0_DHU 0 algCode"
| "as_read (EDNS0_N3U _ algCode) = EDNS0_N3U 0 algCode"
| "as_read (EDNS0_SUBNET _ family netmask scope address) = EDNS0_SUBNET 0 family netmask scope address"
| "as_read (EDNS0_EXPIRE _ expire emp) = EDNS0_EXPIRE 0 (if emp then 0 else expire) emp"
| "as_read (EDNS0_COOKIE _ cookie) = EDNS0_COOKIE 0 cookie"
| "as_read (EDNS0_TCP_KEEPALIVE _ timeout _) = EDNS0_TCP_KEEPALIVE 0 timeout 0"
| "as_read (EDNS0_PADDING padding) = EDNS0_PADDING padding"
| "as_read (EDNS0_EDE infoCode extraText) = EDNS0_EDE infoCode extraText"
| "as_read (EDNS0_REPORTING _ agentDomain) = EDNS0_REPORTING 0 agentDomain"
| "as_read (EDNS0_ZONEVERSION _ labelCount typ version) = EDNS0_ZONEVERSION 0 labelCount typ version"
| "as_read (EDNS0_LOCAL code data) = EDNS0_LOCAL code data"

lemma as_read_wire [simp]: "edns_Option (as_read e) = edns_Option e" "edns_pack (as_read e) = edns_pack e"
  by (cases e; simp add: EXPIRE_pack_def)+

lemma payload_as_read [simp]: "edns_payload (as_read e) = edns_payload e"
  by (simp add: edns_payload_def)

lemma enc_opt_as_read [simp]: "enc_opt (map as_read es) = enc_opt es"
  by (induction es) (simp_all add: enc_option_def)

lemma packDataOpt_as_read [simp]: "packDataOpt (map as_read es) msg off = packDataOpt es msg off"
  by (induction es arbitrary: msg off) (simp_all add: Let_def cong: if_cong split: outcome.split)

text \<open>
  C37: A list of EDNS options, of every kind the library knows and of unknown codes, packs and reads back in the same order,
  option by option, as \<open>as_read\<close> says: with the same values, except that the field \<^verbatim>\<open>Code\<close> of every option
  but \<^verbatim>\<open>EDNS0_LOCAL\<close> comes back as 0, whatever it was, that an empty expiration comes back as 0 and so does the deprecated
  length of the keepalive option. The options must not be nil, their values in the form that the unpackers write (lower-case
  hex digits; a subnet address of 16 octets without bits beyond its mask, with netmask and scope within the width of its family;
  a well-formed name; no unknown option with a known code), each value below 64 KiB, and the buffer must have room for more than they take.
\<close>

theorem edns_reads_back:
  assumes "list_all (\<lambda>e. ok_edns (as_read e) \<and> length (edns_payload e) < 65536) es" and "off \<le> length msg"
    and "off + length (enc_opt es) < length msg"
  shows "\<exists>msg' off'. packDataOpt es msg off = Ok (msg', off') \<and> extends msg off msg' off' \<and>
    unpackDataOpt (take off' msg') off = Ok (map as_read es, off')"
proof -
  have "ok_opt (map as_read es)" using assms(1) by (simp add: ok_opt_def list_all_iff)
  from opt.reads_prefix [OF this assms(2)] assms(3) show ?thesis by auto
qed

theorem edns_reads_back_witness:
  "\<exists>msg' off'. packDataOpt [EDNS0_UL 2 30 60, EDNS0_COOKIE 10 (str ''24a5ac'')] (replicate 40 0) 0 = Ok (msg', off') \<and>
     extends (replicate 40 0) 0 msg' off' \<and>
     unpackDataOpt (take off' msg') 0 = Ok ([EDNS0_UL 0 30 60, EDNS0_COOKIE 0 (str ''24a5ac'')], off')"
proof -
  let ?es = "[EDNS0_UL 2 30 60, EDNS0_COOKIE 10 (str ''24a5ac'')]"
  have "list_all (\<lambda>e. ok_edns (as_read e)) ?es" "map (\<lambda>e. length (edns_payload e)) ?es = [8, 3]" by code_simp+
  then have "list_all (\<lambda>e. ok_edns (as_read e) \<and> length (edns_payload e) < 65536) ?es" by simp
  moreover have "length (enc_opt ?es) = 19" by code_simp
  then have "0 + length (enc_opt ?es) < length (replicate 40 (0 :: byte))" by simp
  ultimately show ?thesis using edns_reads_back [of ?es 0 "replicate 40 0"] by simp
qed

end
