(* ===== verification/Svcb.thy ===== *)
theory Svcb
  imports Encodings
begin

section \<open>SVCB parameters\<close>

text \<open>
  The key-value pairs of \<^verbatim>\<open>svcb.go\<close> as one datatype, with a constructor per struct, their
  methods \<^verbatim>\<open>Key\<close>, \<^verbatim>\<open>pack\<close>, \<^verbatim>\<open>unpack\<close> and \<^verbatim>\<open>len\<close>,
  and the list of pairs of an SVCB record in \<^verbatim>\<open>msg_helpers.go\<close>. A nil value of the interface, on which the
  calls of these methods panic, is not a value of the datatype.
\<close>

datatype SVCBKeyValue =
    SVCBMandatory "u16 list"
  | SVCBAlpn "gostring list"
  | SVCBNoDefaultAlpn
  | SVCBPort u16
  | SVCBIPv4Hint "bytes list"
  | SVCBECHConfig bytes
  | SVCBIPv6Hint "bytes list"
  | SVCBDoHPath gostring
  | SVCBOhttp
  | SVCBLocal u16 bytes

abbreviation svcb_RESERVED :: u16 where "svcb_RESERVED \<equiv> 65535"

fun svcb_Key :: "SVCBKeyValue \<Rightarrow> u16" where
  "svcb_Key (SVCBMandatory _) = 0"
| "svcb_Key (SVCBAlpn _) = 1"
| "svcb_Key SVCBNoDefaultAlpn = 2"
| "svcb_Key (SVCBPort _) = 3"
| "svcb_Key (SVCBIPv4Hint _) = 4"
| "svcb_Key (SVCBECHConfig _) = 5"
| "svcb_Key (SVCBIPv6Hint _) = 6"
| "svcb_Key (SVCBDoHPath _) = 7"
| "svcb_Key SVCBOhttp = 8"
| "svcb_Key (SVCBLocal keyCode _) = keyCode"

definition makeSVCBKeyValue :: "u16 \<Rightarrow> SVCBKeyValue option" where
  "makeSVCBKeyValue key =
     (if key = 0 then Some (SVCBMandatory [])
      else if key = 1 then Some (SVCBAlpn [])
      else if key = 2 then Some SVCBNoDefaultAlpn
      else if key = 3 then Some (SVCBPort 0)
      else if key = 4 then Some (SVCBIPv4Hint [])
      else if key = 5 then Some (SVCBECHConfig [])
      else if key = 6 then Some (SVCBIPv6Hint [])
      else if key = 7 then Some (SVCBDoHPath [])
      else if key = 8 then Some SVCBOhttp
      else if key = svcb_RESERVED then None
      else Some (SVCBLocal key []))"

subsection \<open>Packing one pair\<close>

definition SVCBMandatory_pack :: "u16 list \<Rightarrow> bytes" where
  "SVCBMandatory_pack codes = concat (map be16 (sort codes))"

fun SVCBAlpn_pack :: "gostring list \<Rightarrow> bytes res" where
  "SVCBAlpn_pack [] = Ok []"
| "SVCBAlpn_pack (e # alpn) =
     (if e = [] then Err (ErrMsg ''bad svcbalpn: empty alpn-id'')
      else if length e > 255 then Err (ErrMsg ''bad svcbalpn: alpn-id too long'')
      else bindR (SVCBAlpn_pack alpn) (\<lambda>b. Ok (of_nat (length e) # e @ b)))"

fun SVCBIPv4Hint_pack :: "bytes list \<Rightarrow> bytes res" where
  "SVCBIPv4Hint_pack [] = Ok []"
| "SVCBIPv4Hint_pack (e # hint) =
     (let x = To4 e in
      if x = [] then Err (ErrMsg ''bad svcbipv4hint: expected ipv4, hint is ipv6'')
      else bindR (SVCBIPv4Hint_pack hint) (\<lambda>b. Ok (x @ b)))"

fun SVCBIPv6Hint_pack :: "bytes list \<Rightarrow> bytes res" where
  "SVCBIPv6Hint_pack [] = Ok []"
| "SVCBIPv6Hint_pack (e # hint) =
     (if length e \<noteq> 16 \<or> To4 e \<noteq> []
      then Err (ErrMsg ''bad svcbipv6hint: expected ipv6, hint is ipv4'')
      else bindR (SVCBIPv6Hint_pack hint) (\<lambda>b. Ok (e @ b)))"

fun svcb_pack :: "SVCBKeyValue \<Rightarrow> bytes res" where
  "svcb_pack (SVCBMandatory codes) = Ok (SVCBMandatory_pack codes)"
| "svcb_pack (SVCBAlpn alpn) = SVCBAlpn_pack alpn"
| "svcb_pack SVCBNoDefaultAlpn = Ok []"
| "svcb_pack (SVCBPort port) = Ok (be16 port)"
| "svcb_pack (SVCBIPv4Hint hint) = SVCBIPv4Hint_pack hint"
| "svcb_pack (SVCBECHConfig ech) = Ok ech"
| "svcb_pack (SVCBIPv6Hint hint) = SVCBIPv6Hint_pack hint"
| "svcb_pack (SVCBDoHPath template) = Ok template"
| "svcb_pack SVCBOhttp = Ok []"
| "svcb_pack (SVCBLocal _ data) = Ok data"

fun svcb_len :: "SVCBKeyValue \<Rightarrow> nat" where
  "svcb_len (SVCBMandatory codes) = 2 * length codes"
| "svcb_len (SVCBAlpn alpn) = sum_list (map (\<lambda>e. 1 + length e) alpn)"
| "svcb_len SVCBNoDefaultAlpn = 0"
| "svcb_len (SVCBPort _) = 2"
| "svcb_len (SVCBIPv4Hint hint) = 4 * length hint"
| "svcb_len (SVCBECHConfig ech) = length ech"
| "svcb_len (SVCBIPv6Hint hint) = 16 * length hint"
| "svcb_len (SVCBDoHPath template) = length template"
| "svcb_len SVCBOhttp = 0"
| "svcb_len (SVCBLocal _ data) = length data"

subsection \<open>Unpacking one pair\<close>

fun SVCBMandatory_unpack :: "bytes \<Rightarrow> u16 list res" where
  "SVCBMandatory_unpack [] = Ok []"
| "SVCBMandatory_unpack [_] =
     Err (ErrMsg ''bad svcbmandatory: value length is not a multiple of 2'')"
| "SVCBMandatory_unpack (a # b # r) =
     bindR (SVCBMandatory_unpack r) (\<lambda>codes. Ok (be_word [a, b] # codes))"

function SVCBAlpn_unpack :: "bytes \<Rightarrow> gostring list res" where
  "SVCBAlpn_unpack b =
     (case b of
        [] \<Rightarrow> Ok []
      | l # r \<Rightarrow>
          if unat l > length r then Err (ErrMsg ''bad svcbalpn: alpn array overflowing'')
          else bindR (SVCBAlpn_unpack (drop (unat l) r)) (\<lambda>alpn. Ok (take (unat l) r # alpn)))"
  by pat_completeness auto
termination
  by (relation "measure length") auto

declare SVCBAlpn_unpack.simps [simp del]

text \<open>The loops over addresses of \<open>n\<close> bytes.\<close>

function chunks :: "nat \<Rightarrow> bytes \<Rightarrow> bytes list" where
  "chunks n b = (if n = 0 \<or> b = [] then [] else take n b # chunks n (drop n b))"
  by pat_completeness auto
termination
  by (relation "measure (\<lambda>(n, b). length b)") auto

declare chunks.simps [simp del]

definition SVCBIPv4Hint_unpack :: "bytes \<Rightarrow> SVCBKeyValue res" where
  "SVCBIPv4Hint_unpack b =
     (if length b = 0 \<or> length b mod 4 \<noteq> 0
      then Err (ErrMsg ''bad svcbipv4hint: ipv4 address byte array length is not a multiple of 4'')
      else Ok (SVCBIPv4Hint (chunks 4 b)))"

definition SVCBIPv6Hint_unpack :: "bytes \<Rightarrow> SVCBKeyValue res" where
  "SVCBIPv6Hint_unpack b =
     (if length b = 0 \<or> length b mod 16 \<noteq> 0
      then Err (ErrMsg ''bas svcbipv6hint: ipv6 address byte array length not a multiple of 16'')
      else if list_ex (\<lambda>ip. To4 ip \<noteq> []) (chunks 16 b)
      then Err (ErrMsg ''bad svcbipv6hint: expected ipv6, got ipv4'')
      else Ok (SVCBIPv6Hint (chunks 16 b)))"

fun svcb_unpack :: "SVCBKeyValue \<Rightarrow> bytes \<Rightarrow> SVCBKeyValue res" where
  "svcb_unpack (SVCBMandatory _) b = bindR (SVCBMandatory_unpack b) (\<lambda>codes. Ok (SVCBMandatory codes))"
| "svcb_unpack (SVCBAlpn _) b = bindR (SVCBAlpn_unpack b) (\<lambda>alpn. Ok (SVCBAlpn alpn))"
| "svcb_unpack SVCBNoDefaultAlpn b =
     (if length b \<noteq> 0
      then Err (ErrMsg ''bad svcbnodefaultalpn: no-default-alpn must have no value'')
      else Ok SVCBNoDefaultAlpn)"
| "svcb_unpack (SVCBPort _) b =
     (if length b \<noteq> 2 then Err (ErrMsg ''bad svcbport: port length is not exactly 2 octets'')
      else Ok (SVCBPort (be_word b)))"
| "svcb_unpack (SVCBIPv4Hint _) b = SVCBIPv4Hint_unpack b"
| "svcb_unpack (SVCBECHConfig _) b = Ok (SVCBECHConfig b)"
| "svcb_unpack (SVCBIPv6Hint _) b = SVCBIPv6Hint_unpack b"
| "svcb_unpack (SVCBDoHPath _) b = Ok (SVCBDoHPath b)"
| "svcb_unpack SVCBOhttp b =
     (if length b \<noteq> 0 then Err (ErrMsg ''bad svcbotthp: svcbotthp must have no value'')
      else Ok SVCBOhttp)"
| "svcb_unpack (SVCBLocal keyCode _) b = Ok (SVCBLocal keyCode b)"

subsection \<open>The pairs of an SVCB record\<close>

lemma unpackUint16_progress: "unpackUint16 msg off = Ok (v, off') \<Longrightarrow> off < off' \<and> off' \<le> length msg"
  by (auto simp: unpackUint16_def bindR_eq_Ok split: if_splits)

function unpackDataSVCB_loop :: "bytes \<Rightarrow> nat \<Rightarrow> SVCBKeyValue list \<Rightarrow> (SVCBKeyValue list \<times> nat) off_res" where
  "unpackDataSVCB_loop msg off xs =
     (if off < length msg then
        let overflow = (\<lambda>_. (length msg, ErrMsg ''overflow unpacking SVCB'')) in
        bindR (mapErr overflow (unpackUint16 msg off)) (\<lambda>(code, off).
        bindR (mapErr overflow (unpackUint16 msg off)) (\<lambda>(len, off).
          if off + unat len > length msg then Err (length msg, ErrMsg ''overflow unpacking SVCB'')
          else
            (case makeSVCBKeyValue code of
               None \<Rightarrow> Err (length msg, ErrMsg ''bad SVCB key'')
             | Some e \<Rightarrow>
                 bindR (mapErr (\<lambda>e. (length msg, e)) (svcb_unpack e (take (unat len) (drop off msg)))) (\<lambda>e.
                   if xs \<noteq> [] \<and> svcb_Key e \<le> svcb_Key (last xs)
                   then Err (length msg, ErrMsg ''SVCB keys not in strictly increasing order'')
                   else unpackDataSVCB_loop msg (off + unat len) (xs @ [e])))))
      else Ok (xs, off))"
  by pat_completeness auto
termination
  by (relation "measure (\<lambda>(msg, off, xs). length msg - off)")
    (auto dest!: unpackUint16_progress)

declare unpackDataSVCB_loop.simps [simp del]

definition unpackDataSVCB :: "bytes \<Rightarrow> nat \<Rightarrow> (SVCBKeyValue list \<times> nat) off_res" where
  "unpackDataSVCB msg off = unpackDataSVCB_loop msg off []"

fun packDataSVCB_loop :: "SVCBKeyValue list \<Rightarrow> u16 \<Rightarrow> bytes \<Rightarrow> nat \<Rightarrow> (bytes \<times> nat) off_res" where
  "packDataSVCB_loop [] prev msg off = Ok (msg, off)"
| "packDataSVCB_loop (el # pairs) prev msg off =
     (if svcb_Key el = prev then Err (length msg, ErrMsg ''repeated SVCB keys are not allowed'')
      else
        let overflow = (\<lambda>_. (length msg, ErrMsg ''overflow packing SVCB'')) in
        bindR (mapErr (\<lambda>e. (length msg, e)) (svcb_pack el)) (\<lambda>packed.
        bindR (mapErr overflow (packUint16 (svcb_Key el) msg off)) (\<lambda>(msg, off).
        bindR (mapErr overflow (packUint16 (of_nat (length packed)) msg off)) (\<lambda>(msg, off).
          if off + length packed > length msg then Err (length msg, ErrMsg ''overflow packing SVCB'')
          else bindR (write_at msg off packed) (\<lambda>msg.
                 packDataSVCB_loop pairs (svcb_Key el) msg (off + length packed))))))"

text \<open>
  The pairs are packed in the order of their keys; two equal keys are refused, so that it does not matter for what is packed
  in which order \<^verbatim>\<open>sort.Slice\<close> leaves them.
\<close>

definition packDataSVCB :: "SVCBKeyValue list \<Rightarrow> bytes \<Rightarrow> nat \<Rightarrow> (bytes \<times> nat) off_res" where
  "packDataSVCB pairs msg off = packDataSVCB_loop (sort_key svcb_Key pairs) svcb_RESERVED msg off"

subsection \<open>A pair reads back\<close>

fun ok_pair :: "SVCBKeyValue \<Rightarrow> bool" where
  "ok_pair (SVCBMandatory codes) = sorted codes"
| "ok_pair (SVCBAlpn alpn) = list_all (\<lambda>e. e \<noteq> [] \<and> length e \<le> 255) alpn"
| "ok_pair (SVCBIPv4Hint hint) = (hint \<noteq> [] \<and> list_all (\<lambda>e. length e = 4) hint)"
| "ok_pair (SVCBIPv6Hint hint) = (hint \<noteq> [] \<and> list_all (\<lambda>e. length e = 16 \<and> To4 e = []) hint)"
| "ok_pair (SVCBLocal key _) = (makeSVCBKeyValue key = Some (SVCBLocal key []))"
| "ok_pair _ = True"

lemma SVCBMandatory_unpack_be16: "SVCBMandatory_unpack (be16 c @ r) = bindR (SVCBMandatory_unpack r) (\<lambda>codes. Ok (c # codes))"
proof -
  obtain a b where c: "be16 c = [a, b]" by (simp add: be16_def)
  then show ?thesis using be_word_be16 [of c] by simp
qed

lemma SVCBMandatory_roundtrip: "sorted codes \<Longrightarrow> SVCBMandatory_unpack (SVCBMandatory_pack codes) = Ok codes"
proof -
  have "SVCBMandatory_unpack (concat (map be16 cs)) = Ok cs" for cs
    by (induction cs) (simp_all add: SVCBMandatory_unpack_be16)
  then show "sorted codes \<Longrightarrow> SVCBMandatory_unpack (SVCBMandatory_pack codes) = Ok codes"
    by (simp add: SVCBMandatory_pack_def sorted_sort_id)
qed

lemma SVCBAlpn_roundtrip:
  "list_all (\<lambda>e. e \<noteq> [] \<and> length e \<le> 255) alpn \<Longrightarrow>
   \<exists>b. SVCBAlpn_pack alpn = Ok b \<and> SVCBAlpn_unpack b = Ok alpn \<and> length b = sum_list (map (\<lambda>e. 1 + length e) alpn)"
proof (induction alpn)
  case Nil
  then show ?case by (simp add: SVCBAlpn_unpack.simps)
next
  case (Cons e alpn)
  then obtain b where b: "SVCBAlpn_pack alpn = Ok b" "SVCBAlpn_unpack b = Ok alpn" "length b = sum_list (map (\<lambda>e. 1 + length e) alpn)"
    by auto
  have "unat (of_nat (length e) :: byte) = length e" using Cons.prems by (simp add: unat_of_nat)
  then have "SVCBAlpn_unpack (of_nat (length e) # e @ b) = Ok (e # alpn)"
    using b(2) by (subst SVCBAlpn_unpack.simps) simp
  with b Cons.prems show ?case by simp
qed

lemma chunks_concat: "0 < n \<Longrightarrow> list_all (\<lambda>e. length e = n) es \<Longrightarrow> chunks n (concat es) = es"
proof (induction es)
  case Nil
  then show ?case by (simp add: chunks.simps)
next
  case (Cons e es)
  then show ?case by (subst chunks.simps) auto
qed

lemma length_concat_const: "list_all (\<lambda>e. length e = n) es \<Longrightarrow> length (concat es) = n * length es"
  by (induction es) auto

lemma SVCBIPv4Hint_pack_concat: "list_all (\<lambda>e. length e = 4) hint \<Longrightarrow> SVCBIPv4Hint_pack hint = Ok (concat hint)"
  by (induction hint) (auto simp: To4_def)

lemma SVCBIPv6Hint_pack_concat: "list_all (\<lambda>e. length e = 16 \<and> To4 e = []) hint \<Longrightarrow> SVCBIPv6Hint_pack hint = Ok (concat hint)"
  by (induction hint) auto

lemma SVCBIPv4Hint_roundtrip:
  assumes "hint \<noteq> []" and "list_all (\<lambda>e. length e = 4) hint"
  shows "SVCBIPv4Hint_unpack (concat hint) = Ok (SVCBIPv4Hint hint)"
  using assms chunks_concat [of 4 hint] by (simp add: SVCBIPv4Hint_unpack_def length_concat_const)

lemma SVCBIPv6Hint_roundtrip:
  assumes "hint \<noteq> []" and "list_all (\<lambda>e. length e = 16 \<and> To4 e = []) hint"
  shows "SVCBIPv6Hint_unpack (concat hint) = Ok (SVCBIPv6Hint hint)"
proof -
  have l: "list_all (\<lambda>e. length e = 16) hint" and "\<not> list_ex (\<lambda>ip. To4 ip \<noteq> []) hint"
    using assms(2) by (auto simp: list_all_iff list_ex_iff)
  then show ?thesis using assms(1) chunks_concat [of 16 hint] by (simp add: SVCBIPv6Hint_unpack_def length_concat_const)
qed

lemma svcb_roundtrip:
  assumes "ok_pair v"
  shows "\<exists>b e. svcb_pack v = Ok b \<and> makeSVCBKeyValue (svcb_Key v) = Some e \<and> svcb_unpack e b = Ok v \<and> length b = svcb_len v"
proof (cases v)
  case (SVCBMandatory codes)
  have "length (SVCBMandatory_pack codes) = 2 * length codes"
    using length_concat_const [of 2 "map be16 (sort codes)"] by (simp add: SVCBMandatory_pack_def list_all_iff)
  then show ?thesis using assms SVCBMandatory by (simp add: makeSVCBKeyValue_def SVCBMandatory_roundtrip)
next
  case (SVCBAlpn alpn)
  then show ?thesis using assms SVCBAlpn_roundtrip [of alpn] by (auto simp: makeSVCBKeyValue_def)
next
  case (SVCBIPv4Hint hint)
  then show ?thesis using assms
    by (simp add: makeSVCBKeyValue_def SVCBIPv4Hint_pack_concat SVCBIPv4Hint_roundtrip length_concat_const)
next
  case (SVCBIPv6Hint hint)
  moreover have "length (concat hint) = 16 * length hint"
    using assms SVCBIPv6Hint by (intro length_concat_const) (auto simp: list_all_iff)
  ultimately show ?thesis using assms
    by (simp add: makeSVCBKeyValue_def SVCBIPv6Hint_pack_concat SVCBIPv6Hint_roundtrip)
qed (use assms in \<open>auto simp: makeSVCBKeyValue_def\<close>)

subsection \<open>The list of pairs reads back\<close>

definition svcb_payload :: "SVCBKeyValue \<Rightarrow> bytes" where
  "svcb_payload v = (case svcb_pack v of Ok b \<Rightarrow> b | _ \<Rightarrow> [])"

definition enc_pair :: "SVCBKeyValue \<Rightarrow> bytes" where
  "enc_pair v = be16 (svcb_Key v) @ be16 (of_nat (length (svcb_payload v))) @ svcb_payload v"

definition enc_svcb :: "SVCBKeyValue list \<Rightarrow> bytes" where
  "enc_svcb vs = concat (map enc_pair vs)"

text \<open>The pairs are in the order of their keys, without repetition.\<close>

definition ok_svcb :: "SVCBKeyValue list \<Rightarrow> bool" where
  "ok_svcb vs \<longleftrightarrow> sorted_wrt (\<lambda>a b. svcb_Key a < svcb_Key b) vs \<and> list_all (\<lambda>v. ok_pair v \<and> svcb_len v < 65536) vs"

lemma enc_svcb_simps [simp]: "enc_svcb [] = []" "enc_svcb (v # vs) = enc_pair v @ enc_svcb vs"
  by (simp_all add: enc_svcb_def)

lemma ok_svcb_simps [simp]:
  "ok_svcb []"
  "ok_svcb (v # vs) \<longleftrightarrow> (\<forall>x \<in> set vs. svcb_Key v < svcb_Key x) \<and> ok_pair v \<and> svcb_len v < 65536 \<and> ok_svcb vs"
  by (auto simp: ok_svcb_def)

lemma svcb_payload_ok:
  assumes "ok_pair v"
  shows "svcb_pack v = Ok (svcb_payload v)" and "length (svcb_payload v) = svcb_len v"
    and "\<exists>e. makeSVCBKeyValue (svcb_Key v) = Some e \<and> svcb_unpack e (svcb_payload v) = Ok v"
  using svcb_roundtrip [OF assms] by (auto simp: svcb_payload_def)

lemma ok_pair_key: "ok_pair v \<Longrightarrow> svcb_Key v \<noteq> svcb_RESERVED"
  by (cases v) (auto simp: makeSVCBKeyValue_def split: if_splits)

lemma length_enc_pair [simp]: "length (enc_pair v) = length (svcb_payload v) + 4"
  by (simp add: enc_pair_def)

lemma enc_svcb_Nil [simp]: "enc_svcb vs = [] \<longleftrightarrow> vs = []"
  by (cases vs) (auto simp: enc_pair_def)

lemma packDataSVCB_Cons:
  assumes "off + length (enc_pair v) \<le> length msg" and "ok_pair v" and "svcb_Key v \<noteq> prev"
  shows "packDataSVCB_loop (v # vs) prev msg off = packDataSVCB_loop vs (svcb_Key v) (put msg off (enc_pair v)) (off + length (enc_pair v))"
  using assms svcb_payload_ok(1) [OF assms(2)]
  by (simp add: packUint16_def put_put_at enc_pair_def add.assoc del: add_2_eq_Suc add_2_eq_Suc')

lemma packDataSVCB_Cons_fits:
  assumes "packDataSVCB_loop (v # vs) prev msg off = Ok r" and "ok_pair v"
  shows "off + length (enc_pair v) \<le> length msg" and "svcb_Key v \<noteq> prev"
  using assms svcb_payload_ok(1) [OF assms(2)] by (auto simp: bindR_eq_Ok packUint16_def Let_def split: if_splits)

lemma packDataSVCB_loop_enc:
  assumes "ok_svcb vs" and "\<forall>v \<in> set vs. svcb_Key v \<noteq> prev"
  shows "off + length (enc_svcb vs) \<le> length msg \<Longrightarrow>
           packDataSVCB_loop vs prev msg off = Ok (put msg off (enc_svcb vs), off + length (enc_svcb vs))"
    and "packDataSVCB_loop vs prev msg off = Ok r \<Longrightarrow> vs \<noteq> [] \<longrightarrow> off + length (enc_svcb vs) \<le> length msg"
  using assms
proof (induction vs arbitrary: msg off prev)
  case (Cons v vs)
  {
    case 1
    then have *: "\<forall>x \<in> set vs. svcb_Key x \<noteq> svcb_Key v" by auto
    from 1 show ?case
      using packDataSVCB_Cons [of off v msg prev vs] Cons.IH(1) [OF _ _ *, of "off + length (enc_pair v)" "put msg off (enc_pair v)"]
      by (simp add: put_put_at add.assoc del: packDataSVCB_loop.simps)
  next
    case 2
    then have v: "ok_pair v" "ok_svcb vs" and *: "\<forall>x \<in> set vs. svcb_Key x \<noteq> svcb_Key v" by auto
    note fit = packDataSVCB_Cons_fits [OF 2(1) v(1)]
    from 2(1) have "packDataSVCB_loop vs (svcb_Key v) (put msg off (enc_pair v)) (off + length (enc_pair v)) = Ok r"
      unfolding packDataSVCB_Cons [OF fit(1) v(1) fit(2)] .
    from Cons.IH(2) [OF this v(2) *] fit(1) show ?case by (cases vs) auto
  }
qed auto

lemma ok_svcb_sorted: "ok_svcb vs \<Longrightarrow> sort_key svcb_Key vs = vs"
  by (rule sort_key_id_if_sorted) (induction vs, auto)

lemma svcb_pack_safe: "svcb_pack v \<noteq> Panic"
proof -
  have "SVCBAlpn_pack a \<noteq> Panic" for a by (induction a) (auto simp: bindR_eq_Panic)
  moreover have "SVCBIPv4Hint_pack h \<noteq> Panic" "SVCBIPv6Hint_pack h \<noteq> Panic" for h
    by (induction h) (auto simp: bindR_eq_Panic Let_def)
  ultimately show ?thesis by (cases v) auto
qed

lemma packDataSVCB_loop_safe: "packDataSVCB_loop vs prev msg off \<noteq> Panic"
  by (induction vs arbitrary: prev msg off)
    (auto simp: svcb_pack_safe u16.pack_safe bindR_eq_Panic not_less Let_def write_at_def)

lemma unpackDataSVCB_step:
  assumes "drop off M = be16 key @ be16 (of_nat n) @ r" and "n < 65536" and "n \<le> length r" and "off \<le> length M"
  shows "unpackDataSVCB_loop M off xs =
    (case makeSVCBKeyValue key of
       None \<Rightarrow> Err (length M, ErrMsg ''bad SVCB key'')
     | Some e \<Rightarrow>
         bindR (mapErr (\<lambda>e. (length M, e)) (svcb_unpack e (take n r))) (\<lambda>e.
           if xs \<noteq> [] \<and> svcb_Key e \<le> svcb_Key (last xs)
           then Err (length M, ErrMsg ''SVCB keys not in strictly increasing order'')
           else unpackDataSVCB_loop M (off + 4 + n) (xs @ [e])))"
proof -
  have len: "length M = off + 4 + length r" using arg_cong [OF assms(1), of length] assms(4) by simp
  have a: "unpackUint16 M off = Ok (key, off + 2)" using assms(1) len by (simp add: unpackUint16_def)
  note d2 = take_drop_word(2) [OF assms(1)]
  have d4: "drop (off + 4) M = r" using take_drop_word(2) [OF d2] by (simp add: add.assoc del: add_2_eq_Suc add_2_eq_Suc')
  have b: "unpackUint16 M (off + 2) = Ok (of_nat n, off + 4)" using d2 len by (simp add: unpackUint16_def add.assoc del: add_2_eq_Suc add_2_eq_Suc')
  have n: "unat (of_nat n :: u16) = n" using assms(2) by (simp add: unat_of_nat)
  show ?thesis
    using len assms(3) by (subst unpackDataSVCB_loop.simps) (simp add: a b [simplified] n d4 Let_def cong: option.case_cong if_cong)
qed

lemma unpackDataSVCB_loop_enc:
  assumes "ok_svcb vs" and "off \<le> length M" and "drop off M = enc_svcb vs"
    and "xs \<noteq> [] \<Longrightarrow> \<forall>v \<in> set vs. svcb_Key (last xs) < svcb_Key v"
  shows "unpackDataSVCB_loop M off xs = Ok (xs @ vs, length M)"
  using assms
proof (induction vs arbitrary: off xs)
  case Nil
  then show ?case by (simp add: unpackDataSVCB_loop.simps)
next
  case (Cons v vs)
  let ?b = "svcb_payload v"
  have v: "ok_pair v" "svcb_len v < 65536" using Cons.prems(1) by auto
  note P = svcb_payload_ok [OF v(1)]
  have len: "length M = off + 4 + length ?b + length (enc_svcb vs)"
    using arg_cong [OF Cons.prems(3), of length] Cons.prems(2) by simp
  have d: "drop off M = be16 (svcb_Key v) @ be16 (of_nat (length ?b)) @ ?b @ enc_svcb vs"
    using Cons.prems(3) by (simp add: enc_pair_def)
  have "drop (off + 4 + length ?b) M = drop (4 + length ?b) (drop off M)" by (simp add: ac_simps)
  also have "\<dots> = enc_svcb vs" unfolding Cons.prems(3) by (simp add: add.commute)
  finally have "unpackDataSVCB_loop M (off + 4 + length ?b) (xs @ [v]) = Ok (xs @ v # vs, length M)"
    using Cons.IH [of "off + 4 + length ?b" "xs @ [v]"] Cons.prems(1) len by simp
  moreover obtain e where "makeSVCBKeyValue (svcb_Key v) = Some e" "svcb_unpack e ?b = Ok v" using P(3) by blast
  moreover have "\<not> (xs \<noteq> [] \<and> svcb_Key v \<le> svcb_Key (last xs))" using Cons.prems(4) by (auto simp: not_le)
  ultimately show ?case
    using unpackDataSVCB_step [OF d] P(2) v(2) Cons.prems(2) by simp
qed

interpretation svcb: rest_field packDataSVCB enc_svcb ok_svcb "\<lambda>M off e. unpackDataSVCB M off"
proof
  fix v and msg :: bytes and off and r :: "bytes \<times> nat"
  assume ok: "ok_svcb v"
  have keys: "\<forall>x \<in> set v. svcb_Key x \<noteq> svcb_RESERVED" using ok ok_pair_key by (auto simp: ok_svcb_def list_all_iff)
  have loop: "packDataSVCB v msg off = packDataSVCB_loop v svcb_RESERVED msg off"
    using ok_svcb_sorted [OF ok] by (simp add: packDataSVCB_def)
  show "r = (put msg off (enc_svcb v), off + length (enc_svcb v)) \<and> (enc_svcb v \<noteq> [] \<longrightarrow> off + length (enc_svcb v) \<le> length msg)"
    if "packDataSVCB v msg off = Ok r"
    using packDataSVCB_loop_enc(2) [OF ok keys that [unfolded loop]] packDataSVCB_loop_enc(1) [OF ok keys, of off msg] that loop
    by (cases v) auto
  show "\<exists>r. packDataSVCB v msg off = Ok r" if "off + length (enc_svcb v) < length msg"
    using packDataSVCB_loop_enc(1) [OF ok keys, of off msg] that loop by simp
next
  show "packDataSVCB v msg off \<noteq> Panic" for v msg off by (simp add: packDataSVCB_def packDataSVCB_loop_safe)
next
  fix v and M :: bytes and off
  assume "ok_svcb v" "length M = off + length (enc_svcb v)" "drop off M = enc_svcb v"
  then show "unpackDataSVCB M off = Ok (v, length M)"
    using unpackDataSVCB_loop_enc [of v off M "[]"] by (simp add: unpackDataSVCB_def)
qed

lemma SVCBAlpn_unpack_safe: "SVCBAlpn_unpack b \<noteq> Panic"
  by (induction b rule: SVCBAlpn_unpack.induct) (subst SVCBAlpn_unpack.simps, auto simp: bindR_eq_Panic split: list.splits)

lemma svcb_unpack_safe: "svcb_unpack v b \<noteq> Panic"
proof -
  have "SVCBMandatory_unpack b \<noteq> Panic" by (induction b rule: SVCBMandatory_unpack.induct) (auto simp: bindR_eq_Panic)
  then show ?thesis
    by (cases v) (auto simp: bindR_eq_Panic SVCBAlpn_unpack_safe SVCBIPv4Hint_unpack_def SVCBIPv6Hint_unpack_def)
qed

lemma unpackDataSVCB_loop_safe:
  "off \<le> length msg \<Longrightarrow> safe (unpackDataSVCB_loop msg off xs) (\<lambda>(v, off'). off \<le> off' \<and> off' \<le> length msg)"
proof (induction "length msg - off" arbitrary: off xs rule: less_induct)
  case less
  show ?case
  proof (cases "off + 4 \<le> length msg")
    case True
    define r where "r = drop (off + 4) msg"
    obtain key l :: u16 where kl: "unpackUint16 msg off = Ok (key, off + 2)" "unpackUint16 msg (off + 2) = Ok (l, off + 4)"
      using True by (simp add: unpackUint16_def add.assoc del: add_2_eq_Suc add_2_eq_Suc')
    have IH: "safe (unpackDataSVCB_loop msg (off + 4 + unat l) xs') (\<lambda>(v, off'). off \<le> off' \<and> off' \<le> length msg)"
      if "off + 4 + unat l \<le> length msg" for xs'
    proof (rule safe_later)
      show "safe (unpackDataSVCB_loop msg (off + 4 + unat l) xs') (\<lambda>(v, off'). off + 4 + unat l \<le> off' \<and> off' \<le> length msg)"
        using that by (intro less(1)) linarith+
    qed linarith
    have "off < length msg" using True by simp
    then have "unpackDataSVCB_loop msg off xs =
      (if off + 4 + unat l > length msg then Err (length msg, ErrMsg ''overflow unpacking SVCB'')
       else (case makeSVCBKeyValue key of
         None \<Rightarrow> Err (length msg, ErrMsg ''bad SVCB key'')
       | Some e \<Rightarrow>
           bindR (mapErr (\<lambda>e. (length msg, e)) (svcb_unpack e (take (unat l) (drop (off + 4) msg)))) (\<lambda>e.
             if xs \<noteq> [] \<and> svcb_Key e \<le> svcb_Key (last xs)
             then Err (length msg, ErrMsg ''SVCB keys not in strictly increasing order'')
             else unpackDataSVCB_loop msg (off + 4 + unat l) (xs @ [e]))))"
      by (subst unpackDataSVCB_loop.simps) (simp add: kl(1) kl(2) [simplified] Let_def)
    then show ?thesis
      by (simp only:) (auto intro!: safe_bind [OF not_Panic_safe] IH simp: svcb_unpack_safe not_less split: option.splits)
  next
    case False
    have s: "safe (unpackUint16 msg o') (\<lambda>(v, off'). off' = o' + 2 \<and> off' \<le> length msg)" for o'
      by (auto simp: unpackUint16_def not_less intro!: safe_if)
    show ?thesis using False less(2)
      by (subst unpackDataSVCB_loop.simps) (auto simp: unpackUint16_def Let_def intro!: safe_bind [OF s] safe_if)
  qed
qed

lemma unpackDataSVCB_safe [unpack_safe]:
  "off \<le> length msg \<Longrightarrow> safe (unpackDataSVCB msg off) (\<lambda>(v, off'). off \<le> off' \<and> off' \<le> length msg)"
  using unpackDataSVCB_loop_safe by (simp add: unpackDataSVCB_def)

text \<open>
  C38: The parameters of an SVCB record pack into every buffer that has room for more, take exactly the octets that their
  \<^verbatim>\<open>len\<close> methods say, and read back, when they are in the form the unpacker writes: their keys are strictly ascending,
  the codes of the mandatory parameter ascend, every ALPN identifier has 1 to 255 octets, the hints are not empty and hold IPv4
  addresses of 4 octets or IPv6 addresses of 16 octets that are no IPv4 addresses, a parameter of an unknown key has a key
  that is neither known nor reserved, no parameter is nil, and every value is below 64 KiB.
\<close>

theorem svcb_reads_back:
  assumes "ok_svcb vs" and "off \<le> length msg" and "off + sum_list (map (\<lambda>v. 4 + svcb_len v) vs) < length msg"
  shows "\<exists>msg' off'. packDataSVCB vs msg off = Ok (msg', off') \<and> extends msg off msg' off' \<and>
    off' = off + sum_list (map (\<lambda>v. 4 + svcb_len v) vs) \<and> unpackDataSVCB (take off' msg') off = Ok (vs, off')"
proof -
  have "length (enc_svcb vs) = sum_list (map (\<lambda>v. 4 + svcb_len v) vs)"
    using assms(1) by (induction vs) (auto simp: enc_pair_def svcb_payload_ok)
  then show ?thesis using svcb.reads_prefix [OF assms(1,2)] assms(3) by simp
qed

theorem svcb_reads_back_witness:
  "\<exists>msg' off'. packDataSVCB [SVCBAlpn [str ''h2''], SVCBPort 443] (replicate 40 0) 0 = Ok (msg', off') \<and>
     extends (replicate 40 0) 0 msg' off' \<and> off' = 0 + sum_list (map (\<lambda>v. 4 + svcb_len v) [SVCBAlpn [str ''h2''], SVCBPort 443]) \<and>
     unpackDataSVCB (take off' msg') 0 = Ok ([SVCBAlpn [str ''h2''], SVCBPort 443], off')"
proof (rule svcb_reads_back)
  let ?vs = "[SVCBAlpn [str ''h2''], SVCBPort 443]"
  have "list_all ok_pair ?vs" "map svcb_len ?vs = [3, 2]" "sorted_wrt (\<lambda>a b. svcb_Key a < svcb_Key b) ?vs" by code_simp+
  then show "ok_svcb ?vs" "0 + sum_list (map (\<lambda>v. 4 + svcb_len v) ?vs) < length (replicate 40 (0 :: byte))"
    by (simp_all add: ok_svcb_def)
qed simp

end
