(* ===== verification/RR_Types.thy ===== *)
theory RR_Types
  imports Type_Bitmap Edns Svcb
begin

section \<open>Resource records\<close>

text \<open>
  The record structs of \<^verbatim>\<open>types.go\<close>, \<^verbatim>\<open>edns.go\<close>, \<^verbatim>\<open>svcb.go\<close>
  and \<^verbatim>\<open>tsig.go\<close>, one HOL record each; a field keeps its name, prefixed with the name of
  its struct. A struct that only embeds another one (\<^verbatim>\<open>CDS\<close> embeds \<^verbatim>\<open>DS\<close>) is a
  synonym of it. The interface \<^verbatim>\<open>RR\<close> is a datatype with a constructor per struct, and
  \<open>TypeToRR\<close> is the table of \<^verbatim>\<open>ztypes.go\<close>: it gives the zero value of the struct
  for a type code, with its header already set.
\<close>

record RR_Header =
  Hdr_Name :: gostring
  Hdr_Rrtype :: u16
  Hdr_Class :: u16
  Hdr_Ttl :: u32
  Hdr_Rdlength :: u16

record A =
  A_Hdr :: RR_Header
  A_A :: bytes

record AAAA =
  AAAA_Hdr :: RR_Header
  AAAA_AAAA :: bytes

record AFSDB =
  AFSDB_Hdr :: RR_Header
  AFSDB_Subtype :: u16
  AFSDB_Hostname :: gostring

record AMTRELAY =
  AMTRELAY_Hdr :: RR_Header
  AMTRELAY_Precedence :: byte
  AMTRELAY_GatewayType :: byte
  AMTRELAY_GatewayAddr :: bytes
  AMTRELAY_GatewayHost :: gostring

record ANY =
  ANY_Hdr :: RR_Header

record APL =
  APL_Hdr :: RR_Header
  APL_Prefixes :: "APLPrefix list"

record AVC =
  AVC_Hdr :: RR_Header
  AVC_Txt :: "gostring list"

record CAA =
  CAA_Hdr :: RR_Header
  CAA_Flag :: byte
  CAA_Tag :: gostring
  CAA_Value :: gostring

record CERT =
  CERT_Hdr :: RR_Header
  CERT_Type :: u16
  CERT_KeyTag :: u16
  CERT_Algorithm :: byte
  CERT_Certificate :: gostring

record CNAME =
  CNAME_Hdr :: RR_Header
  CNAME_Target :: gostring

record CSYNC =
  CSYNC_Hdr :: RR_Header
  CSYNC_Serial :: u32
  CSYNC_Flags :: u16
  CSYNC_TypeBitMap :: "u16 list"

record DHCID =
  DHCID_Hdr :: RR_Header
  DHCID_Digest :: gostring

record DNAME =
  DNAME_Hdr :: RR_Header
  DNAME_Target :: gostring

record DNSKEY =
  DNSKEY_Hdr :: RR_Header
  DNSKEY_Flags :: u16
  DNSKEY_Protocol :: byte
  DNSKEY_Algorithm :: byte
  DNSKEY_PublicKey :: gostring

record DS =
  DS_Hdr :: RR_Header
  DS_KeyTag :: u16
  DS_Algorithm :: byte
  DS_DigestType :: byte
  DS_Digest :: gostring

record EID =
  EID_Hdr :: RR_Header
  EID_Endpoint :: gostring

record EUI48 =
  EUI48_Hdr :: RR_Header
  EUI48_Address :: u64

record EUI64 =
  EUI64_Hdr :: RR_Header
  EUI64_Address :: u64

record GID =
  GID_Hdr :: RR_Header
  GID_Gid :: u32

record GPOS =
  GPOS_Hdr :: RR_Header
  GPOS_Longitude :: gostring
  GPOS_Latitude :: gostring
  GPOS_Altitude :: gostring

record HINFO =
  HINFO_Hdr :: RR_Header
  HINFO_Cpu :: gostring
  HINFO_Os :: gostring

record HIP =
  HIP_Hdr :: RR_Header
  HIP_HitLength :: byte
  HIP_PublicKeyAlgorithm :: byte
  HIP_PublicKeyLength :: u16
  HIP_Hit :: gostring
  HIP_PublicKey :: gostring
  HIP_RendezvousServers :: "gostring list"

record IPSECKEY =
  IPSECKEY_Hdr :: RR_Header
  IPSECKEY_Precedence :: byte
  IPSECKEY_GatewayType :: byte
  IPSECKEY_Algorithm :: byte
  IPSECKEY_GatewayAddr :: bytes
  IPSECKEY_GatewayHost :: gostring
  IPSECKEY_PublicKey :: gostring

record ISDN =
  ISDN_Hdr :: RR_Header
  ISDN_Address :: gostring
  ISDN_SubAddress :: gostring

record KX =
  KX_Hdr :: RR_Header
  KX_Preference :: u16
  KX_Exchanger :: gostring

record L32 =
  L32_Hdr :: RR_Header
  L32_Preference :: u16
  L32_Locator32 :: bytes

record L64 =
  L64_Hdr :: RR_Header
  L64_Preference :: u16
  L64_Locator64 :: u64

record LOC =
  LOC_Hdr :: RR_Header
  LOC_Version :: byte
  LOC_Size :: byte
  LOC_HorizPre :: byte
  LOC_VertPre :: byte
  LOC_Latitude :: u32
  LOC_Longitude :: u32
  LOC_Altitude :: u32

record LP =
  LP_Hdr :: RR_Header
  LP_Preference :: u16
  LP_Fqdn :: gostring

record MB =
  MB_Hdr :: RR_Header
  MB_Mb :: gostring

record MD =
  MD_Hdr :: RR_Header
  MD_Md :: gostring

record MF =
  MF_Hdr :: RR_Header
  MF_Mf :: gostring

record MG =
  MG_Hdr :: RR_Header
  MG_Mg :: gostring

record MINFO =
  MINFO_Hdr :: RR_Header
  MINFO_Rmail :: gostring
  MINFO_Email :: gostring

record MR =
  MR_Hdr :: RR_Header
  MR_Mr :: gostring

record MX =
  MX_Hdr :: RR_Header
  MX_Preference :: u16
  MX_Mx :: gostring

record NAPTR =
  NAPTR_Hdr :: RR_Header
  NAPTR_Order :: u16
  NAPTR_Preference :: u16
  NAPTR_Flags :: gostring
  NAPTR_Service :: gostring
  NAPTR_Regexp :: gostring
  NAPTR_Replacement :: gostring

record NID =
  NID_Hdr :: RR_Header
  NID_Preference :: u16
  NID_NodeID :: u64

record NIMLOC =
  NIMLOC_Hdr :: RR_Header
  NIMLOC_Locator :: gostring

record NINFO =
  NINFO_Hdr :: RR_Header
  NINFO_ZSData :: "gostring list"

record NS =
  NS_Hdr :: RR_Header
  NS_Ns :: gostring

record NSAPPTR =
  NSAPPTR_Hdr :: RR_Header
  NSAPPTR_Ptr :: gostring

record NSEC =
  NSEC_Hdr :: RR_Header
  NSEC_NextDomain :: gostring
  NSEC_TypeBitMap :: "u16 list"

record NSEC3 =
  NSEC3_Hdr :: RR_Header
  NSEC3_Hash :: byte
  NSEC3_Flags :: byte
  NSEC3_Iterations :: u16
  NSEC3_SaltLength :: byte
  NSEC3_Salt :: gostring
  NSEC3_HashLength :: byte
  NSEC3_NextDomain :: gostring
  NSEC3_TypeBitMap :: "u16 list"

record NSEC3PARAM =
  NSEC3PARAM_Hdr :: RR_Header
  NSEC3PARAM_Hash :: byte
  NSEC3PARAM_Flags :: byte
  NSEC3PARAM_Iterations :: u16
  NSEC3PARAM_SaltLength :: byte
  NSEC3PARAM_Salt :: gostring

record NULL =
  NULL_Hdr :: RR_Header
  NULL_Data :: gostring

record NXNAME =
  NXNAME_Hdr :: RR_Header

record OPENPGPKEY =
  OPENPGPKEY_Hdr :: RR_Header
  OPENPGPKEY_PublicKey :: gostring

record OPT =
  OPT_Hdr :: RR_Header
  OPT_Option :: "EDNS0 list"

record PTR =
  PTR_Hdr :: RR_Header
  PTR_Ptr :: gostring

record PX =
  PX_Hdr :: RR_Header
  PX_Preference :: u16
  PX_Map822 :: gostring
  PX_Mapx400 :: gostring

record RESINFO =
  RESINFO_Hdr :: RR_Header
  RESINFO_Txt :: "gostring list"

record RFC3597 =
  RFC3597_Hdr :: RR_Header
  RFC3597_Rdata :: gostring

record RKEY =
  RKEY_Hdr :: RR_Header
  RKEY_Flags :: u16
  RKEY_Protocol :: byte
  RKEY_Algorithm :: byte
  RKEY_PublicKey :: gostring

record RP =
  RP_Hdr :: RR_Header
  RP_Mbox :: gostring
  RP_Txt :: gostring

record RRSIG =
  RRSIG_Hdr :: RR_Header
  RRSIG_TypeCovered :: u16
  RRSIG_Algorithm :: byte
  RRSIG_Labels :: byte
  RRSIG_OrigTtl :: u32
  RRSIG_Expiration :: u32
  RRSIG_Inception :: u32
  RRSIG_KeyTag :: u16
  RRSIG_SignerName :: gostring
  RRSIG_Signature :: gostring

record RT =
  RT_Hdr :: RR_Header
  RT_Preference :: u16
  RT_Host :: gostring

record SMIMEA =
  SMIMEA_Hdr :: RR_Header
  SMIMEA_Usage :: byte
  SMIMEA_Selector :: byte
  SMIMEA_MatchingType :: byte
  SMIMEA_Certificate :: gostring

record SOA =
  SOA_Hdr :: RR_Header
  SOA_Ns :: gostring
  SOA_Mbox :: gostring
  SOA_Serial :: u32
  SOA_Refresh :: u32
  SOA_Retry :: u32
  SOA_Expire :: u32
  SOA_Minttl :: u32

record SPF =
  SPF_Hdr :: RR_Header
  SPF_Txt :: "gostring list"

record SRV =
  SRV_Hdr :: RR_Header
  SRV_Priority :: u16
  SRV_Weight :: u16
  SRV_Port :: u16
  SRV_Target :: gostring

record SSHFP =
  SSHFP_Hdr :: RR_Header
  SSHFP_Algorithm :: byte
  SSHFP_Type :: byte
  SSHFP_FingerPrint :: gostring

record SVCB =
  SVCB_Hdr :: RR_Header
  SVCB_Priority :: u16
  SVCB_Target :: gostring
  SVCB_Value :: "SVCBKeyValue list"

record TA =
  TA_Hdr :: RR_Header
  TA_KeyTag :: u16
  TA_Algorithm :: byte
  TA_DigestType :: byte
  TA_Digest :: gostring

record TALINK =
  TALINK_Hdr :: RR_Header
  TALINK_PreviousName :: gostring
  TALINK_NextName :: gostring

record TKEY =
  TKEY_Hdr :: RR_Header
  TKEY_Algorithm :: gostring
  TKEY_Inception :: u32
  TKEY_Expiration :: u32
  TKEY_Mode :: u16
  TKEY_Error :: u16
  TKEY_KeySize :: u16
  TKEY_Key :: gostring
  TKEY_OtherLen :: u16
  TKEY_OtherData :: gostring

record TLSA =
  TLSA_Hdr :: RR_Header
  TLSA_Usage :: byte
  TLSA_Selector :: byte
  TLSA_MatchingType :: byte
  TLSA_Certificate :: gostring

record TSIG =
  TSIG_Hdr :: RR_Header
  TSIG_Algorithm :: gostring
  TSIG_TimeSigned :: u64
  TSIG_Fudge :: u16
  TSIG_MACSize :: u16
  TSIG_MAC :: gostring
  TSIG_OrigId :: u16
  TSIG_Error :: u16
  TSIG_OtherLen :: u16
  TSIG_OtherData :: gostring

record TXT =
  TXT_Hdr :: RR_Header
  TXT_Txt :: "gostring list"

record UID =
  UID_Hdr :: RR_Header
  UID_Uid :: u32

record UINFO =
  UINFO_Hdr :: RR_Header
  UINFO_Uinfo :: gostring

record URI =
  URI_Hdr :: RR_Header
  URI_Priority :: u16
  URI_Weight :: u16
  URI_Target :: gostring

record X25 =
  X25_Hdr :: RR_Header
  X25_PSDNAddress :: gostring

record ZONEMD =
  ZONEMD_Hdr :: RR_Header
  ZONEMD_Serial :: u32
  ZONEMD_Scheme :: byte
  ZONEMD_Hash :: byte
  ZONEMD_Digest :: gostring

type_synonym CDNSKEY = DNSKEY
type_synonym CDS = DS
type_synonym DLV = DS
type_synonym HTTPS = SVCB
type_synonym KEY = DNSKEY
type_synonym NXT = NSEC
type_synonym SIG = RRSIG

datatype (plugins only: code) RR =
    RR_A A
  | RR_AAAA AAAA
  | RR_AFSDB AFSDB
  | RR_AMTRELAY AMTRELAY
  | RR_ANY ANY
  | RR_APL APL
  | RR_AVC AVC
  | RR_CAA CAA
  | RR_CDNSKEY CDNSKEY
  | RR_CDS CDS
  | RR_CERT CERT
  | RR_CNAME CNAME
  | RR_CSYNC CSYNC
  | RR_DHCID DHCID
  | RR_DLV DLV
  | RR_DNAME DNAME
  | RR_DNSKEY DNSKEY
  | RR_DS DS
  | RR_EID EID
  | RR_EUI48 EUI48
  | RR_EUI64 EUI64
  | RR_GID GID
  | RR_GPOS GPOS
  | RR_HINFO HINFO
  | RR_HIP HIP
  | RR_HTTPS HTTPS
  | RR_IPSECKEY IPSECKEY
  | RR_ISDN ISDN
  | RR_KEY KEY
  | RR_KX KX
  | RR_L32 L32
  | RR_L64 L64
  | RR_LOC LOC
  | RR_LP LP
  | RR_MB MB
  | RR_MD MD
  | RR_MF MF
  | RR_MG MG
  | RR_MINFO MINFO
  | RR_MR MR
  | RR_MX MX
  | RR_NAPTR NAPTR
  | RR_NID NID
  | RR_NIMLOC NIMLOC
  | RR_NINFO NINFO
  | RR_NS NS
  | RR_NSAPPTR NSAPPTR
  | RR_NSEC NSEC
  | RR_NSEC3 NSEC3
  | RR_NSEC3PARAM NSEC3PARAM
  | RR_NULL NULL
  | RR_NXNAME NXNAME
  | RR_NXT NXT
  | RR_OPENPGPKEY OPENPGPKEY
  | RR_OPT OPT
  | RR_PTR PTR
  | RR_PX PX
  | RR_RESINFO RESINFO
  | RR_RFC3597 RFC3597
  | RR_RKEY RKEY
  | RR_RP RP
  | RR_RRSIG RRSIG
  | RR_RT RT
  | RR_SIG SIG
  | RR_SMIMEA SMIMEA
  | RR_SOA SOA
  | RR_SPF SPF
  | RR_SRV SRV
  | RR_SSHFP SSHFP
  | RR_SVCB SVCB
  | RR_TA TA
  | RR_TALINK TALINK
  | RR_TKEY TKEY
  | RR_TLSA TLSA
  | RR_TSIG TSIG
  | RR_TXT TXT
  | RR_UID UID
  | RR_UINFO UINFO
  | RR_URI URI
  | RR_X25 X25
  | RR_ZONEMD ZONEMD

text \<open>\<^verbatim>\<open>rr.Header()\<close>.\<close>

primrec rr_Header :: "RR \<Rightarrow> RR_Header" where
  "rr_Header (RR_A rr) = A_Hdr rr"
| "rr_Header (RR_AAAA rr) = AAAA_Hdr rr"
| "rr_Header (RR_AFSDB rr) = AFSDB_Hdr rr"
| "rr_Header (RR_AMTRELAY rr) = AMTRELAY_Hdr rr"
| "rr_Header (RR_ANY rr) = ANY_Hdr rr"
| "rr_Header (RR_APL rr) = APL_Hdr rr"
| "rr_Header (RR_AVC rr) = AVC_Hdr rr"
| "rr_Header (RR_CAA rr) = CAA_Hdr rr"
| "rr_Header (RR_CDNSKEY rr) = DNSKEY_Hdr rr"
| "rr_Header (RR_CDS rr) = DS_Hdr rr"
| "rr_Header (RR_CERT rr) = CERT_Hdr rr"
| "rr_Header (RR_CNAME rr) = CNAME_Hdr rr"
| "rr_Header (RR_CSYNC rr) = CSYNC_Hdr rr"
| "rr_Header (RR_DHCID rr) = DHCID_Hdr rr"
| "rr_Header (RR_DLV rr) = DS_Hdr rr"
| "rr_Header (RR_DNAME rr) = DNAME_Hdr rr"
| "rr_Header (RR_DNSKEY rr) = DNSKEY_Hdr rr"
| "rr_Header (RR_DS rr) = DS_Hdr rr"
| "rr_Header (RR_EID rr) = EID_Hdr rr"
| "rr_Header (RR_EUI48 rr) = EUI48_Hdr rr"
| "rr_Header (RR_EUI64 rr) = EUI64_Hdr rr"
| "rr_Header (RR_GID rr) = GID_Hdr rr"
| "rr_Header (RR_GPOS rr) = GPOS_Hdr rr"
| "rr_Header (RR_HINFO rr) = HINFO_Hdr rr"
| "rr_Header (RR_HIP rr) = HIP_Hdr rr"
| "rr_Header (RR_HTTPS rr) = SVCB_Hdr rr"
| "rr_Header (RR_IPSECKEY rr) = IPSECKEY_Hdr rr"
| "rr_Header (RR_ISDN rr) = ISDN_Hdr rr"
| "rr_Header (RR_KEY rr) = DNSKEY_Hdr rr"
| "rr_Header (RR_KX rr) = KX_Hdr rr"
| "rr_Header (RR_L32 rr) = L32_Hdr rr"
| "rr_Header (RR_L64 rr) = L64_Hdr rr"
| "rr_Header (RR_LOC rr) = LOC_Hdr rr"
| "rr_Header (RR_LP rr) = LP_Hdr rr"
| "rr_Header (RR_MB rr) = MB_Hdr rr"
| "rr_Header (RR_MD rr) = MD_Hdr rr"
| "rr_Header (RR_MF rr) = MF_Hdr rr"
| "rr_Header (RR_MG rr) = MG_Hdr rr"
| "rr_Header (RR_MINFO rr) = MINFO_Hdr rr"
| "rr_Header (RR_MR rr) = MR_Hdr rr"
| "rr_Header (RR_MX rr) = MX_Hdr rr"
| "rr_Header (RR_NAPTR rr) = NAPTR_Hdr rr"
| "rr_Header (RR_NID rr) = NID_Hdr rr"
| "rr_Header (RR_NIMLOC rr) = NIMLOC_Hdr rr"
| "rr_Header (RR_NINFO rr) = NINFO_Hdr rr"
| "rr_Header (RR_NS rr) = NS_Hdr rr"
| "rr_Header (RR_NSAPPTR rr) = NSAPPTR_Hdr rr"
| "rr_Header (RR_NSEC rr) = NSEC_Hdr rr"
| "rr_Header (RR_NSEC3 rr) = NSEC3_Hdr rr"
| "rr_Header (RR_NSEC3PARAM rr) = NSEC3PARAM_Hdr rr"
| "rr_Header (RR_NULL rr) = NULL_Hdr rr"
| "rr_Header (RR_NXNAME rr) = NXNAME_Hdr rr"
| "rr_Header (RR_NXT rr) = NSEC_Hdr rr"
| "rr_Header (RR_OPENPGPKEY rr) = OPENPGPKEY_Hdr rr"
| "rr_Header (RR_OPT rr) = OPT_Hdr rr"
| "rr_Header (RR_PTR rr) = PTR_Hdr rr"
| "rr_Header (RR_PX rr) = PX_Hdr rr"
| "rr_Header (RR_RESINFO rr) = RESINFO_Hdr rr"
| "rr_Header (RR_RFC3597 rr) = RFC3597_Hdr rr"
| "rr_Header (RR_RKEY rr) = RKEY_Hdr rr"
| "rr_Header (RR_RP rr) = RP_Hdr rr"
| "rr_Header (RR_RRSIG rr) = RRSIG_Hdr rr"
| "rr_Header (RR_RT rr) = RT_Hdr rr"
| "rr_Header (RR_SIG rr) = RRSIG_Hdr rr"
| "rr_Header (RR_SMIMEA rr) = SMIMEA_Hdr rr"
| "rr_Header (RR_SOA rr) = SOA_Hdr rr"
| "rr_Header (RR_SPF rr) = SPF_Hdr rr"
| "rr_Header (RR_SRV rr) = SRV_Hdr rr"
| "rr_Header (RR_SSHFP rr) = SSHFP_Hdr rr"
| "rr_Header (RR_SVCB rr) = SVCB_Hdr rr"
| "rr_Header (RR_TA rr) = TA_Hdr rr"
| "rr_Header (RR_TALINK rr) = TALINK_Hdr rr"
| "rr_Header (RR_TKEY rr) = TKEY_Hdr rr"
| "rr_Header (RR_TLSA rr) = TLSA_Hdr rr"
| "rr_Header (RR_TSIG rr) = TSIG_Hdr rr"
| "rr_Header (RR_TXT rr) = TXT_Hdr rr"
| "rr_Header (RR_UID rr) = UID_Hdr rr"
| "rr_Header (RR_UINFO rr) = UINFO_Hdr rr"
| "rr_Header (RR_URI rr) = URI_Hdr rr"
| "rr_Header (RR_X25 rr) = X25_Hdr rr"
| "rr_Header (RR_ZONEMD rr) = ZONEMD_Hdr rr"

text \<open>Setting \<^verbatim>\<open>*rr.Header()\<close>.\<close>

primrec set_Header :: "RR_Header \<Rightarrow> RR \<Rightarrow> RR" where
  "set_Header h (RR_A rr) = RR_A (rr\<lparr>A_Hdr := h\<rparr>)"
| "set_Header h (RR_AAAA rr) = RR_AAAA (rr\<lparr>AAAA_Hdr := h\<rparr>)"
| "set_Header h (RR_AFSDB rr) = RR_AFSDB (rr\<lparr>AFSDB_Hdr := h\<rparr>)"
| "set_Header h (RR_AMTRELAY rr) = RR_AMTRELAY (rr\<lparr>AMTRELAY_Hdr := h\<rparr>)"
| "set_Header h (RR_ANY rr) = RR_ANY (rr\<lparr>ANY_Hdr := h\<rparr>)"
| "set_Header h (RR_APL rr) = RR_APL (rr\<lparr>APL_Hdr := h\<rparr>)"
| "set_Header h (RR_AVC rr) = RR_AVC (rr\<lparr>AVC_Hdr := h\<rparr>)"
| "set_Header h (RR_CAA rr) = RR_CAA (rr\<lparr>CAA_Hdr := h\<rparr>)"
| "set_Header h (RR_CDNSKEY rr) = RR_CDNSKEY (rr\<lparr>DNSKEY_Hdr := h\<rparr>)"
| "set_Header h (RR_CDS rr) = RR_CDS (rr\<lparr>DS_Hdr := h\<rparr>)"
| "set_Header h (RR_CERT rr) = RR_CERT (rr\<lparr>CERT_Hdr := h\<rparr>)"
| "set_Header h (RR_CNAME rr) = RR_CNAME (rr\<lparr>CNAME_Hdr := h\<rparr>)"
| "set_Header h (RR_CSYNC rr) = RR_CSYNC (rr\<lparr>CSYNC_Hdr := h\<rparr>)"
| "set_Header h (RR_DHCID rr) = RR_DHCID (rr\<lparr>DHCID_Hdr := h\<rparr>)"
| "set_Header h (RR_DLV rr) = RR_DLV (rr\<lparr>DS_Hdr := h\<rparr>)"
| "set_Header h (RR_DNAME rr) = RR_DNAME (rr\<lparr>DNAME_Hdr := h\<rparr>)"
| "set_Header h (RR_DNSKEY rr) = RR_DNSKEY (rr\<lparr>DNSKEY_Hdr := h\<rparr>)"
| "set_Header h (RR_DS rr) = RR_DS (rr\<lparr>DS_Hdr := h\<rparr>)"
| "set_Header h (RR_EID rr) = RR_EID (rr\<lparr>EID_Hdr := h\<rparr>)"
| "set_Header h (RR_EUI48 rr) = RR_EUI48 (rr\<lparr>EUI48_Hdr := h\<rparr>)"
| "set_Header h (RR_EUI64 rr) = RR_EUI64 (rr\<lparr>EUI64_Hdr := h\<rparr>)"
| "set_Header h (RR_GID rr) = RR_GID (rr\<lparr>GID_Hdr := h\<rparr>)"
| "set_Header h (RR_GPOS rr) = RR_GPOS (rr\<lparr>GPOS_Hdr := h\<rparr>)"
| "set_Header h (RR_HINFO rr) = RR_HINFO (rr\<lparr>HINFO_Hdr := h\<rparr>)"
| "set_Header h (RR_HIP rr) = RR_HIP (rr\<lparr>HIP_Hdr := h\<rparr>)"
| "set_Header h (RR_HTTPS rr) = RR_HTTPS (rr\<lparr>SVCB_Hdr := h\<rparr>)"
| "set_Header h (RR_IPSECKEY rr) = RR_IPSECKEY (rr\<lparr>IPSECKEY_Hdr := h\<rparr>)"
| "set_Header h (RR_ISDN rr) = RR_ISDN (rr\<lparr>ISDN_Hdr := h\<rparr>)"
| "set_Header h (RR_KEY rr) = RR_KEY (rr\<lparr>DNSKEY_Hdr := h\<rparr>)"
| "set_Header h (RR_KX rr) = RR_KX (rr\<lparr>KX_Hdr := h\<rparr>)"
| "set_Header h (RR_L32 rr) = RR_L32 (rr\<lparr>L32_Hdr := h\<rparr>)"
| "set_Header h (RR_L64 rr) = RR_L64 (rr\<lparr>L64_Hdr := h\<rparr>)"
| "set_Header h (RR_LOC rr) = RR_LOC (rr\<lparr>LOC_Hdr := h\<rparr>)"
| "set_Header h (RR_LP rr) = RR_LP (rr\<lparr>LP_Hdr := h\<rparr>)"
| "set_Header h (RR_MB rr) = RR_MB (rr\<lparr>MB_Hdr := h\<rparr>)"
| "set_Header h (RR_MD rr) = RR_MD (rr\<lparr>MD_Hdr := h\<rparr>)"
| "set_Header h (RR_MF rr) = RR_MF (rr\<lparr>MF_Hdr := h\<rparr>)"
| "set_Header h (RR_MG rr) = RR_MG (rr\<lparr>MG_Hdr := h\<rparr>)"
| "set_Header h (RR_MINFO rr) = RR_MINFO (rr\<lparr>MINFO_Hdr := h\<rparr>)"
| "set_Header h (RR_MR rr) = RR_MR (rr\<lparr>MR_Hdr := h\<rparr>)"
| "set_Header h (RR_MX rr) = RR_MX (rr\<lparr>MX_Hdr := h\<rparr>)"
| "set_Header h (RR_NAPTR rr) = RR_NAPTR (rr\<lparr>NAPTR_Hdr := h\<rparr>)"
| "set_Header h (RR_NID rr) = RR_NID (rr\<lparr>NID_Hdr := h\<rparr>)"
| "set_Header h (RR_NIMLOC rr) = RR_NIMLOC (rr\<lparr>NIMLOC_Hdr := h\<rparr>)"
| "set_Header h (RR_NINFO rr) = RR_NINFO (rr\<lparr>NINFO_Hdr := h\<rparr>)"
| "set_Header h (RR_NS rr) = RR_NS (rr\<lparr>NS_Hdr := h\<rparr>)"
| "set_Header h (RR_NSAPPTR rr) = RR_NSAPPTR (rr\<lparr>NSAPPTR_Hdr := h\<rparr>)"
| "set_Header h (RR_NSEC rr) = RR_NSEC (rr\<lparr>NSEC_Hdr := h\<rparr>)"
| "set_Header h (RR_NSEC3 rr) = RR_NSEC3 (rr\<lparr>NSEC3_Hdr := h\<rparr>)"
| "set_Header h (RR_NSEC3PARAM rr) = RR_NSEC3PARAM (rr\<lparr>NSEC3PARAM_Hdr := h\<rparr>)"
| "set_Header h (RR_NULL rr) = RR_NULL (rr\<lparr>NULL_Hdr := h\<rparr>)"
| "set_Header h (RR_NXNAME rr) = RR_NXNAME (rr\<lparr>NXNAME_Hdr := h\<rparr>)"
| "set_Header h (RR_NXT rr) = RR_NXT (rr\<lparr>NSEC_Hdr := h\<rparr>)"
| "set_Header h (RR_OPENPGPKEY rr) = RR_OPENPGPKEY (rr\<lparr>OPENPGPKEY_Hdr := h\<rparr>)"
| "set_Header h (RR_OPT rr) = RR_OPT (rr\<lparr>OPT_Hdr := h\<rparr>)"
| "set_Header h (RR_PTR rr) = RR_PTR (rr\<lparr>PTR_Hdr := h\<rparr>)"
| "set_Header h (RR_PX rr) = RR_PX (rr\<lparr>PX_Hdr := h\<rparr>)"
| "set_Header h (RR_RESINFO rr) = RR_RESINFO (rr\<lparr>RESINFO_Hdr := h\<rparr>)"
| "set_Header h (RR_RFC3597 rr) = RR_RFC3597 (rr\<lparr>RFC3597_Hdr := h\<rparr>)"
| "set_Header h (RR_RKEY rr) = RR_RKEY (rr\<lparr>RKEY_Hdr := h\<rparr>)"
| "set_Header h (RR_RP rr) = RR_RP (rr\<lparr>RP_Hdr := h\<rparr>)"
| "set_Header h (RR_RRSIG rr) = RR_RRSIG (rr\<lparr>RRSIG_Hdr := h\<rparr>)"
| "set_Header h (RR_RT rr) = RR_RT (rr\<lparr>RT_Hdr := h\<rparr>)"
| "set_Header h (RR_SIG rr) = RR_SIG (rr\<lparr>RRSIG_Hdr := h\<rparr>)"
| "set_Header h (RR_SMIMEA rr) = RR_SMIMEA (rr\<lparr>SMIMEA_Hdr := h\<rparr>)"
| "set_Header h (RR_SOA rr) = RR_SOA (rr\<lparr>SOA_Hdr := h\<rparr>)"
| "set_Header h (RR_SPF rr) = RR_SPF (rr\<lparr>SPF_Hdr := h\<rparr>)"
| "set_Header h (RR_SRV rr) = RR_SRV (rr\<lparr>SRV_Hdr := h\<rparr>)"
| "set_Header h (RR_SSHFP rr) = RR_SSHFP (rr\<lparr>SSHFP_Hdr := h\<rparr>)"
| "set_Header h (RR_SVCB rr) = RR_SVCB (rr\<lparr>SVCB_Hdr := h\<rparr>)"
| "set_Header h (RR_TA rr) = RR_TA (rr\<lparr>TA_Hdr := h\<rparr>)"
| "set_Header h (RR_TALINK rr) = RR_TALINK (rr\<lparr>TALINK_Hdr := h\<rparr>)"
| "set_Header h (RR_TKEY rr) = RR_TKEY (rr\<lparr>TKEY_Hdr := h\<rparr>)"
| "set_Header h (RR_TLSA rr) = RR_TLSA (rr\<lparr>TLSA_Hdr := h\<rparr>)"
| "set_Header h (RR_TSIG rr) = RR_TSIG (rr\<lparr>TSIG_Hdr := h\<rparr>)"
| "set_Header h (RR_TXT rr) = RR_TXT (rr\<lparr>TXT_Hdr := h\<rparr>)"
| "set_Header h (RR_UID rr) = RR_UID (rr\<lparr>UID_Hdr := h\<rparr>)"
| "set_Header h (RR_UINFO rr) = RR_UINFO (rr\<lparr>UINFO_Hdr := h\<rparr>)"
| "set_Header h (RR_URI rr) = RR_URI (rr\<lparr>URI_Hdr := h\<rparr>)"
| "set_Header h (RR_X25 rr) = RR_X25 (rr\<lparr>X25_Hdr := h\<rparr>)"
| "set_Header h (RR_ZONEMD rr) = RR_ZONEMD (rr\<lparr>ZONEMD_Hdr := h\<rparr>)"

text \<open>The zero value of each struct, with a header.\<close>

definition A_new :: "RR_Header \<Rightarrow> A" where
  "A_new h = \<lparr>A_Hdr = h, A_A = []\<rparr>"

definition AAAA_new :: "RR_Header \<Rightarrow> AAAA" where
  "AAAA_new h = \<lparr>AAAA_Hdr = h, AAAA_AAAA = []\<rparr>"

definition AFSDB_new :: "RR_Header \<Rightarrow> AFSDB" where
  "AFSDB_new h = \<lparr>AFSDB_Hdr = h, AFSDB_Subtype = 0, AFSDB_Hostname = []\<rparr>"

definition AMTRELAY_new :: "RR_Header \<Rightarrow> AMTRELAY" where
  "AMTRELAY_new h = \<lparr>AMTRELAY_Hdr = h, AMTRELAY_Precedence = 0, AMTRELAY_GatewayType = 0, AMTRELAY_GatewayAddr = [], AMTRELAY_GatewayHost = []\<rparr>"

definition ANY_new :: "RR_Header \<Rightarrow> ANY" where
  "ANY_new h = \<lparr>ANY_Hdr = h\<rparr>"

definition APL_new :: "RR_Header \<Rightarrow> APL" where
  "APL_new h = \<lparr>APL_Hdr = h, APL_Prefixes = []\<rparr>"

definition AVC_new :: "RR_Header \<Rightarrow> AVC" where
  "AVC_new h = \<lparr>AVC_Hdr = h, AVC_Txt = []\<rparr>"

definition CAA_new :: "RR_Header \<Rightarrow> CAA" where
  "CAA_new h = \<lparr>CAA_Hdr = h, CAA_Flag = 0, CAA_Tag = [], CAA_Value = []\<rparr>"

definition CERT_new :: "RR_Header \<Rightarrow> CERT" where
  "CERT_new h = \<lparr>CERT_Hdr = h, CERT_Type = 0, CERT_KeyTag = 0, CERT_Algorithm = 0, CERT_Certificate = []\<rparr>"

definition CNAME_new :: "RR_Header \<Rightarrow> CNAME" where
  "CNAME_new h = \<lparr>CNAME_Hdr = h, CNAME_Target = []\<rparr>"

definition CSYNC_new :: "RR_Header \<Rightarrow> CSYNC" where
  "CSYNC_new h = \<lparr>CSYNC_Hdr = h, CSYNC_Serial = 0, CSYNC_Flags = 0, CSYNC_TypeBitMap = []\<rparr>"

definition DHCID_new :: "RR_Header \<Rightarrow> DHCID" where
  "DHCID_new h = \<lparr>DHCID_Hdr = h, DHCID_Digest = []\<rparr>"

definition DNAME_new :: "RR_Header \<Rightarrow> DNAME" where
  "DNAME_new h = \<lparr>DNAME_Hdr = h, DNAME_Target = []\<rparr>"

definition DNSKEY_new :: "RR_Header \<Rightarrow> DNSKEY" where
  "DNSKEY_new h = \<lparr>DNSKEY_Hdr = h, DNSKEY_Flags = 0, DNSKEY_Protocol = 0, DNSKEY_Algorithm = 0, DNSKEY_PublicKey = []\<rparr>"

definition DS_new :: "RR_Header \<Rightarrow> DS" where
  "DS_new h = \<lparr>DS_Hdr = h, DS_KeyTag = 0, DS_Algorithm = 0, DS_DigestType = 0, DS_Digest = []\<rparr>"

definition EID_new :: "RR_Header \<Rightarrow> EID" where
  "EID_new h = \<lparr>EID_Hdr = h, EID_Endpoint = []\<rparr>"

definition EUI48_new :: "RR_Header \<Rightarrow> EUI48" where
  "EUI48_new h = \<lparr>EUI48_Hdr = h, EUI48_Address = 0\<rparr>"

definition EUI64_new :: "RR_Header \<Rightarrow> EUI64" where
  "EUI64_new h = \<lparr>EUI64_Hdr = h, EUI64_Address = 0\<rparr>"

definition GID_new :: "RR_Header \<Rightarrow> GID" where
  "GID_new h = \<lparr>GID_Hdr = h, GID_Gid = 0\<rparr>"

definition GPOS_new :: "RR_Header \<Rightarrow> GPOS" where
  "GPOS_new h = \<lparr>GPOS_Hdr = h, GPOS_Longitude = [], GPOS_Latitude = [], GPOS_Altitude = []\<rparr>"

definition HINFO_new :: "RR_Header \<Rightarrow> HINFO" where
  "HINFO_new h = \<lparr>HINFO_Hdr = h, HINFO_Cpu = [], HINFO_Os = []\<rparr>"

definition HIP_new :: "RR_Header \<Rightarrow> HIP" where
  "HIP_new h = \<lparr>HIP_Hdr = h, HIP_HitLength = 0, HIP_PublicKeyAlgorithm = 0, HIP_PublicKeyLength = 0, HIP_Hit = [], HIP_PublicKey = [], HIP_RendezvousServers = []\<rparr>"

definition IPSECKEY_new :: "RR_Header \<Rightarrow> IPSECKEY" where
  "IPSECKEY_new h = \<lparr>IPSECKEY_Hdr = h, IPSECKEY_Precedence = 0, IPSECKEY_GatewayType = 0, IPSECKEY_Algorithm = 0, IPSECKEY_GatewayAddr = [], IPSECKEY_GatewayHost = [], IPSECKEY_PublicKey = []\<rparr>"

definition ISDN_new :: "RR_Header \<Rightarrow> ISDN" where
  "ISDN_new h = \<lparr>ISDN_Hdr = h, ISDN_Address = [], ISDN_SubAddress = []\<rparr>"

definition KX_new :: "RR_Header \<Rightarrow> KX" where
  "KX_new h = \<lparr>KX_Hdr = h, KX_Preference = 0, KX_Exchanger = []\<rparr>"

definition L32_new :: "RR_Header \<Rightarrow> L32" where
  "L32_new h = \<lparr>L32_Hdr = h, L32_Preference = 0, L32_Locator32 = []\<rparr>"

definition L64_new :: "RR_Header \<Rightarrow> L64" where
  "L64_new h = \<lparr>L64_Hdr = h, L64_Preference = 0, L64_Locator64 = 0\<rparr>"

definition LOC_new :: "RR_Header \<Rightarrow> LOC" where
  "LOC_new h = \<lparr>LOC_Hdr = h, LOC_Version = 0, LOC_Size = 0, LOC_HorizPre = 0, LOC_VertPre = 0, LOC_Latitude = 0, LOC_Longitude = 0, LOC_Altitude = 0\<rparr>"

definition LP_new :: "RR_Header \<Rightarrow> LP" where
  "LP_new h = \<lparr>LP_Hdr = h, LP_Preference = 0, LP_Fqdn = []\<rparr>"

definition MB_new :: "RR_Header \<Rightarrow> MB" where
  "MB_new h = \<lparr>MB_Hdr = h, MB_Mb = []\<rparr>"

definition MD_new :: "RR_Header \<Rightarrow> MD" where
  "MD_new h = \<lparr>MD_Hdr = h, MD_Md = []\<rparr>"

definition MF_new :: "RR_Header \<Rightarrow> MF" where
  "MF_new h = \<lparr>MF_Hdr = h, MF_Mf = []\<rparr>"

definition MG_new :: "RR_Header \<Rightarrow> MG" where
  "MG_new h = \<lparr>MG_Hdr = h, MG_Mg = []\<rparr>"

definition MINFO_new :: "RR_Header \<Rightarrow> MINFO" where
  "MINFO_new h = \<lparr>MINFO_Hdr = h, MINFO_Rmail = [], MINFO_Email = []\<rparr>"

definition MR_new :: "RR_Header \<Rightarrow> MR" where
  "MR_new h = \<lparr>MR_Hdr = h, MR_Mr = []\<rparr>"

definition MX_new :: "RR_Header \<Rightarrow> MX" where
  "MX_new h = \<lparr>MX_Hdr = h, MX_Preference = 0, MX_Mx = []\<rparr>"

definition NAPTR_new :: "RR_Header \<Rightarrow> NAPTR" where
  "NAPTR_new h = \<lparr>NAPTR_Hdr = h, NAPTR_Order = 0, NAPTR_Preference = 0, NAPTR_Flags = [], NAPTR_Service = [], NAPTR_Regexp = [], NAPTR_Replacement = []\<rparr>"

definition NID_new :: "RR_Header \<Rightarrow> NID" where
  "NID_new h = \<lparr>NID_Hdr = h, NID_Preference = 0, NID_NodeID = 0\<rparr>"

definition NIMLOC_new :: "RR_Header \<Rightarrow> NIMLOC" where
  "NIMLOC_new h = \<lparr>NIMLOC_Hdr = h, NIMLOC_Locator = []\<rparr>"

definition NINFO_new :: "RR_Header \<Rightarrow> NINFO" where
  "NINFO_new h = \<lparr>NINFO_Hdr = h, NINFO_ZSData = []\<rparr>"

definition NS_new :: "RR_Header \<Rightarrow> NS" where
  "NS_new h = \<lparr>NS_Hdr = h, NS_Ns = []\<rparr>"

definition NSAPPTR_new :: "RR_Header \<Rightarrow> NSAPPTR" where
  "NSAPPTR_new h = \<lparr>NSAPPTR_Hdr = h, NSAPPTR_Ptr = []\<rparr>"

definition NSEC_new :: "RR_Header \<Rightarrow> NSEC" where
  "NSEC_new h = \<lparr>NSEC_Hdr = h, NSEC_NextDomain = [], NSEC_TypeBitMap = []\<rparr>"

definition NSEC3_new :: "RR_Header \<Rightarrow> NSEC3" where
  "NSEC3_new h = \<lparr>NSEC3_Hdr = h, NSEC3_Hash = 0, NSEC3_Flags = 0, NSEC3_Iterations = 0, NSEC3_SaltLength = 0, NSEC3_Salt = [], NSEC3_HashLength = 0, NSEC3_NextDomain = [], NSEC3_TypeBitMap = []\<rparr>"

definition NSEC3PARAM_new :: "RR_Header \<Rightarrow> NSEC3PARAM" where
  "NSEC3PARAM_new h = \<lparr>NSEC3PARAM_Hdr = h, NSEC3PARAM_Hash = 0, NSEC3PARAM_Flags = 0, NSEC3PARAM_Iterations = 0, NSEC3PARAM_SaltLength = 0, NSEC3PARAM_Salt = []\<rparr>"

definition NULL_new :: "RR_Header \<Rightarrow> NULL" where
  "NULL_new h = \<lparr>NULL_Hdr = h, NULL_Data = []\<rparr>"

definition NXNAME_new :: "RR_Header \<Rightarrow> NXNAME" where
  "NXNAME_new h = \<lparr>NXNAME_Hdr = h\<rparr>"

definition OPENPGPKEY_new :: "RR_Header \<Rightarrow> OPENPGPKEY" where
  "OPENPGPKEY_new h = \<lparr>OPENPGPKEY_Hdr = h, OPENPGPKEY_PublicKey = []\<rparr>"

definition OPT_new :: "RR_Header \<Rightarrow> OPT" where
  "OPT_new h = \<lparr>OPT_Hdr = h, OPT_Option = []\<rparr>"

definition PTR_new :: "RR_Header \<Rightarrow> PTR" where
  "PTR_new h = \<lparr>PTR_Hdr = h, PTR_Ptr = []\<rparr>"

definition PX_new :: "RR_Header \<Rightarrow> PX" where
  "PX_new h = \<lparr>PX_Hdr = h, PX_Preference = 0, PX_Map822 = [], PX_Mapx400 = []\<rparr>"

definition RESINFO_new :: "RR_Header \<Rightarrow> RESINFO" where
  "RESINFO_new h = \<lparr>RESINFO_Hdr = h, RESINFO_Txt = []\<rparr>"

definition RFC3597_new :: "RR_Header \<Rightarrow> RFC3597" where
  "RFC3597_new h = \<lparr>RFC3597_Hdr = h, RFC3597_Rdata = []\<rparr>"

definition RKEY_new :: "RR_Header \<Rightarrow> RKEY" where
  "RKEY_new h = \<lparr>RKEY_Hdr = h, RKEY_Flags = 0, RKEY_Protocol = 0, RKEY_Algorithm = 0, RKEY_PublicKey = []\<rparr>"

definition RP_new :: "RR_Header \<Rightarrow> RP" where
  "RP_new h = \<lparr>RP_Hdr = h, RP_Mbox = [], RP_Txt = []\<rparr>"

definition RRSIG_new :: "RR_Header \<Rightarrow> RRSIG" where
  "RRSIG_new h = \<lparr>RRSIG_Hdr = h, RRSIG_TypeCovered = 0, RRSIG_Algorithm = 0, RRSIG_Labels = 0, RRSIG_OrigTtl = 0, RRSIG_Expiration = 0, RRSIG_Inception = 0, RRSIG_KeyTag = 0, RRSIG_SignerName = [], RRSIG_Signature = []\<rparr>"

definition RT_new :: "RR_Header \<Rightarrow> RT" where
  "RT_new h = \<lparr>RT_Hdr = h, RT_Preference = 0, RT_Host = []\<rparr>"

definition SMIMEA_new :: "RR_Header \<Rightarrow> SMIMEA" where
  "SMIMEA_new h = \<lparr>SMIMEA_Hdr = h, SMIMEA_Usage = 0, SMIMEA_Selector = 0, SMIMEA_MatchingType = 0, SMIMEA_Certificate = []\<rparr>"

definition SOA_new :: "RR_Header \<Rightarrow> SOA" where
  "SOA_new h = \<lparr>SOA_Hdr = h, SOA_Ns = [], SOA_Mbox = [], SOA_Serial = 0, SOA_Refresh = 0, SOA_Retry = 0, SOA_Expire = 0, SOA_Minttl = 0\<rparr>"

definition SPF_new :: "RR_Header \<Rightarrow> SPF" where
  "SPF_new h = \<lparr>SPF_Hdr = h, SPF_Txt = []\<rparr>"

definition SRV_new :: "RR_Header \<Rightarrow> SRV" where
  "SRV_new h = \<lparr>SRV_Hdr = h, SRV_Priority = 0, SRV_Weight = 0, SRV_Port = 0, SRV_Target = []\<rparr>"

definition SSHFP_new :: "RR_Header \<Rightarrow> SSHFP" where
  "SSHFP_new h = \<lparr>SSHFP_Hdr = h, SSHFP_Algorithm = 0, SSHFP_Type = 0, SSHFP_FingerPrint = []\<rparr>"

definition SVCB_new :: "RR_Header \<Rightarrow> SVCB" where
  "SVCB_new h = \<lparr>SVCB_Hdr = h, SVCB_Priority = 0, SVCB_Target = [], SVCB_Value = []\<rparr>"

definition TA_new :: "RR_Header \<Rightarrow> TA" where
  "TA_new h = \<lparr>TA_Hdr = h, TA_KeyTag = 0, TA_Algorithm = 0, TA_DigestType = 0, TA_Digest = []\<rparr>"

definition TALINK_new :: "RR_Header \<Rightarrow> TALINK" where
  "TALINK_new h = \<lparr>TALINK_Hdr = h, TALINK_PreviousName = [], TALINK_NextName = []\<rparr>"

definition TKEY_new :: "RR_Header \<Rightarrow> TKEY" where
  "TKEY_new h = \<lparr>TKEY_Hdr = h, TKEY_Algorithm = [], TKEY_Inception = 0, TKEY_Expiration = 0, TKEY_Mode = 0, TKEY_Error = 0, TKEY_KeySize = 0, TKEY_Key = [], TKEY_OtherLen = 0, TKEY_OtherData = []\<rparr>"

definition TLSA_new :: "RR_Header \<Rightarrow> TLSA" where
  "TLSA_new h = \<lparr>TLSA_Hdr = h, TLSA_Usage = 0, TLSA_Selector = 0, TLSA_MatchingType = 0, TLSA_Certificate = []\<rparr>"

definition TSIG_new :: "RR_Header \<Rightarrow> TSIG" where
  "TSIG_new h = \<lparr>TSIG_Hdr = h, TSIG_Algorithm = [], TSIG_TimeSigned = 0, TSIG_Fudge = 0, TSIG_MACSize = 0, TSIG_MAC = [], TSIG_OrigId = 0, TSIG_Error = 0, TSIG_OtherLen = 0, TSIG_OtherData = []\<rparr>"

definition TXT_new :: "RR_Header \<Rightarrow> TXT" where
  "TXT_new h = \<lparr>TXT_Hdr = h, TXT_Txt = []\<rparr>"

definition UID_new :: "RR_Header \<Rightarrow> UID" where
  "UID_new h = \<lparr>UID_Hdr = h, UID_Uid = 0\<rparr>"

definition UINFO_new :: "RR_Header \<Rightarrow> UINFO" where
  "UINFO_new h = \<lparr>UINFO_Hdr = h, UINFO_Uinfo = []\<rparr>"

definition URI_new :: "RR_Header \<Rightarrow> URI" where
  "URI_new h = \<lparr>URI_Hdr = h, URI_Priority = 0, URI_Weight = 0, URI_Target = []\<rparr>"

definition X25_new :: "RR_Header \<Rightarrow> X25" where
  "X25_new h = \<lparr>X25_Hdr = h, X25_PSDNAddress = []\<rparr>"

definition ZONEMD_new :: "RR_Header \<Rightarrow> ZONEMD" where
  "ZONEMD_new h = \<lparr>ZONEMD_Hdr = h, ZONEMD_Serial = 0, ZONEMD_Scheme = 0, ZONEMD_Hash = 0, ZONEMD_Digest = []\<rparr>"

subsection \<open>The table of types\<close>

abbreviation TypeA :: u16 where "TypeA \<equiv> 1"
abbreviation TypeAAAA :: u16 where "TypeAAAA \<equiv> 28"
abbreviation TypeAFSDB :: u16 where "TypeAFSDB \<equiv> 18"
abbreviation TypeAMTRELAY :: u16 where "TypeAMTRELAY \<equiv> 260"
abbreviation TypeANY :: u16 where "TypeANY \<equiv> 255"
abbreviation TypeAPL :: u16 where "TypeAPL \<equiv> 42"
abbreviation TypeAVC :: u16 where "TypeAVC \<equiv> 258"
abbreviation TypeCAA :: u16 where "TypeCAA \<equiv> 257"
abbreviation TypeCDNSKEY :: u16 where "TypeCDNSKEY \<equiv> 60"
abbreviation TypeCDS :: u16 where "TypeCDS \<equiv> 59"
abbreviation TypeCERT :: u16 where "TypeCERT \<equiv> 37"
abbreviation TypeCNAME :: u16 where "TypeCNAME \<equiv> 5"
abbreviation TypeCSYNC :: u16 where "TypeCSYNC \<equiv> 62"
abbreviation TypeDHCID :: u16 where "TypeDHCID \<equiv> 49"
abbreviation TypeDLV :: u16 where "TypeDLV \<equiv> 32769"
abbreviation TypeDNAME :: u16 where "TypeDNAME \<equiv> 39"
abbreviation TypeDNSKEY :: u16 where "TypeDNSKEY \<equiv> 48"
abbreviation TypeDS :: u16 where "TypeDS \<equiv> 43"
abbreviation TypeEID :: u16 where "TypeEID \<equiv> 31"
abbreviation TypeEUI48 :: u16 where "TypeEUI48 \<equiv> 108"
abbreviation TypeEUI64 :: u16 where "TypeEUI64 \<equiv> 109"
abbreviation TypeGID :: u16 where "TypeGID \<equiv> 102"
abbreviation TypeGPOS :: u16 where "TypeGPOS \<equiv> 27"
abbreviation TypeHINFO :: u16 where "TypeHINFO \<equiv> 13"
abbreviation TypeHIP :: u16 where "TypeHIP \<equiv> 55"
abbreviation TypeHTTPS :: u16 where "TypeHTTPS \<equiv> 65"
abbreviation TypeIPSECKEY :: u16 where "TypeIPSECKEY \<equiv> 45"
abbreviation TypeISDN :: u16 where "TypeISDN \<equiv> 20"
abbreviation TypeKEY :: u16 where "TypeKEY \<equiv> 25"
abbreviation TypeKX :: u16 where "TypeKX \<equiv> 36"
abbreviation TypeL32 :: u16 where "TypeL32 \<equiv> 105"
abbreviation TypeL64 :: u16 where "TypeL64 \<equiv> 106"
abbreviation TypeLOC :: u16 where "TypeLOC \<equiv> 29"
abbreviation TypeLP :: u16 where "TypeLP \<equiv> 107"
abbreviation TypeMB :: u16 where "TypeMB \<equiv> 7"
abbreviation TypeMD :: u16 where "TypeMD \<equiv> 3"
abbreviation TypeMF :: u16 where "TypeMF \<equiv> 4"
abbreviation TypeMG :: u16 where "TypeMG \<equiv> 8"
abbreviation TypeMINFO :: u16 where "TypeMINFO \<equiv> 14"
abbreviation TypeMR :: u16 where "TypeMR \<equiv> 9"
abbreviation TypeMX :: u16 where "TypeMX \<equiv> 15"
abbreviation TypeNAPTR :: u16 where "TypeNAPTR \<equiv> 35"
abbreviation TypeNID :: u16 where "TypeNID \<equiv> 104"
abbreviation TypeNIMLOC :: u16 where "TypeNIMLOC \<equiv> 32"
abbreviation TypeNINFO :: u16 where "TypeNINFO \<equiv> 56"
abbreviation TypeNS :: u16 where "TypeNS \<equiv> 2"
abbreviation TypeNSAPPTR :: u16 where "TypeNSAPPTR \<equiv> 23"
abbreviation TypeNSEC :: u16 where "TypeNSEC \<equiv> 47"
abbreviation TypeNSEC3 :: u16 where "TypeNSEC3 \<equiv> 50"
abbreviation TypeNSEC3PARAM :: u16 where "TypeNSEC3PARAM \<equiv> 51"
abbreviation TypeNULL :: u16 where "TypeNULL \<equiv> 10"
abbreviation TypeNXNAME :: u16 where "TypeNXNAME \<equiv> 128"
abbreviation TypeNXT :: u16 where "TypeNXT \<equiv> 30"
abbreviation TypeOPENPGPKEY :: u16 where "TypeOPENPGPKEY \<equiv> 61"
abbreviation TypeOPT :: u16 where "TypeOPT \<equiv> 41"
abbreviation TypePTR :: u16 where "TypePTR \<equiv> 12"
abbreviation TypePX :: u16 where "TypePX \<equiv> 26"
abbreviation TypeRESINFO :: u16 where "TypeRESINFO \<equiv> 261"
abbreviation TypeRKEY :: u16 where "TypeRKEY \<equiv> 57"
abbreviation TypeRP :: u16 where "TypeRP \<equiv> 17"
abbreviation TypeRRSIG :: u16 where "TypeRRSIG \<equiv> 46"
abbreviation TypeRT :: u16 where "TypeRT \<equiv> 21"
abbreviation TypeSIG :: u16 where "TypeSIG \<equiv> 24"
abbreviation TypeSMIMEA :: u16 where "TypeSMIMEA \<equiv> 53"
abbreviation TypeSOA :: u16 where "TypeSOA \<equiv> 6"
abbreviation TypeSPF :: u16 where "TypeSPF \<equiv> 99"
abbreviation TypeSRV :: u16 where "TypeSRV \<equiv> 33"
abbreviation TypeSSHFP :: u16 where "TypeSSHFP \<equiv> 44"
abbreviation TypeSVCB :: u16 where "TypeSVCB \<equiv> 64"
abbreviation TypeTA :: u16 where "TypeTA \<equiv> 32768"
abbreviation TypeTALINK :: u16 where "TypeTALINK \<equiv> 58"
abbreviation TypeTKEY :: u16 where "TypeTKEY \<equiv> 249"
abbreviation TypeTLSA :: u16 where "TypeTLSA \<equiv> 52"
abbreviation TypeTSIG :: u16 where "TypeTSIG \<equiv> 250"
abbreviation TypeTXT :: u16 where "TypeTXT \<equiv> 16"
abbreviation TypeUID :: u16 where "TypeUID \<equiv> 101"
abbreviation TypeUINFO :: u16 where "TypeUINFO \<equiv> 100"
abbreviation TypeURI :: u16 where "TypeURI \<equiv> 256"
abbreviation TypeX25 :: u16 where "TypeX25 \<equiv> 19"
abbreviation TypeZONEMD :: u16 where "TypeZONEMD \<equiv> 63"

definition TypeToRR :: "u16 \<Rightarrow> (RR_Header \<Rightarrow> RR) option" where
  "TypeToRR rrtype =
     (if rrtype = TypeA then Some (\<lambda>h. RR_A (A_new h))
      else if rrtype = TypeAAAA then Some (\<lambda>h. RR_AAAA (AAAA_new h))
      else if rrtype = TypeAFSDB then Some (\<lambda>h. RR_AFSDB (AFSDB_new h))
      else if rrtype = TypeAMTRELAY then Some (\<lambda>h. RR_AMTRELAY (AMTRELAY_new h))
      else if rrtype = TypeANY then Some (\<lambda>h. RR_ANY (ANY_new h))
      else if rrtype = TypeAPL then Some (\<lambda>h. RR_APL (APL_new h))
      else if rrtype = TypeAVC then Some (\<lambda>h. RR_AVC (AVC_new h))
      else if rrtype = TypeCAA then Some (\<lambda>h. RR_CAA (CAA_new h))
      else if rrtype = TypeCDNSKEY then Some (\<lambda>h. RR_CDNSKEY (DNSKEY_new h))
      else if rrtype = TypeCDS then Some (\<lambda>h. RR_CDS (DS_new h))
      else if rrtype = TypeCERT then Some (\<lambda>h. RR_CERT (CERT_new h))
      else if rrtype = TypeCNAME then Some (\<lambda>h. RR_CNAME (CNAME_new h))
      else if rrtype = TypeCSYNC then Some (\<lambda>h. RR_CSYNC (CSYNC_new h))
      else if rrtype = TypeDHCID then Some (\<lambda>h. RR_DHCID (DHCID_new h))
      else if rrtype = TypeDLV then Some (\<lambda>h. RR_DLV (DS_new h))
      else if rrtype = TypeDNAME then Some (\<lambda>h. RR_DNAME (DNAME_new h))
      else if rrtype = TypeDNSKEY then Some (\<lambda>h. RR_DNSKEY (DNSKEY_new h))
      else if rrtype = TypeDS then Some (\<lambda>h. RR_DS (DS_new h))
      else if rrtype = TypeEID then Some (\<lambda>h. RR_EID (EID_new h))
      else if rrtype = TypeEUI48 then Some (\<lambda>h. RR_EUI48 (EUI48_new h))
      else if rrtype = TypeEUI64 then Some (\<lambda>h. RR_EUI64 (EUI64_new h))
      else if rrtype = TypeGID then Some (\<lambda>h. RR_GID (GID_new h))
      else if rrtype = TypeGPOS then Some (\<lambda>h. RR_GPOS (GPOS_new h))
      else if rrtype = TypeHINFO then Some (\<lambda>h. RR_HINFO (HINFO_new h))
      else if rrtype = TypeHIP then Some (\<lambda>h. RR_HIP (HIP_new h))
      else if rrtype = TypeHTTPS then Some (\<lambda>h. RR_HTTPS (SVCB_new h))
      else if rrtype = TypeIPSECKEY then Some (\<lambda>h. RR_IPSECKEY (IPSECKEY_new h))
      else if rrtype = TypeISDN then Some (\<lambda>h. RR_ISDN (ISDN_new h))
      else if rrtype = TypeKEY then Some (\<lambda>h. RR_KEY (DNSKEY_new h))
      else if rrtype = TypeKX then Some (\<lambda>h. RR_KX (KX_new h))
      else if rrtype = TypeL32 then Some (\<lambda>h. RR_L32 (L32_new h))
      else if rrtype = TypeL64 then Some (\<lambda>h. RR_L64 (L64_new h))
      else if rrtype = TypeLOC then Some (\<lambda>h. RR_LOC (LOC_new h))
      else if rrtype = TypeLP then Some (\<lambda>h. RR_LP (LP_new h))
      else if rrtype = TypeMB then Some (\<lambda>h. RR_MB (MB_new h))
      else if rrtype = TypeMD then Some (\<lambda>h. RR_MD (MD_new h))
      else if rrtype = TypeMF then Some (\<lambda>h. RR_MF (MF_new h))
      else if rrtype = TypeMG then Some (\<lambda>h. RR_MG (MG_new h))
      else if rrtype = TypeMINFO then Some (\<lambda>h. RR_MINFO (MINFO_new h))
      else if rrtype = TypeMR then Some (\<lambda>h. RR_MR (MR_new h))
      else if rrtype = TypeMX then Some (\<lambda>h. RR_MX (MX_new h))
      else if rrtype = TypeNAPTR then Some (\<lambda>h. RR_NAPTR (NAPTR_new h))
      else if rrtype = TypeNID then Some (\<lambda>h. RR_NID (NID_new h))
      else if rrtype = TypeNIMLOC then Some (\<lambda>h. RR_NIMLOC (NIMLOC_new h))
      else if rrtype = TypeNINFO then Some (\<lambda>h. RR_NINFO (NINFO_new h))
      else if rrtype = TypeNS then Some (\<lambda>h. RR_NS (NS_new h))
      else if rrtype = TypeNSAPPTR then Some (\<lambda>h. RR_NSAPPTR (NSAPPTR_new h))
      else if rrtype = TypeNSEC then Some (\<lambda>h. RR_NSEC (NSEC_new h))
      else if rrtype = TypeNSEC3 then Some (\<lambda>h. RR_NSEC3 (NSEC3_new h))
      else if rrtype = TypeNSEC3PARAM then Some (\<lambda>h. RR_NSEC3PARAM (NSEC3PARAM_new h))
      else if rrtype = TypeNULL then Some (\<lambda>h. RR_NULL (NULL_new h))
      else if rrtype = TypeNXNAME then Some (\<lambda>h. RR_NXNAME (NXNAME_new h))
      else if rrtype = TypeNXT then Some (\<lambda>h. RR_NXT (NSEC_new h))
      else if rrtype = TypeOPENPGPKEY then Some (\<lambda>h. RR_OPENPGPKEY (OPENPGPKEY_new h))
      else if rrtype = TypeOPT then Some (\<lambda>h. RR_OPT (OPT_new h))
      else if rrtype = TypePTR then Some (\<lambda>h. RR_PTR (PTR_new h))
      else if rrtype = TypePX then Some (\<lambda>h. RR_PX (PX_new h))
      else if rrtype = TypeRESINFO then Some (\<lambda>h. RR_RESINFO (RESINFO_new h))
      else if rrtype = TypeRKEY then Some (\<lambda>h. RR_RKEY (RKEY_new h))
      else if rrtype = TypeRP then Some (\<lambda>h. RR_RP (RP_new h))
      else if rrtype = TypeRRSIG then Some (\<lambda>h. RR_RRSIG (RRSIG_new h))
      else if rrtype = TypeRT then Some (\<lambda>h. RR_RT (RT_new h))
      else if rrtype = TypeSIG then Some (\<lambda>h. RR_SIG (RRSIG_new h))
      else if rrtype = TypeSMIMEA then Some (\<lambda>h. RR_SMIMEA (SMIMEA_new h))
      else if rrtype = TypeSOA then Some (\<lambda>h. RR_SOA (SOA_new h))
      else if rrtype = TypeSPF then Some (\<lambda>h. RR_SPF (SPF_new h))
      else if rrtype = TypeSRV then Some (\<lambda>h. RR_SRV (SRV_new h))
      else if rrtype = TypeSSHFP then Some (\<lambda>h. RR_SSHFP (SSHFP_new h))
      else if rrtype = TypeSVCB then Some (\<lambda>h. RR_SVCB (SVCB_new h))
      else if rrtype = TypeTA then Some (\<lambda>h. RR_TA (TA_new h))
      else if rrtype = TypeTALINK then Some (\<lambda>h. RR_TALINK (TALINK_new h))
      else if rrtype = TypeTKEY then Some (\<lambda>h. RR_TKEY (TKEY_new h))
      else if rrtype = TypeTLSA then Some (\<lambda>h. RR_TLSA (TLSA_new h))
      else if rrtype = TypeTSIG then Some (\<lambda>h. RR_TSIG (TSIG_new h))
      else if rrtype = TypeTXT then Some (\<lambda>h. RR_TXT (TXT_new h))
      else if rrtype = TypeUID then Some (\<lambda>h. RR_UID (UID_new h))
      else if rrtype = TypeUINFO then Some (\<lambda>h. RR_UINFO (UINFO_new h))
      else if rrtype = TypeURI then Some (\<lambda>h. RR_URI (URI_new h))
      else if rrtype = TypeX25 then Some (\<lambda>h. RR_X25 (X25_new h))
      else if rrtype = TypeZONEMD then Some (\<lambda>h. RR_ZONEMD (ZONEMD_new h))
      else None)"

end
