(* ===== verification/Duplicates.thy ===== *)
theory Duplicates
  imports RR_Types "HOL-Library.Multiset"
begin

section \<open>Duplicate records\<close>

text \<open>
  \<^verbatim>\<open>duplicate.go\<close> and the methods that \<^verbatim>\<open>zduplicate.go\<close> holds for each record type: two
  records are duplicates when their headers agree up to the TTL and their data is the same, names
  compared without regard to case, addresses as \<^verbatim>\<open>net.IP.Equal\<close> compares them and the
  parameters of SVCB in the order of their keys. A method starts with a type assertion, which is the case analysis
  on the second record here. The reference is a normal form: two records are duplicates exactly
  when they have the same one.
\<close>

text \<open>\<^verbatim>\<open>net.IP.Equal\<close>: an IPv4 address is equal to its 16-byte form.\<close>

definition IP_Equal :: "bytes \<Rightarrow> bytes \<Rightarrow> bool" where
  "IP_Equal ip x =
     (if length ip = length x then ip = x
      else if length ip = 4 \<and> length x = 16 then take 12 x = v4InV6Prefix \<and> ip = drop 12 x
      else if length ip = 16 \<and> length x = 4 then take 12 ip = v4InV6Prefix \<and> drop 12 ip = x
      else False)"

definition isDuplicateName :: "gostring \<Rightarrow> gostring \<Rightarrow> bool" where
  "isDuplicateName s1 s2 = equal_names s1 s2"

definition Hdr_isDuplicate :: "RR_Header \<Rightarrow> RR_Header \<Rightarrow> bool" where
  "Hdr_isDuplicate r1 r2 =
     (if Hdr_Class r1 \<noteq> Hdr_Class r2 then False
      else if Hdr_Rrtype r1 \<noteq> Hdr_Rrtype r2 then False
      else if \<not> isDuplicateName (Hdr_Name r1) (Hdr_Name r2) then False
      else True)"

definition APLPrefix_equals :: "APLPrefix \<Rightarrow> APLPrefix \<Rightarrow> bool" where
  "APLPrefix_equals a b \<longleftrightarrow>
     APL_Negation a = APL_Negation b \<and> IP_Equal (APL_IP a) (APL_IP b) \<and> APL_Mask a = APL_Mask b"

text \<open>The loops over two lists of the same length.\<close>

fun dup_loop :: "('a \<Rightarrow> 'a \<Rightarrow> bool) \<Rightarrow> 'a list \<Rightarrow> 'a list \<Rightarrow> bool" where
  "dup_loop eq (x # xs) (y # ys) = (if \<not> eq x y then False else dup_loop eq xs ys)"
| "dup_loop eq _ _ = True"

text \<open>The switch on the type of a gateway.\<close>

definition gateway_dup :: "byte \<Rightarrow> bytes \<Rightarrow> bytes \<Rightarrow> gostring \<Rightarrow> gostring \<Rightarrow> bool" where
  "gateway_dup gatewayType addr1 addr2 host1 host2 =
     (if gatewayType = 1 \<or> gatewayType = 2 then IP_Equal addr1 addr2
      else if gatewayType = 3 then isDuplicateName host1 host2
      else True)"

text \<open>
  \<^verbatim>\<open>areSVCBPairArraysEqual\<close> sorts both lists by their keys and walks them together; the
  second list is indexed with no check of its length. What \<^verbatim>\<open>sort.Slice\<close> returns is an argument,
  \<open>srt\<close>: its documentation promises the same elements in ascending order (\<open>sorts_by_key\<close>), but not that elements
  with the same key stay in their order. A list of parameters has no nil element here; on one the code panics.
\<close>

type_synonym svcb_sort = "SVCBKeyValue list \<Rightarrow> SVCBKeyValue list"

definition sorts_by_key :: "svcb_sort \<Rightarrow> bool" where
  "sorts_by_key srt \<longleftrightarrow> (\<forall>vs. mset (srt vs) = mset vs \<and> sorted (map svcb_Key (srt vs)))"

fun svcb_equal_loop :: "SVCBKeyValue list \<Rightarrow> SVCBKeyValue list \<Rightarrow> bool res" where
  "svcb_equal_loop [] b = Ok True"
| "svcb_equal_loop (e # a) [] = Panic"
| "svcb_equal_loop (e # a) (f # b) =
     (if svcb_Key e \<noteq> svcb_Key f then Ok False
      else case (svcb_pack e, svcb_pack f) of
          (Ok b1, Ok b2) \<Rightarrow> if b1 = b2 then svcb_equal_loop a b else Ok False
        | _ \<Rightarrow> Ok False)"

definition areSVCBPairArraysEqual :: "svcb_sort \<Rightarrow> SVCBKeyValue list \<Rightarrow> SVCBKeyValue list \<Rightarrow> bool res" where
  "areSVCBPairArraysEqual srt a b = svcb_equal_loop (srt a) (srt b)"

subsection \<open>The methods of the record types\<close>


definition A_isDuplicate :: "A \<Rightarrow> RR \<Rightarrow> bool" where
  "A_isDuplicate r1 rr2 =
     (case rr2 of
        RR_A r2 \<Rightarrow>
          if \<not> IP_Equal (A_A r1) (A_A r2) then False
          else True
      | _ \<Rightarrow> False)"

definition AAAA_isDuplicate :: "AAAA \<Rightarrow> RR \<Rightarrow> bool" where
  "AAAA_isDuplicate r1 rr2 =
     (case rr2 of
        RR_AAAA r2 \<Rightarrow>
          if \<not> IP_Equal (AAAA_AAAA r1) (AAAA_AAAA r2) then False
          else True
      | _ \<Rightarrow> False)"

definition AFSDB_isDuplicate :: "AFSDB \<Rightarrow> RR \<Rightarrow> bool" where
  "AFSDB_isDuplicate r1 rr2 =
     (case rr2 of
        RR_AFSDB r2 \<Rightarrow>
          if AFSDB_Subtype r1 \<noteq> AFSDB_Subtype r2 then False
          else if \<not> isDuplicateName (AFSDB_Hostname r1) (AFSDB_Hostname r2) then False
          else True
      | _ \<Rightarrow> False)"

definition AMTRELAY_isDuplicate :: "AMTRELAY \<Rightarrow> RR \<Rightarrow> bool" where
  "AMTRELAY_isDuplicate r1 rr2 =
     (case rr2 of
        RR_AMTRELAY r2 \<Rightarrow>
          if AMTRELAY_Precedence r1 \<noteq> AMTRELAY_Precedence r2 then False
          else if AMTRELAY_GatewayType r1 \<noteq> AMTRELAY_GatewayType r2 then False
          else if \<not> gateway_dup (AMTRELAY_GatewayType r1) (AMTRELAY_GatewayAddr r1) (AMTRELAY_GatewayAddr r2) (AMTRELAY_GatewayHost r1) (AMTRELAY_GatewayHost r2) then False
          else True
      | _ \<Rightarrow> False)"

definition ANY_isDuplicate :: "ANY \<Rightarrow> RR \<Rightarrow> bool" where
  "ANY_isDuplicate r1 rr2 =
     (case rr2 of
        RR_ANY r2 \<Rightarrow>
          True
      | _ \<Rightarrow> False)"

definition APL_isDuplicate :: "APL \<Rightarrow> RR \<Rightarrow> bool" where
  "APL_isDuplicate r1 rr2 =
     (case rr2 of
        RR_APL r2 \<Rightarrow>
          if length (APL_Prefixes r1) \<noteq> length (APL_Prefixes r2) then False
          else if \<not> dup_loop APLPrefix_equals (APL_Prefixes r1) (APL_Prefixes r2) then False
          else True
      | _ \<Rightarrow> False)"

definition AVC_isDuplicate :: "AVC \<Rightarrow> RR \<Rightarrow> bool" where
  "AVC_isDuplicate r1 rr2 =
     (case rr2 of
        RR_AVC r2 \<Rightarrow>
          if length (AVC_Txt r1) \<noteq> length (AVC_Txt r2) then False
          else if \<not> dup_loop (=) (AVC_Txt r1) (AVC_Txt r2) then False
          else True
      | _ \<Rightarrow> False)"

definition CAA_isDuplicate :: "CAA \<Rightarrow> RR \<Rightarrow> bool" where
  "CAA_isDuplicate r1 rr2 =
     (case rr2 of
        RR_CAA r2 \<Rightarrow>
          if CAA_Flag r1 \<noteq> CAA_Flag r2 then False
          else if CAA_Tag r1 \<noteq> CAA_Tag r2 then False
          else if CAA_Value r1 \<noteq> CAA_Value r2 then False
          else True
      | _ \<Rightarrow> False)"

definition CDNSKEY_isDuplicate :: "CDNSKEY \<Rightarrow> RR \<Rightarrow> bool" where
  "CDNSKEY_isDuplicate r1 rr2 =
     (case rr2 of
        RR_CDNSKEY r2 \<Rightarrow>
          if DNSKEY_Flags r1 \<noteq> DNSKEY_Flags r2 then False
          else if DNSKEY_Protocol r1 \<noteq> DNSKEY_Protocol r2 then False
          else if DNSKEY_Algorithm r1 \<noteq> DNSKEY_Algorithm r2 then False
          else if DNSKEY_PublicKey r1 \<noteq> DNSKEY_PublicKey r2 then False
          else True
      | _ \<Rightarrow> False)"

definition CDS_isDuplicate :: "CDS \<Rightarrow> RR \<Rightarrow> bool" where
  "CDS_isDuplicate r1 rr2 =
     (case rr2 of
        RR_CDS r2 \<Rightarrow>
          if DS_KeyTag r1 \<noteq> DS_KeyTag r2 then False
          else if DS_Algorithm r1 \<noteq> DS_Algorithm r2 then False
          else if DS_DigestType r1 \<noteq> DS_DigestType r2 then False
          else if DS_Digest r1 \<noteq> DS_Digest r2 then False
          else True
      | _ \<Rightarrow> False)"

definition CERT_isDuplicate :: "CERT \<Rightarrow> RR \<Rightarrow> bool" where
  "CERT_isDuplicate r1 rr2 =
     (case rr2 of
        RR_CERT r2 \<Rightarrow>
          if CERT_Type r1 \<noteq> CERT_Type r2 then False
          else if CERT_KeyTag r1 \<noteq> CERT_KeyTag r2 then False
          else if CERT_Algorithm r1 \<noteq> CERT_Algorithm r2 then False
          else if CERT_Certificate r1 \<noteq> CERT_Certificate r2 then False
          else True
      | _ \<Rightarrow> False)"

definition CNAME_isDuplicate :: "CNAME \<Rightarrow> RR \<Rightarrow> bool" where
  "CNAME_isDuplicate r1 rr2 =
     (case rr2 of
        RR_CNAME r2 \<Rightarrow>
          if \<not> isDuplicateName (CNAME_Target r1) (CNAME_Target r2) then False
          else True
      | _ \<Rightarrow> False)"

definition CSYNC_isDuplicate :: "CSYNC \<Rightarrow> RR \<Rightarrow> bool" where
  "CSYNC_isDuplicate r1 rr2 =
     (case rr2 of
        RR_CSYNC r2 \<Rightarrow>
          if CSYNC_Serial r1 \<noteq> CSYNC_Serial r2 then False
          else if CSYNC_Flags r1 \<noteq> CSYNC_Flags r2 then False
          else if length (CSYNC_TypeBitMap r1) \<noteq> length (CSYNC_TypeBitMap r2) then False
          else if \<not> dup_loop (=) (CSYNC_TypeBitMap r1) (CSYNC_TypeBitMap r2) then False
          else True
      | _ \<Rightarrow> False)"

definition DHCID_isDuplicate :: "DHCID \<Rightarrow> RR \<Rightarrow> bool" where
  "DHCID_isDuplicate r1 rr2 =
     (case rr2 of
        RR_DHCID r2 \<Rightarrow>
          if DHCID_Digest r1 \<noteq> DHCID_Digest r2 then False
          else True
      | _ \<Rightarrow> False)"

definition DLV_isDuplicate :: "DLV \<Rightarrow> RR \<Rightarrow> bool" where
  "DLV_isDuplicate r1 rr2 =
     (case rr2 of
        RR_DLV r2 \<Rightarrow>
          if DS_KeyTag r1 \<noteq> DS_KeyTag r2 then False
          else if DS_Algorithm r1 \<noteq> DS_Algorithm r2 then False
          else if DS_DigestType r1 \<noteq> DS_DigestType r2 then False
          else if DS_Digest r1 \<noteq> DS_Digest r2 then False
          else True
      | _ \<Rightarrow> False)"

definition DNAME_isDuplicate :: "DNAME \<Rightarrow> RR \<Rightarrow> bool" where
  "DNAME_isDuplicate r1 rr2 =
     (case rr2 of
        RR_DNAME r2 \<Rightarrow>
          if \<not> isDuplicateName (DNAME_Target r1) (DNAME_Target r2) then False
          else True
      | _ \<Rightarrow> False)"

definition DNSKEY_isDuplicate :: "DNSKEY \<Rightarrow> RR \<Rightarrow> bool" where
  "DNSKEY_isDuplicate r1 rr2 =
     (case rr2 of
        RR_DNSKEY r2 \<Rightarrow>
          if DNSKEY_Flags r1 \<noteq> DNSKEY_Flags r2 then False
          else if DNSKEY_Protocol r1 \<noteq> DNSKEY_Protocol r2 then False
          else if DNSKEY_Algorithm r1 \<noteq> DNSKEY_Algorithm r2 then False
          else if DNSKEY_PublicKey r1 \<noteq> DNSKEY_PublicKey r2 then False
          else True
      | _ \<Rightarrow> False)"

definition DS_isDuplicate :: "DS \<Rightarrow> RR \<Rightarrow> bool" where
  "DS_isDuplicate r1 rr2 =
     (case rr2 of
        RR_DS r2 \<Rightarrow>
          if DS_KeyTag r1 \<noteq> DS_KeyTag r2 then False
          else if DS_Algorithm r1 \<noteq> DS_Algorithm r2 then False
          else if DS_DigestType r1 \<noteq> DS_DigestType r2 then False
          else if DS_Digest r1 \<noteq> DS_Digest r2 then False
          else True
      | _ \<Rightarrow> False)"

definition EID_isDuplicate :: "EID \<Rightarrow> RR \<Rightarrow> bool" where
  "EID_isDuplicate r1 rr2 =
     (case rr2 of
        RR_EID r2 \<Rightarrow>
          if EID_Endpoint r1 \<noteq> EID_Endpoint r2 then False
          else True
      | _ \<Rightarrow> False)"

definition EUI48_isDuplicate :: "EUI48 \<Rightarrow> RR \<Rightarrow> bool" where
  "EUI48_isDuplicate r1 rr2 =
     (case rr2 of
        RR_EUI48 r2 \<Rightarrow>
          if EUI48_Address r1 \<noteq> EUI48_Address r2 then False
          else True
      | _ \<Rightarrow> False)"

definition EUI64_isDuplicate :: "EUI64 \<Rightarrow> RR \<Rightarrow> bool" where
  "EUI64_isDuplicate r1 rr2 =
     (case rr2 of
        RR_EUI64 r2 \<Rightarrow>
          if EUI64_Address r1 \<noteq> EUI64_Address r2 then False
          else True
      | _ \<Rightarrow> False)"

definition GID_isDuplicate :: "GID \<Rightarrow> RR \<Rightarrow> bool" where
  "GID_isDuplicate r1 rr2 =
     (case rr2 of
        RR_GID r2 \<Rightarrow>
          if GID_Gid r1 \<noteq> GID_Gid r2 then False
          else True
      | _ \<Rightarrow> False)"

definition GPOS_isDuplicate :: "GPOS \<Rightarrow> RR \<Rightarrow> bool" where
  "GPOS_isDuplicate r1 rr2 =
     (case rr2 of
        RR_GPOS r2 \<Rightarrow>
          if GPOS_Longitude r1 \<noteq> GPOS_Longitude r2 then False
          else if GPOS_Latitude r1 \<noteq> GPOS_Latitude r2 then False
          else if GPOS_Altitude r1 \<noteq> GPOS_Altitude r2 then False
          else True
      | _ \<Rightarrow> False)"

definition HINFO_isDuplicate :: "HINFO \<Rightarrow> RR \<Rightarrow> bool" where
  "HINFO_isDuplicate r1 rr2 =
     (case rr2 of
        RR_HINFO r2 \<Rightarrow>
          if HINFO_Cpu r1 \<noteq> HINFO_Cpu r2 then False
          else if HINFO_Os r1 \<noteq> HINFO_Os r2 then False
          else True
      | _ \<Rightarrow> False)"

definition HIP_isDuplicate :: "HIP \<Rightarrow> RR \<Rightarrow> bool" where
  "HIP_isDuplicate r1 rr2 =
     (case rr2 of
        RR_HIP r2 \<Rightarrow>
          if HIP_HitLength r1 \<noteq> HIP_HitLength r2 then False
          else if HIP_PublicKeyAlgorithm r1 \<noteq> HIP_PublicKeyAlgorithm r2 then False
          else if HIP_PublicKeyLength r1 \<noteq> HIP_PublicKeyLength r2 then False
          else if HIP_Hit r1 \<noteq> HIP_Hit r2 then False
          else if HIP_PublicKey r1 \<noteq> HIP_PublicKey r2 then False
          else if length (HIP_RendezvousServers r1) \<noteq> length (HIP_RendezvousServers r2) then False
          else if \<not> dup_loop isDuplicateName (HIP_RendezvousServers r1) (HIP_RendezvousServers r2) then False
          else True
      | _ \<Rightarrow> False)"

definition HTTPS_isDuplicate :: "svcb_sort \<Rightarrow> HTTPS \<Rightarrow> RR \<Rightarrow> bool res" where
  "HTTPS_isDuplicate srt r1 rr2 =
     (case rr2 of
        RR_HTTPS r2 \<Rightarrow>
          if SVCB_Priority r1 \<noteq> SVCB_Priority r2 then Ok False
          else if \<not> isDuplicateName (SVCB_Target r1) (SVCB_Target r2) then Ok False
          else if length (SVCB_Value r1) \<noteq> length (SVCB_Value r2) then Ok False
          else areSVCBPairArraysEqual srt (SVCB_Value r1) (SVCB_Value r2)
      | _ \<Rightarrow> Ok False)"

definition IPSECKEY_isDuplicate :: "IPSECKEY \<Rightarrow> RR \<Rightarrow> bool" where
  "IPSECKEY_isDuplicate r1 rr2 =
     (case rr2 of
        RR_IPSECKEY r2 \<Rightarrow>
          if IPSECKEY_Precedence r1 \<noteq> IPSECKEY_Precedence r2 then False
          else if IPSECKEY_GatewayType r1 \<noteq> IPSECKEY_GatewayType r2 then False
          else if IPSECKEY_Algorithm r1 \<noteq> IPSECKEY_Algorithm r2 then False
          else if \<not> gateway_dup (IPSECKEY_GatewayType r1) (IPSECKEY_GatewayAddr r1) (IPSECKEY_GatewayAddr r2) (IPSECKEY_GatewayHost r1) (IPSECKEY_GatewayHost r2) then False
          else if IPSECKEY_PublicKey r1 \<noteq> IPSECKEY_PublicKey r2 then False
          else True
      | _ \<Rightarrow> False)"

definition ISDN_isDuplicate :: "ISDN \<Rightarrow> RR \<Rightarrow> bool" where
  "ISDN_isDuplicate r1 rr2 =
     (case rr2 of
        RR_ISDN r2 \<Rightarrow>
          if ISDN_Address r1 \<noteq> ISDN_Address r2 then False
          else if ISDN_SubAddress r1 \<noteq> ISDN_SubAddress r2 then False
          else True
      | _ \<Rightarrow> False)"

definition KEY_isDuplicate :: "KEY \<Rightarrow> RR \<Rightarrow> bool" where
  "KEY_isDuplicate r1 rr2 =
     (case rr2 of
        RR_KEY r2 \<Rightarrow>
          if DNSKEY_Flags r1 \<noteq> DNSKEY_Flags r2 then False
          else if DNSKEY_Protocol r1 \<noteq> DNSKEY_Protocol r2 then False
          else if DNSKEY_Algorithm r1 \<noteq> DNSKEY_Algorithm r2 then False
          else if DNSKEY_PublicKey r1 \<noteq> DNSKEY_PublicKey r2 then False
          else True
      | _ \<Rightarrow> False)"

definition KX_isDuplicate :: "KX \<Rightarrow> RR \<Rightarrow> bool" where
  "KX_isDuplicate r1 rr2 =
     (case rr2 of
        RR_KX r2 \<Rightarrow>
          if KX_Preference r1 \<noteq> KX_Preference r2 then False
          else if \<not> isDuplicateName (KX_Exchanger r1) (KX_Exchanger r2) then False
          else True
      | _ \<Rightarrow> False)"

definition L32_isDuplicate :: "L32 \<Rightarrow> RR \<Rightarrow> bool" where
  "L32_isDuplicate r1 rr2 =
     (case rr2 of
        RR_L32 r2 \<Rightarrow>
          if L32_Preference r1 \<noteq> L32_Preference r2 then False
          else if \<not> IP_Equal (L32_Locator32 r1) (L32_Locator32 r2) then False
          else True
      | _ \<Rightarrow> False)"

definition L64_isDuplicate :: "L64 \<Rightarrow> RR \<Rightarrow> bool" where
  "L64_isDuplicate r1 rr2 =
     (case rr2 of
        RR_L64 r2 \<Rightarrow>
          if L64_Preference r1 \<noteq> L64_Preference r2 then False
          else if L64_Locator64 r1 \<noteq> L64_Locator64 r2 then False
          else True
      | _ \<Rightarrow> False)"

definition LOC_isDuplicate :: "LOC \<Rightarrow> RR \<Rightarrow> bool" where
  "LOC_isDuplicate r1 rr2 =
     (case rr2 of
        RR_LOC r2 \<Rightarrow>
          if LOC_Version r1 \<noteq> LOC_Version r2 then False
          else if LOC_Size r1 \<noteq> LOC_Size r2 then False
          else if LOC_HorizPre r1 \<noteq> LOC_HorizPre r2 then False
          else if LOC_VertPre r1 \<noteq> LOC_VertPre r2 then False
          else if LOC_Latitude r1 \<noteq> LOC_Latitude r2 then False
          else if LOC_Longitude r1 \<noteq> LOC_Longitude r2 then False
          else if LOC_Altitude r1 \<noteq> LOC_Altitude r2 then False
          else True
      | _ \<Rightarrow> False)"

definition LP_isDuplicate :: "LP \<Rightarrow> RR \<Rightarrow> bool" where
  "LP_isDuplicate r1 rr2 =
     (case rr2 of
        RR_LP r2 \<Rightarrow>
          if LP_Preference r1 \<noteq> LP_Preference r2 then False
          else if \<not> isDuplicateName (LP_Fqdn r1) (LP_Fqdn r2) then False
          else True
      | _ \<Rightarrow> False)"

definition MB_isDuplicate :: "MB \<Rightarrow> RR \<Rightarrow> bool" where
  "MB_isDuplicate r1 rr2 =
     (case rr2 of
        RR_MB r2 \<Rightarrow>
          if \<not> isDuplicateName (MB_Mb r1) (MB_Mb r2) then False
          else True
      | _ \<Rightarrow> False)"

definition MD_isDuplicate :: "MD \<Rightarrow> RR \<Rightarrow> bool" where
  "MD_isDuplicate r1 rr2 =
     (case rr2 of
        RR_MD r2 \<Rightarrow>
          if \<not> isDuplicateName (MD_Md r1) (MD_Md r2) then False
          else True
      | _ \<Rightarrow> False)"

definition MF_isDuplicate :: "MF \<Rightarrow> RR \<Rightarrow> bool" where
  "MF_isDuplicate r1 rr2 =
     (case rr2 of
        RR_MF r2 \<Rightarrow>
          if \<not> isDuplicateName (MF_Mf r1) (MF_Mf r2) then False
          else True
      | _ \<Rightarrow> False)"

definition MG_isDuplicate :: "MG \<Rightarrow> RR \<Rightarrow> bool" where
  "MG_isDuplicate r1 rr2 =
     (case rr2 of
        RR_MG r2 \<Rightarrow>
          if \<not> isDuplicateName (MG_Mg r1) (MG_Mg r2) then False
          else True
      | _ \<Rightarrow> False)"

definition MINFO_isDuplicate :: "MINFO \<Rightarrow> RR \<Rightarrow> bool" where
  "MINFO_isDuplicate r1 rr2 =
     (case rr2 of
        RR_MINFO r2 \<Rightarrow>
          if \<not> isDuplicateName (MINFO_Rmail r1) (MINFO_Rmail r2) then False
          else if \<not> isDuplicateName (MINFO_Email r1) (MINFO_Email r2) then False
          else True
      | _ \<Rightarrow> False)"

definition MR_isDuplicate :: "MR \<Rightarrow> RR \<Rightarrow> bool" where
  "MR_isDuplicate r1 rr2 =
     (case rr2 of
        RR_MR r2 \<Rightarrow>
          if \<not> isDuplicateName (MR_Mr r1) (MR_Mr r2) then False
          else True
      | _ \<Rightarrow> False)"

definition MX_isDuplicate :: "MX \<Rightarrow> RR \<Rightarrow> bool" where
  "MX_isDuplicate r1 rr2 =
     (case rr2 of
        RR_MX r2 \<Rightarrow>
          if MX_Preference r1 \<noteq> MX_Preference r2 then False
          else if \<not> isDuplicateName (MX_Mx r1) (MX_Mx r2) then False
          else True
      | _ \<Rightarrow> False)"

definition NAPTR_isDuplicate :: "NAPTR \<Rightarrow> RR \<Rightarrow> bool" where
  "NAPTR_isDuplicate r1 rr2 =
     (case rr2 of
        RR_NAPTR r2 \<Rightarrow>
          if NAPTR_Order r1 \<noteq> NAPTR_Order r2 then False
          else if NAPTR_Preference r1 \<noteq> NAPTR_Preference r2 then False
          else if NAPTR_Flags r1 \<noteq> NAPTR_Flags r2 then False
          else if NAPTR_Service r1 \<noteq> NAPTR_Service r2 then False
          else if NAPTR_Regexp r1 \<noteq> NAPTR_Regexp r2 then False
          else if \<not> isDuplicateName (NAPTR_Replacement r1) (NAPTR_Replacement r2) then False
          else True
      | _ \<Rightarrow> False)"

definition NID_isDuplicate :: "NID \<Rightarrow> RR \<Rightarrow> bool" where
  "NID_isDuplicate r1 rr2 =
     (case rr2 of
        RR_NID r2 \<Rightarrow>
          if NID_Preference r1 \<noteq> NID_Preference r2 then False
          else if NID_NodeID r1 \<noteq> NID_NodeID r2 then False
          else True
      | _ \<Rightarrow> False)"

definition NIMLOC_isDuplicate :: "NIMLOC \<Rightarrow> RR \<Rightarrow> bool" where
  "NIMLOC_isDuplicate r1 rr2 =
     (case rr2 of
        RR_NIMLOC r2 \<Rightarrow>
          if NIMLOC_Locator r1 \<noteq> NIMLOC_Locator r2 then False
          else True
      | _ \<Rightarrow> False)"

definition NINFO_isDuplicate :: "NINFO \<Rightarrow> RR \<Rightarrow> bool" where
  "NINFO_isDuplicate r1 rr2 =
     (case rr2 of
        RR_NINFO r2 \<Rightarrow>
          if length (NINFO_ZSData r1) \<noteq> length (NINFO_ZSData r2) then False
          else if \<not> dup_loop (=) (NINFO_ZSData r1) (NINFO_ZSData r2) then False
          else True
      | _ \<Rightarrow> False)"

definition NS_isDuplicate :: "NS \<Rightarrow> RR \<Rightarrow> bool" where
  "NS_isDuplicate r1 rr2 =
     (case rr2 of
        RR_NS r2 \<Rightarrow>
          if \<not> isDuplicateName (NS_Ns r1) (NS_Ns r2) then False
          else True
      | _ \<Rightarrow> False)"

definition NSAPPTR_isDuplicate :: "NSAPPTR \<Rightarrow> RR \<Rightarrow> bool" where
  "NSAPPTR_isDuplicate r1 rr2 =
     (case rr2 of
        RR_NSAPPTR r2 \<Rightarrow>
          if \<not> isDuplicateName (NSAPPTR_Ptr r1) (NSAPPTR_Ptr r2) then False
          else True
      | _ \<Rightarrow> False)"

definition NSEC_isDuplicate :: "NSEC \<Rightarrow> RR \<Rightarrow> bool" where
  "NSEC_isDuplicate r1 rr2 =
     (case rr2 of
        RR_NSEC r2 \<Rightarrow>
          if \<not> isDuplicateName (NSEC_NextDomain r1) (NSEC_NextDomain r2) then False
          else if length (NSEC_TypeBitMap r1) \<noteq> length (NSEC_TypeBitMap r2) then False
          else if \<not> dup_loop (=) (NSEC_TypeBitMap r1) (NSEC_TypeBitMap r2) then False
          else True
      | _ \<Rightarrow> False)"

definition NSEC3_isDuplicate :: "NSEC3 \<Rightarrow> RR \<Rightarrow> bool" where
  "NSEC3_isDuplicate r1 rr2 =
     (case rr2 of
        RR_NSEC3 r2 \<Rightarrow>
          if NSEC3_Hash r1 \<noteq> NSEC3_Hash r2 then False
          else if NSEC3_Flags r1 \<noteq> NSEC3_Flags r2 then False
          else if NSEC3_Iterations r1 \<noteq> NSEC3_Iterations r2 then False
          else if NSEC3_SaltLength r1 \<noteq> NSEC3_SaltLength r2 then False
          else if NSEC3_Salt r1 \<noteq> NSEC3_Salt r2 then False
          else if NSEC3_HashLength r1 \<noteq> NSEC3_HashLength r2 then False
          else if NSEC3_NextDomain r1 \<noteq> NSEC3_NextDomain r2 then False
          else if length (NSEC3_TypeBitMap r1) \<noteq> length (NSEC3_TypeBitMap r2) then False
          else if \<not> dup_loop (=) (NSEC3_TypeBitMap r1) (NSEC3_TypeBitMap r2) then False
          else True
      | _ \<Rightarrow> False)"

definition NSEC3PARAM_isDuplicate :: "NSEC3PARAM \<Rightarrow> RR \<Rightarrow> bool" where
  "NSEC3PARAM_isDuplicate r1 rr2 =
     (case rr2 of
        RR_NSEC3PARAM r2 \<Rightarrow>
          if NSEC3PARAM_Hash r1 \<noteq> NSEC3PARAM_Hash r2 then False
          else if NSEC3PARAM_Flags r1 \<noteq> NSEC3PARAM_Flags r2 then False
          else if NSEC3PARAM_Iterations r1 \<noteq> NSEC3PARAM_Iterations r2 then False
          else if NSEC3PARAM_SaltLength r1 \<noteq> NSEC3PARAM_SaltLength r2 then False
          else if NSEC3PARAM_Salt r1 \<noteq> NSEC3PARAM_Salt r2 then False
          else True
      | _ \<Rightarrow> False)"

definition NULL_isDuplicate :: "NULL \<Rightarrow> RR \<Rightarrow> bool" where
  "NULL_isDuplicate r1 rr2 =
     (case rr2 of
        RR_NULL r2 \<Rightarrow>
          if NULL_Data r1 \<noteq> NULL_Data r2 then False
          else True
      | _ \<Rightarrow> False)"

definition NXNAME_isDuplicate :: "NXNAME \<Rightarrow> RR \<Rightarrow> bool" where
  "NXNAME_isDuplicate r1 rr2 =
     (case rr2 of
        RR_NXNAME r2 \<Rightarrow>
          True
      | _ \<Rightarrow> False)"

definition NXT_isDuplicate :: "NXT \<Rightarrow> RR \<Rightarrow> bool" where
  "NXT_isDuplicate r1 rr2 =
     (case rr2 of
        RR_NXT r2 \<Rightarrow>
          if \<not> isDuplicateName (NSEC_NextDomain r1) (NSEC_NextDomain r2) then False
          else if length (NSEC_TypeBitMap r1) \<noteq> length (NSEC_TypeBitMap r2) then False
          else if \<not> dup_loop (=) (NSEC_TypeBitMap r1) (NSEC_TypeBitMap r2) then False
          else True
      | _ \<Rightarrow> False)"

definition OPENPGPKEY_isDuplicate :: "OPENPGPKEY \<Rightarrow> RR \<Rightarrow> bool" where
  "OPENPGPKEY_isDuplicate r1 rr2 =
     (case rr2 of
        RR_OPENPGPKEY r2 \<Rightarrow>
          if OPENPGPKEY_PublicKey r1 \<noteq> OPENPGPKEY_PublicKey r2 then False
          else True
      | _ \<Rightarrow> False)"

definition PTR_isDuplicate :: "PTR \<Rightarrow> RR \<Rightarrow> bool" where
  "PTR_isDuplicate r1 rr2 =
     (case rr2 of
        RR_PTR r2 \<Rightarrow>
          if \<not> isDuplicateName (PTR_Ptr r1) (PTR_Ptr r2) then False
          else True
      | _ \<Rightarrow> False)"

definition PX_isDuplicate :: "PX \<Rightarrow> RR \<Rightarrow> bool" where
  "PX_isDuplicate r1 rr2 =
     (case rr2 of
        RR_PX r2 \<Rightarrow>
          if PX_Preference r1 \<noteq> PX_Preference r2 then False
          else if \<not> isDuplicateName (PX_Map822 r1) (PX_Map822 r2) then False
          else if \<not> isDuplicateName (PX_Mapx400 r1) (PX_Mapx400 r2) then False
          else True
      | _ \<Rightarrow> False)"

definition RESINFO_isDuplicate :: "RESINFO \<Rightarrow> RR \<Rightarrow> bool" where
  "RESINFO_isDuplicate r1 rr2 =
     (case rr2 of
        RR_RESINFO r2 \<Rightarrow>
          if length (RESINFO_Txt r1) \<noteq> length (RESINFO_Txt r2) then False
          else if \<not> dup_loop (=) (RESINFO_Txt r1) (RESINFO_Txt r2) then False
          else True
      | _ \<Rightarrow> False)"

definition RFC3597_isDuplicate :: "RFC3597 \<Rightarrow> RR \<Rightarrow> bool" where
  "RFC3597_isDuplicate r1 rr2 =
     (case rr2 of
        RR_RFC3597 r2 \<Rightarrow>
          if RFC3597_Rdata r1 \<noteq> RFC3597_Rdata r2 then False
          else True
      | _ \<Rightarrow> False)"

definition RKEY_isDuplicate :: "RKEY \<Rightarrow> RR \<Rightarrow> bool" where
  "RKEY_isDuplicate r1 rr2 =
     (case rr2 of
        RR_RKEY r2 \<Rightarrow>
          if RKEY_Flags r1 \<noteq> RKEY_Flags r2 then False
          else if RKEY_Protocol r1 \<noteq> RKEY_Protocol r2 then False
          else if RKEY_Algorithm r1 \<noteq> RKEY_Algorithm r2 then False
          else if RKEY_PublicKey r1 \<noteq> RKEY_PublicKey r2 then False
          else True
      | _ \<Rightarrow> False)"

definition RP_isDuplicate :: "RP \<Rightarrow> RR \<Rightarrow> bool" where
  "RP_isDuplicate r1 rr2 =
     (case rr2 of
        RR_RP r2 \<Rightarrow>
          if \<not> isDuplicateName (RP_Mbox r1) (RP_Mbox r2) then False
          else if \<not> isDuplicateName (RP_Txt r1) (RP_Txt r2) then False
          else True
      | _ \<Rightarrow> False)"

definition RRSIG_isDuplicate :: "RRSIG \<Rightarrow> RR \<Rightarrow> bool" where
  "RRSIG_isDuplicate r1 rr2 =
     (case rr2 of
        RR_RRSIG r2 \<Rightarrow>
          if RRSIG_TypeCovered r1 \<noteq> RRSIG_TypeCovered r2 then False
          else if RRSIG_Algorithm r1 \<noteq> RRSIG_Algorithm r2 then False
          else if RRSIG_Labels r1 \<noteq> RRSIG_Labels r2 then False
          else if RRSIG_OrigTtl r1 \<noteq> RRSIG_OrigTtl r2 then False
          else if RRSIG_Expiration r1 \<noteq> RRSIG_Expiration r2 then False
          else if RRSIG_Inception r1 \<noteq> RRSIG_Inception r2 then False
          else if RRSIG_KeyTag r1 \<noteq> RRSIG_KeyTag r2 then False
          else if \<not> isDuplicateName (RRSIG_SignerName r1) (RRSIG_SignerName r2) then False
          else if RRSIG_Signature r1 \<noteq> RRSIG_Signature r2 then False
          else True
      | _ \<Rightarrow> False)"

definition RT_isDuplicate :: "RT \<Rightarrow> RR \<Rightarrow> bool" where
  "RT_isDuplicate r1 rr2 =
     (case rr2 of
        RR_RT r2 \<Rightarrow>
          if RT_Preference r1 \<noteq> RT_Preference r2 then False
          else if \<not> isDuplicateName (RT_Host r1) (RT_Host r2) then False
          else True
      | _ \<Rightarrow> False)"

definition SIG_isDuplicate :: "SIG \<Rightarrow> RR \<Rightarrow> bool" where
  "SIG_isDuplicate r1 rr2 =
     (case rr2 of
        RR_SIG r2 \<Rightarrow>
          if RRSIG_TypeCovered r1 \<noteq> RRSIG_TypeCovered r2 then False
          else if RRSIG_Algorithm r1 \<noteq> RRSIG_Algorithm r2 then False
          else if RRSIG_Labels r1 \<noteq> RRSIG_Labels r2 then False
          else if RRSIG_OrigTtl r1 \<noteq> RRSIG_OrigTtl r2 then False
          else if RRSIG_Expiration r1 \<noteq> RRSIG_Expiration r2 then False
          else if RRSIG_Inception r1 \<noteq> RRSIG_Inception r2 then False
          else if RRSIG_KeyTag r1 \<noteq> RRSIG_KeyTag r2 then False
          else if \<not> isDuplicateName (RRSIG_SignerName r1) (RRSIG_SignerName r2) then False
          else if RRSIG_Signature r1 \<noteq> RRSIG_Signature r2 then False
          else True
      | _ \<Rightarrow> False)"

definition SMIMEA_isDuplicate :: "SMIMEA \<Rightarrow> RR \<Rightarrow> bool" where
  "SMIMEA_isDuplicate r1 rr2 =
     (case rr2 of
        RR_SMIMEA r2 \<Rightarrow>
          if SMIMEA_Usage r1 \<noteq> SMIMEA_Usage r2 then False
          else if SMIMEA_Selector r1 \<noteq> SMIMEA_Selector r2 then False
          else if SMIMEA_MatchingType r1 \<noteq> SMIMEA_MatchingType r2 then False
          else if SMIMEA_Certificate r1 \<noteq> SMIMEA_Certificate r2 then False
          else True
      | _ \<Rightarrow> False)"

definition SOA_isDuplicate :: "SOA \<Rightarrow> RR \<Rightarrow> bool" where
  "SOA_isDuplicate r1 rr2 =
     (case rr2 of
        RR_SOA r2 \<Rightarrow>
          if \<not> isDuplicateName (SOA_Ns r1) (SOA_Ns r2) then False
          else if \<not> isDuplicateName (SOA_Mbox r1) (SOA_Mbox r2) then False
          else if SOA_Serial r1 \<noteq> SOA_Serial r2 then False
          else if SOA_Refresh r1 \<noteq> SOA_Refresh r2 then False
          else if SOA_Retry r1 \<noteq> SOA_Retry r2 then False
          else if SOA_Expire r1 \<noteq> SOA_Expire r2 then False
          else if SOA_Minttl r1 \<noteq> SOA_Minttl r2 then False
          else True
      | _ \<Rightarrow> False)"

definition SPF_isDuplicate :: "SPF \<Rightarrow> RR \<Rightarrow> bool" where
  "SPF_isDuplicate r1 rr2 =
     (case rr2 of
        RR_SPF r2 \<Rightarrow>
          if length (SPF_Txt r1) \<noteq> length (SPF_Txt r2) then False
          else if \<not> dup_loop (=) (SPF_Txt r1) (SPF_Txt r2) then False
          else True
      | _ \<Rightarrow> False)"

definition SRV_isDuplicate :: "SRV \<Rightarrow> RR \<Rightarrow> bool" where
  "SRV_isDuplicate r1 rr2 =
     (case rr2 of
        RR_SRV r2 \<Rightarrow>
          if SRV_Priority r1 \<noteq> SRV_Priority r2 then False
          else if SRV_Weight r1 \<noteq> SRV_Weight r2 then False
          else if SRV_Port r1 \<noteq> SRV_Port r2 then False
          else if \<not> isDuplicateName (SRV_Target r1) (SRV_Target r2) then False
          else True
      | _ \<Rightarrow> False)"

definition SSHFP_isDuplicate :: "SSHFP \<Rightarrow> RR \<Rightarrow> bool" where
  "SSHFP_isDuplicate r1 rr2 =
     (case rr2 of
        RR_SSHFP r2 \<Rightarrow>
          if SSHFP_Algorithm r1 \<noteq> SSHFP_Algorithm r2 then False
          else if SSHFP_Type r1 \<noteq> SSHFP_Type r2 then False
          else if SSHFP_FingerPrint r1 \<noteq> SSHFP_FingerPrint r2 then False
          else True
      | _ \<Rightarrow> False)"

definition SVCB_isDuplicate :: "svcb_sort \<Rightarrow> SVCB \<Rightarrow> RR \<Rightarrow> bool res" where
  "SVCB_isDuplicate srt r1 rr2 =
     (case rr2 of
        RR_SVCB r2 \<Rightarrow>
          if SVCB_Priority r1 \<noteq> SVCB_Priority r2 then Ok False
          else if \<not> isDuplicateName (SVCB_Target r1) (SVCB_Target r2) then Ok False
          else if length (SVCB_Value r1) \<noteq> length (SVCB_Value r2) then Ok False
          else areSVCBPairArraysEqual srt (SVCB_Value r1) (SVCB_Value r2)
      | _ \<Rightarrow> Ok False)"

definition TA_isDuplicate :: "TA \<Rightarrow> RR \<Rightarrow> bool" where
  "TA_isDuplicate r1 rr2 =
     (case rr2 of
        RR_TA r2 \<Rightarrow>
          if TA_KeyTag r1 \<noteq> TA_KeyTag r2 then False
          else if TA_Algorithm r1 \<noteq> TA_Algorithm r2 then False
          else if TA_DigestType r1 \<noteq> TA_DigestType r2 then False
          else if TA_Digest r1 \<noteq> TA_Digest r2 then False
          else True
      | _ \<Rightarrow> False)"

definition TALINK_isDuplicate :: "TALINK \<Rightarrow> RR \<Rightarrow> bool" where
  "TALINK_isDuplicate r1 rr2 =
     (case rr2 of
        RR_TALINK r2 \<Rightarrow>
          if \<not> isDuplicateName (TALINK_PreviousName r1) (TALINK_PreviousName r2) then False
          else if \<not> isDuplicateName (TALINK_NextName r1) (TALINK_NextName r2) then False
          else True
      | _ \<Rightarrow> False)"

definition TKEY_isDuplicate :: "TKEY \<Rightarrow> RR \<Rightarrow> bool" where
  "TKEY_isDuplicate r1 rr2 =
     (case rr2 of
        RR_TKEY r2 \<Rightarrow>
          if \<not> isDuplicateName (TKEY_Algorithm r1) (TKEY_Algorithm r2) then False
          else if TKEY_Inception r1 \<noteq> TKEY_Inception r2 then False
          else if TKEY_Expiration r1 \<noteq> TKEY_Expiration r2 then False
          else if TKEY_Mode r1 \<noteq> TKEY_Mode r2 then False
          else if TKEY_Error r1 \<noteq> TKEY_Error r2 then False
          else if TKEY_KeySize r1 \<noteq> TKEY_KeySize r2 then False
          else if TKEY_Key r1 \<noteq> TKEY_Key r2 then False
          else if TKEY_OtherLen r1 \<noteq> TKEY_OtherLen r2 then False
          else if TKEY_OtherData r1 \<noteq> TKEY_OtherData r2 then False
          else True
      | _ \<Rightarrow> False)"

definition TLSA_isDuplicate :: "TLSA \<Rightarrow> RR \<Rightarrow> bool" where
  "TLSA_isDuplicate r1 rr2 =
     (case rr2 of
        RR_TLSA r2 \<Rightarrow>
          if TLSA_Usage r1 \<noteq> TLSA_Usage r2 then False
          else if TLSA_Selector r1 \<noteq> TLSA_Selector r2 then False
          else if TLSA_MatchingType r1 \<noteq> TLSA_MatchingType r2 then False
          else if TLSA_Certificate r1 \<noteq> TLSA_Certificate r2 then False
          else True
      | _ \<Rightarrow> False)"

definition TSIG_isDuplicate :: "TSIG \<Rightarrow> RR \<Rightarrow> bool" where
  "TSIG_isDuplicate r1 rr2 =
     (case rr2 of
        RR_TSIG r2 \<Rightarrow>
          if \<not> isDuplicateName (TSIG_Algorithm r1) (TSIG_Algorithm r2) then False
          else if TSIG_TimeSigned r1 \<noteq> TSIG_TimeSigned r2 then False
          else if TSIG_Fudge r1 \<noteq> TSIG_Fudge r2 then False
          else if TSIG_MACSize r1 \<noteq> TSIG_MACSize r2 then False
          else if TSIG_MAC r1 \<noteq> TSIG_MAC r2 then False
          else if TSIG_OrigId r1 \<noteq> TSIG_OrigId r2 then False
          else if TSIG_Error r1 \<noteq> TSIG_Error r2 then False
          else if TSIG_OtherLen r1 \<noteq> TSIG_OtherLen r2 then False
          else if TSIG_OtherData r1 \<noteq> TSIG_OtherData r2 then False
          else True
      | _ \<Rightarrow> False)"

definition TXT_isDuplicate :: "TXT \<Rightarrow> RR \<Rightarrow> bool" where
  "TXT_isDuplicate r1 rr2 =
     (case rr2 of
        RR_TXT r2 \<Rightarrow>
          if length (TXT_Txt r1) \<noteq> length (TXT_Txt r2) then False
          else if \<not> dup_loop (=) (TXT_Txt r1) (TXT_Txt r2) then False
          else True
      | _ \<Rightarrow> False)"

definition UID_isDuplicate :: "UID \<Rightarrow> RR \<Rightarrow> bool" where
  "UID_isDuplicate r1 rr2 =
     (case rr2 of
        RR_UID r2 \<Rightarrow>
          if UID_Uid r1 \<noteq> UID_Uid r2 then False
          else True
      | _ \<Rightarrow> False)"

definition UINFO_isDuplicate :: "UINFO \<Rightarrow> RR \<Rightarrow> bool" where
  "UINFO_isDuplicate r1 rr2 =
     (case rr2 of
        RR_UINFO r2 \<Rightarrow>
          if UINFO_Uinfo r1 \<noteq> UINFO_Uinfo r2 then False
          else True
      | _ \<Rightarrow> False)"

definition URI_isDuplicate :: "URI \<Rightarrow> RR \<Rightarrow> bool" where
  "URI_isDuplicate r1 rr2 =
     (case rr2 of
        RR_URI r2 \<Rightarrow>
          if URI_Priority r1 \<noteq> URI_Priority r2 then False
          else if URI_Weight r1 \<noteq> URI_Weight r2 then False
          else if URI_Target r1 \<noteq> URI_Target r2 then False
          else True
      | _ \<Rightarrow> False)"

definition X25_isDuplicate :: "X25 \<Rightarrow> RR \<Rightarrow> bool" where
  "X25_isDuplicate r1 rr2 =
     (case rr2 of
        RR_X25 r2 \<Rightarrow>
          if X25_PSDNAddress r1 \<noteq> X25_PSDNAddress r2 then False
          else True
      | _ \<Rightarrow> False)"

definition ZONEMD_isDuplicate :: "ZONEMD \<Rightarrow> RR \<Rightarrow> bool" where
  "ZONEMD_isDuplicate r1 rr2 =
     (case rr2 of
        RR_ZONEMD r2 \<Rightarrow>
          if ZONEMD_Serial r1 \<noteq> ZONEMD_Serial r2 then False
          else if ZONEMD_Scheme r1 \<noteq> ZONEMD_Scheme r2 then False
          else if ZONEMD_Hash r1 \<noteq> ZONEMD_Hash r2 then False
          else if ZONEMD_Digest r1 \<noteq> ZONEMD_Digest r2 then False
          else True
      | _ \<Rightarrow> False)"

text \<open>\<^verbatim>\<open>edns.go\<close>: an OPT record is a duplicate of none.\<close>

definition OPT_isDuplicate :: "OPT \<Rightarrow> RR \<Rightarrow> bool" where
  "OPT_isDuplicate r1 rr2 = False"

text \<open>The call through the interface.\<close>

primrec rr_isDuplicate :: "svcb_sort \<Rightarrow> RR \<Rightarrow> RR \<Rightarrow> bool res" where
  "rr_isDuplicate srt (RR_A r1) rr2 = Ok (A_isDuplicate r1 rr2)"
| "rr_isDuplicate srt (RR_AAAA r1) rr2 = Ok (AAAA_isDuplicate r1 rr2)"
| "rr_isDuplicate srt (RR_AFSDB r1) rr2 = Ok (AFSDB_isDuplicate r1 rr2)"
| "rr_isDuplicate srt (RR_AMTRELAY r1) rr2 = Ok (AMTRELAY_isDuplicate r1 rr2)"
| "rr_isDuplicate srt (RR_ANY r1) rr2 = Ok (ANY_isDuplicate r1 rr2)"
| "rr_isDuplicate srt (RR_APL r1) rr2 = Ok (APL_isDuplicate r1 rr2)"
| "rr_isDuplicate srt (RR_AVC r1) rr2 = Ok (AVC_isDuplicate r1 rr2)"
| "rr_isDuplicate srt (RR_CAA r1) rr2 = Ok (CAA_isDuplicate r1 rr2)"
| "rr_isDuplicate srt (RR_CDNSKEY r1) rr2 = Ok (CDNSKEY_isDuplicate r1 rr2)"
| "rr_isDuplicate srt (RR_CDS r1) rr2 = Ok (CDS_isDuplicate r1 rr2)"
| "rr_isDuplicate srt (RR_CERT r1) rr2 = Ok (CERT_isDuplicate r1 rr2)"
| "rr_isDuplicate srt (RR_CNAME r1) rr2 = Ok (CNAME_isDuplicate r1 rr2)"
| "rr_isDuplicate srt (RR_CSYNC r1) rr2 = Ok (CSYNC_isDuplicate r1 rr2)"
| "rr_isDuplicate srt (RR_DHCID r1) rr2 = Ok (DHCID_isDuplicate r1 rr2)"
| "rr_isDuplicate srt (RR_DLV r1) rr2 = Ok (DLV_isDuplicate r1 rr2)"
| "rr_isDuplicate srt (RR_DNAME r1) rr2 = Ok (DNAME_isDuplicate r1 rr2)"
| "rr_isDuplicate srt (RR_DNSKEY r1) rr2 = Ok (DNSKEY_isDuplicate r1 rr2)"
| "rr_isDuplicate srt (RR_DS r1) rr2 = Ok (DS_isDuplicate r1 rr2)"
| "rr_isDuplicate srt (RR_EID r1) rr2 = Ok (EID_isDuplicate r1 rr2)"
| "rr_isDuplicate srt (RR_EUI48 r1) rr2 = Ok (EUI48_isDuplicate r1 rr2)"
| "rr_isDuplicate srt (RR_EUI64 r1) rr2 = Ok (EUI64_isDuplicate r1 rr2)"
| "rr_isDuplicate srt (RR_GID r1) rr2 = Ok (GID_isDuplicate r1 rr2)"
| "rr_isDuplicate srt (RR_GPOS r1) rr2 = Ok (GPOS_isDuplicate r1 rr2)"
| "rr_isDuplicate srt (RR_HINFO r1) rr2 = Ok (HINFO_isDuplicate r1 rr2)"
| "rr_isDuplicate srt (RR_HIP r1) rr2 = Ok (HIP_isDuplicate r1 rr2)"
| "rr_isDuplicate srt (RR_HTTPS r1) rr2 = HTTPS_isDuplicate srt r1 rr2"
| "rr_isDuplicate srt (RR_IPSECKEY r1) rr2 = Ok (IPSECKEY_isDuplicate r1 rr2)"
| "rr_isDuplicate srt (RR_ISDN r1) rr2 = Ok (ISDN_isDuplicate r1 rr2)"
| "rr_isDuplicate srt (RR_KEY r1) rr2 = Ok (KEY_isDuplicate r1 rr2)"
| "rr_isDuplicate srt (RR_KX r1) rr2 = Ok (KX_isDuplicate r1 rr2)"
| "rr_isDuplicate srt (RR_L32 r1) rr2 = Ok (L32_isDuplicate r1 rr2)"
| "rr_isDuplicate srt (RR_L64 r1) rr2 = Ok (L64_isDuplicate r1 rr2)"
| "rr_isDuplicate srt (RR_LOC r1) rr2 = Ok (LOC_isDuplicate r1 rr2)"
| "rr_isDuplicate srt (RR_LP r1) rr2 = Ok (LP_isDuplicate r1 rr2)"
| "rr_isDuplicate srt (RR_MB r1) rr2 = Ok (MB_isDuplicate r1 rr2)"
| "rr_isDuplicate srt (RR_MD r1) rr2 = Ok (MD_isDuplicate r1 rr2)"
| "rr_isDuplicate srt (RR_MF r1) rr2 = Ok (MF_isDuplicate r1 rr2)"
| "rr_isDuplicate srt (RR_MG r1) rr2 = Ok (MG_isDuplicate r1 rr2)"
| "rr_isDuplicate srt (RR_MINFO r1) rr2 = Ok (MINFO_isDuplicate r1 rr2)"
| "rr_isDuplicate srt (RR_MR r1) rr2 = Ok (MR_isDuplicate r1 rr2)"
| "rr_isDuplicate srt (RR_MX r1) rr2 = Ok (MX_isDuplicate r1 rr2)"
| "rr_isDuplicate srt (RR_NAPTR r1) rr2 = Ok (NAPTR_isDuplicate r1 rr2)"
| "rr_isDuplicate srt (RR_NID r1) rr2 = Ok (NID_isDuplicate r1 rr2)"
| "rr_isDuplicate srt (RR_NIMLOC r1) rr2 = Ok (NIMLOC_isDuplicate r1 rr2)"
| "rr_isDuplicate srt (RR_NINFO r1) rr2 = Ok (NINFO_isDuplicate r1 rr2)"
| "rr_isDuplicate srt (RR_NS r1) rr2 = Ok (NS_isDuplicate r1 rr2)"
| "rr_isDuplicate srt (RR_NSAPPTR r1) rr2 = Ok (NSAPPTR_isDuplicate r1 rr2)"
| "rr_isDuplicate srt (RR_NSEC r1) rr2 = Ok (NSEC_isDuplicate r1 rr2)"
| "rr_isDuplicate srt (RR_NSEC3 r1) rr2 = Ok (NSEC3_isDuplicate r1 rr2)"
| "rr_isDuplicate srt (RR_NSEC3PARAM r1) rr2 = Ok (NSEC3PARAM_isDuplicate r1 rr2)"
| "rr_isDuplicate srt (RR_NULL r1) rr2 = Ok (NULL_isDuplicate r1 rr2)"
| "rr_isDuplicate srt (RR_NXNAME r1) rr2 = Ok (NXNAME_isDuplicate r1 rr2)"
| "rr_isDuplicate srt (RR_NXT r1) rr2 = Ok (NXT_isDuplicate r1 rr2)"
| "rr_isDuplicate srt (RR_OPENPGPKEY r1) rr2 = Ok (OPENPGPKEY_isDuplicate r1 rr2)"
| "rr_isDuplicate srt (RR_OPT r1) rr2 = Ok (OPT_isDuplicate r1 rr2)"
| "rr_isDuplicate srt (RR_PTR r1) rr2 = Ok (PTR_isDuplicate r1 rr2)"
| "rr_isDuplicate srt (RR_PX r1) rr2 = Ok (PX_isDuplicate r1 rr2)"
| "rr_isDuplicate srt (RR_RESINFO r1) rr2 = Ok (RESINFO_isDuplicate r1 rr2)"
| "rr_isDuplicate srt (RR_RFC3597 r1) rr2 = Ok (RFC3597_isDuplicate r1 rr2)"
| "rr_isDuplicate srt (RR_RKEY r1) rr2 = Ok (RKEY_isDuplicate r1 rr2)"
| "rr_isDuplicate srt (RR_RP r1) rr2 = Ok (RP_isDuplicate r1 rr2)"
| "rr_isDuplicate srt (RR_RRSIG r1) rr2 = Ok (RRSIG_isDuplicate r1 rr2)"
| "rr_isDuplicate srt (RR_RT r1) rr2 = Ok (RT_isDuplicate r1 rr2)"
| "rr_isDuplicate srt (RR_SIG r1) rr2 = Ok (SIG_isDuplicate r1 rr2)"
| "rr_isDuplicate srt (RR_SMIMEA r1) rr2 = Ok (SMIMEA_isDuplicate r1 rr2)"
| "rr_isDuplicate srt (RR_SOA r1) rr2 = Ok (SOA_isDuplicate r1 rr2)"
| "rr_isDuplicate srt (RR_SPF r1) rr2 = Ok (SPF_isDuplicate r1 rr2)"
| "rr_isDuplicate srt (RR_SRV r1) rr2 = Ok (SRV_isDuplicate r1 rr2)"
| "rr_isDuplicate srt (RR_SSHFP r1) rr2 = Ok (SSHFP_isDuplicate r1 rr2)"
| "rr_isDuplicate srt (RR_SVCB r1) rr2 = SVCB_isDuplicate srt r1 rr2"
| "rr_isDuplicate srt (RR_TA r1) rr2 = Ok (TA_isDuplicate r1 rr2)"
| "rr_isDuplicate srt (RR_TALINK r1) rr2 = Ok (TALINK_isDuplicate r1 rr2)"
| "rr_isDuplicate srt (RR_TKEY r1) rr2 = Ok (TKEY_isDuplicate r1 rr2)"
| "rr_isDuplicate srt (RR_TLSA r1) rr2 = Ok (TLSA_isDuplicate r1 rr2)"
| "rr_isDuplicate srt (RR_TSIG r1) rr2 = Ok (TSIG_isDuplicate r1 rr2)"
| "rr_isDuplicate srt (RR_TXT r1) rr2 = Ok (TXT_isDuplicate r1 rr2)"
| "rr_isDuplicate srt (RR_UID r1) rr2 = Ok (UID_isDuplicate r1 rr2)"
| "rr_isDuplicate srt (RR_UINFO r1) rr2 = Ok (UINFO_isDuplicate r1 rr2)"
| "rr_isDuplicate srt (RR_URI r1) rr2 = Ok (URI_isDuplicate r1 rr2)"
| "rr_isDuplicate srt (RR_X25 r1) rr2 = Ok (X25_isDuplicate r1 rr2)"
| "rr_isDuplicate srt (RR_ZONEMD r1) rr2 = Ok (ZONEMD_isDuplicate r1 rr2)"

definition IsDuplicate :: "svcb_sort \<Rightarrow> RR \<Rightarrow> RR \<Rightarrow> bool res" where
  "IsDuplicate srt r1 r2 =
     (if \<not> Hdr_isDuplicate (rr_Header r1) (rr_Header r2) then Ok False
      else rr_isDuplicate srt r1 r2)"

subsection \<open>The normal form\<close>

text \<open>
  The name of the owner in lower case, no TTL and no length; names in the data in lower case,
  addresses in 16 bytes, a gateway only where its type has one, and each SVCB parameter as its key
  and its packed value, in the order of the keys. A record that is comparable has parameters that
  can be packed, and is no OPT record. The normal form is only of use when no key occurs twice in a record.
\<close>

definition hdr_norm :: "RR_Header \<Rightarrow> RR_Header" where
  "hdr_norm h = h\<lparr>Hdr_Name := map to_lower (Hdr_Name h), Hdr_Ttl := 0, Hdr_Rdlength := 0\<rparr>"

definition ip_norm :: "bytes \<Rightarrow> bytes" where
  "ip_norm ip = (if length ip = 4 then v4InV6Prefix @ ip else ip)"

definition prefix_norm :: "APLPrefix \<Rightarrow> APLPrefix" where
  "prefix_norm p = p\<lparr>APL_IP := ip_norm (APL_IP p)\<rparr>"

definition svcb_norm :: "SVCBKeyValue list \<Rightarrow> SVCBKeyValue list" where
  "svcb_norm vs = map (\<lambda>v. SVCBLocal (svcb_Key v) (svcb_payload v)) (sort_key svcb_Key vs)"

definition svcb_packs :: "SVCBKeyValue \<Rightarrow> bool" where
  "svcb_packs v = (case svcb_pack v of Ok _ \<Rightarrow> True | _ \<Rightarrow> False)"

definition comparable_rr :: "RR \<Rightarrow> bool" where
  "comparable_rr rr =
     (case rr of
        RR_OPT _ \<Rightarrow> False
      | RR_SVCB r \<Rightarrow> list_all svcb_packs (SVCB_Value r)
      | RR_HTTPS r \<Rightarrow> list_all svcb_packs (SVCB_Value r)
      | _ \<Rightarrow> True)"

definition unique_keys :: "RR \<Rightarrow> bool" where
  "unique_keys rr =
     (case rr of
        RR_SVCB r \<Rightarrow> distinct (map svcb_Key (SVCB_Value r))
      | RR_HTTPS r \<Rightarrow> distinct (map svcb_Key (SVCB_Value r))
      | _ \<Rightarrow> True)"

primrec dup_norm :: "RR \<Rightarrow> RR" where
  "dup_norm (RR_A rr) = RR_A (rr\<lparr>A_Hdr := hdr_norm (A_Hdr rr),
       A_A := ip_norm (A_A rr)\<rparr>)"
| "dup_norm (RR_AAAA rr) = RR_AAAA (rr\<lparr>AAAA_Hdr := hdr_norm (AAAA_Hdr rr),
       AAAA_AAAA := ip_norm (AAAA_AAAA rr)\<rparr>)"
| "dup_norm (RR_AFSDB rr) = RR_AFSDB (rr\<lparr>AFSDB_Hdr := hdr_norm (AFSDB_Hdr rr),
       AFSDB_Hostname := map to_lower (AFSDB_Hostname rr)\<rparr>)"
| "dup_norm (RR_AMTRELAY rr) = RR_AMTRELAY (rr\<lparr>AMTRELAY_Hdr := hdr_norm (AMTRELAY_Hdr rr),
       AMTRELAY_GatewayAddr := (if AMTRELAY_GatewayType rr = 1 \<or> AMTRELAY_GatewayType rr = 2 then ip_norm (AMTRELAY_GatewayAddr rr) else []),
       AMTRELAY_GatewayHost := (if AMTRELAY_GatewayType rr = 3 then map to_lower (AMTRELAY_GatewayHost rr) else [])\<rparr>)"
| "dup_norm (RR_ANY rr) = RR_ANY (rr\<lparr>ANY_Hdr := hdr_norm (ANY_Hdr rr)\<rparr>)"
| "dup_norm (RR_APL rr) = RR_APL (rr\<lparr>APL_Hdr := hdr_norm (APL_Hdr rr),
       APL_Prefixes := map prefix_norm (APL_Prefixes rr)\<rparr>)"
| "dup_norm (RR_AVC rr) = RR_AVC (rr\<lparr>AVC_Hdr := hdr_norm (AVC_Hdr rr)\<rparr>)"
| "dup_norm (RR_CAA rr) = RR_CAA (rr\<lparr>CAA_Hdr := hdr_norm (CAA_Hdr rr)\<rparr>)"
| "dup_norm (RR_CDNSKEY rr) = RR_CDNSKEY (rr\<lparr>DNSKEY_Hdr := hdr_norm (DNSKEY_Hdr rr)\<rparr>)"
| "dup_norm (RR_CDS rr) = RR_CDS (rr\<lparr>DS_Hdr := hdr_norm (DS_Hdr rr)\<rparr>)"
| "dup_norm (RR_CERT rr) = RR_CERT (rr\<lparr>CERT_Hdr := hdr_norm (CERT_Hdr rr)\<rparr>)"
| "dup_norm (RR_CNAME rr) = RR_CNAME (rr\<lparr>CNAME_Hdr := hdr_norm (CNAME_Hdr rr),
       CNAME_Target := map to_lower (CNAME_Target rr)\<rparr>)"
| "dup_norm (RR_CSYNC rr) = RR_CSYNC (rr\<lparr>CSYNC_Hdr := hdr_norm (CSYNC_Hdr rr)\<rparr>)"
| "dup_norm (RR_DHCID rr) = RR_DHCID (rr\<lparr>DHCID_Hdr := hdr_norm (DHCID_Hdr rr)\<rparr>)"
| "dup_norm (RR_DLV rr) = RR_DLV (rr\<lparr>DS_Hdr := hdr_norm (DS_Hdr rr)\<rparr>)"
| "dup_norm (RR_DNAME rr) = RR_DNAME (rr\<lparr>DNAME_Hdr := hdr_norm (DNAME_Hdr rr),
       DNAME_Target := map to_lower (DNAME_Target rr)\<rparr>)"
| "dup_norm (RR_DNSKEY rr) = RR_DNSKEY (rr\<lparr>DNSKEY_Hdr := hdr_norm (DNSKEY_Hdr rr)\<rparr>)"
| "dup_norm (RR_DS rr) = RR_DS (rr\<lparr>DS_Hdr := hdr_norm (DS_Hdr rr)\<rparr>)"
| "dup_norm (RR_EID rr) = RR_EID (rr\<lparr>EID_Hdr := hdr_norm (EID_Hdr rr)\<rparr>)"
| "dup_norm (RR_EUI48 rr) = RR_EUI48 (rr\<lparr>EUI48_Hdr := hdr_norm (EUI48_Hdr rr)\<rparr>)"
| "dup_norm (RR_EUI64 rr) = RR_EUI64 (rr\<lparr>EUI64_Hdr := hdr_norm (EUI64_Hdr rr)\<rparr>)"
| "dup_norm (RR_GID rr) = RR_GID (rr\<lparr>GID_Hdr := hdr_norm (GID_Hdr rr)\<rparr>)"
| "dup_norm (RR_GPOS rr) = RR_GPOS (rr\<lparr>GPOS_Hdr := hdr_norm (GPOS_Hdr rr)\<rparr>)"
| "dup_norm (RR_HINFO rr) = RR_HINFO (rr\<lparr>HINFO_Hdr := hdr_norm (HINFO_Hdr rr)\<rparr>)"
| "dup_norm (RR_HIP rr) = RR_HIP (rr\<lparr>HIP_Hdr := hdr_norm (HIP_Hdr rr),
       HIP_RendezvousServers := map (map to_lower) (HIP_RendezvousServers rr)\<rparr>)"
| "dup_norm (RR_HTTPS rr) = RR_HTTPS (rr\<lparr>SVCB_Hdr := hdr_norm (SVCB_Hdr rr),
       SVCB_Target := map to_lower (SVCB_Target rr),
       SVCB_Value := svcb_norm (SVCB_Value rr)\<rparr>)"
| "dup_norm (RR_IPSECKEY rr) = RR_IPSECKEY (rr\<lparr>IPSECKEY_Hdr := hdr_norm (IPSECKEY_Hdr rr),
       IPSECKEY_GatewayAddr := (if IPSECKEY_GatewayType rr = 1 \<or> IPSECKEY_GatewayType rr = 2 then ip_norm (IPSECKEY_GatewayAddr rr) else []),
       IPSECKEY_GatewayHost := (if IPSECKEY_GatewayType rr = 3 then map to_lower (IPSECKEY_GatewayHost rr) else [])\<rparr>)"
| "dup_norm (RR_ISDN rr) = RR_ISDN (rr\<lparr>ISDN_Hdr := hdr_norm (ISDN_Hdr rr)\<rparr>)"
| "dup_norm (RR_KEY rr) = RR_KEY (rr\<lparr>DNSKEY_Hdr := hdr_norm (DNSKEY_Hdr rr)\<rparr>)"
| "dup_norm (RR_KX rr) = RR_KX (rr\<lparr>KX_Hdr := hdr_norm (KX_Hdr rr),
       KX_Exchanger := map to_lower (KX_Exchanger rr)\<rparr>)"
| "dup_norm (RR_L32 rr) = RR_L32 (rr\<lparr>L32_Hdr := hdr_norm (L32_Hdr rr),
       L32_Locator32 := ip_norm (L32_Locator32 rr)\<rparr>)"
| "dup_norm (RR_L64 rr) = RR_L64 (rr\<lparr>L64_Hdr := hdr_norm (L64_Hdr rr)\<rparr>)"
| "dup_norm (RR_LOC rr) = RR_LOC (rr\<lparr>LOC_Hdr := hdr_norm (LOC_Hdr rr)\<rparr>)"
| "dup_norm (RR_LP rr) = RR_LP (rr\<lparr>LP_Hdr := hdr_norm (LP_Hdr rr),
       LP_Fqdn := map to_lower (LP_Fqdn rr)\<rparr>)"
| "dup_norm (RR_MB rr) = RR_MB (rr\<lparr>MB_Hdr := hdr_norm (MB_Hdr rr),
       MB_Mb := map to_lower (MB_Mb rr)\<rparr>)"
| "dup_norm (RR_MD rr) = RR_MD (rr\<lparr>MD_Hdr := hdr_norm (MD_Hdr rr),
       MD_Md := map to_lower (MD_Md rr)\<rparr>)"
| "dup_norm (RR_MF rr) = RR_MF (rr\<lparr>MF_Hdr := hdr_norm (MF_Hdr rr),
       MF_Mf := map to_lower (MF_Mf rr)\<rparr>)"
| "dup_norm (RR_MG rr) = RR_MG (rr\<lparr>MG_Hdr := hdr_norm (MG_Hdr rr),
       MG_Mg := map to_lower (MG_Mg rr)\<rparr>)"
| "dup_norm (RR_MINFO rr) = RR_MINFO (rr\<lparr>MINFO_Hdr := hdr_norm (MINFO_Hdr rr),
       MINFO_Rmail := map to_lower (MINFO_Rmail rr),
       MINFO_Email := map to_lower (MINFO_Email rr)\<rparr>)"
| "dup_norm (RR_MR rr) = RR_MR (rr\<lparr>MR_Hdr := hdr_norm (MR_Hdr rr),
       MR_Mr := map to_lower (MR_Mr rr)\<rparr>)"
| "dup_norm (RR_MX rr) = RR_MX (rr\<lparr>MX_Hdr := hdr_norm (MX_Hdr rr),
       MX_Mx := map to_lower (MX_Mx rr)\<rparr>)"
| "dup_norm (RR_NAPTR rr) = RR_NAPTR (rr\<lparr>NAPTR_Hdr := hdr_norm (NAPTR_Hdr rr),
       NAPTR_Replacement := map to_lower (NAPTR_Replacement rr)\<rparr>)"
| "dup_norm (RR_NID rr) = RR_NID (rr\<lparr>NID_Hdr := hdr_norm (NID_Hdr rr)\<rparr>)"
| "dup_norm (RR_NIMLOC rr) = RR_NIMLOC (rr\<lparr>NIMLOC_Hdr := hdr_norm (NIMLOC_Hdr rr)\<rparr>)"
| "dup_norm (RR_NINFO rr) = RR_NINFO (rr\<lparr>NINFO_Hdr := hdr_norm (NINFO_Hdr rr)\<rparr>)"
| "dup_norm (RR_NS rr) = RR_NS (rr\<lparr>NS_Hdr := hdr_norm (NS_Hdr rr),
       NS_Ns := map to_lower (NS_Ns rr)\<rparr>)"
| "dup_norm (RR_NSAPPTR rr) = RR_NSAPPTR (rr\<lparr>NSAPPTR_Hdr := hdr_norm (NSAPPTR_Hdr rr),
       NSAPPTR_Ptr := map to_lower (NSAPPTR_Ptr rr)\<rparr>)"
| "dup_norm (RR_NSEC rr) = RR_NSEC (rr\<lparr>NSEC_Hdr := hdr_norm (NSEC_Hdr rr),
       NSEC_NextDomain := map to_lower (NSEC_NextDomain rr)\<rparr>)"
| "dup_norm (RR_NSEC3 rr) = RR_NSEC3 (rr\<lparr>NSEC3_Hdr := hdr_norm (NSEC3_Hdr rr)\<rparr>)"
| "dup_norm (RR_NSEC3PARAM rr) = RR_NSEC3PARAM (rr\<lparr>NSEC3PARAM_Hdr := hdr_norm (NSEC3PARAM_Hdr rr)\<rparr>)"
| "dup_norm (RR_NULL rr) = RR_NULL (rr\<lparr>NULL_Hdr := hdr_norm (NULL_Hdr rr)\<rparr>)"
| "dup_norm (RR_NXNAME rr) = RR_NXNAME (rr\<lparr>NXNAME_Hdr := hdr_norm (NXNAME_Hdr rr)\<rparr>)"
| "dup_norm (RR_NXT rr) = RR_NXT (rr\<lparr>NSEC_Hdr := hdr_norm (NSEC_Hdr rr),
       NSEC_NextDomain := map to_lower (NSEC_NextDomain rr)\<rparr>)"
| "dup_norm (RR_OPENPGPKEY rr) = RR_OPENPGPKEY (rr\<lparr>OPENPGPKEY_Hdr := hdr_norm (OPENPGPKEY_Hdr rr)\<rparr>)"
| "dup_norm (RR_OPT rr) = RR_OPT (rr\<lparr>OPT_Hdr := hdr_norm (OPT_Hdr rr)\<rparr>)"
| "dup_norm (RR_PTR rr) = RR_PTR (rr\<lparr>PTR_Hdr := hdr_norm (PTR_Hdr rr),
       PTR_Ptr := map to_lower (PTR_Ptr rr)\<rparr>)"
| "dup_norm (RR_PX rr) = RR_PX (rr\<lparr>PX_Hdr := hdr_norm (PX_Hdr rr),
       PX_Map822 := map to_lower (PX_Map822 rr),
       PX_Mapx400 := map to_lower (PX_Mapx400 rr)\<rparr>)"
| "dup_norm (RR_RESINFO rr) = RR_RESINFO (rr\<lparr>RESINFO_Hdr := hdr_norm (RESINFO_Hdr rr)\<rparr>)"
| "dup_norm (RR_RFC3597 rr) = RR_RFC3597 (rr\<lparr>RFC3597_Hdr := hdr_norm (RFC3597_Hdr rr)\<rparr>)"
| "dup_norm (RR_RKEY rr) = RR_RKEY (rr\<lparr>RKEY_Hdr := hdr_norm (RKEY_Hdr rr)\<rparr>)"
| "dup_norm (RR_RP rr) = RR_RP (rr\<lparr>RP_Hdr := hdr_norm (RP_Hdr rr),
       RP_Mbox := map to_lower (RP_Mbox rr),
       RP_Txt := map to_lower (RP_Txt rr)\<rparr>)"
| "dup_norm (RR_RRSIG rr) = RR_RRSIG (rr\<lparr>RRSIG_Hdr := hdr_norm (RRSIG_Hdr rr),
       RRSIG_SignerName := map to_lower (RRSIG_SignerName rr)\<rparr>)"
| "dup_norm (RR_RT rr) = RR_RT (rr\<lparr>RT_Hdr := hdr_norm (RT_Hdr rr),
       RT_Host := map to_lower (RT_Host rr)\<rparr>)"
| "dup_norm (RR_SIG rr) = RR_SIG (rr\<lparr>RRSIG_Hdr := hdr_norm (RRSIG_Hdr rr),
       RRSIG_SignerName := map to_lower (RRSIG_SignerName rr)\<rparr>)"
| "dup_norm (RR_SMIMEA rr) = RR_SMIMEA (rr\<lparr>SMIMEA_Hdr := hdr_norm (SMIMEA_Hdr rr)\<rparr>)"
| "dup_norm (RR_SOA rr) = RR_SOA (rr\<lparr>SOA_Hdr := hdr_norm (SOA_Hdr rr),
       SOA_Ns := map to_lower (SOA_Ns rr),
       SOA_Mbox := map to_lower (SOA_Mbox rr)\<rparr>)"
| "dup_norm (RR_SPF rr) = RR_SPF (rr\<lparr>SPF_Hdr := hdr_norm (SPF_Hdr rr)\<rparr>)"
| "dup_norm (RR_SRV rr) = RR_SRV (rr\<lparr>SRV_Hdr := hdr_norm (SRV_Hdr rr),
       SRV_Target := map to_lower (SRV_Target rr)\<rparr>)"
| "dup_norm (RR_SSHFP rr) = RR_SSHFP (rr\<lparr>SSHFP_Hdr := hdr_norm (SSHFP_Hdr rr)\<rparr>)"
| "dup_norm (RR_SVCB rr) = RR_SVCB (rr\<lparr>SVCB_Hdr := hdr_norm (SVCB_Hdr rr),
       SVCB_Target := map to_lower (SVCB_Target rr),
       SVCB_Value := svcb_norm (SVCB_Value rr)\<rparr>)"
| "dup_norm (RR_TA rr) = RR_TA (rr\<lparr>TA_Hdr := hdr_norm (TA_Hdr rr)\<rparr>)"
| "dup_norm (RR_TALINK rr) = RR_TALINK (rr\<lparr>TALINK_Hdr := hdr_norm (TALINK_Hdr rr),
       TALINK_PreviousName := map to_lower (TALINK_PreviousName rr),
       TALINK_NextName := map to_lower (TALINK_NextName rr)\<rparr>)"
| "dup_norm (RR_TKEY rr) = RR_TKEY (rr\<lparr>TKEY_Hdr := hdr_norm (TKEY_Hdr rr),
       TKEY_Algorithm := map to_lower (TKEY_Algorithm rr)\<rparr>)"
| "dup_norm (RR_TLSA rr) = RR_TLSA (rr\<lparr>TLSA_Hdr := hdr_norm (TLSA_Hdr rr)\<rparr>)"
| "dup_norm (RR_TSIG rr) = RR_TSIG (rr\<lparr>TSIG_Hdr := hdr_norm (TSIG_Hdr rr),
       TSIG_Algorithm := map to_lower (TSIG_Algorithm rr)\<rparr>)"
| "dup_norm (RR_TXT rr) = RR_TXT (rr\<lparr>TXT_Hdr := hdr_norm (TXT_Hdr rr)\<rparr>)"
| "dup_norm (RR_UID rr) = RR_UID (rr\<lparr>UID_Hdr := hdr_norm (UID_Hdr rr)\<rparr>)"
| "dup_norm (RR_UINFO rr) = RR_UINFO (rr\<lparr>UINFO_Hdr := hdr_norm (UINFO_Hdr rr)\<rparr>)"
| "dup_norm (RR_URI rr) = RR_URI (rr\<lparr>URI_Hdr := hdr_norm (URI_Hdr rr)\<rparr>)"
| "dup_norm (RR_X25 rr) = RR_X25 (rr\<lparr>X25_Hdr := hdr_norm (X25_Hdr rr)\<rparr>)"
| "dup_norm (RR_ZONEMD rr) = RR_ZONEMD (rr\<lparr>ZONEMD_Hdr := hdr_norm (ZONEMD_Hdr rr)\<rparr>)"

lemma IP_Equal_norm: "IP_Equal a b \<longleftrightarrow> ip_norm a = ip_norm b"
proof -
  have l: "length v4InV6Prefix = 12" by (simp add: v4InV6Prefix_def)
  have "v4InV6Prefix @ c = d \<longleftrightarrow> take 12 d = v4InV6Prefix \<and> c = drop 12 d" for c d
    using l append_eq_conv_conj [of v4InV6Prefix c d] by auto
  then show ?thesis
    using l by (auto simp: IP_Equal_def ip_norm_def eq_commute [of a "v4InV6Prefix @ b"])
qed

lemma dup_loop_eq: "length xs = length ys \<Longrightarrow> dup_loop eq xs ys \<longleftrightarrow> list_all2 eq xs ys"
  by (induction eq xs ys rule: dup_loop.induct) auto

lemma dup_loop_map:
  assumes "\<And>x y. eq x y \<longleftrightarrow> f x = f y"
  shows "length xs = length ys \<and> dup_loop eq xs ys \<longleftrightarrow> map f xs = map f ys"
    and "length xs = length ys \<and> dup_loop eq xs ys \<and> Q \<longleftrightarrow> map f xs = map f ys \<and> Q"
  by (auto simp: dup_loop_eq assms list_all2_conv_all_nth list_eq_iff_nth_eq)

lemma isDuplicateName_norm: "isDuplicateName a b \<longleftrightarrow> map to_lower a = map to_lower b"
  by (simp add: isDuplicateName_def equal_names_iff)

lemma APLPrefix_equals_norm: "APLPrefix_equals a b \<longleftrightarrow> prefix_norm a = prefix_norm b"
  by (cases a; cases b) (auto simp: APLPrefix_equals_def prefix_norm_def IP_Equal_norm)

lemma Hdr_isDuplicate_norm: "Hdr_isDuplicate a b \<longleftrightarrow> hdr_norm a = hdr_norm b"
  by (cases a; cases b) (auto simp: Hdr_isDuplicate_def hdr_norm_def isDuplicateName_norm)

lemmas dup_loop_norms =
  dup_loop_map [of "(=)" "\<lambda>x. x", OF refl, simplified] dup_loop_map [OF APLPrefix_equals_norm]
  dup_loop_map [OF isDuplicateName_norm]

lemma if_return: "(if P then False else Q) \<longleftrightarrow> \<not> P \<and> Q"
  by simp

lemmas dup_norms =
  IP_Equal_norm isDuplicateName_norm Hdr_isDuplicate_norm if_return dup_loop_norms


lemma A_dup_same:
  "A_isDuplicate r1 (RR_A r2) \<and> Hdr_isDuplicate (A_Hdr r1) (A_Hdr r2) \<longleftrightarrow>
     dup_norm (RR_A r1) = dup_norm (RR_A r2)"
  by (cases r1; cases r2) 
    (simp add: A_isDuplicate_def dup_norms split del: if_split, auto simp: gateway_dup_def IP_Equal_norm isDuplicateName_norm)

lemma A_dup:
  "A_isDuplicate r1 rr2 \<and> Hdr_isDuplicate (A_Hdr r1) (rr_Header rr2) \<longleftrightarrow>
     dup_norm (RR_A r1) = dup_norm rr2"
proof (cases rr2)
  case (RR_A r2)
  then show ?thesis using A_dup_same [of r1 r2] by simp
qed (simp_all add: A_isDuplicate_def)

lemma AAAA_dup_same:
  "AAAA_isDuplicate r1 (RR_AAAA r2) \<and> Hdr_isDuplicate (AAAA_Hdr r1) (AAAA_Hdr r2) \<longleftrightarrow>
     dup_norm (RR_AAAA r1) = dup_norm (RR_AAAA r2)"
  by (cases r1; cases r2) 
    (simp add: AAAA_isDuplicate_def dup_norms split del: if_split, auto simp: gateway_dup_def IP_Equal_norm isDuplicateName_norm)

lemma AAAA_dup:
  "AAAA_isDuplicate r1 rr2 \<and> Hdr_isDuplicate (AAAA_Hdr r1) (rr_Header rr2) \<longleftrightarrow>
     dup_norm (RR_AAAA r1) = dup_norm rr2"
proof (cases rr2)
  case (RR_AAAA r2)
  then show ?thesis using AAAA_dup_same [of r1 r2] by simp
qed (simp_all add: AAAA_isDuplicate_def)

lemma AFSDB_dup_same:
  "AFSDB_isDuplicate r1 (RR_AFSDB r2) \<and> Hdr_isDuplicate (AFSDB_Hdr r1) (AFSDB_Hdr r2) \<longleftrightarrow>
     dup_norm (RR_AFSDB r1) = dup_norm (RR_AFSDB r2)"
  by (cases r1; cases r2) 
    (simp add: AFSDB_isDuplicate_def dup_norms split del: if_split, auto simp: gateway_dup_def IP_Equal_norm isDuplicateName_norm)

lemma AFSDB_dup:
  "AFSDB_isDuplicate r1 rr2 \<and> Hdr_isDuplicate (AFSDB_Hdr r1) (rr_Header rr2) \<longleftrightarrow>
     dup_norm (RR_AFSDB r1) = dup_norm rr2"
proof (cases rr2)
  case (RR_AFSDB r2)
  then show ?thesis using AFSDB_dup_same [of r1 r2] by simp
qed (simp_all add: AFSDB_isDuplicate_def)

lemma AMTRELAY_dup_same:
  "AMTRELAY_isDuplicate r1 (RR_AMTRELAY r2) \<and> Hdr_isDuplicate (AMTRELAY_Hdr r1) (AMTRELAY_Hdr r2) \<longleftrightarrow>
     dup_norm (RR_AMTRELAY r1) = dup_norm (RR_AMTRELAY r2)"
  by (cases r1; cases r2) 
    (simp add: AMTRELAY_isDuplicate_def dup_norms split del: if_split, auto simp: gateway_dup_def IP_Equal_norm isDuplicateName_norm)

lemma AMTRELAY_dup:
  "AMTRELAY_isDuplicate r1 rr2 \<and> Hdr_isDuplicate (AMTRELAY_Hdr r1) (rr_Header rr2) \<longleftrightarrow>
     dup_norm (RR_AMTRELAY r1) = dup_norm rr2"
proof (cases rr2)
  case (RR_AMTRELAY r2)
  then show ?thesis using AMTRELAY_dup_same [of r1 r2] by simp
qed (simp_all add: AMTRELAY_isDuplicate_def)

lemma ANY_dup_same:
  "ANY_isDuplicate r1 (RR_ANY r2) \<and> Hdr_isDuplicate (ANY_Hdr r1) (ANY_Hdr r2) \<longleftrightarrow>
     dup_norm (RR_ANY r1) = dup_norm (RR_ANY r2)"
  by (cases r1; cases r2) 
    (simp add: ANY_isDuplicate_def dup_norms split del: if_split)

lemma ANY_dup:
  "ANY_isDuplicate r1 rr2 \<and> Hdr_isDuplicate (ANY_Hdr r1) (rr_Header rr2) \<longleftrightarrow>
     dup_norm (RR_ANY r1) = dup_norm rr2"
proof (cases rr2)
  case (RR_ANY r2)
  then show ?thesis using ANY_dup_same [of r1 r2] by simp
qed (simp_all add: ANY_isDuplicate_def)

lemma APL_dup_same:
  "APL_isDuplicate r1 (RR_APL r2) \<and> Hdr_isDuplicate (APL_Hdr r1) (APL_Hdr r2) \<longleftrightarrow>
     dup_norm (RR_APL r1) = dup_norm (RR_APL r2)"
  by (cases r1; cases r2) 
    (simp add: APL_isDuplicate_def dup_norms split del: if_split, auto simp: gateway_dup_def IP_Equal_norm isDuplicateName_norm)

lemma APL_dup:
  "APL_isDuplicate r1 rr2 \<and> Hdr_isDuplicate (APL_Hdr r1) (rr_Header rr2) \<longleftrightarrow>
     dup_norm (RR_APL r1) = dup_norm rr2"
proof (cases rr2)
  case (RR_APL r2)
  then show ?thesis using APL_dup_same [of r1 r2] by simp
qed (simp_all add: APL_isDuplicate_def)

lemma AVC_dup_same:
  "AVC_isDuplicate r1 (RR_AVC r2) \<and> Hdr_isDuplicate (AVC_Hdr r1) (AVC_Hdr r2) \<longleftrightarrow>
     dup_norm (RR_AVC r1) = dup_norm (RR_AVC r2)"
  by (cases r1; cases r2) 
    (simp add: AVC_isDuplicate_def dup_norms split del: if_split, auto simp: gateway_dup_def IP_Equal_norm isDuplicateName_norm)

lemma AVC_dup:
  "AVC_isDuplicate r1 rr2 \<and> Hdr_isDuplicate (AVC_Hdr r1) (rr_Header rr2) \<longleftrightarrow>
     dup_norm (RR_AVC r1) = dup_norm rr2"
proof (cases rr2)
  case (RR_AVC r2)
  then show ?thesis using AVC_dup_same [of r1 r2] by simp
qed (simp_all add: AVC_isDuplicate_def)

lemma CAA_dup_same:
  "CAA_isDuplicate r1 (RR_CAA r2) \<and> Hdr_isDuplicate (CAA_Hdr r1) (CAA_Hdr r2) \<longleftrightarrow>
     dup_norm (RR_CAA r1) = dup_norm (RR_CAA r2)"
  by (cases r1; cases r2) 
    (simp add: CAA_isDuplicate_def dup_norms split del: if_split, auto simp: gateway_dup_def IP_Equal_norm isDuplicateName_norm)

lemma CAA_dup:
  "CAA_isDuplicate r1 rr2 \<and> Hdr_isDuplicate (CAA_Hdr r1) (rr_Header rr2) \<longleftrightarrow>
     dup_norm (RR_CAA r1) = dup_norm rr2"
proof (cases rr2)
  case (RR_CAA r2)
  then show ?thesis using CAA_dup_same [of r1 r2] by simp
qed (simp_all add: CAA_isDuplicate_def)

lemma CDNSKEY_dup_same:
  "CDNSKEY_isDuplicate r1 (RR_CDNSKEY r2) \<and> Hdr_isDuplicate (DNSKEY_Hdr r1) (DNSKEY_Hdr r2) \<longleftrightarrow>
     dup_norm (RR_CDNSKEY r1) = dup_norm (RR_CDNSKEY r2)"
  by (cases r1; cases r2) 
    (simp add: CDNSKEY_isDuplicate_def dup_norms split del: if_split, auto simp: gateway_dup_def IP_Equal_norm isDuplicateName_norm)

lemma CDNSKEY_dup:
  "CDNSKEY_isDuplicate r1 rr2 \<and> Hdr_isDuplicate (DNSKEY_Hdr r1) (rr_Header rr2) \<longleftrightarrow>
     dup_norm (RR_CDNSKEY r1) = dup_norm rr2"
proof (cases rr2)
  case (RR_CDNSKEY r2)
  then show ?thesis using CDNSKEY_dup_same [of r1 r2] by simp
qed (simp_all add: CDNSKEY_isDuplicate_def)

lemma CDS_dup_same:
  "CDS_isDuplicate r1 (RR_CDS r2) \<and> Hdr_isDuplicate (DS_Hdr r1) (DS_Hdr r2) \<longleftrightarrow>
     dup_norm (RR_CDS r1) = dup_norm (RR_CDS r2)"
  by (cases r1; cases r2) 
    (simp add: CDS_isDuplicate_def dup_norms split del: if_split, auto simp: gateway_dup_def IP_Equal_norm isDuplicateName_norm)

lemma CDS_dup:
  "CDS_isDuplicate r1 rr2 \<and> Hdr_isDuplicate (DS_Hdr r1) (rr_Header rr2) \<longleftrightarrow>
     dup_norm (RR_CDS r1) = dup_norm rr2"
proof (cases rr2)
  case (RR_CDS r2)
  then show ?thesis using CDS_dup_same [of r1 r2] by simp
qed (simp_all add: CDS_isDuplicate_def)

lemma CERT_dup_same:
  "CERT_isDuplicate r1 (RR_CERT r2) \<and> Hdr_isDuplicate (CERT_Hdr r1) (CERT_Hdr r2) \<longleftrightarrow>
     dup_norm (RR_CERT r1) = dup_norm (RR_CERT r2)"
  by (cases r1; cases r2) 
    (simp add: CERT_isDuplicate_def dup_norms split del: if_split, auto simp: gateway_dup_def IP_Equal_norm isDuplicateName_norm)

lemma CERT_dup:
  "CERT_isDuplicate r1 rr2 \<and> Hdr_isDuplicate (CERT_Hdr r1) (rr_Header rr2) \<longleftrightarrow>
     dup_norm (RR_CERT r1) = dup_norm rr2"
proof (cases rr2)
  case (RR_CERT r2)
  then show ?thesis using CERT_dup_same [of r1 r2] by simp
qed (simp_all add: CERT_isDuplicate_def)

lemma CNAME_dup_same:
  "CNAME_isDuplicate r1 (RR_CNAME r2) \<and> Hdr_isDuplicate (CNAME_Hdr r1) (CNAME_Hdr r2) \<longleftrightarrow>
     dup_norm (RR_CNAME r1) = dup_norm (RR_CNAME r2)"
  by (cases r1; cases r2) 
    (simp add: CNAME_isDuplicate_def dup_norms split del: if_split, auto simp: gateway_dup_def IP_Equal_norm isDuplicateName_norm)

lemma CNAME_dup:
  "CNAME_isDuplicate r1 rr2 \<and> Hdr_isDuplicate (CNAME_Hdr r1) (rr_Header rr2) \<longleftrightarrow>
     dup_norm (RR_CNAME r1) = dup_norm rr2"
proof (cases rr2)
  case (RR_CNAME r2)
  then show ?thesis using CNAME_dup_same [of r1 r2] by simp
qed (simp_all add: CNAME_isDuplicate_def)

lemma CSYNC_dup_same:
  "CSYNC_isDuplicate r1 (RR_CSYNC r2) \<and> Hdr_isDuplicate (CSYNC_Hdr r1) (CSYNC_Hdr r2) \<longleftrightarrow>
     dup_norm (RR_CSYNC r1) = dup_norm (RR_CSYNC r2)"
  by (cases r1; cases r2) 
    (simp add: CSYNC_isDuplicate_def dup_norms split del: if_split, auto simp: gateway_dup_def IP_Equal_norm isDuplicateName_norm)

lemma CSYNC_dup:
  "CSYNC_isDuplicate r1 rr2 \<and> Hdr_isDuplicate (CSYNC_Hdr r1) (rr_Header rr2) \<longleftrightarrow>
     dup_norm (RR_CSYNC r1) = dup_norm rr2"
proof (cases rr2)
  case (RR_CSYNC r2)
  then show ?thesis using CSYNC_dup_same [of r1 r2] by simp
qed (simp_all add: CSYNC_isDuplicate_def)

lemma DHCID_dup_same:
  "DHCID_isDuplicate r1 (RR_DHCID r2) \<and> Hdr_isDuplicate (DHCID_Hdr r1) (DHCID_Hdr r2) \<longleftrightarrow>
     dup_norm (RR_DHCID r1) = dup_norm (RR_DHCID r2)"
  by (cases r1; cases r2) 
    (simp add: DHCID_isDuplicate_def dup_norms split del: if_split, auto simp: gateway_dup_def IP_Equal_norm isDuplicateName_norm)

lemma DHCID_dup:
  "DHCID_isDuplicate r1 rr2 \<and> Hdr_isDuplicate (DHCID_Hdr r1) (rr_Header rr2) \<longleftrightarrow>
     dup_norm (RR_DHCID r1) = dup_norm rr2"
proof (cases rr2)
  case (RR_DHCID r2)
  then show ?thesis using DHCID_dup_same [of r1 r2] by simp
qed (simp_all add: DHCID_isDuplicate_def)

lemma DLV_dup_same:
  "DLV_isDuplicate r1 (RR_DLV r2) \<and> Hdr_isDuplicate (DS_Hdr r1) (DS_Hdr r2) \<longleftrightarrow>
     dup_norm (RR_DLV r1) = dup_norm (RR_DLV r2)"
  by (cases r1; cases r2) 
    (simp add: DLV_isDuplicate_def dup_norms split del: if_split, auto simp: gateway_dup_def IP_Equal_norm isDuplicateName_norm)

lemma DLV_dup:
  "DLV_isDuplicate r1 rr2 \<and> Hdr_isDuplicate (DS_Hdr r1) (rr_Header rr2) \<longleftrightarrow>
     dup_norm (RR_DLV r1) = dup_norm rr2"
proof (cases rr2)
  case (RR_DLV r2)
  then show ?thesis using DLV_dup_same [of r1 r2] by simp
qed (simp_all add: DLV_isDuplicate_def)

lemma DNAME_dup_same:
  "DNAME_isDuplicate r1 (RR_DNAME r2) \<and> Hdr_isDuplicate (DNAME_Hdr r1) (DNAME_Hdr r2) \<longleftrightarrow>
     dup_norm (RR_DNAME r1) = dup_norm (RR_DNAME r2)"
  by (cases r1; cases r2) 
    (simp add: DNAME_isDuplicate_def dup_norms split del: if_split, auto simp: gateway_dup_def IP_Equal_norm isDuplicateName_norm)

lemma DNAME_dup:
  "DNAME_isDuplicate r1 rr2 \<and> Hdr_isDuplicate (DNAME_Hdr r1) (rr_Header rr2) \<longleftrightarrow>
     dup_norm (RR_DNAME r1) = dup_norm rr2"
proof (cases rr2)
  case (RR_DNAME r2)
  then show ?thesis using DNAME_dup_same [of r1 r2] by simp
qed (simp_all add: DNAME_isDuplicate_def)

lemma DNSKEY_dup_same:
  "DNSKEY_isDuplicate r1 (RR_DNSKEY r2) \<and> Hdr_isDuplicate (DNSKEY_Hdr r1) (DNSKEY_Hdr r2) \<longleftrightarrow>
     dup_norm (RR_DNSKEY r1) = dup_norm (RR_DNSKEY r2)"
  by (cases r1; cases r2) 
    (simp add: DNSKEY_isDuplicate_def dup_norms split del: if_split, auto simp: gateway_dup_def IP_Equal_norm isDuplicateName_norm)

lemma DNSKEY_dup:
  "DNSKEY_isDuplicate r1 rr2 \<and> Hdr_isDuplicate (DNSKEY_Hdr r1) (rr_Header rr2) \<longleftrightarrow>
     dup_norm (RR_DNSKEY r1) = dup_norm rr2"
proof (cases rr2)
  case (RR_DNSKEY r2)
  then show ?thesis using DNSKEY_dup_same [of r1 r2] by simp
qed (simp_all add: DNSKEY_isDuplicate_def)

lemma DS_dup_same:
  "DS_isDuplicate r1 (RR_DS r2) \<and> Hdr_isDuplicate (DS_Hdr r1) (DS_Hdr r2) \<longleftrightarrow>
     dup_norm (RR_DS r1) = dup_norm (RR_DS r2)"
  by (cases r1; cases r2) 
    (simp add: DS_isDuplicate_def dup_norms split del: if_split, auto simp: gateway_dup_def IP_Equal_norm isDuplicateName_norm)

lemma DS_dup:
  "DS_isDuplicate r1 rr2 \<and> Hdr_isDuplicate (DS_Hdr r1) (rr_Header rr2) \<longleftrightarrow>
     dup_norm (RR_DS r1) = dup_norm rr2"
proof (cases rr2)
  case (RR_DS r2)
  then show ?thesis using DS_dup_same [of r1 r2] by simp
qed (simp_all add: DS_isDuplicate_def)

lemma EID_dup_same:
  "EID_isDuplicate r1 (RR_EID r2) \<and> Hdr_isDuplicate (EID_Hdr r1) (EID_Hdr r2) \<longleftrightarrow>
     dup_norm (RR_EID r1) = dup_norm (RR_EID r2)"
  by (cases r1; cases r2) 
    (simp add: EID_isDuplicate_def dup_norms split del: if_split, auto simp: gateway_dup_def IP_Equal_norm isDuplicateName_norm)

lemma EID_dup:
  "EID_isDuplicate r1 rr2 \<and> Hdr_isDuplicate (EID_Hdr r1) (rr_Header rr2) \<longleftrightarrow>
     dup_norm (RR_EID r1) = dup_norm rr2"
proof (cases rr2)
  case (RR_EID r2)
  then show ?thesis using EID_dup_same [of r1 r2] by simp
qed (simp_all add: EID_isDuplicate_def)

lemma EUI48_dup_same:
  "EUI48_isDuplicate r1 (RR_EUI48 r2) \<and> Hdr_isDuplicate (EUI48_Hdr r1) (EUI48_Hdr r2) \<longleftrightarrow>
     dup_norm (RR_EUI48 r1) = dup_norm (RR_EUI48 r2)"
  by (cases r1; cases r2) 
    (simp add: EUI48_isDuplicate_def dup_norms split del: if_split, auto simp: gateway_dup_def IP_Equal_norm isDuplicateName_norm)

lemma EUI48_dup:
  "EUI48_isDuplicate r1 rr2 \<and> Hdr_isDuplicate (EUI48_Hdr r1) (rr_Header rr2) \<longleftrightarrow>
     dup_norm (RR_EUI48 r1) = dup_norm rr2"
proof (cases rr2)
  case (RR_EUI48 r2)
  then show ?thesis using EUI48_dup_same [of r1 r2] by simp
qed (simp_all add: EUI48_isDuplicate_def)

lemma EUI64_dup_same:
  "EUI64_isDuplicate r1 (RR_EUI64 r2) \<and> Hdr_isDuplicate (EUI64_Hdr r1) (EUI64_Hdr r2) \<longleftrightarrow>
     dup_norm (RR_EUI64 r1) = dup_norm (RR_EUI64 r2)"
  by (cases r1; cases r2) 
    (simp add: EUI64_isDuplicate_def dup_norms split del: if_split, auto simp: gateway_dup_def IP_Equal_norm isDuplicateName_norm)

lemma EUI64_dup:
  "EUI64_isDuplicate r1 rr2 \<and> Hdr_isDuplicate (EUI64_Hdr r1) (rr_Header rr2) \<longleftrightarrow>
     dup_norm (RR_EUI64 r1) = dup_norm rr2"
proof (cases rr2)
  case (RR_EUI64 r2)
  then show ?thesis using EUI64_dup_same [of r1 r2] by simp
qed (simp_all add: EUI64_isDuplicate_def)

lemma GID_dup_same:
  "GID_isDuplicate r1 (RR_GID r2) \<and> Hdr_isDuplicate (GID_Hdr r1) (GID_Hdr r2) \<longleftrightarrow>
     dup_norm (RR_GID r1) = dup_norm (RR_GID r2)"
  by (cases r1; cases r2) 
    (simp add: GID_isDuplicate_def dup_norms split del: if_split, auto simp: gateway_dup_def IP_Equal_norm isDuplicateName_norm)

lemma GID_dup:
  "GID_isDuplicate r1 rr2 \<and> Hdr_isDuplicate (GID_Hdr r1) (rr_Header rr2) \<longleftrightarrow>
     dup_norm (RR_GID r1) = dup_norm rr2"
proof (cases rr2)
  case (RR_GID r2)
  then show ?thesis using GID_dup_same [of r1 r2] by simp
qed (simp_all add: GID_isDuplicate_def)

lemma GPOS_dup_same:
  "GPOS_isDuplicate r1 (RR_GPOS r2) \<and> Hdr_isDuplicate (GPOS_Hdr r1) (GPOS_Hdr r2) \<longleftrightarrow>
     dup_norm (RR_GPOS r1) = dup_norm (RR_GPOS r2)"
  by (cases r1; cases r2) 
    (simp add: GPOS_isDuplicate_def dup_norms split del: if_split, auto simp: gateway_dup_def IP_Equal_norm isDuplicateName_norm)

lemma GPOS_dup:
  "GPOS_isDuplicate r1 rr2 \<and> Hdr_isDuplicate (GPOS_Hdr r1) (rr_Header rr2) \<longleftrightarrow>
     dup_norm (RR_GPOS r1) = dup_norm rr2"
proof (cases rr2)
  case (RR_GPOS r2)
  then show ?thesis using GPOS_dup_same [of r1 r2] by simp
qed (simp_all add: GPOS_isDuplicate_def)

lemma HINFO_dup_same:
  "HINFO_isDuplicate r1 (RR_HINFO r2) \<and> Hdr_isDuplicate (HINFO_Hdr r1) (HINFO_Hdr r2) \<longleftrightarrow>
     dup_norm (RR_HINFO r1) = dup_norm (RR_HINFO r2)"
  by (cases r1; cases r2) 
    (simp add: HINFO_isDuplicate_def dup_norms split del: if_split, auto simp: gateway_dup_def IP_Equal_norm isDuplicateName_norm)

lemma HINFO_dup:
  "HINFO_isDuplicate r1 rr2 \<and> Hdr_isDuplicate (HINFO_Hdr r1) (rr_Header rr2) \<longleftrightarrow>
     dup_norm (RR_HINFO r1) = dup_norm rr2"
proof (cases rr2)
  case (RR_HINFO r2)
  then show ?thesis using HINFO_dup_same [of r1 r2] by simp
qed (simp_all add: HINFO_isDuplicate_def)

lemma HIP_dup_same:
  "HIP_isDuplicate r1 (RR_HIP r2) \<and> Hdr_isDuplicate (HIP_Hdr r1) (HIP_Hdr r2) \<longleftrightarrow>
     dup_norm (RR_HIP r1) = dup_norm (RR_HIP r2)"
  by (cases r1; cases r2) 
    (simp add: HIP_isDuplicate_def dup_norms split del: if_split, auto simp: gateway_dup_def IP_Equal_norm isDuplicateName_norm)

lemma HIP_dup:
  "HIP_isDuplicate r1 rr2 \<and> Hdr_isDuplicate (HIP_Hdr r1) (rr_Header rr2) \<longleftrightarrow>
     dup_norm (RR_HIP r1) = dup_norm rr2"
proof (cases rr2)
  case (RR_HIP r2)
  then show ?thesis using HIP_dup_same [of r1 r2] by simp
qed (simp_all add: HIP_isDuplicate_def)

lemma IPSECKEY_dup_same:
  "IPSECKEY_isDuplicate r1 (RR_IPSECKEY r2) \<and> Hdr_isDuplicate (IPSECKEY_Hdr r1) (IPSECKEY_Hdr r2) \<longleftrightarrow>
     dup_norm (RR_IPSECKEY r1) = dup_norm (RR_IPSECKEY r2)"
  by (cases r1; cases r2) 
    (simp add: IPSECKEY_isDuplicate_def dup_norms split del: if_split, auto simp: gateway_dup_def IP_Equal_norm isDuplicateName_norm)

lemma IPSECKEY_dup:
  "IPSECKEY_isDuplicate r1 rr2 \<and> Hdr_isDuplicate (IPSECKEY_Hdr r1) (rr_Header rr2) \<longleftrightarrow>
     dup_norm (RR_IPSECKEY r1) = dup_norm rr2"
proof (cases rr2)
  case (RR_IPSECKEY r2)
  then show ?thesis using IPSECKEY_dup_same [of r1 r2] by simp
qed (simp_all add: IPSECKEY_isDuplicate_def)

lemma ISDN_dup_same:
  "ISDN_isDuplicate r1 (RR_ISDN r2) \<and> Hdr_isDuplicate (ISDN_Hdr r1) (ISDN_Hdr r2) \<longleftrightarrow>
     dup_norm (RR_ISDN r1) = dup_norm (RR_ISDN r2)"
  by (cases r1; cases r2) 
    (simp add: ISDN_isDuplicate_def dup_norms split del: if_split, auto simp: gateway_dup_def IP_Equal_norm isDuplicateName_norm)

lemma ISDN_dup:
  "ISDN_isDuplicate r1 rr2 \<and> Hdr_isDuplicate (ISDN_Hdr r1) (rr_Header rr2) \<longleftrightarrow>
     dup_norm (RR_ISDN r1) = dup_norm rr2"
proof (cases rr2)
  case (RR_ISDN r2)
  then show ?thesis using ISDN_dup_same [of r1 r2] by simp
qed (simp_all add: ISDN_isDuplicate_def)

lemma KEY_dup_same:
  "KEY_isDuplicate r1 (RR_KEY r2) \<and> Hdr_isDuplicate (DNSKEY_Hdr r1) (DNSKEY_Hdr r2) \<longleftrightarrow>
     dup_norm (RR_KEY r1) = dup_norm (RR_KEY r2)"
  by (cases r1; cases r2) 
    (simp add: KEY_isDuplicate_def dup_norms split del: if_split, auto simp: gateway_dup_def IP_Equal_norm isDuplicateName_norm)

lemma KEY_dup:
  "KEY_isDuplicate r1 rr2 \<and> Hdr_isDuplicate (DNSKEY_Hdr r1) (rr_Header rr2) \<longleftrightarrow>
     dup_norm (RR_KEY r1) = dup_norm rr2"
proof (cases rr2)
  case (RR_KEY r2)
  then show ?thesis using KEY_dup_same [of r1 r2] by simp
qed (simp_all add: KEY_isDuplicate_def)

lemma KX_dup_same:
  "KX_isDuplicate r1 (RR_KX r2) \<and> Hdr_isDuplicate (KX_Hdr r1) (KX_Hdr r2) \<longleftrightarrow>
     dup_norm (RR_KX r1) = dup_norm (RR_KX r2)"
  by (cases r1; cases r2) 
    (simp add: KX_isDuplicate_def dup_norms split del: if_split, auto simp: gateway_dup_def IP_Equal_norm isDuplicateName_norm)

lemma KX_dup:
  "KX_isDuplicate r1 rr2 \<and> Hdr_isDuplicate (KX_Hdr r1) (rr_Header rr2) \<longleftrightarrow>
     dup_norm (RR_KX r1) = dup_norm rr2"
proof (cases rr2)
  case (RR_KX r2)
  then show ?thesis using KX_dup_same [of r1 r2] by simp
qed (simp_all add: KX_isDuplicate_def)

lemma L32_dup_same:
  "L32_isDuplicate r1 (RR_L32 r2) \<and> Hdr_isDuplicate (L32_Hdr r1) (L32_Hdr r2) \<longleftrightarrow>
     dup_norm (RR_L32 r1) = dup_norm (RR_L32 r2)"
  by (cases r1; cases r2) 
    (simp add: L32_isDuplicate_def dup_norms split del: if_split, auto simp: gateway_dup_def IP_Equal_norm isDuplicateName_norm)

lemma L32_dup:
  "L32_isDuplicate r1 rr2 \<and> Hdr_isDuplicate (L32_Hdr r1) (rr_Header rr2) \<longleftrightarrow>
     dup_norm (RR_L32 r1) = dup_norm rr2"
proof (cases rr2)
  case (RR_L32 r2)
  then show ?thesis using L32_dup_same [of r1 r2] by simp
qed (simp_all add: L32_isDuplicate_def)

lemma L64_dup_same:
  "L64_isDuplicate r1 (RR_L64 r2) \<and> Hdr_isDuplicate (L64_Hdr r1) (L64_Hdr r2) \<longleftrightarrow>
     dup_norm (RR_L64 r1) = dup_norm (RR_L64 r2)"
  by (cases r1; cases r2) 
    (simp add: L64_isDuplicate_def dup_norms split del: if_split, auto simp: gateway_dup_def IP_Equal_norm isDuplicateName_norm)

lemma L64_dup:
  "L64_isDuplicate r1 rr2 \<and> Hdr_isDuplicate (L64_Hdr r1) (rr_Header rr2) \<longleftrightarrow>
     dup_norm (RR_L64 r1) = dup_norm rr2"
proof (cases rr2)
  case (RR_L64 r2)
  then show ?thesis using L64_dup_same [of r1 r2] by simp
qed (simp_all add: L64_isDuplicate_def)

lemma LOC_dup_same:
  "LOC_isDuplicate r1 (RR_LOC r2) \<and> Hdr_isDuplicate (LOC_Hdr r1) (LOC_Hdr r2) \<longleftrightarrow>
     dup_norm (RR_LOC r1) = dup_norm (RR_LOC r2)"
  by (cases r1; cases r2) 
    (simp add: LOC_isDuplicate_def dup_norms split del: if_split, auto simp: gateway_dup_def IP_Equal_norm isDuplicateName_norm)

lemma LOC_dup:
  "LOC_isDuplicate r1 rr2 \<and> Hdr_isDuplicate (LOC_Hdr r1) (rr_Header rr2) \<longleftrightarrow>
     dup_norm (RR_LOC r1) = dup_norm rr2"
proof (cases rr2)
  case (RR_LOC r2)
  then show ?thesis using LOC_dup_same [of r1 r2] by simp
qed (simp_all add: LOC_isDuplicate_def)

lemma LP_dup_same:
  "LP_isDuplicate r1 (RR_LP r2) \<and> Hdr_isDuplicate (LP_Hdr r1) (LP_Hdr r2) \<longleftrightarrow>
     dup_norm (RR_LP r1) = dup_norm (RR_LP r2)"
  by (cases r1; cases r2) 
    (simp add: LP_isDuplicate_def dup_norms split del: if_split, auto simp: gateway_dup_def IP_Equal_norm isDuplicateName_norm)

lemma LP_dup:
  "LP_isDuplicate r1 rr2 \<and> Hdr_isDuplicate (LP_Hdr r1) (rr_Header rr2) \<longleftrightarrow>
     dup_norm (RR_LP r1) = dup_norm rr2"
proof (cases rr2)
  case (RR_LP r2)
  then show ?thesis using LP_dup_same [of r1 r2] by simp
qed (simp_all add: LP_isDuplicate_def)

lemma MB_dup_same:
  "MB_isDuplicate r1 (RR_MB r2) \<and> Hdr_isDuplicate (MB_Hdr r1) (MB_Hdr r2) \<longleftrightarrow>
     dup_norm (RR_MB r1) = dup_norm (RR_MB r2)"
  by (cases r1; cases r2) 
    (simp add: MB_isDuplicate_def dup_norms split del: if_split, auto simp: gateway_dup_def IP_Equal_norm isDuplicateName_norm)

lemma MB_dup:
  "MB_isDuplicate r1 rr2 \<and> Hdr_isDuplicate (MB_Hdr r1) (rr_Header rr2) \<longleftrightarrow>
     dup_norm (RR_MB r1) = dup_norm rr2"
proof (cases rr2)
  case (RR_MB r2)
  then show ?thesis using MB_dup_same [of r1 r2] by simp
qed (simp_all add: MB_isDuplicate_def)

lemma MD_dup_same:
  "MD_isDuplicate r1 (RR_MD r2) \<and> Hdr_isDuplicate (MD_Hdr r1) (MD_Hdr r2) \<longleftrightarrow>
     dup_norm (RR_MD r1) = dup_norm (RR_MD r2)"
  by (cases r1; cases r2) 
    (simp add: MD_isDuplicate_def dup_norms split del: if_split, auto simp: gateway_dup_def IP_Equal_norm isDuplicateName_norm)

lemma MD_dup:
  "MD_isDuplicate r1 rr2 \<and> Hdr_isDuplicate (MD_Hdr r1) (rr_Header rr2) \<longleftrightarrow>
     dup_norm (RR_MD r1) = dup_norm rr2"
proof (cases rr2)
  case (RR_MD r2)
  then show ?thesis using MD_dup_same [of r1 r2] by simp
qed (simp_all add: MD_isDuplicate_def)

lemma MF_dup_same:
  "MF_isDuplicate r1 (RR_MF r2) \<and> Hdr_isDuplicate (MF_Hdr r1) (MF_Hdr r2) \<longleftrightarrow>
     dup_norm (RR_MF r1) = dup_norm (RR_MF r2)"
  by (cases r1; cases r2) 
    (simp add: MF_isDuplicate_def dup_norms split del: if_split, auto simp: gateway_dup_def IP_Equal_norm isDuplicateName_norm)

lemma MF_dup:
  "MF_isDuplicate r1 rr2 \<and> Hdr_isDuplicate (MF_Hdr r1) (rr_Header rr2) \<longleftrightarrow>
     dup_norm (RR_MF r1) = dup_norm rr2"
proof (cases rr2)
  case (RR_MF r2)
  then show ?thesis using MF_dup_same [of r1 r2] by simp
qed (simp_all add: MF_isDuplicate_def)

lemma MG_dup_same:
  "MG_isDuplicate r1 (RR_MG r2) \<and> Hdr_isDuplicate (MG_Hdr r1) (MG_Hdr r2) \<longleftrightarrow>
     dup_norm (RR_MG r1) = dup_norm (RR_MG r2)"
  by (cases r1; cases r2) 
    (simp add: MG_isDuplicate_def dup_norms split del: if_split, auto simp: gateway_dup_def IP_Equal_norm isDuplicateName_norm)

lemma MG_dup:
  "MG_isDuplicate r1 rr2 \<and> Hdr_isDuplicate (MG_Hdr r1) (rr_Header rr2) \<longleftrightarrow>
     dup_norm (RR_MG r1) = dup_norm rr2"
proof (cases rr2)
  case (RR_MG r2)
  then show ?thesis using MG_dup_same [of r1 r2] by simp
qed (simp_all add: MG_isDuplicate_def)

lemma MINFO_dup_same:
  "MINFO_isDuplicate r1 (RR_MINFO r2) \<and> Hdr_isDuplicate (MINFO_Hdr r1) (MINFO_Hdr r2) \<longleftrightarrow>
     dup_norm (RR_MINFO r1) = dup_norm (RR_MINFO r2)"
  by (cases r1; cases r2) 
    (simp add: MINFO_isDuplicate_def dup_norms split del: if_split, auto simp: gateway_dup_def IP_Equal_norm isDuplicateName_norm)

lemma MINFO_dup:
  "MINFO_isDuplicate r1 rr2 \<and> Hdr_isDuplicate (MINFO_Hdr r1) (rr_Header rr2) \<longleftrightarrow>
     dup_norm (RR_MINFO r1) = dup_norm rr2"
proof (cases rr2)
  case (RR_MINFO r2)
  then show ?thesis using MINFO_dup_same [of r1 r2] by simp
qed (simp_all add: MINFO_isDuplicate_def)

lemma MR_dup_same:
  "MR_isDuplicate r1 (RR_MR r2) \<and> Hdr_isDuplicate (MR_Hdr r1) (MR_Hdr r2) \<longleftrightarrow>
     dup_norm (RR_MR r1) = dup_norm (RR_MR r2)"
  by (cases r1; cases r2) 
    (simp add: MR_isDuplicate_def dup_norms split del: if_split, auto simp: gateway_dup_def IP_Equal_norm isDuplicateName_norm)

lemma MR_dup:
  "MR_isDuplicate r1 rr2 \<and> Hdr_isDuplicate (MR_Hdr r1) (rr_Header rr2) \<longleftrightarrow>
     dup_norm (RR_MR r1) = dup_norm rr2"
proof (cases rr2)
  case (RR_MR r2)
  then show ?thesis using MR_dup_same [of r1 r2] by simp
qed (simp_all add: MR_isDuplicate_def)

lemma MX_dup_same:
  "MX_isDuplicate r1 (RR_MX r2) \<and> Hdr_isDuplicate (MX_Hdr r1) (MX_Hdr r2) \<longleftrightarrow>
     dup_norm (RR_MX r1) = dup_norm (RR_MX r2)"
  by (cases r1; cases r2) 
    (simp add: MX_isDuplicate_def dup_norms split del: if_split, auto simp: gateway_dup_def IP_Equal_norm isDuplicateName_norm)

lemma MX_dup:
  "MX_isDuplicate r1 rr2 \<and> Hdr_isDuplicate (MX_Hdr r1) (rr_Header rr2) \<longleftrightarrow>
     dup_norm (RR_MX r1) = dup_norm rr2"
proof (cases rr2)
  case (RR_MX r2)
  then show ?thesis using MX_dup_same [of r1 r2] by simp
qed (simp_all add: MX_isDuplicate_def)

lemma NAPTR_dup_same:
  "NAPTR_isDuplicate r1 (RR_NAPTR r2) \<and> Hdr_isDuplicate (NAPTR_Hdr r1) (NAPTR_Hdr r2) \<longleftrightarrow>
     dup_norm (RR_NAPTR r1) = dup_norm (RR_NAPTR r2)"
  by (cases r1; cases r2) 
    (simp add: NAPTR_isDuplicate_def dup_norms split del: if_split, auto simp: gateway_dup_def IP_Equal_norm isDuplicateName_norm)

lemma NAPTR_dup:
  "NAPTR_isDuplicate r1 rr2 \<and> Hdr_isDuplicate (NAPTR_Hdr r1) (rr_Header rr2) \<longleftrightarrow>
     dup_norm (RR_NAPTR r1) = dup_norm rr2"
proof (cases rr2)
  case (RR_NAPTR r2)
  then show ?thesis using NAPTR_dup_same [of r1 r2] by simp
qed (simp_all add: NAPTR_isDuplicate_def)

lemma NID_dup_same:
  "NID_isDuplicate r1 (RR_NID r2) \<and> Hdr_isDuplicate (NID_Hdr r1) (NID_Hdr r2) \<longleftrightarrow>
     dup_norm (RR_NID r1) = dup_norm (RR_NID r2)"
  by (cases r1; cases r2) 
    (simp add: NID_isDuplicate_def dup_norms split del: if_split, auto simp: gateway_dup_def IP_Equal_norm isDuplicateName_norm)

lemma NID_dup:
  "NID_isDuplicate r1 rr2 \<and> Hdr_isDuplicate (NID_Hdr r1) (rr_Header rr2) \<longleftrightarrow>
     dup_norm (RR_NID r1) = dup_norm rr2"
proof (cases rr2)
  case (RR_NID r2)
  then show ?thesis using NID_dup_same [of r1 r2] by simp
qed (simp_all add: NID_isDuplicate_def)

lemma NIMLOC_dup_same:
  "NIMLOC_isDuplicate r1 (RR_NIMLOC r2) \<and> Hdr_isDuplicate (NIMLOC_Hdr r1) (NIMLOC_Hdr r2) \<longleftrightarrow>
     dup_norm (RR_NIMLOC r1) = dup_norm (RR_NIMLOC r2)"
  by (cases r1; cases r2) 
    (simp add: NIMLOC_isDuplicate_def dup_norms split del: if_split, auto simp: gateway_dup_def IP_Equal_norm isDuplicateName_norm)

lemma NIMLOC_dup:
  "NIMLOC_isDuplicate r1 rr2 \<and> Hdr_isDuplicate (NIMLOC_Hdr r1) (rr_Header rr2) \<longleftrightarrow>
     dup_norm (RR_NIMLOC r1) = dup_norm rr2"
proof (cases rr2)
  case (RR_NIMLOC r2)
  then show ?thesis using NIMLOC_dup_same [of r1 r2] by simp
qed (simp_all add: NIMLOC_isDuplicate_def)

lemma NINFO_dup_same:
  "NINFO_isDuplicate r1 (RR_NINFO r2) \<and> Hdr_isDuplicate (NINFO_Hdr r1) (NINFO_Hdr r2) \<longleftrightarrow>
     dup_norm (RR_NINFO r1) = dup_norm (RR_NINFO r2)"
  by (cases r1; cases r2) 
    (simp add: NINFO_isDuplicate_def dup_norms split del: if_split, auto simp: gateway_dup_def IP_Equal_norm isDuplicateName_norm)

lemma NINFO_dup:
  "NINFO_isDuplicate r1 rr2 \<and> Hdr_isDuplicate (NINFO_Hdr r1) (rr_Header rr2) \<longleftrightarrow>
     dup_norm (RR_NINFO r1) = dup_norm rr2"
proof (cases rr2)
  case (RR_NINFO r2)
  then show ?thesis using NINFO_dup_same [of r1 r2] by simp
qed (simp_all add: NINFO_isDuplicate_def)

lemma NS_dup_same:
  "NS_isDuplicate r1 (RR_NS r2) \<and> Hdr_isDuplicate (NS_Hdr r1) (NS_Hdr r2) \<longleftrightarrow>
     dup_norm (RR_NS r1) = dup_norm (RR_NS r2)"
  by (cases r1; cases r2) 
    (simp add: NS_isDuplicate_def dup_norms split del: if_split, auto simp: gateway_dup_def IP_Equal_norm isDuplicateName_norm)

lemma NS_dup:
  "NS_isDuplicate r1 rr2 \<and> Hdr_isDuplicate (NS_Hdr r1) (rr_Header rr2) \<longleftrightarrow>
     dup_norm (RR_NS r1) = dup_norm rr2"
proof (cases rr2)
  case (RR_NS r2)
  then show ?thesis using NS_dup_same [of r1 r2] by simp
qed (simp_all add: NS_isDuplicate_def)

lemma NSAPPTR_dup_same:
  "NSAPPTR_isDuplicate r1 (RR_NSAPPTR r2) \<and> Hdr_isDuplicate (NSAPPTR_Hdr r1) (NSAPPTR_Hdr r2) \<longleftrightarrow>
     dup_norm (RR_NSAPPTR r1) = dup_norm (RR_NSAPPTR r2)"
  by (cases r1; cases r2) 
    (simp add: NSAPPTR_isDuplicate_def dup_norms split del: if_split, auto simp: gateway_dup_def IP_Equal_norm isDuplicateName_norm)

lemma NSAPPTR_dup:
  "NSAPPTR_isDuplicate r1 rr2 \<and> Hdr_isDuplicate (NSAPPTR_Hdr r1) (rr_Header rr2) \<longleftrightarrow>
     dup_norm (RR_NSAPPTR r1) = dup_norm rr2"
proof (cases rr2)
  case (RR_NSAPPTR r2)
  then show ?thesis using NSAPPTR_dup_same [of r1 r2] by simp
qed (simp_all add: NSAPPTR_isDuplicate_def)

lemma NSEC_dup_same:
  "NSEC_isDuplicate r1 (RR_NSEC r2) \<and> Hdr_isDuplicate (NSEC_Hdr r1) (NSEC_Hdr r2) \<longleftrightarrow>
     dup_norm (RR_NSEC r1) = dup_norm (RR_NSEC r2)"
  by (cases r1; cases r2) 
    (simp add: NSEC_isDuplicate_def dup_norms split del: if_split, auto simp: gateway_dup_def IP_Equal_norm isDuplicateName_norm)

lemma NSEC_dup:
  "NSEC_isDuplicate r1 rr2 \<and> Hdr_isDuplicate (NSEC_Hdr r1) (rr_Header rr2) \<longleftrightarrow>
     dup_norm (RR_NSEC r1) = dup_norm rr2"
proof (cases rr2)
  case (RR_NSEC r2)
  then show ?thesis using NSEC_dup_same [of r1 r2] by simp
qed (simp_all add: NSEC_isDuplicate_def)

lemma NSEC3_dup_same:
  "NSEC3_isDuplicate r1 (RR_NSEC3 r2) \<and> Hdr_isDuplicate (NSEC3_Hdr r1) (NSEC3_Hdr r2) \<longleftrightarrow>
     dup_norm (RR_NSEC3 r1) = dup_norm (RR_NSEC3 r2)"
  by (cases r1; cases r2) 
    (simp add: NSEC3_isDuplicate_def dup_norms split del: if_split, auto simp: gateway_dup_def IP_Equal_norm isDuplicateName_norm)

lemma NSEC3_dup:
  "NSEC3_isDuplicate r1 rr2 \<and> Hdr_isDuplicate (NSEC3_Hdr r1) (rr_Header rr2) \<longleftrightarrow>
     dup_norm (RR_NSEC3 r1) = dup_norm rr2"
proof (cases rr2)
  case (RR_NSEC3 r2)
  then show ?thesis using NSEC3_dup_same [of r1 r2] by simp
qed (simp_all add: NSEC3_isDuplicate_def)

lemma NSEC3PARAM_dup_same:
  "NSEC3PARAM_isDuplicate r1 (RR_NSEC3PARAM r2) \<and> Hdr_isDuplicate (NSEC3PARAM_Hdr r1) (NSEC3PARAM_Hdr r2) \<longleftrightarrow>
     dup_norm (RR_NSEC3PARAM r1) = dup_norm (RR_NSEC3PARAM r2)"
  by (cases r1; cases r2) 
    (simp add: NSEC3PARAM_isDuplicate_def dup_norms split del: if_split, auto simp: gateway_dup_def IP_Equal_norm isDuplicateName_norm)

lemma NSEC3PARAM_dup:
  "NSEC3PARAM_isDuplicate r1 rr2 \<and> Hdr_isDuplicate (NSEC3PARAM_Hdr r1) (rr_Header rr2) \<longleftrightarrow>
     dup_norm (RR_NSEC3PARAM r1) = dup_norm rr2"
proof (cases rr2)
  case (RR_NSEC3PARAM r2)
  then show ?thesis using NSEC3PARAM_dup_same [of r1 r2] by simp
qed (simp_all add: NSEC3PARAM_isDuplicate_def)

lemma NULL_dup_same:
  "NULL_isDuplicate r1 (RR_NULL r2) \<and> Hdr_isDuplicate (NULL_Hdr r1) (NULL_Hdr r2) \<longleftrightarrow>
     dup_norm (RR_NULL r1) = dup_norm (RR_NULL r2)"
  by (cases r1; cases r2) 
    (simp add: NULL_isDuplicate_def dup_norms split del: if_split, auto simp: gateway_dup_def IP_Equal_norm isDuplicateName_norm)

lemma NULL_dup:
  "NULL_isDuplicate r1 rr2 \<and> Hdr_isDuplicate (NULL_Hdr r1) (rr_Header rr2) \<longleftrightarrow>
     dup_norm (RR_NULL r1) = dup_norm rr2"
proof (cases rr2)
  case (RR_NULL r2)
  then show ?thesis using NULL_dup_same [of r1 r2] by simp
qed (simp_all add: NULL_isDuplicate_def)

lemma NXNAME_dup_same:
  "NXNAME_isDuplicate r1 (RR_NXNAME r2) \<and> Hdr_isDuplicate (NXNAME_Hdr r1) (NXNAME_Hdr r2) \<longleftrightarrow>
     dup_norm (RR_NXNAME r1) = dup_norm (RR_NXNAME r2)"
  by (cases r1; cases r2) 
    (simp add: NXNAME_isDuplicate_def dup_norms split del: if_split)

lemma NXNAME_dup:
  "NXNAME_isDuplicate r1 rr2 \<and> Hdr_isDuplicate (NXNAME_Hdr r1) (rr_Header rr2) \<longleftrightarrow>
     dup_norm (RR_NXNAME r1) = dup_norm rr2"
proof (cases rr2)
  case (RR_NXNAME r2)
  then show ?thesis using NXNAME_dup_same [of r1 r2] by simp
qed (simp_all add: NXNAME_isDuplicate_def)

lemma NXT_dup_same:
  "NXT_isDuplicate r1 (RR_NXT r2) \<and> Hdr_isDuplicate (NSEC_Hdr r1) (NSEC_Hdr r2) \<longleftrightarrow>
     dup_norm (RR_NXT r1) = dup_norm (RR_NXT r2)"
  by (cases r1; cases r2) 
    (simp add: NXT_isDuplicate_def dup_norms split del: if_split, auto simp: gateway_dup_def IP_Equal_norm isDuplicateName_norm)

lemma NXT_dup:
  "NXT_isDuplicate r1 rr2 \<and> Hdr_isDuplicate (NSEC_Hdr r1) (rr_Header rr2) \<longleftrightarrow>
     dup_norm (RR_NXT r1) = dup_norm rr2"
proof (cases rr2)
  case (RR_NXT r2)
  then show ?thesis using NXT_dup_same [of r1 r2] by simp
qed (simp_all add: NXT_isDuplicate_def)

lemma OPENPGPKEY_dup_same:
  "OPENPGPKEY_isDuplicate r1 (RR_OPENPGPKEY r2) \<and> Hdr_isDuplicate (OPENPGPKEY_Hdr r1) (OPENPGPKEY_Hdr r2) \<longleftrightarrow>
     dup_norm (RR_OPENPGPKEY r1) = dup_norm (RR_OPENPGPKEY r2)"
  by (cases r1; cases r2) 
    (simp add: OPENPGPKEY_isDuplicate_def dup_norms split del: if_split, auto simp: gateway_dup_def IP_Equal_norm isDuplicateName_norm)

lemma OPENPGPKEY_dup:
  "OPENPGPKEY_isDuplicate r1 rr2 \<and> Hdr_isDuplicate (OPENPGPKEY_Hdr r1) (rr_Header rr2) \<longleftrightarrow>
     dup_norm (RR_OPENPGPKEY r1) = dup_norm rr2"
proof (cases rr2)
  case (RR_OPENPGPKEY r2)
  then show ?thesis using OPENPGPKEY_dup_same [of r1 r2] by simp
qed (simp_all add: OPENPGPKEY_isDuplicate_def)

lemma PTR_dup_same:
  "PTR_isDuplicate r1 (RR_PTR r2) \<and> Hdr_isDuplicate (PTR_Hdr r1) (PTR_Hdr r2) \<longleftrightarrow>
     dup_norm (RR_PTR r1) = dup_norm (RR_PTR r2)"
  by (cases r1; cases r2) 
    (simp add: PTR_isDuplicate_def dup_norms split del: if_split, auto simp: gateway_dup_def IP_Equal_norm isDuplicateName_norm)

lemma PTR_dup:
  "PTR_isDuplicate r1 rr2 \<and> Hdr_isDuplicate (PTR_Hdr r1) (rr_Header rr2) \<longleftrightarrow>
     dup_norm (RR_PTR r1) = dup_norm rr2"
proof (cases rr2)
  case (RR_PTR r2)
  then show ?thesis using PTR_dup_same [of r1 r2] by simp
qed (simp_all add: PTR_isDuplicate_def)

lemma PX_dup_same:
  "PX_isDuplicate r1 (RR_PX r2) \<and> Hdr_isDuplicate (PX_Hdr r1) (PX_Hdr r2) \<longleftrightarrow>
     dup_norm (RR_PX r1) = dup_norm (RR_PX r2)"
  by (cases r1; cases r2) 
    (simp add: PX_isDuplicate_def dup_norms split del: if_split, auto simp: gateway_dup_def IP_Equal_norm isDuplicateName_norm)

lemma PX_dup:
  "PX_isDuplicate r1 rr2 \<and> Hdr_isDuplicate (PX_Hdr r1) (rr_Header rr2) \<longleftrightarrow>
     dup_norm (RR_PX r1) = dup_norm rr2"
proof (cases rr2)
  case (RR_PX r2)
  then show ?thesis using PX_dup_same [of r1 r2] by simp
qed (simp_all add: PX_isDuplicate_def)

lemma RESINFO_dup_same:
  "RESINFO_isDuplicate r1 (RR_RESINFO r2) \<and> Hdr_isDuplicate (RESINFO_Hdr r1) (RESINFO_Hdr r2) \<longleftrightarrow>
     dup_norm (RR_RESINFO r1) = dup_norm (RR_RESINFO r2)"
  by (cases r1; cases r2) 
    (simp add: RESINFO_isDuplicate_def dup_norms split del: if_split, auto simp: gateway_dup_def IP_Equal_norm isDuplicateName_norm)

lemma RESINFO_dup:
  "RESINFO_isDuplicate r1 rr2 \<and> Hdr_isDuplicate (RESINFO_Hdr r1) (rr_Header rr2) \<longleftrightarrow>
     dup_norm (RR_RESINFO r1) = dup_norm rr2"
proof (cases rr2)
  case (RR_RESINFO r2)
  then show ?thesis using RESINFO_dup_same [of r1 r2] by simp
qed (simp_all add: RESINFO_isDuplicate_def)

lemma RFC3597_dup_same:
  "RFC3597_isDuplicate r1 (RR_RFC3597 r2) \<and> Hdr_isDuplicate (RFC3597_Hdr r1) (RFC3597_Hdr r2) \<longleftrightarrow>
     dup_norm (RR_RFC3597 r1) = dup_norm (RR_RFC3597 r2)"
  by (cases r1; cases r2) 
    (simp add: RFC3597_isDuplicate_def dup_norms split del: if_split, auto simp: gateway_dup_def IP_Equal_norm isDuplicateName_norm)

lemma RFC3597_dup:
  "RFC3597_isDuplicate r1 rr2 \<and> Hdr_isDuplicate (RFC3597_Hdr r1) (rr_Header rr2) \<longleftrightarrow>
     dup_norm (RR_RFC3597 r1) = dup_norm rr2"
proof (cases rr2)
  case (RR_RFC3597 r2)
  then show ?thesis using RFC3597_dup_same [of r1 r2] by simp
qed (simp_all add: RFC3597_isDuplicate_def)

lemma RKEY_dup_same:
  "RKEY_isDuplicate r1 (RR_RKEY r2) \<and> Hdr_isDuplicate (RKEY_Hdr r1) (RKEY_Hdr r2) \<longleftrightarrow>
     dup_norm (RR_RKEY r1) = dup_norm (RR_RKEY r2)"
  by (cases r1; cases r2) 
    (simp add: RKEY_isDuplicate_def dup_norms split del: if_split, auto simp: gateway_dup_def IP_Equal_norm isDuplicateName_norm)

lemma RKEY_dup:
  "RKEY_isDuplicate r1 rr2 \<and> Hdr_isDuplicate (RKEY_Hdr r1) (rr_Header rr2) \<longleftrightarrow>
     dup_norm (RR_RKEY r1) = dup_norm rr2"
proof (cases rr2)
  case (RR_RKEY r2)
  then show ?thesis using RKEY_dup_same [of r1 r2] by simp
qed (simp_all add: RKEY_isDuplicate_def)

lemma RP_dup_same:
  "RP_isDuplicate r1 (RR_RP r2) \<and> Hdr_isDuplicate (RP_Hdr r1) (RP_Hdr r2) \<longleftrightarrow>
     dup_norm (RR_RP r1) = dup_norm (RR_RP r2)"
  by (cases r1; cases r2) 
    (simp add: RP_isDuplicate_def dup_norms split del: if_split, auto simp: gateway_dup_def IP_Equal_norm isDuplicateName_norm)

lemma RP_dup:
  "RP_isDuplicate r1 rr2 \<and> Hdr_isDuplicate (RP_Hdr r1) (rr_Header rr2) \<longleftrightarrow>
     dup_norm (RR_RP r1) = dup_norm rr2"
proof (cases rr2)
  case (RR_RP r2)
  then show ?thesis using RP_dup_same [of r1 r2] by simp
qed (simp_all add: RP_isDuplicate_def)

lemma RRSIG_dup_same:
  "RRSIG_isDuplicate r1 (RR_RRSIG r2) \<and> Hdr_isDuplicate (RRSIG_Hdr r1) (RRSIG_Hdr r2) \<longleftrightarrow>
     dup_norm (RR_RRSIG r1) = dup_norm (RR_RRSIG r2)"
  by (cases r1; cases r2) 
    (simp add: RRSIG_isDuplicate_def dup_norms split del: if_split, auto simp: gateway_dup_def IP_Equal_norm isDuplicateName_norm)

lemma RRSIG_dup:
  "RRSIG_isDuplicate r1 rr2 \<and> Hdr_isDuplicate (RRSIG_Hdr r1) (rr_Header rr2) \<longleftrightarrow>
     dup_norm (RR_RRSIG r1) = dup_norm rr2"
proof (cases rr2)
  case (RR_RRSIG r2)
  then show ?thesis using RRSIG_dup_same [of r1 r2] by simp
qed (simp_all add: RRSIG_isDuplicate_def)

lemma RT_dup_same:
  "RT_isDuplicate r1 (RR_RT r2) \<and> Hdr_isDuplicate (RT_Hdr r1) (RT_Hdr r2) \<longleftrightarrow>
     dup_norm (RR_RT r1) = dup_norm (RR_RT r2)"
  by (cases r1; cases r2) 
    (simp add: RT_isDuplicate_def dup_norms split del: if_split, auto simp: gateway_dup_def IP_Equal_norm isDuplicateName_norm)

lemma RT_dup:
  "RT_isDuplicate r1 rr2 \<and> Hdr_isDuplicate (RT_Hdr r1) (rr_Header rr2) \<longleftrightarrow>
     dup_norm (RR_RT r1) = dup_norm rr2"
proof (cases rr2)
  case (RR_RT r2)
  then show ?thesis using RT_dup_same [of r1 r2] by simp
qed (simp_all add: RT_isDuplicate_def)

lemma SIG_dup_same:
  "SIG_isDuplicate r1 (RR_SIG r2) \<and> Hdr_isDuplicate (RRSIG_Hdr r1) (RRSIG_Hdr r2) \<longleftrightarrow>
     dup_norm (RR_SIG r1) = dup_norm (RR_SIG r2)"
  by (cases r1; cases r2) 
    (simp add: SIG_isDuplicate_def dup_norms split del: if_split, auto simp: gateway_dup_def IP_Equal_norm isDuplicateName_norm)

lemma SIG_dup:
  "SIG_isDuplicate r1 rr2 \<and> Hdr_isDuplicate (RRSIG_Hdr r1) (rr_Header rr2) \<longleftrightarrow>
     dup_norm (RR_SIG r1) = dup_norm rr2"
proof (cases rr2)
  case (RR_SIG r2)
  then show ?thesis using SIG_dup_same [of r1 r2] by simp
qed (simp_all add: SIG_isDuplicate_def)

lemma SMIMEA_dup_same:
  "SMIMEA_isDuplicate r1 (RR_SMIMEA r2) \<and> Hdr_isDuplicate (SMIMEA_Hdr r1) (SMIMEA_Hdr r2) \<longleftrightarrow>
     dup_norm (RR_SMIMEA r1) = dup_norm (RR_SMIMEA r2)"
  by (cases r1; cases r2) 
    (simp add: SMIMEA_isDuplicate_def dup_norms split del: if_split, auto simp: gateway_dup_def IP_Equal_norm isDuplicateName_norm)

lemma SMIMEA_dup:
  "SMIMEA_isDuplicate r1 rr2 \<and> Hdr_isDuplicate (SMIMEA_Hdr r1) (rr_Header rr2) \<longleftrightarrow>
     dup_norm (RR_SMIMEA r1) = dup_norm rr2"
proof (cases rr2)
  case (RR_SMIMEA r2)
  then show ?thesis using SMIMEA_dup_same [of r1 r2] by simp
qed (simp_all add: SMIMEA_isDuplicate_def)

lemma SOA_dup_same:
  "SOA_isDuplicate r1 (RR_SOA r2) \<and> Hdr_isDuplicate (SOA_Hdr r1) (SOA_Hdr r2) \<longleftrightarrow>
     dup_norm (RR_SOA r1) = dup_norm (RR_SOA r2)"
  by (cases r1; cases r2) 
    (simp add: SOA_isDuplicate_def dup_norms split del: if_split, auto simp: gateway_dup_def IP_Equal_norm isDuplicateName_norm)

lemma SOA_dup:
  "SOA_isDuplicate r1 rr2 \<and> Hdr_isDuplicate (SOA_Hdr r1) (rr_Header rr2) \<longleftrightarrow>
     dup_norm (RR_SOA r1) = dup_norm rr2"
proof (cases rr2)
  case (RR_SOA r2)
  then show ?thesis using SOA_dup_same [of r1 r2] by simp
qed (simp_all add: SOA_isDuplicate_def)

lemma SPF_dup_same:
  "SPF_isDuplicate r1 (RR_SPF r2) \<and> Hdr_isDuplicate (SPF_Hdr r1) (SPF_Hdr r2) \<longleftrightarrow>
     dup_norm (RR_SPF r1) = dup_norm (RR_SPF r2)"
  by (cases r1; cases r2) 
    (simp add: SPF_isDuplicate_def dup_norms split del: if_split, auto simp: gateway_dup_def IP_Equal_norm isDuplicateName_norm)

lemma SPF_dup:
  "SPF_isDuplicate r1 rr2 \<and> Hdr_isDuplicate (SPF_Hdr r1) (rr_Header rr2) \<longleftrightarrow>
     dup_norm (RR_SPF r1) = dup_norm rr2"
proof (cases rr2)
  case (RR_SPF r2)
  then show ?thesis using SPF_dup_same [of r1 r2] by simp
qed (simp_all add: SPF_isDuplicate_def)

lemma SRV_dup_same:
  "SRV_isDuplicate r1 (RR_SRV r2) \<and> Hdr_isDuplicate (SRV_Hdr r1) (SRV_Hdr r2) \<longleftrightarrow>
     dup_norm (RR_SRV r1) = dup_norm (RR_SRV r2)"
  by (cases r1; cases r2) 
    (simp add: SRV_isDuplicate_def dup_norms split del: if_split, auto simp: gateway_dup_def IP_Equal_norm isDuplicateName_norm)

lemma SRV_dup:
  "SRV_isDuplicate r1 rr2 \<and> Hdr_isDuplicate (SRV_Hdr r1) (rr_Header rr2) \<longleftrightarrow>
     dup_norm (RR_SRV r1) = dup_norm rr2"
proof (cases rr2)
  case (RR_SRV r2)
  then show ?thesis using SRV_dup_same [of r1 r2] by simp
qed (simp_all add: SRV_isDuplicate_def)

lemma SSHFP_dup_same:
  "SSHFP_isDuplicate r1 (RR_SSHFP r2) \<and> Hdr_isDuplicate (SSHFP_Hdr r1) (SSHFP_Hdr r2) \<longleftrightarrow>
     dup_norm (RR_SSHFP r1) = dup_norm (RR_SSHFP r2)"
  by (cases r1; cases r2) 
    (simp add: SSHFP_isDuplicate_def dup_norms split del: if_split, auto simp: gateway_dup_def IP_Equal_norm isDuplicateName_norm)

lemma SSHFP_dup:
  "SSHFP_isDuplicate r1 rr2 \<and> Hdr_isDuplicate (SSHFP_Hdr r1) (rr_Header rr2) \<longleftrightarrow>
     dup_norm (RR_SSHFP r1) = dup_norm rr2"
proof (cases rr2)
  case (RR_SSHFP r2)
  then show ?thesis using SSHFP_dup_same [of r1 r2] by simp
qed (simp_all add: SSHFP_isDuplicate_def)

lemma TA_dup_same:
  "TA_isDuplicate r1 (RR_TA r2) \<and> Hdr_isDuplicate (TA_Hdr r1) (TA_Hdr r2) \<longleftrightarrow>
     dup_norm (RR_TA r1) = dup_norm (RR_TA r2)"
  by (cases r1; cases r2) 
    (simp add: TA_isDuplicate_def dup_norms split del: if_split, auto simp: gateway_dup_def IP_Equal_norm isDuplicateName_norm)

lemma TA_dup:
  "TA_isDuplicate r1 rr2 \<and> Hdr_isDuplicate (TA_Hdr r1) (rr_Header rr2) \<longleftrightarrow>
     dup_norm (RR_TA r1) = dup_norm rr2"
proof (cases rr2)
  case (RR_TA r2)
  then show ?thesis using TA_dup_same [of r1 r2] by simp
qed (simp_all add: TA_isDuplicate_def)

lemma TALINK_dup_same:
  "TALINK_isDuplicate r1 (RR_TALINK r2) \<and> Hdr_isDuplicate (TALINK_Hdr r1) (TALINK_Hdr r2) \<longleftrightarrow>
     dup_norm (RR_TALINK r1) = dup_norm (RR_TALINK r2)"
  by (cases r1; cases r2) 
    (simp add: TALINK_isDuplicate_def dup_norms split del: if_split, auto simp: gateway_dup_def IP_Equal_norm isDuplicateName_norm)

lemma TALINK_dup:
  "TALINK_isDuplicate r1 rr2 \<and> Hdr_isDuplicate (TALINK_Hdr r1) (rr_Header rr2) \<longleftrightarrow>
     dup_norm (RR_TALINK r1) = dup_norm rr2"
proof (cases rr2)
  case (RR_TALINK r2)
  then show ?thesis using TALINK_dup_same [of r1 r2] by simp
qed (simp_all add: TALINK_isDuplicate_def)

lemma TKEY_dup_same:
  "TKEY_isDuplicate r1 (RR_TKEY r2) \<and> Hdr_isDuplicate (TKEY_Hdr r1) (TKEY_Hdr r2) \<longleftrightarrow>
     dup_norm (RR_TKEY r1) = dup_norm (RR_TKEY r2)"
  by (cases r1; cases r2) 
    (simp add: TKEY_isDuplicate_def dup_norms split del: if_split, auto simp: gateway_dup_def IP_Equal_norm isDuplicateName_norm)

lemma TKEY_dup:
  "TKEY_isDuplicate r1 rr2 \<and> Hdr_isDuplicate (TKEY_Hdr r1) (rr_Header rr2) \<longleftrightarrow>
     dup_norm (RR_TKEY r1) = dup_norm rr2"
proof (cases rr2)
  case (RR_TKEY r2)
  then show ?thesis using TKEY_dup_same [of r1 r2] by simp
qed (simp_all add: TKEY_isDuplicate_def)

lemma TLSA_dup_same:
  "TLSA_isDuplicate r1 (RR_TLSA r2) \<and> Hdr_isDuplicate (TLSA_Hdr r1) (TLSA_Hdr r2) \<longleftrightarrow>
     dup_norm (RR_TLSA r1) = dup_norm (RR_TLSA r2)"
  by (cases r1; cases r2) 
    (simp add: TLSA_isDuplicate_def dup_norms split del: if_split, auto simp: gateway_dup_def IP_Equal_norm isDuplicateName_norm)

lemma TLSA_dup:
  "TLSA_isDuplicate r1 rr2 \<and> Hdr_isDuplicate (TLSA_Hdr r1) (rr_Header rr2) \<longleftrightarrow>
     dup_norm (RR_TLSA r1) = dup_norm rr2"
proof (cases rr2)
  case (RR_TLSA r2)
  then show ?thesis using TLSA_dup_same [of r1 r2] by simp
qed (simp_all add: TLSA_isDuplicate_def)

lemma TSIG_dup_same:
  "TSIG_isDuplicate r1 (RR_TSIG r2) \<and> Hdr_isDuplicate (TSIG_Hdr r1) (TSIG_Hdr r2) \<longleftrightarrow>
     dup_norm (RR_TSIG r1) = dup_norm (RR_TSIG r2)"
  by (cases r1; cases r2) 
    (simp add: TSIG_isDuplicate_def dup_norms split del: if_split, auto simp: gateway_dup_def IP_Equal_norm isDuplicateName_norm)

lemma TSIG_dup:
  "TSIG_isDuplicate r1 rr2 \<and> Hdr_isDuplicate (TSIG_Hdr r1) (rr_Header rr2) \<longleftrightarrow>
     dup_norm (RR_TSIG r1) = dup_norm rr2"
proof (cases rr2)
  case (RR_TSIG r2)
  then show ?thesis using TSIG_dup_same [of r1 r2] by simp
qed (simp_all add: TSIG_isDuplicate_def)

lemma TXT_dup_same:
  "TXT_isDuplicate r1 (RR_TXT r2) \<and> Hdr_isDuplicate (TXT_Hdr r1) (TXT_Hdr r2) \<longleftrightarrow>
     dup_norm (RR_TXT r1) = dup_norm (RR_TXT r2)"
  by (cases r1; cases r2) 
    (simp add: TXT_isDuplicate_def dup_norms split del: if_split, auto simp: gateway_dup_def IP_Equal_norm isDuplicateName_norm)

lemma TXT_dup:
  "TXT_isDuplicate r1 rr2 \<and> Hdr_isDuplicate (TXT_Hdr r1) (rr_Header rr2) \<longleftrightarrow>
     dup_norm (RR_TXT r1) = dup_norm rr2"
proof (cases rr2)
  case (RR_TXT r2)
  then show ?thesis using TXT_dup_same [of r1 r2] by simp
qed (simp_all add: TXT_isDuplicate_def)

lemma UID_dup_same:
  "UID_isDuplicate r1 (RR_UID r2) \<and> Hdr_isDuplicate (UID_Hdr r1) (UID_Hdr r2) \<longleftrightarrow>
     dup_norm (RR_UID r1) = dup_norm (RR_UID r2)"
  by (cases r1; cases r2) 
    (simp add: UID_isDuplicate_def dup_norms split del: if_split, auto simp: gateway_dup_def IP_Equal_norm isDuplicateName_norm)

lemma UID_dup:
  "UID_isDuplicate r1 rr2 \<and> Hdr_isDuplicate (UID_Hdr r1) (rr_Header rr2) \<longleftrightarrow>
     dup_norm (RR_UID r1) = dup_norm rr2"
proof (cases rr2)
  case (RR_UID r2)
  then show ?thesis using UID_dup_same [of r1 r2] by simp
qed (simp_all add: UID_isDuplicate_def)

lemma UINFO_dup_same:
  "UINFO_isDuplicate r1 (RR_UINFO r2) \<and> Hdr_isDuplicate (UINFO_Hdr r1) (UINFO_Hdr r2) \<longleftrightarrow>
     dup_norm (RR_UINFO r1) = dup_norm (RR_UINFO r2)"
  by (cases r1; cases r2) 
    (simp add: UINFO_isDuplicate_def dup_norms split del: if_split, auto simp: gateway_dup_def IP_Equal_norm isDuplicateName_norm)

lemma UINFO_dup:
  "UINFO_isDuplicate r1 rr2 \<and> Hdr_isDuplicate (UINFO_Hdr r1) (rr_Header rr2) \<longleftrightarrow>
     dup_norm (RR_UINFO r1) = dup_norm rr2"
proof (cases rr2)
  case (RR_UINFO r2)
  then show ?thesis using UINFO_dup_same [of r1 r2] by simp
qed (simp_all add: UINFO_isDuplicate_def)

lemma URI_dup_same:
  "URI_isDuplicate r1 (RR_URI r2) \<and> Hdr_isDuplicate (URI_Hdr r1) (URI_Hdr r2) \<longleftrightarrow>
     dup_norm (RR_URI r1) = dup_norm (RR_URI r2)"
  by (cases r1; cases r2) 
    (simp add: URI_isDuplicate_def dup_norms split del: if_split, auto simp: gateway_dup_def IP_Equal_norm isDuplicateName_norm)

lemma URI_dup:
  "URI_isDuplicate r1 rr2 \<and> Hdr_isDuplicate (URI_Hdr r1) (rr_Header rr2) \<longleftrightarrow>
     dup_norm (RR_URI r1) = dup_norm rr2"
proof (cases rr2)
  case (RR_URI r2)
  then show ?thesis using URI_dup_same [of r1 r2] by simp
qed (simp_all add: URI_isDuplicate_def)

lemma X25_dup_same:
  "X25_isDuplicate r1 (RR_X25 r2) \<and> Hdr_isDuplicate (X25_Hdr r1) (X25_Hdr r2) \<longleftrightarrow>
     dup_norm (RR_X25 r1) = dup_norm (RR_X25 r2)"
  by (cases r1; cases r2) 
    (simp add: X25_isDuplicate_def dup_norms split del: if_split, auto simp: gateway_dup_def IP_Equal_norm isDuplicateName_norm)

lemma X25_dup:
  "X25_isDuplicate r1 rr2 \<and> Hdr_isDuplicate (X25_Hdr r1) (rr_Header rr2) \<longleftrightarrow>
     dup_norm (RR_X25 r1) = dup_norm rr2"
proof (cases rr2)
  case (RR_X25 r2)
  then show ?thesis using X25_dup_same [of r1 r2] by simp
qed (simp_all add: X25_isDuplicate_def)

lemma ZONEMD_dup_same:
  "ZONEMD_isDuplicate r1 (RR_ZONEMD r2) \<and> Hdr_isDuplicate (ZONEMD_Hdr r1) (ZONEMD_Hdr r2) \<longleftrightarrow>
     dup_norm (RR_ZONEMD r1) = dup_norm (RR_ZONEMD r2)"
  by (cases r1; cases r2) 
    (simp add: ZONEMD_isDuplicate_def dup_norms split del: if_split, auto simp: gateway_dup_def IP_Equal_norm isDuplicateName_norm)

lemma ZONEMD_dup:
  "ZONEMD_isDuplicate r1 rr2 \<and> Hdr_isDuplicate (ZONEMD_Hdr r1) (rr_Header rr2) \<longleftrightarrow>
     dup_norm (RR_ZONEMD r1) = dup_norm rr2"
proof (cases rr2)
  case (RR_ZONEMD r2)
  then show ?thesis using ZONEMD_dup_same [of r1 r2] by simp
qed (simp_all add: ZONEMD_isDuplicate_def)

lemmas rr_dups =
  A_dup
  AAAA_dup
  AFSDB_dup
  AMTRELAY_dup
  ANY_dup
  APL_dup
  AVC_dup
  CAA_dup
  CDNSKEY_dup
  CDS_dup
  CERT_dup
  CNAME_dup
  CSYNC_dup
  DHCID_dup
  DLV_dup
  DNAME_dup
  DNSKEY_dup
  DS_dup
  EID_dup
  EUI48_dup
  EUI64_dup
  GID_dup
  GPOS_dup
  HINFO_dup
  HIP_dup
  IPSECKEY_dup
  ISDN_dup
  KEY_dup
  KX_dup
  L32_dup
  L64_dup
  LOC_dup
  LP_dup
  MB_dup
  MD_dup
  MF_dup
  MG_dup
  MINFO_dup
  MR_dup
  MX_dup
  NAPTR_dup
  NID_dup
  NIMLOC_dup
  NINFO_dup
  NS_dup
  NSAPPTR_dup
  NSEC_dup
  NSEC3_dup
  NSEC3PARAM_dup
  NULL_dup
  NXNAME_dup
  NXT_dup
  OPENPGPKEY_dup
  PTR_dup
  PX_dup
  RESINFO_dup
  RFC3597_dup
  RKEY_dup
  RP_dup
  RRSIG_dup
  RT_dup
  SIG_dup
  SMIMEA_dup
  SOA_dup
  SPF_dup
  SRV_dup
  SSHFP_dup
  TA_dup
  TALINK_dup
  TKEY_dup
  TLSA_dup
  TSIG_dup
  TXT_dup
  UID_dup
  UINFO_dup
  URI_dup
  X25_dup
  ZONEMD_dup

text \<open>The parameters of SVCB.\<close>

lemma svcb_equal_loop_eq:
  "length a = length b \<Longrightarrow>
     svcb_equal_loop a b =
       Ok (list_all svcb_packs a \<and> list_all svcb_packs b \<and>
           map (\<lambda>v. SVCBLocal (svcb_Key v) (svcb_payload v)) a = map (\<lambda>v. SVCBLocal (svcb_Key v) (svcb_payload v)) b)"
proof (induction a b rule: svcb_equal_loop.induct)
  case (3 e a f b)
  then show ?case
    using svcb_pack_safe [of e] svcb_pack_safe [of f]
    by (auto simp: svcb_packs_def svcb_payload_def split: outcome.splits)
qed auto

text \<open>With distinct keys there is only one list to return for a sort, stable or not.\<close>

lemma sorts_by_key_D:
  assumes "sorts_by_key srt"
  shows "mset (srt vs) = mset vs" "set (srt vs) = set vs" "length (srt vs) = length vs" "sorted (map svcb_Key (srt vs))"
    "distinct (map svcb_Key (srt vs)) = distinct (map svcb_Key vs)"
proof -
  show m: "mset (srt vs) = mset vs" and "sorted (map svcb_Key (srt vs))" using assms by (simp_all add: sorts_by_key_def)
  show "set (srt vs) = set vs" "length (srt vs) = length vs" using m mset_eq_setD mset_eq_length by blast+
  have "mset (map svcb_Key (srt vs)) = mset (map svcb_Key vs)" using m by simp
  then show "distinct (map svcb_Key (srt vs)) = distinct (map svcb_Key vs)" using mset_eq_imp_distinct_iff by blast
qed

lemma sorts_by_key_stable: "sorts_by_key (sort_key svcb_Key)"
  by (simp add: sorts_by_key_def)

lemma sorts_by_key_unique:
  assumes "sorts_by_key srt" "distinct (map svcb_Key vs)"
  shows "srt vs = sort_key svcb_Key vs"
  using assms sorts_by_key_D [OF assms(1), of vs] sorts_by_key_D [OF sorts_by_key_stable, of vs]
  by (intro map_sorted_distinct_set_unique [of svcb_Key]) (simp_all add: distinct_map)

lemma svcb_norm_srt:
  assumes "sorts_by_key srt" "distinct (map svcb_Key a) \<or> distinct (map svcb_Key b)"
  shows "map (\<lambda>v. SVCBLocal (svcb_Key v) (svcb_payload v)) (srt a) = map (\<lambda>v. SVCBLocal (svcb_Key v) (svcb_payload v)) (srt b)
    \<longleftrightarrow> svcb_norm a = svcb_norm b"
proof (cases "distinct (map svcb_Key a) \<and> distinct (map svcb_Key b)")
  case True
  then show ?thesis using sorts_by_key_unique [OF assms(1)] by (simp add: svcb_norm_def)
next
  case False
  have "map (\<lambda>v. SVCBLocal (svcb_Key v) (svcb_payload v)) (s a) \<noteq> map (\<lambda>v. SVCBLocal (svcb_Key v) (svcb_payload v)) (s b)"
    if s: "sorts_by_key s" for s
  proof
    assume "map (\<lambda>v. SVCBLocal (svcb_Key v) (svcb_payload v)) (s a) = map (\<lambda>v. SVCBLocal (svcb_Key v) (svcb_payload v)) (s b)"
    then have "map svcb_Key (map (\<lambda>v. SVCBLocal (svcb_Key v) (svcb_payload v)) (s a))
        = map svcb_Key (map (\<lambda>v. SVCBLocal (svcb_Key v) (svcb_payload v)) (s b))" by simp
    then have "map svcb_Key (s a) = map svcb_Key (s b)" by (simp add: comp_def)
    with sorts_by_key_D(5) [OF s, of a] sorts_by_key_D(5) [OF s, of b] False assms(2) show False by simp
  qed
  with assms(1) sorts_by_key_stable show ?thesis by (simp add: svcb_norm_def)
qed

lemma areSVCBPairArraysEqual_not_Panic:
  assumes "sorts_by_key srt" "length a = length b"
  shows "areSVCBPairArraysEqual srt a b \<noteq> Panic"
  using assms sorts_by_key_D(3) [OF assms(1)] by (simp add: areSVCBPairArraysEqual_def svcb_equal_loop_eq)

lemma areSVCBPairArraysEqual_eq:
  assumes "sorts_by_key srt" "distinct (map svcb_Key a) \<or> distinct (map svcb_Key b)" "length a = length b"
  shows "areSVCBPairArraysEqual srt a b =
           Ok (list_all svcb_packs a \<and> list_all svcb_packs b \<and> svcb_norm a = svcb_norm b)"
  using assms sorts_by_key_D(2,3) [OF assms(1)] svcb_norm_srt [OF assms(1,2)]
  by (simp add: areSVCBPairArraysEqual_def svcb_equal_loop_eq list_all_iff)

lemma svcb_norm_length: "svcb_norm a = svcb_norm b \<Longrightarrow> length a = length b"
  unfolding svcb_norm_def by (drule arg_cong [of _ _ length]) simp

lemma SVCB_dup:
  assumes "sorts_by_key srt" "unique_keys (RR_SVCB r1) \<or> unique_keys rr2"
  shows "(if \<not> Hdr_isDuplicate (SVCB_Hdr r1) (rr_Header rr2) then Ok False else SVCB_isDuplicate srt r1 rr2) =
     Ok (comparable_rr (RR_SVCB r1) \<and> comparable_rr rr2 \<and> dup_norm (RR_SVCB r1) = dup_norm rr2)"
proof (cases rr2)
  case (RR_SVCB r2)
  then show ?thesis
    by (cases r1; cases r2)
      (use assms in \<open>auto simp: SVCB_isDuplicate_def Hdr_isDuplicate_norm isDuplicateName_norm
        areSVCBPairArraysEqual_eq [OF assms(1)] unique_keys_def comparable_rr_def dest!: svcb_norm_length\<close>)
qed (simp_all add: SVCB_isDuplicate_def)

lemma HTTPS_dup:
  assumes "sorts_by_key srt" "unique_keys (RR_HTTPS r1) \<or> unique_keys rr2"
  shows "(if \<not> Hdr_isDuplicate (SVCB_Hdr r1) (rr_Header rr2) then Ok False else HTTPS_isDuplicate srt r1 rr2) =
     Ok (comparable_rr (RR_HTTPS r1) \<and> comparable_rr rr2 \<and> dup_norm (RR_HTTPS r1) = dup_norm rr2)"
proof (cases rr2)
  case (RR_HTTPS r2)
  then show ?thesis
    by (cases r1; cases r2)
      (use assms in \<open>auto simp: HTTPS_isDuplicate_def Hdr_isDuplicate_norm isDuplicateName_norm
        areSVCBPairArraysEqual_eq [OF assms(1)] unique_keys_def comparable_rr_def dest!: svcb_norm_length\<close>)
qed (simp_all add: HTTPS_isDuplicate_def)

text \<open>The other types are all comparable.\<close>

definition plain_rr :: "RR \<Rightarrow> bool" where
  "plain_rr rr = (case rr of RR_OPT _ \<Rightarrow> False | RR_SVCB _ \<Rightarrow> False | RR_HTTPS _ \<Rightarrow> False | _ \<Rightarrow> True)"

lemma plain_rr_norm: "plain_rr (dup_norm rr) = plain_rr rr"
  by (cases rr) (simp_all add: plain_rr_def)

lemma plain_rr_comparable: "plain_rr rr \<Longrightarrow> comparable_rr rr"
  by (cases rr) (simp_all add: plain_rr_def comparable_rr_def)

lemma plain_rr_dup:
  assumes "plain_rr r1"
  shows "\<exists>D. rr_isDuplicate srt r1 r2 = Ok D \<and>
           (D \<and> Hdr_isDuplicate (rr_Header r1) (rr_Header r2) \<longleftrightarrow> dup_norm r1 = dup_norm r2)"
proof (cases r1)
  case (RR_SVCB r)
  then show ?thesis using assms by (simp add: plain_rr_def)
next
  case (RR_HTTPS r)
  then show ?thesis using assms by (simp add: plain_rr_def)
next
  case (RR_OPT r)
  then show ?thesis using assms by (simp add: plain_rr_def)
qed (simp_all only: rr_isDuplicate.simps rr_Header.simps outcome.inject, (intro exI conjI, rule refl, rule rr_dups)+)

lemma rr_isDuplicate_eq:
  assumes "sorts_by_key srt" "unique_keys r1 \<or> unique_keys r2"
  shows "(if \<not> Hdr_isDuplicate (rr_Header r1) (rr_Header r2) then Ok False else rr_isDuplicate srt r1 r2) =
     Ok (comparable_rr r1 \<and> comparable_rr r2 \<and> dup_norm r1 = dup_norm r2)"
proof (cases "plain_rr r1")
  case True
  have "plain_rr r2" if "dup_norm r1 = dup_norm r2"
    using that True plain_rr_norm [of r1] plain_rr_norm [of r2] by simp
  moreover obtain D where "rr_isDuplicate srt r1 r2 = Ok D"
    and "D \<and> Hdr_isDuplicate (rr_Header r1) (rr_Header r2) \<longleftrightarrow> dup_norm r1 = dup_norm r2"
    using plain_rr_dup [OF True] by blast
  ultimately show ?thesis using True by (auto simp: plain_rr_comparable)
next
  case False
  then consider r where "r1 = RR_OPT r" | r where "r1 = RR_SVCB r" | r where "r1 = RR_HTTPS r"
    by (cases r1) (simp_all add: plain_rr_def)
  then show ?thesis
  proof cases
    case 1
    then show ?thesis by (simp add: OPT_isDuplicate_def comparable_rr_def)
  next
    case 2
    show ?thesis unfolding 2 rr_isDuplicate.simps rr_Header.simps by (rule SVCB_dup [OF assms [unfolded 2]])
  next
    case 3
    show ?thesis unfolding 3 rr_isDuplicate.simps rr_Header.simps by (rule HTTPS_dup [OF assms [unfolded 3]])
  qed
qed

lemma IsDuplicate_not_Panic:
  assumes "sorts_by_key srt"
  shows "IsDuplicate srt r1 r2 \<noteq> Panic"
proof (cases "plain_rr r1")
  case True
  with plain_rr_dup [OF True, of srt r2] show ?thesis by (auto simp: IsDuplicate_def)
next
  case False
  then show ?thesis
    using areSVCBPairArraysEqual_not_Panic [OF assms]
    by (cases r1) (auto simp: plain_rr_def IsDuplicate_def SVCB_isDuplicate_def HTTPS_isDuplicate_def split: RR.split)
qed

subsection \<open>Deciding by a normal form\<close>

text \<open>
  What a decision procedure promises that compares normal forms, where one of the two values is admissible and both
  have a normal form.
\<close>

locale normal_form =
  fixes dec :: "'a \<Rightarrow> 'a \<Rightarrow> bool res" and norm :: "'a \<Rightarrow> 'b" and ok :: "'a \<Rightarrow> bool" and adm :: "'a \<Rightarrow> bool"
  assumes never_panics: "dec x y \<noteq> Panic"
    and decides: "adm x \<or> adm y \<Longrightarrow> dec x y = Ok (ok x \<and> ok y \<and> norm x = norm y)"
begin

lemma dec_refl: "adm x \<Longrightarrow> ok x \<Longrightarrow> dec x x = Ok True"
  by (simp add: decides)

lemma dec_sym: "adm x \<or> adm y \<Longrightarrow> dec x y = dec y x"
  using decides [of x y] decides [of y x] by auto

lemma dec_trans: "adm x \<or> adm y \<Longrightarrow> adm y \<or> adm z \<Longrightarrow> adm x \<or> adm z \<Longrightarrow>
    dec x y = Ok True \<Longrightarrow> dec y z = Ok True \<Longrightarrow> dec x z = Ok True"
  by (simp add: decides)

lemma dec_cong: "norm x = norm x' \<Longrightarrow> ok x = ok x' \<Longrightarrow> adm x \<or> adm y \<Longrightarrow> adm x' \<or> adm y \<Longrightarrow> dec x y = dec x' y"
  by (simp add: decides)

end

text \<open>A sort by keys, and what it makes of the comparison of records.\<close>

locale key_sort =
  fixes srt :: svcb_sort
  assumes sorts: "sorts_by_key srt"

sublocale key_sort \<subseteq> dup: normal_form "IsDuplicate srt" dup_norm comparable_rr unique_keys
  by unfold_locales (rule IsDuplicate_not_Panic [OF sorts], unfold IsDuplicate_def, rule rr_isDuplicate_eq [OF sorts])

interpretation stable: key_sort "sort_key svcb_Key"
  by unfold_locales (rule sorts_by_key_stable)

text \<open>The TTL and the length of the data do not matter.\<close>

lemma dup_norm_Header:
  assumes "hdr_norm h = hdr_norm (rr_Header rr)"
  shows "dup_norm (set_Header h rr) = dup_norm rr" and "comparable_rr (set_Header h rr) = comparable_rr rr"
    and "unique_keys (set_Header h rr) = unique_keys rr"
  using assms by (cases rr; simp add: comparable_rr_def unique_keys_def)+

context key_sort
begin

lemma Header_irrelevant:
  assumes "hdr_norm h = hdr_norm (rr_Header r1)" "unique_keys r1 \<or> unique_keys r2"
  shows "IsDuplicate srt (set_Header h r1) r2 = IsDuplicate srt r1 r2"
  using dup_norm_Header [OF assms(1)] assms(2) by (intro dup.dec_cong) simp_all

lemma decided:
  "IsDuplicate srt r1 r2 \<noteq> Panic \<and>
    (unique_keys r1 \<or> unique_keys r2 \<longrightarrow>
       IsDuplicate srt r1 r2 = Ok (comparable_rr r1 \<and> comparable_rr r2 \<and> dup_norm r1 = dup_norm r2))"
  using dup.never_panics dup.decides by blast

end

subsection \<open>The property\<close>

text \<open>
  C17: \<^verbatim>\<open>IsDuplicate\<close> never panics, for records without nil SVCB parameters and whatever order \<^verbatim>\<open>sort.Slice\<close> gives
  to parameters with the same key. When no key occurs twice among the SVCB parameters of one of the two records, it decides
  whether they have the same normal form: the same struct, type and class, owner names and names in the data equal up to case,
  addresses equal up to the form of IPv4 addresses, the gateway that its type calls for, SVCB parameters with the same packed
  values for the same keys, in any order, and every other field equal, whatever the TTL and the length of the data; an OPT
  record, and a record with an SVCB parameter that cannot be packed, is a duplicate of none.
\<close>

theorem IsDuplicate_normal_form:
  assumes "sorts_by_key srt"
  shows "IsDuplicate srt r1 r2 \<noteq> Panic \<and>
    (unique_keys r1 \<or> unique_keys r2 \<longrightarrow>
       IsDuplicate srt r1 r2 = Ok (comparable_rr r1 \<and> comparable_rr r2 \<and> dup_norm r1 = dup_norm r2))"
  by (rule key_sort.decided [OF key_sort.intro [OF assms]])

definition svcb_example :: "string \<Rightarrow> SVCBKeyValue list \<Rightarrow> RR" where
  "svcb_example name vs =
     RR_SVCB \<lparr>SVCB_Hdr = \<lparr>Hdr_Name = str name, Hdr_Rrtype = 64, Hdr_Class = 1, Hdr_Ttl = 300, Hdr_Rdlength = 0\<rparr>,
              SVCB_Priority = 1, SVCB_Target = str ''.'', SVCB_Value = vs\<rparr>"

theorem IsDuplicate_normal_form_witness:
  "IsDuplicate (sort_key svcb_Key) (svcb_example ''a.'' [SVCBPort 53, SVCBAlpn [str ''dot'']])
     (svcb_example ''A.'' [SVCBAlpn [str ''dot''], SVCBPort 53]) = Ok True"
proof -
  let ?r1 = "svcb_example ''a.'' [SVCBPort 53, SVCBAlpn [str ''dot'']]"
  let ?r2 = "svcb_example ''A.'' [SVCBAlpn [str ''dot''], SVCBPort 53]"
  have "unique_keys ?r1" by (simp add: unique_keys_def svcb_example_def)
  moreover have "comparable_rr ?r1" "comparable_rr ?r2"
    by (simp_all add: comparable_rr_def svcb_example_def svcb_packs_def str_def)
  moreover have "dup_norm ?r1 = dup_norm ?r2" by code_simp
  ultimately show ?thesis
    using IsDuplicate_normal_form [OF sorts_by_key_stable, of ?r1 ?r2] by simp
qed

end
