(* ===== verification/Record_Codec.thy ===== *)
theory Record_Codec
  imports Type_Bitmap Edns Svcb
begin

section \<open>Reading back what was packed, field by field\<close>

text \<open>
  \<open>rt s M msg off cm P U rr\<close> relates the packing of the rest of a record, from the buffer
  \<open>msg\<close>, the offset \<open>off\<close> and the compression map \<open>cm\<close>, to its unpacking from a
  message \<open>M\<close>: if packing succeeds and \<open>M\<close> is what it wrote, then unpacking gives
  \<open>rr\<close> and stops at the same offset. It also says that the map still points to names, and,
  when \<open>s\<close> holds, that something was written. Each field has a rule for it, so the proof for
  a record is the list of its fields.
\<close>

definition rt ::
  "bool \<Rightarrow> bytes \<Rightarrow> bytes \<Rightarrow> nat \<Rightarrow> compressionMap \<Rightarrow> (bytes \<times> compressionMap \<times> nat) off_res \<Rightarrow> ('r \<times> nat) off_res \<Rightarrow> 'r \<Rightarrow> bool" where
  "rt s M msg off cm P U rr \<longleftrightarrow>
     (off \<le> length msg \<longrightarrow> cm_sound cm (take off msg) \<longrightarrow>
      (\<forall>msg' cm' off'. P = Ok (msg', cm', off') \<longrightarrow>
         extends msg off msg' off' \<and> cm_sound cm' (take off' msg') \<and> (s \<longrightarrow> off < off') \<and>
         (agree M msg' off' \<longrightarrow> length M = off' \<longrightarrow> U = Ok (rr, off'))))"

lemma rtI:
  assumes "\<And>msg' cm' off'. off \<le> length msg \<Longrightarrow> cm_sound cm (take off msg) \<Longrightarrow> P = Ok (msg', cm', off') \<Longrightarrow>
      extends msg off msg' off' \<and> cm_sound cm' (take off' msg') \<and> (s \<longrightarrow> off < off') \<and>
      (agree M msg' off' \<longrightarrow> length M = off' \<longrightarrow> U = Ok (rr, off'))"
  shows "rt s M msg off cm P U rr"
  using assms unfolding rt_def by blast

lemma rtD:
  assumes "rt s M msg off cm P U rr" and "off \<le> length msg" and "cm_sound cm (take off msg)"
    and "P = Ok (msg', cm', off')"
  shows "extends msg off msg' off'" and "cm_sound cm' (take off' msg')" and "s \<Longrightarrow> off < off'"
    and "agree M msg' off' \<Longrightarrow> length M = off' \<Longrightarrow> U = Ok (rr, off')"
  using assms unfolding rt_def by blast+

lemma rt_end: "rt False M msg off cm (Ok (msg, cm, off)) (Ok (rr, off)) rr"
  by (rule rtI) (auto simp: extends_refl)

lemma rt_weaken: "rt True M msg off cm P U rr \<Longrightarrow> rt s M msg off cm P U rr"
  unfolding rt_def by blast

text \<open>The early return at the end of the message does not happen when more was packed.\<close>

lemma rt_more:
  assumes "rt True M msg off cm P U rr"
  shows "rt s M msg off cm P (if off = length M then Ok (r0, off) else U) rr"
proof (rule rtI)
  fix msg' cm' off'
  assume *: "off \<le> length msg" "cm_sound cm (take off msg)" "P = Ok (msg', cm', off')"
  note D = rtD [OF assms *]
  show "extends msg off msg' off' \<and> cm_sound cm' (take off' msg') \<and> (s \<longrightarrow> off < off') \<and>
      (agree M msg' off' \<longrightarrow> length M = off' \<longrightarrow> (if off = length M then Ok (r0, off) else U) = Ok (rr, off'))"
    using D by auto
qed

lemma rt_moves:
  "rt True M msg off cm P U rr \<Longrightarrow> off \<le> length msg \<Longrightarrow> cm_sound cm (take off msg) \<Longrightarrow> P = Ok (m, c, off) \<Longrightarrow> False"
  unfolding rt_def by blast

lemma replicate_rest: "off + n = length (replicate (off + n) (0 :: byte))"
  by simp

text \<open>Where the rest may be empty, the early return is right if the record is already complete.\<close>

lemma rt_eom:
  assumes "rt s M msg off cm P U rr"
    and "\<And>m c. off \<le> length msg \<Longrightarrow> cm_sound cm (take off msg) \<Longrightarrow> P = Ok (m, c, off) \<Longrightarrow> r0 = rr"
  shows "rt s M msg off cm P (if off = length M then Ok (r0, off) else U) rr"
proof (rule rtI)
  fix msg' cm' off'
  assume *: "off \<le> length msg" "cm_sound cm (take off msg)" "P = Ok (msg', cm', off')"
  note D = rtD [OF assms(1) *]
  have "r0 = rr" if "off = off'" using assms(2) * that by blast
  with D show "extends msg off msg' off' \<and> cm_sound cm' (take off' msg') \<and> (s \<longrightarrow> off < off') \<and>
      (agree M msg' off' \<longrightarrow> length M = off' \<longrightarrow> (if off = length M then Ok (r0, off) else U) = Ok (rr, off'))"
    by auto
qed

text \<open>The general step: a field was packed, and reads back from every message that agrees.\<close>

lemma rt_field:
  assumes step: "\<And>m1 c1 o1. off \<le> length msg \<Longrightarrow> cm_sound cm (take off msg) \<Longrightarrow> F = Ok (m1, c1, o1) \<Longrightarrow>
        extends msg off m1 o1 \<and> cm_sound c1 (take o1 m1) \<and> (ne \<longrightarrow> off < o1) \<and> (agree M m1 o1 \<longrightarrow> G = Ok (v, o1))"
    and rest: "\<And>m1 c1 o1. extends msg off m1 o1 \<Longrightarrow> rt (s \<and> \<not> ne) M m1 o1 c1 (P m1 c1 o1) (U v o1) rr"
  shows "rt s M msg off cm (bindR F (\<lambda>(m, c, o'). P m c o')) (bindR G (\<lambda>(v, o'). U v o')) rr"
proof (rule rtI)
  fix msg' cm' off'
  assume pre: "off \<le> length msg" "cm_sound cm (take off msg)"
    and P: "bindR F (\<lambda>(m, c, o'). P m c o') = Ok (msg', cm', off')"
  from P obtain m1 c1 o1 where F: "F = Ok (m1, c1, o1)" and P1: "P m1 c1 o1 = Ok (msg', cm', off')"
    by (auto simp: bindR_eq_Ok)
  from step [OF pre F] have S: "extends msg off m1 o1" "cm_sound c1 (take o1 m1)" "ne \<Longrightarrow> off < o1"
    "agree M m1 o1 \<Longrightarrow> G = Ok (v, o1)" by auto
  have o1: "o1 \<le> length m1" using S(1) by (simp add: extends_def)
  note R = rtD [OF rest [OF S(1)] o1 S(2) P1]
  have "off < off'" if s
  proof (cases ne)
    case True
    then show ?thesis using S(3) R(1) by (simp add: extends_def)
  next
    case False
    then have "o1 < off'" using R(3) that by simp
    then show ?thesis using S(1) by (simp add: extends_def)
  qed
  moreover have "bindR G (\<lambda>(v, o'). U v o') = Ok (rr, off')" if "agree M msg' off'" "length M = off'"
    using S(4) [OF agree_extends [OF that(1) R(1)]] R(4) [OF that] by simp
  ultimately show "extends msg off msg' off' \<and> cm_sound cm' (take off' msg') \<and> (s \<longrightarrow> off < off') \<and>
      (agree M msg' off' \<longrightarrow> length M = off' \<longrightarrow> bindR G (\<lambda>(v, o'). U v o') = Ok (rr, off'))"
    using extends_trans [OF S(1) R(1)] R(2) by blast
qed

text \<open>A field that does not touch the map.\<close>

lemma rt_plain_field:
  assumes step: "\<And>m1 o1. off \<le> length msg \<Longrightarrow> F = Ok (m1, o1) \<Longrightarrow>
        extends msg off m1 o1 \<and> (ne \<longrightarrow> off < o1) \<and> (agree M m1 o1 \<longrightarrow> G = Ok (v, o1))"
    and rest: "\<And>m1 o1. extends msg off m1 o1 \<Longrightarrow> rt (s \<and> \<not> ne) M m1 o1 cm (P m1 o1) (U v o1) rr"
  shows "rt s M msg off cm (bindR F (\<lambda>(m, o'). P m o')) (bindR G (\<lambda>(v, o'). U v o')) rr"
proof -
  have "rt s M msg off cm
      (bindR (bindR F (\<lambda>(m, o'). Ok (m, cm, o'))) (\<lambda>(m, c, o'). if c = cm then P m o' else Panic))
      (bindR G (\<lambda>(v, o'). U v o')) rr"
  proof (rule rt_field [where ne = ne])
    fix m1 c1 o1
    assume pre: "off \<le> length msg" "cm_sound cm (take off msg)"
      and F: "bindR F (\<lambda>(m, o'). Ok (m, cm, o')) = Ok (m1, c1, o1)"
    then have F': "F = Ok (m1, o1)" and c1: "c1 = cm" by (auto simp: bindR_eq_Ok)
    from step [OF pre(1) F'] cm_sound_extends [OF pre(2)]
    show "extends msg off m1 o1 \<and> cm_sound c1 (take o1 m1) \<and> (ne \<longrightarrow> off < o1) \<and> (agree M m1 o1 \<longrightarrow> G = Ok (v, o1))"
      by (auto simp: c1)
  next
    fix m1 c1 o1
    assume "extends msg off m1 o1"
    from rest [OF this] show "rt (s \<and> \<not> ne) M m1 o1 c1 (if c1 = cm then P m1 o1 else Panic) (U v o1) rr"
      by (simp add: rt_def)
  qed
  moreover have "bindR (bindR F (\<lambda>(m, o'). Ok (m, cm, o'))) (\<lambda>(m, c, o'). if c = cm then P m o' else Panic) =
      bindR F (\<lambda>(m, o'). P m o')" by (cases F) (auto split: prod.splits)
  ultimately show ?thesis by simp
qed

subsection \<open>The rules of the fields\<close>

context wire_field
begin

lemma rt_any:
  assumes "ok v" and "e = off + length (enc v)"
    and "\<And>m1 o1. extends msg off m1 o1 \<Longrightarrow> rt s M m1 o1 cm (P m1 o1) (U v o1) rr"
  shows "rt s M msg off cm (bindR (pack v msg off) (\<lambda>(m, o'). P m o')) (bindR (unpack M off e) (\<lambda>(v, o'). U v o')) rr"
proof (rule rt_plain_field [where ne = False])
  fix m1 o1
  assume off: "off \<le> length msg" and p: "pack v msg off = Ok (m1, o1)"
  from pack_extends [OF assms(1) p off] pack_result(2) [OF assms(1) p] reads_back [OF assms(1) p]
  show "extends msg off m1 o1 \<and> (False \<longrightarrow> off < o1) \<and> (agree M m1 o1 \<longrightarrow> unpack M off e = Ok (v, o1))"
    by (simp add: assms(2))
qed (use assms(3) in simp)

lemma rt_step:
  assumes "ok v" and "enc v \<noteq> []"
    and "\<And>m1 o1. extends msg off m1 o1 \<Longrightarrow> rt False M m1 o1 cm (P m1 o1) (U v o1) rr"
  shows "rt s M msg off cm (bindR (pack v msg off) (\<lambda>(m, o'). P m o'))
           (bindR (mapErr w (unpack M off (off + length (enc v)))) (\<lambda>(v, o'). U v o')) rr"
proof (rule rt_plain_field [where ne = True])
  fix m1 o1
  assume off: "off \<le> length msg" and p: "pack v msg off = Ok (m1, o1)"
  from pack_extends [OF assms(1) p off] pack_result(2) [OF assms(1) p] reads_back [OF assms(1) p] assms(2)
  show "extends msg off m1 o1 \<and> (True \<longrightarrow> off < o1) \<and>
      (agree M m1 o1 \<longrightarrow> mapErr w (unpack M off (off + length (enc v))) = Ok (v, o1))"
    by (simp add: length_greater_0_conv [symmetric] del: length_greater_0_conv)
qed (use assms(3) in simp)

lemma rt_any_eom:
  assumes "ok v" and "e = off + length (enc v)" and "\<And>o1. U v o1 = Ok (rr, o1)" and "enc v = [] \<Longrightarrow> r0 = rr"
  shows "rt False M msg off cm (bindR (pack v msg off) (\<lambda>(m, o'). Ok (m, cm, o')))
           (if off = length M then Ok (r0, off) else bindR (unpack M off e) (\<lambda>(v, o'). U v o')) rr"
proof (rule rt_eom)
  show "rt False M msg off cm (bindR (pack v msg off) (\<lambda>(m, o'). Ok (m, cm, o'))) (bindR (unpack M off e) (\<lambda>(v, o'). U v o')) rr"
    using assms(1,2) by (rule rt_any) (simp add: assms(3) rt_end)
next
  fix m c
  assume "bindR (pack v msg off) (\<lambda>(m, o'). Ok (m, cm, o')) = Ok (m, c, off)"
  then have "pack v msg off = Ok (m, off)" by (auto simp: bindR_eq_Ok)
  from pack_result(2) [OF assms(1) this] show "r0 = rr" using assms(4) by simp
qed

end

context rest_field
begin

lemma rt_last:
  assumes "ok v" and "e = length M" and "\<And>o1. U v o1 = Ok (rr, o1)" and "s \<longrightarrow> enc v \<noteq> []"
  shows "rt s M msg off cm (bindR (pack v msg off) (\<lambda>(m, o'). Ok (m, cm, o')))
           (bindR (mapErr w (unpack M off e)) (\<lambda>(v, o'). U v o')) rr"
proof (rule rtI)
  fix msg' cm' off'
  assume off: "off \<le> length msg" and pre: "cm_sound cm (take off msg)"
    and "bindR (pack v msg off) (\<lambda>(m, o'). Ok (m, cm, o')) = Ok (msg', cm', off')"
  then have p: "pack v msg off = Ok (msg', off')" and cm: "cm' = cm" by (auto simp: bindR_eq_Ok)
  have "s \<longrightarrow> off < off'" using pack_result(2) [OF assms(1) p] assms(4) by auto
  then show "extends msg off msg' off' \<and> cm_sound cm' (take off' msg') \<and> (s \<longrightarrow> off < off') \<and>
      (agree M msg' off' \<longrightarrow> length M = off' \<longrightarrow> bindR (mapErr w (unpack M off e)) (\<lambda>(v, o'). U v o') = Ok (rr, off'))"
    using pack_extends [OF assms(1) p off] cm_sound_extends [OF pre] reads_rest [OF assms(1) p] assms(2,3)
    by (auto simp: cm)
qed

lemma rt_last_plain:
  assumes "ok v" and "e = length M" and "\<And>o1. U v o1 = Ok (rr, o1)" and "s \<longrightarrow> enc v \<noteq> []"
  shows "rt s M msg off cm (bindR (pack v msg off) (\<lambda>(m, o'). Ok (m, cm, o'))) (bindR (unpack M off e) (\<lambda>(v, o'). U v o')) rr"
proof -
  have "mapErr (\<lambda>e. e) (unpack M off e) = unpack M off e" by (cases "unpack M off e") auto
  moreover have "rt s M msg off cm (bindR (pack v msg off) (\<lambda>(m, o'). Ok (m, cm, o')))
      (bindR (mapErr (\<lambda>e. e) (unpack M off e)) (\<lambda>(v, o'). U v o')) rr"
    using assms by (rule rt_last)
  ultimately show ?thesis by simp
qed

lemma rt_last_eom:
  assumes "ok v" and "e = length M" and "\<And>o1. U v o1 = Ok (rr, o1)" and "enc v = [] \<Longrightarrow> r0 = rr"
  shows "rt False M msg off cm (bindR (pack v msg off) (\<lambda>(m, o'). Ok (m, cm, o')))
           (if off = length M then Ok (r0, off) else bindR (mapErr w (unpack M off e)) (\<lambda>(v, o'). U v o')) rr"
proof (rule rtI)
  fix msg' cm' off'
  assume pre: "off \<le> length msg" "cm_sound cm (take off msg)"
    and P: "bindR (pack v msg off) (\<lambda>(m, o'). Ok (m, cm, o')) = Ok (msg', cm', off')"
  then have p: "pack v msg off = Ok (msg', off')" by (auto simp: bindR_eq_Ok)
  have "rt False M msg off cm (bindR (pack v msg off) (\<lambda>(m, o'). Ok (m, cm, o')))
           (bindR (mapErr w (unpack M off e)) (\<lambda>(v, o'). U v o')) rr"
    using assms(1-3) by (rule rt_last) simp
  note D = rtD [OF this pre P]
  have "r0 = rr" if "off = length M" "length M = off'"
    using that assms(4) pack_result(2) [OF assms(1) p] by simp
  with D show "extends msg off msg' off' \<and> cm_sound cm' (take off' msg') \<and> (False \<longrightarrow> off < off') \<and>
      (agree M msg' off' \<longrightarrow> length M = off' \<longrightarrow>
        (if off = length M then Ok (r0, off) else bindR (mapErr w (unpack M off e)) (\<lambda>(v, o'). U v o')) = Ok (rr, off'))"
    by auto
qed

end

lemmas rt_u8 = u8.rt_step [OF TrueI, simplified]
lemmas rt_u16 = u16.rt_step [OF TrueI, simplified]
lemmas rt_u32 = u32.rt_step [OF TrueI, simplified]
lemmas rt_u64 = u64.rt_step [OF TrueI, simplified]
lemmas rt_u48 = u48.rt_step [OF _ be_neq_Nil(3), simplified]

lemma rt_a:
  assumes "length v = 4" and "\<And>m1 o1. extends msg off m1 o1 \<Longrightarrow> rt False M m1 o1 cm (P m1 o1) (U v o1) rr"
  shows "rt s M msg off cm (bindR (packDataA v msg off) (\<lambda>(m, o'). P m o'))
           (bindR (mapErr w (unpackDataA M off)) (\<lambda>(v, o'). U v o')) rr"
  using assms by (intro ip4.rt_step) auto

lemma rt_aaaa:
  assumes "length v = 16" and "\<And>m1 o1. extends msg off m1 o1 \<Longrightarrow> rt False M m1 o1 cm (P m1 o1) (U v o1) rr"
  shows "rt s M msg off cm (bindR (packDataAAAA v msg off) (\<lambda>(m, o'). P m o'))
           (bindR (mapErr w (unpackDataAAAA M off)) (\<lambda>(v, o'). U v o')) rr"
  using assms by (intro ip6.rt_step) auto

lemma rt_string:
  assumes "ok_string v" and "\<And>m1 o1. extends msg off m1 o1 \<Longrightarrow> rt False M m1 o1 cm (P m1 o1) (U v o1) rr"
  shows "rt s M msg off cm (bindR (packString v msg off) (\<lambda>(m, o'). P m o'))
           (bindR (mapErr w (unpackString M off)) (\<lambda>(v, o'). U v o')) rr"
  using assms by (intro string.rt_step) (auto simp: enc_string_def)

subsection \<open>Encoded octets\<close>

context text_field
begin

lemma rt_text_last:
  assumes "ok_text dec txt_of v" and "e = length M" and "\<And>o1. U v o1 = Ok (rr, o1)"
  shows "rt False M msg off cm (bindR (pack v msg off) (\<lambda>(m, o'). Ok (m, cm, o')))
           (bindR (mapErr w (unpack M off e)) (\<lambda>(v, o'). U v o')) rr"
  using ok_text_ex [OF assms(1)] assms(2,3) by (rule rt_last) simp

lemma rt_text_last_eom:
  assumes "ok_text dec txt_of v" and "e = length M" and "\<And>o1. U v o1 = Ok (rr, o1)" and "v = txt_of [] \<Longrightarrow> r0 = rr"
  shows "rt False M msg off cm (bindR (pack v msg off) (\<lambda>(m, o'). Ok (m, cm, o')))
           (if off = length M then Ok (r0, off) else bindR (mapErr w (unpack M off e)) (\<lambda>(v, o'). U v o')) rr"
  using ok_text_ex [OF assms(1)] assms(2,3)
  by (rule rt_last_eom) (use text_empty [OF assms(1)] assms(4) in \<open>simp add: text_octets_def\<close>)

lemma rt_text:
  assumes "ok_text dec txt_of v" and "length (text_octets dec v) = n"
    and "\<And>m1 o1. extends msg off m1 o1 \<Longrightarrow> rt s M m1 o1 cm (P m1 o1) (U v o1) rr"
  shows "rt s M msg off cm (bindR (pack v msg off) (\<lambda>(m, o'). P m o')) (bindR (unpack M off (off + n)) (\<lambda>(v, o'). U v o')) rr"
  using ok_text_ex [OF assms(1)] _ assms(3) by (rule rt_any) (simp add: assms(2) [symmetric] text_octets_def)

lemma rt_text_ne:
  assumes "ok_text dec txt_of v" and "length (text_octets dec v) = n" and "0 < n"
    and "\<And>m1 o1. extends msg off m1 o1 \<Longrightarrow> rt False M m1 o1 cm (P m1 o1) (U v o1) rr"
  shows "rt s M msg off cm (bindR (pack v msg off) (\<lambda>(m, o'). P m o')) (bindR (unpack M off (off + n)) (\<lambda>(v, o'). U v o')) rr"
proof (rule rt_plain_field [where ne = True])
  fix m1 o1
  assume off: "off \<le> length msg" and p: "pack v msg off = Ok (m1, o1)"
  note ex = ok_text_ex [OF assms(1)]
  have "o1 = off + n" using pack_any_text [OF p] assms(2) by (auto simp: text_octets_def)
  then show "extends msg off m1 o1 \<and> (True \<longrightarrow> off < o1) \<and> (agree M m1 o1 \<longrightarrow> unpack M off (off + n) = Ok (v, o1))"
    using pack_extends [OF ex p off] reads_back [OF ex p] assms(3) by auto
qed (use assms(4) in simp)

lemma rt_text_eom:
  assumes "ok_text dec txt_of v" and "length (text_octets dec v) = n" and "\<And>o1. U v o1 = Ok (rr, o1)"
    and "v = txt_of [] \<Longrightarrow> r0 = rr"
  shows "rt False M msg off cm (bindR (pack v msg off) (\<lambda>(m, o'). Ok (m, cm, o')))
           (if off = length M then Ok (r0, off) else bindR (unpack M off (off + n)) (\<lambda>(v, o'). U v o')) rr"
  using ok_text_ex [OF assms(1)] _ assms(3)
  by (rule rt_any_eom) (use assms(2) text_empty [OF assms(1)] assms(4) in \<open>auto simp: text_octets_def\<close>)

end

subsection \<open>Names\<close>

lemma rt_name:
  assumes "ok_name v" and "\<And>m1 c1 o1. extends msg off m1 o1 \<Longrightarrow> rt False M m1 o1 c1 (P m1 c1 o1) (U v o1) rr"
  shows "rt s M msg off cm (bindR (packDomainName v msg off cm compress) (\<lambda>(m, c, o'). P m c o'))
           (bindR (mapErr w (UnpackDomainName M off)) (\<lambda>(v, o'). U v o')) rr"
proof (rule rt_field [where ne = True])
  fix m1 c1 o1
  assume *: "off \<le> length msg" "cm_sound cm (take off msg)" "packDomainName v msg off cm compress = Ok (m1, c1, o1)"
  from packed_name [OF assms(1) *, of M]
  show "extends msg off m1 o1 \<and> cm_sound c1 (take o1 m1) \<and> (True \<longrightarrow> off < o1) \<and>
      (agree M m1 o1 \<longrightarrow> mapErr w (UnpackDomainName M off) = Ok (v, o1))" by simp
qed (use assms(2) in simp)

text \<open>The rendezvous servers of HIP are the last field of the record.\<close>

lemma rt_names_last:
  assumes "list_all ok_name v" and "e = length M" and "\<And>o1. U v o1 = Ok (rr, o1)"
  shows "rt False M msg off cm (bindR (packDataDomainNames v msg off cm compress) (\<lambda>(m, c, o'). Ok (m, c, o')))
           (bindR (mapErr w (unpackDataDomainNames M off e)) (\<lambda>(v, o'). U v o')) rr"
proof (rule rtI)
  fix msg' cm' off'
  assume pre: "off \<le> length msg" "cm_sound cm (take off msg)"
    and P: "bindR (packDataDomainNames v msg off cm compress) (\<lambda>(m, c, o'). Ok (m, c, o')) = Ok (msg', cm', off')"
  then have "packDataDomainNames_loop (length msg) v msg off cm compress = Ok (msg', cm', off')"
    by (auto simp: bindR_eq_Ok packDataDomainNames_def)
  from packed_names [OF assms(1) pre this, of M] assms(2,3)
  show "extends msg off msg' off' \<and> cm_sound cm' (take off' msg') \<and> (False \<longrightarrow> off < off') \<and>
      (agree M msg' off' \<longrightarrow> length M = off' \<longrightarrow>
        bindR (mapErr w (unpackDataDomainNames M off e)) (\<lambda>(v, o'). U v o') = Ok (rr, off'))"
    by (auto simp: unpackDataDomainNames_def)
qed

subsection \<open>Gateways\<close>

lemma rt_gateway:
  assumes "ok_gateway t a h"
    and "\<And>m1 c1 o1. extends msg off m1 o1 \<Longrightarrow> rt s M m1 o1 c1 (P m1 c1 o1) (U a h o1) rr"
  shows "rt s M msg off cm (bindR (packIPSECGateway a h msg off t cm compress) (\<lambda>(m, c, o'). P m c o'))
           (bindR (mapErr w (unpackIPSECGateway M off t)) (\<lambda>((v, w), o'). U v w o')) rr"
proof -
  have "rt s M msg off cm (bindR (packIPSECGateway a h msg off t cm compress) (\<lambda>(m, c, o'). P m c o'))
           (bindR (mapErr w (unpackIPSECGateway M off t)) (\<lambda>(v, o'). U (fst v) (snd v) o')) rr"
  proof (rule rt_field [where ne = False])
    fix m1 c1 o1
    assume *: "off \<le> length msg" "cm_sound cm (take off msg)" "packIPSECGateway a h msg off t cm compress = Ok (m1, c1, o1)"
    from packed_gateway [OF assms(1) *, of M]
    show "extends msg off m1 o1 \<and> cm_sound c1 (take o1 m1) \<and> (False \<longrightarrow> off < o1) \<and>
        (agree M m1 o1 \<longrightarrow> mapErr w (unpackIPSECGateway M off t) = Ok ((a, h), o1))" by auto
  qed (use assms(2) in simp)
  then show ?thesis by (simp add: case_prod_unfold)
qed

text \<open>What a field that may be empty has written when the offset has not moved.\<close>

lemma gateway_grows:
  assumes "ok_gateway t a h" and "off \<le> length msg" and "cm_sound cm (take off msg)"
    and "packIPSECGateway a h msg off t cm compress = Ok (m1, c1, o1)"
  shows "off \<le> o1" and "o1 = off \<Longrightarrow> a = [] \<and> h = []" and "o1 \<le> length m1" and "cm_sound c1 (take o1 m1)"
  using packed_gateway [OF assms, of m1] by (auto simp: extends_def)

lemma gateway_key_empty:
  assumes "bindR (packIPSECGateway a h msg off t cm compress)
      (\<lambda>(m, c, o'). bindR (packStringBase64 k m o') (\<lambda>(m, o'). Ok (m, c, o'))) = Ok (m', c', off)"
    and ok: "ok_gateway t a h \<and> ok_base64 k" and "off \<le> length msg" and "cm_sound cm (take off msg)"
  shows "a = [] \<and> h = [] \<and> k = []"
proof -
  from assms(1) obtain m c o1 where g: "packIPSECGateway a h msg off t cm compress = Ok (m, c, o1)"
    and k: "packStringBase64 k m o1 = Ok (m', off)" by (auto simp: bindR_eq_Ok)
  note G = gateway_grows [OF conjunct1 [OF ok] assms(3,4) g]
  have "text_octets fromBase64 k = []" "o1 = off" using b64.text_grows [OF k] G(1) by auto
  with G(2) b64.text_empty [OF conjunct2 [OF ok]] show ?thesis by simp
qed

text \<open>A last field that wrote nothing is empty.\<close>

lemma last_empty:
  "ok_hex s \<Longrightarrow> packStringHex s msg off = Ok (m, off) \<Longrightarrow> s = []"
  "ok_base64 s \<Longrightarrow> packStringBase64 s msg off = Ok (m, off) \<Longrightarrow> s = []"
  "packStringAny s msg off = Ok (m, off) \<Longrightarrow> s = []"
  "ok_apl ps \<Longrightarrow> packDataApl ps msg off = Ok (m, off) \<Longrightarrow> ps = []"
  "ok_opt es \<Longrightarrow> packDataOpt es msg off = Ok (m, off) \<Longrightarrow> es = []"
  using hex.text_grows [of s msg off m off] hex.text_empty [of s] b64.text_grows [of s msg off m off] b64.text_empty [of s]
    any.pack_result(2) [of s msg off m off] apl.pack_result(2) [of ps msg off m off] opt.pack_result(2) [of es msg off m off]
  by (auto simp: neq_Nil_conv dest: sym)

lemma enc_txt_neq_Nil: "ok_txt v \<Longrightarrow> enc_txt v \<noteq> []"
  by (cases v) (auto simp: ok_txt_def enc_string_def)

subsection \<open>Rules for the absence of panics\<close>

lemma safe_field:
  assumes "safe F (\<lambda>(v, o'). off \<le> o' \<and> o' \<le> n)" and "b \<le> off"
    and "\<And>v o'. off \<le> o' \<Longrightarrow> o' \<le> n \<Longrightarrow> safe (U v o') (\<lambda>(v, o'). b \<le> o' \<and> o' \<le> n)"
  shows "safe (bindR (mapErr w F) (\<lambda>(v, o'). U v o')) (\<lambda>(v, o'). b \<le> o' \<and> o' \<le> (n :: nat))"
  using assms(1) by (intro safe_bind [where Q = "\<lambda>(v, o'). off \<le> o' \<and> o' \<le> n"]) (auto intro: assms(3))

lemma safe_sized:
  assumes "safe F (\<lambda>(v, o'). off \<le> o' \<and> o' \<le> n)" and "b \<le> off"
    and "\<And>v o'. off \<le> o' \<Longrightarrow> o' \<le> n \<Longrightarrow> safe (U v o') (\<lambda>(v, o'). b \<le> o' \<and> o' \<le> n)"
  shows "safe (bindR F (\<lambda>(v, o'). U v o')) (\<lambda>(v, o'). b \<le> o' \<and> o' \<le> (n :: nat))"
  using assms(1) by (intro safe_bind [where Q = "\<lambda>(v, o'). off \<le> o' \<and> o' \<le> n"]) (auto intro: assms(3))

lemma safe_gateway:
  assumes "safe F (\<lambda>(v, o'). off \<le> o' \<and> o' \<le> n)" and "b \<le> off"
    and "\<And>v w o'. off \<le> o' \<Longrightarrow> o' \<le> n \<Longrightarrow> safe (U v w o') (\<lambda>(v, o'). b \<le> o' \<and> o' \<le> n)"
  shows "safe (bindR (mapErr g F) (\<lambda>((v, w), o'). U v w o')) (\<lambda>(v, o'). b \<le> o' \<and> o' \<le> (n :: nat))"
  using assms(1) by (intro safe_bind [where Q = "\<lambda>(v, o'). off \<le> o' \<and> o' \<le> n"]) (auto intro: assms(3))

lemmas safe_fields = name_unpack_safe(3) [THEN safe_gateway] unpack_safe [THEN safe_field] unpack_safe [THEN safe_sized]

lemma safe_eom:
  assumes "safe U (\<lambda>(v, o'). b \<le> o' \<and> o' \<le> n)" and "b \<le> off"
  shows "safe (if off = n then Ok (r, off) else U) (\<lambda>(v, o'). b \<le> o' \<and> o' \<le> (n :: nat))"
  using assms by simp

lemma names_pack_safe:
  "packDataDomainNames ss msg off cm compress \<noteq> Panic" "packIPSECGateway a h msg off t cm compress \<noteq> Panic"
proof -
  have n: "packDomainName s msg off cm compress \<noteq> Panic" for s msg off cm compress
    using packDomainName_safe by (rule safe_not_Panic)
  have "packDataDomainNames_loop k ss msg off cm compress \<noteq> Panic" for k
    by (induction ss arbitrary: msg off cm) (auto simp: bindR_eq_Panic n)
  then show "packDataDomainNames ss msg off cm compress \<noteq> Panic" by (simp add: packDataDomainNames_def)
  show "packIPSECGateway a h msg off t cm compress \<noteq> Panic"
    using ip4.pack_safe ip6.pack_safe by (auto simp: packIPSECGateway_def bindR_eq_Panic n)
qed

lemmas pack_safes = u8.pack_safe u16.pack_safe u32.pack_safe u64.pack_safe u48.pack_safe ip4.pack_safe ip6.pack_safe
  any.pack_safe string.pack_safe txts.pack_safe octet.pack_safe hex.pack_safe b64.pack_safe b32.pack_safe
  nsec.pack_safe apl.pack_safe opt.pack_safe svcb.pack_safe names_pack_safe packDomainName_safe [THEN safe_not_Panic]

subsection \<open>The interface of the record types\<close>

lemma rt_map:
  assumes "rt s M msg off cm P U rr"
  shows "rt s M msg off cm P (bindR U (\<lambda>(r, o'). Ok (C r, o'))) (C rr)"
  using assms unfolding rt_def by fastforce

lemma safe_map:
  "safe U (\<lambda>(v, o'). b \<le> o' \<and> o' \<le> n) \<Longrightarrow> safe (bindR U (\<lambda>(r, o'). Ok (C r, o'))) (\<lambda>(v, o'). b \<le> o' \<and> o' \<le> (n :: nat))"
  by (cases U) auto

text \<open>
  What packing and unpacking the data of a record promise to the code for whole records: the data
  reads back into the zero value with a new header, data of length 0 is that zero value, and
  nothing panics when the header's length is the length of the data.
\<close>

locale rdata_codec =
  fixes pack :: "'r \<Rightarrow> bytes \<Rightarrow> nat \<Rightarrow> compressionMap \<Rightarrow> bool \<Rightarrow> (bytes \<times> compressionMap \<times> nat) off_res"
    and unpack :: "'r \<Rightarrow> bytes \<Rightarrow> nat \<Rightarrow> ('r \<times> nat) off_res"
    and rdlength :: "'r \<Rightarrow> nat" and blank :: "'r \<Rightarrow> 'h \<Rightarrow> 'r" and set_hdr :: "'h \<Rightarrow> 'r \<Rightarrow> 'r" and hdr_len :: "'h \<Rightarrow> nat"
    and ok :: "'r \<Rightarrow> bool"
  assumes pack_rt: "ok rr \<Longrightarrow> off + hdr_len h = length M \<Longrightarrow>
        rt False M msg off cm (pack rr msg off cm compress) (unpack (blank rr h) M off) (set_hdr h rr)"
    and pack_nothing: "ok rr \<Longrightarrow> off \<le> length msg \<Longrightarrow> cm_sound cm (take off msg) \<Longrightarrow>
        pack rr msg off cm compress = Ok (m, c, off) \<Longrightarrow> blank rr h = set_hdr h rr"
    and unpack_within: "off \<le> length msg \<Longrightarrow> off + rdlength rr = length msg \<Longrightarrow>
        safe (unpack rr msg off) (\<lambda>(v, off'). off \<le> off' \<and> off' \<le> length msg)"
    and pack_safe: "pack rr msg off cm compress \<noteq> Panic"
begin

lemma pack_keeps:
  assumes "ok rr" and "off \<le> length msg" and "cm_sound cm (take off msg)"
    and "pack rr msg off cm compress = Ok (msg', cm', off')"
  shows "extends msg off msg' off'" and "cm_sound cm' (take off' msg')"
proof -
  fix h
  let ?M = "replicate (off + hdr_len h) (0 :: byte)"
  have "rt False ?M msg off cm (pack rr msg off cm compress) (unpack (blank rr h) ?M off) (set_hdr h rr)"
    using assms(1) by (rule pack_rt) simp
  from rtD(1,2) [OF this assms(2-4)] show "extends msg off msg' off'" "cm_sound cm' (take off' msg')" by auto
qed

lemma reads_back:
  assumes "ok rr" and "off \<le> length msg" and "cm_sound cm (take off msg)"
    and "pack rr msg off cm compress = Ok (msg', cm', off')"
    and "agree M msg' off'" and "length M = off'" and "off + hdr_len h = off'"
  shows "unpack (blank rr h) M off = Ok (set_hdr h rr, off')"
  using rtD(4) [OF pack_rt [OF assms(1), of off h M] assms(2-4)] assms(5-7) by simp

end

end
