(* ===== verification/RR_Len.thy ===== *)
theory RR_Len
  imports RR_Types
begin

section \<open>Lengths on the wire\<close>

text \<open>
  The \<^verbatim>\<open>len\<close> methods, with which \<^verbatim>\<open>PackBuffer\<close> sizes its buffer and
  \<^verbatim>\<open>Truncate\<close> decides what fits: \<^verbatim>\<open>domainNameLen\<close> and its helpers of
  \<^verbatim>\<open>msg.go\<close>, the header and the hand-written methods of \<^verbatim>\<open>dns.go\<close>,
  \<^verbatim>\<open>types.go\<close> and \<^verbatim>\<open>edns.go\<close>, and the generated ones of \<^verbatim>\<open>ztypes.go\<close>.
  The map of names seen so far is a set that a call returns with the names it adds; the nil map,
  for a length without compression, is \<^const>\<open>None\<close>.
\<close>

type_synonym lenMap = "gostring set option"

subsection \<open>Names\<close>

text \<open>\<open>n\<close> is \<^verbatim>\<open>nameLen\<close>; each step skips one character or one escape.\<close>

function escapedNameLen_loop :: "gostring \<Rightarrow> nat \<Rightarrow> nat" where
  "escapedNameLen_loop s n =
     (case s of
        [] \<Rightarrow> n
      | c # r \<Rightarrow>
          if c \<noteq> BSL then escapedNameLen_loop r n
          else if isDDD r then escapedNameLen_loop (drop 3 r) (n - 3)
          else escapedNameLen_loop (drop 1 r) (n - 1))"
  by pat_completeness auto
termination
  by (relation "measure (\<lambda>(s, n). length s)") auto

declare escapedNameLen_loop.simps [simp del]

definition escapedNameLen :: "gostring \<Rightarrow> nat" where
  "escapedNameLen s = escapedNameLen_loop s (length s)"

text \<open>
  The offset of the first suffix of the name that is in the map, if there is one; the suffixes
  before it are added. The offset is always inside the name, see \<open>NextLabel_progress\<close>.
\<close>

function compressionLenSearch_loop :: "gostring set \<Rightarrow> gostring \<Rightarrow> nat \<Rightarrow> nat \<Rightarrow> nat option \<times> gostring set" where
  "compressionLenSearch_loop c s msgOff off =
     (if drop off s \<in> c then (Some off, c)
      else
        let c = (if msgOff + off < maxCompressionOffset then insert (drop off s) c else c);
            (off', end) = NextLabel s off in
        if end then (None, c) else compressionLenSearch_loop c s msgOff off')"
  by pat_completeness auto
termination
  by (relation "measure (\<lambda>(c, s, msgOff, off). length s - off)") (auto dest!: NextLabel_progress [OF sym])

declare compressionLenSearch_loop.simps [simp del]

definition compressionLenSearch :: "gostring set \<Rightarrow> gostring \<Rightarrow> nat \<Rightarrow> nat option \<times> gostring set" where
  "compressionLenSearch c s msgOff = compressionLenSearch_loop c s msgOff 0"

definition plainNameLen :: "gostring \<Rightarrow> nat" where
  "plainNameLen s = (if BSL \<in> set s then escapedNameLen s else length s)"

definition domainNameLen :: "gostring \<Rightarrow> nat \<Rightarrow> lenMap \<Rightarrow> bool \<Rightarrow> nat \<times> lenMap" where
  "domainNameLen s off compression compress =
     (if s = [] \<or> s = [DOT] then (1, compression)
      else
        case compression of
          None \<Rightarrow> (plainNameLen s + 1, None)
        | Some c \<Rightarrow>
            if compress \<or> off < maxCompressionOffset then
              case compressionLenSearch c s off of
                (Some l, c) \<Rightarrow>
                  if compress then
                    ((if BSL \<in> set s then escapedNameLen (take l s) else l) + 2, Some c)
                  else (plainNameLen s + 1, Some c)
              | (None, c) \<Rightarrow> (plainNameLen s + 1, Some c)
            else (plainNameLen s + 1, Some c))"

subsection \<open>Fields\<close>

definition Hdr_len :: "RR_Header \<Rightarrow> nat \<Rightarrow> lenMap \<Rightarrow> nat \<times> lenMap" where
  "Hdr_len h off c =
     (let (l, c) = domainNameLen (Hdr_Name h) off c True;
          l = l + 10 in (l, c))"

text \<open>\<^verbatim>\<open>base64.StdEncoding.DecodedLen\<close>.\<close>

definition DecodedLen :: "nat \<Rightarrow> nat" where
  "DecodedLen n = n div 4 * 3"

definition APLPrefix_len :: "APLPrefix \<Rightarrow> nat" where
  "APLPrefix_len a = 4 + (mask_size (APL_Mask a) + 7) div 8"

text \<open>One option in \<^verbatim>\<open>OPT.len\<close>; an option that does not pack counts as empty.\<close>

definition EDNS0_len :: "EDNS0 \<Rightarrow> nat" where
  "EDNS0_len e = 4 + (case edns_pack e of Ok lo \<Rightarrow> length lo | _ \<Rightarrow> 0)"

definition gateway_len :: "byte \<Rightarrow> gostring \<Rightarrow> nat" where
  "gateway_len t host = (if t = 1 then 4 else if t = 2 then 16 else if t = 3 then length host + 1 else 0)"

fun domainNames_len :: "gostring list \<Rightarrow> nat \<Rightarrow> nat \<Rightarrow> lenMap \<Rightarrow> nat \<times> lenMap" where
  "domainNames_len [] off l c = (l, c)"
| "domainNames_len (x # xs) off l c =
     (let (n, c) = domainNameLen x (off + l) c False in domainNames_len xs off (l + n) c)"

subsection \<open>Records\<close>

definition A_len :: "A \<Rightarrow> nat \<Rightarrow> lenMap \<Rightarrow> nat \<times> lenMap" where
  "A_len rr off c =
     (let (l, c) = Hdr_len (A_Hdr rr) off c;
          l = l + (if A_A rr \<noteq> [] then 4 else 0) in (l, c))"

definition AAAA_len :: "AAAA \<Rightarrow> nat \<Rightarrow> lenMap \<Rightarrow> nat \<times> lenMap" where
  "AAAA_len rr off c =
     (let (l, c) = Hdr_len (AAAA_Hdr rr) off c;
          l = l + (if AAAA_AAAA rr \<noteq> [] then 16 else 0) in (l, c))"

definition AFSDB_len :: "AFSDB \<Rightarrow> nat \<Rightarrow> lenMap \<Rightarrow> nat \<times> lenMap" where
  "AFSDB_len rr off c =
     (let (l, c) = Hdr_len (AFSDB_Hdr rr) off c;
          l = l + 2;
          (n, c) = domainNameLen (AFSDB_Hostname rr) (off + l) c False;
          l = l + n in (l, c))"

definition AMTRELAY_len :: "AMTRELAY \<Rightarrow> nat \<Rightarrow> lenMap \<Rightarrow> nat \<times> lenMap" where
  "AMTRELAY_len rr off c =
     (let (l, c) = Hdr_len (AMTRELAY_Hdr rr) off c;
          l = l + 1;
          l = l + 1;
          l = l + gateway_len (AMTRELAY_GatewayType rr) (AMTRELAY_GatewayHost rr) in (l, c))"

definition ANY_len :: "ANY \<Rightarrow> nat \<Rightarrow> lenMap \<Rightarrow> nat \<times> lenMap" where
  "ANY_len rr off c =
     (let (l, c) = Hdr_len (ANY_Hdr rr) off c in (l, c))"

definition APL_len :: "APL \<Rightarrow> nat \<Rightarrow> lenMap \<Rightarrow> nat \<times> lenMap" where
  "APL_len rr off c =
     (let (l, c) = Hdr_len (APL_Hdr rr) off c;
          l = l + sum_list (map APLPrefix_len (APL_Prefixes rr)) in (l, c))"

definition AVC_len :: "AVC \<Rightarrow> nat \<Rightarrow> lenMap \<Rightarrow> nat \<times> lenMap" where
  "AVC_len rr off c =
     (let (l, c) = Hdr_len (AVC_Hdr rr) off c;
          l = l + sum_list (map (\<lambda>x. length x + 1) (AVC_Txt rr)) in (l, c))"

definition CAA_len :: "CAA \<Rightarrow> nat \<Rightarrow> lenMap \<Rightarrow> nat \<times> lenMap" where
  "CAA_len rr off c =
     (let (l, c) = Hdr_len (CAA_Hdr rr) off c;
          l = l + 1;
          l = l + (length (CAA_Tag rr) + 1);
          l = l + length (CAA_Value rr) in (l, c))"

definition CERT_len :: "CERT \<Rightarrow> nat \<Rightarrow> lenMap \<Rightarrow> nat \<times> lenMap" where
  "CERT_len rr off c =
     (let (l, c) = Hdr_len (CERT_Hdr rr) off c;
          l = l + 2;
          l = l + 2;
          l = l + 1;
          l = l + DecodedLen (length (CERT_Certificate rr)) in (l, c))"

definition CNAME_len :: "CNAME \<Rightarrow> nat \<Rightarrow> lenMap \<Rightarrow> nat \<times> lenMap" where
  "CNAME_len rr off c =
     (let (l, c) = Hdr_len (CNAME_Hdr rr) off c;
          (n, c) = domainNameLen (CNAME_Target rr) (off + l) c True;
          l = l + n in (l, c))"

definition CSYNC_len :: "CSYNC \<Rightarrow> nat \<Rightarrow> lenMap \<Rightarrow> nat \<times> lenMap" where
  "CSYNC_len rr off c =
     (let (l, c) = Hdr_len (CSYNC_Hdr rr) off c;
          l = l + (4 + 2);
          l = l + typeBitMapLen (CSYNC_TypeBitMap rr) in (l, c))"

definition DHCID_len :: "DHCID \<Rightarrow> nat \<Rightarrow> lenMap \<Rightarrow> nat \<times> lenMap" where
  "DHCID_len rr off c =
     (let (l, c) = Hdr_len (DHCID_Hdr rr) off c;
          l = l + DecodedLen (length (DHCID_Digest rr)) in (l, c))"

definition DNAME_len :: "DNAME \<Rightarrow> nat \<Rightarrow> lenMap \<Rightarrow> nat \<times> lenMap" where
  "DNAME_len rr off c =
     (let (l, c) = Hdr_len (DNAME_Hdr rr) off c;
          (n, c) = domainNameLen (DNAME_Target rr) (off + l) c False;
          l = l + n in (l, c))"

definition DNSKEY_len :: "DNSKEY \<Rightarrow> nat \<Rightarrow> lenMap \<Rightarrow> nat \<times> lenMap" where
  "DNSKEY_len rr off c =
     (let (l, c) = Hdr_len (DNSKEY_Hdr rr) off c;
          l = l + 2;
          l = l + 1;
          l = l + 1;
          l = l + DecodedLen (length (DNSKEY_PublicKey rr)) in (l, c))"

definition DS_len :: "DS \<Rightarrow> nat \<Rightarrow> lenMap \<Rightarrow> nat \<times> lenMap" where
  "DS_len rr off c =
     (let (l, c) = Hdr_len (DS_Hdr rr) off c;
          l = l + 2;
          l = l + 1;
          l = l + 1;
          l = l + length (DS_Digest rr) div 2 in (l, c))"

definition EID_len :: "EID \<Rightarrow> nat \<Rightarrow> lenMap \<Rightarrow> nat \<times> lenMap" where
  "EID_len rr off c =
     (let (l, c) = Hdr_len (EID_Hdr rr) off c;
          l = l + length (EID_Endpoint rr) div 2 in (l, c))"

definition EUI48_len :: "EUI48 \<Rightarrow> nat \<Rightarrow> lenMap \<Rightarrow> nat \<times> lenMap" where
  "EUI48_len rr off c =
     (let (l, c) = Hdr_len (EUI48_Hdr rr) off c;
          l = l + 6 in (l, c))"

definition EUI64_len :: "EUI64 \<Rightarrow> nat \<Rightarrow> lenMap \<Rightarrow> nat \<times> lenMap" where
  "EUI64_len rr off c =
     (let (l, c) = Hdr_len (EUI64_Hdr rr) off c;
          l = l + 8 in (l, c))"

definition GID_len :: "GID \<Rightarrow> nat \<Rightarrow> lenMap \<Rightarrow> nat \<times> lenMap" where
  "GID_len rr off c =
     (let (l, c) = Hdr_len (GID_Hdr rr) off c;
          l = l + 4 in (l, c))"

definition GPOS_len :: "GPOS \<Rightarrow> nat \<Rightarrow> lenMap \<Rightarrow> nat \<times> lenMap" where
  "GPOS_len rr off c =
     (let (l, c) = Hdr_len (GPOS_Hdr rr) off c;
          l = l + (length (GPOS_Longitude rr) + 1);
          l = l + (length (GPOS_Latitude rr) + 1);
          l = l + (length (GPOS_Altitude rr) + 1) in (l, c))"

definition HINFO_len :: "HINFO \<Rightarrow> nat \<Rightarrow> lenMap \<Rightarrow> nat \<times> lenMap" where
  "HINFO_len rr off c =
     (let (l, c) = Hdr_len (HINFO_Hdr rr) off c;
          l = l + (length (HINFO_Cpu rr) + 1);
          l = l + (length (HINFO_Os rr) + 1) in (l, c))"

definition HIP_len :: "HIP \<Rightarrow> nat \<Rightarrow> lenMap \<Rightarrow> nat \<times> lenMap" where
  "HIP_len rr off c =
     (let (l, c) = Hdr_len (HIP_Hdr rr) off c;
          l = l + 1;
          l = l + 1;
          l = l + 2;
          l = l + length (HIP_Hit rr) div 2;
          l = l + DecodedLen (length (HIP_PublicKey rr));
          (l, c) = domainNames_len (HIP_RendezvousServers rr) off l c in (l, c))"

definition IPSECKEY_len :: "IPSECKEY \<Rightarrow> nat \<Rightarrow> lenMap \<Rightarrow> nat \<times> lenMap" where
  "IPSECKEY_len rr off c =
     (let (l, c) = Hdr_len (IPSECKEY_Hdr rr) off c;
          l = l + 1;
          l = l + 1;
          l = l + 1;
          l = l + gateway_len (IPSECKEY_GatewayType rr) (IPSECKEY_GatewayHost rr);
          l = l + DecodedLen (length (IPSECKEY_PublicKey rr)) in (l, c))"

definition ISDN_len :: "ISDN \<Rightarrow> nat \<Rightarrow> lenMap \<Rightarrow> nat \<times> lenMap" where
  "ISDN_len rr off c =
     (let (l, c) = Hdr_len (ISDN_Hdr rr) off c;
          l = l + (length (ISDN_Address rr) + 1);
          l = l + (length (ISDN_SubAddress rr) + 1) in (l, c))"

definition KX_len :: "KX \<Rightarrow> nat \<Rightarrow> lenMap \<Rightarrow> nat \<times> lenMap" where
  "KX_len rr off c =
     (let (l, c) = Hdr_len (KX_Hdr rr) off c;
          l = l + 2;
          (n, c) = domainNameLen (KX_Exchanger rr) (off + l) c False;
          l = l + n in (l, c))"

definition L32_len :: "L32 \<Rightarrow> nat \<Rightarrow> lenMap \<Rightarrow> nat \<times> lenMap" where
  "L32_len rr off c =
     (let (l, c) = Hdr_len (L32_Hdr rr) off c;
          l = l + 2;
          l = l + (if L32_Locator32 rr \<noteq> [] then 4 else 0) in (l, c))"

definition L64_len :: "L64 \<Rightarrow> nat \<Rightarrow> lenMap \<Rightarrow> nat \<times> lenMap" where
  "L64_len rr off c =
     (let (l, c) = Hdr_len (L64_Hdr rr) off c;
          l = l + 2;
          l = l + 8 in (l, c))"

definition LOC_len :: "LOC \<Rightarrow> nat \<Rightarrow> lenMap \<Rightarrow> nat \<times> lenMap" where
  "LOC_len rr off c =
     (let (l, c) = Hdr_len (LOC_Hdr rr) off c;
          l = l + 1;
          l = l + 1;
          l = l + 1;
          l = l + 1;
          l = l + 4;
          l = l + 4;
          l = l + 4 in (l, c))"

definition LP_len :: "LP \<Rightarrow> nat \<Rightarrow> lenMap \<Rightarrow> nat \<times> lenMap" where
  "LP_len rr off c =
     (let (l, c) = Hdr_len (LP_Hdr rr) off c;
          l = l + 2;
          (n, c) = domainNameLen (LP_Fqdn rr) (off + l) c False;
          l = l + n in (l, c))"

definition MB_len :: "MB \<Rightarrow> nat \<Rightarrow> lenMap \<Rightarrow> nat \<times> lenMap" where
  "MB_len rr off c =
     (let (l, c) = Hdr_len (MB_Hdr rr) off c;
          (n, c) = domainNameLen (MB_Mb rr) (off + l) c True;
          l = l + n in (l, c))"

definition MD_len :: "MD \<Rightarrow> nat \<Rightarrow> lenMap \<Rightarrow> nat \<times> lenMap" where
  "MD_len rr off c =
     (let (l, c) = Hdr_len (MD_Hdr rr) off c;
          (n, c) = domainNameLen (MD_Md rr) (off + l) c True;
          l = l + n in (l, c))"

definition MF_len :: "MF \<Rightarrow> nat \<Rightarrow> lenMap \<Rightarrow> nat \<times> lenMap" where
  "MF_len rr off c =
     (let (l, c) = Hdr_len (MF_Hdr rr) off c;
          (n, c) = domainNameLen (MF_Mf rr) (off + l) c True;
          l = l + n in (l, c))"

definition MG_len :: "MG \<Rightarrow> nat \<Rightarrow> lenMap \<Rightarrow> nat \<times> lenMap" where
  "MG_len rr off c =
     (let (l, c) = Hdr_len (MG_Hdr rr) off c;
          (n, c) = domainNameLen (MG_Mg rr) (off + l) c True;
          l = l + n in (l, c))"

definition MINFO_len :: "MINFO \<Rightarrow> nat \<Rightarrow> lenMap \<Rightarrow> nat \<times> lenMap" where
  "MINFO_len rr off c =
     (let (l, c) = Hdr_len (MINFO_Hdr rr) off c;
          (n, c) = domainNameLen (MINFO_Rmail rr) (off + l) c True;
          l = l + n;
          (n, c) = domainNameLen (MINFO_Email rr) (off + l) c True;
          l = l + n in (l, c))"

definition MR_len :: "MR \<Rightarrow> nat \<Rightarrow> lenMap \<Rightarrow> nat \<times> lenMap" where
  "MR_len rr off c =
     (let (l, c) = Hdr_len (MR_Hdr rr) off c;
          (n, c) = domainNameLen (MR_Mr rr) (off + l) c True;
          l = l + n in (l, c))"

definition MX_len :: "MX \<Rightarrow> nat \<Rightarrow> lenMap \<Rightarrow> nat \<times> lenMap" where
  "MX_len rr off c =
     (let (l, c) = Hdr_len (MX_Hdr rr) off c;
          l = l + 2;
          (n, c) = domainNameLen (MX_Mx rr) (off + l) c True;
          l = l + n in (l, c))"

definition NAPTR_len :: "NAPTR \<Rightarrow> nat \<Rightarrow> lenMap \<Rightarrow> nat \<times> lenMap" where
  "NAPTR_len rr off c =
     (let (l, c) = Hdr_len (NAPTR_Hdr rr) off c;
          l = l + 2;
          l = l + 2;
          l = l + (length (NAPTR_Flags rr) + 1);
          l = l + (length (NAPTR_Service rr) + 1);
          l = l + (length (NAPTR_Regexp rr) + 1);
          (n, c) = domainNameLen (NAPTR_Replacement rr) (off + l) c False;
          l = l + n in (l, c))"

definition NID_len :: "NID \<Rightarrow> nat \<Rightarrow> lenMap \<Rightarrow> nat \<times> lenMap" where
  "NID_len rr off c =
     (let (l, c) = Hdr_len (NID_Hdr rr) off c;
          l = l + 2;
          l = l + 8 in (l, c))"

definition NIMLOC_len :: "NIMLOC \<Rightarrow> nat \<Rightarrow> lenMap \<Rightarrow> nat \<times> lenMap" where
  "NIMLOC_len rr off c =
     (let (l, c) = Hdr_len (NIMLOC_Hdr rr) off c;
          l = l + length (NIMLOC_Locator rr) div 2 in (l, c))"

definition NINFO_len :: "NINFO \<Rightarrow> nat \<Rightarrow> lenMap \<Rightarrow> nat \<times> lenMap" where
  "NINFO_len rr off c =
     (let (l, c) = Hdr_len (NINFO_Hdr rr) off c;
          l = l + sum_list (map (\<lambda>x. length x + 1) (NINFO_ZSData rr)) in (l, c))"

definition NS_len :: "NS \<Rightarrow> nat \<Rightarrow> lenMap \<Rightarrow> nat \<times> lenMap" where
  "NS_len rr off c =
     (let (l, c) = Hdr_len (NS_Hdr rr) off c;
          (n, c) = domainNameLen (NS_Ns rr) (off + l) c True;
          l = l + n in (l, c))"

definition NSAPPTR_len :: "NSAPPTR \<Rightarrow> nat \<Rightarrow> lenMap \<Rightarrow> nat \<times> lenMap" where
  "NSAPPTR_len rr off c =
     (let (l, c) = Hdr_len (NSAPPTR_Hdr rr) off c;
          (n, c) = domainNameLen (NSAPPTR_Ptr rr) (off + l) c False;
          l = l + n in (l, c))"

definition NSEC_len :: "NSEC \<Rightarrow> nat \<Rightarrow> lenMap \<Rightarrow> nat \<times> lenMap" where
  "NSEC_len rr off c =
     (let (l, c) = Hdr_len (NSEC_Hdr rr) off c;
          (n, c) = domainNameLen (NSEC_NextDomain rr) (off + l) c False;
          l = l + n;
          l = l + typeBitMapLen (NSEC_TypeBitMap rr) in (l, c))"

definition NSEC3_len :: "NSEC3 \<Rightarrow> nat \<Rightarrow> lenMap \<Rightarrow> nat \<times> lenMap" where
  "NSEC3_len rr off c =
     (let (l, c) = Hdr_len (NSEC3_Hdr rr) off c;
          l = l + (6 + length (NSEC3_Salt rr) div 2 + 1 + length (NSEC3_NextDomain rr) + 1);
          l = l + typeBitMapLen (NSEC3_TypeBitMap rr) in (l, c))"

definition NSEC3PARAM_len :: "NSEC3PARAM \<Rightarrow> nat \<Rightarrow> lenMap \<Rightarrow> nat \<times> lenMap" where
  "NSEC3PARAM_len rr off c =
     (let (l, c) = Hdr_len (NSEC3PARAM_Hdr rr) off c;
          l = l + 1;
          l = l + 1;
          l = l + 2;
          l = l + 1;
          l = l + length (NSEC3PARAM_Salt rr) div 2 in (l, c))"

definition NULL_len :: "NULL \<Rightarrow> nat \<Rightarrow> lenMap \<Rightarrow> nat \<times> lenMap" where
  "NULL_len rr off c =
     (let (l, c) = Hdr_len (NULL_Hdr rr) off c;
          l = l + length (NULL_Data rr) in (l, c))"

definition NXNAME_len :: "NXNAME \<Rightarrow> nat \<Rightarrow> lenMap \<Rightarrow> nat \<times> lenMap" where
  "NXNAME_len rr off c =
     (let (l, c) = Hdr_len (NXNAME_Hdr rr) off c in (l, c))"

definition OPENPGPKEY_len :: "OPENPGPKEY \<Rightarrow> nat \<Rightarrow> lenMap \<Rightarrow> nat \<times> lenMap" where
  "OPENPGPKEY_len rr off c =
     (let (l, c) = Hdr_len (OPENPGPKEY_Hdr rr) off c;
          l = l + DecodedLen (length (OPENPGPKEY_PublicKey rr)) in (l, c))"

definition OPT_len :: "OPT \<Rightarrow> nat \<Rightarrow> lenMap \<Rightarrow> nat \<times> lenMap" where
  "OPT_len rr off c =
     (let (l, c) = Hdr_len (OPT_Hdr rr) off c;
          l = l + sum_list (map EDNS0_len (OPT_Option rr)) in (l, c))"

definition PTR_len :: "PTR \<Rightarrow> nat \<Rightarrow> lenMap \<Rightarrow> nat \<times> lenMap" where
  "PTR_len rr off c =
     (let (l, c) = Hdr_len (PTR_Hdr rr) off c;
          (n, c) = domainNameLen (PTR_Ptr rr) (off + l) c True;
          l = l + n in (l, c))"

definition PX_len :: "PX \<Rightarrow> nat \<Rightarrow> lenMap \<Rightarrow> nat \<times> lenMap" where
  "PX_len rr off c =
     (let (l, c) = Hdr_len (PX_Hdr rr) off c;
          l = l + 2;
          (n, c) = domainNameLen (PX_Map822 rr) (off + l) c False;
          l = l + n;
          (n, c) = domainNameLen (PX_Mapx400 rr) (off + l) c False;
          l = l + n in (l, c))"

definition RESINFO_len :: "RESINFO \<Rightarrow> nat \<Rightarrow> lenMap \<Rightarrow> nat \<times> lenMap" where
  "RESINFO_len rr off c =
     (let (l, c) = Hdr_len (RESINFO_Hdr rr) off c;
          l = l + sum_list (map (\<lambda>x. length x + 1) (RESINFO_Txt rr)) in (l, c))"

definition RFC3597_len :: "RFC3597 \<Rightarrow> nat \<Rightarrow> lenMap \<Rightarrow> nat \<times> lenMap" where
  "RFC3597_len rr off c =
     (let (l, c) = Hdr_len (RFC3597_Hdr rr) off c;
          l = l + length (RFC3597_Rdata rr) div 2 in (l, c))"

definition RKEY_len :: "RKEY \<Rightarrow> nat \<Rightarrow> lenMap \<Rightarrow> nat \<times> lenMap" where
  "RKEY_len rr off c =
     (let (l, c) = Hdr_len (RKEY_Hdr rr) off c;
          l = l + 2;
          l = l + 1;
          l = l + 1;
          l = l + DecodedLen (length (RKEY_PublicKey rr)) in (l, c))"

definition RP_len :: "RP \<Rightarrow> nat \<Rightarrow> lenMap \<Rightarrow> nat \<times> lenMap" where
  "RP_len rr off c =
     (let (l, c) = Hdr_len (RP_Hdr rr) off c;
          (n, c) = domainNameLen (RP_Mbox rr) (off + l) c False;
          l = l + n;
          (n, c) = domainNameLen (RP_Txt rr) (off + l) c False;
          l = l + n in (l, c))"

definition RRSIG_len :: "RRSIG \<Rightarrow> nat \<Rightarrow> lenMap \<Rightarrow> nat \<times> lenMap" where
  "RRSIG_len rr off c =
     (let (l, c) = Hdr_len (RRSIG_Hdr rr) off c;
          l = l + 2;
          l = l + 1;
          l = l + 1;
          l = l + 4;
          l = l + 4;
          l = l + 4;
          l = l + 2;
          (n, c) = domainNameLen (RRSIG_SignerName rr) (off + l) c False;
          l = l + n;
          l = l + DecodedLen (length (RRSIG_Signature rr)) in (l, c))"

definition RT_len :: "RT \<Rightarrow> nat \<Rightarrow> lenMap \<Rightarrow> nat \<times> lenMap" where
  "RT_len rr off c =
     (let (l, c) = Hdr_len (RT_Hdr rr) off c;
          l = l + 2;
          (n, c) = domainNameLen (RT_Host rr) (off + l) c False;
          l = l + n in (l, c))"

definition SMIMEA_len :: "SMIMEA \<Rightarrow> nat \<Rightarrow> lenMap \<Rightarrow> nat \<times> lenMap" where
  "SMIMEA_len rr off c =
     (let (l, c) = Hdr_len (SMIMEA_Hdr rr) off c;
          l = l + 1;
          l = l + 1;
          l = l + 1;
          l = l + length (SMIMEA_Certificate rr) div 2 in (l, c))"

definition SOA_len :: "SOA \<Rightarrow> nat \<Rightarrow> lenMap \<Rightarrow> nat \<times> lenMap" where
  "SOA_len rr off c =
     (let (l, c) = Hdr_len (SOA_Hdr rr) off c;
          (n, c) = domainNameLen (SOA_Ns rr) (off + l) c True;
          l = l + n;
          (n, c) = domainNameLen (SOA_Mbox rr) (off + l) c True;
          l = l + n;
          l = l + 4;
          l = l + 4;
          l = l + 4;
          l = l + 4;
          l = l + 4 in (l, c))"

definition SPF_len :: "SPF \<Rightarrow> nat \<Rightarrow> lenMap \<Rightarrow> nat \<times> lenMap" where
  "SPF_len rr off c =
     (let (l, c) = Hdr_len (SPF_Hdr rr) off c;
          l = l + sum_list (map (\<lambda>x. length x + 1) (SPF_Txt rr)) in (l, c))"

definition SRV_len :: "SRV \<Rightarrow> nat \<Rightarrow> lenMap \<Rightarrow> nat \<times> lenMap" where
  "SRV_len rr off c =
     (let (l, c) = Hdr_len (SRV_Hdr rr) off c;
          l = l + 2;
          l = l + 2;
          l = l + 2;
          (n, c) = domainNameLen (SRV_Target rr) (off + l) c False;
          l = l + n in (l, c))"

definition SSHFP_len :: "SSHFP \<Rightarrow> nat \<Rightarrow> lenMap \<Rightarrow> nat \<times> lenMap" where
  "SSHFP_len rr off c =
     (let (l, c) = Hdr_len (SSHFP_Hdr rr) off c;
          l = l + 1;
          l = l + 1;
          l = l + length (SSHFP_FingerPrint rr) div 2 in (l, c))"

definition SVCB_len :: "SVCB \<Rightarrow> nat \<Rightarrow> lenMap \<Rightarrow> nat \<times> lenMap" where
  "SVCB_len rr off c =
     (let (l, c) = Hdr_len (SVCB_Hdr rr) off c;
          l = l + 2;
          (n, c) = domainNameLen (SVCB_Target rr) (off + l) c False;
          l = l + n;
          l = l + sum_list (map (\<lambda>x. 4 + svcb_len x) (SVCB_Value rr)) in (l, c))"

definition TA_len :: "TA \<Rightarrow> nat \<Rightarrow> lenMap \<Rightarrow> nat \<times> lenMap" where
  "TA_len rr off c =
     (let (l, c) = Hdr_len (TA_Hdr rr) off c;
          l = l + 2;
          l = l + 1;
          l = l + 1;
          l = l + length (TA_Digest rr) div 2 in (l, c))"

definition TALINK_len :: "TALINK \<Rightarrow> nat \<Rightarrow> lenMap \<Rightarrow> nat \<times> lenMap" where
  "TALINK_len rr off c =
     (let (l, c) = Hdr_len (TALINK_Hdr rr) off c;
          (n, c) = domainNameLen (TALINK_PreviousName rr) (off + l) c False;
          l = l + n;
          (n, c) = domainNameLen (TALINK_NextName rr) (off + l) c False;
          l = l + n in (l, c))"

definition TKEY_len :: "TKEY \<Rightarrow> nat \<Rightarrow> lenMap \<Rightarrow> nat \<times> lenMap" where
  "TKEY_len rr off c =
     (let (l, c) = Hdr_len (TKEY_Hdr rr) off c;
          (n, c) = domainNameLen (TKEY_Algorithm rr) (off + l) c False;
          l = l + n;
          l = l + 4;
          l = l + 4;
          l = l + 2;
          l = l + 2;
          l = l + 2;
          l = l + length (TKEY_Key rr) div 2;
          l = l + 2;
          l = l + length (TKEY_OtherData rr) div 2 in (l, c))"

definition TLSA_len :: "TLSA \<Rightarrow> nat \<Rightarrow> lenMap \<Rightarrow> nat \<times> lenMap" where
  "TLSA_len rr off c =
     (let (l, c) = Hdr_len (TLSA_Hdr rr) off c;
          l = l + 1;
          l = l + 1;
          l = l + 1;
          l = l + length (TLSA_Certificate rr) div 2 in (l, c))"

definition TSIG_len :: "TSIG \<Rightarrow> nat \<Rightarrow> lenMap \<Rightarrow> nat \<times> lenMap" where
  "TSIG_len rr off c =
     (let (l, c) = Hdr_len (TSIG_Hdr rr) off c;
          (n, c) = domainNameLen (TSIG_Algorithm rr) (off + l) c False;
          l = l + n;
          l = l + 6;
          l = l + 2;
          l = l + 2;
          l = l + length (TSIG_MAC rr) div 2;
          l = l + 2;
          l = l + 2;
          l = l + 2;
          l = l + length (TSIG_OtherData rr) div 2 in (l, c))"

definition TXT_len :: "TXT \<Rightarrow> nat \<Rightarrow> lenMap \<Rightarrow> nat \<times> lenMap" where
  "TXT_len rr off c =
     (let (l, c) = Hdr_len (TXT_Hdr rr) off c;
          l = l + sum_list (map (\<lambda>x. length x + 1) (TXT_Txt rr)) in (l, c))"

definition UID_len :: "UID \<Rightarrow> nat \<Rightarrow> lenMap \<Rightarrow> nat \<times> lenMap" where
  "UID_len rr off c =
     (let (l, c) = Hdr_len (UID_Hdr rr) off c;
          l = l + 4 in (l, c))"

definition UINFO_len :: "UINFO \<Rightarrow> nat \<Rightarrow> lenMap \<Rightarrow> nat \<times> lenMap" where
  "UINFO_len rr off c =
     (let (l, c) = Hdr_len (UINFO_Hdr rr) off c;
          l = l + (length (UINFO_Uinfo rr) + 1) in (l, c))"

definition URI_len :: "URI \<Rightarrow> nat \<Rightarrow> lenMap \<Rightarrow> nat \<times> lenMap" where
  "URI_len rr off c =
     (let (l, c) = Hdr_len (URI_Hdr rr) off c;
          l = l + 2;
          l = l + 2;
          l = l + length (URI_Target rr) in (l, c))"

definition X25_len :: "X25 \<Rightarrow> nat \<Rightarrow> lenMap \<Rightarrow> nat \<times> lenMap" where
  "X25_len rr off c =
     (let (l, c) = Hdr_len (X25_Hdr rr) off c;
          l = l + (length (X25_PSDNAddress rr) + 1) in (l, c))"

definition ZONEMD_len :: "ZONEMD \<Rightarrow> nat \<Rightarrow> lenMap \<Rightarrow> nat \<times> lenMap" where
  "ZONEMD_len rr off c =
     (let (l, c) = Hdr_len (ZONEMD_Hdr rr) off c;
          l = l + 4;
          l = l + 1;
          l = l + 1;
          l = l + length (ZONEMD_Digest rr) div 2 in (l, c))"

text \<open>The dynamic dispatch of \<^verbatim>\<open>rr.len\<close>; a struct that embeds another one inherits its method.\<close>

primrec rr_len :: "RR \<Rightarrow> nat \<Rightarrow> lenMap \<Rightarrow> nat \<times> lenMap" where
  "rr_len (RR_A rr) = A_len rr"
| "rr_len (RR_AAAA rr) = AAAA_len rr"
| "rr_len (RR_AFSDB rr) = AFSDB_len rr"
| "rr_len (RR_AMTRELAY rr) = AMTRELAY_len rr"
| "rr_len (RR_ANY rr) = ANY_len rr"
| "rr_len (RR_APL rr) = APL_len rr"
| "rr_len (RR_AVC rr) = AVC_len rr"
| "rr_len (RR_CAA rr) = CAA_len rr"
| "rr_len (RR_CDNSKEY rr) = DNSKEY_len rr"
| "rr_len (RR_CDS rr) = DS_len rr"
| "rr_len (RR_CERT rr) = CERT_len rr"
| "rr_len (RR_CNAME rr) = CNAME_len rr"
| "rr_len (RR_CSYNC rr) = CSYNC_len rr"
| "rr_len (RR_DHCID rr) = DHCID_len rr"
| "rr_len (RR_DLV rr) = DS_len rr"
| "rr_len (RR_DNAME rr) = DNAME_len rr"
| "rr_len (RR_DNSKEY rr) = DNSKEY_len rr"
| "rr_len (RR_DS rr) = DS_len rr"
| "rr_len (RR_EID rr) = EID_len rr"
| "rr_len (RR_EUI48 rr) = EUI48_len rr"
| "rr_len (RR_EUI64 rr) = EUI64_len rr"
| "rr_len (RR_GID rr) = GID_len rr"
| "rr_len (RR_GPOS rr) = GPOS_len rr"
| "rr_len (RR_HINFO rr) = HINFO_len rr"
| "rr_len (RR_HIP rr) = HIP_len rr"
| "rr_len (RR_HTTPS rr) = SVCB_len rr"
| "rr_len (RR_IPSECKEY rr) = IPSECKEY_len rr"
| "rr_len (RR_ISDN rr) = ISDN_len rr"
| "rr_len (RR_KEY rr) = DNSKEY_len rr"
| "rr_len (RR_KX rr) = KX_len rr"
| "rr_len (RR_L32 rr) = L32_len rr"
| "rr_len (RR_L64 rr) = L64_len rr"
| "rr_len (RR_LOC rr) = LOC_len rr"
| "rr_len (RR_LP rr) = LP_len rr"
| "rr_len (RR_MB rr) = MB_len rr"
| "rr_len (RR_MD rr) = MD_len rr"
| "rr_len (RR_MF rr) = MF_len rr"
| "rr_len (RR_MG rr) = MG_len rr"
| "rr_len (RR_MINFO rr) = MINFO_len rr"
| "rr_len (RR_MR rr) = MR_len rr"
| "rr_len (RR_MX rr) = MX_len rr"
| "rr_len (RR_NAPTR rr) = NAPTR_len rr"
| "rr_len (RR_NID rr) = NID_len rr"
| "rr_len (RR_NIMLOC rr) = NIMLOC_len rr"
| "rr_len (RR_NINFO rr) = NINFO_len rr"
| "rr_len (RR_NS rr) = NS_len rr"
| "rr_len (RR_NSAPPTR rr) = NSAPPTR_len rr"
| "rr_len (RR_NSEC rr) = NSEC_len rr"
| "rr_len (RR_NSEC3 rr) = NSEC3_len rr"
| "rr_len (RR_NSEC3PARAM rr) = NSEC3PARAM_len rr"
| "rr_len (RR_NULL rr) = NULL_len rr"
| "rr_len (RR_NXNAME rr) = NXNAME_len rr"
| "rr_len (RR_NXT rr) = NSEC_len rr"
| "rr_len (RR_OPENPGPKEY rr) = OPENPGPKEY_len rr"
| "rr_len (RR_OPT rr) = OPT_len rr"
| "rr_len (RR_PTR rr) = PTR_len rr"
| "rr_len (RR_PX rr) = PX_len rr"
| "rr_len (RR_RESINFO rr) = RESINFO_len rr"
| "rr_len (RR_RFC3597 rr) = RFC3597_len rr"
| "rr_len (RR_RKEY rr) = RKEY_len rr"
| "rr_len (RR_RP rr) = RP_len rr"
| "rr_len (RR_RRSIG rr) = RRSIG_len rr"
| "rr_len (RR_RT rr) = RT_len rr"
| "rr_len (RR_SIG rr) = RRSIG_len rr"
| "rr_len (RR_SMIMEA rr) = SMIMEA_len rr"
| "rr_len (RR_SOA rr) = SOA_len rr"
| "rr_len (RR_SPF rr) = SPF_len rr"
| "rr_len (RR_SRV rr) = SRV_len rr"
| "rr_len (RR_SSHFP rr) = SSHFP_len rr"
| "rr_len (RR_SVCB rr) = SVCB_len rr"
| "rr_len (RR_TA rr) = TA_len rr"
| "rr_len (RR_TALINK rr) = TALINK_len rr"
| "rr_len (RR_TKEY rr) = TKEY_len rr"
| "rr_len (RR_TLSA rr) = TLSA_len rr"
| "rr_len (RR_TSIG rr) = TSIG_len rr"
| "rr_len (RR_TXT rr) = TXT_len rr"
| "rr_len (RR_UID rr) = UID_len rr"
| "rr_len (RR_UINFO rr) = UINFO_len rr"
| "rr_len (RR_URI rr) = URI_len rr"
| "rr_len (RR_X25 rr) = X25_len rr"
| "rr_len (RR_ZONEMD rr) = ZONEMD_len rr"

text \<open>\<^verbatim>\<open>Len\<close>: the length of a record without compression.\<close>

definition Len :: "RR \<Rightarrow> nat" where
  "Len rr = fst (rr_len rr 0 None)"

end
