(* ===== verification/Record_Size.thy ===== *)
theory Record_Size
  imports Record_Codec RR_Len
begin

section \<open>What packing writes, and how long it is\<close>

text \<open>
  \<open>writes n P\<close> is the contract of a packer: from every offset and compression map it has one
  encoding, of at most \<open>n\<close> octets, that does not depend on the buffer; when packing succeeds it
  has written exactly this encoding, and it succeeds when \<open>n\<close> octets fit with one to spare.
  With \<open>n\<close> the number that the \<^verbatim>\<open>len\<close> methods compute, this is why a buffer of the
  computed length and one octet is always large enough.
\<close>

subsection \<open>Lengths of fields\<close>

lemma escapedNameLen_loop_simps:
  "escapedNameLen_loop [] n = n"
  "c \<noteq> BSL \<Longrightarrow> escapedNameLen_loop (c # r) n = escapedNameLen_loop r n"
  "isDDD r \<Longrightarrow> escapedNameLen_loop (BSL # r) n = escapedNameLen_loop (drop 3 r) (n - 3)"
  "\<not> isDDD r \<Longrightarrow> escapedNameLen_loop (BSL # r) n = escapedNameLen_loop (drop 1 r) (n - 1)"
  by (simp_all add: escapedNameLen_loop.simps [of "_ # _"] escapedNameLen_loop.simps [of "[]"])

lemma escapedNameLen_loop_labels:
  "split_labels cur s = Some ls \<Longrightarrow> length s \<le> n \<Longrightarrow>
   escapedNameLen_loop s n + length s + length cur = n + labels_octets ls"
proof (induction cur s arbitrary: ls n rule: split_labels.induct)
  case (1 cur s)
  show ?case
  proof (cases s)
    case Nil
    with "1.prems" show ?thesis
      by (simp add: escapedNameLen_loop_simps split_labels.simps [of cur] split: if_splits)
  next
    case (Cons c r)
    consider (ddd) "c = BSL" "isDDD r" | (char) x r' where "c = BSL" "\<not> isDDD r" "r = x # r'"
      | (bad) "c = BSL" "\<not> isDDD r" "r = []" | (dot) "c = DOT" | (plain) "c \<noteq> BSL" "c \<noteq> DOT"
      by (cases r) auto
    then show ?thesis
    proof cases
      case ddd
      have "3 \<le> length r" using ddd(2) by (cases r rule: isDDD.cases) auto
      with "1.IH"(1) [OF Cons ddd, of ls "n - 3"] "1.prems" Cons ddd show ?thesis
        by (simp add: split_labels_simps escapedNameLen_loop_simps diff_le_mono)
    next
      case char
      with "1.IH"(2) [OF Cons char, of ls "n - 1"] "1.prems" Cons show ?thesis
        by (simp add: split_labels_simps escapedNameLen_loop_simps)
    next
      case bad
      with "1.prems" Cons show ?thesis by (simp add: split_labels.simps [of cur])
    next
      case dot
      with "1.prems"(1) Cons obtain ls' where "ls = cur # ls'" "split_labels [] r = Some ls'"
        by (auto simp: split_labels_simps)
      with "1.IH"(3) [OF Cons _ dot, of ls' n] "1.prems" Cons dot show ?thesis
        by (simp add: escapedNameLen_loop_simps)
    next
      case plain
      with "1.IH"(4) [OF Cons plain, of ls n] "1.prems" Cons show ?thesis
        by (simp add: split_labels_simps escapedNameLen_loop_simps)
    qed
  qed
qed

lemma escapedNameLen_plain: "BSL \<notin> set s \<Longrightarrow> escapedNameLen_loop s n = n"
  by (induction s) (auto simp: escapedNameLen_loop_simps)

text \<open>Without compression, \<^verbatim>\<open>domainNameLen\<close> is the exact number of octets of a name.\<close>

lemma domainNameLen_exact:
  assumes "name_labels s = Some ls"
  shows "domainNameLen s off None b = (wire_len ls, None)"
proof (cases "s = [DOT]")
  case True
  with assms show ?thesis by (simp add: domainNameLen_def name_labels_def)
next
  case False
  with assms have sp: "split_labels [] s = Some ls" "ls \<noteq> []" by (auto simp: name_labels_def split: option.splits if_splits)
  then have "s \<noteq> []" by (auto simp: split_labels_simps)
  moreover have "plainNameLen s = labels_octets ls"
    using escapedNameLen_loop_labels [OF sp(1), of "length s"] escapedNameLen_plain [of s "length s"]
    by (simp add: plainNameLen_def escapedNameLen_def)
  ultimately show ?thesis using False by (simp add: domainNameLen_def wire_len_def)
qed

text \<open>The length of a good name, as a number.\<close>

definition name_len :: "gostring \<Rightarrow> nat" where
  "name_len s = fst (domainNameLen s 0 None False)"

lemma domainNameLen_None [simp]: "domainNameLen s off None b = (name_len s, None)"
  by (simp add: name_len_def domainNameLen_def)

lemma Hdr_len_None [simp]: "Hdr_len h off None = (name_len (Hdr_Name h) + 10, None)"
  by (simp add: Hdr_len_def)

lemma domainNames_len_None [simp]: "domainNames_len xs off l None = (l + sum_list (map name_len xs), None)"
  by (induction xs arbitrary: l) auto

lemma ok_name_name_len:
  assumes "ok_name s"
  shows "name_len s \<le> length s + 1" and "name_len s \<le> 255"
proof -
  obtain ls where ls: "name_labels s = Some ls" "\<And>off b. domainNameLen s off None b = (wire_len ls, None)"
    "wire_len ls \<le> 255"
    using assms domainNameLen_exact by (auto simp: ok_name_def split: option.splits)
  then show "name_len s \<le> 255" by simp
  have le: "escapedNameLen_loop s n \<le> n" for n
  proof (induction s n rule: escapedNameLen_loop.induct)
    case (1 s n)
    show ?case
    proof (cases s)
      case (Cons c r)
      with 1 show ?thesis
        by (cases "c = BSL"; cases "isDDD r") (auto simp: escapedNameLen_loop_simps intro: le_trans [OF _ diff_le_self])
    qed (simp add: escapedNameLen_loop_simps)
  qed
  show "name_len s \<le> length s + 1"
    using le [of "length s"] by (simp add: name_len_def domainNameLen_def plainNameLen_def escapedNameLen_def split: option.splits)
qed

lemma length_toBase64: "length h \<le> DecodedLen (length (toBase64 h))"
proof (induction h rule: toBase64.induct)
  case (1 a b c r)
  have "(4 + length (toBase64 r)) div 4 = Suc (length (toBase64 r) div 4)" by simp
  with 1 show ?case by (simp add: DecodedLen_def)
qed (simp_all add: DecodedLen_def)

lemma length_toBase32: "length h \<le> length (toBase32 h)"
  by (induction h rule: toBase32.induct) auto

lemma length_hexEncode: "length (hexEncode h) = 2 * length h"
  by (induction h) (auto simp: hexEncode_def)

lemma ok_text_length:
  "ok_hex s \<Longrightarrow> length (text_octets hexDecode s) \<le> length s div 2"
  "ok_base64 s \<Longrightarrow> length (text_octets fromBase64 s) \<le> DecodedLen (length s)"
  "ok_base32 s \<Longrightarrow> length (text_octets fromBase32 s) \<le> length s"
  using length_hexEncode [of "text_octets hexDecode s"] length_toBase64 [of "text_octets fromBase64 s"]
    length_toBase32 [of "text_octets fromBase32 s"]
  by (auto simp: ok_text_def)

lemma length_txt_octets: "length (txt_octets s) \<le> length s"
proof (induction s rule: txt_octets.induct)
  case (1 s)
  consider "s = []" | "s = [BSL]" | r where "s = BSL # r" "isDDD r" | x r where "s = BSL # x # r" "\<not> isDDD (x # r)"
    | c r where "s = c # r" "c \<noteq> BSL" by (metis neq_Nil_conv)
  then show ?case
  proof cases
    case (3 r)
    then obtain x r' where "r = x # r'" by (cases r) auto
    with 1(1) [of BSL r x r'] 3 show ?thesis by (simp add: txt_octets_simps)
  next
    case (4 x r)
    with 1(2) [of BSL "x # r" x r] show ?thesis by (simp add: txt_octets_simps)
  next
    case (5 c r)
    with 1(3) [of c r] show ?thesis by (simp add: txt_octets_simps)
  qed (simp_all add: txt_octets_simps)
qed

lemma length_enc_txt: "length (enc_txt ss) \<le> sum_list (map (\<lambda>x. length x + 1) ss)"
  by (induction ss) (auto simp: enc_string_def intro: add_mono length_txt_octets)

lemma length_enc_bitmap: "ok_bitmap ts \<Longrightarrow> length (enc_bitmap ts) \<le> typeBitMapLen ts"
  using length_enc_bitmap_loop [OF ok_bitmap_inv, of ts]
  by (cases "ts = []") (auto simp: typeBitMapLen_def enc_bitmap_def bm_block_def)

lemma length_enc_prefix: "ok_prefix p \<Longrightarrow> length (enc_prefix p) \<le> APLPrefix_len p"
  using length_trim_zeros [of "take ((mask_size (APL_Mask p) + 7) div 8) (APL_IP p)"]
  by (simp add: enc_prefix_def APLPrefix_len_def apl_addr_def)

lemma length_enc_apl: "ok_apl ps \<Longrightarrow> length (enc_apl ps) \<le> sum_list (map APLPrefix_len ps)"
  by (induction ps) (auto simp: ok_apl_def intro: add_mono length_enc_prefix)

lemma length_enc_opt: "ok_opt es \<Longrightarrow> length (enc_opt es) = sum_list (map EDNS0_len es)"
  by (induction es) (auto simp: EDNS0_len_def edns_payload_eq)

lemma length_enc_svcb: "ok_svcb vs \<Longrightarrow> length (enc_svcb vs) = sum_list (map (\<lambda>v. 4 + svcb_len v) vs)"
  by (induction vs) (auto simp: enc_pair_def svcb_payload_ok)

lemma length_enc_labels:
  "list_all (\<lambda>p. fst p \<noteq> []) ps \<Longrightarrow> length (fst (enc_labels compress cm off ps)) \<le> wire_len (map fst ps)"
proof (induction compress cm off ps rule: enc_labels.induct)
  case (2 compress cm off l sfx ps)
  have "1 \<le> length l" using 2(2) by (cases l) auto
  with 2 wire_len_pos [of "map fst ps"] show ?case by (auto split: sum.splits prod.splits simp: Let_def)
qed simp

lemma length_enc_name:
  assumes "name_labels s = Some ls"
  shows "length (fst (enc_name compress cm off s)) \<le> wire_len ls"
proof (cases "s = [DOT]")
  case True
  then show ?thesis using wire_len_pos [of ls] by (simp add: enc_name_def)
next
  case False
  then have sp: "split_labels [] s = Some ls" "list_all wf_label ls"
    using assms by (auto simp: name_labels_def split: option.splits if_splits)
  have ls: "map fst (label_suffixes [] s s) = ls" using split_labels_suffixes [OF sp(1)] by simp
  with sp(2) have "list_all (wf_label \<circ> fst) (label_suffixes [] s s)" by (auto simp: list.pred_map [symmetric])
  then have "list_all (\<lambda>p. fst p \<noteq> []) (label_suffixes [] s s)"
    by (rule list.pred_mono_strong) (simp add: wf_label_def)
  from length_enc_labels [OF this, of compress cm off] ls False show ?thesis by (simp add: enc_name_def)
qed

subsection \<open>The contract of a packer\<close>

type_synonym packer = "bytes \<Rightarrow> nat \<Rightarrow> compressionMap \<Rightarrow> (bytes \<times> compressionMap \<times> nat) off_res"

definition writes_as :: "bytes \<Rightarrow> compressionMap \<Rightarrow> nat \<Rightarrow> packer \<Rightarrow> nat \<Rightarrow> compressionMap \<Rightarrow> bool" where
  "writes_as e cm' n P off cm \<longleftrightarrow>
     cm_nonneg cm' \<and> length e \<le> n \<and>
     (\<forall>msg r. P msg off cm = Ok r \<longrightarrow>
        r = (put msg off e, cm', off + length e) \<and> (e \<noteq> [] \<longrightarrow> off + length e \<le> length msg)) \<and>
     (\<forall>msg. off + n < length msg \<longrightarrow> (\<exists>r. P msg off cm = Ok r))"

definition writes :: "nat \<Rightarrow> packer \<Rightarrow> bool" where
  "writes n P \<longleftrightarrow> (\<forall>off cm. cm_nonneg cm \<longrightarrow> (\<exists>e cm'. writes_as e cm' n P off cm))"

lemma writesI:
  "(\<And>off cm. cm_nonneg cm \<Longrightarrow> \<exists>e cm'. writes_as e cm' n P off cm) \<Longrightarrow> writes n P"
  unfolding writes_def by blast

lemma writes_asD:
  assumes "writes_as e cm' n P off cm"
  shows "cm_nonneg cm'" and "length e \<le> n"
    and "P msg off cm = Ok r \<Longrightarrow> r = (put msg off e, cm', off + length e) \<and> (e \<noteq> [] \<longrightarrow> off + length e \<le> length msg)"
    and "off + n < length msg \<Longrightarrow> \<exists>r. P msg off cm = Ok r"
  using assms unfolding writes_as_def by blast+

lemma writes_le:
  assumes "writes m P" and "m \<le> n"
  shows "writes n P"
proof (rule writesI)
  fix off cm
  assume "cm_nonneg cm"
  then obtain e cm' where "writes_as e cm' m P off cm" using assms(1) unfolding writes_def by blast
  then have "writes_as e cm' n P off cm" using assms(2) unfolding writes_as_def by auto
  then show "\<exists>e cm'. writes_as e cm' n P off cm" by blast
qed

lemma writes_end: "writes 0 (\<lambda>msg off cm. Ok (msg, cm, off))"
  by (rule writesI) (auto simp: writes_as_def intro!: exI [of _ "[]"])

text \<open>One packer after the other.\<close>

lemma writes_bind:
  assumes F: "writes k F" and P: "writes n P"
  shows "writes (k + n) (\<lambda>msg off cm. bindR (F msg off cm) (\<lambda>(msg, cm, off). P msg off cm))"
proof (rule writesI)
  fix off cm
  assume cm: "cm_nonneg cm"
  obtain e1 cm1 where "writes_as e1 cm1 k F off cm" using F cm unfolding writes_def by blast
  note 1 = writes_asD [OF this]
  obtain e2 cm2 where "writes_as e2 cm2 n P (off + length e1) cm1" using P 1(1) unfolding writes_def by blast
  note 2 = writes_asD [OF this]
  let ?P = "\<lambda>msg. bindR (F msg off cm) (\<lambda>(msg, cm, off). P msg off cm)"
  have fit: "length (put msg off e1) = length msg" if "F msg off cm = Ok r" for msg r
    using 1(3) [OF that] by (cases "e1 = []") auto
  have "\<exists>r. ?P msg = Ok r" if big: "off + (k + n) < length msg" for msg
  proof -
    obtain r where r: "F msg off cm = Ok r" using 1(4) [where msg = msg] big by auto
    have "\<exists>r'. P (put msg off e1) (off + length e1) cm1 = Ok r'" using 2(4) [where msg = "put msg off e1"] fit [OF r] 1(2) big by auto
    with r 1(3) [OF r] show ?thesis by auto
  qed
  moreover have "r = (put msg off (e1 @ e2), cm2, off + length (e1 @ e2)) \<and> (e1 @ e2 \<noteq> [] \<longrightarrow> off + length (e1 @ e2) \<le> length msg)"
    if "?P msg = Ok r" for msg r
  proof -
    from that obtain r1 where r1: "F msg off cm = Ok r1" by (auto simp: bindR_eq_Ok)
    with that 1(3) [OF r1] have p: "P (put msg off e1) (off + length e1) cm1 = Ok r" by simp
    show ?thesis using 2(3) [OF p] 1(3) [OF r1] fit [OF r1] put_put [of off e1 msg e2] by (cases "e1 = []"; cases "e2 = []") auto
  qed
  ultimately show "\<exists>e cm'. writes_as e cm' (k + n) (\<lambda>msg off cm. bindR (F msg off cm) (\<lambda>(msg, cm, off). P msg off cm)) off cm"
    unfolding writes_as_def using 1(2) 2(1,2) by (intro exI [of _ "e1 @ e2"] exI [of _ cm2]) (simp del: append_is_Nil_conv)
qed

lemma writes_plain:
  assumes F: "writes k (\<lambda>msg off cm. bindR (F msg off) (\<lambda>(msg, off). Ok (msg, cm, off)))" and P: "writes n P"
  shows "writes (k + n) (\<lambda>msg off cm. bindR (F msg off) (\<lambda>(msg, off). P msg off cm))"
proof -
  have "(\<lambda>msg off cm. bindR (F msg off) (\<lambda>(msg, off). P msg off cm)) =
      (\<lambda>msg off cm. bindR (bindR (F msg off) (\<lambda>(msg, off). Ok (msg, cm, off))) (\<lambda>(msg, cm, off). P msg off cm))"
    by (intro ext) (simp add: split_def)
  with writes_bind [OF F P] show ?thesis by simp
qed

context field_writer
begin

lemma writes_field:
  assumes "ok v" and "length (enc v) \<le> n"
  shows "writes n (\<lambda>msg off cm. bindR (pack v msg off) (\<lambda>(msg, off). Ok (msg, cm, off)))"
proof (rule writesI)
  fix off cm
  assume "cm_nonneg cm"
  moreover have "\<exists>r. bindR (pack v msg off) (\<lambda>(msg, off). Ok (msg, cm, off)) = Ok r" if "off + n < length msg" for msg
    using pack_fits [OF assms(1), of off msg] assms(2) that by (force simp: bindR_eq_Ok)
  ultimately show "\<exists>e cm'. writes_as e cm' n (\<lambda>msg off cm. bindR (pack v msg off) (\<lambda>(msg, off). Ok (msg, cm, off))) off cm"
    unfolding writes_as_def
    using pack_Ok [OF assms(1)] assms(2)
    by (intro exI [of _ "enc v"] exI [of _ cm]) (fastforce simp: bindR_eq_Ok)
qed

lemmas writes_step = writes_plain [OF writes_field]

end

lemma enc_labels_nonneg: "cm_nonneg cm \<Longrightarrow> cm_nonneg (snd (enc_labels compress cm off ps))"
proof (induction compress cm off ps rule: enc_labels.induct)
  case (2 compress cm off l sfx ps)
  then show ?case
    using ref_compress_nonneg(1) [of cm compress l sfx "[]" off]
    by (auto split: sum.splits prod.splits simp: Let_def)
qed simp

lemma writes_name:
  assumes "ok_name s" and "name_len s \<le> n"
  shows "writes n (\<lambda>msg off cm. packDomainName s msg off cm compress)"
proof (rule writesI)
  fix off cm
  assume cm: "cm_nonneg cm"
  obtain ls where ls: "IsFqdn s" "name_labels s = Some ls" using assms(1) by (auto simp: ok_name_def split: option.splits)
  then have n: "wire_len ls \<le> n" using assms(2) using domainNameLen_exact [OF ls(2)] by simp
  note P = packDomainName_packs [OF ls cm, of _ off compress]
  have "cm_nonneg (snd (enc_name compress cm off s))"
    using cm enc_labels_nonneg by (simp add: enc_name_def)
  moreover have "\<exists>r. packDomainName s msg off cm compress = Ok r" if "off + n < length msg" for msg
    using P [of msg] that n by (cases "packDomainName s msg off cm compress") (auto simp: packs_def)
  ultimately show "\<exists>e cm'. writes_as e cm' n (\<lambda>msg off cm. packDomainName s msg off cm compress) off cm"
    unfolding writes_as_def
    using length_enc_name [OF ls(2), of compress cm off] n P
    by (intro exI [of _ "fst (enc_name compress cm off s)"] exI [of _ "snd (enc_name compress cm off s)"])
      (fastforce simp: packs_def split: outcome.splits)
qed

subsection \<open>The rules of the fields\<close>

lemmas writes_u8 = u8.writes_step [OF TrueI order_refl]
lemmas writes_u16 = u16.writes_step [OF TrueI order_refl]
lemmas writes_u32 = u32.writes_step [OF TrueI order_refl]
lemmas writes_u64 = u64.writes_step [OF TrueI order_refl]
lemmas writes_u48 = u48.writes_step [OF _ order_refl]
lemmas writes_any = any.writes_step [OF TrueI order_refl]
lemmas writes_octet = octet.writes_step [OF _ order_refl]
lemmas writes_txt = txts.writes_step [OF _ length_enc_txt]

lemma writes_a:
  "length v = 4 \<Longrightarrow> writes n P \<Longrightarrow> writes (4 + n) (\<lambda>msg off cm. bindR (packDataA v msg off) (\<lambda>(msg, off). P msg off cm))"
  by (rule ip4.writes_step) simp_all

lemma writes_aaaa:
  "length v = 16 \<Longrightarrow> writes n P \<Longrightarrow> writes (16 + n) (\<lambda>msg off cm. bindR (packDataAAAA v msg off) (\<lambda>(msg, off). P msg off cm))"
  by (rule ip6.writes_step) simp_all

lemma writes_string:
  assumes "ok_string v" and "writes n P"
  shows "writes (length v + 1 + n) (\<lambda>msg off cm. bindR (packString v msg off) (\<lambda>(msg, off). P msg off cm))"
  using assms(1) _ assms(2) by (rule string.writes_step) (simp add: enc_string_def length_txt_octets)

context text_field
begin

lemma writes_text:
  assumes "ok_text dec txt_of v" and "length (text_octets dec v) \<le> k" and "writes n P"
  shows "writes (k + n) (\<lambda>msg off cm. bindR (pack v msg off) (\<lambda>(msg, off). P msg off cm))"
  using ok_text_ex [OF assms(1)] _ assms(3) by (rule writes_step) (use assms(2) in \<open>simp add: text_octets_def\<close>)

end

lemma writes_hex:
  "ok_hex v \<Longrightarrow> writes n P \<Longrightarrow> writes (length v div 2 + n) (\<lambda>msg off cm. bindR (packStringHex v msg off) (\<lambda>(msg, off). P msg off cm))"
  by (rule hex.writes_text [OF _ ok_text_length(1)])

lemma writes_base64:
  "ok_base64 v \<Longrightarrow> writes n P \<Longrightarrow>
   writes (DecodedLen (length v) + n) (\<lambda>msg off cm. bindR (packStringBase64 v msg off) (\<lambda>(msg, off). P msg off cm))"
  by (rule b64.writes_text [OF _ ok_text_length(2)])

lemma writes_base32:
  "ok_base32 v \<Longrightarrow> writes n P \<Longrightarrow>
   writes (length v + n) (\<lambda>msg off cm. bindR (packStringBase32 v msg off) (\<lambda>(msg, off). P msg off cm))"
  by (rule b32.writes_text [OF _ ok_text_length(3)])

lemma writes_nsec:
  "ok_bitmap v \<Longrightarrow> writes n P \<Longrightarrow>
   writes (typeBitMapLen v + n) (\<lambda>msg off cm. bindR (packDataNsec v msg off) (\<lambda>(msg, off). P msg off cm))"
  by (rule nsec.writes_step [OF _ length_enc_bitmap])

lemma writes_apl:
  "ok_apl v \<Longrightarrow> writes n P \<Longrightarrow>
   writes (sum_list (map APLPrefix_len v) + n) (\<lambda>msg off cm. bindR (packDataApl v msg off) (\<lambda>(msg, off). P msg off cm))"
  by (rule apl.writes_step [OF _ length_enc_apl])

lemma writes_opt:
  "ok_opt v \<Longrightarrow> writes n P \<Longrightarrow>
   writes (sum_list (map EDNS0_len v) + n) (\<lambda>msg off cm. bindR (packDataOpt v msg off) (\<lambda>(msg, off). P msg off cm))"
  by (rule opt.writes_step [OF _ length_enc_opt [THEN eq_refl]])

lemma writes_svcb:
  "ok_svcb v \<Longrightarrow> writes n P \<Longrightarrow>
   writes (sum_list (map (\<lambda>x. 4 + svcb_len x) v) + n) (\<lambda>msg off cm. bindR (packDataSVCB v msg off) (\<lambda>(msg, off). P msg off cm))"
  by (rule svcb.writes_step [OF _ length_enc_svcb [THEN eq_refl]])

lemma writes_name_step:
  "ok_name s \<Longrightarrow> writes n P \<Longrightarrow>
   writes (name_len s + n) (\<lambda>msg off cm. bindR (packDomainName s msg off cm compress) (\<lambda>(msg, cm, off). P msg off cm))"
  using writes_name [OF _ order_refl] by (rule writes_bind)

lemma writes_gateway:
  assumes "ok_gateway t a h" and "writes n P"
  shows "writes (gateway_len t h + n)
    (\<lambda>msg off cm. bindR (packIPSECGateway a h msg off t cm compress) (\<lambda>(msg, cm, off). P msg off cm))"
proof (rule writes_bind [OF _ assms(2)])
  consider "t = 1" | "t = 2" | "t = 3" | "t \<noteq> 1" "t \<noteq> 2" "t \<noteq> 3" by blast
  then show "writes (gateway_len t h) (\<lambda>msg off cm. packIPSECGateway a h msg off t cm compress)"
  proof cases
    case 1
    with assms(1) ip4.writes_field [of a 4] show ?thesis by (simp add: ok_gateway_def packIPSECGateway_def gateway_len_def)
  next
    case 2
    with assms(1) ip6.writes_field [of a 16] show ?thesis by (simp add: ok_gateway_def packIPSECGateway_def gateway_len_def)
  next
    case 3
    with assms(1) writes_name [of h "length h + 1"] ok_name_name_len(1) [of h] show ?thesis
      by (simp add: ok_gateway_def packIPSECGateway_def gateway_len_def)
  next
    case 4
    then show ?thesis using writes_end by (simp add: packIPSECGateway_def gateway_len_def cong: if_cong)
  qed
qed

lemma writes_mapErr: "writes n (\<lambda>msg off cm. mapErr (g msg) (P msg off cm)) = writes n P"
  by (simp add: writes_def writes_as_def)

lemma packDataDomainNames_loop_err:
  "packDataDomainNames_loop n xs msg off cm compress = mapErr (fail_at n) (packDataDomainNames_loop 0 xs msg off cm compress)"
proof (induction xs arbitrary: msg off cm)
  case (Cons x xs)
  show ?case
    by (cases "packDomainName x msg off cm compress") (auto simp: fail_at_def Cons.IH split: prod.splits)
qed simp

lemma writes_names:
  assumes "list_all ok_name xs" and "writes n P"
  shows "writes (sum_list (map name_len xs) + n)
    (\<lambda>msg off cm. bindR (packDataDomainNames xs msg off cm compress) (\<lambda>(msg, cm, off). P msg off cm))"
proof (rule writes_bind [OF _ assms(2)])
  have "writes (sum_list (map name_len xs)) (\<lambda>msg off cm. packDataDomainNames_loop 0 xs msg off cm compress)"
    using assms(1)
  proof (induction xs)
    case (Cons x xs)
    then show ?case
      by (auto simp: writes_mapErr intro!: writes_bind writes_name)
  qed (simp add: writes_end)
  then show "writes (sum_list (map name_len xs)) (\<lambda>msg off cm. packDataDomainNames xs msg off cm compress)"
    unfolding packDataDomainNames_def by (subst packDataDomainNames_loop_err) (simp add: writes_mapErr)
qed

subsection \<open>The interface of the record types, with lengths\<close>

text \<open>
  With the contract above, packing the data of a record does not depend on what the buffer holds
  before it, only on the names the compression map points to: the header may still be completed
  afterwards.
\<close>

locale sized_codec = rdata_codec pack unpack rdlength blank set_hdr hdr_len ok
  for pack :: "'r \<Rightarrow> bytes \<Rightarrow> nat \<Rightarrow> compressionMap \<Rightarrow> bool \<Rightarrow> (bytes \<times> compressionMap \<times> nat) off_res"
    and unpack :: "'r \<Rightarrow> bytes \<Rightarrow> nat \<Rightarrow> ('r \<times> nat) off_res"
    and rdlength :: "'r \<Rightarrow> nat" and blank :: "'r \<Rightarrow> 'h \<Rightarrow> 'r" and set_hdr :: "'h \<Rightarrow> 'r \<Rightarrow> 'r" and hdr_len :: "'h \<Rightarrow> nat"
    and ok :: "'r \<Rightarrow> bool" +
  fixes size_of :: "'r \<Rightarrow> nat"
  assumes pack_writes: "ok rr \<Longrightarrow> writes (size_of rr) (\<lambda>msg off cm. pack rr msg off cm compress)"
begin

lemma pack_total: "ok rr \<Longrightarrow> cm_nonneg cm \<Longrightarrow> off + size_of rr < length msg \<Longrightarrow> \<exists>r. pack rr msg off cm compress = Ok r"
  using pack_writes [of rr compress] unfolding writes_def writes_as_def by blast

lemma pack_anywhere:
  assumes "ok rr" and "pack rr msg off cm compress = Ok (msg', cm', off')" and "off \<le> length msg"
    and "length Q = off" and "cm_sound cm Q"
  obtains e where "msg' = put msg off e" and "off' = off + length e" and "off' \<le> length msg" and "length e \<le> size_of rr"
    and "cm_sound cm' (Q @ e)" and "\<And>h. hdr_len h = length e \<Longrightarrow> unpack (blank rr h) (Q @ e) off = Ok (set_hdr h rr, off')"
proof -
  obtain e c where w: "writes_as e c (size_of rr) (\<lambda>msg off cm. pack rr msg off cm compress) off cm"
    using pack_writes [OF assms(1)] cm_sound_nonneg [OF assms(5)] unfolding writes_def by blast
  note W = writes_asD [OF w]
  from W(3) [OF assms(2)] have r: "msg' = put msg off e" "c = cm'" "off' = off + length e" "off' \<le> length msg"
    using assms(3) by (cases "e = []"; auto)+
  let ?B = "Q @ replicate (size_of rr + 1) 0"
  obtain r where "pack rr ?B off cm compress = Ok r" using W(4) [where msg = ?B] assms(4) by auto
  with W(3) [OF this] r have B: "pack rr ?B off cm compress = Ok (put ?B off e, cm', off')" by simp
  have t: "take off' (put ?B off e) = Q @ e" using W(2) assms(4) r(3) take_put_end [of off e ?B] by simp
  have pre: "off \<le> length ?B" "cm_sound cm (take off ?B)" using assms(4,5) by auto
  have "cm_sound cm' (Q @ e)" using pack_keeps(2) [OF assms(1) pre B] t by simp
  moreover have "unpack (blank rr h) (Q @ e) off = Ok (set_hdr h rr, off')" if "hdr_len h = length e" for h
    using reads_back [OF assms(1) pre B, of "Q @ e" h] t r(3) that assms(4) W(2) by (simp add: agree_def)
  ultimately show ?thesis using that r W(2) by blast
qed

end

text \<open>
  The length that \<^verbatim>\<open>domainNameLen\<close> computes for a name without compression, from its text and
  its escapes alone, is the number of octets that packing it without compression writes.
\<close>

lemma domainNameLen_packed:
  assumes "IsFqdn s" and "name_labels s = Some ls"
    and "packDomainName s msg off no_compression False = Ok (msg', cm', off')"
  shows "off' = off + fst (domainNameLen s off None compress)"
proof -
  have e: "fst (enc_labels False no_compression n ps) = concat (map (\<lambda>(l, _). of_nat (length l) # l) ps) @ [0]" for n ps
    by (induction ps arbitrary: n) (auto simp: ref_compress_def no_compression_def cm_valid_def Let_def split_def)
  have "length (concat (map (\<lambda>(l, _). of_nat (length l) # l) ps) @ [0 :: byte]) = wire_len (map fst ps)" for ps :: "(bytes \<times> gostring) list"
    by (induction ps) auto
  then have "length (fst (enc_name False no_compression off s)) = wire_len ls"
    using assms(2) split_labels_suffixes [of "[]" s ls s] e
    by (auto simp: enc_name_def name_labels_def split: option.splits if_splits)
  moreover have "off' = off + length (fst (enc_name False no_compression off s))"
    using packDomainName_packs [OF assms(1,2) cm_nonneg_none, of msg off False] assms(3) by (simp add: packs_def)
  ultimately show ?thesis using domainNameLen_exact [OF assms(2)] by simp
qed

end
