(* ===== verification/Zmsg_Pack.thy ===== *)
theory Zmsg_Pack
  imports RR_Types
begin

section \<open>Packing the data of a record\<close>

text \<open>
  The \<^verbatim>\<open>pack\<close> methods of \<^verbatim>\<open>zmsg.go\<close>, one definition each. A field goes
  through the packer of its type, and the first error is returned as it is. \<open>rr_pack\<close> is the
  dynamic dispatch of \<^verbatim>\<open>rr.pack\<close>.
\<close>

definition A_pack ::
  "A \<Rightarrow> bytes \<Rightarrow> nat \<Rightarrow> compressionMap \<Rightarrow> bool \<Rightarrow> (bytes \<times> compressionMap \<times> nat) off_res" where
  "A_pack rr msg off compression compress =
     bindR (packDataA (A_A rr) msg off) (\<lambda>(msg, off).
     Ok (msg, compression, off))"

definition AAAA_pack ::
  "AAAA \<Rightarrow> bytes \<Rightarrow> nat \<Rightarrow> compressionMap \<Rightarrow> bool \<Rightarrow> (bytes \<times> compressionMap \<times> nat) off_res" where
  "AAAA_pack rr msg off compression compress =
     bindR (packDataAAAA (AAAA_AAAA rr) msg off) (\<lambda>(msg, off).
     Ok (msg, compression, off))"

definition AFSDB_pack ::
  "AFSDB \<Rightarrow> bytes \<Rightarrow> nat \<Rightarrow> compressionMap \<Rightarrow> bool \<Rightarrow> (bytes \<times> compressionMap \<times> nat) off_res" where
  "AFSDB_pack rr msg off compression compress =
     bindR (packUint16 (AFSDB_Subtype rr) msg off) (\<lambda>(msg, off).
     bindR (packDomainName (AFSDB_Hostname rr) msg off compression False) (\<lambda>(msg, compression, off).
     Ok (msg, compression, off)))"

definition AMTRELAY_pack ::
  "AMTRELAY \<Rightarrow> bytes \<Rightarrow> nat \<Rightarrow> compressionMap \<Rightarrow> bool \<Rightarrow> (bytes \<times> compressionMap \<times> nat) off_res" where
  "AMTRELAY_pack rr msg off compression compress =
     bindR (packUint8 (AMTRELAY_Precedence rr) msg off) (\<lambda>(msg, off).
     bindR (packUint8 (AMTRELAY_GatewayType rr) msg off) (\<lambda>(msg, off).
     bindR (packIPSECGateway (AMTRELAY_GatewayAddr rr) (AMTRELAY_GatewayHost rr) msg off (AMTRELAY_GatewayType rr) compression False) (\<lambda>(msg, compression, off).
     Ok (msg, compression, off))))"

definition ANY_pack ::
  "ANY \<Rightarrow> bytes \<Rightarrow> nat \<Rightarrow> compressionMap \<Rightarrow> bool \<Rightarrow> (bytes \<times> compressionMap \<times> nat) off_res" where
  "ANY_pack rr msg off compression compress =
     Ok (msg, compression, off)"

definition APL_pack ::
  "APL \<Rightarrow> bytes \<Rightarrow> nat \<Rightarrow> compressionMap \<Rightarrow> bool \<Rightarrow> (bytes \<times> compressionMap \<times> nat) off_res" where
  "APL_pack rr msg off compression compress =
     bindR (packDataApl (APL_Prefixes rr) msg off) (\<lambda>(msg, off).
     Ok (msg, compression, off))"

definition AVC_pack ::
  "AVC \<Rightarrow> bytes \<Rightarrow> nat \<Rightarrow> compressionMap \<Rightarrow> bool \<Rightarrow> (bytes \<times> compressionMap \<times> nat) off_res" where
  "AVC_pack rr msg off compression compress =
     bindR (packStringTxt (AVC_Txt rr) msg off) (\<lambda>(msg, off).
     Ok (msg, compression, off))"

definition CAA_pack ::
  "CAA \<Rightarrow> bytes \<Rightarrow> nat \<Rightarrow> compressionMap \<Rightarrow> bool \<Rightarrow> (bytes \<times> compressionMap \<times> nat) off_res" where
  "CAA_pack rr msg off compression compress =
     bindR (packUint8 (CAA_Flag rr) msg off) (\<lambda>(msg, off).
     bindR (packString (CAA_Tag rr) msg off) (\<lambda>(msg, off).
     bindR (packStringOctet (CAA_Value rr) msg off) (\<lambda>(msg, off).
     Ok (msg, compression, off))))"

definition CDNSKEY_pack ::
  "CDNSKEY \<Rightarrow> bytes \<Rightarrow> nat \<Rightarrow> compressionMap \<Rightarrow> bool \<Rightarrow> (bytes \<times> compressionMap \<times> nat) off_res" where
  "CDNSKEY_pack rr msg off compression compress =
     bindR (packUint16 (DNSKEY_Flags rr) msg off) (\<lambda>(msg, off).
     bindR (packUint8 (DNSKEY_Protocol rr) msg off) (\<lambda>(msg, off).
     bindR (packUint8 (DNSKEY_Algorithm rr) msg off) (\<lambda>(msg, off).
     bindR (packStringBase64 (DNSKEY_PublicKey rr) msg off) (\<lambda>(msg, off).
     Ok (msg, compression, off)))))"

definition CDS_pack ::
  "CDS \<Rightarrow> bytes \<Rightarrow> nat \<Rightarrow> compressionMap \<Rightarrow> bool \<Rightarrow> (bytes \<times> compressionMap \<times> nat) off_res" where
  "CDS_pack rr msg off compression compress =
     bindR (packUint16 (DS_KeyTag rr) msg off) (\<lambda>(msg, off).
     bindR (packUint8 (DS_Algorithm rr) msg off) (\<lambda>(msg, off).
     bindR (packUint8 (DS_DigestType rr) msg off) (\<lambda>(msg, off).
     bindR (packStringHex (DS_Digest rr) msg off) (\<lambda>(msg, off).
     Ok (msg, compression, off)))))"

definition CERT_pack ::
  "CERT \<Rightarrow> bytes \<Rightarrow> nat \<Rightarrow> compressionMap \<Rightarrow> bool \<Rightarrow> (bytes \<times> compressionMap \<times> nat) off_res" where
  "CERT_pack rr msg off compression compress =
     bindR (packUint16 (CERT_Type rr) msg off) (\<lambda>(msg, off).
     bindR (packUint16 (CERT_KeyTag rr) msg off) (\<lambda>(msg, off).
     bindR (packUint8 (CERT_Algorithm rr) msg off) (\<lambda>(msg, off).
     bindR (packStringBase64 (CERT_Certificate rr) msg off) (\<lambda>(msg, off).
     Ok (msg, compression, off)))))"

definition CNAME_pack ::
  "CNAME \<Rightarrow> bytes \<Rightarrow> nat \<Rightarrow> compressionMap \<Rightarrow> bool \<Rightarrow> (bytes \<times> compressionMap \<times> nat) off_res" where
  "CNAME_pack rr msg off compression compress =
     bindR (packDomainName (CNAME_Target rr) msg off compression compress) (\<lambda>(msg, compression, off).
     Ok (msg, compression, off))"

definition CSYNC_pack ::
  "CSYNC \<Rightarrow> bytes \<Rightarrow> nat \<Rightarrow> compressionMap \<Rightarrow> bool \<Rightarrow> (bytes \<times> compressionMap \<times> nat) off_res" where
  "CSYNC_pack rr msg off compression compress =
     bindR (packUint32 (CSYNC_Serial rr) msg off) (\<lambda>(msg, off).
     bindR (packUint16 (CSYNC_Flags rr) msg off) (\<lambda>(msg, off).
     bindR (packDataNsec (CSYNC_TypeBitMap rr) msg off) (\<lambda>(msg, off).
     Ok (msg, compression, off))))"

definition DHCID_pack ::
  "DHCID \<Rightarrow> bytes \<Rightarrow> nat \<Rightarrow> compressionMap \<Rightarrow> bool \<Rightarrow> (bytes \<times> compressionMap \<times> nat) off_res" where
  "DHCID_pack rr msg off compression compress =
     bindR (packStringBase64 (DHCID_Digest rr) msg off) (\<lambda>(msg, off).
     Ok (msg, compression, off))"

definition DLV_pack ::
  "DLV \<Rightarrow> bytes \<Rightarrow> nat \<Rightarrow> compressionMap \<Rightarrow> bool \<Rightarrow> (bytes \<times> compressionMap \<times> nat) off_res" where
  "DLV_pack rr msg off compression compress =
     bindR (packUint16 (DS_KeyTag rr) msg off) (\<lambda>(msg, off).
     bindR (packUint8 (DS_Algorithm rr) msg off) (\<lambda>(msg, off).
     bindR (packUint8 (DS_DigestType rr) msg off) (\<lambda>(msg, off).
     bindR (packStringHex (DS_Digest rr) msg off) (\<lambda>(msg, off).
     Ok (msg, compression, off)))))"

definition DNAME_pack ::
  "DNAME \<Rightarrow> bytes \<Rightarrow> nat \<Rightarrow> compressionMap \<Rightarrow> bool \<Rightarrow> (bytes \<times> compressionMap \<times> nat) off_res" where
  "DNAME_pack rr msg off compression compress =
     bindR (packDomainName (DNAME_Target rr) msg off compression False) (\<lambda>(msg, compression, off).
     Ok (msg, compression, off))"

definition DNSKEY_pack ::
  "DNSKEY \<Rightarrow> bytes \<Rightarrow> nat \<Rightarrow> compressionMap \<Rightarrow> bool \<Rightarrow> (bytes \<times> compressionMap \<times> nat) off_res" where
  "DNSKEY_pack rr msg off compression compress =
     bindR (packUint16 (DNSKEY_Flags rr) msg off) (\<lambda>(msg, off).
     bindR (packUint8 (DNSKEY_Protocol rr) msg off) (\<lambda>(msg, off).
     bindR (packUint8 (DNSKEY_Algorithm rr) msg off) (\<lambda>(msg, off).
     bindR (packStringBase64 (DNSKEY_PublicKey rr) msg off) (\<lambda>(msg, off).
     Ok (msg, compression, off)))))"

definition DS_pack ::
  "DS \<Rightarrow> bytes \<Rightarrow> nat \<Rightarrow> compressionMap \<Rightarrow> bool \<Rightarrow> (bytes \<times> compressionMap \<times> nat) off_res" where
  "DS_pack rr msg off compression compress =
     bindR (packUint16 (DS_KeyTag rr) msg off) (\<lambda>(msg, off).
     bindR (packUint8 (DS_Algorithm rr) msg off) (\<lambda>(msg, off).
     bindR (packUint8 (DS_DigestType rr) msg off) (\<lambda>(msg, off).
     bindR (packStringHex (DS_Digest rr) msg off) (\<lambda>(msg, off).
     Ok (msg, compression, off)))))"

definition EID_pack ::
  "EID \<Rightarrow> bytes \<Rightarrow> nat \<Rightarrow> compressionMap \<Rightarrow> bool \<Rightarrow> (bytes \<times> compressionMap \<times> nat) off_res" where
  "EID_pack rr msg off compression compress =
     bindR (packStringHex (EID_Endpoint rr) msg off) (\<lambda>(msg, off).
     Ok (msg, compression, off))"

definition EUI48_pack ::
  "EUI48 \<Rightarrow> bytes \<Rightarrow> nat \<Rightarrow> compressionMap \<Rightarrow> bool \<Rightarrow> (bytes \<times> compressionMap \<times> nat) off_res" where
  "EUI48_pack rr msg off compression compress =
     bindR (packUint48 (EUI48_Address rr) msg off) (\<lambda>(msg, off).
     Ok (msg, compression, off))"

definition EUI64_pack ::
  "EUI64 \<Rightarrow> bytes \<Rightarrow> nat \<Rightarrow> compressionMap \<Rightarrow> bool \<Rightarrow> (bytes \<times> compressionMap \<times> nat) off_res" where
  "EUI64_pack rr msg off compression compress =
     bindR (packUint64 (EUI64_Address rr) msg off) (\<lambda>(msg, off).
     Ok (msg, compression, off))"

definition GID_pack ::
  "GID \<Rightarrow> bytes \<Rightarrow> nat \<Rightarrow> compressionMap \<Rightarrow> bool \<Rightarrow> (bytes \<times> compressionMap \<times> nat) off_res" where
  "GID_pack rr msg off compression compress =
     bindR (packUint32 (GID_Gid rr) msg off) (\<lambda>(msg, off).
     Ok (msg, compression, off))"

definition GPOS_pack ::
  "GPOS \<Rightarrow> bytes \<Rightarrow> nat \<Rightarrow> compressionMap \<Rightarrow> bool \<Rightarrow> (bytes \<times> compressionMap \<times> nat) off_res" where
  "GPOS_pack rr msg off compression compress =
     bindR (packString (GPOS_Longitude rr) msg off) (\<lambda>(msg, off).
     bindR (packString (GPOS_Latitude rr) msg off) (\<lambda>(msg, off).
     bindR (packString (GPOS_Altitude rr) msg off) (\<lambda>(msg, off).
     Ok (msg, compression, off))))"

definition HINFO_pack ::
  "HINFO \<Rightarrow> bytes \<Rightarrow> nat \<Rightarrow> compressionMap \<Rightarrow> bool \<Rightarrow> (bytes \<times> compressionMap \<times> nat) off_res" where
  "HINFO_pack rr msg off compression compress =
     bindR (packString (HINFO_Cpu rr) msg off) (\<lambda>(msg, off).
     bindR (packString (HINFO_Os rr) msg off) (\<lambda>(msg, off).
     Ok (msg, compression, off)))"

definition HIP_pack ::
  "HIP \<Rightarrow> bytes \<Rightarrow> nat \<Rightarrow> compressionMap \<Rightarrow> bool \<Rightarrow> (bytes \<times> compressionMap \<times> nat) off_res" where
  "HIP_pack rr msg off compression compress =
     bindR (packUint8 (HIP_HitLength rr) msg off) (\<lambda>(msg, off).
     bindR (packUint8 (HIP_PublicKeyAlgorithm rr) msg off) (\<lambda>(msg, off).
     bindR (packUint16 (HIP_PublicKeyLength rr) msg off) (\<lambda>(msg, off).
     bindR (packStringHex (HIP_Hit rr) msg off) (\<lambda>(msg, off).
     bindR (packStringBase64 (HIP_PublicKey rr) msg off) (\<lambda>(msg, off).
     bindR (packDataDomainNames (HIP_RendezvousServers rr) msg off compression False) (\<lambda>(msg, compression, off).
     Ok (msg, compression, off)))))))"

definition HTTPS_pack ::
  "HTTPS \<Rightarrow> bytes \<Rightarrow> nat \<Rightarrow> compressionMap \<Rightarrow> bool \<Rightarrow> (bytes \<times> compressionMap \<times> nat) off_res" where
  "HTTPS_pack rr msg off compression compress =
     bindR (packUint16 (SVCB_Priority rr) msg off) (\<lambda>(msg, off).
     bindR (packDomainName (SVCB_Target rr) msg off compression False) (\<lambda>(msg, compression, off).
     bindR (packDataSVCB (SVCB_Value rr) msg off) (\<lambda>(msg, off).
     Ok (msg, compression, off))))"

definition IPSECKEY_pack ::
  "IPSECKEY \<Rightarrow> bytes \<Rightarrow> nat \<Rightarrow> compressionMap \<Rightarrow> bool \<Rightarrow> (bytes \<times> compressionMap \<times> nat) off_res" where
  "IPSECKEY_pack rr msg off compression compress =
     bindR (packUint8 (IPSECKEY_Precedence rr) msg off) (\<lambda>(msg, off).
     bindR (packUint8 (IPSECKEY_GatewayType rr) msg off) (\<lambda>(msg, off).
     bindR (packUint8 (IPSECKEY_Algorithm rr) msg off) (\<lambda>(msg, off).
     bindR (packIPSECGateway (IPSECKEY_GatewayAddr rr) (IPSECKEY_GatewayHost rr) msg off (IPSECKEY_GatewayType rr) compression False) (\<lambda>(msg, compression, off).
     bindR (packStringBase64 (IPSECKEY_PublicKey rr) msg off) (\<lambda>(msg, off).
     Ok (msg, compression, off))))))"

definition ISDN_pack ::
  "ISDN \<Rightarrow> bytes \<Rightarrow> nat \<Rightarrow> compressionMap \<Rightarrow> bool \<Rightarrow> (bytes \<times> compressionMap \<times> nat) off_res" where
  "ISDN_pack rr msg off compression compress =
     bindR (packString (ISDN_Address rr) msg off) (\<lambda>(msg, off).
     bindR (packString (ISDN_SubAddress rr) msg off) (\<lambda>(msg, off).
     Ok (msg, compression, off)))"

definition KEY_pack ::
  "KEY \<Rightarrow> bytes \<Rightarrow> nat \<Rightarrow> compressionMap \<Rightarrow> bool \<Rightarrow> (bytes \<times> compressionMap \<times> nat) off_res" where
  "KEY_pack rr msg off compression compress =
     bindR (packUint16 (DNSKEY_Flags rr) msg off) (\<lambda>(msg, off).
     bindR (packUint8 (DNSKEY_Protocol rr) msg off) (\<lambda>(msg, off).
     bindR (packUint8 (DNSKEY_Algorithm rr) msg off) (\<lambda>(msg, off).
     bindR (packStringBase64 (DNSKEY_PublicKey rr) msg off) (\<lambda>(msg, off).
     Ok (msg, compression, off)))))"

definition KX_pack ::
  "KX \<Rightarrow> bytes \<Rightarrow> nat \<Rightarrow> compressionMap \<Rightarrow> bool \<Rightarrow> (bytes \<times> compressionMap \<times> nat) off_res" where
  "KX_pack rr msg off compression compress =
     bindR (packUint16 (KX_Preference rr) msg off) (\<lambda>(msg, off).
     bindR (packDomainName (KX_Exchanger rr) msg off compression False) (\<lambda>(msg, compression, off).
     Ok (msg, compression, off)))"

definition L32_pack ::
  "L32 \<Rightarrow> bytes \<Rightarrow> nat \<Rightarrow> compressionMap \<Rightarrow> bool \<Rightarrow> (bytes \<times> compressionMap \<times> nat) off_res" where
  "L32_pack rr msg off compression compress =
     bindR (packUint16 (L32_Preference rr) msg off) (\<lambda>(msg, off).
     bindR (packDataA (L32_Locator32 rr) msg off) (\<lambda>(msg, off).
     Ok (msg, compression, off)))"

definition L64_pack ::
  "L64 \<Rightarrow> bytes \<Rightarrow> nat \<Rightarrow> compressionMap \<Rightarrow> bool \<Rightarrow> (bytes \<times> compressionMap \<times> nat) off_res" where
  "L64_pack rr msg off compression compress =
     bindR (packUint16 (L64_Preference rr) msg off) (\<lambda>(msg, off).
     bindR (packUint64 (L64_Locator64 rr) msg off) (\<lambda>(msg, off).
     Ok (msg, compression, off)))"

definition LOC_pack ::
  "LOC \<Rightarrow> bytes \<Rightarrow> nat \<Rightarrow> compressionMap \<Rightarrow> bool \<Rightarrow> (bytes \<times> compressionMap \<times> nat) off_res" where
  "LOC_pack rr msg off compression compress =
     bindR (packUint8 (LOC_Version rr) msg off) (\<lambda>(msg, off).
     bindR (packUint8 (LOC_Size rr) msg off) (\<lambda>(msg, off).
     bindR (packUint8 (LOC_HorizPre rr) msg off) (\<lambda>(msg, off).
     bindR (packUint8 (LOC_VertPre rr) msg off) (\<lambda>(msg, off).
     bindR (packUint32 (LOC_Latitude rr) msg off) (\<lambda>(msg, off).
     bindR (packUint32 (LOC_Longitude rr) msg off) (\<lambda>(msg, off).
     bindR (packUint32 (LOC_Altitude rr) msg off) (\<lambda>(msg, off).
     Ok (msg, compression, off))))))))"

definition LP_pack ::
  "LP \<Rightarrow> bytes \<Rightarrow> nat \<Rightarrow> compressionMap \<Rightarrow> bool \<Rightarrow> (bytes \<times> compressionMap \<times> nat) off_res" where
  "LP_pack rr msg off compression compress =
     bindR (packUint16 (LP_Preference rr) msg off) (\<lambda>(msg, off).
     bindR (packDomainName (LP_Fqdn rr) msg off compression False) (\<lambda>(msg, compression, off).
     Ok (msg, compression, off)))"

definition MB_pack ::
  "MB \<Rightarrow> bytes \<Rightarrow> nat \<Rightarrow> compressionMap \<Rightarrow> bool \<Rightarrow> (bytes \<times> compressionMap \<times> nat) off_res" where
  "MB_pack rr msg off compression compress =
     bindR (packDomainName (MB_Mb rr) msg off compression compress) (\<lambda>(msg, compression, off).
     Ok (msg, compression, off))"

definition MD_pack ::
  "MD \<Rightarrow> bytes \<Rightarrow> nat \<Rightarrow> compressionMap \<Rightarrow> bool \<Rightarrow> (bytes \<times> compressionMap \<times> nat) off_res" where
  "MD_pack rr msg off compression compress =
     bindR (packDomainName (MD_Md rr) msg off compression compress) (\<lambda>(msg, compression, off).
     Ok (msg, compression, off))"

definition MF_pack ::
  "MF \<Rightarrow> bytes \<Rightarrow> nat \<Rightarrow> compressionMap \<Rightarrow> bool \<Rightarrow> (bytes \<times> compressionMap \<times> nat) off_res" where
  "MF_pack rr msg off compression compress =
     bindR (packDomainName (MF_Mf rr) msg off compression compress) (\<lambda>(msg, compression, off).
     Ok (msg, compression, off))"

definition MG_pack ::
  "MG \<Rightarrow> bytes \<Rightarrow> nat \<Rightarrow> compressionMap \<Rightarrow> bool \<Rightarrow> (bytes \<times> compressionMap \<times> nat) off_res" where
  "MG_pack rr msg off compression compress =
     bindR (packDomainName (MG_Mg rr) msg off compression compress) (\<lambda>(msg, compression, off).
     Ok (msg, compression, off))"

definition MINFO_pack ::
  "MINFO \<Rightarrow> bytes \<Rightarrow> nat \<Rightarrow> compressionMap \<Rightarrow> bool \<Rightarrow> (bytes \<times> compressionMap \<times> nat) off_res" where
  "MINFO_pack rr msg off compression compress =
     bindR (packDomainName (MINFO_Rmail rr) msg off compression compress) (\<lambda>(msg, compression, off).
     bindR (packDomainName (MINFO_Email rr) msg off compression compress) (\<lambda>(msg, compression, off).
     Ok (msg, compression, off)))"

definition MR_pack ::
  "MR \<Rightarrow> bytes \<Rightarrow> nat \<Rightarrow> compressionMap \<Rightarrow> bool \<Rightarrow> (bytes \<times> compressionMap \<times> nat) off_res" where
  "MR_pack rr msg off compression compress =
     bindR (packDomainName (MR_Mr rr) msg off compression compress) (\<lambda>(msg, compression, off).
     Ok (msg, compression, off))"

definition MX_pack ::
  "MX \<Rightarrow> bytes \<Rightarrow> nat \<Rightarrow> compressionMap \<Rightarrow> bool \<Rightarrow> (bytes \<times> compressionMap \<times> nat) off_res" where
  "MX_pack rr msg off compression compress =
     bindR (packUint16 (MX_Preference rr) msg off) (\<lambda>(msg, off).
     bindR (packDomainName (MX_Mx rr) msg off compression compress) (\<lambda>(msg, compression, off).
     Ok (msg, compression, off)))"

definition NAPTR_pack ::
  "NAPTR \<Rightarrow> bytes \<Rightarrow> nat \<Rightarrow> compressionMap \<Rightarrow> bool \<Rightarrow> (bytes \<times> compressionMap \<times> nat) off_res" where
  "NAPTR_pack rr msg off compression compress =
     bindR (packUint16 (NAPTR_Order rr) msg off) (\<lambda>(msg, off).
     bindR (packUint16 (NAPTR_Preference rr) msg off) (\<lambda>(msg, off).
     bindR (packString (NAPTR_Flags rr) msg off) (\<lambda>(msg, off).
     bindR (packString (NAPTR_Service rr) msg off) (\<lambda>(msg, off).
     bindR (packString (NAPTR_Regexp rr) msg off) (\<lambda>(msg, off).
     bindR (packDomainName (NAPTR_Replacement rr) msg off compression False) (\<lambda>(msg, compression, off).
     Ok (msg, compression, off)))))))"

definition NID_pack ::
  "NID \<Rightarrow> bytes \<Rightarrow> nat \<Rightarrow> compressionMap \<Rightarrow> bool \<Rightarrow> (bytes \<times> compressionMap \<times> nat) off_res" where
  "NID_pack rr msg off compression compress =
     bindR (packUint16 (NID_Preference rr) msg off) (\<lambda>(msg, off).
     bindR (packUint64 (NID_NodeID rr) msg off) (\<lambda>(msg, off).
     Ok (msg, compression, off)))"

definition NIMLOC_pack ::
  "NIMLOC \<Rightarrow> bytes \<Rightarrow> nat \<Rightarrow> compressionMap \<Rightarrow> bool \<Rightarrow> (bytes \<times> compressionMap \<times> nat) off_res" where
  "NIMLOC_pack rr msg off compression compress =
     bindR (packStringHex (NIMLOC_Locator rr) msg off) (\<lambda>(msg, off).
     Ok (msg, compression, off))"

definition NINFO_pack ::
  "NINFO \<Rightarrow> bytes \<Rightarrow> nat \<Rightarrow> compressionMap \<Rightarrow> bool \<Rightarrow> (bytes \<times> compressionMap \<times> nat) off_res" where
  "NINFO_pack rr msg off compression compress =
     bindR (packStringTxt (NINFO_ZSData rr) msg off) (\<lambda>(msg, off).
     Ok (msg, compression, off))"

definition NS_pack ::
  "NS \<Rightarrow> bytes \<Rightarrow> nat \<Rightarrow> compressionMap \<Rightarrow> bool \<Rightarrow> (bytes \<times> compressionMap \<times> nat) off_res" where
  "NS_pack rr msg off compression compress =
     bindR (packDomainName (NS_Ns rr) msg off compression compress) (\<lambda>(msg, compression, off).
     Ok (msg, compression, off))"

definition NSAPPTR_pack ::
  "NSAPPTR \<Rightarrow> bytes \<Rightarrow> nat \<Rightarrow> compressionMap \<Rightarrow> bool \<Rightarrow> (bytes \<times> compressionMap \<times> nat) off_res" where
  "NSAPPTR_pack rr msg off compression compress =
     bindR (packDomainName (NSAPPTR_Ptr rr) msg off compression False) (\<lambda>(msg, compression, off).
     Ok (msg, compression, off))"

definition NSEC_pack ::
  "NSEC \<Rightarrow> bytes \<Rightarrow> nat \<Rightarrow> compressionMap \<Rightarrow> bool \<Rightarrow> (bytes \<times> compressionMap \<times> nat) off_res" where
  "NSEC_pack rr msg off compression compress =
     bindR (packDomainName (NSEC_NextDomain rr) msg off compression False) (\<lambda>(msg, compression, off).
     bindR (packDataNsec (NSEC_TypeBitMap rr) msg off) (\<lambda>(msg, off).
     Ok (msg, compression, off)))"

definition NSEC3_pack ::
  "NSEC3 \<Rightarrow> bytes \<Rightarrow> nat \<Rightarrow> compressionMap \<Rightarrow> bool \<Rightarrow> (bytes \<times> compressionMap \<times> nat) off_res" where
  "NSEC3_pack rr msg off compression compress =
     bindR (packUint8 (NSEC3_Hash rr) msg off) (\<lambda>(msg, off).
     bindR (packUint8 (NSEC3_Flags rr) msg off) (\<lambda>(msg, off).
     bindR (packUint16 (NSEC3_Iterations rr) msg off) (\<lambda>(msg, off).
     bindR (packUint8 (NSEC3_SaltLength rr) msg off) (\<lambda>(msg, off).
     bindR (if NSEC3_Salt rr \<noteq> [0x2D] then packStringHex (NSEC3_Salt rr) msg off else Ok (msg, off)) (\<lambda>(msg, off).
     bindR (packUint8 (NSEC3_HashLength rr) msg off) (\<lambda>(msg, off).
     bindR (packStringBase32 (NSEC3_NextDomain rr) msg off) (\<lambda>(msg, off).
     bindR (packDataNsec (NSEC3_TypeBitMap rr) msg off) (\<lambda>(msg, off).
     Ok (msg, compression, off)))))))))"

definition NSEC3PARAM_pack ::
  "NSEC3PARAM \<Rightarrow> bytes \<Rightarrow> nat \<Rightarrow> compressionMap \<Rightarrow> bool \<Rightarrow> (bytes \<times> compressionMap \<times> nat) off_res" where
  "NSEC3PARAM_pack rr msg off compression compress =
     bindR (packUint8 (NSEC3PARAM_Hash rr) msg off) (\<lambda>(msg, off).
     bindR (packUint8 (NSEC3PARAM_Flags rr) msg off) (\<lambda>(msg, off).
     bindR (packUint16 (NSEC3PARAM_Iterations rr) msg off) (\<lambda>(msg, off).
     bindR (packUint8 (NSEC3PARAM_SaltLength rr) msg off) (\<lambda>(msg, off).
     bindR (if NSEC3PARAM_Salt rr \<noteq> [0x2D] then packStringHex (NSEC3PARAM_Salt rr) msg off else Ok (msg, off)) (\<lambda>(msg, off).
     Ok (msg, compression, off))))))"

definition NULL_pack ::
  "NULL \<Rightarrow> bytes \<Rightarrow> nat \<Rightarrow> compressionMap \<Rightarrow> bool \<Rightarrow> (bytes \<times> compressionMap \<times> nat) off_res" where
  "NULL_pack rr msg off compression compress =
     bindR (packStringAny (NULL_Data rr) msg off) (\<lambda>(msg, off).
     Ok (msg, compression, off))"

definition NXNAME_pack ::
  "NXNAME \<Rightarrow> bytes \<Rightarrow> nat \<Rightarrow> compressionMap \<Rightarrow> bool \<Rightarrow> (bytes \<times> compressionMap \<times> nat) off_res" where
  "NXNAME_pack rr msg off compression compress =
     Ok (msg, compression, off)"

definition NXT_pack ::
  "NXT \<Rightarrow> bytes \<Rightarrow> nat \<Rightarrow> compressionMap \<Rightarrow> bool \<Rightarrow> (bytes \<times> compressionMap \<times> nat) off_res" where
  "NXT_pack rr msg off compression compress =
     bindR (packDomainName (NSEC_NextDomain rr) msg off compression False) (\<lambda>(msg, compression, off).
     bindR (packDataNsec (NSEC_TypeBitMap rr) msg off) (\<lambda>(msg, off).
     Ok (msg, compression, off)))"

definition OPENPGPKEY_pack ::
  "OPENPGPKEY \<Rightarrow> bytes \<Rightarrow> nat \<Rightarrow> compressionMap \<Rightarrow> bool \<Rightarrow> (bytes \<times> compressionMap \<times> nat) off_res" where
  "OPENPGPKEY_pack rr msg off compression compress =
     bindR (packStringBase64 (OPENPGPKEY_PublicKey rr) msg off) (\<lambda>(msg, off).
     Ok (msg, compression, off))"

definition OPT_pack ::
  "OPT \<Rightarrow> bytes \<Rightarrow> nat \<Rightarrow> compressionMap \<Rightarrow> bool \<Rightarrow> (bytes \<times> compressionMap \<times> nat) off_res" where
  "OPT_pack rr msg off compression compress =
     bindR (packDataOpt (OPT_Option rr) msg off) (\<lambda>(msg, off).
     Ok (msg, compression, off))"

definition PTR_pack ::
  "PTR \<Rightarrow> bytes \<Rightarrow> nat \<Rightarrow> compressionMap \<Rightarrow> bool \<Rightarrow> (bytes \<times> compressionMap \<times> nat) off_res" where
  "PTR_pack rr msg off compression compress =
     bindR (packDomainName (PTR_Ptr rr) msg off compression compress) (\<lambda>(msg, compression, off).
     Ok (msg, compression, off))"

definition PX_pack ::
  "PX \<Rightarrow> bytes \<Rightarrow> nat \<Rightarrow> compressionMap \<Rightarrow> bool \<Rightarrow> (bytes \<times> compressionMap \<times> nat) off_res" where
  "PX_pack rr msg off compression compress =
     bindR (packUint16 (PX_Preference rr) msg off) (\<lambda>(msg, off).
     bindR (packDomainName (PX_Map822 rr) msg off compression False) (\<lambda>(msg, compression, off).
     bindR (packDomainName (PX_Mapx400 rr) msg off compression False) (\<lambda>(msg, compression, off).
     Ok (msg, compression, off))))"

definition RESINFO_pack ::
  "RESINFO \<Rightarrow> bytes \<Rightarrow> nat \<Rightarrow> compressionMap \<Rightarrow> bool \<Rightarrow> (bytes \<times> compressionMap \<times> nat) off_res" where
  "RESINFO_pack rr msg off compression compress =
     bindR (packStringTxt (RESINFO_Txt rr) msg off) (\<lambda>(msg, off).
     Ok (msg, compression, off))"

definition RFC3597_pack ::
  "RFC3597 \<Rightarrow> bytes \<Rightarrow> nat \<Rightarrow> compressionMap \<Rightarrow> bool \<Rightarrow> (bytes \<times> compressionMap \<times> nat) off_res" where
  "RFC3597_pack rr msg off compression compress =
     bindR (packStringHex (RFC3597_Rdata rr) msg off) (\<lambda>(msg, off).
     Ok (msg, compression, off))"

definition RKEY_pack ::
  "RKEY \<Rightarrow> bytes \<Rightarrow> nat \<Rightarrow> compressionMap \<Rightarrow> bool \<Rightarrow> (bytes \<times> compressionMap \<times> nat) off_res" where
  "RKEY_pack rr msg off compression compress =
     bindR (packUint16 (RKEY_Flags rr) msg off) (\<lambda>(msg, off).
     bindR (packUint8 (RKEY_Protocol rr) msg off) (\<lambda>(msg, off).
     bindR (packUint8 (RKEY_Algorithm rr) msg off) (\<lambda>(msg, off).
     bindR (packStringBase64 (RKEY_PublicKey rr) msg off) (\<lambda>(msg, off).
     Ok (msg, compression, off)))))"

definition RP_pack ::
  "RP \<Rightarrow> bytes \<Rightarrow> nat \<Rightarrow> compressionMap \<Rightarrow> bool \<Rightarrow> (bytes \<times> compressionMap \<times> nat) off_res" where
  "RP_pack rr msg off compression compress =
     bindR (packDomainName (RP_Mbox rr) msg off compression False) (\<lambda>(msg, compression, off).
     bindR (packDomainName (RP_Txt rr) msg off compression False) (\<lambda>(msg, compression, off).
     Ok (msg, compression, off)))"

definition RRSIG_pack ::
  "RRSIG \<Rightarrow> bytes \<Rightarrow> nat \<Rightarrow> compressionMap \<Rightarrow> bool \<Rightarrow> (bytes \<times> compressionMap \<times> nat) off_res" where
  "RRSIG_pack rr msg off compression compress =
     bindR (packUint16 (RRSIG_TypeCovered rr) msg off) (\<lambda>(msg, off).
     bindR (packUint8 (RRSIG_Algorithm rr) msg off) (\<lambda>(msg, off).
     bindR (packUint8 (RRSIG_Labels rr) msg off) (\<lambda>(msg, off).
     bindR (packUint32 (RRSIG_OrigTtl rr) msg off) (\<lambda>(msg, off).
     bindR (packUint32 (RRSIG_Expiration rr) msg off) (\<lambda>(msg, off).
     bindR (packUint32 (RRSIG_Inception rr) msg off) (\<lambda>(msg, off).
     bindR (packUint16 (RRSIG_KeyTag rr) msg off) (\<lambda>(msg, off).
     bindR (packDomainName (RRSIG_SignerName rr) msg off compression False) (\<lambda>(msg, compression, off).
     bindR (packStringBase64 (RRSIG_Signature rr) msg off) (\<lambda>(msg, off).
     Ok (msg, compression, off))))))))))"

definition RT_pack ::
  "RT \<Rightarrow> bytes \<Rightarrow> nat \<Rightarrow> compressionMap \<Rightarrow> bool \<Rightarrow> (bytes \<times> compressionMap \<times> nat) off_res" where
  "RT_pack rr msg off compression compress =
     bindR (packUint16 (RT_Preference rr) msg off) (\<lambda>(msg, off).
     bindR (packDomainName (RT_Host rr) msg off compression False) (\<lambda>(msg, compression, off).
     Ok (msg, compression, off)))"

definition SIG_pack ::
  "SIG \<Rightarrow> bytes \<Rightarrow> nat \<Rightarrow> compressionMap \<Rightarrow> bool \<Rightarrow> (bytes \<times> compressionMap \<times> nat) off_res" where
  "SIG_pack rr msg off compression compress =
     bindR (packUint16 (RRSIG_TypeCovered rr) msg off) (\<lambda>(msg, off).
     bindR (packUint8 (RRSIG_Algorithm rr) msg off) (\<lambda>(msg, off).
     bindR (packUint8 (RRSIG_Labels rr) msg off) (\<lambda>(msg, off).
     bindR (packUint32 (RRSIG_OrigTtl rr) msg off) (\<lambda>(msg, off).
     bindR (packUint32 (RRSIG_Expiration rr) msg off) (\<lambda>(msg, off).
     bindR (packUint32 (RRSIG_Inception rr) msg off) (\<lambda>(msg, off).
     bindR (packUint16 (RRSIG_KeyTag rr) msg off) (\<lambda>(msg, off).
     bindR (packDomainName (RRSIG_SignerName rr) msg off compression False) (\<lambda>(msg, compression, off).
     bindR (packStringBase64 (RRSIG_Signature rr) msg off) (\<lambda>(msg, off).
     Ok (msg, compression, off))))))))))"

definition SMIMEA_pack ::
  "SMIMEA \<Rightarrow> bytes \<Rightarrow> nat \<Rightarrow> compressionMap \<Rightarrow> bool \<Rightarrow> (bytes \<times> compressionMap \<times> nat) off_res" where
  "SMIMEA_pack rr msg off compression compress =
     bindR (packUint8 (SMIMEA_Usage rr) msg off) (\<lambda>(msg, off).
     bindR (packUint8 (SMIMEA_Selector rr) msg off) (\<lambda>(msg, off).
     bindR (packUint8 (SMIMEA_MatchingType rr) msg off) (\<lambda>(msg, off).
     bindR (packStringHex (SMIMEA_Certificate rr) msg off) (\<lambda>(msg, off).
     Ok (msg, compression, off)))))"

definition SOA_pack ::
  "SOA \<Rightarrow> bytes \<Rightarrow> nat \<Rightarrow> compressionMap \<Rightarrow> bool \<Rightarrow> (bytes \<times> compressionMap \<times> nat) off_res" where
  "SOA_pack rr msg off compression compress =
     bindR (packDomainName (SOA_Ns rr) msg off compression compress) (\<lambda>(msg, compression, off).
     bindR (packDomainName (SOA_Mbox rr) msg off compression compress) (\<lambda>(msg, compression, off).
     bindR (packUint32 (SOA_Serial rr) msg off) (\<lambda>(msg, off).
     bindR (packUint32 (SOA_Refresh rr) msg off) (\<lambda>(msg, off).
     bindR (packUint32 (SOA_Retry rr) msg off) (\<lambda>(msg, off).
     bindR (packUint32 (SOA_Expire rr) msg off) (\<lambda>(msg, off).
     bindR (packUint32 (SOA_Minttl rr) msg off) (\<lambda>(msg, off).
     Ok (msg, compression, off))))))))"

definition SPF_pack ::
  "SPF \<Rightarrow> bytes \<Rightarrow> nat \<Rightarrow> compressionMap \<Rightarrow> bool \<Rightarrow> (bytes \<times> compressionMap \<times> nat) off_res" where
  "SPF_pack rr msg off compression compress =
     bindR (packStringTxt (SPF_Txt rr) msg off) (\<lambda>(msg, off).
     Ok (msg, compression, off))"

definition SRV_pack ::
  "SRV \<Rightarrow> bytes \<Rightarrow> nat \<Rightarrow> compressionMap \<Rightarrow> bool \<Rightarrow> (bytes \<times> compressionMap \<times> nat) off_res" where
  "SRV_pack rr msg off compression compress =
     bindR (packUint16 (SRV_Priority rr) msg off) (\<lambda>(msg, off).
     bindR (packUint16 (SRV_Weight rr) msg off) (\<lambda>(msg, off).
     bindR (packUint16 (SRV_Port rr) msg off) (\<lambda>(msg, off).
     bindR (packDomainName (SRV_Target rr) msg off compression False) (\<lambda>(msg, compression, off).
     Ok (msg, compression, off)))))"

definition SSHFP_pack ::
  "SSHFP \<Rightarrow> bytes \<Rightarrow> nat \<Rightarrow> compressionMap \<Rightarrow> bool \<Rightarrow> (bytes \<times> compressionMap \<times> nat) off_res" where
  "SSHFP_pack rr msg off compression compress =
     bindR (packUint8 (SSHFP_Algorithm rr) msg off) (\<lambda>(msg, off).
     bindR (packUint8 (SSHFP_Type rr) msg off) (\<lambda>(msg, off).
     bindR (packStringHex (SSHFP_FingerPrint rr) msg off) (\<lambda>(msg, off).
     Ok (msg, compression, off))))"

definition SVCB_pack ::
  "SVCB \<Rightarrow> bytes \<Rightarrow> nat \<Rightarrow> compressionMap \<Rightarrow> bool \<Rightarrow> (bytes \<times> compressionMap \<times> nat) off_res" where
  "SVCB_pack rr msg off compression compress =
     bindR (packUint16 (SVCB_Priority rr) msg off) (\<lambda>(msg, off).
     bindR (packDomainName (SVCB_Target rr) msg off compression False) (\<lambda>(msg, compression, off).
     bindR (packDataSVCB (SVCB_Value rr) msg off) (\<lambda>(msg, off).
     Ok (msg, compression, off))))"

definition TA_pack ::
  "TA \<Rightarrow> bytes \<Rightarrow> nat \<Rightarrow> compressionMap \<Rightarrow> bool \<Rightarrow> (bytes \<times> compressionMap \<times> nat) off_res" where
  "TA_pack rr msg off compression compress =
     bindR (packUint16 (TA_KeyTag rr) msg off) (\<lambda>(msg, off).
     bindR (packUint8 (TA_Algorithm rr) msg off) (\<lambda>(msg, off).
     bindR (packUint8 (TA_DigestType rr) msg off) (\<lambda>(msg, off).
     bindR (packStringHex (TA_Digest rr) msg off) (\<lambda>(msg, off).
     Ok (msg, compression, off)))))"

definition TALINK_pack ::
  "TALINK \<Rightarrow> bytes \<Rightarrow> nat \<Rightarrow> compressionMap \<Rightarrow> bool \<Rightarrow> (bytes \<times> compressionMap \<times> nat) off_res" where
  "TALINK_pack rr msg off compression compress =
     bindR (packDomainName (TALINK_PreviousName rr) msg off compression False) (\<lambda>(msg, compression, off).
     bindR (packDomainName (TALINK_NextName rr) msg off compression False) (\<lambda>(msg, compression, off).
     Ok (msg, compression, off)))"

definition TKEY_pack ::
  "TKEY \<Rightarrow> bytes \<Rightarrow> nat \<Rightarrow> compressionMap \<Rightarrow> bool \<Rightarrow> (bytes \<times> compressionMap \<times> nat) off_res" where
  "TKEY_pack rr msg off compression compress =
     bindR (packDomainName (TKEY_Algorithm rr) msg off compression False) (\<lambda>(msg, compression, off).
     bindR (packUint32 (TKEY_Inception rr) msg off) (\<lambda>(msg, off).
     bindR (packUint32 (TKEY_Expiration rr) msg off) (\<lambda>(msg, off).
     bindR (packUint16 (TKEY_Mode rr) msg off) (\<lambda>(msg, off).
     bindR (packUint16 (TKEY_Error rr) msg off) (\<lambda>(msg, off).
     bindR (packUint16 (TKEY_KeySize rr) msg off) (\<lambda>(msg, off).
     bindR (packStringHex (TKEY_Key rr) msg off) (\<lambda>(msg, off).
     bindR (packUint16 (TKEY_OtherLen rr) msg off) (\<lambda>(msg, off).
     bindR (packStringHex (TKEY_OtherData rr) msg off) (\<lambda>(msg, off).
     Ok (msg, compression, off))))))))))"

definition TLSA_pack ::
  "TLSA \<Rightarrow> bytes \<Rightarrow> nat \<Rightarrow> compressionMap \<Rightarrow> bool \<Rightarrow> (bytes \<times> compressionMap \<times> nat) off_res" where
  "TLSA_pack rr msg off compression compress =
     bindR (packUint8 (TLSA_Usage rr) msg off) (\<lambda>(msg, off).
     bindR (packUint8 (TLSA_Selector rr) msg off) (\<lambda>(msg, off).
     bindR (packUint8 (TLSA_MatchingType rr) msg off) (\<lambda>(msg, off).
     bindR (packStringHex (TLSA_Certificate rr) msg off) (\<lambda>(msg, off).
     Ok (msg, compression, off)))))"

definition TSIG_pack ::
  "TSIG \<Rightarrow> bytes \<Rightarrow> nat \<Rightarrow> compressionMap \<Rightarrow> bool \<Rightarrow> (bytes \<times> compressionMap \<times> nat) off_res" where
  "TSIG_pack rr msg off compression compress =
     bindR (packDomainName (TSIG_Algorithm rr) msg off compression False) (\<lambda>(msg, compression, off).
     bindR (packUint48 (TSIG_TimeSigned rr) msg off) (\<lambda>(msg, off).
     bindR (packUint16 (TSIG_Fudge rr) msg off) (\<lambda>(msg, off).
     bindR (packUint16 (TSIG_MACSize rr) msg off) (\<lambda>(msg, off).
     bindR (packStringHex (TSIG_MAC rr) msg off) (\<lambda>(msg, off).
     bindR (packUint16 (TSIG_OrigId rr) msg off) (\<lambda>(msg, off).
     bindR (packUint16 (TSIG_Error rr) msg off) (\<lambda>(msg, off).
     bindR (packUint16 (TSIG_OtherLen rr) msg off) (\<lambda>(msg, off).
     bindR (packStringHex (TSIG_OtherData rr) msg off) (\<lambda>(msg, off).
     Ok (msg, compression, off))))))))))"

definition TXT_pack ::
  "TXT \<Rightarrow> bytes \<Rightarrow> nat \<Rightarrow> compressionMap \<Rightarrow> bool \<Rightarrow> (bytes \<times> compressionMap \<times> nat) off_res" where
  "TXT_pack rr msg off compression compress =
     bindR (packStringTxt (TXT_Txt rr) msg off) (\<lambda>(msg, off).
     Ok (msg, compression, off))"

definition UID_pack ::
  "UID \<Rightarrow> bytes \<Rightarrow> nat \<Rightarrow> compressionMap \<Rightarrow> bool \<Rightarrow> (bytes \<times> compressionMap \<times> nat) off_res" where
  "UID_pack rr msg off compression compress =
     bindR (packUint32 (UID_Uid rr) msg off) (\<lambda>(msg, off).
     Ok (msg, compression, off))"

definition UINFO_pack ::
  "UINFO \<Rightarrow> bytes \<Rightarrow> nat \<Rightarrow> compressionMap \<Rightarrow> bool \<Rightarrow> (bytes \<times> compressionMap \<times> nat) off_res" where
  "UINFO_pack rr msg off compression compress =
     bindR (packString (UINFO_Uinfo rr) msg off) (\<lambda>(msg, off).
     Ok (msg, compression, off))"

definition URI_pack ::
  "URI \<Rightarrow> bytes \<Rightarrow> nat \<Rightarrow> compressionMap \<Rightarrow> bool \<Rightarrow> (bytes \<times> compressionMap \<times> nat) off_res" where
  "URI_pack rr msg off compression compress =
     bindR (packUint16 (URI_Priority rr) msg off) (\<lambda>(msg, off).
     bindR (packUint16 (URI_Weight rr) msg off) (\<lambda>(msg, off).
     bindR (packStringOctet (URI_Target rr) msg off) (\<lambda>(msg, off).
     Ok (msg, compression, off))))"

definition X25_pack ::
  "X25 \<Rightarrow> bytes \<Rightarrow> nat \<Rightarrow> compressionMap \<Rightarrow> bool \<Rightarrow> (bytes \<times> compressionMap \<times> nat) off_res" where
  "X25_pack rr msg off compression compress =
     bindR (packString (X25_PSDNAddress rr) msg off) (\<lambda>(msg, off).
     Ok (msg, compression, off))"

definition ZONEMD_pack ::
  "ZONEMD \<Rightarrow> bytes \<Rightarrow> nat \<Rightarrow> compressionMap \<Rightarrow> bool \<Rightarrow> (bytes \<times> compressionMap \<times> nat) off_res" where
  "ZONEMD_pack rr msg off compression compress =
     bindR (packUint32 (ZONEMD_Serial rr) msg off) (\<lambda>(msg, off).
     bindR (packUint8 (ZONEMD_Scheme rr) msg off) (\<lambda>(msg, off).
     bindR (packUint8 (ZONEMD_Hash rr) msg off) (\<lambda>(msg, off).
     bindR (packStringHex (ZONEMD_Digest rr) msg off) (\<lambda>(msg, off).
     Ok (msg, compression, off)))))"

primrec rr_pack ::
  "RR \<Rightarrow> bytes \<Rightarrow> nat \<Rightarrow> compressionMap \<Rightarrow> bool \<Rightarrow> (bytes \<times> compressionMap \<times> nat) off_res" where
  "rr_pack (RR_A rr) = A_pack rr"
| "rr_pack (RR_AAAA rr) = AAAA_pack rr"
| "rr_pack (RR_AFSDB rr) = AFSDB_pack rr"
| "rr_pack (RR_AMTRELAY rr) = AMTRELAY_pack rr"
| "rr_pack (RR_ANY rr) = ANY_pack rr"
| "rr_pack (RR_APL rr) = APL_pack rr"
| "rr_pack (RR_AVC rr) = AVC_pack rr"
| "rr_pack (RR_CAA rr) = CAA_pack rr"
| "rr_pack (RR_CDNSKEY rr) = CDNSKEY_pack rr"
| "rr_pack (RR_CDS rr) = CDS_pack rr"
| "rr_pack (RR_CERT rr) = CERT_pack rr"
| "rr_pack (RR_CNAME rr) = CNAME_pack rr"
| "rr_pack (RR_CSYNC rr) = CSYNC_pack rr"
| "rr_pack (RR_DHCID rr) = DHCID_pack rr"
| "rr_pack (RR_DLV rr) = DLV_pack rr"
| "rr_pack (RR_DNAME rr) = DNAME_pack rr"
| "rr_pack (RR_DNSKEY rr) = DNSKEY_pack rr"
| "rr_pack (RR_DS rr) = DS_pack rr"
| "rr_pack (RR_EID rr) = EID_pack rr"
| "rr_pack (RR_EUI48 rr) = EUI48_pack rr"
| "rr_pack (RR_EUI64 rr) = EUI64_pack rr"
| "rr_pack (RR_GID rr) = GID_pack rr"
| "rr_pack (RR_GPOS rr) = GPOS_pack rr"
| "rr_pack (RR_HINFO rr) = HINFO_pack rr"
| "rr_pack (RR_HIP rr) = HIP_pack rr"
| "rr_pack (RR_HTTPS rr) = HTTPS_pack rr"
| "rr_pack (RR_IPSECKEY rr) = IPSECKEY_pack rr"
| "rr_pack (RR_ISDN rr) = ISDN_pack rr"
| "rr_pack (RR_KEY rr) = KEY_pack rr"
| "rr_pack (RR_KX rr) = KX_pack rr"
| "rr_pack (RR_L32 rr) = L32_pack rr"
| "rr_pack (RR_L64 rr) = L64_pack rr"
| "rr_pack (RR_LOC rr) = LOC_pack rr"
| "rr_pack (RR_LP rr) = LP_pack rr"
| "rr_pack (RR_MB rr) = MB_pack rr"
| "rr_pack (RR_MD rr) = MD_pack rr"
| "rr_pack (RR_MF rr) = MF_pack rr"
| "rr_pack (RR_MG rr) = MG_pack rr"
| "rr_pack (RR_MINFO rr) = MINFO_pack rr"
| "rr_pack (RR_MR rr) = MR_pack rr"
| "rr_pack (RR_MX rr) = MX_pack rr"
| "rr_pack (RR_NAPTR rr) = NAPTR_pack rr"
| "rr_pack (RR_NID rr) = NID_pack rr"
| "rr_pack (RR_NIMLOC rr) = NIMLOC_pack rr"
| "rr_pack (RR_NINFO rr) = NINFO_pack rr"
| "rr_pack (RR_NS rr) = NS_pack rr"
| "rr_pack (RR_NSAPPTR rr) = NSAPPTR_pack rr"
| "rr_pack (RR_NSEC rr) = NSEC_pack rr"
| "rr_pack (RR_NSEC3 rr) = NSEC3_pack rr"
| "rr_pack (RR_NSEC3PARAM rr) = NSEC3PARAM_pack rr"
| "rr_pack (RR_NULL rr) = NULL_pack rr"
| "rr_pack (RR_NXNAME rr) = NXNAME_pack rr"
| "rr_pack (RR_NXT rr) = NXT_pack rr"
| "rr_pack (RR_OPENPGPKEY rr) = OPENPGPKEY_pack rr"
| "rr_pack (RR_OPT rr) = OPT_pack rr"
| "rr_pack (RR_PTR rr) = PTR_pack rr"
| "rr_pack (RR_PX rr) = PX_pack rr"
| "rr_pack (RR_RESINFO rr) = RESINFO_pack rr"
| "rr_pack (RR_RFC3597 rr) = RFC3597_pack rr"
| "rr_pack (RR_RKEY rr) = RKEY_pack rr"
| "rr_pack (RR_RP rr) = RP_pack rr"
| "rr_pack (RR_RRSIG rr) = RRSIG_pack rr"
| "rr_pack (RR_RT rr) = RT_pack rr"
| "rr_pack (RR_SIG rr) = SIG_pack rr"
| "rr_pack (RR_SMIMEA rr) = SMIMEA_pack rr"
| "rr_pack (RR_SOA rr) = SOA_pack rr"
| "rr_pack (RR_SPF rr) = SPF_pack rr"
| "rr_pack (RR_SRV rr) = SRV_pack rr"
| "rr_pack (RR_SSHFP rr) = SSHFP_pack rr"
| "rr_pack (RR_SVCB rr) = SVCB_pack rr"
| "rr_pack (RR_TA rr) = TA_pack rr"
| "rr_pack (RR_TALINK rr) = TALINK_pack rr"
| "rr_pack (RR_TKEY rr) = TKEY_pack rr"
| "rr_pack (RR_TLSA rr) = TLSA_pack rr"
| "rr_pack (RR_TSIG rr) = TSIG_pack rr"
| "rr_pack (RR_TXT rr) = TXT_pack rr"
| "rr_pack (RR_UID rr) = UID_pack rr"
| "rr_pack (RR_UINFO rr) = UINFO_pack rr"
| "rr_pack (RR_URI rr) = URI_pack rr"
| "rr_pack (RR_X25 rr) = X25_pack rr"
| "rr_pack (RR_ZONEMD rr) = ZONEMD_pack rr"

end
