(* ===== verification/Zmsg_Unpack.thy ===== *)
theory Zmsg_Unpack
  imports RR_Types
begin

section \<open>Unpacking the data of a record\<close>

text \<open>
  The \<^verbatim>\<open>unpack\<close> methods of \<^verbatim>\<open>zmsg.go\<close>, one definition each. The record
  comes with its header set and its other fields zero; the method fills them in order and stops
  early at the end of the message. An error is wrapped with the name of the field, except for the
  fields whose size another field gives. \<open>rdStart\<close> is the offset where the data starts.
\<close>

definition A_unpack :: "A \<Rightarrow> bytes \<Rightarrow> nat \<Rightarrow> (A \<times> nat) off_res" where
  "A_unpack rr msg off =
     bindR (mapErr (wrap ''A'') (unpackDataA msg off)) (\<lambda>(v, off).
     let rr = rr\<lparr>A_A := v\<rparr> in
     Ok (rr, off))"

definition AAAA_unpack :: "AAAA \<Rightarrow> bytes \<Rightarrow> nat \<Rightarrow> (AAAA \<times> nat) off_res" where
  "AAAA_unpack rr msg off =
     bindR (mapErr (wrap ''AAAA'') (unpackDataAAAA msg off)) (\<lambda>(v, off).
     let rr = rr\<lparr>AAAA_AAAA := v\<rparr> in
     Ok (rr, off))"

definition AFSDB_unpack :: "AFSDB \<Rightarrow> bytes \<Rightarrow> nat \<Rightarrow> (AFSDB \<times> nat) off_res" where
  "AFSDB_unpack rr msg off =
     bindR (mapErr (wrap ''AFSDB.Subtype'') (unpackUint16 msg off)) (\<lambda>(v, off).
     let rr = rr\<lparr>AFSDB_Subtype := v\<rparr> in
     if off = length msg then Ok (rr, off) else
     bindR (mapErr (wrap ''AFSDB.Hostname'') (UnpackDomainName msg off)) (\<lambda>(v, off).
     let rr = rr\<lparr>AFSDB_Hostname := v\<rparr> in
     Ok (rr, off)))"

definition AMTRELAY_unpack :: "AMTRELAY \<Rightarrow> bytes \<Rightarrow> nat \<Rightarrow> (AMTRELAY \<times> nat) off_res" where
  "AMTRELAY_unpack rr msg off =
     bindR (mapErr (wrap ''AMTRELAY.Precedence'') (unpackUint8 msg off)) (\<lambda>(v, off).
     let rr = rr\<lparr>AMTRELAY_Precedence := v\<rparr> in
     if off = length msg then Ok (rr, off) else
     bindR (mapErr (wrap ''AMTRELAY.GatewayType'') (unpackUint8 msg off)) (\<lambda>(v, off).
     let rr = rr\<lparr>AMTRELAY_GatewayType := v\<rparr> in
     if off = length msg then Ok (rr, off) else
     if off = length msg then Ok (rr, off) else
     bindR (mapErr (wrap ''AMTRELAY.GatewayHost'') (unpackIPSECGateway msg off (AMTRELAY_GatewayType rr))) (\<lambda>((v, w), off).
     let rr = rr\<lparr>AMTRELAY_GatewayAddr := v, AMTRELAY_GatewayHost := w\<rparr> in
     Ok (rr, off))))"

definition ANY_unpack :: "ANY \<Rightarrow> bytes \<Rightarrow> nat \<Rightarrow> (ANY \<times> nat) off_res" where
  "ANY_unpack rr msg off =
     Ok (rr, off)"

definition APL_unpack :: "APL \<Rightarrow> bytes \<Rightarrow> nat \<Rightarrow> (APL \<times> nat) off_res" where
  "APL_unpack rr msg off =
     bindR (mapErr (wrap ''APL.Prefixes'') (unpackDataApl msg off)) (\<lambda>(v, off).
     let rr = rr\<lparr>APL_Prefixes := v\<rparr> in
     Ok (rr, off))"

definition AVC_unpack :: "AVC \<Rightarrow> bytes \<Rightarrow> nat \<Rightarrow> (AVC \<times> nat) off_res" where
  "AVC_unpack rr msg off =
     bindR (mapErr (wrap ''AVC.Txt'') (unpackStringTxt msg off)) (\<lambda>(v, off).
     let rr = rr\<lparr>AVC_Txt := v\<rparr> in
     Ok (rr, off))"

definition CAA_unpack :: "CAA \<Rightarrow> bytes \<Rightarrow> nat \<Rightarrow> (CAA \<times> nat) off_res" where
  "CAA_unpack rr msg off =
     bindR (mapErr (wrap ''CAA.Flag'') (unpackUint8 msg off)) (\<lambda>(v, off).
     let rr = rr\<lparr>CAA_Flag := v\<rparr> in
     if off = length msg then Ok (rr, off) else
     bindR (mapErr (wrap ''CAA.Tag'') (unpackString msg off)) (\<lambda>(v, off).
     let rr = rr\<lparr>CAA_Tag := v\<rparr> in
     if off = length msg then Ok (rr, off) else
     bindR (mapErr (wrap ''CAA.Value'') (unpackStringOctet msg off)) (\<lambda>(v, off).
     let rr = rr\<lparr>CAA_Value := v\<rparr> in
     Ok (rr, off))))"

definition CDNSKEY_unpack :: "CDNSKEY \<Rightarrow> bytes \<Rightarrow> nat \<Rightarrow> (CDNSKEY \<times> nat) off_res" where
  "CDNSKEY_unpack rr msg rdStart =
     bindR (mapErr (wrap ''CDNSKEY.Flags'') (unpackUint16 msg rdStart)) (\<lambda>(v, off).
     let rr = rr\<lparr>DNSKEY_Flags := v\<rparr> in
     if off = length msg then Ok (rr, off) else
     bindR (mapErr (wrap ''CDNSKEY.Protocol'') (unpackUint8 msg off)) (\<lambda>(v, off).
     let rr = rr\<lparr>DNSKEY_Protocol := v\<rparr> in
     if off = length msg then Ok (rr, off) else
     bindR (mapErr (wrap ''CDNSKEY.Algorithm'') (unpackUint8 msg off)) (\<lambda>(v, off).
     let rr = rr\<lparr>DNSKEY_Algorithm := v\<rparr> in
     if off = length msg then Ok (rr, off) else
     bindR (mapErr (wrap ''CDNSKEY.PublicKey'') (unpackStringBase64 msg off (rdStart + unat (Hdr_Rdlength (DNSKEY_Hdr rr))))) (\<lambda>(v, off).
     let rr = rr\<lparr>DNSKEY_PublicKey := v\<rparr> in
     Ok (rr, off)))))"

definition CDS_unpack :: "CDS \<Rightarrow> bytes \<Rightarrow> nat \<Rightarrow> (CDS \<times> nat) off_res" where
  "CDS_unpack rr msg rdStart =
     bindR (mapErr (wrap ''CDS.KeyTag'') (unpackUint16 msg rdStart)) (\<lambda>(v, off).
     let rr = rr\<lparr>DS_KeyTag := v\<rparr> in
     if off = length msg then Ok (rr, off) else
     bindR (mapErr (wrap ''CDS.Algorithm'') (unpackUint8 msg off)) (\<lambda>(v, off).
     let rr = rr\<lparr>DS_Algorithm := v\<rparr> in
     if off = length msg then Ok (rr, off) else
     bindR (mapErr (wrap ''CDS.DigestType'') (unpackUint8 msg off)) (\<lambda>(v, off).
     let rr = rr\<lparr>DS_DigestType := v\<rparr> in
     if off = length msg then Ok (rr, off) else
     bindR (mapErr (wrap ''CDS.Digest'') (unpackStringHex msg off (rdStart + unat (Hdr_Rdlength (DS_Hdr rr))))) (\<lambda>(v, off).
     let rr = rr\<lparr>DS_Digest := v\<rparr> in
     Ok (rr, off)))))"

definition CERT_unpack :: "CERT \<Rightarrow> bytes \<Rightarrow> nat \<Rightarrow> (CERT \<times> nat) off_res" where
  "CERT_unpack rr msg rdStart =
     bindR (mapErr (wrap ''CERT.Type'') (unpackUint16 msg rdStart)) (\<lambda>(v, off).
     let rr = rr\<lparr>CERT_Type := v\<rparr> in
     if off = length msg then Ok (rr, off) else
     bindR (mapErr (wrap ''CERT.KeyTag'') (unpackUint16 msg off)) (\<lambda>(v, off).
     let rr = rr\<lparr>CERT_KeyTag := v\<rparr> in
     if off = length msg then Ok (rr, off) else
     bindR (mapErr (wrap ''CERT.Algorithm'') (unpackUint8 msg off)) (\<lambda>(v, off).
     let rr = rr\<lparr>CERT_Algorithm := v\<rparr> in
     if off = length msg then Ok (rr, off) else
     bindR (mapErr (wrap ''CERT.Certificate'') (unpackStringBase64 msg off (rdStart + unat (Hdr_Rdlength (CERT_Hdr rr))))) (\<lambda>(v, off).
     let rr = rr\<lparr>CERT_Certificate := v\<rparr> in
     Ok (rr, off)))))"

definition CNAME_unpack :: "CNAME \<Rightarrow> bytes \<Rightarrow> nat \<Rightarrow> (CNAME \<times> nat) off_res" where
  "CNAME_unpack rr msg off =
     bindR (mapErr (wrap ''CNAME.Target'') (UnpackDomainName msg off)) (\<lambda>(v, off).
     let rr = rr\<lparr>CNAME_Target := v\<rparr> in
     Ok (rr, off))"

definition CSYNC_unpack :: "CSYNC \<Rightarrow> bytes \<Rightarrow> nat \<Rightarrow> (CSYNC \<times> nat) off_res" where
  "CSYNC_unpack rr msg off =
     bindR (mapErr (wrap ''CSYNC.Serial'') (unpackUint32 msg off)) (\<lambda>(v, off).
     let rr = rr\<lparr>CSYNC_Serial := v\<rparr> in
     if off = length msg then Ok (rr, off) else
     bindR (mapErr (wrap ''CSYNC.Flags'') (unpackUint16 msg off)) (\<lambda>(v, off).
     let rr = rr\<lparr>CSYNC_Flags := v\<rparr> in
     if off = length msg then Ok (rr, off) else
     bindR (mapErr (wrap ''CSYNC.TypeBitMap'') (unpackDataNsec msg off)) (\<lambda>(v, off).
     let rr = rr\<lparr>CSYNC_TypeBitMap := v\<rparr> in
     Ok (rr, off))))"

definition DHCID_unpack :: "DHCID \<Rightarrow> bytes \<Rightarrow> nat \<Rightarrow> (DHCID \<times> nat) off_res" where
  "DHCID_unpack rr msg rdStart =
     bindR (mapErr (wrap ''DHCID.Digest'') (unpackStringBase64 msg rdStart (rdStart + unat (Hdr_Rdlength (DHCID_Hdr rr))))) (\<lambda>(v, off).
     let rr = rr\<lparr>DHCID_Digest := v\<rparr> in
     Ok (rr, off))"

definition DLV_unpack :: "DLV \<Rightarrow> bytes \<Rightarrow> nat \<Rightarrow> (DLV \<times> nat) off_res" where
  "DLV_unpack rr msg rdStart =
     bindR (mapErr (wrap ''DLV.KeyTag'') (unpackUint16 msg rdStart)) (\<lambda>(v, off).
     let rr = rr\<lparr>DS_KeyTag := v\<rparr> in
     if off = length msg then Ok (rr, off) else
     bindR (mapErr (wrap ''DLV.Algorithm'') (unpackUint8 msg off)) (\<lambda>(v, off).
     let rr = rr\<lparr>DS_Algorithm := v\<rparr> in
     if off = length msg then Ok (rr, off) else
     bindR (mapErr (wrap ''DLV.DigestType'') (unpackUint8 msg off)) (\<lambda>(v, off).
     let rr = rr\<lparr>DS_DigestType := v\<rparr> in
     if off = length msg then Ok (rr, off) else
     bindR (mapErr (wrap ''DLV.Digest'') (unpackStringHex msg off (rdStart + unat (Hdr_Rdlength (DS_Hdr rr))))) (\<lambda>(v, off).
     let rr = rr\<lparr>DS_Digest := v\<rparr> in
     Ok (rr, off)))))"

definition DNAME_unpack :: "DNAME \<Rightarrow> bytes \<Rightarrow> nat \<Rightarrow> (DNAME \<times> nat) off_res" where
  "DNAME_unpack rr msg off =
     bindR (mapErr (wrap ''DNAME.Target'') (UnpackDomainName msg off)) (\<lambda>(v, off).
     let rr = rr\<lparr>DNAME_Target := v\<rparr> in
     Ok (rr, off))"

definition DNSKEY_unpack :: "DNSKEY \<Rightarrow> bytes \<Rightarrow> nat \<Rightarrow> (DNSKEY \<times> nat) off_res" where
  "DNSKEY_unpack rr msg rdStart =
     bindR (mapErr (wrap ''DNSKEY.Flags'') (unpackUint16 msg rdStart)) (\<lambda>(v, off).
     let rr = rr\<lparr>DNSKEY_Flags := v\<rparr> in
     if off = length msg then Ok (rr, off) else
     bindR (mapErr (wrap ''DNSKEY.Protocol'') (unpackUint8 msg off)) (\<lambda>(v, off).
     let rr = rr\<lparr>DNSKEY_Protocol := v\<rparr> in
     if off = length msg then Ok (rr, off) else
     bindR (mapErr (wrap ''DNSKEY.Algorithm'') (unpackUint8 msg off)) (\<lambda>(v, off).
     let rr = rr\<lparr>DNSKEY_Algorithm := v\<rparr> in
     if off = length msg then Ok (rr, off) else
     bindR (mapErr (wrap ''DNSKEY.PublicKey'') (unpackStringBase64 msg off (rdStart + unat (Hdr_Rdlength (DNSKEY_Hdr rr))))) (\<lambda>(v, off).
     let rr = rr\<lparr>DNSKEY_PublicKey := v\<rparr> in
     Ok (rr, off)))))"

definition DS_unpack :: "DS \<Rightarrow> bytes \<Rightarrow> nat \<Rightarrow> (DS \<times> nat) off_res" where
  "DS_unpack rr msg rdStart =
     bindR (mapErr (wrap ''DS.KeyTag'') (unpackUint16 msg rdStart)) (\<lambda>(v, off).
     let rr = rr\<lparr>DS_KeyTag := v\<rparr> in
     if off = length msg then Ok (rr, off) else
     bindR (mapErr (wrap ''DS.Algorithm'') (unpackUint8 msg off)) (\<lambda>(v, off).
     let rr = rr\<lparr>DS_Algorithm := v\<rparr> in
     if off = length msg then Ok (rr, off) else
     bindR (mapErr (wrap ''DS.DigestType'') (unpackUint8 msg off)) (\<lambda>(v, off).
     let rr = rr\<lparr>DS_DigestType := v\<rparr> in
     if off = length msg then Ok (rr, off) else
     bindR (mapErr (wrap ''DS.Digest'') (unpackStringHex msg off (rdStart + unat (Hdr_Rdlength (DS_Hdr rr))))) (\<lambda>(v, off).
     let rr = rr\<lparr>DS_Digest := v\<rparr> in
     Ok (rr, off)))))"

definition EID_unpack :: "EID \<Rightarrow> bytes \<Rightarrow> nat \<Rightarrow> (EID \<times> nat) off_res" where
  "EID_unpack rr msg rdStart =
     bindR (mapErr (wrap ''EID.Endpoint'') (unpackStringHex msg rdStart (rdStart + unat (Hdr_Rdlength (EID_Hdr rr))))) (\<lambda>(v, off).
     let rr = rr\<lparr>EID_Endpoint := v\<rparr> in
     Ok (rr, off))"

definition EUI48_unpack :: "EUI48 \<Rightarrow> bytes \<Rightarrow> nat \<Rightarrow> (EUI48 \<times> nat) off_res" where
  "EUI48_unpack rr msg off =
     bindR (mapErr (wrap ''EUI48.Address'') (unpackUint48 msg off)) (\<lambda>(v, off).
     let rr = rr\<lparr>EUI48_Address := v\<rparr> in
     Ok (rr, off))"

definition EUI64_unpack :: "EUI64 \<Rightarrow> bytes \<Rightarrow> nat \<Rightarrow> (EUI64 \<times> nat) off_res" where
  "EUI64_unpack rr msg off =
     bindR (mapErr (wrap ''EUI64.Address'') (unpackUint64 msg off)) (\<lambda>(v, off).
     let rr = rr\<lparr>EUI64_Address := v\<rparr> in
     Ok (rr, off))"

definition GID_unpack :: "GID \<Rightarrow> bytes \<Rightarrow> nat \<Rightarrow> (GID \<times> nat) off_res" where
  "GID_unpack rr msg off =
     bindR (mapErr (wrap ''GID.Gid'') (unpackUint32 msg off)) (\<lambda>(v, off).
     let rr = rr\<lparr>GID_Gid := v\<rparr> in
     Ok (rr, off))"

definition GPOS_unpack :: "GPOS \<Rightarrow> bytes \<Rightarrow> nat \<Rightarrow> (GPOS \<times> nat) off_res" where
  "GPOS_unpack rr msg off =
     bindR (mapErr (wrap ''GPOS.Longitude'') (unpackString msg off)) (\<lambda>(v, off).
     let rr = rr\<lparr>GPOS_Longitude := v\<rparr> in
     if off = length msg then Ok (rr, off) else
     bindR (mapErr (wrap ''GPOS.Latitude'') (unpackString msg off)) (\<lambda>(v, off).
     let rr = rr\<lparr>GPOS_Latitude := v\<rparr> in
     if off = length msg then Ok (rr, off) else
     bindR (mapErr (wrap ''GPOS.Altitude'') (unpackString msg off)) (\<lambda>(v, off).
     let rr = rr\<lparr>GPOS_Altitude := v\<rparr> in
     Ok (rr, off))))"

definition HINFO_unpack :: "HINFO \<Rightarrow> bytes \<Rightarrow> nat \<Rightarrow> (HINFO \<times> nat) off_res" where
  "HINFO_unpack rr msg off =
     bindR (mapErr (wrap ''HINFO.Cpu'') (unpackString msg off)) (\<lambda>(v, off).
     let rr = rr\<lparr>HINFO_Cpu := v\<rparr> in
     if off = length msg then Ok (rr, off) else
     bindR (mapErr (wrap ''HINFO.Os'') (unpackString msg off)) (\<lambda>(v, off).
     let rr = rr\<lparr>HINFO_Os := v\<rparr> in
     Ok (rr, off)))"

definition HIP_unpack :: "HIP \<Rightarrow> bytes \<Rightarrow> nat \<Rightarrow> (HIP \<times> nat) off_res" where
  "HIP_unpack rr msg rdStart =
     bindR (mapErr (wrap ''HIP.HitLength'') (unpackUint8 msg rdStart)) (\<lambda>(v, off).
     let rr = rr\<lparr>HIP_HitLength := v\<rparr> in
     if off = length msg then Ok (rr, off) else
     bindR (mapErr (wrap ''HIP.PublicKeyAlgorithm'') (unpackUint8 msg off)) (\<lambda>(v, off).
     let rr = rr\<lparr>HIP_PublicKeyAlgorithm := v\<rparr> in
     if off = length msg then Ok (rr, off) else
     bindR (mapErr (wrap ''HIP.PublicKeyLength'') (unpackUint16 msg off)) (\<lambda>(v, off).
     let rr = rr\<lparr>HIP_PublicKeyLength := v\<rparr> in
     if off = length msg then Ok (rr, off) else
     bindR (unpackStringHex msg off (off + unat (HIP_HitLength rr))) (\<lambda>(v, off).
     let rr = rr\<lparr>HIP_Hit := v\<rparr> in
     bindR (unpackStringBase64 msg off (off + unat (HIP_PublicKeyLength rr))) (\<lambda>(v, off).
     let rr = rr\<lparr>HIP_PublicKey := v\<rparr> in
     bindR (mapErr (wrap ''HIP.RendezvousServers'') (unpackDataDomainNames msg off (rdStart + unat (Hdr_Rdlength (HIP_Hdr rr))))) (\<lambda>(v, off).
     let rr = rr\<lparr>HIP_RendezvousServers := v\<rparr> in
     Ok (rr, off)))))))"

definition HTTPS_unpack :: "HTTPS \<Rightarrow> bytes \<Rightarrow> nat \<Rightarrow> (HTTPS \<times> nat) off_res" where
  "HTTPS_unpack rr msg off =
     bindR (mapErr (wrap ''HTTPS.Priority'') (unpackUint16 msg off)) (\<lambda>(v, off).
     let rr = rr\<lparr>SVCB_Priority := v\<rparr> in
     if off = length msg then Ok (rr, off) else
     bindR (mapErr (wrap ''HTTPS.Target'') (UnpackDomainName msg off)) (\<lambda>(v, off).
     let rr = rr\<lparr>SVCB_Target := v\<rparr> in
     if off = length msg then Ok (rr, off) else
     bindR (mapErr (wrap ''HTTPS.Value'') (unpackDataSVCB msg off)) (\<lambda>(v, off).
     let rr = rr\<lparr>SVCB_Value := v\<rparr> in
     Ok (rr, off))))"

definition IPSECKEY_unpack :: "IPSECKEY \<Rightarrow> bytes \<Rightarrow> nat \<Rightarrow> (IPSECKEY \<times> nat) off_res" where
  "IPSECKEY_unpack rr msg rdStart =
     bindR (mapErr (wrap ''IPSECKEY.Precedence'') (unpackUint8 msg rdStart)) (\<lambda>(v, off).
     let rr = rr\<lparr>IPSECKEY_Precedence := v\<rparr> in
     if off = length msg then Ok (rr, off) else
     bindR (mapErr (wrap ''IPSECKEY.GatewayType'') (unpackUint8 msg off)) (\<lambda>(v, off).
     let rr = rr\<lparr>IPSECKEY_GatewayType := v\<rparr> in
     if off = length msg then Ok (rr, off) else
     bindR (mapErr (wrap ''IPSECKEY.Algorithm'') (unpackUint8 msg off)) (\<lambda>(v, off).
     let rr = rr\<lparr>IPSECKEY_Algorithm := v\<rparr> in
     if off = length msg then Ok (rr, off) else
     if off = length msg then Ok (rr, off) else
     bindR (mapErr (wrap ''IPSECKEY.GatewayHost'') (unpackIPSECGateway msg off (IPSECKEY_GatewayType rr))) (\<lambda>((v, w), off).
     let rr = rr\<lparr>IPSECKEY_GatewayAddr := v, IPSECKEY_GatewayHost := w\<rparr> in
     if off = length msg then Ok (rr, off) else
     bindR (mapErr (wrap ''IPSECKEY.PublicKey'') (unpackStringBase64 msg off (rdStart + unat (Hdr_Rdlength (IPSECKEY_Hdr rr))))) (\<lambda>(v, off).
     let rr = rr\<lparr>IPSECKEY_PublicKey := v\<rparr> in
     Ok (rr, off))))))"

definition ISDN_unpack :: "ISDN \<Rightarrow> bytes \<Rightarrow> nat \<Rightarrow> (ISDN \<times> nat) off_res" where
  "ISDN_unpack rr msg off =
     bindR (mapErr (wrap ''ISDN.Address'') (unpackString msg off)) (\<lambda>(v, off).
     let rr = rr\<lparr>ISDN_Address := v\<rparr> in
     if off = length msg then Ok (rr, off) else
     bindR (mapErr (wrap ''ISDN.SubAddress'') (unpackString msg off)) (\<lambda>(v, off).
     let rr = rr\<lparr>ISDN_SubAddress := v\<rparr> in
     Ok (rr, off)))"

definition KEY_unpack :: "KEY \<Rightarrow> bytes \<Rightarrow> nat \<Rightarrow> (KEY \<times> nat) off_res" where
  "KEY_unpack rr msg rdStart =
     bindR (mapErr (wrap ''KEY.Flags'') (unpackUint16 msg rdStart)) (\<lambda>(v, off).
     let rr = rr\<lparr>DNSKEY_Flags := v\<rparr> in
     if off = length msg then Ok (rr, off) else
     bindR (mapErr (wrap ''KEY.Protocol'') (unpackUint8 msg off)) (\<lambda>(v, off).
     let rr = rr\<lparr>DNSKEY_Protocol := v\<rparr> in
     if off = length msg then Ok (rr, off) else
     bindR (mapErr (wrap ''KEY.Algorithm'') (unpackUint8 msg off)) (\<lambda>(v, off).
     let rr = rr\<lparr>DNSKEY_Algorithm := v\<rparr> in
     if off = length msg then Ok (rr, off) else
     bindR (mapErr (wrap ''KEY.PublicKey'') (unpackStringBase64 msg off (rdStart + unat (Hdr_Rdlength (DNSKEY_Hdr rr))))) (\<lambda>(v, off).
     let rr = rr\<lparr>DNSKEY_PublicKey := v\<rparr> in
     Ok (rr, off)))))"

definition KX_unpack :: "KX \<Rightarrow> bytes \<Rightarrow> nat \<Rightarrow> (KX \<times> nat) off_res" where
  "KX_unpack rr msg off =
     bindR (mapErr (wrap ''KX.Preference'') (unpackUint16 msg off)) (\<lambda>(v, off).
     let rr = rr\<lparr>KX_Preference := v\<rparr> in
     if off = length msg then Ok (rr, off) else
     bindR (mapErr (wrap ''KX.Exchanger'') (UnpackDomainName msg off)) (\<lambda>(v, off).
     let rr = rr\<lparr>KX_Exchanger := v\<rparr> in
     Ok (rr, off)))"

definition L32_unpack :: "L32 \<Rightarrow> bytes \<Rightarrow> nat \<Rightarrow> (L32 \<times> nat) off_res" where
  "L32_unpack rr msg off =
     bindR (mapErr (wrap ''L32.Preference'') (unpackUint16 msg off)) (\<lambda>(v, off).
     let rr = rr\<lparr>L32_Preference := v\<rparr> in
     if off = length msg then Ok (rr, off) else
     bindR (mapErr (wrap ''L32.Locator32'') (unpackDataA msg off)) (\<lambda>(v, off).
     let rr = rr\<lparr>L32_Locator32 := v\<rparr> in
     Ok (rr, off)))"

definition L64_unpack :: "L64 \<Rightarrow> bytes \<Rightarrow> nat \<Rightarrow> (L64 \<times> nat) off_res" where
  "L64_unpack rr msg off =
     bindR (mapErr (wrap ''L64.Preference'') (unpackUint16 msg off)) (\<lambda>(v, off).
     let rr = rr\<lparr>L64_Preference := v\<rparr> in
     if off = length msg then Ok (rr, off) else
     bindR (mapErr (wrap ''L64.Locator64'') (unpackUint64 msg off)) (\<lambda>(v, off).
     let rr = rr\<lparr>L64_Locator64 := v\<rparr> in
     Ok (rr, off)))"

definition LOC_unpack :: "LOC \<Rightarrow> bytes \<Rightarrow> nat \<Rightarrow> (LOC \<times> nat) off_res" where
  "LOC_unpack rr msg off =
     bindR (mapErr (wrap ''LOC.Version'') (unpackUint8 msg off)) (\<lambda>(v, off).
     let rr = rr\<lparr>LOC_Version := v\<rparr> in
     if off = length msg then Ok (rr, off) else
     bindR (mapErr (wrap ''LOC.Size'') (unpackUint8 msg off)) (\<lambda>(v, off).
     let rr = rr\<lparr>LOC_Size := v\<rparr> in
     if off = length msg then Ok (rr, off) else
     bindR (mapErr (wrap ''LOC.HorizPre'') (unpackUint8 msg off)) (\<lambda>(v, off).
     let rr = rr\<lparr>LOC_HorizPre := v\<rparr> in
     if off = length msg then Ok (rr, off) else
     bindR (mapErr (wrap ''LOC.VertPre'') (unpackUint8 msg off)) (\<lambda>(v, off).
     let rr = rr\<lparr>LOC_VertPre := v\<rparr> in
     if off = length msg then Ok (rr, off) else
     bindR (mapErr (wrap ''LOC.Latitude'') (unpackUint32 msg off)) (\<lambda>(v, off).
     let rr = rr\<lparr>LOC_Latitude := v\<rparr> in
     if off = length msg then Ok (rr, off) else
     bindR (mapErr (wrap ''LOC.Longitude'') (unpackUint32 msg off)) (\<lambda>(v, off).
     let rr = rr\<lparr>LOC_Longitude := v\<rparr> in
     if off = length msg then Ok (rr, off) else
     bindR (mapErr (wrap ''LOC.Altitude'') (unpackUint32 msg off)) (\<lambda>(v, off).
     let rr = rr\<lparr>LOC_Altitude := v\<rparr> in
     Ok (rr, off))))))))"

definition LP_unpack :: "LP \<Rightarrow> bytes \<Rightarrow> nat \<Rightarrow> (LP \<times> nat) off_res" where
  "LP_unpack rr msg off =
     bindR (mapErr (wrap ''LP.Preference'') (unpackUint16 msg off)) (\<lambda>(v, off).
     let rr = rr\<lparr>LP_Preference := v\<rparr> in
     if off = length msg then Ok (rr, off) else
     bindR (mapErr (wrap ''LP.Fqdn'') (UnpackDomainName msg off)) (\<lambda>(v, off).
     let rr = rr\<lparr>LP_Fqdn := v\<rparr> in
     Ok (rr, off)))"

definition MB_unpack :: "MB \<Rightarrow> bytes \<Rightarrow> nat \<Rightarrow> (MB \<times> nat) off_res" where
  "MB_unpack rr msg off =
     bindR (mapErr (wrap ''MB.Mb'') (UnpackDomainName msg off)) (\<lambda>(v, off).
     let rr = rr\<lparr>MB_Mb := v\<rparr> in
     Ok (rr, off))"

definition MD_unpack :: "MD \<Rightarrow> bytes \<Rightarrow> nat \<Rightarrow> (MD \<times> nat) off_res" where
  "MD_unpack rr msg off =
     bindR (mapErr (wrap ''MD.Md'') (UnpackDomainName msg off)) (\<lambda>(v, off).
     let rr = rr\<lparr>MD_Md := v\<rparr> in
     Ok (rr, off))"

definition MF_unpack :: "MF \<Rightarrow> bytes \<Rightarrow> nat \<Rightarrow> (MF \<times> nat) off_res" where
  "MF_unpack rr msg off =
     bindR (mapErr (wrap ''MF.Mf'') (UnpackDomainName msg off)) (\<lambda>(v, off).
     let rr = rr\<lparr>MF_Mf := v\<rparr> in
     Ok (rr, off))"

definition MG_unpack :: "MG \<Rightarrow> bytes \<Rightarrow> nat \<Rightarrow> (MG \<times> nat) off_res" where
  "MG_unpack rr msg off =
     bindR (mapErr (wrap ''MG.Mg'') (UnpackDomainName msg off)) (\<lambda>(v, off).
     let rr = rr\<lparr>MG_Mg := v\<rparr> in
     Ok (rr, off))"

definition MINFO_unpack :: "MINFO \<Rightarrow> bytes \<Rightarrow> nat \<Rightarrow> (MINFO \<times> nat) off_res" where
  "MINFO_unpack rr msg off =
     bindR (mapErr (wrap ''MINFO.Rmail'') (UnpackDomainName msg off)) (\<lambda>(v, off).
     let rr = rr\<lparr>MINFO_Rmail := v\<rparr> in
     if off = length msg then Ok (rr, off) else
     bindR (mapErr (wrap ''MINFO.Email'') (UnpackDomainName msg off)) (\<lambda>(v, off).
     let rr = rr\<lparr>MINFO_Email := v\<rparr> in
     Ok (rr, off)))"

definition MR_unpack :: "MR \<Rightarrow> bytes \<Rightarrow> nat \<Rightarrow> (MR \<times> nat) off_res" where
  "MR_unpack rr msg off =
     bindR (mapErr (wrap ''MR.Mr'') (UnpackDomainName msg off)) (\<lambda>(v, off).
     let rr = rr\<lparr>MR_Mr := v\<rparr> in
     Ok (rr, off))"

definition MX_unpack :: "MX \<Rightarrow> bytes \<Rightarrow> nat \<Rightarrow> (MX \<times> nat) off_res" where
  "MX_unpack rr msg off =
     bindR (mapErr (wrap ''MX.Preference'') (unpackUint16 msg off)) (\<lambda>(v, off).
     let rr = rr\<lparr>MX_Preference := v\<rparr> in
     if off = length msg then Ok (rr, off) else
     bindR (mapErr (wrap ''MX.Mx'') (UnpackDomainName msg off)) (\<lambda>(v, off).
     let rr = rr\<lparr>MX_Mx := v\<rparr> in
     Ok (rr, off)))"

definition NAPTR_unpack :: "NAPTR \<Rightarrow> bytes \<Rightarrow> nat \<Rightarrow> (NAPTR \<times> nat) off_res" where
  "NAPTR_unpack rr msg off =
     bindR (mapErr (wrap ''NAPTR.Order'') (unpackUint16 msg off)) (\<lambda>(v, off).
     let rr = rr\<lparr>NAPTR_Order := v\<rparr> in
     if off = length msg then Ok (rr, off) else
     bindR (mapErr (wrap ''NAPTR.Preference'') (unpackUint16 msg off)) (\<lambda>(v, off).
     let rr = rr\<lparr>NAPTR_Preference := v\<rparr> in
     if off = length msg then Ok (rr, off) else
     bindR (mapErr (wrap ''NAPTR.Flags'') (unpackString msg off)) (\<lambda>(v, off).
     let rr = rr\<lparr>NAPTR_Flags := v\<rparr> in
     if off = length msg then Ok (rr, off) else
     bindR (mapErr (wrap ''NAPTR.Service'') (unpackString msg off)) (\<lambda>(v, off).
     let rr = rr\<lparr>NAPTR_Service := v\<rparr> in
     if off = length msg then Ok (rr, off) else
     bindR (mapErr (wrap ''NAPTR.Regexp'') (unpackString msg off)) (\<lambda>(v, off).
     let rr = rr\<lparr>NAPTR_Regexp := v\<rparr> in
     if off = length msg then Ok (rr, off) else
     bindR (mapErr (wrap ''NAPTR.Replacement'') (UnpackDomainName msg off)) (\<lambda>(v, off).
     let rr = rr\<lparr>NAPTR_Replacement := v\<rparr> in
     Ok (rr, off)))))))"

definition NID_unpack :: "NID \<Rightarrow> bytes \<Rightarrow> nat \<Rightarrow> (NID \<times> nat) off_res" where
  "NID_unpack rr msg off =
     bindR (mapErr (wrap ''NID.Preference'') (unpackUint16 msg off)) (\<lambda>(v, off).
     let rr = rr\<lparr>NID_Preference := v\<rparr> in
     if off = length msg then Ok (rr, off) else
     bindR (mapErr (wrap ''NID.NodeID'') (unpackUint64 msg off)) (\<lambda>(v, off).
     let rr = rr\<lparr>NID_NodeID := v\<rparr> in
     Ok (rr, off)))"

definition NIMLOC_unpack :: "NIMLOC \<Rightarrow> bytes \<Rightarrow> nat \<Rightarrow> (NIMLOC \<times> nat) off_res" where
  "NIMLOC_unpack rr msg rdStart =
     bindR (mapErr (wrap ''NIMLOC.Locator'') (unpackStringHex msg rdStart (rdStart + unat (Hdr_Rdlength (NIMLOC_Hdr rr))))) (\<lambda>(v, off).
     let rr = rr\<lparr>NIMLOC_Locator := v\<rparr> in
     Ok (rr, off))"

definition NINFO_unpack :: "NINFO \<Rightarrow> bytes \<Rightarrow> nat \<Rightarrow> (NINFO \<times> nat) off_res" where
  "NINFO_unpack rr msg off =
     bindR (mapErr (wrap ''NINFO.ZSData'') (unpackStringTxt msg off)) (\<lambda>(v, off).
     let rr = rr\<lparr>NINFO_ZSData := v\<rparr> in
     Ok (rr, off))"

definition NS_unpack :: "NS \<Rightarrow> bytes \<Rightarrow> nat \<Rightarrow> (NS \<times> nat) off_res" where
  "NS_unpack rr msg off =
     bindR (mapErr (wrap ''NS.Ns'') (UnpackDomainName msg off)) (\<lambda>(v, off).
     let rr = rr\<lparr>NS_Ns := v\<rparr> in
     Ok (rr, off))"

definition NSAPPTR_unpack :: "NSAPPTR \<Rightarrow> bytes \<Rightarrow> nat \<Rightarrow> (NSAPPTR \<times> nat) off_res" where
  "NSAPPTR_unpack rr msg off =
     bindR (mapErr (wrap ''NSAPPTR.Ptr'') (UnpackDomainName msg off)) (\<lambda>(v, off).
     let rr = rr\<lparr>NSAPPTR_Ptr := v\<rparr> in
     Ok (rr, off))"

definition NSEC_unpack :: "NSEC \<Rightarrow> bytes \<Rightarrow> nat \<Rightarrow> (NSEC \<times> nat) off_res" where
  "NSEC_unpack rr msg off =
     bindR (mapErr (wrap ''NSEC.NextDomain'') (UnpackDomainName msg off)) (\<lambda>(v, off).
     let rr = rr\<lparr>NSEC_NextDomain := v\<rparr> in
     if off = length msg then Ok (rr, off) else
     bindR (mapErr (wrap ''NSEC.TypeBitMap'') (unpackDataNsec msg off)) (\<lambda>(v, off).
     let rr = rr\<lparr>NSEC_TypeBitMap := v\<rparr> in
     Ok (rr, off)))"

definition NSEC3_unpack :: "NSEC3 \<Rightarrow> bytes \<Rightarrow> nat \<Rightarrow> (NSEC3 \<times> nat) off_res" where
  "NSEC3_unpack rr msg off =
     bindR (mapErr (wrap ''NSEC3.Hash'') (unpackUint8 msg off)) (\<lambda>(v, off).
     let rr = rr\<lparr>NSEC3_Hash := v\<rparr> in
     if off = length msg then Ok (rr, off) else
     bindR (mapErr (wrap ''NSEC3.Flags'') (unpackUint8 msg off)) (\<lambda>(v, off).
     let rr = rr\<lparr>NSEC3_Flags := v\<rparr> in
     if off = length msg then Ok (rr, off) else
     bindR (mapErr (wrap ''NSEC3.Iterations'') (unpackUint16 msg off)) (\<lambda>(v, off).
     let rr = rr\<lparr>NSEC3_Iterations := v\<rparr> in
     if off = length msg then Ok (rr, off) else
     bindR (mapErr (wrap ''NSEC3.SaltLength'') (unpackUint8 msg off)) (\<lambda>(v, off).
     let rr = rr\<lparr>NSEC3_SaltLength := v\<rparr> in
     if off = length msg then Ok (rr, off) else
     bindR (unpackStringHex msg off (off + unat (NSEC3_SaltLength rr))) (\<lambda>(v, off).
     let rr = rr\<lparr>NSEC3_Salt := v\<rparr> in
     bindR (mapErr (wrap ''NSEC3.HashLength'') (unpackUint8 msg off)) (\<lambda>(v, off).
     let rr = rr\<lparr>NSEC3_HashLength := v\<rparr> in
     if off = length msg then Ok (rr, off) else
     bindR (unpackStringBase32 msg off (off + unat (NSEC3_HashLength rr))) (\<lambda>(v, off).
     let rr = rr\<lparr>NSEC3_NextDomain := v\<rparr> in
     bindR (mapErr (wrap ''NSEC3.TypeBitMap'') (unpackDataNsec msg off)) (\<lambda>(v, off).
     let rr = rr\<lparr>NSEC3_TypeBitMap := v\<rparr> in
     Ok (rr, off)))))))))"

definition NSEC3PARAM_unpack :: "NSEC3PARAM \<Rightarrow> bytes \<Rightarrow> nat \<Rightarrow> (NSEC3PARAM \<times> nat) off_res" where
  "NSEC3PARAM_unpack rr msg off =
     bindR (mapErr (wrap ''NSEC3PARAM.Hash'') (unpackUint8 msg off)) (\<lambda>(v, off).
     let rr = rr\<lparr>NSEC3PARAM_Hash := v\<rparr> in
     if off = length msg then Ok (rr, off) else
     bindR (mapErr (wrap ''NSEC3PARAM.Flags'') (unpackUint8 msg off)) (\<lambda>(v, off).
     let rr = rr\<lparr>NSEC3PARAM_Flags := v\<rparr> in
     if off = length msg then Ok (rr, off) else
     bindR (mapErr (wrap ''NSEC3PARAM.Iterations'') (unpackUint16 msg off)) (\<lambda>(v, off).
     let rr = rr\<lparr>NSEC3PARAM_Iterations := v\<rparr> in
     if off = length msg then Ok (rr, off) else
     bindR (mapErr (wrap ''NSEC3PARAM.SaltLength'') (unpackUint8 msg off)) (\<lambda>(v, off).
     let rr = rr\<lparr>NSEC3PARAM_SaltLength := v\<rparr> in
     if off = length msg then Ok (rr, off) else
     bindR (unpackStringHex msg off (off + unat (NSEC3PARAM_SaltLength rr))) (\<lambda>(v, off).
     let rr = rr\<lparr>NSEC3PARAM_Salt := v\<rparr> in
     Ok (rr, off))))))"

definition NULL_unpack :: "NULL \<Rightarrow> bytes \<Rightarrow> nat \<Rightarrow> (NULL \<times> nat) off_res" where
  "NULL_unpack rr msg rdStart =
     bindR (mapErr (wrap ''NULL.Data'') (unpackStringAny msg rdStart (rdStart + unat (Hdr_Rdlength (NULL_Hdr rr))))) (\<lambda>(v, off).
     let rr = rr\<lparr>NULL_Data := v\<rparr> in
     Ok (rr, off))"

definition NXNAME_unpack :: "NXNAME \<Rightarrow> bytes \<Rightarrow> nat \<Rightarrow> (NXNAME \<times> nat) off_res" where
  "NXNAME_unpack rr msg off =
     Ok (rr, off)"

definition NXT_unpack :: "NXT \<Rightarrow> bytes \<Rightarrow> nat \<Rightarrow> (NXT \<times> nat) off_res" where
  "NXT_unpack rr msg off =
     bindR (mapErr (wrap ''NXT.NextDomain'') (UnpackDomainName msg off)) (\<lambda>(v, off).
     let rr = rr\<lparr>NSEC_NextDomain := v\<rparr> in
     if off = length msg then Ok (rr, off) else
     bindR (mapErr (wrap ''NXT.TypeBitMap'') (unpackDataNsec msg off)) (\<lambda>(v, off).
     let rr = rr\<lparr>NSEC_TypeBitMap := v\<rparr> in
     Ok (rr, off)))"

definition OPENPGPKEY_unpack :: "OPENPGPKEY \<Rightarrow> bytes \<Rightarrow> nat \<Rightarrow> (OPENPGPKEY \<times> nat) off_res" where
  "OPENPGPKEY_unpack rr msg rdStart =
     bindR (mapErr (wrap ''OPENPGPKEY.PublicKey'') (unpackStringBase64 msg rdStart (rdStart + unat (Hdr_Rdlength (OPENPGPKEY_Hdr rr))))) (\<lambda>(v, off).
     let rr = rr\<lparr>OPENPGPKEY_PublicKey := v\<rparr> in
     Ok (rr, off))"

definition OPT_unpack :: "OPT \<Rightarrow> bytes \<Rightarrow> nat \<Rightarrow> (OPT \<times> nat) off_res" where
  "OPT_unpack rr msg off =
     bindR (mapErr (wrap ''OPT.Option'') (unpackDataOpt msg off)) (\<lambda>(v, off).
     let rr = rr\<lparr>OPT_Option := v\<rparr> in
     Ok (rr, off))"

definition PTR_unpack :: "PTR \<Rightarrow> bytes \<Rightarrow> nat \<Rightarrow> (PTR \<times> nat) off_res" where
  "PTR_unpack rr msg off =
     bindR (mapErr (wrap ''PTR.Ptr'') (UnpackDomainName msg off)) (\<lambda>(v, off).
     let rr = rr\<lparr>PTR_Ptr := v\<rparr> in
     Ok (rr, off))"

definition PX_unpack :: "PX \<Rightarrow> bytes \<Rightarrow> nat \<Rightarrow> (PX \<times> nat) off_res" where
  "PX_unpack rr msg off =
     bindR (mapErr (wrap ''PX.Preference'') (unpackUint16 msg off)) (\<lambda>(v, off).
     let rr = rr\<lparr>PX_Preference := v\<rparr> in
     if off = length msg then Ok (rr, off) else
     bindR (mapErr (wrap ''PX.Map822'') (UnpackDomainName msg off)) (\<lambda>(v, off).
     let rr = rr\<lparr>PX_Map822 := v\<rparr> in
     if off = length msg then Ok (rr, off) else
     bindR (mapErr (wrap ''PX.Mapx400'') (UnpackDomainName msg off)) (\<lambda>(v, off).
     let rr = rr\<lparr>PX_Mapx400 := v\<rparr> in
     Ok (rr, off))))"

definition RESINFO_unpack :: "RESINFO \<Rightarrow> bytes \<Rightarrow> nat \<Rightarrow> (RESINFO \<times> nat) off_res" where
  "RESINFO_unpack rr msg off =
     bindR (unpackStringTxt msg off) (\<lambda>(v, off).
     let rr = rr\<lparr>RESINFO_Txt := v\<rparr> in
     Ok (rr, off))"

definition RFC3597_unpack :: "RFC3597 \<Rightarrow> bytes \<Rightarrow> nat \<Rightarrow> (RFC3597 \<times> nat) off_res" where
  "RFC3597_unpack rr msg rdStart =
     bindR (mapErr (wrap ''RFC3597.Rdata'') (unpackStringHex msg rdStart (rdStart + unat (Hdr_Rdlength (RFC3597_Hdr rr))))) (\<lambda>(v, off).
     let rr = rr\<lparr>RFC3597_Rdata := v\<rparr> in
     Ok (rr, off))"

definition RKEY_unpack :: "RKEY \<Rightarrow> bytes \<Rightarrow> nat \<Rightarrow> (RKEY \<times> nat) off_res" where
  "RKEY_unpack rr msg rdStart =
     bindR (mapErr (wrap ''RKEY.Flags'') (unpackUint16 msg rdStart)) (\<lambda>(v, off).
     let rr = rr\<lparr>RKEY_Flags := v\<rparr> in
     if off = length msg then Ok (rr, off) else
     bindR (mapErr (wrap ''RKEY.Protocol'') (unpackUint8 msg off)) (\<lambda>(v, off).
     let rr = rr\<lparr>RKEY_Protocol := v\<rparr> in
     if off = length msg then Ok (rr, off) else
     bindR (mapErr (wrap ''RKEY.Algorithm'') (unpackUint8 msg off)) (\<lambda>(v, off).
     let rr = rr\<lparr>RKEY_Algorithm := v\<rparr> in
     if off = length msg then Ok (rr, off) else
     bindR (mapErr (wrap ''RKEY.PublicKey'') (unpackStringBase64 msg off (rdStart + unat (Hdr_Rdlength (RKEY_Hdr rr))))) (\<lambda>(v, off).
     let rr = rr\<lparr>RKEY_PublicKey := v\<rparr> in
     Ok (rr, off)))))"

definition RP_unpack :: "RP \<Rightarrow> bytes \<Rightarrow> nat \<Rightarrow> (RP \<times> nat) off_res" where
  "RP_unpack rr msg off =
     bindR (mapErr (wrap ''RP.Mbox'') (UnpackDomainName msg off)) (\<lambda>(v, off).
     let rr = rr\<lparr>RP_Mbox := v\<rparr> in
     if off = length msg then Ok (rr, off) else
     bindR (mapErr (wrap ''RP.Txt'') (UnpackDomainName msg off)) (\<lambda>(v, off).
     let rr = rr\<lparr>RP_Txt := v\<rparr> in
     Ok (rr, off)))"

definition RRSIG_unpack :: "RRSIG \<Rightarrow> bytes \<Rightarrow> nat \<Rightarrow> (RRSIG \<times> nat) off_res" where
  "RRSIG_unpack rr msg rdStart =
     bindR (mapErr (wrap ''RRSIG.TypeCovered'') (unpackUint16 msg rdStart)) (\<lambda>(v, off).
     let rr = rr\<lparr>RRSIG_TypeCovered := v\<rparr> in
     if off = length msg then Ok (rr, off) else
     bindR (mapErr (wrap ''RRSIG.Algorithm'') (unpackUint8 msg off)) (\<lambda>(v, off).
     let rr = rr\<lparr>RRSIG_Algorithm := v\<rparr> in
     if off = length msg then Ok (rr, off) else
     bindR (mapErr (wrap ''RRSIG.Labels'') (unpackUint8 msg off)) (\<lambda>(v, off).
     let rr = rr\<lparr>RRSIG_Labels := v\<rparr> in
     if off = length msg then Ok (rr, off) else
     bindR (mapErr (wrap ''RRSIG.OrigTtl'') (unpackUint32 msg off)) (\<lambda>(v, off).
     let rr = rr\<lparr>RRSIG_OrigTtl := v\<rparr> in
     if off = length msg then Ok (rr, off) else
     bindR (mapErr (wrap ''RRSIG.Expiration'') (unpackUint32 msg off)) (\<lambda>(v, off).
     let rr = rr\<lparr>RRSIG_Expiration := v\<rparr> in
     if off = length msg then Ok (rr, off) else
     bindR (mapErr (wrap ''RRSIG.Inception'') (unpackUint32 msg off)) (\<lambda>(v, off).
     let rr = rr\<lparr>RRSIG_Inception := v\<rparr> in
     if off = length msg then Ok (rr, off) else
     bindR (mapErr (wrap ''RRSIG.KeyTag'') (unpackUint16 msg off)) (\<lambda>(v, off).
     let rr = rr\<lparr>RRSIG_KeyTag := v\<rparr> in
     if off = length msg then Ok (rr, off) else
     bindR (mapErr (wrap ''RRSIG.SignerName'') (UnpackDomainName msg off)) (\<lambda>(v, off).
     let rr = rr\<lparr>RRSIG_SignerName := v\<rparr> in
     if off = length msg then Ok (rr, off) else
     bindR (mapErr (wrap ''RRSIG.Signature'') (unpackStringBase64 msg off (rdStart + unat (Hdr_Rdlength (RRSIG_Hdr rr))))) (\<lambda>(v, off).
     let rr = rr\<lparr>RRSIG_Signature := v\<rparr> in
     Ok (rr, off))))))))))"

definition RT_unpack :: "RT \<Rightarrow> bytes \<Rightarrow> nat \<Rightarrow> (RT \<times> nat) off_res" where
  "RT_unpack rr msg off =
     bindR (mapErr (wrap ''RT.Preference'') (unpackUint16 msg off)) (\<lambda>(v, off).
     let rr = rr\<lparr>RT_Preference := v\<rparr> in
     if off = length msg then Ok (rr, off) else
     bindR (mapErr (wrap ''RT.Host'') (UnpackDomainName msg off)) (\<lambda>(v, off).
     let rr = rr\<lparr>RT_Host := v\<rparr> in
     Ok (rr, off)))"

definition SIG_unpack :: "SIG \<Rightarrow> bytes \<Rightarrow> nat \<Rightarrow> (SIG \<times> nat) off_res" where
  "SIG_unpack rr msg rdStart =
     bindR (mapErr (wrap ''SIG.TypeCovered'') (unpackUint16 msg rdStart)) (\<lambda>(v, off).
     let rr = rr\<lparr>RRSIG_TypeCovered := v\<rparr> in
     if off = length msg then Ok (rr, off) else
     bindR (mapErr (wrap ''SIG.Algorithm'') (unpackUint8 msg off)) (\<lambda>(v, off).
     let rr = rr\<lparr>RRSIG_Algorithm := v\<rparr> in
     if off = length msg then Ok (rr, off) else
     bindR (mapErr (wrap ''SIG.Labels'') (unpackUint8 msg off)) (\<lambda>(v, off).
     let rr = rr\<lparr>RRSIG_Labels := v\<rparr> in
     if off = length msg then Ok (rr, off) else
     bindR (mapErr (wrap ''SIG.OrigTtl'') (unpackUint32 msg off)) (\<lambda>(v, off).
     let rr = rr\<lparr>RRSIG_OrigTtl := v\<rparr> in
     if off = length msg then Ok (rr, off) else
     bindR (mapErr (wrap ''SIG.Expiration'') (unpackUint32 msg off)) (\<lambda>(v, off).
     let rr = rr\<lparr>RRSIG_Expiration := v\<rparr> in
     if off = length msg then Ok (rr, off) else
     bindR (mapErr (wrap ''SIG.Inception'') (unpackUint32 msg off)) (\<lambda>(v, off).
     let rr = rr\<lparr>RRSIG_Inception := v\<rparr> in
     if off = length msg then Ok (rr, off) else
     bindR (mapErr (wrap ''SIG.KeyTag'') (unpackUint16 msg off)) (\<lambda>(v, off).
     let rr = rr\<lparr>RRSIG_KeyTag := v\<rparr> in
     if off = length msg then Ok (rr, off) else
     bindR (mapErr (wrap ''SIG.SignerName'') (UnpackDomainName msg off)) (\<lambda>(v, off).
     let rr = rr\<lparr>RRSIG_SignerName := v\<rparr> in
     if off = length msg then Ok (rr, off) else
     bindR (mapErr (wrap ''SIG.Signature'') (unpackStringBase64 msg off (rdStart + unat (Hdr_Rdlength (RRSIG_Hdr rr))))) (\<lambda>(v, off).
     let rr = rr\<lparr>RRSIG_Signature := v\<rparr> in
     Ok (rr, off))))))))))"

definition SMIMEA_unpack :: "SMIMEA \<Rightarrow> bytes \<Rightarrow> nat \<Rightarrow> (SMIMEA \<times> nat) off_res" where
  "SMIMEA_unpack rr msg rdStart =
     bindR (mapErr (wrap ''SMIMEA.Usage'') (unpackUint8 msg rdStart)) (\<lambda>(v, off).
     let rr = rr\<lparr>SMIMEA_Usage := v\<rparr> in
     if off = length msg then Ok (rr, off) else
     bindR (mapErr (wrap ''SMIMEA.Selector'') (unpackUint8 msg off)) (\<lambda>(v, off).
     let rr = rr\<lparr>SMIMEA_Selector := v\<rparr> in
     if off = length msg then Ok (rr, off) else
     bindR (mapErr (wrap ''SMIMEA.MatchingType'') (unpackUint8 msg off)) (\<lambda>(v, off).
     let rr = rr\<lparr>SMIMEA_MatchingType := v\<rparr> in
     if off = length msg then Ok (rr, off) else
     bindR (mapErr (wrap ''SMIMEA.Certificate'') (unpackStringHex msg off (rdStart + unat (Hdr_Rdlength (SMIMEA_Hdr rr))))) (\<lambda>(v, off).
     let rr = rr\<lparr>SMIMEA_Certificate := v\<rparr> in
     Ok (rr, off)))))"

definition SOA_unpack :: "SOA \<Rightarrow> bytes \<Rightarrow> nat \<Rightarrow> (SOA \<times> nat) off_res" where
  "SOA_unpack rr msg off =
     bindR (mapErr (wrap ''SOA.Ns'') (UnpackDomainName msg off)) (\<lambda>(v, off).
     let rr = rr\<lparr>SOA_Ns := v\<rparr> in
     if off = length msg then Ok (rr, off) else
     bindR (mapErr (wrap ''SOA.Mbox'') (UnpackDomainName msg off)) (\<lambda>(v, off).
     let rr = rr\<lparr>SOA_Mbox := v\<rparr> in
     if off = length msg then Ok (rr, off) else
     bindR (mapErr (wrap ''SOA.Serial'') (unpackUint32 msg off)) (\<lambda>(v, off).
     let rr = rr\<lparr>SOA_Serial := v\<rparr> in
     if off = length msg then Ok (rr, off) else
     bindR (mapErr (wrap ''SOA.Refresh'') (unpackUint32 msg off)) (\<lambda>(v, off).
     let rr = rr\<lparr>SOA_Refresh := v\<rparr> in
     if off = length msg then Ok (rr, off) else
     bindR (mapErr (wrap ''SOA.Retry'') (unpackUint32 msg off)) (\<lambda>(v, off).
     let rr = rr\<lparr>SOA_Retry := v\<rparr> in
     if off = length msg then Ok (rr, off) else
     bindR (mapErr (wrap ''SOA.Expire'') (unpackUint32 msg off)) (\<lambda>(v, off).
     let rr = rr\<lparr>SOA_Expire := v\<rparr> in
     if off = length msg then Ok (rr, off) else
     bindR (mapErr (wrap ''SOA.Minttl'') (unpackUint32 msg off)) (\<lambda>(v, off).
     let rr = rr\<lparr>SOA_Minttl := v\<rparr> in
     Ok (rr, off))))))))"

definition SPF_unpack :: "SPF \<Rightarrow> bytes \<Rightarrow> nat \<Rightarrow> (SPF \<times> nat) off_res" where
  "SPF_unpack rr msg off =
     bindR (mapErr (wrap ''SPF.Txt'') (unpackStringTxt msg off)) (\<lambda>(v, off).
     let rr = rr\<lparr>SPF_Txt := v\<rparr> in
     Ok (rr, off))"

definition SRV_unpack :: "SRV \<Rightarrow> bytes \<Rightarrow> nat \<Rightarrow> (SRV \<times> nat) off_res" where
  "SRV_unpack rr msg off =
     bindR (mapErr (wrap ''SRV.Priority'') (unpackUint16 msg off)) (\<lambda>(v, off).
     let rr = rr\<lparr>SRV_Priority := v\<rparr> in
     if off = length msg then Ok (rr, off) else
     bindR (mapErr (wrap ''SRV.Weight'') (unpackUint16 msg off)) (\<lambda>(v, off).
     let rr = rr\<lparr>SRV_Weight := v\<rparr> in
     if off = length msg then Ok (rr, off) else
     bindR (mapErr (wrap ''SRV.Port'') (unpackUint16 msg off)) (\<lambda>(v, off).
     let rr = rr\<lparr>SRV_Port := v\<rparr> in
     if off = length msg then Ok (rr, off) else
     bindR (mapErr (wrap ''SRV.Target'') (UnpackDomainName msg off)) (\<lambda>(v, off).
     let rr = rr\<lparr>SRV_Target := v\<rparr> in
     Ok (rr, off)))))"

definition SSHFP_unpack :: "SSHFP \<Rightarrow> bytes \<Rightarrow> nat \<Rightarrow> (SSHFP \<times> nat) off_res" where
  "SSHFP_unpack rr msg rdStart =
     bindR (mapErr (wrap ''SSHFP.Algorithm'') (unpackUint8 msg rdStart)) (\<lambda>(v, off).
     let rr = rr\<lparr>SSHFP_Algorithm := v\<rparr> in
     if off = length msg then Ok (rr, off) else
     bindR (mapErr (wrap ''SSHFP.Type'') (unpackUint8 msg off)) (\<lambda>(v, off).
     let rr = rr\<lparr>SSHFP_Type := v\<rparr> in
     if off = length msg then Ok (rr, off) else
     bindR (mapErr (wrap ''SSHFP.FingerPrint'') (unpackStringHex msg off (rdStart + unat (Hdr_Rdlength (SSHFP_Hdr rr))))) (\<lambda>(v, off).
     let rr = rr\<lparr>SSHFP_FingerPrint := v\<rparr> in
     Ok (rr, off))))"

definition SVCB_unpack :: "SVCB \<Rightarrow> bytes \<Rightarrow> nat \<Rightarrow> (SVCB \<times> nat) off_res" where
  "SVCB_unpack rr msg off =
     bindR (mapErr (wrap ''SVCB.Priority'') (unpackUint16 msg off)) (\<lambda>(v, off).
     let rr = rr\<lparr>SVCB_Priority := v\<rparr> in
     if off = length msg then Ok (rr, off) else
     bindR (mapErr (wrap ''SVCB.Target'') (UnpackDomainName msg off)) (\<lambda>(v, off).
     let rr = rr\<lparr>SVCB_Target := v\<rparr> in
     if off = length msg then Ok (rr, off) else
     bindR (mapErr (wrap ''SVCB.Value'') (unpackDataSVCB msg off)) (\<lambda>(v, off).
     let rr = rr\<lparr>SVCB_Value := v\<rparr> in
     Ok (rr, off))))"

definition TA_unpack :: "TA \<Rightarrow> bytes \<Rightarrow> nat \<Rightarrow> (TA \<times> nat) off_res" where
  "TA_unpack rr msg rdStart =
     bindR (mapErr (wrap ''TA.KeyTag'') (unpackUint16 msg rdStart)) (\<lambda>(v, off).
     let rr = rr\<lparr>TA_KeyTag := v\<rparr> in
     if off = length msg then Ok (rr, off) else
     bindR (mapErr (wrap ''TA.Algorithm'') (unpackUint8 msg off)) (\<lambda>(v, off).
     let rr = rr\<lparr>TA_Algorithm := v\<rparr> in
     if off = length msg then Ok (rr, off) else
     bindR (mapErr (wrap ''TA.DigestType'') (unpackUint8 msg off)) (\<lambda>(v, off).
     let rr = rr\<lparr>TA_DigestType := v\<rparr> in
     if off = length msg then Ok (rr, off) else
     bindR (mapErr (wrap ''TA.Digest'') (unpackStringHex msg off (rdStart + unat (Hdr_Rdlength (TA_Hdr rr))))) (\<lambda>(v, off).
     let rr = rr\<lparr>TA_Digest := v\<rparr> in
     Ok (rr, off)))))"

definition TALINK_unpack :: "TALINK \<Rightarrow> bytes \<Rightarrow> nat \<Rightarrow> (TALINK \<times> nat) off_res" where
  "TALINK_unpack rr msg off =
     bindR (mapErr (wrap ''TALINK.PreviousName'') (UnpackDomainName msg off)) (\<lambda>(v, off).
     let rr = rr\<lparr>TALINK_PreviousName := v\<rparr> in
     if off = length msg then Ok (rr, off) else
     bindR (mapErr (wrap ''TALINK.NextName'') (UnpackDomainName msg off)) (\<lambda>(v, off).
     let rr = rr\<lparr>TALINK_NextName := v\<rparr> in
     Ok (rr, off)))"

definition TKEY_unpack :: "TKEY \<Rightarrow> bytes \<Rightarrow> nat \<Rightarrow> (TKEY \<times> nat) off_res" where
  "TKEY_unpack rr msg off =
     bindR (mapErr (wrap ''TKEY.Algorithm'') (UnpackDomainName msg off)) (\<lambda>(v, off).
     let rr = rr\<lparr>TKEY_Algorithm := v\<rparr> in
     if off = length msg then Ok (rr, off) else
     bindR (mapErr (wrap ''TKEY.Inception'') (unpackUint32 msg off)) (\<lambda>(v, off).
     let rr = rr\<lparr>TKEY_Inception := v\<rparr> in
     if off = length msg then Ok (rr, off) else
     bindR (mapErr (wrap ''TKEY.Expiration'') (unpackUint32 msg off)) (\<lambda>(v, off).
     let rr = rr\<lparr>TKEY_Expiration := v\<rparr> in
     if off = length msg then Ok (rr, off) else
     bindR (mapErr (wrap ''TKEY.Mode'') (unpackUint16 msg off)) (\<lambda>(v, off).
     let rr = rr\<lparr>TKEY_Mode := v\<rparr> in
     if off = length msg then Ok (rr, off) else
     bindR (mapErr (wrap ''TKEY.Error'') (unpackUint16 msg off)) (\<lambda>(v, off).
     let rr = rr\<lparr>TKEY_Error := v\<rparr> in
     if off = length msg then Ok (rr, off) else
     bindR (mapErr (wrap ''TKEY.KeySize'') (unpackUint16 msg off)) (\<lambda>(v, off).
     let rr = rr\<lparr>TKEY_KeySize := v\<rparr> in
     if off = length msg then Ok (rr, off) else
     bindR (unpackStringHex msg off (off + unat (TKEY_KeySize rr))) (\<lambda>(v, off).
     let rr = rr\<lparr>TKEY_Key := v\<rparr> in
     bindR (mapErr (wrap ''TKEY.OtherLen'') (unpackUint16 msg off)) (\<lambda>(v, off).
     let rr = rr\<lparr>TKEY_OtherLen := v\<rparr> in
     if off = length msg then Ok (rr, off) else
     bindR (unpackStringHex msg off (off + unat (TKEY_OtherLen rr))) (\<lambda>(v, off).
     let rr = rr\<lparr>TKEY_OtherData := v\<rparr> in
     Ok (rr, off))))))))))"

definition TLSA_unpack :: "TLSA \<Rightarrow> bytes \<Rightarrow> nat \<Rightarrow> (TLSA \<times> nat) off_res" where
  "TLSA_unpack rr msg rdStart =
     bindR (mapErr (wrap ''TLSA.Usage'') (unpackUint8 msg rdStart)) (\<lambda>(v, off).
     let rr = rr\<lparr>TLSA_Usage := v\<rparr> in
     if off = length msg then Ok (rr, off) else
     bindR (mapErr (wrap ''TLSA.Selector'') (unpackUint8 msg off)) (\<lambda>(v, off).
     let rr = rr\<lparr>TLSA_Selector := v\<rparr> in
     if off = length msg then Ok (rr, off) else
     bindR (mapErr (wrap ''TLSA.MatchingType'') (unpackUint8 msg off)) (\<lambda>(v, off).
     let rr = rr\<lparr>TLSA_MatchingType := v\<rparr> in
     if off = length msg then Ok (rr, off) else
     bindR (mapErr (wrap ''TLSA.Certificate'') (unpackStringHex msg off (rdStart + unat (Hdr_Rdlength (TLSA_Hdr rr))))) (\<lambda>(v, off).
     let rr = rr\<lparr>TLSA_Certificate := v\<rparr> in
     Ok (rr, off)))))"

definition TSIG_unpack :: "TSIG \<Rightarrow> bytes \<Rightarrow> nat \<Rightarrow> (TSIG \<times> nat) off_res" where
  "TSIG_unpack rr msg off =
     bindR (mapErr (wrap ''TSIG.Algorithm'') (UnpackDomainName msg off)) (\<lambda>(v, off).
     let rr = rr\<lparr>TSIG_Algorithm := v\<rparr> in
     if off = length msg then Ok (rr, off) else
     bindR (mapErr (wrap ''TSIG.TimeSigned'') (unpackUint48 msg off)) (\<lambda>(v, off).
     let rr = rr\<lparr>TSIG_TimeSigned := v\<rparr> in
     if off = length msg then Ok (rr, off) else
     bindR (mapErr (wrap ''TSIG.Fudge'') (unpackUint16 msg off)) (\<lambda>(v, off).
     let rr = rr\<lparr>TSIG_Fudge := v\<rparr> in
     if off = length msg then Ok (rr, off) else
     bindR (mapErr (wrap ''TSIG.MACSize'') (unpackUint16 msg off)) (\<lambda>(v, off).
     let rr = rr\<lparr>TSIG_MACSize := v\<rparr> in
     if off = length msg then Ok (rr, off) else
     bindR (unpackStringHex msg off (off + unat (TSIG_MACSize rr))) (\<lambda>(v, off).
     let rr = rr\<lparr>TSIG_MAC := v\<rparr> in
     bindR (mapErr (wrap ''TSIG.OrigId'') (unpackUint16 msg off)) (\<lambda>(v, off).
     let rr = rr\<lparr>TSIG_OrigId := v\<rparr> in
     if off = length msg then Ok (rr, off) else
     bindR (mapErr (wrap ''TSIG.Error'') (unpackUint16 msg off)) (\<lambda>(v, off).
     let rr = rr\<lparr>TSIG_Error := v\<rparr> in
     if off = length msg then Ok (rr, off) else
     bindR (mapErr (wrap ''TSIG.OtherLen'') (unpackUint16 msg off)) (\<lambda>(v, off).
     let rr = rr\<lparr>TSIG_OtherLen := v\<rparr> in
     if off = length msg then Ok (rr, off) else
     bindR (unpackStringHex msg off (off + unat (TSIG_OtherLen rr))) (\<lambda>(v, off).
     let rr = rr\<lparr>TSIG_OtherData := v\<rparr> in
     Ok (rr, off))))))))))"

definition TXT_unpack :: "TXT \<Rightarrow> bytes \<Rightarrow> nat \<Rightarrow> (TXT \<times> nat) off_res" where
  "TXT_unpack rr msg off =
     bindR (mapErr (wrap ''TXT.Txt'') (unpackStringTxt msg off)) (\<lambda>(v, off).
     let rr = rr\<lparr>TXT_Txt := v\<rparr> in
     Ok (rr, off))"

definition UID_unpack :: "UID \<Rightarrow> bytes \<Rightarrow> nat \<Rightarrow> (UID \<times> nat) off_res" where
  "UID_unpack rr msg off =
     bindR (mapErr (wrap ''UID.Uid'') (unpackUint32 msg off)) (\<lambda>(v, off).
     let rr = rr\<lparr>UID_Uid := v\<rparr> in
     Ok (rr, off))"

definition UINFO_unpack :: "UINFO \<Rightarrow> bytes \<Rightarrow> nat \<Rightarrow> (UINFO \<times> nat) off_res" where
  "UINFO_unpack rr msg off =
     bindR (mapErr (wrap ''UINFO.Uinfo'') (unpackString msg off)) (\<lambda>(v, off).
     let rr = rr\<lparr>UINFO_Uinfo := v\<rparr> in
     Ok (rr, off))"

definition URI_unpack :: "URI \<Rightarrow> bytes \<Rightarrow> nat \<Rightarrow> (URI \<times> nat) off_res" where
  "URI_unpack rr msg off =
     bindR (mapErr (wrap ''URI.Priority'') (unpackUint16 msg off)) (\<lambda>(v, off).
     let rr = rr\<lparr>URI_Priority := v\<rparr> in
     if off = length msg then Ok (rr, off) else
     bindR (mapErr (wrap ''URI.Weight'') (unpackUint16 msg off)) (\<lambda>(v, off).
     let rr = rr\<lparr>URI_Weight := v\<rparr> in
     if off = length msg then Ok (rr, off) else
     bindR (mapErr (wrap ''URI.Target'') (unpackStringOctet msg off)) (\<lambda>(v, off).
     let rr = rr\<lparr>URI_Target := v\<rparr> in
     Ok (rr, off))))"

definition X25_unpack :: "X25 \<Rightarrow> bytes \<Rightarrow> nat \<Rightarrow> (X25 \<times> nat) off_res" where
  "X25_unpack rr msg off =
     bindR (mapErr (wrap ''X25.PSDNAddress'') (unpackString msg off)) (\<lambda>(v, off).
     let rr = rr\<lparr>X25_PSDNAddress := v\<rparr> in
     Ok (rr, off))"

definition ZONEMD_unpack :: "ZONEMD \<Rightarrow> bytes \<Rightarrow> nat \<Rightarrow> (ZONEMD \<times> nat) off_res" where
  "ZONEMD_unpack rr msg rdStart =
     bindR (mapErr (wrap ''ZONEMD.Serial'') (unpackUint32 msg rdStart)) (\<lambda>(v, off).
     let rr = rr\<lparr>ZONEMD_Serial := v\<rparr> in
     if off = length msg then Ok (rr, off) else
     bindR (mapErr (wrap ''ZONEMD.Scheme'') (unpackUint8 msg off)) (\<lambda>(v, off).
     let rr = rr\<lparr>ZONEMD_Scheme := v\<rparr> in
     if off = length msg then Ok (rr, off) else
     bindR (mapErr (wrap ''ZONEMD.Hash'') (unpackUint8 msg off)) (\<lambda>(v, off).
     let rr = rr\<lparr>ZONEMD_Hash := v\<rparr> in
     if off = length msg then Ok (rr, off) else
     bindR (mapErr (wrap ''ZONEMD.Digest'') (unpackStringHex msg off (rdStart + unat (Hdr_Rdlength (ZONEMD_Hdr rr))))) (\<lambda>(v, off).
     let rr = rr\<lparr>ZONEMD_Digest := v\<rparr> in
     Ok (rr, off)))))"

text \<open>The dynamic dispatch of \<^verbatim>\<open>rr.unpack\<close>.\<close>

primrec rr_unpack :: "RR \<Rightarrow> bytes \<Rightarrow> nat \<Rightarrow> (RR \<times> nat) off_res" where
  "rr_unpack (RR_A rr) msg off = bindR (A_unpack rr msg off) (\<lambda>(rr, off). Ok (RR_A rr, off))"
| "rr_unpack (RR_AAAA rr) msg off = bindR (AAAA_unpack rr msg off) (\<lambda>(rr, off). Ok (RR_AAAA rr, off))"
| "rr_unpack (RR_AFSDB rr) msg off = bindR (AFSDB_unpack rr msg off) (\<lambda>(rr, off). Ok (RR_AFSDB rr, off))"
| "rr_unpack (RR_AMTRELAY rr) msg off = bindR (AMTRELAY_unpack rr msg off) (\<lambda>(rr, off). Ok (RR_AMTRELAY rr, off))"
| "rr_unpack (RR_ANY rr) msg off = bindR (ANY_unpack rr msg off) (\<lambda>(rr, off). Ok (RR_ANY rr, off))"
| "rr_unpack (RR_APL rr) msg off = bindR (APL_unpack rr msg off) (\<lambda>(rr, off). Ok (RR_APL rr, off))"
| "rr_unpack (RR_AVC rr) msg off = bindR (AVC_unpack rr msg off) (\<lambda>(rr, off). Ok (RR_AVC rr, off))"
| "rr_unpack (RR_CAA rr) msg off = bindR (CAA_unpack rr msg off) (\<lambda>(rr, off). Ok (RR_CAA rr, off))"
| "rr_unpack (RR_CDNSKEY rr) msg off = bindR (CDNSKEY_unpack rr msg off) (\<lambda>(rr, off). Ok (RR_CDNSKEY rr, off))"
| "rr_unpack (RR_CDS rr) msg off = bindR (CDS_unpack rr msg off) (\<lambda>(rr, off). Ok (RR_CDS rr, off))"
| "rr_unpack (RR_CERT rr) msg off = bindR (CERT_unpack rr msg off) (\<lambda>(rr, off). Ok (RR_CERT rr, off))"
| "rr_unpack (RR_CNAME rr) msg off = bindR (CNAME_unpack rr msg off) (\<lambda>(rr, off). Ok (RR_CNAME rr, off))"
| "rr_unpack (RR_CSYNC rr) msg off = bindR (CSYNC_unpack rr msg off) (\<lambda>(rr, off). Ok (RR_CSYNC rr, off))"
| "rr_unpack (RR_DHCID rr) msg off = bindR (DHCID_unpack rr msg off) (\<lambda>(rr, off). Ok (RR_DHCID rr, off))"
| "rr_unpack (RR_DLV rr) msg off = bindR (DLV_unpack rr msg off) (\<lambda>(rr, off). Ok (RR_DLV rr, off))"
| "rr_unpack (RR_DNAME rr) msg off = bindR (DNAME_unpack rr msg off) (\<lambda>(rr, off). Ok (RR_DNAME rr, off))"
| "rr_unpack (RR_DNSKEY rr) msg off = bindR (DNSKEY_unpack rr msg off) (\<lambda>(rr, off). Ok (RR_DNSKEY rr, off))"
| "rr_unpack (RR_DS rr) msg off = bindR (DS_unpack rr msg off) (\<lambda>(rr, off). Ok (RR_DS rr, off))"
| "rr_unpack (RR_EID rr) msg off = bindR (EID_unpack rr msg off) (\<lambda>(rr, off). Ok (RR_EID rr, off))"
| "rr_unpack (RR_EUI48 rr) msg off = bindR (EUI48_unpack rr msg off) (\<lambda>(rr, off). Ok (RR_EUI48 rr, off))"
| "rr_unpack (RR_EUI64 rr) msg off = bindR (EUI64_unpack rr msg off) (\<lambda>(rr, off). Ok (RR_EUI64 rr, off))"
| "rr_unpack (RR_GID rr) msg off = bindR (GID_unpack rr msg off) (\<lambda>(rr, off). Ok (RR_GID rr, off))"
| "rr_unpack (RR_GPOS rr) msg off = bindR (GPOS_unpack rr msg off) (\<lambda>(rr, off). Ok (RR_GPOS rr, off))"
| "rr_unpack (RR_HINFO rr) msg off = bindR (HINFO_unpack rr msg off) (\<lambda>(rr, off). Ok (RR_HINFO rr, off))"
| "rr_unpack (RR_HIP rr) msg off = bindR (HIP_unpack rr msg off) (\<lambda>(rr, off). Ok (RR_HIP rr, off))"
| "rr_unpack (RR_HTTPS rr) msg off = bindR (HTTPS_unpack rr msg off) (\<lambda>(rr, off). Ok (RR_HTTPS rr, off))"
| "rr_unpack (RR_IPSECKEY rr) msg off = bindR (IPSECKEY_unpack rr msg off) (\<lambda>(rr, off). Ok (RR_IPSECKEY rr, off))"
| "rr_unpack (RR_ISDN rr) msg off = bindR (ISDN_unpack rr msg off) (\<lambda>(rr, off). Ok (RR_ISDN rr, off))"
| "rr_unpack (RR_KEY rr) msg off = bindR (KEY_unpack rr msg off) (\<lambda>(rr, off). Ok (RR_KEY rr, off))"
| "rr_unpack (RR_KX rr) msg off = bindR (KX_unpack rr msg off) (\<lambda>(rr, off). Ok (RR_KX rr, off))"
| "rr_unpack (RR_L32 rr) msg off = bindR (L32_unpack rr msg off) (\<lambda>(rr, off). Ok (RR_L32 rr, off))"
| "rr_unpack (RR_L64 rr) msg off = bindR (L64_unpack rr msg off) (\<lambda>(rr, off). Ok (RR_L64 rr, off))"
| "rr_unpack (RR_LOC rr) msg off = bindR (LOC_unpack rr msg off) (\<lambda>(rr, off). Ok (RR_LOC rr, off))"
| "rr_unpack (RR_LP rr) msg off = bindR (LP_unpack rr msg off) (\<lambda>(rr, off). Ok (RR_LP rr, off))"
| "rr_unpack (RR_MB rr) msg off = bindR (MB_unpack rr msg off) (\<lambda>(rr, off). Ok (RR_MB rr, off))"
| "rr_unpack (RR_MD rr) msg off = bindR (MD_unpack rr msg off) (\<lambda>(rr, off). Ok (RR_MD rr, off))"
| "rr_unpack (RR_MF rr) msg off = bindR (MF_unpack rr msg off) (\<lambda>(rr, off). Ok (RR_MF rr, off))"
| "rr_unpack (RR_MG rr) msg off = bindR (MG_unpack rr msg off) (\<lambda>(rr, off). Ok (RR_MG rr, off))"
| "rr_unpack (RR_MINFO rr) msg off = bindR (MINFO_unpack rr msg off) (\<lambda>(rr, off). Ok (RR_MINFO rr, off))"
| "rr_unpack (RR_MR rr) msg off = bindR (MR_unpack rr msg off) (\<lambda>(rr, off). Ok (RR_MR rr, off))"
| "rr_unpack (RR_MX rr) msg off = bindR (MX_unpack rr msg off) (\<lambda>(rr, off). Ok (RR_MX rr, off))"
| "rr_unpack (RR_NAPTR rr) msg off = bindR (NAPTR_unpack rr msg off) (\<lambda>(rr, off). Ok (RR_NAPTR rr, off))"
| "rr_unpack (RR_NID rr) msg off = bindR (NID_unpack rr msg off) (\<lambda>(rr, off). Ok (RR_NID rr, off))"
| "rr_unpack (RR_NIMLOC rr) msg off = bindR (NIMLOC_unpack rr msg off) (\<lambda>(rr, off). Ok (RR_NIMLOC rr, off))"
| "rr_unpack (RR_NINFO rr) msg off = bindR (NINFO_unpack rr msg off) (\<lambda>(rr, off). Ok (RR_NINFO rr, off))"
| "rr_unpack (RR_NS rr) msg off = bindR (NS_unpack rr msg off) (\<lambda>(rr, off). Ok (RR_NS rr, off))"
| "rr_unpack (RR_NSAPPTR rr) msg off = bindR (NSAPPTR_unpack rr msg off) (\<lambda>(rr, off). Ok (RR_NSAPPTR rr, off))"
| "rr_unpack (RR_NSEC rr) msg off = bindR (NSEC_unpack rr msg off) (\<lambda>(rr, off). Ok (RR_NSEC rr, off))"
| "rr_unpack (RR_NSEC3 rr) msg off = bindR (NSEC3_unpack rr msg off) (\<lambda>(rr, off). Ok (RR_NSEC3 rr, off))"
| "rr_unpack (RR_NSEC3PARAM rr) msg off = bindR (NSEC3PARAM_unpack rr msg off) (\<lambda>(rr, off). Ok (RR_NSEC3PARAM rr, off))"
| "rr_unpack (RR_NULL rr) msg off = bindR (NULL_unpack rr msg off) (\<lambda>(rr, off). Ok (RR_NULL rr, off))"
| "rr_unpack (RR_NXNAME rr) msg off = bindR (NXNAME_unpack rr msg off) (\<lambda>(rr, off). Ok (RR_NXNAME rr, off))"
| "rr_unpack (RR_NXT rr) msg off = bindR (NXT_unpack rr msg off) (\<lambda>(rr, off). Ok (RR_NXT rr, off))"
| "rr_unpack (RR_OPENPGPKEY rr) msg off = bindR (OPENPGPKEY_unpack rr msg off) (\<lambda>(rr, off). Ok (RR_OPENPGPKEY rr, off))"
| "rr_unpack (RR_OPT rr) msg off = bindR (OPT_unpack rr msg off) (\<lambda>(rr, off). Ok (RR_OPT rr, off))"
| "rr_unpack (RR_PTR rr) msg off = bindR (PTR_unpack rr msg off) (\<lambda>(rr, off). Ok (RR_PTR rr, off))"
| "rr_unpack (RR_PX rr) msg off = bindR (PX_unpack rr msg off) (\<lambda>(rr, off). Ok (RR_PX rr, off))"
| "rr_unpack (RR_RESINFO rr) msg off = bindR (RESINFO_unpack rr msg off) (\<lambda>(rr, off). Ok (RR_RESINFO rr, off))"
| "rr_unpack (RR_RFC3597 rr) msg off = bindR (RFC3597_unpack rr msg off) (\<lambda>(rr, off). Ok (RR_RFC3597 rr, off))"
| "rr_unpack (RR_RKEY rr) msg off = bindR (RKEY_unpack rr msg off) (\<lambda>(rr, off). Ok (RR_RKEY rr, off))"
| "rr_unpack (RR_RP rr) msg off = bindR (RP_unpack rr msg off) (\<lambda>(rr, off). Ok (RR_RP rr, off))"
| "rr_unpack (RR_RRSIG rr) msg off = bindR (RRSIG_unpack rr msg off) (\<lambda>(rr, off). Ok (RR_RRSIG rr, off))"
| "rr_unpack (RR_RT rr) msg off = bindR (RT_unpack rr msg off) (\<lambda>(rr, off). Ok (RR_RT rr, off))"
| "rr_unpack (RR_SIG rr) msg off = bindR (SIG_unpack rr msg off) (\<lambda>(rr, off). Ok (RR_SIG rr, off))"
| "rr_unpack (RR_SMIMEA rr) msg off = bindR (SMIMEA_unpack rr msg off) (\<lambda>(rr, off). Ok (RR_SMIMEA rr, off))"
| "rr_unpack (RR_SOA rr) msg off = bindR (SOA_unpack rr msg off) (\<lambda>(rr, off). Ok (RR_SOA rr, off))"
| "rr_unpack (RR_SPF rr) msg off = bindR (SPF_unpack rr msg off) (\<lambda>(rr, off). Ok (RR_SPF rr, off))"
| "rr_unpack (RR_SRV rr) msg off = bindR (SRV_unpack rr msg off) (\<lambda>(rr, off). Ok (RR_SRV rr, off))"
| "rr_unpack (RR_SSHFP rr) msg off = bindR (SSHFP_unpack rr msg off) (\<lambda>(rr, off). Ok (RR_SSHFP rr, off))"
| "rr_unpack (RR_SVCB rr) msg off = bindR (SVCB_unpack rr msg off) (\<lambda>(rr, off). Ok (RR_SVCB rr, off))"
| "rr_unpack (RR_TA rr) msg off = bindR (TA_unpack rr msg off) (\<lambda>(rr, off). Ok (RR_TA rr, off))"
| "rr_unpack (RR_TALINK rr) msg off = bindR (TALINK_unpack rr msg off) (\<lambda>(rr, off). Ok (RR_TALINK rr, off))"
| "rr_unpack (RR_TKEY rr) msg off = bindR (TKEY_unpack rr msg off) (\<lambda>(rr, off). Ok (RR_TKEY rr, off))"
| "rr_unpack (RR_TLSA rr) msg off = bindR (TLSA_unpack rr msg off) (\<lambda>(rr, off). Ok (RR_TLSA rr, off))"
| "rr_unpack (RR_TSIG rr) msg off = bindR (TSIG_unpack rr msg off) (\<lambda>(rr, off). Ok (RR_TSIG rr, off))"
| "rr_unpack (RR_TXT rr) msg off = bindR (TXT_unpack rr msg off) (\<lambda>(rr, off). Ok (RR_TXT rr, off))"
| "rr_unpack (RR_UID rr) msg off = bindR (UID_unpack rr msg off) (\<lambda>(rr, off). Ok (RR_UID rr, off))"
| "rr_unpack (RR_UINFO rr) msg off = bindR (UINFO_unpack rr msg off) (\<lambda>(rr, off). Ok (RR_UINFO rr, off))"
| "rr_unpack (RR_URI rr) msg off = bindR (URI_unpack rr msg off) (\<lambda>(rr, off). Ok (RR_URI rr, off))"
| "rr_unpack (RR_X25 rr) msg off = bindR (X25_unpack rr msg off) (\<lambda>(rr, off). Ok (RR_X25 rr, off))"
| "rr_unpack (RR_ZONEMD rr) msg off = bindR (ZONEMD_unpack rr msg off) (\<lambda>(rr, off). Ok (RR_ZONEMD rr, off))"

end
