(* ===== verification/Rdata_Codec.thy ===== *)
theory Rdata_Codec
  imports Record_Codec Zmsg_Pack Zmsg_Unpack
begin

section \<open>The data of every record type reads back\<close>

text \<open>
  For each record type: the values that survive packing (\<open>rdata_ok\<close>), that its data reads
  back, that unpacking does not panic and stays within the message, and that packing does not
  panic. The proof for a type is the list of the rules for its fields.
\<close>

primrec rdata_ok :: "RR \<Rightarrow> bool" where
  "rdata_ok (RR_A rr) \<longleftrightarrow> length (A_A rr) = 4"
| "rdata_ok (RR_AAAA rr) \<longleftrightarrow> length (AAAA_AAAA rr) = 16"
| "rdata_ok (RR_AFSDB rr) \<longleftrightarrow> ok_name (AFSDB_Hostname rr)"
| "rdata_ok (RR_AMTRELAY rr) \<longleftrightarrow> ok_gateway (AMTRELAY_GatewayType rr) (AMTRELAY_GatewayAddr rr) (AMTRELAY_GatewayHost rr)"
| "rdata_ok (RR_ANY rr) \<longleftrightarrow> True"
| "rdata_ok (RR_APL rr) \<longleftrightarrow> ok_apl (APL_Prefixes rr)"
| "rdata_ok (RR_AVC rr) \<longleftrightarrow> ok_txt (AVC_Txt rr)"
| "rdata_ok (RR_CAA rr) \<longleftrightarrow> ok_string (CAA_Tag rr) \<and> ok_octet (CAA_Value rr)"
| "rdata_ok (RR_CDNSKEY rr) \<longleftrightarrow> ok_base64 (DNSKEY_PublicKey rr)"
| "rdata_ok (RR_CDS rr) \<longleftrightarrow> ok_hex (DS_Digest rr)"
| "rdata_ok (RR_CERT rr) \<longleftrightarrow> ok_base64 (CERT_Certificate rr)"
| "rdata_ok (RR_CNAME rr) \<longleftrightarrow> ok_name (CNAME_Target rr)"
| "rdata_ok (RR_CSYNC rr) \<longleftrightarrow> ok_bitmap (CSYNC_TypeBitMap rr)"
| "rdata_ok (RR_DHCID rr) \<longleftrightarrow> ok_base64 (DHCID_Digest rr)"
| "rdata_ok (RR_DLV rr) \<longleftrightarrow> ok_hex (DS_Digest rr)"
| "rdata_ok (RR_DNAME rr) \<longleftrightarrow> ok_name (DNAME_Target rr)"
| "rdata_ok (RR_DNSKEY rr) \<longleftrightarrow> ok_base64 (DNSKEY_PublicKey rr)"
| "rdata_ok (RR_DS rr) \<longleftrightarrow> ok_hex (DS_Digest rr)"
| "rdata_ok (RR_EID rr) \<longleftrightarrow> ok_hex (EID_Endpoint rr)"
| "rdata_ok (RR_EUI48 rr) \<longleftrightarrow> take_bit 48 (EUI48_Address rr) = EUI48_Address rr"
| "rdata_ok (RR_EUI64 rr) \<longleftrightarrow> True"
| "rdata_ok (RR_GID rr) \<longleftrightarrow> True"
| "rdata_ok (RR_GPOS rr) \<longleftrightarrow> ok_string (GPOS_Longitude rr) \<and> ok_string (GPOS_Latitude rr) \<and> ok_string (GPOS_Altitude rr)"
| "rdata_ok (RR_HINFO rr) \<longleftrightarrow> ok_string (HINFO_Cpu rr) \<and> ok_string (HINFO_Os rr)"
| "rdata_ok (RR_HIP rr) \<longleftrightarrow> ok_hex (HIP_Hit rr) \<and> length (text_octets hexDecode (HIP_Hit rr)) = unat (HIP_HitLength rr) \<and> HIP_HitLength rr \<noteq> 0 \<and> ok_base64 (HIP_PublicKey rr) \<and> length (text_octets fromBase64 (HIP_PublicKey rr)) = unat (HIP_PublicKeyLength rr) \<and> list_all ok_name (HIP_RendezvousServers rr)"
| "rdata_ok (RR_HTTPS rr) \<longleftrightarrow> ok_name (SVCB_Target rr) \<and> ok_svcb (SVCB_Value rr)"
| "rdata_ok (RR_IPSECKEY rr) \<longleftrightarrow> ok_gateway (IPSECKEY_GatewayType rr) (IPSECKEY_GatewayAddr rr) (IPSECKEY_GatewayHost rr) \<and> ok_base64 (IPSECKEY_PublicKey rr)"
| "rdata_ok (RR_ISDN rr) \<longleftrightarrow> ok_string (ISDN_Address rr) \<and> ok_string (ISDN_SubAddress rr)"
| "rdata_ok (RR_KEY rr) \<longleftrightarrow> ok_base64 (DNSKEY_PublicKey rr)"
| "rdata_ok (RR_KX rr) \<longleftrightarrow> ok_name (KX_Exchanger rr)"
| "rdata_ok (RR_L32 rr) \<longleftrightarrow> length (L32_Locator32 rr) = 4"
| "rdata_ok (RR_L64 rr) \<longleftrightarrow> True"
| "rdata_ok (RR_LOC rr) \<longleftrightarrow> True"
| "rdata_ok (RR_LP rr) \<longleftrightarrow> ok_name (LP_Fqdn rr)"
| "rdata_ok (RR_MB rr) \<longleftrightarrow> ok_name (MB_Mb rr)"
| "rdata_ok (RR_MD rr) \<longleftrightarrow> ok_name (MD_Md rr)"
| "rdata_ok (RR_MF rr) \<longleftrightarrow> ok_name (MF_Mf rr)"
| "rdata_ok (RR_MG rr) \<longleftrightarrow> ok_name (MG_Mg rr)"
| "rdata_ok (RR_MINFO rr) \<longleftrightarrow> ok_name (MINFO_Rmail rr) \<and> ok_name (MINFO_Email rr)"
| "rdata_ok (RR_MR rr) \<longleftrightarrow> ok_name (MR_Mr rr)"
| "rdata_ok (RR_MX rr) \<longleftrightarrow> ok_name (MX_Mx rr)"
| "rdata_ok (RR_NAPTR rr) \<longleftrightarrow> ok_string (NAPTR_Flags rr) \<and> ok_string (NAPTR_Service rr) \<and> ok_string (NAPTR_Regexp rr) \<and> ok_name (NAPTR_Replacement rr)"
| "rdata_ok (RR_NID rr) \<longleftrightarrow> True"
| "rdata_ok (RR_NIMLOC rr) \<longleftrightarrow> ok_hex (NIMLOC_Locator rr)"
| "rdata_ok (RR_NINFO rr) \<longleftrightarrow> ok_txt (NINFO_ZSData rr)"
| "rdata_ok (RR_NS rr) \<longleftrightarrow> ok_name (NS_Ns rr)"
| "rdata_ok (RR_NSAPPTR rr) \<longleftrightarrow> ok_name (NSAPPTR_Ptr rr)"
| "rdata_ok (RR_NSEC rr) \<longleftrightarrow> ok_name (NSEC_NextDomain rr) \<and> ok_bitmap (NSEC_TypeBitMap rr)"
| "rdata_ok (RR_NSEC3 rr) \<longleftrightarrow> NSEC3_Salt rr \<noteq> [0x2D] \<and> ok_hex (NSEC3_Salt rr) \<and> length (text_octets hexDecode (NSEC3_Salt rr)) = unat (NSEC3_SaltLength rr) \<and> ok_base32 (NSEC3_NextDomain rr) \<and> length (text_octets fromBase32 (NSEC3_NextDomain rr)) = unat (NSEC3_HashLength rr) \<and> NSEC3_HashLength rr \<noteq> 0 \<and> ok_bitmap (NSEC3_TypeBitMap rr)"
| "rdata_ok (RR_NSEC3PARAM rr) \<longleftrightarrow> NSEC3PARAM_Salt rr \<noteq> [0x2D] \<and> ok_hex (NSEC3PARAM_Salt rr) \<and> length (text_octets hexDecode (NSEC3PARAM_Salt rr)) = unat (NSEC3PARAM_SaltLength rr)"
| "rdata_ok (RR_NULL rr) \<longleftrightarrow> True"
| "rdata_ok (RR_NXNAME rr) \<longleftrightarrow> True"
| "rdata_ok (RR_NXT rr) \<longleftrightarrow> ok_name (NSEC_NextDomain rr) \<and> ok_bitmap (NSEC_TypeBitMap rr)"
| "rdata_ok (RR_OPENPGPKEY rr) \<longleftrightarrow> ok_base64 (OPENPGPKEY_PublicKey rr)"
| "rdata_ok (RR_OPT rr) \<longleftrightarrow> ok_opt (OPT_Option rr)"
| "rdata_ok (RR_PTR rr) \<longleftrightarrow> ok_name (PTR_Ptr rr)"
| "rdata_ok (RR_PX rr) \<longleftrightarrow> ok_name (PX_Map822 rr) \<and> ok_name (PX_Mapx400 rr)"
| "rdata_ok (RR_RESINFO rr) \<longleftrightarrow> ok_txt (RESINFO_Txt rr)"
| "rdata_ok (RR_RFC3597 rr) \<longleftrightarrow> ok_hex (RFC3597_Rdata rr)"
| "rdata_ok (RR_RKEY rr) \<longleftrightarrow> ok_base64 (RKEY_PublicKey rr)"
| "rdata_ok (RR_RP rr) \<longleftrightarrow> ok_name (RP_Mbox rr) \<and> ok_name (RP_Txt rr)"
| "rdata_ok (RR_RRSIG rr) \<longleftrightarrow> ok_name (RRSIG_SignerName rr) \<and> ok_base64 (RRSIG_Signature rr)"
| "rdata_ok (RR_RT rr) \<longleftrightarrow> ok_name (RT_Host rr)"
| "rdata_ok (RR_SIG rr) \<longleftrightarrow> ok_name (RRSIG_SignerName rr) \<and> ok_base64 (RRSIG_Signature rr)"
| "rdata_ok (RR_SMIMEA rr) \<longleftrightarrow> ok_hex (SMIMEA_Certificate rr)"
| "rdata_ok (RR_SOA rr) \<longleftrightarrow> ok_name (SOA_Ns rr) \<and> ok_name (SOA_Mbox rr)"
| "rdata_ok (RR_SPF rr) \<longleftrightarrow> ok_txt (SPF_Txt rr)"
| "rdata_ok (RR_SRV rr) \<longleftrightarrow> ok_name (SRV_Target rr)"
| "rdata_ok (RR_SSHFP rr) \<longleftrightarrow> ok_hex (SSHFP_FingerPrint rr)"
| "rdata_ok (RR_SVCB rr) \<longleftrightarrow> ok_name (SVCB_Target rr) \<and> ok_svcb (SVCB_Value rr)"
| "rdata_ok (RR_TA rr) \<longleftrightarrow> ok_hex (TA_Digest rr)"
| "rdata_ok (RR_TALINK rr) \<longleftrightarrow> ok_name (TALINK_PreviousName rr) \<and> ok_name (TALINK_NextName rr)"
| "rdata_ok (RR_TKEY rr) \<longleftrightarrow> ok_name (TKEY_Algorithm rr) \<and> ok_hex (TKEY_Key rr) \<and> length (text_octets hexDecode (TKEY_Key rr)) = unat (TKEY_KeySize rr) \<and> ok_hex (TKEY_OtherData rr) \<and> length (text_octets hexDecode (TKEY_OtherData rr)) = unat (TKEY_OtherLen rr)"
| "rdata_ok (RR_TLSA rr) \<longleftrightarrow> ok_hex (TLSA_Certificate rr)"
| "rdata_ok (RR_TSIG rr) \<longleftrightarrow> ok_name (TSIG_Algorithm rr) \<and> take_bit 48 (TSIG_TimeSigned rr) = TSIG_TimeSigned rr \<and> ok_hex (TSIG_MAC rr) \<and> length (text_octets hexDecode (TSIG_MAC rr)) = unat (TSIG_MACSize rr) \<and> ok_hex (TSIG_OtherData rr) \<and> length (text_octets hexDecode (TSIG_OtherData rr)) = unat (TSIG_OtherLen rr)"
| "rdata_ok (RR_TXT rr) \<longleftrightarrow> ok_txt (TXT_Txt rr)"
| "rdata_ok (RR_UID rr) \<longleftrightarrow> True"
| "rdata_ok (RR_UINFO rr) \<longleftrightarrow> ok_string (UINFO_Uinfo rr)"
| "rdata_ok (RR_URI rr) \<longleftrightarrow> ok_octet (URI_Target rr)"
| "rdata_ok (RR_X25 rr) \<longleftrightarrow> ok_string (X25_PSDNAddress rr)"
| "rdata_ok (RR_ZONEMD rr) \<longleftrightarrow> ok_hex (ZONEMD_Digest rr)"

subsection \<open>Reading back\<close>

lemma A_rt:
  assumes "rdata_ok (RR_A rr)" and "off + unat (Hdr_Rdlength h) = length M"
  shows "rt True M msg off cm (A_pack rr msg off cm compress) (A_unpack (A_new h) M off) (rr\<lparr>A_Hdr := h\<rparr>)"
  using assms
  by (cases rr) (simp only: rdata_ok.simps A_pack_def A_unpack_def A_new_def Let_def A.select_convs A.update_convs,
    rule rt_a [rotated], rule rt_end, simp_all)

lemma AAAA_rt:
  assumes "rdata_ok (RR_AAAA rr)" and "off + unat (Hdr_Rdlength h) = length M"
  shows "rt True M msg off cm (AAAA_pack rr msg off cm compress) (AAAA_unpack (AAAA_new h) M off) (rr\<lparr>AAAA_Hdr := h\<rparr>)"
  using assms
  by (cases rr) (simp only: rdata_ok.simps AAAA_pack_def AAAA_unpack_def AAAA_new_def Let_def AAAA.select_convs AAAA.update_convs,
    rule rt_aaaa [rotated], rule rt_end, simp_all)

lemma AFSDB_rt:
  assumes "rdata_ok (RR_AFSDB rr)" and "off + unat (Hdr_Rdlength h) = length M"
  shows "rt True M msg off cm (AFSDB_pack rr msg off cm compress) (AFSDB_unpack (AFSDB_new h) M off) (rr\<lparr>AFSDB_Hdr := h\<rparr>)"
  using assms
  by (cases rr) (simp only: rdata_ok.simps AFSDB_pack_def AFSDB_unpack_def AFSDB_new_def Let_def AFSDB.select_convs AFSDB.update_convs,
    rule rt_u16, rule rt_more, rule rt_name [rotated], rule rt_end, simp_all)

lemma AMTRELAY_rt:
  assumes "rdata_ok (RR_AMTRELAY rr)" and "off + unat (Hdr_Rdlength h) = length M"
  shows "rt True M msg off cm (AMTRELAY_pack rr msg off cm compress) (AMTRELAY_unpack (AMTRELAY_new h) M off) (rr\<lparr>AMTRELAY_Hdr := h\<rparr>)"
  using assms
  by (cases rr) (simp only: rdata_ok.simps AMTRELAY_pack_def AMTRELAY_unpack_def AMTRELAY_new_def Let_def AMTRELAY.select_convs AMTRELAY.update_convs,
    rule rt_u8, rule rt_more, rule rt_u8, rule rt_eom, rule rt_eom, rule rt_gateway [rotated], rule rt_end, auto simp: bindR_eq_Ok dest: gateway_grows)

lemma ANY_rt:
  assumes "rdata_ok (RR_ANY rr)" and "off + unat (Hdr_Rdlength h) = length M"
  shows "rt False M msg off cm (ANY_pack rr msg off cm compress) (ANY_unpack (ANY_new h) M off) (rr\<lparr>ANY_Hdr := h\<rparr>)"
  using assms(2)
  by (cases rr) (simp only: rdata_ok.simps ANY_pack_def ANY_unpack_def ANY_new_def Let_def ANY.select_convs ANY.update_convs,
    rule rt_end)

lemma APL_rt:
  assumes "rdata_ok (RR_APL rr)" and "off + unat (Hdr_Rdlength h) = length M"
  shows "rt False M msg off cm (APL_pack rr msg off cm compress) (APL_unpack (APL_new h) M off) (rr\<lparr>APL_Hdr := h\<rparr>)"
  using assms
  by (cases rr) (simp only: rdata_ok.simps APL_pack_def APL_unpack_def APL_new_def Let_def APL.select_convs APL.update_convs,
    rule apl.rt_last [OF _ refl], simp_all)

lemma AVC_rt:
  assumes "rdata_ok (RR_AVC rr)" and "off + unat (Hdr_Rdlength h) = length M"
  shows "rt True M msg off cm (AVC_pack rr msg off cm compress) (AVC_unpack (AVC_new h) M off) (rr\<lparr>AVC_Hdr := h\<rparr>)"
  using assms
  by (cases rr) (simp only: rdata_ok.simps AVC_pack_def AVC_unpack_def AVC_new_def Let_def AVC.select_convs AVC.update_convs,
    rule txts.rt_last [OF _ refl], simp_all add: enc_txt_neq_Nil)

lemma CAA_rt:
  assumes "rdata_ok (RR_CAA rr)" and "off + unat (Hdr_Rdlength h) = length M"
  shows "rt True M msg off cm (CAA_pack rr msg off cm compress) (CAA_unpack (CAA_new h) M off) (rr\<lparr>CAA_Hdr := h\<rparr>)"
  using assms
  by (cases rr) (simp only: rdata_ok.simps CAA_pack_def CAA_unpack_def CAA_new_def Let_def CAA.select_convs CAA.update_convs,
    rule rt_u8, rule rt_more, rule rt_string [rotated], rule octet.rt_last_eom [OF _ refl], simp_all)

lemma CDNSKEY_rt:
  assumes "rdata_ok (RR_CDNSKEY rr)" and "off + unat (Hdr_Rdlength h) = length M"
  shows "rt True M msg off cm (CDNSKEY_pack rr msg off cm compress) (CDNSKEY_unpack (DNSKEY_new h) M off) (rr\<lparr>DNSKEY_Hdr := h\<rparr>)"
  using assms
  by (cases rr) (simp only: rdata_ok.simps CDNSKEY_pack_def CDNSKEY_unpack_def DNSKEY_new_def Let_def DNSKEY.select_convs DNSKEY.update_convs,
    rule rt_u16, rule rt_more, rule rt_u8, rule rt_more, rule rt_u8, rule b64.rt_text_last_eom, simp_all)

lemma CDS_rt:
  assumes "rdata_ok (RR_CDS rr)" and "off + unat (Hdr_Rdlength h) = length M"
  shows "rt True M msg off cm (CDS_pack rr msg off cm compress) (CDS_unpack (DS_new h) M off) (rr\<lparr>DS_Hdr := h\<rparr>)"
  using assms
  by (cases rr) (simp only: rdata_ok.simps CDS_pack_def CDS_unpack_def DS_new_def Let_def DS.select_convs DS.update_convs,
    rule rt_u16, rule rt_more, rule rt_u8, rule rt_more, rule rt_u8, rule hex.rt_text_last_eom, simp_all)

lemma CERT_rt:
  assumes "rdata_ok (RR_CERT rr)" and "off + unat (Hdr_Rdlength h) = length M"
  shows "rt True M msg off cm (CERT_pack rr msg off cm compress) (CERT_unpack (CERT_new h) M off) (rr\<lparr>CERT_Hdr := h\<rparr>)"
  using assms
  by (cases rr) (simp only: rdata_ok.simps CERT_pack_def CERT_unpack_def CERT_new_def Let_def CERT.select_convs CERT.update_convs,
    rule rt_u16, rule rt_more, rule rt_u16, rule rt_more, rule rt_u8, rule b64.rt_text_last_eom, simp_all)

lemma CNAME_rt:
  assumes "rdata_ok (RR_CNAME rr)" and "off + unat (Hdr_Rdlength h) = length M"
  shows "rt True M msg off cm (CNAME_pack rr msg off cm compress) (CNAME_unpack (CNAME_new h) M off) (rr\<lparr>CNAME_Hdr := h\<rparr>)"
  using assms
  by (cases rr) (simp only: rdata_ok.simps CNAME_pack_def CNAME_unpack_def CNAME_new_def Let_def CNAME.select_convs CNAME.update_convs,
    rule rt_name [rotated], rule rt_end, simp_all)

lemma CSYNC_rt:
  assumes "rdata_ok (RR_CSYNC rr)" and "off + unat (Hdr_Rdlength h) = length M"
  shows "rt True M msg off cm (CSYNC_pack rr msg off cm compress) (CSYNC_unpack (CSYNC_new h) M off) (rr\<lparr>CSYNC_Hdr := h\<rparr>)"
  using assms
  by (cases rr) (simp only: rdata_ok.simps CSYNC_pack_def CSYNC_unpack_def CSYNC_new_def Let_def CSYNC.select_convs CSYNC.update_convs,
    rule rt_u32, rule rt_more, rule rt_u16, rule nsec.rt_last_eom [OF _ refl], simp_all add: enc_bitmap_empty)

lemma DHCID_rt:
  assumes "rdata_ok (RR_DHCID rr)" and "off + unat (Hdr_Rdlength h) = length M"
  shows "rt False M msg off cm (DHCID_pack rr msg off cm compress) (DHCID_unpack (DHCID_new h) M off) (rr\<lparr>DHCID_Hdr := h\<rparr>)"
  using assms
  by (cases rr) (simp only: rdata_ok.simps DHCID_pack_def DHCID_unpack_def DHCID_new_def Let_def DHCID.select_convs DHCID.update_convs,
    rule b64.rt_text_last, simp_all)

lemma DLV_rt:
  assumes "rdata_ok (RR_DLV rr)" and "off + unat (Hdr_Rdlength h) = length M"
  shows "rt True M msg off cm (DLV_pack rr msg off cm compress) (DLV_unpack (DS_new h) M off) (rr\<lparr>DS_Hdr := h\<rparr>)"
  using assms
  by (cases rr) (simp only: rdata_ok.simps DLV_pack_def DLV_unpack_def DS_new_def Let_def DS.select_convs DS.update_convs,
    rule rt_u16, rule rt_more, rule rt_u8, rule rt_more, rule rt_u8, rule hex.rt_text_last_eom, simp_all)

lemma DNAME_rt:
  assumes "rdata_ok (RR_DNAME rr)" and "off + unat (Hdr_Rdlength h) = length M"
  shows "rt True M msg off cm (DNAME_pack rr msg off cm compress) (DNAME_unpack (DNAME_new h) M off) (rr\<lparr>DNAME_Hdr := h\<rparr>)"
  using assms
  by (cases rr) (simp only: rdata_ok.simps DNAME_pack_def DNAME_unpack_def DNAME_new_def Let_def DNAME.select_convs DNAME.update_convs,
    rule rt_name [rotated], rule rt_end, simp_all)

lemma DNSKEY_rt:
  assumes "rdata_ok (RR_DNSKEY rr)" and "off + unat (Hdr_Rdlength h) = length M"
  shows "rt True M msg off cm (DNSKEY_pack rr msg off cm compress) (DNSKEY_unpack (DNSKEY_new h) M off) (rr\<lparr>DNSKEY_Hdr := h\<rparr>)"
  using assms
  by (cases rr) (simp only: rdata_ok.simps DNSKEY_pack_def DNSKEY_unpack_def DNSKEY_new_def Let_def DNSKEY.select_convs DNSKEY.update_convs,
    rule rt_u16, rule rt_more, rule rt_u8, rule rt_more, rule rt_u8, rule b64.rt_text_last_eom, simp_all)

lemma DS_rt:
  assumes "rdata_ok (RR_DS rr)" and "off + unat (Hdr_Rdlength h) = length M"
  shows "rt True M msg off cm (DS_pack rr msg off cm compress) (DS_unpack (DS_new h) M off) (rr\<lparr>DS_Hdr := h\<rparr>)"
  using assms
  by (cases rr) (simp only: rdata_ok.simps DS_pack_def DS_unpack_def DS_new_def Let_def DS.select_convs DS.update_convs,
    rule rt_u16, rule rt_more, rule rt_u8, rule rt_more, rule rt_u8, rule hex.rt_text_last_eom, simp_all)

lemma EID_rt:
  assumes "rdata_ok (RR_EID rr)" and "off + unat (Hdr_Rdlength h) = length M"
  shows "rt False M msg off cm (EID_pack rr msg off cm compress) (EID_unpack (EID_new h) M off) (rr\<lparr>EID_Hdr := h\<rparr>)"
  using assms
  by (cases rr) (simp only: rdata_ok.simps EID_pack_def EID_unpack_def EID_new_def Let_def EID.select_convs EID.update_convs,
    rule hex.rt_text_last, simp_all)

lemma EUI48_rt:
  assumes "rdata_ok (RR_EUI48 rr)" and "off + unat (Hdr_Rdlength h) = length M"
  shows "rt True M msg off cm (EUI48_pack rr msg off cm compress) (EUI48_unpack (EUI48_new h) M off) (rr\<lparr>EUI48_Hdr := h\<rparr>)"
  using assms
  by (cases rr) (simp only: rdata_ok.simps EUI48_pack_def EUI48_unpack_def EUI48_new_def Let_def EUI48.select_convs EUI48.update_convs,
    rule rt_u48 [rotated], rule rt_end, simp_all)

lemma EUI64_rt:
  assumes "rdata_ok (RR_EUI64 rr)" and "off + unat (Hdr_Rdlength h) = length M"
  shows "rt True M msg off cm (EUI64_pack rr msg off cm compress) (EUI64_unpack (EUI64_new h) M off) (rr\<lparr>EUI64_Hdr := h\<rparr>)"
  using assms(2)
  by (cases rr) (simp only: rdata_ok.simps EUI64_pack_def EUI64_unpack_def EUI64_new_def Let_def EUI64.select_convs EUI64.update_convs,
    rule rt_u64, rule rt_end)

lemma GID_rt:
  assumes "rdata_ok (RR_GID rr)" and "off + unat (Hdr_Rdlength h) = length M"
  shows "rt True M msg off cm (GID_pack rr msg off cm compress) (GID_unpack (GID_new h) M off) (rr\<lparr>GID_Hdr := h\<rparr>)"
  using assms(2)
  by (cases rr) (simp only: rdata_ok.simps GID_pack_def GID_unpack_def GID_new_def Let_def GID.select_convs GID.update_convs,
    rule rt_u32, rule rt_end)

lemma GPOS_rt:
  assumes "rdata_ok (RR_GPOS rr)" and "off + unat (Hdr_Rdlength h) = length M"
  shows "rt True M msg off cm (GPOS_pack rr msg off cm compress) (GPOS_unpack (GPOS_new h) M off) (rr\<lparr>GPOS_Hdr := h\<rparr>)"
  using assms
  by (cases rr) (simp only: rdata_ok.simps GPOS_pack_def GPOS_unpack_def GPOS_new_def Let_def GPOS.select_convs GPOS.update_convs,
    rule rt_string [rotated], rule rt_more, rule rt_string [rotated], rule rt_more, rule rt_string [rotated], rule rt_end, simp_all)

lemma HINFO_rt:
  assumes "rdata_ok (RR_HINFO rr)" and "off + unat (Hdr_Rdlength h) = length M"
  shows "rt True M msg off cm (HINFO_pack rr msg off cm compress) (HINFO_unpack (HINFO_new h) M off) (rr\<lparr>HINFO_Hdr := h\<rparr>)"
  using assms
  by (cases rr) (simp only: rdata_ok.simps HINFO_pack_def HINFO_unpack_def HINFO_new_def Let_def HINFO.select_convs HINFO.update_convs,
    rule rt_string [rotated], rule rt_more, rule rt_string [rotated], rule rt_end, simp_all)

lemma HIP_rt:
  assumes "rdata_ok (RR_HIP rr)" and "off + unat (Hdr_Rdlength h) = length M"
  shows "rt True M msg off cm (HIP_pack rr msg off cm compress) (HIP_unpack (HIP_new h) M off) (rr\<lparr>HIP_Hdr := h\<rparr>)"
  using assms
  by (cases rr) (simp only: rdata_ok.simps HIP_pack_def HIP_unpack_def HIP_new_def Let_def HIP.select_convs HIP.update_convs,
    rule rt_u8, rule rt_more, rule rt_u8, rule rt_more, rule rt_u16, rule rt_more, rule hex.rt_text_ne [rotated 3], rule b64.rt_text [rotated 2], rule rt_names_last, simp_all add: unat_gt_0)

lemma HTTPS_rt:
  assumes "rdata_ok (RR_HTTPS rr)" and "off + unat (Hdr_Rdlength h) = length M"
  shows "rt True M msg off cm (HTTPS_pack rr msg off cm compress) (HTTPS_unpack (SVCB_new h) M off) (rr\<lparr>SVCB_Hdr := h\<rparr>)"
  using assms
  by (cases rr) (simp only: rdata_ok.simps HTTPS_pack_def HTTPS_unpack_def SVCB_new_def Let_def SVCB.select_convs SVCB.update_convs,
    rule rt_u16, rule rt_more, rule rt_name [rotated], rule svcb.rt_last_eom [OF _ refl], simp_all)

lemma IPSECKEY_rt:
  assumes "rdata_ok (RR_IPSECKEY rr)" and "off + unat (Hdr_Rdlength h) = length M"
  shows "rt True M msg off cm (IPSECKEY_pack rr msg off cm compress) (IPSECKEY_unpack (IPSECKEY_new h) M off) (rr\<lparr>IPSECKEY_Hdr := h\<rparr>)"
  using assms
  by (cases rr) (simp only: rdata_ok.simps IPSECKEY_pack_def IPSECKEY_unpack_def IPSECKEY_new_def Let_def IPSECKEY.select_convs IPSECKEY.update_convs,
    rule rt_u8, rule rt_more, rule rt_u8, rule rt_more, rule rt_u8, rule rt_eom, rule rt_eom, rule rt_gateway [rotated], rule b64.rt_text_last_eom, ((drule (3) gateway_key_empty)?, simp)+)

lemma ISDN_rt:
  assumes "rdata_ok (RR_ISDN rr)" and "off + unat (Hdr_Rdlength h) = length M"
  shows "rt True M msg off cm (ISDN_pack rr msg off cm compress) (ISDN_unpack (ISDN_new h) M off) (rr\<lparr>ISDN_Hdr := h\<rparr>)"
  using assms
  by (cases rr) (simp only: rdata_ok.simps ISDN_pack_def ISDN_unpack_def ISDN_new_def Let_def ISDN.select_convs ISDN.update_convs,
    rule rt_string [rotated], rule rt_more, rule rt_string [rotated], rule rt_end, simp_all)

lemma KEY_rt:
  assumes "rdata_ok (RR_KEY rr)" and "off + unat (Hdr_Rdlength h) = length M"
  shows "rt True M msg off cm (KEY_pack rr msg off cm compress) (KEY_unpack (DNSKEY_new h) M off) (rr\<lparr>DNSKEY_Hdr := h\<rparr>)"
  using assms
  by (cases rr) (simp only: rdata_ok.simps KEY_pack_def KEY_unpack_def DNSKEY_new_def Let_def DNSKEY.select_convs DNSKEY.update_convs,
    rule rt_u16, rule rt_more, rule rt_u8, rule rt_more, rule rt_u8, rule b64.rt_text_last_eom, simp_all)

lemma KX_rt:
  assumes "rdata_ok (RR_KX rr)" and "off + unat (Hdr_Rdlength h) = length M"
  shows "rt True M msg off cm (KX_pack rr msg off cm compress) (KX_unpack (KX_new h) M off) (rr\<lparr>KX_Hdr := h\<rparr>)"
  using assms
  by (cases rr) (simp only: rdata_ok.simps KX_pack_def KX_unpack_def KX_new_def Let_def KX.select_convs KX.update_convs,
    rule rt_u16, rule rt_more, rule rt_name [rotated], rule rt_end, simp_all)

lemma L32_rt:
  assumes "rdata_ok (RR_L32 rr)" and "off + unat (Hdr_Rdlength h) = length M"
  shows "rt True M msg off cm (L32_pack rr msg off cm compress) (L32_unpack (L32_new h) M off) (rr\<lparr>L32_Hdr := h\<rparr>)"
  using assms
  by (cases rr) (simp only: rdata_ok.simps L32_pack_def L32_unpack_def L32_new_def Let_def L32.select_convs L32.update_convs,
    rule rt_u16, rule rt_more, rule rt_a [rotated], rule rt_end, simp_all)

lemma L64_rt:
  assumes "rdata_ok (RR_L64 rr)" and "off + unat (Hdr_Rdlength h) = length M"
  shows "rt True M msg off cm (L64_pack rr msg off cm compress) (L64_unpack (L64_new h) M off) (rr\<lparr>L64_Hdr := h\<rparr>)"
  using assms(2)
  by (cases rr) (simp only: rdata_ok.simps L64_pack_def L64_unpack_def L64_new_def Let_def L64.select_convs L64.update_convs,
    rule rt_u16, rule rt_more, rule rt_u64, rule rt_end)

lemma LOC_rt:
  assumes "rdata_ok (RR_LOC rr)" and "off + unat (Hdr_Rdlength h) = length M"
  shows "rt True M msg off cm (LOC_pack rr msg off cm compress) (LOC_unpack (LOC_new h) M off) (rr\<lparr>LOC_Hdr := h\<rparr>)"
  using assms(2)
  by (cases rr) (simp only: rdata_ok.simps LOC_pack_def LOC_unpack_def LOC_new_def Let_def LOC.select_convs LOC.update_convs,
    rule rt_u8, rule rt_more, rule rt_u8, rule rt_more, rule rt_u8, rule rt_more, rule rt_u8, rule rt_more, rule rt_u32, rule rt_more, rule rt_u32, rule rt_more, rule rt_u32, rule rt_end)

lemma LP_rt:
  assumes "rdata_ok (RR_LP rr)" and "off + unat (Hdr_Rdlength h) = length M"
  shows "rt True M msg off cm (LP_pack rr msg off cm compress) (LP_unpack (LP_new h) M off) (rr\<lparr>LP_Hdr := h\<rparr>)"
  using assms
  by (cases rr) (simp only: rdata_ok.simps LP_pack_def LP_unpack_def LP_new_def Let_def LP.select_convs LP.update_convs,
    rule rt_u16, rule rt_more, rule rt_name [rotated], rule rt_end, simp_all)

lemma MB_rt:
  assumes "rdata_ok (RR_MB rr)" and "off + unat (Hdr_Rdlength h) = length M"
  shows "rt True M msg off cm (MB_pack rr msg off cm compress) (MB_unpack (MB_new h) M off) (rr\<lparr>MB_Hdr := h\<rparr>)"
  using assms
  by (cases rr) (simp only: rdata_ok.simps MB_pack_def MB_unpack_def MB_new_def Let_def MB.select_convs MB.update_convs,
    rule rt_name [rotated], rule rt_end, simp_all)

lemma MD_rt:
  assumes "rdata_ok (RR_MD rr)" and "off + unat (Hdr_Rdlength h) = length M"
  shows "rt True M msg off cm (MD_pack rr msg off cm compress) (MD_unpack (MD_new h) M off) (rr\<lparr>MD_Hdr := h\<rparr>)"
  using assms
  by (cases rr) (simp only: rdata_ok.simps MD_pack_def MD_unpack_def MD_new_def Let_def MD.select_convs MD.update_convs,
    rule rt_name [rotated], rule rt_end, simp_all)

lemma MF_rt:
  assumes "rdata_ok (RR_MF rr)" and "off + unat (Hdr_Rdlength h) = length M"
  shows "rt True M msg off cm (MF_pack rr msg off cm compress) (MF_unpack (MF_new h) M off) (rr\<lparr>MF_Hdr := h\<rparr>)"
  using assms
  by (cases rr) (simp only: rdata_ok.simps MF_pack_def MF_unpack_def MF_new_def Let_def MF.select_convs MF.update_convs,
    rule rt_name [rotated], rule rt_end, simp_all)

lemma MG_rt:
  assumes "rdata_ok (RR_MG rr)" and "off + unat (Hdr_Rdlength h) = length M"
  shows "rt True M msg off cm (MG_pack rr msg off cm compress) (MG_unpack (MG_new h) M off) (rr\<lparr>MG_Hdr := h\<rparr>)"
  using assms
  by (cases rr) (simp only: rdata_ok.simps MG_pack_def MG_unpack_def MG_new_def Let_def MG.select_convs MG.update_convs,
    rule rt_name [rotated], rule rt_end, simp_all)

lemma MINFO_rt:
  assumes "rdata_ok (RR_MINFO rr)" and "off + unat (Hdr_Rdlength h) = length M"
  shows "rt True M msg off cm (MINFO_pack rr msg off cm compress) (MINFO_unpack (MINFO_new h) M off) (rr\<lparr>MINFO_Hdr := h\<rparr>)"
  using assms
  by (cases rr) (simp only: rdata_ok.simps MINFO_pack_def MINFO_unpack_def MINFO_new_def Let_def MINFO.select_convs MINFO.update_convs,
    rule rt_name [rotated], rule rt_more, rule rt_name [rotated], rule rt_end, simp_all)

lemma MR_rt:
  assumes "rdata_ok (RR_MR rr)" and "off + unat (Hdr_Rdlength h) = length M"
  shows "rt True M msg off cm (MR_pack rr msg off cm compress) (MR_unpack (MR_new h) M off) (rr\<lparr>MR_Hdr := h\<rparr>)"
  using assms
  by (cases rr) (simp only: rdata_ok.simps MR_pack_def MR_unpack_def MR_new_def Let_def MR.select_convs MR.update_convs,
    rule rt_name [rotated], rule rt_end, simp_all)

lemma MX_rt:
  assumes "rdata_ok (RR_MX rr)" and "off + unat (Hdr_Rdlength h) = length M"
  shows "rt True M msg off cm (MX_pack rr msg off cm compress) (MX_unpack (MX_new h) M off) (rr\<lparr>MX_Hdr := h\<rparr>)"
  using assms
  by (cases rr) (simp only: rdata_ok.simps MX_pack_def MX_unpack_def MX_new_def Let_def MX.select_convs MX.update_convs,
    rule rt_u16, rule rt_more, rule rt_name [rotated], rule rt_end, simp_all)

lemma NAPTR_rt:
  assumes "rdata_ok (RR_NAPTR rr)" and "off + unat (Hdr_Rdlength h) = length M"
  shows "rt True M msg off cm (NAPTR_pack rr msg off cm compress) (NAPTR_unpack (NAPTR_new h) M off) (rr\<lparr>NAPTR_Hdr := h\<rparr>)"
  using assms
  by (cases rr) (simp only: rdata_ok.simps NAPTR_pack_def NAPTR_unpack_def NAPTR_new_def Let_def NAPTR.select_convs NAPTR.update_convs,
    rule rt_u16, rule rt_more, rule rt_u16, rule rt_more, rule rt_string [rotated], rule rt_more, rule rt_string [rotated], rule rt_more, rule rt_string [rotated], rule rt_more, rule rt_name [rotated], rule rt_end, simp_all)

lemma NID_rt:
  assumes "rdata_ok (RR_NID rr)" and "off + unat (Hdr_Rdlength h) = length M"
  shows "rt True M msg off cm (NID_pack rr msg off cm compress) (NID_unpack (NID_new h) M off) (rr\<lparr>NID_Hdr := h\<rparr>)"
  using assms(2)
  by (cases rr) (simp only: rdata_ok.simps NID_pack_def NID_unpack_def NID_new_def Let_def NID.select_convs NID.update_convs,
    rule rt_u16, rule rt_more, rule rt_u64, rule rt_end)

lemma NIMLOC_rt:
  assumes "rdata_ok (RR_NIMLOC rr)" and "off + unat (Hdr_Rdlength h) = length M"
  shows "rt False M msg off cm (NIMLOC_pack rr msg off cm compress) (NIMLOC_unpack (NIMLOC_new h) M off) (rr\<lparr>NIMLOC_Hdr := h\<rparr>)"
  using assms
  by (cases rr) (simp only: rdata_ok.simps NIMLOC_pack_def NIMLOC_unpack_def NIMLOC_new_def Let_def NIMLOC.select_convs NIMLOC.update_convs,
    rule hex.rt_text_last, simp_all)

lemma NINFO_rt:
  assumes "rdata_ok (RR_NINFO rr)" and "off + unat (Hdr_Rdlength h) = length M"
  shows "rt True M msg off cm (NINFO_pack rr msg off cm compress) (NINFO_unpack (NINFO_new h) M off) (rr\<lparr>NINFO_Hdr := h\<rparr>)"
  using assms
  by (cases rr) (simp only: rdata_ok.simps NINFO_pack_def NINFO_unpack_def NINFO_new_def Let_def NINFO.select_convs NINFO.update_convs,
    rule txts.rt_last [OF _ refl], simp_all add: enc_txt_neq_Nil)

lemma NS_rt:
  assumes "rdata_ok (RR_NS rr)" and "off + unat (Hdr_Rdlength h) = length M"
  shows "rt True M msg off cm (NS_pack rr msg off cm compress) (NS_unpack (NS_new h) M off) (rr\<lparr>NS_Hdr := h\<rparr>)"
  using assms
  by (cases rr) (simp only: rdata_ok.simps NS_pack_def NS_unpack_def NS_new_def Let_def NS.select_convs NS.update_convs,
    rule rt_name [rotated], rule rt_end, simp_all)

lemma NSAPPTR_rt:
  assumes "rdata_ok (RR_NSAPPTR rr)" and "off + unat (Hdr_Rdlength h) = length M"
  shows "rt True M msg off cm (NSAPPTR_pack rr msg off cm compress) (NSAPPTR_unpack (NSAPPTR_new h) M off) (rr\<lparr>NSAPPTR_Hdr := h\<rparr>)"
  using assms
  by (cases rr) (simp only: rdata_ok.simps NSAPPTR_pack_def NSAPPTR_unpack_def NSAPPTR_new_def Let_def NSAPPTR.select_convs NSAPPTR.update_convs,
    rule rt_name [rotated], rule rt_end, simp_all)

lemma NSEC_rt:
  assumes "rdata_ok (RR_NSEC rr)" and "off + unat (Hdr_Rdlength h) = length M"
  shows "rt True M msg off cm (NSEC_pack rr msg off cm compress) (NSEC_unpack (NSEC_new h) M off) (rr\<lparr>NSEC_Hdr := h\<rparr>)"
  using assms
  by (cases rr) (simp only: rdata_ok.simps NSEC_pack_def NSEC_unpack_def NSEC_new_def Let_def NSEC.select_convs NSEC.update_convs,
    rule rt_name [rotated], rule nsec.rt_last_eom [OF _ refl], simp_all add: enc_bitmap_empty)

lemma NSEC3_rt:
  assumes "rdata_ok (RR_NSEC3 rr)" and "off + unat (Hdr_Rdlength h) = length M"
  shows "rt True M msg off cm (NSEC3_pack rr msg off cm compress) (NSEC3_unpack (NSEC3_new h) M off) (rr\<lparr>NSEC3_Hdr := h\<rparr>)"
  using assms
  by (cases rr) (simp only: rdata_ok.simps NSEC3_pack_def NSEC3_unpack_def NSEC3_new_def Let_def simp_thms if_True NSEC3.select_convs NSEC3.update_convs,
    rule rt_u8, rule rt_more, rule rt_u8, rule rt_more, rule rt_u16, rule rt_more, rule rt_u8, rule rt_more, rule hex.rt_text [rotated 2], rule rt_u8, rule rt_more, rule b32.rt_text_ne [rotated 3], rule nsec.rt_last [OF _ refl], simp_all add: unat_gt_0)

lemma NSEC3PARAM_rt:
  assumes "rdata_ok (RR_NSEC3PARAM rr)" and "off + unat (Hdr_Rdlength h) = length M"
  shows "rt True M msg off cm (NSEC3PARAM_pack rr msg off cm compress) (NSEC3PARAM_unpack (NSEC3PARAM_new h) M off) (rr\<lparr>NSEC3PARAM_Hdr := h\<rparr>)"
  using assms
  by (cases rr) (simp only: rdata_ok.simps NSEC3PARAM_pack_def NSEC3PARAM_unpack_def NSEC3PARAM_new_def Let_def simp_thms if_True NSEC3PARAM.select_convs NSEC3PARAM.update_convs,
    rule rt_u8, rule rt_more, rule rt_u8, rule rt_more, rule rt_u16, rule rt_more, rule rt_u8, rule hex.rt_text_eom, simp_all)

lemma NULL_rt:
  assumes "rdata_ok (RR_NULL rr)" and "off + unat (Hdr_Rdlength h) = length M"
  shows "rt False M msg off cm (NULL_pack rr msg off cm compress) (NULL_unpack (NULL_new h) M off) (rr\<lparr>NULL_Hdr := h\<rparr>)"
  using assms(2)
  by (cases rr) (simp only: rdata_ok.simps NULL_pack_def NULL_unpack_def NULL_new_def Let_def NULL.select_convs NULL.update_convs,
    rule any.rt_last, simp_all)

lemma NXNAME_rt:
  assumes "rdata_ok (RR_NXNAME rr)" and "off + unat (Hdr_Rdlength h) = length M"
  shows "rt False M msg off cm (NXNAME_pack rr msg off cm compress) (NXNAME_unpack (NXNAME_new h) M off) (rr\<lparr>NXNAME_Hdr := h\<rparr>)"
  using assms(2)
  by (cases rr) (simp only: rdata_ok.simps NXNAME_pack_def NXNAME_unpack_def NXNAME_new_def Let_def NXNAME.select_convs NXNAME.update_convs,
    rule rt_end)

lemma NXT_rt:
  assumes "rdata_ok (RR_NXT rr)" and "off + unat (Hdr_Rdlength h) = length M"
  shows "rt True M msg off cm (NXT_pack rr msg off cm compress) (NXT_unpack (NSEC_new h) M off) (rr\<lparr>NSEC_Hdr := h\<rparr>)"
  using assms
  by (cases rr) (simp only: rdata_ok.simps NXT_pack_def NXT_unpack_def NSEC_new_def Let_def NSEC.select_convs NSEC.update_convs,
    rule rt_name [rotated], rule nsec.rt_last_eom [OF _ refl], simp_all add: enc_bitmap_empty)

lemma OPENPGPKEY_rt:
  assumes "rdata_ok (RR_OPENPGPKEY rr)" and "off + unat (Hdr_Rdlength h) = length M"
  shows "rt False M msg off cm (OPENPGPKEY_pack rr msg off cm compress) (OPENPGPKEY_unpack (OPENPGPKEY_new h) M off) (rr\<lparr>OPENPGPKEY_Hdr := h\<rparr>)"
  using assms
  by (cases rr) (simp only: rdata_ok.simps OPENPGPKEY_pack_def OPENPGPKEY_unpack_def OPENPGPKEY_new_def Let_def OPENPGPKEY.select_convs OPENPGPKEY.update_convs,
    rule b64.rt_text_last, simp_all)

lemma OPT_rt:
  assumes "rdata_ok (RR_OPT rr)" and "off + unat (Hdr_Rdlength h) = length M"
  shows "rt False M msg off cm (OPT_pack rr msg off cm compress) (OPT_unpack (OPT_new h) M off) (rr\<lparr>OPT_Hdr := h\<rparr>)"
  using assms
  by (cases rr) (simp only: rdata_ok.simps OPT_pack_def OPT_unpack_def OPT_new_def Let_def OPT.select_convs OPT.update_convs,
    rule opt.rt_last [OF _ refl], simp_all)

lemma PTR_rt:
  assumes "rdata_ok (RR_PTR rr)" and "off + unat (Hdr_Rdlength h) = length M"
  shows "rt True M msg off cm (PTR_pack rr msg off cm compress) (PTR_unpack (PTR_new h) M off) (rr\<lparr>PTR_Hdr := h\<rparr>)"
  using assms
  by (cases rr) (simp only: rdata_ok.simps PTR_pack_def PTR_unpack_def PTR_new_def Let_def PTR.select_convs PTR.update_convs,
    rule rt_name [rotated], rule rt_end, simp_all)

lemma PX_rt:
  assumes "rdata_ok (RR_PX rr)" and "off + unat (Hdr_Rdlength h) = length M"
  shows "rt True M msg off cm (PX_pack rr msg off cm compress) (PX_unpack (PX_new h) M off) (rr\<lparr>PX_Hdr := h\<rparr>)"
  using assms
  by (cases rr) (simp only: rdata_ok.simps PX_pack_def PX_unpack_def PX_new_def Let_def PX.select_convs PX.update_convs,
    rule rt_u16, rule rt_more, rule rt_name [rotated], rule rt_more, rule rt_name [rotated], rule rt_end, simp_all)

lemma RESINFO_rt:
  assumes "rdata_ok (RR_RESINFO rr)" and "off + unat (Hdr_Rdlength h) = length M"
  shows "rt True M msg off cm (RESINFO_pack rr msg off cm compress) (RESINFO_unpack (RESINFO_new h) M off) (rr\<lparr>RESINFO_Hdr := h\<rparr>)"
  using assms
  by (cases rr) (simp only: rdata_ok.simps RESINFO_pack_def RESINFO_unpack_def RESINFO_new_def Let_def RESINFO.select_convs RESINFO.update_convs,
    rule txts.rt_last_plain [OF _ refl], simp_all add: enc_txt_neq_Nil)

lemma RFC3597_rt:
  assumes "rdata_ok (RR_RFC3597 rr)" and "off + unat (Hdr_Rdlength h) = length M"
  shows "rt False M msg off cm (RFC3597_pack rr msg off cm compress) (RFC3597_unpack (RFC3597_new h) M off) (rr\<lparr>RFC3597_Hdr := h\<rparr>)"
  using assms
  by (cases rr) (simp only: rdata_ok.simps RFC3597_pack_def RFC3597_unpack_def RFC3597_new_def Let_def RFC3597.select_convs RFC3597.update_convs,
    rule hex.rt_text_last, simp_all)

lemma RKEY_rt:
  assumes "rdata_ok (RR_RKEY rr)" and "off + unat (Hdr_Rdlength h) = length M"
  shows "rt True M msg off cm (RKEY_pack rr msg off cm compress) (RKEY_unpack (RKEY_new h) M off) (rr\<lparr>RKEY_Hdr := h\<rparr>)"
  using assms
  by (cases rr) (simp only: rdata_ok.simps RKEY_pack_def RKEY_unpack_def RKEY_new_def Let_def RKEY.select_convs RKEY.update_convs,
    rule rt_u16, rule rt_more, rule rt_u8, rule rt_more, rule rt_u8, rule b64.rt_text_last_eom, simp_all)

lemma RP_rt:
  assumes "rdata_ok (RR_RP rr)" and "off + unat (Hdr_Rdlength h) = length M"
  shows "rt True M msg off cm (RP_pack rr msg off cm compress) (RP_unpack (RP_new h) M off) (rr\<lparr>RP_Hdr := h\<rparr>)"
  using assms
  by (cases rr) (simp only: rdata_ok.simps RP_pack_def RP_unpack_def RP_new_def Let_def RP.select_convs RP.update_convs,
    rule rt_name [rotated], rule rt_more, rule rt_name [rotated], rule rt_end, simp_all)

lemma RRSIG_rt:
  assumes "rdata_ok (RR_RRSIG rr)" and "off + unat (Hdr_Rdlength h) = length M"
  shows "rt True M msg off cm (RRSIG_pack rr msg off cm compress) (RRSIG_unpack (RRSIG_new h) M off) (rr\<lparr>RRSIG_Hdr := h\<rparr>)"
  using assms
  by (cases rr) (simp only: rdata_ok.simps RRSIG_pack_def RRSIG_unpack_def RRSIG_new_def Let_def RRSIG.select_convs RRSIG.update_convs,
    rule rt_u16, rule rt_more, rule rt_u8, rule rt_more, rule rt_u8, rule rt_more, rule rt_u32, rule rt_more, rule rt_u32, rule rt_more, rule rt_u32, rule rt_more, rule rt_u16, rule rt_more, rule rt_name [rotated], rule b64.rt_text_last_eom, simp_all)

lemma RT_rt:
  assumes "rdata_ok (RR_RT rr)" and "off + unat (Hdr_Rdlength h) = length M"
  shows "rt True M msg off cm (RT_pack rr msg off cm compress) (RT_unpack (RT_new h) M off) (rr\<lparr>RT_Hdr := h\<rparr>)"
  using assms
  by (cases rr) (simp only: rdata_ok.simps RT_pack_def RT_unpack_def RT_new_def Let_def RT.select_convs RT.update_convs,
    rule rt_u16, rule rt_more, rule rt_name [rotated], rule rt_end, simp_all)

lemma SIG_rt:
  assumes "rdata_ok (RR_SIG rr)" and "off + unat (Hdr_Rdlength h) = length M"
  shows "rt True M msg off cm (SIG_pack rr msg off cm compress) (SIG_unpack (RRSIG_new h) M off) (rr\<lparr>RRSIG_Hdr := h\<rparr>)"
  using assms
  by (cases rr) (simp only: rdata_ok.simps SIG_pack_def SIG_unpack_def RRSIG_new_def Let_def RRSIG.select_convs RRSIG.update_convs,
    rule rt_u16, rule rt_more, rule rt_u8, rule rt_more, rule rt_u8, rule rt_more, rule rt_u32, rule rt_more, rule rt_u32, rule rt_more, rule rt_u32, rule rt_more, rule rt_u16, rule rt_more, rule rt_name [rotated], rule b64.rt_text_last_eom, simp_all)

lemma SMIMEA_rt:
  assumes "rdata_ok (RR_SMIMEA rr)" and "off + unat (Hdr_Rdlength h) = length M"
  shows "rt True M msg off cm (SMIMEA_pack rr msg off cm compress) (SMIMEA_unpack (SMIMEA_new h) M off) (rr\<lparr>SMIMEA_Hdr := h\<rparr>)"
  using assms
  by (cases rr) (simp only: rdata_ok.simps SMIMEA_pack_def SMIMEA_unpack_def SMIMEA_new_def Let_def SMIMEA.select_convs SMIMEA.update_convs,
    rule rt_u8, rule rt_more, rule rt_u8, rule rt_more, rule rt_u8, rule hex.rt_text_last_eom, simp_all)

lemma SOA_rt:
  assumes "rdata_ok (RR_SOA rr)" and "off + unat (Hdr_Rdlength h) = length M"
  shows "rt True M msg off cm (SOA_pack rr msg off cm compress) (SOA_unpack (SOA_new h) M off) (rr\<lparr>SOA_Hdr := h\<rparr>)"
  using assms
  by (cases rr) (simp only: rdata_ok.simps SOA_pack_def SOA_unpack_def SOA_new_def Let_def SOA.select_convs SOA.update_convs,
    rule rt_name [rotated], rule rt_more, rule rt_name [rotated], rule rt_more, rule rt_u32, rule rt_more, rule rt_u32, rule rt_more, rule rt_u32, rule rt_more, rule rt_u32, rule rt_more, rule rt_u32, rule rt_end, simp_all)

lemma SPF_rt:
  assumes "rdata_ok (RR_SPF rr)" and "off + unat (Hdr_Rdlength h) = length M"
  shows "rt True M msg off cm (SPF_pack rr msg off cm compress) (SPF_unpack (SPF_new h) M off) (rr\<lparr>SPF_Hdr := h\<rparr>)"
  using assms
  by (cases rr) (simp only: rdata_ok.simps SPF_pack_def SPF_unpack_def SPF_new_def Let_def SPF.select_convs SPF.update_convs,
    rule txts.rt_last [OF _ refl], simp_all add: enc_txt_neq_Nil)

lemma SRV_rt:
  assumes "rdata_ok (RR_SRV rr)" and "off + unat (Hdr_Rdlength h) = length M"
  shows "rt True M msg off cm (SRV_pack rr msg off cm compress) (SRV_unpack (SRV_new h) M off) (rr\<lparr>SRV_Hdr := h\<rparr>)"
  using assms
  by (cases rr) (simp only: rdata_ok.simps SRV_pack_def SRV_unpack_def SRV_new_def Let_def SRV.select_convs SRV.update_convs,
    rule rt_u16, rule rt_more, rule rt_u16, rule rt_more, rule rt_u16, rule rt_more, rule rt_name [rotated], rule rt_end, simp_all)

lemma SSHFP_rt:
  assumes "rdata_ok (RR_SSHFP rr)" and "off + unat (Hdr_Rdlength h) = length M"
  shows "rt True M msg off cm (SSHFP_pack rr msg off cm compress) (SSHFP_unpack (SSHFP_new h) M off) (rr\<lparr>SSHFP_Hdr := h\<rparr>)"
  using assms
  by (cases rr) (simp only: rdata_ok.simps SSHFP_pack_def SSHFP_unpack_def SSHFP_new_def Let_def SSHFP.select_convs SSHFP.update_convs,
    rule rt_u8, rule rt_more, rule rt_u8, rule hex.rt_text_last_eom, simp_all)

lemma SVCB_rt:
  assumes "rdata_ok (RR_SVCB rr)" and "off + unat (Hdr_Rdlength h) = length M"
  shows "rt True M msg off cm (SVCB_pack rr msg off cm compress) (SVCB_unpack (SVCB_new h) M off) (rr\<lparr>SVCB_Hdr := h\<rparr>)"
  using assms
  by (cases rr) (simp only: rdata_ok.simps SVCB_pack_def SVCB_unpack_def SVCB_new_def Let_def SVCB.select_convs SVCB.update_convs,
    rule rt_u16, rule rt_more, rule rt_name [rotated], rule svcb.rt_last_eom [OF _ refl], simp_all)

lemma TA_rt:
  assumes "rdata_ok (RR_TA rr)" and "off + unat (Hdr_Rdlength h) = length M"
  shows "rt True M msg off cm (TA_pack rr msg off cm compress) (TA_unpack (TA_new h) M off) (rr\<lparr>TA_Hdr := h\<rparr>)"
  using assms
  by (cases rr) (simp only: rdata_ok.simps TA_pack_def TA_unpack_def TA_new_def Let_def TA.select_convs TA.update_convs,
    rule rt_u16, rule rt_more, rule rt_u8, rule rt_more, rule rt_u8, rule hex.rt_text_last_eom, simp_all)

lemma TALINK_rt:
  assumes "rdata_ok (RR_TALINK rr)" and "off + unat (Hdr_Rdlength h) = length M"
  shows "rt True M msg off cm (TALINK_pack rr msg off cm compress) (TALINK_unpack (TALINK_new h) M off) (rr\<lparr>TALINK_Hdr := h\<rparr>)"
  using assms
  by (cases rr) (simp only: rdata_ok.simps TALINK_pack_def TALINK_unpack_def TALINK_new_def Let_def TALINK.select_convs TALINK.update_convs,
    rule rt_name [rotated], rule rt_more, rule rt_name [rotated], rule rt_end, simp_all)

lemma TKEY_rt:
  assumes "rdata_ok (RR_TKEY rr)" and "off + unat (Hdr_Rdlength h) = length M"
  shows "rt True M msg off cm (TKEY_pack rr msg off cm compress) (TKEY_unpack (TKEY_new h) M off) (rr\<lparr>TKEY_Hdr := h\<rparr>)"
  using assms
  by (cases rr) (simp only: rdata_ok.simps TKEY_pack_def TKEY_unpack_def TKEY_new_def Let_def TKEY.select_convs TKEY.update_convs,
    rule rt_name [rotated], rule rt_more, rule rt_u32, rule rt_more, rule rt_u32, rule rt_more, rule rt_u16, rule rt_more, rule rt_u16, rule rt_more, rule rt_u16, rule rt_more, rule hex.rt_text [rotated 2], rule rt_u16, rule hex.rt_text_eom, simp_all)

lemma TLSA_rt:
  assumes "rdata_ok (RR_TLSA rr)" and "off + unat (Hdr_Rdlength h) = length M"
  shows "rt True M msg off cm (TLSA_pack rr msg off cm compress) (TLSA_unpack (TLSA_new h) M off) (rr\<lparr>TLSA_Hdr := h\<rparr>)"
  using assms
  by (cases rr) (simp only: rdata_ok.simps TLSA_pack_def TLSA_unpack_def TLSA_new_def Let_def TLSA.select_convs TLSA.update_convs,
    rule rt_u8, rule rt_more, rule rt_u8, rule rt_more, rule rt_u8, rule hex.rt_text_last_eom, simp_all)

lemma TSIG_rt:
  assumes "rdata_ok (RR_TSIG rr)" and "off + unat (Hdr_Rdlength h) = length M"
  shows "rt True M msg off cm (TSIG_pack rr msg off cm compress) (TSIG_unpack (TSIG_new h) M off) (rr\<lparr>TSIG_Hdr := h\<rparr>)"
  using assms
  by (cases rr) (simp only: rdata_ok.simps TSIG_pack_def TSIG_unpack_def TSIG_new_def Let_def TSIG.select_convs TSIG.update_convs,
    rule rt_name [rotated], rule rt_more, rule rt_u48 [rotated], rule rt_more, rule rt_u16, rule rt_more, rule rt_u16, rule rt_more, rule hex.rt_text [rotated 2], rule rt_u16, rule rt_more, rule rt_u16, rule rt_more, rule rt_u16, rule hex.rt_text_eom, simp_all)

lemma TXT_rt:
  assumes "rdata_ok (RR_TXT rr)" and "off + unat (Hdr_Rdlength h) = length M"
  shows "rt True M msg off cm (TXT_pack rr msg off cm compress) (TXT_unpack (TXT_new h) M off) (rr\<lparr>TXT_Hdr := h\<rparr>)"
  using assms
  by (cases rr) (simp only: rdata_ok.simps TXT_pack_def TXT_unpack_def TXT_new_def Let_def TXT.select_convs TXT.update_convs,
    rule txts.rt_last [OF _ refl], simp_all add: enc_txt_neq_Nil)

lemma UID_rt:
  assumes "rdata_ok (RR_UID rr)" and "off + unat (Hdr_Rdlength h) = length M"
  shows "rt True M msg off cm (UID_pack rr msg off cm compress) (UID_unpack (UID_new h) M off) (rr\<lparr>UID_Hdr := h\<rparr>)"
  using assms(2)
  by (cases rr) (simp only: rdata_ok.simps UID_pack_def UID_unpack_def UID_new_def Let_def UID.select_convs UID.update_convs,
    rule rt_u32, rule rt_end)

lemma UINFO_rt:
  assumes "rdata_ok (RR_UINFO rr)" and "off + unat (Hdr_Rdlength h) = length M"
  shows "rt True M msg off cm (UINFO_pack rr msg off cm compress) (UINFO_unpack (UINFO_new h) M off) (rr\<lparr>UINFO_Hdr := h\<rparr>)"
  using assms
  by (cases rr) (simp only: rdata_ok.simps UINFO_pack_def UINFO_unpack_def UINFO_new_def Let_def UINFO.select_convs UINFO.update_convs,
    rule rt_string [rotated], rule rt_end, simp_all)

lemma URI_rt:
  assumes "rdata_ok (RR_URI rr)" and "off + unat (Hdr_Rdlength h) = length M"
  shows "rt True M msg off cm (URI_pack rr msg off cm compress) (URI_unpack (URI_new h) M off) (rr\<lparr>URI_Hdr := h\<rparr>)"
  using assms
  by (cases rr) (simp only: rdata_ok.simps URI_pack_def URI_unpack_def URI_new_def Let_def URI.select_convs URI.update_convs,
    rule rt_u16, rule rt_more, rule rt_u16, rule octet.rt_last_eom [OF _ refl], simp_all)

lemma X25_rt:
  assumes "rdata_ok (RR_X25 rr)" and "off + unat (Hdr_Rdlength h) = length M"
  shows "rt True M msg off cm (X25_pack rr msg off cm compress) (X25_unpack (X25_new h) M off) (rr\<lparr>X25_Hdr := h\<rparr>)"
  using assms
  by (cases rr) (simp only: rdata_ok.simps X25_pack_def X25_unpack_def X25_new_def Let_def X25.select_convs X25.update_convs,
    rule rt_string [rotated], rule rt_end, simp_all)

lemma ZONEMD_rt:
  assumes "rdata_ok (RR_ZONEMD rr)" and "off + unat (Hdr_Rdlength h) = length M"
  shows "rt True M msg off cm (ZONEMD_pack rr msg off cm compress) (ZONEMD_unpack (ZONEMD_new h) M off) (rr\<lparr>ZONEMD_Hdr := h\<rparr>)"
  using assms
  by (cases rr) (simp only: rdata_ok.simps ZONEMD_pack_def ZONEMD_unpack_def ZONEMD_new_def Let_def ZONEMD.select_convs ZONEMD.update_convs,
    rule rt_u32, rule rt_more, rule rt_u8, rule rt_more, rule rt_u8, rule hex.rt_text_last_eom, simp_all)

text \<open>Data of length 0 is the zero value.\<close>

lemma A_empty:
  assumes "rdata_ok (RR_A rr)" and "off \<le> length msg" and "cm_sound cm (take off msg)"
    and "A_pack rr msg off cm compress = Ok (m, c, off)"
  shows "RR_A (A_new h) = RR_A (rr\<lparr>A_Hdr := h\<rparr>)"
  using rt_moves [OF A_rt [OF assms(1) replicate_rest] assms(2-4)] ..

lemma AAAA_empty:
  assumes "rdata_ok (RR_AAAA rr)" and "off \<le> length msg" and "cm_sound cm (take off msg)"
    and "AAAA_pack rr msg off cm compress = Ok (m, c, off)"
  shows "RR_AAAA (AAAA_new h) = RR_AAAA (rr\<lparr>AAAA_Hdr := h\<rparr>)"
  using rt_moves [OF AAAA_rt [OF assms(1) replicate_rest] assms(2-4)] ..

lemma AFSDB_empty:
  assumes "rdata_ok (RR_AFSDB rr)" and "off \<le> length msg" and "cm_sound cm (take off msg)"
    and "AFSDB_pack rr msg off cm compress = Ok (m, c, off)"
  shows "RR_AFSDB (AFSDB_new h) = RR_AFSDB (rr\<lparr>AFSDB_Hdr := h\<rparr>)"
  using rt_moves [OF AFSDB_rt [OF assms(1) replicate_rest] assms(2-4)] ..

lemma AMTRELAY_empty:
  assumes "rdata_ok (RR_AMTRELAY rr)" and "off \<le> length msg" and "cm_sound cm (take off msg)"
    and "AMTRELAY_pack rr msg off cm compress = Ok (m, c, off)"
  shows "RR_AMTRELAY (AMTRELAY_new h) = RR_AMTRELAY (rr\<lparr>AMTRELAY_Hdr := h\<rparr>)"
  using rt_moves [OF AMTRELAY_rt [OF assms(1) replicate_rest] assms(2-4)] ..

lemma ANY_empty:
  assumes "rdata_ok (RR_ANY rr)" and "off \<le> length msg" and "cm_sound cm (take off msg)"
    and "ANY_pack rr msg off cm compress = Ok (m, c, off)"
  shows "RR_ANY (ANY_new h) = RR_ANY (rr\<lparr>ANY_Hdr := h\<rparr>)"
  using assms by (cases rr) (auto simp: ANY_pack_def ANY_new_def bindR_eq_Ok dest: last_empty)

lemma APL_empty:
  assumes "rdata_ok (RR_APL rr)" and "off \<le> length msg" and "cm_sound cm (take off msg)"
    and "APL_pack rr msg off cm compress = Ok (m, c, off)"
  shows "RR_APL (APL_new h) = RR_APL (rr\<lparr>APL_Hdr := h\<rparr>)"
  using assms by (cases rr) (auto simp: APL_pack_def APL_new_def bindR_eq_Ok dest: last_empty)

lemma AVC_empty:
  assumes "rdata_ok (RR_AVC rr)" and "off \<le> length msg" and "cm_sound cm (take off msg)"
    and "AVC_pack rr msg off cm compress = Ok (m, c, off)"
  shows "RR_AVC (AVC_new h) = RR_AVC (rr\<lparr>AVC_Hdr := h\<rparr>)"
  using rt_moves [OF AVC_rt [OF assms(1) replicate_rest] assms(2-4)] ..

lemma CAA_empty:
  assumes "rdata_ok (RR_CAA rr)" and "off \<le> length msg" and "cm_sound cm (take off msg)"
    and "CAA_pack rr msg off cm compress = Ok (m, c, off)"
  shows "RR_CAA (CAA_new h) = RR_CAA (rr\<lparr>CAA_Hdr := h\<rparr>)"
  using rt_moves [OF CAA_rt [OF assms(1) replicate_rest] assms(2-4)] ..

lemma CDNSKEY_empty:
  assumes "rdata_ok (RR_CDNSKEY rr)" and "off \<le> length msg" and "cm_sound cm (take off msg)"
    and "CDNSKEY_pack rr msg off cm compress = Ok (m, c, off)"
  shows "RR_CDNSKEY (DNSKEY_new h) = RR_CDNSKEY (rr\<lparr>DNSKEY_Hdr := h\<rparr>)"
  using rt_moves [OF CDNSKEY_rt [OF assms(1) replicate_rest] assms(2-4)] ..

lemma CDS_empty:
  assumes "rdata_ok (RR_CDS rr)" and "off \<le> length msg" and "cm_sound cm (take off msg)"
    and "CDS_pack rr msg off cm compress = Ok (m, c, off)"
  shows "RR_CDS (DS_new h) = RR_CDS (rr\<lparr>DS_Hdr := h\<rparr>)"
  using rt_moves [OF CDS_rt [OF assms(1) replicate_rest] assms(2-4)] ..

lemma CERT_empty:
  assumes "rdata_ok (RR_CERT rr)" and "off \<le> length msg" and "cm_sound cm (take off msg)"
    and "CERT_pack rr msg off cm compress = Ok (m, c, off)"
  shows "RR_CERT (CERT_new h) = RR_CERT (rr\<lparr>CERT_Hdr := h\<rparr>)"
  using rt_moves [OF CERT_rt [OF assms(1) replicate_rest] assms(2-4)] ..

lemma CNAME_empty:
  assumes "rdata_ok (RR_CNAME rr)" and "off \<le> length msg" and "cm_sound cm (take off msg)"
    and "CNAME_pack rr msg off cm compress = Ok (m, c, off)"
  shows "RR_CNAME (CNAME_new h) = RR_CNAME (rr\<lparr>CNAME_Hdr := h\<rparr>)"
  using rt_moves [OF CNAME_rt [OF assms(1) replicate_rest] assms(2-4)] ..

lemma CSYNC_empty:
  assumes "rdata_ok (RR_CSYNC rr)" and "off \<le> length msg" and "cm_sound cm (take off msg)"
    and "CSYNC_pack rr msg off cm compress = Ok (m, c, off)"
  shows "RR_CSYNC (CSYNC_new h) = RR_CSYNC (rr\<lparr>CSYNC_Hdr := h\<rparr>)"
  using rt_moves [OF CSYNC_rt [OF assms(1) replicate_rest] assms(2-4)] ..

lemma DHCID_empty:
  assumes "rdata_ok (RR_DHCID rr)" and "off \<le> length msg" and "cm_sound cm (take off msg)"
    and "DHCID_pack rr msg off cm compress = Ok (m, c, off)"
  shows "RR_DHCID (DHCID_new h) = RR_DHCID (rr\<lparr>DHCID_Hdr := h\<rparr>)"
  using assms by (cases rr) (auto simp: DHCID_pack_def DHCID_new_def bindR_eq_Ok dest: last_empty)

lemma DLV_empty:
  assumes "rdata_ok (RR_DLV rr)" and "off \<le> length msg" and "cm_sound cm (take off msg)"
    and "DLV_pack rr msg off cm compress = Ok (m, c, off)"
  shows "RR_DLV (DS_new h) = RR_DLV (rr\<lparr>DS_Hdr := h\<rparr>)"
  using rt_moves [OF DLV_rt [OF assms(1) replicate_rest] assms(2-4)] ..

lemma DNAME_empty:
  assumes "rdata_ok (RR_DNAME rr)" and "off \<le> length msg" and "cm_sound cm (take off msg)"
    and "DNAME_pack rr msg off cm compress = Ok (m, c, off)"
  shows "RR_DNAME (DNAME_new h) = RR_DNAME (rr\<lparr>DNAME_Hdr := h\<rparr>)"
  using rt_moves [OF DNAME_rt [OF assms(1) replicate_rest] assms(2-4)] ..

lemma DNSKEY_empty:
  assumes "rdata_ok (RR_DNSKEY rr)" and "off \<le> length msg" and "cm_sound cm (take off msg)"
    and "DNSKEY_pack rr msg off cm compress = Ok (m, c, off)"
  shows "RR_DNSKEY (DNSKEY_new h) = RR_DNSKEY (rr\<lparr>DNSKEY_Hdr := h\<rparr>)"
  using rt_moves [OF DNSKEY_rt [OF assms(1) replicate_rest] assms(2-4)] ..

lemma DS_empty:
  assumes "rdata_ok (RR_DS rr)" and "off \<le> length msg" and "cm_sound cm (take off msg)"
    and "DS_pack rr msg off cm compress = Ok (m, c, off)"
  shows "RR_DS (DS_new h) = RR_DS (rr\<lparr>DS_Hdr := h\<rparr>)"
  using rt_moves [OF DS_rt [OF assms(1) replicate_rest] assms(2-4)] ..

lemma EID_empty:
  assumes "rdata_ok (RR_EID rr)" and "off \<le> length msg" and "cm_sound cm (take off msg)"
    and "EID_pack rr msg off cm compress = Ok (m, c, off)"
  shows "RR_EID (EID_new h) = RR_EID (rr\<lparr>EID_Hdr := h\<rparr>)"
  using assms by (cases rr) (auto simp: EID_pack_def EID_new_def bindR_eq_Ok dest: last_empty)

lemma EUI48_empty:
  assumes "rdata_ok (RR_EUI48 rr)" and "off \<le> length msg" and "cm_sound cm (take off msg)"
    and "EUI48_pack rr msg off cm compress = Ok (m, c, off)"
  shows "RR_EUI48 (EUI48_new h) = RR_EUI48 (rr\<lparr>EUI48_Hdr := h\<rparr>)"
  using rt_moves [OF EUI48_rt [OF assms(1) replicate_rest] assms(2-4)] ..

lemma EUI64_empty:
  assumes "rdata_ok (RR_EUI64 rr)" and "off \<le> length msg" and "cm_sound cm (take off msg)"
    and "EUI64_pack rr msg off cm compress = Ok (m, c, off)"
  shows "RR_EUI64 (EUI64_new h) = RR_EUI64 (rr\<lparr>EUI64_Hdr := h\<rparr>)"
  using rt_moves [OF EUI64_rt [OF assms(1) replicate_rest] assms(2-4)] ..

lemma GID_empty:
  assumes "rdata_ok (RR_GID rr)" and "off \<le> length msg" and "cm_sound cm (take off msg)"
    and "GID_pack rr msg off cm compress = Ok (m, c, off)"
  shows "RR_GID (GID_new h) = RR_GID (rr\<lparr>GID_Hdr := h\<rparr>)"
  using rt_moves [OF GID_rt [OF assms(1) replicate_rest] assms(2-4)] ..

lemma GPOS_empty:
  assumes "rdata_ok (RR_GPOS rr)" and "off \<le> length msg" and "cm_sound cm (take off msg)"
    and "GPOS_pack rr msg off cm compress = Ok (m, c, off)"
  shows "RR_GPOS (GPOS_new h) = RR_GPOS (rr\<lparr>GPOS_Hdr := h\<rparr>)"
  using rt_moves [OF GPOS_rt [OF assms(1) replicate_rest] assms(2-4)] ..

lemma HINFO_empty:
  assumes "rdata_ok (RR_HINFO rr)" and "off \<le> length msg" and "cm_sound cm (take off msg)"
    and "HINFO_pack rr msg off cm compress = Ok (m, c, off)"
  shows "RR_HINFO (HINFO_new h) = RR_HINFO (rr\<lparr>HINFO_Hdr := h\<rparr>)"
  using rt_moves [OF HINFO_rt [OF assms(1) replicate_rest] assms(2-4)] ..

lemma HIP_empty:
  assumes "rdata_ok (RR_HIP rr)" and "off \<le> length msg" and "cm_sound cm (take off msg)"
    and "HIP_pack rr msg off cm compress = Ok (m, c, off)"
  shows "RR_HIP (HIP_new h) = RR_HIP (rr\<lparr>HIP_Hdr := h\<rparr>)"
  using rt_moves [OF HIP_rt [OF assms(1) replicate_rest] assms(2-4)] ..

lemma HTTPS_empty:
  assumes "rdata_ok (RR_HTTPS rr)" and "off \<le> length msg" and "cm_sound cm (take off msg)"
    and "HTTPS_pack rr msg off cm compress = Ok (m, c, off)"
  shows "RR_HTTPS (SVCB_new h) = RR_HTTPS (rr\<lparr>SVCB_Hdr := h\<rparr>)"
  using rt_moves [OF HTTPS_rt [OF assms(1) replicate_rest] assms(2-4)] ..

lemma IPSECKEY_empty:
  assumes "rdata_ok (RR_IPSECKEY rr)" and "off \<le> length msg" and "cm_sound cm (take off msg)"
    and "IPSECKEY_pack rr msg off cm compress = Ok (m, c, off)"
  shows "RR_IPSECKEY (IPSECKEY_new h) = RR_IPSECKEY (rr\<lparr>IPSECKEY_Hdr := h\<rparr>)"
  using rt_moves [OF IPSECKEY_rt [OF assms(1) replicate_rest] assms(2-4)] ..

lemma ISDN_empty:
  assumes "rdata_ok (RR_ISDN rr)" and "off \<le> length msg" and "cm_sound cm (take off msg)"
    and "ISDN_pack rr msg off cm compress = Ok (m, c, off)"
  shows "RR_ISDN (ISDN_new h) = RR_ISDN (rr\<lparr>ISDN_Hdr := h\<rparr>)"
  using rt_moves [OF ISDN_rt [OF assms(1) replicate_rest] assms(2-4)] ..

lemma KEY_empty:
  assumes "rdata_ok (RR_KEY rr)" and "off \<le> length msg" and "cm_sound cm (take off msg)"
    and "KEY_pack rr msg off cm compress = Ok (m, c, off)"
  shows "RR_KEY (DNSKEY_new h) = RR_KEY (rr\<lparr>DNSKEY_Hdr := h\<rparr>)"
  using rt_moves [OF KEY_rt [OF assms(1) replicate_rest] assms(2-4)] ..

lemma KX_empty:
  assumes "rdata_ok (RR_KX rr)" and "off \<le> length msg" and "cm_sound cm (take off msg)"
    and "KX_pack rr msg off cm compress = Ok (m, c, off)"
  shows "RR_KX (KX_new h) = RR_KX (rr\<lparr>KX_Hdr := h\<rparr>)"
  using rt_moves [OF KX_rt [OF assms(1) replicate_rest] assms(2-4)] ..

lemma L32_empty:
  assumes "rdata_ok (RR_L32 rr)" and "off \<le> length msg" and "cm_sound cm (take off msg)"
    and "L32_pack rr msg off cm compress = Ok (m, c, off)"
  shows "RR_L32 (L32_new h) = RR_L32 (rr\<lparr>L32_Hdr := h\<rparr>)"
  using rt_moves [OF L32_rt [OF assms(1) replicate_rest] assms(2-4)] ..

lemma L64_empty:
  assumes "rdata_ok (RR_L64 rr)" and "off \<le> length msg" and "cm_sound cm (take off msg)"
    and "L64_pack rr msg off cm compress = Ok (m, c, off)"
  shows "RR_L64 (L64_new h) = RR_L64 (rr\<lparr>L64_Hdr := h\<rparr>)"
  using rt_moves [OF L64_rt [OF assms(1) replicate_rest] assms(2-4)] ..

lemma LOC_empty:
  assumes "rdata_ok (RR_LOC rr)" and "off \<le> length msg" and "cm_sound cm (take off msg)"
    and "LOC_pack rr msg off cm compress = Ok (m, c, off)"
  shows "RR_LOC (LOC_new h) = RR_LOC (rr\<lparr>LOC_Hdr := h\<rparr>)"
  using rt_moves [OF LOC_rt [OF assms(1) replicate_rest] assms(2-4)] ..

lemma LP_empty:
  assumes "rdata_ok (RR_LP rr)" and "off \<le> length msg" and "cm_sound cm (take off msg)"
    and "LP_pack rr msg off cm compress = Ok (m, c, off)"
  shows "RR_LP (LP_new h) = RR_LP (rr\<lparr>LP_Hdr := h\<rparr>)"
  using rt_moves [OF LP_rt [OF assms(1) replicate_rest] assms(2-4)] ..

lemma MB_empty:
  assumes "rdata_ok (RR_MB rr)" and "off \<le> length msg" and "cm_sound cm (take off msg)"
    and "MB_pack rr msg off cm compress = Ok (m, c, off)"
  shows "RR_MB (MB_new h) = RR_MB (rr\<lparr>MB_Hdr := h\<rparr>)"
  using rt_moves [OF MB_rt [OF assms(1) replicate_rest] assms(2-4)] ..

lemma MD_empty:
  assumes "rdata_ok (RR_MD rr)" and "off \<le> length msg" and "cm_sound cm (take off msg)"
    and "MD_pack rr msg off cm compress = Ok (m, c, off)"
  shows "RR_MD (MD_new h) = RR_MD (rr\<lparr>MD_Hdr := h\<rparr>)"
  using rt_moves [OF MD_rt [OF assms(1) replicate_rest] assms(2-4)] ..

lemma MF_empty:
  assumes "rdata_ok (RR_MF rr)" and "off \<le> length msg" and "cm_sound cm (take off msg)"
    and "MF_pack rr msg off cm compress = Ok (m, c, off)"
  shows "RR_MF (MF_new h) = RR_MF (rr\<lparr>MF_Hdr := h\<rparr>)"
  using rt_moves [OF MF_rt [OF assms(1) replicate_rest] assms(2-4)] ..

lemma MG_empty:
  assumes "rdata_ok (RR_MG rr)" and "off \<le> length msg" and "cm_sound cm (take off msg)"
    and "MG_pack rr msg off cm compress = Ok (m, c, off)"
  shows "RR_MG (MG_new h) = RR_MG (rr\<lparr>MG_Hdr := h\<rparr>)"
  using rt_moves [OF MG_rt [OF assms(1) replicate_rest] assms(2-4)] ..

lemma MINFO_empty:
  assumes "rdata_ok (RR_MINFO rr)" and "off \<le> length msg" and "cm_sound cm (take off msg)"
    and "MINFO_pack rr msg off cm compress = Ok (m, c, off)"
  shows "RR_MINFO (MINFO_new h) = RR_MINFO (rr\<lparr>MINFO_Hdr := h\<rparr>)"
  using rt_moves [OF MINFO_rt [OF assms(1) replicate_rest] assms(2-4)] ..

lemma MR_empty:
  assumes "rdata_ok (RR_MR rr)" and "off \<le> length msg" and "cm_sound cm (take off msg)"
    and "MR_pack rr msg off cm compress = Ok (m, c, off)"
  shows "RR_MR (MR_new h) = RR_MR (rr\<lparr>MR_Hdr := h\<rparr>)"
  using rt_moves [OF MR_rt [OF assms(1) replicate_rest] assms(2-4)] ..

lemma MX_empty:
  assumes "rdata_ok (RR_MX rr)" and "off \<le> length msg" and "cm_sound cm (take off msg)"
    and "MX_pack rr msg off cm compress = Ok (m, c, off)"
  shows "RR_MX (MX_new h) = RR_MX (rr\<lparr>MX_Hdr := h\<rparr>)"
  using rt_moves [OF MX_rt [OF assms(1) replicate_rest] assms(2-4)] ..

lemma NAPTR_empty:
  assumes "rdata_ok (RR_NAPTR rr)" and "off \<le> length msg" and "cm_sound cm (take off msg)"
    and "NAPTR_pack rr msg off cm compress = Ok (m, c, off)"
  shows "RR_NAPTR (NAPTR_new h) = RR_NAPTR (rr\<lparr>NAPTR_Hdr := h\<rparr>)"
  using rt_moves [OF NAPTR_rt [OF assms(1) replicate_rest] assms(2-4)] ..

lemma NID_empty:
  assumes "rdata_ok (RR_NID rr)" and "off \<le> length msg" and "cm_sound cm (take off msg)"
    and "NID_pack rr msg off cm compress = Ok (m, c, off)"
  shows "RR_NID (NID_new h) = RR_NID (rr\<lparr>NID_Hdr := h\<rparr>)"
  using rt_moves [OF NID_rt [OF assms(1) replicate_rest] assms(2-4)] ..

lemma NIMLOC_empty:
  assumes "rdata_ok (RR_NIMLOC rr)" and "off \<le> length msg" and "cm_sound cm (take off msg)"
    and "NIMLOC_pack rr msg off cm compress = Ok (m, c, off)"
  shows "RR_NIMLOC (NIMLOC_new h) = RR_NIMLOC (rr\<lparr>NIMLOC_Hdr := h\<rparr>)"
  using assms by (cases rr) (auto simp: NIMLOC_pack_def NIMLOC_new_def bindR_eq_Ok dest: last_empty)

lemma NINFO_empty:
  assumes "rdata_ok (RR_NINFO rr)" and "off \<le> length msg" and "cm_sound cm (take off msg)"
    and "NINFO_pack rr msg off cm compress = Ok (m, c, off)"
  shows "RR_NINFO (NINFO_new h) = RR_NINFO (rr\<lparr>NINFO_Hdr := h\<rparr>)"
  using rt_moves [OF NINFO_rt [OF assms(1) replicate_rest] assms(2-4)] ..

lemma NS_empty:
  assumes "rdata_ok (RR_NS rr)" and "off \<le> length msg" and "cm_sound cm (take off msg)"
    and "NS_pack rr msg off cm compress = Ok (m, c, off)"
  shows "RR_NS (NS_new h) = RR_NS (rr\<lparr>NS_Hdr := h\<rparr>)"
  using rt_moves [OF NS_rt [OF assms(1) replicate_rest] assms(2-4)] ..

lemma NSAPPTR_empty:
  assumes "rdata_ok (RR_NSAPPTR rr)" and "off \<le> length msg" and "cm_sound cm (take off msg)"
    and "NSAPPTR_pack rr msg off cm compress = Ok (m, c, off)"
  shows "RR_NSAPPTR (NSAPPTR_new h) = RR_NSAPPTR (rr\<lparr>NSAPPTR_Hdr := h\<rparr>)"
  using rt_moves [OF NSAPPTR_rt [OF assms(1) replicate_rest] assms(2-4)] ..

lemma NSEC_empty:
  assumes "rdata_ok (RR_NSEC rr)" and "off \<le> length msg" and "cm_sound cm (take off msg)"
    and "NSEC_pack rr msg off cm compress = Ok (m, c, off)"
  shows "RR_NSEC (NSEC_new h) = RR_NSEC (rr\<lparr>NSEC_Hdr := h\<rparr>)"
  using rt_moves [OF NSEC_rt [OF assms(1) replicate_rest] assms(2-4)] ..

lemma NSEC3_empty:
  assumes "rdata_ok (RR_NSEC3 rr)" and "off \<le> length msg" and "cm_sound cm (take off msg)"
    and "NSEC3_pack rr msg off cm compress = Ok (m, c, off)"
  shows "RR_NSEC3 (NSEC3_new h) = RR_NSEC3 (rr\<lparr>NSEC3_Hdr := h\<rparr>)"
  using rt_moves [OF NSEC3_rt [OF assms(1) replicate_rest] assms(2-4)] ..

lemma NSEC3PARAM_empty:
  assumes "rdata_ok (RR_NSEC3PARAM rr)" and "off \<le> length msg" and "cm_sound cm (take off msg)"
    and "NSEC3PARAM_pack rr msg off cm compress = Ok (m, c, off)"
  shows "RR_NSEC3PARAM (NSEC3PARAM_new h) = RR_NSEC3PARAM (rr\<lparr>NSEC3PARAM_Hdr := h\<rparr>)"
  using rt_moves [OF NSEC3PARAM_rt [OF assms(1) replicate_rest] assms(2-4)] ..

lemma NULL_empty:
  assumes "rdata_ok (RR_NULL rr)" and "off \<le> length msg" and "cm_sound cm (take off msg)"
    and "NULL_pack rr msg off cm compress = Ok (m, c, off)"
  shows "RR_NULL (NULL_new h) = RR_NULL (rr\<lparr>NULL_Hdr := h\<rparr>)"
  using assms by (cases rr) (auto simp: NULL_pack_def NULL_new_def bindR_eq_Ok dest: last_empty)

lemma NXNAME_empty:
  assumes "rdata_ok (RR_NXNAME rr)" and "off \<le> length msg" and "cm_sound cm (take off msg)"
    and "NXNAME_pack rr msg off cm compress = Ok (m, c, off)"
  shows "RR_NXNAME (NXNAME_new h) = RR_NXNAME (rr\<lparr>NXNAME_Hdr := h\<rparr>)"
  using assms by (cases rr) (auto simp: NXNAME_pack_def NXNAME_new_def bindR_eq_Ok dest: last_empty)

lemma NXT_empty:
  assumes "rdata_ok (RR_NXT rr)" and "off \<le> length msg" and "cm_sound cm (take off msg)"
    and "NXT_pack rr msg off cm compress = Ok (m, c, off)"
  shows "RR_NXT (NSEC_new h) = RR_NXT (rr\<lparr>NSEC_Hdr := h\<rparr>)"
  using rt_moves [OF NXT_rt [OF assms(1) replicate_rest] assms(2-4)] ..

lemma OPENPGPKEY_empty:
  assumes "rdata_ok (RR_OPENPGPKEY rr)" and "off \<le> length msg" and "cm_sound cm (take off msg)"
    and "OPENPGPKEY_pack rr msg off cm compress = Ok (m, c, off)"
  shows "RR_OPENPGPKEY (OPENPGPKEY_new h) = RR_OPENPGPKEY (rr\<lparr>OPENPGPKEY_Hdr := h\<rparr>)"
  using assms by (cases rr) (auto simp: OPENPGPKEY_pack_def OPENPGPKEY_new_def bindR_eq_Ok dest: last_empty)

lemma OPT_empty:
  assumes "rdata_ok (RR_OPT rr)" and "off \<le> length msg" and "cm_sound cm (take off msg)"
    and "OPT_pack rr msg off cm compress = Ok (m, c, off)"
  shows "RR_OPT (OPT_new h) = RR_OPT (rr\<lparr>OPT_Hdr := h\<rparr>)"
  using assms by (cases rr) (auto simp: OPT_pack_def OPT_new_def bindR_eq_Ok dest: last_empty)

lemma PTR_empty:
  assumes "rdata_ok (RR_PTR rr)" and "off \<le> length msg" and "cm_sound cm (take off msg)"
    and "PTR_pack rr msg off cm compress = Ok (m, c, off)"
  shows "RR_PTR (PTR_new h) = RR_PTR (rr\<lparr>PTR_Hdr := h\<rparr>)"
  using rt_moves [OF PTR_rt [OF assms(1) replicate_rest] assms(2-4)] ..

lemma PX_empty:
  assumes "rdata_ok (RR_PX rr)" and "off \<le> length msg" and "cm_sound cm (take off msg)"
    and "PX_pack rr msg off cm compress = Ok (m, c, off)"
  shows "RR_PX (PX_new h) = RR_PX (rr\<lparr>PX_Hdr := h\<rparr>)"
  using rt_moves [OF PX_rt [OF assms(1) replicate_rest] assms(2-4)] ..

lemma RESINFO_empty:
  assumes "rdata_ok (RR_RESINFO rr)" and "off \<le> length msg" and "cm_sound cm (take off msg)"
    and "RESINFO_pack rr msg off cm compress = Ok (m, c, off)"
  shows "RR_RESINFO (RESINFO_new h) = RR_RESINFO (rr\<lparr>RESINFO_Hdr := h\<rparr>)"
  using rt_moves [OF RESINFO_rt [OF assms(1) replicate_rest] assms(2-4)] ..

lemma RFC3597_empty:
  assumes "rdata_ok (RR_RFC3597 rr)" and "off \<le> length msg" and "cm_sound cm (take off msg)"
    and "RFC3597_pack rr msg off cm compress = Ok (m, c, off)"
  shows "RR_RFC3597 (RFC3597_new h) = RR_RFC3597 (rr\<lparr>RFC3597_Hdr := h\<rparr>)"
  using assms by (cases rr) (auto simp: RFC3597_pack_def RFC3597_new_def bindR_eq_Ok dest: last_empty)

lemma RKEY_empty:
  assumes "rdata_ok (RR_RKEY rr)" and "off \<le> length msg" and "cm_sound cm (take off msg)"
    and "RKEY_pack rr msg off cm compress = Ok (m, c, off)"
  shows "RR_RKEY (RKEY_new h) = RR_RKEY (rr\<lparr>RKEY_Hdr := h\<rparr>)"
  using rt_moves [OF RKEY_rt [OF assms(1) replicate_rest] assms(2-4)] ..

lemma RP_empty:
  assumes "rdata_ok (RR_RP rr)" and "off \<le> length msg" and "cm_sound cm (take off msg)"
    and "RP_pack rr msg off cm compress = Ok (m, c, off)"
  shows "RR_RP (RP_new h) = RR_RP (rr\<lparr>RP_Hdr := h\<rparr>)"
  using rt_moves [OF RP_rt [OF assms(1) replicate_rest] assms(2-4)] ..

lemma RRSIG_empty:
  assumes "rdata_ok (RR_RRSIG rr)" and "off \<le> length msg" and "cm_sound cm (take off msg)"
    and "RRSIG_pack rr msg off cm compress = Ok (m, c, off)"
  shows "RR_RRSIG (RRSIG_new h) = RR_RRSIG (rr\<lparr>RRSIG_Hdr := h\<rparr>)"
  using rt_moves [OF RRSIG_rt [OF assms(1) replicate_rest] assms(2-4)] ..

lemma RT_empty:
  assumes "rdata_ok (RR_RT rr)" and "off \<le> length msg" and "cm_sound cm (take off msg)"
    and "RT_pack rr msg off cm compress = Ok (m, c, off)"
  shows "RR_RT (RT_new h) = RR_RT (rr\<lparr>RT_Hdr := h\<rparr>)"
  using rt_moves [OF RT_rt [OF assms(1) replicate_rest] assms(2-4)] ..

lemma SIG_empty:
  assumes "rdata_ok (RR_SIG rr)" and "off \<le> length msg" and "cm_sound cm (take off msg)"
    and "SIG_pack rr msg off cm compress = Ok (m, c, off)"
  shows "RR_SIG (RRSIG_new h) = RR_SIG (rr\<lparr>RRSIG_Hdr := h\<rparr>)"
  using rt_moves [OF SIG_rt [OF assms(1) replicate_rest] assms(2-4)] ..

lemma SMIMEA_empty:
  assumes "rdata_ok (RR_SMIMEA rr)" and "off \<le> length msg" and "cm_sound cm (take off msg)"
    and "SMIMEA_pack rr msg off cm compress = Ok (m, c, off)"
  shows "RR_SMIMEA (SMIMEA_new h) = RR_SMIMEA (rr\<lparr>SMIMEA_Hdr := h\<rparr>)"
  using rt_moves [OF SMIMEA_rt [OF assms(1) replicate_rest] assms(2-4)] ..

lemma SOA_empty:
  assumes "rdata_ok (RR_SOA rr)" and "off \<le> length msg" and "cm_sound cm (take off msg)"
    and "SOA_pack rr msg off cm compress = Ok (m, c, off)"
  shows "RR_SOA (SOA_new h) = RR_SOA (rr\<lparr>SOA_Hdr := h\<rparr>)"
  using rt_moves [OF SOA_rt [OF assms(1) replicate_rest] assms(2-4)] ..

lemma SPF_empty:
  assumes "rdata_ok (RR_SPF rr)" and "off \<le> length msg" and "cm_sound cm (take off msg)"
    and "SPF_pack rr msg off cm compress = Ok (m, c, off)"
  shows "RR_SPF (SPF_new h) = RR_SPF (rr\<lparr>SPF_Hdr := h\<rparr>)"
  using rt_moves [OF SPF_rt [OF assms(1) replicate_rest] assms(2-4)] ..

lemma SRV_empty:
  assumes "rdata_ok (RR_SRV rr)" and "off \<le> length msg" and "cm_sound cm (take off msg)"
    and "SRV_pack rr msg off cm compress = Ok (m, c, off)"
  shows "RR_SRV (SRV_new h) = RR_SRV (rr\<lparr>SRV_Hdr := h\<rparr>)"
  using rt_moves [OF SRV_rt [OF assms(1) replicate_rest] assms(2-4)] ..

lemma SSHFP_empty:
  assumes "rdata_ok (RR_SSHFP rr)" and "off \<le> length msg" and "cm_sound cm (take off msg)"
    and "SSHFP_pack rr msg off cm compress = Ok (m, c, off)"
  shows "RR_SSHFP (SSHFP_new h) = RR_SSHFP (rr\<lparr>SSHFP_Hdr := h\<rparr>)"
  using rt_moves [OF SSHFP_rt [OF assms(1) replicate_rest] assms(2-4)] ..

lemma SVCB_empty:
  assumes "rdata_ok (RR_SVCB rr)" and "off \<le> length msg" and "cm_sound cm (take off msg)"
    and "SVCB_pack rr msg off cm compress = Ok (m, c, off)"
  shows "RR_SVCB (SVCB_new h) = RR_SVCB (rr\<lparr>SVCB_Hdr := h\<rparr>)"
  using rt_moves [OF SVCB_rt [OF assms(1) replicate_rest] assms(2-4)] ..

lemma TA_empty:
  assumes "rdata_ok (RR_TA rr)" and "off \<le> length msg" and "cm_sound cm (take off msg)"
    and "TA_pack rr msg off cm compress = Ok (m, c, off)"
  shows "RR_TA (TA_new h) = RR_TA (rr\<lparr>TA_Hdr := h\<rparr>)"
  using rt_moves [OF TA_rt [OF assms(1) replicate_rest] assms(2-4)] ..

lemma TALINK_empty:
  assumes "rdata_ok (RR_TALINK rr)" and "off \<le> length msg" and "cm_sound cm (take off msg)"
    and "TALINK_pack rr msg off cm compress = Ok (m, c, off)"
  shows "RR_TALINK (TALINK_new h) = RR_TALINK (rr\<lparr>TALINK_Hdr := h\<rparr>)"
  using rt_moves [OF TALINK_rt [OF assms(1) replicate_rest] assms(2-4)] ..

lemma TKEY_empty:
  assumes "rdata_ok (RR_TKEY rr)" and "off \<le> length msg" and "cm_sound cm (take off msg)"
    and "TKEY_pack rr msg off cm compress = Ok (m, c, off)"
  shows "RR_TKEY (TKEY_new h) = RR_TKEY (rr\<lparr>TKEY_Hdr := h\<rparr>)"
  using rt_moves [OF TKEY_rt [OF assms(1) replicate_rest] assms(2-4)] ..

lemma TLSA_empty:
  assumes "rdata_ok (RR_TLSA rr)" and "off \<le> length msg" and "cm_sound cm (take off msg)"
    and "TLSA_pack rr msg off cm compress = Ok (m, c, off)"
  shows "RR_TLSA (TLSA_new h) = RR_TLSA (rr\<lparr>TLSA_Hdr := h\<rparr>)"
  using rt_moves [OF TLSA_rt [OF assms(1) replicate_rest] assms(2-4)] ..

lemma TSIG_empty:
  assumes "rdata_ok (RR_TSIG rr)" and "off \<le> length msg" and "cm_sound cm (take off msg)"
    and "TSIG_pack rr msg off cm compress = Ok (m, c, off)"
  shows "RR_TSIG (TSIG_new h) = RR_TSIG (rr\<lparr>TSIG_Hdr := h\<rparr>)"
  using rt_moves [OF TSIG_rt [OF assms(1) replicate_rest] assms(2-4)] ..

lemma TXT_empty:
  assumes "rdata_ok (RR_TXT rr)" and "off \<le> length msg" and "cm_sound cm (take off msg)"
    and "TXT_pack rr msg off cm compress = Ok (m, c, off)"
  shows "RR_TXT (TXT_new h) = RR_TXT (rr\<lparr>TXT_Hdr := h\<rparr>)"
  using rt_moves [OF TXT_rt [OF assms(1) replicate_rest] assms(2-4)] ..

lemma UID_empty:
  assumes "rdata_ok (RR_UID rr)" and "off \<le> length msg" and "cm_sound cm (take off msg)"
    and "UID_pack rr msg off cm compress = Ok (m, c, off)"
  shows "RR_UID (UID_new h) = RR_UID (rr\<lparr>UID_Hdr := h\<rparr>)"
  using rt_moves [OF UID_rt [OF assms(1) replicate_rest] assms(2-4)] ..

lemma UINFO_empty:
  assumes "rdata_ok (RR_UINFO rr)" and "off \<le> length msg" and "cm_sound cm (take off msg)"
    and "UINFO_pack rr msg off cm compress = Ok (m, c, off)"
  shows "RR_UINFO (UINFO_new h) = RR_UINFO (rr\<lparr>UINFO_Hdr := h\<rparr>)"
  using rt_moves [OF UINFO_rt [OF assms(1) replicate_rest] assms(2-4)] ..

lemma URI_empty:
  assumes "rdata_ok (RR_URI rr)" and "off \<le> length msg" and "cm_sound cm (take off msg)"
    and "URI_pack rr msg off cm compress = Ok (m, c, off)"
  shows "RR_URI (URI_new h) = RR_URI (rr\<lparr>URI_Hdr := h\<rparr>)"
  using rt_moves [OF URI_rt [OF assms(1) replicate_rest] assms(2-4)] ..

lemma X25_empty:
  assumes "rdata_ok (RR_X25 rr)" and "off \<le> length msg" and "cm_sound cm (take off msg)"
    and "X25_pack rr msg off cm compress = Ok (m, c, off)"
  shows "RR_X25 (X25_new h) = RR_X25 (rr\<lparr>X25_Hdr := h\<rparr>)"
  using rt_moves [OF X25_rt [OF assms(1) replicate_rest] assms(2-4)] ..

lemma ZONEMD_empty:
  assumes "rdata_ok (RR_ZONEMD rr)" and "off \<le> length msg" and "cm_sound cm (take off msg)"
    and "ZONEMD_pack rr msg off cm compress = Ok (m, c, off)"
  shows "RR_ZONEMD (ZONEMD_new h) = RR_ZONEMD (rr\<lparr>ZONEMD_Hdr := h\<rparr>)"
  using rt_moves [OF ZONEMD_rt [OF assms(1) replicate_rest] assms(2-4)] ..

subsection \<open>Unpacking does not panic\<close>

lemma A_unpack_safe:
  assumes "off \<le> length msg" and "off + unat (Hdr_Rdlength (A_Hdr rr)) = length msg"
  shows "safe (A_unpack rr msg off) (\<lambda>(v, off'). off \<le> off' \<and> off' \<le> length msg)"
  unfolding A_unpack_def Let_def using assms
  by (intro safe_fields safe_eom) simp_all

lemma AAAA_unpack_safe:
  assumes "off \<le> length msg" and "off + unat (Hdr_Rdlength (AAAA_Hdr rr)) = length msg"
  shows "safe (AAAA_unpack rr msg off) (\<lambda>(v, off'). off \<le> off' \<and> off' \<le> length msg)"
  unfolding AAAA_unpack_def Let_def using assms
  by (intro safe_fields safe_eom) simp_all

lemma AFSDB_unpack_safe:
  assumes "off \<le> length msg" and "off + unat (Hdr_Rdlength (AFSDB_Hdr rr)) = length msg"
  shows "safe (AFSDB_unpack rr msg off) (\<lambda>(v, off'). off \<le> off' \<and> off' \<le> length msg)"
  unfolding AFSDB_unpack_def Let_def using assms
  by (intro safe_fields safe_eom) simp_all

lemma AMTRELAY_unpack_safe:
  assumes "off \<le> length msg" and "off + unat (Hdr_Rdlength (AMTRELAY_Hdr rr)) = length msg"
  shows "safe (AMTRELAY_unpack rr msg off) (\<lambda>(v, off'). off \<le> off' \<and> off' \<le> length msg)"
  unfolding AMTRELAY_unpack_def Let_def using assms
  by (intro safe_fields safe_eom) simp_all

lemma ANY_unpack_safe:
  assumes "off \<le> length msg" and "off + unat (Hdr_Rdlength (ANY_Hdr rr)) = length msg"
  shows "safe (ANY_unpack rr msg off) (\<lambda>(v, off'). off \<le> off' \<and> off' \<le> length msg)"
  unfolding ANY_unpack_def Let_def using assms
  by simp

lemma APL_unpack_safe:
  assumes "off \<le> length msg" and "off + unat (Hdr_Rdlength (APL_Hdr rr)) = length msg"
  shows "safe (APL_unpack rr msg off) (\<lambda>(v, off'). off \<le> off' \<and> off' \<le> length msg)"
  unfolding APL_unpack_def Let_def using assms
  by (intro safe_fields safe_eom) simp_all

lemma AVC_unpack_safe:
  assumes "off \<le> length msg" and "off + unat (Hdr_Rdlength (AVC_Hdr rr)) = length msg"
  shows "safe (AVC_unpack rr msg off) (\<lambda>(v, off'). off \<le> off' \<and> off' \<le> length msg)"
  unfolding AVC_unpack_def Let_def using assms
  by (intro safe_fields safe_eom) simp_all

lemma CAA_unpack_safe:
  assumes "off \<le> length msg" and "off + unat (Hdr_Rdlength (CAA_Hdr rr)) = length msg"
  shows "safe (CAA_unpack rr msg off) (\<lambda>(v, off'). off \<le> off' \<and> off' \<le> length msg)"
  unfolding CAA_unpack_def Let_def using assms
  by (intro safe_fields safe_eom) simp_all

lemma CDNSKEY_unpack_safe:
  assumes "off \<le> length msg" and "off + unat (Hdr_Rdlength (DNSKEY_Hdr rr)) = length msg"
  shows "safe (CDNSKEY_unpack rr msg off) (\<lambda>(v, off'). off \<le> off' \<and> off' \<le> length msg)"
  unfolding CDNSKEY_unpack_def Let_def using assms
  by (intro safe_fields safe_eom) simp_all

lemma CDS_unpack_safe:
  assumes "off \<le> length msg" and "off + unat (Hdr_Rdlength (DS_Hdr rr)) = length msg"
  shows "safe (CDS_unpack rr msg off) (\<lambda>(v, off'). off \<le> off' \<and> off' \<le> length msg)"
  unfolding CDS_unpack_def Let_def using assms
  by (intro safe_fields safe_eom) simp_all

lemma CERT_unpack_safe:
  assumes "off \<le> length msg" and "off + unat (Hdr_Rdlength (CERT_Hdr rr)) = length msg"
  shows "safe (CERT_unpack rr msg off) (\<lambda>(v, off'). off \<le> off' \<and> off' \<le> length msg)"
  unfolding CERT_unpack_def Let_def using assms
  by (intro safe_fields safe_eom) simp_all

lemma CNAME_unpack_safe:
  assumes "off \<le> length msg" and "off + unat (Hdr_Rdlength (CNAME_Hdr rr)) = length msg"
  shows "safe (CNAME_unpack rr msg off) (\<lambda>(v, off'). off \<le> off' \<and> off' \<le> length msg)"
  unfolding CNAME_unpack_def Let_def using assms
  by (intro safe_fields safe_eom) simp_all

lemma CSYNC_unpack_safe:
  assumes "off \<le> length msg" and "off + unat (Hdr_Rdlength (CSYNC_Hdr rr)) = length msg"
  shows "safe (CSYNC_unpack rr msg off) (\<lambda>(v, off'). off \<le> off' \<and> off' \<le> length msg)"
  unfolding CSYNC_unpack_def Let_def using assms
  by (intro safe_fields safe_eom) simp_all

lemma DHCID_unpack_safe:
  assumes "off \<le> length msg" and "off + unat (Hdr_Rdlength (DHCID_Hdr rr)) = length msg"
  shows "safe (DHCID_unpack rr msg off) (\<lambda>(v, off'). off \<le> off' \<and> off' \<le> length msg)"
  unfolding DHCID_unpack_def Let_def using assms
  by (intro safe_fields safe_eom) simp_all

lemma DLV_unpack_safe:
  assumes "off \<le> length msg" and "off + unat (Hdr_Rdlength (DS_Hdr rr)) = length msg"
  shows "safe (DLV_unpack rr msg off) (\<lambda>(v, off'). off \<le> off' \<and> off' \<le> length msg)"
  unfolding DLV_unpack_def Let_def using assms
  by (intro safe_fields safe_eom) simp_all

lemma DNAME_unpack_safe:
  assumes "off \<le> length msg" and "off + unat (Hdr_Rdlength (DNAME_Hdr rr)) = length msg"
  shows "safe (DNAME_unpack rr msg off) (\<lambda>(v, off'). off \<le> off' \<and> off' \<le> length msg)"
  unfolding DNAME_unpack_def Let_def using assms
  by (intro safe_fields safe_eom) simp_all

lemma DNSKEY_unpack_safe:
  assumes "off \<le> length msg" and "off + unat (Hdr_Rdlength (DNSKEY_Hdr rr)) = length msg"
  shows "safe (DNSKEY_unpack rr msg off) (\<lambda>(v, off'). off \<le> off' \<and> off' \<le> length msg)"
  unfolding DNSKEY_unpack_def Let_def using assms
  by (intro safe_fields safe_eom) simp_all

lemma DS_unpack_safe:
  assumes "off \<le> length msg" and "off + unat (Hdr_Rdlength (DS_Hdr rr)) = length msg"
  shows "safe (DS_unpack rr msg off) (\<lambda>(v, off'). off \<le> off' \<and> off' \<le> length msg)"
  unfolding DS_unpack_def Let_def using assms
  by (intro safe_fields safe_eom) simp_all

lemma EID_unpack_safe:
  assumes "off \<le> length msg" and "off + unat (Hdr_Rdlength (EID_Hdr rr)) = length msg"
  shows "safe (EID_unpack rr msg off) (\<lambda>(v, off'). off \<le> off' \<and> off' \<le> length msg)"
  unfolding EID_unpack_def Let_def using assms
  by (intro safe_fields safe_eom) simp_all

lemma EUI48_unpack_safe:
  assumes "off \<le> length msg" and "off + unat (Hdr_Rdlength (EUI48_Hdr rr)) = length msg"
  shows "safe (EUI48_unpack rr msg off) (\<lambda>(v, off'). off \<le> off' \<and> off' \<le> length msg)"
  unfolding EUI48_unpack_def Let_def using assms
  by (intro safe_fields safe_eom) simp_all

lemma EUI64_unpack_safe:
  assumes "off \<le> length msg" and "off + unat (Hdr_Rdlength (EUI64_Hdr rr)) = length msg"
  shows "safe (EUI64_unpack rr msg off) (\<lambda>(v, off'). off \<le> off' \<and> off' \<le> length msg)"
  unfolding EUI64_unpack_def Let_def using assms
  by (intro safe_fields safe_eom) simp_all

lemma GID_unpack_safe:
  assumes "off \<le> length msg" and "off + unat (Hdr_Rdlength (GID_Hdr rr)) = length msg"
  shows "safe (GID_unpack rr msg off) (\<lambda>(v, off'). off \<le> off' \<and> off' \<le> length msg)"
  unfolding GID_unpack_def Let_def using assms
  by (intro safe_fields safe_eom) simp_all

lemma GPOS_unpack_safe:
  assumes "off \<le> length msg" and "off + unat (Hdr_Rdlength (GPOS_Hdr rr)) = length msg"
  shows "safe (GPOS_unpack rr msg off) (\<lambda>(v, off'). off \<le> off' \<and> off' \<le> length msg)"
  unfolding GPOS_unpack_def Let_def using assms
  by (intro safe_fields safe_eom) simp_all

lemma HINFO_unpack_safe:
  assumes "off \<le> length msg" and "off + unat (Hdr_Rdlength (HINFO_Hdr rr)) = length msg"
  shows "safe (HINFO_unpack rr msg off) (\<lambda>(v, off'). off \<le> off' \<and> off' \<le> length msg)"
  unfolding HINFO_unpack_def Let_def using assms
  by (intro safe_fields safe_eom) simp_all

lemma HIP_unpack_safe:
  assumes "off \<le> length msg" and "off + unat (Hdr_Rdlength (HIP_Hdr rr)) = length msg"
  shows "safe (HIP_unpack rr msg off) (\<lambda>(v, off'). off \<le> off' \<and> off' \<le> length msg)"
  unfolding HIP_unpack_def Let_def using assms
  by (intro safe_fields safe_eom) simp_all

lemma HTTPS_unpack_safe:
  assumes "off \<le> length msg" and "off + unat (Hdr_Rdlength (SVCB_Hdr rr)) = length msg"
  shows "safe (HTTPS_unpack rr msg off) (\<lambda>(v, off'). off \<le> off' \<and> off' \<le> length msg)"
  unfolding HTTPS_unpack_def Let_def using assms
  by (intro safe_fields safe_eom) simp_all

lemma IPSECKEY_unpack_safe:
  assumes "off \<le> length msg" and "off + unat (Hdr_Rdlength (IPSECKEY_Hdr rr)) = length msg"
  shows "safe (IPSECKEY_unpack rr msg off) (\<lambda>(v, off'). off \<le> off' \<and> off' \<le> length msg)"
  unfolding IPSECKEY_unpack_def Let_def using assms
  by (intro safe_fields safe_eom) simp_all

lemma ISDN_unpack_safe:
  assumes "off \<le> length msg" and "off + unat (Hdr_Rdlength (ISDN_Hdr rr)) = length msg"
  shows "safe (ISDN_unpack rr msg off) (\<lambda>(v, off'). off \<le> off' \<and> off' \<le> length msg)"
  unfolding ISDN_unpack_def Let_def using assms
  by (intro safe_fields safe_eom) simp_all

lemma KEY_unpack_safe:
  assumes "off \<le> length msg" and "off + unat (Hdr_Rdlength (DNSKEY_Hdr rr)) = length msg"
  shows "safe (KEY_unpack rr msg off) (\<lambda>(v, off'). off \<le> off' \<and> off' \<le> length msg)"
  unfolding KEY_unpack_def Let_def using assms
  by (intro safe_fields safe_eom) simp_all

lemma KX_unpack_safe:
  assumes "off \<le> length msg" and "off + unat (Hdr_Rdlength (KX_Hdr rr)) = length msg"
  shows "safe (KX_unpack rr msg off) (\<lambda>(v, off'). off \<le> off' \<and> off' \<le> length msg)"
  unfolding KX_unpack_def Let_def using assms
  by (intro safe_fields safe_eom) simp_all

lemma L32_unpack_safe:
  assumes "off \<le> length msg" and "off + unat (Hdr_Rdlength (L32_Hdr rr)) = length msg"
  shows "safe (L32_unpack rr msg off) (\<lambda>(v, off'). off \<le> off' \<and> off' \<le> length msg)"
  unfolding L32_unpack_def Let_def using assms
  by (intro safe_fields safe_eom) simp_all

lemma L64_unpack_safe:
  assumes "off \<le> length msg" and "off + unat (Hdr_Rdlength (L64_Hdr rr)) = length msg"
  shows "safe (L64_unpack rr msg off) (\<lambda>(v, off'). off \<le> off' \<and> off' \<le> length msg)"
  unfolding L64_unpack_def Let_def using assms
  by (intro safe_fields safe_eom) simp_all

lemma LOC_unpack_safe:
  assumes "off \<le> length msg" and "off + unat (Hdr_Rdlength (LOC_Hdr rr)) = length msg"
  shows "safe (LOC_unpack rr msg off) (\<lambda>(v, off'). off \<le> off' \<and> off' \<le> length msg)"
  unfolding LOC_unpack_def Let_def using assms
  by (intro safe_fields safe_eom) simp_all

lemma LP_unpack_safe:
  assumes "off \<le> length msg" and "off + unat (Hdr_Rdlength (LP_Hdr rr)) = length msg"
  shows "safe (LP_unpack rr msg off) (\<lambda>(v, off'). off \<le> off' \<and> off' \<le> length msg)"
  unfolding LP_unpack_def Let_def using assms
  by (intro safe_fields safe_eom) simp_all

lemma MB_unpack_safe:
  assumes "off \<le> length msg" and "off + unat (Hdr_Rdlength (MB_Hdr rr)) = length msg"
  shows "safe (MB_unpack rr msg off) (\<lambda>(v, off'). off \<le> off' \<and> off' \<le> length msg)"
  unfolding MB_unpack_def Let_def using assms
  by (intro safe_fields safe_eom) simp_all

lemma MD_unpack_safe:
  assumes "off \<le> length msg" and "off + unat (Hdr_Rdlength (MD_Hdr rr)) = length msg"
  shows "safe (MD_unpack rr msg off) (\<lambda>(v, off'). off \<le> off' \<and> off' \<le> length msg)"
  unfolding MD_unpack_def Let_def using assms
  by (intro safe_fields safe_eom) simp_all

lemma MF_unpack_safe:
  assumes "off \<le> length msg" and "off + unat (Hdr_Rdlength (MF_Hdr rr)) = length msg"
  shows "safe (MF_unpack rr msg off) (\<lambda>(v, off'). off \<le> off' \<and> off' \<le> length msg)"
  unfolding MF_unpack_def Let_def using assms
  by (intro safe_fields safe_eom) simp_all

lemma MG_unpack_safe:
  assumes "off \<le> length msg" and "off + unat (Hdr_Rdlength (MG_Hdr rr)) = length msg"
  shows "safe (MG_unpack rr msg off) (\<lambda>(v, off'). off \<le> off' \<and> off' \<le> length msg)"
  unfolding MG_unpack_def Let_def using assms
  by (intro safe_fields safe_eom) simp_all

lemma MINFO_unpack_safe:
  assumes "off \<le> length msg" and "off + unat (Hdr_Rdlength (MINFO_Hdr rr)) = length msg"
  shows "safe (MINFO_unpack rr msg off) (\<lambda>(v, off'). off \<le> off' \<and> off' \<le> length msg)"
  unfolding MINFO_unpack_def Let_def using assms
  by (intro safe_fields safe_eom) simp_all

lemma MR_unpack_safe:
  assumes "off \<le> length msg" and "off + unat (Hdr_Rdlength (MR_Hdr rr)) = length msg"
  shows "safe (MR_unpack rr msg off) (\<lambda>(v, off'). off \<le> off' \<and> off' \<le> length msg)"
  unfolding MR_unpack_def Let_def using assms
  by (intro safe_fields safe_eom) simp_all

lemma MX_unpack_safe:
  assumes "off \<le> length msg" and "off + unat (Hdr_Rdlength (MX_Hdr rr)) = length msg"
  shows "safe (MX_unpack rr msg off) (\<lambda>(v, off'). off \<le> off' \<and> off' \<le> length msg)"
  unfolding MX_unpack_def Let_def using assms
  by (intro safe_fields safe_eom) simp_all

lemma NAPTR_unpack_safe:
  assumes "off \<le> length msg" and "off + unat (Hdr_Rdlength (NAPTR_Hdr rr)) = length msg"
  shows "safe (NAPTR_unpack rr msg off) (\<lambda>(v, off'). off \<le> off' \<and> off' \<le> length msg)"
  unfolding NAPTR_unpack_def Let_def using assms
  by (intro safe_fields safe_eom) simp_all

lemma NID_unpack_safe:
  assumes "off \<le> length msg" and "off + unat (Hdr_Rdlength (NID_Hdr rr)) = length msg"
  shows "safe (NID_unpack rr msg off) (\<lambda>(v, off'). off \<le> off' \<and> off' \<le> length msg)"
  unfolding NID_unpack_def Let_def using assms
  by (intro safe_fields safe_eom) simp_all

lemma NIMLOC_unpack_safe:
  assumes "off \<le> length msg" and "off + unat (Hdr_Rdlength (NIMLOC_Hdr rr)) = length msg"
  shows "safe (NIMLOC_unpack rr msg off) (\<lambda>(v, off'). off \<le> off' \<and> off' \<le> length msg)"
  unfolding NIMLOC_unpack_def Let_def using assms
  by (intro safe_fields safe_eom) simp_all

lemma NINFO_unpack_safe:
  assumes "off \<le> length msg" and "off + unat (Hdr_Rdlength (NINFO_Hdr rr)) = length msg"
  shows "safe (NINFO_unpack rr msg off) (\<lambda>(v, off'). off \<le> off' \<and> off' \<le> length msg)"
  unfolding NINFO_unpack_def Let_def using assms
  by (intro safe_fields safe_eom) simp_all

lemma NS_unpack_safe:
  assumes "off \<le> length msg" and "off + unat (Hdr_Rdlength (NS_Hdr rr)) = length msg"
  shows "safe (NS_unpack rr msg off) (\<lambda>(v, off'). off \<le> off' \<and> off' \<le> length msg)"
  unfolding NS_unpack_def Let_def using assms
  by (intro safe_fields safe_eom) simp_all

lemma NSAPPTR_unpack_safe:
  assumes "off \<le> length msg" and "off + unat (Hdr_Rdlength (NSAPPTR_Hdr rr)) = length msg"
  shows "safe (NSAPPTR_unpack rr msg off) (\<lambda>(v, off'). off \<le> off' \<and> off' \<le> length msg)"
  unfolding NSAPPTR_unpack_def Let_def using assms
  by (intro safe_fields safe_eom) simp_all

lemma NSEC_unpack_safe:
  assumes "off \<le> length msg" and "off + unat (Hdr_Rdlength (NSEC_Hdr rr)) = length msg"
  shows "safe (NSEC_unpack rr msg off) (\<lambda>(v, off'). off \<le> off' \<and> off' \<le> length msg)"
  unfolding NSEC_unpack_def Let_def using assms
  by (intro safe_fields safe_eom) simp_all

lemma NSEC3_unpack_safe:
  assumes "off \<le> length msg" and "off + unat (Hdr_Rdlength (NSEC3_Hdr rr)) = length msg"
  shows "safe (NSEC3_unpack rr msg off) (\<lambda>(v, off'). off \<le> off' \<and> off' \<le> length msg)"
  unfolding NSEC3_unpack_def Let_def using assms
  by (intro safe_fields safe_eom) simp_all

lemma NSEC3PARAM_unpack_safe:
  assumes "off \<le> length msg" and "off + unat (Hdr_Rdlength (NSEC3PARAM_Hdr rr)) = length msg"
  shows "safe (NSEC3PARAM_unpack rr msg off) (\<lambda>(v, off'). off \<le> off' \<and> off' \<le> length msg)"
  unfolding NSEC3PARAM_unpack_def Let_def using assms
  by (intro safe_fields safe_eom) simp_all

lemma NULL_unpack_safe:
  assumes "off \<le> length msg" and "off + unat (Hdr_Rdlength (NULL_Hdr rr)) = length msg"
  shows "safe (NULL_unpack rr msg off) (\<lambda>(v, off'). off \<le> off' \<and> off' \<le> length msg)"
  unfolding NULL_unpack_def Let_def using assms
  by (intro safe_fields safe_eom) simp_all

lemma NXNAME_unpack_safe:
  assumes "off \<le> length msg" and "off + unat (Hdr_Rdlength (NXNAME_Hdr rr)) = length msg"
  shows "safe (NXNAME_unpack rr msg off) (\<lambda>(v, off'). off \<le> off' \<and> off' \<le> length msg)"
  unfolding NXNAME_unpack_def Let_def using assms
  by simp

lemma NXT_unpack_safe:
  assumes "off \<le> length msg" and "off + unat (Hdr_Rdlength (NSEC_Hdr rr)) = length msg"
  shows "safe (NXT_unpack rr msg off) (\<lambda>(v, off'). off \<le> off' \<and> off' \<le> length msg)"
  unfolding NXT_unpack_def Let_def using assms
  by (intro safe_fields safe_eom) simp_all

lemma OPENPGPKEY_unpack_safe:
  assumes "off \<le> length msg" and "off + unat (Hdr_Rdlength (OPENPGPKEY_Hdr rr)) = length msg"
  shows "safe (OPENPGPKEY_unpack rr msg off) (\<lambda>(v, off'). off \<le> off' \<and> off' \<le> length msg)"
  unfolding OPENPGPKEY_unpack_def Let_def using assms
  by (intro safe_fields safe_eom) simp_all

lemma OPT_unpack_safe:
  assumes "off \<le> length msg" and "off + unat (Hdr_Rdlength (OPT_Hdr rr)) = length msg"
  shows "safe (OPT_unpack rr msg off) (\<lambda>(v, off'). off \<le> off' \<and> off' \<le> length msg)"
  unfolding OPT_unpack_def Let_def using assms
  by (intro safe_fields safe_eom) simp_all

lemma PTR_unpack_safe:
  assumes "off \<le> length msg" and "off + unat (Hdr_Rdlength (PTR_Hdr rr)) = length msg"
  shows "safe (PTR_unpack rr msg off) (\<lambda>(v, off'). off \<le> off' \<and> off' \<le> length msg)"
  unfolding PTR_unpack_def Let_def using assms
  by (intro safe_fields safe_eom) simp_all

lemma PX_unpack_safe:
  assumes "off \<le> length msg" and "off + unat (Hdr_Rdlength (PX_Hdr rr)) = length msg"
  shows "safe (PX_unpack rr msg off) (\<lambda>(v, off'). off \<le> off' \<and> off' \<le> length msg)"
  unfolding PX_unpack_def Let_def using assms
  by (intro safe_fields safe_eom) simp_all

lemma RESINFO_unpack_safe:
  assumes "off \<le> length msg" and "off + unat (Hdr_Rdlength (RESINFO_Hdr rr)) = length msg"
  shows "safe (RESINFO_unpack rr msg off) (\<lambda>(v, off'). off \<le> off' \<and> off' \<le> length msg)"
  unfolding RESINFO_unpack_def Let_def using assms
  by (intro safe_fields safe_eom) simp_all

lemma RFC3597_unpack_safe:
  assumes "off \<le> length msg" and "off + unat (Hdr_Rdlength (RFC3597_Hdr rr)) = length msg"
  shows "safe (RFC3597_unpack rr msg off) (\<lambda>(v, off'). off \<le> off' \<and> off' \<le> length msg)"
  unfolding RFC3597_unpack_def Let_def using assms
  by (intro safe_fields safe_eom) simp_all

lemma RKEY_unpack_safe:
  assumes "off \<le> length msg" and "off + unat (Hdr_Rdlength (RKEY_Hdr rr)) = length msg"
  shows "safe (RKEY_unpack rr msg off) (\<lambda>(v, off'). off \<le> off' \<and> off' \<le> length msg)"
  unfolding RKEY_unpack_def Let_def using assms
  by (intro safe_fields safe_eom) simp_all

lemma RP_unpack_safe:
  assumes "off \<le> length msg" and "off + unat (Hdr_Rdlength (RP_Hdr rr)) = length msg"
  shows "safe (RP_unpack rr msg off) (\<lambda>(v, off'). off \<le> off' \<and> off' \<le> length msg)"
  unfolding RP_unpack_def Let_def using assms
  by (intro safe_fields safe_eom) simp_all

lemma RRSIG_unpack_safe:
  assumes "off \<le> length msg" and "off + unat (Hdr_Rdlength (RRSIG_Hdr rr)) = length msg"
  shows "safe (RRSIG_unpack rr msg off) (\<lambda>(v, off'). off \<le> off' \<and> off' \<le> length msg)"
  unfolding RRSIG_unpack_def Let_def using assms
  by (intro safe_fields safe_eom) simp_all

lemma RT_unpack_safe:
  assumes "off \<le> length msg" and "off + unat (Hdr_Rdlength (RT_Hdr rr)) = length msg"
  shows "safe (RT_unpack rr msg off) (\<lambda>(v, off'). off \<le> off' \<and> off' \<le> length msg)"
  unfolding RT_unpack_def Let_def using assms
  by (intro safe_fields safe_eom) simp_all

lemma SIG_unpack_safe:
  assumes "off \<le> length msg" and "off + unat (Hdr_Rdlength (RRSIG_Hdr rr)) = length msg"
  shows "safe (SIG_unpack rr msg off) (\<lambda>(v, off'). off \<le> off' \<and> off' \<le> length msg)"
  unfolding SIG_unpack_def Let_def using assms
  by (intro safe_fields safe_eom) simp_all

lemma SMIMEA_unpack_safe:
  assumes "off \<le> length msg" and "off + unat (Hdr_Rdlength (SMIMEA_Hdr rr)) = length msg"
  shows "safe (SMIMEA_unpack rr msg off) (\<lambda>(v, off'). off \<le> off' \<and> off' \<le> length msg)"
  unfolding SMIMEA_unpack_def Let_def using assms
  by (intro safe_fields safe_eom) simp_all

lemma SOA_unpack_safe:
  assumes "off \<le> length msg" and "off + unat (Hdr_Rdlength (SOA_Hdr rr)) = length msg"
  shows "safe (SOA_unpack rr msg off) (\<lambda>(v, off'). off \<le> off' \<and> off' \<le> length msg)"
  unfolding SOA_unpack_def Let_def using assms
  by (intro safe_fields safe_eom) simp_all

lemma SPF_unpack_safe:
  assumes "off \<le> length msg" and "off + unat (Hdr_Rdlength (SPF_Hdr rr)) = length msg"
  shows "safe (SPF_unpack rr msg off) (\<lambda>(v, off'). off \<le> off' \<and> off' \<le> length msg)"
  unfolding SPF_unpack_def Let_def using assms
  by (intro safe_fields safe_eom) simp_all

lemma SRV_unpack_safe:
  assumes "off \<le> length msg" and "off + unat (Hdr_Rdlength (SRV_Hdr rr)) = length msg"
  shows "safe (SRV_unpack rr msg off) (\<lambda>(v, off'). off \<le> off' \<and> off' \<le> length msg)"
  unfolding SRV_unpack_def Let_def using assms
  by (intro safe_fields safe_eom) simp_all

lemma SSHFP_unpack_safe:
  assumes "off \<le> length msg" and "off + unat (Hdr_Rdlength (SSHFP_Hdr rr)) = length msg"
  shows "safe (SSHFP_unpack rr msg off) (\<lambda>(v, off'). off \<le> off' \<and> off' \<le> length msg)"
  unfolding SSHFP_unpack_def Let_def using assms
  by (intro safe_fields safe_eom) simp_all

lemma SVCB_unpack_safe:
  assumes "off \<le> length msg" and "off + unat (Hdr_Rdlength (SVCB_Hdr rr)) = length msg"
  shows "safe (SVCB_unpack rr msg off) (\<lambda>(v, off'). off \<le> off' \<and> off' \<le> length msg)"
  unfolding SVCB_unpack_def Let_def using assms
  by (intro safe_fields safe_eom) simp_all

lemma TA_unpack_safe:
  assumes "off \<le> length msg" and "off + unat (Hdr_Rdlength (TA_Hdr rr)) = length msg"
  shows "safe (TA_unpack rr msg off) (\<lambda>(v, off'). off \<le> off' \<and> off' \<le> length msg)"
  unfolding TA_unpack_def Let_def using assms
  by (intro safe_fields safe_eom) simp_all

lemma TALINK_unpack_safe:
  assumes "off \<le> length msg" and "off + unat (Hdr_Rdlength (TALINK_Hdr rr)) = length msg"
  shows "safe (TALINK_unpack rr msg off) (\<lambda>(v, off'). off \<le> off' \<and> off' \<le> length msg)"
  unfolding TALINK_unpack_def Let_def using assms
  by (intro safe_fields safe_eom) simp_all

lemma TKEY_unpack_safe:
  assumes "off \<le> length msg" and "off + unat (Hdr_Rdlength (TKEY_Hdr rr)) = length msg"
  shows "safe (TKEY_unpack rr msg off) (\<lambda>(v, off'). off \<le> off' \<and> off' \<le> length msg)"
  unfolding TKEY_unpack_def Let_def using assms
  by (intro safe_fields safe_eom) simp_all

lemma TLSA_unpack_safe:
  assumes "off \<le> length msg" and "off + unat (Hdr_Rdlength (TLSA_Hdr rr)) = length msg"
  shows "safe (TLSA_unpack rr msg off) (\<lambda>(v, off'). off \<le> off' \<and> off' \<le> length msg)"
  unfolding TLSA_unpack_def Let_def using assms
  by (intro safe_fields safe_eom) simp_all

lemma TSIG_unpack_safe:
  assumes "off \<le> length msg" and "off + unat (Hdr_Rdlength (TSIG_Hdr rr)) = length msg"
  shows "safe (TSIG_unpack rr msg off) (\<lambda>(v, off'). off \<le> off' \<and> off' \<le> length msg)"
  unfolding TSIG_unpack_def Let_def using assms
  by (intro safe_fields safe_eom) simp_all

lemma TXT_unpack_safe:
  assumes "off \<le> length msg" and "off + unat (Hdr_Rdlength (TXT_Hdr rr)) = length msg"
  shows "safe (TXT_unpack rr msg off) (\<lambda>(v, off'). off \<le> off' \<and> off' \<le> length msg)"
  unfolding TXT_unpack_def Let_def using assms
  by (intro safe_fields safe_eom) simp_all

lemma UID_unpack_safe:
  assumes "off \<le> length msg" and "off + unat (Hdr_Rdlength (UID_Hdr rr)) = length msg"
  shows "safe (UID_unpack rr msg off) (\<lambda>(v, off'). off \<le> off' \<and> off' \<le> length msg)"
  unfolding UID_unpack_def Let_def using assms
  by (intro safe_fields safe_eom) simp_all

lemma UINFO_unpack_safe:
  assumes "off \<le> length msg" and "off + unat (Hdr_Rdlength (UINFO_Hdr rr)) = length msg"
  shows "safe (UINFO_unpack rr msg off) (\<lambda>(v, off'). off \<le> off' \<and> off' \<le> length msg)"
  unfolding UINFO_unpack_def Let_def using assms
  by (intro safe_fields safe_eom) simp_all

lemma URI_unpack_safe:
  assumes "off \<le> length msg" and "off + unat (Hdr_Rdlength (URI_Hdr rr)) = length msg"
  shows "safe (URI_unpack rr msg off) (\<lambda>(v, off'). off \<le> off' \<and> off' \<le> length msg)"
  unfolding URI_unpack_def Let_def using assms
  by (intro safe_fields safe_eom) simp_all

lemma X25_unpack_safe:
  assumes "off \<le> length msg" and "off + unat (Hdr_Rdlength (X25_Hdr rr)) = length msg"
  shows "safe (X25_unpack rr msg off) (\<lambda>(v, off'). off \<le> off' \<and> off' \<le> length msg)"
  unfolding X25_unpack_def Let_def using assms
  by (intro safe_fields safe_eom) simp_all

lemma ZONEMD_unpack_safe:
  assumes "off \<le> length msg" and "off + unat (Hdr_Rdlength (ZONEMD_Hdr rr)) = length msg"
  shows "safe (ZONEMD_unpack rr msg off) (\<lambda>(v, off'). off \<le> off' \<and> off' \<le> length msg)"
  unfolding ZONEMD_unpack_def Let_def using assms
  by (intro safe_fields safe_eom) simp_all

subsection \<open>Packing does not panic\<close>

lemma A_pack_safe: "A_pack rr msg off cm compress \<noteq> Panic"
  by (auto simp: A_pack_def bindR_eq_Panic pack_safes)

lemma AAAA_pack_safe: "AAAA_pack rr msg off cm compress \<noteq> Panic"
  by (auto simp: AAAA_pack_def bindR_eq_Panic pack_safes)

lemma AFSDB_pack_safe: "AFSDB_pack rr msg off cm compress \<noteq> Panic"
  by (auto simp: AFSDB_pack_def bindR_eq_Panic pack_safes)

lemma AMTRELAY_pack_safe: "AMTRELAY_pack rr msg off cm compress \<noteq> Panic"
  by (auto simp: AMTRELAY_pack_def bindR_eq_Panic pack_safes)

lemma ANY_pack_safe: "ANY_pack rr msg off cm compress \<noteq> Panic"
  by (auto simp: ANY_pack_def bindR_eq_Panic pack_safes)

lemma APL_pack_safe: "APL_pack rr msg off cm compress \<noteq> Panic"
  by (auto simp: APL_pack_def bindR_eq_Panic pack_safes)

lemma AVC_pack_safe: "AVC_pack rr msg off cm compress \<noteq> Panic"
  by (auto simp: AVC_pack_def bindR_eq_Panic pack_safes)

lemma CAA_pack_safe: "CAA_pack rr msg off cm compress \<noteq> Panic"
  by (auto simp: CAA_pack_def bindR_eq_Panic pack_safes)

lemma CDNSKEY_pack_safe: "CDNSKEY_pack rr msg off cm compress \<noteq> Panic"
  by (auto simp: CDNSKEY_pack_def bindR_eq_Panic pack_safes)

lemma CDS_pack_safe: "CDS_pack rr msg off cm compress \<noteq> Panic"
  by (auto simp: CDS_pack_def bindR_eq_Panic pack_safes)

lemma CERT_pack_safe: "CERT_pack rr msg off cm compress \<noteq> Panic"
  by (auto simp: CERT_pack_def bindR_eq_Panic pack_safes)

lemma CNAME_pack_safe: "CNAME_pack rr msg off cm compress \<noteq> Panic"
  by (auto simp: CNAME_pack_def bindR_eq_Panic pack_safes)

lemma CSYNC_pack_safe: "CSYNC_pack rr msg off cm compress \<noteq> Panic"
  by (auto simp: CSYNC_pack_def bindR_eq_Panic pack_safes)

lemma DHCID_pack_safe: "DHCID_pack rr msg off cm compress \<noteq> Panic"
  by (auto simp: DHCID_pack_def bindR_eq_Panic pack_safes)

lemma DLV_pack_safe: "DLV_pack rr msg off cm compress \<noteq> Panic"
  by (auto simp: DLV_pack_def bindR_eq_Panic pack_safes)

lemma DNAME_pack_safe: "DNAME_pack rr msg off cm compress \<noteq> Panic"
  by (auto simp: DNAME_pack_def bindR_eq_Panic pack_safes)

lemma DNSKEY_pack_safe: "DNSKEY_pack rr msg off cm compress \<noteq> Panic"
  by (auto simp: DNSKEY_pack_def bindR_eq_Panic pack_safes)

lemma DS_pack_safe: "DS_pack rr msg off cm compress \<noteq> Panic"
  by (auto simp: DS_pack_def bindR_eq_Panic pack_safes)

lemma EID_pack_safe: "EID_pack rr msg off cm compress \<noteq> Panic"
  by (auto simp: EID_pack_def bindR_eq_Panic pack_safes)

lemma EUI48_pack_safe: "EUI48_pack rr msg off cm compress \<noteq> Panic"
  by (auto simp: EUI48_pack_def bindR_eq_Panic pack_safes)

lemma EUI64_pack_safe: "EUI64_pack rr msg off cm compress \<noteq> Panic"
  by (auto simp: EUI64_pack_def bindR_eq_Panic pack_safes)

lemma GID_pack_safe: "GID_pack rr msg off cm compress \<noteq> Panic"
  by (auto simp: GID_pack_def bindR_eq_Panic pack_safes)

lemma GPOS_pack_safe: "GPOS_pack rr msg off cm compress \<noteq> Panic"
  by (auto simp: GPOS_pack_def bindR_eq_Panic pack_safes)

lemma HINFO_pack_safe: "HINFO_pack rr msg off cm compress \<noteq> Panic"
  by (auto simp: HINFO_pack_def bindR_eq_Panic pack_safes)

lemma HIP_pack_safe: "HIP_pack rr msg off cm compress \<noteq> Panic"
  by (auto simp: HIP_pack_def bindR_eq_Panic pack_safes)

lemma HTTPS_pack_safe: "HTTPS_pack rr msg off cm compress \<noteq> Panic"
  by (auto simp: HTTPS_pack_def bindR_eq_Panic pack_safes)

lemma IPSECKEY_pack_safe: "IPSECKEY_pack rr msg off cm compress \<noteq> Panic"
  by (auto simp: IPSECKEY_pack_def bindR_eq_Panic pack_safes)

lemma ISDN_pack_safe: "ISDN_pack rr msg off cm compress \<noteq> Panic"
  by (auto simp: ISDN_pack_def bindR_eq_Panic pack_safes)

lemma KEY_pack_safe: "KEY_pack rr msg off cm compress \<noteq> Panic"
  by (auto simp: KEY_pack_def bindR_eq_Panic pack_safes)

lemma KX_pack_safe: "KX_pack rr msg off cm compress \<noteq> Panic"
  by (auto simp: KX_pack_def bindR_eq_Panic pack_safes)

lemma L32_pack_safe: "L32_pack rr msg off cm compress \<noteq> Panic"
  by (auto simp: L32_pack_def bindR_eq_Panic pack_safes)

lemma L64_pack_safe: "L64_pack rr msg off cm compress \<noteq> Panic"
  by (auto simp: L64_pack_def bindR_eq_Panic pack_safes)

lemma LOC_pack_safe: "LOC_pack rr msg off cm compress \<noteq> Panic"
  by (auto simp: LOC_pack_def bindR_eq_Panic pack_safes)

lemma LP_pack_safe: "LP_pack rr msg off cm compress \<noteq> Panic"
  by (auto simp: LP_pack_def bindR_eq_Panic pack_safes)

lemma MB_pack_safe: "MB_pack rr msg off cm compress \<noteq> Panic"
  by (auto simp: MB_pack_def bindR_eq_Panic pack_safes)

lemma MD_pack_safe: "MD_pack rr msg off cm compress \<noteq> Panic"
  by (auto simp: MD_pack_def bindR_eq_Panic pack_safes)

lemma MF_pack_safe: "MF_pack rr msg off cm compress \<noteq> Panic"
  by (auto simp: MF_pack_def bindR_eq_Panic pack_safes)

lemma MG_pack_safe: "MG_pack rr msg off cm compress \<noteq> Panic"
  by (auto simp: MG_pack_def bindR_eq_Panic pack_safes)

lemma MINFO_pack_safe: "MINFO_pack rr msg off cm compress \<noteq> Panic"
  by (auto simp: MINFO_pack_def bindR_eq_Panic pack_safes)

lemma MR_pack_safe: "MR_pack rr msg off cm compress \<noteq> Panic"
  by (auto simp: MR_pack_def bindR_eq_Panic pack_safes)

lemma MX_pack_safe: "MX_pack rr msg off cm compress \<noteq> Panic"
  by (auto simp: MX_pack_def bindR_eq_Panic pack_safes)

lemma NAPTR_pack_safe: "NAPTR_pack rr msg off cm compress \<noteq> Panic"
  by (auto simp: NAPTR_pack_def bindR_eq_Panic pack_safes)

lemma NID_pack_safe: "NID_pack rr msg off cm compress \<noteq> Panic"
  by (auto simp: NID_pack_def bindR_eq_Panic pack_safes)

lemma NIMLOC_pack_safe: "NIMLOC_pack rr msg off cm compress \<noteq> Panic"
  by (auto simp: NIMLOC_pack_def bindR_eq_Panic pack_safes)

lemma NINFO_pack_safe: "NINFO_pack rr msg off cm compress \<noteq> Panic"
  by (auto simp: NINFO_pack_def bindR_eq_Panic pack_safes)

lemma NS_pack_safe: "NS_pack rr msg off cm compress \<noteq> Panic"
  by (auto simp: NS_pack_def bindR_eq_Panic pack_safes)

lemma NSAPPTR_pack_safe: "NSAPPTR_pack rr msg off cm compress \<noteq> Panic"
  by (auto simp: NSAPPTR_pack_def bindR_eq_Panic pack_safes)

lemma NSEC_pack_safe: "NSEC_pack rr msg off cm compress \<noteq> Panic"
  by (auto simp: NSEC_pack_def bindR_eq_Panic pack_safes)

lemma NSEC3_pack_safe: "NSEC3_pack rr msg off cm compress \<noteq> Panic"
  by (auto simp: NSEC3_pack_def bindR_eq_Panic pack_safes)

lemma NSEC3PARAM_pack_safe: "NSEC3PARAM_pack rr msg off cm compress \<noteq> Panic"
  by (auto simp: NSEC3PARAM_pack_def bindR_eq_Panic pack_safes)

lemma NULL_pack_safe: "NULL_pack rr msg off cm compress \<noteq> Panic"
  by (auto simp: NULL_pack_def bindR_eq_Panic pack_safes)

lemma NXNAME_pack_safe: "NXNAME_pack rr msg off cm compress \<noteq> Panic"
  by (auto simp: NXNAME_pack_def bindR_eq_Panic pack_safes)

lemma NXT_pack_safe: "NXT_pack rr msg off cm compress \<noteq> Panic"
  by (auto simp: NXT_pack_def bindR_eq_Panic pack_safes)

lemma OPENPGPKEY_pack_safe: "OPENPGPKEY_pack rr msg off cm compress \<noteq> Panic"
  by (auto simp: OPENPGPKEY_pack_def bindR_eq_Panic pack_safes)

lemma OPT_pack_safe: "OPT_pack rr msg off cm compress \<noteq> Panic"
  by (auto simp: OPT_pack_def bindR_eq_Panic pack_safes)

lemma PTR_pack_safe: "PTR_pack rr msg off cm compress \<noteq> Panic"
  by (auto simp: PTR_pack_def bindR_eq_Panic pack_safes)

lemma PX_pack_safe: "PX_pack rr msg off cm compress \<noteq> Panic"
  by (auto simp: PX_pack_def bindR_eq_Panic pack_safes)

lemma RESINFO_pack_safe: "RESINFO_pack rr msg off cm compress \<noteq> Panic"
  by (auto simp: RESINFO_pack_def bindR_eq_Panic pack_safes)

lemma RFC3597_pack_safe: "RFC3597_pack rr msg off cm compress \<noteq> Panic"
  by (auto simp: RFC3597_pack_def bindR_eq_Panic pack_safes)

lemma RKEY_pack_safe: "RKEY_pack rr msg off cm compress \<noteq> Panic"
  by (auto simp: RKEY_pack_def bindR_eq_Panic pack_safes)

lemma RP_pack_safe: "RP_pack rr msg off cm compress \<noteq> Panic"
  by (auto simp: RP_pack_def bindR_eq_Panic pack_safes)

lemma RRSIG_pack_safe: "RRSIG_pack rr msg off cm compress \<noteq> Panic"
  by (auto simp: RRSIG_pack_def bindR_eq_Panic pack_safes)

lemma RT_pack_safe: "RT_pack rr msg off cm compress \<noteq> Panic"
  by (auto simp: RT_pack_def bindR_eq_Panic pack_safes)

lemma SIG_pack_safe: "SIG_pack rr msg off cm compress \<noteq> Panic"
  by (auto simp: SIG_pack_def bindR_eq_Panic pack_safes)

lemma SMIMEA_pack_safe: "SMIMEA_pack rr msg off cm compress \<noteq> Panic"
  by (auto simp: SMIMEA_pack_def bindR_eq_Panic pack_safes)

lemma SOA_pack_safe: "SOA_pack rr msg off cm compress \<noteq> Panic"
  by (auto simp: SOA_pack_def bindR_eq_Panic pack_safes)

lemma SPF_pack_safe: "SPF_pack rr msg off cm compress \<noteq> Panic"
  by (auto simp: SPF_pack_def bindR_eq_Panic pack_safes)

lemma SRV_pack_safe: "SRV_pack rr msg off cm compress \<noteq> Panic"
  by (auto simp: SRV_pack_def bindR_eq_Panic pack_safes)

lemma SSHFP_pack_safe: "SSHFP_pack rr msg off cm compress \<noteq> Panic"
  by (auto simp: SSHFP_pack_def bindR_eq_Panic pack_safes)

lemma SVCB_pack_safe: "SVCB_pack rr msg off cm compress \<noteq> Panic"
  by (auto simp: SVCB_pack_def bindR_eq_Panic pack_safes)

lemma TA_pack_safe: "TA_pack rr msg off cm compress \<noteq> Panic"
  by (auto simp: TA_pack_def bindR_eq_Panic pack_safes)

lemma TALINK_pack_safe: "TALINK_pack rr msg off cm compress \<noteq> Panic"
  by (auto simp: TALINK_pack_def bindR_eq_Panic pack_safes)

lemma TKEY_pack_safe: "TKEY_pack rr msg off cm compress \<noteq> Panic"
  by (auto simp: TKEY_pack_def bindR_eq_Panic pack_safes)

lemma TLSA_pack_safe: "TLSA_pack rr msg off cm compress \<noteq> Panic"
  by (auto simp: TLSA_pack_def bindR_eq_Panic pack_safes)

lemma TSIG_pack_safe: "TSIG_pack rr msg off cm compress \<noteq> Panic"
  by (auto simp: TSIG_pack_def bindR_eq_Panic pack_safes)

lemma TXT_pack_safe: "TXT_pack rr msg off cm compress \<noteq> Panic"
  by (auto simp: TXT_pack_def bindR_eq_Panic pack_safes)

lemma UID_pack_safe: "UID_pack rr msg off cm compress \<noteq> Panic"
  by (auto simp: UID_pack_def bindR_eq_Panic pack_safes)

lemma UINFO_pack_safe: "UINFO_pack rr msg off cm compress \<noteq> Panic"
  by (auto simp: UINFO_pack_def bindR_eq_Panic pack_safes)

lemma URI_pack_safe: "URI_pack rr msg off cm compress \<noteq> Panic"
  by (auto simp: URI_pack_def bindR_eq_Panic pack_safes)

lemma X25_pack_safe: "X25_pack rr msg off cm compress \<noteq> Panic"
  by (auto simp: X25_pack_def bindR_eq_Panic pack_safes)

lemma ZONEMD_pack_safe: "ZONEMD_pack rr msg off cm compress \<noteq> Panic"
  by (auto simp: ZONEMD_pack_def bindR_eq_Panic pack_safes)
subsection \<open>All types\<close>

text \<open>The zero value of the same type, with a header; and the type code of the struct.\<close>

primrec blank :: "RR \<Rightarrow> RR_Header \<Rightarrow> RR" where
  "blank (RR_A rr) h = RR_A (A_new h)"
| "blank (RR_AAAA rr) h = RR_AAAA (AAAA_new h)"
| "blank (RR_AFSDB rr) h = RR_AFSDB (AFSDB_new h)"
| "blank (RR_AMTRELAY rr) h = RR_AMTRELAY (AMTRELAY_new h)"
| "blank (RR_ANY rr) h = RR_ANY (ANY_new h)"
| "blank (RR_APL rr) h = RR_APL (APL_new h)"
| "blank (RR_AVC rr) h = RR_AVC (AVC_new h)"
| "blank (RR_CAA rr) h = RR_CAA (CAA_new h)"
| "blank (RR_CDNSKEY rr) h = RR_CDNSKEY (DNSKEY_new h)"
| "blank (RR_CDS rr) h = RR_CDS (DS_new h)"
| "blank (RR_CERT rr) h = RR_CERT (CERT_new h)"
| "blank (RR_CNAME rr) h = RR_CNAME (CNAME_new h)"
| "blank (RR_CSYNC rr) h = RR_CSYNC (CSYNC_new h)"
| "blank (RR_DHCID rr) h = RR_DHCID (DHCID_new h)"
| "blank (RR_DLV rr) h = RR_DLV (DS_new h)"
| "blank (RR_DNAME rr) h = RR_DNAME (DNAME_new h)"
| "blank (RR_DNSKEY rr) h = RR_DNSKEY (DNSKEY_new h)"
| "blank (RR_DS rr) h = RR_DS (DS_new h)"
| "blank (RR_EID rr) h = RR_EID (EID_new h)"
| "blank (RR_EUI48 rr) h = RR_EUI48 (EUI48_new h)"
| "blank (RR_EUI64 rr) h = RR_EUI64 (EUI64_new h)"
| "blank (RR_GID rr) h = RR_GID (GID_new h)"
| "blank (RR_GPOS rr) h = RR_GPOS (GPOS_new h)"
| "blank (RR_HINFO rr) h = RR_HINFO (HINFO_new h)"
| "blank (RR_HIP rr) h = RR_HIP (HIP_new h)"
| "blank (RR_HTTPS rr) h = RR_HTTPS (SVCB_new h)"
| "blank (RR_IPSECKEY rr) h = RR_IPSECKEY (IPSECKEY_new h)"
| "blank (RR_ISDN rr) h = RR_ISDN (ISDN_new h)"
| "blank (RR_KEY rr) h = RR_KEY (DNSKEY_new h)"
| "blank (RR_KX rr) h = RR_KX (KX_new h)"
| "blank (RR_L32 rr) h = RR_L32 (L32_new h)"
| "blank (RR_L64 rr) h = RR_L64 (L64_new h)"
| "blank (RR_LOC rr) h = RR_LOC (LOC_new h)"
| "blank (RR_LP rr) h = RR_LP (LP_new h)"
| "blank (RR_MB rr) h = RR_MB (MB_new h)"
| "blank (RR_MD rr) h = RR_MD (MD_new h)"
| "blank (RR_MF rr) h = RR_MF (MF_new h)"
| "blank (RR_MG rr) h = RR_MG (MG_new h)"
| "blank (RR_MINFO rr) h = RR_MINFO (MINFO_new h)"
| "blank (RR_MR rr) h = RR_MR (MR_new h)"
| "blank (RR_MX rr) h = RR_MX (MX_new h)"
| "blank (RR_NAPTR rr) h = RR_NAPTR (NAPTR_new h)"
| "blank (RR_NID rr) h = RR_NID (NID_new h)"
| "blank (RR_NIMLOC rr) h = RR_NIMLOC (NIMLOC_new h)"
| "blank (RR_NINFO rr) h = RR_NINFO (NINFO_new h)"
| "blank (RR_NS rr) h = RR_NS (NS_new h)"
| "blank (RR_NSAPPTR rr) h = RR_NSAPPTR (NSAPPTR_new h)"
| "blank (RR_NSEC rr) h = RR_NSEC (NSEC_new h)"
| "blank (RR_NSEC3 rr) h = RR_NSEC3 (NSEC3_new h)"
| "blank (RR_NSEC3PARAM rr) h = RR_NSEC3PARAM (NSEC3PARAM_new h)"
| "blank (RR_NULL rr) h = RR_NULL (NULL_new h)"
| "blank (RR_NXNAME rr) h = RR_NXNAME (NXNAME_new h)"
| "blank (RR_NXT rr) h = RR_NXT (NSEC_new h)"
| "blank (RR_OPENPGPKEY rr) h = RR_OPENPGPKEY (OPENPGPKEY_new h)"
| "blank (RR_OPT rr) h = RR_OPT (OPT_new h)"
| "blank (RR_PTR rr) h = RR_PTR (PTR_new h)"
| "blank (RR_PX rr) h = RR_PX (PX_new h)"
| "blank (RR_RESINFO rr) h = RR_RESINFO (RESINFO_new h)"
| "blank (RR_RFC3597 rr) h = RR_RFC3597 (RFC3597_new h)"
| "blank (RR_RKEY rr) h = RR_RKEY (RKEY_new h)"
| "blank (RR_RP rr) h = RR_RP (RP_new h)"
| "blank (RR_RRSIG rr) h = RR_RRSIG (RRSIG_new h)"
| "blank (RR_RT rr) h = RR_RT (RT_new h)"
| "blank (RR_SIG rr) h = RR_SIG (RRSIG_new h)"
| "blank (RR_SMIMEA rr) h = RR_SMIMEA (SMIMEA_new h)"
| "blank (RR_SOA rr) h = RR_SOA (SOA_new h)"
| "blank (RR_SPF rr) h = RR_SPF (SPF_new h)"
| "blank (RR_SRV rr) h = RR_SRV (SRV_new h)"
| "blank (RR_SSHFP rr) h = RR_SSHFP (SSHFP_new h)"
| "blank (RR_SVCB rr) h = RR_SVCB (SVCB_new h)"
| "blank (RR_TA rr) h = RR_TA (TA_new h)"
| "blank (RR_TALINK rr) h = RR_TALINK (TALINK_new h)"
| "blank (RR_TKEY rr) h = RR_TKEY (TKEY_new h)"
| "blank (RR_TLSA rr) h = RR_TLSA (TLSA_new h)"
| "blank (RR_TSIG rr) h = RR_TSIG (TSIG_new h)"
| "blank (RR_TXT rr) h = RR_TXT (TXT_new h)"
| "blank (RR_UID rr) h = RR_UID (UID_new h)"
| "blank (RR_UINFO rr) h = RR_UINFO (UINFO_new h)"
| "blank (RR_URI rr) h = RR_URI (URI_new h)"
| "blank (RR_X25 rr) h = RR_X25 (X25_new h)"
| "blank (RR_ZONEMD rr) h = RR_ZONEMD (ZONEMD_new h)"

primrec rr_type :: "RR \<Rightarrow> u16 option" where
  "rr_type (RR_A rr) = Some TypeA"
| "rr_type (RR_AAAA rr) = Some TypeAAAA"
| "rr_type (RR_AFSDB rr) = Some TypeAFSDB"
| "rr_type (RR_AMTRELAY rr) = Some TypeAMTRELAY"
| "rr_type (RR_ANY rr) = Some TypeANY"
| "rr_type (RR_APL rr) = Some TypeAPL"
| "rr_type (RR_AVC rr) = Some TypeAVC"
| "rr_type (RR_CAA rr) = Some TypeCAA"
| "rr_type (RR_CDNSKEY rr) = Some TypeCDNSKEY"
| "rr_type (RR_CDS rr) = Some TypeCDS"
| "rr_type (RR_CERT rr) = Some TypeCERT"
| "rr_type (RR_CNAME rr) = Some TypeCNAME"
| "rr_type (RR_CSYNC rr) = Some TypeCSYNC"
| "rr_type (RR_DHCID rr) = Some TypeDHCID"
| "rr_type (RR_DLV rr) = Some TypeDLV"
| "rr_type (RR_DNAME rr) = Some TypeDNAME"
| "rr_type (RR_DNSKEY rr) = Some TypeDNSKEY"
| "rr_type (RR_DS rr) = Some TypeDS"
| "rr_type (RR_EID rr) = Some TypeEID"
| "rr_type (RR_EUI48 rr) = Some TypeEUI48"
| "rr_type (RR_EUI64 rr) = Some TypeEUI64"
| "rr_type (RR_GID rr) = Some TypeGID"
| "rr_type (RR_GPOS rr) = Some TypeGPOS"
| "rr_type (RR_HINFO rr) = Some TypeHINFO"
| "rr_type (RR_HIP rr) = Some TypeHIP"
| "rr_type (RR_HTTPS rr) = Some TypeHTTPS"
| "rr_type (RR_IPSECKEY rr) = Some TypeIPSECKEY"
| "rr_type (RR_ISDN rr) = Some TypeISDN"
| "rr_type (RR_KEY rr) = Some TypeKEY"
| "rr_type (RR_KX rr) = Some TypeKX"
| "rr_type (RR_L32 rr) = Some TypeL32"
| "rr_type (RR_L64 rr) = Some TypeL64"
| "rr_type (RR_LOC rr) = Some TypeLOC"
| "rr_type (RR_LP rr) = Some TypeLP"
| "rr_type (RR_MB rr) = Some TypeMB"
| "rr_type (RR_MD rr) = Some TypeMD"
| "rr_type (RR_MF rr) = Some TypeMF"
| "rr_type (RR_MG rr) = Some TypeMG"
| "rr_type (RR_MINFO rr) = Some TypeMINFO"
| "rr_type (RR_MR rr) = Some TypeMR"
| "rr_type (RR_MX rr) = Some TypeMX"
| "rr_type (RR_NAPTR rr) = Some TypeNAPTR"
| "rr_type (RR_NID rr) = Some TypeNID"
| "rr_type (RR_NIMLOC rr) = Some TypeNIMLOC"
| "rr_type (RR_NINFO rr) = Some TypeNINFO"
| "rr_type (RR_NS rr) = Some TypeNS"
| "rr_type (RR_NSAPPTR rr) = Some TypeNSAPPTR"
| "rr_type (RR_NSEC rr) = Some TypeNSEC"
| "rr_type (RR_NSEC3 rr) = Some TypeNSEC3"
| "rr_type (RR_NSEC3PARAM rr) = Some TypeNSEC3PARAM"
| "rr_type (RR_NULL rr) = Some TypeNULL"
| "rr_type (RR_NXNAME rr) = Some TypeNXNAME"
| "rr_type (RR_NXT rr) = Some TypeNXT"
| "rr_type (RR_OPENPGPKEY rr) = Some TypeOPENPGPKEY"
| "rr_type (RR_OPT rr) = Some TypeOPT"
| "rr_type (RR_PTR rr) = Some TypePTR"
| "rr_type (RR_PX rr) = Some TypePX"
| "rr_type (RR_RESINFO rr) = Some TypeRESINFO"
| "rr_type (RR_RFC3597 rr) = None"
| "rr_type (RR_RKEY rr) = Some TypeRKEY"
| "rr_type (RR_RP rr) = Some TypeRP"
| "rr_type (RR_RRSIG rr) = Some TypeRRSIG"
| "rr_type (RR_RT rr) = Some TypeRT"
| "rr_type (RR_SIG rr) = Some TypeSIG"
| "rr_type (RR_SMIMEA rr) = Some TypeSMIMEA"
| "rr_type (RR_SOA rr) = Some TypeSOA"
| "rr_type (RR_SPF rr) = Some TypeSPF"
| "rr_type (RR_SRV rr) = Some TypeSRV"
| "rr_type (RR_SSHFP rr) = Some TypeSSHFP"
| "rr_type (RR_SVCB rr) = Some TypeSVCB"
| "rr_type (RR_TA rr) = Some TypeTA"
| "rr_type (RR_TALINK rr) = Some TypeTALINK"
| "rr_type (RR_TKEY rr) = Some TypeTKEY"
| "rr_type (RR_TLSA rr) = Some TypeTLSA"
| "rr_type (RR_TSIG rr) = Some TypeTSIG"
| "rr_type (RR_TXT rr) = Some TypeTXT"
| "rr_type (RR_UID rr) = Some TypeUID"
| "rr_type (RR_UINFO rr) = Some TypeUINFO"
| "rr_type (RR_URI rr) = Some TypeURI"
| "rr_type (RR_X25 rr) = Some TypeX25"
| "rr_type (RR_ZONEMD rr) = Some TypeZONEMD"

lemmas all_rt =
  A_rt [THEN rt_weaken, THEN rt_map]
  AAAA_rt [THEN rt_weaken, THEN rt_map]
  AFSDB_rt [THEN rt_weaken, THEN rt_map]
  AMTRELAY_rt [THEN rt_weaken, THEN rt_map]
  ANY_rt [THEN rt_map]
  APL_rt [THEN rt_map]
  AVC_rt [THEN rt_weaken, THEN rt_map]
  CAA_rt [THEN rt_weaken, THEN rt_map]
  CDNSKEY_rt [THEN rt_weaken, THEN rt_map]
  CDS_rt [THEN rt_weaken, THEN rt_map]
  CERT_rt [THEN rt_weaken, THEN rt_map]
  CNAME_rt [THEN rt_weaken, THEN rt_map]
  CSYNC_rt [THEN rt_weaken, THEN rt_map]
  DHCID_rt [THEN rt_map]
  DLV_rt [THEN rt_weaken, THEN rt_map]
  DNAME_rt [THEN rt_weaken, THEN rt_map]
  DNSKEY_rt [THEN rt_weaken, THEN rt_map]
  DS_rt [THEN rt_weaken, THEN rt_map]
  EID_rt [THEN rt_map]
  EUI48_rt [THEN rt_weaken, THEN rt_map]
  EUI64_rt [THEN rt_weaken, THEN rt_map]
  GID_rt [THEN rt_weaken, THEN rt_map]
  GPOS_rt [THEN rt_weaken, THEN rt_map]
  HINFO_rt [THEN rt_weaken, THEN rt_map]
  HIP_rt [THEN rt_weaken, THEN rt_map]
  HTTPS_rt [THEN rt_weaken, THEN rt_map]
  IPSECKEY_rt [THEN rt_weaken, THEN rt_map]
  ISDN_rt [THEN rt_weaken, THEN rt_map]
  KEY_rt [THEN rt_weaken, THEN rt_map]
  KX_rt [THEN rt_weaken, THEN rt_map]
  L32_rt [THEN rt_weaken, THEN rt_map]
  L64_rt [THEN rt_weaken, THEN rt_map]
  LOC_rt [THEN rt_weaken, THEN rt_map]
  LP_rt [THEN rt_weaken, THEN rt_map]
  MB_rt [THEN rt_weaken, THEN rt_map]
  MD_rt [THEN rt_weaken, THEN rt_map]
  MF_rt [THEN rt_weaken, THEN rt_map]
  MG_rt [THEN rt_weaken, THEN rt_map]
  MINFO_rt [THEN rt_weaken, THEN rt_map]
  MR_rt [THEN rt_weaken, THEN rt_map]
  MX_rt [THEN rt_weaken, THEN rt_map]
  NAPTR_rt [THEN rt_weaken, THEN rt_map]
  NID_rt [THEN rt_weaken, THEN rt_map]
  NIMLOC_rt [THEN rt_map]
  NINFO_rt [THEN rt_weaken, THEN rt_map]
  NS_rt [THEN rt_weaken, THEN rt_map]
  NSAPPTR_rt [THEN rt_weaken, THEN rt_map]
  NSEC_rt [THEN rt_weaken, THEN rt_map]
  NSEC3_rt [THEN rt_weaken, THEN rt_map]
  NSEC3PARAM_rt [THEN rt_weaken, THEN rt_map]
  NULL_rt [THEN rt_map]
  NXNAME_rt [THEN rt_map]
  NXT_rt [THEN rt_weaken, THEN rt_map]
  OPENPGPKEY_rt [THEN rt_map]
  OPT_rt [THEN rt_map]
  PTR_rt [THEN rt_weaken, THEN rt_map]
  PX_rt [THEN rt_weaken, THEN rt_map]
  RESINFO_rt [THEN rt_weaken, THEN rt_map]
  RFC3597_rt [THEN rt_map]
  RKEY_rt [THEN rt_weaken, THEN rt_map]
  RP_rt [THEN rt_weaken, THEN rt_map]
  RRSIG_rt [THEN rt_weaken, THEN rt_map]
  RT_rt [THEN rt_weaken, THEN rt_map]
  SIG_rt [THEN rt_weaken, THEN rt_map]
  SMIMEA_rt [THEN rt_weaken, THEN rt_map]
  SOA_rt [THEN rt_weaken, THEN rt_map]
  SPF_rt [THEN rt_weaken, THEN rt_map]
  SRV_rt [THEN rt_weaken, THEN rt_map]
  SSHFP_rt [THEN rt_weaken, THEN rt_map]
  SVCB_rt [THEN rt_weaken, THEN rt_map]
  TA_rt [THEN rt_weaken, THEN rt_map]
  TALINK_rt [THEN rt_weaken, THEN rt_map]
  TKEY_rt [THEN rt_weaken, THEN rt_map]
  TLSA_rt [THEN rt_weaken, THEN rt_map]
  TSIG_rt [THEN rt_weaken, THEN rt_map]
  TXT_rt [THEN rt_weaken, THEN rt_map]
  UID_rt [THEN rt_weaken, THEN rt_map]
  UINFO_rt [THEN rt_weaken, THEN rt_map]
  URI_rt [THEN rt_weaken, THEN rt_map]
  X25_rt [THEN rt_weaken, THEN rt_map]
  ZONEMD_rt [THEN rt_weaken, THEN rt_map]

lemmas all_unpack_safe =
  A_unpack_safe [THEN safe_map]
  AAAA_unpack_safe [THEN safe_map]
  AFSDB_unpack_safe [THEN safe_map]
  AMTRELAY_unpack_safe [THEN safe_map]
  ANY_unpack_safe [THEN safe_map]
  APL_unpack_safe [THEN safe_map]
  AVC_unpack_safe [THEN safe_map]
  CAA_unpack_safe [THEN safe_map]
  CDNSKEY_unpack_safe [THEN safe_map]
  CDS_unpack_safe [THEN safe_map]
  CERT_unpack_safe [THEN safe_map]
  CNAME_unpack_safe [THEN safe_map]
  CSYNC_unpack_safe [THEN safe_map]
  DHCID_unpack_safe [THEN safe_map]
  DLV_unpack_safe [THEN safe_map]
  DNAME_unpack_safe [THEN safe_map]
  DNSKEY_unpack_safe [THEN safe_map]
  DS_unpack_safe [THEN safe_map]
  EID_unpack_safe [THEN safe_map]
  EUI48_unpack_safe [THEN safe_map]
  EUI64_unpack_safe [THEN safe_map]
  GID_unpack_safe [THEN safe_map]
  GPOS_unpack_safe [THEN safe_map]
  HINFO_unpack_safe [THEN safe_map]
  HIP_unpack_safe [THEN safe_map]
  HTTPS_unpack_safe [THEN safe_map]
  IPSECKEY_unpack_safe [THEN safe_map]
  ISDN_unpack_safe [THEN safe_map]
  KEY_unpack_safe [THEN safe_map]
  KX_unpack_safe [THEN safe_map]
  L32_unpack_safe [THEN safe_map]
  L64_unpack_safe [THEN safe_map]
  LOC_unpack_safe [THEN safe_map]
  LP_unpack_safe [THEN safe_map]
  MB_unpack_safe [THEN safe_map]
  MD_unpack_safe [THEN safe_map]
  MF_unpack_safe [THEN safe_map]
  MG_unpack_safe [THEN safe_map]
  MINFO_unpack_safe [THEN safe_map]
  MR_unpack_safe [THEN safe_map]
  MX_unpack_safe [THEN safe_map]
  NAPTR_unpack_safe [THEN safe_map]
  NID_unpack_safe [THEN safe_map]
  NIMLOC_unpack_safe [THEN safe_map]
  NINFO_unpack_safe [THEN safe_map]
  NS_unpack_safe [THEN safe_map]
  NSAPPTR_unpack_safe [THEN safe_map]
  NSEC_unpack_safe [THEN safe_map]
  NSEC3_unpack_safe [THEN safe_map]
  NSEC3PARAM_unpack_safe [THEN safe_map]
  NULL_unpack_safe [THEN safe_map]
  NXNAME_unpack_safe [THEN safe_map]
  NXT_unpack_safe [THEN safe_map]
  OPENPGPKEY_unpack_safe [THEN safe_map]
  OPT_unpack_safe [THEN safe_map]
  PTR_unpack_safe [THEN safe_map]
  PX_unpack_safe [THEN safe_map]
  RESINFO_unpack_safe [THEN safe_map]
  RFC3597_unpack_safe [THEN safe_map]
  RKEY_unpack_safe [THEN safe_map]
  RP_unpack_safe [THEN safe_map]
  RRSIG_unpack_safe [THEN safe_map]
  RT_unpack_safe [THEN safe_map]
  SIG_unpack_safe [THEN safe_map]
  SMIMEA_unpack_safe [THEN safe_map]
  SOA_unpack_safe [THEN safe_map]
  SPF_unpack_safe [THEN safe_map]
  SRV_unpack_safe [THEN safe_map]
  SSHFP_unpack_safe [THEN safe_map]
  SVCB_unpack_safe [THEN safe_map]
  TA_unpack_safe [THEN safe_map]
  TALINK_unpack_safe [THEN safe_map]
  TKEY_unpack_safe [THEN safe_map]
  TLSA_unpack_safe [THEN safe_map]
  TSIG_unpack_safe [THEN safe_map]
  TXT_unpack_safe [THEN safe_map]
  UID_unpack_safe [THEN safe_map]
  UINFO_unpack_safe [THEN safe_map]
  URI_unpack_safe [THEN safe_map]
  X25_unpack_safe [THEN safe_map]
  ZONEMD_unpack_safe [THEN safe_map]

lemmas all_pack_safe =
  A_pack_safe
  AAAA_pack_safe
  AFSDB_pack_safe
  AMTRELAY_pack_safe
  ANY_pack_safe
  APL_pack_safe
  AVC_pack_safe
  CAA_pack_safe
  CDNSKEY_pack_safe
  CDS_pack_safe
  CERT_pack_safe
  CNAME_pack_safe
  CSYNC_pack_safe
  DHCID_pack_safe
  DLV_pack_safe
  DNAME_pack_safe
  DNSKEY_pack_safe
  DS_pack_safe
  EID_pack_safe
  EUI48_pack_safe
  EUI64_pack_safe
  GID_pack_safe
  GPOS_pack_safe
  HINFO_pack_safe
  HIP_pack_safe
  HTTPS_pack_safe
  IPSECKEY_pack_safe
  ISDN_pack_safe
  KEY_pack_safe
  KX_pack_safe
  L32_pack_safe
  L64_pack_safe
  LOC_pack_safe
  LP_pack_safe
  MB_pack_safe
  MD_pack_safe
  MF_pack_safe
  MG_pack_safe
  MINFO_pack_safe
  MR_pack_safe
  MX_pack_safe
  NAPTR_pack_safe
  NID_pack_safe
  NIMLOC_pack_safe
  NINFO_pack_safe
  NS_pack_safe
  NSAPPTR_pack_safe
  NSEC_pack_safe
  NSEC3_pack_safe
  NSEC3PARAM_pack_safe
  NULL_pack_safe
  NXNAME_pack_safe
  NXT_pack_safe
  OPENPGPKEY_pack_safe
  OPT_pack_safe
  PTR_pack_safe
  PX_pack_safe
  RESINFO_pack_safe
  RFC3597_pack_safe
  RKEY_pack_safe
  RP_pack_safe
  RRSIG_pack_safe
  RT_pack_safe
  SIG_pack_safe
  SMIMEA_pack_safe
  SOA_pack_safe
  SPF_pack_safe
  SRV_pack_safe
  SSHFP_pack_safe
  SVCB_pack_safe
  TA_pack_safe
  TALINK_pack_safe
  TKEY_pack_safe
  TLSA_pack_safe
  TSIG_pack_safe
  TXT_pack_safe
  UID_pack_safe
  UINFO_pack_safe
  URI_pack_safe
  X25_pack_safe
  ZONEMD_pack_safe

lemmas all_empty =
  A_empty
  AAAA_empty
  AFSDB_empty
  AMTRELAY_empty
  ANY_empty
  APL_empty
  AVC_empty
  CAA_empty
  CDNSKEY_empty
  CDS_empty
  CERT_empty
  CNAME_empty
  CSYNC_empty
  DHCID_empty
  DLV_empty
  DNAME_empty
  DNSKEY_empty
  DS_empty
  EID_empty
  EUI48_empty
  EUI64_empty
  GID_empty
  GPOS_empty
  HINFO_empty
  HIP_empty
  HTTPS_empty
  IPSECKEY_empty
  ISDN_empty
  KEY_empty
  KX_empty
  L32_empty
  L64_empty
  LOC_empty
  LP_empty
  MB_empty
  MD_empty
  MF_empty
  MG_empty
  MINFO_empty
  MR_empty
  MX_empty
  NAPTR_empty
  NID_empty
  NIMLOC_empty
  NINFO_empty
  NS_empty
  NSAPPTR_empty
  NSEC_empty
  NSEC3_empty
  NSEC3PARAM_empty
  NULL_empty
  NXNAME_empty
  NXT_empty
  OPENPGPKEY_empty
  OPT_empty
  PTR_empty
  PX_empty
  RESINFO_empty
  RFC3597_empty
  RKEY_empty
  RP_empty
  RRSIG_empty
  RT_empty
  SIG_empty
  SMIMEA_empty
  SOA_empty
  SPF_empty
  SRV_empty
  SSHFP_empty
  SVCB_empty
  TA_empty
  TALINK_empty
  TKEY_empty
  TLSA_empty
  TSIG_empty
  TXT_empty
  UID_empty
  UINFO_empty
  URI_empty
  X25_empty
  ZONEMD_empty

lemma rr_pack_rt:
  assumes "rdata_ok rr" and "off + unat (Hdr_Rdlength h) = length M"
  shows "rt False M msg off cm (rr_pack rr msg off cm compress) (rr_unpack (blank rr h) M off) (set_Header h rr)"
  using assms
  by (cases rr) (simp_all only: rr_pack.simps rr_unpack.simps blank.simps set_Header.simps, (rule all_rt; assumption)+)

lemma rr_unpack_within:
  assumes "off \<le> length msg" and "off + unat (Hdr_Rdlength (rr_Header rr)) = length msg"
  shows "safe (rr_unpack rr msg off) (\<lambda>(v, off'). off \<le> off' \<and> off' \<le> length msg)"
  using assms
  by (cases rr) (simp_all only: rr_unpack.simps rr_Header.simps, (rule all_unpack_safe; assumption)+)

lemma rr_pack_not_Panic: "rr_pack rr msg off cm compress \<noteq> Panic"
  by (cases rr) (simp_all only: rr_pack.simps, (rule all_pack_safe)+)

lemma rr_pack_nothing:
  assumes "rdata_ok rr" and "off \<le> length msg" and "cm_sound cm (take off msg)" and "rr_pack rr msg off cm compress = Ok (m, c, off)"
  shows "blank rr h = set_Header h rr"
  using assms
  by (cases rr) (simp_all only: rr_pack.simps blank.simps set_Header.simps, (rule all_empty; assumption)+)

interpretation rdata: rdata_codec rr_pack rr_unpack "\<lambda>rr. unat (Hdr_Rdlength (rr_Header rr))" blank set_Header
  "\<lambda>h. unat (Hdr_Rdlength h)" rdata_ok
  by standard (rule rr_pack_rt rr_pack_nothing rr_unpack_within rr_pack_not_Panic; assumption)+

subsection \<open>A value of the type in the header\<close>

text \<open>
  The start of \<^verbatim>\<open>UnpackRRWithHeader\<close>: the zero value of the type in the header, or of
  \<^verbatim>\<open>RFC3597\<close> for an unknown type.
\<close>

definition newRR :: "RR_Header \<Rightarrow> RR" where
  "newRR h = (case TypeToRR (Hdr_Rrtype h) of Some newFn \<Rightarrow> newFn h | None \<Rightarrow> RR_RFC3597 (RFC3597_new h))"

text \<open>The type code in a header fits the struct.\<close>

definition type_ok :: "RR_Header \<Rightarrow> RR \<Rightarrow> bool" where
  "type_ok h rr \<longleftrightarrow>
     (case rr_type rr of Some t \<Rightarrow> Hdr_Rrtype h = t | None \<Rightarrow> TypeToRR (Hdr_Rrtype h) = None)"

lemma newRR_blank: "type_ok h rr \<Longrightarrow> newRR h = blank rr h"
  by (cases rr) (simp_all add: type_ok_def newRR_def TypeToRR_def)

lemma new_Hdr:
  "A_Hdr (A_new h) = h"
  "AAAA_Hdr (AAAA_new h) = h"
  "AFSDB_Hdr (AFSDB_new h) = h"
  "AMTRELAY_Hdr (AMTRELAY_new h) = h"
  "ANY_Hdr (ANY_new h) = h"
  "APL_Hdr (APL_new h) = h"
  "AVC_Hdr (AVC_new h) = h"
  "CAA_Hdr (CAA_new h) = h"
  "CERT_Hdr (CERT_new h) = h"
  "CNAME_Hdr (CNAME_new h) = h"
  "CSYNC_Hdr (CSYNC_new h) = h"
  "DHCID_Hdr (DHCID_new h) = h"
  "DNAME_Hdr (DNAME_new h) = h"
  "DNSKEY_Hdr (DNSKEY_new h) = h"
  "DS_Hdr (DS_new h) = h"
  "EID_Hdr (EID_new h) = h"
  "EUI48_Hdr (EUI48_new h) = h"
  "EUI64_Hdr (EUI64_new h) = h"
  "GID_Hdr (GID_new h) = h"
  "GPOS_Hdr (GPOS_new h) = h"
  "HINFO_Hdr (HINFO_new h) = h"
  "HIP_Hdr (HIP_new h) = h"
  "IPSECKEY_Hdr (IPSECKEY_new h) = h"
  "ISDN_Hdr (ISDN_new h) = h"
  "KX_Hdr (KX_new h) = h"
  "L32_Hdr (L32_new h) = h"
  "L64_Hdr (L64_new h) = h"
  "LOC_Hdr (LOC_new h) = h"
  "LP_Hdr (LP_new h) = h"
  "MB_Hdr (MB_new h) = h"
  "MD_Hdr (MD_new h) = h"
  "MF_Hdr (MF_new h) = h"
  "MG_Hdr (MG_new h) = h"
  "MINFO_Hdr (MINFO_new h) = h"
  "MR_Hdr (MR_new h) = h"
  "MX_Hdr (MX_new h) = h"
  "NAPTR_Hdr (NAPTR_new h) = h"
  "NID_Hdr (NID_new h) = h"
  "NIMLOC_Hdr (NIMLOC_new h) = h"
  "NINFO_Hdr (NINFO_new h) = h"
  "NS_Hdr (NS_new h) = h"
  "NSAPPTR_Hdr (NSAPPTR_new h) = h"
  "NSEC_Hdr (NSEC_new h) = h"
  "NSEC3_Hdr (NSEC3_new h) = h"
  "NSEC3PARAM_Hdr (NSEC3PARAM_new h) = h"
  "NULL_Hdr (NULL_new h) = h"
  "NXNAME_Hdr (NXNAME_new h) = h"
  "OPENPGPKEY_Hdr (OPENPGPKEY_new h) = h"
  "OPT_Hdr (OPT_new h) = h"
  "PTR_Hdr (PTR_new h) = h"
  "PX_Hdr (PX_new h) = h"
  "RESINFO_Hdr (RESINFO_new h) = h"
  "RFC3597_Hdr (RFC3597_new h) = h"
  "RKEY_Hdr (RKEY_new h) = h"
  "RP_Hdr (RP_new h) = h"
  "RRSIG_Hdr (RRSIG_new h) = h"
  "RT_Hdr (RT_new h) = h"
  "SMIMEA_Hdr (SMIMEA_new h) = h"
  "SOA_Hdr (SOA_new h) = h"
  "SPF_Hdr (SPF_new h) = h"
  "SRV_Hdr (SRV_new h) = h"
  "SSHFP_Hdr (SSHFP_new h) = h"
  "SVCB_Hdr (SVCB_new h) = h"
  "TA_Hdr (TA_new h) = h"
  "TALINK_Hdr (TALINK_new h) = h"
  "TKEY_Hdr (TKEY_new h) = h"
  "TLSA_Hdr (TLSA_new h) = h"
  "TSIG_Hdr (TSIG_new h) = h"
  "TXT_Hdr (TXT_new h) = h"
  "UID_Hdr (UID_new h) = h"
  "UINFO_Hdr (UINFO_new h) = h"
  "URI_Hdr (URI_new h) = h"
  "X25_Hdr (X25_new h) = h"
  "ZONEMD_Hdr (ZONEMD_new h) = h"
  by (simp_all add: A_new_def AAAA_new_def AFSDB_new_def AMTRELAY_new_def ANY_new_def APL_new_def AVC_new_def CAA_new_def CERT_new_def CNAME_new_def CSYNC_new_def DHCID_new_def DNAME_new_def DNSKEY_new_def DS_new_def EID_new_def EUI48_new_def EUI64_new_def GID_new_def GPOS_new_def HINFO_new_def HIP_new_def IPSECKEY_new_def ISDN_new_def KX_new_def L32_new_def L64_new_def LOC_new_def LP_new_def MB_new_def MD_new_def MF_new_def MG_new_def MINFO_new_def MR_new_def MX_new_def NAPTR_new_def NID_new_def NIMLOC_new_def NINFO_new_def NS_new_def NSAPPTR_new_def NSEC_new_def NSEC3_new_def NSEC3PARAM_new_def NULL_new_def NXNAME_new_def OPENPGPKEY_new_def OPT_new_def PTR_new_def PX_new_def RESINFO_new_def RFC3597_new_def RKEY_new_def RP_new_def RRSIG_new_def RT_new_def SMIMEA_new_def SOA_new_def SPF_new_def SRV_new_def SSHFP_new_def SVCB_new_def TA_new_def TALINK_new_def TKEY_new_def TLSA_new_def TSIG_new_def TXT_new_def UID_new_def UINFO_new_def URI_new_def X25_new_def ZONEMD_new_def)

lemma TypeToRR_Header: "TypeToRR t = Some f \<Longrightarrow> rr_Header (f h) = h"
  unfolding TypeToRR_def by (auto simp only: rr_Header.simps new_Hdr option.inject option.distinct split: if_splits)

lemma newRR_Header [simp]: "rr_Header (newRR h) = h"
  using TypeToRR_Header by (auto simp: newRR_def new_Hdr split: option.splits)

subsection \<open>Unpacking keeps the header and the type\<close>

definition keeps :: "('r \<Rightarrow> bool) \<Rightarrow> ('r \<times> nat) off_res \<Rightarrow> bool" where
  "keeps Q U \<longleftrightarrow> (\<forall>r off. U = Ok (r, off) \<longrightarrow> Q r)"

lemma keeps_rules:
  "Q r \<Longrightarrow> keeps Q (Ok (r, off))"
  "(\<And>v off. keeps Q (f v off)) \<Longrightarrow> keeps Q (bindR m (\<lambda>(v, off). f v off))"
  "(\<And>v w off. keeps Q (g v w off)) \<Longrightarrow> keeps Q (bindR m' (\<lambda>((v, w), off). g v w off))"
  "keeps Q U \<Longrightarrow> keeps Q U' \<Longrightarrow> keeps Q (if b then U else U')"
  by (fastforce simp: keeps_def bindR_eq_Ok split: if_splits)+

lemma keepsD: "keeps Q U \<Longrightarrow> U = Ok (r, off) \<Longrightarrow> Q r"
  by (simp add: keeps_def)

lemma A_unpack_Hdr: "keeps (\<lambda>r. A_Hdr r = A_Hdr rr) (A_unpack rr msg off)"
  unfolding A_unpack_def Let_def by (intro keeps_rules) simp_all

lemma AAAA_unpack_Hdr: "keeps (\<lambda>r. AAAA_Hdr r = AAAA_Hdr rr) (AAAA_unpack rr msg off)"
  unfolding AAAA_unpack_def Let_def by (intro keeps_rules) simp_all

lemma AFSDB_unpack_Hdr: "keeps (\<lambda>r. AFSDB_Hdr r = AFSDB_Hdr rr) (AFSDB_unpack rr msg off)"
  unfolding AFSDB_unpack_def Let_def by (intro keeps_rules) simp_all

lemma AMTRELAY_unpack_Hdr: "keeps (\<lambda>r. AMTRELAY_Hdr r = AMTRELAY_Hdr rr) (AMTRELAY_unpack rr msg off)"
  unfolding AMTRELAY_unpack_def Let_def by (intro keeps_rules) simp_all

lemma ANY_unpack_Hdr: "keeps (\<lambda>r. ANY_Hdr r = ANY_Hdr rr) (ANY_unpack rr msg off)"
  unfolding ANY_unpack_def Let_def by (intro keeps_rules) simp_all

lemma APL_unpack_Hdr: "keeps (\<lambda>r. APL_Hdr r = APL_Hdr rr) (APL_unpack rr msg off)"
  unfolding APL_unpack_def Let_def by (intro keeps_rules) simp_all

lemma AVC_unpack_Hdr: "keeps (\<lambda>r. AVC_Hdr r = AVC_Hdr rr) (AVC_unpack rr msg off)"
  unfolding AVC_unpack_def Let_def by (intro keeps_rules) simp_all

lemma CAA_unpack_Hdr: "keeps (\<lambda>r. CAA_Hdr r = CAA_Hdr rr) (CAA_unpack rr msg off)"
  unfolding CAA_unpack_def Let_def by (intro keeps_rules) simp_all

lemma CDNSKEY_unpack_Hdr: "keeps (\<lambda>r. DNSKEY_Hdr r = DNSKEY_Hdr rr) (CDNSKEY_unpack rr msg off)"
  unfolding CDNSKEY_unpack_def Let_def by (intro keeps_rules) simp_all

lemma CDS_unpack_Hdr: "keeps (\<lambda>r. DS_Hdr r = DS_Hdr rr) (CDS_unpack rr msg off)"
  unfolding CDS_unpack_def Let_def by (intro keeps_rules) simp_all

lemma CERT_unpack_Hdr: "keeps (\<lambda>r. CERT_Hdr r = CERT_Hdr rr) (CERT_unpack rr msg off)"
  unfolding CERT_unpack_def Let_def by (intro keeps_rules) simp_all

lemma CNAME_unpack_Hdr: "keeps (\<lambda>r. CNAME_Hdr r = CNAME_Hdr rr) (CNAME_unpack rr msg off)"
  unfolding CNAME_unpack_def Let_def by (intro keeps_rules) simp_all

lemma CSYNC_unpack_Hdr: "keeps (\<lambda>r. CSYNC_Hdr r = CSYNC_Hdr rr) (CSYNC_unpack rr msg off)"
  unfolding CSYNC_unpack_def Let_def by (intro keeps_rules) simp_all

lemma DHCID_unpack_Hdr: "keeps (\<lambda>r. DHCID_Hdr r = DHCID_Hdr rr) (DHCID_unpack rr msg off)"
  unfolding DHCID_unpack_def Let_def by (intro keeps_rules) simp_all

lemma DLV_unpack_Hdr: "keeps (\<lambda>r. DS_Hdr r = DS_Hdr rr) (DLV_unpack rr msg off)"
  unfolding DLV_unpack_def Let_def by (intro keeps_rules) simp_all

lemma DNAME_unpack_Hdr: "keeps (\<lambda>r. DNAME_Hdr r = DNAME_Hdr rr) (DNAME_unpack rr msg off)"
  unfolding DNAME_unpack_def Let_def by (intro keeps_rules) simp_all

lemma DNSKEY_unpack_Hdr: "keeps (\<lambda>r. DNSKEY_Hdr r = DNSKEY_Hdr rr) (DNSKEY_unpack rr msg off)"
  unfolding DNSKEY_unpack_def Let_def by (intro keeps_rules) simp_all

lemma DS_unpack_Hdr: "keeps (\<lambda>r. DS_Hdr r = DS_Hdr rr) (DS_unpack rr msg off)"
  unfolding DS_unpack_def Let_def by (intro keeps_rules) simp_all

lemma EID_unpack_Hdr: "keeps (\<lambda>r. EID_Hdr r = EID_Hdr rr) (EID_unpack rr msg off)"
  unfolding EID_unpack_def Let_def by (intro keeps_rules) simp_all

lemma EUI48_unpack_Hdr: "keeps (\<lambda>r. EUI48_Hdr r = EUI48_Hdr rr) (EUI48_unpack rr msg off)"
  unfolding EUI48_unpack_def Let_def by (intro keeps_rules) simp_all

lemma EUI64_unpack_Hdr: "keeps (\<lambda>r. EUI64_Hdr r = EUI64_Hdr rr) (EUI64_unpack rr msg off)"
  unfolding EUI64_unpack_def Let_def by (intro keeps_rules) simp_all

lemma GID_unpack_Hdr: "keeps (\<lambda>r. GID_Hdr r = GID_Hdr rr) (GID_unpack rr msg off)"
  unfolding GID_unpack_def Let_def by (intro keeps_rules) simp_all

lemma GPOS_unpack_Hdr: "keeps (\<lambda>r. GPOS_Hdr r = GPOS_Hdr rr) (GPOS_unpack rr msg off)"
  unfolding GPOS_unpack_def Let_def by (intro keeps_rules) simp_all

lemma HINFO_unpack_Hdr: "keeps (\<lambda>r. HINFO_Hdr r = HINFO_Hdr rr) (HINFO_unpack rr msg off)"
  unfolding HINFO_unpack_def Let_def by (intro keeps_rules) simp_all

lemma HIP_unpack_Hdr: "keeps (\<lambda>r. HIP_Hdr r = HIP_Hdr rr) (HIP_unpack rr msg off)"
  unfolding HIP_unpack_def Let_def by (intro keeps_rules) simp_all

lemma HTTPS_unpack_Hdr: "keeps (\<lambda>r. SVCB_Hdr r = SVCB_Hdr rr) (HTTPS_unpack rr msg off)"
  unfolding HTTPS_unpack_def Let_def by (intro keeps_rules) simp_all

lemma IPSECKEY_unpack_Hdr: "keeps (\<lambda>r. IPSECKEY_Hdr r = IPSECKEY_Hdr rr) (IPSECKEY_unpack rr msg off)"
  unfolding IPSECKEY_unpack_def Let_def by (intro keeps_rules) simp_all

lemma ISDN_unpack_Hdr: "keeps (\<lambda>r. ISDN_Hdr r = ISDN_Hdr rr) (ISDN_unpack rr msg off)"
  unfolding ISDN_unpack_def Let_def by (intro keeps_rules) simp_all

lemma KEY_unpack_Hdr: "keeps (\<lambda>r. DNSKEY_Hdr r = DNSKEY_Hdr rr) (KEY_unpack rr msg off)"
  unfolding KEY_unpack_def Let_def by (intro keeps_rules) simp_all

lemma KX_unpack_Hdr: "keeps (\<lambda>r. KX_Hdr r = KX_Hdr rr) (KX_unpack rr msg off)"
  unfolding KX_unpack_def Let_def by (intro keeps_rules) simp_all

lemma L32_unpack_Hdr: "keeps (\<lambda>r. L32_Hdr r = L32_Hdr rr) (L32_unpack rr msg off)"
  unfolding L32_unpack_def Let_def by (intro keeps_rules) simp_all

lemma L64_unpack_Hdr: "keeps (\<lambda>r. L64_Hdr r = L64_Hdr rr) (L64_unpack rr msg off)"
  unfolding L64_unpack_def Let_def by (intro keeps_rules) simp_all

lemma LOC_unpack_Hdr: "keeps (\<lambda>r. LOC_Hdr r = LOC_Hdr rr) (LOC_unpack rr msg off)"
  unfolding LOC_unpack_def Let_def by (intro keeps_rules) simp_all

lemma LP_unpack_Hdr: "keeps (\<lambda>r. LP_Hdr r = LP_Hdr rr) (LP_unpack rr msg off)"
  unfolding LP_unpack_def Let_def by (intro keeps_rules) simp_all

lemma MB_unpack_Hdr: "keeps (\<lambda>r. MB_Hdr r = MB_Hdr rr) (MB_unpack rr msg off)"
  unfolding MB_unpack_def Let_def by (intro keeps_rules) simp_all

lemma MD_unpack_Hdr: "keeps (\<lambda>r. MD_Hdr r = MD_Hdr rr) (MD_unpack rr msg off)"
  unfolding MD_unpack_def Let_def by (intro keeps_rules) simp_all

lemma MF_unpack_Hdr: "keeps (\<lambda>r. MF_Hdr r = MF_Hdr rr) (MF_unpack rr msg off)"
  unfolding MF_unpack_def Let_def by (intro keeps_rules) simp_all

lemma MG_unpack_Hdr: "keeps (\<lambda>r. MG_Hdr r = MG_Hdr rr) (MG_unpack rr msg off)"
  unfolding MG_unpack_def Let_def by (intro keeps_rules) simp_all

lemma MINFO_unpack_Hdr: "keeps (\<lambda>r. MINFO_Hdr r = MINFO_Hdr rr) (MINFO_unpack rr msg off)"
  unfolding MINFO_unpack_def Let_def by (intro keeps_rules) simp_all

lemma MR_unpack_Hdr: "keeps (\<lambda>r. MR_Hdr r = MR_Hdr rr) (MR_unpack rr msg off)"
  unfolding MR_unpack_def Let_def by (intro keeps_rules) simp_all

lemma MX_unpack_Hdr: "keeps (\<lambda>r. MX_Hdr r = MX_Hdr rr) (MX_unpack rr msg off)"
  unfolding MX_unpack_def Let_def by (intro keeps_rules) simp_all

lemma NAPTR_unpack_Hdr: "keeps (\<lambda>r. NAPTR_Hdr r = NAPTR_Hdr rr) (NAPTR_unpack rr msg off)"
  unfolding NAPTR_unpack_def Let_def by (intro keeps_rules) simp_all

lemma NID_unpack_Hdr: "keeps (\<lambda>r. NID_Hdr r = NID_Hdr rr) (NID_unpack rr msg off)"
  unfolding NID_unpack_def Let_def by (intro keeps_rules) simp_all

lemma NIMLOC_unpack_Hdr: "keeps (\<lambda>r. NIMLOC_Hdr r = NIMLOC_Hdr rr) (NIMLOC_unpack rr msg off)"
  unfolding NIMLOC_unpack_def Let_def by (intro keeps_rules) simp_all

lemma NINFO_unpack_Hdr: "keeps (\<lambda>r. NINFO_Hdr r = NINFO_Hdr rr) (NINFO_unpack rr msg off)"
  unfolding NINFO_unpack_def Let_def by (intro keeps_rules) simp_all

lemma NS_unpack_Hdr: "keeps (\<lambda>r. NS_Hdr r = NS_Hdr rr) (NS_unpack rr msg off)"
  unfolding NS_unpack_def Let_def by (intro keeps_rules) simp_all

lemma NSAPPTR_unpack_Hdr: "keeps (\<lambda>r. NSAPPTR_Hdr r = NSAPPTR_Hdr rr) (NSAPPTR_unpack rr msg off)"
  unfolding NSAPPTR_unpack_def Let_def by (intro keeps_rules) simp_all

lemma NSEC_unpack_Hdr: "keeps (\<lambda>r. NSEC_Hdr r = NSEC_Hdr rr) (NSEC_unpack rr msg off)"
  unfolding NSEC_unpack_def Let_def by (intro keeps_rules) simp_all

lemma NSEC3_unpack_Hdr: "keeps (\<lambda>r. NSEC3_Hdr r = NSEC3_Hdr rr) (NSEC3_unpack rr msg off)"
  unfolding NSEC3_unpack_def Let_def by (intro keeps_rules) simp_all

lemma NSEC3PARAM_unpack_Hdr: "keeps (\<lambda>r. NSEC3PARAM_Hdr r = NSEC3PARAM_Hdr rr) (NSEC3PARAM_unpack rr msg off)"
  unfolding NSEC3PARAM_unpack_def Let_def by (intro keeps_rules) simp_all

lemma NULL_unpack_Hdr: "keeps (\<lambda>r. NULL_Hdr r = NULL_Hdr rr) (NULL_unpack rr msg off)"
  unfolding NULL_unpack_def Let_def by (intro keeps_rules) simp_all

lemma NXNAME_unpack_Hdr: "keeps (\<lambda>r. NXNAME_Hdr r = NXNAME_Hdr rr) (NXNAME_unpack rr msg off)"
  unfolding NXNAME_unpack_def Let_def by (intro keeps_rules) simp_all

lemma NXT_unpack_Hdr: "keeps (\<lambda>r. NSEC_Hdr r = NSEC_Hdr rr) (NXT_unpack rr msg off)"
  unfolding NXT_unpack_def Let_def by (intro keeps_rules) simp_all

lemma OPENPGPKEY_unpack_Hdr: "keeps (\<lambda>r. OPENPGPKEY_Hdr r = OPENPGPKEY_Hdr rr) (OPENPGPKEY_unpack rr msg off)"
  unfolding OPENPGPKEY_unpack_def Let_def by (intro keeps_rules) simp_all

lemma OPT_unpack_Hdr: "keeps (\<lambda>r. OPT_Hdr r = OPT_Hdr rr) (OPT_unpack rr msg off)"
  unfolding OPT_unpack_def Let_def by (intro keeps_rules) simp_all

lemma PTR_unpack_Hdr: "keeps (\<lambda>r. PTR_Hdr r = PTR_Hdr rr) (PTR_unpack rr msg off)"
  unfolding PTR_unpack_def Let_def by (intro keeps_rules) simp_all

lemma PX_unpack_Hdr: "keeps (\<lambda>r. PX_Hdr r = PX_Hdr rr) (PX_unpack rr msg off)"
  unfolding PX_unpack_def Let_def by (intro keeps_rules) simp_all

lemma RESINFO_unpack_Hdr: "keeps (\<lambda>r. RESINFO_Hdr r = RESINFO_Hdr rr) (RESINFO_unpack rr msg off)"
  unfolding RESINFO_unpack_def Let_def by (intro keeps_rules) simp_all

lemma RFC3597_unpack_Hdr: "keeps (\<lambda>r. RFC3597_Hdr r = RFC3597_Hdr rr) (RFC3597_unpack rr msg off)"
  unfolding RFC3597_unpack_def Let_def by (intro keeps_rules) simp_all

lemma RKEY_unpack_Hdr: "keeps (\<lambda>r. RKEY_Hdr r = RKEY_Hdr rr) (RKEY_unpack rr msg off)"
  unfolding RKEY_unpack_def Let_def by (intro keeps_rules) simp_all

lemma RP_unpack_Hdr: "keeps (\<lambda>r. RP_Hdr r = RP_Hdr rr) (RP_unpack rr msg off)"
  unfolding RP_unpack_def Let_def by (intro keeps_rules) simp_all

lemma RRSIG_unpack_Hdr: "keeps (\<lambda>r. RRSIG_Hdr r = RRSIG_Hdr rr) (RRSIG_unpack rr msg off)"
  unfolding RRSIG_unpack_def Let_def by (intro keeps_rules) simp_all

lemma RT_unpack_Hdr: "keeps (\<lambda>r. RT_Hdr r = RT_Hdr rr) (RT_unpack rr msg off)"
  unfolding RT_unpack_def Let_def by (intro keeps_rules) simp_all

lemma SIG_unpack_Hdr: "keeps (\<lambda>r. RRSIG_Hdr r = RRSIG_Hdr rr) (SIG_unpack rr msg off)"
  unfolding SIG_unpack_def Let_def by (intro keeps_rules) simp_all

lemma SMIMEA_unpack_Hdr: "keeps (\<lambda>r. SMIMEA_Hdr r = SMIMEA_Hdr rr) (SMIMEA_unpack rr msg off)"
  unfolding SMIMEA_unpack_def Let_def by (intro keeps_rules) simp_all

lemma SOA_unpack_Hdr: "keeps (\<lambda>r. SOA_Hdr r = SOA_Hdr rr) (SOA_unpack rr msg off)"
  unfolding SOA_unpack_def Let_def by (intro keeps_rules) simp_all

lemma SPF_unpack_Hdr: "keeps (\<lambda>r. SPF_Hdr r = SPF_Hdr rr) (SPF_unpack rr msg off)"
  unfolding SPF_unpack_def Let_def by (intro keeps_rules) simp_all

lemma SRV_unpack_Hdr: "keeps (\<lambda>r. SRV_Hdr r = SRV_Hdr rr) (SRV_unpack rr msg off)"
  unfolding SRV_unpack_def Let_def by (intro keeps_rules) simp_all

lemma SSHFP_unpack_Hdr: "keeps (\<lambda>r. SSHFP_Hdr r = SSHFP_Hdr rr) (SSHFP_unpack rr msg off)"
  unfolding SSHFP_unpack_def Let_def by (intro keeps_rules) simp_all

lemma SVCB_unpack_Hdr: "keeps (\<lambda>r. SVCB_Hdr r = SVCB_Hdr rr) (SVCB_unpack rr msg off)"
  unfolding SVCB_unpack_def Let_def by (intro keeps_rules) simp_all

lemma TA_unpack_Hdr: "keeps (\<lambda>r. TA_Hdr r = TA_Hdr rr) (TA_unpack rr msg off)"
  unfolding TA_unpack_def Let_def by (intro keeps_rules) simp_all

lemma TALINK_unpack_Hdr: "keeps (\<lambda>r. TALINK_Hdr r = TALINK_Hdr rr) (TALINK_unpack rr msg off)"
  unfolding TALINK_unpack_def Let_def by (intro keeps_rules) simp_all

lemma TKEY_unpack_Hdr: "keeps (\<lambda>r. TKEY_Hdr r = TKEY_Hdr rr) (TKEY_unpack rr msg off)"
  unfolding TKEY_unpack_def Let_def by (intro keeps_rules) simp_all

lemma TLSA_unpack_Hdr: "keeps (\<lambda>r. TLSA_Hdr r = TLSA_Hdr rr) (TLSA_unpack rr msg off)"
  unfolding TLSA_unpack_def Let_def by (intro keeps_rules) simp_all

lemma TSIG_unpack_Hdr: "keeps (\<lambda>r. TSIG_Hdr r = TSIG_Hdr rr) (TSIG_unpack rr msg off)"
  unfolding TSIG_unpack_def Let_def by (intro keeps_rules) simp_all

lemma TXT_unpack_Hdr: "keeps (\<lambda>r. TXT_Hdr r = TXT_Hdr rr) (TXT_unpack rr msg off)"
  unfolding TXT_unpack_def Let_def by (intro keeps_rules) simp_all

lemma UID_unpack_Hdr: "keeps (\<lambda>r. UID_Hdr r = UID_Hdr rr) (UID_unpack rr msg off)"
  unfolding UID_unpack_def Let_def by (intro keeps_rules) simp_all

lemma UINFO_unpack_Hdr: "keeps (\<lambda>r. UINFO_Hdr r = UINFO_Hdr rr) (UINFO_unpack rr msg off)"
  unfolding UINFO_unpack_def Let_def by (intro keeps_rules) simp_all

lemma URI_unpack_Hdr: "keeps (\<lambda>r. URI_Hdr r = URI_Hdr rr) (URI_unpack rr msg off)"
  unfolding URI_unpack_def Let_def by (intro keeps_rules) simp_all

lemma X25_unpack_Hdr: "keeps (\<lambda>r. X25_Hdr r = X25_Hdr rr) (X25_unpack rr msg off)"
  unfolding X25_unpack_def Let_def by (intro keeps_rules) simp_all

lemma ZONEMD_unpack_Hdr: "keeps (\<lambda>r. ZONEMD_Hdr r = ZONEMD_Hdr rr) (ZONEMD_unpack rr msg off)"
  unfolding ZONEMD_unpack_def Let_def by (intro keeps_rules) simp_all

lemmas all_unpack_Hdr =
  A_unpack_Hdr [THEN keepsD]
  AAAA_unpack_Hdr [THEN keepsD]
  AFSDB_unpack_Hdr [THEN keepsD]
  AMTRELAY_unpack_Hdr [THEN keepsD]
  ANY_unpack_Hdr [THEN keepsD]
  APL_unpack_Hdr [THEN keepsD]
  AVC_unpack_Hdr [THEN keepsD]
  CAA_unpack_Hdr [THEN keepsD]
  CDNSKEY_unpack_Hdr [THEN keepsD]
  CDS_unpack_Hdr [THEN keepsD]
  CERT_unpack_Hdr [THEN keepsD]
  CNAME_unpack_Hdr [THEN keepsD]
  CSYNC_unpack_Hdr [THEN keepsD]
  DHCID_unpack_Hdr [THEN keepsD]
  DLV_unpack_Hdr [THEN keepsD]
  DNAME_unpack_Hdr [THEN keepsD]
  DNSKEY_unpack_Hdr [THEN keepsD]
  DS_unpack_Hdr [THEN keepsD]
  EID_unpack_Hdr [THEN keepsD]
  EUI48_unpack_Hdr [THEN keepsD]
  EUI64_unpack_Hdr [THEN keepsD]
  GID_unpack_Hdr [THEN keepsD]
  GPOS_unpack_Hdr [THEN keepsD]
  HINFO_unpack_Hdr [THEN keepsD]
  HIP_unpack_Hdr [THEN keepsD]
  HTTPS_unpack_Hdr [THEN keepsD]
  IPSECKEY_unpack_Hdr [THEN keepsD]
  ISDN_unpack_Hdr [THEN keepsD]
  KEY_unpack_Hdr [THEN keepsD]
  KX_unpack_Hdr [THEN keepsD]
  L32_unpack_Hdr [THEN keepsD]
  L64_unpack_Hdr [THEN keepsD]
  LOC_unpack_Hdr [THEN keepsD]
  LP_unpack_Hdr [THEN keepsD]
  MB_unpack_Hdr [THEN keepsD]
  MD_unpack_Hdr [THEN keepsD]
  MF_unpack_Hdr [THEN keepsD]
  MG_unpack_Hdr [THEN keepsD]
  MINFO_unpack_Hdr [THEN keepsD]
  MR_unpack_Hdr [THEN keepsD]
  MX_unpack_Hdr [THEN keepsD]
  NAPTR_unpack_Hdr [THEN keepsD]
  NID_unpack_Hdr [THEN keepsD]
  NIMLOC_unpack_Hdr [THEN keepsD]
  NINFO_unpack_Hdr [THEN keepsD]
  NS_unpack_Hdr [THEN keepsD]
  NSAPPTR_unpack_Hdr [THEN keepsD]
  NSEC_unpack_Hdr [THEN keepsD]
  NSEC3_unpack_Hdr [THEN keepsD]
  NSEC3PARAM_unpack_Hdr [THEN keepsD]
  NULL_unpack_Hdr [THEN keepsD]
  NXNAME_unpack_Hdr [THEN keepsD]
  NXT_unpack_Hdr [THEN keepsD]
  OPENPGPKEY_unpack_Hdr [THEN keepsD]
  OPT_unpack_Hdr [THEN keepsD]
  PTR_unpack_Hdr [THEN keepsD]
  PX_unpack_Hdr [THEN keepsD]
  RESINFO_unpack_Hdr [THEN keepsD]
  RFC3597_unpack_Hdr [THEN keepsD]
  RKEY_unpack_Hdr [THEN keepsD]
  RP_unpack_Hdr [THEN keepsD]
  RRSIG_unpack_Hdr [THEN keepsD]
  RT_unpack_Hdr [THEN keepsD]
  SIG_unpack_Hdr [THEN keepsD]
  SMIMEA_unpack_Hdr [THEN keepsD]
  SOA_unpack_Hdr [THEN keepsD]
  SPF_unpack_Hdr [THEN keepsD]
  SRV_unpack_Hdr [THEN keepsD]
  SSHFP_unpack_Hdr [THEN keepsD]
  SVCB_unpack_Hdr [THEN keepsD]
  TA_unpack_Hdr [THEN keepsD]
  TALINK_unpack_Hdr [THEN keepsD]
  TKEY_unpack_Hdr [THEN keepsD]
  TLSA_unpack_Hdr [THEN keepsD]
  TSIG_unpack_Hdr [THEN keepsD]
  TXT_unpack_Hdr [THEN keepsD]
  UID_unpack_Hdr [THEN keepsD]
  UINFO_unpack_Hdr [THEN keepsD]
  URI_unpack_Hdr [THEN keepsD]
  X25_unpack_Hdr [THEN keepsD]
  ZONEMD_unpack_Hdr [THEN keepsD]

lemma rr_unpack_Header:
  assumes "rr_unpack rr msg off = Ok (rr', off')"
  shows "rr_Header rr' = rr_Header rr" and "rr_type rr' = rr_type rr"
  using assms by (cases rr; auto simp: bindR_eq_Ok dest: all_unpack_Hdr)+

text \<open>The value made for a header has the type of the header.\<close>

lemma newRR_type_ok: "type_ok h (newRR h)"
proof (cases "TypeToRR (Hdr_Rrtype h)")
  case None
  then show ?thesis by (simp add: newRR_def type_ok_def)
next
  case (Some f)
  then have "rr_type (f h) = Some (Hdr_Rrtype h)"
    unfolding TypeToRR_def by (auto simp only: rr_type.simps option.inject option.distinct split: if_splits)
  then show ?thesis using Some by (simp add: newRR_def type_ok_def)
qed

lemma type_ok_OPT: "type_ok h rr \<Longrightarrow> Hdr_Rrtype h = TypeOPT \<Longrightarrow> \<exists>opt. rr = RR_OPT opt"
  by (cases rr) (simp_all add: type_ok_def TypeToRR_def)

subsection \<open>The properties of the data of records\<close>

text \<open>An address record, for the witnesses.\<close>

definition ex_A :: RR where
  "ex_A = RR_A \<lparr>A_Hdr = \<lparr>Hdr_Name = str ''a.'', Hdr_Rrtype = TypeA, Hdr_Class = 1, Hdr_Ttl = 300, Hdr_Rdlength = 4\<rparr>,
     A_A = [192, 0, 2, 1]\<rparr>"

lemma ex_A_pack: "rr_pack ex_A (replicate 5 0) 0 no_compression False = Ok ([192, 0, 2, 1, 0], no_compression, 4)"
  by (simp add: ex_A_def A_pack_def packDataA_def To4_def write_at_def put_def numeral_eq_Suc)



text \<open>
  C12: Neither packing nor unpacking the data of a record panics, for every record without nil pointers, that is, none among
  the options of an OPT record and the parameters of an SVCB or HTTPS record, whatever the other values and the octets are:
  packing for every buffer and offset, unpacking when the message ends where the header says the data ends. Unpacking then stays
  within the message. (On a nil option or parameter the code panics; the records of the model have none.)
\<close>

theorem rdata_never_panics:
  "rr_pack rr msg off cm compress \<noteq> Panic \<and>
   (off + unat (Hdr_Rdlength (rr_Header rr)) = length msg \<longrightarrow>
      safe (rr_unpack rr msg off) (\<lambda>(v, off'). off \<le> off' \<and> off' \<le> length msg))"
  using rdata.pack_safe rdata.unpack_within [of off msg rr] by simp

theorem rdata_never_panics_witness:
  "safe (rr_unpack ex_A [1, 2, 3, 4] 0) (\<lambda>(v, off'). 0 \<le> off' \<and> off' \<le> length [1, 2, 3, 4 :: byte])"
proof -
  have "0 + unat (Hdr_Rdlength (rr_Header ex_A)) = length [1, 2, 3, 4 :: byte]" by code_simp
  then show ?thesis using rdata_never_panics by blast
qed

end
