(* ===== verification/Rdata_Size.thy ===== *)
theory Rdata_Size
  imports Record_Size Rdata_Codec
begin

section \<open>The length of the data of every record type\<close>

text \<open>
  For each record type: the data has one encoding, no longer than the length the \<^verbatim>\<open>len\<close>
  method gives for it, and packing succeeds when that many octets fit with one to spare. The proof
  for a type is again the list of the rules for its fields.
\<close>

lemma A_writes:
  assumes "rdata_ok (RR_A rr)" and "fst (A_len rr 0 None) \<le> name_len (Hdr_Name (A_Hdr rr)) + 10 + n"
  shows "writes n (\<lambda>msg off cm. A_pack rr msg off cm compress)"
  using assms
  by (simp only: rdata_ok.simps A_pack_def)
    (rule writes_le, rule writes_a [rotated], rule writes_end, simp_all add: A_len_def split: if_splits)

lemma AAAA_writes:
  assumes "rdata_ok (RR_AAAA rr)" and "fst (AAAA_len rr 0 None) \<le> name_len (Hdr_Name (AAAA_Hdr rr)) + 10 + n"
  shows "writes n (\<lambda>msg off cm. AAAA_pack rr msg off cm compress)"
  using assms
  by (simp only: rdata_ok.simps AAAA_pack_def)
    (rule writes_le, rule writes_aaaa [rotated], rule writes_end, simp_all add: AAAA_len_def split: if_splits)

lemma AFSDB_writes:
  assumes "rdata_ok (RR_AFSDB rr)" and "fst (AFSDB_len rr 0 None) \<le> name_len (Hdr_Name (AFSDB_Hdr rr)) + 10 + n"
  shows "writes n (\<lambda>msg off cm. AFSDB_pack rr msg off cm compress)"
  using assms
  by (simp only: rdata_ok.simps AFSDB_pack_def)
    (rule writes_le, rule writes_u16, rule writes_name_step [rotated], rule writes_end, simp_all add: AFSDB_len_def)

lemma AMTRELAY_writes:
  assumes "rdata_ok (RR_AMTRELAY rr)" and "fst (AMTRELAY_len rr 0 None) \<le> name_len (Hdr_Name (AMTRELAY_Hdr rr)) + 10 + n"
  shows "writes n (\<lambda>msg off cm. AMTRELAY_pack rr msg off cm compress)"
  using assms
  by (simp only: rdata_ok.simps AMTRELAY_pack_def)
    (rule writes_le, rule writes_u8, rule writes_u8, rule writes_gateway [rotated], rule writes_end, simp_all add: AMTRELAY_len_def)

lemma ANY_writes:
  assumes "rdata_ok (RR_ANY rr)" and "fst (ANY_len rr 0 None) \<le> name_len (Hdr_Name (ANY_Hdr rr)) + 10 + n"
  shows "writes n (\<lambda>msg off cm. ANY_pack rr msg off cm compress)"
  using assms
  by (simp only: rdata_ok.simps ANY_pack_def)
    (rule writes_le, rule writes_end, simp_all add: ANY_len_def)

lemma APL_writes:
  assumes "rdata_ok (RR_APL rr)" and "fst (APL_len rr 0 None) \<le> name_len (Hdr_Name (APL_Hdr rr)) + 10 + n"
  shows "writes n (\<lambda>msg off cm. APL_pack rr msg off cm compress)"
  using assms
  by (simp only: rdata_ok.simps APL_pack_def)
    (rule writes_le, rule writes_apl [rotated], rule writes_end, simp_all add: APL_len_def)

lemma AVC_writes:
  assumes "rdata_ok (RR_AVC rr)" and "fst (AVC_len rr 0 None) \<le> name_len (Hdr_Name (AVC_Hdr rr)) + 10 + n"
  shows "writes n (\<lambda>msg off cm. AVC_pack rr msg off cm compress)"
  using assms
  by (simp only: rdata_ok.simps AVC_pack_def)
    (rule writes_le, rule writes_txt [rotated], rule writes_end, simp_all add: AVC_len_def)

lemma CAA_writes:
  assumes "rdata_ok (RR_CAA rr)" and "fst (CAA_len rr 0 None) \<le> name_len (Hdr_Name (CAA_Hdr rr)) + 10 + n"
  shows "writes n (\<lambda>msg off cm. CAA_pack rr msg off cm compress)"
  using assms
  by (simp only: rdata_ok.simps CAA_pack_def)
    (rule writes_le, rule writes_u8, rule writes_string [rotated], rule writes_octet [rotated], rule writes_end, simp_all add: CAA_len_def)

lemma CDNSKEY_writes:
  assumes "rdata_ok (RR_CDNSKEY rr)" and "fst (DNSKEY_len rr 0 None) \<le> name_len (Hdr_Name (DNSKEY_Hdr rr)) + 10 + n"
  shows "writes n (\<lambda>msg off cm. CDNSKEY_pack rr msg off cm compress)"
  using assms
  by (simp only: rdata_ok.simps CDNSKEY_pack_def)
    (rule writes_le, rule writes_u16, rule writes_u8, rule writes_u8, rule writes_base64 [rotated], rule writes_end, simp_all add: DNSKEY_len_def)

lemma CDS_writes:
  assumes "rdata_ok (RR_CDS rr)" and "fst (DS_len rr 0 None) \<le> name_len (Hdr_Name (DS_Hdr rr)) + 10 + n"
  shows "writes n (\<lambda>msg off cm. CDS_pack rr msg off cm compress)"
  using assms
  by (simp only: rdata_ok.simps CDS_pack_def)
    (rule writes_le, rule writes_u16, rule writes_u8, rule writes_u8, rule writes_hex [rotated], rule writes_end, simp_all add: DS_len_def)

lemma CERT_writes:
  assumes "rdata_ok (RR_CERT rr)" and "fst (CERT_len rr 0 None) \<le> name_len (Hdr_Name (CERT_Hdr rr)) + 10 + n"
  shows "writes n (\<lambda>msg off cm. CERT_pack rr msg off cm compress)"
  using assms
  by (simp only: rdata_ok.simps CERT_pack_def)
    (rule writes_le, rule writes_u16, rule writes_u16, rule writes_u8, rule writes_base64 [rotated], rule writes_end, simp_all add: CERT_len_def)

lemma CNAME_writes:
  assumes "rdata_ok (RR_CNAME rr)" and "fst (CNAME_len rr 0 None) \<le> name_len (Hdr_Name (CNAME_Hdr rr)) + 10 + n"
  shows "writes n (\<lambda>msg off cm. CNAME_pack rr msg off cm compress)"
  using assms
  by (simp only: rdata_ok.simps CNAME_pack_def)
    (rule writes_le, rule writes_name_step [rotated], rule writes_end, simp_all add: CNAME_len_def)

lemma CSYNC_writes:
  assumes "rdata_ok (RR_CSYNC rr)" and "fst (CSYNC_len rr 0 None) \<le> name_len (Hdr_Name (CSYNC_Hdr rr)) + 10 + n"
  shows "writes n (\<lambda>msg off cm. CSYNC_pack rr msg off cm compress)"
  using assms
  by (simp only: rdata_ok.simps CSYNC_pack_def)
    (rule writes_le, rule writes_u32, rule writes_u16, rule writes_nsec [rotated], rule writes_end, simp_all add: CSYNC_len_def)

lemma DHCID_writes:
  assumes "rdata_ok (RR_DHCID rr)" and "fst (DHCID_len rr 0 None) \<le> name_len (Hdr_Name (DHCID_Hdr rr)) + 10 + n"
  shows "writes n (\<lambda>msg off cm. DHCID_pack rr msg off cm compress)"
  using assms
  by (simp only: rdata_ok.simps DHCID_pack_def)
    (rule writes_le, rule writes_base64 [rotated], rule writes_end, simp_all add: DHCID_len_def)

lemma DLV_writes:
  assumes "rdata_ok (RR_DLV rr)" and "fst (DS_len rr 0 None) \<le> name_len (Hdr_Name (DS_Hdr rr)) + 10 + n"
  shows "writes n (\<lambda>msg off cm. DLV_pack rr msg off cm compress)"
  using assms
  by (simp only: rdata_ok.simps DLV_pack_def)
    (rule writes_le, rule writes_u16, rule writes_u8, rule writes_u8, rule writes_hex [rotated], rule writes_end, simp_all add: DS_len_def)

lemma DNAME_writes:
  assumes "rdata_ok (RR_DNAME rr)" and "fst (DNAME_len rr 0 None) \<le> name_len (Hdr_Name (DNAME_Hdr rr)) + 10 + n"
  shows "writes n (\<lambda>msg off cm. DNAME_pack rr msg off cm compress)"
  using assms
  by (simp only: rdata_ok.simps DNAME_pack_def)
    (rule writes_le, rule writes_name_step [rotated], rule writes_end, simp_all add: DNAME_len_def)

lemma DNSKEY_writes:
  assumes "rdata_ok (RR_DNSKEY rr)" and "fst (DNSKEY_len rr 0 None) \<le> name_len (Hdr_Name (DNSKEY_Hdr rr)) + 10 + n"
  shows "writes n (\<lambda>msg off cm. DNSKEY_pack rr msg off cm compress)"
  using assms
  by (simp only: rdata_ok.simps DNSKEY_pack_def)
    (rule writes_le, rule writes_u16, rule writes_u8, rule writes_u8, rule writes_base64 [rotated], rule writes_end, simp_all add: DNSKEY_len_def)

lemma DS_writes:
  assumes "rdata_ok (RR_DS rr)" and "fst (DS_len rr 0 None) \<le> name_len (Hdr_Name (DS_Hdr rr)) + 10 + n"
  shows "writes n (\<lambda>msg off cm. DS_pack rr msg off cm compress)"
  using assms
  by (simp only: rdata_ok.simps DS_pack_def)
    (rule writes_le, rule writes_u16, rule writes_u8, rule writes_u8, rule writes_hex [rotated], rule writes_end, simp_all add: DS_len_def)

lemma EID_writes:
  assumes "rdata_ok (RR_EID rr)" and "fst (EID_len rr 0 None) \<le> name_len (Hdr_Name (EID_Hdr rr)) + 10 + n"
  shows "writes n (\<lambda>msg off cm. EID_pack rr msg off cm compress)"
  using assms
  by (simp only: rdata_ok.simps EID_pack_def)
    (rule writes_le, rule writes_hex [rotated], rule writes_end, simp_all add: EID_len_def)

lemma EUI48_writes:
  assumes "rdata_ok (RR_EUI48 rr)" and "fst (EUI48_len rr 0 None) \<le> name_len (Hdr_Name (EUI48_Hdr rr)) + 10 + n"
  shows "writes n (\<lambda>msg off cm. EUI48_pack rr msg off cm compress)"
  using assms
  by (simp only: rdata_ok.simps EUI48_pack_def)
    (rule writes_le, rule writes_u48 [rotated], rule writes_end, simp_all add: EUI48_len_def)

lemma EUI64_writes:
  assumes "rdata_ok (RR_EUI64 rr)" and "fst (EUI64_len rr 0 None) \<le> name_len (Hdr_Name (EUI64_Hdr rr)) + 10 + n"
  shows "writes n (\<lambda>msg off cm. EUI64_pack rr msg off cm compress)"
  using assms
  by (simp only: rdata_ok.simps EUI64_pack_def)
    (rule writes_le, rule writes_u64, rule writes_end, simp_all add: EUI64_len_def)

lemma GID_writes:
  assumes "rdata_ok (RR_GID rr)" and "fst (GID_len rr 0 None) \<le> name_len (Hdr_Name (GID_Hdr rr)) + 10 + n"
  shows "writes n (\<lambda>msg off cm. GID_pack rr msg off cm compress)"
  using assms
  by (simp only: rdata_ok.simps GID_pack_def)
    (rule writes_le, rule writes_u32, rule writes_end, simp_all add: GID_len_def)

lemma GPOS_writes:
  assumes "rdata_ok (RR_GPOS rr)" and "fst (GPOS_len rr 0 None) \<le> name_len (Hdr_Name (GPOS_Hdr rr)) + 10 + n"
  shows "writes n (\<lambda>msg off cm. GPOS_pack rr msg off cm compress)"
  using assms
  by (simp only: rdata_ok.simps GPOS_pack_def)
    (rule writes_le, rule writes_string [rotated], rule writes_string [rotated], rule writes_string [rotated], rule writes_end, simp_all add: GPOS_len_def)

lemma HINFO_writes:
  assumes "rdata_ok (RR_HINFO rr)" and "fst (HINFO_len rr 0 None) \<le> name_len (Hdr_Name (HINFO_Hdr rr)) + 10 + n"
  shows "writes n (\<lambda>msg off cm. HINFO_pack rr msg off cm compress)"
  using assms
  by (simp only: rdata_ok.simps HINFO_pack_def)
    (rule writes_le, rule writes_string [rotated], rule writes_string [rotated], rule writes_end, simp_all add: HINFO_len_def)

lemma HIP_writes:
  assumes "rdata_ok (RR_HIP rr)" and "fst (HIP_len rr 0 None) \<le> name_len (Hdr_Name (HIP_Hdr rr)) + 10 + n"
  shows "writes n (\<lambda>msg off cm. HIP_pack rr msg off cm compress)"
  using assms
  by (simp only: rdata_ok.simps HIP_pack_def)
    (rule writes_le, rule writes_u8, rule writes_u8, rule writes_u16, rule writes_hex [rotated], rule writes_base64 [rotated], rule writes_names [rotated], rule writes_end, simp_all add: HIP_len_def)

lemma HTTPS_writes:
  assumes "rdata_ok (RR_HTTPS rr)" and "fst (SVCB_len rr 0 None) \<le> name_len (Hdr_Name (SVCB_Hdr rr)) + 10 + n"
  shows "writes n (\<lambda>msg off cm. HTTPS_pack rr msg off cm compress)"
  using assms
  by (simp only: rdata_ok.simps HTTPS_pack_def)
    (rule writes_le, rule writes_u16, rule writes_name_step [rotated], rule writes_svcb [rotated], rule writes_end, simp_all add: SVCB_len_def)

lemma IPSECKEY_writes:
  assumes "rdata_ok (RR_IPSECKEY rr)" and "fst (IPSECKEY_len rr 0 None) \<le> name_len (Hdr_Name (IPSECKEY_Hdr rr)) + 10 + n"
  shows "writes n (\<lambda>msg off cm. IPSECKEY_pack rr msg off cm compress)"
  using assms
  by (simp only: rdata_ok.simps IPSECKEY_pack_def)
    (rule writes_le, rule writes_u8, rule writes_u8, rule writes_u8, rule writes_gateway [rotated], rule writes_base64 [rotated], rule writes_end, simp_all add: IPSECKEY_len_def)

lemma ISDN_writes:
  assumes "rdata_ok (RR_ISDN rr)" and "fst (ISDN_len rr 0 None) \<le> name_len (Hdr_Name (ISDN_Hdr rr)) + 10 + n"
  shows "writes n (\<lambda>msg off cm. ISDN_pack rr msg off cm compress)"
  using assms
  by (simp only: rdata_ok.simps ISDN_pack_def)
    (rule writes_le, rule writes_string [rotated], rule writes_string [rotated], rule writes_end, simp_all add: ISDN_len_def)

lemma KEY_writes:
  assumes "rdata_ok (RR_KEY rr)" and "fst (DNSKEY_len rr 0 None) \<le> name_len (Hdr_Name (DNSKEY_Hdr rr)) + 10 + n"
  shows "writes n (\<lambda>msg off cm. KEY_pack rr msg off cm compress)"
  using assms
  by (simp only: rdata_ok.simps KEY_pack_def)
    (rule writes_le, rule writes_u16, rule writes_u8, rule writes_u8, rule writes_base64 [rotated], rule writes_end, simp_all add: DNSKEY_len_def)

lemma KX_writes:
  assumes "rdata_ok (RR_KX rr)" and "fst (KX_len rr 0 None) \<le> name_len (Hdr_Name (KX_Hdr rr)) + 10 + n"
  shows "writes n (\<lambda>msg off cm. KX_pack rr msg off cm compress)"
  using assms
  by (simp only: rdata_ok.simps KX_pack_def)
    (rule writes_le, rule writes_u16, rule writes_name_step [rotated], rule writes_end, simp_all add: KX_len_def)

lemma L32_writes:
  assumes "rdata_ok (RR_L32 rr)" and "fst (L32_len rr 0 None) \<le> name_len (Hdr_Name (L32_Hdr rr)) + 10 + n"
  shows "writes n (\<lambda>msg off cm. L32_pack rr msg off cm compress)"
  using assms
  by (simp only: rdata_ok.simps L32_pack_def)
    (rule writes_le, rule writes_u16, rule writes_a [rotated], rule writes_end, simp_all add: L32_len_def split: if_splits)

lemma L64_writes:
  assumes "rdata_ok (RR_L64 rr)" and "fst (L64_len rr 0 None) \<le> name_len (Hdr_Name (L64_Hdr rr)) + 10 + n"
  shows "writes n (\<lambda>msg off cm. L64_pack rr msg off cm compress)"
  using assms
  by (simp only: rdata_ok.simps L64_pack_def)
    (rule writes_le, rule writes_u16, rule writes_u64, rule writes_end, simp_all add: L64_len_def)

lemma LOC_writes:
  assumes "rdata_ok (RR_LOC rr)" and "fst (LOC_len rr 0 None) \<le> name_len (Hdr_Name (LOC_Hdr rr)) + 10 + n"
  shows "writes n (\<lambda>msg off cm. LOC_pack rr msg off cm compress)"
  using assms
  by (simp only: rdata_ok.simps LOC_pack_def)
    (rule writes_le, rule writes_u8, rule writes_u8, rule writes_u8, rule writes_u8, rule writes_u32, rule writes_u32, rule writes_u32, rule writes_end, simp_all add: LOC_len_def)

lemma LP_writes:
  assumes "rdata_ok (RR_LP rr)" and "fst (LP_len rr 0 None) \<le> name_len (Hdr_Name (LP_Hdr rr)) + 10 + n"
  shows "writes n (\<lambda>msg off cm. LP_pack rr msg off cm compress)"
  using assms
  by (simp only: rdata_ok.simps LP_pack_def)
    (rule writes_le, rule writes_u16, rule writes_name_step [rotated], rule writes_end, simp_all add: LP_len_def)

lemma MB_writes:
  assumes "rdata_ok (RR_MB rr)" and "fst (MB_len rr 0 None) \<le> name_len (Hdr_Name (MB_Hdr rr)) + 10 + n"
  shows "writes n (\<lambda>msg off cm. MB_pack rr msg off cm compress)"
  using assms
  by (simp only: rdata_ok.simps MB_pack_def)
    (rule writes_le, rule writes_name_step [rotated], rule writes_end, simp_all add: MB_len_def)

lemma MD_writes:
  assumes "rdata_ok (RR_MD rr)" and "fst (MD_len rr 0 None) \<le> name_len (Hdr_Name (MD_Hdr rr)) + 10 + n"
  shows "writes n (\<lambda>msg off cm. MD_pack rr msg off cm compress)"
  using assms
  by (simp only: rdata_ok.simps MD_pack_def)
    (rule writes_le, rule writes_name_step [rotated], rule writes_end, simp_all add: MD_len_def)

lemma MF_writes:
  assumes "rdata_ok (RR_MF rr)" and "fst (MF_len rr 0 None) \<le> name_len (Hdr_Name (MF_Hdr rr)) + 10 + n"
  shows "writes n (\<lambda>msg off cm. MF_pack rr msg off cm compress)"
  using assms
  by (simp only: rdata_ok.simps MF_pack_def)
    (rule writes_le, rule writes_name_step [rotated], rule writes_end, simp_all add: MF_len_def)

lemma MG_writes:
  assumes "rdata_ok (RR_MG rr)" and "fst (MG_len rr 0 None) \<le> name_len (Hdr_Name (MG_Hdr rr)) + 10 + n"
  shows "writes n (\<lambda>msg off cm. MG_pack rr msg off cm compress)"
  using assms
  by (simp only: rdata_ok.simps MG_pack_def)
    (rule writes_le, rule writes_name_step [rotated], rule writes_end, simp_all add: MG_len_def)

lemma MINFO_writes:
  assumes "rdata_ok (RR_MINFO rr)" and "fst (MINFO_len rr 0 None) \<le> name_len (Hdr_Name (MINFO_Hdr rr)) + 10 + n"
  shows "writes n (\<lambda>msg off cm. MINFO_pack rr msg off cm compress)"
  using assms
  by (simp only: rdata_ok.simps MINFO_pack_def)
    (rule writes_le, rule writes_name_step [rotated], rule writes_name_step [rotated], rule writes_end, simp_all add: MINFO_len_def)

lemma MR_writes:
  assumes "rdata_ok (RR_MR rr)" and "fst (MR_len rr 0 None) \<le> name_len (Hdr_Name (MR_Hdr rr)) + 10 + n"
  shows "writes n (\<lambda>msg off cm. MR_pack rr msg off cm compress)"
  using assms
  by (simp only: rdata_ok.simps MR_pack_def)
    (rule writes_le, rule writes_name_step [rotated], rule writes_end, simp_all add: MR_len_def)

lemma MX_writes:
  assumes "rdata_ok (RR_MX rr)" and "fst (MX_len rr 0 None) \<le> name_len (Hdr_Name (MX_Hdr rr)) + 10 + n"
  shows "writes n (\<lambda>msg off cm. MX_pack rr msg off cm compress)"
  using assms
  by (simp only: rdata_ok.simps MX_pack_def)
    (rule writes_le, rule writes_u16, rule writes_name_step [rotated], rule writes_end, simp_all add: MX_len_def)

lemma NAPTR_writes:
  assumes "rdata_ok (RR_NAPTR rr)" and "fst (NAPTR_len rr 0 None) \<le> name_len (Hdr_Name (NAPTR_Hdr rr)) + 10 + n"
  shows "writes n (\<lambda>msg off cm. NAPTR_pack rr msg off cm compress)"
  using assms
  by (simp only: rdata_ok.simps NAPTR_pack_def)
    (rule writes_le, rule writes_u16, rule writes_u16, rule writes_string [rotated], rule writes_string [rotated], rule writes_string [rotated], rule writes_name_step [rotated], rule writes_end, simp_all add: NAPTR_len_def)

lemma NID_writes:
  assumes "rdata_ok (RR_NID rr)" and "fst (NID_len rr 0 None) \<le> name_len (Hdr_Name (NID_Hdr rr)) + 10 + n"
  shows "writes n (\<lambda>msg off cm. NID_pack rr msg off cm compress)"
  using assms
  by (simp only: rdata_ok.simps NID_pack_def)
    (rule writes_le, rule writes_u16, rule writes_u64, rule writes_end, simp_all add: NID_len_def)

lemma NIMLOC_writes:
  assumes "rdata_ok (RR_NIMLOC rr)" and "fst (NIMLOC_len rr 0 None) \<le> name_len (Hdr_Name (NIMLOC_Hdr rr)) + 10 + n"
  shows "writes n (\<lambda>msg off cm. NIMLOC_pack rr msg off cm compress)"
  using assms
  by (simp only: rdata_ok.simps NIMLOC_pack_def)
    (rule writes_le, rule writes_hex [rotated], rule writes_end, simp_all add: NIMLOC_len_def)

lemma NINFO_writes:
  assumes "rdata_ok (RR_NINFO rr)" and "fst (NINFO_len rr 0 None) \<le> name_len (Hdr_Name (NINFO_Hdr rr)) + 10 + n"
  shows "writes n (\<lambda>msg off cm. NINFO_pack rr msg off cm compress)"
  using assms
  by (simp only: rdata_ok.simps NINFO_pack_def)
    (rule writes_le, rule writes_txt [rotated], rule writes_end, simp_all add: NINFO_len_def)

lemma NS_writes:
  assumes "rdata_ok (RR_NS rr)" and "fst (NS_len rr 0 None) \<le> name_len (Hdr_Name (NS_Hdr rr)) + 10 + n"
  shows "writes n (\<lambda>msg off cm. NS_pack rr msg off cm compress)"
  using assms
  by (simp only: rdata_ok.simps NS_pack_def)
    (rule writes_le, rule writes_name_step [rotated], rule writes_end, simp_all add: NS_len_def)

lemma NSAPPTR_writes:
  assumes "rdata_ok (RR_NSAPPTR rr)" and "fst (NSAPPTR_len rr 0 None) \<le> name_len (Hdr_Name (NSAPPTR_Hdr rr)) + 10 + n"
  shows "writes n (\<lambda>msg off cm. NSAPPTR_pack rr msg off cm compress)"
  using assms
  by (simp only: rdata_ok.simps NSAPPTR_pack_def)
    (rule writes_le, rule writes_name_step [rotated], rule writes_end, simp_all add: NSAPPTR_len_def)

lemma NSEC_writes:
  assumes "rdata_ok (RR_NSEC rr)" and "fst (NSEC_len rr 0 None) \<le> name_len (Hdr_Name (NSEC_Hdr rr)) + 10 + n"
  shows "writes n (\<lambda>msg off cm. NSEC_pack rr msg off cm compress)"
  using assms
  by (simp only: rdata_ok.simps NSEC_pack_def)
    (rule writes_le, rule writes_name_step [rotated], rule writes_nsec [rotated], rule writes_end, simp_all add: NSEC_len_def)

lemma NSEC3_writes:
  assumes "rdata_ok (RR_NSEC3 rr)" and "fst (NSEC3_len rr 0 None) \<le> name_len (Hdr_Name (NSEC3_Hdr rr)) + 10 + n"
  shows "writes n (\<lambda>msg off cm. NSEC3_pack rr msg off cm compress)"
  using assms
  by (simp only: rdata_ok.simps NSEC3_pack_def simp_thms if_True)
    (rule writes_le, rule writes_u8, rule writes_u8, rule writes_u16, rule writes_u8, rule writes_hex [rotated], rule writes_u8, rule writes_base32 [rotated], rule writes_nsec [rotated], rule writes_end, simp_all add: NSEC3_len_def)

lemma NSEC3PARAM_writes:
  assumes "rdata_ok (RR_NSEC3PARAM rr)" and "fst (NSEC3PARAM_len rr 0 None) \<le> name_len (Hdr_Name (NSEC3PARAM_Hdr rr)) + 10 + n"
  shows "writes n (\<lambda>msg off cm. NSEC3PARAM_pack rr msg off cm compress)"
  using assms
  by (simp only: rdata_ok.simps NSEC3PARAM_pack_def simp_thms if_True)
    (rule writes_le, rule writes_u8, rule writes_u8, rule writes_u16, rule writes_u8, rule writes_hex [rotated], rule writes_end, simp_all add: NSEC3PARAM_len_def)

lemma NULL_writes:
  assumes "rdata_ok (RR_NULL rr)" and "fst (NULL_len rr 0 None) \<le> name_len (Hdr_Name (NULL_Hdr rr)) + 10 + n"
  shows "writes n (\<lambda>msg off cm. NULL_pack rr msg off cm compress)"
  using assms
  by (simp only: rdata_ok.simps NULL_pack_def)
    (rule writes_le, rule writes_any, rule writes_end, simp_all add: NULL_len_def)

lemma NXNAME_writes:
  assumes "rdata_ok (RR_NXNAME rr)" and "fst (NXNAME_len rr 0 None) \<le> name_len (Hdr_Name (NXNAME_Hdr rr)) + 10 + n"
  shows "writes n (\<lambda>msg off cm. NXNAME_pack rr msg off cm compress)"
  using assms
  by (simp only: rdata_ok.simps NXNAME_pack_def)
    (rule writes_le, rule writes_end, simp_all add: NXNAME_len_def)

lemma NXT_writes:
  assumes "rdata_ok (RR_NXT rr)" and "fst (NSEC_len rr 0 None) \<le> name_len (Hdr_Name (NSEC_Hdr rr)) + 10 + n"
  shows "writes n (\<lambda>msg off cm. NXT_pack rr msg off cm compress)"
  using assms
  by (simp only: rdata_ok.simps NXT_pack_def)
    (rule writes_le, rule writes_name_step [rotated], rule writes_nsec [rotated], rule writes_end, simp_all add: NSEC_len_def)

lemma OPENPGPKEY_writes:
  assumes "rdata_ok (RR_OPENPGPKEY rr)" and "fst (OPENPGPKEY_len rr 0 None) \<le> name_len (Hdr_Name (OPENPGPKEY_Hdr rr)) + 10 + n"
  shows "writes n (\<lambda>msg off cm. OPENPGPKEY_pack rr msg off cm compress)"
  using assms
  by (simp only: rdata_ok.simps OPENPGPKEY_pack_def)
    (rule writes_le, rule writes_base64 [rotated], rule writes_end, simp_all add: OPENPGPKEY_len_def)

lemma OPT_writes:
  assumes "rdata_ok (RR_OPT rr)" and "fst (OPT_len rr 0 None) \<le> name_len (Hdr_Name (OPT_Hdr rr)) + 10 + n"
  shows "writes n (\<lambda>msg off cm. OPT_pack rr msg off cm compress)"
  using assms
  by (simp only: rdata_ok.simps OPT_pack_def)
    (rule writes_le, rule writes_opt [rotated], rule writes_end, simp_all add: OPT_len_def)

lemma PTR_writes:
  assumes "rdata_ok (RR_PTR rr)" and "fst (PTR_len rr 0 None) \<le> name_len (Hdr_Name (PTR_Hdr rr)) + 10 + n"
  shows "writes n (\<lambda>msg off cm. PTR_pack rr msg off cm compress)"
  using assms
  by (simp only: rdata_ok.simps PTR_pack_def)
    (rule writes_le, rule writes_name_step [rotated], rule writes_end, simp_all add: PTR_len_def)

lemma PX_writes:
  assumes "rdata_ok (RR_PX rr)" and "fst (PX_len rr 0 None) \<le> name_len (Hdr_Name (PX_Hdr rr)) + 10 + n"
  shows "writes n (\<lambda>msg off cm. PX_pack rr msg off cm compress)"
  using assms
  by (simp only: rdata_ok.simps PX_pack_def)
    (rule writes_le, rule writes_u16, rule writes_name_step [rotated], rule writes_name_step [rotated], rule writes_end, simp_all add: PX_len_def)

lemma RESINFO_writes:
  assumes "rdata_ok (RR_RESINFO rr)" and "fst (RESINFO_len rr 0 None) \<le> name_len (Hdr_Name (RESINFO_Hdr rr)) + 10 + n"
  shows "writes n (\<lambda>msg off cm. RESINFO_pack rr msg off cm compress)"
  using assms
  by (simp only: rdata_ok.simps RESINFO_pack_def)
    (rule writes_le, rule writes_txt [rotated], rule writes_end, simp_all add: RESINFO_len_def)

lemma RFC3597_writes:
  assumes "rdata_ok (RR_RFC3597 rr)" and "fst (RFC3597_len rr 0 None) \<le> name_len (Hdr_Name (RFC3597_Hdr rr)) + 10 + n"
  shows "writes n (\<lambda>msg off cm. RFC3597_pack rr msg off cm compress)"
  using assms
  by (simp only: rdata_ok.simps RFC3597_pack_def)
    (rule writes_le, rule writes_hex [rotated], rule writes_end, simp_all add: RFC3597_len_def)

lemma RKEY_writes:
  assumes "rdata_ok (RR_RKEY rr)" and "fst (RKEY_len rr 0 None) \<le> name_len (Hdr_Name (RKEY_Hdr rr)) + 10 + n"
  shows "writes n (\<lambda>msg off cm. RKEY_pack rr msg off cm compress)"
  using assms
  by (simp only: rdata_ok.simps RKEY_pack_def)
    (rule writes_le, rule writes_u16, rule writes_u8, rule writes_u8, rule writes_base64 [rotated], rule writes_end, simp_all add: RKEY_len_def)

lemma RP_writes:
  assumes "rdata_ok (RR_RP rr)" and "fst (RP_len rr 0 None) \<le> name_len (Hdr_Name (RP_Hdr rr)) + 10 + n"
  shows "writes n (\<lambda>msg off cm. RP_pack rr msg off cm compress)"
  using assms
  by (simp only: rdata_ok.simps RP_pack_def)
    (rule writes_le, rule writes_name_step [rotated], rule writes_name_step [rotated], rule writes_end, simp_all add: RP_len_def)

lemma RRSIG_writes:
  assumes "rdata_ok (RR_RRSIG rr)" and "fst (RRSIG_len rr 0 None) \<le> name_len (Hdr_Name (RRSIG_Hdr rr)) + 10 + n"
  shows "writes n (\<lambda>msg off cm. RRSIG_pack rr msg off cm compress)"
  using assms
  by (simp only: rdata_ok.simps RRSIG_pack_def)
    (rule writes_le, rule writes_u16, rule writes_u8, rule writes_u8, rule writes_u32, rule writes_u32, rule writes_u32, rule writes_u16, rule writes_name_step [rotated], rule writes_base64 [rotated], rule writes_end, simp_all add: RRSIG_len_def)

lemma RT_writes:
  assumes "rdata_ok (RR_RT rr)" and "fst (RT_len rr 0 None) \<le> name_len (Hdr_Name (RT_Hdr rr)) + 10 + n"
  shows "writes n (\<lambda>msg off cm. RT_pack rr msg off cm compress)"
  using assms
  by (simp only: rdata_ok.simps RT_pack_def)
    (rule writes_le, rule writes_u16, rule writes_name_step [rotated], rule writes_end, simp_all add: RT_len_def)

lemma SIG_writes:
  assumes "rdata_ok (RR_SIG rr)" and "fst (RRSIG_len rr 0 None) \<le> name_len (Hdr_Name (RRSIG_Hdr rr)) + 10 + n"
  shows "writes n (\<lambda>msg off cm. SIG_pack rr msg off cm compress)"
  using assms
  by (simp only: rdata_ok.simps SIG_pack_def)
    (rule writes_le, rule writes_u16, rule writes_u8, rule writes_u8, rule writes_u32, rule writes_u32, rule writes_u32, rule writes_u16, rule writes_name_step [rotated], rule writes_base64 [rotated], rule writes_end, simp_all add: RRSIG_len_def)

lemma SMIMEA_writes:
  assumes "rdata_ok (RR_SMIMEA rr)" and "fst (SMIMEA_len rr 0 None) \<le> name_len (Hdr_Name (SMIMEA_Hdr rr)) + 10 + n"
  shows "writes n (\<lambda>msg off cm. SMIMEA_pack rr msg off cm compress)"
  using assms
  by (simp only: rdata_ok.simps SMIMEA_pack_def)
    (rule writes_le, rule writes_u8, rule writes_u8, rule writes_u8, rule writes_hex [rotated], rule writes_end, simp_all add: SMIMEA_len_def)

lemma SOA_writes:
  assumes "rdata_ok (RR_SOA rr)" and "fst (SOA_len rr 0 None) \<le> name_len (Hdr_Name (SOA_Hdr rr)) + 10 + n"
  shows "writes n (\<lambda>msg off cm. SOA_pack rr msg off cm compress)"
  using assms
  by (simp only: rdata_ok.simps SOA_pack_def)
    (rule writes_le, rule writes_name_step [rotated], rule writes_name_step [rotated], rule writes_u32, rule writes_u32, rule writes_u32, rule writes_u32, rule writes_u32, rule writes_end, simp_all add: SOA_len_def)

lemma SPF_writes:
  assumes "rdata_ok (RR_SPF rr)" and "fst (SPF_len rr 0 None) \<le> name_len (Hdr_Name (SPF_Hdr rr)) + 10 + n"
  shows "writes n (\<lambda>msg off cm. SPF_pack rr msg off cm compress)"
  using assms
  by (simp only: rdata_ok.simps SPF_pack_def)
    (rule writes_le, rule writes_txt [rotated], rule writes_end, simp_all add: SPF_len_def)

lemma SRV_writes:
  assumes "rdata_ok (RR_SRV rr)" and "fst (SRV_len rr 0 None) \<le> name_len (Hdr_Name (SRV_Hdr rr)) + 10 + n"
  shows "writes n (\<lambda>msg off cm. SRV_pack rr msg off cm compress)"
  using assms
  by (simp only: rdata_ok.simps SRV_pack_def)
    (rule writes_le, rule writes_u16, rule writes_u16, rule writes_u16, rule writes_name_step [rotated], rule writes_end, simp_all add: SRV_len_def)

lemma SSHFP_writes:
  assumes "rdata_ok (RR_SSHFP rr)" and "fst (SSHFP_len rr 0 None) \<le> name_len (Hdr_Name (SSHFP_Hdr rr)) + 10 + n"
  shows "writes n (\<lambda>msg off cm. SSHFP_pack rr msg off cm compress)"
  using assms
  by (simp only: rdata_ok.simps SSHFP_pack_def)
    (rule writes_le, rule writes_u8, rule writes_u8, rule writes_hex [rotated], rule writes_end, simp_all add: SSHFP_len_def)

lemma SVCB_writes:
  assumes "rdata_ok (RR_SVCB rr)" and "fst (SVCB_len rr 0 None) \<le> name_len (Hdr_Name (SVCB_Hdr rr)) + 10 + n"
  shows "writes n (\<lambda>msg off cm. SVCB_pack rr msg off cm compress)"
  using assms
  by (simp only: rdata_ok.simps SVCB_pack_def)
    (rule writes_le, rule writes_u16, rule writes_name_step [rotated], rule writes_svcb [rotated], rule writes_end, simp_all add: SVCB_len_def)

lemma TA_writes:
  assumes "rdata_ok (RR_TA rr)" and "fst (TA_len rr 0 None) \<le> name_len (Hdr_Name (TA_Hdr rr)) + 10 + n"
  shows "writes n (\<lambda>msg off cm. TA_pack rr msg off cm compress)"
  using assms
  by (simp only: rdata_ok.simps TA_pack_def)
    (rule writes_le, rule writes_u16, rule writes_u8, rule writes_u8, rule writes_hex [rotated], rule writes_end, simp_all add: TA_len_def)

lemma TALINK_writes:
  assumes "rdata_ok (RR_TALINK rr)" and "fst (TALINK_len rr 0 None) \<le> name_len (Hdr_Name (TALINK_Hdr rr)) + 10 + n"
  shows "writes n (\<lambda>msg off cm. TALINK_pack rr msg off cm compress)"
  using assms
  by (simp only: rdata_ok.simps TALINK_pack_def)
    (rule writes_le, rule writes_name_step [rotated], rule writes_name_step [rotated], rule writes_end, simp_all add: TALINK_len_def)

lemma TKEY_writes:
  assumes "rdata_ok (RR_TKEY rr)" and "fst (TKEY_len rr 0 None) \<le> name_len (Hdr_Name (TKEY_Hdr rr)) + 10 + n"
  shows "writes n (\<lambda>msg off cm. TKEY_pack rr msg off cm compress)"
  using assms
  by (simp only: rdata_ok.simps TKEY_pack_def)
    (rule writes_le, rule writes_name_step [rotated], rule writes_u32, rule writes_u32, rule writes_u16, rule writes_u16, rule writes_u16, rule writes_hex [rotated], rule writes_u16, rule writes_hex [rotated], rule writes_end, simp_all add: TKEY_len_def)

lemma TLSA_writes:
  assumes "rdata_ok (RR_TLSA rr)" and "fst (TLSA_len rr 0 None) \<le> name_len (Hdr_Name (TLSA_Hdr rr)) + 10 + n"
  shows "writes n (\<lambda>msg off cm. TLSA_pack rr msg off cm compress)"
  using assms
  by (simp only: rdata_ok.simps TLSA_pack_def)
    (rule writes_le, rule writes_u8, rule writes_u8, rule writes_u8, rule writes_hex [rotated], rule writes_end, simp_all add: TLSA_len_def)

lemma TSIG_writes:
  assumes "rdata_ok (RR_TSIG rr)" and "fst (TSIG_len rr 0 None) \<le> name_len (Hdr_Name (TSIG_Hdr rr)) + 10 + n"
  shows "writes n (\<lambda>msg off cm. TSIG_pack rr msg off cm compress)"
  using assms
  by (simp only: rdata_ok.simps TSIG_pack_def)
    (rule writes_le, rule writes_name_step [rotated], rule writes_u48 [rotated], rule writes_u16, rule writes_u16, rule writes_hex [rotated], rule writes_u16, rule writes_u16, rule writes_u16, rule writes_hex [rotated], rule writes_end, simp_all add: TSIG_len_def)

lemma TXT_writes:
  assumes "rdata_ok (RR_TXT rr)" and "fst (TXT_len rr 0 None) \<le> name_len (Hdr_Name (TXT_Hdr rr)) + 10 + n"
  shows "writes n (\<lambda>msg off cm. TXT_pack rr msg off cm compress)"
  using assms
  by (simp only: rdata_ok.simps TXT_pack_def)
    (rule writes_le, rule writes_txt [rotated], rule writes_end, simp_all add: TXT_len_def)

lemma UID_writes:
  assumes "rdata_ok (RR_UID rr)" and "fst (UID_len rr 0 None) \<le> name_len (Hdr_Name (UID_Hdr rr)) + 10 + n"
  shows "writes n (\<lambda>msg off cm. UID_pack rr msg off cm compress)"
  using assms
  by (simp only: rdata_ok.simps UID_pack_def)
    (rule writes_le, rule writes_u32, rule writes_end, simp_all add: UID_len_def)

lemma UINFO_writes:
  assumes "rdata_ok (RR_UINFO rr)" and "fst (UINFO_len rr 0 None) \<le> name_len (Hdr_Name (UINFO_Hdr rr)) + 10 + n"
  shows "writes n (\<lambda>msg off cm. UINFO_pack rr msg off cm compress)"
  using assms
  by (simp only: rdata_ok.simps UINFO_pack_def)
    (rule writes_le, rule writes_string [rotated], rule writes_end, simp_all add: UINFO_len_def)

lemma URI_writes:
  assumes "rdata_ok (RR_URI rr)" and "fst (URI_len rr 0 None) \<le> name_len (Hdr_Name (URI_Hdr rr)) + 10 + n"
  shows "writes n (\<lambda>msg off cm. URI_pack rr msg off cm compress)"
  using assms
  by (simp only: rdata_ok.simps URI_pack_def)
    (rule writes_le, rule writes_u16, rule writes_u16, rule writes_octet [rotated], rule writes_end, simp_all add: URI_len_def)

lemma X25_writes:
  assumes "rdata_ok (RR_X25 rr)" and "fst (X25_len rr 0 None) \<le> name_len (Hdr_Name (X25_Hdr rr)) + 10 + n"
  shows "writes n (\<lambda>msg off cm. X25_pack rr msg off cm compress)"
  using assms
  by (simp only: rdata_ok.simps X25_pack_def)
    (rule writes_le, rule writes_string [rotated], rule writes_end, simp_all add: X25_len_def)

lemma ZONEMD_writes:
  assumes "rdata_ok (RR_ZONEMD rr)" and "fst (ZONEMD_len rr 0 None) \<le> name_len (Hdr_Name (ZONEMD_Hdr rr)) + 10 + n"
  shows "writes n (\<lambda>msg off cm. ZONEMD_pack rr msg off cm compress)"
  using assms
  by (simp only: rdata_ok.simps ZONEMD_pack_def)
    (rule writes_le, rule writes_u32, rule writes_u8, rule writes_u8, rule writes_hex [rotated], rule writes_end, simp_all add: ZONEMD_len_def)

lemmas all_writes =
  A_writes
  AAAA_writes
  AFSDB_writes
  AMTRELAY_writes
  ANY_writes
  APL_writes
  AVC_writes
  CAA_writes
  CDNSKEY_writes
  CDS_writes
  CERT_writes
  CNAME_writes
  CSYNC_writes
  DHCID_writes
  DLV_writes
  DNAME_writes
  DNSKEY_writes
  DS_writes
  EID_writes
  EUI48_writes
  EUI64_writes
  GID_writes
  GPOS_writes
  HINFO_writes
  HIP_writes
  HTTPS_writes
  IPSECKEY_writes
  ISDN_writes
  KEY_writes
  KX_writes
  L32_writes
  L64_writes
  LOC_writes
  LP_writes
  MB_writes
  MD_writes
  MF_writes
  MG_writes
  MINFO_writes
  MR_writes
  MX_writes
  NAPTR_writes
  NID_writes
  NIMLOC_writes
  NINFO_writes
  NS_writes
  NSAPPTR_writes
  NSEC_writes
  NSEC3_writes
  NSEC3PARAM_writes
  NULL_writes
  NXNAME_writes
  NXT_writes
  OPENPGPKEY_writes
  OPT_writes
  PTR_writes
  PX_writes
  RESINFO_writes
  RFC3597_writes
  RKEY_writes
  RP_writes
  RRSIG_writes
  RT_writes
  SIG_writes
  SMIMEA_writes
  SOA_writes
  SPF_writes
  SRV_writes
  SSHFP_writes
  SVCB_writes
  TA_writes
  TALINK_writes
  TKEY_writes
  TLSA_writes
  TSIG_writes
  TXT_writes
  UID_writes
  UINFO_writes
  URI_writes
  X25_writes
  ZONEMD_writes

lemmas all_len_defs =
  A_len_def
  AAAA_len_def
  AFSDB_len_def
  AMTRELAY_len_def
  ANY_len_def
  APL_len_def
  AVC_len_def
  CAA_len_def
  CERT_len_def
  CNAME_len_def
  CSYNC_len_def
  DHCID_len_def
  DNAME_len_def
  DNSKEY_len_def
  DS_len_def
  EID_len_def
  EUI48_len_def
  EUI64_len_def
  GID_len_def
  GPOS_len_def
  HINFO_len_def
  HIP_len_def
  IPSECKEY_len_def
  ISDN_len_def
  KX_len_def
  L32_len_def
  L64_len_def
  LOC_len_def
  LP_len_def
  MB_len_def
  MD_len_def
  MF_len_def
  MG_len_def
  MINFO_len_def
  MR_len_def
  MX_len_def
  NAPTR_len_def
  NID_len_def
  NIMLOC_len_def
  NINFO_len_def
  NS_len_def
  NSAPPTR_len_def
  NSEC_len_def
  NSEC3_len_def
  NSEC3PARAM_len_def
  NULL_len_def
  NXNAME_len_def
  OPENPGPKEY_len_def
  OPT_len_def
  PTR_len_def
  PX_len_def
  RESINFO_len_def
  RFC3597_len_def
  RKEY_len_def
  RP_len_def
  RRSIG_len_def
  RT_len_def
  SMIMEA_len_def
  SOA_len_def
  SPF_len_def
  SRV_len_def
  SSHFP_len_def
  SVCB_len_def
  TA_len_def
  TALINK_len_def
  TKEY_len_def
  TLSA_len_def
  TSIG_len_def
  TXT_len_def
  UID_len_def
  UINFO_len_def
  URI_len_def
  X25_len_def
  ZONEMD_len_def

lemma rr_writes:
  assumes "rdata_ok rr" and "Len rr \<le> name_len (Hdr_Name (rr_Header rr)) + 10 + n"
  shows "writes n (\<lambda>msg off cm. rr_pack rr msg off cm compress)"
  using assms unfolding Len_def
  by (cases rr) (simp_all only: rr_len.simps rr_pack.simps rr_Header.simps, (rule all_writes; assumption)+)

text \<open>The part of \<^const>\<open>Len\<close> that is for the data.\<close>

definition rd_size :: "RR \<Rightarrow> nat" where
  "rd_size rr = Len rr - (name_len (Hdr_Name (rr_Header rr)) + 10)"

lemma rr_len_None: "rr_len rr off None = (name_len (Hdr_Name (rr_Header rr)) + 10 + rd_size rr, None)"
  by (cases rr) (simp_all add: rd_size_def Len_def all_len_defs)

interpretation rsize: sized_codec rr_pack rr_unpack "\<lambda>rr. unat (Hdr_Rdlength (rr_Header rr))" blank set_Header
  "\<lambda>h. unat (Hdr_Rdlength h)" rdata_ok rd_size
  by standard (rule rr_writes, assumption, simp add: rd_size_def)

end
