(* ===== verification/RR_Wire.thy ===== *)
theory RR_Wire
  imports Rdata_Size
begin

section \<open>Whole records\<close>

text \<open>
  The header of a record and the record as a whole: \<^verbatim>\<open>packHeader\<close>, \<^verbatim>\<open>unpackHeader\<close>
  and \<^verbatim>\<open>truncateMsgFromRdlength\<close> of \<^verbatim>\<open>msg_helpers.go\<close>, and \<^verbatim>\<open>packRR\<close>,
  \<^verbatim>\<open>PackRR\<close>, \<^verbatim>\<open>UnpackRR\<close>, \<^verbatim>\<open>UnpackRRWithHeader\<close> and
  \<^verbatim>\<open>unpackRRslice\<close> of \<^verbatim>\<open>msg.go\<close>. A nil record is \<^const>\<open>None\<close>. The record that
  \<^verbatim>\<open>UnpackRRWithHeader\<close> returns beside an error (nil, or the header alone), and the buffer after a
  failed packing, are not part of the model.
\<close>

definition packHeader ::
  "RR_Header \<Rightarrow> bytes \<Rightarrow> nat \<Rightarrow> compressionMap \<Rightarrow> bool \<Rightarrow> (bytes \<times> compressionMap \<times> nat) off_res" where
  "packHeader hdr msg off compression compress =
     (if off = length msg then Ok (msg, compression, off)
      else
        mapErr (fail_at (length msg))
         (bindR (packDomainName (Hdr_Name hdr) msg off compression compress) (\<lambda>(msg, compression, off).
          bindR (packUint16 (Hdr_Rrtype hdr) msg off) (\<lambda>(msg, off).
          bindR (packUint16 (Hdr_Class hdr) msg off) (\<lambda>(msg, off).
          bindR (packUint32 (Hdr_Ttl hdr) msg off) (\<lambda>(msg, off).
          bindR (packUint16 0 msg off) (\<lambda>(msg, off).
          Ok (msg, compression, off))))))))"

definition truncateMsgFromRdlength :: "bytes \<Rightarrow> nat \<Rightarrow> u16 \<Rightarrow> bytes res" where
  "truncateMsgFromRdlength msg off rdlength =
     (let lenrd = off + unat rdlength in
      if lenrd > length msg then Err (ErrMsg ''overflowing header size'')
      else go_slice msg 0 lenrd)"

text \<open>The result is the header, the offset after it and the message cut off at the end of the record.\<close>

definition zero_Header :: RR_Header where
  "zero_Header = \<lparr>Hdr_Name = [], Hdr_Rrtype = 0, Hdr_Class = 0, Hdr_Ttl = 0, Hdr_Rdlength = 0\<rparr>"

definition unpackHeader :: "bytes \<Rightarrow> nat \<Rightarrow> (RR_Header \<times> nat \<times> bytes) off_res" where
  "unpackHeader msg off =
     (if off = length msg then Ok (zero_Header, off, msg)
      else
        bindR (mapErr (fail_at (length msg))
         (bindR (UnpackDomainName msg off) (\<lambda>(name, off).
          bindR (unpackUint16 msg off) (\<lambda>(rrtype, off).
          bindR (unpackUint16 msg off) (\<lambda>(class, off).
          bindR (unpackUint32 msg off) (\<lambda>(ttl, off).
          bindR (unpackUint16 msg off) (\<lambda>(rdlength, off).
          Ok (\<lparr>Hdr_Name = name, Hdr_Rrtype = rrtype, Hdr_Class = class, Hdr_Ttl = ttl, Hdr_Rdlength = rdlength\<rparr>,
              off)))))))) (\<lambda>(hdr, off).
        bindR (mapErr (\<lambda>e. (off, e)) (truncateMsgFromRdlength msg off (Hdr_Rdlength hdr))) (\<lambda>msg.
        Ok (hdr, off, msg))))"

definition noRdata :: "RR_Header \<Rightarrow> bool" where
  "noRdata h \<longleftrightarrow> Hdr_Rdlength h = 0"

text \<open>
  \<^verbatim>\<open>packRR\<close> returns the end of the header and the end of the record. The slice
  \<^verbatim>\<open>msg[headerEnd-2:]\<close> is out of range when the header ends before the second octet.
\<close>

definition packRR ::
  "RR option \<Rightarrow> bytes \<Rightarrow> nat \<Rightarrow> compressionMap \<Rightarrow> bool \<Rightarrow> (bytes \<times> compressionMap \<times> nat \<times> nat) off_res" where
  "packRR orr msg off compression compress =
     (case orr of
        None \<Rightarrow> Err (length msg, ErrMsg ''nil rr'')
      | Some rr \<Rightarrow>
          mapErr (fail_at (length msg))
           (bindR (packHeader (rr_Header rr) msg off compression compress) (\<lambda>(msg, compression, headerEnd).
            bindR (rr_pack rr msg headerEnd compression compress) (\<lambda>(msg, compression, off1).
            let rdlength = off1 - headerEnd in
            if unat (of_nat rdlength :: u16) \<noteq> rdlength then Err (length msg, ErrRdata)
            else if headerEnd < 2 then Panic
            else
              bindR (write_at msg (headerEnd - 2) (be16 (of_nat rdlength))) (\<lambda>msg.
              Ok (msg, compression, headerEnd, off1))))))"

text \<open>\<^verbatim>\<open>PackRR\<close> also sets the length in the header of the record, which is part of the result.\<close>

definition PackRR ::
  "RR option \<Rightarrow> bytes \<Rightarrow> nat \<Rightarrow> (gostring \<rightharpoonup> int) option \<Rightarrow> bool \<Rightarrow> (RR option \<times> bytes \<times> compressionMap \<times> nat) off_res" where
  "PackRR orr msg off compression compress =
     bindR (packRR orr msg off \<lparr>cm_ext = compression, cm_int = None\<rparr> compress) (\<lambda>(msg, cm, headerEnd, off1).
     Ok (map_option (\<lambda>rr. set_Header ((rr_Header rr)\<lparr>Hdr_Rdlength := of_nat (off1 - headerEnd)\<rparr>) rr) orr,
         msg, cm, off1))"

definition UnpackRRWithHeader :: "RR_Header \<Rightarrow> bytes \<Rightarrow> nat \<Rightarrow> (RR \<times> nat) off_res" where
  "UnpackRRWithHeader h msg off =
     (let rr = newRR h in
      if off > length msg then Err (off, ErrMsg ''bad off'')
      else
        let end = off + unat (Hdr_Rdlength h) in
        if end < off \<or> end > length msg then Err (end, ErrMsg ''bad rdlength'')
        else if noRdata h then Ok (rr, off)
        else
          bindR (mapErr (fail_at end) (rr_unpack rr msg off)) (\<lambda>(rr, off).
          if off \<noteq> end then Err (end, ErrMsg ''bad rdlength'')
          else Ok (rr, off)))"

definition UnpackRR :: "bytes \<Rightarrow> nat \<Rightarrow> (RR \<times> nat) off_res" where
  "UnpackRR msg off =
     bindR (mapErr (fail_at (length msg)) (unpackHeader msg off)) (\<lambda>(h, off, msg).
     UnpackRRWithHeader h msg off)"

fun unpackRRslice_loop :: "nat \<Rightarrow> bytes \<Rightarrow> nat \<Rightarrow> RR list \<Rightarrow> (RR list \<times> nat) off_res" where
  "unpackRRslice_loop 0 msg off dst = Ok (dst, off)"
| "unpackRRslice_loop (Suc l) msg off dst =
     bindR (mapErr (fail_at (length msg)) (UnpackRR msg off)) (\<lambda>(r, off').
     if off = off' then Ok (dst, off') else unpackRRslice_loop l msg off' (dst @ [r]))"

definition unpackRRslice :: "nat \<Rightarrow> bytes \<Rightarrow> nat \<Rightarrow> (RR list \<times> nat) off_res" where
  "unpackRRslice l msg off = unpackRRslice_loop l msg off []"

subsection \<open>The header reads back\<close>

text \<open>The ten octets after the name.\<close>

definition hdr_tail :: "RR_Header \<Rightarrow> u16 \<Rightarrow> bytes" where
  "hdr_tail h n = be16 (Hdr_Rrtype h) @ be16 (Hdr_Class h) @ be32 (Hdr_Ttl h) @ be16 n"

lemma length_hdr_tail [simp]: "length (hdr_tail h n) = 10"
  by (simp add: hdr_tail_def)

lemma packHeader_result:
  assumes "ok_name (Hdr_Name h)" and "off < length msg" and "cm_sound cm (take off msg)"
    and "packHeader h msg off cm compress = Ok (msg', cm', he)"
  obtains m1 o1 where "packDomainName (Hdr_Name h) msg off cm compress = Ok (m1, cm', o1)"
    and "msg' = put m1 o1 (hdr_tail h 0)" and "he = o1 + 10" and "he \<le> length m1"
proof -
  from assms(2,4) obtain m1 o1 m2 o2 m3 o3 m4 o4
    where p: "packDomainName (Hdr_Name h) msg off cm compress = Ok (m1, cm', o1)"
      "packUint16 (Hdr_Rrtype h) m1 o1 = Ok (m2, o2)" "packUint16 (Hdr_Class h) m2 o2 = Ok (m3, o3)"
      "packUint32 (Hdr_Ttl h) m3 o3 = Ok (m4, o4)" "packUint16 0 m4 o4 = Ok (msg', he)"
    by (auto simp: packHeader_def bindR_eq_Ok)
  have "off \<le> length msg" using assms(2) by simp
  from packed_name [OF assms(1) this assms(3) p(1), of m1] have o1: "o1 \<le> length m1" by (simp add: extends_def)
  note r = u16.pack_result [OF TrueI p(2)] u16.pack_result [OF TrueI p(3)] u32.pack_result [OF TrueI p(4)] u16.pack_result [OF TrueI p(5)]
  have le: "he \<le> length m1" using r o1 by simp
  moreover have "he = o1 + 10" using r by simp
  moreover have "msg' = put m1 o1 (hdr_tail h 0)"
    using r le unfolding hdr_tail_def by (simp add: put_put_at del: add_2_eq_Suc add_2_eq_Suc')
  ultimately show ?thesis using that p(1) by blast
qed

lemma unpackHeader_reads:
  assumes "UnpackDomainName M off = Ok (name, o1)" and "drop o1 M = hdr_tail h n @ r" and "off < length M"
    and "unat n \<le> length r" and "name = Hdr_Name h"
  shows "unpackHeader M off = Ok (h\<lparr>Hdr_Rdlength := n\<rparr>, o1 + 10, take (o1 + 10 + unat n) M)"
proof -
  have len: "length M = o1 + 10 + length r" using arg_cong [OF assms(2), of length] by simp
  have d: "take 2 (drop o1 M) = be16 (Hdr_Rrtype h)" "take 2 (drop (o1 + 2) M) = be16 (Hdr_Class h)"
    "take 4 (drop (o1 + 4) M) = be32 (Hdr_Ttl h)" "take 2 (drop (o1 + 8) M) = be16 n"
    using assms(2) by (simp_all add: hdr_tail_def drop_drop [symmetric] add.commute [of o1] del: drop_drop add_2_eq_Suc add_2_eq_Suc')
  note u = u16.unpack_any [OF TrueI, of o1 "Hdr_Rrtype h" M] u16.unpack_any [OF TrueI, of "o1 + 2" "Hdr_Class h" M]
    u32.unpack_any [OF TrueI, of "o1 + 4" "Hdr_Ttl h" M] u16.unpack_any [OF TrueI, of "o1 + 8" n M]
  have "truncateMsgFromRdlength M (o1 + 10) n = Ok (take (o1 + 10 + unat n) M)"
    using assms(4) len by (simp add: truncateMsgFromRdlength_def)
  then show ?thesis using assms(1,3,5) u d len by (simp add: unpackHeader_def add.assoc del: add_2_eq_Suc add_2_eq_Suc')
qed

subsection \<open>A record reads back\<close>

definition with_rdlength :: "u16 \<Rightarrow> RR \<Rightarrow> RR" where
  "with_rdlength n rr = set_Header ((rr_Header rr)\<lparr>Hdr_Rdlength := n\<rparr>) rr"

text \<open>The records that survive packing and unpacking.\<close>

definition rr_ok :: "RR \<Rightarrow> bool" where
  "rr_ok rr \<longleftrightarrow> ok_name (Hdr_Name (rr_Header rr)) \<and> type_ok (rr_Header rr) rr \<and> rdata_ok rr"

lemma UnpackRRWithHeader_reads:
  assumes "newRR h = blank rr h" and "off + unat (Hdr_Rdlength h) = length M"
    and "noRdata h \<Longrightarrow> blank rr h = set_Header h rr" and "rr_unpack (blank rr h) M off = Ok (set_Header h rr, length M)"
  shows "UnpackRRWithHeader h M off = Ok (set_Header h rr, length M)"
proof (cases "noRdata h")
  case True
  with assms show ?thesis by (auto simp: UnpackRRWithHeader_def noRdata_def Let_def)
next
  case False
  then show ?thesis using assms by (simp add: UnpackRRWithHeader_def Let_def)
qed

text \<open>
  What a successful \<^verbatim>\<open>packRR\<close> has written: the name \<open>e1\<close>, the rest of the header with
  the length of the data, and the data \<open>e2\<close>.
\<close>

lemma packRR_result:
  assumes ok: "ok_name (Hdr_Name (rr_Header rr))" "rdata_ok rr" and off: "off < length msg" and cm: "cm_sound cm (take off msg)"
    and p: "packRR (Some rr) msg off cm compress = Ok (msg', cm', he, off')"
  obtains e1 e2 where "msg' = put msg off (e1 @ hdr_tail (rr_Header rr) (of_nat (length e2)) @ e2)"
    and "he = off + length e1 + 10" and "off' = he + length e2" and "off' \<le> length msg" and "length e2 < 65536"
    and "cm_sound cm' (take off' msg')" and "length e2 \<le> rd_size rr"
    and "\<And>M. agree M msg' off' \<Longrightarrow> UnpackDomainName M off = Ok (Hdr_Name (rr_Header rr), off + length e1)"
    and "\<And>h. unat (Hdr_Rdlength h) = length e2 \<Longrightarrow> rr_unpack (blank rr h) (take off' msg') he = Ok (set_Header h rr, off')"
    and "\<And>h. e2 = [] \<Longrightarrow> blank rr h = set_Header h rr"
proof -
  let ?h = "rr_Header rr"
  from p obtain m2 c2 m3 where hd: "packHeader ?h msg off cm compress = Ok (m2, c2, he)"
    and rd: "rr_pack rr m2 he c2 compress = Ok (m3, cm', off')"
    and of16: "unat (of_nat (off' - he) :: u16) = off' - he"
    and msg': "msg' = put m3 (he - 2) (be16 (of_nat (off' - he)))" and he2: "2 \<le> he" "he \<le> length m3"
    by (auto simp: packRR_def bindR_eq_Ok Let_def write_at_def not_less split: if_splits)
  obtain m1 o1 where nm: "packDomainName (Hdr_Name ?h) msg off cm compress = Ok (m1, c2, o1)"
    and m2: "m2 = put m1 o1 (hdr_tail ?h 0)" and he: "he = o1 + 10" "he \<le> length m1"
    using packHeader_result [OF ok(1) off cm hd] .
  have le: "off \<le> length msg" using off by simp
  note N = packed_name [OF ok(1) le cm nm]
  have ext: "extends msg off m1 o1" and c2: "cm_sound c2 (take o1 m1)" using N by blast+
  have "\<exists>e1. m1 = put msg off e1 \<and> o1 = off + length e1"
    using writes_name [OF ok(1) order_refl] cm_sound_nonneg [OF cm] nm writes_asD(3) unfolding writes_def by blast
  then obtain e1 where e1: "m1 = put msg off e1" "o1 = off + length e1" by blast
  let ?Q = "\<lambda>n. take o1 m1 @ hdr_tail ?h n"
  have lQ: "length (?Q n) = he" for n using ext he by (simp add: extends_def)
  have sQ: "cm_sound c2 (?Q n)" for n using c2 by (rule cm_sound_append)
  have l2: "length m2 = length msg" "he \<le> length m2" using m2 he ext by (auto simp: extends_def)
  let ?n = "of_nat (off' - he) :: u16"
  obtain e2 where e2: "m3 = put m2 he e2" "off' = he + length e2" "off' \<le> length m2" "length e2 \<le> rd_size rr"
    "cm_sound cm' (?Q ?n @ e2)"
    "\<And>h. unat (Hdr_Rdlength h) = length e2 \<Longrightarrow> rr_unpack (blank rr h) (?Q ?n @ e2) he = Ok (set_Header h rr, off')"
    using rsize.pack_anywhere [OF ok(2) rd l2(2) lQ sQ] by blast
  have n: "off' - he = length e2" using e2(2) by simp
  have fit: "off + length (e1 @ hdr_tail ?h ?n @ e2) \<le> length msg" using e1 he e2 l2 by simp
  have P: "msg' = put msg off (e1 @ hdr_tail ?h ?n @ e2)"
  proof -
    have "m3 = put msg off (e1 @ hdr_tail ?h 0 @ e2)"
      using e1 he m2 e2(1) fit by (simp add: put_put_at)
    moreover have "he - 2 = off + length e1 + 8" using e1 he by simp
    ultimately show ?thesis using fit unfolding msg' by (simp add: put_def hdr_tail_def)
  qed
  have T: "take off' msg' = ?Q ?n @ e2"
    using take_put_end [OF fit] take_put_end [of off e1 msg] P e1 e2(2) he fit by (simp add: add.assoc)
  have U: "UnpackDomainName M off = Ok (Hdr_Name ?h, off + length e1)" if "agree M msg' off'" for M
  proof -
    have "o1 \<le> off'" using e2(2) he by simp
    have "take o1 M = take o1 (take off' M)" using \<open>o1 \<le> off'\<close> by (simp add: min_def)
    also have "\<dots> = take o1 m1" using that T ext by (simp add: agree_def extends_def)
    finally have "agree M m1 o1" using that ext \<open>o1 \<le> off'\<close> by (simp add: agree_def extends_def)
    then show ?thesis using N e1(2) by blast
  qed
  have E: "blank rr h = set_Header h rr" if "e2 = []" for h
  proof -
    have "cm_sound c2 (take he m2)" using cm_sound_append [OF c2] m2 he take_put_end [of o1 "hdr_tail ?h 0" m1] by simp
    then show ?thesis using rdata.pack_nothing [OF ok(2) l2(2) _ , of c2 compress m3 cm' h] rd that e2(2) by simp
  qed
  have "length e2 < 65536" using of16 n unat_u16_less [of ?n] by simp
  then show ?thesis using that [of e1 e2] P T U E e1 he e2 l2 unfolding n by simp
qed

lemma drop_take_drop: "a \<le> b \<Longrightarrow> b \<le> length M \<Longrightarrow> drop a M = drop a (take b M) @ drop b M"
  using drop_append [of a "take b M" "drop b M"] by (simp del: drop_append)

lemma type_ok_rdlength [simp]: "type_ok (h\<lparr>Hdr_Rdlength := n\<rparr>) rr = type_ok h rr"
  by (simp add: type_ok_def cong: option.case_cong)

lemma packRR_reads_back:
  assumes "rr_ok rr" and "off < length msg" and "cm_sound cm (take off msg)"
    and "packRR (Some rr) msg off cm compress = Ok (msg', cm', he, off')"
  shows "extends msg off msg' off'" and "cm_sound cm' (take off' msg')" and "off + 11 \<le> off'"
    and "agree M msg' off' \<Longrightarrow> UnpackRR M off = Ok (with_rdlength (of_nat (off' - he)) rr, off')"
proof -
  have ok: "ok_name (Hdr_Name (rr_Header rr))" "rdata_ok rr" "type_ok (rr_Header rr) rr" using assms(1) by (auto simp: rr_ok_def)
  obtain e1 e2 where R: "msg' = put msg off (e1 @ hdr_tail (rr_Header rr) (of_nat (length e2)) @ e2)"
    "he = off + length e1 + 10" "off' = he + length e2" "off' \<le> length msg" "length e2 < 65536"
    "cm_sound cm' (take off' msg')"
    "\<And>M. agree M msg' off' \<Longrightarrow> UnpackDomainName M off = Ok (Hdr_Name (rr_Header rr), off + length e1)"
    "\<And>h. unat (Hdr_Rdlength h) = length e2 \<Longrightarrow> rr_unpack (blank rr h) (take off' msg') he = Ok (set_Header h rr, off')"
    "\<And>h. e2 = [] \<Longrightarrow> blank rr h = set_Header h rr"
    using packRR_result [OF ok(1,2) assms(2-4)] by metis
  let ?h = "(rr_Header rr)\<lparr>Hdr_Rdlength := of_nat (length e2)\<rparr>"
  have len: "length msg' = length msg" using R(1-4) by simp
  show "extends msg off msg' off'" using R(1-4) len by (simp add: extends_def)
  show "cm_sound cm' (take off' msg')" by (rule R(6))
  have "agree msg' msg' off'" using R(4) len by (simp add: agree_def)
  from UnpackDomainName_progress [OF R(7) [OF this]] show "off + 11 \<le> off'" using R(2,3) by (cases e1) auto
  show "UnpackRR M off = Ok (with_rdlength (of_nat (off' - he)) rr, off')" if M: "agree M msg' off'"
  proof -
    have n: "unat (of_nat (length e2) :: u16) = length e2" using R(5) by (simp add: unat_of_nat)
    have t: "take off' M = take off' msg'" using M by (simp add: agree_def)
    also have "\<dots> = take off msg @ e1 @ hdr_tail (rr_Header rr) (of_nat (length e2)) @ e2"
      using R(1-4) take_put_end [of off "e1 @ hdr_tail (rr_Header rr) (of_nat (length e2)) @ e2" msg] by (simp add: add.assoc)
    finally have "drop (off + length e1) (take off' M) = hdr_tail (rr_Header rr) (of_nat (length e2)) @ e2"
      using assms(2) by simp
    moreover have "drop (off + length e1) M = drop (off + length e1) (take off' M) @ drop off' M"
      using R(2,3) M by (intro drop_take_drop) (auto simp: agree_def)
    ultimately have d: "drop (off + length e1) M = hdr_tail (rr_Header rr) (of_nat (length e2)) @ e2 @ drop off' M" by simp
    have "unpackHeader M off = Ok (?h, he, take off' M)"
      using unpackHeader_reads [OF R(7) [OF M] d] M n R(2,3) by (simp add: agree_def add.assoc)
    moreover have "e2 = []" if "(of_nat (length e2) :: u16) = 0" using n that by simp
    then have "UnpackRRWithHeader ?h (take off' M) he = Ok (set_Header ?h rr, off')"
      using UnpackRRWithHeader_reads [of ?h rr he "take off' M"] newRR_blank [of ?h rr] ok(3) R(3,8,9) n t M
      by (simp add: agree_def noRdata_def)
    ultimately show ?thesis using R(3) by (simp add: UnpackRR_def with_rdlength_def)
  qed
qed

subsection \<open>A record that is not too long packs\<close>

lemma packRR_total:
  assumes "rr_ok rr" and "rd_size rr < 65536" and "cm_sound cm (take off msg)" and "off + Len rr < length msg"
  obtains msg' cm' he off' where "packRR (Some rr) msg off cm compress = Ok (msg', cm', he, off')" and "off' \<le> off + Len rr"
proof -
  let ?h = "rr_Header rr" and ?k = "name_len (Hdr_Name (rr_Header rr))"
  have ok: "ok_name (Hdr_Name ?h)" "rdata_ok rr" using assms(1) by (auto simp: rr_ok_def)
  have L: "Len rr = ?k + 10 + rd_size rr" using rr_len_None [of rr 0] by (simp add: Len_def)
  have nn: "cm_nonneg cm" using assms(3) by (rule cm_sound_nonneg)
  have "writes (?k + 10) (\<lambda>msg off cm.
      bindR (packDomainName (Hdr_Name ?h) msg off cm compress) (\<lambda>(msg, cm, off).
      bindR (packUint16 (Hdr_Rrtype ?h) msg off) (\<lambda>(msg, off).
      bindR (packUint16 (Hdr_Class ?h) msg off) (\<lambda>(msg, off).
      bindR (packUint32 (Hdr_Ttl ?h) msg off) (\<lambda>(msg, off).
      bindR (packUint16 0 msg off) (\<lambda>(msg, off).
      Ok (msg, cm, off)))))))" (is "writes _ ?H")
    by (rule writes_le, rule writes_name_step [rotated], (rule writes_u16 writes_u32)+, rule writes_end) (simp_all add: ok(1))
  then obtain e1 c1 where "writes_as e1 c1 (?k + 10) ?H off cm" using nn unfolding writes_def by blast
  note H = writes_asD [OF this]
  obtain m1 where m1: "packHeader ?h msg off cm compress = Ok (m1, c1, off + length e1)" "length m1 = length msg"
  proof -
    obtain r where r: "?H msg off cm = Ok r" using H(4) [where msg = msg] assms(4) L by auto
    with H(3) [OF r] assms(4) L show ?thesis
      by (intro that [of "put msg off e1"]) (auto simp: packHeader_def split: if_splits)
  qed
  obtain e2 c2 where "writes_as e2 c2 (rd_size rr) (\<lambda>msg off cm. rr_pack rr msg off cm compress) (off + length e1) c1"
    using rsize.pack_writes [OF ok(2)] H(1) unfolding writes_def by blast
  note D = writes_asD [OF this]
  obtain r where r: "rr_pack rr m1 (off + length e1) c1 compress = Ok r"
    using D(4) [where msg = m1] m1(2) H(2) assms(4) L by auto
  have "off < length msg" using assms(4) by simp
  then have he: "2 \<le> off + length e1" "off + length e1 \<le> length msg"
    using packHeader_result [OF ok(1) _ assms(3) m1(1)] m1(2) by fastforce+
  from D(3) [OF r] m1(2) he(2) have R: "r = (put m1 (off + length e1) e2, c2, off + length e1 + length e2)"
    "length (put m1 (off + length e1) e2) = length msg" by (cases "e2 = []"; auto)+
  have "unat (of_nat (length e2) :: u16) = length e2" using D(2) assms(2) by (simp add: unat_of_nat)
  with m1(1) r R he have "\<exists>msg' cm'. packRR (Some rr) msg off cm compress = Ok (msg', cm', off + length e1, off + length e1 + length e2)"
    by (simp add: packRR_def Let_def)
  then show ?thesis using that H(2) D(2) L by fastforce
qed

subsection \<open>Unpacking a record does not panic\<close>

lemma unpack_ints:
  "unpackUint16 msg off = Ok (v, o') \<Longrightarrow> o' = off + 2 \<and> o' \<le> length msg" "unpackUint16 msg off \<noteq> Panic"
  "unpackUint32 msg off = Ok (w, o') \<Longrightarrow> o' = off + 4 \<and> o' \<le> length msg" "unpackUint32 msg off \<noteq> Panic"
  by (auto simp: unpackUint16_def unpackUint32_def split: if_splits)

lemma truncateMsgFromRdlength_eq:
  "truncateMsgFromRdlength msg off n =
     (if off + unat n \<le> length msg then Ok (take (off + unat n) msg) else Err (ErrMsg ''overflowing header size''))"
  by (simp add: truncateMsgFromRdlength_def Let_def)

lemma unpackHeader_Ok:
  assumes "unpackHeader msg off = Ok (h, off', msg')" and "off \<noteq> length msg"
  shows "off + 11 \<le> off' \<and> off' + unat (Hdr_Rdlength h) = length msg' \<and> length msg' \<le> length msg"
proof -
  from assms obtain name o1 o2 o3 o4 v1 v2 v3 where
    u: "UnpackDomainName msg off = Ok (name, o1)" "unpackUint16 msg o1 = Ok (v1, o2)" "unpackUint16 msg o2 = Ok (v2, o3)"
      "unpackUint32 msg o3 = Ok (v3, o4)" "unpackUint16 msg o4 = Ok (Hdr_Rdlength h, off')"
    and t: "truncateMsgFromRdlength msg off' (Hdr_Rdlength h) = Ok msg'"
    by (auto simp: unpackHeader_def bindR_eq_Ok)
  from UnpackDomainName_progress [OF u(1)] unpack_ints(1) [OF u(2)] unpack_ints(1) [OF u(3)] unpack_ints(3) [OF u(4)]
    unpack_ints(1) [OF u(5)] t
  show ?thesis by (auto simp: truncateMsgFromRdlength_eq split: if_splits)
qed

lemma unpackHeader_not_Panic: "unpackHeader msg off \<noteq> Panic"
  using UnpackDomainName_safe_progress [THEN safe_not_Panic]
  by (auto simp: unpackHeader_def bindR_eq_Panic unpack_ints truncateMsgFromRdlength_eq)

lemma UnpackRRWithHeader_safe:
  assumes "off + unat (Hdr_Rdlength h) = length msg"
  shows "safe (UnpackRRWithHeader h msg off) (\<lambda>(rr, off'). off' = length msg)"
proof -
  have "safe (rr_unpack (newRR h) msg off) (\<lambda>(v, off'). off \<le> off' \<and> off' \<le> length msg)"
    using assms by (intro rdata.unpack_within) auto
  then show ?thesis using assms
    unfolding UnpackRRWithHeader_def Let_def
    by (auto simp: noRdata_def intro!: safe_bind)
qed

lemma UnpackRR_safe:
  assumes "off \<le> length msg"
  shows "safe (UnpackRR msg off) (\<lambda>(rr, off'). (if off = length msg then off' = off else off + 11 \<le> off') \<and> off' \<le> length msg)"
proof (cases "unpackHeader msg off")
  case (Ok r)
  then obtain h o1 m where h: "unpackHeader msg off = Ok (h, o1, m)" by (cases r) auto
  have b: "if off = length msg then o1 = off \<and> length m = off else off + 11 \<le> o1" "o1 + unat (Hdr_Rdlength h) = length m" "length m \<le> length msg"
    using unpackHeader_Ok [OF h] h by (auto simp: unpackHeader_def zero_Header_def split: if_splits)
  have "safe (UnpackRRWithHeader h m o1) (\<lambda>(rr, off'). off' = length m)" using b(2) by (rule UnpackRRWithHeader_safe)
  then have "safe (UnpackRRWithHeader h m o1) (\<lambda>(rr, off'). (if off = length msg then off' = off else off + 11 \<le> off') \<and> off' \<le> length msg)"
    by (rule safe_mono) (use b in \<open>auto split: if_splits\<close>)
  then show ?thesis by (simp add: UnpackRR_def h)
next
  case (Err e)
  then show ?thesis by (simp add: UnpackRR_def)
next
  case Panic
  then show ?thesis using unpackHeader_not_Panic by simp
qed

text \<open>
  However large the count in the header of a message is, the records that are read are at most one
  for every eleven octets left.
\<close>

lemma unpackRRslice_loop_safe:
  assumes "off \<le> length msg"
  shows "safe (unpackRRslice_loop l msg off dst) (\<lambda>(rrs, off'). off \<le> off' \<and> off' \<le> length msg \<and>
    length rrs \<le> length dst + l \<and> off + 11 * length rrs \<le> off' + 11 * length dst)"
  using assms
proof (induction l arbitrary: off dst)
  case (Suc l)
  have "safe (mapErr (fail_at (length msg)) (UnpackRR msg off))
      (\<lambda>(rr, off'). (if off = length msg then off' = off else off + 11 \<le> off') \<and> off' \<le> length msg)"
    using UnpackRR_safe [OF Suc.prems] by simp
  moreover have "safe (unpackRRslice_loop l msg off' (dst @ [r])) (\<lambda>(rrs, off''). off \<le> off'' \<and> off'' \<le> length msg \<and>
      length rrs \<le> length dst + Suc l \<and> off + 11 * length rrs \<le> off'' + 11 * length dst)"
    if "off + 11 \<le> off'" "off' \<le> length msg" for off' r
    using Suc.IH [OF that(2)] by (rule safe_mono) (use that in auto)
  ultimately show ?case unfolding unpackRRslice_loop.simps
    by (elim safe_bind) (auto split: if_splits)
qed simp

lemma unpackRRslice_safe:
  assumes "off \<le> length msg"
  shows "safe (unpackRRslice l msg off) (\<lambda>(rrs, off'). off \<le> off' \<and> off' \<le> length msg \<and> length rrs \<le> l \<and> off + 11 * length rrs \<le> off')"
  using unpackRRslice_loop_safe [OF assms, of l "[]"] by (simp add: unpackRRslice_def)

subsection \<open>A record that was unpacked has the type of its header\<close>

definition typed :: "RR \<Rightarrow> bool" where
  "typed rr \<longleftrightarrow> type_ok (rr_Header rr) rr"

lemma UnpackRRWithHeader_typed:
  assumes "UnpackRRWithHeader h msg off = Ok (rr, off')"
  shows "rr_Header rr = h" and "typed rr"
proof -
  from assms have "rr = newRR h \<or> (\<exists>o'. rr_unpack (newRR h) msg off = Ok (rr, o'))"
    by (auto simp: UnpackRRWithHeader_def Let_def bindR_eq_Ok split: if_splits)
  then have "rr_Header rr = h \<and> rr_type rr = rr_type (newRR h)"
    using rr_unpack_Header by fastforce
  then show "rr_Header rr = h" "typed rr" using newRR_type_ok [of h] by (auto simp: typed_def type_ok_def)
qed

lemma UnpackRR_typed: "UnpackRR msg off = Ok (rr, off') \<Longrightarrow> typed rr"
  by (auto simp: UnpackRR_def bindR_eq_Ok dest: UnpackRRWithHeader_typed)

lemma unpackRRslice_loop_typed:
  "unpackRRslice_loop l msg off dst = Ok (rrs, off') \<Longrightarrow> list_all typed dst \<Longrightarrow> list_all typed rrs"
  by (induction l arbitrary: off dst) (auto simp: bindR_eq_Ok dest: UnpackRR_typed split: if_splits)

lemma unpackRRslice_typed: "unpackRRslice l msg off = Ok (rrs, off') \<Longrightarrow> list_all typed rrs"
  unfolding unpackRRslice_def by (rule unpackRRslice_loop_typed) auto

subsection \<open>The properties of records\<close>

lemma ex_A_facts: "rr_ok ex_A" "rd_size ex_A = 4" "Len ex_A = 17"
  by code_simp+

text \<open>
  C34: A record that was unpacked is of the struct that belongs to the type code in its header, or an
  \<^verbatim>\<open>RFC3597\<close> record when the code is unknown.
\<close>

theorem UnpackRR_type: "UnpackRR msg off = Ok (rr, off') \<Longrightarrow> type_ok (rr_Header rr) rr"
  using UnpackRR_typed unfolding typed_def .

theorem UnpackRR_type_witness:
  "\<exists>rr. UnpackRR [0, 0, 1, 0, 1, 0, 0, 0, 0, 0, 4, 192, 0, 2, 1] 0 = Ok (rr, 15) \<and> type_ok (rr_Header rr) rr"
proof -
  let ?rr = "RR_A \<lparr>A_Hdr = \<lparr>Hdr_Name = [DOT], Hdr_Rrtype = TypeA, Hdr_Class = 1, Hdr_Ttl = 0, Hdr_Rdlength = 4\<rparr>, A_A = [192, 0, 2, 1]\<rparr>"
  have "UnpackRR [0, 0, 1, 0, 1, 0, 0, 0, 0, 0, 4, 192, 0, 2, 1] 0 = Ok (?rr, 15)" by code_simp
  with UnpackRR_type [OF this] show ?thesis by blast
qed

text \<open>
  C33: \<^verbatim>\<open>UnpackRR\<close> never panics and never leaves the message, whatever the octets are; a record takes
  at least eleven octets, unless the offset is at the end of the message, where it stays.
\<close>

theorem UnpackRR_stays_inside:
  assumes "off \<le> length msg"
  shows "safe (UnpackRR msg off) (\<lambda>(rr, off'). (if off = length msg then off' = off else off + 11 \<le> off') \<and> off' \<le> length msg)"
  using assms by (rule UnpackRR_safe)

theorem UnpackRR_stays_inside_witness:
  "safe (UnpackRR [0, 0, 1, 0] 0) (\<lambda>(rr, off'). 11 \<le> off' \<and> off' \<le> 4)"
  using UnpackRR_stays_inside [of 0 "[0, 0, 1, 0]"] by (simp add: numeral_eq_Suc)

text \<open>
  C9: A whole record reads back, with or without compression: when \<^verbatim>\<open>packRR\<close> succeeds for a record whose owner
  name and data are in the form the unpackers write (\<open>ok_name\<close>, \<open>rdata_ok\<close>) and whose type code belongs to its
  struct, with a compression map that only points to names before it, \<^verbatim>\<open>UnpackRR\<close> gives the record with the length of
  its data in the header, from every message that begins with what was packed; the octets before the record are as they were,
  and the compression map only points to names. Values in other forms can be packed and read back differently: an A record with
  16 octets, a backslash in a CAA or URI value, an AMTRELAY record with the discovery bit.
\<close>

theorem record_reads_back:
  assumes "rr_ok rr" and "off < length msg" and "cm_sound cm (take off msg)"
    and "packRR (Some rr) msg off cm compress = Ok (msg', cm', headerEnd, off')"
  shows "extends msg off msg' off' \<and> cm_sound cm' (take off' msg') \<and>
    (\<forall>z. UnpackRR (take off' msg' @ z) off = Ok (with_rdlength (of_nat (off' - headerEnd)) rr, off'))"
proof -
  note R = packRR_reads_back [OF assms]
  have "agree (take off' msg' @ z) msg' off'" for z using R(1) by (simp add: agree_def extends_def)
  with R show ?thesis by blast
qed

theorem record_reads_back_witness:
  "\<exists>msg' cm' he off'. packRR (Some ex_A) (replicate 30 0) 0 no_compression False = Ok (msg', cm', he, off') \<and>
     UnpackRR (take off' msg' @ [1, 2, 3]) 0 = Ok (with_rdlength (of_nat (off' - he)) ex_A, off')"
proof -
  have ok: "rr_ok ex_A" "rd_size ex_A < 65536" and len: "Len ex_A = 17" using ex_A_facts by simp_all
  have "0 + Len ex_A < length (replicate 30 (0 :: byte))" by (simp add: len)
  then obtain msg' cm' he off' where p: "packRR (Some ex_A) (replicate 30 0) 0 no_compression False = Ok (msg', cm', he, off')"
    by (rule packRR_total [OF ok cm_sound_none])
  have "0 < length (replicate 30 (0 :: byte))" by simp
  from record_reads_back [OF ok(1) this cm_sound_none p]
  have "\<forall>z. UnpackRR (take off' msg' @ z) 0 = Ok (with_rdlength (of_nat (off' - he)) ex_A, off')" by (elim conjE)
  then have "UnpackRR (take off' msg' @ [1, 2, 3]) 0 = Ok (with_rdlength (of_nat (off' - he)) ex_A, off')" by (rule spec)
  with p show ?thesis by (intro exI conjI)
qed

text \<open>
  C32: The length that the \<^verbatim>\<open>len\<close> methods compute is enough: a record that is well-formed and
  has less than 64 KiB of data packs into every buffer that has that many octets left and one more,
  and takes at most that many octets.
\<close>

theorem record_packs:
  assumes "rr_ok rr" and "rd_size rr < 65536" and "cm_sound cm (take off msg)" and "off + Len rr < length msg"
  shows "\<exists>msg' cm' headerEnd off'. packRR (Some rr) msg off cm compress = Ok (msg', cm', headerEnd, off') \<and> off' \<le> off + Len rr"
  using packRR_total [OF assms] by metis

theorem record_packs_witness:
  "\<exists>msg' cm' headerEnd off'. packRR (Some ex_A) (replicate 18 0) 0 no_compression True = Ok (msg', cm', headerEnd, off') \<and> off' \<le> 17"
proof -
  have ok: "rr_ok ex_A" "rd_size ex_A < 65536" and len: "Len ex_A = 17" using ex_A_facts by simp_all
  from record_packs [OF ok cm_sound_none, of 0 "replicate 18 0" True] len show ?thesis by simp
qed

end
