(* ===== verification/Opt_Header.thy ===== *)
theory Opt_Header
  imports RR_Types
begin

section \<open>The fields in the header of an OPT record\<close>

text \<open>
  \<^verbatim>\<open>edns.go\<close> keeps the extended RCODE, the version, the flags and the Z bits of EDNS in the TTL
  of the header, and the size of the UDP buffer in its class. The accessors are translated as they
  are; each is then shown to be a field of the TTL, from which the laws for reading and writing
  follow once for all of them.
\<close>

definition Version :: "OPT \<Rightarrow> byte" where
  "Version rr = ucast (drop_bit 16 (Hdr_Ttl (OPT_Hdr rr) AND 0x00FF0000))"

definition set_Ttl :: "u32 \<Rightarrow> OPT \<Rightarrow> OPT" where
  "set_Ttl v rr = rr\<lparr>OPT_Hdr := (OPT_Hdr rr)\<lparr>Hdr_Ttl := v\<rparr>\<rparr>"

definition SetVersion :: "byte \<Rightarrow> OPT \<Rightarrow> OPT" where
  "SetVersion v rr = set_Ttl (Hdr_Ttl (OPT_Hdr rr) AND 0xFF00FFFF OR push_bit 16 (ucast v)) rr"

definition ExtendedRcode :: "OPT \<Rightarrow> int" where
  "ExtendedRcode rr = push_bit 4 (uint (drop_bit 24 (Hdr_Ttl (OPT_Hdr rr) AND 0xFF000000)))"

definition SetExtendedRcode :: "u16 \<Rightarrow> OPT \<Rightarrow> OPT" where
  "SetExtendedRcode v rr =
     set_Ttl (Hdr_Ttl (OPT_Hdr rr) AND 0x00FFFFFF OR push_bit 24 (ucast (drop_bit 4 v))) rr"

definition UDPSize :: "OPT \<Rightarrow> u16" where
  "UDPSize rr = Hdr_Class (OPT_Hdr rr)"

definition SetUDPSize :: "u16 \<Rightarrow> OPT \<Rightarrow> OPT" where
  "SetUDPSize v rr = rr\<lparr>OPT_Hdr := (OPT_Hdr rr)\<lparr>Hdr_Class := v\<rparr>\<rparr>"

abbreviation DO_bit :: u32 where "DO_bit \<equiv> 0x8000"
abbreviation CO_bit :: u32 where "CO_bit \<equiv> 0x4000"

definition Do :: "OPT \<Rightarrow> bool" where
  "Do rr \<longleftrightarrow> Hdr_Ttl (OPT_Hdr rr) AND DO_bit = DO_bit"

text \<open>The variadic argument is a list: exactly one value is used, any other number sets the bit.\<close>

definition SetDo :: "bool list \<Rightarrow> OPT \<Rightarrow> OPT" where
  "SetDo arg rr =
     (if length arg = 1 then
        if arg ! 0 then set_Ttl (Hdr_Ttl (OPT_Hdr rr) OR DO_bit) rr
        else set_Ttl (Hdr_Ttl (OPT_Hdr rr) AND NOT DO_bit) rr
      else set_Ttl (Hdr_Ttl (OPT_Hdr rr) OR DO_bit) rr)"

definition Co :: "OPT \<Rightarrow> bool" where
  "Co rr \<longleftrightarrow> Hdr_Ttl (OPT_Hdr rr) AND CO_bit = CO_bit"

definition SetCo :: "bool list \<Rightarrow> OPT \<Rightarrow> OPT" where
  "SetCo arg rr =
     (if length arg = 1 then
        if arg ! 0 then set_Ttl (Hdr_Ttl (OPT_Hdr rr) OR CO_bit) rr
        else set_Ttl (Hdr_Ttl (OPT_Hdr rr) AND NOT CO_bit) rr
      else set_Ttl (Hdr_Ttl (OPT_Hdr rr) OR CO_bit) rr)"

definition Z :: "OPT \<Rightarrow> u16" where
  "Z rr = ucast (Hdr_Ttl (OPT_Hdr rr) AND 0x3FFF)"

definition SetZ :: "u16 \<Rightarrow> OPT \<Rightarrow> OPT" where
  "SetZ z rr = set_Ttl (Hdr_Ttl (OPT_Hdr rr) AND NOT 0x3FFF OR ucast (z AND 0x3FFF)) rr"

subsection \<open>Bit fields\<close>

text \<open>The field of \<open>w\<close> bits from bit \<open>p\<close> on, and replacing it.\<close>

definition bits_at :: "nat \<Rightarrow> nat \<Rightarrow> u32 \<Rightarrow> u32" where
  "bits_at p w x = take_bit w (drop_bit p x)"

definition put_bits :: "nat \<Rightarrow> nat \<Rightarrow> u32 \<Rightarrow> u32 \<Rightarrow> u32" where
  "put_bits p w v x = (x AND NOT (push_bit p (mask w))) OR push_bit p (take_bit w v)"

lemma bits_at_put: "p + w \<le> 32 \<Longrightarrow> bits_at p w (put_bits p w v x) = take_bit w v"
  by (rule bit_word_eqI) (auto simp: bits_at_def put_bits_def bit_simps dest: bit_imp_le_length)

lemma bits_at_put_other: "p + w \<le> q \<or> q + k \<le> p \<Longrightarrow> bits_at q k (put_bits p w v x) = bits_at q k x"
  by (rule bit_word_eqI) (auto simp: bits_at_def put_bits_def bit_simps dest: bit_imp_le_length)

lemma put_bits_put: "put_bits p w v' (put_bits p w v x) = put_bits p w v' x"
  by (rule bit_word_eqI) (auto simp: put_bits_def bit_simps)

lemma put_bits_same: "put_bits p w (bits_at p w x) x = x"
  by (rule bit_word_eqI) (auto simp: bits_at_def put_bits_def bit_simps dest: bit_imp_le_length)

subsection \<open>The accessors are bit fields\<close>

lemma field_masks:
  "(0x00FF0000 :: u32) = push_bit 16 (mask 8)" "(0xFF00FFFF :: u32) = NOT (push_bit 16 (mask 8))"
  "(0xFF000000 :: u32) = push_bit 24 (mask 8)" "(0x00FFFFFF :: u32) = NOT (push_bit 24 (mask 8))"
  "(0x3FFF :: u32) = push_bit 0 (mask 14)" "(0x3FFF :: u16) = mask 14"
  "DO_bit = push_bit 15 (mask 1)" "CO_bit = push_bit 14 (mask 1)"
  by (simp_all add: mask_eq_exp_minus_1 push_bit_eq_mult not_eq_complement)

lemma getters:
  "Version rr = ucast (bits_at 16 8 (Hdr_Ttl (OPT_Hdr rr)))"
  "drop_bit 24 (Hdr_Ttl (OPT_Hdr rr) AND 0xFF000000) = bits_at 24 8 (Hdr_Ttl (OPT_Hdr rr))"
  "Z rr = ucast (bits_at 0 14 (Hdr_Ttl (OPT_Hdr rr)))"
  unfolding Version_def Z_def field_masks bits_at_def
  by (intro bit_word_eqI; auto simp: bit_simps)+

lemma flag_bit:
  assumes "n < 32"
  shows "(x :: u32) AND push_bit n 1 = push_bit n 1 \<longleftrightarrow> bit x n"
proof
  assume "x AND push_bit n 1 = push_bit n 1"
  then have "bit (x AND push_bit n 1) n = bit (push_bit n (1 :: u32)) n" by simp
  then show "bit x n" using assms by (simp add: bit_simps)
next
  assume "bit x n"
  then show "x AND push_bit n 1 = push_bit n 1"
    by (intro bit_word_eqI) (auto simp: bit_simps)
qed

lemma flags:
  "Do rr \<longleftrightarrow> bits_at 15 1 (Hdr_Ttl (OPT_Hdr rr)) = 1" "Co rr \<longleftrightarrow> bits_at 14 1 (Hdr_Ttl (OPT_Hdr rr)) = 1"
  using flag_bit [of 15 "Hdr_Ttl (OPT_Hdr rr)"] flag_bit [of 14 "Hdr_Ttl (OPT_Hdr rr)"]
  by (simp_all add: Do_def Co_def bits_at_def take_bit_Suc bit_iff_odd_drop_bit flip: odd_iff_mod_2_eq_one)

lemma setters:
  "SetVersion v rr = set_Ttl (put_bits 16 8 (ucast v) (Hdr_Ttl (OPT_Hdr rr))) rr"
  "SetExtendedRcode u rr = set_Ttl (put_bits 24 8 (ucast (drop_bit 4 u)) (Hdr_Ttl (OPT_Hdr rr))) rr"
  "SetZ z rr = set_Ttl (put_bits 0 14 (ucast z) (Hdr_Ttl (OPT_Hdr rr))) rr"
  unfolding SetVersion_def SetExtendedRcode_def SetZ_def field_masks put_bits_def
  by (rule arg_cong [of _ _ "\<lambda>x. set_Ttl x rr"], rule bit_word_eqI, auto simp: bit_simps dest: bit_imp_le_length)+

lemma flag_setters:
  "SetDo arg rr = set_Ttl (put_bits 15 1 (if arg = [False] then 0 else 1) (Hdr_Ttl (OPT_Hdr rr))) rr"
  "SetCo arg rr = set_Ttl (put_bits 14 1 (if arg = [False] then 0 else 1) (Hdr_Ttl (OPT_Hdr rr))) rr"
proof -
  have "arg = [False] \<or> length arg = 1 \<and> arg ! 0 \<and> arg \<noteq> [False] \<or> length arg \<noteq> 1 \<and> arg \<noteq> [False]"
    by (cases arg) auto
  then show "SetDo arg rr = set_Ttl (put_bits 15 1 (if arg = [False] then 0 else 1) (Hdr_Ttl (OPT_Hdr rr))) rr"
    "SetCo arg rr = set_Ttl (put_bits 14 1 (if arg = [False] then 0 else 1) (Hdr_Ttl (OPT_Hdr rr))) rr"
    by (elim disjE; simp add: SetDo_def SetCo_def put_bits_def; intro arg_cong [of _ _ "\<lambda>x. set_Ttl x rr"] bit_word_eqI; auto simp: bit_simps)+
qed

lemma set_Ttl_simps [simp]:
  "Hdr_Ttl (OPT_Hdr (set_Ttl v rr)) = v" "Hdr_Class (OPT_Hdr (set_Ttl v rr)) = Hdr_Class (OPT_Hdr rr)"
  "Hdr_Ttl (OPT_Hdr (SetUDPSize s rr)) = Hdr_Ttl (OPT_Hdr rr)" "Hdr_Class (OPT_Hdr (SetUDPSize s rr)) = s"
  by (simp_all add: set_Ttl_def SetUDPSize_def)

subsection \<open>What the accessors promise\<close>

text \<open>
  The abstract state of the header of an OPT record: six values that are read and written
  independently of each other.
\<close>

record edns_view =
  ev_rcode :: int
  ev_version :: byte
  ev_do :: bool
  ev_co :: bool
  ev_z :: u16
  ev_udp :: u16

definition edns_view_of :: "OPT \<Rightarrow> edns_view" where
  "edns_view_of rr =
     \<lparr>ev_rcode = ExtendedRcode rr, ev_version = Version rr, ev_do = Do rr, ev_co = Co rr, ev_z = Z rr, ev_udp = UDPSize rr\<rparr>"

lemma extended_rcode: "ExtendedRcode rr = uint (bits_at 24 8 (Hdr_Ttl (OPT_Hdr rr))) * 16"
  unfolding ExtendedRcode_def getters(2) by (simp add: push_bit_eq_mult)

lemma field_casts:
  "ucast (take_bit 8 (ucast v :: u32)) = (v :: byte)"
  "uint (take_bit 8 (ucast (drop_bit 4 u) :: u32)) = uint (u :: u16) div 16 mod 256"
proof -
  show "ucast (take_bit 8 (ucast v :: u32)) = (v :: byte)" by (rule bit_word_eqI) (auto simp: bit_simps)
  have "take_bit 16 (uint u) = uint u" using uint_lt2p [of u] by (simp add: take_bit_int_eq_self)
  then have "uint (take_bit 8 (ucast (drop_bit 4 u) :: u32)) = take_bit 8 (drop_bit 4 (uint u))"
    by (simp only: unsigned_take_bit_eq unsigned_ucast_eq unsigned_drop_bit_eq) simp
  then show "uint (take_bit 8 (ucast (drop_bit 4 u) :: u32)) = uint u div 16 mod 256"
    by (simp add: take_bit_eq_mod drop_bit_eq_div)
qed

lemma field_mask14: "ucast (take_bit 14 (ucast z :: u32)) = (z :: u16) AND 0x3FFF"
  unfolding field_masks by (rule bit_word_eqI) (auto simp: bit_simps)

lemma opt_setters:
  "edns_view_of (SetVersion v rr) = (edns_view_of rr)\<lparr>ev_version := v\<rparr>"
  "edns_view_of (SetExtendedRcode u rr) = (edns_view_of rr)\<lparr>ev_rcode := (uint u div 16 mod 256) * 16\<rparr>"
  "edns_view_of (SetDo arg rr) = (edns_view_of rr)\<lparr>ev_do := arg \<noteq> [False]\<rparr>"
  "edns_view_of (SetCo arg rr) = (edns_view_of rr)\<lparr>ev_co := arg \<noteq> [False]\<rparr>"
  "edns_view_of (SetZ z rr) = (edns_view_of rr)\<lparr>ev_z := z AND 0x3FFF\<rparr>"
  "edns_view_of (SetUDPSize s rr) = (edns_view_of rr)\<lparr>ev_udp := s\<rparr>"
  by (simp_all add: edns_view_of_def getters(1,3) extended_rcode flags setters flag_setters UDPSize_def bits_at_put bits_at_put_other
      field_casts field_mask14)

text \<open>
  C36: The accessors of an OPT record refine six independent values: each setter changes the value it
  is named after and no other. Only the upper eight of the twelve bits of an RCODE are kept, the Z bits
  are fourteen, and a flag is set unless its setter is given exactly one argument, false.
\<close>

theorem opt_setters_refine:
  "edns_view_of (SetVersion v rr) = (edns_view_of rr)\<lparr>ev_version := v\<rparr> \<and>
   edns_view_of (SetExtendedRcode u rr) = (edns_view_of rr)\<lparr>ev_rcode := (uint u div 16 mod 256) * 16\<rparr> \<and>
   edns_view_of (SetDo arg rr) = (edns_view_of rr)\<lparr>ev_do := arg \<noteq> [False]\<rparr> \<and>
   edns_view_of (SetCo arg rr) = (edns_view_of rr)\<lparr>ev_co := arg \<noteq> [False]\<rparr> \<and>
   edns_view_of (SetZ z rr) = (edns_view_of rr)\<lparr>ev_z := z AND 0x3FFF\<rparr> \<and>
   edns_view_of (SetUDPSize s rr) = (edns_view_of rr)\<lparr>ev_udp := s\<rparr>"
  using opt_setters by simp

end
