(* ===== verification/Message.thy ===== *)
theory Message
  imports RR_Wire Opt_Header
begin

section \<open>Messages\<close>

text \<open>
  The message type of \<^verbatim>\<open>msg.go\<close> and its conversion to and from the wire. The records of a
  section may be nil (\<^const>\<open>None\<close>), as in Go; \<^verbatim>\<open>Opcode\<close> and \<^verbatim>\<open>Rcode\<close> are Go's
  \<^verbatim>\<open>int\<close>. \<^verbatim>\<open>Pack\<close> also writes the extended RCODE into the caller's OPT record, and
  \<^verbatim>\<open>Unpack\<close> leaves what it has read so far in the message when it fails: both return the
  message beside their result.
\<close>

subsection \<open>Data\<close>

record Question =
  Q_Name :: gostring
  Q_Qtype :: u16
  Q_Qclass :: u16

record Header =
  DH_Id :: u16
  DH_Bits :: u16
  DH_Qdcount :: u16
  DH_Ancount :: u16
  DH_Nscount :: u16
  DH_Arcount :: u16

record MsgHdr =
  Msg_Id :: u16
  Msg_Response :: bool
  Msg_Opcode :: int
  Msg_Authoritative :: bool
  Msg_Truncated :: bool
  Msg_RecursionDesired :: bool
  Msg_RecursionAvailable :: bool
  Msg_Zero :: bool
  Msg_AuthenticatedData :: bool
  Msg_CheckingDisabled :: bool
  Msg_Rcode :: int

record Msg = MsgHdr +
  Msg_Compress :: bool
  Msg_Question :: "Question list"
  Msg_Answer :: "RR option list"
  Msg_Ns :: "RR option list"
  Msg_Extra :: "RR option list"

abbreviation headerSize :: nat where "headerSize \<equiv> 12"

abbreviation QR_bit :: u16 where "QR_bit \<equiv> 0x8000"
abbreviation AA_bit :: u16 where "AA_bit \<equiv> 0x0400"
abbreviation TC_bit :: u16 where "TC_bit \<equiv> 0x0200"
abbreviation RD_bit :: u16 where "RD_bit \<equiv> 0x0100"
abbreviation RA_bit :: u16 where "RA_bit \<equiv> 0x0080"
abbreviation Z_bit :: u16 where "Z_bit \<equiv> 0x0040"
abbreviation AD_bit :: u16 where "AD_bit \<equiv> 0x0020"
abbreviation CD_bit :: u16 where "CD_bit \<equiv> 0x0010"

text \<open>\<^verbatim>\<open>new(Msg)\<close>.\<close>

definition new_Msg :: Msg where
  "new_Msg = \<lparr>Msg_Id = 0, Msg_Response = False, Msg_Opcode = 0, Msg_Authoritative = False, Msg_Truncated = False,
     Msg_RecursionDesired = False, Msg_RecursionAvailable = False, Msg_Zero = False, Msg_AuthenticatedData = False,
     Msg_CheckingDisabled = False, Msg_Rcode = 0, Msg_Compress = False, Msg_Question = [], Msg_Answer = [],
     Msg_Ns = [], Msg_Extra = []\<rparr>"

subsection \<open>Questions and headers\<close>

definition Question_len :: "Question \<Rightarrow> nat \<Rightarrow> lenMap \<Rightarrow> nat \<times> lenMap" where
  "Question_len q off c =
     (let (l, c) = domainNameLen (Q_Name q) off c True;
          l = l + (2 + 2) in (l, c))"

definition Question_pack ::
  "Question \<Rightarrow> bytes \<Rightarrow> nat \<Rightarrow> compressionMap \<Rightarrow> bool \<Rightarrow> (bytes \<times> compressionMap \<times> nat) off_res" where
  "Question_pack q msg off compression compress =
     bindR (packDomainName (Q_Name q) msg off compression compress) (\<lambda>(msg, compression, off).
     bindR (packUint16 (Q_Qtype q) msg off) (\<lambda>(msg, off).
     bindR (packUint16 (Q_Qclass q) msg off) (\<lambda>(msg, off).
     Ok (msg, compression, off))))"

text \<open>A question may end early, at the end of the message; the fields that are missing are zero.\<close>

definition unpackQuestion :: "bytes \<Rightarrow> nat \<Rightarrow> (Question \<times> nat) off_res" where
  "unpackQuestion msg off =
     bindR (mapErr (wrap ''bad question name'') (UnpackDomainName msg off)) (\<lambda>(name, off).
     let q = \<lparr>Q_Name = name, Q_Qtype = 0, Q_Qclass = 0\<rparr> in
     if off = length msg then Ok (q, off)
     else
       bindR (mapErr (wrap ''bad question qtype'') (unpackUint16 msg off)) (\<lambda>(qtype, off).
       let q = q\<lparr>Q_Qtype := qtype\<rparr> in
       if off = length msg then Ok (q, off)
       else
         bindR (mapErr (wrap ''bad question qclass'') (unpackUint16 msg off)) (\<lambda>(qclass, off).
         Ok (q\<lparr>Q_Qclass := qclass\<rparr>, off))))"

definition Header_pack :: "Header \<Rightarrow> bytes \<Rightarrow> nat \<Rightarrow> (bytes \<times> nat) off_res" where
  "Header_pack dh msg off =
     bindR (packUint16 (DH_Id dh) msg off) (\<lambda>(msg, off).
     bindR (packUint16 (DH_Bits dh) msg off) (\<lambda>(msg, off).
     bindR (packUint16 (DH_Qdcount dh) msg off) (\<lambda>(msg, off).
     bindR (packUint16 (DH_Ancount dh) msg off) (\<lambda>(msg, off).
     bindR (packUint16 (DH_Nscount dh) msg off) (\<lambda>(msg, off).
     packUint16 (DH_Arcount dh) msg off)))))"

definition unpackMsgHdr :: "bytes \<Rightarrow> nat \<Rightarrow> (Header \<times> nat) off_res" where
  "unpackMsgHdr msg off =
     bindR (mapErr (wrap ''bad header id'') (unpackUint16 msg off)) (\<lambda>(ident, off).
     bindR (mapErr (wrap ''bad header bits'') (unpackUint16 msg off)) (\<lambda>(bits, off).
     bindR (mapErr (wrap ''bad header question count'') (unpackUint16 msg off)) (\<lambda>(qd, off).
     bindR (mapErr (wrap ''bad header answer count'') (unpackUint16 msg off)) (\<lambda>(an, off).
     bindR (mapErr (wrap ''bad header ns count'') (unpackUint16 msg off)) (\<lambda>(ns, off).
     bindR (mapErr (wrap ''bad header extra count'') (unpackUint16 msg off)) (\<lambda>(ar, off).
     Ok (\<lparr>DH_Id = ident, DH_Bits = bits, DH_Qdcount = qd, DH_Ancount = an, DH_Nscount = ns, DH_Arcount = ar\<rparr>, off)))))))"

definition setHdr :: "Header \<Rightarrow> Msg \<Rightarrow> Msg" where
  "setHdr dh dns =
     dns\<lparr>Msg_Id := DH_Id dh,
         Msg_Response := DH_Bits dh AND QR_bit \<noteq> 0,
         Msg_Opcode := uint (drop_bit 11 (DH_Bits dh)) AND 0xF,
         Msg_Authoritative := DH_Bits dh AND AA_bit \<noteq> 0,
         Msg_Truncated := DH_Bits dh AND TC_bit \<noteq> 0,
         Msg_RecursionDesired := DH_Bits dh AND RD_bit \<noteq> 0,
         Msg_RecursionAvailable := DH_Bits dh AND RA_bit \<noteq> 0,
         Msg_Zero := DH_Bits dh AND Z_bit \<noteq> 0,
         Msg_AuthenticatedData := DH_Bits dh AND AD_bit \<noteq> 0,
         Msg_CheckingDisabled := DH_Bits dh AND CD_bit \<noteq> 0,
         Msg_Rcode := uint (DH_Bits dh AND 0xF)\<rparr>"

text \<open>The bits of the header, in \<^verbatim>\<open>packBufferWithCompressionMap\<close>.\<close>

definition msg_bits :: "Msg \<Rightarrow> u16" where
  "msg_bits dns =
     push_bit 11 (word_of_int (Msg_Opcode dns)) OR word_of_int (Msg_Rcode dns AND 0xF) OR
     (if Msg_Response dns then QR_bit else 0) OR
     (if Msg_Authoritative dns then AA_bit else 0) OR
     (if Msg_Truncated dns then TC_bit else 0) OR
     (if Msg_RecursionDesired dns then RD_bit else 0) OR
     (if Msg_RecursionAvailable dns then RA_bit else 0) OR
     (if Msg_Zero dns then Z_bit else 0) OR
     (if Msg_AuthenticatedData dns then AD_bit else 0) OR
     (if Msg_CheckingDisabled dns then CD_bit else 0)"

subsection \<open>The OPT record\<close>

text \<open>
  \<^verbatim>\<open>IsEdns0\<close> looks for an OPT record from the end of the additional section. The result is its
  position and the record. A nil record, or a record of another type with the type code of OPT in its
  header, makes it panic.
\<close>

fun IsEdns0_loop :: "RR option list \<Rightarrow> nat \<Rightarrow> (nat \<times> OPT) option res" where
  "IsEdns0_loop extra 0 = Ok None"
| "IsEdns0_loop extra (Suc i) =
     (case extra ! i of
        None \<Rightarrow> Panic
      | Some rr \<Rightarrow>
          if Hdr_Rrtype (rr_Header rr) = TypeOPT then
            (case rr of RR_OPT opt \<Rightarrow> Ok (Some (i, opt)) | _ \<Rightarrow> Panic)
          else IsEdns0_loop extra i)"

definition IsEdns0 :: "Msg \<Rightarrow> (nat \<times> OPT) option res" where
  "IsEdns0 dns = IsEdns0_loop (Msg_Extra dns) (length (Msg_Extra dns))"

definition popEdns0 :: "Msg \<Rightarrow> (Msg \<times> OPT option) res" where
  "popEdns0 dns =
     bindR (IsEdns0 dns) (\<lambda>found.
     case found of
       None \<Rightarrow> Ok (dns, None)
     | Some (i, opt) \<Rightarrow>
         Ok (dns\<lparr>Msg_Extra := take i (Msg_Extra dns) @ drop (i + 1) (Msg_Extra dns)\<rparr>, Some opt))"

subsection \<open>Packing a message\<close>

definition isCompressible :: "Msg \<Rightarrow> bool" where
  "isCompressible dns \<longleftrightarrow>
     length (Msg_Question dns) > 1 \<or> length (Msg_Answer dns) > 0 \<or> length (Msg_Ns dns) > 0 \<or> length (Msg_Extra dns) > 0"

fun questions_len :: "Question list \<Rightarrow> nat \<Rightarrow> lenMap \<Rightarrow> nat \<times> lenMap" where
  "questions_len [] l c = (l, c)"
| "questions_len (q # qs) l c = (let (n, c) = Question_len q l c in questions_len qs (l + n) c)"

fun rrs_len :: "RR option list \<Rightarrow> nat \<Rightarrow> lenMap \<Rightarrow> nat \<times> lenMap" where
  "rrs_len [] l c = (l, c)"
| "rrs_len (None # rs) l c = rrs_len rs l c"
| "rrs_len (Some r # rs) l c = (let (n, c) = rr_len r l c in rrs_len rs (l + n) c)"

definition msgLenWithCompressionMap :: "Msg \<Rightarrow> lenMap \<Rightarrow> nat" where
  "msgLenWithCompressionMap dns c =
     (let (l, c) = questions_len (Msg_Question dns) headerSize c;
          (l, c) = rrs_len (Msg_Answer dns) l c;
          (l, c) = rrs_len (Msg_Ns dns) l c;
          (l, c) = rrs_len (Msg_Extra dns) l c in l)"

definition Msg_Len :: "Msg \<Rightarrow> nat" where
  "Msg_Len dns =
     (if Msg_Compress dns \<and> isCompressible dns then msgLenWithCompressionMap dns (Some {})
      else msgLenWithCompressionMap dns None)"

fun pack_questions ::
  "Question list \<Rightarrow> bytes \<Rightarrow> nat \<Rightarrow> compressionMap \<Rightarrow> bool \<Rightarrow> (bytes \<times> compressionMap \<times> nat) off_res" where
  "pack_questions [] msg off cm compress = Ok (msg, cm, off)"
| "pack_questions (q # qs) msg off cm compress =
     bindR (Question_pack q msg off cm compress) (\<lambda>(msg, cm, off). pack_questions qs msg off cm compress)"

fun pack_rrs ::
  "RR option list \<Rightarrow> bytes \<Rightarrow> nat \<Rightarrow> compressionMap \<Rightarrow> bool \<Rightarrow> (bytes \<times> compressionMap \<times> nat) off_res" where
  "pack_rrs [] msg off cm compress = Ok (msg, cm, off)"
| "pack_rrs (r # rs) msg off cm compress =
     bindR (packRR r msg off cm compress) (\<lambda>(msg, cm, _, off). pack_rrs rs msg off cm compress)"

text \<open>The wire header of a message, and what follows it in \<^verbatim>\<open>packBufferWithCompressionMap\<close>.\<close>

definition wire_header :: "Msg \<Rightarrow> Header" where
  "wire_header dns =
     \<lparr>DH_Id = Msg_Id dns, DH_Bits = msg_bits dns,
      DH_Qdcount = of_nat (length (Msg_Question dns)), DH_Ancount = of_nat (length (Msg_Answer dns)),
      DH_Nscount = of_nat (length (Msg_Ns dns)), DH_Arcount = of_nat (length (Msg_Extra dns))\<rparr>"

definition pack_sections :: "Msg \<Rightarrow> bytes \<Rightarrow> compressionMap \<Rightarrow> bool \<Rightarrow> bytes res" where
  "pack_sections dns buf compression compress =
     (let packLen = msgLenWithCompressionMap dns None + 1;
          msg = (if length buf < packLen then replicate packLen 0 else buf) in
      mapErr snd
       (bindR (Header_pack (wire_header dns) msg 0) (\<lambda>(msg, off).
        bindR (pack_questions (Msg_Question dns) msg off compression compress) (\<lambda>(msg, compression, off).
        bindR (pack_rrs (Msg_Answer dns) msg off compression compress) (\<lambda>(msg, compression, off).
        bindR (pack_rrs (Msg_Ns dns) msg off compression compress) (\<lambda>(msg, compression, off).
        bindR (pack_rrs (Msg_Extra dns) msg off compression compress) (\<lambda>(msg, compression, off).
        go_slice msg 0 off)))))))"

definition packBufferWithCompressionMap :: "Msg \<Rightarrow> bytes \<Rightarrow> compressionMap \<Rightarrow> bool \<Rightarrow> Msg \<times> bytes res" where
  "packBufferWithCompressionMap dns buf compression compress =
     (if Msg_Rcode dns < 0 \<or> Msg_Rcode dns > 0xFFF then (dns, Err ErrRcode)
      else
        case IsEdns0 dns of
          Ok (Some (i, opt)) \<Rightarrow>
            let opt = SetExtendedRcode (word_of_int (Msg_Rcode dns)) opt;
                dns = dns\<lparr>Msg_Extra := (Msg_Extra dns)[i := Some (RR_OPT opt)]\<rparr> in
            (dns, pack_sections dns buf compression compress)
        | Ok None \<Rightarrow>
            if Msg_Rcode dns > 0xF then (dns, Err ErrExtendedRcode)
            else (dns, pack_sections dns buf compression compress)
        | Err e \<Rightarrow> (dns, Err e)
        | Panic \<Rightarrow> (dns, Panic))"

definition PackBuffer :: "Msg \<Rightarrow> bytes \<Rightarrow> Msg \<times> bytes res" where
  "PackBuffer dns buf =
     (if Msg_Compress dns \<and> isCompressible dns
      then packBufferWithCompressionMap dns buf new_compression True
      else packBufferWithCompressionMap dns buf no_compression False)"

definition Pack :: "Msg \<Rightarrow> Msg \<times> bytes res" where
  "Pack dns = PackBuffer dns []"

subsection \<open>Unpacking a message\<close>

text \<open>The loop over the questions; the questions read so far are part of the result.\<close>

fun unpack_questions :: "nat \<Rightarrow> bytes \<Rightarrow> nat \<Rightarrow> Question list \<Rightarrow> Question list \<times> nat off_res" where
  "unpack_questions 0 msg off qs = (qs, Ok off)"
| "unpack_questions (Suc n) msg off qs =
     (case unpackQuestion msg off of
        Err e \<Rightarrow> (qs, Err e)
      | Panic \<Rightarrow> (qs, Panic)
      | Ok (q, off') \<Rightarrow> if off = off' then (qs, Ok off') else unpack_questions n msg off' (qs @ [q]))"

text \<open>The end of \<^verbatim>\<open>unpack\<close>, with the error so far.\<close>

definition unpack_rcode :: "unit res \<Rightarrow> Msg \<Rightarrow> Msg \<times> unit res" where
  "unpack_rcode err dns =
     (case IsEdns0 dns of
        Ok (Some (_, opt)) \<Rightarrow> (dns\<lparr>Msg_Rcode := Msg_Rcode dns OR ExtendedRcode opt\<rparr>, err)
      | Ok None \<Rightarrow> (dns, err)
      | Err e \<Rightarrow> (dns, Err e)
      | Panic \<Rightarrow> (dns, Panic))"

text \<open>A section: the records are nil after an error, and the sections after it are not touched.\<close>

definition unpack_section ::
  "(RR option list \<Rightarrow> Msg \<Rightarrow> Msg) \<Rightarrow> u16 \<Rightarrow> bytes \<Rightarrow> nat \<Rightarrow> Msg \<Rightarrow> (nat \<Rightarrow> Msg \<Rightarrow> Msg \<times> unit res) \<Rightarrow> Msg \<times> unit res" where
  "unpack_section upd count msg off dns rest =
     (case unpackRRslice (unat count) msg off of
        Ok (rrs, off) \<Rightarrow> rest off (upd (map Some rrs) dns)
      | Err (_, e) \<Rightarrow> unpack_rcode (Err e) (upd [] dns)
      | Panic \<Rightarrow> (dns, Panic))"

definition Msg_unpack :: "Msg \<Rightarrow> Header \<Rightarrow> bytes \<Rightarrow> nat \<Rightarrow> Msg \<times> unit res" where
  "Msg_unpack dns dh msg off =
     (if off = length msg
      then (dns\<lparr>Msg_Question := [], Msg_Answer := [], Msg_Ns := [], Msg_Extra := []\<rparr>, Ok ())
      else
        let (qs, r) = unpack_questions (unat (DH_Qdcount dh)) msg off [];
            dns = dns\<lparr>Msg_Question := qs\<rparr> in
        case r of
          Err (_, e) \<Rightarrow> (dns, Err e)
        | Panic \<Rightarrow> (dns, Panic)
        | Ok off \<Rightarrow>
            unpack_section (\<lambda>rs. Msg_Answer_update (\<lambda>_. rs)) (DH_Ancount dh) msg off dns (\<lambda>off dns.
            unpack_section (\<lambda>rs. Msg_Ns_update (\<lambda>_. rs)) (DH_Nscount dh) msg off dns (\<lambda>off dns.
            unpack_section (\<lambda>rs. Msg_Extra_update (\<lambda>_. rs)) (DH_Arcount dh) msg off dns (\<lambda>off dns.
            unpack_rcode (Ok ()) dns))))"

definition Unpack :: "Msg \<Rightarrow> bytes \<Rightarrow> Msg \<times> unit res" where
  "Unpack dns msg =
     (case unpackMsgHdr msg 0 of
        Err (_, e) \<Rightarrow> (dns, Err e)
      | Panic \<Rightarrow> (dns, Panic)
      | Ok (dh, off) \<Rightarrow> Msg_unpack (setHdr dh dns) dh msg off)"

subsection \<open>The bits of the header read back\<close>

lemma flag_tests:
  "(x :: u16) AND QR_bit \<noteq> 0 \<longleftrightarrow> bit x 15" "x AND AA_bit \<noteq> 0 \<longleftrightarrow> bit x 10" "x AND TC_bit \<noteq> 0 \<longleftrightarrow> bit x 9"
  "x AND RD_bit \<noteq> 0 \<longleftrightarrow> bit x 8" "x AND RA_bit \<noteq> 0 \<longleftrightarrow> bit x 7" "x AND Z_bit \<noteq> 0 \<longleftrightarrow> bit x 6"
  "x AND AD_bit \<noteq> 0 \<longleftrightarrow> bit x 5" "x AND CD_bit \<noteq> 0 \<longleftrightarrow> bit x 4"
  using and_exp_eq_0_iff_not_bit [of x 15] and_exp_eq_0_iff_not_bit [of x 10] and_exp_eq_0_iff_not_bit [of x 9]
    and_exp_eq_0_iff_not_bit [of x 8] and_exp_eq_0_iff_not_bit [of x 7] and_exp_eq_0_iff_not_bit [of x 6]
    and_exp_eq_0_iff_not_bit [of x 5] and_exp_eq_0_iff_not_bit [of x 4] by simp_all

lemma flag_values:
  "QR_bit = push_bit 15 1" "AA_bit = push_bit 10 1" "TC_bit = push_bit 9 1" "RD_bit = push_bit 8 1"
  "RA_bit = push_bit 7 1" "Z_bit = push_bit 6 1" "AD_bit = push_bit 5 1" "CD_bit = push_bit 4 1"
  by simp_all

lemma bit_if_push: "n < 16 \<Longrightarrow> bit (if b then push_bit n 1 else 0 :: u16) k \<longleftrightarrow> k = n \<and> b"
  by (auto simp: bit_simps)

lemma bit_msg_bits:
  assumes "0 \<le> Msg_Opcode dns" "Msg_Opcode dns < 16" and "k < 16"
  shows "bit (msg_bits dns) k \<longleftrightarrow>
     (11 \<le> k \<and> k < 15 \<and> bit (Msg_Opcode dns) (k - 11)) \<or> (k < 4 \<and> bit (Msg_Rcode dns) k) \<or>
     (k = 15 \<and> Msg_Response dns) \<or> (k = 10 \<and> Msg_Authoritative dns) \<or> (k = 9 \<and> Msg_Truncated dns) \<or>
     (k = 8 \<and> Msg_RecursionDesired dns) \<or> (k = 7 \<and> Msg_RecursionAvailable dns) \<or> (k = 6 \<and> Msg_Zero dns) \<or>
     (k = 5 \<and> Msg_AuthenticatedData dns) \<or> (k = 4 \<and> Msg_CheckingDisabled dns)"
proof -
  have "take_bit 4 (Msg_Opcode dns) = Msg_Opcode dns" using assms(1,2) by (simp add: take_bit_int_eq_self)
  then have op: "bit (Msg_Opcode dns) n \<longleftrightarrow> n < 4 \<and> bit (Msg_Opcode dns) n" for n by (metis bit_take_bit_iff)
  have rc: "(0xF :: int) = mask 4" by (simp add: mask_eq_exp_minus_1)
  have A: "bit (push_bit 11 (word_of_int (Msg_Opcode dns)) :: u16) k \<longleftrightarrow> 11 \<le> k \<and> k < 15 \<and> bit (Msg_Opcode dns) (k - 11)"
    using assms(3) op [of "k - 11"] by (auto simp: bit_simps)
  have B: "bit (word_of_int (Msg_Rcode dns AND 0xF) :: u16) k \<longleftrightarrow> k < 4 \<and> bit (Msg_Rcode dns) k"
    using assms(3) unfolding rc by (auto simp: bit_simps)
  show ?thesis
    unfolding msg_bits_def bit_or_iff A B unfolding flag_values by (simp add: bit_if_push del: push_bit_of_1)
qed

lemma setHdr_msg_bits:
  assumes "0 \<le> Msg_Opcode dns" and "Msg_Opcode dns < 16" and "0 \<le> Msg_Rcode dns" and "DH_Bits dh = msg_bits dns" and "DH_Id dh = Msg_Id dns"
  shows "setHdr dh d = d\<lparr>Msg_Id := Msg_Id dns, Msg_Response := Msg_Response dns, Msg_Opcode := Msg_Opcode dns,
    Msg_Authoritative := Msg_Authoritative dns, Msg_Truncated := Msg_Truncated dns,
    Msg_RecursionDesired := Msg_RecursionDesired dns, Msg_RecursionAvailable := Msg_RecursionAvailable dns,
    Msg_Zero := Msg_Zero dns, Msg_AuthenticatedData := Msg_AuthenticatedData dns,
    Msg_CheckingDisabled := Msg_CheckingDisabled dns, Msg_Rcode := Msg_Rcode dns mod 16\<rparr>"
proof -
  note B = bit_msg_bits [OF assms(1,2)]
  have m: "(0xF :: int) = mask 4" "(0xF :: u16) = mask 4" by (simp_all add: mask_eq_exp_minus_1)
  have "uint (drop_bit 11 (msg_bits dns)) AND 0xF = Msg_Opcode dns"
  proof (rule bit_eqI)
    fix n
    have "take_bit 4 (Msg_Opcode dns) = Msg_Opcode dns" using assms(1,2) by (simp add: take_bit_int_eq_self)
    then have op: "bit (Msg_Opcode dns) n \<longleftrightarrow> n < 4 \<and> bit (Msg_Opcode dns) n" by (metis bit_take_bit_iff)
    show "bit (uint (drop_bit 11 (msg_bits dns)) AND 0xF) n = bit (Msg_Opcode dns) n"
      using B [of "n + 11"] op unfolding m by (auto simp: bit_simps add.commute)
  qed
  moreover have "uint (msg_bits dns AND 0xF) = Msg_Rcode dns mod 16"
  proof (rule bit_eqI)
    fix n
    have "Msg_Rcode dns mod 16 = take_bit 4 (Msg_Rcode dns)" by (simp add: take_bit_eq_mod)
    then show "bit (uint (msg_bits dns AND 0xF)) n = bit (Msg_Rcode dns mod 16) n"
      using B [of n] unfolding m by (auto simp: bit_simps)
  qed
  ultimately show ?thesis unfolding setHdr_def assms(4,5) flag_tests by (simp add: B)
qed

subsection \<open>The OPT record that is found\<close>

text \<open>The records that \<^verbatim>\<open>IsEdns0\<close> can look at.\<close>

definition rec_ok :: "RR option \<Rightarrow> bool" where
  "rec_ok r \<longleftrightarrow> (case r of None \<Rightarrow> False | Some rr \<Rightarrow> typed rr)"

definition is_OPT :: "RR option \<Rightarrow> bool" where
  "is_OPT r \<longleftrightarrow> (case r of Some (RR_OPT _) \<Rightarrow> True | _ \<Rightarrow> False)"

lemma rec_ok_OPT:
  assumes "rec_ok r"
  obtains rr where "r = Some rr" and "Hdr_Rrtype (rr_Header rr) = TypeOPT \<longleftrightarrow> (\<exists>opt. rr = RR_OPT opt)"
proof -
  from assms obtain rr where "r = Some rr" "type_ok (rr_Header rr) rr" by (auto simp: rec_ok_def typed_def split: option.splits)
  moreover from this(2) have "Hdr_Rrtype (rr_Header rr) = TypeOPT \<longleftrightarrow> (\<exists>opt. rr = RR_OPT opt)"
    using type_ok_OPT by (auto simp: type_ok_def)
  ultimately show ?thesis using that by blast
qed

lemma IsEdns0_loop_spec:
  assumes "list_all rec_ok extra" and "i \<le> length extra"
  shows "(IsEdns0_loop extra i = Ok None \<and> (\<forall>j < i. \<not> is_OPT (extra ! j))) \<or>
    (\<exists>j opt. IsEdns0_loop extra i = Ok (Some (j, opt)) \<and> j < i \<and> extra ! j = Some (RR_OPT opt) \<and> (\<forall>k. j < k \<and> k < i \<longrightarrow> \<not> is_OPT (extra ! k)))"
  using assms(2)
proof (induction i)
  case (Suc i)
  then have "rec_ok (extra ! i)" using assms(1) by (simp add: list_all_length)
  then obtain rr where rr: "extra ! i = Some rr" "Hdr_Rrtype (rr_Header rr) = TypeOPT \<longleftrightarrow> (\<exists>opt. rr = RR_OPT opt)"
    by (rule rec_ok_OPT)
  show ?case
  proof (cases "Hdr_Rrtype (rr_Header rr) = TypeOPT")
    case True
    with rr show ?thesis by auto
  next
    case False
    then have "\<not> is_OPT (extra ! i)" using rr by (auto simp: is_OPT_def split: RR.splits)
    with False rr(1) Suc show ?thesis by (auto simp: less_Suc_eq)
  qed
qed simp

lemma IsEdns0_cases:
  assumes "list_all rec_ok (Msg_Extra dns)"
  obtains (none) "IsEdns0 dns = Ok None" and "\<And>r. r \<in> set (Msg_Extra dns) \<Longrightarrow> \<not> is_OPT r"
  | (some) j opt where "IsEdns0 dns = Ok (Some (j, opt))" and "j < length (Msg_Extra dns)" and "Msg_Extra dns ! j = Some (RR_OPT opt)"
      and "\<And>k. j < k \<Longrightarrow> k < length (Msg_Extra dns) \<Longrightarrow> \<not> is_OPT (Msg_Extra dns ! k)"
  using IsEdns0_loop_spec [OF assms order_refl] unfolding IsEdns0_def by (metis in_set_conv_nth)

subsection \<open>Unpacking a message does not panic\<close>

text \<open>
  What holds of every message that was unpacked: its sections hold no nil records, and the type of
  each record is the one in its header.
\<close>

definition msg_typed :: "Msg \<Rightarrow> bool" where
  "msg_typed dns \<longleftrightarrow> list_all rec_ok (Msg_Answer dns) \<and> list_all rec_ok (Msg_Ns dns) \<and> list_all rec_ok (Msg_Extra dns)"

definition good :: "Msg \<times> unit res \<Rightarrow> bool" where
  "good r \<longleftrightarrow> msg_typed (fst r) \<and> snd r \<noteq> Panic"

lemma unpack_rcode_good: "msg_typed dns \<Longrightarrow> err \<noteq> Panic \<Longrightarrow> good (unpack_rcode err dns)"
  by (rule IsEdns0_cases [of dns]) (auto simp: unpack_rcode_def good_def msg_typed_def)

lemma rec_ok_map: "list_all typed rrs \<Longrightarrow> list_all rec_ok (map Some rrs)"
  by (simp add: list.pred_map comp_def rec_ok_def)

lemma unpack_section_good:
  assumes "off \<le> length msg" and "\<And>rs. list_all rec_ok rs \<Longrightarrow> msg_typed (upd rs dns)"
    and "\<And>rs off'. list_all rec_ok rs \<Longrightarrow> off' \<le> length msg \<Longrightarrow> good (rest off' (upd rs dns))"
  shows "good (unpack_section upd n msg off dns rest)"
proof (cases "unpackRRslice (unat n) msg off")
  case (Ok r)
  with unpackRRslice_safe [OF assms(1), of "unat n"] show ?thesis
    by (cases r) (auto simp: unpack_section_def intro!: assms(3) rec_ok_map dest: unpackRRslice_typed)
next
  case (Err e)
  then show ?thesis using assms(2) [of "[]"] by (cases e) (auto simp: unpack_section_def intro!: unpack_rcode_good)
next
  case Panic
  with unpackRRslice_safe [OF assms(1), of "unat n"] show ?thesis by simp
qed

lemma unpackQuestion_safe:
  "safe (unpackQuestion msg off) (\<lambda>(q, off'). off < off' \<and> off' \<le> length msg)"
proof (cases "unpackQuestion msg off")
  case (Ok r)
  then obtain name o1 where "UnpackDomainName msg off = Ok (name, o1)" by (auto simp: unpackQuestion_def bindR_eq_Ok)
  with Ok UnpackDomainName_progress [OF this] show ?thesis
    by (cases r) (auto simp: unpackQuestion_def bindR_eq_Ok Let_def dest!: unpack_ints(1) split: if_splits)
next
  case Panic
  then show ?thesis using UnpackDomainName_safe_progress [THEN safe_not_Panic, of msg off]
    by (auto simp: unpackQuestion_def bindR_eq_Panic unpack_ints Let_def split: if_splits)
qed simp

lemma unpack_questions_safe:
  assumes "off \<le> length msg"
  shows "safe (snd (unpack_questions n msg off qs)) (\<lambda>off'. off' \<le> length msg)"
  using assms
proof (induction n arbitrary: off qs)
  case (Suc n)
  then show ?case using unpackQuestion_safe [of msg off]
    by (cases "unpackQuestion msg off") (auto split: prod.splits)
qed simp

lemma msg_typed_simps [simp]:
  "msg_typed (dns\<lparr>Msg_Question := qs\<rparr>) = msg_typed dns" "msg_typed (setHdr dh dns) = msg_typed dns"
  by (simp_all add: msg_typed_def setHdr_def)

lemma Msg_unpack_good:
  assumes "msg_typed dns" and "off \<le> length msg"
  shows "good (Msg_unpack dns dh msg off)"
proof (cases "off = length msg")
  case True
  then show ?thesis by (simp add: Msg_unpack_def good_def msg_typed_def)
next
  case False
  obtain qs r where q: "unpack_questions (unat (DH_Qdcount dh)) msg off [] = (qs, r)" by fastforce
  have s: "safe r (\<lambda>off'. off' \<le> length msg)" using unpack_questions_safe [OF assms(2), of "unat (DH_Qdcount dh)" "[]"] q by simp
  show ?thesis
  proof (cases r)
    case (Ok off')
    with s have "off' \<le> length msg" by simp
    then have "good (unpack_section (\<lambda>rs. Msg_Answer_update (\<lambda>_. rs)) (DH_Ancount dh) msg off' (dns\<lparr>Msg_Question := qs\<rparr>) (\<lambda>off dns.
        unpack_section (\<lambda>rs. Msg_Ns_update (\<lambda>_. rs)) (DH_Nscount dh) msg off dns (\<lambda>off dns.
        unpack_section (\<lambda>rs. Msg_Extra_update (\<lambda>_. rs)) (DH_Arcount dh) msg off dns (\<lambda>off dns. unpack_rcode (Ok ()) dns))))"
      using assms(1) by (intro unpack_section_good unpack_rcode_good) (auto simp: msg_typed_def)
    with Ok False q show ?thesis by (simp add: Msg_unpack_def)
  next
    case (Err e)
    then show ?thesis using q assms(1) False by (cases e) (simp add: Msg_unpack_def good_def)
  next
    case Panic
    then show ?thesis using s by simp
  qed
qed

lemma unpackMsgHdr_safe: "safe (unpackMsgHdr msg off) (\<lambda>(dh, off'). off' = off + 12 \<and> off' \<le> length msg)"
proof (cases "unpackMsgHdr msg off")
  case (Ok r)
  then have "snd r = off + 12 \<and> snd r \<le> length msg"
    by (auto simp: unpackMsgHdr_def bindR_eq_Ok dest!: unpack_ints(1))
  then show ?thesis using Ok by (cases r) simp
next
  case Panic
  then show ?thesis by (auto simp: unpackMsgHdr_def bindR_eq_Panic unpack_ints)
qed simp

lemma Unpack_good: "msg_typed dns \<Longrightarrow> good (Unpack dns msg)"
  using unpackMsgHdr_safe [of msg 0]
  by (cases "unpackMsgHdr msg 0") (auto simp: Unpack_def good_def [of "(_, Err _)"] intro!: Msg_unpack_good split: prod.splits)

subsection \<open>A question reads back\<close>

definition q_size :: "Question \<Rightarrow> nat" where
  "q_size q = name_len (Q_Name q) + 4"

lemma Question_pack_ok:
  assumes "ok_name (Q_Name q)" and "cm_sound cm (take off msg)" and "off + q_size q < length msg"
  shows "\<exists>msg' cm' off'. Question_pack q msg off cm compress = Ok (msg', cm', off') \<and> extends msg off msg' off' \<and>
    cm_sound cm' (take off' msg') \<and> off < off' \<and> off' \<le> off + q_size q \<and>
    (\<forall>M. agree M msg' off' \<longrightarrow> unpackQuestion M off = Ok (q, off'))"
proof -
  have "writes (q_size q) (\<lambda>msg off cm. Question_pack q msg off cm compress)"
    unfolding Question_pack_def q_size_def
    by (rule writes_le, rule writes_name_step [rotated], (rule writes_u16)+, rule writes_end) (simp_all add: assms(1))
  then obtain e c where w: "writes_as e c (q_size q) (\<lambda>msg off cm. Question_pack q msg off cm compress) off cm"
    using cm_sound_nonneg [OF assms(2)] unfolding writes_def by blast
  note W = writes_asD [OF w]
  obtain r where "Question_pack q msg off cm compress = Ok r" using W(4) assms(3) by blast
  with W(3) [OF this] have Q: "Question_pack q msg off cm compress = Ok (put msg off e, c, off + length e)" by simp
  then obtain m1 o1 m2 o2 where
    p: "packDomainName (Q_Name q) msg off cm compress = Ok (m1, c, o1)" "packUint16 (Q_Qtype q) m1 o1 = Ok (m2, o2)"
      "packUint16 (Q_Qclass q) m2 o2 = Ok (put msg off e, off + length e)"
    by (auto simp: Question_pack_def bindR_eq_Ok)
  have off: "off \<le> length msg" using assms(3) by simp
  note N = packed_name [OF assms(1) off assms(2) p(1)]
  have ext1: "extends msg off m1 o1" and cm1: "cm_sound c (take o1 m1)" and lt: "off < o1" using N by blast+
  have ext2: "extends m1 o1 m2 o2" using u16.pack_extends [OF TrueI p(2)] ext1 by (simp add: extends_def)
  have ext3: "extends m2 o2 (put msg off e) (off + length e)" using u16.pack_extends [OF TrueI p(3)] ext2 by (simp add: extends_def)
  note ext = extends_trans [OF ext1 extends_trans [OF ext2 ext3]]
  have o: "o2 = o1 + 2" "off + length e = o1 + 4" using u16.pack_result(2) [OF TrueI p(2)] u16.pack_result(2) [OF TrueI p(3)] by simp_all
  have "unpackQuestion M off = Ok (q, off + length e)" if M: "agree M (put msg off e) (off + length e)" for M
  proof -
    have M2: "agree M m2 o2" using M ext3 by (rule agree_extends)
    have M1: "agree M m1 o1" using M2 ext2 by (rule agree_extends)
    have "o1 + 4 \<le> length M" using M o by (simp add: agree_def)
    then show ?thesis
      using N [of M] M1 u16.reads_back [OF TrueI p(2) M2] u16.reads_back [OF TrueI p(3) M] o
      by (simp add: unpackQuestion_def Let_def)
  qed
  moreover have "cm_sound c (take (off + length e) (put msg off e))"
    using cm_sound_extends [OF cm1 extends_trans [OF ext2 ext3]] .
  ultimately show ?thesis using Q ext W(2) lt o(2) by (intro exI [of _ "put msg off e"] exI [of _ c] exI [of _ "off + length e"]) simp
qed

lemma pack_questions_ok:
  assumes "list_all (\<lambda>q. ok_name (Q_Name q)) qs" and "cm_sound cm (take off msg)" and "off + sum_list (map q_size qs) < length msg"
  shows "\<exists>msg' cm' off'. pack_questions qs msg off cm compress = Ok (msg', cm', off') \<and> extends msg off msg' off' \<and>
    cm_sound cm' (take off' msg') \<and> off' \<le> off + sum_list (map q_size qs) \<and>
    (\<forall>M acc. agree M msg' off' \<longrightarrow> unpack_questions (length qs) M off acc = (acc @ qs, Ok off'))"
  using assms
proof (induction qs arbitrary: msg off cm)
  case Nil
  then show ?case by (simp add: extends_refl)
next
  case (Cons q qs)
  then obtain m1 c1 o1 where 1: "Question_pack q msg off cm compress = Ok (m1, c1, o1)" "extends msg off m1 o1"
    "cm_sound c1 (take o1 m1)" "off < o1" "o1 \<le> off + q_size q" "\<And>M. agree M m1 o1 \<Longrightarrow> unpackQuestion M off = Ok (q, o1)"
    using Question_pack_ok [of q cm off msg compress] by auto
  have "o1 + sum_list (map q_size qs) < length m1" using Cons.prems(3) 1(2,5) by (simp add: extends_def)
  with Cons.IH [OF _ 1(3) this] Cons.prems(1)
  obtain m2 c2 o2 where 2: "pack_questions qs m1 o1 c1 compress = Ok (m2, c2, o2)" "extends m1 o1 m2 o2"
    "cm_sound c2 (take o2 m2)" "o2 \<le> o1 + sum_list (map q_size qs)"
    "\<And>M acc. agree M m2 o2 \<Longrightarrow> unpack_questions (length qs) M o1 acc = (acc @ qs, Ok o2)" by auto
  have "unpack_questions (length (q # qs)) M off acc = (acc @ q # qs, Ok o2)" if "agree M m2 o2" for M acc
    using 1(6) [OF agree_extends [OF that 2(2)]] 2(5) [OF that] 1(4) by simp
  then show ?case using 1(1,5) 2(1,3,4) extends_trans [OF 1(2) 2(2)] by auto
qed

subsection \<open>The records of a section read back\<close>

text \<open>
  Unpacking sets the length of the data in the header of a record; everything else is as it was.
  \<open>norm_rr\<close> forgets this length.
\<close>

definition norm_rr :: "RR \<Rightarrow> RR" where
  "norm_rr rr = with_rdlength 0 rr"

lemma set_Header_simps [simp]: "rr_Header (set_Header h rr) = h" "set_Header h' (set_Header h rr) = set_Header h' rr"
  by (cases rr; simp)+

lemma norm_with_rdlength [simp]: "norm_rr (with_rdlength n rr) = norm_rr rr"
  by (simp add: norm_rr_def with_rdlength_def)

definition rr_fits :: "RR option \<Rightarrow> bool" where
  "rr_fits r \<longleftrightarrow> (case r of None \<Rightarrow> False | Some rr \<Rightarrow> rr_ok rr \<and> rd_size rr < 65536)"

definition rr_size :: "RR option \<Rightarrow> nat" where
  "rr_size r = (case r of None \<Rightarrow> 0 | Some rr \<Rightarrow> Len rr)"

lemma rr_size_simps [simp]: "rr_size (Some rr) = Len rr"
  by (simp add: rr_size_def)

lemma pack_rrs_ok:
  assumes "list_all rr_fits rs" and "cm_sound cm (take off msg)" and "off + sum_list (map rr_size rs) < length msg"
  shows "\<exists>msg' cm' off' rrs. pack_rrs rs msg off cm compress = Ok (msg', cm', off') \<and> extends msg off msg' off' \<and>
    cm_sound cm' (take off' msg') \<and> off' \<le> off + sum_list (map rr_size rs) \<and>
    map (\<lambda>rr. Some (norm_rr rr)) rrs = map (map_option norm_rr) rs \<and>
    (\<forall>M dst. agree M msg' off' \<longrightarrow> unpackRRslice_loop (length rs) M off dst = Ok (dst @ rrs, off'))"
  using assms
proof (induction rs arbitrary: msg off cm)
  case Nil
  then show ?case by (simp add: extends_refl)
next
  case (Cons r rs)
  then obtain rr where r: "r = Some rr" and ok: "rr_ok rr" "rd_size rr < 65536" by (auto simp: rr_fits_def split: option.splits)
  have off: "off < length msg" "off + Len rr < length msg" using Cons.prems(3) r by auto
  obtain m1 c1 he o1 where p: "packRR (Some rr) msg off cm compress = Ok (m1, c1, he, o1)" "o1 \<le> off + Len rr"
    using packRR_total [OF ok Cons.prems(2) off(2)] .
  note R = packRR_reads_back [OF ok(1) off(1) Cons.prems(2) p(1)]
  have "o1 + sum_list (map rr_size rs) < length m1" using Cons.prems(3) r p(2) R(1) by (simp add: extends_def)
  with Cons.IH [OF _ R(2) this] Cons.prems(1)
  obtain m2 c2 o2 rrs where 2: "pack_rrs rs m1 o1 c1 compress = Ok (m2, c2, o2)" "extends m1 o1 m2 o2"
    "cm_sound c2 (take o2 m2)" "o2 \<le> o1 + sum_list (map rr_size rs)" "map (\<lambda>rr. Some (norm_rr rr)) rrs = map (map_option norm_rr) rs"
    "\<And>M dst. agree M m2 o2 \<Longrightarrow> unpackRRslice_loop (length rs) M o1 dst = Ok (dst @ rrs, o2)" by auto
  let ?r = "with_rdlength (of_nat (o1 - he)) rr"
  have "unpackRRslice_loop (length (r # rs)) M off dst = Ok (dst @ ?r # rrs, o2)" if "agree M m2 o2" for M dst
    using R(4) [OF agree_extends [OF that 2(2)]] 2(6) [OF that] R(3) by simp
  moreover have "map (\<lambda>rr. Some (norm_rr rr)) (?r # rrs) = map (map_option norm_rr) (r # rs)" using 2(5) r by simp
  moreover have "o2 \<le> off + sum_list (map rr_size (r # rs))" using p(2) 2(4) r by simp
  moreover have "pack_rrs (r # rs) msg off cm compress = Ok (m2, c2, o2)" using p(1) 2(1) r by simp
  ultimately show ?case using 2(3) extends_trans [OF R(1) 2(2)] by blast
qed

subsection \<open>The header of a message reads back\<close>

definition enc_header :: "Header \<Rightarrow> bytes" where
  "enc_header dh = be16 (DH_Id dh) @ be16 (DH_Bits dh) @ be16 (DH_Qdcount dh) @ be16 (DH_Ancount dh) @
     be16 (DH_Nscount dh) @ be16 (DH_Arcount dh)"

lemma length_enc_header [simp]: "length (enc_header dh) = 12"
  by (simp add: enc_header_def)

lemma packUint16_eq: "off + 2 \<le> length msg \<Longrightarrow> packUint16 v msg off = Ok (put msg off (be16 v), off + 2)"
  by (simp add: packUint16_def)

lemma Header_pack_eq:
  assumes "off + 12 \<le> length msg"
  shows "Header_pack dh msg off = Ok (put msg off (enc_header dh), off + 12)"
  using assms unfolding Header_pack_def enc_header_def
  by (simp add: packUint16_eq put_put_at del: add_2_eq_Suc add_2_eq_Suc')

lemma unpackMsgHdr_reads:
  assumes "take 12 M = enc_header dh"
  shows "unpackMsgHdr M 0 = Ok (dh, 12)"
proof -
  have len: "12 \<le> length M" using arg_cong [OF assms, of length] by simp
  have M: "M = enc_header dh @ drop 12 M" using assms by (metis append_take_drop_id)
  have "take 2 (drop (2 * k) M) = take 2 (drop (2 * k) (enc_header dh))" if "k < 6" for k
    using that by (subst M) (auto simp: enc_header_def)
  from this [of 0] this [of 1] this [of 2] this [of 3] this [of 4] this [of 5]
  have d: "take 2 M = be16 (DH_Id dh)" "take 2 (drop 2 M) = be16 (DH_Bits dh)" "take 2 (drop 4 M) = be16 (DH_Qdcount dh)"
    "take 2 (drop 6 M) = be16 (DH_Ancount dh)" "take 2 (drop 8 M) = be16 (DH_Nscount dh)" "take 2 (drop 10 M) = be16 (DH_Arcount dh)"
    by (simp_all add: enc_header_def)
  show ?thesis using len by (simp add: unpackMsgHdr_def unpackUint16_def d del: add_2_eq_Suc add_2_eq_Suc')
qed

subsection \<open>A message reads back\<close>

lemma questions_len_None: "questions_len qs l None = (l + sum_list (map q_size qs), None)"
  by (induction qs arbitrary: l) (auto simp: Question_len_def q_size_def)

lemma rrs_len_None: "rrs_len rs l None = (l + sum_list (map rr_size rs), None)"
proof (induction rs arbitrary: l)
  case (Cons r rs)
  then show ?case using rr_len_None by (cases r) (auto simp: rr_size_def Len_def)
qed simp

definition msg_size :: "Msg \<Rightarrow> nat" where
  "msg_size dns = headerSize + sum_list (map q_size (Msg_Question dns)) + sum_list (map rr_size (Msg_Answer dns)) +
     sum_list (map rr_size (Msg_Ns dns)) + sum_list (map rr_size (Msg_Extra dns))"

lemma msgLen_None: "msgLenWithCompressionMap dns None = msg_size dns"
  by (simp add: msgLenWithCompressionMap_def questions_len_None rrs_len_None msg_size_def)

text \<open>The sections that pack and read back, and what they read back as.\<close>

definition sections_ok :: "Msg \<Rightarrow> bool" where
  "sections_ok dns \<longleftrightarrow>
     list_all (\<lambda>q. ok_name (Q_Name q)) (Msg_Question dns) \<and> length (Msg_Question dns) < 65536 \<and>
     list_all rr_fits (Msg_Answer dns) \<and> length (Msg_Answer dns) < 65536 \<and>
     list_all rr_fits (Msg_Ns dns) \<and> length (Msg_Ns dns) < 65536 \<and>
     list_all rr_fits (Msg_Extra dns) \<and> length (Msg_Extra dns) < 65536"

lemma of_nat_count: "n < 65536 \<Longrightarrow> unat (of_nat n :: u16) = n"
  by (simp add: unat_of_nat)

lemma unpack_questions_end:
  assumes "length M = off" and "unpack_questions n M off [] = (qs, Ok off')"
  shows "qs = []"
proof (cases n)
  case (Suc k)
  then show ?thesis using unpackQuestion_safe [of M off] assms by (auto split: outcome.splits prod.splits)
qed (use assms in simp)

lemma unpackRRslice_end:
  assumes "length M = off" and "unpackRRslice n M off = Ok (rrs, off')"
  shows "rrs = []"
  using unpackRRslice_safe [of off M n] assms by (cases rrs) auto

lemma pack_sections_ok:
  assumes ok: "sections_ok dns" and cm: "\<And>Q. cm_sound cm Q"
  obtains b an ns ar where "pack_sections dns buf cm compress = Ok b" and "12 \<le> length b" and "length b \<le> msg_size dns"
    and "take 12 b = enc_header (wire_header dns)"
    and "Msg_unpack d (wire_header dns) b 12 =
      unpack_rcode (Ok ()) (d\<lparr>Msg_Question := Msg_Question dns, Msg_Answer := map Some an, Msg_Ns := map Some ns, Msg_Extra := map Some ar\<rparr>)"
    and "map (\<lambda>rr. Some (norm_rr rr)) an = map (map_option norm_rr) (Msg_Answer dns)"
    and "map (\<lambda>rr. Some (norm_rr rr)) ns = map (map_option norm_rr) (Msg_Ns dns)"
    and "map (\<lambda>rr. Some (norm_rr rr)) ar = map (map_option norm_rr) (Msg_Extra dns)"
proof -
  let ?dh = "wire_header dns"
  define m0 where "m0 = (if length buf < msg_size dns + 1 then replicate (msg_size dns + 1) 0 else buf)"
  define m1 where "m1 = put m0 0 (enc_header ?dh)"
  have l0: "msg_size dns < length m0" by (simp add: m0_def)
  then have h: "Header_pack ?dh m0 0 = Ok (m1, 12)" and l1: "length m1 = length m0"
    using Header_pack_eq [of 0 m0 ?dh] by (auto simp: m1_def msg_size_def)
  have t1: "take 12 m1 = enc_header ?dh" using take_put_end [of 0 "enc_header ?dh" m0] l0 by (simp add: m1_def msg_size_def)
  let ?Q = "sum_list (map q_size (Msg_Question dns))" and ?A = "sum_list (map rr_size (Msg_Answer dns))"
    and ?N = "sum_list (map rr_size (Msg_Ns dns))" and ?E = "sum_list (map rr_size (Msg_Extra dns))"
  have tot: "12 + ?Q + ?A + ?N + ?E < length m1" using l0 l1 by (simp add: msg_size_def)
  obtain m2 c2 o2 where 2: "pack_questions (Msg_Question dns) m1 12 cm compress = Ok (m2, c2, o2)" "extends m1 12 m2 o2"
    "cm_sound c2 (take o2 m2)" "o2 \<le> 12 + ?Q"
    "\<And>M. agree M m2 o2 \<Longrightarrow> unpack_questions (length (Msg_Question dns)) M 12 [] = (Msg_Question dns, Ok o2)"
    using pack_questions_ok [of "Msg_Question dns" cm 12 m1 compress] ok cm tot by (auto simp: sections_ok_def)
  obtain m3 c3 o3 an where 3: "pack_rrs (Msg_Answer dns) m2 o2 c2 compress = Ok (m3, c3, o3)" "extends m2 o2 m3 o3"
    "cm_sound c3 (take o3 m3)" "o3 \<le> o2 + ?A" "map (\<lambda>rr. Some (norm_rr rr)) an = map (map_option norm_rr) (Msg_Answer dns)"
    "\<And>M. agree M m3 o3 \<Longrightarrow> unpackRRslice (length (Msg_Answer dns)) M o2 = Ok (an, o3)"
    using pack_rrs_ok [of "Msg_Answer dns" c2 o2 m2 compress] ok 2(2-4) tot by (auto simp: sections_ok_def extends_def unpackRRslice_def)
  obtain m4 c4 o4 ns where 4: "pack_rrs (Msg_Ns dns) m3 o3 c3 compress = Ok (m4, c4, o4)" "extends m3 o3 m4 o4"
    "cm_sound c4 (take o4 m4)" "o4 \<le> o3 + ?N" "map (\<lambda>rr. Some (norm_rr rr)) ns = map (map_option norm_rr) (Msg_Ns dns)"
    "\<And>M. agree M m4 o4 \<Longrightarrow> unpackRRslice (length (Msg_Ns dns)) M o3 = Ok (ns, o4)"
    using pack_rrs_ok [of "Msg_Ns dns" c3 o3 m3 compress] ok 2(2,4) 3(2-4) tot by (auto simp: sections_ok_def extends_def unpackRRslice_def)
  obtain m5 c5 o5 ar where 5: "pack_rrs (Msg_Extra dns) m4 o4 c4 compress = Ok (m5, c5, o5)" "extends m4 o4 m5 o5"
    "o5 \<le> o4 + ?E" "map (\<lambda>rr. Some (norm_rr rr)) ar = map (map_option norm_rr) (Msg_Extra dns)"
    "\<And>M. agree M m5 o5 \<Longrightarrow> unpackRRslice (length (Msg_Extra dns)) M o4 = Ok (ar, o5)"
    using pack_rrs_ok [of "Msg_Extra dns" c4 o4 m4 compress] ok 2(2,4) 3(2,4) 4(2-4) tot by (auto simp: sections_ok_def extends_def unpackRRslice_def)
  let ?b = "take o5 m5"
  have A5: "agree ?b m5 o5" using 5(2) by (simp add: agree_def extends_def)
  have A4: "agree ?b m4 o4" using A5 5(2) by (rule agree_extends)
  have A3: "agree ?b m3 o3" using A4 4(2) by (rule agree_extends)
  have A2: "agree ?b m2 o2" using A3 3(2) by (rule agree_extends)
  have A1: "agree ?b m1 12" using A2 2(2) by (rule agree_extends)
  have lb: "length ?b = o5" and mono: "12 \<le> o2" "o2 \<le> o3" "o3 \<le> o4" "o4 \<le> o5"
    using 2(2) 3(2) 4(2) 5(2) by (auto simp: extends_def)
  let ?d = "d\<lparr>Msg_Question := Msg_Question dns, Msg_Answer := map Some an, Msg_Ns := map Some ns, Msg_Extra := map Some ar\<rparr>"
  have U: "Msg_unpack d ?dh ?b 12 = unpack_rcode (Ok ()) ?d"
  proof (cases "length ?b = 12")
    case True
    then have o: "o2 = 12" "o3 = 12" "o4 = 12" "o5 = 12" using lb mono by auto
    have "Msg_Question dns = []" using 2(5) [OF A2] unpack_questions_end [OF True] by blast
    moreover have "an = []" "ns = []" "ar = []"
      using 3(6) [OF A3] 4(6) [OF A4] 5(5) [OF A5] o unpackRRslice_end [OF True] by auto
    ultimately show ?thesis using True by (simp add: Msg_unpack_def unpack_rcode_def IsEdns0_def)
  next
    case False
    then show ?thesis
      using 2(5) [OF A2] 3(6) [OF A3] 4(6) [OF A4] 5(5) [OF A5] ok
      by (auto simp: Msg_unpack_def unpack_section_def wire_header_def of_nat_count sections_ok_def)
  qed
  have P: "pack_sections dns buf cm compress = Ok ?b"
    using h 2(1) 3(1) 4(1) 5(1) 5(2) unfolding pack_sections_def Let_def msgLen_None m0_def [symmetric]
    by (simp add: go_slice_def extends_def)
  have T: "take 12 ?b = enc_header ?dh" using A1 t1 by (simp add: agree_def min_def split: if_splits)
  have "length ?b \<le> msg_size dns" using lb 2(4) 3(4) 4(4) 5(3) by (simp add: msg_size_def)
  then show ?thesis using that [OF P _ _ T U 3(5) 4(5) 5(4)] lb mono by simp
qed

text \<open>The messages that pack: the RCODE needs an OPT record when it is an extended one.\<close>

definition msg_ok :: "Msg \<Rightarrow> bool" where
  "msg_ok dns \<longleftrightarrow>
     sections_ok dns \<and> 0 \<le> Msg_Opcode dns \<and> Msg_Opcode dns < 16 \<and> 0 \<le> Msg_Rcode dns \<and> Msg_Rcode dns \<le> 0xFFF \<and>
     (Msg_Rcode dns \<le> 0xF \<or> list_ex is_OPT (Msg_Extra dns))"

definition norm_msg :: "Msg \<Rightarrow> Msg" where
  "norm_msg dns = dns\<lparr>Msg_Answer := map (map_option norm_rr) (Msg_Answer dns), Msg_Ns := map (map_option norm_rr) (Msg_Ns dns),
     Msg_Extra := map (map_option norm_rr) (Msg_Extra dns)\<rparr>"

lemma cm_sound_new: "cm_sound new_compression M"
  by (simp add: cm_sound_def new_compression_def cm_find_def)

lemma rr_fits_rec_ok: "rr_fits r \<Longrightarrow> rec_ok r"
  by (auto simp: rr_fits_def rec_ok_def rr_ok_def typed_def split: option.splits)

lemma sections_rec_ok: "sections_ok dns \<Longrightarrow> list_all rec_ok (Msg_Extra dns)"
  by (simp add: sections_ok_def list_all_iff rr_fits_rec_ok)

lemma rr_fits_set_rcode: "rr_fits (Some (RR_OPT opt)) \<Longrightarrow> rr_fits (Some (RR_OPT (SetExtendedRcode v opt)))"
  by (auto simp: rr_fits_def rr_ok_def type_ok_def rd_size_def Len_def OPT_len_def SetExtendedRcode_def set_Ttl_def)

lemma rcode_parts:
  fixes r :: int
  assumes "0 \<le> r" and "r \<le> 0xFFF"
  shows "r mod 16 OR (uint (word_of_int r :: u16) div 16 mod 256) * 16 = r"
proof -
  have "uint (word_of_int r :: u16) = r" using assms by (simp add: uint_word_of_int)
  moreover have "r div 16 mod 256 = r div 16" using assms by simp
  moreover have "r mod 16 OR r div 16 * 16 = take_bit 4 r OR push_bit 4 (drop_bit 4 r)"
    by (simp add: take_bit_eq_mod push_bit_eq_mult drop_bit_eq_div)
  moreover have "take_bit 4 r OR push_bit 4 (drop_bit 4 r) = r"
  proof (rule bit_eqI)
    fix n
    show "bit (take_bit 4 r OR push_bit 4 (drop_bit 4 r)) n = bit r n" by (cases "n < 4") (auto simp: bit_simps)
  qed
  ultimately show ?thesis by simp
qed

lemma norm_rr_OPT: "Some (norm_rr rr) = map_option norm_rr r \<Longrightarrow> is_OPT (Some rr) = is_OPT r"
  by (cases r; cases rr) (auto simp: is_OPT_def norm_rr_def with_rdlength_def split: RR.splits; cases "the r"; simp)+

lemma norm_rr_Ttl: "norm_rr rr = norm_rr (RR_OPT opt) \<Longrightarrow> \<exists>opt'. rr = RR_OPT opt' \<and> ExtendedRcode opt' = ExtendedRcode opt"
  by (cases rr) (auto simp: norm_rr_def with_rdlength_def ExtendedRcode_def dest!: arg_cong [of _ _ "\<lambda>r. Hdr_Ttl (OPT_Hdr r)"])

text \<open>What \<^verbatim>\<open>unpack\<close> makes of the RCODE, when the additional section has read back.\<close>

lemma unpack_rcode_ext:
  assumes "list_all rec_ok ex" and "map (\<lambda>rr. Some (norm_rr rr)) ar = map (map_option norm_rr) ex"
    and "Msg_Extra d = map Some ar" and "list_all typed ar"
  shows "unpack_rcode (Ok ()) d =
    (case IsEdns0_loop ex (length ex) of
       Ok (Some (j, opt)) \<Rightarrow> (d\<lparr>Msg_Rcode := Msg_Rcode d OR ExtendedRcode opt\<rparr>, Ok ())
     | _ \<Rightarrow> (d, Ok ()))"
proof -
  have len: "length ar = length ex" using arg_cong [OF assms(2), of length] by simp
  have nth: "Some (norm_rr (ar ! k)) = map_option norm_rr (ex ! k)" if "k < length ex" for k
    using arg_cong [OF assms(2), of "\<lambda>l. l ! k"] that len by simp
  have iso: "is_OPT (Some (ar ! k)) = is_OPT (ex ! k)" if "k < length ex" for k
    using norm_rr_OPT [OF nth [OF that]] .
  have ok: "list_all rec_ok (Msg_Extra d)" using assms(3,4) rec_ok_map by simp
  from IsEdns0_loop_spec [OF assms(1) order_refl] show ?thesis
  proof (elim disjE exE conjE)
    assume n: "IsEdns0_loop ex (length ex) = Ok None" "\<forall>j < length ex. \<not> is_OPT (ex ! j)"
    from ok show ?thesis
    proof (cases rule: IsEdns0_cases)
      case none
      then show ?thesis using n by (simp add: unpack_rcode_def)
    next
      case (some j opt)
      then have "is_OPT (Some (ar ! j))" "j < length ex" using assms(3) len by (auto simp: is_OPT_def)
      then show ?thesis using iso n(2) by blast
    qed
  next
    fix j opt
    assume f: "IsEdns0_loop ex (length ex) = Ok (Some (j, opt))" "j < length ex" "ex ! j = Some (RR_OPT opt)"
      "\<forall>k. j < k \<and> k < length ex \<longrightarrow> \<not> is_OPT (ex ! k)"
    then have "norm_rr (ar ! j) = norm_rr (RR_OPT opt)" using nth [of j] by simp
    from norm_rr_Ttl [OF this] obtain opt' where o: "ar ! j = RR_OPT opt'" "ExtendedRcode opt' = ExtendedRcode opt" by blast
    from ok show ?thesis
    proof (cases rule: IsEdns0_cases)
      case none
      have "Some (ar ! j) \<in> set (Msg_Extra d)" using assms(3) f(2) len by auto
      with none(2) [OF this] o show ?thesis by (simp add: is_OPT_def)
    next
      case (some i opt2)
      have i: "i < length ex" "ar ! i = RR_OPT opt2" using some assms(3) len by auto
      have "i = j"
      proof (rule ccontr)
        assume "i \<noteq> j"
        then consider "i < j" | "j < i" by linarith
        then show False
        proof cases
          case 1
          then show False using some(4) [of j] f(2) len assms(3) o by (simp add: is_OPT_def)
        next
          case 2
          then show False using f(4) i iso [of i] by (simp add: is_OPT_def)
        qed
      qed
      then show ?thesis using some(1) f(1) o i by (simp add: unpack_rcode_def)
    qed
  qed
qed

lemma rr_type_set_Header [simp]: "rr_type (set_Header h rr) = rr_type rr"
  by (cases rr) simp_all

lemma norm_typed:
  assumes "norm_rr rr = norm_rr rr'"
  shows "typed rr = typed rr'"
proof -
  have "rr_type rr = rr_type rr'" using arg_cong [OF assms, of rr_type] by (simp add: norm_rr_def with_rdlength_def)
  moreover have "Hdr_Rrtype (rr_Header rr) = Hdr_Rrtype (rr_Header rr')"
    using arg_cong [OF assms, of "\<lambda>r. Hdr_Rrtype (rr_Header r)"] by (simp add: norm_rr_def with_rdlength_def)
  ultimately show ?thesis by (simp add: typed_def type_ok_def split: option.split)
qed

lemma norm_msg_eqI:
  assumes "map (map_option norm_rr) (Msg_Answer m) = map (map_option norm_rr) (Msg_Answer m')"
    and "map (map_option norm_rr) (Msg_Ns m) = map (map_option norm_rr) (Msg_Ns m')"
    and "map (map_option norm_rr) (Msg_Extra m) = map (map_option norm_rr) (Msg_Extra m')"
    and "m\<lparr>Msg_Answer := [], Msg_Ns := [], Msg_Extra := []\<rparr> = m'\<lparr>Msg_Answer := [], Msg_Ns := [], Msg_Extra := [], Msg_Compress := c\<rparr>"
  shows "norm_msg m = (norm_msg m')\<lparr>Msg_Compress := c\<rparr>"
  using assms unfolding norm_msg_def by (cases m; cases m') simp

lemma pack_sections_reads_back:
  assumes ok: "sections_ok dns" and "0 \<le> Msg_Opcode dns" "Msg_Opcode dns < 16" "0 \<le> Msg_Rcode dns" and cm: "\<And>Q. cm_sound cm Q"
    and rc: "IsEdns0 dns = Ok found" "(case found of None \<Rightarrow> Msg_Rcode dns mod 16
        | Some (_, opt) \<Rightarrow> Msg_Rcode dns mod 16 OR ExtendedRcode opt) = Msg_Rcode dns"
  shows "\<exists>b dns'. pack_sections dns buf cm compress = Ok b \<and> length b \<le> msg_size dns \<and> Unpack d b = (dns', Ok ()) \<and>
    norm_msg dns' = (norm_msg dns)\<lparr>Msg_Compress := Msg_Compress d\<rparr>"
proof -
  let ?dh = "wire_header dns"
  let ?d = "setHdr ?dh d"
  obtain b an ns ar where B: "pack_sections dns buf cm compress = Ok b" "12 \<le> length b" "length b \<le> msg_size dns"
    "take 12 b = enc_header ?dh"
    "Msg_unpack ?d ?dh b 12 =
      unpack_rcode (Ok ()) (?d\<lparr>Msg_Question := Msg_Question dns, Msg_Answer := map Some an, Msg_Ns := map Some ns, Msg_Extra := map Some ar\<rparr>)"
    "map (\<lambda>rr. Some (norm_rr rr)) an = map (map_option norm_rr) (Msg_Answer dns)"
    "map (\<lambda>rr. Some (norm_rr rr)) ns = map (map_option norm_rr) (Msg_Ns dns)"
    "map (\<lambda>rr. Some (norm_rr rr)) ar = map (map_option norm_rr) (Msg_Extra dns)"
    using pack_sections_ok [OF ok cm, of buf compress ?d] .
  define d1 where "d1 = ?d\<lparr>Msg_Question := Msg_Question dns, Msg_Answer := map Some an, Msg_Ns := map Some ns, Msg_Extra := map Some ar\<rparr>"
  have U: "Unpack d b = unpack_rcode (Ok ()) d1" using unpackMsgHdr_reads [OF B(4)] B(5) by (simp add: Unpack_def d1_def)
  have ex: "list_all rec_ok (Msg_Extra dns)" using ok by (rule sections_rec_ok)
  have "list_all typed ar"
    unfolding list_all_length
  proof (intro allI impI)
    fix k
    assume k: "k < length ar"
    have "length ar = length (Msg_Extra dns)" using arg_cong [OF B(8), of length] by simp
    with ex k obtain rr where rr: "Msg_Extra dns ! k = Some rr" "typed rr"
      by (auto simp: list_all_length rec_ok_def split: option.splits)
    moreover have "Some (norm_rr (ar ! k)) = map_option norm_rr (Msg_Extra dns ! k)"
      using arg_cong [OF B(8), of "\<lambda>l. l ! k"] k \<open>length ar = _\<close> by simp
    ultimately show "typed (ar ! k)" using norm_typed [of "ar ! k" rr] by simp
  qed
  moreover have "Msg_Extra d1 = map Some ar" by (simp add: d1_def)
  ultimately have "unpack_rcode (Ok ()) d1 = (case IsEdns0_loop (Msg_Extra dns) (length (Msg_Extra dns)) of
       Ok (Some (j, opt)) \<Rightarrow> (d1\<lparr>Msg_Rcode := Msg_Rcode d1 OR ExtendedRcode opt\<rparr>, Ok ())
     | _ \<Rightarrow> (d1, Ok ()))" using unpack_rcode_ext [OF ex B(8)] by blast
  then have R: "unpack_rcode (Ok ()) d1 = (case found of None \<Rightarrow> (d1, Ok ())
      | Some (_, opt) \<Rightarrow> (d1\<lparr>Msg_Rcode := Msg_Rcode d1 OR ExtendedRcode opt\<rparr>, Ok ()))"
    using rc(1) by (simp add: IsEdns0_def)
  have S: "?d = d\<lparr>Msg_Id := Msg_Id dns, Msg_Response := Msg_Response dns, Msg_Opcode := Msg_Opcode dns,
    Msg_Authoritative := Msg_Authoritative dns, Msg_Truncated := Msg_Truncated dns,
    Msg_RecursionDesired := Msg_RecursionDesired dns, Msg_RecursionAvailable := Msg_RecursionAvailable dns,
    Msg_Zero := Msg_Zero dns, Msg_AuthenticatedData := Msg_AuthenticatedData dns,
    Msg_CheckingDisabled := Msg_CheckingDisabled dns, Msg_Rcode := Msg_Rcode dns mod 16\<rparr>"
    using assms(2-4) by (intro setHdr_msg_bits) (simp_all add: wire_header_def)
  have N: "norm_msg (d1\<lparr>Msg_Rcode := Msg_Rcode dns\<rparr>) = (norm_msg dns)\<lparr>Msg_Compress := Msg_Compress d\<rparr>"
    unfolding d1_def S by (rule norm_msg_eqI) (simp_all add: B(6-8) comp_def)
  have rc1: "Msg_Rcode d1 = Msg_Rcode dns mod 16" unfolding d1_def S by simp
  show ?thesis
  proof (cases found)
    case None
    then have "d1\<lparr>Msg_Rcode := Msg_Rcode dns\<rparr> = d1" using rc(2) rc1 by (intro Msg.equality) simp_all
    then show ?thesis using U R None B(1,3) N by auto
  next
    case (Some io)
    then obtain i opt where f: "found = Some (i, opt)" by (cases io) auto
    then have "unpack_rcode (Ok ()) d1 = (d1\<lparr>Msg_Rcode := Msg_Rcode dns\<rparr>, Ok ())" using R rc(2) rc1 by simp
    then show ?thesis using U B(1,3) N by auto
  qed
qed

text \<open>
  Packing changes nothing in the message but the extended RCODE of an OPT record: \<open>no_ext_rcode\<close>
  forgets it.
\<close>

definition no_ext_rcode :: "RR option \<Rightarrow> RR option" where
  "no_ext_rcode r = (case r of Some (RR_OPT opt) \<Rightarrow> Some (RR_OPT (SetExtendedRcode 0 opt)) | _ \<Rightarrow> r)"

definition no_ext_rcodes :: "Msg \<Rightarrow> Msg" where
  "no_ext_rcodes dns = dns\<lparr>Msg_Extra := map no_ext_rcode (Msg_Extra dns)\<rparr>"

lemma no_ext_rcode_set: "no_ext_rcode (Some (RR_OPT (SetExtendedRcode v opt))) = no_ext_rcode (Some (RR_OPT opt))"
  by (simp add: no_ext_rcode_def setters(2) put_bits_put) (simp add: set_Ttl_def)

lemma PackBuffer_reads_back:
  assumes ok: "msg_ok dns"
  shows "\<exists>dns1 b dns2. PackBuffer dns buf = (dns1, Ok b) \<and> length b \<le> msg_size dns \<and> Unpack d b = (dns2, Ok ()) \<and>
    norm_msg dns2 = (norm_msg dns1)\<lparr>Msg_Compress := Msg_Compress d\<rparr> \<and> msg_ok dns1 \<and> no_ext_rcodes dns1 = no_ext_rcodes dns"
proof -
  have s: "sections_ok dns" "0 \<le> Msg_Opcode dns" "Msg_Opcode dns < 16" "0 \<le> Msg_Rcode dns" "Msg_Rcode dns \<le> 0xFFF"
    "Msg_Rcode dns \<le> 0xF \<or> list_ex is_OPT (Msg_Extra dns)" using ok by (auto simp: msg_ok_def)
  obtain cm compress where P: "PackBuffer dns buf = packBufferWithCompressionMap dns buf cm compress" "\<And>Q. cm_sound cm Q"
    using that [of new_compression True] that [of no_compression False] cm_sound_new cm_sound_none
    by (cases "Msg_Compress dns \<and> isCompressible dns") (auto simp: PackBuffer_def)
  have ex: "list_all rec_ok (Msg_Extra dns)" using s(1) by (rule sections_rec_ok)
  then show ?thesis
  proof (cases rule: IsEdns0_cases)
    case none
    then have le: "Msg_Rcode dns \<le> 0xF" using s(6) by (auto simp: list_ex_iff)
    with pack_sections_reads_back [OF s(1-4) P(2) none(1), of buf compress d] s(4)
    obtain b dns2 where "pack_sections dns buf cm compress = Ok b" "length b \<le> msg_size dns" "Unpack d b = (dns2, Ok ())"
      "norm_msg dns2 = (norm_msg dns)\<lparr>Msg_Compress := Msg_Compress d\<rparr>" by auto
    moreover from this(1) have "PackBuffer dns buf = (dns, Ok b)"
      using P(1) none(1) s(4,5) le by (simp add: packBufferWithCompressionMap_def)
    ultimately show ?thesis using ok by blast
  next
    case (some j opt)
    let ?o = "SetExtendedRcode (word_of_int (Msg_Rcode dns)) opt"
    let ?dns = "dns\<lparr>Msg_Extra := (Msg_Extra dns)[j := Some (RR_OPT ?o)]\<rparr>"
    have fit: "rr_fits (Some (RR_OPT ?o))"
      using s(1) some(2,3) by (intro rr_fits_set_rcode) (auto simp: sections_ok_def list_all_length)
    have s1: "sections_ok ?dns"
      using s(1) fit some(2) by (auto simp: sections_ok_def list_all_length nth_list_update)
    have ex1: "list_all rec_ok (Msg_Extra ?dns)" using s1 by (rule sections_rec_ok)
    have found: "IsEdns0 ?dns = Ok (Some (j, ?o))"
      using ex1
    proof (cases rule: IsEdns0_cases)
      case none
      have "Some (RR_OPT ?o) \<in> set (Msg_Extra ?dns)" using some(2) by (simp add: set_update_memI)
      with none(2) [OF this] show ?thesis by (simp add: is_OPT_def)
    next
      case (some i opt')
      have "i = j"
      proof (rule ccontr)
        assume "i \<noteq> j"
        then consider "i < j" | "j < i" by linarith
        then show False
        proof cases
          case 1
          then show False using some(4) [of j] \<open>j < length (Msg_Extra dns)\<close> by (simp add: is_OPT_def)
        next
          case 2
          then show False using \<open>\<And>k. j < k \<Longrightarrow> k < length (Msg_Extra dns) \<Longrightarrow> \<not> is_OPT (Msg_Extra dns ! k)\<close> [of i] some(2,3)
            by (simp add: is_OPT_def)
        qed
      qed
      then show ?thesis using some(1,3) \<open>j < length (Msg_Extra dns)\<close> by simp
    qed
    have rc: "Msg_Rcode dns mod 16 OR ExtendedRcode ?o = Msg_Rcode dns"
      using rcode_parts [OF s(4,5)] opt_setters(2) [of "word_of_int (Msg_Rcode dns)" opt] by (simp add: edns_view_of_def)
    have "map rr_size ((Msg_Extra dns)[j := Some (RR_OPT ?o)]) = map rr_size (Msg_Extra dns)"
      using some(2,3) by (intro nth_equalityI) (auto simp: nth_list_update Len_def OPT_len_def SetExtendedRcode_def set_Ttl_def)
    then have sz: "msg_size ?dns = msg_size dns" by (simp add: msg_size_def)
    from pack_sections_reads_back [OF s1 _ _ _ P(2) found, of buf compress d] s rc sz
    obtain b dns2 where "pack_sections ?dns buf cm compress = Ok b" "length b \<le> msg_size dns" "Unpack d b = (dns2, Ok ())"
      "norm_msg dns2 = (norm_msg ?dns)\<lparr>Msg_Compress := Msg_Compress d\<rparr>" by auto
    moreover from this(1) have "PackBuffer dns buf = (?dns, Ok b)"
      using P(1) some(1) s(4,5) by (simp add: packBufferWithCompressionMap_def Let_def)
    moreover have "\<exists>r \<in> set (Msg_Extra ?dns). is_OPT r"
      using some(2) by (intro bexI [of _ "Some (RR_OPT ?o)"]) (simp_all add: set_update_memI is_OPT_def)
    then have "msg_ok ?dns" using s s1 by (simp add: msg_ok_def list_ex_iff)
    moreover have "map no_ext_rcode (Msg_Extra ?dns) = map no_ext_rcode (Msg_Extra dns)"
      using some(2,3) by (intro nth_equalityI) (auto simp: nth_list_update no_ext_rcode_set)
    then have "no_ext_rcodes ?dns = no_ext_rcodes dns" by (simp add: no_ext_rcodes_def)
    ultimately show ?thesis by auto
  qed
qed

subsection \<open>What is read is bounded by the message\<close>

lemma unpack_questions_count:
  assumes "unpack_questions n msg off qs = (qs', Ok off')" and "off \<le> length msg"
  shows "off + length qs' \<le> off' + length qs \<and> off' \<le> length msg \<and> length qs' \<le> length qs + n"
  using assms
proof (induction n arbitrary: off qs)
  case (Suc n)
  then obtain q o1 where q: "unpackQuestion msg off = Ok (q, o1)" by (auto split: outcome.splits)
  then have o1: "off < o1" "o1 \<le> length msg" using unpackQuestion_safe [of msg off] by auto
  with Suc.prems q have "unpack_questions n msg o1 (qs @ [q]) = (qs', Ok off')" by simp
  from Suc.IH [OF this o1(2)] o1 show ?case by simp
qed simp

lemma unpack_section_Ok:
  assumes "unpack_section upd n msg off dns rest = (dns', Ok ())" and "off \<le> length msg"
  obtains rrs off' where "rest off' (upd (map Some rrs) dns) = (dns', Ok ())" and "off + 11 * length rrs \<le> off'"
    and "off' \<le> length msg" and "length rrs \<le> unat n"
proof (cases "unpackRRslice (unat n) msg off")
  case (Ok r)
  then show ?thesis using that assms unpackRRslice_safe [OF assms(2), of "unat n"] by (cases r) (auto simp: unpack_section_def)
next
  case (Err e)
  then show ?thesis using assms(1) by (cases e) (auto simp: unpack_section_def unpack_rcode_def split: outcome.splits option.splits)
next
  case Panic
  then show ?thesis using assms(1) by (simp add: unpack_section_def)
qed

lemma unpack_rcode_sections:
  "unpack_rcode r dns = (dns', Ok ()) \<Longrightarrow> Msg_Question dns' = Msg_Question dns \<and> Msg_Answer dns' = Msg_Answer dns \<and>
     Msg_Ns dns' = Msg_Ns dns \<and> Msg_Extra dns' = Msg_Extra dns"
  by (auto simp: unpack_rcode_def split: outcome.splits option.splits)

lemma Msg_unpack_count:
  assumes "Msg_unpack dns dh msg off = (dns', Ok ())" and "off \<le> length msg"
  shows "off + length (Msg_Question dns') + 11 * (length (Msg_Answer dns') + length (Msg_Ns dns') + length (Msg_Extra dns')) \<le> length msg"
proof (cases "off = length msg")
  case True
  then show ?thesis using assms by (auto simp: Msg_unpack_def)
next
  case False
  obtain qs r where q: "unpack_questions (unat (DH_Qdcount dh)) msg off [] = (qs, r)" by fastforce
  with assms(1) False obtain o1 where r: "r = Ok o1" by (auto simp: Msg_unpack_def Let_def split: outcome.splits)
  note Q = unpack_questions_count [OF q [unfolded r] assms(2)]
  let ?d = "dns\<lparr>Msg_Question := qs\<rparr>"
  have "unpack_section (\<lambda>rs. Msg_Answer_update (\<lambda>_. rs)) (DH_Ancount dh) msg o1 ?d (\<lambda>off dns.
      unpack_section (\<lambda>rs. Msg_Ns_update (\<lambda>_. rs)) (DH_Nscount dh) msg off dns (\<lambda>off dns.
      unpack_section (\<lambda>rs. Msg_Extra_update (\<lambda>_. rs)) (DH_Arcount dh) msg off dns (\<lambda>off dns. unpack_rcode (Ok ()) dns))) = (dns', Ok ())"
    using assms(1) False q r by (simp add: Msg_unpack_def)
  then show ?thesis using Q by (elim unpack_section_Ok) (auto dest!: unpack_rcode_sections)
qed

subsection \<open>The properties of messages\<close>

text \<open>
  A message with a question, the address record that answers it and an OPT record; its RCODE needs
  the OPT record.
\<close>

definition ex_OPT :: RR where
  "ex_OPT = RR_OPT \<lparr>OPT_Hdr = \<lparr>Hdr_Name = [DOT], Hdr_Rrtype = TypeOPT, Hdr_Class = 1232, Hdr_Ttl = 0, Hdr_Rdlength = 0\<rparr>,
     OPT_Option = []\<rparr>"

definition ex_msg :: Msg where
  "ex_msg = new_Msg\<lparr>Msg_Id := 7, Msg_Response := True, Msg_Rcode := 16, Msg_Compress := True,
     Msg_Question := [\<lparr>Q_Name = str ''a.'', Q_Qtype = TypeA, Q_Qclass = 1\<rparr>],
     Msg_Answer := [Some ex_A], Msg_Extra := [Some ex_OPT]\<rparr>"

lemma ex_rrs: "rr_ok ex_OPT" "rd_size ex_OPT = 0" "is_OPT (Some ex_OPT)" "ok_name (str ''a.'')"
  by code_simp+

lemma ex_msg_ok: "msg_ok ex_msg"
  using ex_rrs ex_A_facts by (simp add: msg_ok_def sections_ok_def ex_msg_def new_Msg_def rr_fits_def)

text \<open>
  C1: Every well-formed message packs, into at most as many octets as its length without compression
  says, whether or not it is compressed and whatever buffer it is given; and what was packed unpacks
  without an error into the same message: header, questions and all records are as before, except
  that the length of its data is now in the header of each record. The message that was packed is
  only changed in the extended RCODE of its OPT record. The records have their data in the form that the unpackers write; so
  EDNS options have \<^verbatim>\<open>Code\<close> 0, which is what unpacking leaves in it.
\<close>

theorem message_reads_back:
  assumes "msg_ok dns"
  shows "\<exists>dns1 b dns2. PackBuffer dns buf = (dns1, Ok b) \<and> length b \<le> msgLenWithCompressionMap dns None \<and>
    Unpack d b = (dns2, Ok ()) \<and> norm_msg dns2 = (norm_msg dns1)\<lparr>Msg_Compress := Msg_Compress d\<rparr> \<and>
    no_ext_rcodes dns1 = no_ext_rcodes dns"
  using PackBuffer_reads_back [OF assms, of buf d] unfolding msgLen_None by blast

theorem message_reads_back_witness:
  "\<exists>dns1 b dns2. PackBuffer ex_msg [] = (dns1, Ok b) \<and> length b \<le> msgLenWithCompressionMap ex_msg None \<and>
    Unpack new_Msg b = (dns2, Ok ()) \<and> norm_msg dns2 = (norm_msg dns1)\<lparr>Msg_Compress := Msg_Compress new_Msg\<rparr> \<and>
    no_ext_rcodes dns1 = no_ext_rcodes ex_msg"
  using message_reads_back [OF ex_msg_ok] .

text \<open>
  C6: Unpacking never panics, whatever the octets are, and keeps the invariant that no record of a
  section is nil and the type of each record is the one its header says; also when it fails half way.
  Since a new message satisfies the invariant, so does every message that is only unpacked into.
\<close>

theorem Unpack_keeps_typed:
  assumes "msg_typed dns"
  shows "msg_typed (fst (Unpack dns msg)) \<and> snd (Unpack dns msg) \<noteq> Panic"
  using Unpack_good [OF assms] unfolding good_def .

theorem Unpack_keeps_typed_witness:
  "msg_typed new_Msg \<and> msg_typed (fst (Unpack new_Msg [0, 7, 0x84])) \<and> snd (Unpack new_Msg [0, 7, 0x84]) \<noteq> Panic"
proof -
  have "msg_typed new_Msg" by (simp add: msg_typed_def new_Msg_def)
  with Unpack_keeps_typed [OF this, of "[0, 7, 0x84]"] show ?thesis by simp
qed

text \<open>
  C31: The counts in the header of a message are not trusted: whatever they say, a message of
  \<open>n\<close> octets gives at most one question for every octet after the header, and one record for every
  eleven octets.
\<close>

theorem Unpack_bounded:
  assumes "Unpack dns msg = (dns', Ok ())"
  shows "12 + length (Msg_Question dns') +
    11 * (length (Msg_Answer dns') + length (Msg_Ns dns') + length (Msg_Extra dns')) \<le> length msg"
proof -
  from assms obtain dh off where h: "unpackMsgHdr msg 0 = Ok (dh, off)" and u: "Msg_unpack (setHdr dh dns) dh msg off = (dns', Ok ())"
    by (auto simp: Unpack_def split: outcome.splits)
  have "off = 12" "off \<le> length msg" using unpackMsgHdr_safe [of msg 0] h by auto
  with Msg_unpack_count [OF u] show ?thesis by simp
qed

theorem Unpack_bounded_witness:
  "\<exists>dns'. Unpack new_Msg (replicate 4 0 @ [255, 255] @ replicate 6 0) = (dns', Ok ()) \<and>
    12 + length (Msg_Question dns') + 11 * (length (Msg_Answer dns') + length (Msg_Ns dns') + length (Msg_Extra dns')) \<le> 12"
proof -
  let ?m = "replicate 4 0 @ [255, 255] @ replicate 6 (0 :: byte)"
  have "snd (Unpack new_Msg ?m) = Ok ()" by code_simp
  then have "Unpack new_Msg ?m = (fst (Unpack new_Msg ?m), Ok ())" by (metis prod.collapse)
  from Unpack_bounded [OF this] this show ?thesis by (intro exI [of _ "fst (Unpack new_Msg ?m)"]) simp
qed

text \<open>
  Fewer than twelve octets are not a message: unpacking returns an error and leaves the message
  as it was.
\<close>

lemma Unpack_short:
  assumes "length msg < 12"
  shows "\<exists>e. Unpack dns msg = (dns, Err e)"
  using unpackMsgHdr_safe [of msg 0] assms by (cases "unpackMsgHdr msg 0") (auto simp: Unpack_def)

text \<open>
  C35: \<^verbatim>\<open>Pack\<close> refuses an RCODE that is negative or above 4095, and, when no additional record is nil or of another struct than its type
  says, an RCODE above 15 when the message has no OPT record; neither touches the message.
\<close>

theorem Pack_refuses:
  "(Msg_Rcode dns < 0 \<or> Msg_Rcode dns > 0xFFF \<longrightarrow> Pack dns = (dns, Err ErrRcode)) \<and>
   (0xF < Msg_Rcode dns \<and> Msg_Rcode dns \<le> 0xFFF \<and> list_all rec_ok (Msg_Extra dns) \<and> \<not> list_ex is_OPT (Msg_Extra dns) \<longrightarrow>
      Pack dns = (dns, Err ErrExtendedRcode))"
proof (intro conjI impI)
  assume A: "0xF < Msg_Rcode dns \<and> Msg_Rcode dns \<le> 0xFFF \<and> list_all rec_ok (Msg_Extra dns) \<and> \<not> list_ex is_OPT (Msg_Extra dns)"
  then have "list_all rec_ok (Msg_Extra dns)" by simp
  then have "IsEdns0 dns = Ok None"
  proof (cases rule: IsEdns0_cases)
    case (some j opt)
    then have "list_ex is_OPT (Msg_Extra dns)" by (auto simp: list_ex_length is_OPT_def intro!: exI [of _ j])
    then show ?thesis using A by simp
  qed
  with A show "Pack dns = (dns, Err ErrExtendedRcode)"
    by (simp add: Pack_def PackBuffer_def packBufferWithCompressionMap_def)
qed (auto simp: Pack_def PackBuffer_def packBufferWithCompressionMap_def)

theorem Pack_refuses_witness:
  "Pack (new_Msg\<lparr>Msg_Rcode := 4096\<rparr>) = (new_Msg\<lparr>Msg_Rcode := 4096\<rparr>, Err ErrRcode) \<and>
   Pack (new_Msg\<lparr>Msg_Rcode := 16\<rparr>) = (new_Msg\<lparr>Msg_Rcode := 16\<rparr>, Err ErrExtendedRcode)"
  using Pack_refuses [of "new_Msg\<lparr>Msg_Rcode := 4096\<rparr>"] Pack_refuses [of "new_Msg\<lparr>Msg_Rcode := 16\<rparr>"] by (simp add: new_Msg_def)

text \<open>
  The header bits of a message read back: identifier, opcode, all flags and the lower four bits
  of the RCODE, for every opcode of four bits.
\<close>

lemma header_bits_read_back:
  assumes "0 \<le> Msg_Opcode dns" and "Msg_Opcode dns < 16" and "0 \<le> Msg_Rcode dns"
  shows "setHdr (wire_header dns) d = d\<lparr>Msg_Id := Msg_Id dns, Msg_Response := Msg_Response dns, Msg_Opcode := Msg_Opcode dns,
    Msg_Authoritative := Msg_Authoritative dns, Msg_Truncated := Msg_Truncated dns,
    Msg_RecursionDesired := Msg_RecursionDesired dns, Msg_RecursionAvailable := Msg_RecursionAvailable dns,
    Msg_Zero := Msg_Zero dns, Msg_AuthenticatedData := Msg_AuthenticatedData dns,
    Msg_CheckingDisabled := Msg_CheckingDisabled dns, Msg_Rcode := Msg_Rcode dns mod 16\<rparr>"
  using assms by (rule setHdr_msg_bits) (simp_all add: wire_header_def)

text \<open>
  \<^verbatim>\<open>IsEdns0\<close> returns the last OPT record of the additional section, and nothing when there
  is none; it does not panic when every record has the type its header says.
\<close>

lemma IsEdns0_last:
  assumes "list_all rec_ok (Msg_Extra dns)"
  shows "case IsEdns0 dns of
      Ok None \<Rightarrow> \<not> list_ex is_OPT (Msg_Extra dns)
    | Ok (Some (j, opt)) \<Rightarrow> j < length (Msg_Extra dns) \<and> Msg_Extra dns ! j = Some (RR_OPT opt) \<and>
        \<not> list_ex is_OPT (drop (Suc j) (Msg_Extra dns))
    | _ \<Rightarrow> False"
  using assms
proof (cases rule: IsEdns0_cases)
  case none
  then show ?thesis by (auto simp: list_ex_iff)
next
  case (some j opt)
  then have "\<not> list_ex is_OPT (drop (Suc j) (Msg_Extra dns))" by (auto simp: list_ex_length)
  with some show ?thesis by simp
qed

end
