(* ===== verification/Len_Bound.thy ===== *)
theory Len_Bound
  imports RR_Wire
begin

section \<open>The length with compression\<close>

text \<open>
  \<^verbatim>\<open>Len\<close> predicts the length of a message with compression from a set of names alone, while
  \<^verbatim>\<open>Pack\<close> keeps a map from names to offsets; the two look at different offsets, since
  \<^verbatim>\<open>Len\<close> counts the characters of a name and not its octets. The invariant that connects them
  says that every name in the set is in the map, and that the map is dense: with an entry come
  the entries of the shorter names it ends in, as far as their offsets can be pointed to. It follows
  that the length is never too small, for names and for the records of every type.
\<close>

subsection \<open>The text of a list of labels\<close>

abbreviation text_of :: "bytes list \<Rightarrow> gostring" where
  "text_of ls \<equiv> join_labels (map present_label ls)"

lemma label_suffixes_esc:
  "label_suffixes cur sfx (esc_label_byte b @ rest) = label_suffixes (cur @ [b]) sfx rest"
proof -
  consider (special) "isDomainNameLabelSpecial b"
    | (ddd) "\<not> isDomainNameLabelSpecial b" "b < 0x20 \<or> b > 0x7E"
    | (plain) "\<not> isDomainNameLabelSpecial b" "\<not> (b < 0x20 \<or> b > 0x7E)" by blast
  then show ?thesis
  proof cases
    case special
    then show ?thesis
      using special_cases(1) not_DDD by (simp add: esc_label_byte_def label_suffixes_simps)
  next
    case ddd
    have "label_suffixes cur sfx (BSL # tl (ddd_entry (unat b)) @ rest) = label_suffixes (cur @ [b]) sfx rest"
      using ddd_digits [OF unat_byte_less, of b rest]
      by (simp add: label_suffixes_simps(2) ddd_entry_def del: isDDD.simps dddToByte.simps)
    then have "label_suffixes cur sfx (ddd_entry (unat b) @ rest) = label_suffixes (cur @ [b]) sfx rest"
      by (subst ddd_entry_Cons) simp
    then show ?thesis using ddd escapeByte_eq [OF ddd(2)] by (simp add: esc_label_byte_def)
  next
    case plain
    then show ?thesis by (auto simp: esc_label_byte_def isDomainNameLabelSpecial_def label_suffixes_simps)
  qed
qed

lemma label_suffixes_text:
  "label_suffixes [] (text_of (l # ls)) (text_of (l # ls)) = (l, text_of (l # ls)) # label_suffixes [] (text_of ls) (text_of ls)"
proof -
  have "label_suffixes cur sfx (present_label l @ rest) = label_suffixes (cur @ l) sfx rest" for cur sfx rest
    by (induction l arbitrary: cur) (simp_all add: label_suffixes_esc)
  then show ?thesis by (simp add: label_suffixes_simps)
qed

lemma octets_le_text: "labels_octets ls \<le> length (text_of ls)"
proof -
  have "length l \<le> length (present_label l)" for l
  proof (induction l)
    case (Cons b l)
    have "1 \<le> length (esc_label_byte b)" using esc_label_byte_neq_Nil [of b] by (cases "esc_label_byte b") auto
    with Cons show ?case by simp
  qed simp
  then show ?thesis by (induction ls) (auto intro: add_mono)
qed

lemma text_of_inj [simp]: "text_of ls = text_of ks \<longleftrightarrow> ls = ks"
  using split_labels_present by (metis option.inject)

lemma length_text_drop: "i < length ls \<Longrightarrow> 0 < i \<Longrightarrow> length (text_of (drop i ls)) < length (text_of ls)"
  by (subst (2) append_take_drop_id [of i ls, symmetric]) (auto simp del: append_take_drop_id)

subsection \<open>Dense maps\<close>

text \<open>The names \<open>P\<close> are still being entered.\<close>

definition dense_but :: "gostring set \<Rightarrow> compressionMap \<Rightarrow> nat \<Rightarrow> bool" where
  "dense_but P cm off \<longleftrightarrow>
     cm_valid cm \<and> cm_nonneg cm \<and>
     (\<forall>ls o1. ls \<noteq> [] \<longrightarrow> text_of ls \<notin> P \<longrightarrow> cm_find cm (text_of ls) = Some o1 \<longrightarrow>
        o1 \<le> int off \<and>
        (\<forall>i < length ls. o1 + int (labels_octets (take i ls)) < int maxCompressionOffset \<longrightarrow>
           cm_find cm (text_of (drop i ls)) \<noteq> None))"

abbreviation dense :: "compressionMap \<Rightarrow> nat \<Rightarrow> bool" where
  "dense \<equiv> dense_but {}"

lemma dense_but_D:
  assumes "dense_but P cm off"
  shows "cm_valid cm" and "cm_nonneg cm"
    and "ls \<noteq> [] \<Longrightarrow> text_of ls \<notin> P \<Longrightarrow> cm_find cm (text_of ls) = Some o1 \<Longrightarrow> o1 \<le> int off"
    and "ls \<noteq> [] \<Longrightarrow> text_of ls \<notin> P \<Longrightarrow> cm_find cm (text_of ls) = Some o1 \<Longrightarrow> i < length ls \<Longrightarrow>
      o1 + int (labels_octets (take i ls)) < int maxCompressionOffset \<Longrightarrow> cm_find cm (text_of (drop i ls)) \<noteq> None"
  using assms unfolding dense_but_def by blast+

lemma dense_but_mono: "dense_but P cm off \<Longrightarrow> off \<le> off' \<Longrightarrow> dense_but P cm off'"
  unfolding dense_but_def by (meson of_nat_mono order_trans)

lemma cm_valid_insert: "cm_valid cm \<Longrightarrow> cm_valid (cm_insert cm s pos)"
  by (auto simp: cm_valid_def cm_insert_def split: option.splits)

text \<open>What encoding a name does to the map, and how long the encoding is.\<close>

definition enters :: "gostring set \<Rightarrow> bool \<Rightarrow> compressionMap \<Rightarrow> nat \<Rightarrow> bytes list \<Rightarrow> bytes \<times> compressionMap \<Rightarrow> bool" where
  "enters P b cm off ls r \<longleftrightarrow>
     dense_but P (snd r) (off + length (fst r)) \<and>
     (\<forall>t o1. cm_find cm t = Some o1 \<longrightarrow> cm_find (snd r) t = Some o1) \<and>
     (\<forall>i < length ls. off + labels_octets (take i ls) < maxCompressionOffset \<longrightarrow>
        cm_find (snd r) (text_of (drop i ls)) \<noteq> None) \<and>
     (\<forall>k < length ls. b \<longrightarrow> cm_find cm (text_of (drop k ls)) \<noteq> None \<longrightarrow>
        length (fst r) \<le> labels_octets (take k ls) + 2)"

lemma enters_D:
  assumes "enters P b cm off ls r"
  shows "dense_but P (snd r) (off + length (fst r))"
    and "cm_find cm t = Some o1 \<Longrightarrow> cm_find (snd r) t = Some o1"
    and "i < length ls \<Longrightarrow> off + labels_octets (take i ls) < maxCompressionOffset \<Longrightarrow>
           cm_find (snd r) (text_of (drop i ls)) \<noteq> None"
    and "k < length ls \<Longrightarrow> b \<Longrightarrow> cm_find cm (text_of (drop k ls)) \<noteq> None \<Longrightarrow>
           length (fst r) \<le> labels_octets (take k ls) + 2"
  using assms unfolding enters_def by blast+

lemma enc_labels_enters:
  assumes "list_all wf_label ls" and "dense_but P cm off" and "\<forall>t \<in> P. length (text_of ls) < length t"
  shows "enters P b cm off ls (enc_labels b cm off (label_suffixes [] (text_of ls) (text_of ls)))"
  using assms
proof (induction ls arbitrary: P cm off)
  case Nil
  then show ?case
    by (auto simp: enters_def label_suffixes_simps intro: dense_but_mono)
next
  case (Cons l ls)
  let ?s = "text_of (l # ls)" and ?ps = "label_suffixes [] (text_of ls) (text_of ls)"
  note d = dense_but_D [OF Cons.prems(2)]
  have wf: "l \<noteq> []" "list_all wf_label ls" using Cons.prems(1) by (simp_all add: wf_label_def [of l])
  have sP: "?s \<notin> P" using Cons.prems(3) by auto
  have short: "\<forall>t \<in> P. length (text_of ls) < length t" using Cons.prems(3) by auto
  have step: "enters P b cm off (l # ls) (of_nat (length l) # l @ fst r, snd r)"
    if r: "enters Q b cm1 (off + 1 + length l) ls r" and Q: "Q = P \<or> Q = insert ?s P \<and> cm_find cm1 ?s = Some (int off)"
      and keep: "\<And>t o1. cm_find cm t = Some o1 \<Longrightarrow> cm_find cm1 t = Some o1"
      and here: "off < maxCompressionOffset \<Longrightarrow> cm_find cm1 ?s \<noteq> None"
      and none: "b \<Longrightarrow> cm_find cm ?s = None" for Q cm1 r
  proof -
    note e = enters_D [OF r]
    have names: "cm_find (snd r) (text_of (drop i (l # ls))) \<noteq> None"
      if i: "i < length (l # ls)" "off + labels_octets (take i (l # ls)) < maxCompressionOffset" for i
    proof (cases i)
      case 0
      with here i obtain o1 where "cm_find cm1 ?s = Some o1" by auto
      from e(2) [OF this] show ?thesis unfolding 0 by simp
    next
      case (Suc j)
      with e(3) [of j] i show ?thesis by simp
    qed
    moreover have "length l + 1 + length (fst r) \<le> labels_octets (take k (l # ls)) + 2"
      if k: "k < length (l # ls)" "b" "cm_find cm (text_of (drop k (l # ls))) \<noteq> None" for k
    proof (cases k)
      case 0
      with k none show ?thesis by simp
    next
      case (Suc j)
      have "cm_find cm1 (text_of (drop j ls)) \<noteq> None" using keep k(3) unfolding Suc by fastforce
      with e(4) [of j] k Suc show ?thesis by simp
    qed
    moreover have "dense_but P (snd r) (off + 1 + length l + length (fst r))"
      using Q
    proof
      assume Q: "Q = insert ?s P \<and> cm_find cm1 ?s = Some (int off)"
      then have here: "cm_find (snd r) ?s = Some (int off)" using e(2) by blast
      note d = dense_but_D [OF e(1)]
      have "o1 \<le> int (off + 1 + length l + length (fst r)) \<and>
          (\<forall>i < length ks. o1 + int (labels_octets (take i ks)) < int maxCompressionOffset \<longrightarrow> cm_find (snd r) (text_of (drop i ks)) \<noteq> None)"
        if ks: "ks \<noteq> []" "text_of ks \<notin> P" "cm_find (snd r) (text_of ks) = Some o1" for ks o1
      proof (cases "ks = l # ls")
        case True
        then have "o1 = int off" using ks(3) here by simp
        with True names show ?thesis by (auto simp del: join_labels_simps list.map take_Suc_Cons drop_Suc_Cons simp flip: of_nat_add)
      next
        case False
        then have "text_of ks \<notin> Q" using ks(2) Q text_of_inj [of ks "l # ls"] by (simp del: join_labels_simps)
        with d(3,4) ks show ?thesis by blast
      qed
      with d(1,2) show ?thesis unfolding dense_but_def by blast
    qed (use e(1) in simp)
    ultimately show ?thesis
      using names e(2) [OF keep] unfolding enters_def by (simp add: add.assoc del: join_labels_simps)
  qed
  show ?case
  proof (cases "cm_find cm ?s")
    case (Some o1)
    have "?s \<noteq> []" by simp
    show ?thesis
    proof (cases b)
      case True
      have "off + labels_octets (take i (l # ls)) < maxCompressionOffset \<Longrightarrow> i < length (l # ls) \<Longrightarrow>
          cm_find cm (text_of (drop i (l # ls))) \<noteq> None" for i
        using d(3,4) [of "l # ls" o1] sP Some by force
      with Some True d(1) wf(1) Cons.prems(2) show ?thesis
        by (auto simp: label_suffixes_text ref_compress_def enters_def simp del: join_labels_simps list.map
            intro: dense_but_mono)
    next
      case False
      have "dense_but P cm (off + 1 + length l)" using Cons.prems(2) by (rule dense_but_mono) simp
      from step [OF Cons.IH [OF wf(2) this short]] Some False d(1) wf(1) show ?thesis
        by (auto simp: label_suffixes_text ref_compress_def Let_def split_def simp del: join_labels_simps list.map)
    qed
  next
    case None
    show ?thesis
    proof (cases "off < maxCompressionOffset")
      case False
      have "dense_but P cm (off + 1 + length l)" using Cons.prems(2) by (rule dense_but_mono) simp
      from step [OF Cons.IH [OF wf(2) this short]] None False d(1) wf(1) show ?thesis
        by (auto simp: label_suffixes_text ref_compress_def Let_def split_def simp del: join_labels_simps list.map)
    next
      case True
      let ?cm = "cm_insert cm ?s off" and ?off = "off + 1 + length l"
      have find: "cm_find ?cm t = (if t = ?s then Some (int off) else cm_find cm t)" for t
        using cm_find_insert [OF d(1)] True by auto
      have "o1 \<le> int ?off \<and>
          (\<forall>i < length ks. o1 + int (labels_octets (take i ks)) < int maxCompressionOffset \<longrightarrow> cm_find ?cm (text_of (drop i ks)) \<noteq> None)"
        if ks: "ks \<noteq> []" "text_of ks \<notin> insert ?s P" "cm_find ?cm (text_of ks) = Some o1" for ks o1
      proof -
        have "cm_find cm (text_of ks) = Some o1" "text_of ks \<notin> P" using ks find by (auto split: if_splits)
        with d(3,4) [OF ks(1), of o1] show ?thesis unfolding find by fastforce
      qed
      then have dense: "dense_but (insert ?s P) ?cm ?off"
        using cm_valid_insert [OF d(1)] cm_nonneg_insert [OF d(1,2)] unfolding dense_but_def by blast
      have "\<forall>t \<in> insert ?s P. length (text_of ls) < length t" using short by simp
      note IH = Cons.IH [OF wf(2) dense this]
      have "cm_find ?cm t = Some o1" if "cm_find cm t = Some o1" for t o1 using that None unfolding find by (auto simp del: join_labels_simps list.map)
      from step [OF IH _ this] None True d(1) wf(1) find show ?thesis
        by (auto simp: label_suffixes_text ref_compress_def Let_def split_def simp del: join_labels_simps list.map)
    qed
  qed
qed

text \<open>The search for a length.\<close>

lemma compressionLenSearch_loop_text:
  assumes "ls \<noteq> []" and "p = [] \<or> last p = DOT" and "compressionLenSearch_loop c (p @ text_of ls) off (length p) = (r, c')"
  shows "(\<forall>t \<in> c'. t \<in> c \<or> (\<exists>i < length ls. t = text_of (drop i ls) \<and> off + length p + length (text_of (take i ls)) < maxCompressionOffset)) \<and>
         (\<forall>k. r = Some k \<longrightarrow> (\<exists>i < length ls. k = length p + length (text_of (take i ls)) \<and> text_of (drop i ls) \<in> c))"
  using assms
proof (induction ls arbitrary: p c r c')
  case (Cons l ls)
  let ?s = "p @ text_of (l # ls)" and ?p = "p @ present_label l @ [DOT]"
  define c1 where "c1 = (if off + length p < maxCompressionOffset then insert (text_of (l # ls)) c else c)"
  have c1: "t = text_of (l # ls) \<and> off + length p < maxCompressionOffset" if "t \<in> c1" "t \<notin> c" for t
    using that by (auto simp: c1_def split: if_splits)
  have next_label: "NextLabel ?s (length p) = (length ?p, ls = [])"
    using NextLabel_join [OF raw_label_present, of p l "map present_label ls"] Cons.prems(2) by auto
  have step: "compressionLenSearch_loop c ?s off (length p) =
      (if text_of (l # ls) \<in> c then (Some (length p), c)
       else if ls = [] then (None, c1) else compressionLenSearch_loop c1 ?s off (length ?p))"
    by (subst compressionLenSearch_loop.simps) (simp only: next_label Let_def prod.case, simp add: c1_def)
  consider (found) "text_of (l # ls) \<in> c" "r = Some (length p)" "c' = c"
    | (last) "text_of (l # ls) \<notin> c" "ls = []" "r = None" "c' = c1"
    | (more) "text_of (l # ls) \<notin> c" "ls \<noteq> []" "compressionLenSearch_loop c1 (?p @ text_of ls) off (length ?p) = (r, c')"
    using Cons.prems(3) step by (auto split: if_splits)
  then show ?case
  proof cases
    case found
    then show ?thesis by (auto intro!: exI [of _ 0])
  next
    case last
    then show ?thesis using c1 by (auto intro!: exI [of _ 0])
  next
    case more
    have "?p = [] \<or> last ?p = DOT" by simp
    note IH = Cons.IH [OF more(2) this more(3)]
    have "t \<in> c \<or> (\<exists>i < length (l # ls). t = text_of (drop i (l # ls)) \<and> off + length p + length (text_of (take i (l # ls))) < maxCompressionOffset)"
      if "t \<in> c'" for t
    proof (cases "t \<in> c1")
      case True
      with c1 [of t] show ?thesis by force
    next
      case False
      with IH that obtain i where "i < length ls" "t = text_of (drop i ls)" "off + length ?p + length (text_of (take i ls)) < maxCompressionOffset" by blast
      then show ?thesis by (intro disjI2 exI [of _ "Suc i"]) simp
    qed
    moreover have "\<exists>i < length (l # ls). k = length p + length (text_of (take i (l # ls))) \<and> text_of (drop i (l # ls)) \<in> c" if rk: "r = Some k" for k
    proof -
      obtain i where i: "i < length ls" "k = length ?p + length (text_of (take i ls))" "text_of (drop i ls) \<in> c1"
        using IH rk by blast
      have "length (drop i ls) \<noteq> length (l # ls)" using i(1) by simp
      then have "drop i ls \<noteq> l # ls" by metis
      then have "text_of (drop i ls) \<in> c" using c1 [OF i(3)] text_of_inj by blast
      with i show ?thesis by (intro exI [of _ "Suc i"]) simp
    qed
    ultimately show ?thesis by blast
  qed
qed simp

subsection \<open>Names\<close>

text \<open>
  The length with the names \<open>c\<close> that was counted up to \<open>loff\<close>, against the octets
  packed up to \<open>off\<close> with the map \<open>cm\<close>.
\<close>

definition bounded :: "nat \<Rightarrow> lenMap \<Rightarrow> nat \<Rightarrow> compressionMap \<Rightarrow> bool" where
  "bounded loff C off cm \<longleftrightarrow>
     off \<le> loff \<and> dense cm off \<and> (case C of None \<Rightarrow> False | Some c \<Rightarrow> \<forall>t \<in> c. cm_find cm t \<noteq> None)"

lemma escapedNameLen_text: "escapedNameLen (text_of ls) = labels_octets ls"
  using escapedNameLen_loop_labels [OF split_labels_present, of ls "length (text_of ls)"]
  by (simp add: escapedNameLen_def)

lemma plain_text: "BSL \<notin> set (text_of ls) \<Longrightarrow> length (text_of ls) = labels_octets ls"
  using escapedNameLen_plain [of "text_of ls" "length (text_of ls)"] escapedNameLen_text [of ls]
  by (simp add: escapedNameLen_def)

lemma domainNameLen_bounded:
  assumes "ok_name s" and "bounded loff C off cm" and "b' \<longrightarrow> b"
    and "domainNameLen s loff C b' = (n, C')" and "enc_name b cm off s = (e, cm')"
  shows "bounded (loff + n) C' (off + length e) cm'"
proof -
  obtain c where C: "C = Some c" and off: "off \<le> loff" and cm: "dense cm off" and c: "\<And>t. t \<in> c \<Longrightarrow> cm_find cm t \<noteq> None"
    using assms(2) by (auto simp: bounded_def split: option.splits)
  obtain ls where nl: "name_labels s = Some ls" and s: "s = present ls"
    using assms(1) by (auto simp: ok_name_def split: option.splits)
  show ?thesis
  proof (cases "ls = []")
    case True
    then have "s = [DOT]" using s by (simp add: present_def)
    with assms(4,5) have "n = 1" "C' = C" "e = [0]" "cm' = cm" by (simp_all add: domainNameLen_def enc_name_def)
    with assms(2) show ?thesis by (auto simp: bounded_def intro: dense_but_mono)
  next
    case False
    then have s: "s = text_of ls" using s by (simp add: present_def)
    have root: "s \<noteq> [DOT]" "s \<noteq> []" using nl False by (auto simp: name_labels_def split_labels_simps split: if_splits)
    have wf: "list_all wf_label ls" using nl root(1) by (auto simp: name_labels_def split: option.splits if_splits)
    have e: "enc_labels b cm off (label_suffixes [] s s) = (e, cm')" using assms(5) root(1) by (simp add: enc_name_def)
    have "enters {} b cm off ls (e, cm')" using enc_labels_enters [OF wf cm, of b] e s by simp
    note E = enters_D [OF this, simplified]
    have full: "length e \<le> plainNameLen s + 1"
      using length_enc_name [OF nl, of b cm off] assms(5) domainNameLen_exact [OF nl, of 0 False] root
      by (simp add: domainNameLen_def)
    have keep: "cm_find cm' t \<noteq> None" if "t \<in> c" for t using c [OF that] E(2) by blast
    have plain: ?thesis if "n = plainNameLen s + 1" "C' = Some c'" and "\<And>t. t \<in> c' \<Longrightarrow> cm_find cm' t \<noteq> None" for c'
      using that full off E(1) by (simp add: bounded_def)
    show ?thesis
    proof (cases "b' \<or> loff < maxCompressionOffset")
      case False
      with assms(4) C root plain [of c] keep show ?thesis by (simp add: domainNameLen_def)
    next
      case True
      obtain r c' where r: "compressionLenSearch c s loff = (r, c')" by fastforce
      note S = compressionLenSearch_loop_text [OF \<open>ls \<noteq> []\<close>, of "[]" c loff r c', simplified]
      have S: "\<forall>t \<in> c'. t \<in> c \<or> (\<exists>i < length ls. t = text_of (drop i ls) \<and> loff + length (text_of (take i ls)) < maxCompressionOffset)"
        "\<And>k. r = Some k \<Longrightarrow> \<exists>i < length ls. k = length (text_of (take i ls)) \<and> text_of (drop i ls) \<in> c"
        using S r s by (simp_all add: compressionLenSearch_def)
      have found: "cm_find cm' t \<noteq> None" if "t \<in> c'" for t
      proof (cases "t \<in> c")
        case False
        with S(1) that obtain i where i: "i < length ls" "t = text_of (drop i ls)" "loff + length (text_of (take i ls)) < maxCompressionOffset" by blast
        moreover have "off + labels_octets (take i ls) < maxCompressionOffset" using i(3) off octets_le_text [of "take i ls"] by simp
        ultimately show ?thesis using E(3) by simp
      qed (rule keep)
      show ?thesis
      proof (cases "\<exists>k. r = Some k \<and> b'")
        case False
        with assms(4) C root True r have "n = plainNameLen s + 1" "C' = Some c'"
          by (auto simp: domainNameLen_def split: option.splits if_splits)
        then show ?thesis using found by (rule plain)
      next
        case ex: True
        then obtain k where k: "r = Some k" and b': "b'" by blast
        obtain i where i: "i < length ls" "k = length (text_of (take i ls))" "text_of (drop i ls) \<in> c" using S(2) [OF k] by blast
        have take: "take k s = text_of (take i ls)"
          unfolding s i(2) by (subst (2) append_take_drop_id [of i ls, symmetric]) (simp del: append_take_drop_id)
        have "(if BSL \<in> set s then escapedNameLen (take k s) else k) = labels_octets (take i ls)"
          using escapedNameLen_text [of "take i ls"] plain_text [of "take i ls"] take i(2) set_take_subset [of k s] by auto
        then have n: "n = labels_octets (take i ls) + 2" and C': "C' = Some c'"
          using assms(4) C root True r k b' by (auto simp: domainNameLen_def)
        have "length e \<le> labels_octets (take i ls) + 2" using E(4) [OF i(1)] c [OF i(3)] b' assms(3) by auto
        then show ?thesis using off E(1) found n C' by (auto simp: bounded_def)
      qed
    qed
  qed
qed

lemma bounded_dense: "bounded loff C off cm \<Longrightarrow> dense cm off"
  by (simp add: bounded_def)

lemma bounded_mono: "bounded loff C off cm \<Longrightarrow> loff \<le> loff' \<Longrightarrow> bounded loff' C off cm"
  by (auto simp: bounded_def)

lemma bounded_advance: "bounded loff C off cm \<Longrightarrow> k \<le> n \<Longrightarrow> bounded (loff + n) C (off + k) cm"
  by (auto simp: bounded_def intro: dense_but_mono)

lemma packDomainName_bounded:
  assumes "ok_name s" and "bounded loff C off cm" and "b' \<longrightarrow> b"
    and "packDomainName s msg off cm b = Ok (msg', cm', off')"
  shows "bounded (loff + fst (domainNameLen s loff C b')) (snd (domainNameLen s loff C b')) off' cm'"
proof -
  obtain ls where ls: "IsFqdn s" "name_labels s = Some ls" using assms(1) by (auto simp: ok_name_def split: option.splits)
  have "cm_nonneg cm" using bounded_dense [OF assms(2)] by (simp add: dense_but_def)
  from packDomainName_packs [OF ls this, of msg off b] assms(4)
  have "cm' = snd (enc_name b cm off s)" "off' = off + length (fst (enc_name b cm off s))" by (simp_all add: packs_def)
  with domainNameLen_bounded [OF assms(1-3) surjective_pairing surjective_pairing] show ?thesis by simp
qed

subsection \<open>The contract of a packer with lengths\<close>

text \<open>
  From the length \<open>fst s\<close> and the names \<open>snd s\<close>, counted from the start \<open>start\<close>
  of the record, to the length and the names \<open>s'\<close>.
\<close>

definition covers :: "nat \<Rightarrow> nat \<times> lenMap \<Rightarrow> packer \<Rightarrow> nat \<times> lenMap \<Rightarrow> bool" where
  "covers start s P s' \<longleftrightarrow>
     (\<forall>msg off cm msg' cm' off'.
        bounded (start + fst s) (snd s) off cm \<longrightarrow> P msg off cm = Ok (msg', cm', off') \<longrightarrow>
        bounded (start + fst s') (snd s') off' cm')"

lemma coversI:
  "(\<And>msg off cm msg' cm' off'. bounded (start + fst s) (snd s) off cm \<Longrightarrow> P msg off cm = Ok (msg', cm', off') \<Longrightarrow>
      bounded (start + fst s') (snd s') off' cm') \<Longrightarrow> covers start s P s'"
  unfolding covers_def by blast

lemma coversD:
  "covers start s P s' \<Longrightarrow> bounded (start + fst s) (snd s) off cm \<Longrightarrow> P msg off cm = Ok (msg', cm', off') \<Longrightarrow>
     bounded (start + fst s') (snd s') off' cm'"
  unfolding covers_def by blast

lemma covers_end: "covers start s (\<lambda>msg off cm. Ok (msg, cm, off)) s"
  by (rule coversI) simp

lemma covers_le: "covers start s P s1 \<Longrightarrow> fst s1 \<le> fst s2 \<Longrightarrow> snd s1 = snd s2 \<Longrightarrow> covers start s P s2"
  unfolding covers_def by (metis add_left_mono bounded_mono)

lemma covers_bind:
  assumes "covers start s1 P s2" and "covers start s F s1"
  shows "covers start s (\<lambda>msg off cm. bindR (F msg off cm) (\<lambda>(msg, cm, off). P msg off cm)) s2"
  by (rule coversI) (use assms in \<open>auto simp: bindR_eq_Ok dest: coversD\<close>)

text \<open>A field without names: its length is known from the contract of its packer.\<close>

lemma covers_plain:
  assumes F: "writes n (\<lambda>msg off cm. bindR (F msg off) (\<lambda>(msg, off). Ok (msg, cm, off)))"
    and P: "covers start (l + n, C) P s'"
  shows "covers start (l, C) (\<lambda>msg off cm. bindR (F msg off) (\<lambda>(msg, off). P msg off cm)) s'"
proof (rule coversI)
  fix msg off cm msg' cm' off'
  assume b: "bounded (start + fst (l, C)) (snd (l, C)) off cm"
    and ok: "bindR (F msg off) (\<lambda>(msg, off). P msg off cm) = Ok (msg', cm', off')"
  obtain m1 o1 where F1: "F msg off = Ok (m1, o1)" and P1: "P m1 o1 cm = Ok (msg', cm', off')"
    using ok by (auto simp: bindR_eq_Ok)
  have "cm_nonneg cm" using bounded_dense [OF b] by (simp add: dense_but_def)
  then obtain e cm1 where e: "writes_as e cm1 n (\<lambda>msg off cm. bindR (F msg off) (\<lambda>(msg, off). Ok (msg, cm, off))) off cm"
    using F unfolding writes_def by blast
  from writes_asD(3) [OF e, of msg "(m1, cm, o1)"] F1 have "o1 = off + length e" by simp
  with bounded_advance [OF b writes_asD(2) [OF e]] have "bounded (start + fst (l + n, C)) (snd (l + n, C)) o1 cm"
    by (simp add: add.assoc)
  from coversD [OF P this P1] show "bounded (start + fst s') (snd s') off' cm'" .
qed

lemma covers_name:
  assumes "covers start (l + fst (domainNameLen s (start + l) C b'), snd (domainNameLen s (start + l) C b')) P s'"
    and "ok_name s" and "b' \<longrightarrow> b"
  shows "covers start (l, C) (\<lambda>msg off cm. bindR (packDomainName s msg off cm b) (\<lambda>(msg, cm, off). P msg off cm)) s'"
  using assms(1)
proof (rule covers_bind)
  show "covers start (l, C) (\<lambda>msg off cm. packDomainName s msg off cm b)
      (l + fst (domainNameLen s (start + l) C b'), snd (domainNameLen s (start + l) C b'))"
    by (rule coversI) (use packDomainName_bounded [OF assms(2) _ assms(3), of "start + l" C] in \<open>simp add: add.assoc\<close>)
qed

lemma domainNameLen_keeps:
  assumes "domainNameLen s off (Some c) False = (n, C')"
  shows "\<exists>c'. C' = Some c' \<and> c \<subseteq> c'"
proof -
  have "c \<subseteq> snd (compressionLenSearch_loop c s off i)" for i
  proof (induction c s off i rule: compressionLenSearch_loop.induct)
    case (1 c s msgOff off)
    obtain off' e where n: "NextLabel s off = (off', e)" by fastforce
    show ?case
    proof (cases "drop off s \<in> c \<or> e")
      case False
      with "1.IH" [OF _ refl n [symmetric] refl] show ?thesis
        by (subst compressionLenSearch_loop.simps) (auto simp: n Let_def)
    qed (subst compressionLenSearch_loop.simps, auto simp: n Let_def)
  qed
  from this [of 0] assms show ?thesis
    by (auto simp: domainNameLen_def compressionLenSearch_def split: if_splits prod.splits option.splits)
qed

lemma covers_gateway:
  assumes "covers start (l + gateway_len t h, C) P s'" and "ok_gateway t a h"
  shows "covers start (l, C) (\<lambda>msg off cm. bindR (packIPSECGateway a h msg off t cm b) (\<lambda>(msg, cm, off). P msg off cm)) s'"
  using assms(1)
proof (rule covers_bind)
  have plain: "covers start (l, C) (\<lambda>msg off cm. bindR (F msg off) (\<lambda>(msg, off). Ok (msg, cm, off))) (l + n, C)"
    if "writes n (\<lambda>msg off cm. bindR (F msg off) (\<lambda>(msg, off). Ok (msg, cm, off)))" for F n
    using that covers_end by (rule covers_plain)
  consider "t = 1" | "t = 2" | "t = 3" | "t \<noteq> 1" "t \<noteq> 2" "t \<noteq> 3" by blast
  then show "covers start (l, C) (\<lambda>msg off cm. packIPSECGateway a h msg off t cm b) (l + gateway_len t h, C)"
  proof cases
    case 1
    with assms(2) plain [OF ip4.writes_field, of a 4] show ?thesis by (simp add: ok_gateway_def packIPSECGateway_def gateway_len_def)
  next
    case 2
    with assms(2) plain [OF ip6.writes_field, of a 16] show ?thesis by (simp add: ok_gateway_def packIPSECGateway_def gateway_len_def)
  next
    case 3
    then have h: "ok_name h" using assms(2) by (simp add: ok_gateway_def)
    show ?thesis
    proof (rule coversI)
      fix msg off cm msg' cm' off'
      assume b: "bounded (start + fst (l, C)) (snd (l, C)) off cm" and p: "packIPSECGateway a h msg off t cm b = Ok (msg', cm', off')"
      then obtain c where C: "C = Some c" by (auto simp: bounded_def split: option.splits)
      obtain n C' where n: "domainNameLen h (start + l) C False = (n, C')" by fastforce
      have "n = name_len h" using n C by (auto simp: domainNameLen_def name_len_def split: if_splits prod.splits option.splits)
      then have "n \<le> gateway_len t h" using ok_name_name_len(1) [OF h] 3 by (simp add: gateway_len_def)
      moreover obtain c' where "C' = Some c'" "c \<subseteq> c'" using domainNameLen_keeps n C by blast
      moreover have "packDomainName h msg off cm b = Ok (msg', cm', off')" using p 3 by (simp add: packIPSECGateway_def)
      from packDomainName_bounded [OF h b [simplified] _ this, of False] n have "bounded (start + l + n) C' off' cm'" by simp
      ultimately show "bounded (start + fst (l + gateway_len t h, C)) (snd (l + gateway_len t h, C)) off' cm'"
        using C by (auto simp: bounded_def)
    qed
  next
    case 4
    then show ?thesis using covers_end [of start "(l, C)"] by (simp add: packIPSECGateway_def gateway_len_def cong: if_cong)
  qed
qed

lemma covers_mapErr: "covers start s (\<lambda>msg off cm. mapErr (g msg) (P msg off cm)) s' = covers start s P s'"
  by (simp add: covers_def)

lemma covers_names:
  assumes "covers start (domainNames_len xs start l C) P s'" and "list_all ok_name xs"
  shows "covers start (l, C) (\<lambda>msg off cm. bindR (packDataDomainNames xs msg off cm False) (\<lambda>(msg, cm, off). P msg off cm)) s'"
  using assms(1)
proof (rule covers_bind)
  have "covers start (l, C) (\<lambda>msg off cm. packDataDomainNames_loop 0 xs msg off cm False) (domainNames_len xs start l C)"
    using assms(2)
  proof (induction xs arbitrary: l C)
    case (Cons x xs)
    let ?d = "domainNameLen x (start + l) C False"
    have "covers start (l, C) (\<lambda>msg off cm. bindR (packDomainName x msg off cm False)
        (\<lambda>(msg, cm, off). packDataDomainNames_loop 0 xs msg off cm False)) (domainNames_len xs start (l + fst ?d) (snd ?d))"
      using Cons by (intro covers_name [where b' = False]) simp_all
    then have "covers start (l, C) (\<lambda>msg off cm. bindR (mapErr (fail_at 0) (packDomainName x msg off cm False))
        (\<lambda>(msg, cm, off). packDataDomainNames_loop 0 xs msg off cm False)) (domainNames_len xs start (l + fst ?d) (snd ?d))"
      by (simp add: covers_def bindR_eq_Ok mapErr_eq_Ok)
    then show ?case by (simp add: split_def Let_def)
  qed (simp add: covers_end)
  then show "covers start (l, C) (\<lambda>msg off cm. packDataDomainNames xs msg off cm False) (domainNames_len xs start l C)"
    unfolding packDataDomainNames_def by (subst packDataDomainNames_loop_err) (simp add: covers_mapErr)
qed

text \<open>The rules of the other fields.\<close>

lemmas covers_u8 = covers_plain [OF writes_u8 [OF writes_end]]
lemmas covers_u16 = covers_plain [OF writes_u16 [OF writes_end]]
lemmas covers_u32 = covers_plain [OF writes_u32 [OF writes_end]]
lemmas covers_u64 = covers_plain [OF writes_u64 [OF writes_end]]
lemmas covers_u48 = covers_plain [OF writes_u48 [OF _ writes_end], rotated]
lemmas covers_any = covers_plain [OF writes_any [OF writes_end]]
lemmas covers_octet = covers_plain [OF writes_octet [OF _ writes_end], rotated]
lemmas covers_txt = covers_plain [OF writes_txt [OF _ writes_end], rotated]
lemmas covers_a = covers_plain [OF writes_a [OF _ writes_end], rotated]
lemmas covers_aaaa = covers_plain [OF writes_aaaa [OF _ writes_end], rotated]
lemmas covers_string = covers_plain [OF writes_string [OF _ writes_end], rotated]
lemmas covers_hex = covers_plain [OF writes_hex [OF _ writes_end], rotated]
lemmas covers_base64 = covers_plain [OF writes_base64 [OF _ writes_end], rotated]
lemmas covers_base32 = covers_plain [OF writes_base32 [OF _ writes_end], rotated]
lemmas covers_nsec = covers_plain [OF writes_nsec [OF _ writes_end], rotated]
lemmas covers_apl = covers_plain [OF writes_apl [OF _ writes_end], rotated]
lemmas covers_opt = covers_plain [OF writes_opt [OF _ writes_end], rotated]
lemmas covers_svcb = covers_plain [OF writes_svcb [OF _ writes_end], rotated]

subsection \<open>The record types\<close>


lemma A_covers:
  assumes "rdata_ok (RR_A rr)"
  shows "covers start (Hdr_len (A_Hdr rr) start C) (\<lambda>msg off cm. A_pack rr msg off cm True) (A_len rr start C)"
  using assms
  by (cases "Hdr_len (A_Hdr rr) start C") (simp only: rdata_ok.simps A_pack_def,
    (rule covers_le, rule covers_a, rule covers_end), auto simp add: A_len_def split_def Let_def ac_simps)

lemma AAAA_covers:
  assumes "rdata_ok (RR_AAAA rr)"
  shows "covers start (Hdr_len (AAAA_Hdr rr) start C) (\<lambda>msg off cm. AAAA_pack rr msg off cm True) (AAAA_len rr start C)"
  using assms
  by (cases "Hdr_len (AAAA_Hdr rr) start C") (simp only: rdata_ok.simps AAAA_pack_def,
    (rule covers_le, rule covers_aaaa, rule covers_end), auto simp add: AAAA_len_def split_def Let_def ac_simps)

lemma AFSDB_covers:
  assumes "rdata_ok (RR_AFSDB rr)"
  shows "covers start (Hdr_len (AFSDB_Hdr rr) start C) (\<lambda>msg off cm. AFSDB_pack rr msg off cm True) (AFSDB_len rr start C)"
  using assms
  by (cases "Hdr_len (AFSDB_Hdr rr) start C") (simp only: rdata_ok.simps AFSDB_pack_def,
    (rule covers_le, rule covers_u16, rule covers_name [where b' = False], rule covers_end), simp_all add: AFSDB_len_def split_def Let_def ac_simps)

lemma AMTRELAY_covers:
  assumes "rdata_ok (RR_AMTRELAY rr)"
  shows "covers start (Hdr_len (AMTRELAY_Hdr rr) start C) (\<lambda>msg off cm. AMTRELAY_pack rr msg off cm True) (AMTRELAY_len rr start C)"
  using assms
  by (cases "Hdr_len (AMTRELAY_Hdr rr) start C") (simp only: rdata_ok.simps AMTRELAY_pack_def,
    (rule covers_le, rule covers_u8, rule covers_u8, rule covers_gateway, rule covers_end), simp_all add: AMTRELAY_len_def split_def Let_def ac_simps)

lemma ANY_covers:
  assumes "rdata_ok (RR_ANY rr)"
  shows "covers start (Hdr_len (ANY_Hdr rr) start C) (\<lambda>msg off cm. ANY_pack rr msg off cm True) (ANY_len rr start C)"
  using assms
  by (cases "Hdr_len (ANY_Hdr rr) start C") (simp only: rdata_ok.simps ANY_pack_def,
    (rule covers_le, rule covers_end), simp_all add: ANY_len_def split_def Let_def ac_simps)

lemma APL_covers:
  assumes "rdata_ok (RR_APL rr)"
  shows "covers start (Hdr_len (APL_Hdr rr) start C) (\<lambda>msg off cm. APL_pack rr msg off cm True) (APL_len rr start C)"
  using assms
  by (cases "Hdr_len (APL_Hdr rr) start C") (simp only: rdata_ok.simps APL_pack_def,
    (rule covers_le, rule covers_apl, rule covers_end), simp_all add: APL_len_def split_def Let_def ac_simps)

lemma AVC_covers:
  assumes "rdata_ok (RR_AVC rr)"
  shows "covers start (Hdr_len (AVC_Hdr rr) start C) (\<lambda>msg off cm. AVC_pack rr msg off cm True) (AVC_len rr start C)"
  using assms
  by (cases "Hdr_len (AVC_Hdr rr) start C") (simp only: rdata_ok.simps AVC_pack_def,
    (rule covers_le, rule covers_txt, rule covers_end), simp_all add: AVC_len_def split_def Let_def ac_simps)

lemma CAA_covers:
  assumes "rdata_ok (RR_CAA rr)"
  shows "covers start (Hdr_len (CAA_Hdr rr) start C) (\<lambda>msg off cm. CAA_pack rr msg off cm True) (CAA_len rr start C)"
  using assms
  by (cases "Hdr_len (CAA_Hdr rr) start C") (simp only: rdata_ok.simps CAA_pack_def,
    (rule covers_le, rule covers_u8, rule covers_string, rule covers_octet, rule covers_end), simp_all add: CAA_len_def split_def Let_def ac_simps)

lemma CDNSKEY_covers:
  assumes "rdata_ok (RR_CDNSKEY rr)"
  shows "covers start (Hdr_len (DNSKEY_Hdr rr) start C) (\<lambda>msg off cm. CDNSKEY_pack rr msg off cm True) (DNSKEY_len rr start C)"
  using assms
  by (cases "Hdr_len (DNSKEY_Hdr rr) start C") (simp only: rdata_ok.simps CDNSKEY_pack_def,
    (rule covers_le, rule covers_u16, rule covers_u8, rule covers_u8, rule covers_base64, rule covers_end), simp_all add: DNSKEY_len_def split_def Let_def ac_simps)

lemma CDS_covers:
  assumes "rdata_ok (RR_CDS rr)"
  shows "covers start (Hdr_len (DS_Hdr rr) start C) (\<lambda>msg off cm. CDS_pack rr msg off cm True) (DS_len rr start C)"
  using assms
  by (cases "Hdr_len (DS_Hdr rr) start C") (simp only: rdata_ok.simps CDS_pack_def,
    (rule covers_le, rule covers_u16, rule covers_u8, rule covers_u8, rule covers_hex, rule covers_end), simp_all add: DS_len_def split_def Let_def ac_simps)

lemma CERT_covers:
  assumes "rdata_ok (RR_CERT rr)"
  shows "covers start (Hdr_len (CERT_Hdr rr) start C) (\<lambda>msg off cm. CERT_pack rr msg off cm True) (CERT_len rr start C)"
  using assms
  by (cases "Hdr_len (CERT_Hdr rr) start C") (simp only: rdata_ok.simps CERT_pack_def,
    (rule covers_le, rule covers_u16, rule covers_u16, rule covers_u8, rule covers_base64, rule covers_end), simp_all add: CERT_len_def split_def Let_def ac_simps)

lemma CNAME_covers:
  assumes "rdata_ok (RR_CNAME rr)"
  shows "covers start (Hdr_len (CNAME_Hdr rr) start C) (\<lambda>msg off cm. CNAME_pack rr msg off cm True) (CNAME_len rr start C)"
  using assms
  by (cases "Hdr_len (CNAME_Hdr rr) start C") (simp only: rdata_ok.simps CNAME_pack_def,
    (rule covers_le, rule covers_name [where b' = True], rule covers_end), simp_all add: CNAME_len_def split_def Let_def ac_simps)

lemma CSYNC_covers:
  assumes "rdata_ok (RR_CSYNC rr)"
  shows "covers start (Hdr_len (CSYNC_Hdr rr) start C) (\<lambda>msg off cm. CSYNC_pack rr msg off cm True) (CSYNC_len rr start C)"
  using assms
  by (cases "Hdr_len (CSYNC_Hdr rr) start C") (simp only: rdata_ok.simps CSYNC_pack_def,
    (rule covers_le, rule covers_u32, rule covers_u16, rule covers_nsec, rule covers_end), simp_all add: CSYNC_len_def split_def Let_def ac_simps)

lemma DHCID_covers:
  assumes "rdata_ok (RR_DHCID rr)"
  shows "covers start (Hdr_len (DHCID_Hdr rr) start C) (\<lambda>msg off cm. DHCID_pack rr msg off cm True) (DHCID_len rr start C)"
  using assms
  by (cases "Hdr_len (DHCID_Hdr rr) start C") (simp only: rdata_ok.simps DHCID_pack_def,
    (rule covers_le, rule covers_base64, rule covers_end), simp_all add: DHCID_len_def split_def Let_def ac_simps)

lemma DLV_covers:
  assumes "rdata_ok (RR_DLV rr)"
  shows "covers start (Hdr_len (DS_Hdr rr) start C) (\<lambda>msg off cm. DLV_pack rr msg off cm True) (DS_len rr start C)"
  using assms
  by (cases "Hdr_len (DS_Hdr rr) start C") (simp only: rdata_ok.simps DLV_pack_def,
    (rule covers_le, rule covers_u16, rule covers_u8, rule covers_u8, rule covers_hex, rule covers_end), simp_all add: DS_len_def split_def Let_def ac_simps)

lemma DNAME_covers:
  assumes "rdata_ok (RR_DNAME rr)"
  shows "covers start (Hdr_len (DNAME_Hdr rr) start C) (\<lambda>msg off cm. DNAME_pack rr msg off cm True) (DNAME_len rr start C)"
  using assms
  by (cases "Hdr_len (DNAME_Hdr rr) start C") (simp only: rdata_ok.simps DNAME_pack_def,
    (rule covers_le, rule covers_name [where b' = False], rule covers_end), simp_all add: DNAME_len_def split_def Let_def ac_simps)

lemma DNSKEY_covers:
  assumes "rdata_ok (RR_DNSKEY rr)"
  shows "covers start (Hdr_len (DNSKEY_Hdr rr) start C) (\<lambda>msg off cm. DNSKEY_pack rr msg off cm True) (DNSKEY_len rr start C)"
  using assms
  by (cases "Hdr_len (DNSKEY_Hdr rr) start C") (simp only: rdata_ok.simps DNSKEY_pack_def,
    (rule covers_le, rule covers_u16, rule covers_u8, rule covers_u8, rule covers_base64, rule covers_end), simp_all add: DNSKEY_len_def split_def Let_def ac_simps)

lemma DS_covers:
  assumes "rdata_ok (RR_DS rr)"
  shows "covers start (Hdr_len (DS_Hdr rr) start C) (\<lambda>msg off cm. DS_pack rr msg off cm True) (DS_len rr start C)"
  using assms
  by (cases "Hdr_len (DS_Hdr rr) start C") (simp only: rdata_ok.simps DS_pack_def,
    (rule covers_le, rule covers_u16, rule covers_u8, rule covers_u8, rule covers_hex, rule covers_end), simp_all add: DS_len_def split_def Let_def ac_simps)

lemma EID_covers:
  assumes "rdata_ok (RR_EID rr)"
  shows "covers start (Hdr_len (EID_Hdr rr) start C) (\<lambda>msg off cm. EID_pack rr msg off cm True) (EID_len rr start C)"
  using assms
  by (cases "Hdr_len (EID_Hdr rr) start C") (simp only: rdata_ok.simps EID_pack_def,
    (rule covers_le, rule covers_hex, rule covers_end), simp_all add: EID_len_def split_def Let_def ac_simps)

lemma EUI48_covers:
  assumes "rdata_ok (RR_EUI48 rr)"
  shows "covers start (Hdr_len (EUI48_Hdr rr) start C) (\<lambda>msg off cm. EUI48_pack rr msg off cm True) (EUI48_len rr start C)"
  using assms
  by (cases "Hdr_len (EUI48_Hdr rr) start C") (simp only: rdata_ok.simps EUI48_pack_def,
    (rule covers_le, rule covers_u48, rule covers_end), simp_all add: EUI48_len_def split_def Let_def ac_simps)

lemma EUI64_covers:
  assumes "rdata_ok (RR_EUI64 rr)"
  shows "covers start (Hdr_len (EUI64_Hdr rr) start C) (\<lambda>msg off cm. EUI64_pack rr msg off cm True) (EUI64_len rr start C)"
  using assms
  by (cases "Hdr_len (EUI64_Hdr rr) start C") (simp only: rdata_ok.simps EUI64_pack_def,
    (rule covers_le, rule covers_u64, rule covers_end), simp_all add: EUI64_len_def split_def Let_def ac_simps)

lemma GID_covers:
  assumes "rdata_ok (RR_GID rr)"
  shows "covers start (Hdr_len (GID_Hdr rr) start C) (\<lambda>msg off cm. GID_pack rr msg off cm True) (GID_len rr start C)"
  using assms
  by (cases "Hdr_len (GID_Hdr rr) start C") (simp only: rdata_ok.simps GID_pack_def,
    (rule covers_le, rule covers_u32, rule covers_end), simp_all add: GID_len_def split_def Let_def ac_simps)

lemma GPOS_covers:
  assumes "rdata_ok (RR_GPOS rr)"
  shows "covers start (Hdr_len (GPOS_Hdr rr) start C) (\<lambda>msg off cm. GPOS_pack rr msg off cm True) (GPOS_len rr start C)"
  using assms
  by (cases "Hdr_len (GPOS_Hdr rr) start C") (simp only: rdata_ok.simps GPOS_pack_def,
    (rule covers_le, rule covers_string, rule covers_string, rule covers_string, rule covers_end), simp_all add: GPOS_len_def split_def Let_def ac_simps)

lemma HINFO_covers:
  assumes "rdata_ok (RR_HINFO rr)"
  shows "covers start (Hdr_len (HINFO_Hdr rr) start C) (\<lambda>msg off cm. HINFO_pack rr msg off cm True) (HINFO_len rr start C)"
  using assms
  by (cases "Hdr_len (HINFO_Hdr rr) start C") (simp only: rdata_ok.simps HINFO_pack_def,
    (rule covers_le, rule covers_string, rule covers_string, rule covers_end), simp_all add: HINFO_len_def split_def Let_def ac_simps)

lemma HIP_covers:
  assumes "rdata_ok (RR_HIP rr)"
  shows "covers start (Hdr_len (HIP_Hdr rr) start C) (\<lambda>msg off cm. HIP_pack rr msg off cm True) (HIP_len rr start C)"
  using assms
  by (cases "Hdr_len (HIP_Hdr rr) start C") (simp only: rdata_ok.simps HIP_pack_def,
    (rule covers_le, rule covers_u8, rule covers_u8, rule covers_u16, rule covers_hex, rule covers_base64, rule covers_names, rule covers_end), simp_all add: HIP_len_def split_def Let_def ac_simps)

lemma HTTPS_covers:
  assumes "rdata_ok (RR_HTTPS rr)"
  shows "covers start (Hdr_len (SVCB_Hdr rr) start C) (\<lambda>msg off cm. HTTPS_pack rr msg off cm True) (SVCB_len rr start C)"
  using assms
  by (cases "Hdr_len (SVCB_Hdr rr) start C") (simp only: rdata_ok.simps HTTPS_pack_def,
    (rule covers_le, rule covers_u16, rule covers_name [where b' = False], rule covers_svcb, rule covers_end), simp_all add: SVCB_len_def split_def Let_def ac_simps)

lemma IPSECKEY_covers:
  assumes "rdata_ok (RR_IPSECKEY rr)"
  shows "covers start (Hdr_len (IPSECKEY_Hdr rr) start C) (\<lambda>msg off cm. IPSECKEY_pack rr msg off cm True) (IPSECKEY_len rr start C)"
  using assms
  by (cases "Hdr_len (IPSECKEY_Hdr rr) start C") (simp only: rdata_ok.simps IPSECKEY_pack_def,
    (rule covers_le, rule covers_u8, rule covers_u8, rule covers_u8, rule covers_gateway, rule covers_base64, rule covers_end), simp_all add: IPSECKEY_len_def split_def Let_def ac_simps)

lemma ISDN_covers:
  assumes "rdata_ok (RR_ISDN rr)"
  shows "covers start (Hdr_len (ISDN_Hdr rr) start C) (\<lambda>msg off cm. ISDN_pack rr msg off cm True) (ISDN_len rr start C)"
  using assms
  by (cases "Hdr_len (ISDN_Hdr rr) start C") (simp only: rdata_ok.simps ISDN_pack_def,
    (rule covers_le, rule covers_string, rule covers_string, rule covers_end), simp_all add: ISDN_len_def split_def Let_def ac_simps)

lemma KEY_covers:
  assumes "rdata_ok (RR_KEY rr)"
  shows "covers start (Hdr_len (DNSKEY_Hdr rr) start C) (\<lambda>msg off cm. KEY_pack rr msg off cm True) (DNSKEY_len rr start C)"
  using assms
  by (cases "Hdr_len (DNSKEY_Hdr rr) start C") (simp only: rdata_ok.simps KEY_pack_def,
    (rule covers_le, rule covers_u16, rule covers_u8, rule covers_u8, rule covers_base64, rule covers_end), simp_all add: DNSKEY_len_def split_def Let_def ac_simps)

lemma KX_covers:
  assumes "rdata_ok (RR_KX rr)"
  shows "covers start (Hdr_len (KX_Hdr rr) start C) (\<lambda>msg off cm. KX_pack rr msg off cm True) (KX_len rr start C)"
  using assms
  by (cases "Hdr_len (KX_Hdr rr) start C") (simp only: rdata_ok.simps KX_pack_def,
    (rule covers_le, rule covers_u16, rule covers_name [where b' = False], rule covers_end), simp_all add: KX_len_def split_def Let_def ac_simps)

lemma L32_covers:
  assumes "rdata_ok (RR_L32 rr)"
  shows "covers start (Hdr_len (L32_Hdr rr) start C) (\<lambda>msg off cm. L32_pack rr msg off cm True) (L32_len rr start C)"
  using assms
  by (cases "Hdr_len (L32_Hdr rr) start C") (simp only: rdata_ok.simps L32_pack_def,
    (rule covers_le, rule covers_u16, rule covers_a, rule covers_end), auto simp add: L32_len_def split_def Let_def ac_simps)

lemma L64_covers:
  assumes "rdata_ok (RR_L64 rr)"
  shows "covers start (Hdr_len (L64_Hdr rr) start C) (\<lambda>msg off cm. L64_pack rr msg off cm True) (L64_len rr start C)"
  using assms
  by (cases "Hdr_len (L64_Hdr rr) start C") (simp only: rdata_ok.simps L64_pack_def,
    (rule covers_le, rule covers_u16, rule covers_u64, rule covers_end), simp_all add: L64_len_def split_def Let_def ac_simps)

lemma LOC_covers:
  assumes "rdata_ok (RR_LOC rr)"
  shows "covers start (Hdr_len (LOC_Hdr rr) start C) (\<lambda>msg off cm. LOC_pack rr msg off cm True) (LOC_len rr start C)"
  using assms
  by (cases "Hdr_len (LOC_Hdr rr) start C") (simp only: rdata_ok.simps LOC_pack_def,
    (rule covers_le, rule covers_u8, rule covers_u8, rule covers_u8, rule covers_u8, rule covers_u32, rule covers_u32, rule covers_u32, rule covers_end), simp_all add: LOC_len_def split_def Let_def ac_simps)

lemma LP_covers:
  assumes "rdata_ok (RR_LP rr)"
  shows "covers start (Hdr_len (LP_Hdr rr) start C) (\<lambda>msg off cm. LP_pack rr msg off cm True) (LP_len rr start C)"
  using assms
  by (cases "Hdr_len (LP_Hdr rr) start C") (simp only: rdata_ok.simps LP_pack_def,
    (rule covers_le, rule covers_u16, rule covers_name [where b' = False], rule covers_end), simp_all add: LP_len_def split_def Let_def ac_simps)

lemma MB_covers:
  assumes "rdata_ok (RR_MB rr)"
  shows "covers start (Hdr_len (MB_Hdr rr) start C) (\<lambda>msg off cm. MB_pack rr msg off cm True) (MB_len rr start C)"
  using assms
  by (cases "Hdr_len (MB_Hdr rr) start C") (simp only: rdata_ok.simps MB_pack_def,
    (rule covers_le, rule covers_name [where b' = True], rule covers_end), simp_all add: MB_len_def split_def Let_def ac_simps)

lemma MD_covers:
  assumes "rdata_ok (RR_MD rr)"
  shows "covers start (Hdr_len (MD_Hdr rr) start C) (\<lambda>msg off cm. MD_pack rr msg off cm True) (MD_len rr start C)"
  using assms
  by (cases "Hdr_len (MD_Hdr rr) start C") (simp only: rdata_ok.simps MD_pack_def,
    (rule covers_le, rule covers_name [where b' = True], rule covers_end), simp_all add: MD_len_def split_def Let_def ac_simps)

lemma MF_covers:
  assumes "rdata_ok (RR_MF rr)"
  shows "covers start (Hdr_len (MF_Hdr rr) start C) (\<lambda>msg off cm. MF_pack rr msg off cm True) (MF_len rr start C)"
  using assms
  by (cases "Hdr_len (MF_Hdr rr) start C") (simp only: rdata_ok.simps MF_pack_def,
    (rule covers_le, rule covers_name [where b' = True], rule covers_end), simp_all add: MF_len_def split_def Let_def ac_simps)

lemma MG_covers:
  assumes "rdata_ok (RR_MG rr)"
  shows "covers start (Hdr_len (MG_Hdr rr) start C) (\<lambda>msg off cm. MG_pack rr msg off cm True) (MG_len rr start C)"
  using assms
  by (cases "Hdr_len (MG_Hdr rr) start C") (simp only: rdata_ok.simps MG_pack_def,
    (rule covers_le, rule covers_name [where b' = True], rule covers_end), simp_all add: MG_len_def split_def Let_def ac_simps)

lemma MINFO_covers:
  assumes "rdata_ok (RR_MINFO rr)"
  shows "covers start (Hdr_len (MINFO_Hdr rr) start C) (\<lambda>msg off cm. MINFO_pack rr msg off cm True) (MINFO_len rr start C)"
  using assms
  by (cases "Hdr_len (MINFO_Hdr rr) start C") (simp only: rdata_ok.simps MINFO_pack_def,
    (rule covers_le, rule covers_name [where b' = True], rule covers_name [where b' = True], rule covers_end), simp_all add: MINFO_len_def split_def Let_def ac_simps)

lemma MR_covers:
  assumes "rdata_ok (RR_MR rr)"
  shows "covers start (Hdr_len (MR_Hdr rr) start C) (\<lambda>msg off cm. MR_pack rr msg off cm True) (MR_len rr start C)"
  using assms
  by (cases "Hdr_len (MR_Hdr rr) start C") (simp only: rdata_ok.simps MR_pack_def,
    (rule covers_le, rule covers_name [where b' = True], rule covers_end), simp_all add: MR_len_def split_def Let_def ac_simps)

lemma MX_covers:
  assumes "rdata_ok (RR_MX rr)"
  shows "covers start (Hdr_len (MX_Hdr rr) start C) (\<lambda>msg off cm. MX_pack rr msg off cm True) (MX_len rr start C)"
  using assms
  by (cases "Hdr_len (MX_Hdr rr) start C") (simp only: rdata_ok.simps MX_pack_def,
    (rule covers_le, rule covers_u16, rule covers_name [where b' = True], rule covers_end), simp_all add: MX_len_def split_def Let_def ac_simps)

lemma NAPTR_covers:
  assumes "rdata_ok (RR_NAPTR rr)"
  shows "covers start (Hdr_len (NAPTR_Hdr rr) start C) (\<lambda>msg off cm. NAPTR_pack rr msg off cm True) (NAPTR_len rr start C)"
  using assms
  by (cases "Hdr_len (NAPTR_Hdr rr) start C") (simp only: rdata_ok.simps NAPTR_pack_def,
    (rule covers_le, rule covers_u16, rule covers_u16, rule covers_string, rule covers_string, rule covers_string, rule covers_name [where b' = False], rule covers_end), simp_all add: NAPTR_len_def split_def Let_def ac_simps)

lemma NID_covers:
  assumes "rdata_ok (RR_NID rr)"
  shows "covers start (Hdr_len (NID_Hdr rr) start C) (\<lambda>msg off cm. NID_pack rr msg off cm True) (NID_len rr start C)"
  using assms
  by (cases "Hdr_len (NID_Hdr rr) start C") (simp only: rdata_ok.simps NID_pack_def,
    (rule covers_le, rule covers_u16, rule covers_u64, rule covers_end), simp_all add: NID_len_def split_def Let_def ac_simps)

lemma NIMLOC_covers:
  assumes "rdata_ok (RR_NIMLOC rr)"
  shows "covers start (Hdr_len (NIMLOC_Hdr rr) start C) (\<lambda>msg off cm. NIMLOC_pack rr msg off cm True) (NIMLOC_len rr start C)"
  using assms
  by (cases "Hdr_len (NIMLOC_Hdr rr) start C") (simp only: rdata_ok.simps NIMLOC_pack_def,
    (rule covers_le, rule covers_hex, rule covers_end), simp_all add: NIMLOC_len_def split_def Let_def ac_simps)

lemma NINFO_covers:
  assumes "rdata_ok (RR_NINFO rr)"
  shows "covers start (Hdr_len (NINFO_Hdr rr) start C) (\<lambda>msg off cm. NINFO_pack rr msg off cm True) (NINFO_len rr start C)"
  using assms
  by (cases "Hdr_len (NINFO_Hdr rr) start C") (simp only: rdata_ok.simps NINFO_pack_def,
    (rule covers_le, rule covers_txt, rule covers_end), simp_all add: NINFO_len_def split_def Let_def ac_simps)

lemma NS_covers:
  assumes "rdata_ok (RR_NS rr)"
  shows "covers start (Hdr_len (NS_Hdr rr) start C) (\<lambda>msg off cm. NS_pack rr msg off cm True) (NS_len rr start C)"
  using assms
  by (cases "Hdr_len (NS_Hdr rr) start C") (simp only: rdata_ok.simps NS_pack_def,
    (rule covers_le, rule covers_name [where b' = True], rule covers_end), simp_all add: NS_len_def split_def Let_def ac_simps)

lemma NSAPPTR_covers:
  assumes "rdata_ok (RR_NSAPPTR rr)"
  shows "covers start (Hdr_len (NSAPPTR_Hdr rr) start C) (\<lambda>msg off cm. NSAPPTR_pack rr msg off cm True) (NSAPPTR_len rr start C)"
  using assms
  by (cases "Hdr_len (NSAPPTR_Hdr rr) start C") (simp only: rdata_ok.simps NSAPPTR_pack_def,
    (rule covers_le, rule covers_name [where b' = False], rule covers_end), simp_all add: NSAPPTR_len_def split_def Let_def ac_simps)

lemma NSEC_covers:
  assumes "rdata_ok (RR_NSEC rr)"
  shows "covers start (Hdr_len (NSEC_Hdr rr) start C) (\<lambda>msg off cm. NSEC_pack rr msg off cm True) (NSEC_len rr start C)"
  using assms
  by (cases "Hdr_len (NSEC_Hdr rr) start C") (simp only: rdata_ok.simps NSEC_pack_def,
    (rule covers_le, rule covers_name [where b' = False], rule covers_nsec, rule covers_end), simp_all add: NSEC_len_def split_def Let_def ac_simps)

lemma NSEC3_covers:
  assumes "rdata_ok (RR_NSEC3 rr)"
  shows "covers start (Hdr_len (NSEC3_Hdr rr) start C) (\<lambda>msg off cm. NSEC3_pack rr msg off cm True) (NSEC3_len rr start C)"
  using assms
  by (cases "Hdr_len (NSEC3_Hdr rr) start C") (simp only: rdata_ok.simps NSEC3_pack_def simp_thms if_True,
    (rule covers_le, rule covers_u8, rule covers_u8, rule covers_u16, rule covers_u8, rule covers_hex, rule covers_u8, rule covers_base32, rule covers_nsec, rule covers_end), simp_all add: NSEC3_len_def split_def Let_def ac_simps)

lemma NSEC3PARAM_covers:
  assumes "rdata_ok (RR_NSEC3PARAM rr)"
  shows "covers start (Hdr_len (NSEC3PARAM_Hdr rr) start C) (\<lambda>msg off cm. NSEC3PARAM_pack rr msg off cm True) (NSEC3PARAM_len rr start C)"
  using assms
  by (cases "Hdr_len (NSEC3PARAM_Hdr rr) start C") (simp only: rdata_ok.simps NSEC3PARAM_pack_def simp_thms if_True,
    (rule covers_le, rule covers_u8, rule covers_u8, rule covers_u16, rule covers_u8, rule covers_hex, rule covers_end), simp_all add: NSEC3PARAM_len_def split_def Let_def ac_simps)

lemma NULL_covers:
  assumes "rdata_ok (RR_NULL rr)"
  shows "covers start (Hdr_len (NULL_Hdr rr) start C) (\<lambda>msg off cm. NULL_pack rr msg off cm True) (NULL_len rr start C)"
  using assms
  by (cases "Hdr_len (NULL_Hdr rr) start C") (simp only: rdata_ok.simps NULL_pack_def,
    (rule covers_le, rule covers_any, rule covers_end), simp_all add: NULL_len_def split_def Let_def ac_simps)

lemma NXNAME_covers:
  assumes "rdata_ok (RR_NXNAME rr)"
  shows "covers start (Hdr_len (NXNAME_Hdr rr) start C) (\<lambda>msg off cm. NXNAME_pack rr msg off cm True) (NXNAME_len rr start C)"
  using assms
  by (cases "Hdr_len (NXNAME_Hdr rr) start C") (simp only: rdata_ok.simps NXNAME_pack_def,
    (rule covers_le, rule covers_end), simp_all add: NXNAME_len_def split_def Let_def ac_simps)

lemma NXT_covers:
  assumes "rdata_ok (RR_NXT rr)"
  shows "covers start (Hdr_len (NSEC_Hdr rr) start C) (\<lambda>msg off cm. NXT_pack rr msg off cm True) (NSEC_len rr start C)"
  using assms
  by (cases "Hdr_len (NSEC_Hdr rr) start C") (simp only: rdata_ok.simps NXT_pack_def,
    (rule covers_le, rule covers_name [where b' = False], rule covers_nsec, rule covers_end), simp_all add: NSEC_len_def split_def Let_def ac_simps)

lemma OPENPGPKEY_covers:
  assumes "rdata_ok (RR_OPENPGPKEY rr)"
  shows "covers start (Hdr_len (OPENPGPKEY_Hdr rr) start C) (\<lambda>msg off cm. OPENPGPKEY_pack rr msg off cm True) (OPENPGPKEY_len rr start C)"
  using assms
  by (cases "Hdr_len (OPENPGPKEY_Hdr rr) start C") (simp only: rdata_ok.simps OPENPGPKEY_pack_def,
    (rule covers_le, rule covers_base64, rule covers_end), simp_all add: OPENPGPKEY_len_def split_def Let_def ac_simps)

lemma OPT_covers:
  assumes "rdata_ok (RR_OPT rr)"
  shows "covers start (Hdr_len (OPT_Hdr rr) start C) (\<lambda>msg off cm. OPT_pack rr msg off cm True) (OPT_len rr start C)"
  using assms
  by (cases "Hdr_len (OPT_Hdr rr) start C") (simp only: rdata_ok.simps OPT_pack_def,
    (rule covers_le, rule covers_opt, rule covers_end), simp_all add: OPT_len_def split_def Let_def ac_simps)

lemma PTR_covers:
  assumes "rdata_ok (RR_PTR rr)"
  shows "covers start (Hdr_len (PTR_Hdr rr) start C) (\<lambda>msg off cm. PTR_pack rr msg off cm True) (PTR_len rr start C)"
  using assms
  by (cases "Hdr_len (PTR_Hdr rr) start C") (simp only: rdata_ok.simps PTR_pack_def,
    (rule covers_le, rule covers_name [where b' = True], rule covers_end), simp_all add: PTR_len_def split_def Let_def ac_simps)

lemma PX_covers:
  assumes "rdata_ok (RR_PX rr)"
  shows "covers start (Hdr_len (PX_Hdr rr) start C) (\<lambda>msg off cm. PX_pack rr msg off cm True) (PX_len rr start C)"
  using assms
  by (cases "Hdr_len (PX_Hdr rr) start C") (simp only: rdata_ok.simps PX_pack_def,
    (rule covers_le, rule covers_u16, rule covers_name [where b' = False], rule covers_name [where b' = False], rule covers_end), simp_all add: PX_len_def split_def Let_def ac_simps)

lemma RESINFO_covers:
  assumes "rdata_ok (RR_RESINFO rr)"
  shows "covers start (Hdr_len (RESINFO_Hdr rr) start C) (\<lambda>msg off cm. RESINFO_pack rr msg off cm True) (RESINFO_len rr start C)"
  using assms
  by (cases "Hdr_len (RESINFO_Hdr rr) start C") (simp only: rdata_ok.simps RESINFO_pack_def,
    (rule covers_le, rule covers_txt, rule covers_end), simp_all add: RESINFO_len_def split_def Let_def ac_simps)

lemma RFC3597_covers:
  assumes "rdata_ok (RR_RFC3597 rr)"
  shows "covers start (Hdr_len (RFC3597_Hdr rr) start C) (\<lambda>msg off cm. RFC3597_pack rr msg off cm True) (RFC3597_len rr start C)"
  using assms
  by (cases "Hdr_len (RFC3597_Hdr rr) start C") (simp only: rdata_ok.simps RFC3597_pack_def,
    (rule covers_le, rule covers_hex, rule covers_end), simp_all add: RFC3597_len_def split_def Let_def ac_simps)

lemma RKEY_covers:
  assumes "rdata_ok (RR_RKEY rr)"
  shows "covers start (Hdr_len (RKEY_Hdr rr) start C) (\<lambda>msg off cm. RKEY_pack rr msg off cm True) (RKEY_len rr start C)"
  using assms
  by (cases "Hdr_len (RKEY_Hdr rr) start C") (simp only: rdata_ok.simps RKEY_pack_def,
    (rule covers_le, rule covers_u16, rule covers_u8, rule covers_u8, rule covers_base64, rule covers_end), simp_all add: RKEY_len_def split_def Let_def ac_simps)

lemma RP_covers:
  assumes "rdata_ok (RR_RP rr)"
  shows "covers start (Hdr_len (RP_Hdr rr) start C) (\<lambda>msg off cm. RP_pack rr msg off cm True) (RP_len rr start C)"
  using assms
  by (cases "Hdr_len (RP_Hdr rr) start C") (simp only: rdata_ok.simps RP_pack_def,
    (rule covers_le, rule covers_name [where b' = False], rule covers_name [where b' = False], rule covers_end), simp_all add: RP_len_def split_def Let_def ac_simps)

lemma RRSIG_covers:
  assumes "rdata_ok (RR_RRSIG rr)"
  shows "covers start (Hdr_len (RRSIG_Hdr rr) start C) (\<lambda>msg off cm. RRSIG_pack rr msg off cm True) (RRSIG_len rr start C)"
  using assms
  by (cases "Hdr_len (RRSIG_Hdr rr) start C") (simp only: rdata_ok.simps RRSIG_pack_def,
    (rule covers_le, rule covers_u16, rule covers_u8, rule covers_u8, rule covers_u32, rule covers_u32, rule covers_u32, rule covers_u16, rule covers_name [where b' = False], rule covers_base64, rule covers_end), simp_all add: RRSIG_len_def split_def Let_def ac_simps)

lemma RT_covers:
  assumes "rdata_ok (RR_RT rr)"
  shows "covers start (Hdr_len (RT_Hdr rr) start C) (\<lambda>msg off cm. RT_pack rr msg off cm True) (RT_len rr start C)"
  using assms
  by (cases "Hdr_len (RT_Hdr rr) start C") (simp only: rdata_ok.simps RT_pack_def,
    (rule covers_le, rule covers_u16, rule covers_name [where b' = False], rule covers_end), simp_all add: RT_len_def split_def Let_def ac_simps)

lemma SIG_covers:
  assumes "rdata_ok (RR_SIG rr)"
  shows "covers start (Hdr_len (RRSIG_Hdr rr) start C) (\<lambda>msg off cm. SIG_pack rr msg off cm True) (RRSIG_len rr start C)"
  using assms
  by (cases "Hdr_len (RRSIG_Hdr rr) start C") (simp only: rdata_ok.simps SIG_pack_def,
    (rule covers_le, rule covers_u16, rule covers_u8, rule covers_u8, rule covers_u32, rule covers_u32, rule covers_u32, rule covers_u16, rule covers_name [where b' = False], rule covers_base64, rule covers_end), simp_all add: RRSIG_len_def split_def Let_def ac_simps)

lemma SMIMEA_covers:
  assumes "rdata_ok (RR_SMIMEA rr)"
  shows "covers start (Hdr_len (SMIMEA_Hdr rr) start C) (\<lambda>msg off cm. SMIMEA_pack rr msg off cm True) (SMIMEA_len rr start C)"
  using assms
  by (cases "Hdr_len (SMIMEA_Hdr rr) start C") (simp only: rdata_ok.simps SMIMEA_pack_def,
    (rule covers_le, rule covers_u8, rule covers_u8, rule covers_u8, rule covers_hex, rule covers_end), simp_all add: SMIMEA_len_def split_def Let_def ac_simps)

lemma SOA_covers:
  assumes "rdata_ok (RR_SOA rr)"
  shows "covers start (Hdr_len (SOA_Hdr rr) start C) (\<lambda>msg off cm. SOA_pack rr msg off cm True) (SOA_len rr start C)"
  using assms
  by (cases "Hdr_len (SOA_Hdr rr) start C") (simp only: rdata_ok.simps SOA_pack_def,
    (rule covers_le, rule covers_name [where b' = True], rule covers_name [where b' = True], rule covers_u32, rule covers_u32, rule covers_u32, rule covers_u32, rule covers_u32, rule covers_end), simp_all add: SOA_len_def split_def Let_def ac_simps)

lemma SPF_covers:
  assumes "rdata_ok (RR_SPF rr)"
  shows "covers start (Hdr_len (SPF_Hdr rr) start C) (\<lambda>msg off cm. SPF_pack rr msg off cm True) (SPF_len rr start C)"
  using assms
  by (cases "Hdr_len (SPF_Hdr rr) start C") (simp only: rdata_ok.simps SPF_pack_def,
    (rule covers_le, rule covers_txt, rule covers_end), simp_all add: SPF_len_def split_def Let_def ac_simps)

lemma SRV_covers:
  assumes "rdata_ok (RR_SRV rr)"
  shows "covers start (Hdr_len (SRV_Hdr rr) start C) (\<lambda>msg off cm. SRV_pack rr msg off cm True) (SRV_len rr start C)"
  using assms
  by (cases "Hdr_len (SRV_Hdr rr) start C") (simp only: rdata_ok.simps SRV_pack_def,
    (rule covers_le, rule covers_u16, rule covers_u16, rule covers_u16, rule covers_name [where b' = False], rule covers_end), simp_all add: SRV_len_def split_def Let_def ac_simps)

lemma SSHFP_covers:
  assumes "rdata_ok (RR_SSHFP rr)"
  shows "covers start (Hdr_len (SSHFP_Hdr rr) start C) (\<lambda>msg off cm. SSHFP_pack rr msg off cm True) (SSHFP_len rr start C)"
  using assms
  by (cases "Hdr_len (SSHFP_Hdr rr) start C") (simp only: rdata_ok.simps SSHFP_pack_def,
    (rule covers_le, rule covers_u8, rule covers_u8, rule covers_hex, rule covers_end), simp_all add: SSHFP_len_def split_def Let_def ac_simps)

lemma SVCB_covers:
  assumes "rdata_ok (RR_SVCB rr)"
  shows "covers start (Hdr_len (SVCB_Hdr rr) start C) (\<lambda>msg off cm. SVCB_pack rr msg off cm True) (SVCB_len rr start C)"
  using assms
  by (cases "Hdr_len (SVCB_Hdr rr) start C") (simp only: rdata_ok.simps SVCB_pack_def,
    (rule covers_le, rule covers_u16, rule covers_name [where b' = False], rule covers_svcb, rule covers_end), simp_all add: SVCB_len_def split_def Let_def ac_simps)

lemma TA_covers:
  assumes "rdata_ok (RR_TA rr)"
  shows "covers start (Hdr_len (TA_Hdr rr) start C) (\<lambda>msg off cm. TA_pack rr msg off cm True) (TA_len rr start C)"
  using assms
  by (cases "Hdr_len (TA_Hdr rr) start C") (simp only: rdata_ok.simps TA_pack_def,
    (rule covers_le, rule covers_u16, rule covers_u8, rule covers_u8, rule covers_hex, rule covers_end), simp_all add: TA_len_def split_def Let_def ac_simps)

lemma TALINK_covers:
  assumes "rdata_ok (RR_TALINK rr)"
  shows "covers start (Hdr_len (TALINK_Hdr rr) start C) (\<lambda>msg off cm. TALINK_pack rr msg off cm True) (TALINK_len rr start C)"
  using assms
  by (cases "Hdr_len (TALINK_Hdr rr) start C") (simp only: rdata_ok.simps TALINK_pack_def,
    (rule covers_le, rule covers_name [where b' = False], rule covers_name [where b' = False], rule covers_end), simp_all add: TALINK_len_def split_def Let_def ac_simps)

lemma TKEY_covers:
  assumes "rdata_ok (RR_TKEY rr)"
  shows "covers start (Hdr_len (TKEY_Hdr rr) start C) (\<lambda>msg off cm. TKEY_pack rr msg off cm True) (TKEY_len rr start C)"
  using assms
  by (cases "Hdr_len (TKEY_Hdr rr) start C") (simp only: rdata_ok.simps TKEY_pack_def,
    (rule covers_le, rule covers_name [where b' = False], rule covers_u32, rule covers_u32, rule covers_u16, rule covers_u16, rule covers_u16, rule covers_hex, rule covers_u16, rule covers_hex, rule covers_end), simp_all add: TKEY_len_def split_def Let_def ac_simps)

lemma TLSA_covers:
  assumes "rdata_ok (RR_TLSA rr)"
  shows "covers start (Hdr_len (TLSA_Hdr rr) start C) (\<lambda>msg off cm. TLSA_pack rr msg off cm True) (TLSA_len rr start C)"
  using assms
  by (cases "Hdr_len (TLSA_Hdr rr) start C") (simp only: rdata_ok.simps TLSA_pack_def,
    (rule covers_le, rule covers_u8, rule covers_u8, rule covers_u8, rule covers_hex, rule covers_end), simp_all add: TLSA_len_def split_def Let_def ac_simps)

lemma TSIG_covers:
  assumes "rdata_ok (RR_TSIG rr)"
  shows "covers start (Hdr_len (TSIG_Hdr rr) start C) (\<lambda>msg off cm. TSIG_pack rr msg off cm True) (TSIG_len rr start C)"
  using assms
  by (cases "Hdr_len (TSIG_Hdr rr) start C") (simp only: rdata_ok.simps TSIG_pack_def,
    (rule covers_le, rule covers_name [where b' = False], rule covers_u48, rule covers_u16, rule covers_u16, rule covers_hex, rule covers_u16, rule covers_u16, rule covers_u16, rule covers_hex, rule covers_end), simp_all add: TSIG_len_def split_def Let_def ac_simps)

lemma TXT_covers:
  assumes "rdata_ok (RR_TXT rr)"
  shows "covers start (Hdr_len (TXT_Hdr rr) start C) (\<lambda>msg off cm. TXT_pack rr msg off cm True) (TXT_len rr start C)"
  using assms
  by (cases "Hdr_len (TXT_Hdr rr) start C") (simp only: rdata_ok.simps TXT_pack_def,
    (rule covers_le, rule covers_txt, rule covers_end), simp_all add: TXT_len_def split_def Let_def ac_simps)

lemma UID_covers:
  assumes "rdata_ok (RR_UID rr)"
  shows "covers start (Hdr_len (UID_Hdr rr) start C) (\<lambda>msg off cm. UID_pack rr msg off cm True) (UID_len rr start C)"
  using assms
  by (cases "Hdr_len (UID_Hdr rr) start C") (simp only: rdata_ok.simps UID_pack_def,
    (rule covers_le, rule covers_u32, rule covers_end), simp_all add: UID_len_def split_def Let_def ac_simps)

lemma UINFO_covers:
  assumes "rdata_ok (RR_UINFO rr)"
  shows "covers start (Hdr_len (UINFO_Hdr rr) start C) (\<lambda>msg off cm. UINFO_pack rr msg off cm True) (UINFO_len rr start C)"
  using assms
  by (cases "Hdr_len (UINFO_Hdr rr) start C") (simp only: rdata_ok.simps UINFO_pack_def,
    (rule covers_le, rule covers_string, rule covers_end), simp_all add: UINFO_len_def split_def Let_def ac_simps)

lemma URI_covers:
  assumes "rdata_ok (RR_URI rr)"
  shows "covers start (Hdr_len (URI_Hdr rr) start C) (\<lambda>msg off cm. URI_pack rr msg off cm True) (URI_len rr start C)"
  using assms
  by (cases "Hdr_len (URI_Hdr rr) start C") (simp only: rdata_ok.simps URI_pack_def,
    (rule covers_le, rule covers_u16, rule covers_u16, rule covers_octet, rule covers_end), simp_all add: URI_len_def split_def Let_def ac_simps)

lemma X25_covers:
  assumes "rdata_ok (RR_X25 rr)"
  shows "covers start (Hdr_len (X25_Hdr rr) start C) (\<lambda>msg off cm. X25_pack rr msg off cm True) (X25_len rr start C)"
  using assms
  by (cases "Hdr_len (X25_Hdr rr) start C") (simp only: rdata_ok.simps X25_pack_def,
    (rule covers_le, rule covers_string, rule covers_end), simp_all add: X25_len_def split_def Let_def ac_simps)

lemma ZONEMD_covers:
  assumes "rdata_ok (RR_ZONEMD rr)"
  shows "covers start (Hdr_len (ZONEMD_Hdr rr) start C) (\<lambda>msg off cm. ZONEMD_pack rr msg off cm True) (ZONEMD_len rr start C)"
  using assms
  by (cases "Hdr_len (ZONEMD_Hdr rr) start C") (simp only: rdata_ok.simps ZONEMD_pack_def,
    (rule covers_le, rule covers_u32, rule covers_u8, rule covers_u8, rule covers_hex, rule covers_end), simp_all add: ZONEMD_len_def split_def Let_def ac_simps)

lemmas all_covers =
  A_covers
  AAAA_covers
  AFSDB_covers
  AMTRELAY_covers
  ANY_covers
  APL_covers
  AVC_covers
  CAA_covers
  CDNSKEY_covers
  CDS_covers
  CERT_covers
  CNAME_covers
  CSYNC_covers
  DHCID_covers
  DLV_covers
  DNAME_covers
  DNSKEY_covers
  DS_covers
  EID_covers
  EUI48_covers
  EUI64_covers
  GID_covers
  GPOS_covers
  HINFO_covers
  HIP_covers
  HTTPS_covers
  IPSECKEY_covers
  ISDN_covers
  KEY_covers
  KX_covers
  L32_covers
  L64_covers
  LOC_covers
  LP_covers
  MB_covers
  MD_covers
  MF_covers
  MG_covers
  MINFO_covers
  MR_covers
  MX_covers
  NAPTR_covers
  NID_covers
  NIMLOC_covers
  NINFO_covers
  NS_covers
  NSAPPTR_covers
  NSEC_covers
  NSEC3_covers
  NSEC3PARAM_covers
  NULL_covers
  NXNAME_covers
  NXT_covers
  OPENPGPKEY_covers
  OPT_covers
  PTR_covers
  PX_covers
  RESINFO_covers
  RFC3597_covers
  RKEY_covers
  RP_covers
  RRSIG_covers
  RT_covers
  SIG_covers
  SMIMEA_covers
  SOA_covers
  SPF_covers
  SRV_covers
  SSHFP_covers
  SVCB_covers
  TA_covers
  TALINK_covers
  TKEY_covers
  TLSA_covers
  TSIG_covers
  TXT_covers
  UID_covers
  UINFO_covers
  URI_covers
  X25_covers
  ZONEMD_covers

lemma rr_covers:
  assumes "rdata_ok rr"
  shows "covers start (Hdr_len (rr_Header rr) start C) (\<lambda>msg off cm. rr_pack rr msg off cm True) (rr_len rr start C)"
  using assms by (cases rr) (simp_all only: rr_len.simps rr_pack.simps rr_Header.simps, (erule all_covers)+)

text \<open>A whole record, where its header is written.\<close>

lemma packHeader_covers:
  assumes "ok_name (Hdr_Name h)"
  shows "covers start (0, C) (\<lambda>msg off cm. if off = length msg then Err (0, ErrBuf) else packHeader h msg off cm True) (Hdr_len h start C)"
proof -
  have "covers start (0, C) (\<lambda>msg off cm. bindR (packDomainName (Hdr_Name h) msg off cm True) (\<lambda>(msg, cm, off).
      bindR (packUint16 (Hdr_Rrtype h) msg off) (\<lambda>(msg, off).
      bindR (packUint16 (Hdr_Class h) msg off) (\<lambda>(msg, off).
      bindR (packUint32 (Hdr_Ttl h) msg off) (\<lambda>(msg, off).
      bindR (packUint16 0 msg off) (\<lambda>(msg, off). Ok (msg, cm, off))))))) (Hdr_len h start C)"
    by (rule covers_le, rule covers_name [where b' = True], rule covers_u16, rule covers_u16, rule covers_u32, rule covers_u16,
      rule covers_end)
      (use assms in \<open>simp_all add: Hdr_len_def split_def Let_def\<close>)
  then show ?thesis unfolding covers_def packHeader_def by (auto simp: mapErr_eq_Ok split: if_splits)
qed

lemma packRR_bounded:
  assumes "ok_name (Hdr_Name (rr_Header rr))" and "rdata_ok rr" and "off < length msg" and "bounded loff C off cm"
    and "packRR (Some rr) msg off cm True = Ok (msg', cm', he, off')"
  shows "bounded (loff + fst (rr_len rr loff C)) (snd (rr_len rr loff C)) off' cm'"
proof -
  obtain m1 cm1 m2 where h: "packHeader (rr_Header rr) msg off cm True = Ok (m1, cm1, he)"
    and d: "rr_pack rr m1 he cm1 True = Ok (m2, cm', off')"
    using assms(5) by (auto simp: packRR_def bindR_eq_Ok Let_def split: if_splits)
  have "bounded (loff + fst (0, C)) (snd (0, C)) off cm" using assms(4) by simp
  from coversD [OF packHeader_covers [OF assms(1)] this, of msg m1 cm1 he] h assms(3)
  have "bounded (loff + fst (Hdr_len (rr_Header rr) loff C)) (snd (Hdr_len (rr_Header rr) loff C)) he cm1" by simp
  from coversD [OF rr_covers [OF assms(2)] this d] show ?thesis .
qed

end
