(* ===== verification/Message_Len.thy ===== *)
theory Message_Len
  imports Message Len_Bound
begin

section \<open>The length of a message\<close>

text \<open>
  \<^verbatim>\<open>Msg.Len\<close> is at least the number of octets that \<^verbatim>\<open>Pack\<close> gives, with and without
  compression: the bounds for names and records are put together along the sections.
\<close>

lemma Question_covers:
  assumes "ok_name (Q_Name q)"
  shows "covers start (0, C) (\<lambda>msg off cm. Question_pack q msg off cm True) (Question_len q start C)"
  unfolding Question_pack_def
  by (rule covers_le, rule covers_name [where b' = True], rule covers_u16, rule covers_u16, rule covers_end)
    (use assms in \<open>simp_all add: Question_len_def split_def Let_def\<close>)

lemma pack_questions_bounded:
  assumes "list_all (\<lambda>q. ok_name (Q_Name q)) qs" and "bounded loff C off cm"
    and "pack_questions qs msg off cm True = Ok (msg', cm', off')"
  shows "bounded (fst (questions_len qs loff C)) (snd (questions_len qs loff C)) off' cm'"
  using assms
proof (induction qs arbitrary: loff C off cm msg)
  case (Cons q qs)
  then obtain m1 c1 o1 where q: "Question_pack q msg off cm True = Ok (m1, c1, o1)"
    and qs: "pack_questions qs m1 o1 c1 True = Ok (msg', cm', off')" by (auto simp: bindR_eq_Ok)
  have "bounded (loff + fst (0, C)) (snd (0, C)) off cm" using Cons.prems(2) by simp
  from coversD [OF Question_covers this q] Cons.prems(1)
  have "bounded (loff + fst (Question_len q loff C)) (snd (Question_len q loff C)) o1 c1" by simp
  from Cons.IH [OF _ this qs] Cons.prems(1) show ?case by (simp add: split_def Let_def)
qed simp

lemma pack_rrs_bounded:
  assumes "list_all rr_fits rs" and "cm_sound cm (take off msg)" and "off + sum_list (map rr_size rs) < length msg"
    and "bounded loff C off cm" and "pack_rrs rs msg off cm True = Ok (msg', cm', off')"
  shows "bounded (fst (rrs_len rs loff C)) (snd (rrs_len rs loff C)) off' cm'"
  using assms
proof (induction rs arbitrary: loff C off cm msg)
  case (Cons r rs)
  obtain rr where r: "r = Some rr" and rr: "rr_ok rr" using Cons.prems(1) by (auto simp: rr_fits_def split: option.splits)
  obtain m1 c1 he o1 where p: "packRR r msg off cm True = Ok (m1, c1, he, o1)"
    and rs: "pack_rrs rs m1 o1 c1 True = Ok (msg', cm', off')" using Cons.prems(5) by (auto simp: bindR_eq_Ok)
  have "list_all rr_fits [r]" "off + sum_list (map rr_size [r]) < length msg" using Cons.prems(1,3) by auto
  with pack_rrs_ok [OF this(1) Cons.prems(2) this(2), of True] p
  have one: "extends msg off m1 o1" "cm_sound c1 (take o1 m1)" "o1 \<le> off + rr_size r" by auto
  have "bounded (loff + fst (rr_len rr loff C)) (snd (rr_len rr loff C)) o1 c1"
    using p rr Cons.prems(3,4) unfolding r by (intro packRR_bounded) (auto simp: rr_ok_def)
  from Cons.IH [OF _ one(2) _ this rs] Cons.prems(1,3) one(1,3) show ?case
    unfolding r by (simp add: split_def Let_def extends_def)
qed simp

lemma bounded_new: "bounded off (Some {}) off new_compression"
  by (simp add: bounded_def dense_but_def new_compression_def cm_valid_def cm_nonneg_def cm_find_def)

lemma pack_sections_bounded:
  assumes ok: "sections_ok dns" and "pack_sections dns buf new_compression True = Ok b"
  shows "length b \<le> msgLenWithCompressionMap dns (Some {})"
proof -
  let ?m0 = "if length buf < msg_size dns + 1 then replicate (msg_size dns + 1) 0 else buf"
  let ?Q = "sum_list (map q_size (Msg_Question dns))" and ?A = "sum_list (map rr_size (Msg_Answer dns))"
    and ?N = "sum_list (map rr_size (Msg_Ns dns))" and ?E = "sum_list (map rr_size (Msg_Extra dns))"
  obtain m1 o1 m2 c2 o2 m3 c3 o3 m4 c4 o4 m5 c5 o5
    where 1: "Header_pack (wire_header dns) ?m0 0 = Ok (m1, o1)"
      and 2: "pack_questions (Msg_Question dns) m1 o1 new_compression True = Ok (m2, c2, o2)"
      and 3: "pack_rrs (Msg_Answer dns) m2 o2 c2 True = Ok (m3, c3, o3)"
      and 4: "pack_rrs (Msg_Ns dns) m3 o3 c3 True = Ok (m4, c4, o4)"
      and 5: "pack_rrs (Msg_Extra dns) m4 o4 c4 True = Ok (m5, c5, o5)" and b: "(go_slice m5 0 o5 :: bytes off_res) = Ok b"
    using assms(2) unfolding pack_sections_def Let_def msgLen_None by (simp only: bindR_eq_Ok mapErr_eq_Ok split_paired_Ex prod.case) (elim exE conjE, rule that, assumption+)
  have tot: "12 + ?Q + ?A + ?N + ?E < length m1" and o1: "o1 = 12"
    using 1 Header_pack_eq [of 0 ?m0 "wire_header dns"] by (auto simp: msg_size_def split: if_splits)
  have q: "extends m1 12 m2 o2" "cm_sound c2 (take o2 m2)" "o2 \<le> 12 + ?Q"
    using pack_questions_ok [of "Msg_Question dns" new_compression 12 m1 True] ok tot 2 cm_sound_new
    by (auto simp: sections_ok_def o1)
  have a: "extends m2 o2 m3 o3" "cm_sound c3 (take o3 m3)" "o3 \<le> o2 + ?A"
    using pack_rrs_ok [of "Msg_Answer dns" c2 o2 m2 True] ok q tot 3 by (auto simp: sections_ok_def extends_def)
  have n: "extends m3 o3 m4 o4" "cm_sound c4 (take o4 m4)" "o4 \<le> o3 + ?N"
    using pack_rrs_ok [of "Msg_Ns dns" c3 o3 m3 True] ok q a tot 4 by (auto simp: sections_ok_def extends_def)
  let ?l2 = "questions_len (Msg_Question dns) 12 (Some {})"
  let ?l3 = "rrs_len (Msg_Answer dns) (fst ?l2) (snd ?l2)"
  let ?l4 = "rrs_len (Msg_Ns dns) (fst ?l3) (snd ?l3)"
  let ?l5 = "rrs_len (Msg_Extra dns) (fst ?l4) (snd ?l4)"
  have "bounded (fst ?l2) (snd ?l2) o2 c2"
    using pack_questions_bounded [OF _ bounded_new 2] ok by (simp add: sections_ok_def o1)
  then have "bounded (fst ?l3) (snd ?l3) o3 c3"
    using ok q tot by (intro pack_rrs_bounded [OF _ _ _ _ 3]) (auto simp: sections_ok_def extends_def)
  then have "bounded (fst ?l4) (snd ?l4) o4 c4"
    using ok q a tot by (intro pack_rrs_bounded [OF _ _ _ _ 4]) (auto simp: sections_ok_def extends_def)
  then have "bounded (fst ?l5) (snd ?l5) o5 c5"
    using ok q a n tot by (intro pack_rrs_bounded [OF _ _ _ _ 5]) (auto simp: sections_ok_def extends_def)
  then have "o5 \<le> fst ?l5" by (simp add: bounded_def)
  moreover have "length b = o5" using b by (auto simp: go_slice_def split: if_splits)
  ultimately show ?thesis by (simp add: msgLenWithCompressionMap_def split_def Let_def)
qed

text \<open>The OPT record gets its extended RCODE before it is packed, which does not change its length.\<close>

lemma rrs_len_update:
  assumes "rs ! i = Some r" and "i < length rs" and "\<And>off C. rr_len r' off C = rr_len r off C"
  shows "rrs_len (rs[i := Some r']) l C = rrs_len rs l C"
  using assms
proof (induction rs arbitrary: i l C)
  case (Cons x rs)
  show ?case
  proof (cases i)
    case 0
    with Cons.prems show ?thesis by simp
  next
    case (Suc j)
    with Cons.IH [of j] Cons.prems show ?thesis by (cases x) (simp_all add: split_def Let_def)
  qed
qed simp

lemma rr_len_set_rcode: "rr_len (RR_OPT (SetExtendedRcode v opt)) off C = rr_len (RR_OPT opt) off C"
  by (simp add: OPT_len_def SetExtendedRcode_def set_Ttl_def Hdr_len_def)

lemma PackBuffer_sections:
  assumes ok: "msg_ok dns" and P: "PackBuffer dns buf = (dns1, Ok b)"
  obtains cm compress where "pack_sections dns1 buf cm compress = Ok b" and "sections_ok dns1"
    and "\<And>c. msgLenWithCompressionMap dns1 c = msgLenWithCompressionMap dns c"
    and "if Msg_Compress dns \<and> isCompressible dns then cm = new_compression \<and> compress else cm = no_compression \<and> \<not> compress"
proof -
  obtain cm compress where P: "packBufferWithCompressionMap dns buf cm compress = (dns1, Ok b)"
    and c: "if Msg_Compress dns \<and> isCompressible dns then cm = new_compression \<and> compress else cm = no_compression \<and> \<not> compress"
    using P that by (auto simp: PackBuffer_def split: if_splits)
  have s: "sections_ok dns" using ok by (simp add: msg_ok_def)
  have "pack_sections dns1 buf cm compress = Ok b \<and> sections_ok dns1 \<and> (\<forall>c. msgLenWithCompressionMap dns1 c = msgLenWithCompressionMap dns c)"
    using sections_rec_ok [OF s]
  proof (cases rule: IsEdns0_cases)
    case none
    with P s show ?thesis by (auto simp: packBufferWithCompressionMap_def split: if_splits)
  next
    case (some j opt)
    let ?o = "SetExtendedRcode (word_of_int (Msg_Rcode dns)) opt"
    have d1: "dns1 = dns\<lparr>Msg_Extra := (Msg_Extra dns)[j := Some (RR_OPT ?o)]\<rparr>" and b: "pack_sections dns1 buf cm compress = Ok b"
      using P some(1) by (auto simp: packBufferWithCompressionMap_def Let_def split: if_splits)
    have "rr_fits (Some (RR_OPT ?o))"
      using s some(2,3) by (intro rr_fits_set_rcode) (auto simp: sections_ok_def list_all_length)
    then have "sections_ok dns1"
      using s some(2) by (auto simp: d1 sections_ok_def list_all_length nth_list_update)
    moreover have "msgLenWithCompressionMap dns1 c = msgLenWithCompressionMap dns c" for c
      using rrs_len_update [OF some(3,2) rr_len_set_rcode] by (simp add: d1 msgLenWithCompressionMap_def split_def Let_def)
    ultimately show ?thesis using b by blast
  qed
  with c show ?thesis using that by blast
qed

lemma message_packs: "msg_ok dns \<Longrightarrow> \<exists>dns1 b. PackBuffer dns buf = (dns1, Ok b)"
  using PackBuffer_reads_back [of dns buf] by blast

lemma Msg_Len_bound:
  assumes "msg_ok dns" and "PackBuffer dns buf = (dns1, Ok b)"
  shows "length b \<le> Msg_Len dns"
proof -
  obtain cm compress where p: "pack_sections dns1 buf cm compress = Ok b" "sections_ok dns1"
    and l: "\<And>c. msgLenWithCompressionMap dns1 c = msgLenWithCompressionMap dns c"
    and c: "if Msg_Compress dns \<and> isCompressible dns then cm = new_compression \<and> compress else cm = no_compression \<and> \<not> compress"
    by (rule PackBuffer_sections [OF assms], rule that)
  show ?thesis
  proof (cases "Msg_Compress dns \<and> isCompressible dns")
    case True
    with c p pack_sections_bounded [of dns1 buf b] l show ?thesis by (simp add: Msg_Len_def)
  next
    case False
    then have "cm = no_compression" "\<not> compress" using c by auto
    with p pack_sections_ok [OF p(2) cm_sound_none, of buf compress] False l msgLen_None [of dns1] show ?thesis
      by (metis Msg_Len_def outcome.inject(1))
  qed
qed

subsection \<open>The property\<close>

text \<open>
  C14: \<^verbatim>\<open>Msg.Len\<close> never underestimates: a well-formed message, compressed or not, packs into at
  most as many octets as \<^verbatim>\<open>Len\<close> says, although \<^verbatim>\<open>Len\<close> keeps a set of names where packing
  keeps their offsets, and counts the characters of an escaped name where packing counts its octets.
\<close>

theorem Len_never_underestimates:
  assumes "msg_ok dns"
  shows "\<exists>dns1 b. PackBuffer dns buf = (dns1, Ok b) \<and> length b \<le> Msg_Len dns"
  using message_packs [OF assms, of buf] Msg_Len_bound [OF assms] by blast

theorem Len_never_underestimates_witness:
  "\<exists>dns1 b. PackBuffer ex_msg [] = (dns1, Ok b) \<and> length b \<le> Msg_Len ex_msg"
  using Len_never_underestimates [OF ex_msg_ok] .

end
