(* ===== verification/Truncate.thy ===== *)
theory Truncate
  imports Message_Len
begin

section \<open>Truncation\<close>

text \<open>
  \<^verbatim>\<open>msg_truncate.go\<close>: a reply is cut so that it fits a buffer. The sections are walked in
  order with the length that compression would give, and the OPT record is put back at the end. The
  three loops are shown to be one loop over all records; what it keeps is the longest prefix that
  fits, and with the bound on lengths the packed reply fits.
\<close>

definition IsTsig :: "Msg \<Rightarrow> TSIG option res" where
  "IsTsig dns =
     (if Msg_Extra dns = [] then Ok None
      else case last (Msg_Extra dns) of
          None \<Rightarrow> Panic
        | Some rr \<Rightarrow>
            if Hdr_Rrtype (rr_Header rr) = TypeTSIG
            then (case rr of RR_TSIG t \<Rightarrow> Ok (Some t) | _ \<Rightarrow> Panic)
            else Ok None)"

abbreviation MinMsgSize :: int where "MinMsgSize \<equiv> 512"

text \<open>\<open>i\<close> is the index of the next record; lengths are Go integers.\<close>

fun truncateLoop :: "RR option list \<Rightarrow> int \<Rightarrow> int \<Rightarrow> lenMap \<Rightarrow> nat \<Rightarrow> int \<times> nat \<times> lenMap" where
  "truncateLoop [] sz l compression i = (l, i, compression)"
| "truncateLoop (None # rrs) sz l compression i = truncateLoop rrs sz l compression (i + 1)"
| "truncateLoop (Some r # rrs) sz l compression i =
     (let (n, compression) = rr_len r (nat l) compression; l = l + int n in
      if l > sz then (sz, i, compression)
      else if l = sz then (l, i + 1, compression)
      else truncateLoop rrs sz l compression (i + 1))"

definition Truncate :: "int \<Rightarrow> Msg \<Rightarrow> Msg res" where
  "Truncate sz dns =
     bindR (IsTsig dns) (\<lambda>tsig.
     if tsig \<noteq> None then Ok dns
     else
       let sz = (if sz < MinMsgSize then MinMsgSize else sz);
           l = int (msgLenWithCompressionMap dns None) in
       if l \<le> sz then Ok (dns\<lparr>Msg_Compress := False\<rparr>)
       else
         bindR (popEdns0 (dns\<lparr>Msg_Compress := True\<rparr>)) (\<lambda>(dns, edns0).
         let sz = (case edns0 of None \<Rightarrow> sz | Some opt \<Rightarrow> sz - int (Len (RR_OPT opt)));
             (l, compression) = questions_len (Msg_Question dns) headerSize (Some {});
             l = int l;
             (l, numAnswer, compression) =
               (if l < sz then truncateLoop (Msg_Answer dns) sz l compression 0 else (l, 0, compression));
             (l, numNS, compression) =
               (if l < sz then truncateLoop (Msg_Ns dns) sz l compression 0 else (l, 0, compression));
             (l, numExtra, compression) =
               (if l < sz then truncateLoop (Msg_Extra dns) sz l compression 0 else (l, 0, compression));
             dns = dns\<lparr>Msg_Truncated := Msg_Truncated dns \<or> length (Msg_Answer dns) > numAnswer \<or>
                          length (Msg_Ns dns) > numNS \<or> length (Msg_Extra dns) > numExtra\<rparr>;
             dns = dns\<lparr>Msg_Answer := take numAnswer (Msg_Answer dns), Msg_Ns := take numNS (Msg_Ns dns),
                       Msg_Extra := take numExtra (Msg_Extra dns)\<rparr> in
         Ok (case edns0 of None \<Rightarrow> dns | Some opt \<Rightarrow> dns\<lparr>Msg_Extra := Msg_Extra dns @ [Some (RR_OPT opt)]\<rparr>)))"

subsection \<open>Every record has a length\<close>

lemma domainNames_len_ge: "l \<le> fst (domainNames_len xs off l C)"
proof (induction xs arbitrary: l C)
  case (Cons x xs)
  from Cons [of "l + fst (domainNameLen x (off + l) C False)" "snd (domainNameLen x (off + l) C False)"]
  show ?case by (simp add: split_def Let_def)
qed simp

lemma rr_len_ge: "fst (Hdr_len (rr_Header rr) off C) \<le> fst (rr_len rr off C)"
  by (cases rr) (simp_all add: all_len_defs split_def Let_def le_trans [OF _ domainNames_len_ge])

lemma rr_len_pos: "0 < fst (rr_len rr off C)"
proof -
  have "0 < fst (Hdr_len (rr_Header rr) off C)" by (simp add: Hdr_len_def split_def Let_def)
  then show ?thesis using rr_len_ge by (rule less_le_trans)
qed

subsection \<open>One loop over all sections\<close>

lemma truncateLoop_append:
  assumes "l < sz"
  shows "truncateLoop (xs @ ys) sz l C i =
    (let (l1, k1, C1) = truncateLoop xs sz l C i in if l1 < sz then truncateLoop ys sz l1 C1 k1 else (l1, k1, C1))"
  using assms
  by (induction xs sz l C i rule: truncateLoop.induct) (auto simp: Let_def split_def)

lemma truncateLoop_index:
  "truncateLoop xs sz l C i = (l', k, C') \<Longrightarrow> l < sz \<Longrightarrow>
     i \<le> k \<and> k \<le> i + length xs \<and> l' \<le> sz \<and> (l' < sz \<longrightarrow> k = i + length xs)"
proof (induction xs arbitrary: l C i)
  case (Cons x xs)
  show ?case
  proof (cases x)
    case None
    with Cons.IH [of l C "i + 1"] Cons.prems show ?thesis by simp
  next
    case (Some r)
    obtain n C1 where n: "rr_len r (nat l) C = (n, C1)" by fastforce
    from Cons.IH [of "l + int n" C1 "i + 1"] Cons.prems n Some show ?thesis by (auto simp: Let_def split: if_splits)
  qed
qed simp

lemma truncateLoop_shift: "truncateLoop xs sz l C (i + j) = (let (l', k, C') = truncateLoop xs sz l C i in (l', k + j, C'))"
  by (induction xs sz l C i rule: truncateLoop.induct) (auto simp: Let_def split_def)

text \<open>What the loop keeps is the longest prefix that fits.\<close>

lemma truncateLoop_longest:
  assumes "list_all (\<lambda>r. r \<noteq> None) xs" and "l < sz" and "0 \<le> l" and "truncateLoop xs sz l C i = (l', k, C')"
  shows "int (fst (rrs_len (take (k - i) xs) (nat l) C)) \<le> sz \<and>
    (k < i + length xs \<longrightarrow> sz < int (fst (rrs_len (take (Suc (k - i)) xs) (nat l) C)))"
  using assms
proof (induction xs arbitrary: l C i)
  case (Cons x xs)
  then obtain r where x: "x = Some r" by auto
  obtain n C1 where n: "rr_len r (nat l) C = (n, C1)" by fastforce
  have more: "rrs_len (take (Suc m) (x # xs)) (nat l) C = rrs_len (take m xs) (nat (l + int n)) C1" for m
    using Cons.prems(3) by (simp add: x n nat_add_distrib)
  consider (over) "l + int n > sz" "k = i" | (exact) "l + int n = sz" "k = i + 1"
    | (less) "l + int n < sz" "truncateLoop xs sz (l + int n) C1 (i + 1) = (l', k, C')"
    using Cons.prems(4) by (auto simp: x n Let_def split: if_splits)
  then show ?case
  proof cases
    case over
    then show ?thesis using Cons.prems(2,3) more [of 0] by simp
  next
    case exact
    have "sz < int (fst (rrs_len (take 1 xs) (nat sz) C1))" if ne: "xs \<noteq> []"
    proof -
      obtain r' xs' where "xs = Some r' # xs'" using ne Cons.prems(1) by (cases xs) auto
      then show ?thesis
        using rr_len_pos [of r' "nat sz" C1] Cons.prems(2,3) by (simp add: split_def Let_def)
    qed
    with exact more [of 0] more [of 1] Cons.prems(3) show ?thesis by (cases xs) auto
  next
    case less
    have k: "i + 1 \<le> k" using truncateLoop_index [OF less(2,1)] by simp
    then have s: "k - i = Suc (k - (i + 1))" by simp
    have "0 \<le> l + int n" using Cons.prems(3) by simp
    from Cons.IH [OF _ less(1) this less(2)] Cons.prems(1) show ?thesis unfolding s more by simp
  qed
qed simp

text \<open>The number of records that are kept, from all sections together.\<close>

definition kept :: "RR option list \<Rightarrow> int \<Rightarrow> int \<Rightarrow> lenMap \<Rightarrow> nat" where
  "kept rs sz l C = (if l < sz then fst (snd (truncateLoop rs sz l C 0)) else 0)"

lemma three_loops:
  assumes "(if l < sz then truncateLoop A sz l C 0 else (l, 0, C)) = (l1, a, C1)"
    and "(if l1 < sz then truncateLoop N sz l1 C1 0 else (l1, 0, C1)) = (l2, n, C2)"
    and "(if l2 < sz then truncateLoop E sz l2 C2 0 else (l2, 0, C2)) = (l3, e, C3)"
    and "K = kept (A @ N @ E) sz l C"
  shows "a = min K (length A)" and "n = min (K - length A) (length N)" and "e = K - length A - length N"
    and "K \<le> length (A @ N @ E)"
proof -
  have "a = min K (length A) \<and> n = min (K - length A) (length N) \<and> e = K - length A - length N \<and> K \<le> length (A @ N @ E)"
  proof (cases "l < sz")
    case False
    with assms show ?thesis by (auto simp: kept_def)
  next
    case l: True
    with assms(1) have A: "truncateLoop A sz l C 0 = (l1, a, C1)" by simp
    note a = truncateLoop_index [OF A l]
    have K: "K = fst (snd (if l1 < sz then truncateLoop (N @ E) sz l1 C1 a else (l1, a, C1)))"
      using assms(4) l by (simp add: kept_def truncateLoop_append [OF l] A)
    show ?thesis
    proof (cases "l1 < sz")
      case False
      with assms(2,3) K a show ?thesis by (auto split: if_splits)
    next
      case l1: True
      with assms(2) have N: "truncateLoop N sz l1 C1 0 = (l2, n, C2)" by simp
      note n = truncateLoop_index [OF N l1]
      have K: "K = fst (snd (if l2 < sz then truncateLoop E sz l2 C2 (n + a) else (l2, n + a, C2)))"
        using K l1 N truncateLoop_shift [of N sz l1 C1 0 a] by (simp add: truncateLoop_append [OF l1])
      show ?thesis
      proof (cases "l2 < sz")
        case False
        with assms(3) K a l1 n show ?thesis by auto
      next
        case l2: True
        with assms(3) have E: "truncateLoop E sz l2 C2 0 = (l3, e, C3)" by simp
        note e = truncateLoop_index [OF E l2]
        have "K = e + (n + a)"
          using K l2 E truncateLoop_shift [of E sz l2 C2 0 "n + a"] by simp
        with a l1 n l2 e show ?thesis by auto
      qed
    qed
  qed
  then show "a = min K (length A)" and "n = min (K - length A) (length N)" and "e = K - length A - length N"
    and "K \<le> length (A @ N @ E)" by simp_all
qed

lemma kept_longest:
  assumes "list_all (\<lambda>r. r \<noteq> None) rs"
  shows "(kept rs sz (int l) C = 0 \<or> int (fst (rrs_len (take (kept rs sz (int l) C) rs) l C)) \<le> sz) \<and>
    (kept rs sz (int l) C < length rs \<longrightarrow> sz < int (fst (rrs_len (take (Suc (kept rs sz (int l) C)) rs) l C)))"
proof (cases "int l < sz")
  case True
  obtain l' k C' where T: "truncateLoop rs sz (int l) C 0 = (l', k, C')" by (cases "truncateLoop rs sz (int l) C 0")
  with truncateLoop_longest [OF assms True _ T] True show ?thesis by (simp add: kept_def)
next
  case False
  moreover have "int l < int (fst (rrs_len (take 1 rs) l C))" if ne: "rs \<noteq> []"
  proof -
    obtain r rs' where "rs = Some r # rs'" using ne assms by (cases rs) auto
    then show ?thesis using rr_len_pos [of r l C] by (simp add: split_def Let_def)
  qed
  ultimately show ?thesis by (cases rs) (auto simp: kept_def)
qed

subsection \<open>What is cut off\<close>

text \<open>The message with the first \<open>K\<close> records and the OPT record, and the length of these records.\<close>

definition cut :: "nat \<Rightarrow> RR option list \<Rightarrow> OPT option \<Rightarrow> Msg \<Rightarrow> Msg" where
  "cut K E opt dns =
     dns\<lparr>Msg_Compress := True,
         Msg_Truncated := Msg_Truncated dns \<or> K < length (Msg_Answer dns @ Msg_Ns dns @ E),
         Msg_Answer := take K (Msg_Answer dns), Msg_Ns := take (K - length (Msg_Answer dns)) (Msg_Ns dns),
         Msg_Extra := take (K - length (Msg_Answer dns) - length (Msg_Ns dns)) E @
           (case opt of None \<Rightarrow> [] | Some o1 \<Rightarrow> [Some (RR_OPT o1)])\<rparr>"

definition cut_len :: "nat \<Rightarrow> RR option list \<Rightarrow> Msg \<Rightarrow> nat \<times> lenMap" where
  "cut_len K E dns =
     (let (l, C) = questions_len (Msg_Question dns) headerSize (Some {}) in rrs_len (take K (Msg_Answer dns @ Msg_Ns dns @ E)) l C)"

definition opt_size :: "OPT option \<Rightarrow> nat" where
  "opt_size opt = (case opt of None \<Rightarrow> 0 | Some o1 \<Rightarrow> Len (RR_OPT o1))"

lemma popEdns0_cases:
  assumes "list_all rec_ok (Msg_Extra dns)"
  obtains E opt where "popEdns0 dns = Ok (dns\<lparr>Msg_Extra := E\<rparr>, opt)" and "set E \<subseteq> set (Msg_Extra dns)" and "length E \<le> length (Msg_Extra dns)"
    and "\<And>d. Msg_Extra d = Msg_Extra dns \<Longrightarrow> popEdns0 d = Ok (d\<lparr>Msg_Extra := E\<rparr>, opt)"
    and "case opt of None \<Rightarrow> E = Msg_Extra dns | Some o1 \<Rightarrow> Some (RR_OPT o1) \<in> set (Msg_Extra dns) \<and> length E < length (Msg_Extra dns)"
    and "list_ex is_OPT (Msg_Extra dns) \<Longrightarrow> opt \<noteq> None"
  using assms
proof (cases rule: IsEdns0_cases)
  case none
  have "popEdns0 d = Ok (d\<lparr>Msg_Extra := Msg_Extra dns\<rparr>, None)" if "Msg_Extra d = Msg_Extra dns" for d
    using none(1) that by (simp add: popEdns0_def IsEdns0_def)
  with none(2) show ?thesis by (intro that [of "Msg_Extra dns" None]) (auto simp: list_ex_iff)
next
  case (some j opt)
  let ?E = "take j (Msg_Extra dns) @ drop (j + 1) (Msg_Extra dns)"
  have "popEdns0 d = Ok (d\<lparr>Msg_Extra := ?E\<rparr>, Some opt)" if "Msg_Extra d = Msg_Extra dns" for d
    using some(1) that by (simp add: popEdns0_def IsEdns0_def)
  moreover have "Some (RR_OPT opt) \<in> set (Msg_Extra dns)" using some(2,3) by (metis nth_mem)
  ultimately show ?thesis
    using some(2) by (intro that [of ?E "Some opt"]) (auto dest: in_set_takeD in_set_dropD)
qed

lemma take_min_length [simp]: "take (min n (length xs)) xs = take n xs"
  by (simp add: min_def)

lemma rec_ok_not_nil: "list_all rec_ok rs \<Longrightarrow> list_all (\<lambda>r. r \<noteq> None) rs"
  by (auto simp: list_all_iff rec_ok_def split: option.splits)

lemma Truncate_cut:
  assumes "msg_typed dns" and "IsTsig dns = Ok None" and big: "max MinMsgSize sz < int (msgLenWithCompressionMap dns None)"
    and pop: "\<And>d. Msg_Extra d = Msg_Extra dns \<Longrightarrow> popEdns0 d = Ok (d\<lparr>Msg_Extra := E\<rparr>, opt)" and E: "set E \<subseteq> set (Msg_Extra dns)"
  obtains K where "Truncate sz dns = Ok (cut K E opt dns)" and "K \<le> length (Msg_Answer dns @ Msg_Ns dns @ E)"
    and "K = 0 \<or> int (fst (cut_len K E dns) + opt_size opt) \<le> max MinMsgSize sz"
    and "K < length (Msg_Answer dns @ Msg_Ns dns @ E) \<longrightarrow> max MinMsgSize sz < int (fst (cut_len (Suc K) E dns) + opt_size opt)"
proof -
  let ?rs = "Msg_Answer dns @ Msg_Ns dns @ E"
  define S where "S = max MinMsgSize sz"
  define s where "s = S - int (opt_size opt)"
  obtain l C where q: "questions_len (Msg_Question dns) headerSize (Some {}) = (l, C)" by fastforce
  define K where "K = kept ?rs s (int l) C"
  obtain l1 a C1 where 1: "(if int l < s then truncateLoop (Msg_Answer dns) s (int l) C 0 else (int l, 0, C)) = (l1, a, C1)"
    by (cases "if int l < s then truncateLoop (Msg_Answer dns) s (int l) C 0 else (int l, 0, C)")
  obtain l2 n C2 where 2: "(if l1 < s then truncateLoop (Msg_Ns dns) s l1 C1 0 else (l1, 0, C1)) = (l2, n, C2)"
    by (cases "if l1 < s then truncateLoop (Msg_Ns dns) s l1 C1 0 else (l1, 0, C1)")
  obtain l3 e C3 where 3: "(if l2 < s then truncateLoop E s l2 C2 0 else (l2, 0, C2)) = (l3, e, C3)"
    by (cases "if l2 < s then truncateLoop E s l2 C2 0 else (l2, 0, C2)")
  note K = three_loops [OF 1 2 3 K_def]
  have sz: "(if sz < MinMsgSize then MinMsgSize else sz) = S" by (simp add: S_def max_def)
  have s: "(case opt of None \<Rightarrow> S | Some o1 \<Rightarrow> S - int (Len (RR_OPT o1))) = s"
    by (simp add: s_def opt_size_def split: option.splits)
  have pop: "popEdns0 (dns\<lparr>Msg_Compress := True\<rparr>) = Ok (dns\<lparr>Msg_Compress := True, Msg_Extra := E\<rparr>, opt)"
    using pop [of "dns\<lparr>Msg_Compress := True\<rparr>"] by simp
  have big: "\<not> int (msgLenWithCompressionMap dns None) \<le> S" using big unfolding S_def by linarith
  have tc: "min K (length (Msg_Answer dns)) < length (Msg_Answer dns) \<or> min (K - length (Msg_Answer dns)) (length (Msg_Ns dns)) < length (Msg_Ns dns) \<or>
      K - (length (Msg_Answer dns) + length (Msg_Ns dns)) < length E \<longleftrightarrow> K < length (Msg_Answer dns) + (length (Msg_Ns dns) + length E)"
    by linarith
  have "Truncate sz dns = Ok (cut K E opt dns)"
    unfolding Truncate_def assms(2) bindR.simps sz Let_def pop
    using big K
    by (simp add: s q 1 2 3 cong: if_cong split del: if_split) (cases opt; simp add: cut_def tc)
  moreover have "list_all (\<lambda>r. r \<noteq> None) ?rs"
    using assms(1) E by (intro rec_ok_not_nil) (auto simp: msg_typed_def list_all_iff)
  from kept_longest [OF this, of s l C, folded K_def]
  have "(K = 0 \<or> int (fst (cut_len K E dns)) \<le> s) \<and> (K < length ?rs \<longrightarrow> s < int (fst (cut_len (Suc K) E dns)))"
    by (simp add: cut_len_def q)
  ultimately show ?thesis using that K(4) by (force simp: s_def S_def)
qed

subsection \<open>The reply fits\<close>

lemma domainNameLen_le:
  assumes "ok_name s"
  shows "fst (domainNameLen s off C b) \<le> name_len s"
proof (cases C)
  case (Some c)
  obtain ls where nl: "name_labels s = Some ls" and s: "s = present ls"
    using assms by (auto simp: ok_name_def split: option.splits)
  show ?thesis
  proof (cases "ls = []")
    case True
    then show ?thesis using s by (simp add: present_def domainNameLen_def name_len_def)
  next
    case False
    then have s: "s = text_of ls" using s by (simp add: present_def)
    have root: "s \<noteq> [DOT]" "s \<noteq> []" using nl False by (auto simp: name_labels_def split_labels_simps split: if_splits)
    have wf: "list_all wf_label ls" using nl root(1) by (auto simp: name_labels_def split: option.splits if_splits)
    have full: "name_len s = plainNameLen s + 1" "name_len s = wire_len ls"
      using root domainNameLen_exact [OF nl, of 0 False] by (simp_all add: name_len_def domainNameLen_def)
    obtain r c' where r: "compressionLenSearch c s off = (r, c')" by fastforce
    show ?thesis
    proof (cases "\<exists>k. r = Some k \<and> b")
      case False
      then show ?thesis using Some root r full(1) by (auto simp: domainNameLen_def split: option.splits if_splits)
    next
      case True
      then obtain k where k: "r = Some k" "b" by blast
      have "\<exists>i < length ls. k = length (text_of (take i ls)) \<and> text_of (drop i ls) \<in> c"
        using compressionLenSearch_loop_text [OF \<open>ls \<noteq> []\<close>, of "[]" c off r c'] r k s by (simp add: compressionLenSearch_def)
      then obtain i where i: "i < length ls" "k = length (text_of (take i ls))" by blast
      have take: "take k s = text_of (take i ls)"
        unfolding s i(2) by (subst (2) append_take_drop_id [of i ls, symmetric]) (simp del: append_take_drop_id)
      have "(if BSL \<in> set s then escapedNameLen (take k s) else k) = labels_octets (take i ls)"
        using escapedNameLen_text [of "take i ls"] plain_text [of "take i ls"] take i(2) set_take_subset [of k s] by auto
      moreover have "labels_octets (take i ls) + 2 \<le> wire_len ls"
      proof -
        have "labels_octets ls = labels_octets (take i ls) + labels_octets (drop i ls)"
          by (subst append_take_drop_id [of i ls, symmetric]) (simp only: labels_octets_def map_append sum_list_append)
        moreover obtain l ks where "drop i ls = l # ks" using i(1) by (cases "drop i ls") auto
        ultimately show ?thesis by (simp add: wire_len_def)
      qed
      ultimately show ?thesis using Some root r k full by (simp add: domainNameLen_def)
    qed
  qed
qed simp

lemma questions_len_le:
  assumes "list_all (\<lambda>q. ok_name (Q_Name q)) qs"
  shows "fst (questions_len qs l C) \<le> l + sum_list (map q_size qs)"
  using assms
proof (induction qs arbitrary: l C)
  case (Cons q qs)
  have "fst (Question_len q l C) \<le> q_size q"
    using domainNameLen_le [of "Q_Name q" l C True] Cons.prems by (simp add: Question_len_def q_size_def split_def Let_def)
  with Cons.IH [of "l + fst (Question_len q l C)" "snd (Question_len q l C)"] Cons.prems show ?case
    by (simp add: split_def Let_def)
qed simp

lemma OPT_len_le:
  assumes "ok_name (Hdr_Name (OPT_Hdr opt))"
  shows "fst (rr_len (RR_OPT opt) off C) \<le> Len (RR_OPT opt)"
  using domainNameLen_le [OF assms, of off C True] by (simp add: Len_def OPT_len_def Hdr_len_def split_def Let_def)

lemma rrs_len_append: "rrs_len (xs @ ys) l C = (let (l, C) = rrs_len xs l C in rrs_len ys l C)"
  by (induction xs l C rule: rrs_len.induct) (simp_all add: split_def Let_def)

lemma cut_sections:
  "Msg_Answer (cut K E opt dns) @ Msg_Ns (cut K E opt dns) @ take (K - length (Msg_Answer dns) - length (Msg_Ns dns)) E =
     take K (Msg_Answer dns @ Msg_Ns dns @ E)"
  by (simp add: cut_def)

lemma cut_Len:
  assumes "list_all (\<lambda>q. ok_name (Q_Name q)) (Msg_Question dns)" and "\<And>o1. opt = Some o1 \<Longrightarrow> ok_name (Hdr_Name (OPT_Hdr o1))"
    and "K = 0 \<or> int (fst (cut_len K E dns) + opt_size opt) \<le> S" and "int (headerSize + sum_list (map q_size (Msg_Question dns)) + opt_size opt) \<le> S"
  shows "int (Msg_Len (cut K E opt dns)) \<le> S"
proof -
  let ?d = "cut K E opt dns" and ?o = "case opt of None \<Rightarrow> [] | Some o1 \<Rightarrow> [Some (RR_OPT o1)]"
  have comp: "Msg_Compress ?d" and Q: "Msg_Question ?d = Msg_Question dns" by (simp_all add: cut_def)
  have E: "Msg_Extra ?d = take (K - length (Msg_Answer dns) - length (Msg_Ns dns)) E @ ?o" by (simp add: cut_def)
  show ?thesis
  proof (cases "isCompressible ?d")
    case False
    then have none: "Msg_Answer ?d = []" "Msg_Ns ?d = []" "Msg_Extra ?d = []" by (auto simp: isCompressible_def)
    then have "Msg_Len ?d = headerSize + sum_list (map q_size (Msg_Question dns))"
      using False by (simp add: Msg_Len_def msgLen_None msg_size_def Q)
    then show ?thesis using assms(4) by simp
  next
    case True
    obtain l C where c: "cut_len K E dns = (l, C)" by fastforce
    have "msgLenWithCompressionMap ?d (Some {}) = fst (rrs_len ?o l C)"
    proof -
      obtain l0 C0 where q: "questions_len (Msg_Question dns) headerSize (Some {}) = (l0, C0)" by fastforce
      have "msgLenWithCompressionMap ?d (Some {}) = fst (rrs_len (Msg_Answer ?d @ Msg_Ns ?d @ Msg_Extra ?d) l0 C0)"
        by (simp add: msgLenWithCompressionMap_def Q q rrs_len_append split_def Let_def)
      also have "Msg_Answer ?d @ Msg_Ns ?d @ Msg_Extra ?d = take K (Msg_Answer dns @ Msg_Ns dns @ E) @ ?o"
        unfolding cut_sections [of K E opt dns, symmetric] E by simp
      finally have "msgLenWithCompressionMap ?d (Some {}) = fst (rrs_len (take K (Msg_Answer dns @ Msg_Ns dns @ E) @ ?o) l0 C0)" .
      moreover have "rrs_len (take K (Msg_Answer dns @ Msg_Ns dns @ E)) l0 C0 = (l, C)"
        using c by (simp only: cut_len_def q prod.case Let_def)
      ultimately show ?thesis by (simp only: rrs_len_append Let_def prod.case)
    qed
    also have "fst (rrs_len ?o l C) \<le> l + opt_size opt"
      using OPT_len_le assms(2) by (auto simp: opt_size_def split_def Let_def split: option.splits)
    finally have "int (Msg_Len ?d) \<le> int (l + opt_size opt)" using True comp by (simp add: Msg_Len_def)
    also have "\<dots> \<le> S"
    proof (cases "K = 0")
      case True
      then have "l \<le> headerSize + sum_list (map q_size (Msg_Question dns))"
        using c questions_len_le [OF assms(1), of headerSize "Some {}"] by (simp add: cut_len_def split_def)
      then show ?thesis using assms(4) by linarith
    next
      case False
      with assms(3) c show ?thesis by simp
    qed
    finally show ?thesis .
  qed
qed

lemma cut_msg_ok:
  assumes "msg_ok dns" and "set E \<subseteq> set (Msg_Extra dns)" and "length E \<le> length (Msg_Extra dns)"
    and "case opt of None \<Rightarrow> E = Msg_Extra dns | Some o1 \<Rightarrow> Some (RR_OPT o1) \<in> set (Msg_Extra dns) \<and> length E < length (Msg_Extra dns)"
    and "list_ex is_OPT (Msg_Extra dns) \<Longrightarrow> opt \<noteq> None"
  shows "msg_ok (cut K E opt dns)"
proof (cases opt)
  case None
  then have "Msg_Rcode dns \<le> 0xF" using assms(1,5) by (auto simp: msg_ok_def)
  with assms(1-4) None show ?thesis
    by (auto simp: msg_ok_def sections_ok_def cut_def list_all_iff dest!: in_set_takeD)
next
  case (Some o1)
  then have "list_ex is_OPT (Msg_Extra (cut K E opt dns))" by (simp add: cut_def is_OPT_def)
  with assms(1-4) Some show ?thesis
    by (auto simp: msg_ok_def sections_ok_def cut_def list_all_iff dest!: in_set_takeD)
qed

text \<open>A reply with a hundred answers.\<close>

definition ex_reply :: Msg where
  "ex_reply = ex_msg\<lparr>Msg_Answer := replicate 100 (Some ex_A)\<rparr>"

lemma ex_reply_ok: "msg_ok ex_reply"
  using ex_msg_ok ex_A_facts by (simp add: ex_reply_def msg_ok_def sections_ok_def rr_fits_def list_all_iff)

lemma ex_reply_typed: "msg_typed ex_reply"
  using ex_reply_ok by (auto simp: msg_ok_def msg_typed_def sections_ok_def list_all_iff intro: rr_fits_rec_ok)

lemma ex_reply_no_tsig: "IsTsig ex_reply = Ok None"
  by code_simp

lemma ex_reply_long: "max MinMsgSize 600 < int (msgLenWithCompressionMap ex_reply None)"
proof -
  have "Len ex_A = 17" by code_simp
  then show ?thesis by (simp add: msgLen_None msg_size_def ex_reply_def sum_list_replicate map_replicate)
qed

lemma ex_reply_fixed:
  "popEdns0 ex_reply = Ok (ex_reply\<lparr>Msg_Extra := []\<rparr>, Some (case ex_OPT of RR_OPT o1 \<Rightarrow> o1))"
  "headerSize + sum_list (map q_size (Msg_Question ex_reply)) + opt_size (Some (case ex_OPT of RR_OPT o1 \<Rightarrow> o1)) \<le> 100"
  by code_simp+

subsection \<open>The properties\<close>

text \<open>
  C16: \<^verbatim>\<open>Truncate\<close> on a message that is too long without compression and has no TSIG record
  sets the OPT record aside, keeps the longest prefix of the remaining records whose length with
  compression fits together with the OPT record, in the order answer, authority, additional, and puts the
  OPT record back at the end; the TC bit is set when a record was dropped and left as it is otherwise, and
  nothing else changes but that compression is turned on.
\<close>

theorem Truncate_keeps_longest_prefix:
  assumes "msg_typed dns" and "IsTsig dns = Ok None" and "max MinMsgSize sz < int (msgLenWithCompressionMap dns None)"
  shows "\<exists>E opt K. popEdns0 dns = Ok (dns\<lparr>Msg_Extra := E\<rparr>, opt) \<and> Truncate sz dns = Ok (cut K E opt dns) \<and>
    K \<le> length (Msg_Answer dns @ Msg_Ns dns @ E) \<and>
    (K = 0 \<or> int (fst (cut_len K E dns) + opt_size opt) \<le> max MinMsgSize sz) \<and>
    (K = length (Msg_Answer dns @ Msg_Ns dns @ E) \<or> max MinMsgSize sz < int (fst (cut_len (Suc K) E dns) + opt_size opt))"
proof -
  have "list_all rec_ok (Msg_Extra dns)" using assms(1) by (simp add: msg_typed_def)
  then obtain E opt where E: "popEdns0 dns = Ok (dns\<lparr>Msg_Extra := E\<rparr>, opt)" "set E \<subseteq> set (Msg_Extra dns)"
    "\<And>d. Msg_Extra d = Msg_Extra dns \<Longrightarrow> popEdns0 d = Ok (d\<lparr>Msg_Extra := E\<rparr>, opt)"
    by (rule popEdns0_cases) (rule that)
  show ?thesis
    by (rule Truncate_cut [OF assms E(3,2)]) (use E(1) in \<open>auto intro!: exI [of _ E] exI [of _ opt]\<close>)
qed

theorem Truncate_keeps_longest_prefix_witness:
  "\<exists>E opt K. popEdns0 ex_reply = Ok (ex_reply\<lparr>Msg_Extra := E\<rparr>, opt) \<and> Truncate 600 ex_reply = Ok (cut K E opt ex_reply) \<and>
    K \<le> length (Msg_Answer ex_reply @ Msg_Ns ex_reply @ E) \<and>
    (K = 0 \<or> int (fst (cut_len K E ex_reply) + opt_size opt) \<le> max MinMsgSize 600) \<and>
    (K = length (Msg_Answer ex_reply @ Msg_Ns ex_reply @ E) \<or> max MinMsgSize 600 < int (fst (cut_len (Suc K) E ex_reply) + opt_size opt))"
  using Truncate_keeps_longest_prefix [OF ex_reply_typed ex_reply_no_tsig ex_reply_long] .

text \<open>
  C15: A reply that went through \<^verbatim>\<open>Truncate\<close> packs into the buffer size that was asked for, or into
  512 octets if that is more: if the message is well formed, has no TSIG record, and its header, questions
  and OPT record alone are not too long.
\<close>

theorem truncated_reply_fits:
  assumes "msg_ok dns" and "IsTsig dns = Ok None" and "popEdns0 dns = Ok (d, opt)"
    and "int (headerSize + sum_list (map q_size (Msg_Question dns)) + opt_size opt) \<le> max MinMsgSize sz"
  shows "\<exists>dns' dns1 b. Truncate sz dns = Ok dns' \<and> PackBuffer dns' buf = (dns1, Ok b) \<and> int (length b) \<le> max MinMsgSize sz"
proof (cases "int (msgLenWithCompressionMap dns None) \<le> max MinMsgSize sz")
  case True
  let ?d = "dns\<lparr>Msg_Compress := False\<rparr>"
  have T: "Truncate sz dns = Ok ?d" using assms(2) True by (auto simp: Truncate_def max_def split: if_splits)
  have ok: "msg_ok ?d" using assms(1) by (simp add: msg_ok_def sections_ok_def)
  obtain dns1 b where P: "PackBuffer ?d buf = (dns1, Ok b)" using message_packs [OF ok] by blast
  have "msgLenWithCompressionMap ?d None = msgLenWithCompressionMap dns None" by (simp add: msgLenWithCompressionMap_def)
  then have "int (length b) \<le> max MinMsgSize sz" using Msg_Len_bound [OF ok P] True by (simp add: Msg_Len_def)
  with T P show ?thesis by blast
next
  case False
  have s: "sections_ok dns" using assms(1) by (simp add: msg_ok_def)
  have typed: "msg_typed dns"
    using s by (auto simp: msg_typed_def sections_ok_def list_all_iff intro: rr_fits_rec_ok)
  have "list_all rec_ok (Msg_Extra dns)" using s by (rule sections_rec_ok)
  then obtain E opt' where E: "popEdns0 dns = Ok (dns\<lparr>Msg_Extra := E\<rparr>, opt')" "set E \<subseteq> set (Msg_Extra dns)" "length E \<le> length (Msg_Extra dns)"
    "\<And>d. Msg_Extra d = Msg_Extra dns \<Longrightarrow> popEdns0 d = Ok (d\<lparr>Msg_Extra := E\<rparr>, opt')"
    "case opt' of None \<Rightarrow> E = Msg_Extra dns | Some o1 \<Rightarrow> Some (RR_OPT o1) \<in> set (Msg_Extra dns) \<and> length E < length (Msg_Extra dns)"
    "list_ex is_OPT (Msg_Extra dns) \<Longrightarrow> opt' \<noteq> None"
    by (rule popEdns0_cases) (rule that)
  have opt: "opt' = opt" using E(1) assms(3) by simp
  have big: "max MinMsgSize sz < int (msgLenWithCompressionMap dns None)" using False by linarith
  obtain K where K: "Truncate sz dns = Ok (cut K E opt dns)" "K = 0 \<or> int (fst (cut_len K E dns) + opt_size opt) \<le> max MinMsgSize sz"
    by (rule Truncate_cut [OF typed assms(2) big E(4,2) [unfolded opt]]) (assumption, rule that)
  have ok: "msg_ok (cut K E opt dns)" using cut_msg_ok [OF assms(1) E(2,3,5,6)] opt by simp
  obtain dns1 b where P: "PackBuffer (cut K E opt dns) buf = (dns1, Ok b)" using message_packs [OF ok] by blast
  have "ok_name (Hdr_Name (OPT_Hdr o1))" if "opt = Some o1" for o1
    using E(5) s that opt by (auto simp: sections_ok_def list_all_iff rr_fits_def rr_ok_def)
  from cut_Len [OF _ this K(2) assms(4)] s have "int (Msg_Len (cut K E opt dns)) \<le> max MinMsgSize sz"
    by (simp add: sections_ok_def)
  with Msg_Len_bound [OF ok P] have "int (length b) \<le> max MinMsgSize sz" by linarith
  with K(1) P show ?thesis by blast
qed

theorem truncated_reply_fits_witness:
  "\<exists>dns' dns1 b. Truncate 600 ex_reply = Ok dns' \<and> PackBuffer dns' [] = (dns1, Ok b) \<and> int (length b) \<le> max MinMsgSize 600"
  by (rule truncated_reply_fits [OF ex_reply_ok ex_reply_no_tsig ex_reply_fixed(1)]) (use ex_reply_fixed(2) in simp)

end
