(* ===== verification/Message_Body.thy ===== *)
theory Message_Body
  imports Message_Len
begin

section \<open>The body of a message does not depend on its header\<close>

text \<open>
  Signing and stripping a signature change the identifier and the count of additional records in octets
  that are already packed. \<open>emits n P\<close> says that a packer writes an encoding of at most \<open>n\<close> octets,
  which depends on the offset and the compression map but not on the buffer; the sections of a message do
  so, and they read back after any header.
\<close>

definition emits :: "nat \<Rightarrow> packer \<Rightarrow> bool" where
  "emits n P \<longleftrightarrow> (\<forall>off cm. cm_nonneg cm \<longrightarrow> (\<exists>e cm'. cm_nonneg cm' \<and> length e \<le> n \<and>
     (\<forall>msg. off + n < length msg \<longrightarrow> P msg off cm = Ok (put msg off e, cm', off + length e))))"

lemma emitsE:
  assumes "emits n P" and "cm_nonneg cm"
  obtains e cm' where "cm_nonneg cm'" and "length e \<le> n"
    and "\<And>msg. off + n < length msg \<Longrightarrow> P msg off cm = Ok (put msg off e, cm', off + length e)"
  using assms unfolding emits_def by blast

lemma writes_emits:
  assumes "writes n P"
  shows "emits n P"
  unfolding emits_def
proof (intro allI impI)
  fix off cm
  assume "cm_nonneg cm"
  then obtain e cm' where "writes_as e cm' n P off cm" using assms unfolding writes_def by blast
  note W = writes_asD [OF this]
  have "P msg off cm = Ok (put msg off e, cm', off + length e)" if "off + n < length msg" for msg
    using W(4) [OF that] W(3) by blast
  with W(1,2) show "\<exists>e cm'. cm_nonneg cm' \<and> length e \<le> n \<and>
      (\<forall>msg. off + n < length msg \<longrightarrow> P msg off cm = Ok (put msg off e, cm', off + length e))" by blast
qed

lemma emits_bind:
  assumes F: "emits k F" and P: "emits n P"
  shows "emits (k + n) (\<lambda>msg off cm. bindR (F msg off cm) (\<lambda>(msg, cm, off). P msg off cm))"
  unfolding emits_def
proof (intro allI impI)
  fix off cm
  assume "cm_nonneg cm"
  then obtain e1 c1 where 1: "cm_nonneg c1" "length e1 \<le> k"
    "\<And>msg. off + k < length msg \<Longrightarrow> F msg off cm = Ok (put msg off e1, c1, off + length e1)"
    by (rule emitsE [OF F]) (rule that)
  obtain e2 c2 where 2: "cm_nonneg c2" "length e2 \<le> n"
    "\<And>msg. off + length e1 + n < length msg \<Longrightarrow> P msg (off + length e1) c1 = Ok (put msg (off + length e1) e2, c2, off + length e1 + length e2)"
    by (rule emitsE [OF P 1(1)]) (rule that)
  have "bindR (F msg off cm) (\<lambda>(msg, cm, off). P msg off cm) = Ok (put msg off (e1 @ e2), c2, off + length (e1 @ e2))"
    if "off + (k + n) < length msg" for msg
    using 1(3) [of msg] 2(3) [of "put msg off e1"] that 1(2) 2(2) by (simp add: put_put_at)
  then show "\<exists>e cm'. cm_nonneg cm' \<and> length e \<le> k + n \<and>
      (\<forall>msg. off + (k + n) < length msg \<longrightarrow>
        bindR (F msg off cm) (\<lambda>(msg, cm, off). P msg off cm) = Ok (put msg off e, cm', off + length e))"
    using 1(2) 2(1,2) by (intro exI [of _ "e1 @ e2"] exI [of _ c2]) auto
qed

lemma emits_end: "emits 0 (\<lambda>msg off cm. Ok (msg, cm, off))"
  by (rule writes_emits [OF writes_end])

subsection \<open>Questions and records\<close>

lemma Question_emits: "ok_name (Q_Name q) \<Longrightarrow> emits (q_size q) (\<lambda>msg off cm. Question_pack q msg off cm compress)"
  unfolding Question_pack_def q_size_def
  by (rule writes_emits, rule writes_le, rule writes_name_step [rotated], (rule writes_u16)+, rule writes_end) simp_all

lemma pack_questions_emits:
  "list_all (\<lambda>q. ok_name (Q_Name q)) qs \<Longrightarrow>
   emits (sum_list (map q_size qs)) (\<lambda>msg off cm. pack_questions qs msg off cm compress)"
proof (induction qs)
  case (Cons q qs)
  then show ?case using emits_bind [OF Question_emits [of q compress] Cons.IH] by simp
qed (simp add: emits_end)

lemma packUint32_eq: "off + 4 \<le> length msg \<Longrightarrow> packUint32 v msg off = Ok (put msg off (be32 v), off + 4)"
  by (simp add: packUint32_def)

lemma packHeader_eq:
  assumes "packDomainName (Hdr_Name h) msg off cm compress = Ok (put msg off e, c, off + length e)"
    and "off + length e + 10 \<le> length msg" and "off < length msg"
  shows "packHeader h msg off cm compress = Ok (put msg off (e @ hdr_tail h 0), c, off + length e + 10)"
  using assms unfolding packHeader_def hdr_tail_def
  by (simp add: packUint16_eq packUint32_eq put_put_at add.assoc del: add_2_eq_Suc add_2_eq_Suc')

text \<open>The length of the data goes into the last two octets of the header.\<close>

lemma put_rdlength:
  assumes "off + length e1 + 10 + length e2 \<le> length msg"
  shows "put (put msg off (e1 @ hdr_tail h 0 @ e2)) (off + length e1 + 8) (be16 n) = put msg off (e1 @ hdr_tail h n @ e2)"
  using assms by (simp add: put_def hdr_tail_def)

lemma packRR_eq:
  assumes "packHeader (rr_Header rr) msg off cm compress = Ok (put msg off (e1 @ hdr_tail (rr_Header rr) 0), c1, off + length e1 + 10)"
    and "rr_pack rr (put msg off (e1 @ hdr_tail (rr_Header rr) 0)) (off + length e1 + 10) c1 compress =
      Ok (put (put msg off (e1 @ hdr_tail (rr_Header rr) 0)) (off + length e1 + 10) e2, c2, off + length e1 + 10 + length e2)"
    and "off + length e1 + 10 + length e2 \<le> length msg" and "length e2 < 65536"
  shows "packRR (Some rr) msg off cm compress =
    Ok (put msg off (e1 @ hdr_tail (rr_Header rr) (of_nat (length e2)) @ e2), c2, off + length e1 + 10, off + length e1 + 10 + length e2)"
proof -
  let ?h = "rr_Header rr"
  have n: "unat (of_nat (length e2) :: u16) = length e2" using assms(4) by (simp add: unat_of_nat)
  have m: "put (put msg off (e1 @ hdr_tail ?h 0)) (off + length e1 + 10) e2 = put msg off (e1 @ hdr_tail ?h 0 @ e2)"
    using put_put_at [of "off + length e1 + 10" off "e1 @ hdr_tail ?h 0" e2 msg] assms(3) by simp
  have w: "(write_at (put msg off (e1 @ hdr_tail ?h 0 @ e2)) (off + length e1 + 8) (be16 (of_nat (length e2))) :: bytes off_res) =
    Ok (put msg off (e1 @ hdr_tail ?h (of_nat (length e2)) @ e2))"
    using assms(3) put_rdlength [OF assms(3)] by (simp add: write_at_def)
  show ?thesis using assms(1,2) n w [unfolded add.commute [of _ 8]] unfolding m by (simp add: packRR_def Let_def)
qed

lemma packRR_emits:
  assumes "rr_ok rr" and "rd_size rr < 65536"
  shows "emits (Len rr) (\<lambda>msg off cm. bindR (packRR (Some rr) msg off cm compress) (\<lambda>(msg, cm, _, off). Ok (msg, cm, off)))"
  unfolding emits_def
proof (intro allI impI)
  fix off cm
  assume cm: "cm_nonneg cm"
  let ?h = "rr_Header rr" and ?k = "name_len (Hdr_Name (rr_Header rr))"
  have ok: "ok_name (Hdr_Name ?h)" "rdata_ok rr" using assms(1) by (auto simp: rr_ok_def)
  have L: "Len rr = ?k + 10 + rd_size rr" using rr_len_None [of rr 0] by (simp add: Len_def)
  obtain e1 c1 where 1: "cm_nonneg c1" "length e1 \<le> ?k"
    "\<And>msg. off + ?k < length msg \<Longrightarrow> packDomainName (Hdr_Name ?h) msg off cm compress = Ok (put msg off e1, c1, off + length e1)"
    by (rule emitsE [OF writes_emits [OF writes_name [OF ok(1) order_refl]] cm]) (rule that)
  obtain e2 c2 where 2: "cm_nonneg c2" "length e2 \<le> rd_size rr"
    "\<And>msg. off + length e1 + 10 + rd_size rr < length msg \<Longrightarrow> rr_pack rr msg (off + length e1 + 10) c1 compress =
      Ok (put msg (off + length e1 + 10) e2, c2, off + length e1 + 10 + length e2)"
    by (rule emitsE [OF writes_emits [OF rsize.pack_writes [OF ok(2)]] 1(1)]) (rule that)
  let ?e = "e1 @ hdr_tail ?h (of_nat (length e2)) @ e2"
  have "packRR (Some rr) msg off cm compress = Ok (put msg off ?e, c2, off + length e1 + 10, off + length e1 + 10 + length e2)"
    if "off + Len rr < length msg" for msg
  proof (intro packRR_eq packHeader_eq)
    show "rr_pack rr (put msg off (e1 @ hdr_tail ?h 0)) (off + length e1 + 10) c1 compress =
        Ok (put (put msg off (e1 @ hdr_tail ?h 0)) (off + length e1 + 10) e2, c2, off + length e1 + 10 + length e2)"
      using 1(2) that L by (intro 2(3)) simp
  qed (use 1 2 that L assms(2) in simp_all)
  then show "\<exists>e cm'. cm_nonneg cm' \<and> length e \<le> Len rr \<and> (\<forall>msg. off + Len rr < length msg \<longrightarrow>
      bindR (packRR (Some rr) msg off cm compress) (\<lambda>(msg, cm, _, off). Ok (msg, cm, off)) = Ok (put msg off e, cm', off + length e))"
    using 1(2) 2(1,2) L by (intro exI [of _ ?e] exI [of _ c2]) (simp add: add.assoc)
qed

lemma pack_rrs_emits:
  "list_all rr_fits rs \<Longrightarrow> emits (sum_list (map rr_size rs)) (\<lambda>msg off cm. pack_rrs rs msg off cm compress)"
proof (induction rs)
  case (Cons r rs)
  then obtain rr where r: "r = Some rr" "rr_ok rr" "rd_size rr < 65536" by (auto simp: rr_fits_def split: option.splits)
  have "bindR (bindR (packRR r msg off cm compress) (\<lambda>(msg, cm, _, off). Ok (msg, cm, off))) (\<lambda>(msg, cm, off). pack_rrs rs msg off cm compress) =
      pack_rrs (r # rs) msg off cm compress" for msg off cm
    by (simp add: bindR_assoc split_def)
  with emits_bind [OF packRR_emits [OF r(2,3), of compress] Cons.IH] Cons.prems r show ?case by simp
qed (simp add: emits_end)

subsection \<open>The body\<close>

definition pack_body :: "Msg \<Rightarrow> bool \<Rightarrow> packer" where
  "pack_body dns compress msg off cm =
     bindR (pack_questions (Msg_Question dns) msg off cm compress) (\<lambda>(msg, cm, off).
     bindR (pack_rrs (Msg_Answer dns) msg off cm compress) (\<lambda>(msg, cm, off).
     bindR (pack_rrs (Msg_Ns dns) msg off cm compress) (\<lambda>(msg, cm, off).
     pack_rrs (Msg_Extra dns) msg off cm compress)))"

lemma pack_body_emits:
  assumes "sections_ok dns"
  shows "emits (msg_size dns - headerSize) (pack_body dns compress)"
proof -
  have "emits (sum_list (map q_size (Msg_Question dns)) + (sum_list (map rr_size (Msg_Answer dns)) +
      (sum_list (map rr_size (Msg_Ns dns)) + sum_list (map rr_size (Msg_Extra dns))))) (\<lambda>msg off cm. pack_body dns compress msg off cm)"
    unfolding pack_body_def
    using assms unfolding sections_ok_def
    by (intro emits_bind pack_questions_emits pack_rrs_emits) auto
  then show ?thesis by (simp add: msg_size_def add.assoc)
qed

text \<open>What \<open>stripTsig\<close> and the server see of a message: the sections, wherever they end.\<close>

definition body_reads :: "Msg \<Rightarrow> bytes \<Rightarrow> nat \<Rightarrow> bool" where
  "body_reads dns M end \<longleftrightarrow> (\<exists>o2 o3 o4 an ns ar.
     unpack_questions (length (Msg_Question dns)) M 12 [] = (Msg_Question dns, Ok o2) \<and>
     unpackRRslice (length (Msg_Answer dns)) M o2 = Ok (an, o3) \<and>
     unpackRRslice (length (Msg_Ns dns)) M o3 = Ok (ns, o4) \<and>
     unpackRRslice (length (Msg_Extra dns)) M o4 = Ok (ar, end) \<and>
     map (\<lambda>rr. Some (norm_rr rr)) an = map (map_option norm_rr) (Msg_Answer dns) \<and>
     map (\<lambda>rr. Some (norm_rr rr)) ns = map (map_option norm_rr) (Msg_Ns dns) \<and>
     map (\<lambda>rr. Some (norm_rr rr)) ar = map (map_option norm_rr) (Msg_Extra dns))"

lemma pack_body_reads:
  assumes ok: "sections_ok dns" and cm: "cm_sound cm (take 12 m1)" and tot: "msg_size dns < length m1"
    and p: "pack_body dns compress m1 12 cm = Ok (m5, c5, o5)"
    and M: "agree M m5 o5"
  shows "body_reads dns M o5"
proof -
  let ?Q = "sum_list (map q_size (Msg_Question dns))" and ?A = "sum_list (map rr_size (Msg_Answer dns))"
    and ?N = "sum_list (map rr_size (Msg_Ns dns))" and ?E = "sum_list (map rr_size (Msg_Extra dns))"
  have tot: "12 + ?Q + ?A + ?N + ?E < length m1" using tot by (simp add: msg_size_def)
  obtain m2 c2 o2 where 2: "pack_questions (Msg_Question dns) m1 12 cm compress = Ok (m2, c2, o2)" "extends m1 12 m2 o2"
    "cm_sound c2 (take o2 m2)" "o2 \<le> 12 + ?Q"
    "\<And>M. agree M m2 o2 \<Longrightarrow> unpack_questions (length (Msg_Question dns)) M 12 [] = (Msg_Question dns, Ok o2)"
    using pack_questions_ok [of "Msg_Question dns" cm 12 m1 compress] ok cm tot by (auto simp: sections_ok_def)
  obtain m3 c3 o3 an where 3: "pack_rrs (Msg_Answer dns) m2 o2 c2 compress = Ok (m3, c3, o3)" "extends m2 o2 m3 o3"
    "cm_sound c3 (take o3 m3)" "o3 \<le> o2 + ?A" "map (\<lambda>rr. Some (norm_rr rr)) an = map (map_option norm_rr) (Msg_Answer dns)"
    "\<And>M. agree M m3 o3 \<Longrightarrow> unpackRRslice (length (Msg_Answer dns)) M o2 = Ok (an, o3)"
    using pack_rrs_ok [of "Msg_Answer dns" c2 o2 m2 compress] ok 2(2-4) tot by (auto simp: sections_ok_def extends_def unpackRRslice_def)
  obtain m4 c4 o4 ns where 4: "pack_rrs (Msg_Ns dns) m3 o3 c3 compress = Ok (m4, c4, o4)" "extends m3 o3 m4 o4"
    "cm_sound c4 (take o4 m4)" "o4 \<le> o3 + ?N" "map (\<lambda>rr. Some (norm_rr rr)) ns = map (map_option norm_rr) (Msg_Ns dns)"
    "\<And>M. agree M m4 o4 \<Longrightarrow> unpackRRslice (length (Msg_Ns dns)) M o3 = Ok (ns, o4)"
    using pack_rrs_ok [of "Msg_Ns dns" c3 o3 m3 compress] ok 2(2,4) 3(2-4) tot by (auto simp: sections_ok_def extends_def unpackRRslice_def)
  obtain ar where 5: "extends m4 o4 m5 o5" "map (\<lambda>rr. Some (norm_rr rr)) ar = map (map_option norm_rr) (Msg_Extra dns)"
    "\<And>M. agree M m5 o5 \<Longrightarrow> unpackRRslice (length (Msg_Extra dns)) M o4 = Ok (ar, o5)"
    using pack_rrs_ok [of "Msg_Extra dns" c4 o4 m4 compress] ok 2(2,4) 3(2,4) 4(2-4) tot p 2(1) 3(1) 4(1)
    by (auto simp: sections_ok_def extends_def unpackRRslice_def pack_body_def)
  have A4: "agree M m4 o4" using M 5(1) by (rule agree_extends)
  have A3: "agree M m3 o3" using A4 4(2) by (rule agree_extends)
  have A2: "agree M m2 o2" using A3 3(2) by (rule agree_extends)
  show ?thesis unfolding body_reads_def
    using 2(5) [OF A2] 3(6) [OF A3] 4(6) [OF A4] 5(3) [OF M] 3(5) 4(5) 5(2) by blast
qed

text \<open>The octets of the sections: packed behind any header of twelve octets, and read back from there.\<close>

lemma sections_body:
  assumes ok: "sections_ok dns" and cm: "\<And>Q. cm_sound cm Q"
  obtains body where "\<And>buf. pack_sections dns buf cm compress = Ok (enc_header (wire_header dns) @ body)"
    and "\<And>dh r. body_reads dns (enc_header dh @ body @ r) (12 + length body)"
proof -
  have n: "cm_nonneg cm" using cm_sound_nonneg [OF cm] .
  obtain body c5 where B: "length body \<le> msg_size dns - 12"
    "\<And>msg. 12 + (msg_size dns - 12) < length msg \<Longrightarrow> pack_body dns compress msg 12 cm = Ok (put msg 12 body, c5, 12 + length body)"
    using emitsE [OF pack_body_emits [OF ok] n, of 12 compress] by metis
  have sz: "12 \<le> msg_size dns" by (simp add: msg_size_def)
  have put0: "put (put m 0 (enc_header dh)) 12 body = put m 0 (enc_header dh @ body)" if "msg_size dns < length m" for m dh
    using put_put_at [of 12 0 "enc_header dh" body m] that B(1) sz by simp
  have len: "12 + length body \<le> length m" if "msg_size dns < length m" for m :: bytes using that B(1) sz by simp
  have P: "pack_sections dns buf cm compress = Ok (enc_header (wire_header dns) @ body)" for buf
  proof -
    define m0 where "m0 = (if length buf < msg_size dns + 1 then replicate (msg_size dns + 1) 0 else buf)"
    have l0: "msg_size dns < length m0" by (simp add: m0_def)
    then have h: "Header_pack (wire_header dns) m0 0 = Ok (put m0 0 (enc_header (wire_header dns)), 12)"
      using Header_pack_eq [of 0 m0 "wire_header dns"] sz by simp
    have p: "pack_body dns compress (put m0 0 (enc_header (wire_header dns))) 12 cm =
      Ok (put m0 0 (enc_header (wire_header dns) @ body), c5, 12 + length body)"
      using B(2) [of "put m0 0 (enc_header (wire_header dns))"] put0 [OF l0] l0 sz by simp
    have "(go_slice (put m0 0 (enc_header (wire_header dns) @ body)) 0 (12 + length body) :: bytes off_res) = Ok (enc_header (wire_header dns) @ body)"
      using take_put_end [of 0 "enc_header (wire_header dns) @ body" m0] len [OF l0] by (simp add: go_slice_def)
    moreover have "pack_sections dns buf cm compress = mapErr snd (bindR (Header_pack (wire_header dns) m0 0) (\<lambda>(msg, off).
        bindR (pack_body dns compress msg off cm) (\<lambda>(msg, cm, off). go_slice msg 0 off)))"
      unfolding pack_sections_def Let_def msgLen_None m0_def [symmetric] pack_body_def by (simp add: bindR_assoc split_def)
    ultimately show ?thesis using h p by simp
  qed
  have R: "body_reads dns (enc_header dh @ body @ r) (12 + length body)" for dh r
  proof -
    define m0 :: bytes where "m0 = replicate (msg_size dns + 1) 0"
    have l0: "msg_size dns < length m0" by (simp add: m0_def)
    have p: "pack_body dns compress (put m0 0 (enc_header dh)) 12 cm = Ok (put m0 0 (enc_header dh @ body), c5, 12 + length body)"
      using B(2) [of "put m0 0 (enc_header dh)"] put0 [OF l0] l0 sz by simp
    have "agree (enc_header dh @ body @ r) (put m0 0 (enc_header dh @ body)) (12 + length body)"
      using take_put_end [of 0 "enc_header dh @ body" m0] len [OF l0] by (simp add: agree_def)
    from pack_body_reads [OF ok cm _ p this] l0 sz show ?thesis by simp
  qed
  show ?thesis using that P R by blast
qed

lemma Pack_body:
  assumes "msg_ok dns"
  obtains dns1 body where "Pack dns = (dns1, Ok (enc_header (wire_header dns1) @ body))" and "sections_ok dns1"
    and "length (Msg_Extra dns1) = length (Msg_Extra dns)" and "no_ext_rcodes dns1 = no_ext_rcodes dns"
    and "\<And>dh r. body_reads dns1 (enc_header dh @ body @ r) (12 + length body)"
proof -
  obtain dns1 b where P: "PackBuffer dns [] = (dns1, Ok b)" and n: "no_ext_rcodes dns1 = no_ext_rcodes dns"
    using PackBuffer_reads_back [OF assms, of "[]"] by blast
  obtain cm compress where p: "pack_sections dns1 [] cm compress = Ok b" "sections_ok dns1"
    and c: "if Msg_Compress dns \<and> isCompressible dns then cm = new_compression \<and> compress else cm = no_compression \<and> \<not> compress"
    by (rule PackBuffer_sections [OF assms P], rule that)
  have cm: "cm_sound cm Q" for Q using c cm_sound_new cm_sound_none by (auto split: if_splits)
  obtain body where "\<And>buf. pack_sections dns1 buf cm compress = Ok (enc_header (wire_header dns1) @ body)"
    "\<And>dh r. body_reads dns1 (enc_header dh @ body @ r) (12 + length body)"
    by (rule sections_body [OF p(2) cm, of compress]) (rule that)
  moreover have "length (Msg_Extra dns1) = length (Msg_Extra dns)"
    using arg_cong [OF n, of "\<lambda>m. length (Msg_Extra m)"] by (simp add: no_ext_rcodes_def)
  moreover from P p(1) calculation(1) have "Pack dns = (dns1, Ok (enc_header (wire_header dns1) @ body))" by (simp add: Pack_def)
  ultimately show ?thesis using that [OF _ p(2) _ n] by blast
qed

end
