(* ===== verification/Sha_Hmac.thy ===== *)
theory Sha_Hmac
  imports Dns_Prelude
begin

section \<open>The hash functions of TSIG\<close>

text \<open>
  What \<^verbatim>\<open>tsig.go\<close> uses of Go's \<^verbatim>\<open>crypto/sha1\<close>, \<^verbatim>\<open>crypto/sha256\<close>,
  \<^verbatim>\<open>crypto/sha512\<close> (FIPS 180-4) and \<^verbatim>\<open>crypto/hmac\<close> (RFC 2104). The functions are
  executable; the standard test vector of SHA-256 is evaluated at the end.
\<close>

subsection \<open>Padding and blocks\<close>

text \<open>
  A message is padded with the bit 1, with zeros, and with its length in bits in \<open>lenOctets\<close> octets, to a
  multiple of the block size.
\<close>

definition sha_pad :: "nat \<Rightarrow> nat \<Rightarrow> bytes \<Rightarrow> bytes" where
  "sha_pad block lenOctets msg =
     (let n = length msg; z = (2 * block - 1 - lenOctets - n mod block) mod block in
      msg @ [0x80] @ replicate z 0 @ replicate (lenOctets - 8) 0 @ be64 (of_nat (8 * n)))"

fun chunks_aux :: "nat \<Rightarrow> nat \<Rightarrow> 'a list \<Rightarrow> 'a list list" where
  "chunks_aux 0 n xs = []"
| "chunks_aux (Suc k) n xs = take n xs # chunks_aux k n (drop n xs)"

definition chunks :: "nat \<Rightarrow> 'a list \<Rightarrow> 'a list list" where
  "chunks n xs = chunks_aux (length xs div n) n xs"

subsection \<open>SHA-1\<close>

text \<open>A rotation to the left by \<open>k\<close> is written as one to the right by \<open>32 - k\<close>.\<close>

fun sha1_schedule :: "nat \<Rightarrow> u32 list \<Rightarrow> u32 list" where
  "sha1_schedule 0 r = rev r"
| "sha1_schedule (Suc k) r = sha1_schedule k (word_rotr 31 (r ! 2 XOR r ! 7 XOR r ! 13 XOR r ! 15) # r)"

fun sha1_rounds :: "nat \<Rightarrow> u32 list \<Rightarrow> u32 \<times> u32 \<times> u32 \<times> u32 \<times> u32 \<Rightarrow> u32 \<times> u32 \<times> u32 \<times> u32 \<times> u32" where
  "sha1_rounds t [] s = s"
| "sha1_rounds t (w # ws) (a, b, c, d, e) =
     (let (f, k) = (if t < 20 then ((b AND c) OR (NOT b AND d), 0x5A827999)
                    else if t < 40 then (b XOR c XOR d, 0x6ED9EBA1)
                    else if t < 60 then ((b AND c) OR (b AND d) OR (c AND d), 0x8F1BBCDC)
                    else (b XOR c XOR d, 0xCA62C1D6)) in
      sha1_rounds (Suc t) ws (word_rotr 27 a + f + e + k + w, a, word_rotr 2 b, c, d))"

definition sha1_block :: "u32 \<times> u32 \<times> u32 \<times> u32 \<times> u32 \<Rightarrow> bytes \<Rightarrow> u32 \<times> u32 \<times> u32 \<times> u32 \<times> u32" where
  "sha1_block = (\<lambda>(h0, h1, h2, h3, h4) bs.
     let (a, b, c, d, e) = sha1_rounds 0 (sha1_schedule 64 (rev (map be_word (chunks 4 bs)))) (h0, h1, h2, h3, h4) in
     (h0 + a, h1 + b, h2 + c, h3 + d, h4 + e))"

definition sha1 :: "bytes \<Rightarrow> bytes" where
  "sha1 msg =
     (let (h0, h1, h2, h3, h4) = foldl sha1_block (0x67452301, 0xEFCDAB89, 0x98BADCFE, 0x10325476, 0xC3D2E1F0)
        (chunks 64 (sha_pad 64 8 msg)) in
      be32 h0 @ be32 h1 @ be32 h2 @ be32 h3 @ be32 h4)"

subsection \<open>SHA-2\<close>

text \<open>
  SHA-256 and SHA-512 are the same functions on words of 32 and 64 bits, with their own rotations and
  constants. A state is a list of eight words.
\<close>

definition sha2_sigma :: "nat \<Rightarrow> nat \<Rightarrow> nat \<Rightarrow> 'w::len word \<Rightarrow> 'w word" where
  "sha2_sigma r1 r2 s x = word_rotr r1 x XOR word_rotr r2 x XOR drop_bit s x"

definition sha2_Sigma :: "nat \<Rightarrow> nat \<Rightarrow> nat \<Rightarrow> 'w::len word \<Rightarrow> 'w word" where
  "sha2_Sigma r1 r2 r3 x = word_rotr r1 x XOR word_rotr r2 x XOR word_rotr r3 x"

fun sha2_schedule :: "('w word \<Rightarrow> 'w word) \<Rightarrow> ('w word \<Rightarrow> 'w word) \<Rightarrow> nat \<Rightarrow> 'w::len word list \<Rightarrow> 'w word list" where
  "sha2_schedule s0 s1 0 r = rev r"
| "sha2_schedule s0 s1 (Suc k) r = sha2_schedule s0 s1 k ((s1 (r ! 1) + r ! 6 + s0 (r ! 14) + r ! 15) # r)"

fun sha2_rounds ::
  "('w word \<Rightarrow> 'w word) \<Rightarrow> ('w word \<Rightarrow> 'w word) \<Rightarrow> ('w::len word \<times> 'w word) list \<Rightarrow> 'w word list \<Rightarrow> 'w word list" where
  "sha2_rounds S0 S1 ((k, w) # kws) [a, b, c, d, e, f, g, h] =
     (let t1 = h + S1 e + ((e AND f) XOR (NOT e AND g)) + k + w;
          t2 = S0 a + ((a AND b) XOR (a AND c) XOR (b AND c)) in
      sha2_rounds S0 S1 kws [t1 + t2, a, b, c, d + t1, e, f, g])"
| "sha2_rounds S0 S1 kws st = st"

definition K256 :: "u32 list" where
  "K256 =
    [0x428A2F98, 0x71374491, 0xB5C0FBCF, 0xE9B5DBA5, 0x3956C25B, 0x59F111F1, 0x923F82A4, 0xAB1C5ED5,
     0xD807AA98, 0x12835B01, 0x243185BE, 0x550C7DC3, 0x72BE5D74, 0x80DEB1FE, 0x9BDC06A7, 0xC19BF174,
     0xE49B69C1, 0xEFBE4786, 0xFC19DC6, 0x240CA1CC, 0x2DE92C6F, 0x4A7484AA, 0x5CB0A9DC, 0x76F988DA,
     0x983E5152, 0xA831C66D, 0xB00327C8, 0xBF597FC7, 0xC6E00BF3, 0xD5A79147, 0x6CA6351, 0x14292967,
     0x27B70A85, 0x2E1B2138, 0x4D2C6DFC, 0x53380D13, 0x650A7354, 0x766A0ABB, 0x81C2C92E, 0x92722C85,
     0xA2BFE8A1, 0xA81A664B, 0xC24B8B70, 0xC76C51A3, 0xD192E819, 0xD6990624, 0xF40E3585, 0x106AA070,
     0x19A4C116, 0x1E376C08, 0x2748774C, 0x34B0BCB5, 0x391C0CB3, 0x4ED8AA4A, 0x5B9CCA4F, 0x682E6FF3,
     0x748F82EE, 0x78A5636F, 0x84C87814, 0x8CC70208, 0x90BEFFFA, 0xA4506CEB, 0xBEF9A3F7, 0xC67178F2]"

definition K512 :: "u64 list" where
  "K512 =
    [0x428A2F98D728AE22, 0x7137449123EF65CD, 0xB5C0FBCFEC4D3B2F, 0xE9B5DBA58189DBBC,
     0x3956C25BF348B538, 0x59F111F1B605D019, 0x923F82A4AF194F9B, 0xAB1C5ED5DA6D8118,
     0xD807AA98A3030242, 0x12835B0145706FBE, 0x243185BE4EE4B28C, 0x550C7DC3D5FFB4E2,
     0x72BE5D74F27B896F, 0x80DEB1FE3B1696B1, 0x9BDC06A725C71235, 0xC19BF174CF692694,
     0xE49B69C19EF14AD2, 0xEFBE4786384F25E3, 0xFC19DC68B8CD5B5, 0x240CA1CC77AC9C65,
     0x2DE92C6F592B0275, 0x4A7484AA6EA6E483, 0x5CB0A9DCBD41FBD4, 0x76F988DA831153B5,
     0x983E5152EE66DFAB, 0xA831C66D2DB43210, 0xB00327C898FB213F, 0xBF597FC7BEEF0EE4,
     0xC6E00BF33DA88FC2, 0xD5A79147930AA725, 0x6CA6351E003826F, 0x142929670A0E6E70,
     0x27B70A8546D22FFC, 0x2E1B21385C26C926, 0x4D2C6DFC5AC42AED, 0x53380D139D95B3DF,
     0x650A73548BAF63DE, 0x766A0ABB3C77B2A8, 0x81C2C92E47EDAEE6, 0x92722C851482353B,
     0xA2BFE8A14CF10364, 0xA81A664BBC423001, 0xC24B8B70D0F89791, 0xC76C51A30654BE30,
     0xD192E819D6EF5218, 0xD69906245565A910, 0xF40E35855771202A, 0x106AA07032BBD1B8,
     0x19A4C116B8D2D0C8, 0x1E376C085141AB53, 0x2748774CDF8EEB99, 0x34B0BCB5E19B48A8,
     0x391C0CB3C5C95A63, 0x4ED8AA4AE3418ACB, 0x5B9CCA4F7763E373, 0x682E6FF3D6B2B8A3,
     0x748F82EE5DEFB2FC, 0x78A5636F43172F60, 0x84C87814A1F0AB72, 0x8CC702081A6439EC,
     0x90BEFFFA23631E28, 0xA4506CEBDE82BDE9, 0xBEF9A3F7B2C67915, 0xC67178F2E372532B,
     0xCA273ECEEA26619C, 0xD186B8C721C0C207, 0xEADA7DD6CDE0EB1E, 0xF57D4F7FEE6ED178,
     0x6F067AA72176FBA, 0xA637DC5A2C898A6, 0x113F9804BEF90DAE, 0x1B710B35131C471B,
     0x28DB77F523047D84, 0x32CAAB7B40C72493, 0x3C9EBE0A15C9BEBC, 0x431D67C49C100D4C,
     0x4CC5D4BECB3E42B6, 0x597F299CFC657E2A, 0x5FCB6FAB3AD6FAEC, 0x6C44198C4A475817]"

definition sha256_block :: "u32 list \<Rightarrow> bytes \<Rightarrow> u32 list" where
  "sha256_block st bs =
     (let ws = sha2_schedule (sha2_sigma 7 18 3) (sha2_sigma 17 19 10) 48 (rev (map be_word (chunks 4 bs))) in
      map2 (+) st (sha2_rounds (sha2_Sigma 2 13 22) (sha2_Sigma 6 11 25) (zip K256 ws) st))"

definition sha512_block :: "u64 list \<Rightarrow> bytes \<Rightarrow> u64 list" where
  "sha512_block st bs =
     (let ws = sha2_schedule (sha2_sigma 1 8 7) (sha2_sigma 19 61 6) 64 (rev (map be_word (chunks 8 bs))) in
      map2 (+) st (sha2_rounds (sha2_Sigma 28 34 39) (sha2_Sigma 14 18 41) (zip K512 ws) st))"

definition sha256_from :: "u32 list \<Rightarrow> bytes \<Rightarrow> bytes" where
  "sha256_from init msg = concat (map be32 (foldl sha256_block init (chunks 64 (sha_pad 64 8 msg))))"

definition sha512_from :: "u64 list \<Rightarrow> bytes \<Rightarrow> bytes" where
  "sha512_from init msg = concat (map be64 (foldl sha512_block init (chunks 128 (sha_pad 128 16 msg))))"

definition sha256 :: "bytes \<Rightarrow> bytes" where
  "sha256 = sha256_from
    [0x6A09E667, 0xBB67AE85, 0x3C6EF372, 0xA54FF53A, 0x510E527F, 0x9B05688C, 0x1F83D9AB, 0x5BE0CD19]"

definition sha224 :: "bytes \<Rightarrow> bytes" where
  "sha224 msg = take 28 (sha256_from
    [0xC1059ED8, 0x367CD507, 0x3070DD17, 0xF70E5939, 0xFFC00B31, 0x68581511, 0x64F98FA7, 0xBEFA4FA4] msg)"

definition sha512 :: "bytes \<Rightarrow> bytes" where
  "sha512 = sha512_from
    [0x6A09E667F3BCC908, 0xBB67AE8584CAA73B, 0x3C6EF372FE94F82B, 0xA54FF53A5F1D36F1,
     0x510E527FADE682D1, 0x9B05688C2B3E6C1F, 0x1F83D9ABFB41BD6B, 0x5BE0CD19137E2179]"

definition sha384 :: "bytes \<Rightarrow> bytes" where
  "sha384 msg = take 48 (sha512_from
    [0xCBBB9D5DC1059ED8, 0x629A292A367CD507, 0x9159015A3070DD17, 0x152FECD8F70E5939,
     0x67332667FFC00B31, 0x8EB44A8768581511, 0xDB0C2E0D64F98FA7, 0x47B5481DBEFA4FA4] msg)"

subsection \<open>HMAC\<close>

definition hmac :: "(bytes \<Rightarrow> bytes) \<Rightarrow> nat \<Rightarrow> bytes \<Rightarrow> bytes \<Rightarrow> bytes" where
  "hmac H block key msg =
     (let key = (if length key > block then H key else key);
          key = key @ replicate (block - length key) 0 in
      H (map (\<lambda>b. b XOR 0x5C) key @ H (map (\<lambda>b. b XOR 0x36) key @ msg)))"

subsection \<open>Lengths and test vectors\<close>

lemma length_sha2_rounds: "length (sha2_rounds S0 S1 kws st) = length st"
  by (induction S0 S1 kws st rule: sha2_rounds.induct) (simp_all add: Let_def)

lemma length_sha2_fold:
  assumes "\<And>st bs. length (B st bs) = length st"
  shows "length (foldl B init cs) = length init"
  using assms by (induction cs arbitrary: init) auto

lemma length_sha256_block: "length (sha256_block st bs) = length st"
  by (simp add: sha256_block_def Let_def length_sha2_rounds)

lemma length_sha512_block: "length (sha512_block st bs) = length st"
  by (simp add: sha512_block_def Let_def length_sha2_rounds)

lemma length_sha256_from: "length (sha256_from init msg) = 4 * length init"
  by (simp add: sha256_from_def length_concat comp_def sum_list_triv length_sha2_fold [OF length_sha256_block])

lemma length_sha512_from: "length (sha512_from init msg) = 8 * length init"
  by (simp add: sha512_from_def length_concat comp_def sum_list_triv length_sha2_fold [OF length_sha512_block])

lemma length_sha:
  "length (sha1 msg) = 20" "length (sha224 msg) = 28" "length (sha256 msg) = 32"
  "length (sha384 msg) = 48" "length (sha512 msg) = 64"
  by (simp_all add: sha1_def sha224_def sha256_def sha384_def sha512_def length_sha256_from length_sha512_from split_def Let_def)

lemma length_hmac: "(\<And>m. length (H m) = n) \<Longrightarrow> length (hmac H block key msg) = n"
  by (simp add: hmac_def Let_def)

text \<open>The first example of FIPS 180-2 for SHA-256: the message \<open>abc\<close>.\<close>

lemma sha256_abc:
  "sha256 [0x61, 0x62, 0x63] =
    [0xBA, 0x78, 0x16, 0xBF, 0x8F, 0x1, 0xCF, 0xEA, 0x41, 0x41, 0x40, 0xDE, 0x5D, 0xAE, 0x22, 0x23,
     0xB0, 0x3, 0x61, 0xA3, 0x96, 0x17, 0x7A, 0x9C, 0xB4, 0x10, 0xFF, 0x61, 0xF2, 0x0, 0x15, 0xAD]"
  by code_simp

end
