(* ===== verification/Tsig.thy ===== *)
theory Tsig
  imports Truncate Message_Body Sha_Hmac
begin

section \<open>Transaction signatures\<close>

text \<open>
  \<^verbatim>\<open>tsig.go\<close>. A TSIG record at the end of the additional section carries a MAC over the message
  without it, the MAC of the request and the variables of the record. \<^verbatim>\<open>TsigGenerate\<close> takes the
  record off, packs the message, computes the MAC and appends the packed record to the octets;
  \<^verbatim>\<open>tsigVerify\<close> walks over the octets to find the record, cuts it off and computes the MAC again.

  The clock is an argument: \<open>clock\<close> is the Unix time that \<^verbatim>\<open>tsigBuffer\<close> reads when the record
  has no time. \<^verbatim>\<open>tsigBuffer\<close> changes the record and the message it is given; the model returns both
  beside the result. What \<^verbatim>\<open>append\<close> may leave in the unused capacity of a slice, behind its length, is not
  part of the model.
\<close>

abbreviation ErrAuth :: error where "ErrAuth \<equiv> ErrMsg ''bad authentication''"
abbreviation ErrKeyAlg :: error where "ErrKeyAlg \<equiv> ErrMsg ''bad key algorithm''"
abbreviation ErrNoSig :: error where "ErrNoSig \<equiv> ErrMsg ''no signature found''"
abbreviation ErrSecret :: error where "ErrSecret \<equiv> ErrMsg ''no secrets defined''"
abbreviation ErrSig :: error where "ErrSig \<equiv> ErrMsg ''bad signature''"
abbreviation ErrTime :: error where "ErrTime \<equiv> ErrMsg ''bad time''"

abbreviation DefaultMsgSize :: nat where "DefaultMsgSize \<equiv> 4096"
abbreviation ClassANY :: u16 where "ClassANY \<equiv> 255"
abbreviation RcodeNotAuth :: u16 where "RcodeNotAuth \<equiv> 9"
abbreviation RcodeBadSig :: u16 where "RcodeBadSig \<equiv> 16"
abbreviation RcodeBadKey :: u16 where "RcodeBadKey \<equiv> 17"

subsection \<open>Providers\<close>

record TsigProvider =
  Generate :: "bytes \<Rightarrow> TSIG \<Rightarrow> bytes res"
  Verify :: "bytes \<Rightarrow> TSIG \<Rightarrow> unit res"

definition HMAC_Generate :: "gostring \<Rightarrow> bytes \<Rightarrow> TSIG \<Rightarrow> bytes res" where
  "HMAC_Generate key msg t =
     (case fromBase64 key of
        None \<Rightarrow> Err ErrCorrupt
      | Some rawsecret \<Rightarrow>
          let alg = CanonicalName (TSIG_Algorithm t) in
          if alg = str ''hmac-sha1.'' then Ok (hmac sha1 64 rawsecret msg)
          else if alg = str ''hmac-sha224.'' then Ok (hmac sha224 64 rawsecret msg)
          else if alg = str ''hmac-sha256.'' then Ok (hmac sha256 64 rawsecret msg)
          else if alg = str ''hmac-sha384.'' then Ok (hmac sha384 128 rawsecret msg)
          else if alg = str ''hmac-sha512.'' then Ok (hmac sha512 128 rawsecret msg)
          else Err ErrKeyAlg)"

definition HMAC_Verify :: "gostring \<Rightarrow> bytes \<Rightarrow> TSIG \<Rightarrow> unit res" where
  "HMAC_Verify key msg t =
     bindR (HMAC_Generate key msg t) (\<lambda>b.
     case hexDecode (TSIG_MAC t) of
       None \<Rightarrow> Err ErrCorrupt
     | Some mac \<Rightarrow> if b \<noteq> mac then Err ErrSig else Ok ())"

definition tsigHMACProvider :: "gostring \<Rightarrow> TsigProvider" where
  "tsigHMACProvider key = \<lparr>Generate = HMAC_Generate key, Verify = HMAC_Verify key\<rparr>"

definition Secret_Generate :: "(gostring \<rightharpoonup> gostring) \<Rightarrow> bytes \<Rightarrow> TSIG \<Rightarrow> bytes res" where
  "Secret_Generate ts msg t =
     (case ts (Hdr_Name (TSIG_Hdr t)) of None \<Rightarrow> Err ErrSecret | Some key \<Rightarrow> HMAC_Generate key msg t)"

definition Secret_Verify :: "(gostring \<rightharpoonup> gostring) \<Rightarrow> bytes \<Rightarrow> TSIG \<Rightarrow> unit res" where
  "Secret_Verify ts msg t =
     (case ts (Hdr_Name (TSIG_Hdr t)) of None \<Rightarrow> Err ErrSecret | Some key \<Rightarrow> HMAC_Verify key msg t)"

definition tsigSecretProvider :: "(gostring \<rightharpoonup> gostring) \<Rightarrow> TsigProvider" where
  "tsigSecretProvider ts = \<lparr>Generate = Secret_Generate ts, Verify = Secret_Verify ts\<rparr>"

subsection \<open>The octets the MAC is computed over\<close>

record tsigWireFmt =
  TW_Name :: gostring
  TW_Class :: u16
  TW_Ttl :: u32
  TW_Algorithm :: gostring
  TW_TimeSigned :: u64
  TW_Fudge :: u16
  TW_Error :: u16
  TW_OtherLen :: u16
  TW_OtherData :: gostring

record macWireFmt =
  MW_MACSize :: u16
  MW_MAC :: gostring

record timerWireFmt =
  TM_TimeSigned :: u64
  TM_Fudge :: u16

definition packTsigWire :: "tsigWireFmt \<Rightarrow> bytes \<Rightarrow> (bytes \<times> nat) off_res" where
  "packTsigWire tw msg =
     bindR (PackDomainName (TW_Name tw) msg 0 None False) (\<lambda>(msg, cm, off).
     bindR (packUint16 (TW_Class tw) msg off) (\<lambda>(msg, off).
     bindR (packUint32 (TW_Ttl tw) msg off) (\<lambda>(msg, off).
     bindR (PackDomainName (TW_Algorithm tw) msg off None False) (\<lambda>(msg, cm, off).
     bindR (packUint48 (TW_TimeSigned tw) msg off) (\<lambda>(msg, off).
     bindR (packUint16 (TW_Fudge tw) msg off) (\<lambda>(msg, off).
     bindR (packUint16 (TW_Error tw) msg off) (\<lambda>(msg, off).
     bindR (packUint16 (TW_OtherLen tw) msg off) (\<lambda>(msg, off).
     packStringHex (TW_OtherData tw) msg off))))))))"

definition packMacWire :: "macWireFmt \<Rightarrow> bytes \<Rightarrow> (bytes \<times> nat) off_res" where
  "packMacWire mw msg =
     bindR (packUint16 (MW_MACSize mw) msg 0) (\<lambda>(msg, off).
     packStringHex (MW_MAC mw) msg off)"

definition packTimerWire :: "timerWireFmt \<Rightarrow> bytes \<Rightarrow> (bytes \<times> nat) off_res" where
  "packTimerWire tw msg =
     bindR (packUint48 (TM_TimeSigned tw) msg 0) (\<lambda>(msg, off).
     packUint16 (TM_Fudge tw) msg off)"

text \<open>The record with the defaults that \<^verbatim>\<open>tsigBuffer\<close> puts in.\<close>

definition tsig_defaults :: "u64 \<Rightarrow> TSIG \<Rightarrow> TSIG" where
  "tsig_defaults clock rr =
     (let rr = (if TSIG_TimeSigned rr = 0 then rr\<lparr>TSIG_TimeSigned := clock\<rparr> else rr) in
      if TSIG_Fudge rr = 0 then rr\<lparr>TSIG_Fudge := 300\<rparr> else rr)"

text \<open>The octets of a packer that is given a fresh buffer of \<open>n\<close> octets, cut at the offset it returns.\<close>

definition packed :: "nat \<Rightarrow> (bytes \<Rightarrow> (bytes \<times> nat) off_res) \<Rightarrow> bytes res" where
  "packed n P =
     bindR (mapErr snd (P (replicate n 0))) (\<lambda>(buf, n).
     go_slice buf 0 n)"

definition tsigBuffer :: "u64 \<Rightarrow> bytes \<Rightarrow> TSIG \<Rightarrow> gostring \<Rightarrow> bool \<Rightarrow> (bytes \<times> bytes \<times> TSIG) res" where
  "tsigBuffer clock msgbuf rr requestMAC timersOnly =
     (let rr = tsig_defaults clock rr in
      bindR (write_at msgbuf 0 (be16 (TSIG_OrigId rr))) (\<lambda>msgbuf.
      bindR (if requestMAC \<noteq> []
             then packed (length requestMAC)
                    (packMacWire \<lparr>MW_MACSize = of_nat (length requestMAC div 2), MW_MAC = requestMAC\<rparr>)
             else Ok []) (\<lambda>buf.
      bindR (if timersOnly
             then packed DefaultMsgSize
                    (packTimerWire \<lparr>TM_TimeSigned = TSIG_TimeSigned rr, TM_Fudge = TSIG_Fudge rr\<rparr>)
             else packed DefaultMsgSize
                    (packTsigWire \<lparr>TW_Name = CanonicalName (Hdr_Name (TSIG_Hdr rr)), TW_Class = ClassANY,
                       TW_Ttl = Hdr_Ttl (TSIG_Hdr rr), TW_Algorithm = CanonicalName (TSIG_Algorithm rr),
                       TW_TimeSigned = TSIG_TimeSigned rr, TW_Fudge = TSIG_Fudge rr, TW_Error = TSIG_Error rr,
                       TW_OtherLen = TSIG_OtherLen rr, TW_OtherData = TSIG_OtherData rr\<rparr>)) (\<lambda>tsigvar.
      Ok (if requestMAC \<noteq> [] then buf @ msgbuf @ tsigvar else msgbuf @ tsigvar, msgbuf, rr)))))"

subsection \<open>Signing\<close>

definition TsigGenerateWithProvider ::
  "u64 \<Rightarrow> Msg \<Rightarrow> TsigProvider \<Rightarrow> gostring \<Rightarrow> bool \<Rightarrow> Msg \<times> (bytes \<times> gostring) res" where
  "TsigGenerateWithProvider clock m provider requestMAC timersOnly =
     (case IsTsig m of
        Ok (Some rr) \<Rightarrow>
          let (m, packed_m) = Pack (m\<lparr>Msg_Extra := butlast (Msg_Extra m)\<rparr>) in
          (m,
           bindR packed_m (\<lambda>mbuf.
           bindR (tsigBuffer clock mbuf rr requestMAC timersOnly) (\<lambda>(buf, mbuf, rr).
           let t = rr\<lparr>TSIG_TimeSigned := 0, TSIG_MAC := [], TSIG_MACSize := 0\<rparr> in
           bindR (if TSIG_Error rr \<noteq> RcodeBadKey \<and> TSIG_Error rr \<noteq> RcodeBadSig
                  then bindR (Generate provider buf rr) (\<lambda>mac.
                       let text = hexEncode mac in
                       Ok (t\<lparr>TSIG_TimeSigned := TSIG_TimeSigned rr, TSIG_MAC := text,
                             TSIG_MACSize := of_nat (length text div 2)\<rparr>))
                  else Ok t) (\<lambda>t.
           bindR (mapErr snd (PackRR (Some (RR_TSIG t)) (replicate (Len (RR_TSIG t)) 0) 0 None False)) (\<lambda>(_, tbuf, _, off).
           bindR (go_slice tbuf 0 off) (\<lambda>tbuf.
           bindR (write_at (mbuf @ tbuf) 10 (be16 (of_nat (length (Msg_Extra m) + 1)))) (\<lambda>mbuf.
           Ok (mbuf, TSIG_MAC t))))))))
      | _ \<Rightarrow> (m, Panic))"

definition TsigGenerate :: "u64 \<Rightarrow> Msg \<Rightarrow> gostring \<Rightarrow> gostring \<Rightarrow> bool \<Rightarrow> Msg \<times> (bytes \<times> gostring) res" where
  "TsigGenerate clock m secret requestMAC timersOnly =
     TsigGenerateWithProvider clock m (tsigHMACProvider secret) requestMAC timersOnly"

subsection \<open>Verifying\<close>

text \<open>
  The loops over the questions and over the additional section, the latter with the offset of the record read last. When a TSIG record is
  found, the count of additional records in the message is lowered by one.
\<close>

fun strip_questions :: "nat \<Rightarrow> bytes \<Rightarrow> nat \<Rightarrow> nat off_res" where
  "strip_questions 0 msg off = Ok off"
| "strip_questions (Suc n) msg off = bindR (unpackQuestion msg off) (\<lambda>(_, off). strip_questions n msg off)"

definition TSIG_zero :: TSIG where
  "TSIG_zero = TSIG_new zero_Header"

fun stripTsig_loop :: "nat \<Rightarrow> bytes \<Rightarrow> nat \<Rightarrow> nat \<Rightarrow> (bytes \<times> nat \<times> TSIG) res" where
  "stripTsig_loop 0 msg off tsigoff = Ok (msg, tsigoff, TSIG_zero)"
| "stripTsig_loop (Suc n) msg off tsigoff =
     bindR (mapErr snd (UnpackRR msg off)) (\<lambda>(extra, off').
     if Hdr_Rrtype (rr_Header extra) = TypeTSIG then
       (case extra of
          RR_TSIG rr \<Rightarrow>
            bindR (go_slice msg 10 12) (\<lambda>arcount.
            bindR (write_at msg 10 (be16 (be_word arcount - 1))) (\<lambda>msg.
            Ok (msg, off, rr)))
        | _ \<Rightarrow> Panic)
     else stripTsig_loop n msg off' off)"

definition stripTsig :: "bytes \<Rightarrow> (bytes \<times> TSIG) res" where
  "stripTsig msg =
     bindR (mapErr snd (unpackMsgHdr msg 0)) (\<lambda>(dh, off).
     if DH_Arcount dh = 0 then Err ErrNoSig
     else if DH_Bits dh AND 0xF = RcodeNotAuth then Err ErrAuth
     else
       bindR (mapErr snd (strip_questions (unat (DH_Qdcount dh)) msg off)) (\<lambda>off.
       bindR (mapErr snd (unpackRRslice (unat (DH_Ancount dh)) msg off)) (\<lambda>(_, off).
       bindR (mapErr snd (unpackRRslice (unat (DH_Nscount dh)) msg off)) (\<lambda>(_, off).
       bindR (stripTsig_loop (unat (DH_Arcount dh)) msg off 0) (\<lambda>(msg, tsigoff, rr).
       bindR (go_slice msg 0 tsigoff) (\<lambda>stripped.
       Ok (stripped, rr)))))))"

text \<open>\<open>now\<close> is the time the record is checked against.\<close>

definition tsigVerify :: "u64 \<Rightarrow> bytes \<Rightarrow> TsigProvider \<Rightarrow> gostring \<Rightarrow> bool \<Rightarrow> u64 \<Rightarrow> unit res" where
  "tsigVerify clock msg provider requestMAC timersOnly now =
     bindR (stripTsig msg) (\<lambda>(stripped, tsig).
     bindR (tsigBuffer clock stripped tsig requestMAC timersOnly) (\<lambda>(buf, _, tsig).
     bindR (Verify provider buf tsig) (\<lambda>_.
     let ti = (if now < TSIG_TimeSigned tsig then TSIG_TimeSigned tsig - now else now - TSIG_TimeSigned tsig) in
     if ucast (TSIG_Fudge tsig) < ti then Err ErrTime else Ok ())))"

definition TsigVerify :: "u64 \<Rightarrow> bytes \<Rightarrow> gostring \<Rightarrow> gostring \<Rightarrow> bool \<Rightarrow> u64 \<Rightarrow> unit res" where
  "TsigVerify clock msg secret requestMAC timersOnly now =
     tsigVerify clock msg (tsigHMACProvider secret) requestMAC timersOnly now"

definition TsigVerifyWithProvider :: "u64 \<Rightarrow> bytes \<Rightarrow> TsigProvider \<Rightarrow> gostring \<Rightarrow> bool \<Rightarrow> u64 \<Rightarrow> unit res" where
  "TsigVerifyWithProvider clock msg provider requestMAC timersOnly now =
     tsigVerify clock msg provider requestMAC timersOnly now"

subsection \<open>Names without compression, and in canonical form\<close>

text \<open>The octets of a name that is packed without a compression map.\<close>

definition enc_wire :: "gostring \<Rightarrow> bytes" where
  "enc_wire s = fst (enc_name False no_compression 0 s)"

lemma cm_valid_none [simp]: "\<not> cm_valid no_compression"
  by (simp add: cm_valid_def no_compression_def)

lemma enc_labels_none: "enc_labels False no_compression off ps = (fst (enc_labels False no_compression 0 ps), no_compression)"
proof (induction ps arbitrary: off)
  case (Cons p ps)
  obtain l sfx where p: "p = (l, sfx)" by (cases p)
  have "enc_labels False no_compression k ps = (fst (enc_labels False no_compression 0 ps), no_compression)" for k by (rule Cons.IH)
  from this [of "off + 1 + length l"] this [of "Suc (length l)"] show ?case by (simp add: p ref_compress_def split_def Let_def)
qed simp

lemma enc_name_none: "enc_name False no_compression off s = (enc_wire s, no_compression)"
  using enc_labels_none [of off "label_suffixes [] s s"] by (simp add: enc_name_def enc_wire_def)

lemma length_enc_wire: "ok_name s \<Longrightarrow> length (enc_wire s) \<le> name_len s"
  using length_enc_name [of s _ False no_compression 0] domainNameLen_exact [of s]
  by (auto simp: ok_name_def enc_wire_def split: option.splits)

lemma packDomainName_none:
  assumes "ok_name s" and "off + name_len s \<le> length msg"
  shows "packDomainName s msg off no_compression False = Ok (put msg off (enc_wire s), no_compression, off + length (enc_wire s))"
proof -
  obtain ls where ls: "IsFqdn s" "name_labels s = Some ls" using assms(1) by (auto simp: ok_name_def split: option.splits)
  have "name_len s = wire_len ls" using domainNameLen_exact [OF ls(2), of 0 False] by simp
  with packDomainName_packs [OF ls cm_nonneg_none, of msg off False] assms(2) show ?thesis
    by (auto simp: packs_def enc_name_none split: outcome.splits)
qed

lemma PackDomainName_none:
  "ok_name s \<Longrightarrow> off + name_len s \<le> length msg \<Longrightarrow>
   PackDomainName s msg off None False = Ok (put msg off (enc_wire s), no_compression, off + length (enc_wire s))"
  using packDomainName_none [of s off msg] by (simp add: PackDomainName_def no_compression_def)

lemma to_lower_plain: "\<not> (0x41 \<le> b \<and> b \<le> 0x5A) \<Longrightarrow> to_lower b = b"
  by (auto simp: to_lower_def)

lemma to_lower_digit: "isDigit b \<Longrightarrow> to_lower b = b"
  by (rule to_lower_plain) (unfold isDigit_def, unat_arith)

lemma ddd_entry_lower: "n < 256 \<Longrightarrow> map to_lower (ddd_entry n) = ddd_entry n"
  by (simp add: ddd_entry_def to_lower_digit isDigit_digit) (simp add: to_lower_def)

lemma esc_label_lower: "esc_label_byte (to_lower b) = map to_lower (esc_label_byte b)"
proof (cases "0x41 \<le> b \<and> b \<le> 0x5A")
  case True
  then have "to_lower b = b + 0x20" by (simp add: to_lower_def)
  moreover have "0x61 \<le> b + 0x20 \<and> b + 0x20 \<le> 0x7A" using True by (auto simp: word_le_nat_alt unat_word_ariths)
  moreover have "\<not> isDomainNameLabelSpecial c \<and> \<not> (c < 0x20 \<or> c > 0x7E)" if "0x41 \<le> c \<and> c \<le> 0x5A \<or> 0x61 \<le> c \<and> c \<le> 0x7A" for c
    using that by (auto simp: isDomainNameLabelSpecial_def dest: le_less_trans less_le_trans)
  ultimately show ?thesis using True by (simp add: esc_label_byte_def)
next
  case False
  have "to_lower BSL = BSL" by (simp add: to_lower_def)
  moreover have "map to_lower (escapeByte b) = escapeByte b" if "b < 0x20 \<or> b > 0x7E"
    using ddd_entry_lower [OF unat_byte_less [of b]] that by (simp add: escapeByte_eq)
  ultimately show ?thesis using to_lower_plain [OF False] by (simp add: esc_label_byte_def)
qed

lemma present_label_lower: "present_label (map to_lower l) = map to_lower (present_label l)"
  by (simp add: present_label_def map_concat comp_def esc_label_lower)

lemma present_lower: "present (map (map to_lower) ls) = map to_lower (present ls)"
proof -
  have "to_lower DOT = DOT" by (simp add: to_lower_def)
  moreover from this have "join_labels (map present_label (map (map to_lower) ls)) = map to_lower (join_labels (map present_label ls))"
    by (induction ls) (simp_all add: present_label_lower)
  ultimately show ?thesis by (simp add: present_def)
qed

lemma ok_name_present: "ok_name s \<longleftrightarrow> (\<exists>ls. s = present ls \<and> list_all wf_label ls \<and> wire_len ls \<le> 255 \<and> length ls \<le> maxCompressionPointers)"
proof
  assume "ok_name s"
  then obtain ls where ls: "name_labels s = Some ls" "s = present ls" "wire_len ls \<le> 255" "length ls \<le> maxCompressionPointers"
    by (auto simp: ok_name_def split: option.splits)
  then have "list_all wf_label ls" by (auto simp: name_labels_def split: if_splits option.splits)
  with ls show "\<exists>ls. s = present ls \<and> list_all wf_label ls \<and> wire_len ls \<le> 255 \<and> length ls \<le> maxCompressionPointers" by blast
next
  assume "\<exists>ls. s = present ls \<and> list_all wf_label ls \<and> wire_len ls \<le> 255 \<and> length ls \<le> maxCompressionPointers"
  then obtain ls where ls: "s = present ls" "list_all wf_label ls" "wire_len ls \<le> 255" "length ls \<le> maxCompressionPointers" by blast
  have "IsFqdn (present ls)"
  proof (cases "ls = []")
    case False
    then have "split_labels [] (present ls) = Some ls" by (simp add: present_def split_labels_present)
    moreover have "present ls \<noteq> []" using False by (simp add: present_def)
    ultimately show ?thesis using IsFqdn_iff_split [OF ascii_present] by simp
  qed (simp add: present_def IsFqdn_root)
  with ls name_labels_present [OF ls(2)] show "ok_name s" by (simp add: ok_name_def)
qed

lemma CanonicalName_ok:
  assumes "ok_name s"
  shows "CanonicalName s = map to_lower s" and "ok_name (CanonicalName s)" and "name_len (CanonicalName s) = name_len s"
proof -
  obtain ls where ls: "s = present ls" "list_all wf_label ls" "wire_len ls \<le> 255" "length ls \<le> maxCompressionPointers"
    using assms unfolding ok_name_present by blast
  have "Fqdn s = s" using assms by (simp add: ok_name_def Fqdn_IsFqdn)
  with ls(1) show c: "CanonicalName s = map to_lower s" by (simp add: CanonicalName_def map_runes_ascii ascii_present)
  let ?ls = "map (map to_lower) ls"
  have w: "wire_len ?ls = wire_len ls" by (induction ls) simp_all
  have wf: "list_all wf_label ?ls" using ls(2) by (simp add: list_all_iff wf_label_def)
  with ls w show ok: "ok_name (CanonicalName s)" unfolding c ok_name_present
    by (intro exI [of _ ?ls]) (simp add: present_lower)
  show "name_len (CanonicalName s) = name_len s"
    using domainNameLen_exact [OF name_labels_present [OF wf], of 0 False] domainNameLen_exact [OF name_labels_present [OF ls(2)], of 0 False] w
      c ls(1) present_lower [of ls] by simp
qed

subsection \<open>The octets of a TSIG record\<close>

definition enc_tsig_rdata :: "TSIG \<Rightarrow> bytes" where
  "enc_tsig_rdata t =
     enc_wire (TSIG_Algorithm t) @ be48 (TSIG_TimeSigned t) @ be16 (TSIG_Fudge t) @ be16 (TSIG_MACSize t) @
     text_octets hexDecode (TSIG_MAC t) @ be16 (TSIG_OrigId t) @ be16 (TSIG_Error t) @ be16 (TSIG_OtherLen t) @
     text_octets hexDecode (TSIG_OtherData t)"

definition enc_tsig :: "TSIG \<Rightarrow> bytes" where
  "enc_tsig t = enc_wire (Hdr_Name (TSIG_Hdr t)) @ hdr_tail (TSIG_Hdr t) (of_nat (length (enc_tsig_rdata t))) @ enc_tsig_rdata t"

lemma packUint48_eq: "off + 6 \<le> length msg \<Longrightarrow> packUint48 v msg off = Ok (put msg off (be48 v), off + 6)"
  by (simp add: packUint48_def)

lemma packStringHex_eq:
  "hexDecode s = Some h \<Longrightarrow> off + length h \<le> length msg \<Longrightarrow> packStringHex s msg off = Ok (put msg off h, off + length h)"
  by (simp add: packStringHex_def)

lemma hexDecode_ok: "ok_hex s \<Longrightarrow> hexDecode s = Some (text_octets hexDecode s) \<and> length (text_octets hexDecode s) = length s div 2"
  using length_hexEncode [of "text_octets hexDecode s"] by (auto simp: ok_text_def text_octets_def)

lemmas pack_eqs = packUint16_eq packUint32_eq packUint48_eq packStringHex_eq packDomainName_none PackDomainName_none

lemma rd_size_TSIG:
  "rd_size (RR_TSIG t) = name_len (TSIG_Algorithm t) + 16 + length (TSIG_MAC t) div 2 + length (TSIG_OtherData t) div 2"
  by (simp add: rd_size_def Len_def TSIG_len_def)

lemma length_enc_tsig_rdata: "rdata_ok (RR_TSIG t) \<Longrightarrow> length (enc_tsig_rdata t) \<le> rd_size (RR_TSIG t)"
  using length_enc_wire [of "TSIG_Algorithm t"] hexDecode_ok [of "TSIG_MAC t"] hexDecode_ok [of "TSIG_OtherData t"]
  by (simp add: enc_tsig_rdata_def rd_size_TSIG)

lemma TSIG_pack_eq:
  assumes "rdata_ok (RR_TSIG t)" and "off + rd_size (RR_TSIG t) \<le> length msg"
  shows "TSIG_pack t msg off no_compression compress =
    Ok (put msg off (enc_tsig_rdata t), no_compression, off + length (enc_tsig_rdata t))"
proof -
  have ok: "ok_name (TSIG_Algorithm t)" "ok_hex (TSIG_MAC t)" "ok_hex (TSIG_OtherData t)" using assms(1) by simp_all
  note l = length_enc_wire [OF ok(1)] hexDecode_ok [OF ok(2)] hexDecode_ok [OF ok(3)]
  show ?thesis using assms(2) ok l unfolding TSIG_pack_def enc_tsig_rdata_def rd_size_TSIG
    by (simp add: pack_eqs put_put_at add.assoc del: add_2_eq_Suc add_2_eq_Suc')
qed

lemma packRR_tsig:
  assumes "rr_ok (RR_TSIG t)" and "rd_size (RR_TSIG t) < 65536" and "off + Len (RR_TSIG t) \<le> length msg"
  shows "packRR (Some (RR_TSIG t)) msg off no_compression False =
    Ok (put msg off (enc_tsig t), no_compression, off + length (enc_wire (Hdr_Name (TSIG_Hdr t))) + 10, off + length (enc_tsig t))"
proof -
  let ?h = "TSIG_Hdr t"
  have ok: "ok_name (Hdr_Name ?h)" "rdata_ok (RR_TSIG t)" using assms(1) by (auto simp: rr_ok_def)
  have L: "Len (RR_TSIG t) = name_len (Hdr_Name ?h) + 10 + rd_size (RR_TSIG t)" using rr_len_None [of "RR_TSIG t" 0] by (simp add: Len_def)
  note l = length_enc_wire [OF ok(1)] length_enc_tsig_rdata [OF ok(2)]
  have "packRR (Some (RR_TSIG t)) msg off no_compression False =
    Ok (put msg off (enc_wire (Hdr_Name ?h) @ hdr_tail (rr_Header (RR_TSIG t)) (of_nat (length (enc_tsig_rdata t))) @ enc_tsig_rdata t),
      no_compression, off + length (enc_wire (Hdr_Name ?h)) + 10, off + length (enc_wire (Hdr_Name ?h)) + 10 + length (enc_tsig_rdata t))"
  proof (intro packRR_eq packHeader_eq)
    show "rr_pack (RR_TSIG t) (put msg off (enc_wire (Hdr_Name ?h) @ hdr_tail (rr_Header (RR_TSIG t)) 0))
       (off + length (enc_wire (Hdr_Name ?h)) + 10) no_compression False =
      Ok (put (put msg off (enc_wire (Hdr_Name ?h) @ hdr_tail (rr_Header (RR_TSIG t)) 0)) (off + length (enc_wire (Hdr_Name ?h)) + 10) (enc_tsig_rdata t),
        no_compression, off + length (enc_wire (Hdr_Name ?h)) + 10 + length (enc_tsig_rdata t))"
      using assms(3) L l by (simp add: TSIG_pack_eq [OF ok(2)])
    show "packDomainName (Hdr_Name (rr_Header (RR_TSIG t))) msg off no_compression False =
      Ok (put msg off (enc_wire (Hdr_Name ?h)), no_compression, off + length (enc_wire (Hdr_Name ?h)))"
      using assms(3) L ok(1) by (simp add: packDomainName_none)
  qed (use assms(2,3) L l in simp_all)
  then show ?thesis by (simp add: enc_tsig_def add.assoc)
qed

text \<open>The record reads back behind any octets.\<close>

lemma UnpackRR_tsig:
  assumes "rr_ok (RR_TSIG t)" and "rd_size (RR_TSIG t) < 65536"
  shows "\<exists>n. UnpackRR (pre @ enc_tsig t) (length pre) = Ok (with_rdlength n (RR_TSIG t), length (pre @ enc_tsig t))"
proof -
  let ?m = "pre @ replicate (Len (RR_TSIG t)) 0" and ?rr = "RR_TSIG t"
  have L: "0 < Len ?rr" using rr_len_None [of ?rr 0] by (simp add: Len_def)
  have p: "packRR (Some ?rr) ?m (length pre) no_compression False =
      Ok (put ?m (length pre) (enc_tsig t), no_compression, length pre + length (enc_wire (Hdr_Name (TSIG_Hdr t))) + 10, length pre + length (enc_tsig t))"
    by (rule packRR_tsig [OF assms]) simp
  have lt: "length pre < length ?m" using L by simp
  note R = packRR_reads_back [OF assms(1) lt cm_sound_none p]
  have "length pre + length (enc_tsig t) \<le> length ?m" using R(1) by (simp add: extends_def)
  then have "agree (pre @ enc_tsig t) (put ?m (length pre) (enc_tsig t)) (length pre + length (enc_tsig t))"
    using take_put_end [of "length pre" "enc_tsig t" ?m] by (simp add: agree_def)
  from R(4) [OF this] show ?thesis by auto
qed

subsection \<open>Stripping the record that was appended\<close>

lemma strip_questions_eq:
  "unpack_questions n M off acc = (qs, Ok off') \<Longrightarrow> length qs = length acc + n \<Longrightarrow> strip_questions n M off = Ok off'"
proof (induction n arbitrary: off acc)
  case (Suc n)
  then obtain q o1 where q: "unpackQuestion M off = Ok (q, o1)" "off \<noteq> o1" "unpack_questions n M o1 (acc @ [q]) = (qs, Ok off')"
    by (auto split: outcome.splits if_splits)
  with Suc.IH [OF q(3)] Suc.prems(2) show ?case by simp
qed simp

definition not_tsig :: "RR \<Rightarrow> bool" where
  "not_tsig rr \<longleftrightarrow> Hdr_Rrtype (rr_Header rr) \<noteq> TypeTSIG"

lemma stripTsig_loop_skip:
  "unpackRRslice_loop k M off dst = Ok (dst @ ar, off') \<Longrightarrow> length ar = k \<Longrightarrow> list_all not_tsig ar \<Longrightarrow>
   \<exists>toff'. stripTsig_loop (k + n) M off toff = stripTsig_loop n M off' toff'"
proof (induction k arbitrary: off dst ar toff)
  case (Suc k)
  then obtain r o1 where r: "UnpackRR M off = Ok (r, o1)"
    and l: "(if off = o1 then Ok (dst, o1) else unpackRRslice_loop k M o1 (dst @ [r])) = Ok (dst @ ar, off')"
    by (auto simp: bindR_eq_Ok)
  from l Suc.prems(2) have l: "unpackRRslice_loop k M o1 (dst @ [r]) = Ok (dst @ ar, off')" by (auto split: if_splits)
  have "\<exists>ar'. rrs = d @ ar'" if "unpackRRslice_loop j M a d = Ok (rrs, e)" for j a d rrs e
    using that by (induction j arbitrary: a d) (fastforce simp: bindR_eq_Ok split: if_splits)+
  from this [OF l] obtain ar' where ar: "ar = r # ar'" by auto
  from Suc.IH [of o1 "dst @ [r]" ar' off] l Suc.prems(2,3) ar obtain toff'
    where "stripTsig_loop (k + n) M o1 off = stripTsig_loop n M off' toff'" by auto
  then show ?case using r Suc.prems(3) ar by (intro exI [of _ toff']) (simp add: not_tsig_def)
qed auto

lemma header_writes:
  "(write_at (enc_header dh @ r) 0 (be16 v) :: ('e, bytes) outcome) = Ok (enc_header (dh\<lparr>DH_Id := v\<rparr>) @ r)"
  "(write_at (enc_header dh @ r) 10 (be16 v) :: ('e, bytes) outcome) = Ok (enc_header (dh\<lparr>DH_Arcount := v\<rparr>) @ r)"
  "(go_slice (enc_header dh @ r) 10 12 :: ('e, bytes) outcome) = Ok (be16 (DH_Arcount dh))"
  by (simp_all add: write_at_def go_slice_def put_def enc_header_def)

lemma norm_rr_Rrtype: "norm_rr rr = norm_rr rr' \<Longrightarrow> Hdr_Rrtype (rr_Header rr) = Hdr_Rrtype (rr_Header rr')"
  by (drule arg_cong [of _ _ "\<lambda>r. Hdr_Rrtype (rr_Header r)"]) (simp add: norm_rr_def with_rdlength_def)

lemma norm_not_tsig:
  "map (\<lambda>rr. Some (norm_rr rr)) ar = map (map_option norm_rr) rs \<Longrightarrow> list_all (pred_option not_tsig) rs \<Longrightarrow> list_all not_tsig ar"
proof (induction ar arbitrary: rs)
  case (Cons a ar)
  then obtain o1 rs' where o1: "rs = o1 # rs'" "Some (norm_rr a) = map_option norm_rr o1" by (cases rs) auto
  then obtain r where rs: "rs = Some r # rs'" "norm_rr a = norm_rr r" by (cases o1) auto
  with Cons show ?case using norm_rr_Rrtype [OF rs(2)] by (auto simp: not_tsig_def)
qed simp

lemma stripTsig_signed:
  assumes B: "\<And>dh r. body_reads dns (enc_header dh @ body @ r) (12 + length body)" and s: "sections_ok dns"
    and t: "rr_ok (RR_TSIG t)" "rd_size (RR_TSIG t) < 65536" and nt: "list_all (pred_option not_tsig) (Msg_Extra dns)"
    and c: "length (Msg_Extra dns) < 65535" and rc: "DH_Bits dh AND 0xF \<noteq> RcodeNotAuth"
    and dh: "DH_Qdcount dh = of_nat (length (Msg_Question dns))" "DH_Ancount dh = of_nat (length (Msg_Answer dns))"
      "DH_Nscount dh = of_nat (length (Msg_Ns dns))" "DH_Arcount dh = of_nat (length (Msg_Extra dns) + 1)"
  shows "\<exists>n. stripTsig (enc_header dh @ body @ enc_tsig t) =
    Ok (enc_header (dh\<lparr>DH_Arcount := of_nat (length (Msg_Extra dns))\<rparr>) @ body, t\<lparr>TSIG_Hdr := (TSIG_Hdr t)\<lparr>Hdr_Rdlength := n\<rparr>\<rparr>)"
proof -
  let ?M = "enc_header dh @ body @ enc_tsig t" and ?k = "length (Msg_Extra dns)"
  obtain o2 o3 o4 an ns ar where R: "unpack_questions (length (Msg_Question dns)) ?M 12 [] = (Msg_Question dns, Ok o2)"
    "unpackRRslice (length (Msg_Answer dns)) ?M o2 = Ok (an, o3)" "unpackRRslice (length (Msg_Ns dns)) ?M o3 = Ok (ns, o4)"
    "unpackRRslice ?k ?M o4 = Ok (ar, 12 + length body)" "map (\<lambda>rr. Some (norm_rr rr)) ar = map (map_option norm_rr) (Msg_Extra dns)"
    using B [of dh "enc_tsig t"] unfolding body_reads_def by blast
  have H: "unpackMsgHdr ?M 0 = Ok (dh, 12)" by (rule unpackMsgHdr_reads) simp
  have cnt: "unat (DH_Qdcount dh) = length (Msg_Question dns)" "unat (DH_Ancount dh) = length (Msg_Answer dns)"
    "unat (DH_Nscount dh) = length (Msg_Ns dns)" "unat (DH_Arcount dh) = ?k + 1"
    using s c dh of_nat_count [of "?k + 1"] by (auto simp: sections_ok_def of_nat_count)
  have q: "strip_questions (length (Msg_Question dns)) ?M 12 = Ok o2" using strip_questions_eq [OF R(1)] by simp
  have ar: "length ar = ?k" "list_all not_tsig ar" using arg_cong [OF R(5), of length] norm_not_tsig [OF R(5) nt] by simp_all
  obtain toff where l: "stripTsig_loop (?k + 1) ?M o4 0 = stripTsig_loop 1 ?M (12 + length body) toff"
    using stripTsig_loop_skip [of ?k ?M o4 "[]" ar "12 + length body" 1 0] R(4) ar by (auto simp: unpackRRslice_def)
  obtain n where u: "UnpackRR ?M (12 + length body) = Ok (with_rdlength n (RR_TSIG t), length ?M)"
    using UnpackRR_tsig [OF t, of "enc_header dh @ body"] by auto
  have ty: "Hdr_Rrtype (TSIG_Hdr t) = TypeTSIG" using t(1) by (simp add: rr_ok_def type_ok_def)
  let ?dh = "dh\<lparr>DH_Arcount := of_nat ?k\<rparr>" and ?t = "t\<lparr>TSIG_Hdr := (TSIG_Hdr t)\<lparr>Hdr_Rdlength := n\<rparr>\<rparr>"
  have "stripTsig_loop 1 ?M (12 + length body) toff = Ok (enc_header ?dh @ body @ enc_tsig t, 12 + length body, ?t)"
    using u ty dh(4) by (simp add: with_rdlength_def header_writes del: append_assoc)
  moreover have "(go_slice (enc_header ?dh @ body @ enc_tsig t) 0 (12 + length body) :: bytes res) = Ok (enc_header ?dh @ body)"
    by (simp add: go_slice_def)
  moreover have "DH_Arcount dh \<noteq> 0" using cnt(4) by auto
  ultimately have "stripTsig ?M = Ok (enc_header ?dh @ body, ?t)"
    using H q R(2,3) l rc unfolding stripTsig_def by (simp add: cnt del: stripTsig_loop.simps One_nat_def add_Suc_right)
  then show ?thesis by blast
qed

subsection \<open>The octets of the MAC\<close>

text \<open>What the MAC covers beside the message: the request MAC and the variables, as octets.\<close>

definition mac_prefix :: "gostring \<Rightarrow> bytes" where
  "mac_prefix requestMAC =
     (if requestMAC = [] then [] else be16 (of_nat (length requestMAC div 2)) @ text_octets hexDecode requestMAC)"

definition mac_vars :: "TSIG \<Rightarrow> bool \<Rightarrow> bytes" where
  "mac_vars t timersOnly =
     (if timersOnly then be48 (TSIG_TimeSigned t) @ be16 (TSIG_Fudge t)
      else enc_wire (CanonicalName (Hdr_Name (TSIG_Hdr t))) @ be16 ClassANY @ be32 (Hdr_Ttl (TSIG_Hdr t)) @
        enc_wire (CanonicalName (TSIG_Algorithm t)) @ be48 (TSIG_TimeSigned t) @ be16 (TSIG_Fudge t) @
        be16 (TSIG_Error t) @ be16 (TSIG_OtherLen t) @ text_octets hexDecode (TSIG_OtherData t))"

text \<open>A MAC of a request: none, or at least two octets in hexadecimal.\<close>

definition request_mac_ok :: "gostring \<Rightarrow> bool" where
  "request_mac_ok requestMAC \<longleftrightarrow> requestMAC = [] \<or> 4 \<le> length requestMAC \<and> hexDecode requestMAC \<noteq> None"

text \<open>The records that can be signed: the variables fit the buffer of 4096 octets.\<close>

definition tsig_ok :: "TSIG \<Rightarrow> bool" where
  "tsig_ok t \<longleftrightarrow>
     Hdr_Rrtype (TSIG_Hdr t) = TypeTSIG \<and> ok_name (Hdr_Name (TSIG_Hdr t)) \<and> ok_name (TSIG_Algorithm t) \<and>
     ok_hex (TSIG_OtherData t) \<and> length (text_octets hexDecode (TSIG_OtherData t)) = unat (TSIG_OtherLen t) \<and>
     unat (TSIG_OtherLen t) \<le> 3500"

lemma hexDecode_length: "hexDecode s = Some h \<Longrightarrow> length s = 2 * length h"
  by (induction s arbitrary: h rule: hexDecode.induct) (auto simp: dec_block_def split: option.splits)

lemma packed_eq:
  assumes "P (replicate n 0) = Ok (put (replicate n 0) 0 e, length e)" and "length e \<le> n"
  shows "packed n P = Ok e"
  using assms take_put_end [of 0 e "replicate n 0"] by (simp add: packed_def go_slice_def)

lemma packMacWire_eq:
  assumes "request_mac_ok r" and "r \<noteq> []"
  shows "packed (length r) (packMacWire \<lparr>MW_MACSize = of_nat (length r div 2), MW_MAC = r\<rparr>) = Ok (mac_prefix r)"
proof -
  obtain h where h: "hexDecode r = Some h" using assms by (auto simp: request_mac_ok_def)
  have l: "2 + length h \<le> length r" "length r div 2 = length h" using assms hexDecode_length [OF h] by (auto simp: request_mac_ok_def)
  show ?thesis using assms(2) h l
    by (intro packed_eq) (simp_all add: packMacWire_def mac_prefix_def text_octets_def pack_eqs put_put_at del: add_2_eq_Suc add_2_eq_Suc')
qed

lemma length_packed_names:
  assumes "tsig_ok t"
  shows "name_len (CanonicalName (Hdr_Name (TSIG_Hdr t))) \<le> 255" "name_len (CanonicalName (TSIG_Algorithm t)) \<le> 255"
    and "length (enc_wire (CanonicalName (Hdr_Name (TSIG_Hdr t)))) \<le> 255" "length (enc_wire (CanonicalName (TSIG_Algorithm t))) \<le> 255"
  using assms CanonicalName_ok(2) ok_name_name_len(2) length_enc_wire by (meson order_trans tsig_ok_def)+

lemma packTimerWire_eq:
  "packed DefaultMsgSize (packTimerWire \<lparr>TM_TimeSigned = TSIG_TimeSigned t, TM_Fudge = TSIG_Fudge t\<rparr>) = Ok (mac_vars t True)"
  by (intro packed_eq) (simp_all add: packTimerWire_def mac_vars_def pack_eqs put_put_at del: add_2_eq_Suc add_2_eq_Suc' replicate.simps)

lemma packTsigWire_eq:
  assumes "tsig_ok t"
  shows "packed DefaultMsgSize (packTsigWire \<lparr>TW_Name = CanonicalName (Hdr_Name (TSIG_Hdr t)), TW_Class = ClassANY,
      TW_Ttl = Hdr_Ttl (TSIG_Hdr t), TW_Algorithm = CanonicalName (TSIG_Algorithm t), TW_TimeSigned = TSIG_TimeSigned t,
      TW_Fudge = TSIG_Fudge t, TW_Error = TSIG_Error t, TW_OtherLen = TSIG_OtherLen t, TW_OtherData = TSIG_OtherData t\<rparr>) =
    Ok (mac_vars t False)"
proof (rule packed_eq)
  have n: "ok_name (CanonicalName (Hdr_Name (TSIG_Hdr t)))" "ok_name (CanonicalName (TSIG_Algorithm t))"
    using assms CanonicalName_ok(2) by (auto simp: tsig_ok_def)
  note l = length_packed_names [OF assms]
  have o: "hexDecode (TSIG_OtherData t) = Some (text_octets hexDecode (TSIG_OtherData t))"
    "length (text_octets hexDecode (TSIG_OtherData t)) \<le> 3500" using assms hexDecode_ok by (auto simp: tsig_ok_def)
  show "length (mac_vars t False) \<le> DefaultMsgSize" using l o(2) by (simp add: mac_vars_def)
  show "packTsigWire \<lparr>TW_Name = CanonicalName (Hdr_Name (TSIG_Hdr t)), TW_Class = ClassANY,
      TW_Ttl = Hdr_Ttl (TSIG_Hdr t), TW_Algorithm = CanonicalName (TSIG_Algorithm t), TW_TimeSigned = TSIG_TimeSigned t,
      TW_Fudge = TSIG_Fudge t, TW_Error = TSIG_Error t, TW_OtherLen = TSIG_OtherLen t, TW_OtherData = TSIG_OtherData t\<rparr>
      (replicate DefaultMsgSize 0) = Ok (put (replicate DefaultMsgSize 0) 0 (mac_vars t False), length (mac_vars t False))"
    using n l o unfolding packTsigWire_def mac_vars_def
    by (simp add: pack_eqs put_put_at add.assoc del: add_2_eq_Suc add_2_eq_Suc' replicate.simps)
qed

lemma tsig_defaults_keeps [simp]:
  "TSIG_Hdr (tsig_defaults clock t) = TSIG_Hdr t" "TSIG_Algorithm (tsig_defaults clock t) = TSIG_Algorithm t"
  "TSIG_Error (tsig_defaults clock t) = TSIG_Error t" "TSIG_OtherLen (tsig_defaults clock t) = TSIG_OtherLen t"
  "TSIG_OtherData (tsig_defaults clock t) = TSIG_OtherData t" "TSIG_OrigId (tsig_defaults clock t) = TSIG_OrigId t"
  by (simp_all add: tsig_defaults_def Let_def)

lemma tsig_defaults_done: "TSIG_TimeSigned t \<noteq> 0 \<Longrightarrow> TSIG_Fudge t \<noteq> 0 \<Longrightarrow> tsig_defaults clock t = t"
  by (simp add: tsig_defaults_def)

lemma tsigBuffer_eq:
  assumes "tsig_ok t" and "request_mac_ok r"
  shows "tsigBuffer clock (enc_header dh @ body) t r timersOnly =
    Ok (mac_prefix r @ (enc_header (dh\<lparr>DH_Id := TSIG_OrigId t\<rparr>) @ body) @ mac_vars (tsig_defaults clock t) timersOnly,
        enc_header (dh\<lparr>DH_Id := TSIG_OrigId t\<rparr>) @ body, tsig_defaults clock t)"
proof -
  have ok: "tsig_ok (tsig_defaults clock t)" using assms(1) by (simp add: tsig_ok_def)
  note T = packTsigWire_eq [OF ok] packTimerWire_eq [of "tsig_defaults clock t"]
  show ?thesis
  proof (cases "r = []")
    case True
    then show ?thesis using T by (cases timersOnly) (simp_all add: tsigBuffer_def header_writes mac_prefix_def Let_def)
  next
    case False
    with packMacWire_eq [OF assms(2)] T show ?thesis by (cases timersOnly) (simp_all add: tsigBuffer_def header_writes Let_def)
  qed
qed

subsection \<open>What is signed verifies\<close>

text \<open>
  The messages that can be signed: a well-formed message with the TSIG record behind it, and no other
  TSIG record. A response with the RCODE NOTAUTH is never verified, and a record that reports a bad key or a
  bad signature is not signed.
\<close>

definition signable :: "u64 \<Rightarrow> Msg \<Rightarrow> TSIG \<Rightarrow> bool" where
  "signable clock m t \<longleftrightarrow>
     Msg_Extra m \<noteq> [] \<and> last (Msg_Extra m) = Some (RR_TSIG t) \<and> length (Msg_Extra m) \<le> 65535 \<and>
     msg_ok (m\<lparr>Msg_Extra := butlast (Msg_Extra m)\<rparr>) \<and> list_all (pred_option not_tsig) (butlast (Msg_Extra m)) \<and>
     Msg_Rcode m mod 16 \<noteq> 9 \<and> tsig_ok t \<and> TSIG_Error t \<noteq> RcodeBadKey \<and> TSIG_Error t \<noteq> RcodeBadSig \<and>
     TSIG_TimeSigned (tsig_defaults clock t) \<noteq> 0 \<and> TSIG_TimeSigned (tsig_defaults clock t) < 2 ^ 48"

definition in_window :: "TSIG \<Rightarrow> u64 \<Rightarrow> bool" where
  "in_window t now \<longleftrightarrow> \<bar>uint now - uint (TSIG_TimeSigned t)\<bar> \<le> uint (TSIG_Fudge t)"

lemma in_window_iff:
  "(ucast f < (if now < ts then ts - now else now - ts)) \<longleftrightarrow> \<not> \<bar>uint now - uint (ts :: u64)\<bar> \<le> uint (f :: u16)"
proof -
  have "uint f < 2 ^ 16" using uint_bounded [of f] by simp
  then have f: "uint (ucast f :: u64) = uint f" by (simp add: unsigned_ucast_eq take_bit_int_eq_self)
  show ?thesis
  proof (cases "now < ts")
    case True
    then have "uint (ts - now) = uint ts - uint now" "uint now < uint ts"
      using uint_sub_lem [of now ts] by (simp_all add: word_less_def)
    with True f show ?thesis by (auto simp: word_less_def)
  next
    case False
    then have "uint (now - ts) = uint now - uint ts" "uint ts \<le> uint now"
      using uint_sub_lem [of ts now] by (simp_all add: word_less_def)
    with False f show ?thesis by (auto simp: word_less_def)
  qed
qed

lemma no_ext_rcode_tsig: "pred_option not_tsig (no_ext_rcode r) = pred_option not_tsig r"
  by (auto simp: no_ext_rcode_def not_tsig_def SetExtendedRcode_def set_Ttl_def split: option.splits RR.splits)

lemma no_ext_rcodes_keeps:
  assumes "no_ext_rcodes dns1 = no_ext_rcodes dns"
  shows "list_all (pred_option not_tsig) (Msg_Extra dns1) = list_all (pred_option not_tsig) (Msg_Extra dns)"
    and "Msg_Rcode dns1 = Msg_Rcode dns" and "Msg_Opcode dns1 = Msg_Opcode dns"
proof -
  have "list_all (pred_option not_tsig) (map no_ext_rcode rs) = list_all (pred_option not_tsig) rs" for rs
    by (simp add: list.pred_map comp_def no_ext_rcode_tsig)
  with arg_cong [OF assms, of "\<lambda>m. list_all (pred_option not_tsig) (Msg_Extra m)"]
  show "list_all (pred_option not_tsig) (Msg_Extra dns1) = list_all (pred_option not_tsig) (Msg_Extra dns)"
    by (simp add: no_ext_rcodes_def)
  show "Msg_Rcode dns1 = Msg_Rcode dns" using arg_cong [OF assms, of Msg_Rcode] by (simp add: no_ext_rcodes_def)
  show "Msg_Opcode dns1 = Msg_Opcode dns" using arg_cong [OF assms, of Msg_Opcode] by (simp add: no_ext_rcodes_def)
qed

lemma wire_rcode:
  assumes "0 \<le> Msg_Opcode dns" and "Msg_Opcode dns < 16" and "0 \<le> Msg_Rcode dns"
  shows "uint (DH_Bits (wire_header dns) AND 0xF) = Msg_Rcode dns mod 16"
  using arg_cong [OF setHdr_msg_bits [OF assms, of "wire_header dns" new_Msg], of Msg_Rcode]
  by (simp add: wire_header_def setHdr_def)

text \<open>The record with its MAC.\<close>

definition with_mac :: "bytes \<Rightarrow> TSIG \<Rightarrow> TSIG" where
  "with_mac mac t = t\<lparr>TSIG_MAC := hexEncode mac, TSIG_MACSize := of_nat (length mac)\<rparr>"

lemma with_mac_ok:
  assumes "tsig_ok t" and "TSIG_TimeSigned t < 2 ^ 48" and "length mac \<le> 64"
  shows "rr_ok (RR_TSIG (with_mac mac t))" and "rd_size (RR_TSIG (with_mac mac t)) < 65536"
proof -
  have "take_bit 48 (TSIG_TimeSigned t) = TSIG_TimeSigned t" 
    using assms(2) by (subst word_unat_eq_iff) (simp add: unsigned_take_bit_eq take_bit_nat_eq_self word_less_nat_alt)
  moreover have "unat (of_nat (length mac) :: u16) = length mac" using assms(3) by (intro of_nat_count) simp
  ultimately show "rr_ok (RR_TSIG (with_mac mac t))"
    using assms(1) by (simp add: rr_ok_def type_ok_def with_mac_def tsig_ok_def ok_text_def text_octets_def hex.dec_txt_of)
  have "name_len (TSIG_Algorithm t) \<le> 255" using assms(1) ok_name_name_len(2) by (simp add: tsig_ok_def)
  moreover have "length (TSIG_OtherData t) div 2 \<le> 3500" using assms(1) hexDecode_ok [of "TSIG_OtherData t"] by (simp add: tsig_ok_def)
  ultimately show "rd_size (RR_TSIG (with_mac mac t)) < 65536"
    using assms(3) by (simp add: rd_size_TSIG with_mac_def length_hexEncode)
qed

text \<open>
  What \<^verbatim>\<open>TsigGenerateWithProvider\<close> and \<^verbatim>\<open>tsigVerify\<close> rely on: a provider that accepts the name of the key and the
  algorithm makes a MAC, and verifies it with a record of the same name and algorithm that carries it.
\<close>

locale tsig_provider =
  fixes p :: TsigProvider
    and accepts :: "gostring \<Rightarrow> gostring \<Rightarrow> bool"
  assumes generates: "accepts (Hdr_Name (TSIG_Hdr t)) (TSIG_Algorithm t) \<Longrightarrow> \<exists>mac. Generate p msg t = Ok mac \<and> length mac \<le> 64"
    and verifies: "Generate p msg t = Ok mac \<Longrightarrow> Hdr_Name (TSIG_Hdr t') = Hdr_Name (TSIG_Hdr t) \<Longrightarrow>
      TSIG_Algorithm t' = TSIG_Algorithm t \<Longrightarrow> TSIG_MAC t' = hexEncode mac \<Longrightarrow> Verify p msg t' = Ok ()"
begin

lemma generated:
  assumes s: "signable clock m t" and a: "accepts (Hdr_Name (TSIG_Hdr t)) (TSIG_Algorithm t)" and r: "request_mac_ok r"
  obtains m1 body mac where
    "TsigGenerateWithProvider clock m p r timersOnly =
      (m1, Ok (enc_header ((wire_header m1)\<lparr>DH_Id := TSIG_OrigId t, DH_Arcount := of_nat (length (Msg_Extra m1) + 1)\<rparr>) @ body @
        enc_tsig (with_mac mac (tsig_defaults clock t)), hexEncode mac))"
    and "Generate p (mac_prefix r @ (enc_header ((wire_header m1)\<lparr>DH_Id := TSIG_OrigId t\<rparr>) @ body) @
        mac_vars (tsig_defaults clock t) timersOnly) (tsig_defaults clock t) = Ok mac" and "length mac \<le> 64"
    and "Pack (m\<lparr>Msg_Extra := butlast (Msg_Extra m)\<rparr>) = (m1, Ok (enc_header (wire_header m1) @ body))"
    and "sections_ok m1" and "no_ext_rcodes m1 = no_ext_rcodes (m\<lparr>Msg_Extra := butlast (Msg_Extra m)\<rparr>)"
    and "length (Msg_Extra m1) = length (Msg_Extra m) - 1"
    and "\<And>dh r. body_reads m1 (enc_header dh @ body @ r) (12 + length body)"
proof -
  let ?m = "m\<lparr>Msg_Extra := butlast (Msg_Extra m)\<rparr>" and ?t = "tsig_defaults clock t"
  have S: "last (Msg_Extra m) = Some (RR_TSIG t)" "Msg_Extra m \<noteq> []" "msg_ok ?m" "tsig_ok t" "TSIG_Error t \<noteq> RcodeBadKey"
    "TSIG_Error t \<noteq> RcodeBadSig" "TSIG_TimeSigned ?t < 2 ^ 48" using s by (auto simp: signable_def)
  obtain m1 body where P: "Pack ?m = (m1, Ok (enc_header (wire_header m1) @ body))" "sections_ok m1"
    "length (Msg_Extra m1) = length (Msg_Extra ?m)" "no_ext_rcodes m1 = no_ext_rcodes ?m"
    "\<And>dh r. body_reads m1 (enc_header dh @ body @ r) (12 + length body)"
    by (rule Pack_body [OF S(3)]) (rule that)
  let ?dh = "(wire_header m1)\<lparr>DH_Id := TSIG_OrigId t\<rparr>"
  let ?buf = "mac_prefix r @ (enc_header ?dh @ body) @ mac_vars ?t timersOnly"
  obtain mac where g: "Generate p ?buf ?t = Ok mac" "length mac \<le> 64" using generates [of ?t ?buf] a by auto
  let ?w = "with_mac mac ?t"
  have "tsig_ok ?t" using S(4) by (simp add: tsig_ok_def)
  note ok = with_mac_ok [OF this S(7) g(2)]
  have i: "IsTsig m = Ok (Some t)" using S(1,2,4) by (simp add: IsTsig_def tsig_ok_def)
  have pr: "PackRR (Some (RR_TSIG ?w)) (replicate (Len (RR_TSIG ?w)) 0) 0 None False =
      Ok (Some (with_rdlength (of_nat (length (enc_tsig ?w) - (length (enc_wire (Hdr_Name (TSIG_Hdr ?w))) + 10))) (RR_TSIG ?w)),
          put (replicate (Len (RR_TSIG ?w)) 0) 0 (enc_tsig ?w), no_compression, length (enc_tsig ?w))"
    using packRR_tsig [OF ok, of 0 "replicate (Len (RR_TSIG ?w)) 0"]
    unfolding PackRR_def no_compression_def [symmetric] by (simp add: with_rdlength_def)
  have l: "length (enc_tsig ?w) \<le> Len (RR_TSIG ?w)"
    using length_enc_wire [of "Hdr_Name (TSIG_Hdr ?w)"] length_enc_tsig_rdata [of ?w] ok rr_len_None [of "RR_TSIG ?w" 0]
    by (simp add: rr_ok_def enc_tsig_def Len_def)
  have g2: "(go_slice (put (replicate (Len (RR_TSIG ?w)) 0) 0 (enc_tsig ?w)) 0 (length (enc_tsig ?w)) :: bytes res) = Ok (enc_tsig ?w)"
    using take_put_end [of 0 "enc_tsig ?w" "replicate (Len (RR_TSIG ?w)) 0"] l by (simp add: go_slice_def)
  have w: "?t\<lparr>TSIG_TimeSigned := TSIG_TimeSigned ?t, TSIG_MAC := hexEncode mac, TSIG_MACSize := of_nat (length (hexEncode mac) div 2)\<rparr> = ?w"
    by (simp add: with_mac_def length_hexEncode)
  have "TsigGenerateWithProvider clock m p r timersOnly =
      (m1, Ok (enc_header (?dh\<lparr>DH_Arcount := of_nat (length (Msg_Extra m1) + 1)\<rparr>) @ body @ enc_tsig ?w, hexEncode mac))"
    using i P(1) tsigBuffer_eq [OF S(4) r, of clock "wire_header m1" body timersOnly] g(1) S(5,6) pr g2
    by (simp add: TsigGenerateWithProvider_def Let_def w header_writes length_hexEncode) (simp add: with_mac_def)
  then show ?thesis using that P g by simp
qed

theorem generated_verifies:
  assumes s: "signable clock m t" and a: "accepts (Hdr_Name (TSIG_Hdr t)) (TSIG_Algorithm t)" and r: "request_mac_ok r"
  shows "\<exists>m1 mbuf mac. TsigGenerateWithProvider clock m p r timersOnly = (m1, Ok (mbuf, mac)) \<and>
    (\<forall>clock' now. tsigVerify clock' mbuf p r timersOnly now =
      (if in_window (tsig_defaults clock t) now then Ok () else Err ErrTime))"
proof -
  let ?t = "tsig_defaults clock t" and ?m = "m\<lparr>Msg_Extra := butlast (Msg_Extra m)\<rparr>"
  obtain m1 body mac where G: "TsigGenerateWithProvider clock m p r timersOnly =
      (m1, Ok (enc_header ((wire_header m1)\<lparr>DH_Id := TSIG_OrigId t, DH_Arcount := of_nat (length (Msg_Extra m1) + 1)\<rparr>) @ body @
        enc_tsig (with_mac mac ?t), hexEncode mac))"
    "Generate p (mac_prefix r @ (enc_header ((wire_header m1)\<lparr>DH_Id := TSIG_OrigId t\<rparr>) @ body) @ mac_vars ?t timersOnly) ?t = Ok mac"
    "length mac \<le> 64" "Pack ?m = (m1, Ok (enc_header (wire_header m1) @ body))" "sections_ok m1" "no_ext_rcodes m1 = no_ext_rcodes ?m"
    "length (Msg_Extra m1) = length (Msg_Extra m) - 1" "\<And>dh r. body_reads m1 (enc_header dh @ body @ r) (12 + length body)"
    by (rule generated [OF assms, of timersOnly]) (rule that)
  have S: "tsig_ok ?t" "TSIG_TimeSigned ?t < 2 ^ 48" "TSIG_TimeSigned ?t \<noteq> 0" "msg_ok ?m" "length (Msg_Extra m1) < 65535"
    "list_all (pred_option not_tsig) (Msg_Extra m1)"
    using s G(7) no_ext_rcodes_keeps(1) [OF G(6)] by (cases "Msg_Extra m"; auto simp: signable_def tsig_ok_def)+
  have F: "TSIG_Fudge ?t \<noteq> 0" by (simp add: tsig_defaults_def Let_def)
  let ?dh = "(wire_header m1)\<lparr>DH_Id := TSIG_OrigId t, DH_Arcount := of_nat (length (Msg_Extra m1) + 1)\<rparr>"
  have "uint (DH_Bits ?dh AND 0xF) = Msg_Rcode m mod 16"
    using wire_rcode [of m1] no_ext_rcodes_keeps(2,3) [OF G(6)] S(4) by (simp add: msg_ok_def)
  then have rc: "DH_Bits ?dh AND 0xF \<noteq> RcodeNotAuth" using s by (auto simp: signable_def)
  let ?w = "with_mac mac ?t"
  obtain n where st: "stripTsig (enc_header ?dh @ body @ enc_tsig ?w) =
      Ok (enc_header (?dh\<lparr>DH_Arcount := of_nat (length (Msg_Extra m1))\<rparr>) @ body, ?w\<lparr>TSIG_Hdr := (TSIG_Hdr ?w)\<lparr>Hdr_Rdlength := n\<rparr>\<rparr>)"
    using stripTsig_signed [OF G(8) G(5) with_mac_ok [OF S(1,2) G(3)] S(6,5) rc] by (auto simp: wire_header_def)
  let ?r = "?w\<lparr>TSIG_Hdr := (TSIG_Hdr ?w)\<lparr>Hdr_Rdlength := n\<rparr>\<rparr>"
  have ok: "tsig_ok ?r" using S(1) by (simp add: tsig_ok_def with_mac_def)
  have d: "tsig_defaults clock' ?r = ?r" for clock' using S(3) F by (intro tsig_defaults_done) (simp_all add: with_mac_def)
  have v: "mac_vars ?r timersOnly = mac_vars ?t timersOnly" by (simp add: mac_vars_def with_mac_def)
  have h: "?dh\<lparr>DH_Arcount := of_nat (length (Msg_Extra m1)), DH_Id := TSIG_OrigId t\<rparr> = (wire_header m1)\<lparr>DH_Id := TSIG_OrigId t\<rparr>"
    by (simp add: wire_header_def)
  have id: "TSIG_OrigId ?r = TSIG_OrigId t" by (simp add: with_mac_def)
  let ?buf = "mac_prefix r @ (enc_header ((wire_header m1)\<lparr>DH_Id := TSIG_OrigId t\<rparr>) @ body) @ mac_vars ?t timersOnly"
  have b: "tsigBuffer clock' (enc_header (?dh\<lparr>DH_Arcount := of_nat (length (Msg_Extra m1))\<rparr>) @ body) ?r r timersOnly =
      Ok (?buf, enc_header ((wire_header m1)\<lparr>DH_Id := TSIG_OrigId t\<rparr>) @ body, ?r)" for clock'
    unfolding tsigBuffer_eq [OF ok assms(3)] d id h v by (rule refl)
  have "Verify p ?buf ?r = Ok ()" by (rule verifies [OF G(2)]) (simp_all add: with_mac_def)
  then have "tsigVerify clock' (enc_header ?dh @ body @ enc_tsig ?w) p r timersOnly now =
      (if in_window ?t now then Ok () else Err ErrTime)" for clock' now
    unfolding tsigVerify_def st using b [of clock'] in_window_iff [of "TSIG_Fudge ?t" now "TSIG_TimeSigned ?t"]
    by (simp add: Let_def in_window_def with_mac_def del: append_assoc split del: if_split cong: if_cong) simp
  with G(1) show ?thesis by blast
qed

end

subsection \<open>The providers of the package\<close>

lemma hexDecode_hexEncode: "hexDecode (hexEncode bs) = Some bs"
  by (rule hex.dec_txt_of)

text \<open>The algorithms that \<^verbatim>\<open>tsigHMACProvider\<close> knows.\<close>

definition hmac_algorithm :: "gostring \<Rightarrow> bool" where
  "hmac_algorithm alg \<longleftrightarrow> CanonicalName alg \<in>
     {str ''hmac-sha1.'', str ''hmac-sha224.'', str ''hmac-sha256.'', str ''hmac-sha384.'', str ''hmac-sha512.''}"

lemma HMAC_Generate_ok:
  assumes "fromBase64 key \<noteq> None" and "hmac_algorithm (TSIG_Algorithm t)"
  shows "\<exists>mac. HMAC_Generate key msg t = Ok mac \<and> length mac \<le> 64"
  using assms length_sha length_hmac by (auto simp: HMAC_Generate_def hmac_algorithm_def Let_def split: option.splits)

lemma HMAC_Generate_alg:
  assumes "TSIG_Algorithm t' = TSIG_Algorithm t"
  shows "HMAC_Generate key msg t' = HMAC_Generate key msg t"
  unfolding HMAC_Generate_def assms ..

lemma HMAC_Verify_ok:
  assumes "HMAC_Generate key msg t = Ok mac" and "TSIG_Algorithm t' = TSIG_Algorithm t" and "TSIG_MAC t' = hexEncode mac"
  shows "HMAC_Verify key msg t' = Ok ()"
  using assms HMAC_Generate_alg [OF assms(2)] by (simp add: HMAC_Verify_def hexDecode_hexEncode)

interpretation hmacs: tsig_provider "tsigHMACProvider key" "\<lambda>name alg. fromBase64 key \<noteq> None \<and> hmac_algorithm alg" for key
proof
  fix t :: TSIG and msg
  assume "fromBase64 key \<noteq> None \<and> hmac_algorithm (TSIG_Algorithm t)"
  then show "\<exists>mac. Generate (tsigHMACProvider key) msg t = Ok mac \<and> length mac \<le> 64"
    using HMAC_Generate_ok by (simp add: tsigHMACProvider_def)
qed (simp add: tsigHMACProvider_def HMAC_Verify_ok)

interpretation secrets: tsig_provider "tsigSecretProvider ts"
  "\<lambda>name alg. (\<exists>key. ts name = Some key \<and> fromBase64 key \<noteq> None) \<and> hmac_algorithm alg" for ts
proof
  fix t :: TSIG and msg
  assume "(\<exists>key. ts (Hdr_Name (TSIG_Hdr t)) = Some key \<and> fromBase64 key \<noteq> None) \<and> hmac_algorithm (TSIG_Algorithm t)"
  then show "\<exists>mac. Generate (tsigSecretProvider ts) msg t = Ok mac \<and> length mac \<le> 64"
    using HMAC_Generate_ok by (auto simp: tsigSecretProvider_def Secret_Generate_def)
next
  fix msg mac and t t' :: TSIG
  assume "Generate (tsigSecretProvider ts) msg t = Ok mac" "Hdr_Name (TSIG_Hdr t') = Hdr_Name (TSIG_Hdr t)"
    "TSIG_Algorithm t' = TSIG_Algorithm t" "TSIG_MAC t' = hexEncode mac"
  then show "Verify (tsigSecretProvider ts) msg t' = Ok ()"
    using HMAC_Verify_ok by (auto simp: tsigSecretProvider_def Secret_Generate_def Secret_Verify_def split: option.splits)
qed

subsection \<open>What is accepted has a valid record\<close>

lemma stripTsig_loop_found:
  assumes "stripTsig_loop n msg off toff = Ok (msg', toff', rr)"
  shows "rr = TSIG_zero \<or> (\<exists>o'. UnpackRR msg toff' = Ok (RR_TSIG rr, o') \<and> Hdr_Rrtype (TSIG_Hdr rr) = TypeTSIG \<and>
    (\<exists>c. go_slice msg 10 12 = (Ok c :: bytes res) \<and> msg' = put msg 10 (be16 (be_word c - 1))))"
  using assms
proof (induction n arbitrary: off toff)
  case (Suc n)
  then obtain extra o1 where u: "UnpackRR msg off = Ok (extra, o1)" by (auto simp: bindR_eq_Ok)
  show ?case
  proof (cases "Hdr_Rrtype (rr_Header extra) = TypeTSIG")
    case True
    with Suc.prems u show ?thesis by (auto simp: bindR_eq_Ok write_at_def split: RR.splits if_splits)
  next
    case False
    with Suc u show ?thesis by auto
  qed
qed simp

lemma no_algorithm: "\<not> hmac_algorithm []"
proof -
  have "CanonicalName [] = [DOT]" by code_simp
  then show ?thesis by (simp add: hmac_algorithm_def str_def)
qed

lemma HMAC_Generate_Ok_D: "HMAC_Generate key msg t = Ok mac \<Longrightarrow> hmac_algorithm (TSIG_Algorithm t)"
  by (auto simp: HMAC_Generate_def hmac_algorithm_def Let_def split: option.splits if_splits)

lemma stripTsig_D:
  assumes "stripTsig msg = Ok (stripped, rr)"
  shows "rr = TSIG_zero \<or> (\<exists>off o' c. UnpackRR msg off = Ok (RR_TSIG rr, o') \<and> Hdr_Rrtype (TSIG_Hdr rr) = TypeTSIG \<and>
    go_slice msg 10 12 = (Ok c :: bytes res) \<and> stripped = take off (put msg 10 (be16 (be_word c - 1))))"
proof -
  from assms obtain n off msg' toff where l: "stripTsig_loop n msg off 0 = Ok (msg', toff, rr)"
    and g: "(go_slice msg' 0 toff :: bytes res) = Ok stripped" by (auto simp: stripTsig_def bindR_eq_Ok split: if_splits)
  from g have "stripped = take toff msg'" by (simp add: go_slice_def split: if_splits)
  with stripTsig_loop_found [OF l] show ?thesis by blast
qed

subsection \<open>The properties\<close>

text \<open>
  An example: a query, to be signed.
\<close>

definition ex_TSIG :: TSIG where
  "ex_TSIG = (TSIG_new \<lparr>Hdr_Name = str ''key.'', Hdr_Rrtype = TypeTSIG, Hdr_Class = ClassANY, Hdr_Ttl = 0, Hdr_Rdlength = 0\<rparr>)
     \<lparr>TSIG_Algorithm := str ''hmac-sha256.'', TSIG_OrigId := 7\<rparr>"

definition ex_signed :: Msg where
  "ex_signed = new_Msg\<lparr>Msg_Id := 7, Msg_Question := [\<lparr>Q_Name = str ''a.'', Q_Qtype = TypeA, Q_Qclass = 1\<rparr>],
     Msg_Extra := [Some ex_OPT, Some (RR_TSIG ex_TSIG)]\<rparr>"

definition ex_secret :: gostring where
  "ex_secret = toBase64 (str ''secret'')"

lemma ex_names: "ok_name (str ''key.'')" "ok_name (str ''hmac-sha256.'')"
  by code_simp+

lemma ex_secret_ok: "fromBase64 ex_secret \<noteq> None"
  by (simp add: ex_secret_def)

lemma ex_algorithm: "hmac_algorithm (str ''hmac-sha256.'')"
  by code_simp

lemma ex_request: "request_mac_ok (str ''00ff'')"
  by code_simp

lemmas ex_TSIG_facts = ex_names ex_secret_ok ex_algorithm ex_request

lemma ex_signable: "signable 1700000000 ex_signed ex_TSIG"
  using ex_rrs ex_TSIG_facts(1,2)
  by (simp add: signable_def ex_signed_def msg_ok_def sections_ok_def new_Msg_def rr_fits_def ex_TSIG_def TSIG_new_def tsig_ok_def
      tsig_defaults_def Let_def not_tsig_def ok_text_def text_octets_def hexEncode_def) (simp add: ex_OPT_def)

text \<open>
  C4: A message that \<^verbatim>\<open>TsigGenerate\<close> has signed verifies. Given: a message that is well-formed without its TSIG record, has
  just this one TSIG record, at its end, and whose RCODE does not have NOTAUTH (9) in its lower four bits (such a message would be signed, and then
  refused); a TSIG record with well-formed key and algorithm names, with HMAC-SHA1, SHA224, SHA256, SHA384 or SHA512, other data in
  hexadecimal of the stated length of at most 3500 octets, an error that is neither BADKEY nor BADSIG, and a time of signing that, after the
  defaults are filled in, is not zero and has 48 bits; a secret that is base64; and a request MAC that is absent or is hexadecimal of two octets at least.
  Then signing succeeds, and \<^verbatim>\<open>TsigVerify\<close> of the octets, with the same secret, request MAC and
  mode, returns no error exactly when the time is within the fudge of the time of signing, and a bad time otherwise;
  although the verifier finds the record by unpacking the message, and computes the MAC over
  octets it cut out of it, with names in the form in which they were read.
\<close>

theorem signed_message_verifies:
  assumes "signable clock m t" and "fromBase64 secret \<noteq> None" and "hmac_algorithm (TSIG_Algorithm t)" and "request_mac_ok requestMAC"
  shows "\<exists>m1 mbuf mac. TsigGenerate clock m secret requestMAC timersOnly = (m1, Ok (mbuf, mac)) \<and>
    (\<forall>clock' now. TsigVerify clock' mbuf secret requestMAC timersOnly now =
      (if in_window (tsig_defaults clock t) now then Ok () else Err ErrTime))"
  using hmacs.generated_verifies [OF assms(1) _ assms(4), of secret timersOnly] assms(2,3)
  unfolding TsigGenerate_def TsigVerify_def by blast

theorem signed_message_verifies_witness:
  "\<exists>m1 mbuf mac. TsigGenerate 1700000000 ex_signed ex_secret (str ''00ff'') False = (m1, Ok (mbuf, mac)) \<and>
    TsigVerify 0 mbuf ex_secret (str ''00ff'') False 1700000300 = Ok () \<and>
    TsigVerify 0 mbuf ex_secret (str ''00ff'') False 1700000301 = Err ErrTime"
proof -
  have "hmac_algorithm (TSIG_Algorithm ex_TSIG)" using ex_TSIG_facts(4) by (simp add: ex_TSIG_def)
  note S = signed_message_verifies [OF ex_signable ex_TSIG_facts(3) this ex_TSIG_facts(5), of False]
  have "in_window (tsig_defaults 1700000000 ex_TSIG) 1700000300" "\<not> in_window (tsig_defaults 1700000000 ex_TSIG) 1700000301"
    by (simp_all add: in_window_def tsig_defaults_def ex_TSIG_def TSIG_new_def)
  with S show ?thesis by metis
qed

text \<open>
  C7: \<^verbatim>\<open>TsigVerify\<close> accepts nothing without a signature: when it returns no error, the octets hold a record of
  type TSIG whose MAC is the HMAC, with the secret, of the request MAC, the octets before the record (with the original
  identifier and one additional record less) and the variables of the record, and the time is within its fudge.
\<close>

theorem accepted_message_is_signed:
  assumes "TsigVerify clock msg secret requestMAC timersOnly now = Ok ()"
  shows "\<exists>off o' t buf msgbuf c mac. UnpackRR msg off = Ok (RR_TSIG t, o') \<and> Hdr_Rrtype (TSIG_Hdr t) = TypeTSIG \<and>
    go_slice msg 10 12 = (Ok c :: bytes res) \<and>
    tsigBuffer clock (take off (put msg 10 (be16 (be_word c - 1)))) t requestMAC timersOnly = Ok (buf, msgbuf, tsig_defaults clock t) \<and>
    HMAC_Generate secret buf t = Ok mac \<and> hexDecode (TSIG_MAC t) = Some mac \<and> in_window (tsig_defaults clock t) now"
proof -
  from assms obtain stripped t buf msgbuf t1 where s: "stripTsig msg = Ok (stripped, t)"
    and b: "tsigBuffer clock stripped t requestMAC timersOnly = Ok (buf, msgbuf, t1)" and v: "HMAC_Verify secret buf t1 = Ok ()"
    and w: "\<not> ucast (TSIG_Fudge t1) < (if now < TSIG_TimeSigned t1 then TSIG_TimeSigned t1 - now else now - TSIG_TimeSigned t1)"
    by (auto simp: TsigVerify_def tsigVerify_def tsigHMACProvider_def bindR_eq_Ok Let_def split: if_splits)
  have t1: "t1 = tsig_defaults clock t" using b by (auto simp: tsigBuffer_def Let_def bindR_eq_Ok)
  from v obtain mac where m: "HMAC_Generate secret buf t1 = Ok mac" "hexDecode (TSIG_MAC t1) = Some mac"
    by (auto simp: HMAC_Verify_def bindR_eq_Ok split: option.splits if_splits)
  have "t \<noteq> TSIG_zero" using HMAC_Generate_Ok_D [OF m(1)] no_algorithm by (auto simp: t1 TSIG_zero_def TSIG_new_def)
  moreover have "HMAC_Generate secret buf t = Ok mac" "TSIG_MAC t1 = TSIG_MAC t" 
    using m(1) HMAC_Generate_alg [of t1 t] by (simp_all add: t1) (simp add: tsig_defaults_def Let_def)
  moreover have "in_window t1 now" using w in_window_iff [of "TSIG_Fudge t1" now "TSIG_TimeSigned t1"] by (simp add: in_window_def)
  ultimately show ?thesis using stripTsig_D [OF s] b m(2) unfolding t1 by (metis (no_types))
qed

theorem accepted_message_is_signed_witness:
  "\<exists>msg off o' t. TsigVerify 0 msg ex_secret [] False 1700000000 = Ok () \<and> UnpackRR msg off = Ok (RR_TSIG t, o') \<and>
    Hdr_Rrtype (TSIG_Hdr t) = TypeTSIG \<and> in_window (tsig_defaults 0 t) 1700000000"
proof -
  have a: "hmac_algorithm (TSIG_Algorithm ex_TSIG)" using ex_TSIG_facts(4) by (simp add: ex_TSIG_def)
  have r: "request_mac_ok []" by (simp add: request_mac_ok_def)
  have "in_window (tsig_defaults 1700000000 ex_TSIG) 1700000000"
    by (simp add: in_window_def tsig_defaults_def ex_TSIG_def TSIG_new_def)
  with hmacs.generated_verifies [OF ex_signable _ r, of ex_secret False] a ex_TSIG_facts(3)
  obtain msg where v: "TsigVerify 0 msg ex_secret [] False 1700000000 = Ok ()" unfolding TsigVerify_def by metis
  with accepted_message_is_signed [OF v] show ?thesis by blast
qed

end
