(* ===== verification/Requests.thy ===== *)
theory Requests
  imports Tsig
begin

section \<open>Building requests, replies and updates\<close>

text \<open>
  The methods of \<^verbatim>\<open>Msg\<close> in \<^verbatim>\<open>defaults.go\<close> that fill in a message, and the dynamic
  updates of \<^verbatim>\<open>update.go\<close> (RFC 2136). The random identifier that \<^verbatim>\<open>Id\<close> returns is an argument
  \<open>ident\<close>. The methods return the message they change. \<^verbatim>\<open>Used\<close>, \<^verbatim>\<open>Insert\<close> and
  \<^verbatim>\<open>Remove\<close> change the headers of the records they are given, which are then shared with the message; the
  model has the changed records in the message.
\<close>

abbreviation ClassINET :: u16 where "ClassINET \<equiv> 1"
abbreviation ClassNONE :: u16 where "ClassNONE \<equiv> 254"
abbreviation OpcodeQuery :: int where "OpcodeQuery \<equiv> 0"
abbreviation OpcodeNotify :: int where "OpcodeNotify \<equiv> 4"
abbreviation OpcodeUpdate :: int where "OpcodeUpdate \<equiv> 5"
abbreviation RcodeSuccess :: int where "RcodeSuccess \<equiv> 0"
abbreviation RcodeFormatError :: int where "RcodeFormatError \<equiv> 1"
abbreviation RcodeServerFailure :: int where "RcodeServerFailure \<equiv> 2"
abbreviation RcodeNotImplemented :: int where "RcodeNotImplemented \<equiv> 4"
abbreviation RcodeRefused :: int where "RcodeRefused \<equiv> 5"
abbreviation TypeIXFR :: u16 where "TypeIXFR \<equiv> 251"
abbreviation TypeAXFR :: u16 where "TypeAXFR \<equiv> 252"
abbreviation defaultTtl :: u32 where "defaultTtl \<equiv> 3600"

subsection \<open>Replies and questions\<close>

definition SetReply :: "Msg \<Rightarrow> Msg \<Rightarrow> Msg" where
  "SetReply request dns =
     (let dns = dns\<lparr>Msg_Id := Msg_Id request, Msg_Response := True, Msg_Opcode := Msg_Opcode request\<rparr>;
          dns = (if Msg_Opcode dns = OpcodeQuery
                 then dns\<lparr>Msg_RecursionDesired := Msg_RecursionDesired request,
                          Msg_CheckingDisabled := Msg_CheckingDisabled request\<rparr>
                 else dns);
          dns = dns\<lparr>Msg_Rcode := RcodeSuccess\<rparr> in
      case Msg_Question request of [] \<Rightarrow> dns | q # _ \<Rightarrow> dns\<lparr>Msg_Question := [q]\<rparr>)"

definition SetQuestion :: "u16 \<Rightarrow> gostring \<Rightarrow> u16 \<Rightarrow> Msg \<Rightarrow> Msg" where
  "SetQuestion ident z t dns =
     dns\<lparr>Msg_Id := ident, Msg_RecursionDesired := True,
         Msg_Question := [\<lparr>Q_Name = z, Q_Qtype = t, Q_Qclass = ClassINET\<rparr>]\<rparr>"

definition SetNotify :: "u16 \<Rightarrow> gostring \<Rightarrow> Msg \<Rightarrow> Msg" where
  "SetNotify ident z dns =
     dns\<lparr>Msg_Opcode := OpcodeNotify, Msg_Authoritative := True, Msg_Id := ident,
         Msg_Question := [\<lparr>Q_Name = z, Q_Qtype = TypeSOA, Q_Qclass = ClassINET\<rparr>]\<rparr>"

definition SetRcode :: "Msg \<Rightarrow> int \<Rightarrow> Msg \<Rightarrow> Msg" where
  "SetRcode request rcode dns = (SetReply request dns)\<lparr>Msg_Rcode := rcode\<rparr>"

definition SetRcodeFormatError :: "Msg \<Rightarrow> Msg \<Rightarrow> Msg" where
  "SetRcodeFormatError request dns =
     dns\<lparr>Msg_Rcode := RcodeFormatError, Msg_Opcode := OpcodeQuery, Msg_Response := True,
         Msg_Authoritative := False, Msg_Id := Msg_Id request\<rparr>"

definition SetUpdate :: "u16 \<Rightarrow> gostring \<Rightarrow> Msg \<Rightarrow> Msg" where
  "SetUpdate ident z dns =
     dns\<lparr>Msg_Id := ident, Msg_Response := False, Msg_Opcode := OpcodeUpdate, Msg_Compress := False,
         Msg_Question := [\<lparr>Q_Name = z, Q_Qtype = TypeSOA, Q_Qclass = ClassINET\<rparr>]\<rparr>"

definition SetIxfr :: "u16 \<Rightarrow> gostring \<Rightarrow> u32 \<Rightarrow> gostring \<Rightarrow> gostring \<Rightarrow> Msg \<Rightarrow> Msg" where
  "SetIxfr ident z serial ns mbox dns =
     (let s = (SOA_new \<lparr>Hdr_Name = z, Hdr_Rrtype = TypeSOA, Hdr_Class = ClassINET, Hdr_Ttl = defaultTtl, Hdr_Rdlength = 0\<rparr>)
                \<lparr>SOA_Serial := serial, SOA_Ns := ns, SOA_Mbox := mbox\<rparr> in
      dns\<lparr>Msg_Id := ident, Msg_Question := [\<lparr>Q_Name = z, Q_Qtype = TypeIXFR, Q_Qclass = ClassINET\<rparr>],
          Msg_Ns := [Some (RR_SOA s)]\<rparr>)"

definition SetAxfr :: "u16 \<Rightarrow> gostring \<Rightarrow> Msg \<Rightarrow> Msg" where
  "SetAxfr ident z dns =
     dns\<lparr>Msg_Id := ident, Msg_Question := [\<lparr>Q_Name = z, Q_Qtype = TypeAXFR, Q_Qclass = ClassINET\<rparr>]\<rparr>"

definition SetTsig :: "gostring \<Rightarrow> gostring \<Rightarrow> u16 \<Rightarrow> 64 word \<Rightarrow> Msg \<Rightarrow> Msg" where
  "SetTsig z algo fudge timesigned dns =
     (let t = (TSIG_new \<lparr>Hdr_Name = z, Hdr_Rrtype = TypeTSIG, Hdr_Class = ClassANY, Hdr_Ttl = 0, Hdr_Rdlength = 0\<rparr>)
                \<lparr>TSIG_Algorithm := algo, TSIG_Fudge := fudge, TSIG_TimeSigned := timesigned, TSIG_OrigId := Msg_Id dns\<rparr> in
      dns\<lparr>Msg_Extra := Msg_Extra dns @ [Some (RR_TSIG t)]\<rparr>)"

definition SetEdns0 :: "u16 \<Rightarrow> bool \<Rightarrow> Msg \<Rightarrow> Msg" where
  "SetEdns0 udpsize do_bit dns =
     (let e = SetUDPSize udpsize (OPT_new (zero_Header\<lparr>Hdr_Name := [DOT], Hdr_Rrtype := TypeOPT\<rparr>));
          e = (if do_bit then SetDo [] e else e) in
      dns\<lparr>Msg_Extra := Msg_Extra dns @ [Some (RR_OPT e)]\<rparr>)"

definition IsMsg :: "bytes \<Rightarrow> unit res" where
  "IsMsg buf = (if length buf < headerSize then Err (ErrMsg ''dns: bad message header'') else Ok ())"

subsection \<open>Dynamic updates\<close>

text \<open>A record without data, and the headers of a list of records; a nil record has no header.\<close>

definition any_rr :: "gostring \<Rightarrow> u16 \<Rightarrow> u16 \<Rightarrow> RR option" where
  "any_rr name rrtype class =
     Some (RR_ANY (ANY_new \<lparr>Hdr_Name = name, Hdr_Rrtype = rrtype, Hdr_Class = class, Hdr_Ttl = 0, Hdr_Rdlength = 0\<rparr>))"

fun map_headers :: "(RR \<Rightarrow> RR option) \<Rightarrow> RR option list \<Rightarrow> RR option list res" where
  "map_headers f [] = Ok []"
| "map_headers f (None # rrs) = Panic"
| "map_headers f (Some r # rrs) = bindR (map_headers f rrs) (\<lambda>rs. Ok (f r # rs))"

definition NameUsed :: "RR option list \<Rightarrow> Msg \<Rightarrow> Msg res" where
  "NameUsed rr u =
     bindR (map_headers (\<lambda>r. any_rr (Hdr_Name (rr_Header r)) TypeANY ClassANY) rr) (\<lambda>rs.
     Ok (u\<lparr>Msg_Answer := Msg_Answer u @ rs\<rparr>))"

definition NameNotUsed :: "RR option list \<Rightarrow> Msg \<Rightarrow> Msg res" where
  "NameNotUsed rr u =
     bindR (map_headers (\<lambda>r. any_rr (Hdr_Name (rr_Header r)) TypeANY ClassNONE) rr) (\<lambda>rs.
     Ok (u\<lparr>Msg_Answer := Msg_Answer u @ rs\<rparr>))"

definition Used :: "RR option list \<Rightarrow> Msg \<Rightarrow> Msg res" where
  "Used rr u =
     (case Msg_Question u of
        [] \<Rightarrow> Panic
      | q # _ \<Rightarrow>
          bindR (map_headers (\<lambda>r. Some (set_Header ((rr_Header r)\<lparr>Hdr_Class := Q_Qclass q, Hdr_Ttl := 0\<rparr>) r)) rr) (\<lambda>rs.
          Ok (u\<lparr>Msg_Answer := Msg_Answer u @ rs\<rparr>)))"

definition RRsetUsed :: "RR option list \<Rightarrow> Msg \<Rightarrow> Msg res" where
  "RRsetUsed rr u =
     bindR (map_headers (\<lambda>r. any_rr (Hdr_Name (rr_Header r)) (Hdr_Rrtype (rr_Header r)) ClassANY) rr) (\<lambda>rs.
     Ok (u\<lparr>Msg_Answer := Msg_Answer u @ rs\<rparr>))"

definition RRsetNotUsed :: "RR option list \<Rightarrow> Msg \<Rightarrow> Msg res" where
  "RRsetNotUsed rr u =
     bindR (map_headers (\<lambda>r. any_rr (Hdr_Name (rr_Header r)) (Hdr_Rrtype (rr_Header r)) ClassNONE) rr) (\<lambda>rs.
     Ok (u\<lparr>Msg_Answer := Msg_Answer u @ rs\<rparr>))"

definition Insert :: "RR option list \<Rightarrow> Msg \<Rightarrow> Msg res" where
  "Insert rr u =
     (case Msg_Question u of
        [] \<Rightarrow> Panic
      | q # _ \<Rightarrow>
          bindR (map_headers (\<lambda>r. Some (set_Header ((rr_Header r)\<lparr>Hdr_Class := Q_Qclass q\<rparr>) r)) rr) (\<lambda>rs.
          Ok (u\<lparr>Msg_Ns := Msg_Ns u @ rs\<rparr>)))"

definition RemoveRRset :: "RR option list \<Rightarrow> Msg \<Rightarrow> Msg res" where
  "RemoveRRset rr u =
     bindR (map_headers (\<lambda>r. any_rr (Hdr_Name (rr_Header r)) (Hdr_Rrtype (rr_Header r)) ClassANY) rr) (\<lambda>rs.
     Ok (u\<lparr>Msg_Ns := Msg_Ns u @ rs\<rparr>))"

definition RemoveName :: "RR option list \<Rightarrow> Msg \<Rightarrow> Msg res" where
  "RemoveName rr u =
     bindR (map_headers (\<lambda>r. any_rr (Hdr_Name (rr_Header r)) TypeANY ClassANY) rr) (\<lambda>rs.
     Ok (u\<lparr>Msg_Ns := Msg_Ns u @ rs\<rparr>))"

definition Remove :: "RR option list \<Rightarrow> Msg \<Rightarrow> Msg res" where
  "Remove rr u =
     bindR (map_headers (\<lambda>r. Some (set_Header ((rr_Header r)\<lparr>Hdr_Class := ClassNONE, Hdr_Ttl := 0\<rparr>) r)) rr) (\<lambda>rs.
     Ok (u\<lparr>Msg_Ns := Msg_Ns u @ rs\<rparr>))"

end
