(* ===== verification/Serving.thy ===== *)
theory Serving
  imports Requests
begin

section \<open>Serving requests\<close>

text \<open>
  The part of \<^verbatim>\<open>server.go\<close> that handles one request, with \<^verbatim>\<open>acceptfunc.go\<close> and the
  multiplexer of \<^verbatim>\<open>serve_mux.go\<close>. The state is the \<^verbatim>\<open>response\<close> of a connection: its flags, its
  TSIG state and the packets written to the network so far. The network is the field \<open>W_net\<close>: the error it
  returns for a packet, or none. A handler is a function that changes this state or panics. Listening, deadlines, the pool of
  buffers, the locks and the goroutines are not part of the model; a custom \<^verbatim>\<open>DecorateWriter\<close> neither.
\<close>

abbreviation MaxMsgSize :: nat where "MaxMsgSize \<equiv> 65535"
abbreviation ErrShortRead :: error where "ErrShortRead \<equiv> ErrMsg ''short read''"
abbreviation maxTCPQueries :: int where "maxTCPQueries \<equiv> 128"

subsection \<open>Accepting messages\<close>

datatype MsgAcceptAction = MsgAccept | MsgReject | MsgIgnore | MsgRejectNotImplemented

definition defaultMsgAcceptFunc :: "Header \<Rightarrow> MsgAcceptAction" where
  "defaultMsgAcceptFunc dh =
     (if DH_Bits dh AND QR_bit \<noteq> 0 then MsgIgnore
      else
        let opcode = uint (drop_bit 11 (DH_Bits dh)) AND 0xF in
        if opcode \<noteq> OpcodeQuery \<and> opcode \<noteq> OpcodeNotify then MsgRejectNotImplemented
        else if DH_Qdcount dh \<noteq> 1 then MsgReject
        else if DH_Ancount dh > 1 then MsgReject
        else if DH_Nscount dh > 1 then MsgReject
        else if DH_Arcount dh > 2 then MsgReject
        else MsgAccept)"

subsection \<open>The response writer\<close>

datatype transport = NoConn | UDP | TCP

record response =
  W_closed :: bool
  W_hijacked :: bool
  W_tsigTimersOnly :: bool
  W_tsigStatus :: "unit res"
  W_tsigRequestMAC :: gostring
  W_tsigProvider :: "TsigProvider option"
  W_conn :: transport
  W_net :: "bytes \<Rightarrow> error option"
  W_sent :: "bytes list"

definition net_write :: "bytes \<Rightarrow> response \<Rightarrow> response \<times> unit res" where
  "net_write p w =
     (case W_net w p of
        None \<Rightarrow> (w\<lparr>W_sent := W_sent w @ [p]\<rparr>, Ok ())
      | Some e \<Rightarrow> (w, Err e))"

definition Write :: "bytes \<Rightarrow> response \<Rightarrow> response \<times> unit res" where
  "Write m w =
     (if W_closed w then (w, Err (ErrMsg ''Write called after Close''))
      else case W_conn w of
        UDP \<Rightarrow> net_write m w
      | TCP \<Rightarrow>
          if length m > MaxMsgSize then (w, Err (ErrMsg ''message too large''))
          else net_write (be16 (of_nat (length m)) @ m) w
      | NoConn \<Rightarrow> (w, Panic))"

text \<open>\<^verbatim>\<open>WriteMsg\<close> also changes the message: it takes the TSIG record off, or sets the extended RCODE.\<close>

definition WriteMsg :: "u64 \<Rightarrow> Msg \<Rightarrow> response \<Rightarrow> response \<times> Msg \<times> unit res" where
  "WriteMsg clock m w =
     (if W_closed w then (w, m, Err (ErrMsg ''WriteMsg called after Close''))
      else
        case (case W_tsigProvider w of
                None \<Rightarrow> Ok None
              | Some p \<Rightarrow> bindR (IsTsig m) (\<lambda>t. Ok (map_option (\<lambda>_. p) t))) of
          Ok (Some p) \<Rightarrow>
            (case TsigGenerateWithProvider clock m p (W_tsigRequestMAC w) (W_tsigTimersOnly w) of
               (m, Ok (data, mac)) \<Rightarrow> (let (w, r) = Write data (w\<lparr>W_tsigRequestMAC := mac\<rparr>) in (w, m, r))
             | (m, Err e) \<Rightarrow> (w\<lparr>W_tsigRequestMAC := []\<rparr>, m, Err e)
             | (m, Panic) \<Rightarrow> (w, m, Panic))
        | Ok None \<Rightarrow>
            (case Pack m of
               (m, Ok data) \<Rightarrow> (let (w, r) = Write data w in (w, m, r))
             | (m, Err e) \<Rightarrow> (w, m, Err e)
             | (m, Panic) \<Rightarrow> (w, m, Panic))
        | _ \<Rightarrow> (w, m, Panic))"

text \<open>A write whose error is ignored: the connection afterwards, unless the write panics.\<close>

definition written :: "response \<times> Msg \<times> unit res \<Rightarrow> response res" where
  "written r = (case r of (w, _, Panic) \<Rightarrow> Panic | (w, _, _) \<Rightarrow> Ok w)"

definition Hijack :: "response \<Rightarrow> response" where
  "Hijack w = w\<lparr>W_hijacked := True\<rparr>"

definition TsigTimersOnly :: "bool \<Rightarrow> response \<Rightarrow> response" where
  "TsigTimersOnly b w = w\<lparr>W_tsigTimersOnly := b\<rparr>"

text \<open>\<^verbatim>\<open>Close\<close>; what closing a TCP connection returns is not modelled.\<close>

definition Close :: "response \<Rightarrow> response \<times> unit res" where
  "Close w =
     (if W_closed w then (w, Err (ErrMsg ''connection already closed''))
      else (w\<lparr>W_closed := True\<rparr>, if W_conn w = NoConn then Panic else Ok ()))"

subsection \<open>The multiplexer\<close>

type_synonym handler = "response \<Rightarrow> Msg \<Rightarrow> response res"

text \<open>A multiplexer is its map, which is nil at first.\<close>

type_synonym 'h ServeMux = "(gostring \<rightharpoonup> 'h) option"

function match_loop :: "(gostring \<rightharpoonup> 'h) \<Rightarrow> gostring \<Rightarrow> u16 \<Rightarrow> nat \<Rightarrow> 'h option \<Rightarrow> 'h + 'h option" where
  "match_loop z q t off handler =
     (case z (drop off q) of
        Some h \<Rightarrow>
          if t \<noteq> TypeDS then Inl h
          else (let (off, end) = NextLabel q off in if end then Inr (Some h) else match_loop z q t off (Some h))
      | None \<Rightarrow> (let (off, end) = NextLabel q off in if end then Inr handler else match_loop z q t off handler))"
  by pat_completeness auto
termination
  by (relation "measure (\<lambda>(z, q, t, off, h). length q - off)") (auto dest!: NextLabel_progress [OF sym])

declare match_loop.simps [simp del]

definition mux_match :: "'h ServeMux \<Rightarrow> gostring \<Rightarrow> u16 \<Rightarrow> 'h option" where
  "mux_match mux q t =
     (case mux of
        None \<Rightarrow> None
      | Some z \<Rightarrow>
          (case match_loop z (CanonicalName q) t 0 None of
             Inl h \<Rightarrow> Some h
           | Inr handler \<Rightarrow> (case z [DOT] of Some h \<Rightarrow> Some h | None \<Rightarrow> handler)))"

definition Handle :: "gostring \<Rightarrow> 'h \<Rightarrow> 'h ServeMux \<Rightarrow> 'h ServeMux res" where
  "Handle pattern handler mux =
     (if pattern = [] then Panic
      else Ok (Some ((case mux of None \<Rightarrow> Map.empty | Some z \<Rightarrow> z)(CanonicalName pattern \<mapsto> handler))))"

definition HandleRemove :: "gostring \<Rightarrow> 'h ServeMux \<Rightarrow> 'h ServeMux res" where
  "HandleRemove pattern mux =
     (if pattern = [] then Panic
      else Ok (map_option (\<lambda>z. z(CanonicalName pattern := None)) mux))"

definition handleRefused :: "u64 \<Rightarrow> handler" where
  "handleRefused clock w r = written (WriteMsg clock (SetRcode r RcodeRefused new_Msg) w)"

definition HandleFailed :: "u64 \<Rightarrow> handler" where
  "HandleFailed clock w r = written (WriteMsg clock (SetRcode r RcodeServerFailure new_Msg) w)"

definition Mux_ServeDNS :: "u64 \<Rightarrow> handler ServeMux \<Rightarrow> handler" where
  "Mux_ServeDNS clock mux w req =
     (case (case Msg_Question req of [] \<Rightarrow> None | q # _ \<Rightarrow> mux_match mux (Q_Name q) (Q_Qtype q)) of
        Some h \<Rightarrow> h w req
      | None \<Rightarrow> handleRefused clock w req)"

subsection \<open>One request\<close>

record server =
  S_Handler :: handler
  S_MsgAcceptFunc :: "Header \<Rightarrow> MsgAcceptAction"

text \<open>
  The result is the state of the connection and the messages given to \<^verbatim>\<open>MsgInvalidFunc\<close>, with their errors.
  \<open>now\<close> is the time the signature of the request is checked against.
\<close>

definition reject :: "u64 \<Rightarrow> MsgAcceptAction \<Rightarrow> Msg \<Rightarrow> response \<Rightarrow> response res" where
  "reject clock action req w =
     (let opcode = Msg_Opcode req;
          req = (SetRcodeFormatError req req)\<lparr>Msg_Zero := False\<rparr>;
          req = (if action = MsgRejectNotImplemented
                 then req\<lparr>Msg_Opcode := opcode, Msg_Rcode := RcodeNotImplemented\<rparr> else req);
          req = req\<lparr>Msg_Ns := [], Msg_Answer := [], Msg_Extra := []\<rparr> in
      written (WriteMsg clock req w))"

definition check_tsig :: "u64 \<Rightarrow> u64 \<Rightarrow> bytes \<Rightarrow> Msg \<Rightarrow> response \<Rightarrow> response res" where
  "check_tsig clock now m req w =
     (let w = w\<lparr>W_tsigStatus := Ok ()\<rparr> in
      case W_tsigProvider w of
        None \<Rightarrow> Ok w
      | Some p \<Rightarrow>
          bindR (IsTsig req) (\<lambda>ot.
          case ot of
            None \<Rightarrow> Ok w
          | Some t \<Rightarrow>
              (let status = TsigVerifyWithProvider clock m p [] False now in
               if status = Panic then Panic
               else Ok (w\<lparr>W_tsigStatus := status, W_tsigTimersOnly := False, W_tsigRequestMAC := TSIG_MAC t\<rparr>))))"

definition serveDNS :: "u64 \<Rightarrow> u64 \<Rightarrow> server \<Rightarrow> bytes \<Rightarrow> response \<Rightarrow> (response \<times> (bytes \<times> error) list) res" where
  "serveDNS clock now srv m w =
     (case unpackMsgHdr m 0 of
        Err (_, e) \<Rightarrow> Ok (w, [(m, e)])
      | Panic \<Rightarrow> Panic
      | Ok (dh, off) \<Rightarrow>
          let req = setHdr dh new_Msg; action = S_MsgAcceptFunc srv dh in
          (case action of
             MsgAccept \<Rightarrow>
               (case Msg_unpack req dh m off of
                  (req, Ok _) \<Rightarrow> bindR (check_tsig clock now m req w) (\<lambda>w. bindR (S_Handler srv w req) (\<lambda>w. Ok (w, [])))
                | (req, Err e) \<Rightarrow> bindR (reject clock action req w) (\<lambda>w. Ok (w, [(m, e)]))
                | (req, Panic) \<Rightarrow> Panic)
           | MsgIgnore \<Rightarrow> Ok (w, [])
           | _ \<Rightarrow> bindR (reject clock action req w) (\<lambda>w. Ok (w, []))))"

subsection \<open>The packets of a UDP socket\<close>

text \<open>The provider of a server is the one it is given, or its secrets, or none.\<close>

definition Server_tsigProvider :: "TsigProvider option \<Rightarrow> (gostring \<rightharpoonup> gostring) option \<Rightarrow> TsigProvider option" where
  "Server_tsigProvider provider secrets =
     (case provider of Some p \<Rightarrow> Some p | None \<Rightarrow> map_option tsigSecretProvider secrets)"

definition new_response :: "transport \<Rightarrow> TsigProvider option \<Rightarrow> (bytes \<Rightarrow> error option) \<Rightarrow> response" where
  "new_response conn provider net =
     \<lparr>W_closed = False, W_hijacked = False, W_tsigTimersOnly = False, W_tsigStatus = Ok (), W_tsigRequestMAC = [],
      W_tsigProvider = provider, W_conn = conn, W_net = net, W_sent = []\<rparr>"

definition serveUDPPacket ::
  "u64 \<Rightarrow> u64 \<Rightarrow> server \<Rightarrow> TsigProvider option \<Rightarrow> (bytes \<Rightarrow> error option) \<Rightarrow> bytes \<Rightarrow> (response \<times> (bytes \<times> error) list) res" where
  "serveUDPPacket clock now srv provider net m = serveDNS clock now srv m (new_response UDP provider net)"

text \<open>
  The loop of \<^verbatim>\<open>serveUDP\<close> over the packets that are read while the server is started: every packet has a
  goroutine of its own, which shares nothing with the others but the handler; what each of them sends and reports, in the order of the packets.
\<close>

fun serveUDP ::
  "u64 \<Rightarrow> u64 \<Rightarrow> server \<Rightarrow> TsigProvider option \<Rightarrow> (bytes \<Rightarrow> error option) \<Rightarrow> bytes list \<Rightarrow> (bytes list \<times> (bytes \<times> error) list) list res" where
  "serveUDP clock now srv provider net [] = Ok []"
| "serveUDP clock now srv provider net (m # ms) =
     bindR (if length m < headerSize then Ok ([], [(m, ErrShortRead)])
            else bindR (serveUDPPacket clock now srv provider net m) (\<lambda>(w, invalid). Ok (W_sent w, invalid))) (\<lambda>r.
     bindR (serveUDP clock now srv provider net ms) (\<lambda>rs. Ok (r # rs)))"

subsection \<open>The requests of a TCP connection\<close>

text \<open>
  The loop of \<^verbatim>\<open>serveTCPConn\<close> over the messages that are read while the server is started; the list ends where
  reading fails. A limit of \<open>-1\<close> is none, and \<open>0\<close> is the default.
\<close>

fun tcp_loop :: "u64 \<Rightarrow> u64 \<Rightarrow> server \<Rightarrow> int \<Rightarrow> int \<Rightarrow> bytes list \<Rightarrow> response \<Rightarrow> response res" where
  "tcp_loop clock now srv limit q [] w = Ok w"
| "tcp_loop clock now srv limit q (m # ms) w =
     (if q < limit \<or> limit = -1 then
        bindR (serveDNS clock now srv m w) (\<lambda>(w, _).
        if W_closed w then Ok w else if W_hijacked w then Ok w
        else tcp_loop clock now srv limit (q + 1) ms w)
      else Ok w)"

definition serveTCPConn :: "u64 \<Rightarrow> u64 \<Rightarrow> server \<Rightarrow> int \<Rightarrow> bytes list \<Rightarrow> response \<Rightarrow> response res" where
  "serveTCPConn clock now srv maxQueries ms w =
     (let limit = (if maxQueries = 0 then maxTCPQueries else maxQueries) in
      bindR (tcp_loop clock now srv limit 0 ms w) (\<lambda>w.
      Ok (if \<not> W_hijacked w then fst (Close w) else w)))"

text \<open>
  \<^verbatim>\<open>readTCP\<close> on the octets of a stream: the message and the rest, or nothing when the stream ends too early.
\<close>

definition readTCP :: "bytes \<Rightarrow> (bytes \<times> bytes) option" where
  "readTCP stream =
     (if length stream < 2 then None
      else
        let n = unat (be_word (take 2 stream) :: u16); r = drop 2 stream in
        if length r < n then None else Some (take n r, drop n r))"

subsection \<open>The multiplexer finds the closest zone\<close>

text \<open>The handlers that are registered for a name and its parents, the closest first.\<close>

definition zones_of :: "(gostring \<rightharpoonup> 'h) \<Rightarrow> gostring list \<Rightarrow> 'h list" where
  "zones_of z us = List.map_filter (\<lambda>i. z (join_labels (drop i us))) [0..<length us]"

lemma zones_of_simps [simp]:
  "zones_of z [] = []"
  "zones_of z (u # us) = (case z (join_labels (u # us)) of None \<Rightarrow> [] | Some h \<Rightarrow> [h]) @ zones_of z us"
proof -
  have "[0..<length (u # us)] = 0 # map Suc [0..<length us]" by (simp add: map_Suc_upt upt_conv_Cons del: upt_Suc)
  then show "zones_of z (u # us) = (case z (join_labels (u # us)) of None \<Rightarrow> [] | Some h \<Rightarrow> [h]) @ zones_of z us"
    by (simp add: zones_of_def List.map_filter_def filter_map comp_def split: option.split)
qed (simp add: zones_of_def List.map_filter_def)

lemma match_loop_join:
  assumes "\<forall>u \<in> set us. raw_label u" and "us \<noteq> []" and "pre = [] \<or> last pre \<noteq> BSL"
  shows "match_loop z (pre @ join_labels us) t (length pre) handler =
    (if t \<noteq> TypeDS then (case zones_of z us of h # _ \<Rightarrow> Inl h | [] \<Rightarrow> Inr handler)
     else Inr (if zones_of z us = [] then handler else Some (last (zones_of z us))))"
  using assms
proof (induction us arbitrary: pre handler)
  case (Cons u us)
  have n: "NextLabel (pre @ join_labels (u # us)) (length pre) = (length pre + length u + 1, us = [])"
    using Cons.prems by (intro NextLabel_join) auto
  show ?case
  proof (cases "us = []")
    case True
    with n show ?thesis by (subst match_loop.simps) (simp split: option.split)
  next
    case False
    have I: "match_loop z ((pre @ u @ [DOT]) @ join_labels us) t (length (pre @ u @ [DOT])) hd' =
      (if t \<noteq> TypeDS then (case zones_of z us of h # _ \<Rightarrow> Inl h | [] \<Rightarrow> Inr hd')
       else Inr (if zones_of z us = [] then hd' else Some (last (zones_of z us))))" for hd'
      using Cons.prems False by (intro Cons.IH) auto
    then show ?thesis using n False by (cases "t = TypeDS"; subst match_loop.simps) (simp_all split: option.split)
  qed
qed simp

lemma match_loop_root: "match_loop z [DOT] t 0 handler =
    (case z [DOT] of None \<Rightarrow> Inr handler | Some h \<Rightarrow> if t \<noteq> TypeDS then Inl h else Inr (Some h))"
  using match_loop_join [of "[[]]" "[]" z t handler] by (auto split: option.split)

lemma raw_label_lower: "raw_label (map to_lower u) = raw_label u"
proof (induction u rule: raw_label.induct)
  case (2 c r)
  then show ?case by (cases r) (auto simp: to_lower_eq_special)
qed simp_all

lemma CanonicalName_join:
  assumes "valid_labels us" and "ascii (join_labels us)"
  shows "CanonicalName (join_labels us) = join_labels (map (map to_lower) us)" and "valid_labels (map (map to_lower) us)"
proof -
  have "IsFqdn (join_labels us)" using IsFqdn_join [of us] assms by (auto simp: valid_labels_def)
  moreover have "map to_lower (join_labels us) = join_labels (map (map to_lower) us)"
    by (induction us) (simp_all add: to_lower_def)
  ultimately show "CanonicalName (join_labels us) = join_labels (map (map to_lower) us)"
    using assms(2) by (simp add: CanonicalName_def Fqdn_IsFqdn map_runes_ascii)
  show "valid_labels (map (map to_lower) us)" using assms(1) by (auto simp: valid_labels_def raw_label_lower)
qed

lemma mux_match_zones:
  assumes "valid_labels us" and "ascii (join_labels us)"
  shows "mux_match (Some z) (join_labels us) t =
    (let hs = zones_of z (map (map to_lower) us) @ (case z [DOT] of None \<Rightarrow> [] | Some h \<Rightarrow> [h]) in
     if hs = [] then None else if t \<noteq> TypeDS then Some (hd hs) else Some (last hs))"
proof -
  let ?us = "map (map to_lower) us"
  have v: "\<forall>u \<in> set ?us. raw_label u" "?us \<noteq> []" using valid_labels_D [OF CanonicalName_join(2) [OF assms]] by auto
  show ?thesis
    using match_loop_join [OF v, of "[]" z t None]
    by (auto simp: mux_match_def CanonicalName_join(1) [OF assms] Let_def split: option.splits list.splits)
qed

subsection \<open>Checking a signature does not panic\<close>

lemma type_ok_TSIG: "type_ok (rr_Header rr) rr \<Longrightarrow> Hdr_Rrtype (rr_Header rr) = TypeTSIG \<Longrightarrow> \<exists>t. rr = RR_TSIG t"
  by (cases rr) (simp_all add: type_ok_def TypeToRR_def)

lemma stripTsig_loop_safe:
  assumes "12 \<le> off" and "off \<le> length msg" and "12 \<le> toff \<and> toff \<le> length msg \<or> 0 < n"
  shows "safe (stripTsig_loop n msg off toff) (\<lambda>(msg', toff', rr). 12 \<le> toff' \<and> toff' \<le> length msg')"
  using assms
proof (induction n arbitrary: off toff)
  case (Suc n)
  have u: "safe (UnpackRR msg off) (\<lambda>(rr, off'). (if off = length msg then off' = off else off + 11 \<le> off') \<and> off' \<le> length msg)"
    using Suc.prems(2) by (rule UnpackRR_safe)
  show ?case
  proof (cases "UnpackRR msg off")
    case (Ok r)
    obtain rr o1 where r: "r = (rr, o1)" by (cases r)
    have b: "12 \<le> o1" "o1 \<le> length msg" using u Ok r Suc.prems(1) by (auto split: if_splits)
    show ?thesis
    proof (cases "Hdr_Rrtype (rr_Header rr) = TypeTSIG")
      case True
      obtain t where "rr = RR_TSIG t" using type_ok_TSIG [OF UnpackRR_typed [OF Ok [unfolded r], unfolded typed_def] True] by blast
      then show ?thesis using Ok r True Suc.prems(1,2) by simp
    next
      case False
      then show ?thesis using Suc.IH [OF b, of off] Suc.prems Ok r by simp
    qed
  next
    case Panic
    then show ?thesis using u by simp
  qed simp
qed simp

lemma strip_questions_safe:
  "off \<le> length msg \<Longrightarrow> safe (strip_questions n msg off) (\<lambda>off'. off \<le> off' \<and> off' \<le> length msg)"
proof (induction n arbitrary: off)
  case (Suc n)
  have "safe (strip_questions n msg o1) (\<lambda>off'. off \<le> off' \<and> off' \<le> length msg)" if "off < o1" "o1 \<le> length msg" for o1
    using Suc.IH [OF that(2)] by (rule safe_mono) (use that in auto)
  then show ?case using unpackQuestion_safe [of msg off] by (auto intro!: safe_bind)
qed simp

lemma stripTsig_safe: "safe (stripTsig msg) (\<lambda>(stripped, rr). 12 \<le> length stripped)"
proof (cases "unpackMsgHdr msg 0")
  case (Ok r)
  obtain dh off where r: "r = (dh, off)" by (cases r)
  have off: "off = 12" "12 \<le> length msg" using unpackMsgHdr_safe [of msg 0] Ok r by auto
  show ?thesis
  proof (cases "DH_Arcount dh = 0 \<or> DH_Bits dh AND 0xF = RcodeNotAuth")
    case False
    have n: "0 < unat (DH_Arcount dh)" using False by (simp add: word_greater_zero_iff [symmetric] word_less_nat_alt)
    have slice: "safe (unpackRRslice k msg o1) (\<lambda>(rs, o2). 12 \<le> o2 \<and> o2 \<le> length msg)" if "12 \<le> o1" "o1 \<le> length msg" for k o1
      using unpackRRslice_safe [OF that(2), of k] by (rule safe_mono) (use that in auto)
    have loop: "safe (bindR (stripTsig_loop (unat (DH_Arcount dh)) msg o1 0) (\<lambda>(msg, toff, rr).
        bindR (go_slice msg 0 toff) (\<lambda>stripped. Ok (stripped, rr)))) (\<lambda>(stripped, rr). 12 \<le> length stripped)"
      if "12 \<le> o1" "o1 \<le> length msg" for o1
    proof (rule safe_bind)
      show "safe (stripTsig_loop (unat (DH_Arcount dh)) msg o1 0) (\<lambda>(msg', toff', rr). 12 \<le> toff' \<and> toff' \<le> length msg')"
        using n by (intro stripTsig_loop_safe that) simp
    qed auto
    have tail: "safe (bindR (mapErr snd (unpackRRslice (unat (DH_Ancount dh)) msg o1)) (\<lambda>(_, o2).
        bindR (mapErr snd (unpackRRslice (unat (DH_Nscount dh)) msg o2)) (\<lambda>(_, o3).
        bindR (stripTsig_loop (unat (DH_Arcount dh)) msg o3 0) (\<lambda>(msg, toff, rr).
        bindR (go_slice msg 0 toff) (\<lambda>stripped. Ok (stripped, rr)))))) (\<lambda>(stripped, rr). 12 \<le> length stripped)"
      if "12 \<le> o1 \<and> o1 \<le> length msg" for o1
      using that by (auto intro!: safe_bind [OF slice [THEN safe_mapErr [THEN iffD2]]] loop)
    have "safe (strip_questions (unat (DH_Qdcount dh)) msg off) (\<lambda>o1. 12 \<le> o1 \<and> o1 \<le> length msg)"
      using strip_questions_safe [of off msg "unat (DH_Qdcount dh)"] off by simp
    from safe_bind [OF this [THEN safe_mapErr [THEN iffD2]] tail] show ?thesis using Ok r False by (simp add: stripTsig_def)
  qed (auto simp: stripTsig_def Ok r)
next
  case Panic
  then show ?thesis using unpackMsgHdr_safe [of msg 0] by simp
qed (simp add: stripTsig_def)

lemma pack_within:
  "safe (packUint16 v msg off) (\<lambda>(m, o'). length m = length msg \<and> o' \<le> length m)"
  "safe (packUint32 v' msg off) (\<lambda>(m, o'). length m = length msg \<and> o' \<le> length m)"
  "safe (packUint48 v'' msg off) (\<lambda>(m, o'). length m = length msg \<and> o' \<le> length m)"
  "safe (packStringHex s msg off) (\<lambda>(m, o'). length m = length msg \<and> o' \<le> length m)"
  by (auto simp: packUint16_def packUint32_def packUint48_def packStringHex_def split: option.split)

lemma PackDomainName_within:
  "off \<le> length msg \<Longrightarrow> safe (PackDomainName s msg off None False) (\<lambda>(m, c, o'). length m = length msg \<and> o' \<le> length m)"
  unfolding PackDomainName_def by (rule safe_mono [OF packDomainName_safe]) auto

lemma packTsigWire_within: "safe (packTsigWire tw msg) (\<lambda>(m, o'). length m = length msg \<and> o' \<le> length m)"
  unfolding packTsigWire_def
  by (rule safe_bind [OF PackDomainName_within], simp, clarsimp, rule safe_bind [OF pack_within(1)], clarsimp,
      rule safe_bind [OF pack_within(2)], clarsimp, rule safe_bind [OF PackDomainName_within], simp, clarsimp,
      rule safe_bind [OF pack_within(3)], clarsimp, rule safe_bind [OF pack_within(1)], clarsimp,
      rule safe_bind [OF pack_within(1)], clarsimp, rule safe_bind [OF pack_within(1)], clarsimp,
      rule safe_mono [OF pack_within(4)], clarsimp)

lemma packTimerWire_within: "safe (packTimerWire tw msg) (\<lambda>(m, o'). length m = length msg \<and> o' \<le> length m)"
  unfolding packTimerWire_def
  by (rule safe_bind [OF pack_within(3)], clarsimp, rule safe_mono [OF pack_within(1)], clarsimp)

lemma packMacWire_within: "safe (packMacWire mw msg) (\<lambda>(m, o'). length m = length msg \<and> o' \<le> length m)"
  unfolding packMacWire_def
  by (rule safe_bind [OF pack_within(1)], clarsimp, rule safe_mono [OF pack_within(4)], clarsimp)

lemma packed_not_Panic:
  assumes "\<And>msg. safe (P msg) (\<lambda>(m, o'). length m = length msg \<and> o' \<le> length m)"
  shows "packed n P \<noteq> Panic"
  using assms [of "replicate n 0"] by (cases "P (replicate n 0)") (auto simp: packed_def)

lemma tsigBuffer_not_Panic: "2 \<le> length msgbuf \<Longrightarrow> tsigBuffer clock msgbuf t requestMAC timersOnly \<noteq> Panic"
  using packed_not_Panic [OF packTsigWire_within] packed_not_Panic [OF packTimerWire_within] packed_not_Panic [OF packMacWire_within]
  by (auto simp: tsigBuffer_def Let_def bindR_eq_Panic)

lemma tsigVerify_not_Panic:
  assumes "\<And>msg t. Verify p msg t \<noteq> Panic"
  shows "tsigVerify clock msg p requestMAC timersOnly now \<noteq> Panic"
  using stripTsig_safe [of msg] assms tsigBuffer_not_Panic
  by (cases "stripTsig msg") (auto simp: tsigVerify_def bindR_eq_Panic Let_def split: if_splits)

lemma Verify_not_Panic: "Verify (tsigHMACProvider key) msg t \<noteq> Panic" "Verify (tsigSecretProvider ts) msg t \<noteq> Panic"
proof -
  have "HMAC_Generate key msg t \<noteq> Panic" for key by (simp add: HMAC_Generate_def Let_def split: option.split)
  then have "HMAC_Verify key msg t \<noteq> Panic" for key by (auto simp: HMAC_Verify_def bindR_eq_Panic split: option.splits)
  then show "Verify (tsigHMACProvider key) msg t \<noteq> Panic" "Verify (tsigSecretProvider ts) msg t \<noteq> Panic"
    by (simp_all add: tsigHMACProvider_def tsigSecretProvider_def Secret_Verify_def split: option.split)
qed

lemma IsTsig_typed:
  assumes "msg_typed req"
  shows "\<exists>ot. IsTsig req = Ok ot"
proof (cases "Msg_Extra req = []")
  case False
  then have "rec_ok (last (Msg_Extra req))" using assms by (simp add: msg_typed_def list_all_iff)
  then obtain rr where rr: "last (Msg_Extra req) = Some rr" "type_ok (rr_Header rr) rr" by (auto simp: rec_ok_def typed_def split: option.splits)
  with type_ok_TSIG [OF rr(2)] False show ?thesis by (auto simp: IsTsig_def)
qed (simp add: IsTsig_def)

subsection \<open>What happens to a request\<close>

text \<open>The status that the handler sees: what the verification of the octets says, when there is a provider and a TSIG record.\<close>

definition tsig_status :: "u64 \<Rightarrow> u64 \<Rightarrow> bytes \<Rightarrow> Msg \<Rightarrow> response \<Rightarrow> unit res" where
  "tsig_status clock now m req w =
     (case (W_tsigProvider w, IsTsig req) of
        (Some p, Ok (Some t)) \<Rightarrow> tsigVerify clock m p [] False now
      | _ \<Rightarrow> Ok ())"

lemma check_tsig_ok:
  assumes "msg_typed req" and "\<And>p msg t. W_tsigProvider w = Some p \<Longrightarrow> Verify p msg t \<noteq> Panic"
  obtains w1 where "check_tsig clock now m req w = Ok w1" and "W_sent w1 = W_sent w"
    and "W_tsigStatus w1 = tsig_status clock now m req w"
proof -
  have "\<exists>w1. check_tsig clock now m req w = Ok w1 \<and> W_sent w1 = W_sent w \<and> W_tsigStatus w1 = tsig_status clock now m req w"
  proof (cases "W_tsigProvider w")
    case (Some p)
    note v = tsigVerify_not_Panic [of p clock m "[]" False now, OF assms(2) [OF Some]]
    obtain ot where "IsTsig req = Ok ot" using IsTsig_typed [OF assms(1)] by blast
    then show ?thesis using Some v
      by (cases ot) (auto simp: check_tsig_def tsig_status_def Let_def TsigVerifyWithProvider_def)
  qed (simp add: check_tsig_def tsig_status_def)
  then show ?thesis using that by blast
qed

lemma Write_sent: "length (W_sent (fst (Write m w))) \<le> Suc (length (W_sent w))"
  by (auto simp: Write_def net_write_def split: option.split transport.split)

lemma WriteMsg_sent: "length (W_sent (fst (WriteMsg clock m w))) \<le> Suc (length (W_sent w))"
  using Write_sent [of _ w] Write_sent [of _ "w\<lparr>W_tsigRequestMAC := _\<rparr>"]
  by (auto simp: WriteMsg_def Let_def split: option.split outcome.split prod.split) (metis fst_conv)+

lemma unpack_rcode_keeps:
  "unpack_rcode r dns = (dns', Ok ()) \<Longrightarrow> Msg_Response dns' = Msg_Response dns \<and> Msg_Opcode dns' = Msg_Opcode dns \<and> Msg_Id dns' = Msg_Id dns \<and>
     Msg_Question dns' = Msg_Question dns \<and> Msg_Answer dns' = Msg_Answer dns \<and> Msg_Ns dns' = Msg_Ns dns \<and> Msg_Extra dns' = Msg_Extra dns"
  by (auto simp: unpack_rcode_def split: outcome.splits option.splits)

text \<open>A message that was unpacked has at most as many records as its header says, and the flags of its header.\<close>

lemma Msg_unpack_header:
  assumes "Msg_unpack dns dh msg off = (dns', Ok ())" and "off \<le> length msg"
  shows "Msg_Response dns' = Msg_Response dns" and "Msg_Opcode dns' = Msg_Opcode dns" and "Msg_Id dns' = Msg_Id dns"
    and "length (Msg_Question dns') \<le> unat (DH_Qdcount dh)" and "length (Msg_Answer dns') \<le> unat (DH_Ancount dh)"
    and "length (Msg_Ns dns') \<le> unat (DH_Nscount dh)" and "length (Msg_Extra dns') \<le> unat (DH_Arcount dh)"
proof -
  have "Msg_Response dns' = Msg_Response dns \<and> Msg_Opcode dns' = Msg_Opcode dns \<and> Msg_Id dns' = Msg_Id dns \<and>
    length (Msg_Question dns') \<le> unat (DH_Qdcount dh) \<and> length (Msg_Answer dns') \<le> unat (DH_Ancount dh) \<and>
    length (Msg_Ns dns') \<le> unat (DH_Nscount dh) \<and> length (Msg_Extra dns') \<le> unat (DH_Arcount dh)"
  proof (cases "off = length msg")
    case True
    then show ?thesis using assms by (auto simp: Msg_unpack_def)
  next
    case False
    obtain qs r where q: "unpack_questions (unat (DH_Qdcount dh)) msg off [] = (qs, r)" by fastforce
    with assms(1) False obtain o1 where r: "r = Ok o1" by (auto simp: Msg_unpack_def Let_def split: outcome.splits)
    note Q = unpack_questions_count [OF q [unfolded r] assms(2)]
    have "unpack_section (\<lambda>rs. Msg_Answer_update (\<lambda>_. rs)) (DH_Ancount dh) msg o1 (dns\<lparr>Msg_Question := qs\<rparr>) (\<lambda>off dns.
        unpack_section (\<lambda>rs. Msg_Ns_update (\<lambda>_. rs)) (DH_Nscount dh) msg off dns (\<lambda>off dns.
        unpack_section (\<lambda>rs. Msg_Extra_update (\<lambda>_. rs)) (DH_Arcount dh) msg off dns (\<lambda>off dns. unpack_rcode (Ok ()) dns))) = (dns', Ok ())"
      using assms(1) False q r by (simp add: Msg_unpack_def)
    then show ?thesis using Q by (elim unpack_section_Ok) (simp_all, drule unpack_rcode_keeps, simp)
  qed
  then show "Msg_Response dns' = Msg_Response dns" "Msg_Opcode dns' = Msg_Opcode dns" "Msg_Id dns' = Msg_Id dns"
    "length (Msg_Question dns') \<le> unat (DH_Qdcount dh)" "length (Msg_Answer dns') \<le> unat (DH_Ancount dh)"
    "length (Msg_Ns dns') \<le> unat (DH_Nscount dh)" "length (Msg_Extra dns') \<le> unat (DH_Arcount dh)" by simp_all
qed

lemma defaultMsgAcceptFunc_accepts:
  assumes "defaultMsgAcceptFunc dh = MsgAccept"
  shows "DH_Bits dh AND QR_bit = 0" and "uint (drop_bit 11 (DH_Bits dh)) AND 0xF \<in> {OpcodeQuery, OpcodeNotify}"
    and "unat (DH_Qdcount dh) = 1" and "unat (DH_Ancount dh) \<le> 1" and "unat (DH_Nscount dh) \<le> 1" and "unat (DH_Arcount dh) \<le> 2"
  using assms by (auto simp: defaultMsgAcceptFunc_def Let_def word_less_nat_alt not_less split: if_splits)

text \<open>What the handler is given: a query or a notification, with its signature checked.\<close>

definition valid_query :: "Msg \<Rightarrow> bool" where
  "valid_query req \<longleftrightarrow> msg_typed req \<and> \<not> Msg_Response req \<and> Msg_Opcode req \<in> {OpcodeQuery, OpcodeNotify} \<and>
     length (Msg_Question req) \<le> 1 \<and> length (Msg_Answer req) \<le> 1 \<and> length (Msg_Ns req) \<le> 1 \<and> length (Msg_Extra req) \<le> 2"

lemma accepted_query:
  assumes "unpackMsgHdr m 0 = Ok (dh, off)" and "defaultMsgAcceptFunc dh = MsgAccept"
    and "Msg_unpack (setHdr dh new_Msg) dh m off = (req, Ok ())"
  shows "Unpack new_Msg m = (req, Ok ())" and "valid_query req"
proof -
  show U: "Unpack new_Msg m = (req, Ok ())" using assms(1,3) by (simp add: Unpack_def)
  have "msg_typed new_Msg" by (simp add: msg_typed_def new_Msg_def)
  then have t: "msg_typed req" using Unpack_good [of new_Msg m] U by (simp add: good_def)
  have "off \<le> length m" using unpackMsgHdr_safe [of m 0] assms(1) by simp
  note H = Msg_unpack_header [OF assms(3) this]
  show "valid_query req"
    using H t defaultMsgAcceptFunc_accepts [OF assms(2)] by (auto simp: valid_query_def setHdr_def)
qed

subsection \<open>The properties\<close>

text \<open>
  C18: The multiplexer gives a query of any type but DS to the handler of the closest enclosing zone: for every ASCII name, in any
  case, that is written as one or more non-empty labels (escapes allowed) that each end with an unescaped dot, the handler is the one registered for the
  longest suffix of whole labels, with the root zone as the last resort. A query for DS records goes to the handler that is
  registered for the shortest suffix, and to the root zone whenever it is registered; that is the parent zone, as the comment of
  \<^verbatim>\<open>ServeMux\<close> says, only when no zone above it is registered. And when the type is not DS, a handler that was registered
  for an ASCII name that is equal to this name up to case and a final dot gets the query.
\<close>

theorem mux_match_closest:
  assumes "valid_labels us" and "ascii (join_labels us)"
  shows "mux_match (Some z) (join_labels us) t =
      (let hs = zones_of z (map (map to_lower) us) @ (case z [DOT] of None \<Rightarrow> [] | Some h \<Rightarrow> [h]) in
       if hs = [] then None else if t \<noteq> TypeDS then Some (hd hs) else Some (last hs)) \<and>
    (t \<noteq> TypeDS \<and> ascii p \<and> equal_names (Fqdn p) (join_labels us) \<and> Handle p h mux = Ok mux' \<longrightarrow>
      mux_match mux' (join_labels us) t = Some h)"
proof (intro conjI impI)
  assume A: "t \<noteq> TypeDS \<and> ascii p \<and> equal_names (Fqdn p) (join_labels us) \<and> Handle p h mux = Ok mux'"
  have "CanonicalName p = CanonicalName (join_labels us)"
    using A map_runes_ascii [OF ascii_Fqdn, of p to_lower] map_runes_ascii [OF ascii_Fqdn [OF assms(2)], of to_lower]
      IsFqdn_join [of us] assms by (simp add: CanonicalName_def equal_names_iff Fqdn_IsFqdn valid_labels_def)
  with CanonicalName_join(1) [OF assms] A obtain z' where m: "mux' = Some z'" "z' (join_labels (map (map to_lower) us)) = Some h"
    by (auto simp: Handle_def split: if_splits)
  obtain u vs where "us = u # vs" using assms(1) by (cases us) (auto simp: valid_labels_def)
  then show "mux_match mux' (join_labels us) t = Some h"
    using mux_match_zones [OF assms, of z' t] m A by (simp add: Let_def)
qed (rule mux_match_zones [OF assms])

theorem mux_match_closest_witness:
  "mux_match (Some [str ''nl.'' \<mapsto> (1 :: nat), str ''miek.nl.'' \<mapsto> 2]) (str ''www.MIEK.nl.'') TypeA = Some 2 \<and>
   mux_match (Some [str ''nl.'' \<mapsto> (1 :: nat), str ''miek.nl.'' \<mapsto> 2]) (str ''www.MIEK.nl.'') TypeDS = Some 1"
proof -
  let ?us = "[str ''www'', str ''MIEK'', str ''nl'']" and ?z = "[str ''nl.'' \<mapsto> (1 :: nat), str ''miek.nl.'' \<mapsto> 2]"
  have "valid_labels ?us" "ascii (join_labels ?us)" by (simp_all add: valid_labels_def str_def ascii_def)
  note M = mux_match_closest [OF this, of ?z, THEN conjunct1]
  have n: "str ''www.MIEK.nl.'' = join_labels ?us" by (simp add: str_def)
  have z: "zones_of ?z (map (map to_lower) ?us) = [2, 1]" by (simp add: str_def to_lower_def)
  have r: "?z [DOT] = None" by (simp add: str_def)
  show ?thesis unfolding n M z r by (simp add: Let_def)
qed

text \<open>A message with questions only cannot make \<^verbatim>\<open>Pack\<close> panic, so that a rejection can be written.\<close>

lemma Question_pack_within:
  "off \<le> length msg \<Longrightarrow> safe (Question_pack q msg off cm compress) (\<lambda>(m, c, o'). length m = length msg \<and> o' \<le> length m)"
  unfolding Question_pack_def
  by (rule safe_bind [OF packDomainName_safe], clarsimp, rule safe_bind [OF pack_within(1)], clarsimp,
      rule safe_bind [OF pack_within(1)], clarsimp)

lemma pack_questions_within:
  "off \<le> length msg \<Longrightarrow> safe (pack_questions qs msg off cm compress) (\<lambda>(m, c, o'). length m = length msg \<and> o' \<le> length m)"
proof (induction qs arbitrary: msg off cm)
  case (Cons q qs)
  show ?case unfolding pack_questions.simps
    by (rule safe_bind [OF Question_pack_within [OF Cons.prems]]) (clarsimp, rule safe_mono [OF Cons.IH], auto)
qed simp

lemma Header_pack_within: "safe (Header_pack dh msg off) (\<lambda>(m, o'). length m = length msg \<and> o' \<le> length m)"
  unfolding Header_pack_def
  by (rule safe_bind [OF pack_within(1)], clarsimp, rule safe_bind [OF pack_within(1)], clarsimp, rule safe_bind [OF pack_within(1)], clarsimp,
      rule safe_bind [OF pack_within(1)], clarsimp, rule safe_bind [OF pack_within(1)], clarsimp, rule safe_mono [OF pack_within(1)], clarsimp)

lemma Pack_questions_only:
  assumes "Msg_Answer m = []" and "Msg_Ns m = []" and "Msg_Extra m = []"
  shows "snd (Pack m) \<noteq> Panic"
proof -
  have "safe (pack_sections m buf cm compress) (\<lambda>_. True)" for buf cm compress
    unfolding pack_sections_def assms Let_def
    by (rule safe_mapErr [THEN iffD2], rule safe_bind [OF Header_pack_within], clarsimp, rule safe_bind [OF pack_questions_within], simp, clarsimp)
  then have "pack_sections m buf cm compress \<noteq> Panic" for buf cm compress by (metis safe_simps(3))
  moreover have "IsEdns0 m = Ok None" using assms by (simp add: IsEdns0_def)
  ultimately show ?thesis by (simp add: Pack_def PackBuffer_def packBufferWithCompressionMap_def)
qed

lemma Write_not_Panic: "W_conn w \<noteq> NoConn \<Longrightarrow> snd (Write m w) \<noteq> Panic"
  by (auto simp: Write_def net_write_def split: option.split transport.split)

lemma reject_ok:
  assumes "W_conn w \<noteq> NoConn"
  obtains w' where "reject clock action req w = Ok w'" and "length (W_sent w') \<le> Suc (length (W_sent w))"
proof -
  obtain m where m: "reject clock action req w = written (WriteMsg clock m w)" "Msg_Answer m = []" "Msg_Ns m = []" "Msg_Extra m = []"
    by (simp add: reject_def Let_def)
  have "IsTsig m = Ok None" using m(4) by (simp add: IsTsig_def)
  then have "snd (snd (WriteMsg clock m w)) \<noteq> Panic"
    using Pack_questions_only [OF m(2-4)] Write_not_Panic [OF assms] by (auto simp: WriteMsg_def Let_def split: option.split outcome.split prod.split)
      (metis snd_conv)+
  then have "reject clock action req w = Ok (fst (WriteMsg clock m w))"
    by (cases "WriteMsg clock m w"; cases "snd (snd (WriteMsg clock m w))") (simp_all add: m(1) written_def)
  then show ?thesis using that WriteMsg_sent [of clock m w] by simp
qed

text \<open>The request goes to the handler, with the status of its signature, and nothing was written before.\<close>

definition handed_over :: "u64 \<Rightarrow> u64 \<Rightarrow> server \<Rightarrow> bytes \<Rightarrow> response \<Rightarrow> Msg \<Rightarrow> bool" where
  "handed_over clock now srv m w req \<longleftrightarrow>
     (\<exists>w1. serveDNS clock now srv m w = bindR (S_Handler srv w1 req) (\<lambda>w'. Ok (w', [])) \<and>
        Unpack new_Msg m = (req, Ok ()) \<and> valid_query req \<and> W_sent w1 = W_sent w \<and>
        W_tsigStatus w1 = tsig_status clock now m req w)"

text \<open>
  C3: No packet can crash the server or make it answer a response: on a connection, with the default \<^verbatim>\<open>MsgAcceptFunc\<close> and a TSIG
  provider that does not panic, \<^verbatim>\<open>serveDNS\<close> of any octets either does nothing to the connection, or writes one rejection at most and does not
  ask the handler, or does what the handler does when it is given what \<^verbatim>\<open>Unpack\<close> reads from the octets without an error,
  which is a query or a notification with at most one question, one answer, one authority (the comment of \<^verbatim>\<open>DefaultMsgAcceptFunc\<close>
  says none) and two additional records, and nothing was written before. When the octets have the QR bit of a response, nothing happens;
  when the accept function accepts the header and the octets unpack, the handler is asked. The TSIG status that the handler sees is the
  outcome of \<^verbatim>\<open>TsigVerify\<close> on the octets whenever there is a provider and the message ends with a TSIG record, so that no message
  with a wrong signature is shown to the handler as verified, and no error otherwise.
\<close>

theorem request_is_handled_safely:
  assumes "S_MsgAcceptFunc srv = defaultMsgAcceptFunc" and "\<And>p msg t. W_tsigProvider w = Some p \<Longrightarrow> Verify p msg t \<noteq> Panic"
    and "W_conn w \<noteq> NoConn"
  shows "(\<forall>dh off. unpackMsgHdr m 0 = Ok (dh, off) \<and> DH_Bits dh AND QR_bit \<noteq> 0 \<longrightarrow> serveDNS clock now srv m w = Ok (w, [])) \<and>
    (\<forall>dh off req. unpackMsgHdr m 0 = Ok (dh, off) \<and> defaultMsgAcceptFunc dh = MsgAccept \<and> Unpack new_Msg m = (req, Ok ()) \<longrightarrow>
       handed_over clock now srv m w req) \<and>
    ((\<exists>invalid. serveDNS clock now srv m w = Ok (w, invalid)) \<or>
     (\<exists>action req w' invalid. reject clock action req w = Ok w' \<and> serveDNS clock now srv m w = Ok (w', invalid) \<and>
        length (W_sent w') \<le> Suc (length (W_sent w))) \<or>
     (\<exists>req. handed_over clock now srv m w req))"
proof (cases "unpackMsgHdr m 0")
  case (Ok r)
  obtain dh off where h: "unpackMsgHdr m 0 = Ok (dh, off)" using Ok by (cases r) simp
  have rej: "\<exists>w'. reject clock action req w = Ok w' \<and> length (W_sent w') \<le> Suc (length (W_sent w))" for action req
    by (rule reject_ok [OF assms(3)]) blast
  obtain req res where u: "Msg_unpack (setHdr dh new_Msg) dh m off = (req, res)" by fastforce
  have np: "res \<noteq> Panic"
    using Msg_unpack_good [of "setHdr dh new_Msg" off m dh] unpackMsgHdr_safe [of m 0] h u
    by (simp add: good_def msg_typed_def new_Msg_def setHdr_def)
  show ?thesis
  proof (cases "defaultMsgAcceptFunc dh")
    case MsgAccept
    have qr: "DH_Bits dh AND QR_bit = 0" using defaultMsgAcceptFunc_accepts(1) [OF MsgAccept] .
    show ?thesis
    proof (cases res)
      case (Ok x)
      then have "Msg_unpack (setHdr dh new_Msg) dh m off = (req, Ok ())" using u by simp
      note q = accepted_query [OF h MsgAccept this]
      have "msg_typed req" using q(2) by (simp add: valid_query_def)
      then obtain w1 where w1: "check_tsig clock now m req w = Ok w1" "W_sent w1 = W_sent w"
          "W_tsigStatus w1 = tsig_status clock now m req w"
        by (rule check_tsig_ok [OF _ assms(2)])
      have "serveDNS clock now srv m w = bindR (S_Handler srv w1 req) (\<lambda>w'. Ok (w', []))"
        using h MsgAccept assms(1) u Ok w1(1) by (simp add: serveDNS_def Let_def case_unit_Unity)
      then have "handed_over clock now srv m w req" using q w1(2,3) unfolding handed_over_def by blast
      then show ?thesis using h qr q(1) by auto
    next
      case (Err e)
      obtain w' where "reject clock MsgAccept req w = Ok w'" "length (W_sent w') \<le> Suc (length (W_sent w))" using rej by blast
      then show ?thesis using h MsgAccept assms(1) u Err qr by (auto simp: serveDNS_def Let_def Unpack_def)
    qed (use np in simp)
  next
    case MsgReject
    obtain w' where "reject clock MsgReject (setHdr dh new_Msg) w = Ok w'" "length (W_sent w') \<le> Suc (length (W_sent w))" using rej by blast
    then show ?thesis using h MsgReject assms(1) by (auto simp: serveDNS_def Let_def defaultMsgAcceptFunc_def)
  next
    case MsgRejectNotImplemented
    obtain w' where "reject clock MsgRejectNotImplemented (setHdr dh new_Msg) w = Ok w'" "length (W_sent w') \<le> Suc (length (W_sent w))" using rej by blast
    then show ?thesis using h MsgRejectNotImplemented assms(1) by (auto simp: serveDNS_def Let_def defaultMsgAcceptFunc_def)
  qed (use h assms(1) in \<open>auto simp: serveDNS_def Let_def\<close>)
next
  case (Err e)
  then show ?thesis by (cases e) (simp add: serveDNS_def)
next
  case Panic
  then show ?thesis using unpackMsgHdr_safe [of m 0] by simp
qed

definition ex_response :: response where
  "ex_response = \<lparr>W_closed = False, W_hijacked = False, W_tsigTimersOnly = False, W_tsigStatus = Ok (), W_tsigRequestMAC = [],
     W_tsigProvider = Some (tsigSecretProvider [str ''key.'' \<mapsto> ex_secret]), W_conn = UDP, W_net = (\<lambda>_. None), W_sent = []\<rparr>"

theorem request_is_handled_safely_witness:
  "serveDNS 0 0 \<lparr>S_Handler = handleRefused 0, S_MsgAcceptFunc = defaultMsgAcceptFunc\<rparr>
     [0, 7, 0x80, 0, 0, 1, 0, 0, 0, 0, 0, 0] ex_response = Ok (ex_response, [])"
proof -
  let ?srv = "\<lparr>S_Handler = handleRefused 0, S_MsgAcceptFunc = defaultMsgAcceptFunc\<rparr>"
  have v: "W_tsigProvider ex_response = Some p \<Longrightarrow> Verify p msg t \<noteq> Panic" for p msg t
    by (auto simp: ex_response_def Verify_not_Panic)
  have "unpackMsgHdr [0, 7, 0x80, 0, 0, 1, 0, 0, 0, 0, 0, 0] 0 =
      Ok (\<lparr>DH_Id = 7, DH_Bits = 0x8000, DH_Qdcount = 1, DH_Ancount = 0, DH_Nscount = 0, DH_Arcount = 0\<rparr>, 12)"
    by code_simp
  moreover have "W_conn ex_response \<noteq> NoConn" by (simp add: ex_response_def)
  ultimately show ?thesis
    using request_is_handled_safely [of ?srv ex_response "[0, 7, 0x80, 0, 0, 1, 0, 0, 0, 0, 0, 0]" 0 0, OF _ v] by fastforce
qed

text \<open>What is written to a TCP connection is read back from the stream, one message after the other.\<close>

lemma readTCP_frame: "length m \<le> MaxMsgSize \<Longrightarrow> readTCP (be16 (of_nat (length m)) @ m @ rest) = Some (m, rest)"
  by (simp add: readTCP_def Let_def of_nat_count)

end
