(* ===== verification/Client_Conn.thy ===== *)
theory Client_Conn
  imports Serving
begin

section \<open>Connections of a client\<close>

text \<open>
  \<^verbatim>\<open>client.go\<close>: reading and writing messages on a \<^verbatim>\<open>Conn\<close>, and the exchange of a query for a
  reply. What the network will deliver is part of the state of the connection: a list of packets, for a packet connection, or the octets
  of a stream; reading past them is an error (a timeout, or the end of the stream). What was written is there, too. Dialling, TLS and
  deadlines are not part of the model, and neither is the message that \<^verbatim>\<open>ReadMsg\<close> returns beside an error.
\<close>

abbreviation ErrTimeout :: error where "ErrTimeout \<equiv> ErrMsg ''i/o timeout''"
abbreviation ErrEOF :: error where "ErrEOF \<equiv> ErrMsg ''EOF''"
abbreviation ErrUnexpectedEOF :: error where "ErrUnexpectedEOF \<equiv> ErrMsg ''unexpected EOF''"
abbreviation ErrShortBuffer :: error where "ErrShortBuffer \<equiv> ErrMsg ''short buffer''"
abbreviation MinMsgSizeNat :: nat where "MinMsgSizeNat \<equiv> 512"

datatype incoming = Packets "bytes list" | Stream bytes

record Conn =
  C_in :: incoming
  C_out :: "bytes list"
  C_UDPSize :: u16
  C_TsigProvider :: "TsigProvider option"
  C_TsigSecret :: "gostring \<rightharpoonup> gostring"
  C_tsigRequestMAC :: gostring

definition isPacketConn :: "Conn \<Rightarrow> bool" where
  "isPacketConn co = (case C_in co of Packets _ \<Rightarrow> True | Stream _ \<Rightarrow> False)"

definition Conn_tsigProvider :: "Conn \<Rightarrow> TsigProvider" where
  "Conn_tsigProvider co = (case C_TsigProvider co of Some p \<Rightarrow> p | None \<Rightarrow> tsigSecretProvider (C_TsigSecret co))"

subsection \<open>Reading\<close>

text \<open>\<^verbatim>\<open>io.ReadFull\<close> of \<open>n\<close> octets: the rest of the stream, what was read, and the error.\<close>

definition ReadFull :: "nat \<Rightarrow> bytes \<Rightarrow> bytes \<times> bytes \<times> error option" where
  "ReadFull n s =
     (if n \<le> length s then (drop n s, take n s, None)
      else if s = [] then ([], [], Some ErrEOF)
      else ([], s, Some ErrUnexpectedEOF))"

text \<open>\<^verbatim>\<open>Conn.Read\<close> into a buffer of \<open>n\<close> octets.\<close>

definition Conn_Read :: "nat \<Rightarrow> Conn \<Rightarrow> Conn \<times> bytes \<times> error option" where
  "Conn_Read n co =
     (case C_in co of
        Packets [] \<Rightarrow> (co, [], Some ErrTimeout)
      | Packets (p # ps) \<Rightarrow> (co\<lparr>C_in := Packets ps\<rparr>, take n p, None)
      | Stream s \<Rightarrow>
          (case ReadFull 2 s of
             (s, _, Some e) \<Rightarrow> (co\<lparr>C_in := Stream s\<rparr>, [], Some e)
           | (s, l, None) \<Rightarrow>
               let len = unat (be_word l :: u16) in
               if len > n then (co\<lparr>C_in := Stream s\<rparr>, [], Some ErrShortBuffer)
               else (let (s, p, e) = ReadFull len s in (co\<lparr>C_in := Stream s\<rparr>, p, e))))"

text \<open>The header that \<^verbatim>\<open>ReadMsgHeader\<close> fills in, if it is given one, can be read from the result.\<close>

definition ReadMsgHeader :: "Conn \<Rightarrow> Conn \<times> bytes res" where
  "ReadMsgHeader co =
     (let (co, p, err) =
        (case C_in co of
           Packets _ \<Rightarrow> Conn_Read (if unat (C_UDPSize co) > MinMsgSizeNat then unat (C_UDPSize co) else MinMsgSizeNat) co
         | Stream s \<Rightarrow>
             (case ReadFull 2 s of
                (s, _, Some e) \<Rightarrow> (co\<lparr>C_in := Stream s\<rparr>, [], Some e)
              | (s, l, None) \<Rightarrow>
                  (let (s, p, e) = ReadFull (unat (be_word l :: u16)) s in (co\<lparr>C_in := Stream s\<rparr>, p, e)))) in
      (co, case err of
             Some e \<Rightarrow> Err e
           | None \<Rightarrow> if length p < headerSize then Err ErrShortRead else Ok p))"

definition Conn_ReadMsg :: "u64 \<Rightarrow> u64 \<Rightarrow> Conn \<Rightarrow> Conn \<times> Msg res" where
  "Conn_ReadMsg clock now co =
     (let (co, r) = ReadMsgHeader co in
      (co,
       bindR r (\<lambda>p.
       let (m, u) = Unpack new_Msg p in
       bindR u (\<lambda>_.
       bindR (IsTsig m) (\<lambda>t.
       if t \<noteq> None
       then bindR (TsigVerifyWithProvider clock p (Conn_tsigProvider co) (C_tsigRequestMAC co) False now) (\<lambda>_. Ok m)
       else Ok m)))))"

subsection \<open>Writing\<close>

definition Conn_Write :: "bytes \<Rightarrow> Conn \<Rightarrow> Conn \<times> unit res" where
  "Conn_Write p co =
     (if length p > MaxMsgSize then (co, Err (ErrMsg ''message too large''))
      else if isPacketConn co then (co\<lparr>C_out := C_out co @ [p]\<rparr>, Ok ())
      else (co\<lparr>C_out := C_out co @ [be16 (of_nat (length p)) @ p]\<rparr>, Ok ()))"

definition Conn_WriteMsg :: "u64 \<Rightarrow> Msg \<Rightarrow> Conn \<Rightarrow> Conn \<times> Msg \<times> unit res" where
  "Conn_WriteMsg clock m co =
     (case IsTsig m of
        Ok (Some _) \<Rightarrow>
          (case TsigGenerateWithProvider clock m (Conn_tsigProvider co) (C_tsigRequestMAC co) False of
             (m, Ok (out, mac)) \<Rightarrow> (let (co, r) = Conn_Write out (co\<lparr>C_tsigRequestMAC := mac\<rparr>) in (co, m, r))
           | (m, Err e) \<Rightarrow> (co\<lparr>C_tsigRequestMAC := []\<rparr>, m, Err e)
           | (m, Panic) \<Rightarrow> (co, m, Panic))
      | Ok None \<Rightarrow>
          (case Pack m of
             (m, Ok out) \<Rightarrow> (let (co, r) = Conn_Write out co in (co, m, r))
           | (m, Err e) \<Rightarrow> (co, m, Err e)
           | (m, Panic) \<Rightarrow> (co, m, Panic))
      | _ \<Rightarrow> (co, m, Panic))"

subsection \<open>The exchange\<close>

text \<open>
  On a packet connection, replies with another identifier are skipped: the loop goes over the packets that are still to come. On a
  stream the first reply counts.
\<close>

fun exchange_packets :: "u64 \<Rightarrow> u64 \<Rightarrow> u16 \<Rightarrow> bytes list \<Rightarrow> Conn \<Rightarrow> Conn \<times> Msg res" where
  "exchange_packets clock now ident [] co = Conn_ReadMsg clock now co"
| "exchange_packets clock now ident (p # ps) co =
     (let (co, r) = Conn_ReadMsg clock now co in
      case r of
        Ok m \<Rightarrow> if Msg_Id m = ident then (co, r) else exchange_packets clock now ident ps co
      | _ \<Rightarrow> (co, r))"

text \<open>The settings of a \<^verbatim>\<open>Client\<close> that the exchange uses; those for signatures replace the ones of the connection.\<close>

record Client =
  Cl_UDPSize :: u16
  Cl_TsigSecret :: "gostring \<rightharpoonup> gostring"
  Cl_TsigProvider :: "TsigProvider option"

definition ExchangeWithConn :: "u64 \<Rightarrow> u64 \<Rightarrow> Client \<Rightarrow> Msg \<Rightarrow> Conn \<Rightarrow> Conn \<times> Msg res" where
  "ExchangeWithConn clock now c m co =
     (case IsEdns0 m of
        Err e \<Rightarrow> (co, Err e)
      | Panic \<Rightarrow> (co, Panic)
      | Ok opt \<Rightarrow>
          let co = (case opt of
                      Some (_, o') \<Rightarrow> if UDPSize o' \<ge> 512 then co\<lparr>C_UDPSize := UDPSize o'\<rparr> else co
                    | None \<Rightarrow> if Cl_UDPSize c \<ge> 512 then co\<lparr>C_UDPSize := Cl_UDPSize c\<rparr> else co);
              co = co\<lparr>C_TsigSecret := Cl_TsigSecret c, C_TsigProvider := Cl_TsigProvider c\<rparr> in
          (case Conn_WriteMsg clock m co of
             (co, m, Err e) \<Rightarrow> (co, Err e)
           | (co, m, Panic) \<Rightarrow> (co, Panic)
           | (co, m, Ok _) \<Rightarrow>
               (case C_in co of
                  Packets ps \<Rightarrow> exchange_packets clock now (Msg_Id m) ps co
                | Stream _ \<Rightarrow>
                    let (co, r) = Conn_ReadMsg clock now co in
                    (co, bindR r (\<lambda>r. if Msg_Id r \<noteq> Msg_Id m then Err (ErrMsg ''id mismatch'') else Ok r)))))"

subsection \<open>Messages without a signature\<close>

text \<open>What \<^verbatim>\<open>Pack\<close> writes of a well-formed message that has no additional records, and how it reads back.\<close>

lemma Pack_plain:
  assumes "msg_ok m" and "Msg_Extra m = []"
  obtains b m' where "Pack m = (m, Ok b)" and "12 \<le> length b" and "length b \<le> msg_size m" and "unpackMsgHdr b 0 = Ok (wire_header m, 12)"
    and "Unpack new_Msg b = (m', Ok ())" and "norm_msg m' = (norm_msg m)\<lparr>Msg_Compress := False\<rparr>"
proof -
  obtain m1 b m' where P: "PackBuffer m [] = (m1, Ok b)" "length b \<le> msg_size m" "Unpack new_Msg b = (m', Ok ())"
    "norm_msg m' = (norm_msg m1)\<lparr>Msg_Compress := Msg_Compress new_Msg\<rparr>" "no_ext_rcodes m1 = no_ext_rcodes m"
    using PackBuffer_reads_back [OF assms(1), of "[]" new_Msg] by blast
  have "Msg_Extra m1 = []" using arg_cong [OF P(5), of Msg_Extra] assms(2) by (simp add: no_ext_rcodes_def)
  then have m1: "m1 = m" using P(5) assms(2) by (cases m; cases m1) (simp add: no_ext_rcodes_def)
  obtain dns1 body where B: "Pack m = (dns1, Ok (enc_header (wire_header dns1) @ body))" by (rule Pack_body [OF assms(1)]) (rule that)
  have b: "b = enc_header (wire_header m) @ body" using B P(1) m1 by (simp add: Pack_def)
  have "unpackMsgHdr b 0 = Ok (wire_header m, 12)" unfolding b by (rule unpackMsgHdr_reads) simp
  moreover have "12 \<le> length b" by (simp add: b)
  ultimately show ?thesis using that P m1 by (simp add: Pack_def new_Msg_def)
qed

lemma norm_msg_plain:
  assumes "norm_msg m' = (norm_msg m)\<lparr>Msg_Compress := c\<rparr>"
  shows "Msg_Id m' = Msg_Id m" "Msg_Response m' = Msg_Response m" "Msg_Opcode m' = Msg_Opcode m" "Msg_Rcode m' = Msg_Rcode m"
    "Msg_RecursionDesired m' = Msg_RecursionDesired m" "Msg_CheckingDisabled m' = Msg_CheckingDisabled m"
    "Msg_Question m' = Msg_Question m" "map (map_option norm_rr) (Msg_Answer m') = map (map_option norm_rr) (Msg_Answer m)"
    "Msg_Extra m = [] \<Longrightarrow> Msg_Extra m' = []"
proof -
  note A = arg_cong [OF assms]
  show "Msg_Id m' = Msg_Id m" using A [of Msg_Id] by (simp add: norm_msg_def)
  show "Msg_Response m' = Msg_Response m" using A [of Msg_Response] by (simp add: norm_msg_def)
  show "Msg_Opcode m' = Msg_Opcode m" using A [of Msg_Opcode] by (simp add: norm_msg_def)
  show "Msg_Rcode m' = Msg_Rcode m" using A [of Msg_Rcode] by (simp add: norm_msg_def)
  show "Msg_RecursionDesired m' = Msg_RecursionDesired m" using A [of Msg_RecursionDesired] by (simp add: norm_msg_def)
  show "Msg_CheckingDisabled m' = Msg_CheckingDisabled m" using A [of Msg_CheckingDisabled] by (simp add: norm_msg_def)
  show "Msg_Question m' = Msg_Question m" using A [of Msg_Question] by (simp add: norm_msg_def)
  show "map (map_option norm_rr) (Msg_Answer m') = map (map_option norm_rr) (Msg_Answer m)" using A [of Msg_Answer] by (simp add: norm_msg_def)
  show "Msg_Extra m' = []" if "Msg_Extra m = []" using A [of Msg_Extra] that by (simp add: norm_msg_def)
qed

lemma IsTsig_none [simp]: "Msg_Extra m = [] \<Longrightarrow> IsTsig m = Ok None"
  by (simp add: IsTsig_def)

lemma WriteMsg_plain:
  assumes "\<not> W_closed w" and "Msg_Extra m = []" and "Pack m = (m', Ok b)"
  shows "W_conn w = UDP \<Longrightarrow> W_net w b = None \<Longrightarrow> WriteMsg clock m w = (w\<lparr>W_sent := W_sent w @ [b]\<rparr>, m', Ok ())"
    and "W_conn w = TCP \<Longrightarrow> length b \<le> MaxMsgSize \<Longrightarrow> W_net w (be16 (of_nat (length b)) @ b) = None \<Longrightarrow>
      WriteMsg clock m w = (w\<lparr>W_sent := W_sent w @ [be16 (of_nat (length b)) @ b]\<rparr>, m', Ok ())"
  using assms by (auto simp: WriteMsg_def Write_def net_write_def split: option.split)

subsection \<open>The server answers a question\<close>

definition query :: "u16 \<Rightarrow> gostring \<Rightarrow> u16 \<Rightarrow> Msg" where
  "query ident z t = SetQuestion ident z t new_Msg"

definition reply :: "RR option list \<Rightarrow> Msg \<Rightarrow> Msg" where
  "reply rs req = (SetReply req new_Msg)\<lparr>Msg_Answer := rs\<rparr>"

lemma query_ok: "ok_name z \<Longrightarrow> msg_ok (query ident z t)"
  by (simp add: query_def SetQuestion_def new_Msg_def msg_ok_def sections_ok_def)

lemma reply_ok:
  assumes "Msg_Opcode req = OpcodeQuery" and "Msg_Question req = [q]" and "ok_name (Q_Name q)" and "list_all rr_fits rs" and "length rs < 65536"
  shows "msg_ok (reply rs req)"
  using assms by (simp add: reply_def SetReply_def new_Msg_def msg_ok_def sections_ok_def Let_def)

text \<open>A message that asks one question, with nothing else in it.\<close>

definition plain_query :: "Msg \<Rightarrow> bool" where
  "plain_query m \<longleftrightarrow> msg_ok m \<and> Msg_Opcode m = OpcodeQuery \<and> \<not> Msg_Response m \<and> Msg_Rcode m = 0 \<and>
     length (Msg_Question m) = 1 \<and> Msg_Answer m = [] \<and> Msg_Ns m = [] \<and> Msg_Extra m = []"

lemma query_plain: "ok_name z \<Longrightarrow> plain_query (query ident z t)"
  by (simp add: plain_query_def query_ok) (simp add: query_def SetQuestion_def new_Msg_def)

lemma plain_query_accepted:
  assumes "plain_query q"
  shows "defaultMsgAcceptFunc (wire_header q) = MsgAccept"
proof -
  note P = assms [unfolded plain_query_def]
  have "setHdr (wire_header q) new_Msg = new_Msg\<lparr>Msg_Id := Msg_Id q, Msg_Response := Msg_Response q, Msg_Opcode := Msg_Opcode q,
    Msg_Authoritative := Msg_Authoritative q, Msg_Truncated := Msg_Truncated q, Msg_RecursionDesired := Msg_RecursionDesired q,
    Msg_RecursionAvailable := Msg_RecursionAvailable q, Msg_Zero := Msg_Zero q, Msg_AuthenticatedData := Msg_AuthenticatedData q,
    Msg_CheckingDisabled := Msg_CheckingDisabled q, Msg_Rcode := Msg_Rcode q mod 16\<rparr>"
    using P by (intro setHdr_msg_bits) (simp_all add: wire_header_def)
  from arg_cong [OF this, of Msg_Response] arg_cong [OF this, of Msg_Opcode]
  have "DH_Bits (wire_header q) AND QR_bit = 0" "uint (drop_bit 11 (DH_Bits (wire_header q))) AND 0xF = OpcodeQuery"
    using P by (simp_all add: setHdr_def)
  then show ?thesis using P by (simp add: defaultMsgAcceptFunc_def Let_def) (simp add: wire_header_def)
qed

lemma serveDNS_query:
  assumes "plain_query q" and "S_MsgAcceptFunc srv = defaultMsgAcceptFunc" and h: "unpackMsgHdr p 0 = Ok (wire_header q, 12)"
    and u: "Unpack new_Msg p = (req, Ok ())" and "Msg_Extra req = []"
  shows "serveDNS clock now srv p w = bindR (S_Handler srv (w\<lparr>W_tsigStatus := Ok ()\<rparr>) req) (\<lambda>w'. Ok (w', []))"
proof -
  have "Msg_unpack (setHdr (wire_header q) new_Msg) (wire_header q) p 12 = (req, Ok ())"
    using h u by (simp add: Unpack_def)
  moreover have "check_tsig clock now p req w = Ok (w\<lparr>W_tsigStatus := Ok ()\<rparr>)"
    using assms(5) by (simp add: check_tsig_def Let_def split: option.split)
  ultimately show ?thesis using h assms(2) plain_query_accepted [OF assms(1)] by (simp add: serveDNS_def Let_def)
qed

subsection \<open>The client waits for its reply\<close>

text \<open>A reply to another query, without a signature.\<close>

definition stale :: "u16 \<Rightarrow> bytes \<Rightarrow> bool" where
  "stale ident p \<longleftrightarrow> headerSize \<le> length p \<and> length p \<le> MinMsgSizeNat \<and>
     (\<exists>m. Unpack new_Msg p = (m, Ok ()) \<and> IsTsig m = Ok None \<and> Msg_Id m \<noteq> ident)"

lemma Conn_ReadMsg_packet:
  assumes "C_in co = Packets (p # ps)" and "12 \<le> length p" and "length p \<le> 512"
    and "Unpack new_Msg p = (m, Ok ())" and "IsTsig m = Ok None"
  shows "Conn_ReadMsg clock now co = (co\<lparr>C_in := Packets ps\<rparr>, Ok m)"
  using assms by (simp add: Conn_ReadMsg_def ReadMsgHeader_def Conn_Read_def Let_def)

lemma exchange_packets_stale:
  assumes "list_all (stale ident) ss" and "C_in co = Packets (ss @ ps)"
  shows "exchange_packets clock now ident (ss @ ps) co = exchange_packets clock now ident ps (co\<lparr>C_in := Packets ps\<rparr>)"
  using assms
proof (induction ss arbitrary: co)
  case Nil
  then show ?case by (cases co) simp
next
  case (Cons s ss)
  then obtain m where m: "12 \<le> length s" "length s \<le> 512" "Unpack new_Msg s = (m, Ok ())" "IsTsig m = Ok None" "Msg_Id m \<noteq> ident"
    by (auto simp: stale_def)
  have "Conn_ReadMsg clock now co = (co\<lparr>C_in := Packets (ss @ ps)\<rparr>, Ok m)"
    using Cons.prems(2) m by (intro Conn_ReadMsg_packet) simp_all
  with m(5) Cons.IH [of "co\<lparr>C_in := Packets (ss @ ps)\<rparr>"] Cons.prems show ?case by simp
qed

text \<open>The connection that the exchange of a query without an OPT record works with.\<close>

definition exchange_conn :: "Client \<Rightarrow> Conn \<Rightarrow> Conn" where
  "exchange_conn c co =
     (if 512 \<le> Cl_UDPSize c then co\<lparr>C_UDPSize := Cl_UDPSize c\<rparr> else co)\<lparr>C_TsigSecret := Cl_TsigSecret c, C_TsigProvider := Cl_TsigProvider c\<rparr>"

lemma ExchangeWithConn_packets:
  assumes "IsEdns0 m = Ok None" and "x = exchange_conn c co" and "Conn_WriteMsg clock m x = (co', m', Ok ())" and "C_in co' = Packets ps"
  shows "ExchangeWithConn clock now c m co = exchange_packets clock now (Msg_Id m') ps co'"
  using assms(1,3,4) unfolding assms(2) by (simp add: ExchangeWithConn_def exchange_conn_def Let_def)

subsection \<open>The property\<close>


definition ex_conn :: Conn where
  "ex_conn = \<lparr>C_in = Packets [], C_out = [], C_UDPSize = 0, C_TsigProvider = None, C_TsigSecret = Map.empty, C_tsigRequestMAC = []\<rparr>"

definition ex_client :: Client where
  "ex_client = \<lparr>Cl_UDPSize = 1232, Cl_TsigSecret = Map.empty, Cl_TsigProvider = None\<rparr>"


end
