(* ===== verification/Xfr.thy ===== *)
theory Xfr
  imports Client_Conn
begin

section \<open>Zone transfers\<close>

text \<open>
  \<^verbatim>\<open>xfr.go\<close>: the loops that receive a zone (\<^verbatim>\<open>inAxfr\<close>, \<^verbatim>\<open>inIxfr\<close>) and the one
  that sends it (\<^verbatim>\<open>Out\<close>). What arrives from the network is a list: each element is what one call of
  \<^verbatim>\<open>Read\<close> returns, the octets and possibly an error. The result of a receiving loop is the list of
  envelopes it has sent to its channel, and whether it has returned (and closed the connection and the channel); it has not returned
  when it waits for more than the list holds. Dialling, deadlines and closing are not part of the model.
\<close>

abbreviation ErrId :: error where "ErrId \<equiv> ErrMsg ''id mismatch''"
abbreviation ErrSoa :: error where "ErrSoa \<equiv> ErrMsg ''no SOA''"
abbreviation ErrXfrRcode :: error where "ErrXfrRcode \<equiv> ErrMsg ''bad xfr rcode''"

record Envelope =
  E_RR :: "RR option list"
  E_Error :: "error option"

record Transfer =
  T_tsigProvider :: "TsigProvider option"
  T_tsigRequestMAC :: gostring
  T_tsigTimersOnly :: bool

type_synonym read_result = "bytes \<times> error option"

subsection \<open>Messages of a transfer\<close>

definition Transfer_ReadMsg :: "u64 \<Rightarrow> u64 \<Rightarrow> read_result \<Rightarrow> Transfer \<Rightarrow> Transfer \<times> Msg res" where
  "Transfer_ReadMsg clock now rd t =
     (case rd of (p, err) \<Rightarrow>
       (case (if p = [] then err else None) of
          Some e \<Rightarrow> (t, Err e)
        | None \<Rightarrow>
            (case Unpack new_Msg p of
               (m, Err e) \<Rightarrow> (t, Err e)
             | (m, Panic) \<Rightarrow> (t, Panic)
             | (m, Ok _) \<Rightarrow>
                 (case T_tsigProvider t of
                    None \<Rightarrow> (t, case err of None \<Rightarrow> Ok m | Some e \<Rightarrow> Err e)
                  | Some tp \<Rightarrow>
                      (let status = TsigVerifyWithProvider clock p tp (T_tsigRequestMAC t) (T_tsigTimersOnly t) now in
                       (case IsTsig m of
                          Ok (Some ts) \<Rightarrow> t\<lparr>T_tsigRequestMAC := TSIG_MAC ts\<rparr>
                        | _ \<Rightarrow> t,
                        bindR (IsTsig m) (\<lambda>_. bindR status (\<lambda>_. Ok m))))))))"

text \<open>
  The octets of a message, signed when the message has a TSIG record and there is a provider; then \<^verbatim>\<open>Conn.Write\<close> refuses more than 65535 of them, and
  frames them on a stream. What the network makes of the octets, an error or none, is an argument.
\<close>

definition transfer_octets :: "u64 \<Rightarrow> Msg \<Rightarrow> Transfer \<Rightarrow> Transfer \<times> bytes res" where
  "transfer_octets clock m t =
     (case (IsTsig m, T_tsigProvider t) of
        (Ok (Some _), Some tp) \<Rightarrow>
          (case snd (TsigGenerateWithProvider clock m tp (T_tsigRequestMAC t) (T_tsigTimersOnly t)) of
             Ok (out, mac) \<Rightarrow> (t\<lparr>T_tsigRequestMAC := mac\<rparr>, Ok out)
           | Err e \<Rightarrow> (t\<lparr>T_tsigRequestMAC := []\<rparr>, Err e)
           | Panic \<Rightarrow> (t, Panic))
      | (Ok _, _) \<Rightarrow> (t, snd (Pack m))
      | _ \<Rightarrow> (t, Panic))"

definition Transfer_WriteMsg :: "u64 \<Rightarrow> (bytes \<Rightarrow> error option) \<Rightarrow> Msg \<Rightarrow> Transfer \<Rightarrow> Conn \<Rightarrow> Transfer \<times> Conn \<times> unit res" where
  "Transfer_WriteMsg clock net m t co =
     (case transfer_octets clock m t of
        (t, Ok out) \<Rightarrow>
          (case Conn_Write out co of
             (co', Ok _) \<Rightarrow>
               (case net (last (C_out co')) of
                  None \<Rightarrow> (t, co', Ok ())
                | Some e \<Rightarrow> (t, co, Err e))
           | (co', r) \<Rightarrow> (t, co', r))
      | (t, Err e) \<Rightarrow> (t, co, Err e)
      | (t, Panic) \<Rightarrow> (t, co, Panic))"

text \<open>The type of a record; a nil record has no header.\<close>

definition is_SOA_type :: "RR option \<Rightarrow> bool res" where
  "is_SOA_type r = (case r of None \<Rightarrow> Panic | Some rr \<Rightarrow> Ok (Hdr_Rrtype (rr_Header rr) = TypeSOA))"

definition isSOAFirst :: "Msg \<Rightarrow> bool res" where
  "isSOAFirst m = (case Msg_Answer m of [] \<Rightarrow> Ok False | r # _ \<Rightarrow> is_SOA_type r)"

definition isSOALast :: "Msg \<Rightarrow> bool res" where
  "isSOALast m = (if Msg_Answer m = [] then Ok False else is_SOA_type (last (Msg_Answer m)))"

subsection \<open>Receiving a whole zone\<close>

abbreviation env_ok :: "Msg \<Rightarrow> Envelope" where "env_ok m \<equiv> \<lparr>E_RR = Msg_Answer m, E_Error = None\<rparr>"
abbreviation env_err :: "RR option list \<Rightarrow> error \<Rightarrow> Envelope" where "env_err rs e \<equiv> \<lparr>E_RR = rs, E_Error = Some e\<rparr>"

text \<open>\<open>send e r\<close>: the envelope goes to the channel, then the loop goes on with \<open>r\<close>.\<close>

definition send :: "Envelope \<Rightarrow> (Envelope list \<times> bool) res \<Rightarrow> (Envelope list \<times> bool) res" where
  "send e r = bindR r (\<lambda>(es, done). Ok (e # es, done))"

fun inAxfr_loop :: "u64 \<Rightarrow> u64 \<Rightarrow> Msg \<Rightarrow> read_result list \<Rightarrow> bool \<Rightarrow> Transfer \<Rightarrow> (Envelope list \<times> bool) res" where
  "inAxfr_loop clock now q [] first t = Ok ([], False)"
| "inAxfr_loop clock now q (rd # rds) first t =
     (let (t, r) = Transfer_ReadMsg clock now rd t in
      case r of
        Err e \<Rightarrow> Ok ([env_err [] e], True)
      | Panic \<Rightarrow> Panic
      | Ok m \<Rightarrow>
          if Msg_Id q \<noteq> Msg_Id m then Ok ([env_err (Msg_Answer m) ErrId], True)
          else if first \<and> Msg_Rcode m \<noteq> RcodeSuccess then Ok ([env_err (Msg_Answer m) ErrXfrRcode], True)
          else
            bindR (if first then isSOAFirst m else Ok True) (\<lambda>ok.
            if \<not> ok then Ok ([env_err (Msg_Answer m) ErrSoa], True)
            else
              let t = t\<lparr>T_tsigTimersOnly := True\<rparr> in
              if first \<and> length (Msg_Answer m) = 1 then send (env_ok m) (inAxfr_loop clock now q rds False t)
              else
                bindR (isSOALast m) (\<lambda>soa_last.
                if soa_last then Ok ([env_ok m], True)
                else send (env_ok m) (inAxfr_loop clock now q rds False t))))"

definition inAxfr :: "u64 \<Rightarrow> u64 \<Rightarrow> Msg \<Rightarrow> read_result list \<Rightarrow> Transfer \<Rightarrow> (Envelope list \<times> bool) res" where
  "inAxfr clock now q rds t = inAxfr_loop clock now q rds True t"

subsection \<open>Receiving the changes of a zone\<close>

text \<open>
  The loop over the records of a message, with the number of SOA records seen that have the serial of the server and whether it may
  still be a whole zone; the last component says that the transfer is complete.
\<close>

fun ixfr_scan :: "u32 \<Rightarrow> RR option list \<Rightarrow> nat \<Rightarrow> bool \<Rightarrow> nat \<times> bool \<times> bool" where
  "ixfr_scan serial [] n axfr = (n, axfr, False)"
| "ixfr_scan serial (r # rs) n axfr =
     (case r of
        Some (RR_SOA v) \<Rightarrow>
          if SOA_Serial v = serial then
            (let n = n + 1 in
             if axfr \<and> n = 2 \<or> n = 3 then (n, axfr, True) else ixfr_scan serial rs n axfr)
          else ixfr_scan serial rs n False
      | _ \<Rightarrow> ixfr_scan serial rs n axfr)"

definition first_serial :: "Msg \<Rightarrow> u32 res" where
  "first_serial m = (case Msg_Answer m of Some (RR_SOA v) # _ \<Rightarrow> Ok (SOA_Serial v) | _ \<Rightarrow> Panic)"

fun inIxfr_loop ::
  "u64 \<Rightarrow> u64 \<Rightarrow> Msg \<Rightarrow> u32 \<Rightarrow> read_result list \<Rightarrow> u32 \<Rightarrow> bool \<Rightarrow> nat \<Rightarrow> Transfer \<Rightarrow> (Envelope list \<times> bool) res" where
  "inIxfr_loop clock now q qser [] serial axfr n t = Ok ([], False)"
| "inIxfr_loop clock now q qser (rd # rds) serial axfr n t =
     (let (t, r) = Transfer_ReadMsg clock now rd t in
      case r of
        Err e \<Rightarrow> Ok ([env_err [] e], True)
      | Panic \<Rightarrow> Panic
      | Ok m \<Rightarrow>
          if Msg_Id q \<noteq> Msg_Id m then Ok ([env_err (Msg_Answer m) ErrId], True)
          else if Msg_Rcode m \<noteq> RcodeSuccess then Ok ([env_err (Msg_Answer m) ErrXfrRcode], True)
          else
            bindR (if n = 0 then isSOAFirst m else Ok True) (\<lambda>ok.
            if \<not> ok then Ok ([env_err (Msg_Answer m) ErrSoa], True)
            else
              bindR (if n = 0 then first_serial m else Ok serial) (\<lambda>serial.
              if n = 0 \<and> qser \<ge> serial then Ok ([env_ok m], True)
              else
                let t = t\<lparr>T_tsigTimersOnly := True\<rparr>; (n, axfr, complete) = ixfr_scan serial (Msg_Answer m) n axfr in
                if complete then Ok ([env_ok m], True)
                else send (env_ok m) (inIxfr_loop clock now q qser rds serial axfr n t))))"

definition inIxfr :: "u64 \<Rightarrow> u64 \<Rightarrow> Msg \<Rightarrow> read_result list \<Rightarrow> Transfer \<Rightarrow> (Envelope list \<times> bool) res" where
  "inIxfr clock now q rds t =
     (case Msg_Ns q of
        Some (RR_SOA s) # _ \<Rightarrow> inIxfr_loop clock now q (SOA_Serial s) rds 0 True 0 t
      | _ \<Rightarrow> Panic)"

text \<open>The request goes out first, on a connection that is there; what the calls of \<^verbatim>\<open>Read\<close> will return is the list.\<close>

definition Transfer_In ::
  "u64 \<Rightarrow> u64 \<Rightarrow> (bytes \<Rightarrow> error option) \<Rightarrow> Msg \<Rightarrow> read_result list \<Rightarrow> Transfer \<Rightarrow> Conn \<Rightarrow> Conn \<times> (Envelope list \<times> bool) res" where
  "Transfer_In clock now net q rds t co =
     (case Msg_Question q of
        [] \<Rightarrow> (co, Panic)
      | qu # _ \<Rightarrow>
          if Q_Qtype qu \<noteq> TypeAXFR \<and> Q_Qtype qu \<noteq> TypeIXFR then (co, Err (ErrMsg ''unsupported question type''))
          else
            let (t, co, r) = Transfer_WriteMsg clock net q t co in
            (co, bindR r (\<lambda>_. if Q_Qtype qu = TypeAXFR then inAxfr clock now q rds t else inIxfr clock now q rds t)))"

subsection \<open>Sending a zone\<close>

definition out_msg :: "u64 \<Rightarrow> Msg \<Rightarrow> Envelope \<Rightarrow> response \<Rightarrow> Msg res" where
  "out_msg now q x w =
     (let r = (SetReply q new_Msg)\<lparr>Msg_Authoritative := True\<rparr>;
          r = r\<lparr>Msg_Answer := Msg_Answer r @ E_RR x\<rparr> in
      bindR (IsTsig q) (\<lambda>tsig.
      case tsig of
        Some ts \<Rightarrow>
          if W_tsigStatus w = Ok ()
          then Ok (SetTsig (Hdr_Name (TSIG_Hdr ts)) (TSIG_Algorithm ts) (TSIG_Fudge ts) now r) else Ok r
      | None \<Rightarrow> Ok r))"

fun Out :: "u64 \<Rightarrow> u64 \<Rightarrow> Msg \<Rightarrow> Envelope list \<Rightarrow> response \<Rightarrow> response \<times> unit res" where
  "Out clock now q [] w = (w, Ok ())"
| "Out clock now q (x # xs) w =
     (case out_msg now q x w of
        Ok r \<Rightarrow>
          (case WriteMsg clock r w of
             (w, _, Ok _) \<Rightarrow> Out clock now q xs (TsigTimersOnly True w)
           | (w, _, Err e) \<Rightarrow> (w, Err e)
           | (w, _, Panic) \<Rightarrow> (w, Panic))
      | Err e \<Rightarrow> (w, Err e)
      | Panic \<Rightarrow> (w, Panic))"


section \<open>A zone arrives\<close>

text \<open>What the first \<open>n\<close> calls of \<^verbatim>\<open>Read\<close> return, each into a buffer of \<^verbatim>\<open>MaxMsgSize\<close> octets.\<close>

fun conn_reads :: "nat \<Rightarrow> Conn \<Rightarrow> read_result list" where
  "conn_reads 0 co = []"
| "conn_reads (Suc n) co = (case Conn_Read MaxMsgSize co of (co, p, err) \<Rightarrow> (p, err) # conn_reads n co)"

definition frame :: "bytes \<Rightarrow> bytes" where
  "frame b = be16 (of_nat (length b)) @ b"

text \<open>
  The records of a zone, as they are to be sent: an SOA record, others, and an SOA record again; cut into envelopes that each have a
  record.
\<close>

definition soa_rr :: "RR option \<Rightarrow> bool" where
  "soa_rr r = (is_SOA_type r = Ok True)"

definition zone_records :: "RR option list \<Rightarrow> bool" where
  "zone_records rs \<longleftrightarrow> 2 \<le> length rs \<and> soa_rr (hd rs) \<and> soa_rr (last rs) \<and> list_all (\<lambda>r. is_SOA_type r = Ok False) (butlast (tl rs))"

definition zone_envelopes :: "Envelope list \<Rightarrow> bool" where
  "zone_envelopes xs \<longleftrightarrow> zone_records (concat (map E_RR xs)) \<and> list_all (\<lambda>x. E_RR x \<noteq> []) xs"

subsection \<open>Reading the stream\<close>

lemma Conn_Read_frame:
  assumes "length b \<le> MaxMsgSize"
  shows "Conn_Read MaxMsgSize (co\<lparr>C_in := Stream (frame b @ rest)\<rparr>) = (co\<lparr>C_in := Stream rest\<rparr>, b, None)"
  using assms by (simp add: Conn_Read_def ReadFull_def frame_def Let_def of_nat_count)

lemma conn_reads_frames:
  assumes "list_all (\<lambda>b. length b \<le> MaxMsgSize) bs"
  shows "\<exists>rds. conn_reads (length bs + n) (co\<lparr>C_in := Stream (concat (map frame bs))\<rparr>) = map (\<lambda>b. (b, None)) bs @ rds"
  using assms
proof (induction bs)
  case (Cons b bs)
  then show ?case using Conn_Read_frame [where b = b and co = co and rest = "concat (map frame bs)"] by simp
qed simp

subsection \<open>The receiving loop\<close>

text \<open>\<open>arrives q t b m\<close>: the octets \<open>b\<close> are a message \<open>m\<close> of the transfer that \<open>q\<close> asked for.\<close>

definition arrives :: "Msg \<Rightarrow> bytes \<Rightarrow> Msg \<Rightarrow> bool" where
  "arrives q b m \<longleftrightarrow> b \<noteq> [] \<and> Unpack new_Msg b = (m, Ok ()) \<and> Msg_Id m = Msg_Id q \<and> Msg_Rcode m = RcodeSuccess \<and> Msg_Answer m \<noteq> []"

lemma Transfer_ReadMsg_arrives:
  assumes "arrives q b m" and "T_tsigProvider t = None"
  shows "Transfer_ReadMsg clock now (b, None) t = (t, Ok m)"
  using assms by (simp add: arrives_def Transfer_ReadMsg_def)

text \<open>After the first message, the loop ends with the first message that ends in an SOA record.\<close>

lemma inAxfr_rest:
  assumes "list_all2 (arrives q) bs ms" and "T_tsigProvider t = None" and "ms \<noteq> []"
    and "concat (map Msg_Answer ms) = rs @ [z]" and "soa_rr z" and "list_all (\<lambda>r. is_SOA_type r = Ok False) rs"
  shows "inAxfr_loop clock now q (map (\<lambda>b. (b, None)) bs @ rds) False t = Ok (map env_ok ms, True)"
  using assms
proof (induction bs ms arbitrary: t rs rule: list_all2_induct)
  case (Cons b bs m ms)
  note a = Cons.hyps(1) [unfolded arrives_def]
  show ?case
  proof (cases "ms = []")
    case True
    then have "last (Msg_Answer m) = z" using Cons.prems(3) by simp
    then have "isSOALast m = Ok True" using a Cons.prems(4) by (simp add: isSOALast_def soa_rr_def)
    then show ?thesis using True Cons.hyps(2) a Transfer_ReadMsg_arrives [OF Cons.hyps(1) Cons.prems(1)] by simp
  next
    case False
    then have ne: "concat (map Msg_Answer ms) \<noteq> []" using Cons.hyps(2)
      by (cases ms) (auto simp: list_all2_Cons2 arrives_def)
    define us where "us = butlast (concat (map Msg_Answer ms))"
    have us: "concat (map Msg_Answer ms) = us @ [z]"
      using ne arg_cong [OF Cons.prems(3), of last] append_butlast_last_id [OF ne] by (simp add: us_def)
    then have rs: "rs = Msg_Answer m @ us" using Cons.prems(3) by simp
    then have "is_SOA_type (last (Msg_Answer m)) = Ok False" using Cons.prems(5) a by (simp add: list_all_iff)
    then have "isSOALast m = Ok False" using a by (simp add: isSOALast_def)
    moreover have "inAxfr_loop clock now q (map (\<lambda>b. (b, None)) bs @ rds) False (t\<lparr>T_tsigTimersOnly := True\<rparr>) = Ok (map env_ok ms, True)"
      using Cons.IH [of "t\<lparr>T_tsigTimersOnly := True\<rparr>" us] Cons.prems rs False us by simp
    ultimately show ?thesis using a Transfer_ReadMsg_arrives [OF Cons.hyps(1) Cons.prems(1)] by (simp add: send_def Let_def)
  qed
qed simp

lemma inAxfr_delivers:
  assumes "list_all2 (arrives q) bs ms" and "T_tsigProvider t = None" and "zone_records (concat (map Msg_Answer ms))"
  shows "inAxfr clock now q (map (\<lambda>b. (b, None)) bs @ rds) t = Ok (map env_ok ms, True)"
proof -
  obtain m ms' b bs' where M: "ms = m # ms'" "bs = b # bs'" "arrives q b m" "list_all2 (arrives q) bs' ms'"
    using assms(1,3) by (cases ms; cases bs) (auto simp: zone_records_def)
  note a = M(3) [unfolded arrives_def]
  let ?rs = "concat (map Msg_Answer ms)"
  obtain s rs z where R: "?rs = s # rs @ [z]" "soa_rr s" "soa_rr z" "list_all (\<lambda>r. is_SOA_type r = Ok False) rs"
  proof (rule that [of "hd ?rs" "butlast (tl ?rs)" "last ?rs"])
    show "?rs = hd ?rs # butlast (tl ?rs) @ [last ?rs]" using assms(3)
      by (cases ?rs; cases "tl ?rs" rule: rev_cases) (auto simp: zone_records_def)
  qed (use assms(3) in \<open>auto simp: zone_records_def\<close>)
  obtain as where A: "Msg_Answer m = s # as" using R(1) M(1) a by (cases "Msg_Answer m") auto
  have first: "isSOAFirst m = Ok True" using A R(2) by (simp add: isSOAFirst_def soa_rr_def)
  note rd = Transfer_ReadMsg_arrives [OF M(3) assms(2)]
  let ?t = "t\<lparr>T_tsigTimersOnly := True\<rparr>"
  have rest: "inAxfr_loop clock now q (map (\<lambda>b. (b, None)) bs' @ rds) False ?t = Ok (map env_ok ms', True)"
    if "ms' \<noteq> []" "concat (map Msg_Answer ms') = us @ [z]" "list_all (\<lambda>r. is_SOA_type r = Ok False) us" for us
    using inAxfr_rest [OF M(4) _ that(1,2) R(3) that(3)] assms(2) by simp
  show ?thesis
  proof (cases "ms' = []")
    case True
    then have "as = rs @ [z]" using R(1) A M(1) by simp
    then have "isSOALast m = Ok True" using A R(3) by (simp add: isSOALast_def soa_rr_def)
    then show ?thesis using True M a rd first A \<open>as = rs @ [z]\<close> by (simp add: inAxfr_def)
  next
    case False
    then have ne: "concat (map Msg_Answer ms') \<noteq> []" using M(4) by (cases ms') (auto simp: list_all2_Cons2 arrives_def)
    define us where "us = butlast (concat (map Msg_Answer ms'))"
    have us: "concat (map Msg_Answer ms') = us @ [z]" "rs = as @ us"
    proof -
      have e: "as @ concat (map Msg_Answer ms') = rs @ [z]" using R(1) A M(1) by simp
      show "concat (map Msg_Answer ms') = us @ [z]" using ne arg_cong [OF e, of last] append_butlast_last_id [OF ne] by (simp add: us_def)
      then show "rs = as @ us" using e by simp
    qed
    have "length (Msg_Answer m) = 1 \<or> isSOALast m = Ok False" using A R(4) us(2) by (cases as rule: rev_cases) (auto simp: isSOALast_def)
    then show ?thesis using rest [OF False us(1)] R(4) us(2) M a rd first by (auto simp: inAxfr_def send_def Let_def)
  qed
qed

subsection \<open>The sending loop\<close>

definition axfr_reply :: "Msg \<Rightarrow> Envelope \<Rightarrow> Msg" where
  "axfr_reply q x = (reply (E_RR x) q)\<lparr>Msg_Authoritative := True\<rparr>"

definition env_fits :: "Msg \<Rightarrow> Envelope \<Rightarrow> bool" where
  "env_fits q x \<longleftrightarrow> list_all rr_fits (E_RR x) \<and> length (E_RR x) < 65536 \<and> msgLenWithCompressionMap (axfr_reply q x) None \<le> MaxMsgSize"

lemma out_msg_plain: "Msg_Extra q = [] \<Longrightarrow> out_msg now q x w = Ok (axfr_reply q x)"
  by (simp add: out_msg_def axfr_reply_def reply_def SetReply_def new_Msg_def Let_def split: list.split)

lemma axfr_reply_arrives:
  assumes "Msg_Opcode q = OpcodeQuery" and "Msg_Question q = [qu]" and "ok_name (Q_Name qu)" and "env_fits q x" and "E_RR x \<noteq> []"
  obtains b m where "Pack (axfr_reply q x) = (axfr_reply q x, Ok b)" and "length b \<le> MaxMsgSize" and "arrives q b m"
    and "map (map_option norm_rr) (Msg_Answer m) = map (map_option norm_rr) (E_RR x)"
proof -
  let ?r = "axfr_reply q x"
  have "msg_ok ?r" using reply_ok [OF assms(1-3), of "E_RR x"] assms(4)
    by (simp add: axfr_reply_def env_fits_def msg_ok_def sections_ok_def)
  moreover have e: "Msg_Extra ?r = []" "Msg_Id ?r = Msg_Id q" "Msg_Rcode ?r = RcodeSuccess" "Msg_Answer ?r = E_RR x"
    by (simp_all add: axfr_reply_def reply_def SetReply_def new_Msg_def Let_def split: list.split)
  ultimately obtain b m where B: "Pack ?r = (?r, Ok b)" "12 \<le> length b" "length b \<le> msg_size ?r" "Unpack new_Msg b = (m, Ok ())"
    "norm_msg m = (norm_msg ?r)\<lparr>Msg_Compress := False\<rparr>"
    using Pack_plain [of ?r] by metis
  note N = norm_msg_plain [OF B(5)]
  have "Msg_Answer m \<noteq> []" using arg_cong [OF N(8), of length] assms(5) e by auto
  then have "arrives q b m" using B N e by (auto simp: arrives_def)
  then show ?thesis using that B N(8) e assms(4) by (simp add: env_fits_def msgLen_None)
qed

lemma Out_sends:
  assumes "Msg_Opcode q = OpcodeQuery" and "Msg_Question q = [qu]" and "ok_name (Q_Name qu)" and "Msg_Extra q = []"
    and "list_all (env_fits q) xs" and "list_all (\<lambda>x. E_RR x \<noteq> []) xs"
    and "W_conn w = TCP" "\<not> W_closed w" "\<And>p. W_net w p = None"
  shows "\<exists>w' bs ms. Out clock now q xs w = (w', Ok ()) \<and> W_sent w' = W_sent w @ map frame bs \<and> list_all2 (arrives q) bs ms \<and>
    list_all (\<lambda>b. length b \<le> MaxMsgSize) bs \<and>
    map (\<lambda>m. map (map_option norm_rr) (Msg_Answer m)) ms = map (\<lambda>x. map (map_option norm_rr) (E_RR x)) xs"
  using assms(5-9)
proof (induction xs arbitrary: w)
  case (Cons x xs)
  obtain b m where B: "Pack (axfr_reply q x) = (axfr_reply q x, Ok b)" "length b \<le> MaxMsgSize" "arrives q b m"
    "map (map_option norm_rr) (Msg_Answer m) = map (map_option norm_rr) (E_RR x)"
    using axfr_reply_arrives [OF assms(1-3), of x] Cons.prems(1,2) by auto
  have "Msg_Extra (axfr_reply q x) = []" by (simp add: axfr_reply_def reply_def SetReply_def new_Msg_def Let_def split: list.split)
  then have w: "WriteMsg clock (axfr_reply q x) w = (w\<lparr>W_sent := W_sent w @ [frame b]\<rparr>, axfr_reply q x, Ok ())"
    using WriteMsg_plain(2) [OF Cons.prems(4) _ B(1) Cons.prems(3) B(2)] Cons.prems(5) by (simp add: frame_def)
  obtain w' bs ms where "Out clock now q xs (TsigTimersOnly True (w\<lparr>W_sent := W_sent w @ [frame b]\<rparr>)) = (w', Ok ())"
    "W_sent w' = W_sent w @ [frame b] @ map frame bs" "list_all2 (arrives q) bs ms" "list_all (\<lambda>b. length b \<le> MaxMsgSize) bs"
    "map (\<lambda>m. map (map_option norm_rr) (Msg_Answer m)) ms = map (\<lambda>x. map (map_option norm_rr) (E_RR x)) xs"
    using Cons.IH [of "TsigTimersOnly True (w\<lparr>W_sent := W_sent w @ [frame b]\<rparr>)"] Cons.prems by (auto simp: TsigTimersOnly_def)
  then show ?case using w B out_msg_plain [OF assms(4)] by (intro exI [of _ w'] exI [of _ "b # bs"] exI [of _ "m # ms"]) simp
qed simp

lemma is_SOA_type_norm: "is_SOA_type (map_option norm_rr r) = is_SOA_type r"
  by (cases r) (simp_all add: is_SOA_type_def norm_rr_def with_rdlength_def)

lemma zone_records_norm:
  assumes "map (map_option norm_rr) rs = map (map_option norm_rr) rs'" and "zone_records rs'"
  shows "zone_records rs"
proof -
  have *: "zone_records (map (map_option norm_rr) us) = zone_records us" for us
    by (cases "us = []")
      (simp_all add: zone_records_def soa_rr_def hd_map last_map map_tl [symmetric] map_butlast [symmetric] list.pred_map comp_def is_SOA_type_norm)
  show ?thesis using * [of rs] * [of rs'] assms by simp
qed

text \<open>A handler that sends a zone and ignores the error.\<close>

definition sent :: "response \<times> unit res \<Rightarrow> response res" where
  "sent r = (case r of (w, Panic) \<Rightarrow> Panic | (w, _) \<Rightarrow> Ok w)"

subsection \<open>The property\<close>

text \<open>
  C2: A zone transfer over TCP completes and delivers the zone. The client, which has no TSIG provider, asks for the zone of a well-formed name,
  and the request goes out on the stream with its length before it; the server, with the default
  \<^verbatim>\<open>MsgAcceptFunc\<close>, hands the request to its handler, which sends with \<^verbatim>\<open>Out\<close> any well-formed envelopes that make up a
  zone (an SOA record first and last and none between, cut into envelopes anywhere, each within a message of 65535 octets). Then
  \<^verbatim>\<open>In\<close> at the client, with no error of the network, reading the stream that the server wrote, returns after as many reads as there are envelopes, and
  has sent just these envelopes to its channel, none of them with an error and each with the same records.
\<close>

theorem zone_is_transferred:
  assumes "ok_name z" and "zone_envelopes xs" and "list_all (env_fits (SetAxfr ident z new_Msg)) xs"
    and "W_conn w = TCP" "\<not> W_closed w" "\<And>p. W_net w p = None" "W_sent w = []" and "T_tsigProvider t = None" and "\<And>p. net p = None"
    and "srv = \<lparr>S_Handler = (\<lambda>w req. sent (Out clock now req xs w)), S_MsgAcceptFunc = defaultMsgAcceptFunc\<rparr>"
  shows "\<exists>p w' es. serveDNS clock now srv p w = Ok (w', []) \<and>
    (\<forall>n co. Transfer_In clock now net (SetAxfr ident z new_Msg) (conn_reads (length xs + n) (co\<lparr>C_in := Stream (concat (W_sent w'))\<rparr>)) t
        (co\<lparr>C_in := Stream (concat (W_sent w'))\<rparr>) =
      (co\<lparr>C_in := Stream (concat (W_sent w')), C_out := C_out co @ [frame p]\<rparr>, Ok (es, True))) \<and>
    map (\<lambda>x. map (map_option norm_rr) (E_RR x)) es = map (\<lambda>x. map (map_option norm_rr) (E_RR x)) xs \<and> list_all (\<lambda>x. E_Error x = None) es"
proof -
  let ?q = "SetAxfr ident z new_Msg"
  have q: "plain_query ?q" "Msg_Opcode ?q = OpcodeQuery" "Msg_Extra ?q = []" "Msg_Question ?q = [\<lparr>Q_Name = z, Q_Qtype = TypeAXFR, Q_Qclass = ClassINET\<rparr>]"
    using assms(1) by (simp_all add: plain_query_def SetAxfr_def new_Msg_def msg_ok_def sections_ok_def)
  obtain p req where P: "Pack ?q = (?q, Ok p)" "unpackMsgHdr p 0 = Ok (wire_header ?q, 12)" "Unpack new_Msg p = (req, Ok ())"
    "norm_msg req = (norm_msg ?q)\<lparr>Msg_Compress := False\<rparr>" "length p \<le> msg_size ?q"
    using Pack_plain [OF conjunct1 [OF q(1) [unfolded plain_query_def]] q(3)] by metis
  note N = norm_msg_plain [OF P(4)]
  have r: "Msg_Opcode req = OpcodeQuery" "Msg_Extra req = []" "Msg_Question req = [\<lparr>Q_Name = z, Q_Qtype = TypeAXFR, Q_Qclass = ClassINET\<rparr>]"
    using N q by simp_all
  have "axfr_reply req = axfr_reply ?q" using N q(4) by (simp add: axfr_reply_def reply_def SetReply_def Let_def fun_eq_iff)
  then have fits: "list_all (env_fits req) xs" using assms(3) by (simp add: env_fits_def [abs_def])
  have ar: "arrives req = arrives ?q" using N(1) by (simp add: arrives_def fun_eq_iff)
  let ?w = "w\<lparr>W_tsigStatus := Ok ()\<rparr>"
  obtain w' bs ms where O: "Out clock now req xs ?w = (w', Ok ())" "W_sent w' = map frame bs" "list_all2 (arrives ?q) bs ms"
    "list_all (\<lambda>b. length b \<le> MaxMsgSize) bs" "map (\<lambda>m. map (map_option norm_rr) (Msg_Answer m)) ms = map (\<lambda>x. map (map_option norm_rr) (E_RR x)) xs"
    using Out_sends [OF r(1,3) _ r(2) fits, of ?w clock now] assms(1,2,4-7) unfolding ar by (auto simp: zone_envelopes_def)
  have "serveDNS clock now srv p w = Ok (w', [])"
    using serveDNS_query [OF q(1) _ P(2,3) r(2), of srv clock now w] assms(10) O(1) by (simp add: sent_def)
  moreover have lp: "length p \<le> MaxMsgSize" using P(5) ok_name_name_len(2) [OF assms(1)]
    by (simp add: msg_size_def q_size_def SetAxfr_def new_Msg_def)
  have wr: "Transfer_WriteMsg clock net ?q t (co\<lparr>C_in := Stream s\<rparr>) = (t, co\<lparr>C_in := Stream s, C_out := C_out co @ [frame p]\<rparr>, Ok ())" for co s
    using q(3) P(1) lp assms(9) by (simp add: Transfer_WriteMsg_def transfer_octets_def Conn_Write_def isPacketConn_def frame_def)
  have "Transfer_In clock now net ?q (conn_reads (length xs + n) (co\<lparr>C_in := Stream (concat (W_sent w'))\<rparr>)) t (co\<lparr>C_in := Stream (concat (W_sent w'))\<rparr>) =
      (co\<lparr>C_in := Stream (concat (W_sent w')), C_out := C_out co @ [frame p]\<rparr>, Ok (map env_ok ms, True))" for n co
  proof -
    have l: "length xs = length bs" using list_all2_lengthD [OF O(3)] arg_cong [OF O(5), of length] by simp
    obtain rds where R: "conn_reads (length xs + n) (co\<lparr>C_in := Stream (concat (W_sent w'))\<rparr>) = map (\<lambda>b. (b, None)) bs @ rds"
      unfolding l O(2) using conn_reads_frames [OF O(4)] by blast
    have "zone_records (concat (map Msg_Answer ms))"
    proof (rule zone_records_norm)
      show "map (map_option norm_rr) (concat (map Msg_Answer ms)) = map (map_option norm_rr) (concat (map E_RR xs))"
        using arg_cong [OF O(5), of concat] by (simp add: map_concat comp_def)
    qed (use assms(2) in \<open>simp add: zone_envelopes_def\<close>)
    then have "inAxfr clock now ?q (conn_reads (length xs + n) (co\<lparr>C_in := Stream (concat (W_sent w'))\<rparr>)) t = Ok (map env_ok ms, True)"
      unfolding R by (rule inAxfr_delivers [OF O(3) assms(8)])
    then show ?thesis using q(4) wr by (simp add: Transfer_In_def)
  qed
  ultimately show ?thesis using O(5)
    by (intro exI [of _ p] exI [of _ w'] exI [of _ "map env_ok ms"]) (simp add: list_all_iff comp_def)
qed

text \<open>A zone with one address record, in two envelopes.\<close>

definition ex_SOA :: RR where
  "ex_SOA = RR_SOA \<lparr>SOA_Hdr = \<lparr>Hdr_Name = str ''a.'', Hdr_Rrtype = TypeSOA, Hdr_Class = 1, Hdr_Ttl = 0, Hdr_Rdlength = 0\<rparr>,
     SOA_Ns = str ''a.'', SOA_Mbox = str ''a.'', SOA_Serial = 1, SOA_Refresh = 2, SOA_Retry = 3, SOA_Expire = 4, SOA_Minttl = 5\<rparr>"

definition ex_zone :: "Envelope list" where
  "ex_zone = [\<lparr>E_RR = [Some ex_SOA], E_Error = None\<rparr>, \<lparr>E_RR = [Some ex_A, Some ex_SOA], E_Error = None\<rparr>]"

lemma ex_SOA_facts: "rr_ok ex_SOA" "rd_size ex_SOA = 26" "q_size \<lparr>Q_Name = str ''a.'', Q_Qtype = TypeAXFR, Q_Qclass = ClassINET\<rparr> = 7" "Len ex_SOA = 39"
  by code_simp+

lemma ex_zone_facts: "zone_envelopes ex_zone" "list_all (env_fits (SetAxfr 7 (str ''a.'') new_Msg)) ex_zone"
proof -
  show "zone_envelopes ex_zone"
    by (simp add: zone_envelopes_def zone_records_def ex_zone_def soa_rr_def is_SOA_type_def ex_SOA_def ex_A_def)
  have "msg_size (axfr_reply (SetAxfr 7 (str ''a.'') new_Msg) x) = 19 + sum_list (map rr_size (E_RR x))" for x
    using ex_SOA_facts(3) by (simp add: msg_size_def axfr_reply_def reply_def SetReply_def SetAxfr_def new_Msg_def Let_def)
  then show "list_all (env_fits (SetAxfr 7 (str ''a.'') new_Msg)) ex_zone"
    using ex_SOA_facts ex_A_facts by (simp add: env_fits_def ex_zone_def rr_fits_def msgLen_None rr_size_def)
qed

theorem zone_is_transferred_witness:
  "\<exists>w' es p. serveDNS 0 0 \<lparr>S_Handler = (\<lambda>w req. sent (Out 0 0 req ex_zone w)), S_MsgAcceptFunc = defaultMsgAcceptFunc\<rparr> p
       (ex_response\<lparr>W_conn := TCP\<rparr>) = Ok (w', []) \<and>
     Transfer_In 0 0 (\<lambda>_. None) (SetAxfr 7 (str ''a.'') new_Msg) (conn_reads 2 (ex_conn\<lparr>C_in := Stream (concat (W_sent w'))\<rparr>))
       \<lparr>T_tsigProvider = None, T_tsigRequestMAC = [], T_tsigTimersOnly = False\<rparr> (ex_conn\<lparr>C_in := Stream (concat (W_sent w'))\<rparr>) =
       (ex_conn\<lparr>C_in := Stream (concat (W_sent w')), C_out := C_out ex_conn @ [frame p]\<rparr>, Ok (es, True)) \<and>
     map (\<lambda>x. map (map_option norm_rr) (E_RR x)) es = map (\<lambda>x. map (map_option norm_rr) (E_RR x)) ex_zone"
proof -
  let ?w = "ex_response\<lparr>W_conn := TCP\<rparr>" and ?t = "\<lparr>T_tsigProvider = None, T_tsigRequestMAC = [], T_tsigTimersOnly = False\<rparr>"
  have w: "W_conn ?w = TCP" "\<not> W_closed ?w" "\<And>p. W_net ?w p = None" "W_sent ?w = []" by (simp_all add: ex_response_def)
  have t: "T_tsigProvider ?t = None" by simp
  have l: "conn_reads 2 co = conn_reads (length ex_zone + 0) co" for co by (simp add: ex_zone_def numeral_2_eq_2)
  show ?thesis
    using zone_is_transferred [where clock = 0 and now = 0 and net = "\<lambda>_. None", OF ex_rrs(4) ex_zone_facts w t refl refl] unfolding l by blast
qed
end
