(* ===== verification/Asn1_Ecdsa.thy ===== *)
theory Asn1_Ecdsa
  imports Dns_Prelude
begin

section \<open>Integers and the DER encoding of a pair of integers\<close>

text \<open>
  What \<^verbatim>\<open>dnssec.go\<close> and \<^verbatim>\<open>sig0.go\<close> use of the packages \<^verbatim>\<open>math/big\<close> and
  \<^verbatim>\<open>encoding/asn1\<close> of the standard library: the octets of a natural number, most significant first, and
  \<^verbatim>\<open>Marshal\<close> and \<^verbatim>\<open>Unmarshal\<close> of the struct \<^verbatim>\<open>{R, S *big.Int}\<close>, which is how OpenSSL writes
  an ECDSA signature. At the end, \<^verbatim>\<open>intToBytes\<close> of \<^verbatim>\<open>msg.go\<close>.
\<close>

subsection \<open>Octets of a number\<close>

text \<open>\<^verbatim>\<open>SetBytes\<close>, and \<^verbatim>\<open>Bytes\<close>, which has no leading zero.\<close>

definition nat_of_bytes :: "bytes \<Rightarrow> nat" where
  "nat_of_bytes bs = foldl (\<lambda>n b. 256 * n + unat b) 0 bs"

fun bytes_of_nat :: "nat \<Rightarrow> bytes" where
  "bytes_of_nat n = (if n = 0 then [] else bytes_of_nat (n div 256) @ [of_nat (n mod 256)])"

declare bytes_of_nat.simps [simp del]

subsection \<open>Marshal\<close>

definition der_length :: "nat \<Rightarrow> bytes" where
  "der_length n =
     (if n \<ge> 128 then (let l = bytes_of_nat n in of_nat (128 + length l) # l) else [of_nat n])"

text \<open>A number that is not negative: a leading zero keeps its sign.\<close>

definition der_nat :: "nat \<Rightarrow> bytes" where
  "der_nat n =
     (let b = bytes_of_nat n in
      if b = [] then [0] else if hd b AND 0x80 \<noteq> 0 then 0 # b else b)"

definition der_integer :: "nat \<Rightarrow> bytes" where
  "der_integer n = 0x02 # der_length (length (der_nat n)) @ der_nat n"

definition asn1_Marshal :: "nat \<Rightarrow> nat \<Rightarrow> bytes" where
  "asn1_Marshal r s =
     (let body = der_integer r @ der_integer s in 0x30 # der_length (length body) @ body)"

subsection \<open>Unmarshal\<close>

text \<open>The length octets of the long form: at most \<open>2\<^sup>2\<^sup>3\<close> before the last of them, no leading zero, not below 128.\<close>

fun der_long :: "nat \<Rightarrow> bytes \<Rightarrow> nat \<Rightarrow> (nat \<times> bytes) option" where
  "der_long 0 bs len = (if len < 128 then None else Some (len, bs))"
| "der_long (Suc n) [] len = None"
| "der_long (Suc n) (b # bs) len =
     (if len \<ge> 2 ^ 23 then None
      else let len = 256 * len + unat b in if len = 0 then None else der_long n bs len)"

definition der_read_length :: "bytes \<Rightarrow> (nat \<times> bytes) option" where
  "der_read_length bs =
     (case bs of
        [] \<Rightarrow> None
      | b # bs \<Rightarrow>
          if b AND 0x80 = 0 then Some (unat b, bs)
          else if b AND 0x7F = 0 then None
          else der_long (unat (b AND 0x7F)) bs 0)"

text \<open>An element with the given tag: its contents and what follows it.\<close>

definition der_element :: "byte \<Rightarrow> bytes \<Rightarrow> (bytes \<times> bytes) option" where
  "der_element tag bs =
     (case bs of
        [] \<Rightarrow> None
      | t # bs \<Rightarrow>
          if t \<noteq> tag then None
          else
            (case der_read_length bs of
               None \<Rightarrow> None
             | Some (n, bs) \<Rightarrow> if n > length bs then None else Some (take n bs, drop n bs)))"

text \<open>The contents of an integer, in two's complement and as short as possible.\<close>

definition der_int :: "bytes \<Rightarrow> int option" where
  "der_int bs =
     (case bs of
        [] \<Rightarrow> None
      | b # r \<Rightarrow>
          if r \<noteq> [] \<and> (b = 0 \<and> hd r AND 0x80 = 0 \<or> b = 0xFF \<and> hd r AND 0x80 \<noteq> 0) then None
          else if b AND 0x80 \<noteq> 0 then Some (int (nat_of_bytes bs) - 2 ^ (8 * length bs))
          else Some (int (nat_of_bytes bs)))"

definition asn1_Unmarshal :: "bytes \<Rightarrow> (int \<times> int) option" where
  "asn1_Unmarshal bs =
     (case der_element 0x30 bs of
        None \<Rightarrow> None
      | Some (body, _) \<Rightarrow>
          (case der_element 0x02 body of
             None \<Rightarrow> None
           | Some (rb, body) \<Rightarrow>
               (case der_element 0x02 body of
                  None \<Rightarrow> None
                | Some (sb, _) \<Rightarrow>
                    (case (der_int rb, der_int sb) of (Some r, Some s) \<Rightarrow> Some (r, s) | _ \<Rightarrow> None))))"

subsection \<open>Integers of a fixed length\<close>

definition intToBytes :: "int \<Rightarrow> nat \<Rightarrow> bytes" where
  "intToBytes i len =
     (let buf = bytes_of_nat (nat \<bar>i\<bar>) in
      if length buf < len then replicate (len - length buf) 0 @ buf else buf)"

section \<open>Round trips\<close>

lemma nat_of_bytes_snoc: "nat_of_bytes (bs @ [b]) = 256 * nat_of_bytes bs + unat b"
  by (simp add: nat_of_bytes_def)

lemma nat_of_bytes_of_nat [simp]: "nat_of_bytes (bytes_of_nat n) = n"
proof (induction n rule: bytes_of_nat.induct)
  case (1 n)
  then show ?case by (cases "n = 0") (simp_all add: bytes_of_nat.simps [of n] nat_of_bytes_snoc unat_of_nat, simp add: nat_of_bytes_def bytes_of_nat.simps [of 0])
qed

lemma nat_of_bytes_zeros: "nat_of_bytes (replicate k 0 @ bs) = nat_of_bytes bs"
proof -
  have "foldl (\<lambda>n b. 256 * n + unat (b :: byte)) 0 (replicate k 0) = 0" by (induction k) simp_all
  then show ?thesis by (simp add: nat_of_bytes_def)
qed

lemma length_bytes_of_nat: "n < 256 ^ k \<Longrightarrow> length (bytes_of_nat n) \<le> k"
proof (induction n arbitrary: k rule: bytes_of_nat.induct)
  case (1 n)
  show ?case
  proof (cases "n = 0")
    case False
    then obtain k' where k: "k = Suc k'" using 1(2) by (cases k) auto
    then have "n div 256 < 256 ^ k'" using 1(2) by (simp add: less_mult_imp_div_less mult.commute)
    then show ?thesis using 1(1) [OF False] False k by (simp add: bytes_of_nat.simps [of n])
  qed (simp add: bytes_of_nat.simps)
qed

lemma bytes_of_nat_hd: "n \<noteq> 0 \<Longrightarrow> bytes_of_nat n \<noteq> [] \<and> hd (bytes_of_nat n) \<noteq> 0"
proof (induction n rule: bytes_of_nat.induct)
  case (1 n)
  show ?case
  proof (cases "n div 256 = 0")
    case True
    then have "n < 256" by auto
    then have "(of_nat n :: byte) \<noteq> 0" using 1(2) by (simp add: word_of_nat_eq_0_iff dvd_imp_le nat_dvd_not_less)
    then show ?thesis using 1(2) True \<open>n < 256\<close> by (simp add: bytes_of_nat.simps [of n] bytes_of_nat.simps [of 0])
  next
    case False
    then show ?thesis using 1(1) [OF 1(2) False] 1(2) by (simp add: bytes_of_nat.simps [of n])
  qed
qed

lemma der_int_nat [simp]: "der_int (der_nat n) = Some (int n)"
proof (cases "n = 0")
  case False
  obtain b r where b: "bytes_of_nat n = b # r" "b \<noteq> 0" using bytes_of_nat_hd [OF False] by (cases "bytes_of_nat n") auto
  have n: "nat_of_bytes (b # r) = n" using arg_cong [OF b(1), of nat_of_bytes] by simp
  have z: "nat_of_bytes (0 # b # r) = n" using nat_of_bytes_zeros [of 1 "b # r"] n by simp
  have "b AND 0x80 \<noteq> 0" if "b = 0xFF" using that by simp
  then show ?thesis using b n z by (auto simp: der_nat_def der_int_def Let_def)
qed (simp add: der_nat_def der_int_def nat_of_bytes_def bytes_of_nat.simps)

lemma length_der_nat: "n < 256 ^ k \<Longrightarrow> length (der_nat n) \<le> Suc k"
  using length_bytes_of_nat [of n k] by (auto simp: der_nat_def Let_def)

text \<open>Elements of less than 128 octets.\<close>

lemma of_nat_small_and: "n < 128 \<Longrightarrow> (of_nat n :: byte) AND 0x80 = 0"
proof -
  assume "n < 128"
  then have "(of_nat n :: byte) = take_bit 7 (of_nat n)" by (simp add: take_bit_of_nat take_bit_nat_eq_self)
  moreover have "take_bit 7 w AND 0x80 = 0" for w :: byte by (simp add: take_bit_eq_mask mask_eq_exp_minus_1 and.assoc)
  ultimately show ?thesis by metis
qed

lemma der_element_reads:
  assumes "length c < 128"
  shows "der_element t (t # der_length (length c) @ c @ rest) = Some (c, rest)"
  using assms of_nat_small_and [of "length c"] by (simp add: der_element_def der_read_length_def der_length_def unat_of_nat)

lemma asn1_reads_back:
  assumes "r < 256 ^ 48" and "s < 256 ^ 48"
  shows "asn1_Unmarshal (asn1_Marshal r s @ rest) = Some (int r, int s)"
proof -
  note l = length_der_nat [OF assms(1)] length_der_nat [OF assms(2)]
  have R: "der_element 2 (der_integer r @ der_integer s) = Some (der_nat r, der_integer s)"
    using der_element_reads [of "der_nat r" 2 "der_integer s"] l by (simp add: der_integer_def)
  have S: "der_element 2 (der_integer s) = Some (der_nat s, [])"
    using der_element_reads [of "der_nat s" 2 "[]"] l by (simp add: der_integer_def)
  have "length (der_integer r @ der_integer s) < 128" using l by (simp add: der_integer_def der_length_def)
  from der_element_reads [OF this, of "0x30" rest] R S show ?thesis by (simp add: asn1_Unmarshal_def asn1_Marshal_def Let_def)
qed

lemma intToBytes_reads:
  assumes "r < 256 ^ n"
  shows "length (intToBytes (int r) n) = n" and "nat_of_bytes (intToBytes (int r) n) = r"
  using length_bytes_of_nat [OF assms] by (auto simp: intToBytes_def Let_def nat_of_bytes_zeros)

end
