(* ===== verification/Dnssec.thy ===== *)
theory Dnssec
  imports Tsig Duplicates Asn1_Ecdsa "HOL-Library.List_Lexorder" "HOL-Library.Signed_Division"
begin

section \<open>DNSSEC\<close>

text \<open>
  \<^verbatim>\<open>dnssec.go\<close>: key tags, DS records, and signatures over a set of records, with the classical algorithms and the
  post-quantum ones. The digests, keys and signatures are OpenSSL's, through the package \<^verbatim>\<open>go-openssl\<close> that is not part of
  the repository: a record of its functions is an argument. A nil pointer that they return is \<open>None\<close>. Integers of
  \<^verbatim>\<open>math/big\<close> are natural numbers here. \<^verbatim>\<open>sort.Sort\<close> is taken as a stable sort, which Go does not promise: for the records of one
  owner, type and class, which are the only ones that \<^verbatim>\<open>Verify\<close> accepts, the octets of two records with the same data are the same, so
  that every sort gives the same list.
\<close>

abbreviation ErrAlg :: error where "ErrAlg \<equiv> ErrMsg ''bad algorithm''"
abbreviation ErrKey :: error where "ErrKey \<equiv> ErrMsg ''bad key''"
abbreviation ErrPrivKey :: error where "ErrPrivKey \<equiv> ErrMsg ''bad private key''"
abbreviation ErrRRset :: error where "ErrRRset \<equiv> ErrMsg ''bad rrset''"

subsection \<open>Algorithms\<close>

abbreviation RSAMD5 :: byte where "RSAMD5 \<equiv> 1"
abbreviation DSA :: byte where "DSA \<equiv> 3"
abbreviation RSASHA1 :: byte where "RSASHA1 \<equiv> 5"
abbreviation DSANSEC3SHA1 :: byte where "DSANSEC3SHA1 \<equiv> 6"
abbreviation RSASHA1NSEC3SHA1 :: byte where "RSASHA1NSEC3SHA1 \<equiv> 7"
abbreviation RSASHA256 :: byte where "RSASHA256 \<equiv> 8"
abbreviation RSASHA512 :: byte where "RSASHA512 \<equiv> 10"
abbreviation ECDSAP256SHA256 :: byte where "ECDSAP256SHA256 \<equiv> 13"
abbreviation ECDSAP384SHA384 :: byte where "ECDSAP384SHA384 \<equiv> 14"
abbreviation ED25519 :: byte where "ED25519 \<equiv> 15"
abbreviation ED448 :: byte where "ED448 \<equiv> 16"
abbreviation FALCON512 :: byte where "FALCON512 \<equiv> 17"
abbreviation P256_FALCON512 :: byte where "P256_FALCON512 \<equiv> 18"
abbreviation RSA3072_FALCON512 :: byte where "RSA3072_FALCON512 \<equiv> 19"
abbreviation FALCON1024 :: byte where "FALCON1024 \<equiv> 20"
abbreviation P521_FALCON1024 :: byte where "P521_FALCON1024 \<equiv> 21"

abbreviation SHA1 :: byte where "SHA1 \<equiv> 1"
abbreviation SHA256 :: byte where "SHA256 \<equiv> 2"
abbreviation SHA384 :: byte where "SHA384 \<equiv> 4"
abbreviation SHA512 :: byte where "SHA512 \<equiv> 5"

abbreviation ZONE :: u16 where "ZONE \<equiv> 256"

text \<open>The maps give the empty string for a key they do not have.\<close>

definition AlgorithmToString :: "byte \<Rightarrow> string" where
  "AlgorithmToString a =
     (case map_of
        [(RSAMD5, ''RSAMD5''), (2, ''DH''), (DSA, ''DSA''), (RSASHA1, ''RSASHA1''), (DSANSEC3SHA1, ''DSA-NSEC3-SHA1''),
         (RSASHA1NSEC3SHA1, ''RSASHA1-NSEC3-SHA1''), (RSASHA256, ''RSASHA256''), (RSASHA512, ''RSASHA512''), (12, ''ECC-GOST''),
         (ECDSAP256SHA256, ''ECDSAP256SHA256''), (ECDSAP384SHA384, ''ECDSAP384SHA384''), (ED25519, ''ED25519''), (ED448, ''ED448''),
         (252, ''INDIRECT''), (253, ''PRIVATEDNS''), (254, ''PRIVATEOID''), (FALCON512, ''falconpadded512''),
         (P256_FALCON512, ''p256_falconpadded512''), (RSA3072_FALCON512, ''rsa3072_falconpadded512''),
         (FALCON1024, ''falconpadded1024''), (P521_FALCON1024, ''p521_falconpadded1024'')] a of
        Some s \<Rightarrow> s
      | None \<Rightarrow> '''')"

definition AlgorithmToHash :: "byte \<Rightarrow> string" where
  "AlgorithmToHash a =
     (case map_of
        [(RSAMD5, ''md5''), (DSA, ''sha1''), (RSASHA1, ''sha1''), (RSASHA1NSEC3SHA1, ''sha1''), (RSASHA256, ''sha256''),
         (ECDSAP256SHA256, ''sha256''), (ECDSAP384SHA384, ''sha384''), (RSASHA512, ''sha512''), (FALCON512, ''''), (P256_FALCON512, ''''),
         (RSA3072_FALCON512, ''''), (FALCON1024, ''''), (P521_FALCON1024, ''''), (ED25519, '''')] a of
        Some s \<Rightarrow> s
      | None \<Rightarrow> '''')"

text \<open>
  OpenSSL: digests by their name, digests of octets (creating the job, writing and \<^verbatim>\<open>Sum\<close>; it panics where the job is nil),
  public keys from their parts, signing and verifying.
\<close>

record ('d, 'pk, 'sk) openssl =
  GetDigestByName :: "string \<Rightarrow> 'd option"
  DigestSum :: "string \<Rightarrow> bytes \<Rightarrow> bytes res"
  BuildRSAPublicKey :: "nat \<Rightarrow> nat \<Rightarrow> 'pk option"
  BuildECDSAPublicKey :: "bytes \<Rightarrow> string \<Rightarrow> 'pk option"
  BuildRawPublicKey :: "bytes \<Rightarrow> string \<Rightarrow> 'pk option"
  SignPKCS1v15 :: "'sk \<Rightarrow> 'd option \<Rightarrow> bytes \<Rightarrow> bytes res"
  VerifyPKCS1v15 :: "'pk \<Rightarrow> 'd option \<Rightarrow> bytes \<Rightarrow> bytes \<Rightarrow> unit res"

subsection \<open>Wire formats\<close>

record rrsigWireFmt =
  SW_TypeCovered :: u16
  SW_Algorithm :: byte
  SW_Labels :: byte
  SW_OrigTtl :: u32
  SW_Expiration :: u32
  SW_Inception :: u32
  SW_KeyTag :: u16
  SW_SignerName :: gostring

record dnskeyWireFmt =
  KW_Flags :: u16
  KW_Protocol :: byte
  KW_Algorithm :: byte
  KW_PublicKey :: gostring

definition packSigWire :: "rrsigWireFmt \<Rightarrow> bytes \<Rightarrow> (bytes \<times> nat) off_res" where
  "packSigWire sw msg =
     bindR (packUint16 (SW_TypeCovered sw) msg 0) (\<lambda>(msg, off).
     bindR (packUint8 (SW_Algorithm sw) msg off) (\<lambda>(msg, off).
     bindR (packUint8 (SW_Labels sw) msg off) (\<lambda>(msg, off).
     bindR (packUint32 (SW_OrigTtl sw) msg off) (\<lambda>(msg, off).
     bindR (packUint32 (SW_Expiration sw) msg off) (\<lambda>(msg, off).
     bindR (packUint32 (SW_Inception sw) msg off) (\<lambda>(msg, off).
     bindR (packUint16 (SW_KeyTag sw) msg off) (\<lambda>(msg, off).
     bindR (PackDomainName (SW_SignerName sw) msg off None False) (\<lambda>(msg, _, off).
     Ok (msg, off)))))))))"

definition packKeyWire :: "dnskeyWireFmt \<Rightarrow> bytes \<Rightarrow> (bytes \<times> nat) off_res" where
  "packKeyWire dw msg =
     bindR (packUint16 (KW_Flags dw) msg 0) (\<lambda>(msg, off).
     bindR (packUint8 (KW_Protocol dw) msg off) (\<lambda>(msg, off).
     bindR (packUint8 (KW_Algorithm dw) msg off) (\<lambda>(msg, off).
     packStringBase64 (KW_PublicKey dw) msg off)))"

definition key_wire :: "DNSKEY \<Rightarrow> bytes res" where
  "key_wire k = packed DefaultMsgSize
     (packKeyWire \<lparr>KW_Flags = DNSKEY_Flags k, KW_Protocol = DNSKEY_Protocol k, KW_Algorithm = DNSKEY_Algorithm k,
        KW_PublicKey = DNSKEY_PublicKey k\<rparr>)"

subsection \<open>Keys\<close>

text \<open>What \<^verbatim>\<open>fromBase64\<close> returns next to its error: the quanta before the first that is not valid.\<close>

fun b64_prefix :: "gostring \<Rightarrow> bytes" where
  "b64_prefix (a # b # c # d # r) =
     (case b64_quanta [a, b, c, d] of
        None \<Rightarrow> []
      | Some bs \<Rightarrow> if c = PAD \<or> d = PAD then bs else bs @ b64_prefix r)"
| "b64_prefix _ = []"

fun key_sum :: "bytes \<Rightarrow> bool \<Rightarrow> nat \<Rightarrow> nat" where
  "key_sum [] odd_i keytag = keytag"
| "key_sum (v # wire) odd_i keytag =
     key_sum wire (\<not> odd_i) (keytag + (if odd_i then unat v else push_bit 8 (unat v)))"

definition KeyTag :: "DNSKEY \<Rightarrow> u16 res" where
  "KeyTag k =
     (if DNSKEY_Algorithm k = RSAMD5 then
        let modulus = b64_prefix (filter (\<lambda>c. \<not> is_newline c) (DNSKEY_PublicKey k)) in
        if length modulus > 1 then
          if length modulus < 3 then Panic else Ok (be_word (take 2 (drop (length modulus - 3) modulus)))
        else Ok 0
      else
        (case key_wire k of
           Panic \<Rightarrow> Panic
         | Err _ \<Rightarrow> Ok 0
         | Ok wire \<Rightarrow>
             let keytag = key_sum wire False 0;
                 keytag = keytag + (drop_bit 16 keytag AND 0xFFFF) in
             Ok (of_nat (keytag AND 0xFFFF))))"

definition ToDS :: "('d, 'pk, 'sk) openssl \<Rightarrow> DNSKEY \<Rightarrow> byte \<Rightarrow> DS option res" where
  "ToDS os k h =
     bindR (KeyTag k) (\<lambda>tag.
     let hd = DNSKEY_Hdr k in
     case key_wire k of
       Panic \<Rightarrow> Panic
     | Err _ \<Rightarrow> Ok None
     | Ok wire \<Rightarrow>
         (case packed 255 (\<lambda>owner. bindR (PackDomainName (CanonicalName (Hdr_Name hd)) owner 0 None False) (\<lambda>(m, _, off). Ok (m, off))) of
            Panic \<Rightarrow> Panic
          | Err _ \<Rightarrow> Ok None
          | Ok owner \<Rightarrow>
              let name = (if h = SHA1 then Some ''sha1'' else if h = SHA256 then Some ''sha256'' else if h = SHA384 then Some ''sha384''
                          else if h = SHA512 then Some ''sha512'' else None) in
              (case name of
                 None \<Rightarrow> Ok None
               | Some name \<Rightarrow>
                   if (h = SHA384 \<or> h = SHA512) \<and> GetDigestByName os name = None then Ok None
                   else if DigestSum os name (owner @ wire) = Panic then Panic
                   else
                     Ok (Some \<lparr>DS_Hdr = \<lparr>Hdr_Name = Hdr_Name hd, Hdr_Rrtype = TypeDS, Hdr_Class = Hdr_Class hd, Hdr_Ttl = Hdr_Ttl hd, Hdr_Rdlength = 0\<rparr>,
                       DS_KeyTag = tag, DS_Algorithm = DNSKEY_Algorithm k, DS_DigestType = h,
                       DS_Digest = (case DigestSum os name (owner @ wire) of Ok b \<Rightarrow> hexEncode b | _ \<Rightarrow> [])\<rparr>))))"

definition ToCDNSKEY :: "DNSKEY \<Rightarrow> CDNSKEY" where
  "ToCDNSKEY k = k\<lparr>DNSKEY_Hdr := (DNSKEY_Hdr k)\<lparr>Hdr_Rrtype := TypeCDNSKEY\<rparr>\<rparr>"

definition ToCDS :: "DS \<Rightarrow> CDS" where
  "ToCDS d = d\<lparr>DS_Hdr := (DS_Hdr d)\<lparr>Hdr_Rrtype := TypeCDS\<rparr>\<rparr>"

text \<open>
  Public keys; the length of at least 66 octets is checked first, so that no index of \<^verbatim>\<open>publicKeyRSA\<close> is out of range.
\<close>

definition publicKeyRSA :: "('d, 'pk, 'sk) openssl \<Rightarrow> DNSKEY \<Rightarrow> 'pk option" where
  "publicKeyRSA os k =
     (case fromBase64 (DNSKEY_PublicKey k) of
        None \<Rightarrow> None
      | Some keybuf \<Rightarrow>
          if length keybuf < 1 + 1 + 64 then None
          else
            let (explen, keyoff) =
                  (if keybuf ! 0 = 0 then (be_word [keybuf ! 1, keybuf ! 2] :: u16, 3) else (ucast (keybuf ! 0), 1)) in
            if explen > 4 \<or> explen = 0 \<or> keybuf ! keyoff = 0 then None
            else
              let modoff = keyoff + unat explen; modlen = length keybuf - modoff in
              if modlen < 64 \<or> modlen > 512 \<or> keybuf ! modoff = 0 then None
              else
                let expo = nat_of_bytes (take (unat explen) (drop keyoff keybuf)) in
                if expo > 2 ^ 31 - 1 then None
                else BuildRSAPublicKey os expo (nat_of_bytes (drop modoff keybuf)))"

definition publicKeyECDSA :: "('d, 'pk, 'sk) openssl \<Rightarrow> DNSKEY \<Rightarrow> 'pk option" where
  "publicKeyECDSA os k =
     (case fromBase64 (DNSKEY_PublicKey k) of
        None \<Rightarrow> None
      | Some keybuf \<Rightarrow>
          if DNSKEY_Algorithm k = ECDSAP256SHA256 then
            (if length keybuf \<noteq> 64 then None else BuildECDSAPublicKey os keybuf ''prime256v1'')
          else if DNSKEY_Algorithm k = ECDSAP384SHA384 then
            (if length keybuf \<noteq> 96 then None else BuildECDSAPublicKey os keybuf ''secp384r1'')
          else None)"

definition falcon_algorithm :: "byte \<Rightarrow> bool" where
  "falcon_algorithm a \<longleftrightarrow> a = FALCON512 \<or> a = P256_FALCON512 \<or> a = RSA3072_FALCON512 \<or> a = FALCON1024 \<or> a = P521_FALCON1024"

definition publicKeyGeneric :: "('d, 'pk, 'sk) openssl \<Rightarrow> DNSKEY \<Rightarrow> 'pk option" where
  "publicKeyGeneric os k =
     (case fromBase64 (DNSKEY_PublicKey k) of
        None \<Rightarrow> None
      | Some keybuf \<Rightarrow>
          if DNSKEY_Algorithm k = ED25519 then
            (if length keybuf \<noteq> 32 then None else BuildRawPublicKey os keybuf (AlgorithmToString (DNSKEY_Algorithm k)))
          else if falcon_algorithm (DNSKEY_Algorithm k) then BuildRawPublicKey os keybuf (AlgorithmToString (DNSKEY_Algorithm k))
          else None)"

subsection \<open>The data that is signed\<close>

definition IsRRset :: "RR option list \<Rightarrow> bool res" where
  "IsRRset rrset =
     (case rrset of
        [] \<Rightarrow> Ok False
      | None # _ \<Rightarrow> Panic
      | Some r0 # rs \<Rightarrow>
          let base = rr_Header r0 in
          foldr (\<lambda>r rest. case r of
             None \<Rightarrow> Panic
           | Some r \<Rightarrow>
               let cur = rr_Header r in
               if Hdr_Rrtype cur \<noteq> Hdr_Rrtype base \<or> Hdr_Class cur \<noteq> Hdr_Class base \<or> Hdr_Name cur \<noteq> Hdr_Name base
               then Ok False else rest) rs (Ok True))"

text \<open>The names in the data of the types that RFC 4034 lists, in lower case.\<close>

definition canonical_rdata :: "RR \<Rightarrow> RR" where
  "canonical_rdata r =
     (case r of
        RR_NS x \<Rightarrow> RR_NS (x\<lparr>NS_Ns := CanonicalName (NS_Ns x)\<rparr>)
      | RR_MD x \<Rightarrow> RR_MD (x\<lparr>MD_Md := CanonicalName (MD_Md x)\<rparr>)
      | RR_MF x \<Rightarrow> RR_MF (x\<lparr>MF_Mf := CanonicalName (MF_Mf x)\<rparr>)
      | RR_CNAME x \<Rightarrow> RR_CNAME (x\<lparr>CNAME_Target := CanonicalName (CNAME_Target x)\<rparr>)
      | RR_SOA x \<Rightarrow> RR_SOA (x\<lparr>SOA_Ns := CanonicalName (SOA_Ns x), SOA_Mbox := CanonicalName (SOA_Mbox x)\<rparr>)
      | RR_MB x \<Rightarrow> RR_MB (x\<lparr>MB_Mb := CanonicalName (MB_Mb x)\<rparr>)
      | RR_MG x \<Rightarrow> RR_MG (x\<lparr>MG_Mg := CanonicalName (MG_Mg x)\<rparr>)
      | RR_MR x \<Rightarrow> RR_MR (x\<lparr>MR_Mr := CanonicalName (MR_Mr x)\<rparr>)
      | RR_PTR x \<Rightarrow> RR_PTR (x\<lparr>PTR_Ptr := CanonicalName (PTR_Ptr x)\<rparr>)
      | RR_MINFO x \<Rightarrow> RR_MINFO (x\<lparr>MINFO_Rmail := CanonicalName (MINFO_Rmail x), MINFO_Email := CanonicalName (MINFO_Email x)\<rparr>)
      | RR_MX x \<Rightarrow> RR_MX (x\<lparr>MX_Mx := CanonicalName (MX_Mx x)\<rparr>)
      | RR_RP x \<Rightarrow> RR_RP (x\<lparr>RP_Mbox := CanonicalName (RP_Mbox x), RP_Txt := CanonicalName (RP_Txt x)\<rparr>)
      | RR_AFSDB x \<Rightarrow> RR_AFSDB (x\<lparr>AFSDB_Hostname := CanonicalName (AFSDB_Hostname x)\<rparr>)
      | RR_RT x \<Rightarrow> RR_RT (x\<lparr>RT_Host := CanonicalName (RT_Host x)\<rparr>)
      | RR_SIG x \<Rightarrow> RR_SIG (x\<lparr>RRSIG_SignerName := CanonicalName (RRSIG_SignerName x)\<rparr>)
      | RR_PX x \<Rightarrow> RR_PX (x\<lparr>PX_Map822 := CanonicalName (PX_Map822 x), PX_Mapx400 := CanonicalName (PX_Mapx400 x)\<rparr>)
      | RR_NAPTR x \<Rightarrow> RR_NAPTR (x\<lparr>NAPTR_Replacement := CanonicalName (NAPTR_Replacement x)\<rparr>)
      | RR_KX x \<Rightarrow> RR_KX (x\<lparr>KX_Exchanger := CanonicalName (KX_Exchanger x)\<rparr>)
      | RR_SRV x \<Rightarrow> RR_SRV (x\<lparr>SRV_Target := CanonicalName (SRV_Target x)\<rparr>)
      | RR_DNAME x \<Rightarrow> RR_DNAME (x\<lparr>DNAME_Target := CanonicalName (DNAME_Target x)\<rparr>)
      | _ \<Rightarrow> r)"

fun strings_Join :: "gostring list \<Rightarrow> gostring \<Rightarrow> gostring" where
  "strings_Join [] sep = []"
| "strings_Join [s] sep = s"
| "strings_Join (s # t # ts) sep = s @ sep @ strings_Join (t # ts) sep"

abbreviation STAR :: byte where "STAR \<equiv> 0x2A"

definition canonical_owner :: "byte \<Rightarrow> gostring \<Rightarrow> gostring" where
  "canonical_owner sig_labels name =
     (let labels = SplitDomainName name;
          name = (if length labels > unat sig_labels
                  then [STAR, DOT] @ strings_Join (drop (length labels - unat sig_labels) labels) [DOT] @ [DOT] else name) in
      CanonicalName name)"

definition canonical_rr :: "RRSIG \<Rightarrow> RR \<Rightarrow> RR" where
  "canonical_rr s r =
     (let h = (rr_Header r)\<lparr>Hdr_Ttl := RRSIG_OrigTtl s\<rparr>;
          h = h\<lparr>Hdr_Name := canonical_owner (RRSIG_Labels s) (Hdr_Name h)\<rparr> in
      canonical_rdata (set_Header h r))"

definition canonical_wire :: "RRSIG \<Rightarrow> RR option \<Rightarrow> bytes res" where
  "canonical_wire s orr =
     (case orr of
        None \<Rightarrow> Panic
      | Some r \<Rightarrow>
          let r1 = canonical_rr s r in
          bindR (mapErr snd (PackRR (Some r1) (replicate (Len r1 + 1) 0) 0 None False)) (\<lambda>(_, wire, _, off).
          go_slice wire 0 off))"

fun canonical_wires :: "RRSIG \<Rightarrow> RR option list \<Rightarrow> bytes list res" where
  "canonical_wires s [] = Ok []"
| "canonical_wires s (r # rs) = bindR (canonical_wire s r) (\<lambda>w. bindR (canonical_wires s rs) (\<lambda>ws. Ok (w # ws)))"

text \<open>What \<^verbatim>\<open>Less\<close> compares: the octets after the header; the offset is taken even where the name cannot be read.\<close>

definition wire_rdata :: "bytes \<Rightarrow> bytes res" where
  "wire_rdata p =
     (case UnpackDomainName p 0 of
        Ok (_, ioff) \<Rightarrow> go_slice p (ioff + 10) (length p)
      | Err (ioff, _) \<Rightarrow> go_slice p (ioff + 10) (length p)
      | Panic \<Rightarrow> Panic)"

definition less_key :: "bytes \<Rightarrow> bytes" where
  "less_key p = (case wire_rdata p of Ok d \<Rightarrow> d | _ \<Rightarrow> [])"

definition sort_wires :: "bytes list \<Rightarrow> bytes list res" where
  "sort_wires ws =
     (if 2 \<le> length ws \<and> list_ex (\<lambda>w. wire_rdata w = Panic) ws then Panic else Ok (sort_key less_key ws))"

definition rawSignatureData :: "RR option list \<Rightarrow> RRSIG \<Rightarrow> bytes res" where
  "rawSignatureData rrset s =
     bindR (canonical_wires s rrset) (\<lambda>wires.
     bindR (sort_wires wires) (\<lambda>wires.
     Ok (concat (remdups_adj wires))))"

subsection \<open>Signing\<close>

definition ecdsa_intlen :: "byte \<Rightarrow> nat" where
  "ecdsa_intlen alg = (if alg = ECDSAP256SHA256 then 32 else 48)"

definition sign :: "('d, 'pk, 'sk) openssl \<Rightarrow> 'sk \<Rightarrow> 'd option \<Rightarrow> bytes \<Rightarrow> byte \<Rightarrow> bytes res" where
  "sign os k h data alg =
     bindR (SignPKCS1v15 os k h data) (\<lambda>signature.
     if alg = RSASHA1 \<or> alg = RSASHA1NSEC3SHA1 \<or> alg = RSASHA256 \<or> alg = RSASHA512 \<or> alg = ED25519 \<or> falcon_algorithm alg
     then Ok signature
     else if alg = ECDSAP256SHA256 \<or> alg = ECDSAP384SHA384 then
       (case asn1_Unmarshal signature of
          None \<Rightarrow> Err (ErrMsg ''asn1'')
        | Some (r, s) \<Rightarrow> Ok (intToBytes r (ecdsa_intlen alg) @ intToBytes s (ecdsa_intlen alg)))
     else Err ErrAlg)"

text \<open>The octets of the RRSIG record itself, with the name of the signer in lower case.\<close>

definition sig_wire :: "RRSIG \<Rightarrow> bytes res" where
  "sig_wire rr = packed DefaultMsgSize
     (packSigWire \<lparr>SW_TypeCovered = RRSIG_TypeCovered rr, SW_Algorithm = RRSIG_Algorithm rr, SW_Labels = RRSIG_Labels rr,
        SW_OrigTtl = RRSIG_OrigTtl rr, SW_Expiration = RRSIG_Expiration rr, SW_Inception = RRSIG_Inception rr,
        SW_KeyTag = RRSIG_KeyTag rr, SW_SignerName = CanonicalName (RRSIG_SignerName rr)\<rparr>)"

definition signAsIs :: "('d, 'pk, 'sk) openssl \<Rightarrow> 'sk option \<Rightarrow> RR option list \<Rightarrow> RRSIG \<Rightarrow> RRSIG res" where
  "signAsIs os ok rrset rr =
     (case ok of
        None \<Rightarrow> Err ErrPrivKey
      | Some k \<Rightarrow>
          if RRSIG_KeyTag rr = 0 \<or> RRSIG_SignerName rr = [] \<or> RRSIG_Algorithm rr = 0 then Err ErrKey
          else
            bindR (sig_wire rr) (\<lambda>signdata.
            bindR (rawSignatureData rrset rr) (\<lambda>wire.
            let h = GetDigestByName os (AlgorithmToHash (RRSIG_Algorithm rr)) in
            if RRSIG_Algorithm rr = RSAMD5 \<or> RRSIG_Algorithm rr = DSA \<or> RRSIG_Algorithm rr = DSANSEC3SHA1 then Err ErrAlg
            else
              bindR (sign os k h (signdata @ wire) (RRSIG_Algorithm rr)) (\<lambda>signature.
              Ok (rr\<lparr>RRSIG_Signature := toBase64 signature\<rparr>)))))"

text \<open>\<^verbatim>\<open>Sign\<close>: the record with its fields filled in, which is also changed when there is an error.\<close>

definition sign_fields :: "RR_Header \<Rightarrow> RRSIG \<Rightarrow> RRSIG" where
  "sign_fields h0 rr =
     (let rr = rr\<lparr>RRSIG_Hdr := (RRSIG_Hdr rr)\<lparr>Hdr_Rrtype := TypeRRSIG, Hdr_Name := Hdr_Name h0, Hdr_Class := Hdr_Class h0\<rparr>,
                 RRSIG_OrigTtl := (if RRSIG_OrigTtl rr = 0 then Hdr_Ttl h0 else RRSIG_OrigTtl rr),
                 RRSIG_TypeCovered := Hdr_Rrtype h0, RRSIG_Labels := of_nat (CountLabel (Hdr_Name h0))\<rparr> in
      if take 1 (Hdr_Name h0) = [STAR] then rr\<lparr>RRSIG_Labels := RRSIG_Labels rr - 1\<rparr> else rr)"

definition Sign :: "('d, 'pk, 'sk) openssl \<Rightarrow> 'sk option \<Rightarrow> RR option list \<Rightarrow> RRSIG \<Rightarrow> RRSIG res" where
  "Sign os k rrset rr =
     (case rrset of
        Some r0 # _ \<Rightarrow> signAsIs os k rrset (sign_fields (rr_Header r0) rr)
      | _ \<Rightarrow> Panic)"

subsection \<open>Verifying\<close>

definition sigBuf :: "RRSIG \<Rightarrow> bytes" where
  "sigBuf rr = (case fromBase64 (RRSIG_Signature rr) of None \<Rightarrow> [] | Some b \<Rightarrow> b)"

definition HasSuffix :: "gostring \<Rightarrow> gostring \<Rightarrow> bool" where
  "HasSuffix s suffix \<longleftrightarrow> length suffix \<le> length s \<and> drop (length s - length suffix) s = suffix"

text \<open>The two halves of a signature as integers, in the encoding of OpenSSL.\<close>

definition ecdsa_der :: "bytes \<Rightarrow> bytes" where
  "ecdsa_der sigbuf =
     asn1_Marshal (nat_of_bytes (take (length sigbuf div 2) sigbuf)) (nat_of_bytes (drop (length sigbuf div 2) sigbuf))"

definition Verify_signature :: "('d, 'pk, 'sk) openssl \<Rightarrow> byte \<Rightarrow> DNSKEY \<Rightarrow> bytes \<Rightarrow> bytes \<Rightarrow> unit res" where
  "Verify_signature os alg k data sigbuf =
     (let h = GetDigestByName os (AlgorithmToHash alg) in
      if alg = RSASHA1 \<or> alg = RSASHA1NSEC3SHA1 \<or> alg = RSASHA256 \<or> alg = RSASHA512 then
        (case publicKeyRSA os k of None \<Rightarrow> Err ErrKey | Some pubkey \<Rightarrow> VerifyPKCS1v15 os pubkey h data sigbuf)
      else if alg = ECDSAP256SHA256 \<or> alg = ECDSAP384SHA384 then
        (case publicKeyECDSA os k of None \<Rightarrow> Err ErrKey | Some pubkey \<Rightarrow> VerifyPKCS1v15 os pubkey h data (ecdsa_der sigbuf))
      else if alg = ED25519 \<or> falcon_algorithm alg then
        (case publicKeyGeneric os k of None \<Rightarrow> Err ErrKey | Some pubkey \<Rightarrow> VerifyPKCS1v15 os pubkey h data sigbuf)
      else Err ErrAlg)"

definition RRSIG_Verify :: "('d, 'pk, 'sk) openssl \<Rightarrow> DNSKEY \<Rightarrow> RR option list \<Rightarrow> RRSIG \<Rightarrow> unit res" where
  "RRSIG_Verify os k rrset rr =
     bindR (IsRRset rrset) (\<lambda>isset.
     if \<not> isset then Err ErrRRset
     else
       bindR (KeyTag k) (\<lambda>tag.
       let signerName = CanonicalName (RRSIG_SignerName rr) in
       if RRSIG_KeyTag rr \<noteq> tag then Err ErrKey
       else if Hdr_Class (RRSIG_Hdr rr) \<noteq> Hdr_Class (DNSKEY_Hdr k) then Err ErrKey
       else if RRSIG_Algorithm rr \<noteq> DNSKEY_Algorithm k then Err ErrKey
       else if \<not> equal_names signerName (Hdr_Name (DNSKEY_Hdr k)) then Err ErrKey
       else if DNSKEY_Protocol k \<noteq> 3 then Err ErrKey
       else if DNSKEY_Flags k AND ZONE = 0 then Err ErrKey
       else
         (case rrset of
            Some r0 # _ \<Rightarrow>
              let h0 = rr_Header r0 in
              if Hdr_Class h0 \<noteq> Hdr_Class (RRSIG_Hdr rr) \<or> Hdr_Rrtype h0 \<noteq> RRSIG_TypeCovered rr \<or>
                 (of_nat (CountLabel (Hdr_Name h0)) :: byte) < RRSIG_Labels rr \<or>
                 \<not> equal_names (Hdr_Name h0) (Hdr_Name (RRSIG_Hdr rr)) \<or>
                 \<not> HasSuffix (CanonicalName (Hdr_Name h0)) signerName
              then Err ErrRRset
              else
                bindR (sig_wire rr) (\<lambda>signeddata.
                bindR (rawSignatureData rrset rr) (\<lambda>wire.
                Verify_signature os (RRSIG_Algorithm rr) k (signeddata @ wire) (sigBuf rr)))
          | _ \<Rightarrow> Panic)))"

subsection \<open>The validity period\<close>

text \<open>
  Integers of 64 bits: their division rounds towards zero, and a result out of range wraps around. \<open>utc\<close> is the time, taken from the
  clock where it was not given.
\<close>

definition int64 :: "int \<Rightarrow> int" where
  "int64 x = signed_take_bit 63 x"

abbreviation year68 :: int where "year68 \<equiv> 2 ^ 31"

definition ValidityPeriod :: "RRSIG \<Rightarrow> int \<Rightarrow> bool" where
  "ValidityPeriod rr utc =
     (let inception = uint (RRSIG_Inception rr); expiration = uint (RRSIG_Expiration rr);
          modi = int64 (inception - utc) sdiv year68;
          mode = int64 (expiration - utc) sdiv year68;
          ti = int64 (inception + int64 (modi * year68));
          te = int64 (expiration + int64 (mode * year68)) in
      ti \<le> utc \<and> utc \<le> te)"

section \<open>The validity period\<close>

lemma int64_id: "- (2 ^ 63) \<le> x \<Longrightarrow> x < 2 ^ 63 \<Longrightarrow> int64 x = x"
  by (simp add: int64_def signed_take_bit_int_eq_self)

text \<open>Adding multiples of the divisor in the direction of a number does not change its sign.\<close>

lemma sdiv_sign:
  fixes d :: int
  shows "(d + d sdiv 2 ^ 31 * 2 ^ 31 \<le> 0) = (d \<le> 0)" and "\<bar>d sdiv 2 ^ 31 * 2 ^ 31\<bar> \<le> \<bar>d\<bar>"
proof -
  define q where "q = \<bar>d\<bar> div 2 ^ 31 * 2 ^ 31"
  have q: "d sdiv 2 ^ 31 * 2 ^ 31 = sgn d * q" by (simp add: signed_divide_int_def q_def)
  have b: "0 \<le> q" "q \<le> \<bar>d\<bar>" by (simp_all add: q_def minus_mod_eq_div_mult [symmetric] zmod_le_nonneg_dividend)
  show "(d + d sdiv 2 ^ 31 * 2 ^ 31 \<le> 0) = (d \<le> 0)" unfolding q using b by (auto simp: sgn_if)
  show "\<bar>d sdiv 2 ^ 31 * 2 ^ 31\<bar> \<le> \<bar>d\<bar>" unfolding q using b by (auto simp: sgn_if)
qed

lemma serial_shift:
  fixes s utc :: int
  assumes "\<bar>utc\<bar> < 2 ^ 61" and "0 \<le> s" and "s < 2 ^ 32"
  defines "t \<equiv> int64 (s + int64 (int64 (s - utc) sdiv year68 * year68))"
  shows "t \<le> utc \<longleftrightarrow> s \<le> utc" and "utc \<le> t \<longleftrightarrow> utc \<le> s"
proof -
  define d where "d = s - utc"
  define e where "e = d sdiv year68 * year68"
  have d: "\<bar>d\<bar> < 2 ^ 62" using assms(1-3) by (simp add: d_def)
  have e: "\<bar>e\<bar> \<le> \<bar>d\<bar>" using sdiv_sign(2) [of d] by (simp add: e_def)
  have i: "int64 d = d" using d by (intro int64_id) auto
  have j: "int64 e = e" using d e by (intro int64_id) auto
  have "int64 (s + e) = s + e" using d e assms(2,3) by (intro int64_id) auto
  then have t: "t = s + e" unfolding t_def d_def [symmetric] i e_def [symmetric] j .
  show "t \<le> utc \<longleftrightarrow> s \<le> utc" using sdiv_sign(1) [of d] unfolding t e_def [symmetric] by (auto simp: d_def)
  have "- d sdiv year68 * year68 = - e" by (simp add: signed_divide_int_def e_def)
  then show "utc \<le> t \<longleftrightarrow> utc \<le> s" using sdiv_sign(1) [of "- d"] unfolding t by (auto simp: d_def)
qed

section \<open>The canonical form of a set of records\<close>

lemma enc_wire_reads:
  assumes "ok_name s"
  shows "UnpackDomainName (enc_wire s @ rest) 0 = Ok (s, length (enc_wire s))"
proof -
  obtain ls where ls: "IsFqdn s" "name_labels s = Some ls" "s = present ls" "wire_len ls \<le> 255" "length ls \<le> maxCompressionPointers"
    using assms by (auto simp: ok_name_def split: option.splits)
  let ?msg = "replicate (name_len s) 0"
  have p: "packDomainName s ?msg 0 no_compression False = Ok (put ?msg 0 (enc_wire s), no_compression, length (enc_wire s))"
    using packDomainName_none [OF assms, of 0 ?msg] by simp
  have t: "take (length (enc_wire s)) (put ?msg 0 (enc_wire s)) = enc_wire s"
    using length_enc_wire [OF assms] take_put_end [of 0 "enc_wire s" ?msg] by simp
  obtain k where k: "k \<le> length ls" "name_at (enc_wire s) 0 ls k (length (enc_wire s))"
    using pack_unpack_name(2) [OF ls(1,2) cm_sound_none _ p] unfolding t by auto
  have "name_at (enc_wire s @ rest) 0 ls k (length (enc_wire s))"
    by (rule name_at_take [of "length (enc_wire s)"]) (simp add: k(2))
  then show ?thesis using k(1) ls(3-5) by (intro UnpackDomainName_iff [THEN iffD2]) (blast intro: le_trans)
qed

text \<open>The octets of the data of a record, at an offset and without compression.\<close>

definition rdata_octets :: "nat \<Rightarrow> RR \<Rightarrow> bytes" where
  "rdata_octets off rr =
     (case rr_pack rr (replicate (off + rd_size rr + 1) 0) off no_compression False of
        Ok (msg, _, off') \<Rightarrow> take (off' - off) (drop off msg)
      | _ \<Rightarrow> [])"

lemma rr_pack_octets:
  assumes "rdata_ok rr" and "off + rd_size rr < length msg"
  shows "\<exists>c. rr_pack rr msg off no_compression False = Ok (put msg off (rdata_octets off rr), c, off + length (rdata_octets off rr))"
    and "length (rdata_octets off rr) \<le> rd_size rr"
proof -
  obtain e c where E: "length e \<le> rd_size rr"
    "\<And>msg. off + rd_size rr < length msg \<Longrightarrow> rr_pack rr msg off no_compression False = Ok (put msg off e, c, off + length e)"
    by (rule emitsE [OF writes_emits [OF rsize.pack_writes [OF assms(1)]] cm_nonneg_none]) (rule that)
  have "rdata_octets off rr = e" using E(2) [of "replicate (off + rd_size rr + 1) 0"] E(1)
    by (simp add: rdata_octets_def put_def)
  with E assms(2) show "\<exists>c. rr_pack rr msg off no_compression False = Ok (put msg off (rdata_octets off rr), c, off + length (rdata_octets off rr))"
    and "length (rdata_octets off rr) \<le> rd_size rr" by auto
qed

lemma packRR_octets:
  assumes "rr_ok rr" and "rd_size rr < 65536" and "off + Len rr < length msg"
  defines "n \<equiv> enc_wire (Hdr_Name (rr_Header rr))" and "d \<equiv> rdata_octets (off + length (enc_wire (Hdr_Name (rr_Header rr))) + 10) rr"
  shows "\<exists>c. packRR (Some rr) msg off no_compression False =
    Ok (put msg off (n @ hdr_tail (rr_Header rr) (of_nat (length d)) @ d), c, off + length n + 10, off + length n + 10 + length d)"
    and "length n + 10 + length d \<le> Len rr"
proof -
  have ok: "ok_name (Hdr_Name (rr_Header rr))" "rdata_ok rr" using assms(1) by (auto simp: rr_ok_def)
  have L: "Len rr = name_len (Hdr_Name (rr_Header rr)) + 10 + rd_size rr" using rr_len_None [of rr 0] by (simp add: Len_def)
  have l: "length n \<le> name_len (Hdr_Name (rr_Header rr))" unfolding n_def by (rule length_enc_wire [OF ok(1)])
  have m: "off + length n + 10 + rd_size rr < length (put msg off (n @ hdr_tail (rr_Header rr) 0))" using assms(3) L l by simp
  obtain c where c: "rr_pack rr (put msg off (n @ hdr_tail (rr_Header rr) 0)) (off + length n + 10) no_compression False =
      Ok (put (put msg off (n @ hdr_tail (rr_Header rr) 0)) (off + length n + 10) d, c, off + length n + 10 + length d)"
    using rr_pack_octets(1) [OF ok(2) m] by (auto simp: n_def d_def)
  have ld: "length d \<le> rd_size rr" using rr_pack_octets(2) [OF ok(2) m] by (simp add: n_def d_def)
  have "packRR (Some rr) msg off no_compression False =
    Ok (put msg off (n @ hdr_tail (rr_Header rr) (of_nat (length d)) @ d), c, off + length n + 10, off + length n + 10 + length d)"
  proof (intro packRR_eq packHeader_eq)
    show "packDomainName (Hdr_Name (rr_Header rr)) msg off no_compression False = Ok (put msg off n, no_compression, off + length n)"
      using assms(3) L ok(1) by (simp add: n_def packDomainName_none)
  qed (use c assms(2,3) L l ld in simp_all)
  then show "\<exists>c. packRR (Some rr) msg off no_compression False =
    Ok (put msg off (n @ hdr_tail (rr_Header rr) (of_nat (length d)) @ d), c, off + length n + 10, off + length n + 10 + length d)" by blast
  show "length n + 10 + length d \<le> Len rr" using L l ld by simp
qed

text \<open>A record in its canonical form, as RFC 4034 writes it: owner, type, class, original TTL, length of the data, data.\<close>

definition rr_form :: "gostring \<Rightarrow> u16 \<Rightarrow> u16 \<Rightarrow> u32 \<Rightarrow> bytes \<Rightarrow> bytes" where
  "rr_form n t c ttl d = enc_wire n @ be16 t @ be16 c @ be32 ttl @ be16 (of_nat (length d)) @ d"

abbreviation canonical_data :: "RRSIG \<Rightarrow> gostring \<Rightarrow> RR \<Rightarrow> bytes" where
  "canonical_data s n r \<equiv> rdata_octets (length (enc_wire n) + 10) (canonical_rr s r)"

definition of_rrset :: "RRSIG \<Rightarrow> gostring \<Rightarrow> u16 \<Rightarrow> u16 \<Rightarrow> RR \<Rightarrow> bool" where
  "of_rrset s n t c r \<longleftrightarrow> rr_fits (Some (canonical_rr s r)) \<and> canonical_owner (RRSIG_Labels s) (Hdr_Name (rr_Header r)) = n \<and>
     Hdr_Rrtype (rr_Header r) = t \<and> Hdr_Class (rr_Header r) = c"

lemma canonical_rdata_Header [simp]: "rr_Header (canonical_rdata r) = rr_Header r"
  by (cases r) (simp_all add: canonical_rdata_def)

lemma canonical_rr_Header: "rr_Header (canonical_rr s r) =
  (rr_Header r)\<lparr>Hdr_Ttl := RRSIG_OrigTtl s, Hdr_Name := canonical_owner (RRSIG_Labels s) (Hdr_Name (rr_Header r))\<rparr>"
  by (simp add: canonical_rr_def Let_def)

lemma canonical_wire_form:
  assumes "of_rrset s n t c r"
  shows "canonical_wire s (Some r) = Ok (rr_form n t c (RRSIG_OrigTtl s) (canonical_data s n r))"
proof -
  let ?r = "canonical_rr s r" and ?e = "rr_form n t c (RRSIG_OrigTtl s) (canonical_data s n r)"
  have ok: "rr_ok ?r" "rd_size ?r < 65536" and h: "Hdr_Name (rr_Header ?r) = n" "hdr_tail (rr_Header ?r) k = be16 t @ be16 c @ be32 (RRSIG_OrigTtl s) @ be16 k" for k
    using assms by (auto simp: of_rrset_def rr_fits_def canonical_rr_Header hdr_tail_def)
  let ?m = "replicate (Len ?r + 1) (0 :: byte)"
  obtain cm where p: "packRR (Some ?r) ?m 0 no_compression False = Ok (put ?m 0 ?e, cm, length (enc_wire n) + 10, length ?e)"
    using packRR_octets(1) [OF ok, of 0 ?m] by (auto simp: h rr_form_def)
  have "length ?e \<le> length ?m" using packRR_octets(2) [OF ok, of 0 ?m] by (simp add: h rr_form_def)
  then have "go_slice (put ?m 0 ?e) 0 (length ?e) = (Ok ?e :: bytes res)" using take_put_end [of 0 ?e ?m] by (simp add: go_slice_def)
  then show ?thesis using p by (simp add: canonical_wire_def PackRR_def no_compression_def Let_def)
qed

lemma canonical_wires_form:
  assumes "list_all (of_rrset s n t c) rs"
  shows "canonical_wires s (map Some rs) = Ok (map (\<lambda>r. rr_form n t c (RRSIG_OrigTtl s) (canonical_data s n r)) rs)"
  using assms by (induction rs) (auto simp: canonical_wire_form [of s n t c])

text \<open>The comparison sees the data, and the form is determined by them.\<close>

lemma wire_rdata_form:
  assumes "ok_name n"
  shows "wire_rdata (rr_form n t c ttl d) = Ok d" and "less_key (rr_form n t c ttl d) = d"
proof -
  show "wire_rdata (rr_form n t c ttl d) = Ok d"
    using enc_wire_reads [OF assms] by (simp add: wire_rdata_def rr_form_def go_slice_def)
  then show "less_key (rr_form n t c ttl d) = d" by (simp add: less_key_def)
qed

lemma insort_key_map: "insort_key f (g x) (map g xs) = map g (insort_key (\<lambda>x. f (g x)) x xs)"
  by (induction xs) simp_all

lemma sort_key_map: "sort_key f (map g xs) = map g (sort_key (\<lambda>x. f (g x)) xs)"
  by (induction xs) (simp_all add: insort_key_map)

text \<open>Sorting and removing neighbours that are equal leaves each element once.\<close>

lemma distinct_remdups_adj_sorted: "sorted xs \<Longrightarrow> distinct (remdups_adj xs)" for xs :: "'a :: linorder list"
  by (induction xs rule: remdups_adj.induct) (auto simp: remdups_adj_set)

lemma remdups_adj_sort: "remdups_adj (sort xs) = sorted_list_of_set (set xs)" for xs :: "'a :: linorder list"
  by (rule sorted_distinct_set_unique) (simp_all add: distinct_remdups_adj_sorted)

lemma rawSignatureData_form:
  assumes "list_all (of_rrset s n t c) rs"
  shows "rawSignatureData (map Some rs) s =
    Ok (concat (map (rr_form n t c (RRSIG_OrigTtl s)) (sorted_list_of_set (canonical_data s n ` set rs))))"
proof (cases "rs = []")
  case False
  then have n: "ok_name n" using assms by (cases rs) (auto simp: of_rrset_def rr_fits_def rr_ok_def canonical_rr_Header)
  let ?f = "rr_form n t c (RRSIG_OrigTtl s)" and ?ds = "map (canonical_data s n) rs"
  note k = wire_rdata_form [OF n]
  have "inj ?f" by (rule injI) (metis k(2))
  then have r: "remdups_adj (map ?f (sort ?ds)) = map ?f (remdups_adj (sort ?ds))" by (rule remdups_adj_map_injective)
  have "sort_wires (map ?f ?ds) = Ok (map ?f (sort ?ds))"
    using k by (simp add: sort_wires_def list_ex_iff sort_key_map)
  then show ?thesis using canonical_wires_form [OF assms] r
    by (simp add: rawSignatureData_def comp_def remdups_adj_sort)
qed (simp add: rawSignatureData_def sort_wires_def)

section \<open>A set of records that was signed verifies\<close>

definition sig_octets :: "RRSIG \<Rightarrow> bytes" where
  "sig_octets rr =
     be16 (RRSIG_TypeCovered rr) @ [RRSIG_Algorithm rr, RRSIG_Labels rr] @ be32 (RRSIG_OrigTtl rr) @ be32 (RRSIG_Expiration rr) @
     be32 (RRSIG_Inception rr) @ be16 (RRSIG_KeyTag rr) @ enc_wire (CanonicalName (RRSIG_SignerName rr))"

lemma packUint8_eq: "off + 1 \<le> length msg \<Longrightarrow> packUint8 v msg off = Ok (put msg off [v], off + 1)"
  by (simp add: packUint8_def write_at_def)

lemma sig_wire_eq:
  assumes "ok_name (RRSIG_SignerName rr)"
  shows "sig_wire rr = Ok (sig_octets rr)"
proof -
  note ok = CanonicalName_ok(2) [OF assms]
  note l = length_enc_wire [OF ok] ok_name_name_len(2) [OF ok]
  show ?thesis unfolding sig_wire_def
  proof (rule packed_eq)
    show "length (sig_octets rr) \<le> DefaultMsgSize" using l by (simp add: sig_octets_def)
  qed (use l ok in \<open>simp add: packSigWire_def sig_octets_def pack_eqs packUint8_eq put_put_at add.assoc
         del: add_2_eq_Suc add_2_eq_Suc' replicate.simps One_nat_def\<close>)
qed

text \<open>The public key that \<^verbatim>\<open>Verify\<close> makes of a DNSKEY record, and the signature in the encoding of OpenSSL.\<close>

definition public_key :: "('d, 'pk, 'sk) openssl \<Rightarrow> DNSKEY \<Rightarrow> 'pk option" where
  "public_key os k =
     (let alg = DNSKEY_Algorithm k in
      if alg = RSASHA1 \<or> alg = RSASHA1NSEC3SHA1 \<or> alg = RSASHA256 \<or> alg = RSASHA512 then publicKeyRSA os k
      else if alg = ECDSAP256SHA256 \<or> alg = ECDSAP384SHA384 then publicKeyECDSA os k
      else if alg = ED25519 \<or> falcon_algorithm alg then publicKeyGeneric os k
      else None)"

definition ecdsa_algorithm :: "byte \<Rightarrow> bool" where
  "ecdsa_algorithm a \<longleftrightarrow> a = ECDSAP256SHA256 \<or> a = ECDSAP384SHA384"

definition openssl_sig :: "byte \<Rightarrow> bytes \<Rightarrow> bytes" where
  "openssl_sig alg sigbuf = (if ecdsa_algorithm alg then ecdsa_der sigbuf else sigbuf)"

lemma Verify_signature_eq:
  assumes "DNSKEY_Algorithm k = alg"
  shows "Verify_signature os alg k data sigbuf = Ok () \<longleftrightarrow>
    (\<exists>pk. public_key os k = Some pk \<and> VerifyPKCS1v15 os pk (GetDigestByName os (AlgorithmToHash alg)) data (openssl_sig alg sigbuf) = Ok ())"
  unfolding Verify_signature_def public_key_def assms Let_def ecdsa_algorithm_def openssl_sig_def
  by (auto split: option.split)

text \<open>
  What is relied on of OpenSSL, for the one digest that the algorithm of the key is used with (none for Ed25519 and the post-quantum
  algorithms): the public key can be built from the DNSKEY record, signing succeeds, a signature verifies under that
  key over the same octets, and an ECDSA signature is the DER encoding of two numbers of the length of the curve.
\<close>

abbreviation key_digest :: "('d, 'pk, 'sk) openssl \<Rightarrow> DNSKEY \<Rightarrow> 'd option" where
  "key_digest os k \<equiv> GetDigestByName os (AlgorithmToHash (DNSKEY_Algorithm k))"

definition key_pair :: "('d, 'pk, 'sk) openssl \<Rightarrow> 'sk \<Rightarrow> DNSKEY \<Rightarrow> bool" where
  "key_pair os sk k \<longleftrightarrow>
     (\<exists>pk. public_key os k = Some pk \<and>
       (\<forall>data. \<exists>sig. SignPKCS1v15 os sk (key_digest os k) data = Ok sig \<and> VerifyPKCS1v15 os pk (key_digest os k) data sig = Ok () \<and>
         (ecdsa_algorithm (DNSKEY_Algorithm k) \<longrightarrow>
           (\<exists>r s. sig = asn1_Marshal r s \<and> r < 256 ^ ecdsa_intlen (DNSKEY_Algorithm k) \<and> s < 256 ^ ecdsa_intlen (DNSKEY_Algorithm k)))))"

lemma public_key_algorithm:
  assumes "public_key os k = Some pk"
  shows "DNSKEY_Algorithm k \<notin> {0, RSAMD5, DSA, DSANSEC3SHA1}"
    and "\<not> ecdsa_algorithm (DNSKEY_Algorithm k) \<Longrightarrow> DNSKEY_Algorithm k \<in> {RSASHA1, RSASHA1NSEC3SHA1, RSASHA256, RSASHA512, ED25519} \<or> falcon_algorithm (DNSKEY_Algorithm k)"
  using assms by (auto simp: public_key_def Let_def falcon_algorithm_def ecdsa_algorithm_def split: if_splits)

lemma halves:
  assumes "length a = n" and "length b = n"
  shows "take (length (a @ b) div 2) (a @ b) = a" and "drop (length (a @ b) div 2) (a @ b) = b"
  using assms by simp_all

lemma sign_verifies:
  assumes "key_pair os sk k" and "DNSKEY_Algorithm k = alg"
  obtains signature where "sign os sk (GetDigestByName os (AlgorithmToHash alg)) data alg = Ok signature"
    and "Verify_signature os alg k data signature = Ok ()"
proof -
  let ?h = "GetDigestByName os (AlgorithmToHash alg)"
  obtain pk sig where S: "public_key os k = Some pk" "SignPKCS1v15 os sk ?h data = Ok sig" "VerifyPKCS1v15 os pk ?h data sig = Ok ()"
    "ecdsa_algorithm alg \<longrightarrow> (\<exists>r s. sig = asn1_Marshal r s \<and> r < 256 ^ ecdsa_intlen alg \<and> s < 256 ^ ecdsa_intlen alg)"
    using assms unfolding key_pair_def by metis
  note a = public_key_algorithm [OF S(1), unfolded assms(2)]
  show ?thesis
  proof (cases "ecdsa_algorithm alg")
    case True
    then obtain r s where rs: "sig = asn1_Marshal r s" "r < 256 ^ ecdsa_intlen alg" "s < 256 ^ ecdsa_intlen alg" using S(4) by blast
    have le: "(256 :: nat) ^ ecdsa_intlen alg \<le> 256 ^ 48" by (rule power_increasing) (simp_all add: ecdsa_intlen_def)
    have u: "asn1_Unmarshal sig = Some (int r, int s)" using asn1_reads_back [of r s "[]"] rs le by simp
    note i = intToBytes_reads [OF rs(2)] intToBytes_reads [OF rs(3)]
    let ?sig = "intToBytes (int r) (ecdsa_intlen alg) @ intToBytes (int s) (ecdsa_intlen alg)"
    have "ecdsa_der ?sig = sig" unfolding ecdsa_der_def halves [OF i(1,3)] rs(1) i(2,4) ..
    moreover have "sign os sk ?h data alg = Ok ?sig" using True S(2) u
      by (auto simp: sign_def ecdsa_algorithm_def falcon_algorithm_def)
    ultimately show ?thesis using that [of ?sig] True S(1,3) by (auto simp: Verify_signature_eq [OF assms(2)] openssl_sig_def)
  next
    case False
    then have "sign os sk ?h data alg = Ok sig" using S(2) a(2) by (auto simp: sign_def)
    then show ?thesis using that [of sig] False S(1,3) by (auto simp: Verify_signature_eq [OF assms(2)] openssl_sig_def)
  qed
qed

subsection \<open>Sets of records\<close>

lemma IsRRset_iff:
  "IsRRset (map Some rs) = Ok True \<longleftrightarrow> rs \<noteq> [] \<and>
     (\<forall>r \<in> set rs. Hdr_Rrtype (rr_Header r) = Hdr_Rrtype (rr_Header (hd rs)) \<and> Hdr_Class (rr_Header r) = Hdr_Class (rr_Header (hd rs)) \<and>
        Hdr_Name (rr_Header r) = Hdr_Name (rr_Header (hd rs)))"
proof (cases rs)
  case (Cons r0 rs')
  have "foldr (\<lambda>r rest. case r of None \<Rightarrow> Panic | Some r \<Rightarrow> let cur = rr_Header r in
      if Hdr_Rrtype cur \<noteq> Hdr_Rrtype b \<or> Hdr_Class cur \<noteq> Hdr_Class b \<or> Hdr_Name cur \<noteq> Hdr_Name b then Ok False else rest) (map Some rs') (Ok True) = Ok True \<longleftrightarrow>
    (\<forall>r \<in> set rs'. Hdr_Rrtype (rr_Header r) = Hdr_Rrtype b \<and> Hdr_Class (rr_Header r) = Hdr_Class b \<and> Hdr_Name (rr_Header r) = Hdr_Name b)" for b
    by (induction rs') (auto simp: Let_def)
  then show ?thesis by (simp add: Cons IsRRset_def Let_def)
qed (simp add: IsRRset_def)

text \<open>A record without its TTL, which caches count down.\<close>

definition clear_ttl :: "RR \<Rightarrow> RR" where
  "clear_ttl r = set_Header ((rr_Header r)\<lparr>Hdr_Ttl := 0\<rparr>) r"

lemma clear_ttl_Header: "clear_ttl r = clear_ttl r' \<Longrightarrow> Hdr_Rrtype (rr_Header r) = Hdr_Rrtype (rr_Header r') \<and>
    Hdr_Class (rr_Header r) = Hdr_Class (rr_Header r') \<and> Hdr_Name (rr_Header r) = Hdr_Name (rr_Header r')"
proof -
  assume "clear_ttl r = clear_ttl r'"
  then have "(rr_Header r)\<lparr>Hdr_Ttl := 0\<rparr> = (rr_Header r')\<lparr>Hdr_Ttl := 0\<rparr>" by (metis clear_ttl_def set_Header_simps(1))
  then show ?thesis by (cases "rr_Header r"; cases "rr_Header r'") simp
qed

lemma canonical_rr_clear_ttl: "canonical_rr s (clear_ttl r) = canonical_rr s r"
  by (simp add: canonical_rr_def clear_ttl_def Let_def)

lemma of_rrset_clear_ttl: "clear_ttl r = clear_ttl r' \<Longrightarrow> of_rrset s n t c r = of_rrset s n t c r'"
  using clear_ttl_Header [of r r'] canonical_rr_clear_ttl [of s r] canonical_rr_clear_ttl [of s r'] by (simp add: of_rrset_def)

lemma rawSignatureData_same:
  assumes "list_all (of_rrset s n t c) rs" and "clear_ttl ` set rs' = clear_ttl ` set rs"
  shows "rawSignatureData (map Some rs') s = rawSignatureData (map Some rs) s"
proof -
  have l: "list_all (of_rrset s n t c) rs'" unfolding list_all_iff
  proof
    fix r' assume "r' \<in> set rs'"
    then obtain r where r: "r \<in> set rs" "clear_ttl r' = clear_ttl r" using assms(2) by blast
    then show "of_rrset s n t c r'" using assms(1) of_rrset_clear_ttl [OF r(2)] by (simp add: list_all_iff)
  qed
  have c: "canonical_data s n ` X = canonical_data s n ` (clear_ttl ` X)" for X by (simp add: image_image canonical_rr_clear_ttl)
  have "canonical_data s n ` set rs' = canonical_data s n ` set rs" unfolding c [of "set rs'"] c [of "set rs"] assms(2) ..
  then show ?thesis by (simp only: rawSignatureData_form [OF l] rawSignatureData_form [OF assms(1)])
qed

lemma sign_fields_simps [simp]:
  "RRSIG_KeyTag (sign_fields h rr) = RRSIG_KeyTag rr" "RRSIG_SignerName (sign_fields h rr) = RRSIG_SignerName rr"
  "RRSIG_Algorithm (sign_fields h rr) = RRSIG_Algorithm rr" "RRSIG_TypeCovered (sign_fields h rr) = Hdr_Rrtype h"
  "Hdr_Class (RRSIG_Hdr (sign_fields h rr)) = Hdr_Class h" "Hdr_Name (RRSIG_Hdr (sign_fields h rr)) = Hdr_Name h"
  by (simp_all add: sign_fields_def Let_def)

lemma CountLabel_pos: "s \<noteq> [] \<Longrightarrow> s \<noteq> [DOT] \<Longrightarrow> 0 < CountLabel s"
proof -
  have "n < CountLabel_loop s off n" for s off n
  proof (induction s off n rule: CountLabel_loop.induct)
    case (1 s off n)
    obtain off' e where e: "NextLabel s off = (off', e)" by fastforce
    show ?case using 1 [OF e [symmetric] refl] by (subst CountLabel_loop.simps) (auto simp: e)
  qed
  then show "s \<noteq> [] \<Longrightarrow> s \<noteq> [DOT] \<Longrightarrow> 0 < CountLabel s" by (simp add: CountLabel_def)
qed

lemma sign_fields_Labels:
  assumes "CountLabel (Hdr_Name h) < 256"
  shows "RRSIG_Labels (sign_fields h rr) \<le> of_nat (CountLabel (Hdr_Name h))"
proof (cases "take 1 (Hdr_Name h) = [STAR]")
  case True
  then have "0 < CountLabel (Hdr_Name h)" by (intro CountLabel_pos) auto
  then obtain c where c: "CountLabel (Hdr_Name h) = Suc c" by (cases "CountLabel (Hdr_Name h)") auto
  then have "unat (of_nat c :: byte) = c" "unat (of_nat (Suc c) :: byte) = Suc c" using assms by (simp_all only: unat_of_nat) simp_all
  then have "(of_nat c :: byte) \<le> of_nat (Suc c)" by (simp only: word_le_nat_alt)
  with True c show ?thesis by (simp add: sign_fields_def Let_def)
qed (simp add: sign_fields_def Let_def)

text \<open>Only the signature differs between the record that was filled in and the one that is returned.\<close>

lemma unsigned_part [simp]:
  "sig_wire (rr\<lparr>RRSIG_Signature := x\<rparr>) = sig_wire rr" "rawSignatureData rrset (rr\<lparr>RRSIG_Signature := x\<rparr>) = rawSignatureData rrset rr"
proof -
  have "canonical_wire (rr\<lparr>RRSIG_Signature := x\<rparr>) r = canonical_wire rr r" for r
    by (simp add: canonical_wire_def canonical_rr_def split: option.split)
  then have "canonical_wires (rr\<lparr>RRSIG_Signature := x\<rparr>) rrset = canonical_wires rr rrset" by (induction rrset) simp_all
  then show "rawSignatureData rrset (rr\<lparr>RRSIG_Signature := x\<rparr>) = rawSignatureData rrset rr" by (simp add: rawSignatureData_def)
  show "sig_wire (rr\<lparr>RRSIG_Signature := x\<rparr>) = sig_wire rr" by (simp add: sig_wire_def)
qed

lemma HasSuffix_iff: "HasSuffix s t \<longleftrightarrow> (\<exists>p. s = p @ t)"
proof
  assume h: "HasSuffix s t"
  have "s = take (length s - length t) s @ drop (length s - length t) s" by simp
  with h show "\<exists>p. s = p @ t" by (metis HasSuffix_def)
qed (auto simp: HasSuffix_def)

text \<open>What must be given for signing: the set of records, the fields of the RRSIG record that are not filled in, and the key.\<close>

definition signable_rrset :: "RR list \<Rightarrow> RRSIG \<Rightarrow> DNSKEY \<Rightarrow> bool" where
  "signable_rrset rs rr k \<longleftrightarrow>
     IsRRset (map Some rs) = Ok True \<and> list_all (\<lambda>r. rr_fits (Some (canonical_rr (sign_fields (rr_Header (hd rs)) rr) r))) rs \<and>
     CountLabel (Hdr_Name (rr_Header (hd rs))) < 256 \<and> ok_name (RRSIG_SignerName rr) \<and>
     HasSuffix (CanonicalName (Hdr_Name (rr_Header (hd rs)))) (CanonicalName (RRSIG_SignerName rr)) \<and>
     RRSIG_KeyTag rr \<noteq> 0 \<and> KeyTag k = Ok (RRSIG_KeyTag rr) \<and> DNSKEY_Algorithm k = RRSIG_Algorithm rr \<and> DNSKEY_Protocol k = 3 \<and>
     DNSKEY_Flags k AND ZONE \<noteq> 0 \<and> Hdr_Class (DNSKEY_Hdr k) = Hdr_Class (rr_Header (hd rs)) \<and>
     equal_names (CanonicalName (RRSIG_SignerName rr)) (Hdr_Name (DNSKEY_Hdr k))"

lemma signAsIs_ok:
  assumes "RRSIG_KeyTag rr \<noteq> 0" and "RRSIG_SignerName rr \<noteq> []" and "RRSIG_Algorithm rr \<notin> {0, RSAMD5, DSA, DSANSEC3SHA1}"
    and "sig_wire rr = Ok sw" and "rawSignatureData rrset rr = Ok w"
    and "sign os sk (GetDigestByName os (AlgorithmToHash (RRSIG_Algorithm rr))) (sw @ w) (RRSIG_Algorithm rr) = Ok signature"
  shows "signAsIs os (Some sk) rrset rr = Ok (rr\<lparr>RRSIG_Signature := toBase64 signature\<rparr>)"
  using assms by (simp add: signAsIs_def Let_def)

text \<open>The checks before the signature: all of \<^verbatim>\<open>Verify\<close> but the call of OpenSSL.\<close>

definition verify_checks :: "DNSKEY \<Rightarrow> RR option list \<Rightarrow> RRSIG \<Rightarrow> bool" where
  "verify_checks k rrset rr \<longleftrightarrow>
     IsRRset rrset = Ok True \<and> KeyTag k = Ok (RRSIG_KeyTag rr) \<and> Hdr_Class (DNSKEY_Hdr k) = Hdr_Class (RRSIG_Hdr rr) \<and>
     DNSKEY_Algorithm k = RRSIG_Algorithm rr \<and> equal_names (CanonicalName (RRSIG_SignerName rr)) (Hdr_Name (DNSKEY_Hdr k)) \<and>
     DNSKEY_Protocol k = 3 \<and> DNSKEY_Flags k AND ZONE \<noteq> 0 \<and>
     (case rrset of
        Some r0 # _ \<Rightarrow>
          Hdr_Class (rr_Header r0) = Hdr_Class (RRSIG_Hdr rr) \<and> Hdr_Rrtype (rr_Header r0) = RRSIG_TypeCovered rr \<and>
          RRSIG_Labels rr \<le> of_nat (CountLabel (Hdr_Name (rr_Header r0))) \<and> equal_names (Hdr_Name (rr_Header r0)) (Hdr_Name (RRSIG_Hdr rr)) \<and>
          HasSuffix (CanonicalName (Hdr_Name (rr_Header r0))) (CanonicalName (RRSIG_SignerName rr))
      | _ \<Rightarrow> False)"

lemma RRSIG_Verify_iff:
  "RRSIG_Verify os k rrset rr = Ok () \<longleftrightarrow> verify_checks k rrset rr \<and>
     (\<exists>sw w. sig_wire rr = Ok sw \<and> rawSignatureData rrset rr = Ok w \<and> Verify_signature os (RRSIG_Algorithm rr) k (sw @ w) (sigBuf rr) = Ok ())"
  unfolding RRSIG_Verify_def verify_checks_def
  by (auto simp: bindR_eq_Ok Let_def not_less split: if_splits list.splits option.splits)

lemma sign_then_verify:
  assumes "key_pair os sk k" and "signable_rrset rs rr k"
  shows "\<exists>rr'. Sign os (Some sk) (map Some rs) rr = Ok rr' \<and>
    (\<forall>rs'. clear_ttl ` set rs' = clear_ttl ` set rs \<longrightarrow> RRSIG_Verify os k (map Some rs') rr' = Ok ())"
proof -
  let ?h = "rr_Header (hd rs)" and ?s = "sign_fields (rr_Header (hd rs)) rr"
  from assms(2) have set0: "IsRRset (map Some rs) = Ok True" and fits: "list_all (\<lambda>r. rr_fits (Some (canonical_rr ?s r))) rs"
    and labels: "CountLabel (Hdr_Name ?h) < 256" and signer: "ok_name (RRSIG_SignerName rr)"
    and suffix: "HasSuffix (CanonicalName (Hdr_Name ?h)) (CanonicalName (RRSIG_SignerName rr))"
    and tag: "RRSIG_KeyTag rr \<noteq> 0" "KeyTag k = Ok (RRSIG_KeyTag rr)" and algk: "DNSKEY_Algorithm k = RRSIG_Algorithm rr"
    and key: "DNSKEY_Protocol k = 3" "DNSKEY_Flags k AND ZONE \<noteq> 0" "Hdr_Class (DNSKEY_Hdr k) = Hdr_Class ?h"
      "equal_names (CanonicalName (RRSIG_SignerName rr)) (Hdr_Name (DNSKEY_Hdr k))"
    unfolding signable_rrset_def by blast+
  have ne: "rs \<noteq> []" and same: "\<And>r. r \<in> set rs \<Longrightarrow> Hdr_Rrtype (rr_Header r) = Hdr_Rrtype ?h \<and> Hdr_Class (rr_Header r) = Hdr_Class ?h \<and>
      Hdr_Name (rr_Header r) = Hdr_Name ?h"
    using set0 unfolding IsRRset_iff by blast+
  have set: "list_all (of_rrset ?s (canonical_owner (RRSIG_Labels ?s) (Hdr_Name ?h)) (Hdr_Rrtype ?h) (Hdr_Class ?h)) rs"
    using fits same unfolding of_rrset_def list_all_iff by simp
  obtain pk where pk: "public_key os k = Some pk" using assms(1) by (auto simp: key_pair_def)
  note alg = public_key_algorithm(1) [OF pk]
  obtain w where w: "rawSignatureData (map Some rs) ?s = Ok w" using rawSignatureData_form [OF set] by blast
  have sw: "sig_wire ?s = Ok (sig_octets ?s)" by (rule sig_wire_eq) (simp add: signer)
  obtain signature where S: "sign os sk (GetDigestByName os (AlgorithmToHash (RRSIG_Algorithm rr))) (sig_octets ?s @ w) (RRSIG_Algorithm rr) = Ok signature"
    "Verify_signature os (RRSIG_Algorithm rr) k (sig_octets ?s @ w) signature = Ok ()"
    by (rule sign_verifies [OF assms(1) algk]) (rule that)
  let ?rr = "?s\<lparr>RRSIG_Signature := toBase64 signature\<rparr>"
  have "Sign os (Some sk) (map Some rs) rr = signAsIs os (Some sk) (map Some rs) ?s" using ne by (cases rs) (simp_all add: Sign_def)
  also have "\<dots> = Ok ?rr" using tag(1) signer alg algk w sw S(1) by (intro signAsIs_ok) (auto simp: ok_name_def IsFqdn_def)
  finally have sign: "Sign os (Some sk) (map Some rs) rr = Ok ?rr" .
  have "RRSIG_Verify os k (map Some rs') ?rr = Ok ()" if rs': "clear_ttl ` set rs' = clear_ttl ` set rs" for rs'
  proof -
    have same': "Hdr_Rrtype (rr_Header r) = Hdr_Rrtype ?h \<and> Hdr_Class (rr_Header r) = Hdr_Class ?h \<and> Hdr_Name (rr_Header r) = Hdr_Name ?h"
      if r: "r \<in> set rs'" for r
    proof -
      obtain r1 where r1: "r1 \<in> set rs" "clear_ttl r = clear_ttl r1" using r rs' by blast
      then show ?thesis using same [OF r1(1)] clear_ttl_Header [OF r1(2)] by simp
    qed
    have "rs' \<noteq> []" using rs' ne by auto
    then obtain r0 rs1 where c: "rs' = r0 # rs1" by (cases rs') auto
    have "IsRRset (map Some rs') = Ok True" unfolding IsRRset_iff using same' c by simp
    moreover have "rawSignatureData (map Some rs') ?rr = Ok w" using rawSignatureData_same [OF set rs'] w by simp
    moreover have "sigBuf ?rr = signature" by (simp add: sigBuf_def)
    moreover have "verify_checks k (map Some rs') ?rr"
      using calculation(1) tag(2) key algk suffix same' [of r0] sign_fields_Labels [OF labels, of rr] unfolding verify_checks_def c
      by (simp add: equal_names_iff)
    ultimately show ?thesis using sw S(2) by (auto simp: RRSIG_Verify_iff)
  qed
  with sign show ?thesis by blast
qed

lemma signed_once:
  assumes "key_pair os sk k" and "signable_rrset rs rr k" and "clear_ttl ` set rs' = clear_ttl ` set rs"
  shows "\<exists>rr'. RRSIG_Verify os k (map Some rs') rr' = Ok ()"
  using sign_then_verify [OF assms(1,2)] assms(3) by blast

subsection \<open>The canonical form of RFC 4034\<close>

text \<open>Packing the data of a record does not depend on its header.\<close>

lemmas all_pack_defs =
  A_pack_def AAAA_pack_def AFSDB_pack_def AMTRELAY_pack_def ANY_pack_def APL_pack_def AVC_pack_def CAA_pack_def CDNSKEY_pack_def
  CDS_pack_def CERT_pack_def CNAME_pack_def CSYNC_pack_def DHCID_pack_def DLV_pack_def DNAME_pack_def DNSKEY_pack_def DS_pack_def
  EID_pack_def EUI48_pack_def EUI64_pack_def GID_pack_def GPOS_pack_def HINFO_pack_def HIP_pack_def HTTPS_pack_def
  IPSECKEY_pack_def ISDN_pack_def KEY_pack_def KX_pack_def L32_pack_def L64_pack_def LOC_pack_def LP_pack_def MB_pack_def
  MD_pack_def MF_pack_def MG_pack_def MINFO_pack_def MR_pack_def MX_pack_def NAPTR_pack_def NID_pack_def NIMLOC_pack_def
  NINFO_pack_def NS_pack_def NSAPPTR_pack_def NSEC_pack_def NSEC3_pack_def NSEC3PARAM_pack_def NULL_pack_def NXNAME_pack_def
  NXT_pack_def OPENPGPKEY_pack_def OPT_pack_def PTR_pack_def PX_pack_def RESINFO_pack_def RFC3597_pack_def RKEY_pack_def
  RP_pack_def RRSIG_pack_def RT_pack_def SIG_pack_def SMIMEA_pack_def SOA_pack_def SPF_pack_def SRV_pack_def SSHFP_pack_def
  SVCB_pack_def TA_pack_def TALINK_pack_def TKEY_pack_def TLSA_pack_def TSIG_pack_def TXT_pack_def UID_pack_def UINFO_pack_def
  URI_pack_def X25_pack_def ZONEMD_pack_def

lemma rr_pack_set_Header [simp]: "rr_pack (set_Header h r) = rr_pack r"
  by (cases r) (auto simp: fun_eq_iff all_pack_defs cong: if_cong)

lemma rdata_ok_set_Header [simp]: "rdata_ok (set_Header h r) = rdata_ok r"
  by (cases r) simp_all

lemma rd_size_set_Header [simp]: "rd_size (set_Header h r) = rd_size r"
  by (cases r) (simp_all add: rd_size_def Len_def all_len_defs cong: if_cong)

lemma rdata_octets_set_Header [simp]: "rdata_octets off (set_Header h r) = rdata_octets off r"
  by (simp add: rdata_octets_def)

text \<open>The types of RFC 4034, section 6.2, whose names are put in lower case, but for NXT, which the code leaves as it is.\<close>

definition lowercased_types :: "u16 list" where
  "lowercased_types =
     [TypeNS, TypeMD, TypeMF, TypeCNAME, TypeSOA, TypeMB, TypeMG, TypeMR, TypePTR, TypeMINFO, TypeMX, TypeRP, TypeAFSDB, TypeRT,
      TypeSIG, TypePX, TypeNAPTR, TypeKX, TypeSRV, TypeDNAME]"

text \<open>A record with its names in lower case, where it is of a listed type all of them, otherwise the owner only, and without its TTL.\<close>

definition lower_names :: "RR \<Rightarrow> RR" where
  "lower_names r = (if Hdr_Rrtype (rr_Header r) \<in> set lowercased_types then dup_norm r else set_Header (hdr_norm (rr_Header r)) r)"

lemma canonical_rr_lower:
  assumes "type_ok (rr_Header r) r" and "rdata_ok r"
  shows "canonical_rr s r = set_Header (rr_Header (canonical_rr s r)) (lower_names r)"
  using assms
  by (cases r) (auto simp: canonical_rr_def canonical_rdata_def lower_names_def lowercased_types_def type_ok_def Let_def
    CanonicalName_ok(1) TypeToRR_def split: if_splits)

lemma lower_names_type: "rr_type (set_Header h (lower_names r)) = rr_type r"
  by (cases r) (simp_all add: lower_names_def)

lemma lower_names_ok:
  assumes "type_ok (rr_Header r) r" and "rdata_ok r"
  shows "rdata_ok (lower_names r)" and "rd_size (lower_names r) = rd_size r"
  using assms CanonicalName_ok(2,3)
  by (cases r; auto simp: lower_names_def lowercased_types_def type_ok_def CanonicalName_ok(1) TypeToRR_def
    rd_size_def Len_def all_len_defs hdr_norm_def Let_def split: if_splits)+

text \<open>
  The owner of the records in the form that is signed: its labels in lower case, and where the signature covers fewer labels than it has, an
  asterisk in the place of those to the left. A wildcard under the root, where no label is covered, has no such form in the code.
\<close>

definition owner_form :: "nat \<Rightarrow> gostring \<Rightarrow> gostring \<Rightarrow> bool" where
  "owner_form covered name n \<longleftrightarrow>
     name = [DOT] \<and> n = [DOT] \<or>
     (\<exists>us. name = join_labels us \<and> valid_labels us \<and>
        (if length us \<le> covered then n = map to_lower name
         else 0 < covered \<and> n = map to_lower (join_labels ([STAR] # drop (length us - covered) us))))"

lemma strings_Join_labels: "us \<noteq> [] \<Longrightarrow> strings_Join us [DOT] @ [DOT] = join_labels us"
  by (induction us "[DOT]" rule: strings_Join.induct) (simp_all add: join_labels_def)

lemma CanonicalName_lower_labels:
  assumes "\<forall>u \<in> set us. raw_label u" and "us \<noteq> []" and "ascii (join_labels us)"
  shows "CanonicalName (join_labels us) = map to_lower (join_labels us)"
  using IsFqdn_join [OF assms] assms(3) by (simp add: CanonicalName_def Fqdn_IsFqdn map_runes_ascii)

lemma canonical_owner_form:
  assumes "owner_form (unat l) name n" and "ascii name"
  shows "canonical_owner l name = n"
proof (cases "name = [DOT]")
  case True
  have "SplitDomainName [DOT] = []" "CanonicalName [DOT] = [DOT]" by code_simp+
  moreover have "join_labels us \<noteq> [DOT]" if "valid_labels us" for us
    using that by (cases us) (auto simp: valid_labels_def join_labels_def append_eq_Cons_conv)
  then have "n = [DOT]" using assms(1) True unfolding owner_form_def by metis
  ultimately show ?thesis using True by (simp add: canonical_owner_def)
next
  case False
  then obtain us where us: "name = join_labels us" "valid_labels us"
    "if length us \<le> unat l then n = map to_lower name else 0 < unat l \<and> n = map to_lower (join_labels ([STAR] # drop (length us - unat l) us))"
    using assms(1) unfolding owner_form_def by blast
  note D = valid_labels_D [OF us(2)]
  note S = SplitDomainName_join [OF us(2) assms(2) [unfolded us(1)]]
  show ?thesis
  proof (cases "length us \<le> unat l")
    case True
    then show ?thesis using S us CanonicalName_lower_labels [OF D(3,1)] assms(2) by (simp add: canonical_owner_def)
  next
    case w: False
    let ?us = "drop (length us - unat l) us"
    have ne: "?us \<noteq> []" using w us(3) by (auto simp: not_le)
    have j: "[STAR, DOT] @ strings_Join ?us [DOT] @ [DOT] = join_labels ([STAR] # ?us)" using strings_Join_labels [OF ne] by simp
    have "set (join_labels ?us) \<subseteq> set (join_labels us)" by (auto simp: join_labels_def dest: in_set_dropD)
    then have a: "ascii (join_labels ([STAR] # ?us))" using assms(2) by (auto simp: us(1) ascii_def)
    have "\<forall>u \<in> set ([STAR] # ?us). raw_label u" using D(3) by (auto dest: in_set_dropD)
    then show ?thesis using CanonicalName_lower_labels [OF _ _ a] w us S j by (simp add: canonical_owner_def)
  qed
qed

text \<open>A well-formed record of the set to be signed, in terms of the record itself.\<close>

definition in_rrset :: "RRSIG \<Rightarrow> gostring \<Rightarrow> u16 \<Rightarrow> u16 \<Rightarrow> RR \<Rightarrow> bool" where
  "in_rrset s n t c r \<longleftrightarrow> rr_fits (Some r) \<and> owner_form (unat (RRSIG_Labels s)) (Hdr_Name (rr_Header r)) n \<and>
     Hdr_Rrtype (rr_Header r) = t \<and> Hdr_Class (rr_Header r) = c"

abbreviation lower_data :: "gostring \<Rightarrow> RR \<Rightarrow> bytes" where
  "lower_data n r \<equiv> rdata_octets (length (enc_wire n) + 10) (lower_names r)"

lemma in_rrset_canonical:
  assumes "in_rrset s n t c r" and "ok_name n"
  shows "of_rrset s n t c r" and "canonical_data s n r = lower_data n r"
proof -
  let ?r = "canonical_rr s r"
  have r: "ok_name (Hdr_Name (rr_Header r))" "type_ok (rr_Header r) r" "rdata_ok r" "rd_size r < 65536"
    and o: "owner_form (unat (RRSIG_Labels s)) (Hdr_Name (rr_Header r)) n" "Hdr_Rrtype (rr_Header r) = t" "Hdr_Class (rr_Header r) = c"
    using assms(1) by (auto simp: in_rrset_def rr_fits_def rr_ok_def)
  have n: "canonical_owner (RRSIG_Labels s) (Hdr_Name (rr_Header r)) = n"
    using canonical_owner_form [OF o(1)] r(1) by (auto simp: ok_name_present ascii_present)
  note l = canonical_rr_lower [OF r(2,3), of s] and k = lower_names_ok [OF r(2,3)]
  have "rr_type ?r = rr_type r" by (subst l) (rule lower_names_type)
  then have "type_ok (rr_Header ?r) ?r" using r(2) by (simp add: canonical_rr_Header type_ok_def cong: option.case_cong)
  moreover have "rdata_ok ?r" "rd_size ?r = rd_size r" "canonical_data s n r = lower_data n r" by (subst l, simp add: k)+
  ultimately show "of_rrset s n t c r" "canonical_data s n r = lower_data n r"
    using n o r(4) assms(2) by (simp_all add: of_rrset_def rr_fits_def rr_ok_def canonical_rr_Header)
qed

lemma rawSignatureData_lower:
  assumes "list_all (in_rrset s n t c) rs" and "ok_name n"
  shows "rawSignatureData (map Some rs) s =
    Ok (concat (map (rr_form n t c (RRSIG_OrigTtl s)) (sorted_list_of_set (lower_data n ` set rs))))"
proof -
  have "list_all (of_rrset s n t c) rs" using assms in_rrset_canonical(1) by (simp add: list_all_iff)
  moreover have "canonical_data s n ` set rs = lower_data n ` set rs"
    using assms(1) by (intro image_cong refl) (auto simp: list_all_iff intro: in_rrset_canonical(2) [OF _ assms(2)])
  ultimately show ?thesis using rawSignatureData_form by metis
qed

section \<open>The properties\<close>

text \<open>
  C5: What was signed verifies, for every algorithm that \<^verbatim>\<open>Verify\<close> knows (RSA with SHA-1, SHA-256 or SHA-512, ECDSA, Ed25519 and the
  five with Falcon). Given: a key pair of OpenSSL, which with the digest of the algorithm of the key signs all octets and verifies what it
  signed; a DNSKEY record of that key, which is a zone key of protocol 3; a non-empty set of records of one name, type and class whose canonical forms
  are well-formed with less than 64 KiB of data, under a name of fewer than 256 labels; an RRSIG record whose key tag is that of the key and
  not 0, whose algorithm is that of the key, and whose signer name is well-formed and, up to case, the name of the key and textually the end of the
  name of the records; and the class of the key is that of the records. Then \<^verbatim>\<open>Sign\<close> succeeds, and \<^verbatim>\<open>Verify\<close> accepts the signature for the same
  records, in any order, with any of them repeated and with other TTLs.
\<close>

theorem signed_rrset_verifies:
  assumes "key_pair os sk k" and "signable_rrset rs rr k"
  shows "\<exists>rr'. Sign os (Some sk) (map Some rs) rr = Ok rr' \<and>
    (\<forall>rs'. clear_ttl ` set rs' = clear_ttl ` set rs \<longrightarrow> RRSIG_Verify os k (map Some rs') rr' = Ok ())"
  by (rule sign_then_verify [OF assms])


text \<open>
  C20: What \<^verbatim>\<open>Verify\<close> accepts was signed by the key: the records are a set of one name, type and class, which the RRSIG record covers; the
  key has the tag, the class, the algorithm and the name that the RRSIG record gives, is a zone key of protocol 3, and its name ends the name of the
  records, which have no fewer labels than were signed; and OpenSSL has verified the signature under the public key of the DNSKEY record,
  over the octets of the RRSIG record followed by the canonical form of the records.
\<close>

theorem accepted_rrset_is_signed:
  assumes "RRSIG_Verify os k rrset rr = Ok ()"
  shows "verify_checks k rrset rr \<and>
    (\<exists>pk sw w. sig_wire rr = Ok sw \<and> rawSignatureData rrset rr = Ok w \<and> public_key os k = Some pk \<and>
       VerifyPKCS1v15 os pk (GetDigestByName os (AlgorithmToHash (RRSIG_Algorithm rr))) (sw @ w) (openssl_sig (RRSIG_Algorithm rr) (sigBuf rr)) = Ok ())"
proof -
  from assms obtain sw w where v: "verify_checks k rrset rr" "sig_wire rr = Ok sw" "rawSignatureData rrset rr = Ok w"
    "Verify_signature os (RRSIG_Algorithm rr) k (sw @ w) (sigBuf rr) = Ok ()" unfolding RRSIG_Verify_iff by (elim conjE exE)
  have a: "DNSKEY_Algorithm k = RRSIG_Algorithm rr" using v(1) unfolding verify_checks_def by (elim conjE)
  from v(4) obtain pk where "public_key os k = Some pk"
    "VerifyPKCS1v15 os pk (GetDigestByName os (AlgorithmToHash (RRSIG_Algorithm rr))) (sw @ w) (openssl_sig (RRSIG_Algorithm rr) (sigBuf rr)) = Ok ()"
    unfolding Verify_signature_eq [OF a] by (elim exE conjE)
  with v(1-3) show ?thesis by (intro conjI exI [of _ pk] exI [of _ sw] exI [of _ w])
qed

text \<open>
  C21: \<^verbatim>\<open>ValidityPeriod\<close> is the plain comparison of the time with the two 32-bit numbers of the RRSIG record, for every time that is
  not astronomically far away: the shift by multiples of 68 years goes in the wrong direction and never changes a comparison, so that there is
  no serial arithmetic, and after the year 2106 every signature counts as expired.
\<close>

theorem ValidityPeriod_is_plain:
  assumes "\<bar>utc\<bar> < 2 ^ 61"
  shows "ValidityPeriod rr utc \<longleftrightarrow> uint (RRSIG_Inception rr) \<le> utc \<and> utc \<le> uint (RRSIG_Expiration rr)"
proof -
  have u: "0 \<le> uint x" "uint x < 2 ^ 32" for x :: u32 using unsigned_less [of x, where ?'a = int] by simp_all
  show ?thesis using serial_shift(1) [OF assms u, of "RRSIG_Inception rr"] serial_shift(2) [OF assms u, of "RRSIG_Expiration rr"]
    by (simp add: ValidityPeriod_def Let_def)
qed

subsection \<open>An example\<close>

text \<open>A signature that is the key followed by the octets stands for OpenSSL; the algorithm is FALCON512.\<close>

definition ex_openssl :: "(unit, bytes, bytes) openssl" where
  "ex_openssl = \<lparr>GetDigestByName = (\<lambda>_. None), DigestSum = (\<lambda>_ b. Ok b), BuildRSAPublicKey = (\<lambda>_ _. None),
     BuildECDSAPublicKey = (\<lambda>_ _. None), BuildRawPublicKey = (\<lambda>b _. Some b), SignPKCS1v15 = (\<lambda>sk _ d. Ok (sk @ d)),
     VerifyPKCS1v15 = (\<lambda>pk _ d sig. if sig = pk @ d then Ok () else Err ErrSig)\<rparr>"

definition ex_DNSKEY :: DNSKEY where
  "ex_DNSKEY = \<lparr>DNSKEY_Hdr = \<lparr>Hdr_Name = str ''A.'', Hdr_Rrtype = TypeDNSKEY, Hdr_Class = 1, Hdr_Ttl = 0, Hdr_Rdlength = 0\<rparr>, DNSKEY_Flags = 256,
     DNSKEY_Protocol = 3, DNSKEY_Algorithm = FALCON512, DNSKEY_PublicKey = toBase64 [1, 2, 3]\<rparr>"

definition ex_RRSIG :: RRSIG where
  "ex_RRSIG = \<lparr>RRSIG_Hdr = zero_Header, RRSIG_TypeCovered = 0, RRSIG_Algorithm = FALCON512, RRSIG_Labels = 0, RRSIG_OrigTtl = 0,
     RRSIG_Expiration = 20, RRSIG_Inception = 10, RRSIG_KeyTag = 2067, RRSIG_SignerName = str ''A.'', RRSIG_Signature = []\<rparr>"

lemma key_wire_eq:
  assumes "fromBase64 (DNSKEY_PublicKey k) = Some b" and "length b \<le> 4000"
  shows "key_wire k = Ok (be16 (DNSKEY_Flags k) @ [DNSKEY_Protocol k, DNSKEY_Algorithm k] @ b)"
proof -
  have b: "packStringBase64 (DNSKEY_PublicKey k) msg off = Ok (put msg off b, off + length b)" if "off + length b \<le> length msg" for msg off
    using that assms(1) by (simp add: packStringBase64_def write_at_def)
  show ?thesis unfolding key_wire_def
    by (rule packed_eq) (use assms(2) in \<open>simp_all add: packKeyWire_def pack_eqs packUint8_eq b put_put_at
      del: add_2_eq_Suc add_2_eq_Suc' replicate.simps One_nat_def\<close>)
qed

lemma ex_DNSKEY_facts:
  "fromBase64 (DNSKEY_PublicKey ex_DNSKEY) = Some [1, 2, 3]" "DNSKEY_Flags ex_DNSKEY = 256" "DNSKEY_Protocol ex_DNSKEY = 3"
  "DNSKEY_Algorithm ex_DNSKEY = FALCON512" "Hdr_Name (DNSKEY_Hdr ex_DNSKEY) = str ''A.''" "Hdr_Class (DNSKEY_Hdr ex_DNSKEY) = 1"
  by (simp_all add: ex_DNSKEY_def del: toBase64.simps)

lemma ex_key_tag: "KeyTag ex_DNSKEY = Ok 2067"
proof -
  have "key_wire ex_DNSKEY = Ok (be16 256 @ [3, 17] @ [1, 2, 3])" using key_wire_eq [OF ex_DNSKEY_facts(1)] by (simp add: ex_DNSKEY_facts)
  moreover have "be16 256 = [1, 0 :: byte]" by code_simp
  ultimately show ?thesis by (simp add: KeyTag_def Let_def ex_DNSKEY_facts)
qed

lemma ex_key_pair: "key_pair ex_openssl [1, 2, 3] ex_DNSKEY"
proof -
  have "public_key ex_openssl ex_DNSKEY = Some [1, 2, 3]"
    by (simp add: public_key_def publicKeyGeneric_def falcon_algorithm_def ex_DNSKEY_facts Let_def) (simp add: ex_openssl_def)
  moreover have "\<not> ecdsa_algorithm (DNSKEY_Algorithm ex_DNSKEY)" by (simp add: ecdsa_algorithm_def ex_DNSKEY_facts)
  ultimately show ?thesis by (simp add: key_pair_def ex_openssl_def)
qed

lemma ex_rrset_signable: "signable_rrset [ex_A, ex_A] ex_RRSIG ex_DNSKEY"
proof -
  have "IsRRset (map Some [ex_A, ex_A]) = Ok True" "CountLabel (Hdr_Name (rr_Header ex_A)) < 256" "ok_name (str ''A.'')"
    "HasSuffix (CanonicalName (Hdr_Name (rr_Header ex_A))) (CanonicalName (str ''A.''))" "equal_names (CanonicalName (str ''A.'')) (str ''A.'')"
    by code_simp+
  moreover have "rr_ok (canonical_rr (sign_fields (rr_Header ex_A) ex_RRSIG) ex_A)" by code_simp
  moreover have "rd_size (canonical_rr (sign_fields (rr_Header ex_A) ex_RRSIG) ex_A) < 65536" by code_simp
  moreover have "Hdr_Class (rr_Header ex_A) = 1" by code_simp
  ultimately show ?thesis using ex_key_tag by (simp add: signable_rrset_def rr_fits_def) (simp add: ex_RRSIG_def ex_DNSKEY_facts)
qed

text \<open>Two name servers whose names differ in their case only.\<close>

definition ex_NS :: "gostring \<Rightarrow> RR" where
  "ex_NS x = RR_NS \<lparr>NS_Hdr = \<lparr>Hdr_Name = str ''A.'', Hdr_Rrtype = TypeNS, Hdr_Class = 1, Hdr_Ttl = 7, Hdr_Rdlength = 0\<rparr>, NS_Ns = x\<rparr>"

lemma ex_in_rrset: "list_all (in_rrset (ex_RRSIG\<lparr>RRSIG_Labels := 1\<rparr>) (str ''a.'') TypeNS 1) [ex_NS (str ''B.''), ex_NS (str ''b.'')]"
proof -
  have "rr_ok (ex_NS (str ''B.''))" "rr_ok (ex_NS (str ''b.''))" by code_simp+
  moreover have "rd_size (ex_NS (str ''B.'')) = 3" "rd_size (ex_NS (str ''b.'')) = 3" by code_simp+
  moreover have "owner_form 1 (str ''A.'') (str ''a.'')"
    unfolding owner_form_def by (intro disjI2 exI [of _ "[str ''A'']"]) (simp add: valid_labels_def join_labels_def str_def to_lower_def)
  ultimately show ?thesis by (simp add: in_rrset_def rr_fits_def) (simp add: ex_NS_def)
qed

theorem signed_rrset_verifies_witness:
  "\<exists>rr'. Sign ex_openssl (Some [1, 2, 3]) (map Some [ex_A, ex_A]) ex_RRSIG = Ok rr' \<and> RRSIG_Verify ex_openssl ex_DNSKEY (map Some [ex_A]) rr' = Ok ()"
proof -
  have "clear_ttl ` set [ex_A] = clear_ttl ` set [ex_A, ex_A]" by simp
  with signed_rrset_verifies [OF ex_key_pair ex_rrset_signable] show ?thesis by blast
qed


theorem accepted_rrset_is_signed_witness:
  "\<exists>rr' pk sw w. RRSIG_Verify ex_openssl ex_DNSKEY (map Some [ex_A]) rr' = Ok () \<and> public_key ex_openssl ex_DNSKEY = Some pk \<and>
     VerifyPKCS1v15 ex_openssl pk (GetDigestByName ex_openssl (AlgorithmToHash (RRSIG_Algorithm rr'))) (sw @ w)
       (openssl_sig (RRSIG_Algorithm rr') (sigBuf rr')) = Ok ()"
proof -
  obtain rr' where v: "RRSIG_Verify ex_openssl ex_DNSKEY (map Some [ex_A]) rr' = Ok ()"
    using signed_once [OF ex_key_pair ex_rrset_signable, of "[ex_A]"] by auto
  from accepted_rrset_is_signed [OF v] v show ?thesis by blast
qed

theorem ValidityPeriod_is_plain_witness: "ValidityPeriod ex_RRSIG 15 \<and> \<not> ValidityPeriod (ex_RRSIG\<lparr>RRSIG_Inception := 0xFFFFFFF0\<rparr>) 15"
  using ValidityPeriod_is_plain [of 15] by (simp add: ex_RRSIG_def)

end
