(* ===== verification/Spec2Isabelle.thy ===== *)
theory Spec2Isabelle
  imports Duplicates Xfr Dnssec
begin

text \<open>
  A verification library for a DNS library in Go, a fork of \<^verbatim>\<open>miekg/dns\<close> that signs
  with OpenSSL. The program turns DNS messages into octets and back, with name compression, EDNS and
  some eighty record types; around this core it has servers and clients, zone transfers, transaction signatures, a zone file parser and
  DNSSEC. What is modelled is the core, which is the data and every function between a message and its octets, and on
  top of it transaction signatures, DNSSEC signatures, and how servers, clients and transfers treat messages.

  \<^bold>\<open>The parts and how they interact.\<close> A message (\<^verbatim>\<open>Msg\<close>, \<^verbatim>\<open>msg.go\<close>) has a
  header, questions and three sections of records. \<^verbatim>\<open>Pack\<close> asks every record for its length
  (\<^verbatim>\<open>len\<close>, \<^verbatim>\<open>ztypes.go\<close>) to size a buffer, then packs header, questions and records
  into it, with one compression map through all of them. A record packs its header, then its data with
  the method of its type (\<^verbatim>\<open>zmsg.go\<close>), which calls the packers of the fields
  (\<^verbatim>\<open>msg_helpers.go\<close>), and last completes the length in its header. \<^verbatim>\<open>Unpack\<close> goes
  the same way back: it trusts none of the counts and lengths it reads. \<^verbatim>\<open>IsDuplicate\<close>
  compares records; the sort that it uses for SVCB parameters is an argument of the model.

  A server (\<^verbatim>\<open>server.go\<close>) looks at the header of a packet, unpacks the message, checks its transaction signature
  (\<^verbatim>\<open>tsig.go\<close>) and calls a handler, which may be a multiplexer (\<^verbatim>\<open>serve_mux.go\<close>), with a response writer; a
  client (\<^verbatim>\<open>client.go\<close>) writes a message to a connection and reads messages until one is its reply; a zone transfer
  (\<^verbatim>\<open>xfr.go\<close>) is a sequence of messages on one connection.

  \<^bold>\<open>Conventions.\<close> A Go string is the list of its bytes, an integer keeps its width as a word. A
  call that can fail returns \<open>Ok\<close>, \<open>Err\<close> with the error, or \<open>Panic\<close>, where Go
  would stop for an index or a slice out of range, a nil pointer or a failed type assertion; every index
  and slice of the source is checked in the model. Functions that return an offset with their error keep
  it (\<open>off_res\<close>). A buffer that is written in place, and a map that is added to, is returned.
  \<open>nil\<close> and empty slices are not told apart where the code does not.

  \<^bold>\<open>The theories\<close>, bottom up:
  \<^item> \<open>Dns_Prelude\<close>: results, slices, big-endian integers, and the rules the components share,
    among them \<open>safe r Q\<close>: no panic, and \<open>Q\<close> of the result.
  \<^item> \<open>Names\<close>: names as text (\<^verbatim>\<open>labels.go\<close>, \<^verbatim>\<open>defaults.go\<close>); the reference is
    the list of labels that a name stands for.
  \<^item> \<open>Domain_Wire\<close>: names on the wire (\<^verbatim>\<open>msg.go\<close>); \<open>name_at\<close> is what RFC 1035
    says a message holds at an offset, and the packer is reduced to a plain recursion over the name.
  \<^item> \<open>Wire_Fields\<close>, \<open>Encodings\<close>, \<open>Type_Bitmap\<close>, \<open>Apl_Gateway\<close>,
    \<open>Edns\<close>, \<open>Svcb\<close>: the fields (\<^verbatim>\<open>msg_helpers.go\<close>, \<^verbatim>\<open>edns.go\<close>,
    \<^verbatim>\<open>svcb.go\<close>); the locales \<open>field_writer\<close>, \<open>wire_field\<close> and \<open>rest_field\<close> say what a
    packer promises and are interpreted on each of them.
  \<^item> \<open>RR_Types\<close>, \<open>Zmsg_Pack\<close>, \<open>Zmsg_Unpack\<close>, \<open>RR_Len\<close>: the record
    structs and their methods \<^verbatim>\<open>pack\<close>, \<^verbatim>\<open>unpack\<close> and \<^verbatim>\<open>len\<close>.
  \<^item> \<open>Record_Codec\<close>, \<open>Rdata_Codec\<close>: the round trip and the absence of panics for the data
    of every type, from rules for the fields; \<open>Record_Size\<close>, \<open>Rdata_Size\<close>: the length
    is enough, and what is written does not depend on the buffer.
  \<^item> \<open>RR_Wire\<close>: records with their headers; \<open>Opt_Header\<close>: the fields that EDNS keeps in the
    header of an OPT record, refined to a record of values; \<open>Message\<close>: messages.
  \<^item> \<open>Len_Bound\<close>, \<open>Message_Len\<close>: the length with compression is an upper bound, by an
    invariant between the set of names that \<^verbatim>\<open>Len\<close> keeps and the map of \<^verbatim>\<open>Pack\<close>.
  \<^item> \<open>Truncate\<close>: \<^verbatim>\<open>msg_truncate.go\<close>; what is kept is the longest prefix that fits, and the
    truncated reply packs into the size that was asked for.
  \<^item> \<open>Duplicates\<close>: \<^verbatim>\<open>duplicate.go\<close> and \<^verbatim>\<open>zduplicate.go\<close>, refined to equality of
    normal forms, for every sort by keys (the locales \<open>normal_form\<close> and \<open>key_sort\<close>).
  \<^item> \<open>Sha_Hmac\<close>: the hash functions of the standard library; \<open>Message_Body\<close>: the octets of a
    message, record by record; \<open>Tsig\<close>: \<^verbatim>\<open>tsig.go\<close>, with the locale \<open>tsig_provider\<close> for what a provider promises,
    interpreted on both providers of the code.
  \<^item> \<open>Requests\<close>: the setters of \<^verbatim>\<open>defaults.go\<close> and the updates of \<^verbatim>\<open>update.go\<close>.
  \<^item> \<open>Serving\<close>: \<^verbatim>\<open>acceptfunc.go\<close>, \<^verbatim>\<open>serve_mux.go\<close> and the handling of requests in \<^verbatim>\<open>server.go\<close>;
    \<open>Client_Conn\<close>: connections and exchanges of \<^verbatim>\<open>client.go\<close>; \<open>Xfr\<close>: \<^verbatim>\<open>xfr.go\<close>. The state of a connection is
    what has been written to it and what is still to be read from it.
  \<^item> \<open>Asn1_Ecdsa\<close>, \<open>Dnssec\<close>: \<^verbatim>\<open>dnssec.go\<close>: key tags, \<^verbatim>\<open>ToDS\<close>, public keys, the
    canonical form of a set of records, \<^verbatim>\<open>Sign\<close>, \<^verbatim>\<open>Verify\<close> and the validity period, with the two forms that an
    ECDSA signature has. OpenSSL is a record of functions that the definitions take as an argument; what signing and verifying
    promise each other is a named hypothesis.

  \<^bold>\<open>What is shown.\<close> Round trips: names, fields, the data of every record type, records and whole
  messages read back after packing, with and without compression. Safety: unpacking any octets does not
  panic, stays inside the message and is bounded by its length; what it returns is well typed, so that
  the functions on messages that assert types do not panic either. Exactness: \<^verbatim>\<open>UnpackDomainName\<close>
  accepts exactly the names that RFC 1035 defines within its limits, the label functions agree with the list
  of labels. Liveness and bounds: a buffer of the computed length is enough, and the length with compression
  is never too small. Errors: what is refused, and with which error. Across components: a signed message verifies, and what verifies carries the
  MAC of its octets within its time; a set of records that was signed verifies with the public key, whatever the order, repetitions and TTLs of its
  records, and what verifies is the canonical form of the set under the key, which is that of RFC 4034 but for NXT records; no packet crashes the server; a query is answered, and a zone transfer ends and delivers the zone, from the
  client through the octets and the server's handler and back.

  \<^bold>\<open>Bounds.\<close> No definition has fuel: every loop is a structural recursion or has a termination
  proof; following compression pointers ends because of the limit of 126 pointers that the code has, and
  the budget of 255 octets.

  \<^bold>\<open>Not modelled.\<close> Sockets, TLS, deadlines, goroutines and locks of servers and clients: the network is an argument, as
  is the clock. The zone file lexer and the parse methods; the generation and the files of keys, and SIG(0);
  the printing of records; copying, as values have no identity here. The record that
  \<^verbatim>\<open>UnpackRR\<close> returns next to an error is dropped. A record of a message may be nil, but an option of an OPT record and a
  parameter of an SVCB or HTTPS record may not: on these the code panics, when it packs them, takes their length or compares them. The sorts of
  Go are not stable: where \<^verbatim>\<open>IsDuplicate\<close> compares records with repeated keys this matters, and the sort is an argument; \<^verbatim>\<open>packDataSVCB\<close>
  refuses repeated keys, and in the canonical form of one set of records those with equal data have equal octets, so that there a stable sort
  is as good as any.
\<close>

end
